(* ===== verification/Prelude.thy ===== *)
theory Prelude
  imports Main "HOL-Library.List_Lexorder" "HOL-Library.Char_ord" "HOL-Library.Sublist"
begin

text \<open>
  Shared vocabulary of the development: Python values as they come out of a JSON or YAML
  document, the string operations the code uses, the closed identifier grammars that the code
  checks with regular expressions, and raised exceptions as values of a sum type.

  A Python string is a \<open>char list\<close> holding its UTF-8 bytes; byte order on UTF-8 is code point
  order, so the lexicographic order of \<open>List_Lexorder\<close> is Python's order of strings. Case mapping
  and white space follow Python on ASCII; the code's own literals are ASCII (with one exception,
  spelled out in bytes where it occurs). Floats do not occur in the modelled documents.
\<close>

section \<open>Exceptions and results\<close>

datatype exc = ValueError string | TypeError string | IndexError string | OSError string
  | RuntimeError string | AssertionError string | AttributeError string | KeyError string

type_synonym 'a result = "exc + 'a"

fun is_ok :: "'a result \<Rightarrow> bool" where
  "is_ok (Inl _) = False"
| "is_ok (Inr _) = True"

lemma is_ok_iff: "is_ok r \<longleftrightarrow> (\<exists>x. r = Inr x)"
  by (cases r) auto

named_theorems guard_simps \<open>definitions of the guards and the closed grammars\<close>
named_theorems step_intros \<open>introduction rules of the step relations\<close>

section \<open>Strings\<close>

definition is_ws :: "char \<Rightarrow> bool" where
  "is_ws c = (let n = of_char c :: nat in 9 \<le> n \<and> n \<le> 13 \<or> 28 \<le> n \<and> n \<le> 32)"

definition rstrip_by :: "(char \<Rightarrow> bool) \<Rightarrow> string \<Rightarrow> string" where
  "rstrip_by p s = rev (dropWhile p (rev s))"

definition strip_by :: "(char \<Rightarrow> bool) \<Rightarrow> string \<Rightarrow> string" where
  "strip_by p s = rstrip_by p (dropWhile p s)"

definition py_strip :: "string \<Rightarrow> string" where
  "py_strip s = strip_by is_ws s"

definition py_rstrip :: "string \<Rightarrow> string" where
  "py_rstrip s = rstrip_by is_ws s"

definition strip_char :: "char \<Rightarrow> string \<Rightarrow> string" where
  "strip_char c s = strip_by (\<lambda>x. x = c) s"

definition lower_char :: "char \<Rightarrow> char" where
  "lower_char c = (let n = of_char c :: nat in if 65 \<le> n \<and> n \<le> 90 then char_of (n + 32) else c)"

definition upper_char :: "char \<Rightarrow> char" where
  "upper_char c = (let n = of_char c :: nat in if 97 \<le> n \<and> n \<le> 122 then char_of (n - 32) else c)"

definition py_lower :: "string \<Rightarrow> string" where
  "py_lower s = map lower_char s"

definition py_upper :: "string \<Rightarrow> string" where
  "py_upper s = map upper_char s"

definition replace_char :: "char \<Rightarrow> char \<Rightarrow> string \<Rightarrow> string" where
  "replace_char a b s = map (\<lambda>c. if c = a then b else c) s"

text \<open>\<open>s.split(pat, 1)[0]\<close>: everything before the first occurrence, or all of \<open>s\<close>.\<close>

fun before_sub :: "string \<Rightarrow> string \<Rightarrow> string" where
  "before_sub pat [] = []"
| "before_sub pat (c # cs) = (if prefix pat (c # cs) then [] else c # before_sub pat cs)"

fun contains_sub :: "string \<Rightarrow> string \<Rightarrow> bool" where
  "contains_sub pat [] = (pat = [])"
| "contains_sub pat (c # cs) = (prefix pat (c # cs) \<or> contains_sub pat cs)"

text \<open>\<open>s.split(c)\<close> for a one-character separator: never empty.\<close>

fun split_char :: "char \<Rightarrow> string \<Rightarrow> string list" where
  "split_char sep [] = [[]]"
| "split_char sep (c # cs) =
     (if c = sep then [] # split_char sep cs
      else case split_char sep cs of [] \<Rightarrow> [[c]] | w # ws \<Rightarrow> (c # w) # ws)"

fun join_with :: "string \<Rightarrow> string list \<Rightarrow> string" where
  "join_with sep [] = []"
| "join_with sep [w] = w"
| "join_with sep (w # ws) = w @ sep @ join_with sep ws"

lemma split_char_not_Nil [simp]: "split_char sep s \<noteq> []"
  by (induction s) (auto split: list.splits)

lemma split_char_no_sep: "w \<in> set (split_char sep s) \<Longrightarrow> sep \<notin> set w"
  by (induction s arbitrary: w) (auto split: list.splits if_splits)

lemma split_char_whole: "sep \<notin> set s \<Longrightarrow> split_char sep s = [s]"
  by (induction s) auto

lemma split_char_append:
  "sep \<notin> set w \<Longrightarrow> split_char sep (w @ sep # s) = w # split_char sep s"
  by (induction w) auto

lemma split_char_join:
  "\<forall>w \<in> set ws. sep \<notin> set w \<Longrightarrow> ws \<noteq> [] \<Longrightarrow> split_char sep (join_with [sep] ws) = ws"
proof (induction "[sep]" ws rule: join_with.induct)
  case (3 w v ws)
  then show ?case by (simp add: split_char_append)
qed (simp_all add: split_char_whole)

section \<open>Identifier grammars\<close>

definition ascii_lower :: "char \<Rightarrow> bool" where
  "ascii_lower c = (let n = of_char c :: nat in 97 \<le> n \<and> n \<le> 122)"

definition ascii_upper :: "char \<Rightarrow> bool" where
  "ascii_upper c = (let n = of_char c :: nat in 65 \<le> n \<and> n \<le> 90)"

definition ascii_digit :: "char \<Rightarrow> bool" where
  "ascii_digit c = (let n = of_char c :: nat in 48 \<le> n \<and> n \<le> 57)"

definition ascii_alnum :: "char \<Rightarrow> bool" where
  "ascii_alnum c = (ascii_lower c \<or> ascii_upper c \<or> ascii_digit c)"

definition lower_hex :: "char \<Rightarrow> bool" where
  "lower_hex c = (let n = of_char c :: nat in 48 \<le> n \<and> n \<le> 57 \<or> 97 \<le> n \<and> n \<le> 102)"

definition hex_id :: "nat \<Rightarrow> string \<Rightarrow> bool" where
  "hex_id n s = (length s = n \<and> list_all lower_hex s)"

abbreviation digest_re :: "string \<Rightarrow> bool" where "digest_re s \<equiv> hex_id 64 s"

abbreviation oid_re :: "string \<Rightarrow> bool" where "oid_re s \<equiv> hex_id 40 s"

text \<open>\<open>^[A-Za-z0-9][A-Za-z0-9 + extra]{0,127}$\<close> under \<open>fullmatch\<close>.\<close>

definition ident_re :: "string \<Rightarrow> string \<Rightarrow> bool" where
  "ident_re extra s = (case s of [] \<Rightarrow> False
     | c # cs \<Rightarrow> ascii_alnum c \<and> length cs \<le> 127 \<and> list_all (\<lambda>x. ascii_alnum x \<or> x \<in> set extra) cs)"

lemmas char_class_defs [guard_simps] =
  ascii_lower_def ascii_upper_def ascii_digit_def ascii_alnum_def lower_hex_def

text \<open>The classes as conditions on bits, for evaluation.\<close>

lemma char_class_code [code]:
  "ascii_lower (Char a b c d e f g h) = (\<not> h \<and> g \<and> f \<and> (if e then \<not> (d \<and> (c \<or> b \<and> a)) else a \<or> b \<or> c \<or> d))"
  "ascii_upper (Char a b c d e f g h) = (\<not> h \<and> g \<and> \<not> f \<and> (if e then \<not> (d \<and> (c \<or> b \<and> a)) else a \<or> b \<or> c \<or> d))"
  "ascii_digit (Char a b c d e f g h) = (\<not> h \<and> \<not> g \<and> f \<and> e \<and> \<not> (d \<and> (c \<or> b)))"
  "lower_hex (Char a b c d e f g h) =
     (\<not> h \<and> f \<and> (if g then \<not> e \<and> \<not> d \<and> (a \<or> b \<or> c) \<and> \<not> (a \<and> b \<and> c) else e \<and> \<not> (d \<and> (c \<or> b))))"
  by (cases a; cases b; cases c; cases d; cases e; cases f; cases g; cases h;
      simp add: ascii_lower_def ascii_upper_def ascii_digit_def lower_hex_def Let_def)+

declare hex_id_def [guard_simps] ident_re_def [guard_simps]

lemma ident_re_chars: "ident_re extra s \<Longrightarrow> c \<in> set s \<Longrightarrow> ascii_alnum c \<or> c \<in> set extra"
  by (auto simp: ident_re_def list_all_iff split: list.splits)

lemma ident_re_not_Nil: "ident_re extra s \<Longrightarrow> s \<noteq> []"
  by (auto simp: ident_re_def)

lemma hex_id_replicate: "length s = n \<Longrightarrow> list_all lower_hex s \<Longrightarrow> hex_id n s"
  by (simp add: hex_id_def)

section \<open>Python values\<close>

datatype pyval = PNone | PBool bool | PInt int | PStr string | PList "pyval list"
  | PDict "(string \<times> pyval) list"

type_synonym pydict = "(string \<times> pyval) list"

text \<open>\<open>d.get(k)\<close>: \<open>None\<close> for a missing key.\<close>

definition dget :: "pydict \<Rightarrow> string \<Rightarrow> pyval" where
  "dget d k = (case map_of d k of None \<Rightarrow> PNone | Some v \<Rightarrow> v)"

definition dkeys :: "pydict \<Rightarrow> string set" where
  "dkeys d = set (map fst d)"

fun truthy :: "pyval \<Rightarrow> bool" where
  "truthy PNone = False"
| "truthy (PBool b) = b"
| "truthy (PInt i) = (i \<noteq> 0)"
| "truthy (PStr s) = (s \<noteq> [])"
| "truthy (PList xs) = (xs \<noteq> [])"
| "truthy (PDict d) = (d \<noteq> [])"

fun is_str :: "pyval \<Rightarrow> bool" where
  "is_str (PStr _) = True"
| "is_str _ = False"

fun nat_digits :: "nat \<Rightarrow> string" where
  "nat_digits n = (if n < 10 then [char_of (48 + n)] else nat_digits (n div 10) @ [char_of (48 + n mod 10)])"

declare nat_digits.simps [simp del]

definition int_str :: "int \<Rightarrow> string" where
  "int_str i = (if i < 0 then CHR ''-'' # nat_digits (nat (- i)) else nat_digits (nat i))"

text \<open>\<open>repr\<close> of a string, on printable text.\<close>

definition repr_str :: "string \<Rightarrow> string" where
  "repr_str s =
     (let q = (if CHR 0x27 \<in> set s \<and> CHR 0x22 \<notin> set s then CHR 0x22 else CHR 0x27)
      in [q] @ concat (map (\<lambda>c. if c = q \<or> c = CHR 0x5C then [CHR 0x5C, c]
            else if c = CHR 0x0A then [CHR 0x5C, CHR ''n'']
            else if c = CHR 0x0D then [CHR 0x5C, CHR ''r'']
            else if c = CHR 0x09 then [CHR 0x5C, CHR ''t''] else [c]) s) @ [q])"

fun py_repr :: "pyval \<Rightarrow> string" where
  "py_repr PNone = ''None''"
| "py_repr (PBool b) = (if b then ''True'' else ''False'')"
| "py_repr (PInt i) = int_str i"
| "py_repr (PStr s) = repr_str s"
| "py_repr (PList xs) = ''['' @ join_with '', '' (map py_repr xs) @ '']''"
| "py_repr (PDict d) =
     ''{'' @ join_with '', '' (map (\<lambda>(k, v). repr_str k @ '': '' @ py_repr v) d) @ ''}''"

definition py_str :: "pyval \<Rightarrow> string" where
  "py_str v = (case v of PStr s \<Rightarrow> s | _ \<Rightarrow> py_repr v)"

text \<open>The idiom \<open>str(v or "")\<close>.\<close>

definition str_or_empty :: "pyval \<Rightarrow> string" where
  "str_or_empty v = (if truthy v then py_str v else [])"

lemma str_or_empty_PStr [simp]: "str_or_empty (PStr s) = s"
  by (simp add: str_or_empty_def py_str_def)

lemma str_or_empty_PNone [simp]: "str_or_empty PNone = []"
  by (simp add: str_or_empty_def)

text \<open>
  Python's \<open>==\<close>: booleans equal the integers 0 and 1, and the order of keys in a dictionary is
  irrelevant. Two values are equal when their canonical forms are.
\<close>

fun py_norm :: "pyval \<Rightarrow> pyval" where
  "py_norm PNone = PNone"
| "py_norm (PBool b) = PInt (if b then 1 else 0)"
| "py_norm (PInt i) = PInt i"
| "py_norm (PStr s) = PStr s"
| "py_norm (PList xs) = PList (map py_norm xs)"
| "py_norm (PDict d) = PDict (sort_key fst (map (\<lambda>(k, v). (k, py_norm v)) d))"

definition py_eq :: "pyval \<Rightarrow> pyval \<Rightarrow> bool" where
  "py_eq a b = (py_norm a = py_norm b)"

lemma py_eq_refl [simp]: "py_eq v v"
  by (simp add: py_eq_def)

lemma py_eq_PStr [simp]: "py_eq v (PStr s) \<longleftrightarrow> v = PStr s"
  by (cases v) (auto simp: py_eq_def)

lemma dget_Cons [simp]: "dget ((k, v) # d) k' = (if k' = k then v else dget d k')"
  by (simp add: dget_def)

lemma dget_Nil [simp]: "dget [] k = PNone"
  by (simp add: dget_def)

lemma dkeys_Cons [simp]: "dkeys ((k, v) # d) = insert k (dkeys d)"
  by (simp add: dkeys_def)

lemma dkeys_Nil [simp]: "dkeys [] = {}"
  by (simp add: dkeys_def)

lemma dget_append: "dget (d @ d') k = (if k \<in> dkeys d then dget d k else dget d' k)"
  by (induction d) auto

section \<open>Generic lemmas\<close>

lemma map_of_zip_self: "x \<in> set xs \<Longrightarrow> map_of (map (\<lambda>y. (y, f y)) xs) x = Some (f x)"
  by (induction xs) auto

lemma rtranclp_invariant:
  "step\<^sup>*\<^sup>* s t \<Longrightarrow> P s \<Longrightarrow> (\<And>x y. step x y \<Longrightarrow> P x \<Longrightarrow> P y) \<Longrightarrow> P t"
  by (induction rule: rtranclp_induct) auto

end
