(* ===== verification/Status_Graph.thy ===== *)
theory Status_Graph
  imports Prelude
begin

text \<open>
  The contract shared by the two status machines of the program (the native CR status graph and
  the Work status graph): accepted steps stay inside the legal states, terminal states are left
  by no step, and every legal state has a run to a terminal one. The consequences for whole runs
  are proved here once.
\<close>

locale status_graph =
  fixes step :: "'s \<Rightarrow> 's \<Rightarrow> bool"
    and legal :: "'s \<Rightarrow> bool"
    and terminal :: "'s \<Rightarrow> bool"
  assumes step_legal: "step s t \<Longrightarrow> legal s \<and> legal t"
    and terminal_stuck: "step s t \<Longrightarrow> terminal s \<Longrightarrow> t = s"
    and reaches_terminal: "legal s \<Longrightarrow> \<exists>t. step\<^sup>*\<^sup>* s t \<and> terminal t"
begin

lemma run_legal: "step\<^sup>*\<^sup>* s t \<Longrightarrow> legal s \<Longrightarrow> legal t"
  by (erule rtranclp_invariant) (auto dest: step_legal)

lemma run_from_terminal: "step\<^sup>*\<^sup>* s t \<Longrightarrow> terminal s \<Longrightarrow> t = s"
proof (induction rule: rtranclp_induct)
  case (step y z)
  then show ?case using terminal_stuck by blast
qed simp

lemma run_first_step_legal: "step\<^sup>*\<^sup>* s t \<Longrightarrow> s \<noteq> t \<Longrightarrow> legal s \<and> legal t"
proof (induction rule: converse_rtranclp_induct)
  case (step y z)
  then show ?case using step_legal run_legal by blast
qed simp

text \<open>No run leads from one terminal state to another one.\<close>

lemma terminal_run_unique:
  "step\<^sup>*\<^sup>* s t \<Longrightarrow> step\<^sup>*\<^sup>* t u \<Longrightarrow> terminal t \<Longrightarrow> u = t"
  by (rule run_from_terminal)

end

text \<open>A graph whose states carry a pipeline position that no step decreases.\<close>

locale ranked_status_graph = status_graph +
  fixes rank :: "'a \<Rightarrow> nat"
  assumes step_rank: "step s t \<Longrightarrow> rank s \<le> rank t"
begin

lemma run_rank: "step\<^sup>*\<^sup>* s t \<Longrightarrow> rank s \<le> rank t"
  by (induction rule: rtranclp_induct) (auto dest: step_rank)

text \<open>A run that comes back to its start never left its pipeline position.\<close>

lemma cycle_constant_rank: "step\<^sup>*\<^sup>* s t \<Longrightarrow> step\<^sup>*\<^sup>* t s \<Longrightarrow> rank t = rank s"
  using run_rank by (meson le_antisym)

end

end
