(* ===== verification/Cr_Status.thy ===== *)
theory Cr_Status
  imports Status_Graph
begin

text \<open>
  \<open>semantics/cr_status.py\<close>: the native status of a change request is a triple of lifecycle,
  readiness and gate. The owner normalises the three strings, checks the triple against a closed
  table, and admits a transition only along the edges of \<open>native_transition_edges\<close>.
\<close>

section \<open>Vocabulary\<close>

definition native_lifecycle_statuses :: "string list" where
  "native_lifecycle_statuses =
     [''candidate'', ''active'', ''blocked'', ''closed'', ''cancelled'', ''superseded'']"

definition native_readiness_statuses :: "string list" where
  "native_readiness_statuses = [''ready'', ''ready_with_risk'', ''not_ready'', ''n/a'']"

definition native_gate_statuses :: "string list" where
  "native_gate_statuses =
     [''not_started'', ''cp2_pending'', ''cp3_pending'', ''cp5_pending'', ''cp7_pending'',
      ''cp8_pending'', ''implementation_in_progress'', ''verification_in_progress'',
      ''cp8_closed'', ''cp8_recovery_closed'', ''closed'']"

definition active_gates :: "string list" where
  "active_gates =
     [''cp2_pending'', ''cp3_pending'', ''cp5_pending'', ''implementation_in_progress'',
      ''verification_in_progress'', ''cp7_pending'', ''cp8_pending'']"

type_synonym native = "string \<times> string \<times> string"

section \<open>Normalisation\<close>

definition strip_scalar :: "string \<Rightarrow> string" where
  "strip_scalar value =
     (let raw = py_strip value;
          raw = (if contains_sub '' #'' raw then py_rstrip (before_sub '' #'' raw) else raw)
      in strip_char CHR 0x27 (strip_char CHR 0x22 (py_strip (strip_char CHR 0x60 (py_strip raw)))))"

definition normalize_formal_status :: "string \<Rightarrow> string" where
  "normalize_formal_status value =
     (let status = py_lower (strip_scalar value)
      in if status = [] then []
         else if prefix ''closed'' status \<or> status \<in> {''implemented'', ''approved''} then ''closed''
         else if prefix ''cancelled'' status \<or> status = ''deleted-by-user'' then ''cancelled''
         else if prefix ''blocked'' status then ''blocked''
         else if prefix ''active'' status then ''active''
         else if status \<in> {''spike-candidate'', ''spike candidate''} then ''spike_candidate''
         else status)"

definition normalize_lifecycle_status :: "string \<Rightarrow> string \<Rightarrow> string" where
  "normalize_lifecycle_status value fallback_status =
     (let lifecycle = replace_char CHR ''-'' CHR ''_'' (py_lower (strip_scalar value))
      in if lifecycle \<in> set native_lifecycle_statuses then lifecycle
         else let status = normalize_formal_status fallback_status
              in if status \<in> {''candidate'', ''spike_candidate''} then ''candidate''
                 else if status \<in> {''open'', ''pending''} then ''active''
                 else if status \<in> {''active'', ''blocked'', ''closed'', ''cancelled'', ''superseded''}
                 then status
                 else if status \<in> {''converted-to-spike'', ''converted_to_spike''} then ''active''
                 else lifecycle)"

definition normalize_readiness_status :: "string \<Rightarrow> string" where
  "normalize_readiness_status value =
     (let readiness = replace_char CHR ''-'' CHR ''_'' (py_lower (strip_scalar value))
      in if readiness \<in> {''na'', ''not_applicable'', ''not-applicable''} then ''n/a'' else readiness)"

text \<open>The third alias is the Chinese literal of the source (three characters), in UTF-8.\<close>

definition not_started_zh :: string where
  "not_started_zh = [CHR 0xE6, CHR 0x9C, CHR 0xAA, CHR 0xE5, CHR 0x90, CHR 0xAF, CHR 0xE5, CHR 0x8A, CHR 0xA8]"

definition normalize_gate_status :: "string \<Rightarrow> string \<Rightarrow> string" where
  "normalize_gate_status value fallback_gate =
     (let gate = replace_char CHR ''-'' CHR ''_''
            (py_lower (strip_scalar (if value \<noteq> [] then value else fallback_gate)))
      in if gate \<in> {''not_started'', ''not-started'', not_started_zh} then ''not_started'' else gate)"

definition normalize_native :: "native \<Rightarrow> native" where
  "normalize_native t = (case t of (l, r, g) \<Rightarrow>
     (normalize_lifecycle_status l [], normalize_readiness_status r, normalize_gate_status g []))"

section \<open>Legal triples and the transition graph\<close>

text \<open>The \<open>legal\<close> flag computed by the \<open>if\<close>/\<open>elif\<close> chain, on normalised strings.\<close>

fun legal_native :: "native \<Rightarrow> bool" where
  "legal_native (lifecycle, readiness, gate) =
     (if lifecycle = ''candidate'' then readiness = ''not_ready'' \<and> gate = ''not_started''
      else if lifecycle \<in> {''active'', ''blocked''} then readiness = ''not_ready'' \<and> gate \<in> set active_gates
      else if lifecycle = ''closed'' then readiness \<in> {''ready'', ''ready_with_risk''}
             \<and> gate \<in> {''closed'', ''cp8_closed'', ''cp8_recovery_closed''}
      else if lifecycle \<in> {''cancelled'', ''superseded''} then readiness = ''n/a'' \<and> gate = ''closed''
      else False)"

definition or_dash :: "string \<Rightarrow> string" where
  "or_dash s = (if s = [] then ''-'' else s)"

definition validate_native_status_tuple :: "native \<Rightarrow> string list" where
  "validate_native_status_tuple t =
     (let n = normalize_native t
      in if legal_native n then []
         else [''illegal native status tuple: '' @ or_dash (fst n) @ '' / ''
               @ or_dash (fst (snd n)) @ '' / '' @ or_dash (snd (snd n))])"

definition native_transition_edges :: "(native \<times> native) list" where
  "native_transition_edges =
     map (\<lambda>(left, right). ((''active'', ''not_ready'', left), (''active'', ''not_ready'', right)))
       (zip active_gates (tl active_gates))
     @ [((''candidate'', ''not_ready'', ''not_started''), (''active'', ''not_ready'', ''cp2_pending'')),
        ((''candidate'', ''not_ready'', ''not_started''), (''active'', ''not_ready'', ''cp3_pending'')),
        ((''active'', ''not_ready'', ''cp8_pending''), (''closed'', ''ready'', ''cp8_closed'')),
        ((''active'', ''not_ready'', ''cp8_pending''), (''closed'', ''ready_with_risk'', ''cp8_closed'')),
        ((''blocked'', ''not_ready'', ''cp8_pending''), (''closed'', ''ready_with_risk'', ''cp8_recovery_closed''))]
     @ concat (map (\<lambda>gate.
         [((''active'', ''not_ready'', gate), (''blocked'', ''not_ready'', gate)),
          ((''blocked'', ''not_ready'', gate), (''active'', ''not_ready'', gate))]
         @ concat (map (\<lambda>lifecycle. map (\<lambda>readiness.
             ((lifecycle, ''not_ready'', gate), (''closed'', readiness, ''closed'')))
             [''ready'', ''ready_with_risk'']) [''active'', ''blocked''])) active_gates)"

definition slash3 :: "native \<Rightarrow> string" where
  "slash3 t = join_with ''/'' [fst t, fst (snd t), snd (snd t)]"

definition validate_native_transition :: "native \<Rightarrow> native \<Rightarrow> bool \<Rightarrow> string list" where
  "validate_native_transition before after historical_migration =
     (let target_errors = validate_native_status_tuple after
      in if target_errors \<noteq> [] then target_errors
         else let source = normalize_native before; target = normalize_native after
              in if historical_migration then
                   (if fst target = ''active'' \<and> fst source \<in> {''closed'', ''cancelled'', ''superseded''}
                    then [''historical migration must not reactivate a terminal CR''] else [])
                 else if source = target \<or> (source, target) \<in> set native_transition_edges then []
                 else [''illegal native status transition: '' @ slash3 source @ '' -> '' @ slash3 target])"

section \<open>The graph as a step relation\<close>

definition terminal_native :: "native \<Rightarrow> bool" where
  "terminal_native t = (fst t \<in> {''closed'', ''cancelled'', ''superseded''})"

text \<open>Position of a gate in the delivery pipeline; all closing gates share the last position.\<close>

definition gate_rank :: "native \<Rightarrow> nat" where
  "gate_rank t = (let g = snd (snd t) in
     if g = ''not_started'' then 0
     else if g \<in> set active_gates then Suc (length (takeWhile (\<lambda>x. x \<noteq> g) active_gates)) else 8)"

text \<open>A native transition between stored (already normalised) triples that the owner accepts.\<close>

definition native_step :: "native \<Rightarrow> native \<Rightarrow> bool" where
  "native_step s t = (normalize_native s = s \<and> normalize_native t = t
     \<and> validate_native_transition s t False = [])"

lemma validate_native_status_tuple_ok:
  "validate_native_status_tuple t = [] \<longleftrightarrow> legal_native (normalize_native t)"
  by (simp add: validate_native_status_tuple_def Let_def)

lemma validate_native_transition_ok:
  "validate_native_transition s t False = [] \<longleftrightarrow>
     legal_native (normalize_native t)
     \<and> (normalize_native s = normalize_native t
        \<or> (normalize_native s, normalize_native t) \<in> set native_transition_edges)"
  using validate_native_status_tuple_ok [of t]
  by (auto simp: validate_native_transition_def Let_def split: if_splits)

lemma vocabulary_normal:
  "l \<in> set native_lifecycle_statuses \<Longrightarrow> normalize_lifecycle_status l [] = l"
  "r \<in> set native_readiness_statuses \<Longrightarrow> normalize_readiness_status r = r"
  "g \<in> set native_gate_statuses \<Longrightarrow> normalize_gate_status g [] = g"
proof -
  have "list_all (\<lambda>l. normalize_lifecycle_status l [] = l) native_lifecycle_statuses"
    and "list_all (\<lambda>r. normalize_readiness_status r = r) native_readiness_statuses"
    and "list_all (\<lambda>g. normalize_gate_status g [] = g) native_gate_statuses"
    by code_simp+
  then show
    "l \<in> set native_lifecycle_statuses \<Longrightarrow> normalize_lifecycle_status l [] = l"
    "r \<in> set native_readiness_statuses \<Longrightarrow> normalize_readiness_status r = r"
    "g \<in> set native_gate_statuses \<Longrightarrow> normalize_gate_status g [] = g"
    by (simp_all add: list_all_iff)
qed

lemma if_chain4:
  "(if A then P else if B then Q else if C then R else if D then S else False) \<Longrightarrow>
     A \<and> P \<or> B \<and> Q \<or> C \<and> R \<or> D \<and> S"
  by (simp split: if_splits)

lemma vocabulary_members:
  "''candidate'' \<in> set native_lifecycle_statuses" "{''active'', ''blocked''} \<subseteq> set native_lifecycle_statuses"
  "''closed'' \<in> set native_lifecycle_statuses" "{''cancelled'', ''superseded''} \<subseteq> set native_lifecycle_statuses"
  "''not_ready'' \<in> set native_readiness_statuses" "{''ready'', ''ready_with_risk''} \<subseteq> set native_readiness_statuses"
  "''n/a'' \<in> set native_readiness_statuses" "''not_started'' \<in> set native_gate_statuses"
  "set active_gates \<subseteq> set native_gate_statuses" "''closed'' \<in> set native_gate_statuses"
  "{''closed'', ''cp8_closed'', ''cp8_recovery_closed''} \<subseteq> set native_gate_statuses"
  by code_simp+

lemma legal_native_vocabulary:
  assumes "legal_native (l, r, g)"
  shows "l \<in> set native_lifecycle_statuses \<and> r \<in> set native_readiness_statuses \<and> g \<in> set native_gate_statuses"
  using if_chain4 [OF assms [unfolded legal_native.simps]] vocabulary_members
  by (elim disjE conjE) (simp_all only: subsetD simp_thms)

lemma legal_native_normal: "legal_native t \<Longrightarrow> normalize_native t = t"
  by (cases t) (simp add: normalize_native_def vocabulary_normal legal_native_vocabulary del: legal_native.simps)

definition edge_ok :: "native \<times> native \<Rightarrow> bool" where
  "edge_ok e = (legal_native (fst e) \<and> legal_native (snd e) \<and> \<not> terminal_native (fst e)
     \<and> gate_rank (fst e) \<le> gate_rank (snd e)
     \<and> fst (snd e) \<notin> {''candidate'', ''cancelled'', ''superseded''}
     \<and> (snd (snd (snd e)) \<in> {''cp8_closed'', ''cp8_recovery_closed''} \<longrightarrow> snd (snd (fst e)) = ''cp8_pending''))"

lemma edges_ok: "(s, t) \<in> set native_transition_edges \<Longrightarrow> edge_ok (s, t)"
proof -
  have "list_all edge_ok native_transition_edges" by code_simp
  then show "(s, t) \<in> set native_transition_edges \<Longrightarrow> edge_ok (s, t)"
    by (auto simp: list_all_iff)
qed

lemma native_step_iff:
  "native_step s t \<longleftrightarrow> legal_native t \<and> (s = t \<or> (s, t) \<in> set native_transition_edges)"
  (is "?L \<longleftrightarrow> ?R")
proof
  assume ?L
  then show ?R unfolding native_step_def validate_native_transition_ok by metis
next
  assume R: ?R
  then have "normalize_native t = t" by (blast intro: legal_native_normal)
  moreover have "normalize_native s = s"
    using R edges_ok [of s t] legal_native_normal [of s] legal_native_normal [of t]
    by (metis edge_ok_def fst_conv)
  ultimately show ?L using R unfolding native_step_def validate_native_transition_ok by simp
qed

lemma native_step_cases:
  "native_step s t \<Longrightarrow> s \<noteq> t \<Longrightarrow> edge_ok (s, t)"
  by (auto simp only: native_step_iff dest: edges_ok)

text \<open>Every gate under way can be closed, and a candidate can be opened.\<close>

lemma close_edge:
  "g \<in> set active_gates \<Longrightarrow> l \<in> {''active'', ''blocked''} \<Longrightarrow>
     native_step (l, ''not_ready'', g) (''closed'', ''ready'', ''closed'')"
  by (auto simp: native_step_iff native_transition_edges_def)

lemma open_edge:
  "native_step (''candidate'', ''not_ready'', ''not_started'') (''active'', ''not_ready'', ''cp2_pending'')"
  by (simp add: native_step_iff native_transition_edges_def active_gates_def)

lemma legal_nonterminal_cases:
  assumes "legal_native t" and "\<not> terminal_native t"
  obtains (candidate) "t = (''candidate'', ''not_ready'', ''not_started'')"
  | (running) l g where "t = (l, ''not_ready'', g)" "l \<in> {''active'', ''blocked''}" "g \<in> set active_gates"
  using assms by (cases t) (auto simp: terminal_native_def split: if_splits)

lemma cp2_active: "''cp2_pending'' \<in> set active_gates"
  by (simp add: active_gates_def)

lemma native_reaches_terminal:
  assumes "legal_native t"
  shows "\<exists>u. native_step\<^sup>*\<^sup>* t u \<and> terminal_native u"
proof (cases "terminal_native t")
  case False
  have closed: "terminal_native (''closed'', ''ready'', ''closed'')" by (simp add: terminal_native_def)
  from assms False show ?thesis
  proof (cases rule: legal_nonterminal_cases)
    case candidate
    moreover have "native_step\<^sup>*\<^sup>* (''candidate'', ''not_ready'', ''not_started'') (''closed'', ''ready'', ''closed'')"
      using open_edge close_edge [OF cp2_active, of "''active''"]
      by (simp add: converse_rtranclp_into_rtranclp r_into_rtranclp)
    ultimately show ?thesis using closed by blast
  next
    case (running l g)
    then show ?thesis using close_edge [of g l] closed by blast
  qed
qed blast

interpretation native_graph: ranked_status_graph native_step legal_native terminal_native gate_rank
proof unfold_locales
  fix s t assume st: "native_step s t"
  then show "legal_native s \<and> legal_native t"
    using native_step_cases [of s t] by (auto simp: native_step_iff edge_ok_def)
  from st show "gate_rank s \<le> gate_rank t"
    using native_step_cases [of s t] by (cases "s = t") (auto simp: edge_ok_def)
  assume "terminal_native s"
  with st show "t = s" using native_step_cases [of s t] by (auto simp: edge_ok_def)
next
  fix s assume "legal_native s"
  then show "\<exists>t. native_step\<^sup>*\<^sup>* s t \<and> terminal_native t" by (rule native_reaches_terminal)
qed

section \<open>Properties\<close>

definition candidate_native :: native where
  "candidate_native = (''candidate'', ''not_ready'', ''not_started'')"

definition cp2_native :: native where
  "cp2_native = (''active'', ''not_ready'', ''cp2_pending'')"

definition closed_native :: native where
  "closed_native = (''closed'', ''ready'', ''closed'')"

lemma example_run: "native_step\<^sup>*\<^sup>* candidate_native cp2_native" "native_step\<^sup>*\<^sup>* cp2_native closed_native"
  "native_step\<^sup>*\<^sup>* candidate_native closed_native"
  using open_edge close_edge [OF cp2_active, of "''active''"]
  by (simp_all add: candidate_native_def cp2_native_def closed_native_def r_into_rtranclp
      converse_rtranclp_into_rtranclp)

text \<open>C20: Along every run of accepted native transitions the gate never moves back in the
  pipeline, a terminal triple is never left, and as soon as anything moves at all both ends of the
  run are legal triples.\<close>

theorem native_run_monotone:
  assumes "native_step\<^sup>*\<^sup>* s t"
  shows "gate_rank s \<le> gate_rank t \<and> (terminal_native s \<longrightarrow> t = s)
    \<and> (s \<noteq> t \<longrightarrow> legal_native s \<and> legal_native t)"
  using assms native_graph.run_rank native_graph.run_from_terminal native_graph.run_first_step_legal
  by blast

theorem native_run_monotone_witness:
  "gate_rank candidate_native \<le> gate_rank closed_native \<and> legal_native closed_native"
proof -
  have "candidate_native \<noteq> closed_native"
    by (simp add: candidate_native_def closed_native_def)
  then show ?thesis using native_run_monotone [OF example_run(3)] by blast
qed

lemma native_step_lifecycle: "native_step s t \<Longrightarrow> s \<noteq> t \<Longrightarrow> fst t \<notin> {''candidate'', ''cancelled'', ''superseded''}"
  using native_step_cases [of s t] by (simp add: edge_ok_def)

text \<open>A change request that starts as a candidate never becomes cancelled or superseded
  through native transitions, and once it has left the candidate triple it never returns to it.\<close>

theorem native_run_from_candidate:
  assumes "native_step\<^sup>*\<^sup>* candidate_native t" and "t \<noteq> candidate_native"
  shows "legal_native t \<and> fst t \<notin> {''candidate'', ''cancelled'', ''superseded''}"
proof -
  from assms have "t = candidate_native \<or> fst t \<notin> {''candidate'', ''cancelled'', ''superseded''}"
  proof (induction rule: rtranclp_induct)
    case (step y z)
    then show ?case using native_step_lifecycle [of y z] by metis
  qed simp
  with assms show ?thesis using native_graph.run_first_step_legal [OF assms(1)] by metis
qed

theorem native_run_from_candidate_witness:
  "legal_native closed_native \<and> fst closed_native \<notin> {''candidate'', ''cancelled'', ''superseded''}"
proof -
  have "closed_native \<noteq> candidate_native"
    by (simp add: candidate_native_def closed_native_def)
  then show ?thesis by (rule native_run_from_candidate [OF example_run(3)])
qed

text \<open>A change request reaches a CP8 closing gate only from the CP8 gate: every run that ends
  in \<open>cp8_closed\<close> or \<open>cp8_recovery_closed\<close> and started elsewhere goes through a triple whose gate
  is \<open>cp8_pending\<close>.\<close>

theorem native_cp8_close_needs_cp8:
  assumes "native_step\<^sup>*\<^sup>* s t" and "snd (snd t) \<in> {''cp8_closed'', ''cp8_recovery_closed''}"
    and "s \<noteq> t"
  shows "\<exists>m. native_step\<^sup>*\<^sup>* s m \<and> native_step m t \<and> snd (snd m) = ''cp8_pending''"
  using assms
proof (induction rule: rtranclp_induct)
  case (step y z)
  show ?case
  proof (cases "y = z")
    case True
    with step show ?thesis by metis
  next
    case False
    then have "edge_ok (y, z)" using step.hyps(2) by (rule native_step_cases [rotated])
    then have "snd (snd y) = ''cp8_pending''"
      using step.prems(1) unfolding edge_ok_def fst_conv snd_conv by metis
    with step.hyps show ?thesis by metis
  qed
qed simp

theorem native_cp8_close_needs_cp8_witness:
  "\<exists>m. native_step\<^sup>*\<^sup>* (''active'', ''not_ready'', ''cp8_pending'') m
     \<and> native_step m (''closed'', ''ready'', ''cp8_closed'') \<and> snd (snd m) = ''cp8_pending''"
proof (rule native_cp8_close_needs_cp8)
  show "native_step\<^sup>*\<^sup>* (''active'', ''not_ready'', ''cp8_pending'') (''closed'', ''ready'', ''cp8_closed'')"
    by (rule r_into_rtranclp) (simp add: native_step_iff native_transition_edges_def)
qed simp_all

text \<open>No change request is stuck: from every stored triple that the validator accepts, some run
  of accepted transitions ends in a terminal triple.\<close>

theorem native_never_stuck:
  assumes "validate_native_status_tuple t = []"
  shows "\<exists>u. native_step\<^sup>*\<^sup>* (normalize_native t) u \<and> terminal_native u"
  using assms unfolding validate_native_status_tuple_ok by (rule native_graph.reaches_terminal)

theorem native_never_stuck_witness:
  "\<exists>u. native_step\<^sup>*\<^sup>* (normalize_native ('' Blocked '', ''NOT-READY'', ''cp5_pending'')) u \<and> terminal_native u"
  by (rule native_never_stuck) code_simp

lemma running_legal: "l \<in> {''active'', ''blocked''} \<Longrightarrow> g \<in> set active_gates \<Longrightarrow> legal_native (l, ''not_ready'', g)"
  by auto

lemma unblock_edge:
  "g \<in> set active_gates \<Longrightarrow>
     ((''blocked'', ''not_ready'', g), (''active'', ''not_ready'', g)) \<in> set native_transition_edges"
  by (simp add: native_transition_edges_def)

text \<open>The guard of the historical migration only looks at the lifecycle \<open>active\<close>. Every terminal
  change request can be moved by a historical migration to \<open>blocked\<close> and from there by an ordinary
  transition to \<open>active\<close>, although the direct migration is refused.\<close>

theorem historical_reactivation_in_two_steps:
  assumes "legal_native s" and "terminal_native s" and "g \<in> set active_gates"
  shows "validate_native_transition s (''active'', ''not_ready'', g) True \<noteq> []
    \<and> validate_native_transition s (''blocked'', ''not_ready'', g) True = []
    \<and> validate_native_transition (''blocked'', ''not_ready'', g) (''active'', ''not_ready'', g) False = []"
proof -
  have legal: "legal_native (''active'', ''not_ready'', g)" "legal_native (''blocked'', ''not_ready'', g)"
    using assms(3) by (simp_all add: running_legal del: legal_native.simps)
  then have ok: "validate_native_status_tuple (''active'', ''not_ready'', g) = []"
    "validate_native_status_tuple (''blocked'', ''not_ready'', g) = []"
    by (simp_all add: validate_native_status_tuple_ok legal_native_normal del: legal_native.simps)
  have "fst s \<in> {''closed'', ''cancelled'', ''superseded''}"
    using assms(2) by (simp only: terminal_native_def)
  then show ?thesis
    using assms(1,3) legal ok unblock_edge [of g]
    by (simp add: validate_native_transition_ok validate_native_transition_def [of _ _ True] Let_def
        legal_native_normal del: legal_native.simps)
qed

theorem historical_reactivation_in_two_steps_witness:
  "validate_native_transition (''cancelled'', ''n/a'', ''closed'') (''blocked'', ''not_ready'', ''cp2_pending'') True = []"
  using historical_reactivation_in_two_steps [of "(''cancelled'', ''n/a'', ''closed'')" "''cp2_pending''"]
    cp2_active by (simp add: terminal_native_def)

end
