(* ===== verification/Paths.thy ===== *)
theory Paths
  imports Prelude
begin

text \<open>
  The part of \<open>pathlib\<close> that the code uses on POSIX paths: components without empty and \<open>.\<close>
  parts, absolute paths, and the canonical text of a path. Parts named \<open>..\<close> are kept, as
  \<open>PurePosixPath\<close> does.
\<close>

definition slash :: char where
  "slash = CHR 0x2F"

definition rel_parts :: "string \<Rightarrow> string list" where
  "rel_parts s = filter (\<lambda>w. w \<noteq> [] \<and> w \<noteq> ''.'') (split_char slash s)"

definition is_absolute :: "string \<Rightarrow> bool" where
  "is_absolute s = (case s of [] \<Rightarrow> False | c # _ \<Rightarrow> c = slash)"

definition path_parts :: "string \<Rightarrow> string list" where
  "path_parts s = (if is_absolute s then [[slash]] else []) @ rel_parts s"

definition as_posix :: "string \<Rightarrow> string" where
  "as_posix s = (if is_absolute s then slash # join_with [slash] (rel_parts s)
     else if rel_parts s = [] then ''.'' else join_with [slash] (rel_parts s))"

text \<open>The refusal shared by the exact writers and the scopes: relative, and no climbing part.\<close>

definition unsafe_part :: "string \<Rightarrow> bool" where
  "unsafe_part w = (w \<in> {[], ''.'', ''..''})"

definition safe_relative :: "string \<Rightarrow> bool" where
  "safe_relative s = (\<not> is_absolute s \<and> \<not> list_ex unsafe_part (path_parts s))"

text \<open>A component as it appears in a canonical path.\<close>

definition plain_part :: "string \<Rightarrow> bool" where
  "plain_part w = (w \<noteq> [] \<and> w \<noteq> ''.'' \<and> slash \<notin> set w)"

lemma split_char_append_sep:
  "split_char sep (u @ sep # v) = split_char sep u @ split_char sep v"
proof (induction u)
  case (Cons c u)
  show ?case
  proof (cases "split_char sep u")
    case Nil
    then show ?thesis by simp
  next
    case (Cons w ws)
    with Cons.IH show ?thesis by simp
  qed
qed simp

lemma rel_parts_append: "rel_parts (u @ slash # v) = rel_parts u @ rel_parts v"
  by (simp add: rel_parts_def split_char_append_sep)

lemma rel_parts_Nil [simp]: "rel_parts [] = []"
  by (simp add: rel_parts_def)

lemma rel_parts_dot [simp]: "rel_parts ''.'' = []"
  by (simp add: rel_parts_def slash_def)

lemma rel_parts_plain: "w \<in> set (rel_parts s) \<Longrightarrow> plain_part w"
  by (auto simp: rel_parts_def plain_part_def dest: split_char_no_sep)

lemma rel_parts_single: "plain_part w \<Longrightarrow> rel_parts w = [w]"
  by (simp add: rel_parts_def plain_part_def split_char_whole)

lemma rel_parts_join:
  "list_all plain_part ws \<Longrightarrow> rel_parts (join_with [slash] ws) = ws"
proof (induction "[slash]" ws rule: join_with.induct)
  case (3 w v ws)
  then show ?case by (simp add: rel_parts_append rel_parts_single)
qed (simp_all add: rel_parts_single)

lemma list_all_plain: "list_all plain_part (rel_parts s)"
  by (simp add: list_all_iff rel_parts_plain)

lemma rel_parts_slashes: "list_all (\<lambda>c. c = slash) v \<Longrightarrow> rel_parts (u @ v) = rel_parts u"
proof (induction v arbitrary: u)
  case (Cons c v)
  then have "rel_parts (u @ c # v) = rel_parts u @ rel_parts v"
    by (simp add: rel_parts_append)
  also have "rel_parts v = []"
    using Cons.IH [of "[]"] Cons.prems by simp
  finally show ?case by simp
qed simp

lemma rel_parts_as_posix [simp]: "rel_parts (as_posix s) = rel_parts s"
proof -
  have "rel_parts (slash # t) = rel_parts t" for t
    using rel_parts_append [of "[]" t] by simp
  then show ?thesis
    by (simp add: as_posix_def rel_parts_join list_all_plain)
qed

lemma hd_join_plain: "plain_part w \<Longrightarrow> \<not> is_absolute (join_with [slash] (w # ws))"
  by (cases ws; cases w) (auto simp: plain_part_def is_absolute_def)

lemma is_absolute_as_posix [simp]: "is_absolute (as_posix s) = is_absolute s"
proof (cases "rel_parts s")
  case Nil
  then show ?thesis by (simp add: as_posix_def is_absolute_def slash_def)
next
  case (Cons w ws)
  then have "plain_part w" using rel_parts_plain [of w s] by simp
  with Cons show ?thesis by (simp add: as_posix_def hd_join_plain is_absolute_def [of "slash # _"])
qed

lemma path_parts_as_posix [simp]: "path_parts (as_posix s) = path_parts s"
  by (simp add: path_parts_def)

lemma as_posix_idem: "as_posix (as_posix s) = as_posix s"
  by (simp add: as_posix_def [of "as_posix s"]) (simp add: as_posix_def)

lemma as_posix_eq: "is_absolute s = is_absolute t \<Longrightarrow> rel_parts s = rel_parts t \<Longrightarrow> as_posix s = as_posix t"
  by (simp add: as_posix_def)

lemma safe_relative_iff: "safe_relative s \<longleftrightarrow> \<not> is_absolute s \<and> ''..'' \<notin> set (rel_parts s)"
proof -
  have "list_ex unsafe_part (rel_parts s) \<longleftrightarrow> ''..'' \<in> set (rel_parts s)"
    using rel_parts_plain [of _ s] by (auto simp: list_ex_iff unsafe_part_def plain_part_def)
  then show ?thesis by (auto simp: safe_relative_def path_parts_def)
qed

lemma safe_relative_parts: "safe_relative s \<Longrightarrow> path_parts s = rel_parts s"
  by (simp add: safe_relative_iff path_parts_def)

text \<open>Text prefixes that end at a slash are component prefixes.\<close>

lemma text_prefix_component_prefix:
  assumes "prefix (p @ [slash]) r"
  shows "prefix (rel_parts p) (rel_parts r)"
proof -
  from assms obtain v where "r = p @ slash # v" by (auto simp: prefix_def)
  then show ?thesis by (simp add: rel_parts_append)
qed

lemma join_with_append:
  "us \<noteq> [] \<Longrightarrow> vs \<noteq> [] \<Longrightarrow> join_with [slash] (us @ vs) = join_with [slash] us @ slash # join_with [slash] vs"
proof (induction "[slash]" us rule: join_with.induct)
  case (2 w)
  then show ?case by (cases vs) simp_all
qed simp_all

lemma component_prefix_text_prefix:
  assumes "prefix us vs" and "us \<noteq> []"
  shows "join_with [slash] vs = join_with [slash] us
    \<or> prefix (join_with [slash] us @ [slash]) (join_with [slash] vs)"
proof -
  from assms obtain ws where vs: "vs = us @ ws" by (auto simp: prefix_def)
  show ?thesis
  proof (cases "ws = []")
    case False
    with vs assms(2) have "join_with [slash] vs = (join_with [slash] us @ [slash]) @ join_with [slash] ws"
      by (simp add: join_with_append)
    then show ?thesis by (metis prefixI)
  qed (simp add: vs)
qed

end
