(* ===== verification/Work_Scope.thy ===== *)
theory Work_Scope
  imports Paths
begin

text \<open>
  \<open>work/scope.py\<close>: the deny-default scope of a Work item. A scope holds path patterns (exact paths
  or directory patterns that end in two stars) and check identifiers; a request is normalised and
  compared with each rule in order. Next to it, the system namespace: which registered writer may
  write which evidence file of which Work item.
\<close>

section \<open>Identifiers, patterns and requests\<close>

definition check_id_re :: "string \<Rightarrow> bool" where
  "check_id_re s = ident_re ''._:-'' s"

definition work_id_re :: "string \<Rightarrow> bool" where
  "work_id_re s = ident_re ''._-'' s"

definition dir_pattern :: string where
  "dir_pattern = [slash, CHR ''*'', CHR ''*'']"

definition pattern_base :: "string \<Rightarrow> string" where
  "pattern_base pattern = (if suffix dir_pattern pattern then take (length pattern - 3) pattern else pattern)"

definition validate_path_pattern :: "string \<Rightarrow> unit result" where
  "validate_path_pattern pattern =
     (let pre = pattern_base pattern
      in if pattern = [] \<or> is_absolute pre \<or> list_ex unsafe_part (path_parts pre)
            \<or> CHR ''*'' \<in> set pre \<or> CHR ''?'' \<in> set pre \<or> CHR ''['' \<in> set pre
         then Inl (ValueError (''unsafe scope path pattern: '' @ pattern)) else Inr ())"

definition normalize_requested_path :: "string \<Rightarrow> string result" where
  "normalize_requested_path value =
     (if value = [] \<or> is_absolute value \<or> list_ex unsafe_part (path_parts value)
      then Inl (ValueError (''unsafe requested path: '' @ value)) else Inr (as_posix value))"

definition matches :: "string \<Rightarrow> string \<Rightarrow> bool" where
  "matches pattern requested =
     (if suffix dir_pattern pattern
      then let pre = rstrip_by (\<lambda>c. c = slash) (take (length pattern - 3) pattern)
           in requested = pre \<or> prefix (pre @ [slash]) requested
      else requested = pattern)"

section \<open>The scope and its decision\<close>

record work_scope =
  version :: int
  allowed_reads :: "string list"
  allowed_writes :: "string list"
  required_checks :: "string list"

fun first_error :: "unit result list \<Rightarrow> unit result" where
  "first_error [] = Inr ()"
| "first_error (Inl e # _) = Inl e"
| "first_error (Inr _ # rs) = first_error rs"

text \<open>\<open>WorkScope.__post_init__\<close>: the checks in the order of the source.\<close>

definition validate_work_scope :: "work_scope \<Rightarrow> unit result" where
  "validate_work_scope s =
     (if version s < 1 then Inl (ValueError ''scope version must be >= 1'')
      else case first_error (map validate_path_pattern (allowed_reads s @ allowed_writes s)) of
        Inl e \<Rightarrow> Inl e
      | Inr _ \<Rightarrow>
        if \<not> distinct (allowed_reads s) then Inl (ValueError ''allowed_reads contains duplicates'')
        else if \<not> distinct (allowed_writes s) then Inl (ValueError ''allowed_writes contains duplicates'')
        else if \<not> distinct (required_checks s) then Inl (ValueError ''required_checks contains duplicates'')
        else if \<not> list_all check_id_re (required_checks s)
        then Inl (ValueError ''required_checks contains unsafe check id'')
        else Inr ())"

record scope_decision =
  sd_decision :: string
  sd_operation :: string
  sd_requested :: string
  sd_matched_rule :: string
  sd_reason :: string

definition scope_allowed :: "scope_decision \<Rightarrow> bool" where
  "scope_allowed d = (sd_decision d = ''ALLOW'')"

fun scan_rules :: "(string \<Rightarrow> bool) \<Rightarrow> string \<Rightarrow> string \<Rightarrow> string list \<Rightarrow> scope_decision" where
  "scan_rules matched op norm [] =
     \<lparr>sd_decision = ''DENY'', sd_operation = op, sd_requested = norm, sd_matched_rule = [],
      sd_reason = ''operation is outside deny-default Work scope''\<rparr>"
| "scan_rules matched op norm (rule # rules) =
     (if matched rule
      then \<lparr>sd_decision = ''ALLOW'', sd_operation = op, sd_requested = norm, sd_matched_rule = rule,
            sd_reason = ''operation is declared in Work scope''\<rparr>
      else scan_rules matched op norm rules)"

definition check_scope :: "work_scope \<Rightarrow> string \<Rightarrow> string \<Rightarrow> scope_decision result" where
  "check_scope scope op requested =
     (if op = ''read'' then
        (case normalize_requested_path requested of Inl e \<Rightarrow> Inl e
         | Inr n \<Rightarrow> Inr (scan_rules (\<lambda>rule. matches rule n) op n (allowed_reads scope)))
      else if op = ''write'' then
        (case normalize_requested_path requested of Inl e \<Rightarrow> Inl e
         | Inr n \<Rightarrow> Inr (scan_rules (\<lambda>rule. matches rule n) op n (allowed_writes scope)))
      else if op = ''check'' then
        (if \<not> check_id_re requested
         then Inl (ValueError (''unsafe requested check id: '' @ requested))
         else Inr (scan_rules (\<lambda>rule. requested = rule) op requested (required_checks scope)))
      else Inl (ValueError ''operation must be read, write, or check''))"

record scope_difference =
  df_missing :: "string list"
  df_unexpected :: "string list"
  df_count :: nat
  df_decision :: string

definition exact_scope_difference :: "string list \<Rightarrow> string list \<Rightarrow> scope_difference" where
  "exact_scope_difference declared observed =
     (let missing = sort (remdups (filter (\<lambda>x. x \<notin> set observed) declared));
          unexpected = sort (remdups (filter (\<lambda>x. x \<notin> set declared) observed))
      in \<lparr>df_missing = missing, df_unexpected = unexpected,
          df_count = length missing + length unexpected,
          df_decision = (if missing = [] \<and> unexpected = [] then ''PASS'' else ''BLOCKED'')\<rparr>)"

section \<open>System evidence namespace\<close>

datatype artifact_kind = RECEIPT | USAGE | FAILURE | BLOCKER | HANDOFF

definition system_writer_registry :: "(string \<times> artifact_kind) list" where
  "system_writer_registry =
     [(''work.validation-receipt.write'', RECEIPT), (''work.usage.write'', USAGE),
      (''work.failure-evidence.write'', FAILURE), (''work.blocker.write'', BLOCKER),
      (''work.handoff.write'', HANDOFF)]"

record system_namespace =
  ns_work_id :: string
  ns_kind :: artifact_kind
  ns_operation :: string
  ns_prefix :: string

record namespace_decision =
  nd_decision :: string
  nd_reason :: string
  nd_namespace :: "system_namespace option"

definition ns_blocked :: "string \<Rightarrow> namespace_decision" where
  "ns_blocked reason = \<lparr>nd_decision = ''BLOCKED'', nd_reason = reason, nd_namespace = None\<rparr>"

definition ns_allowed :: "namespace_decision \<Rightarrow> bool" where
  "ns_allowed d = (nd_decision d = ''ALLOW'')"

definition work_root :: "string \<Rightarrow> string" where
  "work_root w = ''works/'' @ w"

definition validation_dir :: "string \<Rightarrow> string" where
  "validation_dir w = work_root w @ ''/evidence/validation/''"

definition namespace_prefix :: "string \<Rightarrow> artifact_kind \<Rightarrow> string" where
  "namespace_prefix w kind = (if kind = RECEIPT then validation_dir w else work_root w @ ''/'')"

text \<open>\<open>^[a-z][a-z0-9_-]{0,31}-[0-9a-f]{20}\.receipt\.json$\<close>: the tail after the head has the fixed
  length 34, so the head is what precedes it.\<close>

definition receipt_leaf_re :: "string \<Rightarrow> bool" where
  "receipt_leaf_re s =
     (let n = length s - 34; head = take n s; tail = drop n s
      in 35 \<le> length s \<and> n \<le> 32
         \<and> ascii_lower (hd head) \<and> list_all (\<lambda>c. ascii_lower c \<or> ascii_digit c \<or> c \<in> set ''_-'') (tl head)
         \<and> hd tail = CHR ''-'' \<and> list_all lower_hex (take 20 (drop 1 tail))
         \<and> drop 21 tail = ''.receipt.json'')"

fun exact_leaf :: "artifact_kind \<Rightarrow> string" where
  "exact_leaf USAGE = ''USAGE.json''"
| "exact_leaf FAILURE = ''FAILURE-EVIDENCE.json''"
| "exact_leaf BLOCKER = ''BLOCKER.json''"
| "exact_leaf HANDOFF = ''HANDOFF.yaml''"
| "exact_leaf RECEIPT = []"

definition system_leaf_matches :: "string \<Rightarrow> artifact_kind \<Rightarrow> string \<Rightarrow> bool" where
  "system_leaf_matches w kind ref =
     (if kind = RECEIPT
      then prefix (validation_dir w) ref \<and> receipt_leaf_re (drop (length (validation_dir w)) ref)
      else ref = work_root w @ ''/'' @ exact_leaf kind)"

definition classify_system_artifact :: "pyval \<Rightarrow> string \<Rightarrow> string \<Rightarrow> namespace_decision" where
  "classify_system_artifact work_id op ref =
     (case work_id of
        PStr w \<Rightarrow>
          (if \<not> work_id_re w then ns_blocked ''SYSTEM_WORK_ID_INVALID''
           else case map_of system_writer_registry op of
             None \<Rightarrow> ns_blocked ''SYSTEM_WRITER_UNREGISTERED''
           | Some kind \<Rightarrow>
             (case normalize_requested_path ref of
                Inl _ \<Rightarrow> ns_blocked ''SYSTEM_REF_UNSAFE''
              | Inr n \<Rightarrow>
                if \<not> system_leaf_matches w kind n
                then ns_blocked ''SYSTEM_NAMESPACE_BOUNDARY_VIOLATION''
                else \<lparr>nd_decision = ''ALLOW'', nd_reason = ''SYSTEM_NAMESPACE_ADMITTED'',
                      nd_namespace = Some \<lparr>ns_work_id = w, ns_kind = kind, ns_operation = op,
                                           ns_prefix = namespace_prefix w kind\<rparr>\<rparr>))
      | _ \<Rightarrow> ns_blocked ''SYSTEM_WORK_ID_INVALID'')"

definition authorize_system_write :: "system_namespace \<Rightarrow> string \<Rightarrow> bool \<Rightarrow> namespace_decision" where
  "authorize_system_write ns target target_is_symlink =
     (if target_is_symlink then ns_blocked ''SYSTEM_TARGET_SYMLINK''
      else let decision = classify_system_artifact (PStr (ns_work_id ns)) (ns_operation ns) target
           in case nd_namespace decision of
                None \<Rightarrow> ns_blocked ''SYSTEM_NAMESPACE_BINDING_MISMATCH''
              | Some dns \<Rightarrow>
                if \<not> ns_allowed decision \<or> ns_kind dns \<noteq> ns_kind ns \<or> ns_prefix dns \<noteq> ns_prefix ns
                then ns_blocked ''SYSTEM_NAMESPACE_BINDING_MISMATCH'' else decision)"

section \<open>Component-wise reading of the rules\<close>

text \<open>What a rule promises, on path components: a directory rule covers the directory and everything
  below it, an exact rule covers one path.\<close>

definition rule_covers :: "string \<Rightarrow> string list \<Rightarrow> bool" where
  "rule_covers rule parts =
     (if suffix dir_pattern rule then prefix (rel_parts (pattern_base rule)) parts
      else rel_parts rule = parts)"

text \<open>Rules written the way \<open>Path.as_posix\<close> prints them, with at least one component.\<close>

definition canonical_rule :: "string \<Rightarrow> bool" where
  "canonical_rule rule = (as_posix (pattern_base rule) = pattern_base rule
     \<and> \<not> is_absolute (pattern_base rule) \<and> rel_parts (pattern_base rule) \<noteq> [])"

lemma pattern_base_dir: "suffix dir_pattern rule \<Longrightarrow> pattern_base rule = take (length rule - 3) rule"
  by (simp add: pattern_base_def)

lemma pattern_base_exact: "\<not> suffix dir_pattern rule \<Longrightarrow> pattern_base rule = rule"
  by (simp add: pattern_base_def)

lemma normalize_requested_path_cases:
  "normalize_requested_path v =
     (if v = [] \<or> \<not> safe_relative v then Inl (ValueError (''unsafe requested path: '' @ v)) else Inr (as_posix v))"
  by (simp add: normalize_requested_path_def safe_relative_def)

lemma rstrip_slash_split:
  obtains v where "s = rstrip_by (\<lambda>c. c = slash) s @ v" and "list_all (\<lambda>c. c = slash) v"
proof
  show "s = rstrip_by (\<lambda>c. c = slash) s @ rev (takeWhile (\<lambda>c. c = slash) (rev s))"
    unfolding rstrip_by_def rev_append [symmetric] takeWhile_dropWhile_id by simp
  show "list_all (\<lambda>c. c = slash) (rev (takeWhile (\<lambda>c. c = slash) (rev s)))"
    by (auto simp: list_all_iff dest: set_takeWhileD)
qed

lemma rel_parts_rstrip: "rel_parts (rstrip_by (\<lambda>c. c = slash) s) = rel_parts s"
  using rstrip_slash_split [of s] rel_parts_slashes by metis

lemma matches_sound: "matches rule n \<Longrightarrow> rule_covers rule (rel_parts n)"
  using text_prefix_component_prefix [of "rstrip_by (\<lambda>c. c = slash) (pattern_base rule)" n]
  by (auto simp: matches_def rule_covers_def Let_def pattern_base_dir rel_parts_rstrip split: if_splits)

lemma last_join_plain: "list_all plain_part ws \<Longrightarrow> ws \<noteq> [] \<Longrightarrow>
  join_with [slash] ws \<noteq> [] \<and> last (join_with [slash] ws) \<noteq> slash"
proof (induction "[slash]" ws rule: join_with.induct)
  case (2 w)
  then have "w \<noteq> []" "slash \<notin> set w" by (simp_all add: plain_part_def)
  then show ?case using last_in_set [of w] by (metis join_with.simps(2))
qed simp_all

lemma rstrip_last: "s \<noteq> [] \<Longrightarrow> last s \<noteq> slash \<Longrightarrow> rstrip_by (\<lambda>c. c = slash) s = s"
  by (cases s rule: rev_cases) (simp_all add: rstrip_by_def)

lemma canonical_rule_base:
  assumes "canonical_rule rule"
  shows "pattern_base rule = join_with [slash] (rel_parts (pattern_base rule))"
  using assms by (simp add: canonical_rule_def as_posix_def split: if_splits)

lemma matches_complete:
  assumes "canonical_rule rule" and "rule_covers rule (rel_parts v)" and "\<not> is_absolute v"
  shows "matches rule (as_posix v)"
proof (cases "suffix dir_pattern rule")
  case True
  let ?b = "pattern_base rule"
  have b: "?b = join_with [slash] (rel_parts ?b)" "rel_parts ?b \<noteq> []"
    using assms(1) canonical_rule_base by (auto simp: canonical_rule_def)
  have strip: "rstrip_by (\<lambda>c. c = slash) ?b = ?b"
    using last_join_plain [OF list_all_plain b(2)] b(1) rstrip_last by metis
  from True assms(2) have pre: "prefix (rel_parts ?b) (rel_parts v)" by (simp add: rule_covers_def)
  then have "rel_parts v \<noteq> []" using b(2) by auto
  then have "as_posix v = join_with [slash] (rel_parts v)" using assms(3) by (simp add: as_posix_def)
  then show ?thesis
    using component_prefix_text_prefix [OF pre b(2)] b(1) strip True
    by (simp add: matches_def Let_def pattern_base_dir)
next
  case False
  then have r: "rel_parts rule = rel_parts v" "as_posix rule = rule" "\<not> is_absolute rule"
    using assms(1,2) by (simp_all add: rule_covers_def canonical_rule_def pattern_base_exact)
  then have "as_posix v = rule" using assms(3) as_posix_eq [of rule v] by simp
  with False show ?thesis by (simp add: matches_def)
qed

lemma scan_rules_allowed: "scope_allowed (scan_rules m op n rules) \<longleftrightarrow> (\<exists>rule \<in> set rules. m rule)"
  by (induction rules) (auto simp: scope_allowed_def)

lemma scan_rules_covers:
  assumes "safe_relative v" and "list_all canonical_rule rules"
  shows "scope_allowed (scan_rules (\<lambda>rule. matches rule (as_posix v)) op n rules)
    \<longleftrightarrow> (\<exists>rule \<in> set rules. rule_covers rule (rel_parts v))"
proof -
  have "matches rule (as_posix v) \<longleftrightarrow> rule_covers rule (rel_parts v)" if "rule \<in> set rules" for rule
    using that assms matches_sound [of rule "as_posix v"] matches_complete [of rule v]
    by (auto simp: list_all_iff safe_relative_iff)
  then show ?thesis by (auto simp: scan_rules_allowed)
qed

definition path_rules :: "work_scope \<Rightarrow> string \<Rightarrow> string list" where
  "path_rules s op = (if op = ''read'' then allowed_reads s else allowed_writes s)"

section \<open>Properties\<close>

lemma check_scope_path:
  "op \<in> {''read'', ''write''} \<Longrightarrow> check_scope s op req =
     (case normalize_requested_path req of Inl e \<Rightarrow> Inl e
      | Inr n \<Rightarrow> Inr (scan_rules (\<lambda>rule. matches rule n) op n (path_rules s op)))"
  by (elim insertE emptyE) (simp_all add: check_scope_def path_rules_def split: sum.split)

text \<open>For read and write requests the scope check is total and component-wise: a request that is
  empty, absolute or climbs with \<open>..\<close> is refused with an error, and any other request is allowed exactly
  when one of the rules covers its components (so a directory rule never admits a sibling whose name
  merely starts with the directory's name). Rules are written canonically.\<close>

theorem check_scope_componentwise:
  assumes "op \<in> {''read'', ''write''}" and "list_all canonical_rule (path_rules s op)"
  shows "case check_scope s op req of
      Inl _ \<Rightarrow> req = [] \<or> \<not> safe_relative req
    | Inr d \<Rightarrow> req \<noteq> [] \<and> safe_relative req
        \<and> (scope_allowed d \<longleftrightarrow> (\<exists>rule \<in> set (path_rules s op). rule_covers rule (rel_parts req)))"
proof (cases "req = [] \<or> \<not> safe_relative req")
  case True
  then show ?thesis by (simp add: check_scope_path [OF assms(1)] normalize_requested_path_cases)
next
  case False
  then show ?thesis using scan_rules_covers [OF _ assms(2), of req op "as_posix req"]
    by (simp add: check_scope_path [OF assms(1)] normalize_requested_path_cases)
qed

definition demo_scope :: work_scope where
  "demo_scope = \<lparr>version = 1, allowed_reads = [''src/app/**'', ''README.md''], allowed_writes = [],
     required_checks = [''unit'']\<rparr>"

theorem check_scope_componentwise_witness:
  "case check_scope demo_scope ''read'' ''src/app2/x.py'' of Inl _ \<Rightarrow> False | Inr d \<Rightarrow> \<not> scope_allowed d"
proof -
  have h: "list_all canonical_rule (path_rules demo_scope ''read'')" by code_simp
  have "\<not> (\<exists>rule \<in> set (path_rules demo_scope ''read''). rule_covers rule (rel_parts ''src/app2/x.py''))"
    by code_simp
  moreover have "safe_relative ''src/app2/x.py''" by code_simp
  ultimately show ?thesis
    using check_scope_componentwise [OF _ h, of "''src/app2/x.py''"] by (auto split: sum.splits)
qed

lemma work_id_no_slash: "work_id_re w \<Longrightarrow> slash \<notin> set w"
proof
  assume "work_id_re w" and "slash \<in> set w"
  then have "ascii_alnum slash \<or> slash \<in> set ''._-''"
    unfolding work_id_re_def by (rule ident_re_chars)
  then show False by (simp add: slash_def guard_simps)
qed

lemma append_slash_inj:
  "u @ slash # v = u' @ slash # v' \<Longrightarrow> slash \<notin> set u \<Longrightarrow> slash \<notin> set u' \<Longrightarrow> u = u' \<and> v = v'"
proof (induction u arbitrary: u')
  case Nil
  then show ?case by (cases u') auto
next
  case (Cons c u)
  then show ?case by (cases u') auto
qed

definition leaf_of :: "artifact_kind \<Rightarrow> string \<Rightarrow> bool" where
  "leaf_of kind leaf = (if kind = RECEIPT then prefix ''evidence/validation/'' leaf else leaf = exact_leaf kind)"

lemma system_leaf_shape:
  assumes "system_leaf_matches w kind ref"
  obtains leaf where "ref = ''works/'' @ w @ slash # leaf" and "leaf_of kind leaf"
proof (cases "kind = RECEIPT")
  case True
  with assms obtain v where "ref = validation_dir w @ v" by (auto simp: system_leaf_matches_def prefix_def)
  then have "ref = ''works/'' @ w @ slash # (''evidence/validation/'' @ v)"
    by (simp add: validation_dir_def work_root_def slash_def)
  with True that show thesis by (metis leaf_of_def prefixI)
next
  case False
  with assms that [of "exact_leaf kind"] show thesis
    by (auto simp: system_leaf_matches_def work_root_def slash_def leaf_of_def)
qed

lemma leaf_of_unique: "leaf_of k leaf \<Longrightarrow> leaf_of k' leaf \<Longrightarrow> k = k'"
  by (cases k; cases k') (auto simp: leaf_of_def)

lemma registry_injective:
  "map_of system_writer_registry op = Some k \<Longrightarrow> map_of system_writer_registry op' = Some k \<Longrightarrow> op = op'"
  by (auto simp: system_writer_registry_def split: if_splits)

lemma classify_allowed:
  assumes "ns_allowed (classify_system_artifact (PStr w) op ref)"
  obtains kind where "work_id_re w" "map_of system_writer_registry op = Some kind" "ref \<noteq> []" "safe_relative ref"
    "system_leaf_matches w kind (as_posix ref)"
    "nd_namespace (classify_system_artifact (PStr w) op ref) =
       Some \<lparr>ns_work_id = w, ns_kind = kind, ns_operation = op, ns_prefix = namespace_prefix w kind\<rparr>"
  using assms
  by (auto simp: classify_system_artifact_def ns_allowed_def ns_blocked_def normalize_requested_path_cases
      split: if_splits option.splits)

text \<open>Each evidence file has one owner: if two requests for the same file (the same normalised
  reference) are both admitted to the system namespace, they name the same Work item and the same
  registered writer.\<close>

theorem system_artifact_single_owner:
  assumes "ns_allowed (classify_system_artifact (PStr w) op ref)"
    and "ns_allowed (classify_system_artifact (PStr w') op' ref')"
    and "as_posix ref = as_posix ref'"
  shows "w = w' \<and> op = op'"
proof -
  obtain kind leaf where 1: "work_id_re w" "map_of system_writer_registry op = Some kind"
    "as_posix ref = ''works/'' @ w @ slash # leaf" "leaf_of kind leaf"
    using assms(1) by (elim classify_allowed system_leaf_shape) blast
  obtain kind' leaf' where 2: "work_id_re w'" "map_of system_writer_registry op' = Some kind'"
    "as_posix ref' = ''works/'' @ w' @ slash # leaf'" "leaf_of kind' leaf'"
    using assms(2) by (elim classify_allowed system_leaf_shape) blast
  from 1(3) 2(3) assms(3) have "w @ slash # leaf = w' @ slash # leaf'" by simp
  then have eq: "w = w'" "leaf = leaf'"
    using append_slash_inj [of w leaf w' leaf'] work_id_no_slash 1(1) 2(1) by blast+
  then have "kind = kind'" using leaf_of_unique 1(4) 2(4) by blast
  with eq registry_injective 1(2) 2(2) show ?thesis by blast
qed

theorem system_artifact_single_owner_witness:
  "ns_allowed (classify_system_artifact (PStr ''W-1'') ''work.usage.write'' ''works/W-1/./USAGE.json'')
   \<and> ''W-1'' = ''W-1'' \<and> ''work.usage.write'' = ''work.usage.write''"
proof -
  have a: "ns_allowed (classify_system_artifact (PStr ''W-1'') ''work.usage.write'' ''works/W-1/./USAGE.json'')"
    by code_simp
  have b: "ns_allowed (classify_system_artifact (PStr ''W-1'') ''work.usage.write'' ''works/W-1/USAGE.json'')"
    by code_simp
  have c: "as_posix ''works/W-1/./USAGE.json'' = as_posix ''works/W-1/USAGE.json''" by code_simp
  show ?thesis using a system_artifact_single_owner [OF a b c] by blast
qed

lemma leaf_in_prefix: "system_leaf_matches w kind ref \<Longrightarrow> prefix (namespace_prefix w kind) ref"
  by (auto simp: system_leaf_matches_def namespace_prefix_def split: if_splits)

text \<open>A namespace handed out by the classification authorises exactly the writes that the
  classification would admit for its Work item and writer, never through a symbolic link, and every
  authorised target lies under the namespace's prefix.\<close>

theorem authorize_matches_classification:
  assumes "nd_namespace (classify_system_artifact (PStr w) op ref) = Some ns"
  shows "authorize_system_write ns ref False = classify_system_artifact (PStr w) op ref
    \<and> (ns_allowed (authorize_system_write ns target is_link) \<longleftrightarrow>
         \<not> is_link \<and> ns_allowed (classify_system_artifact (PStr w) op target))
    \<and> (ns_allowed (authorize_system_write ns target is_link) \<longrightarrow> prefix (ns_prefix ns) (as_posix target))"
proof -
  have allowed: "ns_allowed (classify_system_artifact (PStr w) op ref)"
    using assms by (auto simp: classify_system_artifact_def ns_allowed_def ns_blocked_def split: if_splits option.splits sum.splits)
  then obtain kind where k: "map_of system_writer_registry op = Some kind"
    and ns: "ns = \<lparr>ns_work_id = w, ns_kind = kind, ns_operation = op, ns_prefix = namespace_prefix w kind\<rparr>"
    using assms by (elim classify_allowed) simp
  have auth: "authorize_system_write ns t False =
      (if ns_allowed (classify_system_artifact (PStr w) op t) then classify_system_artifact (PStr w) op t
       else ns_blocked ''SYSTEM_NAMESPACE_BINDING_MISMATCH'')" for t
  proof (cases "ns_allowed (classify_system_artifact (PStr w) op t)")
    case True
    then show ?thesis using k
      by (elim classify_allowed) (simp add: authorize_system_write_def ns Let_def)
  next
    case False
    then show ?thesis by (simp add: authorize_system_write_def ns Let_def split: option.splits)
  qed
  have notb: "\<not> ns_allowed (ns_blocked r)" for r by (simp add: ns_allowed_def ns_blocked_def)
  have link: "authorize_system_write ns t True = ns_blocked ''SYSTEM_TARGET_SYMLINK''" for t
    by (simp add: authorize_system_write_def)
  have pre: "prefix (ns_prefix ns) (as_posix t)" if "ns_allowed (classify_system_artifact (PStr w) op t)" for t
    using that k by (elim classify_allowed) (auto simp: ns intro: leaf_in_prefix)
  show ?thesis using allowed auth notb link pre by (cases is_link) auto
qed

theorem authorize_matches_classification_witness:
  "ns_allowed (authorize_system_write
     \<lparr>ns_work_id = ''W-1'', ns_kind = USAGE, ns_operation = ''work.usage.write'', ns_prefix = ''works/W-1/''\<rparr>
     ''works/W-1//USAGE.json'' False)"
proof -
  have a: "nd_namespace (classify_system_artifact (PStr ''W-1'') ''work.usage.write'' ''works/W-1/USAGE.json'')
    = Some \<lparr>ns_work_id = ''W-1'', ns_kind = USAGE, ns_operation = ''work.usage.write'', ns_prefix = ''works/W-1/''\<rparr>"
    by code_simp
  have b: "ns_allowed (classify_system_artifact (PStr ''W-1'') ''work.usage.write'' ''works/W-1//USAGE.json'')"
    by code_simp
  show ?thesis
    using authorize_matches_classification [OF a, of "''works/W-1//USAGE.json''" False] b by blast
qed

end
