(* ===== verification/Gate_Frontier.thy ===== *)
theory Gate_Frontier
  imports Prelude
begin

text \<open>
  \<open>state/gate_frontier.py\<close>: the execution frontier of a route. The stages are scanned in order; the
  first stage whose current checkpoint result is missing, not passable or not yet approved by the
  human gate it requires is the frontier. The four inputs are untyped mappings.
\<close>

section \<open>The scan\<close>

definition pass_decisions :: "string list" where
  "pass_decisions = [''PASS'', ''PASS_WITH_RISK'', ''WAIVED'']"

record gate_frontier =
  fr_status :: string
  fr_checkpoint :: string
  fr_result_ref :: string
  fr_pending_gate :: string
  fr_checklist :: string
  fr_reason :: string

definition mk_frontier :: "string \<Rightarrow> string \<Rightarrow> string \<Rightarrow> string \<Rightarrow> string \<Rightarrow> string \<Rightarrow> gate_frontier" where
  "mk_frontier status cp ref gate checklist reason =
     \<lparr>fr_status = status, fr_checkpoint = cp, fr_result_ref = ref, fr_pending_gate = gate,
      fr_checklist = checklist, fr_reason = reason\<rparr>"

definition stage_checkpoint :: "pydict \<Rightarrow> string" where
  "stage_checkpoint stage = py_upper (str_or_empty (dget stage ''checkpoint''))"

definition needs_human_gate :: "pydict \<Rightarrow> bool" where
  "needs_human_gate stage =
     ((let v = dget stage ''human_gate'' in if truthy v then py_str v else ''none'') = ''required'')"

fun derive_from :: "string list \<Rightarrow> pydict list \<Rightarrow> pydict \<Rightarrow> pydict \<Rightarrow> pydict \<Rightarrow> gate_frontier" where
  "derive_from seen [] heads approved launched = mk_frontier ''COMPLETE'' [] [] [] [] ''ROUTE_COMPLETE''"
| "derive_from seen (stage # stages) heads approved launched =
     (let cp = stage_checkpoint stage in
      if cp = [] \<or> cp \<in> set seen then mk_frontier ''BLOCKED'' cp [] [] [] ''ROUTE_STAGE_INVALID''
      else case dget heads cp of
        PDict head \<Rightarrow>
          (let result_ref = str_or_empty (dget head ''result_ref'');
               decision = py_upper (str_or_empty (dget head ''decision''))
           in if result_ref = [] \<or> decision \<notin> set pass_decisions
              then mk_frontier ''BLOCKED'' cp result_ref [] [] ''CURRENT_CHECKPOINT_HEAD_NOT_PASSABLE''
              else if \<not> needs_human_gate stage then derive_from (cp # seen) stages heads approved launched
              else if dget approved cp = PStr result_ref
                   then derive_from (cp # seen) stages heads approved launched
              else let launch_miss = mk_frontier ''WAITING_GATE_LAUNCH'' cp result_ref [] []
                         ''CURRENT_HEAD_GATE_LAUNCH_MISSING''
                   in case dget launched cp of
                     PDict launch \<Rightarrow>
                       if str_or_empty (dget launch ''result_ref'') \<noteq> result_ref then launch_miss
                       else let checklist = str_or_empty (dget launch ''checkpoint_ref'')
                            in if checklist = []
                               then mk_frontier ''BLOCKED'' cp result_ref [] [] ''GATE_LAUNCH_CHECKPOINT_REF_MISSING''
                               else mk_frontier ''AWAITING_HUMAN_GATE'' cp result_ref cp checklist
                                      ''CURRENT_HEAD_AWAITS_APPROVAL''
                   | _ \<Rightarrow> launch_miss)
      | _ \<Rightarrow> mk_frontier ''WAITING_CHECKPOINT'' cp [] [] [] ''CURRENT_CHECKPOINT_HEAD_MISSING'')"

definition derive_gate_frontier :: "pydict list \<Rightarrow> pydict \<Rightarrow> pydict \<Rightarrow> pydict \<Rightarrow> gate_frontier" where
  "derive_gate_frontier stages heads approved launched = derive_from [] stages heads approved launched"

section \<open>What it means for a stage to be behind the frontier\<close>

text \<open>The current head of a checkpoint, when it is passable: its result reference.\<close>

definition passable_head :: "pydict \<Rightarrow> string \<Rightarrow> string option" where
  "passable_head heads cp = (case dget heads cp of
     PDict head \<Rightarrow>
       (let ref = str_or_empty (dget head ''result_ref'')
        in if ref \<noteq> [] \<and> py_upper (str_or_empty (dget head ''decision'')) \<in> set pass_decisions
           then Some ref else None)
   | _ \<Rightarrow> None)"

definition stage_passed :: "pydict \<Rightarrow> pydict \<Rightarrow> pydict \<Rightarrow> bool" where
  "stage_passed heads approved stage =
     (case passable_head heads (stage_checkpoint stage) of None \<Rightarrow> False
      | Some ref \<Rightarrow> needs_human_gate stage \<longrightarrow> dget approved (stage_checkpoint stage) = PStr ref)"

definition stage_fresh :: "string list \<Rightarrow> pydict \<Rightarrow> bool" where
  "stage_fresh seen stage = (stage_checkpoint stage \<noteq> [] \<and> stage_checkpoint stage \<notin> set seen)"

text \<open>How many stages, from the first, are settled.\<close>

fun settled_count :: "string list \<Rightarrow> pydict list \<Rightarrow> pydict \<Rightarrow> pydict \<Rightarrow> nat" where
  "settled_count seen [] heads approved = 0"
| "settled_count seen (stage # stages) heads approved =
     (if stage_fresh seen stage \<and> stage_passed heads approved stage
      then Suc (settled_count (stage_checkpoint stage # seen) stages heads approved) else 0)"

lemma derive_from_step:
  "stage_fresh seen stage \<Longrightarrow> stage_passed heads approved stage \<Longrightarrow>
     derive_from seen (stage # stages) heads approved launched
       = derive_from (stage_checkpoint stage # seen) stages heads approved launched"
  by (auto simp: stage_fresh_def stage_passed_def passable_head_def Let_def split: pyval.splits if_splits)

text \<open>At an unsettled stage the scan stops, whatever follows.\<close>

lemma derive_from_stop:
  assumes "\<not> (stage_fresh seen stage \<and> stage_passed heads approved stage)"
  shows "derive_from seen (stage # stages) heads approved launched = derive_from seen [stage] heads approved launched
    \<and> fr_checkpoint (derive_from seen [stage] heads approved launched) = stage_checkpoint stage
    \<and> fr_status (derive_from seen [stage] heads approved launched) \<noteq> ''COMPLETE''"
  using assms
  by (auto simp: stage_fresh_def stage_passed_def passable_head_def mk_frontier_def Let_def
      split: pyval.splits if_splits)

lemma settled_count_le: "settled_count seen stages heads approved \<le> length stages"
  by (induction stages arbitrary: seen) auto

lemma derive_from_complete:
  "fr_status (derive_from seen stages heads approved launched) = ''COMPLETE''
     \<longleftrightarrow> settled_count seen stages heads approved = length stages"
proof (induction stages arbitrary: seen)
  case Nil
  then show ?case by (simp add: mk_frontier_def)
next
  case (Cons stage stages)
  show ?case
  proof (cases "stage_fresh seen stage \<and> stage_passed heads approved stage")
    case True
    then show ?thesis using Cons.IH by (simp add: derive_from_step del: derive_from.simps)
  next
    case False
    then have "settled_count seen (stage # stages) heads approved = 0" by auto
    then show ?thesis using derive_from_stop [OF False, of stages launched]
      by (metis length_Cons nat.distinct(1))
  qed
qed

lemma derive_from_frontier:
  "settled_count seen stages heads approved = n \<Longrightarrow> n < length stages \<Longrightarrow>
     fr_checkpoint (derive_from seen stages heads approved launched) = stage_checkpoint (stages ! n)
     \<and> derive_from seen stages heads approved launched = derive_from seen (take (Suc n) stages) heads approved launched"
proof (induction stages arbitrary: seen n)
  case Nil
  then show ?case by simp
next
  case (Cons stage stages)
  show ?case
  proof (cases "stage_fresh seen stage \<and> stage_passed heads approved stage")
    case True
    then obtain m where "n = Suc m" using Cons.prems(1) by auto
    then have IH: "fr_checkpoint (derive_from (stage_checkpoint stage # seen) stages heads approved launched)
          = stage_checkpoint (stages ! m)"
      "derive_from (stage_checkpoint stage # seen) stages heads approved launched
          = derive_from (stage_checkpoint stage # seen) (take (Suc m) stages) heads approved launched"
      using Cons.IH [of "stage_checkpoint stage # seen" m] Cons.prems True by auto
    show ?thesis
      using IH(2) [symmetric] IH(1) True \<open>n = Suc m\<close> by (simp add: derive_from_step del: derive_from.simps)
  next
    case False
    then have n: "n = 0" using Cons.prems(1) by auto
    show ?thesis unfolding n take_Suc_Cons take_0 nth_Cons_0
      using derive_from_stop [OF False, of stages launched] by metis
  qed
qed

text \<open>Where the frontier awaits a human gate, the stage has a passable head and lacks only the approval.\<close>

lemma derive_from_awaiting:
  assumes "fr_status (derive_from seen [stage] heads approved launched) = ''AWAITING_HUMAN_GATE''"
  shows "stage_fresh seen stage
    \<and> passable_head heads (stage_checkpoint stage) = Some (fr_result_ref (derive_from seen [stage] heads approved launched))"
  using assms
  by (auto simp: stage_fresh_def passable_head_def mk_frontier_def Let_def split: pyval.splits if_splits)

lemma stage_passed_other:
  "stage_checkpoint stage \<noteq> c \<Longrightarrow> stage_passed heads ((c, v) # approved) stage = stage_passed heads approved stage"
  by (simp add: stage_passed_def split: option.splits)

lemma settled_count_approve:
  assumes "fr_status (derive_from seen stages heads approved launched) = ''AWAITING_HUMAN_GATE''"
    and "c = fr_checkpoint (derive_from seen stages heads approved launched)"
    and "r = fr_result_ref (derive_from seen stages heads approved launched)"
  shows "settled_count seen stages heads approved < settled_count seen stages heads ((c, PStr r) # approved)
    \<and> c \<notin> set seen"
  using assms
proof (induction stages arbitrary: seen)
  case Nil
  then show ?case by (simp add: mk_frontier_def)
next
  case (Cons stage stages)
  show ?case
  proof (cases "stage_fresh seen stage \<and> stage_passed heads approved stage")
    case True
    then have eq: "derive_from seen (stage # stages) heads approved launched
        = derive_from (stage_checkpoint stage # seen) stages heads approved launched"
      by (simp add: derive_from_step del: derive_from.simps)
    have IH: "settled_count (stage_checkpoint stage # seen) stages heads approved
          < settled_count (stage_checkpoint stage # seen) stages heads ((c, PStr r) # approved)
        \<and> c \<notin> set (stage_checkpoint stage # seen)"
      using Cons.prems unfolding eq by (rule Cons.IH)
    then have "stage_passed heads ((c, PStr r) # approved) stage"
      using True stage_passed_other [of stage c] by auto
    with True IH show ?thesis by simp
  next
    case False
    let ?f = "derive_from seen [stage] heads approved launched"
    have f: "derive_from seen (stage # stages) heads approved launched = ?f"
      and c: "fr_checkpoint ?f = stage_checkpoint stage"
      using derive_from_stop [OF False] by blast+
    have aw: "fr_status ?f = ''AWAITING_HUMAN_GATE''" "c = fr_checkpoint ?f" "r = fr_result_ref ?f"
      using Cons.prems unfolding f by blast+
    have h: "stage_fresh seen stage \<and> passable_head heads (stage_checkpoint stage) = Some r"
      using derive_from_awaiting [OF aw(1)] unfolding aw(3) .
    then have "stage_passed heads ((c, PStr r) # approved) stage"
      unfolding aw(2) c by (simp add: stage_passed_def)
    with h False show ?thesis unfolding aw(2) c by (simp add: stage_fresh_def)
  qed
qed

section \<open>Properties\<close>

text \<open>C29: No checkpoint is skipped. The route is complete exactly when every stage is settled; otherwise
  the reported checkpoint is that of the first unsettled stage (its predecessors all have passable
  current heads and the approvals they require), and the verdict depends on no later stage.\<close>

theorem gate_frontier_is_first_unsettled:
  "let n = settled_count [] stages heads approved; f = derive_gate_frontier stages heads approved launched
   in (fr_status f = ''COMPLETE'') = (n = length stages)
      \<and> (n < length stages \<longrightarrow> fr_checkpoint f = stage_checkpoint (stages ! n)
           \<and> f = derive_gate_frontier (take (Suc n) stages) heads approved launched)"
  unfolding Let_def derive_gate_frontier_def
  using derive_from_complete [of "[]" stages heads approved launched]
    derive_from_frontier [of "[]" stages heads approved _ launched] by blast

definition demo_stages :: "pydict list" where
  "demo_stages = [[(''checkpoint'', PStr ''cp5''), (''human_gate'', PStr ''required'')],
     [(''checkpoint'', PStr ''CP6'')], [(''checkpoint'', PStr ''CP8''), (''human_gate'', PStr ''required'')]]"

definition demo_head :: "string \<Rightarrow> pyval" where
  "demo_head ref = PDict [(''result_ref'', PStr ref), (''decision'', PStr ''pass'')]"

definition demo_launch :: "string \<Rightarrow> pyval" where
  "demo_launch ref = PDict [(''result_ref'', PStr ref), (''checkpoint_ref'', PStr ''checks/CP.md'')]"

theorem gate_frontier_is_first_unsettled_witness:
  "fr_checkpoint (derive_gate_frontier demo_stages
      [(''CP5'', demo_head ''r5''), (''CP8'', demo_head ''r8'')] [(''CP5'', PStr ''r5'')] [(''CP8'', demo_launch ''r8'')])
   = ''CP6''"
proof -
  let ?h = "[(''CP5'', demo_head ''r5''), (''CP8'', demo_head ''r8'')]"
  let ?a = "[(''CP5'', PStr ''r5'')]"
  have n: "settled_count [] demo_stages ?h ?a = 1" by code_simp
  have "stage_checkpoint (demo_stages ! 1) = ''CP6''" and "1 < length demo_stages" by code_simp+
  then show ?thesis
    using gate_frontier_is_first_unsettled [of demo_stages ?h ?a "[(''CP8'', demo_launch ''r8'')]"]
    unfolding Let_def n by metis
qed

text \<open>Progress of the human gates. When the frontier awaits an approval, recording the approval of
  exactly the reported result for exactly the reported checkpoint settles strictly more stages.\<close>

theorem gate_frontier_approval_progress:
  assumes "fr_status (derive_gate_frontier stages heads approved launched) = ''AWAITING_HUMAN_GATE''"
    and "f = derive_gate_frontier stages heads approved launched"
  shows "settled_count [] stages heads approved
    < settled_count [] stages heads ((fr_checkpoint f, PStr (fr_result_ref f)) # approved)"
  using settled_count_approve [of "[]" stages heads approved launched] assms
  unfolding derive_gate_frontier_def by blast

theorem gate_frontier_approval_progress_witness:
  "settled_count [] demo_stages [(''CP5'', demo_head ''r5'')] []
     < settled_count [] demo_stages [(''CP5'', demo_head ''r5'')] [(''CP5'', PStr ''r5'')]"
proof -
  let ?f = "derive_gate_frontier demo_stages [(''CP5'', demo_head ''r5'')] [] [(''CP5'', demo_launch ''r5'')]"
  have "fr_status ?f = ''AWAITING_HUMAN_GATE''" and "fr_checkpoint ?f = ''CP5''" and "fr_result_ref ?f = ''r5''"
    by code_simp+
  then show ?thesis
    using gate_frontier_approval_progress [of demo_stages "[(''CP5'', demo_head ''r5'')]" "[]" "[(''CP5'', demo_launch ''r5'')]" ?f]
    by simp
qed

end
