(* ===== verification/Work_Budget.thy ===== *)
theory Work_Budget
  imports Prelude "HOL-Library.Multiset"
begin

text \<open>
  \<open>work/budget.py\<close>: the hard budget of a Work item. Usage records are validated when they are
  built, a projected usage is the sum of the current one and a delta, and the decision compares the
  projection with the limits before the operation runs. Python integers are unbounded. The code's
  warning test \<open>value / maximum >= 0.80\<close> divides in binary floating point; it is written here as the
  exact comparison of fractions, which agrees with it for limits below \<open>2^50\<close>.
\<close>

section \<open>Records\<close>

record budget_limit =
  bl_reads :: int
  bl_writes :: int
  bl_check_groups :: int
  bl_tokens :: int

definition validate_limit :: "budget_limit \<Rightarrow> unit result" where
  "validate_limit l =
     (if min (bl_reads l) (min (bl_writes l) (min (bl_check_groups l) (bl_tokens l))) < 0
      then Inl (ValueError ''budget limits must be non-negative'') else Inr ())"

definition G0_BUDGET :: budget_limit where
  "G0_BUDGET = \<lparr>bl_reads = 8, bl_writes = 8, bl_check_groups = 3, bl_tokens = 32000\<rparr>"

definition G1_BUDGET :: budget_limit where
  "G1_BUDGET = \<lparr>bl_reads = 20, bl_writes = 24, bl_check_groups = 8, bl_tokens = 96000\<rparr>"

record work_usage =
  u_reads :: int
  u_writes :: int
  u_check_groups :: int
  u_tokens :: "int option"
  u_status :: string
  u_proxy_method :: string
  u_unavailable_reason :: string

definition default_usage :: work_usage where
  "default_usage = \<lparr>u_reads = 0, u_writes = 0, u_check_groups = 0, u_tokens = Some 0,
     u_status = ''measured'', u_proxy_method = [], u_unavailable_reason = []\<rparr>"

definition token_measurement_statuses :: "string list" where
  "token_measurement_statuses = [''measured'', ''proxy'', ''unavailable'']"

text \<open>\<open>WorkUsage.__post_init__\<close>: a record, or the error its construction raises.\<close>

definition mk_usage :: "work_usage \<Rightarrow> work_usage result" where
  "mk_usage u =
     (if min (u_reads u) (min (u_writes u) (u_check_groups u)) < 0
      then Inl (ValueError ''usage counters must be non-negative'')
      else if u_status u \<notin> set token_measurement_statuses
      then Inl (ValueError ''token measurement status must be measured, proxy, or unavailable'')
      else if u_status u = ''unavailable'' \<and> u_tokens u \<noteq> None
      then Inl (ValueError ''unavailable token usage must use tokens=None'')
      else if u_status u = ''unavailable'' \<and> u_unavailable_reason u = []
      then Inl (ValueError ''unavailable token usage requires unavailable_reason'')
      else if u_status u \<noteq> ''unavailable'' \<and> (case u_tokens u of None \<Rightarrow> True | Some n \<Rightarrow> n < 0)
      then Inl (ValueError ''measured/proxy token usage requires non-negative tokens'')
      else if u_status u = ''proxy'' \<and> u_proxy_method u = []
      then Inl (ValueError ''proxy token usage requires proxy_method'')
      else if u_status u \<noteq> ''proxy'' \<and> u_proxy_method u \<noteq> []
      then Inl (ValueError ''proxy_method is only valid for proxy token usage'')
      else Inr u)"

section \<open>Projection\<close>

definition or_str :: "string \<Rightarrow> string \<Rightarrow> string" where
  "or_str a b = (if a \<noteq> [] then a else b)"

definition tokens_or_zero :: "int option \<Rightarrow> int" where
  "tokens_or_zero t = (case t of None \<Rightarrow> 0 | Some n \<Rightarrow> n)"

definition sum_usage :: "work_usage \<Rightarrow> work_usage \<Rightarrow> work_usage" where
  "sum_usage current delta =
     (if u_status current = ''unavailable'' \<or> u_status delta = ''unavailable''
      then \<lparr>u_reads = u_reads current + u_reads delta, u_writes = u_writes current + u_writes delta,
             u_check_groups = u_check_groups current + u_check_groups delta, u_tokens = None,
             u_status = ''unavailable'', u_proxy_method = [],
             u_unavailable_reason = or_str (u_unavailable_reason current) (u_unavailable_reason delta)\<rparr>
      else let status = (if u_status current = ''proxy'' \<or> u_status delta = ''proxy'' then ''proxy'' else ''measured'');
               proxy_methods = filter (\<lambda>m. m \<noteq> []) [u_proxy_method current, u_proxy_method delta]
           in \<lparr>u_reads = u_reads current + u_reads delta, u_writes = u_writes current + u_writes delta,
                u_check_groups = u_check_groups current + u_check_groups delta,
                u_tokens = Some (tokens_or_zero (u_tokens current) + tokens_or_zero (u_tokens delta)),
                u_status = status,
                u_proxy_method = (if status = ''proxy'' then join_with '' + '' (rev (remdups (rev proxy_methods))) else []),
                u_unavailable_reason = []\<rparr>)"

text \<open>\<open>_project_usage\<close>: the sum is built through the validating constructor.\<close>

definition project_usage :: "work_usage \<Rightarrow> work_usage \<Rightarrow> work_usage result" where
  "project_usage current delta = mk_usage (sum_usage current delta)"

section \<open>Decision\<close>

record budget_decision =
  bd_decision :: string
  bd_projected :: work_usage
  bd_exceeded :: "string list"
  bd_remaining :: "(string \<times> int option) list"
  bd_reason :: string

definition budget_allowed :: "budget_decision \<Rightarrow> bool" where
  "budget_allowed d = (bd_decision d = ''OK'' \<or> bd_decision d = ''WARNING'')"

definition limit_dims :: "budget_limit \<Rightarrow> (string \<times> int) list" where
  "limit_dims l = [(''reads'', bl_reads l), (''writes'', bl_writes l),
     (''check_groups'', bl_check_groups l), (''tokens'', bl_tokens l)]"

definition usage_dims :: "work_usage \<Rightarrow> (string \<times> int) list" where
  "usage_dims u = [(''reads'', u_reads u), (''writes'', u_writes u),
     (''check_groups'', u_check_groups u), (''tokens'', tokens_or_zero (u_tokens u))]"

text \<open>Both dictionaries list the four dimensions in the same order, so they are read side by side.\<close>

definition dims :: "budget_limit \<Rightarrow> work_usage \<Rightarrow> (string \<times> int \<times> int) list" where
  "dims l u = map (\<lambda>((k, m), (_, v)). (k, m, v)) (zip (limit_dims l) (usage_dims u))"

definition evaluate_budget :: "budget_limit \<Rightarrow> work_usage \<Rightarrow> work_usage option \<Rightarrow> budget_decision result" where
  "evaluate_budget l current delta =
     (case project_usage current (case delta of None \<Rightarrow> default_usage | Some d \<Rightarrow> d) of
        Inl e \<Rightarrow> Inl e
      | Inr projected \<Rightarrow>
        if u_status projected = ''unavailable''
        then Inr \<lparr>bd_decision = ''TELEMETRY_UNAVAILABLE'', bd_projected = projected, bd_exceeded = [''tokens''],
               bd_remaining = [(''reads'', Some (bl_reads l - u_reads projected)),
                  (''writes'', Some (bl_writes l - u_writes projected)),
                  (''check_groups'', Some (bl_check_groups l - u_check_groups projected)), (''tokens'', None)],
               bd_reason = ''token usage is unavailable; provide an approved proxy or pause/reclassify''\<rparr>
        else
          let exceeded = map fst (filter (\<lambda>(k, m, v). v > m) (dims l projected));
              remaining = map (\<lambda>(k, m, v). (k, Some (m - v))) (dims l projected)
          in if exceeded \<noteq> []
             then Inr \<lparr>bd_decision = ''EXCEEDED'', bd_projected = projected, bd_exceeded = exceeded,
                    bd_remaining = remaining,
                    bd_reason = ''projected usage exceeds one or more hard limits before the operation''\<rparr>
             else if list_ex (\<lambda>(k, m, v). m \<noteq> 0 \<and> 5 * v \<ge> 4 * m) (dims l projected)
             then Inr \<lparr>bd_decision = ''WARNING'', bd_projected = projected, bd_exceeded = [],
                    bd_remaining = remaining,
                    bd_reason = ''projected usage reaches the 80 percent warning threshold''\<rparr>
             else Inr \<lparr>bd_decision = ''OK'', bd_projected = projected, bd_exceeded = [],
                    bd_remaining = remaining, bd_reason = ''projected usage is within budget''\<rparr>)"

section \<open>Validity and the algebra of accumulation\<close>

definition valid_usage :: "work_usage \<Rightarrow> bool" where
  "valid_usage u = (mk_usage u = Inr u)"

lemma mk_usage_ok: "mk_usage u = Inr v \<Longrightarrow> v = u \<and> valid_usage u"
  by (auto simp: valid_usage_def mk_usage_def split: if_splits)

lemma valid_usage_iff:
  "valid_usage u \<longleftrightarrow> 0 \<le> u_reads u \<and> 0 \<le> u_writes u \<and> 0 \<le> u_check_groups u
     \<and> u_status u \<in> set token_measurement_statuses
     \<and> (if u_status u = ''unavailable'' then u_tokens u = None \<and> u_unavailable_reason u \<noteq> []
        else \<exists>n \<ge> 0. u_tokens u = Some n)
     \<and> (u_status u = ''proxy'' \<longleftrightarrow> u_proxy_method u \<noteq> [])"
  by (auto simp: valid_usage_def mk_usage_def split: if_splits option.splits)

text \<open>What accumulation adds up: the counters, the tokens when they are known, and the worst
  measurement status (unavailable over proxy over measured).\<close>

definition usage_sum :: "work_usage \<Rightarrow> int \<times> int \<times> int \<times> int option \<times> string" where
  "usage_sum u = (u_reads u, u_writes u, u_check_groups u, u_tokens u, u_status u)"

definition worst_status :: "string \<Rightarrow> string \<Rightarrow> string" where
  "worst_status a b = (if a = ''unavailable'' \<or> b = ''unavailable'' then ''unavailable''
     else if a = ''proxy'' \<or> b = ''proxy'' then ''proxy'' else ''measured'')"

definition add_tokens :: "int option \<Rightarrow> int option \<Rightarrow> int option" where
  "add_tokens a b = (case (a, b) of (Some x, Some y) \<Rightarrow> Some (x + y) | _ \<Rightarrow> None)"

definition add_sum :: "int \<times> int \<times> int \<times> int option \<times> string \<Rightarrow> int \<times> int \<times> int \<times> int option \<times> string
    \<Rightarrow> int \<times> int \<times> int \<times> int option \<times> string" where
  "add_sum a b = (case (a, b) of ((r, w, c, t, s), (r', w', c', t', s')) \<Rightarrow>
     (r + r', w + w', c + c', add_tokens t t', worst_status s s'))"

lemma worst_status_left_commute: "worst_status a (worst_status b c) = worst_status b (worst_status a c)"
  by (auto simp: worst_status_def)

lemma add_tokens_left_commute: "add_tokens a (add_tokens b c) = add_tokens b (add_tokens a c)"
  by (auto simp: add_tokens_def split: option.splits)

lemma add_sum_left_commute: "add_sum a (add_sum b c) = add_sum b (add_sum a c)"
  by (auto simp: add_sum_def add_tokens_left_commute worst_status_left_commute split: prod.splits)

lemma join_nonempty: "ws \<noteq> [] \<Longrightarrow> \<forall>w \<in> set ws. w \<noteq> [] \<Longrightarrow> join_with sep ws \<noteq> []"
  by (induction sep ws rule: join_with.induct) auto

lemma usage_status_cases:
  assumes "valid_usage u"
  obtains (unavailable) "u_status u = ''unavailable''" "u_tokens u = None" "u_unavailable_reason u \<noteq> []" "u_proxy_method u = []"
  | (proxy) n where "u_status u = ''proxy''" "u_tokens u = Some n" "0 \<le> n" "u_proxy_method u \<noteq> []"
  | (measured) n where "u_status u = ''measured''" "u_tokens u = Some n" "0 \<le> n" "u_proxy_method u = []"
  using assms by (auto simp: valid_usage_iff token_measurement_statuses_def)

lemma status_distinct: "''unavailable'' \<noteq> ''proxy''" "''unavailable'' \<noteq> ''measured''" "''proxy'' \<noteq> ''measured''"
  by simp_all

lemma sum_usage_valid:
  assumes "valid_usage a" and "valid_usage b"
  shows "valid_usage (sum_usage a b) \<and> usage_sum (sum_usage a b) = add_sum (usage_sum a) (usage_sum b)"
proof -
  have counters: "0 \<le> u_reads a + u_reads b" "0 \<le> u_writes a + u_writes b" "0 \<le> u_check_groups a + u_check_groups b"
    using assms by (simp_all add: valid_usage_iff)
  note simps = sum_usage_def valid_usage_iff token_measurement_statuses_def or_str_def usage_sum_def
    add_sum_def add_tokens_def worst_status_def tokens_or_zero_def join_nonempty Let_def
  from assms(1) show ?thesis
  proof (cases rule: usage_status_cases)
    case unavailable
    then show ?thesis using counters by (simp add: simps)
  next
    case (proxy n)
    note a = this
    from assms(2) show ?thesis
      by (cases rule: usage_status_cases) (use counters a in \<open>simp_all add: simps\<close>)
  next
    case (measured n)
    note a = this
    from assms(2) show ?thesis
      by (cases rule: usage_status_cases) (use counters a in \<open>simp_all add: simps\<close>)
  qed
qed

lemma project_usage_sum:
  assumes "valid_usage a" and "valid_usage b"
  shows "\<exists>v. project_usage a b = Inr v \<and> valid_usage v \<and> usage_sum v = add_sum (usage_sum a) (usage_sum b)"
  using sum_usage_valid [OF assms] by (simp add: project_usage_def valid_usage_def)

lemma default_usage_valid: "valid_usage default_usage"
  by (simp add: valid_usage_iff default_usage_def token_measurement_statuses_def)

text \<open>Within the limits, dimension by dimension.\<close>

definition within_limit :: "budget_limit \<Rightarrow> work_usage \<Rightarrow> bool" where
  "within_limit l u = (u_reads u \<le> bl_reads l \<and> u_writes u \<le> bl_writes l
     \<and> u_check_groups u \<le> bl_check_groups l \<and> tokens_or_zero (u_tokens u) \<le> bl_tokens l)"

lemma exceeded_empty:
  "map fst (filter (\<lambda>(k, m, v). v > m) (dims l u)) = [] \<longleftrightarrow> within_limit l u"
  by (auto simp: dims_def limit_dims_def usage_dims_def within_limit_def)

text \<open>Accumulating a list of deltas, as successive operations of one Work item do.\<close>

fun accumulate :: "work_usage \<Rightarrow> work_usage list \<Rightarrow> work_usage result" where
  "accumulate u [] = Inr u"
| "accumulate u (d # ds) = (case project_usage u d of Inl e \<Rightarrow> Inl e | Inr v \<Rightarrow> accumulate v ds)"

lemma accumulate_sum:
  "valid_usage u \<Longrightarrow> list_all valid_usage ds \<Longrightarrow>
     \<exists>v. accumulate u ds = Inr v \<and> valid_usage v
       \<and> usage_sum v = fold (\<lambda>d acc. add_sum acc (usage_sum d)) ds (usage_sum u)"
proof (induction ds arbitrary: u)
  case (Cons d ds)
  then obtain v where "project_usage u d = Inr v" "valid_usage v" "usage_sum v = add_sum (usage_sum u) (usage_sum d)"
    using project_usage_sum [of u d] by auto
  with Cons show ?case using Cons.IH [of v] by auto
qed simp

lemma add_sum_commute: "add_sum a b = add_sum b a"
  by (auto simp: add_sum_def add_tokens_def worst_status_def split: prod.splits option.splits)

lemma fold_add_sum_permute:
  assumes "mset ds = mset ds'"
  shows "fold (\<lambda>d acc. add_sum acc (usage_sum d)) ds s = fold (\<lambda>d acc. add_sum acc (usage_sum d)) ds' s"
proof -
  have "fold (\<lambda>d acc. add_sum acc (usage_sum d)) ds = fold (\<lambda>d acc. add_sum acc (usage_sum d)) ds'"
    by (rule fold_multiset_equiv)
      (auto simp: assms fun_eq_iff add_sum_commute [of _ "usage_sum _"] add_sum_left_commute)
  then show ?thesis by simp
qed

section \<open>Properties\<close>

text \<open>C32: On valid records the budget decision is total, and it is about the sum of the usage and the operation. The projection is
  valid and adds reads, writes, check groups and, when both are available, tokens; telemetry is reported unavailable exactly when one of the
  two records is; otherwise the operation is allowed exactly when every sum stays within its hard limit (the last unit included), with
  a warning exactly when some nonzero limit is used to 80 percent; and what remains is the limits less the sums.\<close>

theorem evaluate_budget_total:
  assumes "valid_usage u" and "valid_usage d"
  shows "\<exists>b. evaluate_budget l u (Some d) = Inr b \<and> valid_usage (bd_projected b)
    \<and> u_reads (bd_projected b) = u_reads u + u_reads d \<and> u_writes (bd_projected b) = u_writes u + u_writes d
    \<and> u_check_groups (bd_projected b) = u_check_groups u + u_check_groups d
    \<and> (bd_decision b = ''TELEMETRY_UNAVAILABLE'' \<longleftrightarrow> u_status u = ''unavailable'' \<or> u_status d = ''unavailable'')
    \<and> (u_status u \<noteq> ''unavailable'' \<and> u_status d \<noteq> ''unavailable'' \<longrightarrow>
        (let r = u_reads u + u_reads d; w = u_writes u + u_writes d; c = u_check_groups u + u_check_groups d;
             t = tokens_or_zero (u_tokens u) + tokens_or_zero (u_tokens d) in
         u_tokens (bd_projected b) = Some t
         \<and> (budget_allowed b \<longleftrightarrow> r \<le> bl_reads l \<and> w \<le> bl_writes l \<and> c \<le> bl_check_groups l \<and> t \<le> bl_tokens l)
         \<and> (bd_decision b = ''WARNING'' \<longleftrightarrow> budget_allowed b \<and> (bl_reads l \<noteq> 0 \<and> 4 * bl_reads l \<le> 5 * r \<or> bl_writes l \<noteq> 0 \<and> 4 * bl_writes l \<le> 5 * w
              \<or> bl_check_groups l \<noteq> 0 \<and> 4 * bl_check_groups l \<le> 5 * c \<or> bl_tokens l \<noteq> 0 \<and> 4 * bl_tokens l \<le> 5 * t))
         \<and> bd_remaining b = [(''reads'', Some (bl_reads l - r)), (''writes'', Some (bl_writes l - w)),
              (''check_groups'', Some (bl_check_groups l - c)), (''tokens'', Some (bl_tokens l - t))]))"
proof -
  obtain v where v: "project_usage u d = Inr v" "valid_usage v" "usage_sum v = add_sum (usage_sum u) (usage_sum d)"
    using project_usage_sum [OF assms] by blast
  have sums: "u_reads v = u_reads u + u_reads d" "u_writes v = u_writes u + u_writes d" "u_check_groups v = u_check_groups u + u_check_groups d"
    "u_tokens v = add_tokens (u_tokens u) (u_tokens d)" "u_status v = worst_status (u_status u) (u_status d)"
    using v(3) by (simp_all add: usage_sum_def add_sum_def)
  have un: "u_status v = ''unavailable'' \<longleftrightarrow> u_status u = ''unavailable'' \<or> u_status d = ''unavailable''"
    by (simp add: sums(5) worst_status_def)
  show ?thesis
  proof (cases "u_status v = ''unavailable''")
    case True
    then show ?thesis using v(1,2) sums(1-3) un by (simp add: evaluate_budget_def)
  next
    case False
    then have t: "u_tokens v = Some (tokens_or_zero (u_tokens u) + tokens_or_zero (u_tokens d))"
      using assms un by (auto simp: valid_usage_iff sums(4) add_tokens_def tokens_or_zero_def)
    let ?b = "evaluate_budget l u (Some d)"
    show ?thesis using v(1,2) False un sums(1-3) t exceeded_empty [of l v]
      by (cases "within_limit l v") (auto simp: evaluate_budget_def Let_def budget_allowed_def within_limit_def dims_def limit_dims_def usage_dims_def tokens_or_zero_def)
  qed
qed

theorem evaluate_budget_total_witness:
  "\<exists>b. evaluate_budget G0_BUDGET (default_usage\<lparr>u_reads := 7\<rparr>) (Some (default_usage\<lparr>u_reads := 1\<rparr>)) = Inr b
     \<and> budget_allowed b \<and> u_reads (bd_projected b) = 8"
proof -
  have h: "valid_usage (default_usage\<lparr>u_reads := 7\<rparr>)" "valid_usage (default_usage\<lparr>u_reads := 1\<rparr>)"
    by (simp_all add: valid_usage_iff default_usage_def token_measurement_statuses_def)
  show ?thesis using evaluate_budget_total [OF h, of G0_BUDGET]
    by (auto simp: default_usage_def G0_BUDGET_def tokens_or_zero_def Let_def)
qed

text \<open>The accumulated usage does not depend on the order of the operations: two orders of the same
  deltas both succeed on valid records and agree on the counters, the tokens and the measurement
  status.\<close>

theorem accumulated_usage_order_independent:
  assumes "valid_usage u" and "list_all valid_usage ds" and "mset ds = mset ds'"
  shows "\<exists>v v'. accumulate u ds = Inr v \<and> accumulate u ds' = Inr v' \<and> usage_sum v = usage_sum v'"
proof -
  have "list_all valid_usage ds'"
    using assms(2,3) by (metis list_all_iff mset_eq_setD)
  with assms show ?thesis
    using accumulate_sum [of u ds] accumulate_sum [of u ds'] fold_add_sum_permute [OF assms(3)] by metis
qed

definition proxy_usage :: work_usage where
  "proxy_usage = \<lparr>u_reads = 2, u_writes = 1, u_check_groups = 0, u_tokens = Some 500,
     u_status = ''proxy'', u_proxy_method = ''chars/4'', u_unavailable_reason = []\<rparr>"

theorem accumulated_usage_order_independent_witness:
  "\<exists>v v'. accumulate default_usage [proxy_usage, default_usage] = Inr v
     \<and> accumulate default_usage [default_usage, proxy_usage] = Inr v' \<and> usage_sum v = usage_sum v'"
proof (rule accumulated_usage_order_independent)
  show "list_all valid_usage [proxy_usage, default_usage]"
    by (simp add: default_usage_valid) (simp add: valid_usage_iff proxy_usage_def token_measurement_statuses_def)
qed (simp_all add: default_usage_valid)

end
