(* ===== verification/Work_Dependency.thy ===== *)
theory Work_Dependency
  imports Prelude
begin

text \<open>
  \<open>work/dependency.py\<close>: the dependency graph of the Work items of a process repository, its cycle
  detection, the transitive closure query and the query for the only legal successor of a cancelled
  Work. Dictionaries are association lists with distinct keys; the recursive inner functions
  \<open>visit\<close> and \<open>walk\<close> are written over the list of dependencies still to be handled, which is the
  \<open>for\<close> loop of the source.
\<close>

section \<open>The graph and its construction\<close>

record dep_graph =
  g_nodes :: "string list"
  g_edges :: "(string \<times> string list) list"
  g_supersessions :: "(string \<times> string list) list"
  g_statuses :: "(string \<times> string) list"
  g_sources :: "(string \<times> string) list"
  g_malformed :: "string list"

definition lookup_list :: "(string \<times> string list) list \<Rightarrow> string \<Rightarrow> string list" where
  "lookup_list m k = (case map_of m k of None \<Rightarrow> [] | Some v \<Rightarrow> v)"

definition deps :: "dep_graph \<Rightarrow> string \<Rightarrow> string list" where
  "deps g n = lookup_list (g_edges g) n"

text \<open>What a directory below \<open>works/\<close> holds: nothing of interest, a file that does not load (with
  the name of the exception), or the loaded mapping.\<close>

datatype work_entry = Not_Work | Unreadable string | Loaded pydict

text \<open>Iteration over \<open>value or ()\<close>; numbers are not iterable.\<close>

fun py_iter :: "pyval \<Rightarrow> pyval list result" where
  "py_iter (PList xs) = Inr xs"
| "py_iter (PStr s) = Inr (map (\<lambda>c. PStr [c]) s)"
| "py_iter (PDict d) = Inr (map (\<lambda>(k, _). PStr k) d)"
| "py_iter v = (if truthy v then Inl (TypeError ''object is not iterable'') else Inr [])"

definition sorted_refs :: "pyval \<Rightarrow> string list result" where
  "sorted_refs v = (case py_iter v of Inl e \<Rightarrow> Inl e
     | Inr xs \<Rightarrow> Inr (sort (remdups (filter (\<lambda>s. s \<noteq> []) (map py_str xs)))))"

definition empty_graph :: dep_graph where
  "empty_graph = \<lparr>g_nodes = [], g_edges = [], g_supersessions = [], g_statuses = [], g_sources = [], g_malformed = []\<rparr>"

definition add_work :: "string \<Rightarrow> pydict \<Rightarrow> dep_graph \<Rightarrow> dep_graph result" where
  "add_work dir payload g =
     (let work_id = str_or_empty (dget payload ''work_id'')
      in if work_id = [] then Inr g
         else if work_id \<in> set (map fst (g_statuses g))
         then Inr (g\<lparr>g_malformed := g_malformed g @ [''DUPLICATE_WORK_ID:'' @ work_id]\<rparr>)
         else case sorted_refs (dget payload ''depends_on'') of Inl e \<Rightarrow> Inl e
         | Inr ds \<Rightarrow> (case sorted_refs (dget payload ''supersedes'') of Inl e \<Rightarrow> Inl e
           | Inr ss \<Rightarrow> Inr (g\<lparr>g_nodes := g_nodes g @ [work_id], g_edges := g_edges g @ [(work_id, ds)],
               g_supersessions := g_supersessions g @ [(work_id, ss)],
               g_statuses := g_statuses g @ [(work_id, str_or_empty (dget payload ''status''))],
               g_sources := g_sources g @ [(work_id, ''works/'' @ dir @ ''/WORK.yaml'')]\<rparr>)))"

fun collect_works :: "(string \<times> work_entry) list \<Rightarrow> dep_graph \<Rightarrow> dep_graph result" where
  "collect_works [] g = Inr g"
| "collect_works ((dir, Not_Work) # es) g = collect_works es g"
| "collect_works ((dir, Unreadable ename) # es) g =
     collect_works es (g\<lparr>g_malformed := g_malformed g @ [''WORK_YAML_UNREADABLE:'' @ dir @ '':'' @ ename]\<rparr>)"
| "collect_works ((dir, Loaded payload) # es) g =
     (case add_work dir payload g of Inl e \<Rightarrow> Inl e | Inr g' \<Rightarrow> collect_works es g')"

definition build_dependency_graph :: "(string \<times> work_entry) list \<Rightarrow> dep_graph result" where
  "build_dependency_graph entries =
     (case collect_works (sort_key fst entries) empty_graph of Inl e \<Rightarrow> Inl e
      | Inr g \<Rightarrow> Inr (g\<lparr>g_nodes := sort (g_nodes g), g_malformed := sort (remdups (g_malformed g))\<rparr>))"

section \<open>Cycle detection\<close>

record visit_state =
  v_state :: "string \<Rightarrow> nat"
  v_stack :: "string list"
  v_cycles :: "string list"

definition enter :: "string \<Rightarrow> visit_state \<Rightarrow> visit_state" where
  "enter n w = w\<lparr>v_state := (v_state w)(n := 1), v_stack := v_stack w @ [n]\<rparr>"

definition leave :: "string \<Rightarrow> visit_state \<Rightarrow> visit_state" where
  "leave n w = w\<lparr>v_stack := butlast (v_stack w), v_state := (v_state w)(n := 2)\<rparr>"

definition record_cycle :: "string \<Rightarrow> visit_state \<Rightarrow> visit_state" where
  "record_cycle d w = w\<lparr>v_cycles := v_cycles w @ dropWhile (\<lambda>x. x \<noteq> d) (v_stack w) @ [d]\<rparr>"

function visit_deps :: "dep_graph \<Rightarrow> string list \<Rightarrow> visit_state \<Rightarrow> visit_state" where
  "visit_deps g [] w = w"
| "visit_deps g (d # ds) w =
     (if d \<notin> set (g_nodes g) then visit_deps g ds w
      else if v_state w d = 1 then visit_deps g ds (record_cycle d w)
      else if v_state w d = 0 then visit_deps g ds (leave d (visit_deps g (deps g d) (enter d w)))
      else visit_deps g ds w)"
  by pat_completeness auto

definition white :: "dep_graph \<Rightarrow> visit_state \<Rightarrow> string set" where
  "white g w = {n \<in> set (g_nodes g). v_state w n = 0}"

lemma white_finite [simp]: "finite (white g w)"
  by (simp add: white_def)

lemma white_simps [simp]:
  "white g (record_cycle d w) = white g w"
  "white g (enter d w) = white g w - {d}"
  "white g (leave d w) = white g w - {d}"
  by (auto simp: white_def record_cycle_def enter_def leave_def)

lemma visit_deps_white: "visit_deps_dom (g, ds, w) \<Longrightarrow> white g (visit_deps g ds w) \<subseteq> white g w"
  by (induction g ds w rule: visit_deps.pinduct) (auto simp: visit_deps.psimps)

lemma white_enter_less:
  "d \<in> set (g_nodes g) \<Longrightarrow> v_state w d = 0 \<Longrightarrow> card (white g (enter d w)) < card (white g w)"
  by (subst white_simps(2), rule card_Diff1_less) (auto simp: white_def)

termination visit_deps
proof (relation "measures [\<lambda>(g, ds, w). card (white g w), \<lambda>(g, ds, w). length ds]", goal_cases)
  case (4 g d ds w)
  then show ?case using white_enter_less [of d g w] by simp
next
  case (5 g d ds w)
  then have "white g (leave d (visit_deps g (deps g d) (enter d w))) \<subseteq> white g (enter d w)"
    using visit_deps_white [of g "deps g d" "enter d w"] by auto
  then have "card (white g (leave d (visit_deps g (deps g d) (enter d w)))) \<le> card (white g (enter d w))"
    by (simp add: card_mono)
  then show ?case using white_enter_less [of d g w] 5 by simp
qed simp_all

definition initial_visit :: visit_state where
  "initial_visit = \<lparr>v_state = (\<lambda>_. 0), v_stack = [], v_cycles = []\<rparr>"

definition visit :: "dep_graph \<Rightarrow> string \<Rightarrow> visit_state \<Rightarrow> visit_state" where
  "visit g n w = leave n (visit_deps g (deps g n) (enter n w))"

fun visit_roots :: "dep_graph \<Rightarrow> string list \<Rightarrow> visit_state \<Rightarrow> visit_state" where
  "visit_roots g [] w = w"
| "visit_roots g (n # ns) w = visit_roots g ns (if v_state w n = 0 then visit g n w else w)"

definition detect_cycle :: "dep_graph \<Rightarrow> string list" where
  "detect_cycle g = v_cycles (visit_roots g (g_nodes g) initial_visit)"

section \<open>The closure walk\<close>

function walk_deps :: "dep_graph \<Rightarrow> string list \<Rightarrow> string list \<Rightarrow> string list \<Rightarrow> string list \<times> string list" where
  "walk_deps g [] visited ordered = (visited, ordered)"
| "walk_deps g (d # ds) visited ordered =
     (if d \<in> set visited then walk_deps g ds visited ordered
      else let (visited', ordered') = walk_deps g (sort (deps g d)) (d # visited) ordered
           in walk_deps g ds visited' (ordered' @ [d]))"
  by pat_completeness auto

definition unvisited :: "dep_graph \<Rightarrow> string list \<Rightarrow> string set" where
  "unvisited g visited = set (map fst (g_edges g)) - set visited"

lemma unvisited_finite [simp]: "finite (unvisited g visited)"
  by (simp add: unvisited_def)

lemma walk_deps_visited:
  "walk_deps_dom (g, ds, visited, ordered) \<Longrightarrow> set visited \<subseteq> set (fst (walk_deps g ds visited ordered))"
proof (induction g ds visited ordered rule: walk_deps.pinduct)
  case (1 g visited ordered)
  then show ?case by (simp add: walk_deps.psimps)
next
  case (2 g d ds visited ordered)
  show ?case
  proof (cases "d \<in> set visited")
    case True
    with 2 show ?thesis by (simp add: walk_deps.psimps)
  next
    case False
    obtain v o' where r: "walk_deps g (sort (deps g d)) (d # visited) ordered = (v, o')"
      by fastforce
    then have "set (d # visited) \<subseteq> set v" using "2.IH"(2) [OF False] by simp
    moreover have "set v \<subseteq> set (fst (walk_deps g ds v (o' @ [d])))"
      using "2.IH"(3) [OF False r [symmetric] refl] .
    ultimately show ?thesis using 2(1) False r by (simp add: walk_deps.psimps) blast
  qed
qed

lemma deps_unknown: "d \<notin> set (map fst (g_edges g)) \<Longrightarrow> deps g d = []"
  by (simp add: deps_def lookup_list_def flip: map_of_eq_None_iff)

termination walk_deps
proof (relation "measures [\<lambda>(g, ds, visited, ordered). card (unvisited g visited),
    \<lambda>(g, ds, visited, ordered). length ds]", goal_cases)
  case (3 g d ds visited ordered)
  show ?case
  proof (cases "d \<in> set (map fst (g_edges g))")
    case True
    with 3 have "unvisited g (d # visited) \<subset> unvisited g visited" by (auto simp: unvisited_def)
    then show ?thesis by (simp add: psubset_card_mono)
  next
    case False
    then have "unvisited g (d # visited) = unvisited g visited" by (auto simp: unvisited_def)
    with False show ?thesis by (simp add: deps_unknown)
  qed
next
  case (4 g d ds visited ordered p x y)
  then have "set (d # visited) \<subseteq> set x"
    using walk_deps_visited [of g "sort (deps g d)" "d # visited" ordered] by (metis fst_conv)
  then have "card (unvisited g x) \<le> card (unvisited g visited)"
    by (intro card_mono) (auto simp: unvisited_def)
  then show ?case by (auto simp: le_less)
qed simp_all

section \<open>Queries\<close>

datatype closure_query = Closure_Blocked string "string list" | Closure_Pass "string list" "string list"

definition known_work :: "dep_graph \<Rightarrow> string \<Rightarrow> bool" where
  "known_work g n = (n \<in> set (map fst (g_edges g)))"

definition unknown_references :: "dep_graph \<Rightarrow> string list" where
  "unknown_references g =
     sort (remdups (filter (\<lambda>r. \<not> known_work g r)
       (concat (map snd (g_edges g)) @ concat (map snd (g_supersessions g)))))"

definition resolve_closure :: "dep_graph \<Rightarrow> string \<Rightarrow> closure_query" where
  "resolve_closure g work_id =
     (if g_malformed g \<noteq> [] then Closure_Blocked ''DEPENDENCY_GRAPH_MALFORMED'' (g_malformed g)
      else if \<not> known_work g work_id then Closure_Blocked ''UNKNOWN_WORK'' []
      else if unknown_references g \<noteq> [] then Closure_Blocked ''UNKNOWN_DEPENDENCY'' (unknown_references g)
      else if detect_cycle g \<noteq> [] then Closure_Blocked ''DEPENDENCY_CYCLE_DETECTED'' (detect_cycle g)
      else let ordered = snd (walk_deps g [work_id] [] [])
           in Closure_Pass (if length ordered > 1 then butlast ordered else []) ordered)"

datatype successor_query =
    Successor_Blocked string "string list"
  | Successor_Needs_Review string
  | Successor_Pass string string "string list"

definition resolve_sole_successor :: "dep_graph \<Rightarrow> string \<Rightarrow> successor_query" where
  "resolve_sole_successor g cancelled =
     (if \<not> known_work g cancelled then Successor_Blocked ''UNKNOWN_WORK'' []
      else if g_malformed g \<noteq> [] then Successor_Blocked ''DEPENDENCY_GRAPH_MALFORMED'' (g_malformed g)
      else let current_status = (case map_of (g_statuses g) cancelled of None \<Rightarrow> [] | Some st \<Rightarrow> st)
           in if current_status \<noteq> ''cancelled''
              then Successor_Blocked ''PREDECESSOR_NOT_CANCELLED'' [current_status]
              else let declared = filter (\<lambda>s. cancelled \<in> set (lookup_list (g_supersessions g) s)) (sort (g_nodes g))
                   in case declared of
                        [] \<Rightarrow> Successor_Needs_Review ''NO_DECLARED_SUCCESSOR''
                      | [s] \<Rightarrow> Successor_Pass cancelled s declared
                      | _ \<Rightarrow> Successor_Blocked ''AMBIGUOUS_SUPERSESSION'' declared)"

section \<open>Topological lists\<close>

text \<open>Every element's successors come before it.\<close>

definition topo :: "('a \<times> 'a) set \<Rightarrow> 'a list \<Rightarrow> bool" where
  "topo E xs = (\<forall>ys x zs. xs = ys @ x # zs \<longrightarrow> E `` {x} \<subseteq> set ys)"

lemma topo_Nil [simp]: "topo E []"
  by (simp add: topo_def)

lemma topo_snoc:
  assumes "topo E xs" and "E `` {x} \<subseteq> set xs"
  shows "topo E (xs @ [x])"
  unfolding topo_def
proof (intro allI impI)
  fix ys y zs assume eq: "xs @ [x] = ys @ y # zs"
  show "E `` {y} \<subseteq> set ys"
  proof (cases zs rule: rev_cases)
    case Nil
    with eq assms(2) show ?thesis by simp
  next
    case (snoc zs' z)
    with eq have "xs = ys @ y # zs'" by simp
    with assms(1) show ?thesis unfolding topo_def by blast
  qed
qed

lemma topo_trancl:
  assumes "topo E xs" and "xs = ys @ x # zs" and "(x, y) \<in> E\<^sup>+"
  shows "y \<in> set ys"
  using assms(3)
proof (induction rule: trancl_induct)
  case (base y)
  with assms(1,2) show ?case unfolding topo_def by blast
next
  case (step y z)
  then obtain a b where "ys = a @ y # b" using split_list by metis
  then have "xs = a @ y # (b @ x # zs)" using assms(2) by simp
  then have "E `` {y} \<subseteq> set a" using assms(1) unfolding topo_def by blast
  with step.hyps(2) \<open>ys = a @ y # b\<close> show ?case by auto
qed

lemma topo_acyclic:
  assumes "topo E xs" and "distinct xs" and "Domain E \<subseteq> set xs"
  shows "acyclic E"
proof (rule acyclicI, intro allI notI)
  fix x assume cycle: "(x, x) \<in> E\<^sup>+"
  then have "x \<in> Domain E" by (metis Domain.DomainI tranclD)
  then obtain ys zs where xs: "xs = ys @ x # zs" using assms(3) split_list by (metis subsetD)
  then have "x \<in> set ys" using topo_trancl [OF assms(1) xs cycle] by simp
  with assms(2) xs show False by simp
qed

lemma topo_closed:
  assumes "topo E xs" and "x \<in> set xs" and "(x, y) \<in> E\<^sup>*"
  shows "y \<in> set xs"
proof -
  obtain ys zs where xs: "xs = ys @ x # zs" using assms(2) split_list by metis
  from assms(3) show ?thesis
    using topo_trancl [OF assms(1) xs] xs by (auto simp: rtrancl_eq_or_trancl)
qed

section \<open>Correctness of the cycle detection\<close>

definition edge_set :: "dep_graph \<Rightarrow> (string \<times> string) set" where
  "edge_set g = {(u, v). u \<in> set (g_nodes g) \<and> v \<in> set (deps g u) \<and> v \<in> set (g_nodes g)}"

text \<open>The stack holds exactly the nodes in state 1, without repetition.\<close>

definition visit_inv :: "dep_graph \<Rightarrow> visit_state \<Rightarrow> bool" where
  "visit_inv g w = (distinct (v_stack w) \<and> (\<forall>x. v_state w x = 1 \<longleftrightarrow> x \<in> set (v_stack w))
     \<and> (\<forall>x. v_state w x \<le> 2 \<and> (v_state w x \<noteq> 0 \<longrightarrow> x \<in> set (g_nodes g))))"

lemma visit_inv_two:
  assumes "visit_inv g w" and "v_state w x \<noteq> 0" and "v_state w x \<noteq> 1"
  shows "v_state w x = 2"
proof -
  have "v_state w x \<le> 2" using assms(1) by (simp add: visit_inv_def)
  with assms(2,3) show ?thesis by linarith
qed

lemma visit_inv_enter:
  "visit_inv g w \<Longrightarrow> d \<in> set (g_nodes g) \<Longrightarrow> v_state w d = 0 \<Longrightarrow> visit_inv g (enter d w)"
  unfolding visit_inv_def enter_def by simp (metis Suc_neq_Zero One_nat_def zero_neq_one)

lemma visit_inv_record [simp]: "visit_inv g (record_cycle d w) = visit_inv g w"
  by (simp add: visit_inv_def record_cycle_def)

lemma visit_inv_leave:
  "visit_inv g w \<Longrightarrow> v_stack w = st @ [d] \<Longrightarrow> d \<in> set (g_nodes g) \<Longrightarrow>
     visit_inv g (leave d w) \<and> v_stack (leave d w) = st"
  by (auto simp: visit_inv_def leave_def)

lemma visit_deps_frame:
  "visit_inv g w \<Longrightarrow> visit_inv g (visit_deps g ds w) \<and> v_stack (visit_deps g ds w) = v_stack w
     \<and> (\<forall>x. v_state w x = 2 \<longrightarrow> v_state (visit_deps g ds w) x = 2)
     \<and> prefix (v_cycles w) (v_cycles (visit_deps g ds w))"
proof (induction g ds w rule: visit_deps.induct)
  case (1 g w)
  then show ?case by simp
next
  case (2 g d ds w)
  let ?in = "visit_deps g (deps g d) (enter d w)"
  consider (skip) "d \<notin> set (g_nodes g)" | (grey) "d \<in> set (g_nodes g)" "v_state w d = 1"
    | (fresh) "d \<in> set (g_nodes g)" "v_state w d = 0"
    | (finished) "d \<in> set (g_nodes g)" "v_state w d \<noteq> 1" "v_state w d \<noteq> 0"
    by blast
  then show ?case
  proof cases
    case skip
    then show ?thesis using "2.IH"(1) "2.prems" by simp
  next
    case grey
    then have "v_stack (record_cycle d w) = v_stack w" "v_state (record_cycle d w) = v_state w"
      "prefix (v_cycles w) (v_cycles (record_cycle d w))"
      by (simp_all add: record_cycle_def)
    then show ?thesis using "2.IH"(2) "2.prems" grey by (simp add: prefix_order.trans)
  next
    case fresh
    have inner: "visit_inv g ?in \<and> v_stack ?in = v_stack w @ [d]
        \<and> (\<forall>x. v_state (enter d w) x = 2 \<longrightarrow> v_state ?in x = 2) \<and> prefix (v_cycles w) (v_cycles ?in)"
      using "2.IH"(3) fresh visit_inv_enter [OF "2.prems" fresh] by (simp add: enter_def)
    then have left: "visit_inv g (leave d ?in)" "v_stack (leave d ?in) = v_stack w"
      using visit_inv_leave fresh(1) by blast+
    have "\<forall>x. v_state w x = 2 \<longrightarrow> v_state (leave d ?in) x = 2"
      using inner fresh by (auto simp: leave_def enter_def)
    moreover have "v_cycles (leave d ?in) = v_cycles ?in" by (simp add: leave_def)
    ultimately show ?thesis
      using "2.IH"(4) fresh left inner by (simp add: prefix_order.trans) (metis prefix_order.trans)
  next
    case finished
    then show ?thesis using "2.IH"(5) "2.prems" by simp
  qed
qed

text \<open>Every stacked node leads to each dependency in the list still to be handled.\<close>

definition stack_leads :: "dep_graph \<Rightarrow> string list \<Rightarrow> visit_state \<Rightarrow> bool" where
  "stack_leads g ds w = (\<forall>x \<in> set (v_stack w). \<forall>d \<in> set ds. d \<in> set (g_nodes g) \<longrightarrow> (x, d) \<in> (edge_set g)\<^sup>+)"

lemma stack_leads_enter:
  assumes "stack_leads g (d # ds) w" and "d \<in> set (g_nodes g)"
  shows "stack_leads g (deps g d) (enter d w)"
proof -
  have edge: "(d, e) \<in> edge_set g" if "e \<in> set (deps g d)" "e \<in> set (g_nodes g)" for e
    using that assms(2) by (simp add: edge_set_def)
  have "(x, e) \<in> (edge_set g)\<^sup>+"
    if "x \<in> set (v_stack w @ [d])" "e \<in> set (deps g d)" "e \<in> set (g_nodes g)" for x e
    using that edge [OF that(2,3)] assms
    by (auto simp: stack_leads_def intro: trancl_into_trancl)
  then show ?thesis by (simp add: stack_leads_def enter_def)
qed

text \<open>On an acyclic graph nothing is recorded.\<close>

lemma visit_deps_sound:
  "visit_inv g w \<Longrightarrow> stack_leads g ds w \<Longrightarrow> acyclic (edge_set g) \<Longrightarrow> v_cycles (visit_deps g ds w) = v_cycles w"
proof (induction g ds w rule: visit_deps.induct)
  case (1 g w)
  then show ?case by simp
next
  case (2 g d ds w)
  let ?in = "visit_deps g (deps g d) (enter d w)"
  have leads: "stack_leads g ds w" using "2.prems"(2) by (simp add: stack_leads_def)
  consider (skip) "d \<notin> set (g_nodes g)" | (grey) "d \<in> set (g_nodes g)" "v_state w d = 1"
    | (fresh) "d \<in> set (g_nodes g)" "v_state w d = 0"
    | (finished) "d \<in> set (g_nodes g)" "v_state w d \<noteq> 1" "v_state w d \<noteq> 0"
    by blast
  then show ?case
  proof cases
    case skip
    then show ?thesis using "2.IH"(1) "2.prems" leads by simp
  next
    case grey
    then have "(d, d) \<in> (edge_set g)\<^sup>+"
      using "2.prems"(1,2) by (simp add: visit_inv_def stack_leads_def)
    with "2.prems"(3) show ?thesis by (simp add: acyclic_def)
  next
    case fresh
    have entered: "visit_inv g (enter d w)" using visit_inv_enter [OF "2.prems"(1) fresh] .
    have frame: "visit_inv g ?in" "v_stack ?in = v_stack w @ [d]"
      using visit_deps_frame [OF entered, of "deps g d"] by (simp_all add: enter_def)
    have left: "visit_inv g (leave d ?in)" "v_stack (leave d ?in) = v_stack w"
      using visit_inv_leave [OF frame fresh(1)] by blast+
    have "v_cycles ?in = v_cycles w"
      using "2.IH"(3) fresh entered stack_leads_enter [OF "2.prems"(2) fresh(1)] "2.prems"(3)
      by (simp add: enter_def)
    moreover have "v_cycles (visit_deps g ds (leave d ?in)) = v_cycles (leave d ?in)"
      using "2.IH"(4) fresh left(1) leads left(2) "2.prems"(3) by (simp add: stack_leads_def)
    ultimately show ?thesis using fresh by (simp add: leave_def)
  next
    case finished
    then show ?thesis using "2.IH"(5) "2.prems" leads by simp
  qed
qed

text \<open>The finished nodes can be listed topologically as long as nothing was recorded.\<close>

definition finished_topo :: "dep_graph \<Rightarrow> visit_state \<Rightarrow> bool" where
  "finished_topo g w = (\<exists>xs. distinct xs \<and> set xs = {x. v_state w x = 2} \<and> topo (edge_set g) xs)"

lemma finished_topo_leave:
  assumes "finished_topo g w" and "v_state w d = 1"
    and "\<forall>e \<in> set (deps g d). e \<in> set (g_nodes g) \<longrightarrow> v_state w e = 2"
  shows "finished_topo g (leave d w)"
proof -
  from assms(1) obtain xs where xs: "distinct xs" "set xs = {x. v_state w x = 2}" "topo (edge_set g) xs"
    by (auto simp: finished_topo_def)
  have "edge_set g `` {d} \<subseteq> set xs" using assms(3) xs(2) by (auto simp: edge_set_def)
  with xs(3) have "topo (edge_set g) (xs @ [d])" by (rule topo_snoc)
  moreover have "distinct (xs @ [d])" using xs(1,2) assms(2) by simp
  moreover have "set (xs @ [d]) = {x. v_state (leave d w) x = 2}" using xs(2) by (auto simp: leave_def)
  ultimately show ?thesis unfolding finished_topo_def by blast
qed

lemma visit_deps_complete:
  "visit_inv g w \<Longrightarrow> finished_topo g w \<Longrightarrow> v_cycles (visit_deps g ds w) = [] \<Longrightarrow>
     finished_topo g (visit_deps g ds w)
     \<and> (\<forall>d \<in> set ds. d \<in> set (g_nodes g) \<longrightarrow> v_state (visit_deps g ds w) d = 2)"
proof (induction g ds w rule: visit_deps.induct)
  case (1 g w)
  then show ?case by simp
next
  case (2 g d ds w)
  let ?in = "visit_deps g (deps g d) (enter d w)"
  consider (skip) "d \<notin> set (g_nodes g)" | (grey) "d \<in> set (g_nodes g)" "v_state w d = 1"
    | (fresh) "d \<in> set (g_nodes g)" "v_state w d = 0"
    | (finished) "d \<in> set (g_nodes g)" "v_state w d \<noteq> 1" "v_state w d \<noteq> 0"
    by blast
  then show ?case
  proof cases
    case skip
    then show ?thesis using "2.IH"(1) "2.prems" by simp
  next
    case grey
    then have "prefix (v_cycles (record_cycle d w)) []"
      using visit_deps_frame [of g "record_cycle d w" ds] "2.prems" by simp
    then show ?thesis by (simp add: record_cycle_def)
  next
    case fresh
    have entered: "visit_inv g (enter d w)" using visit_inv_enter [OF "2.prems"(1) fresh] .
    have frame: "visit_inv g ?in" "v_stack ?in = v_stack w @ [d]"
      using visit_deps_frame [OF entered, of "deps g d"] by (simp_all add: enter_def)
    have left: "visit_inv g (leave d ?in)" using visit_inv_leave [OF frame fresh(1)] by blast
    have res: "visit_deps g (d # ds) w = visit_deps g ds (leave d ?in)" using fresh by simp
    have rest: "prefix (v_cycles (leave d ?in)) (v_cycles (visit_deps g ds (leave d ?in)))"
      "\<forall>x. v_state (leave d ?in) x = 2 \<longrightarrow> v_state (visit_deps g ds (leave d ?in)) x = 2"
      using visit_deps_frame [OF left, of ds] by blast+
    have "v_cycles ?in = []" using rest(1) "2.prems"(3) res by (simp add: leave_def)
    moreover have "finished_topo g (enter d w)"
    proof -
      have "{x. v_state (enter d w) x = 2} = {x. v_state w x = 2}" using fresh(2) by (auto simp: enter_def)
      then show ?thesis using "2.prems"(2) by (simp add: finished_topo_def)
    qed
    ultimately have inner: "finished_topo g ?in"
      "\<forall>e \<in> set (deps g d). e \<in> set (g_nodes g) \<longrightarrow> v_state ?in e = 2"
      using "2.IH"(3) fresh entered by simp_all
    have "v_state ?in d = 1" using frame by (simp add: visit_inv_def)
    then have "finished_topo g (leave d ?in)" using finished_topo_leave inner by blast
    then have "finished_topo g (visit_deps g ds (leave d ?in))
        \<and> (\<forall>e \<in> set ds. e \<in> set (g_nodes g) \<longrightarrow> v_state (visit_deps g ds (leave d ?in)) e = 2)"
      using "2.IH"(4) fresh left "2.prems"(3) res by simp
    moreover have "v_state (visit_deps g ds (leave d ?in)) d = 2" using rest(2) by (simp add: leave_def)
    ultimately show ?thesis using res by simp
  next
    case finished
    have two: "v_state w d = 2" using visit_inv_two [OF "2.prems"(1)] finished by blast
    have res: "visit_deps g (d # ds) w = visit_deps g ds w" using finished by simp
    have "finished_topo g (visit_deps g ds w)
        \<and> (\<forall>e \<in> set ds. e \<in> set (g_nodes g) \<longrightarrow> v_state (visit_deps g ds w) e = 2)"
      using "2.IH"(5) finished "2.prems" res by simp
    moreover have "v_state (visit_deps g ds w) d = 2"
      using visit_deps_frame [OF "2.prems"(1), of ds] two by blast
    ultimately show ?thesis unfolding res by simp
  qed
qed

lemma visit_roots_frame:
  "visit_inv g w \<Longrightarrow> v_stack w = [] \<Longrightarrow> set ns \<subseteq> set (g_nodes g) \<Longrightarrow>
     prefix (v_cycles w) (v_cycles (visit_roots g ns w))
     \<and> (\<forall>x. v_state w x = 2 \<longrightarrow> v_state (visit_roots g ns w) x = 2)
     \<and> (acyclic (edge_set g) \<longrightarrow> v_cycles (visit_roots g ns w) = v_cycles w)
     \<and> (finished_topo g w \<longrightarrow> v_cycles (visit_roots g ns w) = [] \<longrightarrow>
          finished_topo g (visit_roots g ns w) \<and> (\<forall>n \<in> set ns. v_state (visit_roots g ns w) n = 2))"
proof (induction ns arbitrary: w)
  case Nil
  then show ?case by simp
next
  case (Cons n ns)
  have n: "n \<in> set (g_nodes g)" and ns: "set ns \<subseteq> set (g_nodes g)" using Cons.prems(3) by auto
  show ?case
  proof (cases "v_state w n = 0")
    case True
    define v where "v = visit g n w"
    have root: "visit_deps g [n] w = v" using True n by (simp add: v_def visit_def)
    have leads: "stack_leads g [n] w" using Cons.prems(2) by (simp add: stack_leads_def)
    have frame: "visit_inv g v" "v_stack v = []" "\<forall>x. v_state w x = 2 \<longrightarrow> v_state v x = 2" "prefix (v_cycles w) (v_cycles v)"
      using visit_deps_frame [OF Cons.prems(1), of "[n]"] Cons.prems(2) unfolding root by simp_all
    have sound: "acyclic (edge_set g) \<Longrightarrow> v_cycles v = v_cycles w"
      using visit_deps_sound [OF Cons.prems(1) leads] unfolding root .
    have complete: "finished_topo g w \<Longrightarrow> v_cycles v = [] \<Longrightarrow> finished_topo g v \<and> v_state v n = 2"
      using visit_deps_complete [OF Cons.prems(1), of "[n]"] n unfolding root by simp
    have res: "visit_roots g (n # ns) w = visit_roots g ns v" using True by (simp add: v_def)
    note IH = Cons.IH [OF frame(1,2) ns]
    have "finished_topo g (visit_roots g ns v) \<and> (\<forall>m \<in> set (n # ns). v_state (visit_roots g ns v) m = 2)"
      if "finished_topo g w" "v_cycles (visit_roots g ns v) = []"
    proof -
      have "v_cycles v = []" using IH that(2) by simp
      then have "finished_topo g v \<and> v_state v n = 2" using complete that(1) by blast
      then show ?thesis using IH that(2) by simp
    qed
    moreover have "prefix (v_cycles w) (v_cycles (visit_roots g ns v))"
      using frame(4) IH by (meson prefix_order.trans)
    moreover have "acyclic (edge_set g) \<longrightarrow> v_cycles (visit_roots g ns v) = v_cycles w"
      using IH sound by (metis (no_types))
    moreover have "\<forall>x. v_state w x = 2 \<longrightarrow> v_state (visit_roots g ns v) x = 2"
      using IH frame(3) by blast
    ultimately show ?thesis unfolding res by blast
  next
    case False
    have two: "v_state w n = 2"
    proof (rule visit_inv_two [OF Cons.prems(1) False])
      show "v_state w n \<noteq> 1" using Cons.prems(1,2) by (simp add: visit_inv_def)
    qed
    have res: "visit_roots g (n # ns) w = visit_roots g ns w" using False by simp
    show ?thesis unfolding res using Cons.IH [OF Cons.prems(1,2) ns] two by auto
  qed
qed

lemma initial_visit_inv: "visit_inv g initial_visit" "v_stack initial_visit = []" "finished_topo g initial_visit"
  by (simp_all add: visit_inv_def initial_visit_def finished_topo_def)

lemma detect_cycle_correct: "detect_cycle g = [] \<longleftrightarrow> acyclic (edge_set g)"
proof
  assume none: "detect_cycle g = []"
  define w where "w = visit_roots g (g_nodes g) initial_visit"
  have "finished_topo g w" "\<forall>n \<in> set (g_nodes g). v_state w n = 2"
    using visit_roots_frame [of g initial_visit "g_nodes g"] initial_visit_inv none
    by (simp_all add: detect_cycle_def w_def)
  then obtain xs where "distinct xs" "topo (edge_set g) xs" "set (g_nodes g) \<subseteq> set xs"
    unfolding finished_topo_def by auto
  moreover have "Domain (edge_set g) \<subseteq> set (g_nodes g)" by (auto simp: edge_set_def)
  ultimately show "acyclic (edge_set g)" by (meson topo_acyclic subset_trans)
next
  assume "acyclic (edge_set g)"
  then show "detect_cycle g = []"
    using visit_roots_frame [of g initial_visit "g_nodes g"] initial_visit_inv
    by (simp add: detect_cycle_def) (simp add: initial_visit_def)
qed

section \<open>Correctness of the closure walk\<close>

definition dep_edges :: "dep_graph \<Rightarrow> (string \<times> string) set" where
  "dep_edges g = {(u, v). v \<in> set (deps g u)}"

text \<open>Visited but not yet ordered nodes are the callers on the recursion stack; each leads to every
  dependency still to be walked.\<close>

definition walk_inv :: "dep_graph \<Rightarrow> string list \<Rightarrow> string list \<Rightarrow> string list \<Rightarrow> bool" where
  "walk_inv g ds visited ordered = (set ordered \<subseteq> set visited \<and> distinct ordered \<and> topo (dep_edges g) ordered
     \<and> (\<forall>x \<in> set visited - set ordered. \<forall>d \<in> set ds. (x, d) \<in> (dep_edges g)\<^sup>+))"

definition walk_post :: "dep_graph \<Rightarrow> string list \<Rightarrow> string list \<Rightarrow> string list \<Rightarrow> string list \<Rightarrow> string list \<Rightarrow> bool" where
  "walk_post g ds visited ordered v' o' = (set o' \<subseteq> set v' \<and> distinct o' \<and> topo (dep_edges g) o'
     \<and> set v' - set o' = set visited - set ordered \<and> set ds \<subseteq> set o' \<and> set ordered \<subseteq> set o'
     \<and> set o' \<subseteq> set ordered \<union> (dep_edges g)\<^sup>* `` set ds)"

lemma walk_deps_correct:
  "acyclic (dep_edges g) \<Longrightarrow> walk_inv g ds visited ordered \<Longrightarrow>
     (case walk_deps g ds visited ordered of (v', o') \<Rightarrow> walk_post g ds visited ordered v' o')"
proof (induction g ds visited ordered rule: walk_deps.induct)
  case (1 g visited ordered)
  then show ?case by (simp add: walk_inv_def walk_post_def)
next
  case (2 g d ds visited ordered)
  let ?E = "dep_edges g"
  have tail: "walk_inv g ds visited ordered" using "2.prems"(2) by (simp add: walk_inv_def)
  show ?case
  proof (cases "d \<in> set visited")
    case True
    then have "d \<in> set ordered" using "2.prems" by (auto simp: walk_inv_def acyclic_def)
    with True "2.IH"(1) "2.prems"(1) tail show ?thesis by (auto simp: walk_post_def)
  next
    case False
    obtain v1 o1 where r: "walk_deps g (sort (deps g d)) (d # visited) ordered = (v1, o1)" by fastforce
    have edge: "(d, e) \<in> ?E" if "e \<in> set (deps g d)" for e using that by (simp add: dep_edges_def)
    have "walk_inv g (sort (deps g d)) (d # visited) ordered"
      using "2.prems"(2) edge by (auto simp: walk_inv_def intro: trancl_into_trancl)
    then have p1: "walk_post g (sort (deps g d)) (d # visited) ordered v1 o1"
      using "2.IH"(2) [OF False "2.prems"(1)] r by simp
    then have d: "d \<notin> set o1" "d \<in> set v1" using False "2.prems"(2) by (auto simp: walk_post_def walk_inv_def)
    have "?E `` {d} \<subseteq> set o1" using p1 by (auto simp: walk_post_def dep_edges_def)
    then have topo: "topo ?E (o1 @ [d])" using p1 topo_snoc by (auto simp: walk_post_def)
    have grey: "set v1 - set (o1 @ [d]) = set visited - set ordered"
      using p1 d False by (auto simp: walk_post_def)
    have "walk_inv g ds v1 (o1 @ [d])"
      using p1 d topo grey tail by (auto simp: walk_inv_def walk_post_def)
    then have p2: "case walk_deps g ds v1 (o1 @ [d]) of (v', o') \<Rightarrow> walk_post g ds v1 (o1 @ [d]) v' o'"
      using "2.IH"(3) [OF False r [symmetric] refl "2.prems"(1)] by simp
    obtain v2 o2 where r2: "walk_deps g ds v1 (o1 @ [d]) = (v2, o2)" by fastforce
    have post: "walk_post g ds v1 (o1 @ [d]) v2 o2" using p2 r2 by simp
    have "?E\<^sup>* `` set (deps g d) \<subseteq> ?E\<^sup>* `` {d}"
      using edge by (auto intro: converse_rtrancl_into_rtrancl)
    moreover have "set o1 \<subseteq> set ordered \<union> ?E\<^sup>* `` set (deps g d)" using p1 by (simp add: walk_post_def)
    ultimately have "set o1 \<subseteq> set ordered \<union> ?E\<^sup>* `` {d}" by blast
    moreover have "set o2 \<subseteq> insert d (set o1) \<union> ?E\<^sup>* `` set ds" using post by (simp add: walk_post_def)
    moreover have "insert d (?E\<^sup>* `` {d}) \<union> ?E\<^sup>* `` set ds \<subseteq> ?E\<^sup>* `` set (d # ds)" by auto
    ultimately have "set o2 \<subseteq> set ordered \<union> ?E\<^sup>* `` set (d # ds)" by blast
    moreover have "set ordered \<subseteq> set o2" using post p1 by (auto simp: walk_post_def)
    ultimately have "walk_post g (d # ds) visited ordered v2 o2"
      using post grey by (simp add: walk_post_def)
    then show ?thesis using False r r2 by simp
  qed
qed

lemma walk_single_last:
  "d \<notin> set visited \<Longrightarrow> \<exists>pre. snd (walk_deps g [d] visited ordered) = pre @ [d]"
  by (simp split: prod.split)

text \<open>The graph built by the scan: one entry per Work in every table.\<close>

definition wf_graph :: "dep_graph \<Rightarrow> bool" where
  "wf_graph g = (distinct (g_nodes g) \<and> set (g_nodes g) = set (map fst (g_edges g))
     \<and> distinct (map fst (g_edges g))
     \<and> map fst (g_supersessions g) = map fst (g_edges g) \<and> map fst (g_statuses g) = map fst (g_edges g)
     \<and> map fst (g_sources g) = map fst (g_edges g))"

lemma wf_graph_malformed [simp]: "wf_graph (g\<lparr>g_malformed := ms\<rparr>) = wf_graph g"
  by (simp add: wf_graph_def)

lemma wf_graph_snoc:
  "wf_graph g \<Longrightarrow> w \<notin> fst ` set (g_statuses g) \<Longrightarrow>
     wf_graph (g\<lparr>g_nodes := g_nodes g @ [w], g_edges := g_edges g @ [(w, a)],
       g_supersessions := g_supersessions g @ [(w, b)], g_statuses := g_statuses g @ [(w, c)],
       g_sources := g_sources g @ [(w, d)]\<rparr>)"
proof -
  assume g: "wf_graph g" and w: "w \<notin> fst ` set (g_statuses g)"
  then have "set (map fst (g_statuses g)) = set (map fst (g_edges g))" by (simp only: wf_graph_def)
  with w have "w \<notin> fst ` set (g_edges g)" by simp
  with g show ?thesis by (simp add: wf_graph_def)
qed

lemma add_work_wf: "wf_graph g \<Longrightarrow> add_work dir payload g = Inr g' \<Longrightarrow> wf_graph g'"
  by (auto simp: add_work_def Let_def wf_graph_snoc split: if_split_asm sum.split_asm)

lemma collect_works_wf: "wf_graph g \<Longrightarrow> collect_works es g = Inr g' \<Longrightarrow> wf_graph g'"
proof (induction es g rule: collect_works.induct)
  case (3 dir ename es g)
  then show ?case by simp
next
  case (4 dir payload es g)
  then show ?case using add_work_wf by (auto split: sum.splits)
qed simp_all

lemma edges_agree:
  assumes "wf_graph g" and "unknown_references g = []"
  shows "edge_set g = dep_edges g"
proof -
  have known: "known_work g v" if "v \<in> set (deps g u)" for u v
  proof -
    from that obtain ds where "(u, ds) \<in> set (g_edges g)" "v \<in> set ds"
      by (cases "map_of (g_edges g) u") (auto simp: deps_def lookup_list_def dest: map_of_SomeD)
    then have "v \<in> set (concat (map snd (g_edges g)))" by force
    moreover have "v \<notin> set (unknown_references g)" using assms(2) by simp
    ultimately show ?thesis unfolding unknown_references_def by simp
  qed
  have "known_work g u" if "v \<in> set (deps g u)" for u v
    using that deps_unknown [of u g] unfolding known_work_def by (metis empty_iff list.set(1))
  with known show ?thesis
    using assms(1) by (auto simp: edge_set_def dep_edges_def wf_graph_def known_work_def)
qed

lemma build_wf:
  assumes "build_dependency_graph entries = Inr g"
  shows "wf_graph g"
proof -
  from assms obtain h where h: "collect_works (sort_key fst entries) empty_graph = Inr h"
    and g: "g = h\<lparr>g_nodes := sort (g_nodes h), g_malformed := sort (remdups (g_malformed h))\<rparr>"
    by (auto simp: build_dependency_graph_def split: sum.splits)
  have "wf_graph empty_graph" by (simp add: wf_graph_def empty_graph_def)
  then have "wf_graph h" using h by (rule collect_works_wf)
  then show ?thesis by (simp add: g) (simp add: wf_graph_def)
qed

section \<open>Properties\<close>

text \<open>C5: The depth first search reports a cycle exactly when the dependency relation between the known
  Work items has one; in particular it terminates on every graph, cyclic ones included.\<close>

theorem detect_cycle_iff_cyclic: "detect_cycle g = [] \<longleftrightarrow> acyclic (edge_set g)"
  by (rule detect_cycle_correct)

text \<open>C7: On the graph built from a process repository the closure query passes exactly when no record is
  malformed, the Work is known, no reference dangles and the dependencies are acyclic. The order it
  returns then ends in the queried Work, lists exactly the Work items reachable from it, each once,
  and lists every dependency before its dependents.\<close>

theorem resolve_closure_topological:
  assumes "build_dependency_graph entries = Inr g"
  shows "(case resolve_closure g w of
      Closure_Blocked reason details \<Rightarrow> g_malformed g \<noteq> [] \<or> \<not> known_work g w
        \<or> unknown_references g \<noteq> [] \<or> \<not> acyclic (dep_edges g)
    | Closure_Pass closure order \<Rightarrow>
        g_malformed g = [] \<and> known_work g w \<and> unknown_references g = [] \<and> acyclic (dep_edges g)
        \<and> order = closure @ [w] \<and> distinct order \<and> topo (dep_edges g) order
        \<and> set order = (dep_edges g)\<^sup>* `` {w})"
proof -
  have wf: "wf_graph g" using build_wf [OF assms] .
  show ?thesis
  proof (cases "g_malformed g = [] \<and> known_work g w \<and> unknown_references g = []")
    case False
    then show ?thesis by (auto simp: resolve_closure_def)
  next
    case True
    then have E: "edge_set g = dep_edges g" using edges_agree wf by blast
    show ?thesis
    proof (cases "acyclic (dep_edges g)")
      case False
      then have "detect_cycle g \<noteq> []" using E detect_cycle_correct [of g] by simp
      with True False show ?thesis by (simp add: resolve_closure_def)
    next
      case acyclic: True
      obtain v o1 where r: "walk_deps g [w] [] [] = (v, o1)" by fastforce
      have post: "walk_post g [w] [] [] v o1"
        using walk_deps_correct [OF acyclic, of "[w]" "[]" "[]"] r by (simp add: walk_inv_def)
      obtain pre where pre: "o1 = pre @ [w]" using walk_single_last [of w "[]" g "[]"] r by auto
      have "(dep_edges g)\<^sup>* `` {w} \<subseteq> set o1"
        using post topo_closed [of "dep_edges g" o1 w] by (auto simp: walk_post_def)
      then have set: "set o1 = (dep_edges g)\<^sup>* `` {w}" using post by (auto simp: walk_post_def)
      have "resolve_closure g w = Closure_Pass pre o1"
        using True acyclic E detect_cycle_correct [of g] r pre
        by (cases pre) (simp_all add: resolve_closure_def Let_def del: walk_deps.simps)
      with True acyclic pre set post show ?thesis by (simp add: walk_post_def)
    qed
  qed
qed

definition demo_entries :: "(string \<times> work_entry) list" where
  "demo_entries =
     [(''B'', Loaded [(''work_id'', PStr ''W-B''), (''status'', PStr ''active''), (''depends_on'', PList [PStr ''W-A''])]),
      (''A'', Loaded [(''work_id'', PStr ''W-A''), (''status'', PStr ''cancelled'')]),
      (''C'', Loaded [(''work_id'', PStr ''W-C''), (''status'', PStr ''planned''),
         (''depends_on'', PList [PStr ''W-B'', PStr ''W-A'']), (''supersedes'', PList [PStr ''W-A''])]),
      (''notes'', Not_Work)]"

definition demo_graph :: dep_graph where
  "demo_graph = \<lparr>g_nodes = [''W-A'', ''W-B'', ''W-C''],
     g_edges = [(''W-A'', []), (''W-B'', [''W-A'']), (''W-C'', [''W-A'', ''W-B''])],
     g_supersessions = [(''W-A'', []), (''W-B'', []), (''W-C'', [''W-A''])],
     g_statuses = [(''W-A'', ''cancelled''), (''W-B'', ''active''), (''W-C'', ''planned'')],
     g_sources = [(''W-A'', ''works/A/WORK.yaml''), (''W-B'', ''works/B/WORK.yaml''), (''W-C'', ''works/C/WORK.yaml'')],
     g_malformed = []\<rparr>"

lemma demo_build: "build_dependency_graph demo_entries = Inr demo_graph"
  by code_simp

theorem resolve_closure_topological_witness:
  "topo (dep_edges demo_graph) [''W-A'', ''W-B'', ''W-C''] \<and> acyclic (dep_edges demo_graph)"
proof -
  have "resolve_closure demo_graph ''W-C'' = Closure_Pass [''W-A'', ''W-B''] [''W-A'', ''W-B'', ''W-C'']"
    by code_simp
  then show ?thesis using resolve_closure_topological [OF demo_build, of "''W-C''"] by simp
qed

definition declares :: "dep_graph \<Rightarrow> string \<Rightarrow> string \<Rightarrow> bool" where
  "declares g s c = (s \<in> set (g_nodes g) \<and> c \<in> set (lookup_list (g_supersessions g) s))"

lemma distinct_singleton_list: "distinct xs \<Longrightarrow> set xs = {s} \<longleftrightarrow> xs = [s]"
proof (cases xs)
  case (Cons x ys)
  then show "distinct xs \<Longrightarrow> set xs = {s} \<longleftrightarrow> xs = [s]" by (cases ys) auto
qed simp

lemma declared_unique:
  assumes "distinct (g_nodes g)"
  shows "filter (\<lambda>s. c \<in> set (lookup_list (g_supersessions g) s)) (sort (g_nodes g)) = [s]
    \<longleftrightarrow> (\<forall>t. declares g t c \<longleftrightarrow> t = s)"
    (is "?xs = [s] \<longleftrightarrow> _")
proof -
  have "set ?xs = {t. declares g t c}" by (auto simp: declares_def)
  moreover have "distinct ?xs" using assms by simp
  ultimately show ?thesis using distinct_singleton_list [of ?xs s] by auto
qed

lemma declared_set: "set (filter (\<lambda>s. c \<in> set (lookup_list (g_supersessions g) s)) (sort (g_nodes g))) = {t. declares g t c}"
  by (auto simp: declares_def)

text \<open>The answer for a healthy graph and a known, cancelled Work, by the list of the Works that declare to supersede it.\<close>

lemma successor_of_cancelled:
  assumes "known_work g c" and "g_malformed g = []" and "map_of (g_statuses g) c = Some ''cancelled''"
  shows "resolve_sole_successor g c = (case filter (\<lambda>s. c \<in> set (lookup_list (g_supersessions g) s)) (sort (g_nodes g)) of
      [] \<Rightarrow> Successor_Needs_Review ''NO_DECLARED_SUCCESSOR''
    | [s] \<Rightarrow> Successor_Pass c s [s]
    | ss \<Rightarrow> Successor_Blocked ''AMBIGUOUS_SUPERSESSION'' ss)"
  using assms by (simp add: resolve_sole_successor_def Let_def split: list.split)

text \<open>C31: Whose successor is reported. Some successor is reported exactly when the graph is healthy, the predecessor is a known,
  cancelled Work and exactly one known Work declares to supersede it, and then it is that Work alone. For such a predecessor
  several declarations are always refused as ambiguous, with their ids in order, and a missing declaration asks for a review.\<close>

theorem resolve_sole_successor_iff:
  assumes "build_dependency_graph entries = Inr g"
  shows "((\<exists>c' s ss. resolve_sole_successor g c = Successor_Pass c' s ss)
      \<longleftrightarrow> g_malformed g = [] \<and> known_work g c \<and> map_of (g_statuses g) c = Some ''cancelled'' \<and> (\<exists>!s. declares g s c))
    \<and> (\<forall>c' s ss. resolve_sole_successor g c = Successor_Pass c' s ss \<longrightarrow> c' = c \<and> ss = [s] \<and> (\<forall>t. declares g t c \<longleftrightarrow> t = s))
    \<and> (g_malformed g = [] \<and> known_work g c \<and> map_of (g_statuses g) c = Some ''cancelled'' \<longrightarrow>
        ((\<exists>s t. s \<noteq> t \<and> declares g s c \<and> declares g t c) \<longrightarrow>
           (\<exists>ss. resolve_sole_successor g c = Successor_Blocked ''AMBIGUOUS_SUPERSESSION'' ss \<and> sorted ss \<and> distinct ss \<and> set ss = {t. declares g t c}))
        \<and> ((\<forall>t. \<not> declares g t c) \<longrightarrow> resolve_sole_successor g c = Successor_Needs_Review ''NO_DECLARED_SUCCESSOR''))"
proof (cases "g_malformed g = [] \<and> known_work g c \<and> map_of (g_statuses g) c = Some ''cancelled''")
  case False
  then have "resolve_sole_successor g c \<noteq> Successor_Pass c' s ss" for c' s ss
    by (auto simp: resolve_sole_successor_def Let_def split: option.splits if_splits)
  then show ?thesis using False by blast
next
  case True
  define ss where "ss = filter (\<lambda>s. c \<in> set (lookup_list (g_supersessions g) s)) (sort (g_nodes g))"
  have d: "distinct ss" "sorted ss" using build_wf [OF assms] by (simp_all add: wf_graph_def ss_def sorted_wrt_filter)
  have mem: "declares g t c \<longleftrightarrow> t \<in> set ss" for t using declared_set [of c g] unfolding ss_def by blast
  have r: "resolve_sole_successor g c = (case ss of [] \<Rightarrow> Successor_Needs_Review ''NO_DECLARED_SUCCESSOR''
    | [s] \<Rightarrow> Successor_Pass c s [s] | ss \<Rightarrow> Successor_Blocked ''AMBIGUOUS_SUPERSESSION'' ss)"
    unfolding ss_def using True by (simp add: successor_of_cancelled)
  consider "ss = []" | s where "ss = [s]" | a b xs where "ss = a # b # xs" by (metis list.exhaust)
  then show ?thesis
  proof cases
    case 3
    then have "a \<noteq> b" using d(1) by simp
    then show ?thesis using 3 True r d by (auto simp: mem)
  qed (use True r in \<open>auto simp: mem\<close>)
qed

theorem resolve_sole_successor_iff_witness:
  "\<forall>t. declares demo_graph t ''W-A'' \<longleftrightarrow> t = ''W-C''"
proof -
  have "resolve_sole_successor demo_graph ''W-A'' = Successor_Pass ''W-A'' ''W-C'' [''W-C'']"
    by code_simp
  then show ?thesis using resolve_sole_successor_iff [OF demo_build, of "''W-A''"] by blast
qed

end
