(* ===== verification/Document_Fields.thy ===== *)
theory Document_Fields
  imports Prelude "HOL-Library.Multiset"
begin

text \<open>
  Reading documents field by field: results composed in sequence, guards that raise a coded
  \<open>ValueError\<close>, closed dictionaries, stripped texts with a pattern, canonical lists of texts and safe
  references, as the readers of the contracts share them.
\<close>

section \<open>Shapes of values\<close>

text \<open>Dictionaries with strictly increasing keys, at every level: what a printer with \<open>sort_keys\<close> emits.\<close>

fun key_sorted :: "pyval \<Rightarrow> bool" where
  "key_sorted (PList xs) = list_all key_sorted xs"
| "key_sorted (PDict d) = (sorted_wrt (<) (map fst d) \<and> list_all (\<lambda>(k, v). key_sorted v) d)"
| "key_sorted v = True"

fun is_dict :: "pyval \<Rightarrow> bool" where
  "is_dict (PDict _) = True"
| "is_dict _ = False"

fun is_list :: "pyval \<Rightarrow> bool" where
  "is_list (PList _) = True"
| "is_list _ = False"

fun is_bool :: "pyval \<Rightarrow> bool" where
  "is_bool (PBool _) = True"
| "is_bool _ = False"

fun unhashable :: "pyval \<Rightarrow> bool" where
  "unhashable (PList _) = True"
| "unhashable (PDict _) = True"
| "unhashable _ = False"

section \<open>Results in sequence\<close>

fun map_result :: "('a \<Rightarrow> 'b result) \<Rightarrow> 'a list \<Rightarrow> 'b list result" where
  "map_result f [] = Inr []"
| "map_result f (x # xs) =
     (case f x of Inl e \<Rightarrow> Inl e
      | Inr y \<Rightarrow> (case map_result f xs of Inl e \<Rightarrow> Inl e | Inr ys \<Rightarrow> Inr (y # ys)))"

fun check_all :: "('a \<Rightarrow> unit result) \<Rightarrow> 'a list \<Rightarrow> unit result" where
  "check_all f [] = Inr ()"
| "check_all f (x # xs) = (case f x of Inl e \<Rightarrow> Inl e | Inr _ \<Rightarrow> check_all f xs)"

lemma check_all_Inr: "check_all f xs = Inr () \<longleftrightarrow> (\<forall>x \<in> set xs. f x = Inr ())"
  by (induction xs) (auto split: sum.splits)

lemma map_result_inverse: "(\<And>x. x \<in> set xs \<Longrightarrow> f (g x) = Inr x) \<Longrightarrow> map_result f (map g xs) = Inr xs"
  by (induction xs) simp_all

lemma map_result_Inr: "map_result f xs = Inr ys \<longleftrightarrow> list_all2 (\<lambda>x y. f x = Inr y) xs ys"
proof (induction xs arbitrary: ys)
  case (Cons x xs)
  show ?case
  proof (cases "f x")
    case (Inl e)
    then show ?thesis by (auto simp: list_all2_Cons1)
  next
    case (Inr y)
    then have "map_result f (x # xs) = Inr ys \<longleftrightarrow> (\<exists>zs. ys = y # zs \<and> map_result f xs = Inr zs)"
      by (auto split: sum.splits)
    then show ?thesis using Inr by (simp add: Cons.IH list_all2_Cons1)
  qed
qed auto

fun let_ok :: "'a result \<Rightarrow> ('a \<Rightarrow> 'b result) \<Rightarrow> 'b result" where
  "let_ok (Inl e) f = Inl e"
| "let_ok (Inr x) f = f x"

definition guard :: "bool \<Rightarrow> string \<Rightarrow> unit result" where
  "guard b code = (if b then Inr () else Inl (ValueError code))"

named_theorems read_simps \<open>when a reader accepts\<close>

lemma let_ok_Inr [read_simps]: "let_ok r f = Inr y \<longleftrightarrow> (\<exists>x. r = Inr x \<and> f x = Inr y)"
  by (cases r) auto

lemma guard_Inr [read_simps]: "guard b code = Inr u \<longleftrightarrow> b"
  by (simp add: guard_def)

lemma guard_True [simp]: "guard True code = Inr ()"
  by (simp add: guard_def)

section \<open>Fields\<close>

fun closed_dict :: "string list \<Rightarrow> string \<Rightarrow> pyval \<Rightarrow> pydict result" where
  "closed_dict fields code (PDict d) = (if dkeys d = set fields then Inr d else Inl (ValueError code))"
| "closed_dict fields code _ = Inl (ValueError code)"

text \<open>A stripped text, empty only where allowed, that matches a pattern.\<close>

fun text_field :: "string \<Rightarrow> (string \<Rightarrow> bool) \<Rightarrow> bool \<Rightarrow> pyval \<Rightarrow> string result" where
  "text_field code pat empty_ok (PStr s) =
     (if s = py_strip s \<and> (s \<noteq> [] \<or> empty_ok) \<and> pat s then Inr s else Inl (ValueError code))"
| "text_field code pat empty_ok _ = Inl (ValueError code)"

definition any_text :: "string \<Rightarrow> bool" where
  "any_text s = True"

fun plain_str :: "pyval \<Rightarrow> bool" where
  "plain_str (PStr s) = (s \<noteq> [] \<and> s = py_strip s)"
| "plain_str _ = False"

fun the_str :: "pyval \<Rightarrow> string" where
  "the_str (PStr s) = s"
| "the_str _ = []"

text \<open>\<open>tuple(sorted(set(value)))\<close> of a list of nonempty stripped texts.\<close>

fun strings_field :: "string \<Rightarrow> pyval \<Rightarrow> string list result" where
  "strings_field code (PList xs) =
     (if list_all plain_str xs then Inr (sort (remdups (map the_str xs))) else Inl (ValueError code))"
| "strings_field code _ = Inl (ValueError code)"

fun list_field :: "string \<Rightarrow> pyval \<Rightarrow> pyval list result" where
  "list_field code (PList xs) = Inr xs"
| "list_field code _ = Inl (ValueError code)"

text \<open>A non-negative integer that is no boolean.\<close>

fun count_field :: "string \<Rightarrow> pyval \<Rightarrow> int result" where
  "count_field code (PInt i) = (if 0 \<le> i then Inr i else Inl (ValueError code))"
| "count_field code _ = Inl (ValueError code)"

definition safe_ref_text :: "string \<Rightarrow> bool" where
  "safe_ref_text s = (\<not> prefix ''/'' s \<and> CHR 0x5C \<notin> set s \<and> \<not> contains_sub ''://'' s
     \<and> list_all (\<lambda>p. p \<notin> {[], ''.'', ''..''}) (split_char CHR ''/'' s))"

definition safe_ref_field :: "string \<Rightarrow> pyval \<Rightarrow> string result" where
  "safe_ref_field code v = text_field code safe_ref_text False v"

section \<open>Numbers\<close>

text \<open>\<open>int\<close> of a digit string and \<open>str\<close> of an integer raise beyond 4300 digits.\<close>

definition digit_limit :: nat where
  "digit_limit = 4300"

definition digits_value :: "string \<Rightarrow> nat" where
  "digits_value s = foldl (\<lambda>n c. 10 * n + (of_char c - 48)) 0 s"

definition parse_number :: "string \<Rightarrow> nat result" where
  "parse_number s = (if length s \<le> digit_limit then Inr (digits_value s)
     else Inl (ValueError ''Exceeds the limit (4300 digits) for integer string conversion''))"

text \<open>\<open>int(v)\<close>: white space around, a sign, and underscores between digits are accepted.\<close>

definition int_of_text :: "string \<Rightarrow> int result" where
  "int_of_text s =
     (let t = py_strip s; body = (case t of [] \<Rightarrow> [] | c # cs \<Rightarrow> if c \<in> set ''+-'' then cs else t);
          groups = split_char CHR ''_'' body in
      if list_all (\<lambda>g. g \<noteq> [] \<and> list_all ascii_digit g) groups
      then let_ok (parse_number (concat groups)) (\<lambda>n. Inr (if hd t = CHR ''-'' then - int n else int n))
      else Inl (ValueError ''invalid literal for int() with base 10''))"

fun py_int :: "pyval \<Rightarrow> int result" where
  "py_int (PInt n) = Inr n"
| "py_int (PBool b) = Inr (if b then 1 else 0)"
| "py_int (PStr s) = int_of_text s"
| "py_int _ = Inl (TypeError ''int() argument must be a string or a real number'')"

section \<open>What the readers accept\<close>

lemma closed_dict_Inr [read_simps]: "closed_dict fs code v = Inr d \<longleftrightarrow> v = PDict d \<and> dkeys d = set fs"
  by (cases v) auto

lemma text_field_Inr:
  "text_field code p a v = Inr s \<longleftrightarrow> v = PStr s \<and> s = py_strip s \<and> (s \<noteq> [] \<or> a) \<and> p s"
  by (cases v) auto

lemma any_field_Inr [read_simps]:
  "text_field code any_text False v = Inr s \<longleftrightarrow> v = PStr s \<and> py_strip s = s \<and> s \<noteq> []"
  "text_field code any_text True v = Inr s \<longleftrightarrow> v = PStr s \<and> py_strip s = s"
  unfolding text_field_Inr any_text_def by metis+

lemma list_field_Inr [read_simps]: "list_field code v = Inr xs \<longleftrightarrow> v = PList xs"
  by (cases v) auto

lemma count_field_Inr [read_simps]: "count_field code v = Inr i \<longleftrightarrow> v = PInt i \<and> 0 \<le> i"
  by (cases v) auto

lemma any_text [simp]: "any_text s"
  by (simp add: any_text_def)

text \<open>A canonical list of texts: what \<open>strings_field\<close> returns.\<close>

definition strings_ok :: "string list \<Rightarrow> bool" where
  "strings_ok ss = (sorted ss \<and> distinct ss \<and> list_all (\<lambda>s. s \<noteq> [] \<and> py_strip s = s) ss)"

lemma plain_strs: "list_all plain_str xs \<Longrightarrow> map PStr (map the_str xs) = xs \<and> list_all (\<lambda>s. s \<noteq> [] \<and> s = py_strip s) (map the_str xs)"
proof (induction xs)
  case (Cons x xs)
  then show ?case by (cases x) auto
qed simp

lemma strings_field_ok: "strings_field code v = Inr ss \<Longrightarrow> strings_ok ss"
proof (cases v)
  case (PList xs)
  assume "strings_field code v = Inr ss"
  then have "list_all plain_str xs" and "ss = sort (remdups (map the_str xs))" by (auto simp: PList split: if_splits)
  then show ?thesis using plain_strs [of xs] by (auto simp: strings_ok_def list_all_iff)
qed auto

lemma strings_field_PList: "strings_ok ss \<Longrightarrow> strings_field code (PList (map PStr ss)) = Inr ss"
proof -
  assume ok: "strings_ok ss"
  have "list_all plain_str (map PStr ss)" using ok by (auto simp: strings_ok_def list_all_iff)
  moreover have "map the_str (map PStr ss) = ss" by (induction ss) simp_all
  ultimately show ?thesis using ok by (simp add: strings_ok_def distinct_remdups_id sorted_sort_id)
qed

declare strings_field.simps [simp del]

lemma dropWhile_none: "\<forall>c \<in> set s. \<not> p c \<Longrightarrow> dropWhile p s = s"
  by (induction s) simp_all

text \<open>A text without white space is its own stripped form.\<close>

lemma py_strip_plain: "\<forall>c \<in> set s. \<not> is_ws c \<Longrightarrow> py_strip s = s"
  by (simp add: py_strip_def strip_by_def rstrip_by_def dropWhile_none)

lemma alnum_no_ws: "ascii_alnum c \<Longrightarrow> \<not> is_ws c" and hex_no_ws: "lower_hex c \<Longrightarrow> \<not> is_ws c"
  by (auto simp: ascii_alnum_def ascii_lower_def ascii_upper_def ascii_digit_def lower_hex_def is_ws_def Let_def)

lemma hex_id_stripped: "hex_id n s \<Longrightarrow> py_strip s = s"
  by (auto simp: hex_id_def list_all_iff intro!: py_strip_plain dest: hex_no_ws)

lemma hex_id_nonempty: "hex_id n s \<Longrightarrow> 0 < n \<Longrightarrow> s \<noteq> []"
  by (auto simp: hex_id_def)

section \<open>Sorted dictionaries\<close>

lemma distinct_sort_key: "distinct (map f (sort_key f xs)) = distinct (map f xs)"
  by (induction xs) (simp_all add: distinct_insort_key)

lemma sorted_sort_key_strict: "distinct (map f xs) \<Longrightarrow> sorted_wrt (<) (map f (sort_key f xs))"
  by (simp add: strict_sorted_iff distinct_sort_key)

lemma map_of_sort_key:
  assumes "distinct (map fst xs)"
  shows "map_of (sort_key fst xs) = map_of xs"
  using assms by (subst map_of_inject_set) (simp_all add: distinct_sort_key)

text \<open>A dictionary put in key order, and its values.\<close>

lemma dget_sort_key: "distinct (map fst d) \<Longrightarrow> dget (sort_key fst d) k = dget d k"
  by (simp add: dget_def map_of_sort_key)

lemma dkeys_sort_key: "dkeys (sort_key fst d) = dkeys d"
  by (simp add: dkeys_def)

lemma key_sorted_sort_key:
  "distinct (map fst d) \<Longrightarrow> list_all (\<lambda>(k, v). key_sorted v) d \<Longrightarrow> key_sorted (PDict (sort_key fst d))"
  by (auto simp: sorted_sort_key_strict list_all_iff)

lemma key_sorted_strs [simp]: "list_all key_sorted (map PStr xs)"
  by (simp add: list_all_iff)

lemma dget_map_pair: "k \<in> set ks \<Longrightarrow> dget (map (\<lambda>k. (k, f k)) ks) k = f k"
  by (simp add: dget_def map_of_zip_self)

end
