(* ===== verification/Sample_Codec.thy ===== *)
theory Sample_Codec
  imports Prelude
begin

text \<open>
  A concrete printer and reader of Python values, and a concrete digest. They stand in for JSON and
  SHA-256 when a statement about an arbitrary environment is applied to an example; no statement about
  the program depends on how they work beyond the round trip and the shape of a digest.
\<close>

fun enc_str :: "string \<Rightarrow> string" where
  "enc_str [] = ''.''"
| "enc_str (c # cs) = CHR ''c'' # c # enc_str cs"

fun dec_str :: "string \<Rightarrow> (string \<times> string) option" where
  "dec_str [] = None"
| "dec_str [a] = (if a = CHR ''.'' then Some ([], []) else None)"
| "dec_str (a # c # s) =
     (if a = CHR ''.'' then Some ([], c # s)
      else case dec_str s of None \<Rightarrow> None | Some (w, r) \<Rightarrow> Some (c # w, r))"

lemma dec_enc_str [simp]: "dec_str (enc_str w @ r) = Some (w, r)"
proof (induction w)
  case Nil
  show ?case by (cases r) simp_all
qed simp

fun enc :: "pyval \<Rightarrow> string" where
  "enc PNone = ''0''"
| "enc (PBool b) = (if b then ''1'' else ''2'')"
| "enc (PInt i) = (if i < 0 then CHR ''3'' else CHR ''4'') # enc_str (replicate (nat \<bar>i\<bar>) CHR ''u'')"
| "enc (PStr s) = CHR ''5'' # enc_str s"
| "enc (PList xs) = CHR ''6'' # concat (map (\<lambda>x. CHR ''x'' # enc x) xs) @ ''.''"
| "enc (PDict d) = CHR ''7'' # concat (map (\<lambda>(k, v). CHR ''x'' # enc_str k @ enc v) d) @ ''.''"

text \<open>The reader recurses on a list that is at least as long as the text.\<close>

fun dec :: "string \<Rightarrow> string \<Rightarrow> (pyval \<times> string) option"
  and dec_list :: "string \<Rightarrow> string \<Rightarrow> (pyval list \<times> string) option"
  and dec_dict :: "string \<Rightarrow> string \<Rightarrow> (pydict \<times> string) option" where
  "dec [] s = None"
| "dec (f # fs) [] = None"
| "dec (f # fs) (c # s) =
     (if c = CHR ''0'' then Some (PNone, s)
      else if c = CHR ''1'' then Some (PBool True, s)
      else if c = CHR ''2'' then Some (PBool False, s)
      else if c = CHR ''3'' then map_option (\<lambda>(w, r). (PInt (- int (length w)), r)) (dec_str s)
      else if c = CHR ''4'' then map_option (\<lambda>(w, r). (PInt (int (length w)), r)) (dec_str s)
      else if c = CHR ''5'' then map_option (\<lambda>(w, r). (PStr w, r)) (dec_str s)
      else if c = CHR ''6'' then map_option (\<lambda>(xs, r). (PList xs, r)) (dec_list fs s)
      else map_option (\<lambda>(d, r). (PDict d, r)) (dec_dict fs s))"
| "dec_list [] s = None"
| "dec_list (f # fs) [] = None"
| "dec_list (f # fs) (c # s) =
     (if c = CHR ''.'' then Some ([], s)
      else case dec fs s of None \<Rightarrow> None
        | Some (x, r) \<Rightarrow> map_option (\<lambda>(xs, r'). (x # xs, r')) (dec_list fs r))"
| "dec_dict [] s = None"
| "dec_dict (f # fs) [] = None"
| "dec_dict (f # fs) (c # s) =
     (if c = CHR ''.'' then Some ([], s)
      else case dec_str s of None \<Rightarrow> None
        | Some (k, r0) \<Rightarrow> (case dec fs r0 of None \<Rightarrow> None
          | Some (x, r) \<Rightarrow> map_option (\<lambda>(d, r'). ((k, x) # d, r')) (dec_dict fs r)))"

lemma dec_list_enc:
  assumes "\<And>x fs r. x \<in> set xs \<Longrightarrow> length (enc x) \<le> length fs \<Longrightarrow> dec fs (enc x @ r) = Some (x, r)"
    and "length (concat (map (\<lambda>x. CHR ''x'' # enc x) xs)) < length fs"
  shows "dec_list fs (concat (map (\<lambda>x. CHR ''x'' # enc x) xs) @ CHR ''.'' # r) = Some (xs, r)"
  using assms
proof (induction xs arbitrary: fs)
  case Nil
  then show ?case by (cases fs) simp_all
next
  case (Cons x xs)
  then show ?case by (cases fs) simp_all
qed

lemma dec_dict_enc:
  assumes "\<And>k x fs r. (k, x) \<in> set d \<Longrightarrow> length (enc x) \<le> length fs \<Longrightarrow> dec fs (enc x @ r) = Some (x, r)"
    and "length (concat (map (\<lambda>(k, x). CHR ''x'' # enc_str k @ enc x) d)) < length fs"
  shows "dec_dict fs (concat (map (\<lambda>(k, x). CHR ''x'' # enc_str k @ enc x) d) @ CHR ''.'' # r) = Some (d, r)"
  using assms
proof (induction d arbitrary: fs)
  case Nil
  then show ?case by (cases fs) simp_all
next
  case (Cons kx d)
  obtain k x where kx: "kx = (k, x)" by (cases kx)
  from Cons.prems(2) obtain f fs' where fs: "fs = f # fs'" by (cases fs) auto
  have "dec fs' (enc x @ s) = Some (x, s)" for s
    by (rule Cons.prems(1) [of k]) (use Cons.prems(2) fs kx in auto)
  moreover have "dec_dict fs' (concat (map (\<lambda>(k, x). CHR ''x'' # enc_str k @ enc x) d) @ CHR ''.'' # r) = Some (d, r)"
    by (rule Cons.IH) (use Cons.prems fs kx in auto)
  ultimately show ?case using fs kx by simp
qed

lemma dec_enc: "length (enc v) \<le> length fs \<Longrightarrow> dec fs (enc v @ r) = Some (v, r)"
proof (induction v arbitrary: fs r)
  case PNone
  then show ?case by (cases fs) simp_all
next
  case (PBool b)
  then show ?case by (cases fs; cases b) simp_all
next
  case (PInt i)
  then show ?case by (cases fs) simp_all
next
  case (PStr s)
  then show ?case by (cases fs) simp_all
next
  case (PList xs)
  then show ?case by (cases fs) (simp_all add: dec_list_enc)
next
  case (PDict d)
  then obtain f fs' where fs: "fs = f # fs'" by (cases fs) auto
  have "dec_dict fs' (concat (map (\<lambda>(k, x). CHR ''x'' # enc_str k @ enc x) d) @ CHR ''.'' # r) = Some (d, r)"
  proof (rule dec_dict_enc)
    fix k x and gs :: string and t assume "(k, x) \<in> set d" and "length (enc x) \<le> length gs"
    then show "dec gs (enc x @ t) = Some (x, t)"
      using PDict.IH [of "(k, x)" x gs t] by (simp add: snds.intros)
  qed (use PDict.prems fs in simp)
  then show ?case by (simp add: fs)
qed

definition sample_dumps :: "pyval \<Rightarrow> string" where
  "sample_dumps v = enc v"

definition sample_loads :: "string \<Rightarrow> pyval option" where
  "sample_loads s = map_option fst (dec s s)"

lemma sample_roundtrip: "sample_loads (sample_dumps v) = Some v"
  using dec_enc [of v "enc v" "[]"] by (simp add: sample_loads_def sample_dumps_def)

fun nibble :: "bool \<Rightarrow> bool \<Rightarrow> bool \<Rightarrow> bool \<Rightarrow> char" where
  "nibble d c b a =
     (if d then if c then if b then if a then CHR ''f'' else CHR ''e'' else if a then CHR ''d'' else CHR ''c''
                else if b then if a then CHR ''b'' else CHR ''a'' else if a then CHR ''9'' else CHR ''8''
      else if c then if b then if a then CHR ''7'' else CHR ''6'' else if a then CHR ''5'' else CHR ''4''
           else if b then if a then CHR ''3'' else CHR ''2'' else if a then CHR ''1'' else CHR ''0'')"

fun hex2 :: "char \<Rightarrow> string" where
  "hex2 (Char a b c d e f g h) = [nibble h g f e, nibble d c b a]"

definition sample_digest :: "string \<Rightarrow> string" where
  "sample_digest s = concat (map hex2 (take 32 (s @ replicate 32 (CHR ''0''))))"

lemma nibble_lower: "lower_hex (nibble d c b a)"
proof -
  have "list_all lower_hex ''0123456789abcdef''" by code_simp
  then show ?thesis by (cases d; cases c; cases b; cases a) simp_all
qed

lemma sample_digest_re: "digest_re (sample_digest s)"
proof -
  have two: "length (hex2 c) = 2 \<and> list_all lower_hex (hex2 c)" for c
    by (cases c) (simp add: nibble_lower del: nibble.simps)
  have "length (concat (map hex2 cs)) = 2 * length cs \<and> list_all lower_hex (concat (map hex2 cs))" for cs
    by (induction cs) (use two in auto)
  from this [of "take 32 (s @ replicate 32 (CHR ''0''))"] show ?thesis
    unfolding sample_digest_def hex_id_def by simp
qed

section \<open>A printer without control characters\<close>

definition nibbles :: "(char \<times> bool \<times> bool \<times> bool \<times> bool) list" where
  "nibbles = concat (map (\<lambda>d. concat (map (\<lambda>c. concat (map (\<lambda>b. map (\<lambda>a. (nibble d c b a, d, c, b, a))
     [False, True]) [False, True])) [False, True])) [False, True])"

fun char_of_nibbles :: "bool \<times> bool \<times> bool \<times> bool \<Rightarrow> bool \<times> bool \<times> bool \<times> bool \<Rightarrow> char" where
  "char_of_nibbles (h, g, f, e) (d, c, b, a) = Char a b c d e f g h"

fun unhex :: "string \<Rightarrow> string" where
  "unhex (x # y # s) =
     (case (map_of nibbles x, map_of nibbles y) of (Some p, Some q) \<Rightarrow> char_of_nibbles p q # unhex s | _ \<Rightarrow> [])"
| "unhex _ = []"

definition hex_text :: "string \<Rightarrow> string" where
  "hex_text s = concat (map hex2 s)"

lemma nibbles_table: "map_of nibbles (nibble d c b a) = Some (d, c, b, a)"
  by (cases d; cases c; cases b; cases a) (simp_all add: nibbles_def)

lemma unhex_hex [simp]: "unhex (hex_text s) = s"
proof (induction s)
  case (Cons c s)
  then show ?case by (cases c) (simp add: hex_text_def nibbles_table del: nibble.simps)
qed (simp add: hex_text_def)

lemma hex_text_chars: "c \<in> set (hex_text s) \<Longrightarrow> lower_hex c"
proof -
  have "list_all lower_hex (hex2 c)" for c by (cases c) (simp add: nibble_lower del: nibble.simps)
  then show "c \<in> set (hex_text s) \<Longrightarrow> lower_hex c" by (auto simp: hex_text_def list_all_iff)
qed

end
