(* ===== verification/Exact_Plan.thy ===== *)
theory Exact_Plan
  imports Paths Document_Fields Sample_Codec "HOL-Library.Multiset"
begin

text \<open>
  Targets, plans, authorizations and manifests of the exact-file transaction
  (\<open>execution_control/exact_file_transaction.py\<close>), with their forms as dictionaries and the
  validation that reads them back.

  A Python dictionary is an association list; the writers sort the keys of what they serialise, so the
  dictionaries built here list their keys in order. SHA-256, base64, the two JSON printers, the JSON
  reader and the parser of ISO dates are an environment of functions; what the code relies on is \<open>env_ok\<close>.
  The environment also holds the present time and the text of a time stamp.
\<close>

section \<open>The environment\<close>

record env =
  e_sha :: "string \<Rightarrow> string"
  e_b64 :: "string \<Rightarrow> string"
  e_unb64 :: "string \<Rightarrow> string option"
  e_compact :: "pyval \<Rightarrow> string"
  e_dumps :: "pyval \<Rightarrow> string"
  e_loads :: "string \<Rightarrow> pyval option"
  e_iso :: "string \<Rightarrow> int option option"
  e_now :: int
  e_stamp :: string

definition env_ok :: "env \<Rightarrow> bool" where
  "env_ok E = ((\<forall>x. e_unb64 E (e_b64 E x) = Some x) \<and> (\<forall>x. digest_re (e_sha E x))
     \<and> (\<forall>v. key_sorted v \<longrightarrow> e_loads E (e_dumps E v) = Some v))"

section \<open>Targets\<close>

record exact_file_target =
  t_ref :: string
  t_before_exists :: bool
  t_before_digest :: string
  t_after :: string
  t_after_digest :: string
  t_namespace :: string

definition target_namespaces :: "string list" where
  "target_namespaces = [''system'', ''business'']"

definition target_as_dict :: "env \<Rightarrow> exact_file_target \<Rightarrow> pydict" where
  "target_as_dict E t =
     [(''after_bytes_b64'', PStr (e_b64 E (t_after t))), (''after_digest'', PStr (t_after_digest t)),
      (''before_digest'', PStr (t_before_digest t)), (''before_exists'', PBool (t_before_exists t))]
     @ (if t_namespace t \<noteq> ''business'' then [(''namespace'', PStr (t_namespace t))] else [])
     @ [(''ref'', PStr (t_ref t))]"

definition backslash :: char where
  "backslash = CHR 0x5C"

text \<open>The clauses run in the order of the source; \<open>path.parts[0]\<close> raises on a path without parts.\<close>

definition validate_exact_target :: "env \<Rightarrow> exact_file_target \<Rightarrow> unit result" where
  "validate_exact_target E t =
     (let invalid = Inl (ValueError ''exact-file target is invalid'') in
      if t_ref t = [] \<or> is_absolute (t_ref t) \<or> backslash \<in> set (t_ref t)
         \<or> list_ex unsafe_part (path_parts (t_ref t)) then invalid
      else case path_parts (t_ref t) of
        [] \<Rightarrow> Inl (IndexError ''tuple index out of range'')
      | first # _ \<Rightarrow>
        if first = ''.meta-flow-runtime'' \<or> \<not> digest_re (t_before_digest t) \<or> \<not> digest_re (t_after_digest t)
           \<or> e_sha E (t_after t) \<noteq> t_after_digest t \<or> t_namespace t \<notin> set target_namespaces
        then invalid else Inr ())"

definition target_base_fields :: "string list" where
  "target_base_fields = [''ref'', ''before_exists'', ''before_digest'', ''after_bytes_b64'', ''after_digest'']"

text \<open>\<open>extra > {"namespace"}\<close> on sets is the proper-superset test.\<close>

definition extra_exceeds :: "'a \<Rightarrow> 'a list \<Rightarrow> 'a list \<Rightarrow> bool" where
  "extra_exceeds ns base keys =
     (let extra = filter (\<lambda>k. k \<notin> set base) keys in ns \<in> set extra \<and> list_ex (\<lambda>k. k \<noteq> ns) extra)"

definition target_from_mapping :: "env \<Rightarrow> pyval \<Rightarrow> exact_file_target result" where
  "target_from_mapping E payload =
     (let mismatch = Inl (ValueError ''exact-file target fields mismatch'') in
      case payload of
        PDict d \<Rightarrow>
          if extra_exceeds ''namespace'' target_base_fields (map fst d) \<or> \<not> is_bool (dget d ''before_exists'')
          then mismatch
          else let ns = (if truthy (dget d ''namespace'') then py_str (dget d ''namespace'') else ''business'') in
            if ns \<notin> set target_namespaces then Inl (ValueError ''exact-file target namespace is invalid'')
            else case map_of d ''after_bytes_b64'' of
              None \<Rightarrow> Inl (KeyError ''after_bytes_b64'')
            | Some a \<Rightarrow> (case e_unb64 E (py_str a) of
                None \<Rightarrow> Inl (ValueError ''exact-file target after bytes are invalid'')
              | Some after \<Rightarrow> (case map_of d ''ref'' of
                  None \<Rightarrow> Inl (KeyError ''ref'')
                | Some r \<Rightarrow> (case map_of d ''before_digest'' of
                    None \<Rightarrow> Inl (KeyError ''before_digest'')
                  | Some bd \<Rightarrow> (case map_of d ''after_digest'' of
                      None \<Rightarrow> Inl (KeyError ''after_digest'')
                    | Some ad \<Rightarrow>
                      let t = \<lparr>t_ref = py_str r, t_before_exists = (dget d ''before_exists'' = PBool True),
                               t_before_digest = py_str bd, t_after = after, t_after_digest = py_str ad,
                               t_namespace = ns\<rparr>
                      in (case validate_exact_target E t of Inl e \<Rightarrow> Inl e | Inr _ \<Rightarrow> Inr t)))))
      | PList xs \<Rightarrow>
          if list_ex unhashable xs then Inl (TypeError ''unhashable type'')
          else if extra_exceeds (PStr ''namespace'') (map PStr target_base_fields) xs then mismatch
          else Inl (AttributeError ''object has no attribute get'')
      | PStr s \<Rightarrow> Inl (AttributeError ''object has no attribute get'')
      | _ \<Rightarrow> Inl (TypeError ''object is not iterable''))"

section \<open>Plans\<close>

record exact_file_plan =
  p_operation :: string
  p_targets :: "exact_file_target list"
  p_semantic :: string
  p_digest :: string

definition target_refs :: "exact_file_plan \<Rightarrow> string list" where
  "target_refs p = map t_ref (p_targets p)"

definition exact_plan_digest :: "env \<Rightarrow> string \<Rightarrow> exact_file_target list \<Rightarrow> string \<Rightarrow> string" where
  "exact_plan_digest E operation targets semantic =
     e_sha E (e_compact E (PDict
       [(''kind'', PStr ''ExactFilePlanV1''), (''operation'', PStr operation), (''schema_version'', PInt 1),
        (''semantic_binding_digest'', PStr semantic),
        (''targets'', PList (map (\<lambda>t. PDict (target_as_dict E t)) targets))]))"

definition plan_as_dict :: "env \<Rightarrow> exact_file_plan \<Rightarrow> pydict" where
  "plan_as_dict E p =
     [(''decision'', PStr ''READY''), (''kind'', PStr ''ExactFilePlanV1''), (''mutation_count'', PInt 0),
      (''operation'', PStr (p_operation p)), (''plan_digest'', PStr (p_digest p)), (''schema_version'', PInt 1),
      (''semantic_binding_digest'', PStr (p_semantic p)), (''target_refs'', PList (map PStr (target_refs p))),
      (''targets'', PList (map (\<lambda>t. PDict (target_as_dict E t)) (p_targets p)))]"

definition operation_char :: "char \<Rightarrow> bool" where
  "operation_char c = (ascii_lower c \<or> ascii_digit c \<or> c \<in> set ''.-_'')"

definition validate_exact_plan :: "env \<Rightarrow> exact_file_plan \<Rightarrow> unit result" where
  "validate_exact_plan E p =
     (if p_operation p = [] \<or> 128 < length (p_operation p) \<or> \<not> list_all operation_char (p_operation p)
         \<or> \<not> digest_re (p_semantic p) \<or> \<not> distinct (target_refs p)
      then Inl (ValueError ''exact-file plan identity is invalid'')
      else case check_all (validate_exact_target E) (p_targets p) of
        Inl e \<Rightarrow> Inl e
      | Inr _ \<Rightarrow>
        if p_digest p \<noteq> exact_plan_digest E (p_operation p) (p_targets p) (p_semantic p)
        then Inl (ValueError ''exact-file plan digest mismatch'') else Inr ())"

definition plan_fields :: "string list" where
  "plan_fields = [''schema_version'', ''kind'', ''decision'', ''operation'', ''targets'', ''target_refs'',
     ''semantic_binding_digest'', ''plan_digest'', ''mutation_count'']"

fun list_items :: "pyval \<Rightarrow> pyval list" where
  "list_items (PList xs) = xs"
| "list_items _ = []"

definition plan_from_mapping :: "env \<Rightarrow> pydict \<Rightarrow> exact_file_plan result" where
  "plan_from_mapping E d =
     (if dkeys d \<noteq> set plan_fields \<or> \<not> py_eq (dget d ''schema_version'') (PInt 1)
         \<or> dget d ''kind'' \<noteq> PStr ''ExactFilePlanV1'' \<or> dget d ''decision'' \<noteq> PStr ''READY''
         \<or> \<not> py_eq (dget d ''mutation_count'') (PInt 0)
         \<or> \<not> is_list (dget d ''targets'') \<or> \<not> is_list (dget d ''target_refs'')
      then Inl (ValueError ''exact-file plan fields mismatch'')
      else case map_result (target_from_mapping E) (list_items (dget d ''targets'')) of
        Inl e \<Rightarrow> Inl e
      | Inr ts \<Rightarrow>
        let p = \<lparr>p_operation = py_str (dget d ''operation''), p_targets = ts,
                 p_semantic = py_str (dget d ''semantic_binding_digest''),
                 p_digest = py_str (dget d ''plan_digest'')\<rparr>
        in case validate_exact_plan E p of
          Inl e \<Rightarrow> Inl e
        | Inr _ \<Rightarrow>
          if dget d ''target_refs'' \<noteq> PList (map PStr (target_refs p))
          then Inl (ValueError ''exact-file plan target refs mismatch'') else Inr p)"

definition build_exact_file_plan :: "env \<Rightarrow> string \<Rightarrow> exact_file_target list \<Rightarrow> string \<Rightarrow> exact_file_plan" where
  "build_exact_file_plan E operation targets semantic =
     (let ordered = sort_key t_ref targets in
      \<lparr>p_operation = operation, p_targets = ordered, p_semantic = semantic,
       p_digest = exact_plan_digest E operation ordered semantic\<rparr>)"

section \<open>Authorizations\<close>

record exact_file_authorization =
  a_id :: string
  a_operation :: string
  a_plan_digest :: string
  a_target_refs :: "string list"
  a_expires_at :: string

definition authorization_as_dict :: "exact_file_authorization \<Rightarrow> pydict" where
  "authorization_as_dict a =
     [(''authorization_id'', PStr (a_id a)), (''expires_at'', PStr (a_expires_at a)),
      (''kind'', PStr ''ExactFileAuthorizationV1''), (''operation'', PStr (a_operation a)),
      (''plan_digest'', PStr (a_plan_digest a)), (''schema_version'', PInt 1),
      (''target_refs'', PList (map PStr (a_target_refs a)))]"

definition authorization_fields :: "string list" where
  "authorization_fields = [''schema_version'', ''kind'', ''authorization_id'', ''operation'', ''plan_digest'',
     ''target_refs'', ''expires_at'']"

definition authorization_from_mapping :: "pydict \<Rightarrow> exact_file_authorization result" where
  "authorization_from_mapping d =
     (if dkeys d \<noteq> set authorization_fields \<or> \<not> py_eq (dget d ''schema_version'') (PInt 1)
         \<or> dget d ''kind'' \<noteq> PStr ''ExactFileAuthorizationV1'' \<or> \<not> is_list (dget d ''target_refs'')
      then Inl (ValueError ''exact-file authorization fields mismatch'')
      else Inr \<lparr>a_id = py_str (dget d ''authorization_id''), a_operation = py_str (dget d ''operation''),
                a_plan_digest = py_str (dget d ''plan_digest''),
                a_target_refs = map py_str (list_items (dget d ''target_refs'')),
                a_expires_at = py_str (dget d ''expires_at'')\<rparr>)"

definition safe_authorization_id :: "string \<Rightarrow> bool" where
  "safe_authorization_id v =
     (v \<noteq> [] \<and> length v \<le> 128 \<and> list_all (\<lambda>c. ascii_alnum c \<or> c \<in> set ''._-'') v)"

text \<open>\<open>e_iso\<close> yields nothing for an unparsable date and an instant only for a date with a zone.\<close>

definition validate_for :: "env \<Rightarrow> exact_file_authorization \<Rightarrow> exact_file_plan \<Rightarrow> unit result" where
  "validate_for E a p =
     (if \<not> safe_authorization_id (a_id a) then Inl (ValueError ''authorization_id is invalid'')
      else if a_operation a \<noteq> p_operation p \<or> a_plan_digest a \<noteq> p_digest p \<or> a_target_refs a \<noteq> target_refs p
      then Inl (ValueError ''exact-file authorization binding mismatch'')
      else case e_iso E (concat (map (\<lambda>c. if c = CHR ''Z'' then ''+00:00'' else [c]) (a_expires_at a))) of
        None \<Rightarrow> Inl (ValueError ''exact-file authorization expiry is invalid'')
      | Some None \<Rightarrow> Inl (ValueError ''exact-file authorization is expired'')
      | Some (Some t) \<Rightarrow>
        if t \<le> e_now E then Inl (ValueError ''exact-file authorization is expired'') else Inr ())"


section \<open>Manifests\<close>

record manifest =
  m_authorization :: string
  m_operation :: string
  m_plan :: pydict
  m_state :: string
  m_created :: pyval
  m_updated :: pyval
  m_attempted :: "string list"
  m_applied :: "string list"
  m_before :: pydict
  m_failure :: pyval
  m_recovery :: "pyval list"

definition manifest_payload :: "manifest \<Rightarrow> pydict" where
  "manifest_payload m =
     [(''applied_refs'', PList (map PStr (m_applied m))), (''attempted_refs'', PList (map PStr (m_attempted m))),
      (''authorization_id'', PStr (m_authorization m)), (''before_images_b64'', PDict (m_before m)),
      (''created_at'', m_created m), (''failure'', m_failure m), (''kind'', PStr ''ExactFileTransactionV1''),
      (''operation'', PStr (m_operation m)), (''plan'', PDict (m_plan m)),
      (''recovery_failures'', PList (m_recovery m)), (''schema_version'', PInt 1), (''state'', PStr (m_state m)),
      (''updated_at'', m_updated m)]"

definition manifest_fields :: "string list" where
  "manifest_fields = [''schema_version'', ''kind'', ''authorization_id'', ''operation'', ''plan'', ''state'',
     ''created_at'', ''updated_at'', ''attempted_refs'', ''applied_refs'', ''before_images_b64'', ''failure'',
     ''recovery_failures'']"

definition manifest_states :: "string list" where
  "manifest_states = [''PREPARED'', ''APPLYING'', ''COMMITTED'', ''RECOVERED'', ''PARTIAL'']"

text \<open>The before image of one target, as the manifest records it.\<close>

definition check_before_image :: "env \<Rightarrow> pydict \<Rightarrow> exact_file_target \<Rightarrow> unit result" where
  "check_before_image E images t =
     (case e_unb64 E (py_str (dget images (t_ref t))) of
        None \<Rightarrow> Inl (ValueError ''exact-file manifest before image is invalid'')
      | Some before \<Rightarrow>
        if t_before_exists t \<noteq> (before \<noteq> []) \<and> \<not> (t_before_exists t \<and> t_before_digest t = e_sha E [])
           \<and> \<not> (t_before_exists t \<and> before = [])
        then Inl (ValueError ''exact-file manifest before existence mismatch'')
        else if e_sha E before \<noteq> t_before_digest t
        then Inl (ValueError ''exact-file manifest before digest mismatch'')
        else Inr ())"

fun str_items :: "pyval list \<Rightarrow> string list" where
  "str_items [] = []"
| "str_items (PStr s # vs) = s # str_items vs"
| "str_items (v # vs) = str_items vs"

text \<open>The check of the two ref lists; an unhashable entry raises when \<open>dict.fromkeys\<close> meets it.\<close>

definition check_accounting :: "pydict \<Rightarrow> exact_file_plan \<Rightarrow> unit result" where
  "check_accounting d plan =
     (let invalid = Inl (ValueError ''exact-file manifest accounting is invalid'');
          attempted = list_items (dget d ''attempted_refs'');
          applied = list_items (dget d ''applied_refs'') in
      if \<not> is_list (dget d ''attempted_refs'') \<or> \<not> is_list (dget d ''applied_refs'')
         \<or> \<not> is_dict (dget d ''before_images_b64'') then invalid
      else if list_ex unhashable attempted then Inl (TypeError ''unhashable type'')
      else if \<not> distinct (map py_norm attempted) then invalid
      else if list_ex unhashable applied then Inl (TypeError ''unhashable type'')
      else if \<not> distinct (map py_norm applied)
         \<or> list_ex (\<lambda>r. r \<notin> set (map PStr (target_refs plan))) attempted
         \<or> list_ex (\<lambda>r. r \<notin> set attempted) applied
         \<or> (case dget d ''before_images_b64'' of PDict b \<Rightarrow> dkeys b \<noteq> set (target_refs plan) | _ \<Rightarrow> True)
         \<or> \<not> is_list (dget d ''recovery_failures'')
      then invalid else Inr ())"

fun dict_items :: "pyval \<Rightarrow> pydict" where
  "dict_items (PDict d) = d"
| "dict_items _ = []"

text \<open>\<open>_validate_exact_manifest\<close> returns the plan; the payload read from disk stays in use beside it, so the
  model also returns the payload's fields.\<close>

definition validate_exact_manifest :: "env \<Rightarrow> pydict \<Rightarrow> string \<Rightarrow> (exact_file_plan \<times> manifest) result" where
  "validate_exact_manifest E d expected =
     (let invalid = Inl (ValueError ''exact-file manifest fields/identity are invalid'') in
      if dkeys d \<noteq> set manifest_fields \<or> \<not> py_eq (dget d ''schema_version'') (PInt 1)
         \<or> dget d ''kind'' \<noteq> PStr ''ExactFileTransactionV1'' \<or> dget d ''authorization_id'' \<noteq> PStr expected
      then invalid
      else if unhashable (dget d ''state'') then Inl (TypeError ''unhashable type'')
      else if dget d ''state'' \<notin> set (map PStr manifest_states) \<or> \<not> is_dict (dget d ''plan'') then invalid
      else if \<not> safe_authorization_id expected then Inl (ValueError ''authorization_id is invalid'')
      else case plan_from_mapping E (dict_items (dget d ''plan'')) of
        Inl e \<Rightarrow> Inl e
      | Inr plan \<Rightarrow>
        if dget d ''operation'' \<noteq> PStr (p_operation plan)
        then Inl (ValueError ''exact-file manifest operation binding mismatch'')
        else case check_accounting d plan of
          Inl e \<Rightarrow> Inl e
        | Inr _ \<Rightarrow>
          (case check_all (check_before_image E (dict_items (dget d ''before_images_b64''))) (p_targets plan) of
             Inl e \<Rightarrow> Inl e
           | Inr _ \<Rightarrow>
             Inr (plan, \<lparr>m_authorization = expected, m_operation = p_operation plan,
               m_plan = dict_items (dget d ''plan''), m_state = py_str (dget d ''state''),
               m_created = dget d ''created_at'', m_updated = dget d ''updated_at'',
               m_attempted = str_items (list_items (dget d ''attempted_refs'')),
               m_applied = str_items (list_items (dget d ''applied_refs'')),
               m_before = dict_items (dget d ''before_images_b64''), m_failure = dget d ''failure'',
               m_recovery = list_items (dget d ''recovery_failures'')\<rparr>)))"

section \<open>Round trips\<close>

lemma str_items_map [simp]: "str_items (map PStr xs) = xs"
  by (induction xs) simp_all

lemma map_of_target:
  "map_of (target_as_dict E t) ''after_bytes_b64'' = Some (PStr (e_b64 E (t_after t)))"
  "map_of (target_as_dict E t) ''after_digest'' = Some (PStr (t_after_digest t))"
  "map_of (target_as_dict E t) ''before_digest'' = Some (PStr (t_before_digest t))"
  "map_of (target_as_dict E t) ''before_exists'' = Some (PBool (t_before_exists t))"
  "map_of (target_as_dict E t) ''ref'' = Some (PStr (t_ref t))"
  "map_of (target_as_dict E t) ''namespace'' =
     (if t_namespace t \<noteq> ''business'' then Some (PStr (t_namespace t)) else None)"
  by (simp_all add: target_as_dict_def)

lemma extra_target: "\<not> extra_exceeds ''namespace'' target_base_fields (map fst (target_as_dict E t))"
  by (simp add: extra_exceeds_def target_as_dict_def target_base_fields_def Let_def)

lemma validate_target_namespace: "validate_exact_target E t = Inr () \<Longrightarrow> t_namespace t \<in> set target_namespaces"
  by (auto simp: validate_exact_target_def Let_def split: if_splits list.splits)

text \<open>Only the six known keys of the dictionary matter.\<close>

lemma target_read:
  assumes "env_ok E" and "validate_exact_target E t = Inr ()"
    and "\<not> extra_exceeds ''namespace'' target_base_fields (map fst d)"
    and d: "\<And>k. k \<in> set (''namespace'' # target_base_fields) \<Longrightarrow> map_of d k = map_of (target_as_dict E t) k"
  shows "target_from_mapping E (PDict d) = Inr t"
proof -
  have un: "e_unb64 E (e_b64 E (t_after t)) = Some (t_after t)" using assms(1) by (simp add: env_ok_def)
  have ns: "t_namespace t \<in> set target_namespaces" by (rule validate_target_namespace [OF assms(2)])
  then have ne: "t_namespace t \<noteq> []" by (auto simp: target_namespaces_def)
  have b: "''business'' \<in> set target_namespaces" by (simp add: target_namespaces_def)
  have v: "(case validate_exact_target E t of Inl e \<Rightarrow> Inl e | Inr _ \<Rightarrow> Inr t) = Inr t" using assms(2) by simp
  have m: "map_of d ''after_bytes_b64'' = Some (PStr (e_b64 E (t_after t)))"
    "map_of d ''after_digest'' = Some (PStr (t_after_digest t))"
    "map_of d ''before_digest'' = Some (PStr (t_before_digest t))"
    "map_of d ''before_exists'' = Some (PBool (t_before_exists t))"
    "map_of d ''ref'' = Some (PStr (t_ref t))"
    "map_of d ''namespace'' = (if t_namespace t \<noteq> ''business'' then Some (PStr (t_namespace t)) else None)"
    using d by (simp_all add: map_of_target target_base_fields_def)
  show ?thesis
  proof (cases "t_namespace t = ''business''")
    case True
    have "\<lparr>t_ref = t_ref t, t_before_exists = t_before_exists t, t_before_digest = t_before_digest t,
        t_after = t_after t, t_after_digest = t_after_digest t, t_namespace = ''business''\<rparr> = t"
      using True by (cases t) simp
    with v True b assms(3) show ?thesis
      by (simp only: target_from_mapping_def Let_def dget_def m un py_str_def
        pyval.case option.case is_bool.simps truthy.simps if_True if_False simp_thms pyval.inject)
  next
    case False
    have "\<lparr>t_ref = t_ref t, t_before_exists = t_before_exists t, t_before_digest = t_before_digest t,
        t_after = t_after t, t_after_digest = t_after_digest t, t_namespace = t_namespace t\<rparr> = t"
      by (cases t) simp
    with v False ns ne assms(3) show ?thesis
      by (simp only: target_from_mapping_def Let_def dget_def m un py_str_def
        pyval.case option.case is_bool.simps truthy.simps if_True if_False simp_thms pyval.inject)
  qed
qed

lemma target_roundtrip:
  "env_ok E \<Longrightarrow> validate_exact_target E t = Inr () \<Longrightarrow> target_from_mapping E (PDict (target_as_dict E t)) = Inr t"
  by (rule target_read) (simp_all add: extra_target)

lemma plan_eta: "\<lparr>p_operation = p_operation p, p_targets = p_targets p, p_semantic = p_semantic p,
    p_digest = p_digest p\<rparr> = p"
  by (cases p) simp

lemma plan_dict_gets:
  "dget (plan_as_dict E p) ''decision'' = PStr ''READY''"
  "dget (plan_as_dict E p) ''kind'' = PStr ''ExactFilePlanV1''"
  "dget (plan_as_dict E p) ''mutation_count'' = PInt 0"
  "dget (plan_as_dict E p) ''operation'' = PStr (p_operation p)"
  "dget (plan_as_dict E p) ''plan_digest'' = PStr (p_digest p)"
  "dget (plan_as_dict E p) ''schema_version'' = PInt 1"
  "dget (plan_as_dict E p) ''semantic_binding_digest'' = PStr (p_semantic p)"
  "dget (plan_as_dict E p) ''target_refs'' = PList (map PStr (target_refs p))"
  "dget (plan_as_dict E p) ''targets'' = PList (map (\<lambda>t. PDict (target_as_dict E t)) (p_targets p))"
  by (simp_all add: plan_as_dict_def)

lemma plan_dict_keys: "dkeys (plan_as_dict E p) = set plan_fields"
proof -
  have "dkeys (plan_as_dict E p) = set [''decision'', ''kind'', ''mutation_count'', ''operation'', ''plan_digest'',
      ''schema_version'', ''semantic_binding_digest'', ''target_refs'', ''targets'']"
    by (simp add: plan_as_dict_def)
  also have "\<dots> = set plan_fields" by code_simp
  finally show ?thesis .
qed

lemma validate_plan_targets:
  "validate_exact_plan E p = Inr () \<Longrightarrow> t \<in> set (p_targets p) \<Longrightarrow> validate_exact_target E t = Inr ()"
  by (auto simp: validate_exact_plan_def check_all_Inr split: if_splits sum.splits)

lemma map_result_PDict:
  assumes "\<And>t. t \<in> set ts \<Longrightarrow> target_from_mapping E (PDict (target_as_dict E t)) = Inr t"
  shows "map_result (target_from_mapping E) (map (\<lambda>t. PDict (target_as_dict E t)) ts) = Inr ts"
  using assms by (induction ts) simp_all

text \<open>Reading back the dictionary form of a valid plan yields that plan, targets in the same order.\<close>

theorem plan_roundtrip:
  assumes "env_ok E" and "validate_exact_plan E p = Inr ()"
  shows "plan_from_mapping E (plan_as_dict E p) = Inr p"
proof -
  have "map_result (target_from_mapping E) (map (\<lambda>t. PDict (target_as_dict E t)) (p_targets p)) = Inr (p_targets p)"
    by (rule map_result_PDict) (rule target_roundtrip [OF assms(1) validate_plan_targets [OF assms(2)]])
  then show ?thesis
    using assms(2) by (simp add: plan_eta plan_from_mapping_def plan_dict_gets plan_dict_keys py_str_def Let_def)
qed


text \<open>The same for manifests: what the writers produce is read back, through the printed text.\<close>

definition manifest_wf :: "env \<Rightarrow> exact_file_plan \<Rightarrow> manifest \<Rightarrow> bool" where
  "manifest_wf E plan m =
     (safe_authorization_id (m_authorization m) \<and> validate_exact_plan E plan = Inr ()
      \<and> m_operation m = p_operation plan \<and> m_plan m = plan_as_dict E plan
      \<and> m_state m \<in> set manifest_states
      \<and> distinct (m_attempted m) \<and> set (m_attempted m) \<subseteq> set (target_refs plan)
      \<and> distinct (m_applied m) \<and> set (m_applied m) \<subseteq> set (m_attempted m)
      \<and> dkeys (m_before m) = set (target_refs plan)
      \<and> check_all (check_before_image E (m_before m)) (p_targets plan) = Inr ())"

definition manifest_sorted :: "manifest \<Rightarrow> bool" where
  "manifest_sorted m = (key_sorted (PDict (m_plan m)) \<and> key_sorted (PDict (m_before m)) \<and> key_sorted (m_created m)
     \<and> key_sorted (m_updated m) \<and> key_sorted (m_failure m) \<and> list_all key_sorted (m_recovery m))"

lemma manifest_gets:
  "dget (manifest_payload m) ''applied_refs'' = PList (map PStr (m_applied m))"
  "dget (manifest_payload m) ''attempted_refs'' = PList (map PStr (m_attempted m))"
  "dget (manifest_payload m) ''authorization_id'' = PStr (m_authorization m)"
  "dget (manifest_payload m) ''before_images_b64'' = PDict (m_before m)"
  "dget (manifest_payload m) ''created_at'' = m_created m"
  "dget (manifest_payload m) ''failure'' = m_failure m"
  "dget (manifest_payload m) ''kind'' = PStr ''ExactFileTransactionV1''"
  "dget (manifest_payload m) ''operation'' = PStr (m_operation m)"
  "dget (manifest_payload m) ''plan'' = PDict (m_plan m)"
  "dget (manifest_payload m) ''recovery_failures'' = PList (m_recovery m)"
  "dget (manifest_payload m) ''schema_version'' = PInt 1"
  "dget (manifest_payload m) ''state'' = PStr (m_state m)"
  "dget (manifest_payload m) ''updated_at'' = m_updated m"
  by (simp_all add: manifest_payload_def)

lemma manifest_keys: "dkeys (manifest_payload m) = set manifest_fields"
proof -
  have "dkeys (manifest_payload m) = set [''applied_refs'', ''attempted_refs'', ''authorization_id'',
      ''before_images_b64'', ''created_at'', ''failure'', ''kind'', ''operation'', ''plan'', ''recovery_failures'',
      ''schema_version'', ''state'', ''updated_at'']"
    by (simp add: manifest_payload_def)
  also have "\<dots> = set manifest_fields" by code_simp
  finally show ?thesis .
qed

lemma no_unhashable_strs [simp]: "\<not> list_ex unhashable (map PStr xs)"
  by (induction xs) simp_all

lemma distinct_norm_strs: "distinct (map py_norm (map PStr xs)) = distinct xs"
  by (simp add: comp_def distinct_map inj_on_def)

lemma accounting_payload:
  assumes "manifest_wf E plan m"
  shows "check_accounting (manifest_payload m) plan = Inr ()"
proof -
  have "\<not> list_ex (\<lambda>r. r \<notin> set (map PStr (target_refs plan))) (map PStr (m_attempted m))"
    and "\<not> list_ex (\<lambda>r. r \<notin> set (map PStr (m_attempted m))) (map PStr (m_applied m))"
    using assms by (auto simp: manifest_wf_def list_ex_iff)
  then show ?thesis
    using assms unfolding check_accounting_def Let_def manifest_gets list_items.simps is_list.simps is_dict.simps
      distinct_norm_strs
    by (simp add: manifest_wf_def)
qed

lemma py_eq_one [simp]: "py_eq (PInt i) (PInt j) \<longleftrightarrow> i = j"
  by (simp add: py_eq_def)

lemma manifest_roundtrip:
  assumes "env_ok E" and "manifest_wf E plan m"
  shows "validate_exact_manifest E (manifest_payload m) (m_authorization m) = Inr (plan, m)"
proof -
  have p: "plan_from_mapping E (m_plan m) = Inr plan"
    using plan_roundtrip [OF assms(1)] assms(2) by (simp add: manifest_wf_def)
  have st: "PStr (m_state m) \<in> set (map PStr manifest_states)" and op: "m_operation m = p_operation plan"
    and id: "safe_authorization_id (m_authorization m)"
    and im: "check_all (check_before_image E (m_before m)) (p_targets plan) = Inr ()"
    using assms(2) by (auto simp: manifest_wf_def)
  show ?thesis
    using p st op id im accounting_payload [OF assms(2)]
    by (simp add: validate_exact_manifest_def manifest_keys manifest_gets Let_def py_str_def)
qed

lemma sorted_names:
  "sorted_wrt (<) [''applied_refs'', ''attempted_refs'', ''authorization_id'', ''before_images_b64'', ''created_at'',
      ''failure'', ''kind'', ''operation'', ''plan'', ''recovery_failures'', ''schema_version'', ''state'',
      ''updated_at'']"
  "sorted_wrt (<) [''decision'', ''kind'', ''mutation_count'', ''operation'', ''plan_digest'', ''schema_version'',
      ''semantic_binding_digest'', ''target_refs'', ''targets'']"
  "sorted_wrt (<) [''after_bytes_b64'', ''after_digest'', ''before_digest'', ''before_exists'', ''namespace'', ''ref'']"
  "sorted_wrt (<) [''after_bytes_b64'', ''after_digest'', ''before_digest'', ''before_exists'', ''ref'']"
  by code_simp+

lemma list_all_sorted_strs [simp]: "list_all key_sorted (map PStr xs)"
  by (induction xs) simp_all

lemma manifest_payload_sorted: "manifest_sorted m \<Longrightarrow> key_sorted (PDict (manifest_payload m))"
  unfolding manifest_payload_def key_sorted.simps manifest_sorted_def
  using sorted_names(1) by simp

lemma target_dict_sorted: "key_sorted (PDict (target_as_dict E t))"
  unfolding target_as_dict_def key_sorted.simps using sorted_names(3,4) by simp

lemma targets_sorted: "key_sorted (PList (map (\<lambda>t. PDict (target_as_dict E t)) ts))"
  unfolding key_sorted.simps(1) by (induction ts) (simp_all add: target_dict_sorted del: key_sorted.simps(2))

lemma plan_dict_sorted: "key_sorted (PDict (plan_as_dict E p))"
  unfolding plan_as_dict_def key_sorted.simps(2) using sorted_names(2) targets_sorted
  by (simp add: list_all_iff del: key_sorted.simps(2))

lemma manifest_text:
  assumes "env_ok E" and "manifest_sorted m"
  shows "e_loads E (e_dumps E (PDict (manifest_payload m))) = Some (PDict (manifest_payload m))"
  using assms manifest_payload_sorted by (simp add: env_ok_def)


section \<open>An environment for examples\<close>

definition sample_env :: env where
  "sample_env = \<lparr>e_sha = sample_digest, e_b64 = (\<lambda>x. x), e_unb64 = Some, e_compact = sample_dumps,
     e_dumps = sample_dumps, e_loads = sample_loads,
     e_iso = (\<lambda>s. if s = ''2030-01-01T00:00:00+00:00'' then Some (Some 2030) else None),
     e_now = 2026, e_stamp = ''2026-01-01T00:00:00+00:00''\<rparr>"

lemma sample_env_ok: "env_ok sample_env"
  by (simp add: env_ok_def sample_env_def sample_roundtrip sample_digest_re)

text \<open>A target that creates a file, and one that replaces the content \<open>a\<close> by \<open>b\<close>.\<close>

definition sample_target :: "string \<Rightarrow> string option \<Rightarrow> string \<Rightarrow> exact_file_target" where
  "sample_target r before after =
     \<lparr>t_ref = r, t_before_exists = (before \<noteq> None),
      t_before_digest = sample_digest (case before of None \<Rightarrow> [] | Some c \<Rightarrow> c),
      t_after = after, t_after_digest = sample_digest after, t_namespace = ''business''\<rparr>"

definition sample_plan :: exact_file_plan where
  "sample_plan = build_exact_file_plan sample_env ''docs.update''
     [sample_target ''docs/b.md'' (Some ''a'') ''b'', sample_target ''docs/a.md'' None ''new'']
     (replicate 64 (CHR ''0''))"

definition sample_authorization :: exact_file_authorization where
  "sample_authorization = \<lparr>a_id = ''auth-1'', a_operation = ''docs.update'', a_plan_digest = p_digest sample_plan,
     a_target_refs = [''docs/a.md'', ''docs/b.md''], a_expires_at = ''2030-01-01T00:00:00Z''\<rparr>"

lemma sample_plan_valid: "validate_exact_plan sample_env sample_plan = Inr ()"
  by code_simp

lemma sample_authorization_valid: "validate_for sample_env sample_authorization sample_plan = Inr ()"
  by code_simp

theorem plan_roundtrip_witness:
  "plan_from_mapping sample_env (plan_as_dict sample_env sample_plan) = Inr sample_plan"
  by (rule plan_roundtrip [OF sample_env_ok sample_plan_valid])

section \<open>What a digest binds\<close>

text \<open>A plan does not depend on the order in which its targets were collected: two builders that collect
  the same targets, with one target per ref, obtain the same plan and digest, with the refs ascending.\<close>

theorem build_exact_file_plan_order_free:
  assumes "mset ts = mset us" and "distinct (map t_ref ts)"
  shows "build_exact_file_plan E operation ts semantic = build_exact_file_plan E operation us semantic
    \<and> sorted_wrt (<) (target_refs (build_exact_file_plan E operation ts semantic))"
proof
  have st: "set ts = set us" using assms(1) by (rule mset_eq_setD)
  have "mset (map t_ref ts) = mset (map t_ref us)" using assms(1) by simp
  then have d: "distinct (map t_ref us)" using assms(2) mset_eq_imp_distinct_iff by blast
  have "sort_key t_ref ts = sort_key t_ref us"
    by (rule map_sorted_distinct_set_unique [of t_ref])
       (use assms(2) d st in \<open>simp_all add: distinct_sort_key distinct_map\<close>)
  then show "build_exact_file_plan E operation ts semantic = build_exact_file_plan E operation us semantic"
    by (simp add: build_exact_file_plan_def)
  show "sorted_wrt (<) (target_refs (build_exact_file_plan E operation ts semantic))"
    using sorted_sort_key_strict [OF assms(2)] by (simp add: build_exact_file_plan_def Let_def target_refs_def)
qed

theorem build_exact_file_plan_order_free_witness:
  "build_exact_file_plan sample_env ''docs.update''
     [sample_target ''docs/a.md'' None ''new'', sample_target ''docs/b.md'' (Some ''a'') ''b''] (replicate 64 (CHR ''0''))
   = sample_plan"
  unfolding sample_plan_def
  by (rule build_exact_file_plan_order_free [THEN conjunct1]) (simp_all add: sample_target_def)

text \<open>The text under a plan's digest.\<close>

definition plan_text :: "env \<Rightarrow> exact_file_plan \<Rightarrow> string" where
  "plan_text E p = e_compact E (PDict
       [(''kind'', PStr ''ExactFilePlanV1''), (''operation'', PStr (p_operation p)), (''schema_version'', PInt 1),
        (''semantic_binding_digest'', PStr (p_semantic p)),
        (''targets'', PList (map (\<lambda>t. PDict (target_as_dict E t)) (p_targets p)))])"

lemma validate_plan_digest: "validate_exact_plan E p = Inr () \<Longrightarrow> p_digest p = e_sha E (plan_text E p)"
  by (auto simp: validate_exact_plan_def exact_plan_digest_def plan_text_def split: if_splits sum.splits)

lemma target_dict_inject:
  assumes "env_ok E" and "target_as_dict E t = target_as_dict E u"
  shows "t = u"
proof -
  have "map_of (target_as_dict E t) k = map_of (target_as_dict E u) k" for k using assms(2) by simp
  note eqs = this [of "''after_bytes_b64''", unfolded map_of_target] this [of "''after_digest''", unfolded map_of_target]
    this [of "''before_digest''", unfolded map_of_target] this [of "''before_exists''", unfolded map_of_target]
    this [of "''ref''", unfolded map_of_target] this [of "''namespace''", unfolded map_of_target]
  have "e_b64 E (t_after t) = e_b64 E (t_after u)" using eqs(1) by simp
  then have "t_after t = t_after u" using assms(1) unfolding env_ok_def by (metis option.inject)
  moreover have "t_namespace t = t_namespace u" using eqs(6) by (simp split: if_splits)
  ultimately show ?thesis using eqs(2-5) by (cases t; cases u) simp
qed

text \<open>An authorization admits one plan: two valid plans admitted by the same authorization are equal, unless the
  digest collides on their two texts. The printer must be injective on dictionaries with sorted keys.\<close>

theorem authorization_binds_one_plan:
  assumes "env_ok E"
    and inj: "\<And>v w. key_sorted v \<Longrightarrow> key_sorted w \<Longrightarrow> e_compact E v = e_compact E w \<Longrightarrow> v = w"
    and "validate_exact_plan E p = Inr ()" and "validate_exact_plan E q = Inr ()"
    and "validate_for E a p = Inr ()" and "validate_for E a q = Inr ()"
    and no_collision: "e_sha E (plan_text E p) = e_sha E (plan_text E q) \<Longrightarrow> plan_text E p = plan_text E q"
  shows "p = q"
proof -
  have d: "p_digest p = p_digest q"
    using assms(5,6) by (auto simp: validate_for_def split: if_splits)
  then have same: "plan_text E p = plan_text E q"
    using no_collision validate_plan_digest [OF assms(3)] validate_plan_digest [OF assms(4)] by simp
  have names: "sorted_wrt (<) [''kind'', ''operation'', ''schema_version'', ''semantic_binding_digest'', ''targets'']"
    by code_simp
  have "key_sorted (PDict [(''kind'', PStr ''ExactFilePlanV1''), (''operation'', PStr (p_operation r)),
      (''schema_version'', PInt 1), (''semantic_binding_digest'', PStr (p_semantic r)),
      (''targets'', PList (map (\<lambda>t. PDict (target_as_dict E t)) (p_targets r)))])" for r
    unfolding key_sorted.simps(2) using names targets_sorted by (simp del: key_sorted.simps(1))
  from inj [OF this this same [unfolded plan_text_def]]
  have f: "p_operation p = p_operation q" "p_semantic p = p_semantic q"
    and ts: "map (\<lambda>t. PDict (target_as_dict E t)) (p_targets p) = map (\<lambda>t. PDict (target_as_dict E t)) (p_targets q)"
    by simp_all
  have "inj (\<lambda>t. PDict (target_as_dict E t))"
    by (rule injI) (use target_dict_inject [OF assms(1)] in simp)
  then have "p_targets p = p_targets q" using ts inj_map_eq_map by blast
  with f d show ?thesis by (cases p; cases q) simp
qed

theorem authorization_binds_one_plan_witness:
  "build_exact_file_plan sample_env ''docs.update''
     [sample_target ''docs/a.md'' None ''new'', sample_target ''docs/b.md'' (Some ''a'') ''b''] (replicate 64 (CHR ''0''))
   = sample_plan"
proof (rule authorization_binds_one_plan [OF sample_env_ok])
  fix v w assume "e_compact sample_env v = e_compact sample_env w"
  then have "sample_loads (sample_dumps v) = sample_loads (sample_dumps w)" by (simp add: sample_env_def)
  then show "v = w" by (simp add: sample_roundtrip)
next
  show "validate_exact_plan sample_env (build_exact_file_plan sample_env ''docs.update''
     [sample_target ''docs/a.md'' None ''new'', sample_target ''docs/b.md'' (Some ''a'') ''b''] (replicate 64 (CHR ''0'')))
     = Inr ()" by code_simp
  show "validate_for sample_env sample_authorization (build_exact_file_plan sample_env ''docs.update''
     [sample_target ''docs/a.md'' None ''new'', sample_target ''docs/b.md'' (Some ''a'') ''b''] (replicate 64 (CHR ''0'')))
     = Inr ()" by code_simp
  show "plan_text sample_env (build_exact_file_plan sample_env ''docs.update''
     [sample_target ''docs/a.md'' None ''new'', sample_target ''docs/b.md'' (Some ''a'') ''b''] (replicate 64 (CHR ''0'')))
     = plan_text sample_env sample_plan" by code_simp
qed (rule sample_plan_valid, rule sample_authorization_valid)

section \<open>A field check that does not check\<close>

text \<open>The reader of a target accepts any single unknown field: the test \<open>extra > {"namespace"}\<close> only refuses
  unknown fields that come together with \<open>namespace\<close>.\<close>

theorem target_reader_accepts_unknown_field:
  assumes "env_ok E" and "validate_exact_target E t = Inr ()" and "t_namespace t = ''business''"
    and "k \<notin> set (''namespace'' # target_base_fields)"
  shows "target_from_mapping E (PDict ((k, v) # target_as_dict E t)) = Inr t"
proof (rule target_read [OF assms(1,2)])
  show "\<not> extra_exceeds ''namespace'' target_base_fields (map fst ((k, v) # target_as_dict E t))"
    using assms(3,4) by (simp add: extra_exceeds_def target_as_dict_def target_base_fields_def Let_def)
      (metis assms(4) list.set_intros(1))
  show "map_of ((k, v) # target_as_dict E t) x = map_of (target_as_dict E t) x"
    if "x \<in> set (''namespace'' # target_base_fields)" for x
    using that assms(4) by auto
qed

theorem target_reader_accepts_unknown_field_witness:
  "target_from_mapping sample_env
     (PDict ((''mode'', PStr ''force'') # target_as_dict sample_env (sample_target ''docs/a.md'' None ''new'')))
   = Inr (sample_target ''docs/a.md'' None ''new'')"
  by (rule target_reader_accepts_unknown_field [OF sample_env_ok]; code_simp)

end
