(* ===== verification/Exact_Store.thy ===== *)
theory Exact_Store
  imports Exact_Plan
begin

text \<open>
  The world in which the exact-file transaction runs: a file tree below a resolved root, the advisory
  writer lock, and a schedule of faults. Paths are component lists. The primitives of
  \<open>execution_control/primitives.py\<close> are state transformers whose outcome is a value, a raised
  exception or the death of the process; \<open>write_atomic\<close> and \<open>unlink\<close> are the durable operations, and
  each of them consumes one entry of the fault schedule.

  A file is replaced by renaming a finished temporary file over it, so a fault happens either before
  the rename or after it (the directory sync can still fail then); temporary files are not modelled.
\<close>

section \<open>Worlds and outcomes\<close>

datatype node = Dir | File string | Symlink | Special

type_synonym path = "string list"
type_synonym fs = "path \<Rightarrow> node option"

datatype fault = No_Fault | Fail_Before | Fail_After | Crash_Before | Crash_After

text \<open>The generation of a path counts how often it was replaced or removed: two generations of a path
  are two inodes.\<close>

record world =
  w_fs :: fs
  w_gen :: "path \<Rightarrow> nat"
  w_locked :: bool
  w_faults :: "fault list"

datatype 'a run = Done 'a world | Raised exc world | Crashed world

fun and_then :: "'a run \<Rightarrow> ('a \<Rightarrow> world \<Rightarrow> 'b run) \<Rightarrow> 'b run" where
  "and_then (Done x w) f = f x w"
| "and_then (Raised e w) f = Raised e w"
| "and_then (Crashed w) f = Crashed w"

text \<open>\<open>try: ... except Exception\<close>.\<close>

fun catching :: "'a run \<Rightarrow> (exc \<Rightarrow> world \<Rightarrow> 'a run) \<Rightarrow> 'a run" where
  "catching (Done x w) h = Done x w"
| "catching (Raised e w) h = h e w"
| "catching (Crashed w) h = Crashed w"

text \<open>\<open>try: ... finally: cleanup\<close>: an exception of the clean-up replaces the outcome.\<close>

fun finally_run :: "'a run \<Rightarrow> (world \<Rightarrow> unit run) \<Rightarrow> 'a run" where
  "finally_run (Done x w) c = and_then (c w) (\<lambda>_ w'. Done x w')"
| "finally_run (Raised e w) c = and_then (c w) (\<lambda>_ w'. Raised e w')"
| "finally_run (Crashed w) c = Crashed w"

fun is_value_error :: "exc \<Rightarrow> bool" where
  "is_value_error (ValueError _) = True"
| "is_value_error _ = False"

fun exc_message :: "exc \<Rightarrow> string" where
  "exc_message (ValueError m) = m"
| "exc_message (TypeError m) = m"
| "exc_message (IndexError m) = m"
| "exc_message (OSError m) = m"
| "exc_message (RuntimeError m) = m"
| "exc_message (AssertionError m) = m"
| "exc_message (AttributeError m) = m"
| "exc_message (KeyError m) = repr_str m"

section \<open>Paths below the root\<close>

text \<open>The loop of \<open>safe_path\<close> over the parents: no parent may be a link or a non-directory; missing
  parents are created on request.\<close>

fun check_parents :: "bool \<Rightarrow> path \<Rightarrow> path \<Rightarrow> fs \<Rightarrow> fs option" where
  "check_parents create cur [] fs = Some fs"
| "check_parents create cur (q # qs) fs =
     (case fs (cur @ [q]) of
        None \<Rightarrow> check_parents create (cur @ [q]) qs (if create then fs(cur @ [q] \<mapsto> Dir) else fs)
      | Some Dir \<Rightarrow> check_parents create (cur @ [q]) qs fs
      | Some _ \<Rightarrow> None)"

definition plain_target :: "fs \<Rightarrow> path \<Rightarrow> bool" where
  "plain_target fs p = (p \<noteq> [] \<and> (case fs p of None \<Rightarrow> True | Some (File _) \<Rightarrow> True | Some _ \<Rightarrow> False))"

definition safe_path :: "bool \<Rightarrow> path \<Rightarrow> world \<Rightarrow> unit run" where
  "safe_path create p w =
     (if list_ex unsafe_part p then Raised (ValueError ''exact-file relative path is unsafe'') w
      else case check_parents create [] (butlast p) (w_fs w) of
        None \<Rightarrow> Raised (ValueError ''exact-file parent path is unsafe'') w
      | Some fs' \<Rightarrow>
        if plain_target fs' p then Done () (w\<lparr>w_fs := fs'\<rparr>)
        else Raised (ValueError ''exact-file target is unsafe'') (w\<lparr>w_fs := fs'\<rparr>))"

definition file_at :: "fs \<Rightarrow> path \<Rightarrow> string option" where
  "file_at fs p = (case fs p of Some (File c) \<Rightarrow> Some c | _ \<Rightarrow> None)"

section \<open>Durable operations\<close>

definition next_fault :: "world \<Rightarrow> fault" where
  "next_fault w = (case w_faults w of [] \<Rightarrow> No_Fault | f # _ \<Rightarrow> f)"

definition drop_fault :: "world \<Rightarrow> world" where
  "drop_fault w = w\<lparr>w_faults := tl (w_faults w)\<rparr>"

definition put_file :: "path \<Rightarrow> string \<Rightarrow> world \<Rightarrow> world" where
  "put_file p c w = w\<lparr>w_fs := (w_fs w)(p \<mapsto> File c), w_gen := (w_gen w)(p := Suc (w_gen w p))\<rparr>"

definition del_file :: "path \<Rightarrow> world \<Rightarrow> world" where
  "del_file p w = w\<lparr>w_fs := (w_fs w)(p := None), w_gen := (w_gen w)(p := Suc (w_gen w p))\<rparr>"

definition durable :: "(world \<Rightarrow> world) \<Rightarrow> world \<Rightarrow> unit run" where
  "durable change w =
     (let w' = drop_fault w in
      case next_fault w of
        No_Fault \<Rightarrow> Done () (change w')
      | Fail_Before \<Rightarrow> Raised (OSError ''I/O error'') w'
      | Fail_After \<Rightarrow> Raised (OSError ''I/O error'') (change w')
      | Crash_Before \<Rightarrow> Crashed w'
      | Crash_After \<Rightarrow> Crashed (change w'))"

text \<open>\<open>write_atomic\<close>: the parent directories are created, then the file is replaced. A parent that is
  not a directory makes \<open>mkdir\<close> raise.\<close>

definition write_atomic :: "path \<Rightarrow> string \<Rightarrow> world \<Rightarrow> unit run" where
  "write_atomic p c w =
     (if \<not> plain_target (w_fs w) p then Raised (ValueError ''exact-file target is unsafe'') w
      else case check_parents True [] (butlast p) (w_fs w) of
        None \<Rightarrow> Raised (OSError ''File exists'') w
      | Some fs' \<Rightarrow> durable (put_file p c) (w\<lparr>w_fs := fs'\<rparr>))"

definition unlink :: "path \<Rightarrow> world \<Rightarrow> unit run" where
  "unlink p w = durable (del_file p) w"

section \<open>Identifiers and the writer lock\<close>

definition lock_path :: path where
  "lock_path = [''.meta-flow-process.yaml'']"

definition lock_anchor_ok :: "world \<Rightarrow> bool" where
  "lock_anchor_ok w = (file_at (w_fs w) lock_path \<noteq> None)"

text \<open>Acquiring yields the generation of the anchor at which the lock was taken.\<close>

definition acquire_lock :: "string \<Rightarrow> world \<Rightarrow> nat run" where
  "acquire_lock writer_id w =
     (if \<not> safe_authorization_id writer_id then Raised (ValueError ''authorization_id is invalid'') w
      else if \<not> lock_anchor_ok w then Raised (ValueError ''shared projection writer lock path is unsafe'') w
      else if w_locked w then Raised (ValueError ''shared projection writer lock is already held'') w
      else Done (w_gen w lock_path) (w\<lparr>w_locked := True\<rparr>))"

text \<open>Releasing first checks that the anchor is still the inode that was locked.\<close>

definition release_lock :: "nat \<Rightarrow> string \<Rightarrow> world \<Rightarrow> unit run" where
  "release_lock handle writer_id w =
     (if \<not> safe_authorization_id writer_id then Raised (ValueError ''authorization_id is invalid'') w
      else if \<not> lock_anchor_ok w then Raised (ValueError ''shared projection writer lock ownership is unsafe'') w
      else if w_gen w lock_path \<noteq> handle
      then Raised (ValueError ''shared projection writer lock identity drifted'') w
      else Done () (w\<lparr>w_locked := False\<rparr>))"

section \<open>What the path check decides\<close>

text \<open>What a file tree must look like for a path to be writable: every proper prefix is a directory or
  absent, the path itself a file or absent.\<close>

definition open_node :: "node option \<Rightarrow> bool" where
  "open_node x = (x = None \<or> x = Some Dir)"

lemma open_node_simps [simp]:
  "open_node None" "open_node (Some Dir)" "\<not> open_node (Some (File c))" "\<not> open_node (Some Symlink)"
  "\<not> open_node (Some Special)"
  by (simp_all add: open_node_def)

definition writable :: "fs \<Rightarrow> path \<Rightarrow> bool" where
  "writable fs p = (\<not> list_ex unsafe_part p \<and> plain_target fs p
     \<and> (\<forall>n. 0 < n \<and> n < length p \<longrightarrow> open_node (fs (take n p))))"

definition mkdirs :: "path \<Rightarrow> fs \<Rightarrow> fs" where
  "mkdirs p fs = (\<lambda>q. if fs q = None \<and> q \<noteq> [] \<and> strict_prefix q p then Some Dir else fs q)"

lemma all_take_Cons:
  "(\<forall>n. 0 < n \<and> n \<le> length (q # qs) \<longrightarrow> P (take n (q # qs)))
   \<longleftrightarrow> P [q] \<and> (\<forall>n. 0 < n \<and> n \<le> length qs \<longrightarrow> P (q # take n qs))"
proof (intro iffI conjI allI impI)
  assume *: "\<forall>n. 0 < n \<and> n \<le> length (q # qs) \<longrightarrow> P (take n (q # qs))"
  then show "P [q]" using spec [OF *, of 1] by simp
  fix n assume "0 < n \<and> n \<le> length qs"
  then show "P (q # take n qs)" using spec [OF *, of "Suc n"] by simp
next
  fix n assume *: "P [q] \<and> (\<forall>n. 0 < n \<and> n \<le> length qs \<longrightarrow> P (q # take n qs))"
    and n: "0 < n \<and> n \<le> length (q # qs)"
  from n obtain m where m: "n = Suc m" by (cases n) auto
  show "P (take n (q # qs))"
  proof (cases "m = 0")
    case True
    with * m show ?thesis by simp
  next
    case False
    with * m n show ?thesis by simp
  qed
qed

lemma check_parents_False:
  "check_parents False cur qs fs =
     (if \<forall>n. 0 < n \<and> n \<le> length qs \<longrightarrow> open_node (fs (cur @ take n qs)) then Some fs else None)"
proof (induction qs arbitrary: cur)
  case (Cons q qs)
  have split: "(\<forall>n. 0 < n \<and> n \<le> length (q # qs) \<longrightarrow> open_node (fs (cur @ take n (q # qs))))
      \<longleftrightarrow> open_node (fs (cur @ [q])) \<and> (\<forall>n. 0 < n \<and> n \<le> length qs \<longrightarrow> open_node (fs ((cur @ [q]) @ take n qs)))"
    using all_take_Cons [of q qs "\<lambda>x. open_node (fs (cur @ x))"] by simp
  show ?case
    unfolding split by (cases "fs (cur @ [q])") (auto simp: Cons.IH split: node.splits)
qed simp

lemma check_parents_True:
  "check_parents True cur qs fs =
     (if \<forall>n. 0 < n \<and> n \<le> length qs \<longrightarrow> open_node (fs (cur @ take n qs))
      then Some (\<lambda>q. if fs q = None \<and> (\<exists>n. 0 < n \<and> n \<le> length qs \<and> q = cur @ take n qs) then Some Dir else fs q)
      else None)"
proof (induction qs arbitrary: cur fs)
  case (Cons q qs)
  have split: "(\<forall>n. 0 < n \<and> n \<le> length (q # qs) \<longrightarrow> open_node (g (cur @ take n (q # qs))))
      \<longleftrightarrow> open_node (g (cur @ [q])) \<and> (\<forall>n. 0 < n \<and> n \<le> length qs \<longrightarrow> open_node (g ((cur @ [q]) @ take n qs)))"
    for g :: fs
    using all_take_Cons [of q qs "\<lambda>x. open_node (g (cur @ x))"] by simp
  have exsplit: "(\<exists>n. 0 < n \<and> n \<le> length (q # qs) \<and> x = cur @ take n (q # qs))
      \<longleftrightarrow> x = cur @ [q] \<or> (\<exists>n. 0 < n \<and> n \<le> length qs \<and> x = (cur @ [q]) @ take n qs)" for x
    using all_take_Cons [of q qs "\<lambda>y. x \<noteq> cur @ y"] by simp blast
  show ?case
  proof (cases "fs (cur @ [q])")
    case None
    define g where "g = fs(cur @ [q] \<mapsto> Dir)"
    have gq: "g (cur @ [q]) = Some Dir" by (simp add: g_def)
    have gn: "g x = fs x" if "x \<noteq> cur @ [q]" for x using that by (simp add: g_def)
    have same: "open_node (g x) = open_node (fs x)" for x
      by (cases "x = cur @ [q]") (simp_all add: gq gn None)
    have "check_parents True cur (q # qs) fs = check_parents True (cur @ [q]) qs g"
      by (simp add: None g_def)
    also have "\<dots> = (if \<forall>n. 0 < n \<and> n \<le> length (q # qs) \<longrightarrow> open_node (fs (cur @ take n (q # qs)))
      then Some (\<lambda>x. if g x = None \<and> (\<exists>n. 0 < n \<and> n \<le> length qs \<and> x = (cur @ [q]) @ take n qs) then Some Dir else g x)
      else None)"
      unfolding Cons.IH split same by (simp add: None)
    also have "(\<lambda>x. if g x = None \<and> (\<exists>n. 0 < n \<and> n \<le> length qs \<and> x = (cur @ [q]) @ take n qs) then Some Dir else g x)
      = (\<lambda>x. if fs x = None \<and> (\<exists>n. 0 < n \<and> n \<le> length (q # qs) \<and> x = cur @ take n (q # qs)) then Some Dir else fs x)"
    proof
      fix x
      show "(if g x = None \<and> (\<exists>n. 0 < n \<and> n \<le> length qs \<and> x = (cur @ [q]) @ take n qs) then Some Dir else g x)
        = (if fs x = None \<and> (\<exists>n. 0 < n \<and> n \<le> length (q # qs) \<and> x = cur @ take n (q # qs)) then Some Dir else fs x)"
        unfolding exsplit by (cases "x = cur @ [q]") (auto simp add: gq gn None)
    qed
    finally show ?thesis .
  next
    case (Some nd)
    show ?thesis
    proof (cases "nd = Dir")
      case True
      have "check_parents True cur (q # qs) fs = check_parents True (cur @ [q]) qs fs"
        by (simp add: Some True)
      moreover have "(\<lambda>x. if fs x = None \<and> (\<exists>n. 0 < n \<and> n \<le> length (q # qs) \<and> x = cur @ take n (q # qs)) then Some Dir else fs x)
        = (\<lambda>x. if fs x = None \<and> (\<exists>n. 0 < n \<and> n \<le> length qs \<and> x = (cur @ [q]) @ take n qs) then Some Dir else fs x)"
        unfolding exsplit using Some by fastforce
      ultimately show ?thesis unfolding split Cons.IH by (auto simp add: Some True)
    next
      case False
      then have "\<not> open_node (fs (cur @ [q]))" using Some by (cases nd) auto
      moreover have "check_parents True cur (q # qs) fs = None" using Some False by (cases nd) auto
      ultimately show ?thesis unfolding split by simp
    qed
  qed
qed simp

lemma strict_prefix_take:
  "(q \<noteq> [] \<and> strict_prefix q p) \<longleftrightarrow> (\<exists>n. 0 < n \<and> n \<le> length (butlast p) \<and> q = [] @ take n (butlast p))"
proof
  assume "q \<noteq> [] \<and> strict_prefix q p"
  then obtain r where p: "p = q @ r" and r: "r \<noteq> []" and q: "q \<noteq> []"
    by (auto simp: strict_prefix_def prefix_def)
  then have "0 < length q \<and> length q \<le> length (butlast p) \<and> q = [] @ take (length q) (butlast p)"
    by (simp add: butlast_append)
  then show "\<exists>n. 0 < n \<and> n \<le> length (butlast p) \<and> q = [] @ take n (butlast p)" by blast
next
  assume "\<exists>n. 0 < n \<and> n \<le> length (butlast p) \<and> q = [] @ take n (butlast p)"
  then obtain n where n: "0 < n" "n \<le> length (butlast p)" and q: "q = take n (butlast p)" by auto
  then have ne: "p \<noteq> []" by auto
  have "strict_prefix (butlast p) p"
    using ne by (metis append_butlast_last_id strict_prefixI' prefix_order.dual_order.strict_iff_order append_butlast_last_id list.distinct(1) prefixI same_append_eq self_append_conv)
  moreover have "prefix q (butlast p)" using q by (simp add: take_is_prefix)
  ultimately have "strict_prefix q p" by (rule prefix_order.le_less_trans [rotated])
  moreover have "q \<noteq> []"
  proof -
    have "length q = n" using n q by simp
    then show ?thesis using n by auto
  qed
  ultimately show "q \<noteq> [] \<and> strict_prefix q p" by simp
qed

lemma mkdirs_check: "p \<noteq> [] \<Longrightarrow> check_parents True [] (butlast p) fs =
    (if \<forall>n. 0 < n \<and> n < length p \<longrightarrow> open_node (fs (take n p)) then Some (mkdirs p fs) else None)"
proof -
  assume p: "p \<noteq> []"
  have t: "take n (butlast p) = take n p" if "n < length p" for n
    using that by (simp add: take_butlast)
  have all: "(\<forall>n. 0 < n \<and> n \<le> length (butlast p) \<longrightarrow> open_node (fs ([] @ take n (butlast p))))
     \<longleftrightarrow> (\<forall>n. 0 < n \<and> n < length p \<longrightarrow> open_node (fs (take n p)))"
  proof -
    have "n \<le> length (butlast p) \<longleftrightarrow> n < length p" for n
      using p by (cases p) auto
    then show ?thesis using t by (metis append_Nil)
  qed
  show ?thesis unfolding check_parents_True all mkdirs_def strict_prefix_take by simp
qed

lemma check_check: "p \<noteq> [] \<Longrightarrow> check_parents False [] (butlast p) fs =
    (if \<forall>n. 0 < n \<and> n < length p \<longrightarrow> open_node (fs (take n p)) then Some fs else None)"
proof -
  assume p: "p \<noteq> []"
  have t: "take n (butlast p) = take n p" if "n < length p" for n
    using that by (simp add: take_butlast)
  have "n \<le> length (butlast p) \<longleftrightarrow> n < length p" for n
    using p by (cases p) auto
  then show ?thesis unfolding check_parents_False using t by (metis append_Nil)
qed


section \<open>Reasoning about runs\<close>

text \<open>The weakest precondition of a run: a condition for each of the three outcomes.\<close>

fun wp :: "'a run \<Rightarrow> ('a \<Rightarrow> world \<Rightarrow> bool) \<Rightarrow> (exc \<Rightarrow> world \<Rightarrow> bool) \<Rightarrow> (world \<Rightarrow> bool) \<Rightarrow> bool" where
  "wp (Done x w) Q E C = Q x w"
| "wp (Raised e w) Q E C = E e w"
| "wp (Crashed w) Q E C = C w"

named_theorems wp_simps \<open>weakest preconditions of the combinators\<close>

lemma wp_and_then [wp_simps]: "wp (and_then r f) Q E C = wp r (\<lambda>x w. wp (f x w) Q E C) E C"
  by (cases r) simp_all

lemma wp_catching [wp_simps]: "wp (catching r h) Q E C = wp r Q (\<lambda>e w. wp (h e w) Q E C) C"
  by (cases r) simp_all

lemma wp_finally [wp_simps]: "wp (finally_run r c) Q E C =
    wp r (\<lambda>x w. wp (c w) (\<lambda>_ w'. Q x w') E C) (\<lambda>e w. wp (c w) (\<lambda>_ w'. E e w') E C) C"
  by (cases r) (simp_all add: wp_and_then)

lemma wp_mono:
  "wp r Q E C \<Longrightarrow> (\<And>x w. Q x w \<Longrightarrow> Q' x w) \<Longrightarrow> (\<And>e w. E e w \<Longrightarrow> E' e w) \<Longrightarrow> (\<And>w. C w \<Longrightarrow> C' w)
   \<Longrightarrow> wp r Q' E' C'"
  by (cases r) simp_all

lemma wp_conj: "wp r Q E C \<Longrightarrow> wp r Q' E' C'
   \<Longrightarrow> wp r (\<lambda>x w. Q x w \<and> Q' x w) (\<lambda>e w. E e w \<and> E' e w) (\<lambda>w. C w \<and> C' w)"
  by (cases r) simp_all

lemma wp_Done: "wp r Q E C \<Longrightarrow> r = Done x w \<Longrightarrow> Q x w"
  by simp

lemma wp_Crashed: "wp r Q E C \<Longrightarrow> r = Crashed w \<Longrightarrow> C w"
  by simp

section \<open>Changes of one file\<close>

text \<open>\<open>changed p v w w'\<close>: between \<open>w\<close> and \<open>w'\<close> the content of \<open>p\<close> became \<open>v\<close>, no other content, no
  other inode and no lock changed, and every path independent of \<open>p\<close> that was writable still is.\<close>

definition independent_paths :: "path \<Rightarrow> path \<Rightarrow> bool" where
  "independent_paths p q = (\<not> prefix p q \<and> \<not> prefix q p)"

lemma independent_sym: "independent_paths p q = independent_paths q p"
  by (auto simp: independent_paths_def)

definition changed :: "path \<Rightarrow> string option \<Rightarrow> world \<Rightarrow> world \<Rightarrow> bool" where
  "changed p v w w' =
     (file_at (w_fs w') = (file_at (w_fs w))(p := v)
      \<and> (\<forall>q. q = p \<or> independent_paths p q \<longrightarrow> writable (w_fs w) q \<longrightarrow> writable (w_fs w') q)
      \<and> w_locked w' = w_locked w \<and> (\<forall>q. q \<noteq> p \<longrightarrow> w_gen w' q = w_gen w q))"

definition quiet :: "world \<Rightarrow> bool" where
  "quiet w = (w_faults w = [])"

lemma file_at_mkdirs [simp]: "file_at (mkdirs p fs) = file_at fs"
  by (rule ext) (simp add: file_at_def mkdirs_def)

lemma independent_not_strict: "independent_paths p q \<Longrightarrow> q \<noteq> p \<and> \<not> strict_prefix q p"
  by (auto simp: independent_paths_def strict_prefix_def)

lemma writable_mkdirs: "q = p \<or> independent_paths p q \<Longrightarrow> writable fs q \<Longrightarrow> writable (mkdirs p fs) q"
proof -
  assume q: "q = p \<or> independent_paths p q" and w: "writable fs q"
  have "\<not> strict_prefix q p" using q independent_not_strict by auto
  then have "mkdirs p fs q = fs q" by (simp add: mkdirs_def)
  moreover have "open_node (mkdirs p fs x)" if "open_node (fs x)" for x
    using that by (simp add: mkdirs_def)
  ultimately show ?thesis using w by (simp add: writable_def plain_target_def)
qed

lemma writable_update:
  assumes q: "q = p \<or> independent_paths p q" and w: "writable fs q" and x: "x = None \<or> (\<exists>c. x = Some (File c))"
  shows "writable (fs(p := x)) q"
proof -
  have "plain_target (fs(p := x)) q"
    using w x by (auto simp: writable_def plain_target_def)
  moreover have "open_node ((fs(p := x)) (take n q))" if n: "0 < n" "n < length q" for n
  proof -
    have "take n q \<noteq> p"
    proof
      assume eq: "take n q = p"
      then have "prefix p q" using take_is_prefix by metis
      with q have "q = p" by (auto simp: independent_paths_def)
      with eq n show False by (metis length_take min.absorb4 order_less_irrefl)
    qed
    then show ?thesis using w n by (simp add: writable_def)
  qed
  ultimately show ?thesis using w by (simp add: writable_def)
qed

lemma safe_path_check:
  "safe_path False p w =
     (if writable (w_fs w) p then Done () w
      else Raised (ValueError
        (if list_ex unsafe_part p then ''exact-file relative path is unsafe''
         else if p \<noteq> [] \<and> (\<exists>n. 0 < n \<and> n < length p \<and> \<not> open_node (w_fs w (take n p)))
         then ''exact-file parent path is unsafe'' else ''exact-file target is unsafe'')) w)"
proof (cases "p = []")
  case True
  then show ?thesis by (simp add: safe_path_def writable_def plain_target_def)
next
  case False
  then show ?thesis by (auto simp: safe_path_def writable_def check_check)
qed

lemma safe_path_create:
  "writable (w_fs w) p \<Longrightarrow> safe_path True p w = Done () (w\<lparr>w_fs := mkdirs p (w_fs w)\<rparr>)"
proof -
  assume w: "writable (w_fs w) p"
  then have "p \<noteq> []" by (simp add: writable_def plain_target_def)
  moreover have "plain_target (mkdirs p (w_fs w)) p"
    using writable_mkdirs [of p p] w by (simp add: writable_def)
  ultimately show ?thesis using w by (simp add: safe_path_def mkdirs_check writable_def)
qed

lemma changed_mkdirs: "changed p (file_at (w_fs w) p) w (w\<lparr>w_fs := mkdirs p (w_fs w)\<rparr>)"
  by (simp add: changed_def writable_mkdirs)

text \<open>No replacement of the remaining schedule fails after it has taken effect.\<close>

definition clean :: "world \<Rightarrow> bool" where
  "clean w = (Fail_After \<notin> set (w_faults w))"

lemma clean_drop: "clean w \<Longrightarrow> clean (drop_fault w)"
  by (cases "w_faults w") (auto simp: clean_def drop_fault_def)

text \<open>What a replacement or a removal leaves behind, for every outcome. Without faults ahead it succeeds;
  an exception of a clean schedule changed nothing.\<close>

definition store_outcome :: "path \<Rightarrow> string option \<Rightarrow> world \<Rightarrow> 'a run \<Rightarrow> bool" where
  "store_outcome p v w r =
     wp r (\<lambda>_ w'. changed p v w w' \<and> (quiet w \<longrightarrow> quiet w') \<and> (clean w \<longrightarrow> clean w'))
       (\<lambda>e w'. (\<exists>v' \<in> {file_at (w_fs w) p, v}. changed p v' w w') \<and> \<not> quiet w \<and> (\<exists>m. e = OSError m)
          \<and> (clean w \<longrightarrow> clean w' \<and> changed p (file_at (w_fs w) p) w w'))
       (\<lambda>w'. (\<exists>v' \<in> {file_at (w_fs w) p, v}. changed p v' w w') \<and> \<not> quiet w)"

lemma durable_outcome:
  assumes "\<And>u. changed p v (u\<lparr>w_fs := w_fs w0\<rparr>) (change (u\<lparr>w_fs := w_fs w0\<rparr>))"
    and "\<And>u. w_faults (change u) = w_faults u"
  shows "store_outcome p v w0 (durable change w0)"
proof -
  have c: "changed p v w0 (change (drop_fault w0))"
    using assms(1) [of "drop_fault w0"] by (simp add: changed_def drop_fault_def)
  have k: "changed p (file_at (w_fs w0) p) w0 (drop_fault w0)"
    by (simp add: changed_def drop_fault_def)
  have q: "quiet (change (drop_fault w0))" if "quiet w0"
    using that assms(2) by (simp add: quiet_def drop_fault_def)
  have nq: "next_fault w0 \<noteq> No_Fault \<Longrightarrow> \<not> quiet w0"
    by (auto simp: next_fault_def quiet_def)
  have cl: "clean (change (drop_fault w0))" if "clean w0"
    using clean_drop [OF that] assms(2) by (simp add: clean_def)
  have nc: "next_fault w0 = Fail_After \<Longrightarrow> \<not> clean w0"
    by (cases "w_faults w0") (simp_all add: next_fault_def clean_def)
  show ?thesis
    using c k q nq cl nc clean_drop by (cases "next_fault w0") (auto simp: store_outcome_def durable_def Let_def)
qed

lemma changed_trans_same:
  "changed p v w w1 \<Longrightarrow> changed p v' w1 w2 \<Longrightarrow> changed p v' w w2"
  by (simp add: changed_def)

lemma store_outcome_trans:
  assumes "changed p (file_at (w_fs w) p) w w1" and "w_faults w1 = w_faults w" and "store_outcome p v w1 r"
  shows "store_outcome p v w r"
proof -
  have "file_at (w_fs w1) p = file_at (w_fs w) p" using assms(1) by (simp add: changed_def)
  moreover have "quiet w1 = quiet w" "clean w1 = clean w" using assms(2) by (simp_all add: quiet_def clean_def)
  ultimately show ?thesis
    using assms(3) changed_trans_same [OF assms(1)] unfolding store_outcome_def
    by (cases r) auto
qed

lemma put_file_changed:
  "changed p (Some c) (u\<lparr>w_fs := fs\<rparr>) (put_file p c (u\<lparr>w_fs := fs\<rparr>))"
proof -
  have "file_at (fs(p \<mapsto> File c)) = (file_at fs)(p := Some c)"
    by (rule ext) (simp add: file_at_def)
  then show ?thesis by (simp add: changed_def put_file_def writable_update)
qed

lemma del_file_changed:
  "changed p None (u\<lparr>w_fs := fs\<rparr>) (del_file p (u\<lparr>w_fs := fs\<rparr>))"
proof -
  have "file_at (fs(p := None)) = (file_at fs)(p := None)"
    by (rule ext) (simp add: file_at_def)
  then show ?thesis by (simp add: changed_def del_file_def writable_update)
qed

lemma write_atomic_outcome:
  assumes "writable (w_fs w) p"
  shows "store_outcome p (Some c) w (write_atomic p c w)"
proof -
  let ?w1 = "w\<lparr>w_fs := mkdirs p (w_fs w)\<rparr>"
  from assms have "p \<noteq> []" by (simp add: writable_def plain_target_def)
  with assms have eq: "write_atomic p c w = durable (put_file p c) ?w1"
    by (simp add: write_atomic_def mkdirs_check writable_def)
  have "store_outcome p (Some c) ?w1 (durable (put_file p c) ?w1)"
    by (rule durable_outcome) (rule put_file_changed, simp add: put_file_def)
  then show ?thesis
    unfolding eq by (rule store_outcome_trans [rotated 2]) (simp_all add: changed_mkdirs)
qed

lemma unlink_outcome: "store_outcome p None w (unlink p w)"
  unfolding unlink_def by (rule durable_outcome) (rule del_file_changed, simp add: del_file_def)


section \<open>Frames\<close>

text \<open>What the clients use of a store whose elementary changes each replace one entry: a sequence of
  changes confined to \<open>P\<close> leaves every other entry alone, and restoring \<open>P\<close> restores everything.\<close>

locale framed_store =
  fixes get :: "'w \<Rightarrow> 'p \<Rightarrow> 'c" and change :: "'p \<Rightarrow> 'c \<Rightarrow> 'w \<Rightarrow> 'w \<Rightarrow> bool"
  assumes get_change: "change p v w w' \<Longrightarrow> get w' = (get w)(p := v)"
begin

lemma frame_step: "change p v w w' \<Longrightarrow> q \<noteq> p \<Longrightarrow> get w' q = get w q"
  by (simp add: get_change)

lemma frame:
  "(\<lambda>a b. \<exists>p \<in> P. \<exists>v. change p v a b)\<^sup>*\<^sup>* w w' \<Longrightarrow> q \<notin> P \<Longrightarrow> get w' q = get w q"
proof (induction rule: rtranclp_induct)
  case (step y z)
  from step.hyps(2) obtain p v where "p \<in> P" and "change p v y z" by auto
  with step show ?case by (metis frame_step)
qed simp

lemma restored:
  "(\<lambda>a b. \<exists>p \<in> P. \<exists>v. change p v a b)\<^sup>*\<^sup>* w w' \<Longrightarrow> (\<And>p. p \<in> P \<Longrightarrow> get w' p = get w p)
   \<Longrightarrow> get w' = get w"
  by (rule ext, case_tac "x \<in> P") (simp_all add: frame)

end

interpretation files: framed_store "\<lambda>w. file_at (w_fs w)" changed
  by unfold_locales (simp add: changed_def)

abbreviation touches :: "path set \<Rightarrow> world \<Rightarrow> world \<Rightarrow> bool" where
  "touches P \<equiv> (\<lambda>a b. \<exists>p \<in> P. \<exists>v. changed p v a b)\<^sup>*\<^sup>*"

lemma touches_step: "changed p v w w' \<Longrightarrow> p \<in> P \<Longrightarrow> touches P w w'"
  by (rule r_into_rtranclp) auto

lemma touches_mono: "touches P w w' \<Longrightarrow> P \<subseteq> Q \<Longrightarrow> touches Q w w'"
  by (erule rtranclp_mono [THEN predicate2D, rotated]) auto

end
