(* ===== verification/Exact_Apply.thy ===== *)
theory Exact_Apply
  imports Exact_Store
begin

text \<open>
  The operations of \<open>execution_control/exact_file_transaction.py\<close> that change files: apply, rollback and
  recovery. Python mutates one manifest dictionary across a \<open>try\<close>; here the statements inside the \<open>try\<close>
  return the manifest as far as it got together with the exception, if one stopped them. The root is
  resolved, so a ref denotes the path of its components below it. All time stamps of a run are one text.
\<close>

section \<open>Receipts\<close>

record receipt =
  r_decision :: string
  r_authorization :: string
  r_plan_digest :: string
  r_planned :: "string list"
  r_mutations :: "string list"
  r_recovery_required :: bool
  r_reasons :: "string list"

definition blocked_exact_receipt :: "exact_file_plan \<Rightarrow> exact_file_authorization \<Rightarrow> string \<Rightarrow> receipt" where
  "blocked_exact_receipt plan a reason =
     \<lparr>r_decision = ''BLOCKED'', r_authorization = a_id a, r_plan_digest = p_digest plan,
      r_planned = target_refs plan, r_mutations = [], r_recovery_required = False, r_reasons = [reason]\<rparr>"

section \<open>Paths and preimages\<close>

definition exact_manifest_rel :: "string \<Rightarrow> path" where
  "exact_manifest_rel auth = [''.meta-flow-runtime'', ''exact-file''] @ rel_parts auth @ [''manifest.json'']"

definition exact_manifest_path :: "bool \<Rightarrow> string \<Rightarrow> world \<Rightarrow> path run" where
  "exact_manifest_path create auth w =
     (if \<not> safe_authorization_id auth then Raised (ValueError ''authorization_id is invalid'') w
      else and_then (safe_path create (exact_manifest_rel auth) w) (\<lambda>_ w'. Done (exact_manifest_rel auth) w'))"

definition target_path :: "exact_file_target \<Rightarrow> path" where
  "target_path t = rel_parts (t_ref t)"

definition content_of :: "world \<Rightarrow> path \<Rightarrow> string" where
  "content_of w p = (case file_at (w_fs w) p of None \<Rightarrow> [] | Some c \<Rightarrow> c)"

definition exact_preimage :: "env \<Rightarrow> exact_file_target \<Rightarrow> world \<Rightarrow> string run" where
  "exact_preimage E t w =
     and_then (safe_path False (target_path t) w) (\<lambda>_ w.
       let exists = (file_at (w_fs w) (target_path t) \<noteq> None); before = content_of w (target_path t) in
       if exists \<noteq> t_before_exists t \<or> e_sha E before \<noteq> t_before_digest t
       then Raised (ValueError (''exact-file target preimage drift: '' @ t_ref t)) w
       else Done before w)"

fun map_run :: "('a \<Rightarrow> world \<Rightarrow> 'b run) \<Rightarrow> 'a list \<Rightarrow> world \<Rightarrow> 'b list run" where
  "map_run f [] w = Done [] w"
| "map_run f (x # xs) w = and_then (f x w) (\<lambda>y w. and_then (map_run f xs w) (\<lambda>ys w. Done (y # ys) w))"

definition write_manifest :: "env \<Rightarrow> path \<Rightarrow> manifest \<Rightarrow> world \<Rightarrow> unit run" where
  "write_manifest E p m w = write_atomic p (e_dumps E (PDict (manifest_payload m))) w"

section \<open>Rollback\<close>

text \<open>One attempted ref: an \<open>OSError\<close> or \<open>ValueError\<close> inside the \<open>try\<close> becomes a failure line. The path check
  stands before the \<open>try\<close>.\<close>

definition restore_target :: "env \<Rightarrow> manifest \<Rightarrow> exact_file_target \<Rightarrow> world \<Rightarrow> unit run" where
  "restore_target E m t w =
     (let p = target_path t; exists = (file_at (w_fs w) p \<noteq> None); digest = e_sha E (content_of w p) in
      if \<not> plain_target (w_fs w) p then Raised (ValueError ''target became unsafe'') w
      else if exists = t_before_exists t \<and> digest = t_before_digest t then Done () w
      else if \<not> exists \<or> digest \<noteq> t_after_digest t
      then Raised (ValueError ''target bytes left exact transaction generations'') w
      else case map_of (m_before m) (t_ref t) of
        None \<Rightarrow> Raised (KeyError (t_ref t)) w
      | Some b \<Rightarrow> (case e_unb64 E (py_str b) of
          None \<Rightarrow> Raised (ValueError ''Incorrect padding'') w
        | Some before \<Rightarrow> if t_before_exists t then write_atomic p before w else unlink p w))"

fun rollback_ref :: "env \<Rightarrow> exact_file_target list \<Rightarrow> manifest \<Rightarrow> string \<Rightarrow> world \<Rightarrow> string list run" where
  "rollback_ref E targets m ref w =
     (case find (\<lambda>t. t_ref t = ref) (rev targets) of
        None \<Rightarrow> Raised (KeyError ref) w
      | Some t \<Rightarrow>
        and_then (safe_path False (rel_parts ref) w) (\<lambda>_ w.
          catching (and_then (restore_target E m t w) (\<lambda>_ w. Done [] w)) (\<lambda>e w.
            case e of
              OSError _ \<Rightarrow> Done [ref @ '': '' @ exc_message e] w
            | ValueError _ \<Rightarrow> Done [ref @ '': '' @ exc_message e] w
            | _ \<Rightarrow> Raised e w)))"

definition rollback_exact :: "env \<Rightarrow> manifest \<Rightarrow> world \<Rightarrow> string list run" where
  "rollback_exact E m w =
     (case plan_from_mapping E (m_plan m) of
        Inl e \<Rightarrow> Raised e w
      | Inr plan \<Rightarrow>
        and_then (map_run (rollback_ref E (p_targets plan) m) (rev (m_attempted m)) w)
          (\<lambda>fs w. Done (concat fs) w))"

section \<open>Apply\<close>

text \<open>The first \<open>try\<close>: a receipt here is an early return.\<close>

definition admit :: "env \<Rightarrow> exact_file_plan \<Rightarrow> exact_file_authorization \<Rightarrow> world \<Rightarrow> receipt option run" where
  "admit E plan a w =
     (case validate_exact_plan E plan of
        Inl e \<Rightarrow> Raised e w
      | Inr _ \<Rightarrow> (case validate_for E a plan of
          Inl e \<Rightarrow> Raised e w
        | Inr _ \<Rightarrow>
          and_then (exact_manifest_path False (a_id a) w) (\<lambda>p w.
            if w_fs w p \<noteq> None
            then Done (Some (blocked_exact_receipt plan a ''EXACT_FILE_AUTHORIZATION_ALREADY_CONSUMED'')) w
            else if list_ex (\<lambda>t. ''.git'' \<in> set (path_parts (t_ref t))) (p_targets plan)
            then Done (Some (blocked_exact_receipt plan a ''EXACT_FILE_GIT_NAMESPACE_FORBIDDEN'')) w
            else and_then (map_run (exact_preimage E) (p_targets plan) w) (\<lambda>_ w.
              if lock_anchor_ok w then Done None w
              else Raised (ValueError ''shared projection writer lock path is unsafe'') w))))"

text \<open>The second \<open>try\<close>, under the lock: a receipt, or the before images.\<close>

definition prepare :: "env \<Rightarrow> exact_file_plan \<Rightarrow> exact_file_authorization \<Rightarrow> world
    \<Rightarrow> (receipt + (string \<times> string) list) run" where
  "prepare E plan a w =
     and_then (exact_manifest_path False (a_id a) w) (\<lambda>p w.
       if w_fs w p \<noteq> None
       then Done (Inl (blocked_exact_receipt plan a ''EXACT_FILE_AUTHORIZATION_ALREADY_CONSUMED'')) w
       else and_then (map_run (\<lambda>t w. and_then (exact_preimage E t w) (\<lambda>c w. Done (t_ref t, c) w)) (p_targets plan) w)
         (\<lambda>images w. and_then (exact_manifest_path True (a_id a) w) (\<lambda>_ w. Done (Inr images) w)))"

definition initial_manifest :: "env \<Rightarrow> exact_file_plan \<Rightarrow> exact_file_authorization \<Rightarrow> (string \<times> string) list \<Rightarrow> manifest" where
  "initial_manifest E plan a images =
     \<lparr>m_authorization = a_id a, m_operation = p_operation plan, m_plan = plan_as_dict E plan,
      m_state = ''PREPARED'', m_created = PStr (e_stamp E), m_updated = PStr (e_stamp E),
      m_attempted = [], m_applied = [],
      m_before = sort_key fst (map (\<lambda>(r, c). (r, PStr (e_b64 E c))) images),
      m_failure = PStr [], m_recovery = []\<rparr>"

text \<open>A statement of the third \<open>try\<close>: how far the manifest got, and the exception that stopped it.\<close>

fun settle :: "manifest \<Rightarrow> 'a run \<Rightarrow> (manifest \<times> exc option) run" where
  "settle m (Done _ w) = Done (m, None) w"
| "settle m (Raised e w) = Done (m, Some e) w"
| "settle m (Crashed w) = Crashed w"

fun unless_stopped :: "(manifest \<times> exc option) run \<Rightarrow> (manifest \<Rightarrow> world \<Rightarrow> (manifest \<times> exc option) run)
    \<Rightarrow> (manifest \<times> exc option) run" where
  "unless_stopped (Done (m, None) w) f = f m w"
| "unless_stopped r f = r"

definition apply_target :: "env \<Rightarrow> path \<Rightarrow> exact_file_target \<Rightarrow> manifest \<Rightarrow> world \<Rightarrow> (manifest \<times> exc option) run" where
  "apply_target E p t m w =
     (let m1 = m\<lparr>m_attempted := m_attempted m @ [t_ref t]\<rparr>;
          m2 = m1\<lparr>m_applied := m_applied m1 @ [t_ref t]\<rparr> in
      unless_stopped (settle m (exact_preimage E t w)) (\<lambda>_ w.
      unless_stopped (settle m1 (write_manifest E p m1 w)) (\<lambda>_ w.
      unless_stopped (settle m1 (and_then (safe_path True (target_path t) w)
                                   (\<lambda>_ w. write_atomic (target_path t) (t_after t) w))) (\<lambda>_ w.
      settle m2 (write_manifest E p m2 w)))))"

fun apply_targets :: "env \<Rightarrow> path \<Rightarrow> exact_file_target list \<Rightarrow> manifest \<Rightarrow> world \<Rightarrow> (manifest \<times> exc option) run" where
  "apply_targets E p [] m w = Done (m, None) w"
| "apply_targets E p (t # ts) m w =
     unless_stopped (apply_target E p t m w) (\<lambda>m w. apply_targets E p ts m w)"

definition commit_targets :: "env \<Rightarrow> path \<Rightarrow> exact_file_plan \<Rightarrow> manifest \<Rightarrow> world \<Rightarrow> (manifest \<times> exc option) run" where
  "commit_targets E p plan m w =
     (let m1 = m\<lparr>m_state := ''APPLYING''\<rparr> in
      unless_stopped (settle m1 (write_manifest E p m1 w)) (\<lambda>_ w.
      unless_stopped (apply_targets E p (p_targets plan) m1 w) (\<lambda>m2 w.
      let m3 = m2\<lparr>m_state := ''COMMITTED''\<rparr> in settle m3 (write_manifest E p m3 w))))"

definition transaction_receipt :: "exact_file_plan \<Rightarrow> exact_file_authorization \<Rightarrow> manifest \<Rightarrow> string \<Rightarrow> bool \<Rightarrow> string list \<Rightarrow> receipt" where
  "transaction_receipt plan a m decision required reasons =
     \<lparr>r_decision = decision, r_authorization = a_id a, r_plan_digest = p_digest plan,
      r_planned = target_refs plan, r_mutations = m_applied m, r_recovery_required = required, r_reasons = reasons\<rparr>"

text \<open>The handler of the third \<open>try\<close>.\<close>

definition abort_targets :: "env \<Rightarrow> path \<Rightarrow> exact_file_plan \<Rightarrow> exact_file_authorization \<Rightarrow> manifest \<Rightarrow> exc \<Rightarrow> world \<Rightarrow> receipt run" where
  "abort_targets E p plan a m e w =
     and_then (rollback_exact E m w) (\<lambda>failures w.
       let st = (if failures \<noteq> [] then ''PARTIAL'' else ''RECOVERED'');
           m' = m\<lparr>m_state := st, m_failure := PStr (exc_message e), m_recovery := map PStr failures\<rparr> in
       and_then (write_manifest E p m' w) (\<lambda>_ w.
         Done (transaction_receipt plan a m' st (failures \<noteq> []) [''EXACT_FILE_APPLY_FAILED'']) w))"

definition locked_apply :: "env \<Rightarrow> exact_file_plan \<Rightarrow> exact_file_authorization \<Rightarrow> world \<Rightarrow> receipt run" where
  "locked_apply E plan a w =
     and_then
       (catching (prepare E plan a w) (\<lambda>e w. if is_value_error e
          then Done (Inl (blocked_exact_receipt plan a ''EXACT_FILE_FRESH_ADMISSION_FAILED'')) w else Raised e w))
       (\<lambda>r w. case r of
          Inl receipt \<Rightarrow> Done receipt w
        | Inr images \<Rightarrow>
          (let p = exact_manifest_rel (a_id a); m = initial_manifest E plan a images in
           case validate_exact_manifest E (manifest_payload m) (a_id a) of
             Inl e \<Rightarrow> Raised e w
           | Inr _ \<Rightarrow>
             and_then (write_manifest E p m w) (\<lambda>_ w.
             and_then (commit_targets E p plan m w) (\<lambda>(m, stopped) w.
               case stopped of
                 None \<Rightarrow> Done (transaction_receipt plan a m ''PASS'' False []) w
               | Some e \<Rightarrow> abort_targets E p plan a m e w))))"

definition apply_writer_id :: "env \<Rightarrow> exact_file_authorization \<Rightarrow> string" where
  "apply_writer_id E a = ''exact-file-'' @ take 24 (e_sha E (a_id a))"

definition apply_exact_file_plan :: "env \<Rightarrow> exact_file_plan \<Rightarrow> exact_file_authorization \<Rightarrow> world \<Rightarrow> receipt run" where
  "apply_exact_file_plan E plan a w =
     and_then
       (catching (admit E plan a w) (\<lambda>e w. if is_value_error e
          then Done (Some (blocked_exact_receipt plan a ''EXACT_FILE_ADMISSION_FAILED'')) w else Raised e w))
       (\<lambda>r w. case r of
          Some receipt \<Rightarrow> Done receipt w
        | None \<Rightarrow>
          (case acquire_lock (apply_writer_id E a) w of
             Done handle w \<Rightarrow>
               finally_run (locked_apply E plan a w) (release_lock handle (apply_writer_id E a))
           | Raised e w \<Rightarrow>
               if is_value_error e
               then Done (blocked_exact_receipt plan a ''EXACT_FILE_WRITER_LOCK_UNAVAILABLE'') w else Raised e w
           | Crashed w \<Rightarrow> Crashed w))"

section \<open>Recovery\<close>

record recovery_receipt =
  v_decision :: string
  v_authorization :: string
  v_plan_digest :: string
  v_recovery_required :: bool
  v_reasons :: "string list"

definition locked_recover :: "env \<Rightarrow> string \<Rightarrow> string \<Rightarrow> path \<Rightarrow> world \<Rightarrow> recovery_receipt run" where
  "locked_recover E auth operation p w =
     (case e_loads E (content_of w p) of
        None \<Rightarrow> Raised (ValueError ''Expecting value'') w
      | Some v \<Rightarrow>
        if \<not> is_dict v then Raised (ValueError ''exact-file manifest is invalid'') w
        else case validate_exact_manifest E (dict_items v) auth of
          Inl e \<Rightarrow> Raised e w
        | Inr (plan, m) \<Rightarrow>
          if operation \<noteq> [] \<and> p_operation plan \<noteq> operation
          then Raised (ValueError ''exact-file transaction operation binding mismatch'') w
          else if m_state m = ''COMMITTED''
          then Done \<lparr>v_decision = ''NO_CHANGE'', v_authorization = auth, v_plan_digest = p_digest plan,
                     v_recovery_required = False, v_reasons = []\<rparr> w
          else and_then (rollback_exact E m w) (\<lambda>failures w.
            let st = (if failures \<noteq> [] then ''PARTIAL'' else ''RECOVERED'');
                m' = m\<lparr>m_state := st, m_recovery := map PStr failures, m_updated := PStr (e_stamp E)\<rparr> in
            and_then (write_manifest E p m' w) (\<lambda>_ w.
              Done \<lparr>v_decision = st, v_authorization = auth, v_plan_digest = p_digest plan,
                    v_recovery_required = (failures \<noteq> []),
                    v_reasons = (if failures \<noteq> [] then [''EXACT_FILE_RECOVERY_FAILED''] else [])\<rparr> w)))"

definition recover_writer_id :: "env \<Rightarrow> string \<Rightarrow> string" where
  "recover_writer_id E auth = ''exact-file-recover-'' @ take 16 (e_sha E auth)"

definition recover_exact_file_transaction :: "env \<Rightarrow> string \<Rightarrow> string \<Rightarrow> world \<Rightarrow> recovery_receipt run" where
  "recover_exact_file_transaction E auth operation w =
     and_then (exact_manifest_path False auth w) (\<lambda>p w.
       if file_at (w_fs w) p = None then Raised (ValueError ''exact-file manifest is missing'') w
       else and_then (acquire_lock (recover_writer_id E auth) w) (\<lambda>handle w.
         finally_run (locked_recover E auth operation p w) (release_lock handle (recover_writer_id E auth))))"

end
