(* ===== verification/Exact_Atomicity.thy ===== *)
theory Exact_Atomicity
  imports Exact_Apply
begin

text \<open>
  Atomicity of the exact-file transaction. One invariant speaks of the target files and one of the
  manifest on disk; each operation of \<open>Exact_Apply\<close> is shown to keep them under every fault schedule, by
  weakest preconditions, and the properties read off what a finished, failed or killed run leaves behind.
\<close>

section \<open>Targets before and after\<close>

definition current :: "world \<Rightarrow> exact_file_target \<Rightarrow> string option" where
  "current w t = file_at (w_fs w) (target_path t)"

definition preimage_holds :: "env \<Rightarrow> world \<Rightarrow> exact_file_target \<Rightarrow> bool" where
  "preimage_holds E w t =
     (writable (w_fs w) (target_path t) \<and> (current w t \<noteq> None) = t_before_exists t
      \<and> e_sha E (content_of w (target_path t)) = t_before_digest t)"

text \<open>No target path is the lock anchor, equals another, or lies below one of these.\<close>

definition independent_plan :: "exact_file_plan \<Rightarrow> bool" where
  "independent_plan plan = sorted_wrt independent_paths (lock_path # map target_path (p_targets plan))"

text \<open>The digest tells the new content of a target from the old one.\<close>

definition no_collision :: "env \<Rightarrow> exact_file_plan \<Rightarrow> world \<Rightarrow> bool" where
  "no_collision E plan w =
     (\<forall>t \<in> set (p_targets plan). t_before_exists t \<and> e_sha E (t_after t) = t_before_digest t
        \<longrightarrow> current w t = Some (t_after t))"

text \<open>The static part: what validation and independence give for the paths of one transaction.\<close>

definition tx_static :: "env \<Rightarrow> exact_file_plan \<Rightarrow> path \<Rightarrow> bool" where
  "tx_static E plan p =
     ((\<forall>t \<in> set (p_targets plan). independent_paths p (target_path t) \<and> target_path t \<noteq> lock_path
         \<and> e_sha E (t_after t) = t_after_digest t
         \<and> (\<forall>u \<in> set (p_targets plan). u \<noteq> t \<longrightarrow> independent_paths (target_path t) (target_path u)
              \<and> t_ref u \<noteq> t_ref t))
      \<and> p \<noteq> lock_path \<and> distinct (target_refs plan))"

text \<open>Where the target files stand while the refs in \<open>A\<close> have been attempted, \<open>w0\<close> being the world before.\<close>

definition tx_inv :: "exact_file_plan \<Rightarrow> path \<Rightarrow> world \<Rightarrow> string set \<Rightarrow> world \<Rightarrow> bool" where
  "tx_inv plan p w0 A w =
     ((\<forall>t \<in> set (p_targets plan). writable (w_fs w) (target_path t)
         \<and> (current w t = current w0 t \<or> t_ref t \<in> A \<and> current w t = Some (t_after t)))
      \<and> writable (w_fs w) p
      \<and> (\<forall>q. q \<noteq> p \<and> q \<notin> target_path ` set (p_targets plan) \<longrightarrow> file_at (w_fs w) q = file_at (w_fs w0) q)
      \<and> w_gen w lock_path = w_gen w0 lock_path \<and> w_locked w = w_locked w0)"

definition on_disk :: "env \<Rightarrow> path \<Rightarrow> manifest \<Rightarrow> world \<Rightarrow> bool" where
  "on_disk E p m w = (file_at (w_fs w) p = Some (e_dumps E (PDict (manifest_payload m))))"

definition manifest_for :: "env \<Rightarrow> exact_file_plan \<Rightarrow> string \<Rightarrow> world \<Rightarrow> manifest \<Rightarrow> bool" where
  "manifest_for E plan auth w0 m =
     (manifest_wf E plan m \<and> manifest_sorted m \<and> m_authorization m = auth
      \<and> (\<forall>t \<in> set (p_targets plan).
           map_of (m_before m) (t_ref t) = Some (PStr (e_b64 E (content_of w0 (target_path t))))))"

definition pending :: "env \<Rightarrow> exact_file_plan \<Rightarrow> string \<Rightarrow> path \<Rightarrow> world \<Rightarrow> world \<Rightarrow> bool" where
  "pending E plan auth p w0 w =
     (\<exists>m. on_disk E p m w \<and> manifest_for E plan auth w0 m \<and> m_state m \<noteq> ''COMMITTED''
        \<and> tx_inv plan p w0 (set (m_attempted m)) w)"

definition committed :: "env \<Rightarrow> exact_file_plan \<Rightarrow> string \<Rightarrow> path \<Rightarrow> world \<Rightarrow> world \<Rightarrow> bool" where
  "committed E plan auth p w0 w =
     (\<exists>m. on_disk E p m w \<and> manifest_for E plan auth w0 m \<and> m_state m = ''COMMITTED''
        \<and> tx_inv plan p w0 (set (target_refs plan)) w
        \<and> (\<forall>t \<in> set (p_targets plan). current w t = Some (t_after t)))"

definition recoverable :: "env \<Rightarrow> exact_file_plan \<Rightarrow> string \<Rightarrow> path \<Rightarrow> world \<Rightarrow> world \<Rightarrow> bool" where
  "recoverable E plan auth p w0 w =
     (file_at (w_fs w) p = None \<and> tx_inv plan p w0 {} w
      \<or> pending E plan auth p w0 w \<or> committed E plan auth p w0 w)"

lemma tx_inv_mono: "tx_inv plan p w0 A w \<Longrightarrow> A \<subseteq> B \<Longrightarrow> tx_inv plan p w0 B w"
  unfolding tx_inv_def by blast

lemma manifest_attempted: "manifest_for E plan auth w0 m \<Longrightarrow> set (m_attempted m) \<subseteq> set (target_refs plan)"
  by (simp add: manifest_for_def manifest_wf_def)

lemma tx_inv_all: "manifest_for E plan auth w0 m \<Longrightarrow> tx_inv plan p w0 (set (m_attempted m)) w
   \<Longrightarrow> tx_inv plan p w0 (set (target_refs plan)) w"
  by (rule tx_inv_mono [OF _ manifest_attempted])

lemma recoverable_inv: "recoverable E plan auth p w0 w \<Longrightarrow> tx_inv plan p w0 (set (target_refs plan)) w"
  unfolding recoverable_def pending_def committed_def by (auto intro: tx_inv_all tx_inv_mono)

section \<open>The elementary changes\<close>

lemma changed_other: "changed p v w w' \<Longrightarrow> q \<noteq> p \<Longrightarrow> file_at (w_fs w') q = file_at (w_fs w) q"
  by (rule files.frame_step)

lemma changed_at: "changed p v w w' \<Longrightarrow> file_at (w_fs w') p = v"
  by (auto simp: changed_def)

lemma changed_refl: "changed p (file_at (w_fs w) p) w w"
  by (auto simp: changed_def)

lemma changed_writable:
  "changed p v w w' \<Longrightarrow> q = p \<or> independent_paths p q \<Longrightarrow> writable (w_fs w) q \<Longrightarrow> writable (w_fs w') q"
  by (auto simp: changed_def)

lemma independent_neq: "independent_paths p q \<Longrightarrow> p \<noteq> q"
  by (auto simp: independent_paths_def)

lemma static_target:
  assumes "tx_static E plan p" and "t \<in> set (p_targets plan)"
  shows "independent_paths p (target_path t)" and "target_path t \<noteq> p" and "target_path t \<noteq> lock_path"
    and "e_sha E (t_after t) = t_after_digest t"
    and "u \<in> set (p_targets plan) \<Longrightarrow> u \<noteq> t \<Longrightarrow> independent_paths (target_path t) (target_path u)"
    and "u \<in> set (p_targets plan) \<Longrightarrow> t_ref u = t_ref t \<Longrightarrow> u = t"
  using assms unfolding tx_static_def by (auto simp: independent_paths_def)

lemma changed_manifest:
  assumes "tx_static E plan p" and "changed p v w w'"
  shows "t \<in> set (p_targets plan) \<Longrightarrow> current w' t = current w t"
    and "tx_inv plan p w0 A w \<Longrightarrow> tx_inv plan p w0 A w'"
proof -
  have cur: "current w' t = current w t" if "t \<in> set (p_targets plan)" for t
    unfolding current_def using changed_other [OF assms(2)] static_target(2) [OF assms(1) that] by simp
  then show "t \<in> set (p_targets plan) \<Longrightarrow> current w' t = current w t" .
  assume inv: "tx_inv plan p w0 A w"
  have wr: "writable (w_fs w') (target_path t)" if "t \<in> set (p_targets plan)" for t
    by (rule changed_writable [OF assms(2)])
       (use static_target(1) [OF assms(1) that] inv that in \<open>auto simp: tx_inv_def\<close>)
  have wp': "writable (w_fs w') p"
    by (rule changed_writable [OF assms(2)]) (use inv in \<open>auto simp: tx_inv_def\<close>)
  have l: "lock_path \<noteq> p" using assms(1) by (auto simp: tx_static_def)
  show "tx_inv plan p w0 A w'"
    unfolding tx_inv_def
    using inv cur wr wp' changed_other [OF assms(2)] assms(2) l by (simp add: tx_inv_def changed_def)
qed

lemma changed_target:
  assumes "tx_static E plan p" and t: "t \<in> set (p_targets plan)" and ch: "changed (target_path t) v w w'"
  shows "u \<in> set (p_targets plan) \<Longrightarrow> u \<noteq> t \<Longrightarrow> current w' u = current w u"
    and "current w' t = v" and "file_at (w_fs w') p = file_at (w_fs w) p"
    and "tx_inv plan p w0 A w \<Longrightarrow> v = current w0 t \<or> t_ref t \<in> A \<and> v = Some (t_after t) \<Longrightarrow> tx_inv plan p w0 A w'"
proof -
  note st = static_target [OF assms(1) t]
  have cur: "current w' u = current w u" if "u \<in> set (p_targets plan)" "u \<noteq> t" for u
    unfolding current_def using changed_other [OF ch] independent_neq [OF st(5) [OF that]] by metis
  then show "u \<in> set (p_targets plan) \<Longrightarrow> u \<noteq> t \<Longrightarrow> current w' u = current w u" .
  show vt: "current w' t = v" unfolding current_def by (rule changed_at [OF ch])
  show "file_at (w_fs w') p = file_at (w_fs w) p" using changed_other [OF ch] st(2) by metis
  assume inv: "tx_inv plan p w0 A w" and v: "v = current w0 t \<or> t_ref t \<in> A \<and> v = Some (t_after t)"
  have wr: "writable (w_fs w') (target_path u)" if "u \<in> set (p_targets plan)" for u
    by (rule changed_writable [OF ch]) (use st(5) that inv in \<open>auto simp: tx_inv_def\<close>)
  have wp': "writable (w_fs w') p"
    by (rule changed_writable [OF ch]) (use inv st(1) in \<open>auto simp: tx_inv_def independent_sym\<close>)
  have cases: "current w' u = current w0 u \<or> t_ref u \<in> A \<and> current w' u = Some (t_after u)"
    if "u \<in> set (p_targets plan)" for u
    using cur [OF that] vt v inv that unfolding tx_inv_def by (cases "u = t") auto
  have fr: "file_at (w_fs w') q = file_at (w_fs w0) q" if "q \<noteq> p \<and> q \<notin> target_path ` set (p_targets plan)" for q
  proof -
    have "q \<noteq> target_path t" using that t by auto
    then show ?thesis using changed_other [OF ch] inv that by (simp add: tx_inv_def)
  qed
  show "tx_inv plan p w0 A w'"
    unfolding tx_inv_def using wr wp' cases fr inv ch st(3) by (auto simp: tx_inv_def changed_def)
qed


section \<open>Writing the manifest\<close>

lemma on_disk_content: "file_at (w_fs w') p = file_at (w_fs w) p \<Longrightarrow> on_disk E p m w' = on_disk E p m w"
  by (simp add: on_disk_def)

lemma changed_same_disk:
  assumes "tx_static E plan p" and "changed p (file_at (w_fs w) p) w w'"
  shows "pending E plan auth p w0 w \<Longrightarrow> pending E plan auth p w0 w'"
    and "recoverable E plan auth p w0 w \<Longrightarrow> recoverable E plan auth p w0 w'"
proof -
  have d: "file_at (w_fs w') p = file_at (w_fs w) p" by (rule changed_at [OF assms(2)])
  note inv = changed_manifest(2) [OF assms] and cur = changed_manifest(1) [OF assms]
  show pend: "pending E plan auth p w0 w \<Longrightarrow> pending E plan auth p w0 w'"
    unfolding pending_def using inv on_disk_content [OF d] by blast
  have "committed E plan auth p w0 w \<Longrightarrow> committed E plan auth p w0 w'"
    unfolding committed_def using inv cur on_disk_content [OF d] by metis
  then show "recoverable E plan auth p w0 w \<Longrightarrow> recoverable E plan auth p w0 w'"
    unfolding recoverable_def using pend inv d by auto
qed

text \<open>The manifest \<open>m\<close> is written while the files are as \<open>m\<close> says: afterwards \<open>m\<close> is on disk; an exception or a
  crash leaves either manifest there.\<close>

lemma write_manifest_wp:
  assumes "tx_static E plan p" and "manifest_for E plan auth w0 m" and "m_state m \<noteq> ''COMMITTED''"
    and "tx_inv plan p w0 (set (m_attempted m)) w" and "c \<Longrightarrow> clean w \<and> recoverable E plan auth p w0 w"
  shows "wp (write_manifest E p m w)
     (\<lambda>_ w'. tx_inv plan p w0 (set (m_attempted m)) w' \<and> (\<forall>t \<in> set (p_targets plan). current w' t = current w t)
        \<and> on_disk E p m w' \<and> pending E plan auth p w0 w' \<and> (quiet w \<longrightarrow> quiet w') \<and> (c \<longrightarrow> clean w'))
     (\<lambda>e w'. tx_inv plan p w0 (set (m_attempted m)) w' \<and> (\<forall>t \<in> set (p_targets plan). current w' t = current w t)
        \<and> \<not> quiet w \<and> (\<exists>x. e = OSError x)
        \<and> (c \<longrightarrow> clean w' \<and> recoverable E plan auth p w0 w'
             \<and> (pending E plan auth p w0 w \<longrightarrow> pending E plan auth p w0 w')))
     (\<lambda>w'. tx_inv plan p w0 (set (target_refs plan)) w' \<and> \<not> quiet w \<and> (c \<longrightarrow> recoverable E plan auth p w0 w'))"
proof -
  have wr: "writable (w_fs w) p" using assms(4) by (simp add: tx_inv_def)
  let ?new = "Some (e_dumps E (PDict (manifest_payload m)))"
  have pend: "on_disk E p m w' \<and> pending E plan auth p w0 w'" if "changed p ?new w w'" for w'
    using changed_at [OF that] changed_manifest(2) [OF assms(1) that assms(4)] assms(2,3)
    unfolding pending_def on_disk_def by auto
  note keep = changed_manifest(2) [OF assms(1) _ assms(4)] and cur = changed_manifest(1) [OF assms(1)]
  have crash: "tx_inv plan p w0 (set (target_refs plan)) w' \<and> (c \<longrightarrow> recoverable E plan auth p w0 w')"
    if "\<exists>v' \<in> {file_at (w_fs w) p, ?new}. changed p v' w w'" for w'
    using that pend keep changed_same_disk(2) [OF assms(1)] assms(5) tx_inv_all [OF assms(2)]
    unfolding recoverable_def by blast
  show ?thesis
    unfolding write_manifest_def
    by (rule wp_mono [OF write_atomic_outcome [OF wr, of "e_dumps E (PDict (manifest_payload m))", unfolded store_outcome_def]])
       (use pend keep cur crash changed_same_disk [OF assms(1)] assms(5) in blast)+
qed

text \<open>The write of the committed manifest: all targets are in place.\<close>

lemma write_committed_wp:
  assumes "tx_static E plan p" and "manifest_for E plan auth w0 m" and "m_state m = ''COMMITTED''"
    and "tx_inv plan p w0 (set (m_attempted m)) w" and "c \<Longrightarrow> clean w \<and> pending E plan auth p w0 w"
    and "\<forall>t \<in> set (p_targets plan). current w t = Some (t_after t)"
  shows "wp (write_manifest E p m w)
     (\<lambda>_ w'. committed E plan auth p w0 w' \<and> on_disk E p m w' \<and> (quiet w \<longrightarrow> quiet w'))
     (\<lambda>e w'. tx_inv plan p w0 (set (m_attempted m)) w' \<and> \<not> quiet w \<and> (\<exists>x. e = OSError x)
        \<and> (c \<longrightarrow> clean w' \<and> pending E plan auth p w0 w'))
     (\<lambda>w'. tx_inv plan p w0 (set (target_refs plan)) w' \<and> \<not> quiet w \<and> (c \<longrightarrow> recoverable E plan auth p w0 w'))"
proof -
  have wr: "writable (w_fs w) p" using assms(4) by (simp add: tx_inv_def)
  let ?new = "Some (e_dumps E (PDict (manifest_payload m)))"
  note keep = changed_manifest(2) [OF assms(1) _ assms(4)] and cur = changed_manifest(1) [OF assms(1)]
  have com: "on_disk E p m w' \<and> committed E plan auth p w0 w'" if "changed p ?new w w'" for w'
    using changed_at [OF that] keep [OF that] tx_inv_all [OF assms(2)] cur [OF that] assms(2,3,6)
    unfolding committed_def on_disk_def by metis
  have crash: "tx_inv plan p w0 (set (target_refs plan)) w' \<and> (c \<longrightarrow> recoverable E plan auth p w0 w')"
    if "\<exists>v' \<in> {file_at (w_fs w) p, ?new}. changed p v' w w'" for w'
    using that com keep changed_same_disk(1) [OF assms(1)] assms(5) tx_inv_all [OF assms(2)]
    unfolding recoverable_def by blast
  show ?thesis
    unfolding write_manifest_def
    by (rule wp_mono [OF write_atomic_outcome [OF wr, of "e_dumps E (PDict (manifest_payload m))", unfolded store_outcome_def]])
       (use com keep cur crash changed_same_disk(1) [OF assms(1)] assms(5) in blast)+
qed

section \<open>One target, and all of them\<close>

lemma wp_settle [wp_simps]: "wp (settle m r) Q E C = wp r (\<lambda>_ w. Q (m, None) w) (\<lambda>e w. Q (m, Some e) w) C"
  by (cases r) simp_all

lemma wp_unless_stopped [wp_simps]:
  "wp (unless_stopped r f) Q E C =
     wp r (\<lambda>(m, e) w. case e of None \<Rightarrow> wp (f m w) Q E C | Some e \<Rightarrow> Q (m, Some e) w) E C"
proof (cases r)
  case (Done x w)
  then show ?thesis by (cases x; cases "snd x") auto
qed simp_all

lemma preimage_current: "preimage_holds E w0 t \<Longrightarrow> current w t = current w0 t \<Longrightarrow> writable (w_fs w) (target_path t)
   \<Longrightarrow> preimage_holds E w t"
  by (simp add: preimage_holds_def current_def content_of_def)

lemma exact_preimage_Done:
  "preimage_holds E w t \<Longrightarrow> exact_preimage E t w = Done (content_of w (target_path t)) w"
  by (simp add: preimage_holds_def exact_preimage_def safe_path_check Let_def current_def)

lemma exact_preimage_Raised:
  "\<not> preimage_holds E w t \<Longrightarrow> \<exists>m. exact_preimage E t w = Raised (ValueError m) w"
  by (auto simp: preimage_holds_def exact_preimage_def safe_path_check Let_def current_def)

text \<open>Replacing one attempted target.\<close>

lemma replace_target_wp:
  assumes "tx_static E plan p" and t: "t \<in> set (p_targets plan)" and inv: "tx_inv plan p w0 A w" and A: "t_ref t \<in> A"
    and cur: "current w t = current w0 t \<or> current w t = Some (t_after t)"
  shows "wp (and_then (safe_path True (target_path t) w) (\<lambda>_ w. write_atomic (target_path t) (t_after t) w))
     (\<lambda>_ w'. tx_inv plan p w0 A w' \<and> current w' t = Some (t_after t)
        \<and> (\<forall>u \<in> set (p_targets plan). u \<noteq> t \<longrightarrow> current w' u = current w u)
        \<and> file_at (w_fs w') p = file_at (w_fs w) p \<and> (quiet w \<longrightarrow> quiet w') \<and> (clean w \<longrightarrow> clean w'))
     (\<lambda>e w'. tx_inv plan p w0 A w' \<and> file_at (w_fs w') p = file_at (w_fs w) p
        \<and> \<not> quiet w \<and> (\<exists>x. e = OSError x) \<and> (clean w \<longrightarrow> clean w'))
     (\<lambda>w'. tx_inv plan p w0 A w' \<and> file_at (w_fs w') p = file_at (w_fs w) p \<and> \<not> quiet w)"
proof -
  have wr: "writable (w_fs w) (target_path t)" using inv t by (simp add: tx_inv_def)
  let ?w1 = "w\<lparr>w_fs := mkdirs (target_path t) (w_fs w)\<rparr>"
  have mk: "changed (target_path t) (file_at (w_fs w) (target_path t)) w ?w1" by (rule changed_mkdirs)
  have "writable (w_fs ?w1) (target_path t)" using wr by (simp add: writable_mkdirs)
  then have "store_outcome (target_path t) (Some (t_after t)) w (write_atomic (target_path t) (t_after t) ?w1)"
    by (intro store_outcome_trans [OF mk] write_atomic_outcome) simp_all
  note out = this [unfolded store_outcome_def]
  note ch = changed_target [OF assms(1) t]
  have ok: "tx_inv plan p w0 A w' \<and> file_at (w_fs w') p = file_at (w_fs w) p"
    if "\<exists>v' \<in> {file_at (w_fs w) (target_path t), Some (t_after t)}. changed (target_path t) v' w w'" for w'
    using that ch(3,4) inv A cur unfolding current_def by blast
  show ?thesis
    unfolding wp_and_then safe_path_create [OF wr] wp.simps
    by (rule wp_mono [OF out]) (use ok ch in blast)+
qed


definition progress :: "env \<Rightarrow> exact_file_plan \<Rightarrow> string \<Rightarrow> path \<Rightarrow> world \<Rightarrow> manifest \<Rightarrow> world \<Rightarrow> bool" where
  "progress E plan auth p w0 m w =
     (tx_inv plan p w0 (set (m_attempted m)) w \<and> manifest_for E plan auth w0 m
      \<and> (clean w0 \<longrightarrow> clean w \<and> pending E plan auth p w0 w))"

definition applied_upto :: "env \<Rightarrow> exact_file_plan \<Rightarrow> string \<Rightarrow> path \<Rightarrow> world \<Rightarrow> exact_file_target list \<Rightarrow> manifest \<Rightarrow> world \<Rightarrow> bool" where
  "applied_upto E plan auth p w0 pre m w =
     (progress E plan auth p w0 m w \<and> m_state m = ''APPLYING''
      \<and> m_attempted m = map t_ref pre \<and> m_applied m = map t_ref pre
      \<and> (\<forall>t \<in> set pre. current w t = Some (t_after t)))"

lemma manifest_for_attempt:
  assumes "manifest_for E plan auth w0 m" and "tx_static E plan p" and "p_targets plan = pre @ t # ts"
    and "m_attempted m = map t_ref pre" and "m_applied m = map t_ref pre"
  defines "m1 \<equiv> m\<lparr>m_attempted := m_attempted m @ [t_ref t]\<rparr>"
  shows "manifest_for E plan auth w0 m1"
    and "manifest_for E plan auth w0 (m1\<lparr>m_applied := m_applied m1 @ [t_ref t]\<rparr>)"
proof -
  have "distinct (map t_ref (pre @ t # ts))"
    using assms(2,3) by (simp add: tx_static_def target_refs_def)
  then have d: "distinct (map t_ref pre @ [t_ref t])" by auto
  have "set (map t_ref pre @ [t_ref t]) \<subseteq> set (target_refs plan)" using assms(3) by (auto simp: target_refs_def)
  with d show "manifest_for E plan auth w0 m1" "manifest_for E plan auth w0 (m1\<lparr>m_applied := m_applied m1 @ [t_ref t]\<rparr>)"
    using assms(1,4,5) by (auto simp: m1_def manifest_for_def manifest_wf_def manifest_sorted_def)
qed

lemma apply_target_wp:
  assumes st: "tx_static E plan p" and ts: "p_targets plan = pre @ t # ts"
    and ok: "applied_upto E plan auth p w0 pre m w" and pre: "preimage_holds E w0 t"
  shows "wp (apply_target E p t m w)
     (\<lambda>(m', e) w'. progress E plan auth p w0 m' w' 
        \<and> (e = None \<longrightarrow> applied_upto E plan auth p w0 (pre @ [t]) m' w' \<and> (quiet w \<longrightarrow> quiet w'))
        \<and> (e \<noteq> None \<longrightarrow> \<not> quiet w))
     (\<lambda>_ _. False)
     (\<lambda>w'. tx_inv plan p w0 (set (target_refs plan)) w' \<and> \<not> quiet w \<and> (clean w0 \<longrightarrow> recoverable E plan auth p w0 w'))"
proof -
  define m1 where "m1 = m\<lparr>m_attempted := m_attempted m @ [t_ref t]\<rparr>"
  define m2 where "m2 = m1\<lparr>m_applied := m_applied m1 @ [t_ref t]\<rparr>"
  have t: "t \<in> set (p_targets plan)" using ts by simp
  have inv: "tx_inv plan p w0 (set (m_attempted m)) w" and mf: "manifest_for E plan auth w0 m"
    and pend: "clean w0 \<longrightarrow> clean w \<and> pending E plan auth p w0 w" and state: "m_state m = ''APPLYING''"
    and att: "m_attempted m = map t_ref pre" and app: "m_applied m = map t_ref pre"
    and done_pre: "\<forall>t \<in> set pre. current w t = Some (t_after t)"
    using ok by (auto simp: applied_upto_def progress_def)
  have "distinct (map t_ref (pre @ t # ts))" using st ts by (simp add: tx_static_def target_refs_def)
  then have not_att: "t_ref t \<notin> set (m_attempted m)" and pre_ne: "t \<notin> set pre" unfolding att by auto
  have cur: "current w t = current w0 t" using inv t not_att unfolding tx_inv_def by blast
  have wr: "writable (w_fs w) (target_path t)" using inv t by (simp add: tx_inv_def)
  have image: "exact_preimage E t w = Done (content_of w (target_path t)) w"
    by (rule exact_preimage_Done [OF preimage_current [OF pre cur wr]])
  have mf1: "manifest_for E plan auth w0 m1" and mf2: "manifest_for E plan auth w0 m2"
    unfolding m2_def m1_def by (rule manifest_for_attempt [OF mf st ts att app])+
  have a1: "set (m_attempted m1) = insert (t_ref t) (set (m_attempted m))" and a2: "m_attempted m2 = m_attempted m1"
    and s1: "m_state m1 \<noteq> ''COMMITTED''" and s2: "m_state m2 \<noteq> ''COMMITTED''"
    using state by (simp_all add: m1_def m2_def)
  have inv1: "tx_inv plan p w0 (set (m_attempted m1)) w" by (rule tx_inv_mono [OF inv]) (simp add: a1 subset_insertI)
  have pend_rec: "pending E plan auth p w0 w \<Longrightarrow> recoverable E plan auth p w0 w" for w
    by (simp add: recoverable_def)
  have upto: "applied_upto E plan auth p w0 (pre @ [t]) m2 w'"
    if "tx_inv plan p w0 (set (m_attempted m2)) w'" "pending E plan auth p w0 w'" "clean w0 \<longrightarrow> clean w'"
      "\<forall>u \<in> set pre. current w' u = Some (t_after u)" "current w' t = Some (t_after t)" for w'
    using that mf2 state att app by (simp add: applied_upto_def progress_def m2_def m1_def)
  have second: "wp (and_then (safe_path True (target_path t) wa) (\<lambda>_ w. write_atomic (target_path t) (t_after t) w))
      (\<lambda>_ wb. wp (write_manifest E p m2 wb)
        (\<lambda>_ w'. progress E plan auth p w0 m2 w' 
           \<and> applied_upto E plan auth p w0 (pre @ [t]) m2 w' \<and> (quiet w \<longrightarrow> quiet w'))
        (\<lambda>e w'. progress E plan auth p w0 m2 w'  \<and> \<not> quiet w)
        (\<lambda>w'. tx_inv plan p w0 (set (target_refs plan)) w' \<and> \<not> quiet w \<and> (clean w0 \<longrightarrow> recoverable E plan auth p w0 w')))
      (\<lambda>e w'. progress E plan auth p w0 m1 w'  \<and> \<not> quiet w)
      (\<lambda>w'. tx_inv plan p w0 (set (target_refs plan)) w' \<and> \<not> quiet w \<and> (clean w0 \<longrightarrow> recoverable E plan auth p w0 w'))"
    if wa: "tx_inv plan p w0 (set (m_attempted m1)) wa" "\<forall>u \<in> set (p_targets plan). current wa u = current w u"
      "on_disk E p m1 wa" "quiet w \<longrightarrow> quiet wa" "clean w0 \<longrightarrow> clean wa" for wa
  proof (rule wp_mono [OF replace_target_wp [OF st t wa(1)]])
    show "t_ref t \<in> set (m_attempted m1)" by (simp add: a1)
    show "current wa t = current w0 t \<or> current wa t = Some (t_after t)" using wa(2) t cur by simp
  next
    fix x wb
    assume b: "tx_inv plan p w0 (set (m_attempted m1)) wb \<and> current wb t = Some (t_after t)
        \<and> (\<forall>u \<in> set (p_targets plan). u \<noteq> t \<longrightarrow> current wb u = current wa u)
        \<and> file_at (w_fs wb) p = file_at (w_fs wa) p \<and> (quiet wa \<longrightarrow> quiet wb) \<and> (clean wa \<longrightarrow> clean wb)"
    then have disk: "on_disk E p m1 wb" using wa(3) on_disk_content by blast
    have pb: "pending E plan auth p w0 wb" unfolding pending_def using disk mf1 s1 b by blast
    have pre_b: "\<forall>u \<in> set pre. current wb u = Some (t_after u)"
      using b wa(2) done_pre pre_ne ts by (metis Un_iff set_append)
    show "wp (write_manifest E p m2 wb)
        (\<lambda>_ w'. progress E plan auth p w0 m2 w' 
           \<and> applied_upto E plan auth p w0 (pre @ [t]) m2 w' \<and> (quiet w \<longrightarrow> quiet w'))
        (\<lambda>e w'. progress E plan auth p w0 m2 w'  \<and> \<not> quiet w)
        (\<lambda>w'. tx_inv plan p w0 (set (target_refs plan)) w' \<and> \<not> quiet w \<and> (clean w0 \<longrightarrow> recoverable E plan auth p w0 w'))"
    proof (rule wp_mono [OF write_manifest_wp [OF st mf2 s2]])
      show "tx_inv plan p w0 (set (m_attempted m2)) wb" using b by (simp add: a2)
      show "clean w0 \<Longrightarrow> clean wb \<and> recoverable E plan auth p w0 wb" using pend_rec [OF pb] b wa(5) by blast
    next
      fix x w' assume c: "tx_inv plan p w0 (set (m_attempted m2)) w' \<and> (\<forall>t \<in> set (p_targets plan). current w' t = current wb t)
        \<and> on_disk E p m2 w' \<and> pending E plan auth p w0 w' \<and> (quiet wb \<longrightarrow> quiet w') \<and> (clean w0 \<longrightarrow> clean w')"
      have "\<forall>u \<in> set pre. current w' u = Some (t_after u)" and "current w' t = Some (t_after t)"
        using c pre_b b t ts by auto
      then have "applied_upto E plan auth p w0 (pre @ [t]) m2 w'" using c b wa(5) upto by blast
      then show "progress E plan auth p w0 m2 w' 
           \<and> applied_upto E plan auth p w0 (pre @ [t]) m2 w' \<and> (quiet w \<longrightarrow> quiet w')"
        using c b wa by (simp add: applied_upto_def)
    qed (use b wa pb mf2 in \<open>auto simp: progress_def\<close>)
  next
    fix e w' assume b: "tx_inv plan p w0 (set (m_attempted m1)) w' \<and> file_at (w_fs w') p = file_at (w_fs wa) p
        \<and> \<not> quiet wa \<and> (\<exists>x. e = OSError x) \<and> (clean wa \<longrightarrow> clean w')"
    then have "on_disk E p m1 w'" using wa(3) on_disk_content by blast
    then have "pending E plan auth p w0 w'" unfolding pending_def using mf1 s1 b by blast
    then show "progress E plan auth p w0 m1 w'  \<and> \<not> quiet w"
      using b wa mf1 by (auto simp: progress_def)
  next
    fix w' assume b: "tx_inv plan p w0 (set (m_attempted m1)) w' \<and> file_at (w_fs w') p = file_at (w_fs wa) p \<and> \<not> quiet wa"
    then have "on_disk E p m1 w'" using wa(3) on_disk_content by blast
    then have "pending E plan auth p w0 w'" unfolding pending_def using mf1 s1 b by blast
    then show "tx_inv plan p w0 (set (target_refs plan)) w' \<and> \<not> quiet w \<and> (clean w0 \<longrightarrow> recoverable E plan auth p w0 w')"
      using b wa pend_rec tx_inv_all [OF mf1] by blast
  qed
  have first: "wp (write_manifest E p m1 w)
      (\<lambda>_ wa. tx_inv plan p w0 (set (m_attempted m1)) wa \<and> (\<forall>u \<in> set (p_targets plan). current wa u = current w u)
         \<and> on_disk E p m1 wa \<and> (quiet w \<longrightarrow> quiet wa) \<and> (clean w0 \<longrightarrow> clean wa))
      (\<lambda>e w'. progress E plan auth p w0 m1 w'  \<and> \<not> quiet w)
      (\<lambda>w'. tx_inv plan p w0 (set (target_refs plan)) w' \<and> \<not> quiet w \<and> (clean w0 \<longrightarrow> recoverable E plan auth p w0 w'))"
  proof (rule wp_mono [OF write_manifest_wp [OF st mf1 s1 inv1]])
    show "clean w0 \<Longrightarrow> clean w \<and> recoverable E plan auth p w0 w" using pend pend_rec by blast
  qed (use pend mf1 in \<open>auto simp: progress_def\<close>)
  show ?thesis
    unfolding apply_target_def Let_def m1_def [symmetric] m2_def [symmetric] wp_simps image wp.simps prod.case option.case
  proof (rule wp_mono [OF first], goal_cases)
    case (1 x wa)
    then show ?case by (auto simp: second [unfolded wp_and_then] elim!: wp_mono [OF second [unfolded wp_and_then]])
  qed auto
qed


text \<open>The crash clause shared by the remaining lemmas.\<close>

abbreviation crash_ok :: "env \<Rightarrow> exact_file_plan \<Rightarrow> string \<Rightarrow> path \<Rightarrow> world \<Rightarrow> world \<Rightarrow> world \<Rightarrow> bool" where
  "crash_ok E plan auth p w0 w w' \<equiv>
     tx_inv plan p w0 (set (target_refs plan)) w' \<and> \<not> quiet w \<and> (clean w0 \<longrightarrow> recoverable E plan auth p w0 w')"

lemma apply_targets_wp:
  assumes st: "tx_static E plan p"
  shows "p_targets plan = pre @ ts \<Longrightarrow> applied_upto E plan auth p w0 pre m w \<Longrightarrow> \<forall>t \<in> set ts. preimage_holds E w0 t
    \<Longrightarrow> wp (apply_targets E p ts m w)
     (\<lambda>(m', e) w'. progress E plan auth p w0 m' w'
        \<and> (e = None \<longrightarrow> applied_upto E plan auth p w0 (p_targets plan) m' w' \<and> (quiet w \<longrightarrow> quiet w'))
        \<and> (e \<noteq> None \<longrightarrow> \<not> quiet w))
     (\<lambda>_ _. False) (crash_ok E plan auth p w0 w)"
proof (induction ts arbitrary: pre m w)
  case Nil
  then show ?case by (simp add: applied_upto_def)
next
  case (Cons t ts)
  have first: "wp (apply_target E p t m w)
     (\<lambda>(m', e) w'. progress E plan auth p w0 m' w'
        \<and> (e = None \<longrightarrow> applied_upto E plan auth p w0 (pre @ [t]) m' w' \<and> (quiet w \<longrightarrow> quiet w'))
        \<and> (e \<noteq> None \<longrightarrow> \<not> quiet w))
     (\<lambda>_ _. False) (crash_ok E plan auth p w0 w)"
    by (rule wp_mono [OF apply_target_wp [OF st Cons.prems(1,2)]]) (use Cons.prems(3) in auto)
  have ts: "p_targets plan = (pre @ [t]) @ ts" using Cons.prems(1) by simp
  have rest: "\<forall>t \<in> set ts. preimage_holds E w0 t" using Cons.prems(3) by simp
  show ?case
    unfolding apply_targets.simps wp_unless_stopped
  proof (rule wp_mono [OF first], goal_cases)
    case (1 x wa)
    obtain m' e where x: "x = (m', e)" by (cases x)
    show ?case
    proof (cases e)
      case None
      then have up: "applied_upto E plan auth p w0 (pre @ [t]) m' wa" and q: "quiet w \<longrightarrow> quiet wa" using 1 x by auto
      show ?thesis
        unfolding x None prod.case option.case by (rule wp_mono [OF Cons.IH [OF ts up rest]]) (use q in auto)
    next
      case (Some ex)
      then show ?thesis using 1 x by simp
    qed
  qed auto
qed

lemma manifest_for_state:
  "manifest_for E plan auth w0 m \<Longrightarrow> st \<in> set manifest_states \<Longrightarrow> manifest_for E plan auth w0 (m\<lparr>m_state := st\<rparr>)"
  by (auto simp: manifest_for_def manifest_wf_def manifest_sorted_def)

lemma state_names: "''APPLYING'' \<in> set manifest_states" "''COMMITTED'' \<in> set manifest_states"
  "''PARTIAL'' \<in> set manifest_states" "''RECOVERED'' \<in> set manifest_states" "''PREPARED'' \<in> set manifest_states"
  by (simp_all add: manifest_states_def)

lemma commit_targets_wp:
  assumes st: "tx_static E plan p" and mf: "manifest_for E plan auth w0 m"
    and m: "m_attempted m = []" "m_applied m = []"
    and inv: "tx_inv plan p w0 {} w" and pend: "clean w0 \<Longrightarrow> clean w \<and> pending E plan auth p w0 w"
    and pre: "\<forall>t \<in> set (p_targets plan). preimage_holds E w0 t"
  shows "wp (commit_targets E p plan m w)
     (\<lambda>(m', e) w'. (e = None \<longrightarrow> committed E plan auth p w0 w' \<and> m_applied m' = target_refs plan \<and> (quiet w \<longrightarrow> quiet w'))
        \<and> (e \<noteq> None \<longrightarrow> progress E plan auth p w0 m' w' \<and> \<not> quiet w))
     (\<lambda>_ _. False) (crash_ok E plan auth p w0 w)"
proof -
  define m1 where "m1 = m\<lparr>m_state := ''APPLYING''\<rparr>"
  have mf1: "manifest_for E plan auth w0 m1" unfolding m1_def by (rule manifest_for_state [OF mf state_names(1)])
  have s1: "m_state m1 = ''APPLYING''" and ne1: "m_state m1 \<noteq> ''COMMITTED''" and a1: "m_attempted m1 = []" "m_applied m1 = []"
    using m by (simp_all add: m1_def)
  have inv1: "tx_inv plan p w0 (set (m_attempted m1)) w" using inv a1 by simp
  have prog: "tx_inv plan p w0 (set (m_attempted m1)) w' \<Longrightarrow> clean w0 \<longrightarrow> clean w' \<and> pending E plan auth p w0 w'
      \<Longrightarrow> progress E plan auth p w0 m1 w'" for w'
    using mf1 by (simp add: progress_def)
  have first: "wp (write_manifest E p m1 w)
     (\<lambda>_ w'. applied_upto E plan auth p w0 [] m1 w' \<and> (quiet w \<longrightarrow> quiet w'))
     (\<lambda>e w'. progress E plan auth p w0 m1 w' \<and> \<not> quiet w) (crash_ok E plan auth p w0 w)"
  proof (rule wp_mono [OF write_manifest_wp [OF st mf1 ne1 inv1]])
    show "clean w0 \<Longrightarrow> clean w \<and> recoverable E plan auth p w0 w" using pend by (simp add: recoverable_def)
  qed (use prog s1 a1 pend in \<open>auto simp: applied_upto_def\<close>)
  have last: "wp (write_manifest E p (m2\<lparr>m_state := ''COMMITTED''\<rparr>) wb)
     (\<lambda>_ w'. committed E plan auth p w0 w' \<and> m_applied m2 = target_refs plan \<and> (quiet w \<longrightarrow> quiet w'))
     (\<lambda>e w'. progress E plan auth p w0 (m2\<lparr>m_state := ''COMMITTED''\<rparr>) w' \<and> \<not> quiet w) (crash_ok E plan auth p w0 w)"
    if up: "applied_upto E plan auth p w0 (p_targets plan) m2 wb" and q: "quiet w \<longrightarrow> quiet wb" for m2 wb
  proof -
    from up have mf2: "manifest_for E plan auth w0 (m2\<lparr>m_state := ''COMMITTED''\<rparr>)"
      by (auto simp: applied_upto_def progress_def intro: manifest_for_state state_names)
    show ?thesis
    proof (rule wp_mono [OF write_committed_wp [OF st mf2]])
      show "clean w0 \<Longrightarrow> clean wb \<and> pending E plan auth p w0 wb"
        using up by (simp add: applied_upto_def progress_def)
    qed (use up q mf2 in \<open>auto simp: applied_upto_def progress_def target_refs_def\<close>)
  qed
  have middle: "wp (apply_targets E p (p_targets plan) m1 wa)
     (\<lambda>(m', e) w'. progress E plan auth p w0 m' w'
        \<and> (e = None \<longrightarrow> applied_upto E plan auth p w0 (p_targets plan) m' w' \<and> (quiet wa \<longrightarrow> quiet w'))
        \<and> (e \<noteq> None \<longrightarrow> \<not> quiet wa)) (\<lambda>_ _. False) (crash_ok E plan auth p w0 wa)"
    if "applied_upto E plan auth p w0 [] m1 wa" for wa
    by (rule apply_targets_wp [OF st _ that pre]) simp
  show ?thesis
    unfolding commit_targets_def Let_def m1_def [symmetric] wp_simps
  proof (rule wp_mono [OF first], goal_cases)
    case (1 x wa)
    then have up: "applied_upto E plan auth p w0 [] m1 wa" and q: "quiet w \<longrightarrow> quiet wa" by auto
    show ?case
      unfolding prod.case option.case
    proof (rule wp_mono [OF middle [OF up]], goal_cases)
      case (1 y wb)
      obtain m2 e where y: "y = (m2, e)" by (cases y)
      show ?case
      proof (cases e)
        case None
        then have up2: "applied_upto E plan auth p w0 (p_targets plan) m2 wb" and q2: "quiet w \<longrightarrow> quiet wb"
          using 1 y q by auto
        show ?thesis unfolding y None prod.case option.case by (rule wp_mono [OF last [OF up2 q2]]) auto
      next
        case (Some ex)
        then show ?thesis using 1 y q by auto
      qed
    qed (use q in auto)
  qed auto
qed


section \<open>Rolling back\<close>

text \<open>Steps back: only targets change, and only to what they were before.\<close>

definition backward :: "exact_file_plan \<Rightarrow> path \<Rightarrow> world \<Rightarrow> world \<Rightarrow> world \<Rightarrow> bool" where
  "backward plan p w0 w w' =
     ((\<forall>A. tx_inv plan p w0 A w \<longrightarrow> tx_inv plan p w0 A w')
      \<and> file_at (w_fs w') p = file_at (w_fs w) p
      \<and> (\<forall>u \<in> set (p_targets plan). current w u = current w0 u \<longrightarrow> current w' u = current w0 u))"

lemma backward_refl: "backward plan p w0 w w"
  by (simp add: backward_def)

lemma backward_trans: "backward plan p w0 a b \<Longrightarrow> backward plan p w0 b c \<Longrightarrow> backward plan p w0 a c"
  unfolding backward_def by metis

lemma backward_pending: "backward plan p w0 w w' \<Longrightarrow> pending E plan auth p w0 w \<Longrightarrow> pending E plan auth p w0 w'"
  unfolding backward_def pending_def on_disk_def by metis

lemma changed_backward:
  assumes "tx_static E plan p" and t: "t \<in> set (p_targets plan)"
    and "changed (target_path t) (current w0 t) w w' \<or> changed (target_path t) (current w t) w w'"
    and "tx_inv plan p w0 A w"
  shows "backward plan p w0 w w'"
proof -
  note ch = changed_target [OF assms(1) t]
  have cur: "current w t = current w0 t \<or> current w t = Some (t_after t)"
    using assms(4) t by (auto simp: tx_inv_def)
  have inv: "tx_inv plan p w0 B w'" if "tx_inv plan p w0 B w" for B
  proof -
    have b: "current w t = current w0 t \<or> t_ref t \<in> B \<and> current w t = Some (t_after t)"
      using that t by (auto simp: tx_inv_def)
    from assms(3) show ?thesis
    proof
      assume "changed (target_path t) (current w0 t) w w'"
      then show ?thesis by (rule ch(4)) (simp_all add: that)
    next
      assume "changed (target_path t) (current w t) w w'"
      then show ?thesis by (rule ch(4) [OF _ that b])
    qed
  qed
  have "file_at (w_fs w') p = file_at (w_fs w) p" using assms(3) ch(3) by blast
  moreover have "current w' u = current w0 u" if "u \<in> set (p_targets plan)" "current w u = current w0 u" for u
    using assms(3) ch(1,2) that by metis
  ultimately show ?thesis using inv by (simp add: backward_def)
qed

lemma restore_target_wp:
  assumes ok: "env_ok E" and st: "tx_static E plan p" and t: "t \<in> set (p_targets plan)"
    and mf: "manifest_for E plan auth w0 m" and inv: "tx_inv plan p w0 A w"
    and pre: "preimage_holds E w0 t" and nc: "no_collision E plan w0"
  shows "wp (restore_target E m t w)
     (\<lambda>_ w'. backward plan p w0 w w' \<and> current w' t = current w0 t \<and> (quiet w \<longrightarrow> quiet w') \<and> (clean w \<longrightarrow> clean w'))
     (\<lambda>e w'. backward plan p w0 w w' \<and> \<not> quiet w \<and> (\<exists>x. e = OSError x) \<and> (clean w \<longrightarrow> clean w'))
     (\<lambda>w'. backward plan p w0 w w' \<and> \<not> quiet w)"
proof -
  have wr: "writable (w_fs w) (target_path t)" using inv t by (simp add: tx_inv_def)
  then have plain: "plain_target (w_fs w) (target_path t)" by (simp add: writable_def)
  have img: "map_of (m_before m) (t_ref t) = Some (PStr (e_b64 E (content_of w0 (target_path t))))"
    using mf t by (simp add: manifest_for_def)
  have un: "e_unb64 E (e_b64 E x) = Some x" for x using ok by (simp add: env_ok_def)
  have ex0: "(current w0 t \<noteq> None) = t_before_exists t" and dg0: "e_sha E (content_of w0 (target_path t)) = t_before_digest t"
    using pre by (simp_all add: preimage_holds_def)
  show ?thesis
  proof (cases "current w t = current w0 t")
    case True
    then have "restore_target E m t w = Done () w"
      using plain ex0 dg0 by (simp add: restore_target_def Let_def current_def content_of_def)
    then show ?thesis using True by (simp add: backward_refl)
  next
    case False
    then have cur: "current w t = Some (t_after t)" using inv t by (auto simp: tx_inv_def)
    then have content: "content_of w (target_path t) = t_after t" by (simp add: content_of_def current_def)
    have dig: "e_sha E (t_after t) = t_after_digest t" by (rule static_target(4) [OF st t])
    have ne: "\<not> (t_before_exists t \<and> e_sha E (t_after t) = t_before_digest t)"
      using nc t False cur by (auto simp: no_collision_def)
    have at: "file_at (w_fs w) (target_path t) = Some (t_after t)" using cur by (simp add: current_def)
    have eq: "restore_target E m t w =
        (if t_before_exists t then write_atomic (target_path t) (content_of w0 (target_path t)) w else unlink (target_path t) w)"
      using plain ne dig img un at content by (auto simp: restore_target_def Let_def py_str_def)
    have out: "store_outcome (target_path t) (current w0 t) w (restore_target E m t w)"
    proof (cases "t_before_exists t")
      case True
      then have "current w0 t = Some (content_of w0 (target_path t))"
        using ex0 by (auto simp: content_of_def current_def)
      then show ?thesis using write_atomic_outcome [OF wr] True by (simp add: eq)
    next
      case b: False
      then have "current w0 t = None" using ex0 by simp
      then show ?thesis using unlink_outcome b by (simp add: eq)
    qed
    have bw: "backward plan p w0 w w'" if "\<exists>v' \<in> {file_at (w_fs w) (target_path t), current w0 t}. changed (target_path t) v' w w'" for w'
      by (rule changed_backward [OF st t _ inv]) (use that in \<open>auto simp: current_def\<close>)
    show ?thesis
      by (rule wp_mono [OF out [unfolded store_outcome_def]])
         (use bw changed_target(2) [OF st t] in blast)+
  qed
qed

lemma find_target:
  assumes "distinct (target_refs plan)" and "t \<in> set (p_targets plan)"
  shows "find (\<lambda>u. t_ref u = t_ref t) (rev (p_targets plan)) = Some t"
proof -
  have "find (\<lambda>u. t_ref u = t_ref t) (rev (p_targets plan)) \<noteq> None"
    unfolding find_None_iff using assms(2) by auto
  then obtain u where u: "find (\<lambda>u. t_ref u = t_ref t) (rev (p_targets plan)) = Some u" by blast
  then obtain i where "i < length (rev (p_targets plan))" and "t_ref u = t_ref t" and i: "u = rev (p_targets plan) ! i"
    unfolding find_Some_iff by blast
  then have "u \<in> set (rev (p_targets plan))" and "t_ref u = t_ref t" by (simp_all only: nth_mem)
  then have "u \<in> set (p_targets plan)" and "t_ref u = t_ref t" by simp_all
  moreover have "inj_on t_ref (set (p_targets plan))" using assms(1) by (simp add: target_refs_def distinct_map)
  ultimately have "u = t" using assms(2) by (auto dest: inj_onD)
  with u show ?thesis by simp
qed

lemma rollback_ref_wp:
  assumes ok: "env_ok E" and st: "tx_static E plan p" and t: "t \<in> set (p_targets plan)"
    and mf: "manifest_for E plan auth w0 m" and inv: "tx_inv plan p w0 A w"
    and pre: "preimage_holds E w0 t" and nc: "no_collision E plan w0"
  shows "wp (rollback_ref E (p_targets plan) m (t_ref t) w)
     (\<lambda>fs w'. backward plan p w0 w w' \<and> (fs = [] \<longrightarrow> current w' t = current w0 t)
        \<and> (quiet w \<longrightarrow> quiet w' \<and> fs = []) \<and> (clean w \<longrightarrow> clean w'))
     (\<lambda>e w'. False)
     (\<lambda>w'. backward plan p w0 w w' \<and> \<not> quiet w)"
proof -
  have f: "find (\<lambda>u. t_ref u = t_ref t) (rev (p_targets plan)) = Some t"
    using st by (intro find_target [OF _ t]) (simp add: tx_static_def)
  have wr: "writable (w_fs w) (rel_parts (t_ref t))" using inv t by (simp add: tx_inv_def target_path_def)
  show ?thesis
    by (simp add: f safe_path_check wr wp_simps)
       (rule wp_mono [OF restore_target_wp [OF ok st t mf inv pre nc]], auto)
qed

lemma rollback_refs_wp:
  assumes ok: "env_ok E" and st: "tx_static E plan p" and mf: "manifest_for E plan auth w0 m"
    and pre: "\<forall>t \<in> set (p_targets plan). preimage_holds E w0 t" and nc: "no_collision E plan w0"
  shows "tx_inv plan p w0 A w \<Longrightarrow> set refs \<subseteq> set (target_refs plan)
    \<Longrightarrow> wp (map_run (rollback_ref E (p_targets plan) m) refs w)
     (\<lambda>fss w'. backward plan p w0 w w'
        \<and> (concat fss = [] \<longrightarrow> (\<forall>t \<in> set (p_targets plan). t_ref t \<in> set refs \<longrightarrow> current w' t = current w0 t))
        \<and> (quiet w \<longrightarrow> quiet w' \<and> concat fss = []) \<and> (clean w \<longrightarrow> clean w'))
     (\<lambda>e w'. False)
     (\<lambda>w'. backward plan p w0 w w' \<and> \<not> quiet w)"
proof (induction refs arbitrary: w)
  case Nil
  then show ?case by (simp add: backward_refl)
next
  case (Cons r rs)
  then obtain t where t: "t \<in> set (p_targets plan)" and r: "r = t_ref t" by (auto simp: target_refs_def)
  have uniq: "u = t" if "u \<in> set (p_targets plan)" "t_ref u = t_ref t" for u
    using static_target(6) [OF st t] that by blast
  have one: "wp (rollback_ref E (p_targets plan) m r w)
     (\<lambda>fs w'. backward plan p w0 w w' \<and> (fs = [] \<longrightarrow> current w' t = current w0 t)
        \<and> (quiet w \<longrightarrow> quiet w' \<and> fs = []) \<and> (clean w \<longrightarrow> clean w'))
     (\<lambda>e w'. False) (\<lambda>w'. backward plan p w0 w w' \<and> \<not> quiet w)"
    unfolding r using rollback_ref_wp [OF ok st t mf Cons.prems(1)] pre t nc by blast
  have sub: "set rs \<subseteq> set (target_refs plan)" using Cons.prems(2) by simp
  show ?case
    unfolding map_run.simps wp_and_then wp.simps
  proof (rule wp_mono [OF one], goal_cases)
    case (1 fs wa)
    then have "tx_inv plan p w0 A wa" using Cons.prems(1) by (simp add: backward_def)
    note rest = Cons.IH [OF this sub]
    show ?case
    proof (rule wp_mono [OF rest], goal_cases)
      case (1 fss wb)
      note a = \<open>backward plan p w0 w wa \<and> (fs = [] \<longrightarrow> current wa t = current w0 t)
        \<and> (quiet w \<longrightarrow> quiet wa \<and> fs = []) \<and> (clean w \<longrightarrow> clean wa)\<close>
      have "current wb t = current w0 t" if "fs = []"
        using a 1 that t by (simp add: backward_def)
      then show ?case
        using a 1 uniq backward_trans [of plan p w0 w wa wb] by (auto simp: r)
    qed (use 1 backward_trans in blast)+
  qed auto
qed


lemma rollback_exact_wp:
  assumes ok: "env_ok E" and st: "tx_static E plan p" and mf: "manifest_for E plan auth w0 m"
    and pre: "\<forall>t \<in> set (p_targets plan). preimage_holds E w0 t" and nc: "no_collision E plan w0"
    and inv: "tx_inv plan p w0 (set (m_attempted m)) w"
  shows "wp (rollback_exact E m w)
     (\<lambda>fs w'. backward plan p w0 w w'
        \<and> (fs = [] \<longrightarrow> (\<forall>t \<in> set (p_targets plan). current w' t = current w0 t))
        \<and> (quiet w \<longrightarrow> quiet w' \<and> fs = []) \<and> (clean w \<longrightarrow> clean w'))
     (\<lambda>e w'. False)
     (\<lambda>w'. backward plan p w0 w w' \<and> \<not> quiet w)"
proof -
  have "plan_from_mapping E (m_plan m) = Inr plan"
    using plan_roundtrip [OF ok] mf by (simp add: manifest_for_def manifest_wf_def)
  moreover have "set (rev (m_attempted m)) \<subseteq> set (target_refs plan)" using manifest_attempted [OF mf] by simp
  note loop = rollback_refs_wp [OF ok st mf pre nc inv this]
  have rest: "current w' t = current w0 t"
    if "backward plan p w0 w w'" "t \<in> set (p_targets plan)" "t_ref t \<notin> set (m_attempted m)" for w' t
    using that inv unfolding backward_def tx_inv_def by blast
  ultimately show ?thesis
    by (simp add: rollback_exact_def wp_and_then)
       (rule wp_mono [OF loop], use rest in \<open>auto\<close>)
qed

definition applies_back :: "env \<Rightarrow> exact_file_plan \<Rightarrow> string \<Rightarrow> path \<Rightarrow> world \<Rightarrow> world \<Rightarrow> bool" where
  "applies_back E plan auth p w0 w' =
     (tx_inv plan p w0 (set (target_refs plan)) w' \<and> (clean w0 \<longrightarrow> recoverable E plan auth p w0 w'))"

lemma manifest_for_abort:
  "manifest_for E plan auth w0 m \<Longrightarrow> st \<in> set manifest_states
   \<Longrightarrow> manifest_for E plan auth w0 (m\<lparr>m_state := st, m_failure := PStr x, m_recovery := map PStr fs\<rparr>)"
  by (auto simp: manifest_for_def manifest_wf_def manifest_sorted_def)

lemma abort_targets_wp:
  assumes ok: "env_ok E" and st: "tx_static E plan p" and prog: "progress E plan (a_id a) p w0 m w"
    and pre: "\<forall>t \<in> set (p_targets plan). preimage_holds E w0 t" and nc: "no_collision E plan w0"
  shows "wp (abort_targets E p plan a m e w)
     (\<lambda>r w'. applies_back E plan (a_id a) p w0 w' \<and> r_decision r \<in> {''RECOVERED'', ''PARTIAL''}
        \<and> file_at (w_fs w') p \<noteq> None
        \<and> (r_decision r = ''RECOVERED'' \<longrightarrow> (\<forall>t \<in> set (p_targets plan). current w' t = current w0 t)))
     (\<lambda>e w'. applies_back E plan (a_id a) p w0 w' \<and> (\<exists>x. e = OSError x))
     (applies_back E plan (a_id a) p w0)"
proof -
  have mf: "manifest_for E plan (a_id a) w0 m" and inv: "tx_inv plan p w0 (set (m_attempted m)) w"
    and pend: "clean w0 \<longrightarrow> clean w \<and> pending E plan (a_id a) p w0 w" using prog by (auto simp: progress_def)
  define st' where "st' fs = (if fs \<noteq> [] then ''PARTIAL'' else ''RECOVERED'')" for fs :: "string list"
  define m' where "m' fs = m\<lparr>m_state := st' fs, m_failure := PStr (exc_message e), m_recovery := map PStr fs\<rparr>" for fs
  have mf': "manifest_for E plan (a_id a) w0 (m' fs)" for fs
    unfolding m'_def by (rule manifest_for_abort [OF mf]) (simp add: st'_def state_names)
  have ne: "m_state (m' fs) \<noteq> ''COMMITTED''" and att: "m_attempted (m' fs) = m_attempted m" for fs
    by (simp_all add: m'_def st'_def)
  have final: "wp (write_manifest E p (m' fs) wa)
     (\<lambda>_ w'. applies_back E plan (a_id a) p w0 w' \<and> file_at (w_fs w') p \<noteq> None
        \<and> (fs = [] \<longrightarrow> (\<forall>t \<in> set (p_targets plan). current w' t = current w0 t)))
     (\<lambda>e w'. applies_back E plan (a_id a) p w0 w' \<and> (\<exists>x. e = OSError x))
     (applies_back E plan (a_id a) p w0)"
    if b: "backward plan p w0 w wa" "clean w \<longrightarrow> clean wa"
      "fs = [] \<longrightarrow> (\<forall>t \<in> set (p_targets plan). current wa t = current w0 t)" for fs wa
  proof -
    have inv': "tx_inv plan p w0 (set (m_attempted (m' fs))) wa" using b inv by (simp add: backward_def att)
    have rec: "clean w0 \<Longrightarrow> clean wa \<and> recoverable E plan (a_id a) p w0 wa"
      using pend b backward_pending unfolding recoverable_def by blast
    show ?thesis
      by (rule wp_mono [OF write_manifest_wp [OF st mf' ne inv' rec]])
         (use b tx_inv_all [OF mf'] in \<open>auto simp: applies_back_def recoverable_def on_disk_def\<close>)
  qed
  have stays: "applies_back E plan (a_id a) p w0 wa" if "backward plan p w0 w wa" for wa
    using that pend backward_pending tx_inv_all [OF mf] inv
    unfolding applies_back_def recoverable_def backward_def by blast
  show ?thesis
    unfolding abort_targets_def Let_def wp_simps
  proof (rule wp_mono [OF rollback_exact_wp [OF ok st mf pre nc inv]], goal_cases)
    case (1 fs wa)
    then have "backward plan p w0 w wa" "clean w \<longrightarrow> clean wa"
      "fs = [] \<longrightarrow> (\<forall>t \<in> set (p_targets plan). current wa t = current w0 t)" by auto
    from final [OF this, unfolded m'_def st'_def] show ?case
      by (rule wp_mono) (auto simp: transaction_receipt_def)
  qed (use stays in auto)
qed


section \<open>Admission\<close>

definition admitted :: "env \<Rightarrow> exact_file_plan \<Rightarrow> exact_file_authorization \<Rightarrow> world \<Rightarrow> bool" where
  "admitted E plan a w =
     (validate_exact_plan E plan = Inr () \<and> validate_for E a plan = Inr ()
      \<and> writable (w_fs w) (exact_manifest_rel (a_id a)) \<and> w_fs w (exact_manifest_rel (a_id a)) = None
      \<and> (\<forall>t \<in> set (p_targets plan). ''.git'' \<notin> set (path_parts (t_ref t)) \<and> preimage_holds E w t)
      \<and> lock_anchor_ok w)"

lemma preimages_run:
  "(\<forall>t \<in> set ts. preimage_holds E w t) \<Longrightarrow> map_run (exact_preimage E) ts w = Done (map (\<lambda>t. content_of w (target_path t)) ts) w"
  by (induction ts) (simp_all add: exact_preimage_Done)

lemma preimages_fail:
  "\<not> (\<forall>t \<in> set ts. preimage_holds E w t) \<Longrightarrow> \<exists>m. map_run (exact_preimage E) ts w = Raised (ValueError m) w"
proof (induction ts)
  case (Cons t ts)
  show ?case
  proof (cases "preimage_holds E w t")
    case True
    with Cons obtain m where "map_run (exact_preimage E) ts w = Raised (ValueError m) w" by auto
    with True show ?thesis by (simp add: exact_preimage_Done)
  next
    case False
    then obtain m where "exact_preimage E t w = Raised (ValueError m) w" using exact_preimage_Raised by blast
    then show ?thesis by simp
  qed
qed simp

lemma validate_for_id: "validate_for E a plan = Inr () \<Longrightarrow> safe_authorization_id (a_id a)"
  by (auto simp: validate_for_def split: if_splits)

lemma admit_admitted: "admitted E plan a w \<Longrightarrow> admit E plan a w = Done None w"
  using validate_for_id [of E a plan]
  by (simp add: admitted_def admit_def exact_manifest_path_def safe_path_check preimages_run list_ex_iff)

text \<open>A refusal leaves the world alone and is either a blocked receipt or an exception.\<close>

lemma admit_refused:
  assumes "\<not> admitted E plan a w"
  shows "(\<exists>r. admit E plan a w = Done (Some r) w \<and> r_decision r = ''BLOCKED'' \<and> r_mutations r = [])
    \<or> (\<exists>e. admit E plan a w = Raised e w)"
proof (cases "validate_exact_plan E plan")
  case v: (Inr u)
  show ?thesis
  proof (cases "validate_for E a plan")
    case f: (Inr u')
    then have id: "safe_authorization_id (a_id a)" using validate_for_id by (cases u') auto
    show ?thesis
    proof (cases "writable (w_fs w) (exact_manifest_rel (a_id a))")
      case wr: True
      show ?thesis
      proof (cases "w_fs w (exact_manifest_rel (a_id a)) = None \<and> \<not> list_ex (\<lambda>t. ''.git'' \<in> set (path_parts (t_ref t))) (p_targets plan)")
        case True
        show ?thesis
        proof (cases "\<forall>t \<in> set (p_targets plan). preimage_holds E w t")
          case pre: True
          then have "\<not> lock_anchor_ok w" using assms v f wr True by (auto simp: admitted_def list_ex_iff)
          then show ?thesis using v f id wr True pre
            by (simp add: admit_def exact_manifest_path_def safe_path_check preimages_run)
        next
          case False
          from preimages_fail [OF this] obtain m where "map_run (exact_preimage E) (p_targets plan) w = Raised (ValueError m) w" ..
          then show ?thesis using v f id wr True by (simp add: admit_def exact_manifest_path_def safe_path_check)
        qed
      next
        case False
        then show ?thesis using v f id wr
          by (auto simp: admit_def exact_manifest_path_def safe_path_check blocked_exact_receipt_def)
      qed
    next
      case False
      then show ?thesis using v f id by (simp add: admit_def exact_manifest_path_def safe_path_check)
    qed
  qed (use v in \<open>simp add: admit_def\<close>)
qed (simp add: admit_def)

lemma valid_target_parts:
  assumes "validate_exact_target E t = Inr ()"
  shows "target_path t \<noteq> []" and "hd (target_path t) \<noteq> ''.meta-flow-runtime''" and "e_sha E (t_after t) = t_after_digest t"
proof -
  from assms obtain x xs where p: "path_parts (t_ref t) = x # xs" and x: "x \<noteq> ''.meta-flow-runtime''"
    and abs: "\<not> is_absolute (t_ref t)" and d: "e_sha E (t_after t) = t_after_digest t"
    by (auto simp: validate_exact_target_def Let_def split: if_splits list.splits)
  then have "target_path t = x # xs" by (simp add: path_parts_def target_path_def)
  with x d show "target_path t \<noteq> []" "hd (target_path t) \<noteq> ''.meta-flow-runtime''" "e_sha E (t_after t) = t_after_digest t"
    by simp_all
qed

lemma sorted_wrt_pair:
  "sorted_wrt R xs \<Longrightarrow> x \<in> set xs \<Longrightarrow> y \<in> set xs \<Longrightarrow> x \<noteq> y \<Longrightarrow> R x y \<or> R y x"
  by (induction xs) auto

lemma distinct_independent: "sorted_wrt independent_paths ps \<Longrightarrow> distinct ps"
  by (induction ps) (auto simp: independent_paths_def)

lemma heads_independent: "p \<noteq> [] \<Longrightarrow> q \<noteq> [] \<Longrightarrow> hd p \<noteq> hd q \<Longrightarrow> independent_paths p q"
  by (cases p; cases q) (auto simp: independent_paths_def)

lemma tx_static_valid:
  assumes "validate_exact_plan E plan = Inr ()" and ind: "independent_plan plan"
  shows "tx_static E plan (exact_manifest_rel auth)"
proof -
  have refs: "distinct (target_refs plan)" using assms(1) by (auto simp: validate_exact_plan_def split: if_splits)
  note vt = valid_target_parts [OF validate_plan_targets [OF assms(1)]]
  have ps: "sorted_wrt independent_paths (map target_path (p_targets plan))"
    and lock: "\<forall>t \<in> set (p_targets plan). independent_paths lock_path (target_path t)"
    using ind by (auto simp: independent_plan_def)
  have inj: "inj_on target_path (set (p_targets plan))"
    using distinct_independent [OF ps] by (simp add: distinct_map)
  have injr: "inj_on t_ref (set (p_targets plan))" using refs by (simp add: target_refs_def distinct_map)
  have pair: "independent_paths (target_path t) (target_path u)"
    if "t \<in> set (p_targets plan)" "u \<in> set (p_targets plan)" "u \<noteq> t" for t u
  proof -
    have "target_path t \<noteq> target_path u" using inj_onD [OF inj] that by blast
    then show ?thesis using sorted_wrt_pair [OF ps] that independent_sym by (metis image_eqI list.set_map)
  qed
  have man: "independent_paths (exact_manifest_rel auth) (target_path t)" if "t \<in> set (p_targets plan)" for t
    by (rule heads_independent) (use vt [OF that] in \<open>simp_all add: exact_manifest_rel_def\<close>)
  have "t_ref u \<noteq> t_ref t" if "t \<in> set (p_targets plan)" "u \<in> set (p_targets plan)" "u \<noteq> t" for t u
    using inj_onD [OF injr] that by blast
  moreover have "target_path t \<noteq> lock_path" if "t \<in> set (p_targets plan)" for t
    using lock that independent_neq by metis
  moreover have "exact_manifest_rel auth \<noteq> lock_path" by (simp add: exact_manifest_rel_def lock_path_def)
  ultimately show ?thesis unfolding tx_static_def using pair man vt refs by blast
qed


section \<open>The first manifest\<close>

lemma prepare_admitted:
  assumes "admitted E plan a w"
  shows "prepare E plan a w =
     Done (Inr (map (\<lambda>t. (t_ref t, content_of w (target_path t))) (p_targets plan)))
       (w\<lparr>w_fs := mkdirs (exact_manifest_rel (a_id a)) (w_fs w)\<rparr>)"
proof -
  have id: "safe_authorization_id (a_id a)" using assms validate_for_id by (auto simp: admitted_def)
  have run: "map_run (\<lambda>t w. and_then (exact_preimage E t w) (\<lambda>c w. Done (t_ref t, c) w)) ts w
      = Done (map (\<lambda>t. (t_ref t, content_of w (target_path t))) ts) w" if "set ts \<subseteq> set (p_targets plan)" for ts
    using that assms by (induction ts) (simp_all add: exact_preimage_Done admitted_def)
  show ?thesis
    using assms id by (simp add: prepare_def exact_manifest_path_def safe_path_check run admitted_def safe_path_create)
qed

lemma initial_images:
  fixes E a w
  assumes "distinct (target_refs plan)"
  defines "m \<equiv> initial_manifest E plan a (map (\<lambda>t. (t_ref t, content_of w (target_path t))) (p_targets plan))"
  shows "t \<in> set (p_targets plan) \<Longrightarrow> map_of (m_before m) (t_ref t) = Some (PStr (e_b64 E (content_of w (target_path t))))"
    and "key_sorted (PDict (m_before m))" and "dkeys (m_before m) = set (target_refs plan)"
proof -
  let ?xs = "map (\<lambda>t. (t_ref t, PStr (e_b64 E (content_of w (target_path t))))) (p_targets plan)"
  have b: "m_before m = sort_key fst ?xs" by (simp add: m_def initial_manifest_def comp_def)
  have k: "map fst ?xs = target_refs plan" by (simp add: target_refs_def comp_def)
  have d: "distinct (map fst ?xs)" using assms(1) k by simp
  have "map_of (m_before m) (t_ref t) = Some (PStr (e_b64 E (content_of w (target_path t))))" if "t \<in> set (p_targets plan)" for t
  proof -
    have "(t_ref t, PStr (e_b64 E (content_of w (target_path t)))) \<in> set ?xs" using that by auto
    then show ?thesis using map_of_sort_key [OF d] d by (simp only: b map_of_is_SomeI)
  qed
  then show "t \<in> set (p_targets plan) \<Longrightarrow> map_of (m_before m) (t_ref t) = Some (PStr (e_b64 E (content_of w (target_path t))))" .
  have "list_all (\<lambda>(k, v). key_sorted v) (sort_key fst ?xs)" by (auto simp: list_all_iff)
  then show "key_sorted (PDict (m_before m))"
    using sorted_sort_key_strict [OF d] by (simp add: b)
  have "dkeys (m_before m) = fst ` set ?xs" by (simp add: b dkeys_def)
  also have "\<dots> = set (target_refs plan)" using k by (metis list.set_map)
  finally show "dkeys (m_before m) = set (target_refs plan)" .
qed

lemma initial_manifest_for:
  assumes ok: "env_ok E" and adm: "admitted E plan a w"
  defines "m \<equiv> initial_manifest E plan a (map (\<lambda>t. (t_ref t, content_of w (target_path t))) (p_targets plan))"
  shows "manifest_for E plan (a_id a) w m" and "m_attempted m = []" and "m_applied m = []" and "m_state m = ''PREPARED''"
    and "validate_exact_manifest E (manifest_payload m) (a_id a) = Inr (plan, m)"
proof -
  have val: "validate_exact_plan E plan = Inr ()" and id: "safe_authorization_id (a_id a)"
    using adm validate_for_id by (auto simp: admitted_def)
  then have refs: "distinct (target_refs plan)" by (auto simp: validate_exact_plan_def split: if_splits)
  note img = initial_images [OF refs, where E = E and a = a and w = w, folded m_def]
  have "check_before_image E (m_before m) t = Inr ()" if "t \<in> set (p_targets plan)" for t
  proof -
    have "preimage_holds E w t" using adm that by (simp add: admitted_def)
    then have ex: "(current w t \<noteq> None) = t_before_exists t"
      and dg: "e_sha E (content_of w (target_path t)) = t_before_digest t" by (simp_all add: preimage_holds_def)
    have "\<not> t_before_exists t \<Longrightarrow> content_of w (target_path t) = []" using ex by (simp add: current_def content_of_def)
    then show ?thesis
      using img(1) [OF that] dg ok by (auto simp add: check_before_image_def dget_def py_str_def env_ok_def)
  qed
  then have images: "check_all (check_before_image E (m_before m)) (p_targets plan) = Inr ()" by (simp add: check_all_Inr)
  show mf: "manifest_for E plan (a_id a) w m"
    using val id img images plan_dict_sorted [of E plan] state_names(5)
    by (simp add: manifest_for_def manifest_wf_def manifest_sorted_def m_def initial_manifest_def del: key_sorted.simps(2))
  show "m_attempted m = []" "m_applied m = []" "m_state m = ''PREPARED''"
    by (simp_all add: m_def initial_manifest_def)
  show "validate_exact_manifest E (manifest_payload m) (a_id a) = Inr (plan, m)"
    using manifest_roundtrip [OF ok, of plan m] mf by (simp add: manifest_for_def)
qed

section \<open>The whole run\<close>

definition finished :: "env \<Rightarrow> exact_file_plan \<Rightarrow> string \<Rightarrow> path \<Rightarrow> world \<Rightarrow> receipt \<Rightarrow> world \<Rightarrow> bool" where
  "finished E plan auth p w0 r w' =
     (r_decision r = ''PASS'' \<and> committed E plan auth p w0 w' \<and> r_mutations r = target_refs plan
      \<or> r_decision r \<in> {''RECOVERED'', ''PARTIAL''} \<and> \<not> quiet w0
        \<and> (no_collision E plan w0 \<longrightarrow> applies_back E plan auth p w0 w' \<and> file_at (w_fs w') p \<noteq> None
             \<and> (r_decision r = ''RECOVERED'' \<longrightarrow> (\<forall>t \<in> set (p_targets plan). current w' t = current w0 t))))"

definition stopped :: "env \<Rightarrow> exact_file_plan \<Rightarrow> string \<Rightarrow> path \<Rightarrow> world \<Rightarrow> world \<Rightarrow> bool" where
  "stopped E plan auth p w0 w' =
     (\<not> quiet w0 \<and> (no_collision E plan w0 \<longrightarrow> applies_back E plan auth p w0 w'))"

lemma abort_decision:
  "wp (abort_targets E p plan a m e w) (\<lambda>r _. r_decision r \<in> {''RECOVERED'', ''PARTIAL''}) (\<lambda>_ _. True) (\<lambda>_. True)"
proof -
  have any: "wp r (\<lambda>_ _. True) (\<lambda>_ _. True) (\<lambda>_. True)" for r :: "'b run" by (cases r) simp_all
  show ?thesis
    unfolding abort_targets_def Let_def wp_simps
    by (rule wp_mono [OF any]) (rule wp_mono [OF any], auto simp: transaction_receipt_def)
qed

lemma abort_finished:
  assumes "env_ok E" and "tx_static E plan p" and "progress E plan (a_id a) p w0 m w" and "\<not> quiet w0"
    and "\<forall>t \<in> set (p_targets plan). preimage_holds E w0 t"
  shows "wp (abort_targets E p plan a m e w) (finished E plan (a_id a) p w0)
     (\<lambda>_. stopped E plan (a_id a) p w0) (stopped E plan (a_id a) p w0)"
proof (cases "no_collision E plan w0")
  case True
  show ?thesis
    by (rule wp_mono [OF abort_targets_wp [OF assms(1,2,3,5) True]])
       (use assms(4) in \<open>auto simp: finished_def stopped_def\<close>)
next
  case False
  show ?thesis
    by (rule wp_mono [OF abort_decision]) (use False assms(4) in \<open>auto simp: finished_def stopped_def\<close>)
qed

lemma locked_apply_eq:
  assumes "env_ok E" and "admitted E plan a w"
  shows "locked_apply E plan a w =
     and_then (write_manifest E (exact_manifest_rel (a_id a))
         (initial_manifest E plan a (map (\<lambda>t. (t_ref t, content_of w (target_path t))) (p_targets plan)))
         (w\<lparr>w_fs := mkdirs (exact_manifest_rel (a_id a)) (w_fs w)\<rparr>))
       (\<lambda>_ w'. and_then (commit_targets E (exact_manifest_rel (a_id a)) plan
           (initial_manifest E plan a (map (\<lambda>t. (t_ref t, content_of w (target_path t))) (p_targets plan))) w')
         (\<lambda>(m, stopped) w'. case stopped of
             None \<Rightarrow> Done (transaction_receipt plan a m ''PASS'' False []) w'
           | Some e \<Rightarrow> abort_targets E (exact_manifest_rel (a_id a)) plan a m e w'))"
  using initial_manifest_for(5) [OF assms]
  by (simp add: locked_apply_def prepare_admitted [OF assms(2)] Let_def)

lemma locked_apply_wp:
  assumes ok: "env_ok E" and adm: "admitted E plan a w0" and ind: "independent_plan plan"
  defines "p \<equiv> exact_manifest_rel (a_id a)"
  shows "wp (locked_apply E plan a w0) (finished E plan (a_id a) p w0)
     (\<lambda>_. stopped E plan (a_id a) p w0) (stopped E plan (a_id a) p w0)"
proof -
  define m where "m = initial_manifest E plan a (map (\<lambda>t. (t_ref t, content_of w0 (target_path t))) (p_targets plan))"
  let ?w1 = "w0\<lparr>w_fs := mkdirs p (w_fs w0)\<rparr>"
  have val: "validate_exact_plan E plan = Inr ()" using adm by (simp add: admitted_def)
  have st: "tx_static E plan p" unfolding p_def by (rule tx_static_valid [OF val ind])
  note m0 = initial_manifest_for [OF ok adm, folded m_def]
  have pre: "\<forall>t \<in> set (p_targets plan). preimage_holds E w0 t" using adm by (simp add: admitted_def)
  have inv0: "tx_inv plan p w0 {} w0"
    using adm pre by (auto simp: tx_inv_def preimage_holds_def admitted_def p_def)
  have none: "file_at (w_fs w0) p = None" using adm by (simp add: admitted_def p_def file_at_def)
  have inv1: "tx_inv plan p w0 (set (m_attempted m)) ?w1"
    using changed_manifest(2) [OF st changed_mkdirs [of p w0] inv0] by (simp add: m0)
  have rec1: "clean w0 \<Longrightarrow> clean ?w1 \<and> recoverable E plan (a_id a) p w0 ?w1"
    using inv1 none by (simp add: recoverable_def m0 clean_def)
  have ne: "m_state m \<noteq> ''COMMITTED''" by (simp add: m0)
  have q1: "quiet ?w1 = quiet w0" by (simp add: quiet_def)
  have first: "wp (write_manifest E p m ?w1)
      (\<lambda>_ wa. tx_inv plan p w0 {} wa \<and> (clean w0 \<longrightarrow> clean wa \<and> pending E plan (a_id a) p w0 wa) \<and> (quiet w0 \<longrightarrow> quiet wa))
      (\<lambda>_. stopped E plan (a_id a) p w0) (stopped E plan (a_id a) p w0)"
    by (rule wp_mono [OF write_manifest_wp [OF st m0(1) ne inv1 rec1]])
       (use tx_inv_all [OF m0(1)] in \<open>auto simp: m0 q1 stopped_def applies_back_def\<close>)
  have crash: "crash_ok E plan (a_id a) p w0 wa w' \<Longrightarrow> quiet w0 \<longrightarrow> quiet wa \<Longrightarrow> stopped E plan (a_id a) p w0 w'" for wa w'
    by (auto simp: stopped_def applies_back_def)
  note eq = locked_apply_eq [OF ok adm, folded m_def p_def]
  show ?thesis
    unfolding eq wp_and_then
  proof (rule wp_mono [OF first], goal_cases)
    case (1 x wa)
    then have inv: "tx_inv plan p w0 {} wa" and q: "quiet w0 \<longrightarrow> quiet wa"
      and pend: "clean w0 \<Longrightarrow> clean wa \<and> pending E plan (a_id a) p w0 wa" by auto
    show ?case
    proof (rule wp_mono [OF commit_targets_wp [OF st m0(1,2,3) inv pend pre]], goal_cases)
      case (2 y wb)
      obtain m' e where y: "y = (m', e)" by (cases y)
      show ?case
      proof (cases e)
        case None
        then show ?thesis using 2 y by (simp add: finished_def transaction_receipt_def)
      next
        case (Some ex)
        then have "progress E plan (a_id a) p w0 m' wb" and "\<not> quiet w0" using 2 y q by auto
        from abort_finished [OF ok st this pre] show ?thesis by (simp add: y Some)
      qed
    qed (use crash q in auto)
  qed auto
qed

end
