(* ===== verification/Exact_Sample.thy ===== *)
theory Exact_Sample
  imports Exact_Atomicity
begin

text \<open>
  Example runs of the exact-file transaction: a tree with the lock anchor and the directories of one
  manifest, and a plan that replaces the content \<open>a\<close> of one file by \<open>b\<close>. The file is \<open>f\<close>, or the lock anchor
  itself. A run is computed by rewriting, with the text of the manifests left symbolic.
\<close>

definition anchor_ref :: string where
  "anchor_ref = ''.meta-flow-process.yaml''"

definition sample_ref :: "string \<Rightarrow> bool" where
  "sample_ref r = (r = ''f'' \<or> r = anchor_ref)"

definition mini_target :: "string \<Rightarrow> exact_file_target" where
  "mini_target r = sample_target r (Some ''a'') ''b''"

definition mini_plan :: "string \<Rightarrow> exact_file_plan" where
  "mini_plan r = build_exact_file_plan sample_env ''u'' [mini_target r] (replicate 64 (CHR ''0''))"

definition mini_authorization :: "string \<Rightarrow> exact_file_authorization" where
  "mini_authorization r = \<lparr>a_id = ''k'', a_operation = ''u'', a_plan_digest = p_digest (mini_plan r),
     a_target_refs = [r], a_expires_at = ''2030-01-01T00:00:00Z''\<rparr>"

lemma sample_refs [simp]: "sample_ref ''f''" "sample_ref anchor_ref"
  by (simp_all add: sample_ref_def)

lemma mini_valid: "sample_ref r \<Longrightarrow> validate_exact_plan sample_env (mini_plan r) = Inr ()"
proof -
  have "validate_exact_plan sample_env (mini_plan ''f'') = Inr ()" "validate_exact_plan sample_env (mini_plan anchor_ref) = Inr ()"
    by code_simp+
  then show "sample_ref r \<Longrightarrow> validate_exact_plan sample_env (mini_plan r) = Inr ()" by (auto simp: sample_ref_def)
qed

lemma mini_auth: "sample_ref r \<Longrightarrow> validate_for sample_env (mini_authorization r) (mini_plan r) = Inr ()"
proof -
  have "validate_for sample_env (mini_authorization ''f'') (mini_plan ''f'') = Inr ()"
    "validate_for sample_env (mini_authorization anchor_ref) (mini_plan anchor_ref) = Inr ()"
    by code_simp+
  then show "sample_ref r \<Longrightarrow> validate_for sample_env (mini_authorization r) (mini_plan r) = Inr ()"
    by (auto simp: sample_ref_def)
qed

definition f_path :: "string \<Rightarrow> path" where
  "f_path r = rel_parts r"

definition m_path :: path where
  "m_path = [''.meta-flow-runtime'', ''exact-file'', ''k'', ''manifest.json'']"

definition mini_world :: "string \<Rightarrow> string option \<Rightarrow> string option \<Rightarrow> (path \<Rightarrow> nat) \<Rightarrow> bool \<Rightarrow> fault list \<Rightarrow> world" where
  "mini_world r f m g l fl =
     \<lparr>w_fs = (\<lambda>q. if q = f_path r then map_option File f else if q = m_path then map_option File m
        else if q = lock_path then Some (File ''x'')
        else if q = [''.meta-flow-runtime''] \<or> q = [''.meta-flow-runtime'', ''exact-file'']
          \<or> q = [''.meta-flow-runtime'', ''exact-file'', ''k''] then Some Dir else None),
      w_gen = g, w_locked = l, w_faults = fl\<rparr>"

lemma f_paths: "f_path ''f'' = [''f'']" "f_path anchor_ref = lock_path"
  unfolding f_path_def by code_simp+

lemma f_path_cases: "sample_ref r \<Longrightarrow> f_path r = [''f''] \<or> f_path r = lock_path"
  using f_paths by (auto simp: sample_ref_def)

lemma path_neqs [simp]: "m_path \<noteq> lock_path" "lock_path \<noteq> m_path"
  "sample_ref r \<Longrightarrow> f_path r \<noteq> m_path" "sample_ref r \<Longrightarrow> m_path \<noteq> f_path r" "f_path ''f'' \<noteq> lock_path" "lock_path \<noteq> f_path ''f''"
  using f_path_cases [of r] f_paths by (auto simp: m_path_def lock_path_def)

lemma mini_files [simp]:
  "file_at (w_fs (mini_world r f m g l fl)) (f_path r) = f"
  "sample_ref r \<Longrightarrow> file_at (w_fs (mini_world r f m g l fl)) m_path = m"
  "file_at (w_fs (mini_world r f m g l fl)) lock_path = (if f_path r = lock_path then f else Some ''x'')"
  "w_gen (mini_world r f m g l fl) = g" "w_locked (mini_world r f m g l fl) = l"
  "w_faults (mini_world r f m g l fl) = fl"
  "sample_ref r \<Longrightarrow> w_fs (mini_world r f m g l fl) m_path = map_option File m"
  "(mini_world r f m g l fl)\<lparr>w_locked := l'\<rparr> = mini_world r f m g l' fl"
  "(mini_world r f m g l fl)\<lparr>w_faults := fl'\<rparr> = mini_world r f m g l fl'"
  by (auto simp add: mini_world_def file_at_def split: option.split)

lemma all_less_Suc: "(\<forall>n. 0 < n \<and> n < Suc k \<longrightarrow> P n) \<longleftrightarrow> (\<forall>n. 0 < n \<and> n < k \<longrightarrow> P n) \<and> (0 < k \<longrightarrow> P k)" for P and k :: nat
  by (auto simp: less_Suc_eq)

lemma mini_fs_prefix:
  "sample_ref r \<Longrightarrow> w_fs (mini_world r f m g l fl) [''.meta-flow-runtime''] = Some Dir"
  "sample_ref r \<Longrightarrow> w_fs (mini_world r f m g l fl) [''.meta-flow-runtime'', ''exact-file''] = Some Dir"
  "sample_ref r \<Longrightarrow> w_fs (mini_world r f m g l fl) [''.meta-flow-runtime'', ''exact-file'', ''k''] = Some Dir"
  using f_path_cases [of r] by (auto simp add: mini_world_def m_path_def lock_path_def)

lemma mini_writable [simp]:
  assumes "sample_ref r"
  shows "writable (w_fs (mini_world r f m g l fl)) (f_path r)" "writable (w_fs (mini_world r f m g l fl)) m_path"
proof -
  note p = f_path_cases [OF assms]
  have "f_path r \<noteq> []" and one: "length (f_path r) = 1" and safe: "\<not> list_ex unsafe_part (f_path r)"
    using p by (auto simp: lock_path_def unsafe_part_def)
  then have "plain_target (w_fs (mini_world r f m g l fl)) (f_path r)" "plain_target (w_fs (mini_world r f m g l fl)) m_path"
    using assms by (simp_all add: plain_target_def mini_world_def) (simp_all add: m_path_def split: option.split)
  then show "writable (w_fs (mini_world r f m g l fl)) (f_path r)" "writable (w_fs (mini_world r f m g l fl)) m_path"
    using mini_fs_prefix [OF assms] one safe by (simp_all add: writable_def m_path_def unsafe_part_def all_less_Suc)
qed

lemma mini_mkdirs [simp]:
  assumes "sample_ref r"
  shows "mkdirs m_path (w_fs (mini_world r f m g l fl)) = w_fs (mini_world r f m g l fl)"
    and "mkdirs (f_path r) (w_fs (mini_world r f m g l fl)) = w_fs (mini_world r f m g l fl)"
proof -
  show "mkdirs m_path (w_fs (mini_world r f m g l fl)) = w_fs (mini_world r f m g l fl)"
    by (rule ext) (use mini_fs_prefix [OF assms] in \<open>auto simp: mkdirs_def m_path_def strict_prefix_def prefix_Cons\<close>)
  show "mkdirs (f_path r) (w_fs (mini_world r f m g l fl)) = w_fs (mini_world r f m g l fl)"
    by (rule ext) (use f_path_cases [OF assms] in \<open>auto simp: mkdirs_def lock_path_def strict_prefix_def prefix_Cons\<close>)
qed

lemma mini_put [simp]:
  "put_file (f_path r) c (mini_world r f m g l fl) = mini_world r (Some c) m (g(f_path r := Suc (g (f_path r)))) l fl"
  "sample_ref r \<Longrightarrow> put_file m_path c (mini_world r f m g l fl) = mini_world r f (Some c) (g(m_path := Suc (g m_path))) l fl"
  by (auto simp: put_file_def mini_world_def fun_eq_iff)

lemma write_atomic_eq:
  "writable (w_fs w) p \<Longrightarrow> write_atomic p c w = durable (put_file p c) (w\<lparr>w_fs := mkdirs p (w_fs w)\<rparr>)"
  by (cases "p = []") (simp_all add: write_atomic_def mkdirs_check writable_def plain_target_def)

lemma mini_write [simp]:
  assumes "sample_ref r"
  shows "write_atomic (f_path r) c (mini_world r f m g l fl) = durable (put_file (f_path r) c) (mini_world r f m g l fl)"
    and "write_atomic m_path c (mini_world r f m g l fl) = durable (put_file m_path c) (mini_world r f m g l fl)"
    and "safe_path b (f_path r) (mini_world r f m g l fl) = Done () (mini_world r f m g l fl)"
    and "safe_path False m_path (mini_world r f m g l fl) = Done () (mini_world r f m g l fl)"
  using assms by (simp_all add: write_atomic_eq safe_path_check) (cases b; simp add: safe_path_check safe_path_create)

lemma mini_durable [simp]:
  "durable ch (mini_world r f m g l []) = Done () (ch (mini_world r f m g l []))"
  "durable ch (mini_world r f m g l (x # fl)) = (case x of No_Fault \<Rightarrow> Done () (ch (mini_world r f m g l fl))
      | Fail_Before \<Rightarrow> Raised (OSError ''I/O error'') (mini_world r f m g l fl)
      | Fail_After \<Rightarrow> Raised (OSError ''I/O error'') (ch (mini_world r f m g l fl))
      | Crash_Before \<Rightarrow> Crashed (mini_world r f m g l fl) | Crash_After \<Rightarrow> Crashed (ch (mini_world r f m g l fl)))"
  by (simp_all add: durable_def next_fault_def drop_fault_def Let_def split: fault.split)

lemma mini_manifest_rel [simp]: "exact_manifest_rel ''k'' = m_path"
  unfolding m_path_def by code_simp

lemma mini_fields [simp]:
  "target_path (mini_target r) = f_path r" "p_targets (mini_plan r) = [mini_target r]"
  "t_ref (mini_target r) = r" "t_after (mini_target r) = ''b''" "t_before_exists (mini_target r)"
  "t_before_digest (mini_target r) = sample_digest ''a''" "t_after_digest (mini_target r) = sample_digest ''b''"
  "p_operation (mini_plan r) = ''u''" "target_refs (mini_plan r) = [r]" "a_id (mini_authorization r) = ''k''"
  by (simp_all add: target_path_def f_path_def mini_target_def sample_target_def mini_plan_def build_exact_file_plan_def
    Let_def mini_authorization_def target_refs_def)

lemma mini_rel_eq: "exact_manifest_rel (a_id (mini_authorization r)) = m_path"
  by simp

lemma mini_digests [simp]: "sample_digest ''b'' \<noteq> sample_digest ''a''" "sample_digest ''a'' \<noteq> sample_digest ''b''"
  by code_simp+

lemma sample_env_fields [simp]: "e_sha sample_env = sample_digest" "e_unb64 sample_env = Some" "e_b64 sample_env c = c"
  by (simp_all add: sample_env_def)

lemma mini_preimage:
  "sample_ref r \<Longrightarrow> preimage_holds sample_env (mini_world r (Some ''a'') m g l fl) (mini_target r)"
  by (simp add: preimage_holds_def current_def content_of_def)

lemma mini_admitted:
  assumes "sample_ref r"
  shows "admitted sample_env (mini_plan r) (mini_authorization r) (mini_world r (Some ''a'') None g l fl)"
proof -
  have "''.git'' \<notin> set (path_parts ''f'')" "''.git'' \<notin> set (path_parts anchor_ref)" by code_simp+
  then have "''.git'' \<notin> set (path_parts r)" using assms by (auto simp: sample_ref_def)
  then show ?thesis using mini_preimage assms
    by (simp add: admitted_def mini_valid mini_auth lock_anchor_ok_def)
qed

lemma mini_independent: "independent_plan (mini_plan ''f'')"
  by (simp add: independent_plan_def independent_paths_def f_paths lock_path_def)

lemma mini_no_collision: "no_collision sample_env (mini_plan r) w"
  by (simp add: no_collision_def)

section \<open>Running the example\<close>

definition mini_manifest :: "string \<Rightarrow> manifest" where
  "mini_manifest r = initial_manifest sample_env (mini_plan r) (mini_authorization r) [(r, ''a'')]"

lemma mini_manifest_fields [simp]:
  "m_plan (mini_manifest r) = plan_as_dict sample_env (mini_plan r)" "m_before (mini_manifest r) = [(r, PStr ''a'')]"
  "m_attempted (mini_manifest r) = []" "m_applied (mini_manifest r) = []" "m_authorization (mini_manifest r) = ''k''"
  by (simp_all add: mini_manifest_def initial_manifest_def)

abbreviation mini_apply :: "string \<Rightarrow> fault list \<Rightarrow> receipt run" where
  "mini_apply r fl \<equiv> apply_exact_file_plan sample_env (mini_plan r) (mini_authorization r)
     (mini_world r (Some ''a'') None (\<lambda>_. 0) False fl)"

lemma mini_locked:
  assumes "sample_ref r"
  shows "locked_apply sample_env (mini_plan r) (mini_authorization r) (mini_world r (Some ''a'') None g l fl) =
    and_then (write_manifest sample_env m_path (mini_manifest r) (mini_world r (Some ''a'') None g l fl))
       (\<lambda>_ w'. and_then (commit_targets sample_env m_path (mini_plan r) (mini_manifest r) w')
         (\<lambda>(m, stopped) w'. case stopped of
             None \<Rightarrow> Done (transaction_receipt (mini_plan r) (mini_authorization r) m ''PASS'' False []) w'
           | Some e \<Rightarrow> abort_targets sample_env m_path (mini_plan r) (mini_authorization r) m e w'))"
  unfolding locked_apply_eq [OF sample_env_ok mini_admitted [OF assms]] mini_rel_eq
  by (simp add: mini_manifest_def content_of_def assms)

lemma mini_image: "sample_ref r \<Longrightarrow> exact_preimage sample_env (mini_target r) (mini_world r (Some ''a'') m g l fl)
    = Done ''a'' (mini_world r (Some ''a'') m g l fl)"
  using exact_preimage_Done [OF mini_preimage] by (simp add: content_of_def)

lemma mini_rollback:
  assumes "sample_ref r" and "m_plan m = plan_as_dict sample_env (mini_plan r)" and "m_before m = [(r, PStr ''a'')]"
    and "m_attempted m = [r]"
  shows "rollback_exact sample_env m (mini_world r (Some ''b'') d g l fl) =
    and_then (catching (and_then (durable (put_file (f_path r) ''a'') (mini_world r (Some ''b'') d g l fl)) (\<lambda>_ w. Done [] w))
        (\<lambda>e w. case e of OSError _ \<Rightarrow> Done [r @ '': '' @ exc_message e] w | ValueError _ \<Rightarrow> Done [r @ '': '' @ exc_message e] w
            | _ \<Rightarrow> Raised e w)) (\<lambda>fs w. Done fs w)"
proof -
  have "plain_target (w_fs (mini_world r (Some ''b'') d g l fl)) (f_path r)"
    using mini_writable(1) [OF assms(1)] by (simp add: writable_def)
  then have "restore_target sample_env m (mini_target r) (mini_world r (Some ''b'') d g l fl)
      = durable (put_file (f_path r) ''a'') (mini_world r (Some ''b'') d g l fl)"
    using assms by (simp add: restore_target_def Let_def content_of_def py_str_def)
  moreover have "and_then (and_then x (\<lambda>y w. Done [y] w)) (\<lambda>fs w. Done (concat fs) w) = and_then x (\<lambda>fs w. Done fs w)" for x :: "string list run"
    by (cases x) simp_all
  ultimately show ?thesis
    using plan_roundtrip [OF sample_env_ok mini_valid [OF assms(1)]] assms
    by (simp add: rollback_exact_def f_path_def [symmetric])
qed

lemmas mini_run = mini_locked write_manifest_def commit_targets_def
  apply_target_def mini_image abort_targets_def mini_rollback transaction_receipt_def Let_def

end
