(* ===== verification/Exact_Properties.thy ===== *)
theory Exact_Properties
  imports Exact_Sample
begin

text \<open>
  What the exact-file transaction promises, stated over the file tree: a commit installs all targets, a
  recovery restores all of them, a refusal touches nothing, a kill at any point is repaired by recovery,
  an authorization is used once. Three of the properties at the end describe runs in which the code does
  not keep such a promise.
\<close>

section \<open>The lock around the transaction\<close>

lemma hex_alnum: "lower_hex c \<Longrightarrow> ascii_alnum c"
  by (auto simp: guard_simps Let_def)

lemma writer_id_safe:
  assumes "env_ok E" and "n \<le> 64" and "length pre + n \<le> 128" and "pre \<noteq> []"
    and "list_all (\<lambda>c. ascii_alnum c \<or> c \<in> set ''._-'') pre"
  shows "safe_authorization_id (pre @ take n (e_sha E x))"
proof -
  have "digest_re (e_sha E x)" using assms(1) by (simp add: env_ok_def)
  then have "list_all ascii_alnum (take n (e_sha E x))"
    unfolding hex_id_def by (auto simp: list_all_iff intro: hex_alnum dest: in_set_takeD)
  then show ?thesis using assms by (auto simp: safe_authorization_id_def list_all_iff)
qed

lemma apply_writer_safe: "env_ok E \<Longrightarrow> safe_authorization_id (apply_writer_id E a)"
  unfolding apply_writer_id_def 
  by (rule writer_id_safe, assumption, simp, simp, simp) (simp add: guard_simps Let_def)

lemma recover_writer_safe: "env_ok E \<Longrightarrow> safe_authorization_id (recover_writer_id E auth)"
  unfolding recover_writer_id_def
  by (rule writer_id_safe, assumption, simp, simp, simp) (simp add: guard_simps Let_def)

lemma acquire_ok:
  "safe_authorization_id i \<Longrightarrow> lock_anchor_ok w \<Longrightarrow> acquire_lock i w =
     (if w_locked w then Raised (ValueError ''shared projection writer lock is already held'') w
      else Done (w_gen w lock_path) (w\<lparr>w_locked := True\<rparr>))"
  by (simp add: acquire_lock_def)

text \<open>The anchor is still the locked inode as long as only targets and the manifest changed.\<close>

lemma release_ok:
  assumes "safe_authorization_id i" and "lock_anchor_ok w0" and "tx_static E plan p" and "tx_inv plan p w0 A w"
  shows "release_lock (w_gen w0 lock_path) i w = Done () (w\<lparr>w_locked := False\<rparr>)"
proof -
  have "lock_path \<noteq> p \<and> lock_path \<notin> target_path ` set (p_targets plan)"
    using assms(3) by (auto simp: tx_static_def)
  then have "file_at (w_fs w) lock_path = file_at (w_fs w0) lock_path" and "w_gen w lock_path = w_gen w0 lock_path"
    using assms(4) by (auto simp: tx_inv_def)
  then show ?thesis using assms(1,2) by (simp add: release_lock_def lock_anchor_ok_def)
qed

definition holding :: "world \<Rightarrow> world" where
  "holding w = w\<lparr>w_locked := True\<rparr>"

lemma holding_simps [simp]:
  "w_fs (holding w) = w_fs w" "w_gen (holding w) = w_gen w" "w_faults (holding w) = w_faults w" "w_locked (holding w)"
  "current (holding w) t = current w t" "quiet (holding w) = quiet w" "clean (holding w) = clean w"
  "no_collision E plan (holding w) = no_collision E plan w" "lock_anchor_ok (holding w) = lock_anchor_ok w"
  "admitted E plan a (holding w) = admitted E plan a w"
  by (simp_all add: holding_def current_def quiet_def clean_def no_collision_def lock_anchor_ok_def admitted_def
      preimage_holds_def content_of_def)

lemma apply_refused:
  assumes "\<not> admitted E plan a w"
  shows "(\<exists>r. apply_exact_file_plan E plan a w = Done r w \<and> r_decision r = ''BLOCKED'')
    \<or> (\<exists>e. apply_exact_file_plan E plan a w = Raised e w)"
  using admit_refused [OF assms]
proof (elim disjE exE conjE)
  fix e assume "admit E plan a w = Raised e w"
  then show ?thesis by (cases "is_value_error e") (simp_all add: apply_exact_file_plan_def blocked_exact_receipt_def)
qed (simp add: apply_exact_file_plan_def)

lemma apply_admitted:
  assumes "env_ok E" and "admitted E plan a w"
  shows "apply_exact_file_plan E plan a w =
    (if w_locked w then Done (blocked_exact_receipt plan a ''EXACT_FILE_WRITER_LOCK_UNAVAILABLE'') w
     else finally_run (locked_apply E plan a (holding w)) (release_lock (w_gen w lock_path) (apply_writer_id E a)))"
proof -
  have "lock_anchor_ok w" using assms(2) by (simp add: admitted_def)
  then show ?thesis
    by (simp add: apply_exact_file_plan_def admit_admitted [OF assms(2)] acquire_ok [OF apply_writer_safe [OF assms(1)]]
        holding_def)
qed

lemma locked_apply_decision:
  assumes "env_ok E" and "admitted E plan a w"
  shows "wp (locked_apply E plan a w) (\<lambda>r _. r_decision r \<in> {''PASS'', ''RECOVERED'', ''PARTIAL''}) (\<lambda>_ _. True) (\<lambda>_. True)"
proof -
  have any: "wp r (\<lambda>_ _. True) (\<lambda>_ _. True) (\<lambda>_. True)" for r :: "'b run" by (cases r) simp_all
  note m0 = initial_manifest_for(5) [OF assms]
  show ?thesis
    unfolding locked_apply_def prepare_admitted [OF assms(2)]
    by (simp add: m0 wp_simps Let_def, rule wp_mono [OF any], rule wp_mono [OF any])
       (auto split: option.splits simp: transaction_receipt_def intro: wp_mono [OF abort_decision])
qed

text \<open>One lemma for every outcome of an admitted run that gets the lock.\<close>

lemma apply_wp:
  assumes ok: "env_ok E" and adm: "admitted E plan a w" and ind: "independent_plan plan" and free: "\<not> w_locked w"
  defines "p \<equiv> exact_manifest_rel (a_id a)"
  shows "wp (apply_exact_file_plan E plan a w)
     (\<lambda>r w'. r_decision r = ''PASS'' \<or> no_collision E plan w \<longrightarrow>
         (\<exists>w2. finished E plan (a_id a) p (holding w) r w2 \<and> w' = w2\<lparr>w_locked := False\<rparr>))
     (\<lambda>e w'. \<not> quiet w \<and> (no_collision E plan w \<longrightarrow>
         (\<exists>w2. stopped E plan (a_id a) p (holding w) w2 \<and> w' = w2\<lparr>w_locked := False\<rparr>)))
     (\<lambda>w'. stopped E plan (a_id a) p (holding w) w')"
proof -
  have val: "validate_exact_plan E plan = Inr ()" and anchor: "lock_anchor_ok (holding w)"
    using adm by (simp_all add: admitted_def)
  have st: "tx_static E plan p" unfolding p_def by (rule tx_static_valid [OF val ind])
  have adm': "admitted E plan a (holding w)" using adm by simp
  note run = locked_apply_wp [OF ok adm' ind, folded p_def]
  note release = release_ok [OF apply_writer_safe [OF ok] anchor st, simplified]
  have fin: "wp (release_lock (w_gen w lock_path) (apply_writer_id E a) w2)
       (\<lambda>_ w'. r_decision r = ''PASS'' \<or> no_collision E plan w \<longrightarrow>
         (\<exists>w2. finished E plan (a_id a) p (holding w) r w2 \<and> w' = w2\<lparr>w_locked := False\<rparr>))
       (\<lambda>e w'. \<not> quiet w \<and> (no_collision E plan w \<longrightarrow>
         (\<exists>w2. stopped E plan (a_id a) p (holding w) w2 \<and> w' = w2\<lparr>w_locked := False\<rparr>)))
       (\<lambda>w'. stopped E plan (a_id a) p (holding w) w')"
    if f: "finished E plan (a_id a) p (holding w) r w2" for r w2
  proof (cases "r_decision r = ''PASS'' \<or> no_collision E plan w")
    case True
    then have "tx_inv plan p (holding w) (set (target_refs plan)) w2"
      using f unfolding finished_def applies_back_def committed_def by auto
    from release [OF this] show ?thesis using f by auto
  next
    case False
    then have "\<not> quiet w" using f by (auto simp: finished_def)
    with False show ?thesis by (auto simp: release_lock_def)
  qed
  have stop: "wp (release_lock (w_gen w lock_path) (apply_writer_id E a) w2)
       (\<lambda>_ w'. \<not> quiet w \<and> (no_collision E plan w \<longrightarrow>
         (\<exists>w2. stopped E plan (a_id a) p (holding w) w2 \<and> w' = w2\<lparr>w_locked := False\<rparr>)))
       (\<lambda>e w'. \<not> quiet w \<and> (no_collision E plan w \<longrightarrow>
         (\<exists>w2. stopped E plan (a_id a) p (holding w) w2 \<and> w' = w2\<lparr>w_locked := False\<rparr>)))
       (\<lambda>w'. stopped E plan (a_id a) p (holding w) w')"
    if f: "stopped E plan (a_id a) p (holding w) w2" for w2
  proof (cases "no_collision E plan w")
    case True
    then have "tx_inv plan p (holding w) (set (target_refs plan)) w2" using f by (simp add: stopped_def applies_back_def)
    from release [OF this] show ?thesis using f by (auto simp: stopped_def)
  next
    case False
    then show ?thesis using f by (auto simp: stopped_def release_lock_def)
  qed
  show ?thesis
    unfolding apply_admitted [OF ok adm] if_not_P [OF free] wp_finally
    by (rule wp_mono [OF run]) (erule fin, erule stop, assumption)
qed


section \<open>Commit\<close>

lemma apply_commits:
  assumes "env_ok E" and "independent_plan plan" and "admitted E plan a w" and "\<not> w_locked w" and "w_faults w = []"
  shows "\<exists>r w'. apply_exact_file_plan E plan a w = Done r w' \<and> r_decision r = ''PASS''"
proof -
  have q: "quiet w" using assms(5) by (simp add: quiet_def)
  note run = apply_wp [OF assms(1,3,2,4)]
  have st: "\<not> stopped E plan (a_id a) p (holding w) w'" for p w' using q by (simp add: stopped_def)
  have lock: "wp (apply_exact_file_plan E plan a w) (\<lambda>r _. r_decision r = ''PASS'' \<or> \<not> quiet w)
     (\<lambda>_ _. False) (\<lambda>_. False)"
  proof -
    have anchor: "lock_anchor_ok (holding w)" and val: "validate_exact_plan E plan = Inr ()"
      using assms(3) by (simp_all add: admitted_def)
    have adm': "admitted E plan a (holding w)" using assms(3) by simp
    note release = release_ok [OF apply_writer_safe [OF assms(1)] anchor tx_static_valid [OF val assms(2)], simplified]
    show ?thesis
      unfolding apply_admitted [OF assms(1,3)] if_not_P [OF assms(4)] wp_finally
    proof (rule wp_mono [OF locked_apply_wp [OF assms(1) adm' assms(2)]], goal_cases)
      case (1 r w2)
      then have "r_decision r = ''PASS''" and "tx_inv plan (exact_manifest_rel (a_id a)) (holding w) (set (target_refs plan)) w2"
        using q by (auto simp: finished_def committed_def)
      then show ?case using release by simp
    qed (use st in auto)
  qed
  show ?thesis
  proof (cases "apply_exact_file_plan E plan a w")
    case (Done r w')
    then show ?thesis using lock q by simp
  qed (use lock in auto)
qed

text \<open>C10: A run that answers PASS has installed every target's new content, changed no other file but its own
  manifest, recorded itself as committed, reported every ref as mutated, and given the lock back. This holds
  under every fault schedule.\<close>

theorem exact_apply_pass:
  assumes "env_ok E" and "independent_plan plan"
    and "apply_exact_file_plan E plan a w = Done r w'" and "r_decision r = ''PASS''"
  shows "(\<forall>t \<in> set (p_targets plan). file_at (w_fs w') (target_path t) = Some (t_after t))
    \<and> (\<forall>q. q \<noteq> exact_manifest_rel (a_id a) \<and> q \<notin> target_path ` set (p_targets plan)
          \<longrightarrow> file_at (w_fs w') q = file_at (w_fs w) q)
    \<and> (\<exists>m. file_at (w_fs w') (exact_manifest_rel (a_id a)) = Some (e_dumps E (PDict (manifest_payload m)))
          \<and> m_state m = ''COMMITTED'')
    \<and> r_mutations r = target_refs plan \<and> \<not> w_locked w'"
proof -
  have adm: "admitted E plan a w" using apply_refused assms(3,4) by fastforce
  then have free: "\<not> w_locked w"
    using assms(3,4) by (auto simp: apply_admitted [OF assms(1)] blocked_exact_receipt_def)
  from wp_Done [OF apply_wp [OF assms(1) adm assms(2) free] assms(3)] assms(4)
  obtain w2 where f: "finished E plan (a_id a) (exact_manifest_rel (a_id a)) (holding w) r w2"
    and w': "w' = w2\<lparr>w_locked := False\<rparr>" by auto
  from f assms(4) have c: "committed E plan (a_id a) (exact_manifest_rel (a_id a)) (holding w) w2"
    and mut: "r_mutations r = target_refs plan" by (auto simp: finished_def)
  then show ?thesis
    unfolding committed_def tx_inv_def on_disk_def current_def w' by auto
qed

lemma mini_apply_run:
  assumes "sample_ref r"
  shows "mini_apply r fl = finally_run
     (locked_apply sample_env (mini_plan r) (mini_authorization r) (mini_world r (Some ''a'') None (\<lambda>_. 0) True fl))
     (release_lock 0 (apply_writer_id sample_env (mini_authorization r)))"
  by (simp add: apply_admitted [OF sample_env_ok mini_admitted [OF assms]] holding_def)

lemma mini_release [simp]:
  "sample_ref r \<Longrightarrow> release_lock n (apply_writer_id sample_env a) (mini_world r (Some c) m g l fl) =
     (if g lock_path = n then Done () (mini_world r (Some c) m g False fl)
      else Raised (ValueError ''shared projection writer lock identity drifted'') (mini_world r (Some c) m g l fl))"
  by (simp add: release_lock_def apply_writer_safe [OF sample_env_ok] lock_anchor_ok_def)

lemma mini_pass: "\<exists>x w. mini_apply ''f'' [] = Done x w \<and> r_decision x = ''PASS''"
  by (simp add: mini_apply_run mini_run)

theorem exact_apply_pass_witness:
  "\<exists>x w. mini_apply ''f'' [] = Done x w \<and> file_at (w_fs w) [''f''] = Some ''b''"
proof -
  from mini_pass obtain x w where r: "mini_apply ''f'' [] = Done x w" "r_decision x = ''PASS''" by blast
  from exact_apply_pass [OF sample_env_ok mini_independent r] show ?thesis using r(1) by (auto simp: f_paths)
qed

text \<open>With nothing failing, an admissible plan commits: when validation, the authorization, every preimage, the
  lock anchor and the manifest path are in order and nobody holds the lock, the run answers PASS.\<close>

theorem exact_apply_commits:
  assumes "env_ok E" and "independent_plan plan" and "admitted E plan a w" and "\<not> w_locked w" and "w_faults w = []"
  shows "\<exists>r w'. apply_exact_file_plan E plan a w = Done r w' \<and> r_decision r = ''PASS''"
  using apply_commits [OF assms] by blast

theorem exact_apply_commits_witness:
  "\<exists>r w'. mini_apply ''f'' [] = Done r w' \<and> r_decision r = ''PASS''"
  by (rule exact_apply_commits [OF sample_env_ok mini_independent mini_admitted]) simp_all

section \<open>Failure, refusal, and crash\<close>

text \<open>A run that answers RECOVERED has put everything back: every file of the tree, apart from the run's own
  manifest, has the content it had before. The digest must tell the new content of each target from its old
  content.\<close>

theorem exact_apply_recovered:
  assumes "env_ok E" and "independent_plan plan" and "no_collision E plan w"
    and "apply_exact_file_plan E plan a w = Done r w'" and "r_decision r = ''RECOVERED''"
    and "q \<noteq> exact_manifest_rel (a_id a)"
  shows "file_at (w_fs w') q = file_at (w_fs w) q"
proof -
  have adm: "admitted E plan a w" using apply_refused assms(4,5) by fastforce
  then have free: "\<not> w_locked w"
    using assms(4,5) by (auto simp: apply_admitted [OF assms(1)] blocked_exact_receipt_def)
  from wp_Done [OF apply_wp [OF assms(1) adm assms(2) free] assms(4)] assms(3)
  obtain w2 where f: "finished E plan (a_id a) (exact_manifest_rel (a_id a)) (holding w) r w2"
    and w': "w' = w2\<lparr>w_locked := False\<rparr>" by auto
  from f assms(3,5) have inv: "tx_inv plan (exact_manifest_rel (a_id a)) (holding w) (set (target_refs plan)) w2"
    and cur: "\<forall>t \<in> set (p_targets plan). current w2 t = current w t"
    by (auto simp: finished_def applies_back_def)
  show ?thesis
  proof (cases "q \<in> target_path ` set (p_targets plan)")
    case True
    then show ?thesis using cur by (auto simp: w' current_def)
  next
    case False
    then show ?thesis using inv assms(6) by (simp add: tx_inv_def w')
  qed
qed

theorem exact_apply_recovered_witness:
  "\<exists>x w. mini_apply ''f'' [No_Fault, No_Fault, No_Fault, No_Fault, Fail_Before] = Done x w
     \<and> file_at (w_fs w) (f_path ''f'') = Some ''a''"
proof -
  have "\<exists>x w. mini_apply ''f'' [No_Fault, No_Fault, No_Fault, No_Fault, Fail_Before] = Done x w \<and> r_decision x = ''RECOVERED''"
    by (simp add: mini_apply_run mini_run)
  then obtain x w where r: "mini_apply ''f'' [No_Fault, No_Fault, No_Fault, No_Fault, Fail_Before] = Done x w"
    "r_decision x = ''RECOVERED''" by blast
  have "f_path ''f'' \<noteq> exact_manifest_rel (a_id (mini_authorization ''f''))" by simp
  from exact_apply_recovered [OF sample_env_ok mini_independent mini_no_collision r this] r(1)
  show ?thesis by auto
qed

text \<open>A run that answers BLOCKED has changed nothing at all, not even a directory or the lock.\<close>

theorem exact_apply_blocked:
  assumes "env_ok E" and "apply_exact_file_plan E plan a w = Done r w'" and "r_decision r = ''BLOCKED''"
  shows "w' = w"
proof (cases "admitted E plan a w")
  case False
  then show ?thesis using apply_refused assms(2) by fastforce
next
  case True
  show ?thesis
  proof (cases "w_locked w")
    case True
    then show ?thesis using assms(2) apply_admitted [OF assms(1) \<open>admitted E plan a w\<close>] by simp
  next
    case False
    have adm: "admitted E plan a (holding w)" using True by simp
    have any: "wp x (\<lambda>_ _. True) (\<lambda>_ _. True) (\<lambda>_. True)" for x :: "'b run" by (cases x) simp_all
    have "wp (apply_exact_file_plan E plan a w) (\<lambda>r _. r_decision r \<noteq> ''BLOCKED'') (\<lambda>_ _. True) (\<lambda>_. True)"
      unfolding apply_admitted [OF assms(1) True] if_not_P [OF False] wp_finally
      by (rule wp_mono [OF locked_apply_decision [OF assms(1) adm]]) (auto intro: wp_mono [OF any])
    then show ?thesis using assms(2,3) by simp
  qed
qed


theorem exact_apply_blocked_witness:
  "\<exists>x. apply_exact_file_plan sample_env (mini_plan ''f'') (mini_authorization ''f'')
      (mini_world ''f'' (Some ''other'') None (\<lambda>_. 0) False [])
    = Done x (mini_world ''f'' (Some ''other'') None (\<lambda>_. 0) False [])"
proof -
  have d: "sample_digest ''other'' \<noteq> sample_digest ''a''" by code_simp
  then have "\<not> preimage_holds sample_env (mini_world ''f'' (Some ''other'') None (\<lambda>_. 0) False []) (mini_target ''f'')"
    by (simp add: preimage_holds_def current_def content_of_def)
  then obtain m where "exact_preimage sample_env (mini_target ''f'') (mini_world ''f'' (Some ''other'') None (\<lambda>_. 0) False [])
      = Raised (ValueError m) (mini_world ''f'' (Some ''other'') None (\<lambda>_. 0) False [])"
    using exact_preimage_Raised by blast
  then have "\<exists>x w. apply_exact_file_plan sample_env (mini_plan ''f'') (mini_authorization ''f'')
      (mini_world ''f'' (Some ''other'') None (\<lambda>_. 0) False []) = Done x w \<and> r_decision x = ''BLOCKED''"
    using validate_for_id [OF mini_auth [of "''f''"]]
    by (auto simp: apply_exact_file_plan_def admit_def mini_valid mini_auth exact_manifest_path_def
        blocked_exact_receipt_def split: if_splits)
  then show ?thesis using exact_apply_blocked [OF sample_env_ok] by metis
qed

text \<open>What recovery does with each state a run can leave behind.\<close>

lemma recover_reads:
  assumes "env_ok E" and "safe_authorization_id auth" and "writable (w_fs w) (exact_manifest_rel auth)"
    and "lock_anchor_ok w" and "\<not> w_locked w"
    and "on_disk E (exact_manifest_rel auth) m w" and "manifest_for E plan auth w0 m"
    and "operation = [] \<or> operation = p_operation plan"
  shows "recover_exact_file_transaction E auth operation w =
    finally_run (if m_state m = ''COMMITTED''
       then Done \<lparr>v_decision = ''NO_CHANGE'', v_authorization = auth, v_plan_digest = p_digest plan,
                  v_recovery_required = False, v_reasons = []\<rparr> (holding w)
       else and_then (rollback_exact E m (holding w)) (\<lambda>failures w.
            let st = (if failures \<noteq> [] then ''PARTIAL'' else ''RECOVERED'');
                m' = m\<lparr>m_state := st, m_recovery := map PStr failures, m_updated := PStr (e_stamp E)\<rparr> in
            and_then (write_manifest E (exact_manifest_rel auth) m' w) (\<lambda>_ w.
              Done \<lparr>v_decision = st, v_authorization = auth, v_plan_digest = p_digest plan,
                    v_recovery_required = (failures \<noteq> []),
                    v_reasons = (if failures \<noteq> [] then [''EXACT_FILE_RECOVERY_FAILED''] else [])\<rparr> w)))
      (release_lock (w_gen w lock_path) (recover_writer_id E auth))"
proof -
  let ?d = "PDict (manifest_payload m)"
  note id = recover_writer_safe [OF assms(1), of auth]
  have content: "content_of (holding w) (exact_manifest_rel auth) = e_dumps E ?d"
    and ne: "file_at (w_fs w) (exact_manifest_rel auth) \<noteq> None"
    using assms(6) by (auto simp: on_disk_def content_of_def)
  have wf: "manifest_wf E plan m" "manifest_sorted m" "m_authorization m = auth"
    using assms(7) by (simp_all add: manifest_for_def)
  have "e_loads E (e_dumps E ?d) = Some ?d" by (rule manifest_text [OF assms(1) wf(2)])
  moreover have "validate_exact_manifest E (manifest_payload m) auth = Inr (plan, m)"
    using manifest_roundtrip [OF assms(1) wf(1)] wf(3) by simp
  moreover have "(operation \<noteq> [] \<and> p_operation plan \<noteq> operation) = False" using assms(8) by auto
  ultimately have inner: "locked_recover E auth operation (exact_manifest_rel auth) (holding w) =
      (if m_state m = ''COMMITTED''
       then Done \<lparr>v_decision = ''NO_CHANGE'', v_authorization = auth, v_plan_digest = p_digest plan,
                  v_recovery_required = False, v_reasons = []\<rparr> (holding w)
       else and_then (rollback_exact E m (holding w)) (\<lambda>failures w.
            let st = (if failures \<noteq> [] then ''PARTIAL'' else ''RECOVERED'');
                m' = m\<lparr>m_state := st, m_recovery := map PStr failures, m_updated := PStr (e_stamp E)\<rparr> in
            and_then (write_manifest E (exact_manifest_rel auth) m' w) (\<lambda>_ w.
              Done \<lparr>v_decision = st, v_authorization = auth, v_plan_digest = p_digest plan,
                    v_recovery_required = (failures \<noteq> []),
                    v_reasons = (if failures \<noteq> [] then [''EXACT_FILE_RECOVERY_FAILED''] else [])\<rparr> w)))"
    unfolding locked_recover_def content
    by (simp only: option.case sum.case prod.case is_dict.simps dict_items.simps simp_thms if_False if_True)
  have lock: "acquire_lock (recover_writer_id E auth) w = Done (w_gen w lock_path) (holding w)"
    using acquire_ok [OF id assms(4)] assms(5) by (simp add: holding_def)
  have path: "exact_manifest_path False auth w = Done (exact_manifest_rel auth) w"
    using assms(2,3) by (simp add: exact_manifest_path_def safe_path_check)
  show ?thesis
    unfolding recover_exact_file_transaction_def path and_then.simps if_not_P [OF ne] lock inner ..
qed

definition all_before :: "exact_file_plan \<Rightarrow> world \<Rightarrow> world \<Rightarrow> bool" where
  "all_before plan w w' = (\<forall>t \<in> set (p_targets plan). file_at (w_fs w') (target_path t) = file_at (w_fs w) (target_path t))"

definition all_after :: "exact_file_plan \<Rightarrow> world \<Rightarrow> bool" where
  "all_after plan w' = (\<forall>t \<in> set (p_targets plan). file_at (w_fs w') (target_path t) = Some (t_after t))"

definition frame_kept :: "exact_file_plan \<Rightarrow> path \<Rightarrow> world \<Rightarrow> world \<Rightarrow> bool" where
  "frame_kept plan p w w' =
     (\<forall>q. q \<noteq> p \<and> q \<notin> target_path ` set (p_targets plan) \<longrightarrow> file_at (w_fs w') q = file_at (w_fs w) q)"

lemma tx_inv_frame: "tx_inv plan p w A w' \<Longrightarrow> frame_kept plan p w w'"
  by (simp add: tx_inv_def frame_kept_def)


lemma manifest_for_recover:
  "manifest_for E plan auth w0 m \<Longrightarrow> st \<in> set manifest_states
   \<Longrightarrow> manifest_for E plan auth w0 (m\<lparr>m_state := st, m_recovery := map PStr fs, m_updated := PStr x\<rparr>)"
  by (auto simp: manifest_for_def manifest_wf_def manifest_sorted_def)

lemma tx_inv_same:
  "tx_inv plan p w0 A w \<Longrightarrow> w_fs w' = w_fs w \<Longrightarrow> w_gen w' = w_gen w \<Longrightarrow> w_locked w' = w_locked w0
   \<Longrightarrow> tx_inv plan p w0 A w'"
  by (simp add: tx_inv_def current_def)

text \<open>Recovery in a quiet world, from a manifest that is not committed.\<close>

lemma recover_pending:
  assumes ok: "env_ok E" and st: "tx_static E plan p" and p: "p = exact_manifest_rel auth"
    and id: "safe_authorization_id auth" and pre: "\<forall>t \<in> set (p_targets plan). preimage_holds E w0 t"
    and nc: "no_collision E plan w0" and anchor: "lock_anchor_ok w0" and l0: "w_locked w0"
    and disk: "on_disk E p m w" and mf: "manifest_for E plan auth w0 m" and ne: "m_state m \<noteq> ''COMMITTED''"
    and inv: "tx_inv plan p w0 (set (m_attempted m)) (holding w)"
    and free: "\<not> w_locked w" and q: "quiet w" and op: "operation = [] \<or> operation = p_operation plan"
  shows "\<exists>r w'. recover_exact_file_transaction E auth operation w = Done r w' \<and> v_decision r = ''RECOVERED''
    \<and> all_before plan w0 w' \<and> frame_kept plan p w0 w'"
proof -
  have wr: "writable (w_fs w) p" using inv by (simp add: tx_inv_def)
  have lk: "lock_path \<noteq> p \<and> lock_path \<notin> target_path ` set (p_targets plan)"
    using st by (auto simp: tx_static_def)
  then have anchor': "lock_anchor_ok w" and gen: "w_gen w lock_path = w_gen w0 lock_path"
    using inv anchor by (auto simp: tx_inv_def lock_anchor_ok_def)
  define m' where "m' fs = m\<lparr>m_state := (if fs \<noteq> [] then ''PARTIAL'' else ''RECOVERED''),
      m_recovery := map PStr fs, m_updated := PStr (e_stamp E)\<rparr>" for fs :: "string list"
  have mf': "manifest_for E plan auth w0 (m' fs)" for fs
    unfolding m'_def by (rule manifest_for_recover [OF mf]) (simp add: state_names)
  have ne': "m_state (m' fs) \<noteq> ''COMMITTED''" and att: "m_attempted (m' fs) = m_attempted m" for fs
    by (simp_all add: m'_def)
  have written: "wp (write_manifest E p (m' []) wa)
     (\<lambda>_ w'. wp (release_lock (w_gen w lock_path) (recover_writer_id E auth) w')
        (\<lambda>_ w'. all_before plan w0 w' \<and> frame_kept plan p w0 w') (\<lambda>_ _. False) (\<lambda>_. False))
     (\<lambda>_ _. False) (\<lambda>_. False)"
    if b: "backward plan p w0 (holding w) wa" "\<forall>t \<in> set (p_targets plan). current wa t = current w0 t" "quiet wa" for wa
  proof -
    have inv': "tx_inv plan p w0 (set (m_attempted (m' []))) wa" using b inv by (simp add: backward_def att)
    show ?thesis
    proof (rule wp_mono [OF write_manifest_wp [where c = False, OF st mf' ne' inv']], goal_cases)
      case (2 x w')
      then have i: "tx_inv plan p w0 (set (m_attempted m)) w'" by (simp add: att)
      have rel: "release_lock (w_gen w lock_path) (recover_writer_id E auth) w' = Done () (w'\<lparr>w_locked := False\<rparr>)"
        unfolding gen by (rule release_ok [OF recover_writer_safe [OF ok] anchor st i])
      show ?case using 2 b i unfolding rel
        by (simp add: all_before_def frame_kept_def tx_inv_def current_def)
    qed (use b in auto)
  qed
  have "wp (recover_exact_file_transaction E auth operation w)
     (\<lambda>r w'. v_decision r = ''RECOVERED'' \<and> all_before plan w0 w' \<and> frame_kept plan p w0 w') (\<lambda>_ _. False) (\<lambda>_. False)"
    unfolding recover_reads [OF ok id wr [unfolded p] anchor' free disk [unfolded p] mf op] if_not_P [OF ne] p [symmetric]
      wp_finally wp_and_then
  proof (rule wp_mono [OF rollback_exact_wp [OF ok st mf pre nc inv]], goal_cases)
    case (1 fs wa)
    then have b: "backward plan p w0 (holding w) wa" "\<forall>t \<in> set (p_targets plan). current wa t = current w0 t" "quiet wa"
      and fs: "fs = []" using q by auto
    show ?case
      using written [OF b] by (auto simp add: fs m'_def Let_def wp_and_then elim: wp_mono)
  qed (use q in auto)
  then show ?thesis
    by (cases "recover_exact_file_transaction E auth operation w") auto
qed


lemma recover_committed:
  assumes ok: "env_ok E" and st: "tx_static E plan p" and p: "p = exact_manifest_rel auth"
    and id: "safe_authorization_id auth" and anchor: "lock_anchor_ok w0"
    and disk: "on_disk E p m w" and mf: "manifest_for E plan auth w0 m" and com: "m_state m = ''COMMITTED''"
    and inv: "tx_inv plan p w0 A (holding w)" and after: "\<forall>t \<in> set (p_targets plan). current w t = Some (t_after t)"
    and free: "\<not> w_locked w" and op: "operation = [] \<or> operation = p_operation plan"
  shows "\<exists>r w'. recover_exact_file_transaction E auth operation w = Done r w' \<and> v_decision r = ''NO_CHANGE''
    \<and> all_after plan w' \<and> frame_kept plan p w0 w'"
proof -
  have wr: "writable (w_fs w) p" using inv by (simp add: tx_inv_def)
  have lk: "lock_path \<noteq> p \<and> lock_path \<notin> target_path ` set (p_targets plan)"
    using st by (auto simp: tx_static_def)
  then have anchor': "lock_anchor_ok w" and gen: "w_gen w lock_path = w_gen w0 lock_path"
    using inv anchor by (auto simp: tx_inv_def lock_anchor_ok_def)
  have rel: "release_lock (w_gen w lock_path) (recover_writer_id E auth) (holding w) = Done () (w\<lparr>w_locked := False\<rparr>)"
    using release_ok [OF recover_writer_safe [OF ok] anchor st inv] by (simp add: gen holding_def)
  show ?thesis
    unfolding recover_reads [OF ok id wr [unfolded p] anchor' free disk [unfolded p] mf op] if_P [OF com] finally_run.simps rel
    using inv after by (simp add: all_after_def frame_kept_def tx_inv_def current_def)
qed

text \<open>C3: All or nothing across a crash. Kill the process at any durable step of an apply, then recover in the restarted
  process (the lock died with it, nothing fails): every target has its new content, or every target has its old
  content, and no other file but the manifest changed. Recovery answers NO_CHANGE in the first case and RECOVERED in
  the second; when the process died before the first manifest was in place it reports that there is none. The
  schedule may contain failing replacements, as long as none fails after it took effect.\<close>

theorem exact_crash_then_recover:
  assumes "env_ok E" and "independent_plan plan" and "no_collision E plan w" and "Fail_After \<notin> set (w_faults w)"
    and "apply_exact_file_plan E plan a w = Crashed w1"
    and "operation = [] \<or> operation = p_operation plan"
  shows "let restarted = w1\<lparr>w_locked := False, w_faults := []\<rparr> in
     case recover_exact_file_transaction E (a_id a) operation restarted of
       Done r w' \<Rightarrow>
         (v_decision r = ''NO_CHANGE'' \<and> all_after plan w' \<or> v_decision r = ''RECOVERED'' \<and> all_before plan w w')
         \<and> frame_kept plan (exact_manifest_rel (a_id a)) w w'
     | Raised e w' \<Rightarrow>
         e = ValueError ''exact-file manifest is missing'' \<and> all_before plan w w'
         \<and> frame_kept plan (exact_manifest_rel (a_id a)) w w'
     | Crashed w' \<Rightarrow> False"
proof -
  define p where "p = exact_manifest_rel (a_id a)"
  define w2 where "w2 = w1\<lparr>w_locked := False, w_faults := []\<rparr>"
  have adm: "admitted E plan a w" using apply_refused assms(5) by fastforce
  then have free: "\<not> w_locked w" using assms(5) by (auto simp: apply_admitted [OF assms(1)])
  have val: "validate_exact_plan E plan = Inr ()" and id: "safe_authorization_id (a_id a)"
    and pre: "\<forall>t \<in> set (p_targets plan). preimage_holds E (holding w) t" and anchor: "lock_anchor_ok (holding w)"
    using adm validate_for_id by (auto simp: admitted_def preimage_holds_def content_of_def)
  have st: "tx_static E plan p" unfolding p_def by (rule tx_static_valid [OF val assms(2)])
  have "stopped E plan (a_id a) p (holding w) w1"
    using wp_Crashed [OF apply_wp [OF assms(1) adm assms(2) free] assms(5)] by (simp add: p_def)
  moreover have "clean (holding w)" using assms(4) by (simp add: clean_def)
  ultimately have rec: "recoverable E plan (a_id a) p (holding w) w1"
    using assms(3) by (simp add: stopped_def applies_back_def)
  have nc: "no_collision E plan (holding w)" using assms(3) by simp
  have same: "tx_inv plan p (holding w) A (holding w2)" if "tx_inv plan p (holding w) A w1" for A
    by (rule tx_inv_same [OF that]) (simp_all add: w2_def)
  have disk: "on_disk E p m w2 = on_disk E p m w1" and cur: "current w2 t = current w1 t" for m t
    by (simp_all add: on_disk_def current_def w2_def)
  have f2: "\<not> w_locked w2" "quiet w2" by (simp_all add: w2_def quiet_def)
  have hold: "all_before plan (holding w) w' = all_before plan w w'"
    "frame_kept plan p (holding w) w' = frame_kept plan p w w'" for w'
    by (simp_all add: all_before_def frame_kept_def)
  show ?thesis
    unfolding Let_def w2_def [symmetric] p_def [symmetric]
    using rec [unfolded recoverable_def]
  proof (elim disjE conjE, goal_cases)
    case 1
    then have none: "file_at (w_fs w1) p = None" and inv: "tx_inv plan p (holding w) {} w1" by auto
    have "writable (w_fs w2) p" using inv by (simp add: tx_inv_def w2_def)
    then have "recover_exact_file_transaction E (a_id a) operation w2 = Raised (ValueError ''exact-file manifest is missing'') w2"
      using none id by (simp add: recover_exact_file_transaction_def exact_manifest_path_def safe_path_check p_def w2_def)
    then show ?case
      using inv by (simp add: all_before_def frame_kept_def tx_inv_def current_def w2_def p_def)
  next
    case 2
    then obtain m where "on_disk E p m w1" "manifest_for E plan (a_id a) (holding w) m" "m_state m \<noteq> ''COMMITTED''"
      "tx_inv plan p (holding w) (set (m_attempted m)) w1" unfolding pending_def by blast
    with recover_pending [OF assms(1) st p_def id pre nc anchor _ _ _ _ _ f2 assms(6)] same disk hold
    show ?case by fastforce
  next
    case 3
    then obtain m where "on_disk E p m w1" "manifest_for E plan (a_id a) (holding w) m" "m_state m = ''COMMITTED''"
      "tx_inv plan p (holding w) (set (target_refs plan)) w1" "\<forall>t \<in> set (p_targets plan). current w1 t = Some (t_after t)"
      unfolding committed_def by blast
    with recover_committed [OF assms(1) st p_def id anchor _ _ _ _ _ f2(1) assms(6)] same disk cur hold
    show ?case by fastforce
  qed
qed

theorem exact_crash_then_recover_witness:
  "\<exists>w1. mini_apply ''f'' [No_Fault, No_Fault, No_Fault, Crash_After] = Crashed w1
     \<and> (case recover_exact_file_transaction sample_env ''k'' [] (w1\<lparr>w_locked := False, w_faults := []\<rparr>) of
          Done r w' \<Rightarrow> all_after (mini_plan ''f'') w' \<or> file_at (w_fs w') (f_path ''f'') = Some ''a''
        | Raised e w' \<Rightarrow> file_at (w_fs w') (f_path ''f'') = Some ''a'' | Crashed w' \<Rightarrow> False)"
proof -
  have "\<exists>w1. mini_apply ''f'' [No_Fault, No_Fault, No_Fault, Crash_After] = Crashed w1"
    by (simp add: mini_apply_run mini_run)
  then obtain w1 where r: "mini_apply ''f'' [No_Fault, No_Fault, No_Fault, Crash_After] = Crashed w1" by blast
  have "Fail_After \<notin> set (w_faults (mini_world ''f'' (Some ''a'') None (\<lambda>_. 0) False [No_Fault, No_Fault, No_Fault, Crash_After]))"
    by simp
  from exact_crash_then_recover [OF sample_env_ok mini_independent mini_no_collision this r, of "[]"] r
  show ?thesis by (auto simp: Let_def all_before_def split: run.splits)
qed


section \<open>An authorization is used once\<close>

text \<open>A manifest of the runtime directory that is on disk stays there: no target lies in that directory, so no operation removes it.\<close>

definition there :: "path \<Rightarrow> world \<Rightarrow> bool" where
  "there p w = (file_at (w_fs w) p \<noteq> None)"

abbreviation keeps :: "path \<Rightarrow> 'a run \<Rightarrow> bool" where
  "keeps p r \<equiv> wp r (\<lambda>_. there p) (\<lambda>_. there p) (there p)"

abbreviation same_files :: "world \<Rightarrow> 'a run \<Rightarrow> bool" where
  "same_files w r \<equiv> wp r (\<lambda>_ w'. file_at (w_fs w') = file_at (w_fs w)) (\<lambda>_ w'. file_at (w_fs w') = file_at (w_fs w)) (\<lambda>_. False)"

lemma there_same: "file_at (w_fs w') = file_at (w_fs w) \<Longrightarrow> there p w' = there p w"
  by (simp add: there_def)

lemma keeps_same: "same_files w r \<Longrightarrow> there p w \<Longrightarrow> keeps p r"
  by (erule wp_mono) (simp_all add: there_def)

lemma check_parents_files: "check_parents c cur qs fs = Some fs' \<Longrightarrow> file_at fs' = file_at fs"
proof (induction qs arbitrary: cur fs)
  case (Cons q qs)
  have "file_at (fs(cur @ [q] \<mapsto> Dir)) = file_at fs" if "fs (cur @ [q]) = None"
    by (rule ext) (use that in \<open>simp add: file_at_def\<close>)
  then show ?case using Cons.prems Cons.IH by (auto split: option.splits node.splits if_splits)
qed simp

lemma safe_path_files: "same_files w (safe_path c p w)"
  by (auto simp: safe_path_def dest: check_parents_files split: option.splits)

lemma manifest_path_files: "same_files w (exact_manifest_path c i w)"
  using safe_path_files [where w = w and c = c and p = "exact_manifest_rel i"] by (simp add: exact_manifest_path_def wp_simps)

lemma preimage_files: "same_files w (exact_preimage E t w)"
  using safe_path_files [where w = w and c = False and p = "target_path t"]
  by (simp add: exact_preimage_def wp_simps Let_def) (rule wp_mono, assumption, auto)

lemma map_run_files:
  assumes "\<And>x w. same_files w (f x w)"
  shows "same_files w (map_run f xs w)"
proof (induction xs arbitrary: w)
  case (Cons x xs)
  show ?case
  proof (simp add: wp_simps, rule wp_mono [OF assms], goal_cases)
    case (1 y w')
    show ?case by (rule wp_mono [OF Cons.IH]) (use 1 in simp_all)
  qed simp_all
qed simp

lemma durable_keeps: "there p w \<Longrightarrow> (\<And>u. there p u \<Longrightarrow> there p (change u)) \<Longrightarrow> keeps p (durable change w)"
  by (cases "next_fault w") (simp_all add: durable_def Let_def there_def drop_fault_def)

lemma write_keeps: "there p w \<Longrightarrow> keeps p (write_atomic q c w)"
proof -
  assume t: "there p w"
  have put: "there p u \<Longrightarrow> there p (put_file q c u)" for u by (auto simp: there_def put_file_def file_at_def)
  show ?thesis
  proof (cases "check_parents True [] (butlast q) (w_fs w)")
    case (Some fs)
    have "there p (w\<lparr>w_fs := fs\<rparr>)" using t check_parents_files [OF Some] by (simp add: there_def)
    then show ?thesis using t put durable_keeps by (simp add: write_atomic_def Some)
  qed (use t in \<open>simp add: write_atomic_def\<close>)
qed

lemma write_leaves:
  "wp (write_atomic p c w) (\<lambda>_. there p) (\<lambda>_ w'. there p w' \<or> file_at (w_fs w') = file_at (w_fs w))
     (\<lambda>w'. there p w' \<or> file_at (w_fs w') = file_at (w_fs w))"
proof (cases "check_parents True [] (butlast p) (w_fs w)")
  case (Some fs)
  then show ?thesis using check_parents_files [OF Some]
    by (cases "next_fault (w\<lparr>w_fs := fs\<rparr>)") (simp_all add: write_atomic_def durable_def Let_def put_file_def there_def drop_fault_def file_at_def)
qed (simp add: write_atomic_def)

lemma unlink_keeps: "there p w \<Longrightarrow> q \<noteq> p \<Longrightarrow> keeps p (unlink q w)"
  unfolding unlink_def by (rule durable_keeps) (auto simp: there_def del_file_def file_at_def)

lemma restore_keeps: "there p w \<Longrightarrow> target_path t \<noteq> p \<Longrightarrow> keeps p (restore_target E m t w)"
  by (simp add: restore_target_def Let_def write_keeps unlink_keeps split: option.split)

lemma rollback_ref_keeps:
  assumes "there p w" and "\<forall>t \<in> set ts. target_path t \<noteq> p"
  shows "keeps p (rollback_ref E ts m ref w)"
proof (cases "find (\<lambda>t. t_ref t = ref) (rev ts)")
  case (Some t)
  then have "target_path t \<noteq> p" using assms(2) by (auto simp: find_Some_iff) (metis nth_mem set_rev length_rev)
  then have restore: "there p u \<Longrightarrow> keeps p (restore_target E m t u)" for u by (rule restore_keeps [rotated])
  show ?thesis
    unfolding rollback_ref.simps Some option.case wp_simps
    by (rule wp_mono [OF keeps_same [OF safe_path_files assms(1)]]) (rule wp_mono [OF restore], auto split: exc.split)
qed (use assms in simp)

lemma map_run_keeps: "(\<And>x w. there p w \<Longrightarrow> keeps p (f x w)) \<Longrightarrow> there p w \<Longrightarrow> keeps p (map_run f xs w)"
proof (induction xs arbitrary: w)
  case (Cons x xs)
  show ?case unfolding map_run.simps wp_simps
    by (rule wp_mono [OF Cons.prems(1) [OF Cons.prems(2)]], rule wp_mono [OF Cons.IH]) (use Cons.prems(1) in simp_all)
qed simp

lemma valid_targets_outside:
  assumes "validate_exact_plan E plan = Inr ()" and "t \<in> set (p_targets plan)"
  shows "target_path t \<noteq> exact_manifest_rel i"
  using valid_target_parts(2) [OF validate_plan_targets [OF assms]] by (auto simp: exact_manifest_rel_def)

lemma rollback_keeps:
  assumes "there (exact_manifest_rel i) w"
  shows "keeps (exact_manifest_rel i) (rollback_exact E m w)"
proof (cases "plan_from_mapping E (m_plan m)")
  case (Inr plan)
  have "validate_exact_plan E plan = Inr ()"
    using Inr by (auto simp: plan_from_mapping_def Let_def split: if_splits sum.splits)
  then have "\<forall>t \<in> set (p_targets plan). target_path t \<noteq> exact_manifest_rel i" using valid_targets_outside by blast
  then have ref: "there (exact_manifest_rel i) u \<Longrightarrow> keeps (exact_manifest_rel i) (rollback_ref E (p_targets plan) m r u)" for r u
    by (rule rollback_ref_keeps [rotated])
  show ?thesis unfolding rollback_exact_def Inr sum.case wp_simps
    by (rule wp_mono [OF map_run_keeps [OF ref assms]]) simp_all
qed (use assms in \<open>simp add: rollback_exact_def\<close>)

lemma abort_keeps:
  assumes "there (exact_manifest_rel i) w"
  shows "keeps (exact_manifest_rel i) (abort_targets E p plan a m e w)"
  unfolding abort_targets_def Let_def wp_simps
  by (rule wp_mono [OF rollback_keeps [OF assms]]) (unfold write_manifest_def, rule wp_mono [OF write_keeps], simp_all)

lemma apply_target_keeps: "there p w \<Longrightarrow> keeps p (apply_target E q t m w)"
proof -
  assume w: "there p w"
  have man: "there p u \<Longrightarrow> keeps p (write_manifest E q m' u)" for m' u unfolding write_manifest_def by (rule write_keeps)
  show ?thesis unfolding apply_target_def Let_def wp_simps prod.case option.case
    by (rule wp_mono [OF keeps_same [OF preimage_files w]])
      (rule wp_mono [OF man] wp_mono [OF keeps_same [OF safe_path_files]] wp_mono [OF write_keeps] | simp)+
qed

lemma apply_targets_keeps: "there p w \<Longrightarrow> keeps p (apply_targets E q ts m w)"
proof (induction ts arbitrary: m w)
  case (Cons t ts)
  show ?case unfolding apply_targets.simps wp_simps
    by (rule wp_mono [OF apply_target_keeps [OF Cons.prems]]) (use Cons.IH in \<open>auto split: option.split\<close>)
qed simp

lemma commit_keeps: "there p w \<Longrightarrow> keeps p (commit_targets E q plan m w)"
proof -
  assume w: "there p w"
  have man: "there p u \<Longrightarrow> keeps p (write_manifest E q m' u)" for m' u unfolding write_manifest_def by (rule write_keeps)
  show ?thesis unfolding commit_targets_def Let_def wp_simps prod.case option.case
    by (rule wp_mono [OF man [OF w]], rule wp_mono [OF apply_targets_keeps], assumption) (auto intro: man split: option.split)
qed

lemma prepare_files:
  "wp (prepare E plan a w) (\<lambda>x w'. file_at (w_fs w') = file_at (w_fs w) \<and> (\<forall>r. x = Inl r \<longrightarrow> r_decision r = ''BLOCKED''))
     (\<lambda>_ w'. file_at (w_fs w') = file_at (w_fs w)) (\<lambda>_. False)"
proof -
  have image: "same_files u (and_then (exact_preimage E t u) (\<lambda>c. Done (t_ref t, c)))" for t u
    unfolding wp_simps by (rule wp_mono [OF preimage_files]) simp_all
  show ?thesis unfolding prepare_def wp_simps
  proof (rule wp_mono [OF manifest_path_files], goal_cases)
    case (1 p u)
    show ?case
    proof (cases "w_fs u p = None")
      case True
      show ?thesis unfolding True if_not_P [OF not_not [THEN iffD2, OF refl]] wp_simps
        by (rule wp_mono [OF map_run_files [OF image]], rule wp_mono [OF manifest_path_files]) (use 1 in simp_all)
    qed (use 1 in \<open>simp add: blocked_exact_receipt_def\<close>)
  qed simp_all
qed

text \<open>A run changes a file only after its manifest is on disk.\<close>

lemma locked_spends:
  defines "spent \<equiv> \<lambda>a w w'. there (exact_manifest_rel (a_id a)) w' \<or> file_at (w_fs w') = file_at (w_fs w)"
  shows "wp (locked_apply E plan a w)
     (\<lambda>r w'. there (exact_manifest_rel (a_id a)) w' \<or> file_at (w_fs w') = file_at (w_fs w) \<and> r_decision r = ''BLOCKED'')
     (\<lambda>_. spent a w) (spent a w)"
  unfolding locked_apply_def wp_simps
proof (rule wp_mono [OF prepare_files], goal_cases)
  case (1 x u)
  show ?case
  proof (cases x)
    case (Inr images)
    let ?p = "exact_manifest_rel (a_id a)" and ?m = "initial_manifest E plan a images"
    show ?thesis
    proof (cases "validate_exact_manifest E (manifest_payload ?m) (a_id a)")
      case i: (Inr y)
      have after: "wp (and_then (commit_targets E ?p plan ?m v) (\<lambda>(m, stopped) w. case stopped of
               None \<Rightarrow> Done (transaction_receipt plan a m ''PASS'' False []) w | Some e \<Rightarrow> abort_targets E ?p plan a m e w))
          (\<lambda>r w'. there ?p w' \<or> file_at (w_fs w') = file_at (w_fs w) \<and> r_decision r = ''BLOCKED'') (\<lambda>_. spent a w) (spent a w)"
        if "there ?p v" for v
        unfolding wp_simps by (rule wp_mono [OF commit_keeps [OF that]])
          (auto simp: spent_def intro: wp_mono [OF abort_keeps] split: option.split)
      show ?thesis unfolding Inr sum.case Let_def i write_manifest_def wp_and_then [of "write_atomic _ _ _"]
        by (rule wp_mono [OF write_leaves], erule after) (use 1 in \<open>auto simp: spent_def\<close>)
    qed (use 1 in \<open>simp add: Inr Let_def spent_def\<close>)
  qed (use 1 in simp)
qed (auto simp: blocked_exact_receipt_def spent_def)

lemma locked_keeps:
  assumes "there (exact_manifest_rel i) w"
  shows "keeps (exact_manifest_rel i) (locked_apply E plan a w)"
  unfolding locked_apply_def wp_simps
proof (rule wp_mono [OF prepare_files], goal_cases)
  case (1 x u)
  then have u: "there (exact_manifest_rel i) u" using assms by (simp add: there_def)
  show ?case
  proof (cases x)
    case (Inr images)
    let ?p = "exact_manifest_rel (a_id a)" and ?m = "initial_manifest E plan a images"
    have after: "keeps (exact_manifest_rel i) (and_then (commit_targets E ?p plan ?m v) (\<lambda>(m, stopped) w. case stopped of
             None \<Rightarrow> Done (transaction_receipt plan a m ''PASS'' False []) w | Some e \<Rightarrow> abort_targets E ?p plan a m e w))"
      if "there (exact_manifest_rel i) v" for v
      unfolding wp_simps by (rule wp_mono [OF commit_keeps [OF that]]) (auto intro: abort_keeps split: option.split)
    show ?thesis unfolding Inr sum.case Let_def write_manifest_def
      by (cases "validate_exact_manifest E (manifest_payload ?m) (a_id a)")
        (auto simp: u wp_and_then [of "write_atomic _ _ _"] intro: wp_mono [OF write_keeps [OF u]] after)
  qed (use u in simp)
qed (use assms in \<open>auto simp: there_def\<close>)

lemma release_files: "wp (release_lock h i w) (\<lambda>_ w'. w_fs w' = w_fs w) (\<lambda>_ w'. w_fs w' = w_fs w) (\<lambda>_. False)"
  by (simp add: release_lock_def)

lemma acquire_files: "wp (acquire_lock i w) (\<lambda>_ w'. w_fs w' = w_fs w) (\<lambda>_ w'. w_fs w' = w_fs w) (\<lambda>_. False)"
  by (simp add: acquire_lock_def)


lemma admit_files:
  "wp (admit E plan a w) (\<lambda>x w'. w' = w \<and> (\<forall>r. x = Some r \<longrightarrow> r_decision r = ''BLOCKED'')) (\<lambda>_ w'. w' = w) (\<lambda>_. False)"
  using admit_refused [of E plan a w] admit_admitted [of E plan a w] by (cases "admitted E plan a w") auto

text \<open>However a run ends: it left its manifest, or it changed no file and any receipt is BLOCKED.\<close>

lemma apply_spends:
  "wp (apply_exact_file_plan E plan a w)
     (\<lambda>r w'. there (exact_manifest_rel (a_id a)) w' \<or> file_at (w_fs w') = file_at (w_fs w) \<and> r_decision r = ''BLOCKED'')
     (\<lambda>_ w'. there (exact_manifest_rel (a_id a)) w' \<or> file_at (w_fs w') = file_at (w_fs w))
     (\<lambda>w'. there (exact_manifest_rel (a_id a)) w' \<or> file_at (w_fs w') = file_at (w_fs w))"
  unfolding apply_exact_file_plan_def wp_simps
proof (rule wp_mono [OF admit_files], goal_cases)
  case (1 x u)
  show ?case
  proof (cases x)
    case None
    show ?thesis
    proof (cases "acquire_lock (apply_writer_id E a) u")
      case (Done h v)
      have v: "w_fs v = w_fs w" using wp_Done [OF acquire_files Done] 1 by simp
      show ?thesis unfolding None option.case Done run.case wp_finally
        by (rule wp_mono [OF locked_spends]; (rule wp_mono [OF release_files])?) (auto simp: v there_def)
    qed (use acquire_files [of "apply_writer_id E a" u] 1 in \<open>auto simp: None blocked_exact_receipt_def\<close>)
  qed (use 1 in simp)
qed (auto simp: blocked_exact_receipt_def)

lemma apply_keeps:
  assumes "there (exact_manifest_rel i) w"
  shows "keeps (exact_manifest_rel i) (apply_exact_file_plan E plan a w)"
  unfolding apply_exact_file_plan_def wp_simps
proof (rule wp_mono [OF admit_files], goal_cases)
  case (1 x u)
  show ?case
  proof (cases x)
    case None
    show ?thesis
    proof (cases "acquire_lock (apply_writer_id E a) u")
      case (Done h v)
      have v: "there (exact_manifest_rel i) v" using wp_Done [OF acquire_files Done] 1 assms by (simp add: there_def)
      show ?thesis unfolding None option.case Done run.case wp_finally
        by (rule wp_mono [OF locked_keeps [OF v]]; (rule wp_mono [OF release_files])?) (auto simp: there_def)
    qed (use acquire_files [of "apply_writer_id E a" u] 1 assms in \<open>auto simp: None there_def\<close>)
  qed (use 1 assms in simp)
qed (use assms in auto)

lemma locked_recover_keeps:
  assumes "there (exact_manifest_rel i) w"
  shows "keeps (exact_manifest_rel i) (locked_recover E auth operation p w)"
proof -
  have restored: "keeps (exact_manifest_rel i) (and_then (rollback_exact E m w) (\<lambda>failures u. and_then (write_manifest E p (f failures) u) (\<lambda>_. Done (g failures))))"
    for m f g unfolding wp_simps write_manifest_def
    by (rule wp_mono [OF rollback_keeps [OF assms]], rule wp_mono [OF write_keeps]) simp_all
  show ?thesis using assms restored unfolding locked_recover_def Let_def by (auto split: option.split sum.split)
qed

lemma recover_keeps:
  assumes "there (exact_manifest_rel i) w"
  shows "keeps (exact_manifest_rel i) (recover_exact_file_transaction E auth operation w)"
  unfolding recover_exact_file_transaction_def wp_simps
proof (rule wp_mono [OF keeps_same [OF manifest_path_files assms]], goal_cases)
  case (1 p u)
  show ?case
  proof (cases "file_at (w_fs u) p = None")
    case False
    show ?thesis unfolding if_not_P [OF False] wp_simps
    proof (rule wp_mono [OF acquire_files], goal_cases)
      case (1 h v)
      then have v: "there (exact_manifest_rel i) v" using \<open>there (exact_manifest_rel i) u\<close> by (simp add: there_def)
      show ?case by (rule wp_mono [OF locked_recover_keeps [OF v]]; (rule wp_mono [OF release_files])?) (auto simp: there_def)
    qed (use 1 in \<open>auto simp: there_def\<close>)
  qed (use 1 in simp)
qed simp_all

fun world_after :: "'a run \<Rightarrow> world" where
  "world_after (Done x w) = w"
| "world_after (Raised e w) = w"
| "world_after (Crashed w) = w"

text \<open>What may happen afterwards: further applications and recoveries, of any plan under any authorization, and a restart of the process,
  which gives the lock back. Every run may end in any way.\<close>

inductive later :: "world \<Rightarrow> world \<Rightarrow> bool" for w where
  at_once: "later w w"
| applied: "later w u \<Longrightarrow> later w (world_after (apply_exact_file_plan E plan a u))"
| recovered: "later w u \<Longrightarrow> later w (world_after (recover_exact_file_transaction E auth operation u))"
| restarted: "later w u \<Longrightarrow> later w (u\<lparr>w_locked := False, w_faults := fs\<rparr>)"

lemma run_case_weaken:
  "(case r of Done x u \<Rightarrow> P x u | Raised e u \<Rightarrow> Q e u | Crashed u \<Rightarrow> R u) \<Longrightarrow> (\<And>x u. P x u \<Longrightarrow> P' x u)
   \<Longrightarrow> (case r of Done x u \<Rightarrow> P' x u | Raised e u \<Rightarrow> Q e u | Crashed u \<Rightarrow> R u)"
  by (cases r) simp_all

lemma wp_world_after: "wp r (\<lambda>_. P) (\<lambda>_. P) P \<longleftrightarrow> P (world_after r)"
  by (cases r) simp_all

lemma later_keeps: "later w u \<Longrightarrow> there (exact_manifest_rel i) w \<Longrightarrow> there (exact_manifest_rel i) u"
proof (induction rule: later.induct)
  case (restarted u fs)
  then show ?case by (simp add: there_def)
qed (use apply_keeps recover_keeps in \<open>simp_all add: wp_world_after [symmetric]\<close>)

section \<open>When a run is refused\<close>

text \<open>A well-formed target and plan, and an authorization that is good for a plan at the time of the run.\<close>

definition target_valid :: "env \<Rightarrow> exact_file_target \<Rightarrow> bool" where
  "target_valid E t = (t_ref t \<noteq> [] \<and> \<not> is_absolute (t_ref t) \<and> CHR 0x5C \<notin> set (t_ref t) \<and> path_parts (t_ref t) \<noteq> []
     \<and> (\<forall>part \<in> set (path_parts (t_ref t)). part \<notin> {[], ''.'', ''..''}) \<and> hd (path_parts (t_ref t)) \<noteq> ''.meta-flow-runtime''
     \<and> digest_re (t_before_digest t) \<and> e_sha E (t_after t) = t_after_digest t \<and> digest_re (t_after_digest t)
     \<and> t_namespace t \<in> set target_namespaces)"

definition plan_valid :: "env \<Rightarrow> exact_file_plan \<Rightarrow> bool" where
  "plan_valid E plan = (p_operation plan \<noteq> [] \<and> length (p_operation plan) \<le> 128 \<and> list_all operation_char (p_operation plan)
     \<and> digest_re (p_semantic plan) \<and> distinct (map t_ref (p_targets plan)) \<and> (\<forall>t \<in> set (p_targets plan). target_valid E t)
     \<and> p_digest plan = exact_plan_digest E (p_operation plan) (p_targets plan) (p_semantic plan))"

definition authorizes :: "env \<Rightarrow> exact_file_authorization \<Rightarrow> exact_file_plan \<Rightarrow> bool" where
  "authorizes E a plan = (safe_authorization_id (a_id a) \<and> a_operation a = p_operation plan \<and> a_plan_digest a = p_digest plan
     \<and> a_target_refs a = map t_ref (p_targets plan)
     \<and> (\<exists>t. e_iso E (concat (map (\<lambda>c. if c = CHR ''Z'' then ''+00:00'' else [c]) (a_expires_at a))) = Some (Some t) \<and> e_now E < t))"

text \<open>The code a run is refused with, in the order of the checks.\<close>

definition refusal_code :: "env \<Rightarrow> exact_file_plan \<Rightarrow> exact_file_authorization \<Rightarrow> world \<Rightarrow> string option" where
  "refusal_code E plan a w =
     (if \<not> plan_valid E plan \<or> \<not> authorizes E a plan \<or> \<not> writable (w_fs w) (exact_manifest_rel (a_id a))
      then Some ''EXACT_FILE_ADMISSION_FAILED''
      else if w_fs w (exact_manifest_rel (a_id a)) \<noteq> None then Some ''EXACT_FILE_AUTHORIZATION_ALREADY_CONSUMED''
      else if \<exists>t \<in> set (p_targets plan). ''.git'' \<in> set (path_parts (t_ref t)) then Some ''EXACT_FILE_GIT_NAMESPACE_FORBIDDEN''
      else if (\<exists>t \<in> set (p_targets plan). \<not> preimage_holds E w t) \<or> \<not> lock_anchor_ok w then Some ''EXACT_FILE_ADMISSION_FAILED''
      else if w_locked w then Some ''EXACT_FILE_WRITER_LOCK_UNAVAILABLE'' else None)"

lemma validate_target_iff: "validate_exact_target E t = Inr () \<longleftrightarrow> target_valid E t"
  by (cases "path_parts (t_ref t)")
    (auto simp: validate_exact_target_def target_valid_def Let_def unsafe_part_def backslash_def list_ex_iff)

lemma validate_plan_iff: "validate_exact_plan E plan = Inr () \<longleftrightarrow> plan_valid E plan"
proof -
  have "check_all (validate_exact_target E) (p_targets plan) = Inr () \<longleftrightarrow> (\<forall>t \<in> set (p_targets plan). target_valid E t)"
    by (simp add: check_all_Inr validate_target_iff)
  then show ?thesis
    by (cases "check_all (validate_exact_target E) (p_targets plan)") (auto simp: validate_exact_plan_def plan_valid_def target_refs_def)
qed

lemma validate_for_iff: "validate_for E a plan = Inr () \<longleftrightarrow> authorizes E a plan"
  by (auto simp: validate_for_def authorizes_def target_refs_def split: option.splits)

lemma check_all_Inl: "check_all f xs = Inl e \<Longrightarrow> \<exists>x \<in> set xs. f x = Inl e"
  by (induction xs) (auto split: sum.splits)

lemma validate_target_error:
  assumes "validate_exact_target E t = Inl e" and "\<not> is_value_error e"
  shows "e = IndexError ''tuple index out of range'' \<and> path_parts (t_ref t) = []"
proof (cases "path_parts (t_ref t)")
  case Nil
  then show ?thesis using assms unfolding validate_exact_target_def Let_def by (simp split: if_splits) force
next
  case (Cons x xs)
  then have "e = ValueError ''exact-file target is invalid''"
    using assms(1) unfolding validate_exact_target_def Let_def by (simp split: if_splits)
  then show ?thesis using assms(2) by simp
qed

lemma validate_plan_error:
  assumes "validate_exact_plan E plan = Inl e" and "\<not> is_value_error e"
  shows "e = IndexError ''tuple index out of range'' \<and> (\<exists>t \<in> set (p_targets plan). path_parts (t_ref t) = [])"
proof -
  have "check_all (validate_exact_target E) (p_targets plan) = Inl e"
    using assms by (auto simp: validate_exact_plan_def split: if_splits sum.splits)
  from check_all_Inl [OF this] obtain t where "t \<in> set (p_targets plan)" "validate_exact_target E t = Inl e" by blast
  then show ?thesis using validate_target_error [OF _ assms(2)] by blast
qed

lemma validate_for_error: "validate_for E a plan = Inl e \<Longrightarrow> is_value_error e"
  by (auto simp: validate_for_def split: if_splits option.splits)

text \<open>C23: When a run is refused, and with which code. The plan or the authorization is not valid (so it is expired, or bound to another
  plan), or the manifest path is unsafe: admission failed; the authorization was used before: already consumed; a target has a component
  \<open>.git\<close>: git namespace forbidden; the file of a target is not the planned preimage, or the lock anchor is missing: admission failed; the lock is
  held: lock unavailable. In each of these cases the run ends without a change of the world, with a BLOCKED receipt that has this one
  code and no mutation, or, only when the plan names a target without any path component, with an \<open>IndexError\<close>. In every other case a
  run that returns is not BLOCKED.\<close>

theorem exact_apply_refuses:
  assumes "env_ok E"
  shows "case refusal_code E plan a w of
      Some code \<Rightarrow> (case apply_exact_file_plan E plan a w of
          Done r w' \<Rightarrow> r_decision r = ''BLOCKED'' \<and> r_reasons r = [code] \<and> r_mutations r = [] \<and> \<not> r_recovery_required r \<and> w' = w
        | Raised e w' \<Rightarrow> e = IndexError ''tuple index out of range'' \<and> (\<exists>t \<in> set (p_targets plan). path_parts (t_ref t) = []) \<and> w' = w
        | Crashed w' \<Rightarrow> False)
    | None \<Rightarrow> (case apply_exact_file_plan E plan a w of Done r w' \<Rightarrow> r_decision r \<noteq> ''BLOCKED'' | _ \<Rightarrow> True)"
proof -
  let ?p = "exact_manifest_rel (a_id a)"
  note run = apply_exact_file_plan_def admit_def exact_manifest_path_def safe_path_check blocked_exact_receipt_def
  consider e where "validate_exact_plan E plan = Inl e" | e where "validate_exact_plan E plan = Inr ()" "validate_for E a plan = Inl e"
    | "validate_exact_plan E plan = Inr ()" "validate_for E a plan = Inr ()"
    by (cases "validate_exact_plan E plan"; cases "validate_for E a plan") auto
  then show ?thesis
  proof cases
    case (1 e)
    then have "refusal_code E plan a w = Some ''EXACT_FILE_ADMISSION_FAILED''" using validate_plan_iff [of E plan] by (simp add: refusal_code_def)
    then show ?thesis using 1 validate_plan_error by (cases "is_value_error e") (auto simp: run)
  next
    case (2 e)
    then have "refusal_code E plan a w = Some ''EXACT_FILE_ADMISSION_FAILED''" using validate_for_iff [of E a plan] by (simp add: refusal_code_def)
    then show ?thesis using 2 validate_for_error [OF 2(2)] by (simp add: run)
  next
    case 3
    then have id: "safe_authorization_id (a_id a)" and valid: "plan_valid E plan" "authorizes E a plan"
      using validate_for_id validate_plan_iff validate_for_iff by blast+
    consider "\<not> writable (w_fs w) ?p" | "writable (w_fs w) ?p" "w_fs w ?p \<noteq> None"
      | "writable (w_fs w) ?p" "w_fs w ?p = None" "\<exists>t \<in> set (p_targets plan). ''.git'' \<in> set (path_parts (t_ref t))"
      | "writable (w_fs w) ?p" "w_fs w ?p = None" "\<forall>t \<in> set (p_targets plan). ''.git'' \<notin> set (path_parts (t_ref t))" by blast
    then show ?thesis
    proof cases
      case 4
      show ?thesis
      proof (cases "admitted E plan a w")
        case True
        have holds: "\<forall>t \<in> set (p_targets plan). preimage_holds E w t" "lock_anchor_ok w" using True by (simp_all add: admitted_def)
        show ?thesis
        proof (cases "w_locked w")
          case locked: True
          have "refusal_code E plan a w = Some ''EXACT_FILE_WRITER_LOCK_UNAVAILABLE''" using valid 4 holds locked by (auto simp: refusal_code_def)
          then show ?thesis using locked by (simp add: apply_admitted [OF assms True] blocked_exact_receipt_def)
        next
          case free: False
          have "refusal_code E plan a w = None" using valid 4 holds free by (auto simp: refusal_code_def)
          moreover have "wp (apply_exact_file_plan E plan a w) (\<lambda>r _. r_decision r \<in> {''PASS'', ''RECOVERED'', ''PARTIAL''}) (\<lambda>_ _. True) (\<lambda>_. True)"
            unfolding apply_admitted [OF assms True] if_not_P [OF free] wp_finally
            by (rule wp_mono [OF locked_apply_decision [OF assms]]; (rule wp_mono [OF release_files])?) (use True in auto)
          ultimately show ?thesis by (cases "apply_exact_file_plan E plan a w") auto
        qed
      next
        case False
        then have bad: "\<not> (\<forall>t \<in> set (p_targets plan). preimage_holds E w t) \<or> \<not> lock_anchor_ok w" using 3 4 by (auto simp: admitted_def)
        then have "refusal_code E plan a w = Some ''EXACT_FILE_ADMISSION_FAILED''" using valid 4 by (auto simp: refusal_code_def)
        moreover have "\<exists>m. admit E plan a w = Raised (ValueError m) w"
          using 3 4 bad id preimages_fail [of "p_targets plan" E w] preimages_run [of "p_targets plan" E w]
          by (cases "\<forall>t \<in> set (p_targets plan). preimage_holds E w t") (auto simp: admit_def exact_manifest_path_def safe_path_check list_ex_iff)
        ultimately show ?thesis by (auto simp: apply_exact_file_plan_def blocked_exact_receipt_def)
      qed
    qed (use 3 id valid in \<open>auto simp: run refusal_code_def list_ex_iff\<close>)
  qed
qed

theorem exact_apply_refuses_witness:
  "\<exists>r. apply_exact_file_plan sample_env (mini_plan ''f'') ((mini_authorization ''f'')\<lparr>a_id := []\<rparr>)
      (mini_world ''f'' (Some ''a'') None (\<lambda>_. 0) False []) = Done r (mini_world ''f'' (Some ''a'') None (\<lambda>_. 0) False [])
    \<and> r_reasons r = [''EXACT_FILE_ADMISSION_FAILED'']"
proof -
  let ?a = "(mini_authorization ''f'')\<lparr>a_id := []\<rparr>" and ?w = "mini_world ''f'' (Some ''a'') None (\<lambda>_. 0) False []"
  have "refusal_code sample_env (mini_plan ''f'') ?a ?w = Some ''EXACT_FILE_ADMISSION_FAILED''"
    by (simp add: refusal_code_def authorizes_def safe_authorization_id_def)
  moreover have "\<forall>t \<in> set (p_targets (mini_plan ''f'')). path_parts (t_ref t) \<noteq> []" by code_simp
  ultimately show ?thesis using exact_apply_refuses [OF sample_env_ok, of "mini_plan ''f''" ?a ?w]
    by (cases "apply_exact_file_plan sample_env (mini_plan ''f'') ?a ?w") auto
qed

text \<open>C22: An authorization is used once, however its run ended. Take any run that changed some file, or that answered anything but BLOCKED: it
  returned, raised an exception or was killed at any of its durable steps, under any fault schedule and with any plan, valid or not. After it
  and after any further applications, recoveries and restarts, which may end in any way as well, no plan is applied under the same
  authorization id, at no time: the world stays as it is, and the answer is BLOCKED, with the code of a used authorization when the plan
  and the authorization are valid and the manifest path is safe, or an exception.\<close>

theorem exact_authorization_single_use:
  assumes "file_at (w_fs (world_after (apply_exact_file_plan E plan a w))) \<noteq> file_at (w_fs w)
      \<or> (\<exists>r w'. apply_exact_file_plan E plan a w = Done r w' \<and> r_decision r \<noteq> ''BLOCKED'')"
    and "later (world_after (apply_exact_file_plan E plan a w)) u" and "a_id a' = a_id a"
  shows "case apply_exact_file_plan E' plan' a' u of
      Done r u' \<Rightarrow> r_decision r = ''BLOCKED'' \<and> r_mutations r = [] \<and> u' = u
        \<and> (plan_valid E' plan' \<and> authorizes E' a' plan' \<and> writable (w_fs u) (exact_manifest_rel (a_id a))
             \<longrightarrow> r_reasons r = [''EXACT_FILE_AUTHORIZATION_ALREADY_CONSUMED''])
    | Raised e u' \<Rightarrow> u' = u | Crashed u' \<Rightarrow> False"
proof -
  have "there (exact_manifest_rel (a_id a)) (world_after (apply_exact_file_plan E plan a w))"
    using assms(1) apply_spends [where a = a and w = w and E = E and plan = plan] by (cases "apply_exact_file_plan E plan a w") auto
  then have "there (exact_manifest_rel (a_id a)) u" by (rule later_keeps [OF assms(2)])
  then have used: "w_fs u (exact_manifest_rel (a_id a')) \<noteq> None" using assms(3) by (auto simp: there_def file_at_def split: option.splits node.splits)
  show ?thesis
  proof (cases "plan_valid E' plan' \<and> authorizes E' a' plan' \<and> writable (w_fs u) (exact_manifest_rel (a_id a))")
    case True
    then have "validate_exact_plan E' plan' = Inr ()" "validate_for E' a' plan' = Inr ()" "safe_authorization_id (a_id a')"
      using validate_plan_iff validate_for_iff validate_for_id by blast+
    then show ?thesis using True used assms(3)
      by (simp add: apply_exact_file_plan_def admit_def exact_manifest_path_def safe_path_check blocked_exact_receipt_def)
  next
    case False
    have "\<not> admitted E' plan' a' u" using used by (simp add: admitted_def)
    from admit_refused [OF this] show ?thesis using False
    proof (elim disjE exE conjE, goal_cases)
      case (2 e)
      then show ?case by (cases "is_value_error e") (auto simp: apply_exact_file_plan_def blocked_exact_receipt_def)
    qed (auto simp: apply_exact_file_plan_def)
  qed
qed

theorem exact_authorization_single_use_witness:
  "\<exists>w1. mini_apply ''f'' [No_Fault, No_Fault, No_Fault, Crash_After] = Crashed w1 \<and>
     (case apply_exact_file_plan sample_env (mini_plan anchor_ref) (mini_authorization anchor_ref) (w1\<lparr>w_locked := False, w_faults := []\<rparr>) of
        Done r u \<Rightarrow> r_decision r = ''BLOCKED'' \<and> u = w1\<lparr>w_locked := False, w_faults := []\<rparr>
      | Raised e u \<Rightarrow> u = w1\<lparr>w_locked := False, w_faults := []\<rparr> | Crashed u \<Rightarrow> False)"
proof -
  have "\<exists>w1. mini_apply ''f'' [No_Fault, No_Fault, No_Fault, Crash_After] = Crashed w1 \<and> file_at (w_fs w1) (f_path ''f'') = Some ''b''"
    by (simp add: mini_apply_run mini_run)
  then obtain w1 where r: "mini_apply ''f'' [No_Fault, No_Fault, No_Fault, Crash_After] = Crashed w1"
    and b: "file_at (w_fs w1) (f_path ''f'') = Some ''b''" by blast
  let ?w = "mini_world ''f'' (Some ''a'') None (\<lambda>_. 0) False [No_Fault, No_Fault, No_Fault, Crash_After]"
  let ?run = "apply_exact_file_plan sample_env (mini_plan ''f'') (mini_authorization ''f'') ?w"
  have after: "world_after ?run = w1" by (simp add: r)
  have a: "file_at (w_fs ?w) (f_path ''f'') = Some ''a''" by simp
  have "file_at (w_fs (world_after ?run)) \<noteq> file_at (w_fs ?w)"
  proof
    assume "file_at (w_fs (world_after ?run)) = file_at (w_fs ?w)"
    from fun_cong [OF this, of "f_path ''f''"] show False unfolding after a b by simp
  qed
  moreover have "later (world_after ?run) (w1\<lparr>w_locked := False, w_faults := []\<rparr>)" unfolding after by (rule restarted [OF at_once])
  moreover have "a_id (mini_authorization anchor_ref) = a_id (mini_authorization ''f'')" by simp
  ultimately have used: "case apply_exact_file_plan sample_env (mini_plan anchor_ref) (mini_authorization anchor_ref) (w1\<lparr>w_locked := False, w_faults := []\<rparr>) of
      Done r u' \<Rightarrow> r_decision r = ''BLOCKED'' \<and> r_mutations r = [] \<and> u' = w1\<lparr>w_locked := False, w_faults := []\<rparr>
        \<and> (plan_valid sample_env (mini_plan anchor_ref) \<and> authorizes sample_env (mini_authorization anchor_ref) (mini_plan anchor_ref)
            \<and> writable (w_fs (w1\<lparr>w_locked := False, w_faults := []\<rparr>)) (exact_manifest_rel (a_id (mini_authorization ''f'')))
             \<longrightarrow> r_reasons r = [''EXACT_FILE_AUTHORIZATION_ALREADY_CONSUMED''])
    | Raised e u' \<Rightarrow> u' = w1\<lparr>w_locked := False, w_faults := []\<rparr> | Crashed u' \<Rightarrow> False"
    by (intro exact_authorization_single_use disjI1)
  show ?thesis
  proof (intro exI conjI)
    show "mini_apply ''f'' [No_Fault, No_Fault, No_Fault, Crash_After] = Crashed w1" by (rule r)
    show "case apply_exact_file_plan sample_env (mini_plan anchor_ref) (mini_authorization anchor_ref) (w1\<lparr>w_locked := False, w_faults := []\<rparr>) of
        Done r u \<Rightarrow> r_decision r = ''BLOCKED'' \<and> u = w1\<lparr>w_locked := False, w_faults := []\<rparr>
      | Raised e u \<Rightarrow> u = w1\<lparr>w_locked := False, w_faults := []\<rparr> | Crashed u \<Rightarrow> False"
      by (rule run_case_weaken [OF used]) blast
  qed
qed

section \<open>Runs that break a promise\<close>

text \<open>A plan may name the file on which the writer lock is held. Replacing it gives the path a new inode, so after
  the transaction is committed and every target installed the release refuses, and the caller of apply sees a
  \<open>ValueError\<close> instead of the PASS receipt; the manifest on disk says COMMITTED.\<close>

theorem exact_apply_lock_anchor_target:
  "\<exists>w' m. mini_apply anchor_ref [] = Raised (ValueError ''shared projection writer lock identity drifted'') w'
     \<and> all_after (mini_plan anchor_ref) w' \<and> on_disk sample_env m_path m w' \<and> m_state m = ''COMMITTED''"
  by (simp add: mini_apply_run mini_run f_paths(2) [symmetric] all_after_def on_disk_def)
    (rule exI, rule conjI, rule refl, simp)

text \<open>A ref without path components, such as \<open>.\<close>, escapes the refusal: validation indexes an empty tuple, and apply
  raises \<open>IndexError\<close> instead of answering BLOCKED.\<close>

theorem exact_apply_dot_ref:
  assumes "p_targets plan = t # ts" and "t_ref t = ''.''"
    and "p_operation plan \<noteq> []" and "length (p_operation plan) \<le> 128" and "list_all operation_char (p_operation plan)"
    and "digest_re (p_semantic plan)" and "distinct (target_refs plan)"
  shows "apply_exact_file_plan E plan a w = Raised (IndexError ''tuple index out of range'') w"
proof -
  have "validate_exact_target E t = Inl (IndexError ''tuple index out of range'')"
    using assms(2) by (simp add: validate_exact_target_def is_absolute_def path_parts_def slash_def backslash_def Let_def)
  then have "validate_exact_plan E plan = Inl (IndexError ''tuple index out of range'')"
    using assms by (simp add: validate_exact_plan_def)
  then show ?thesis by (simp add: apply_exact_file_plan_def admit_def)
qed

theorem exact_apply_dot_ref_witness:
  "apply_exact_file_plan sample_env (build_exact_file_plan sample_env ''u'' [sample_target ''.'' None ''b''] (replicate 64 (CHR ''0'')))
     (mini_authorization ''f'') (mini_world ''f'' None None (\<lambda>_. 0) False [])
   = Raised (IndexError ''tuple index out of range'') (mini_world ''f'' None None (\<lambda>_. 0) False [])"
  by (rule exact_apply_dot_ref [where t = "sample_target ''.'' None ''b''" and ts = "[]"])
     (simp_all add: build_exact_file_plan_def Let_def sample_target_def target_refs_def operation_char_def guard_simps list_all_iff)

text \<open>When the directory sync after the COMMITTED manifest fails, apply rolls the targets back while the manifest on
  disk says COMMITTED. If the process dies before it can correct the manifest, recovery answers NO_CHANGE and leaves
  the old content in place of a transaction recorded as committed.\<close>

theorem exact_apply_sync_failure:
  "\<exists>w1 r w2. mini_apply ''f'' [No_Fault, No_Fault, No_Fault, No_Fault, No_Fault, Fail_After, No_Fault, Crash_Before]
       = Crashed w1
     \<and> recover_exact_file_transaction sample_env ''k'' [] (w1\<lparr>w_locked := False, w_faults := []\<rparr>) = Done r w2
     \<and> v_decision r = ''NO_CHANGE'' \<and> file_at (w_fs w2) (f_path ''f'') = Some ''a''"
proof -
  define g :: "path \<Rightarrow> nat" where "g = (\<lambda>_. 0)(m_path := Suc (Suc (Suc (Suc (Suc 0)))), f_path ''f'' := Suc (Suc 0))"
  define m where "m = mini_manifest ''f''\<lparr>m_attempted := [''f''], m_applied := [''f''], m_state := ''COMMITTED''\<rparr>"
  define w where "w = mini_world ''f'' (Some ''a'') (Some (e_dumps sample_env (PDict (manifest_payload m)))) g False []"
  have "manifest_for sample_env (mini_plan ''f'') ''k'' (mini_world ''f'' (Some ''a'') None g True []) (mini_manifest ''f'')"
    using initial_manifest_for(1) [OF sample_env_ok mini_admitted [of "''f''"]] by (simp add: mini_manifest_def content_of_def)
  then have mf: "manifest_for sample_env (mini_plan ''f'') ''k'' (mini_world ''f'' (Some ''a'') None g True []) m"
    by (auto simp: m_def manifest_for_def manifest_wf_def manifest_sorted_def state_names)
  have id: "safe_authorization_id ''k''" by code_simp
  have com: "m_state m = ''COMMITTED''" by (simp add: m_def)
  have disk: "on_disk sample_env (exact_manifest_rel ''k'') m w" by (simp add: on_disk_def w_def)
  have rec: "recover_exact_file_transaction sample_env ''k'' [] w =
      finally_run (Done \<lparr>v_decision = ''NO_CHANGE'', v_authorization = ''k'', v_plan_digest = p_digest (mini_plan ''f''),
          v_recovery_required = False, v_reasons = []\<rparr> (holding w)) (release_lock (w_gen w lock_path) (recover_writer_id sample_env ''k''))"
    using recover_reads [OF sample_env_ok id _ _ _ disk mf, of "[]"] com by (simp add: w_def lock_anchor_ok_def)
  have "release_lock (w_gen w lock_path) (recover_writer_id sample_env ''k'') (holding w) = Done () w"
    by (simp add: release_lock_def recover_writer_safe [OF sample_env_ok] w_def holding_def lock_anchor_ok_def)
  then show ?thesis
    using rec by (simp add: mini_apply_run mini_run w_def m_def g_def)
qed

end
