(* ===== verification/Exact_Inspect.thy ===== *)
theory Exact_Inspect
  imports Exact_Sample
begin

text \<open>
  Inspection of the exact-file transactions (\<open>inspect_exact_file_transactions\<close>): the manifests are loaded, the
  committed ones span a graph of file generations, and a target that no longer has the generation its
  transaction left must have been moved on by later committed transactions.

  The directory listing is an argument: the names of the subdirectories that hold an entry
  \<open>manifest.json\<close>, in order. The text of the root is an argument too, it occurs in findings only.
\<close>

type_synonym generation = "bool \<times> string"
type_synonym edges = "(string \<times> generation \<times> generation) list"

definition successors :: "edges \<Rightarrow> string \<Rightarrow> generation \<Rightarrow> generation list" where
  "successors es ref c = map (\<lambda>(r, a, b). b) (filter (\<lambda>(r, a, b). r = ref \<and> a = c) es)"

definition sources :: "edges \<Rightarrow> string \<Rightarrow> generation set" where
  "sources es ref = (\<lambda>(r, a, b). a) ` {e \<in> set es. fst e = ref}"

lemma finite_sources: "finite (sources es ref)"
  by (simp add: sources_def)

lemma no_source: "c \<notin> sources es ref \<Longrightarrow> successors es ref c = []"
  by (force simp: sources_def successors_def filter_empty_conv)

text \<open>The loop of \<open>reachable\<close>: the stack \<open>pending\<close> and the set \<open>seen\<close>.\<close>

function reach_loop :: "edges \<Rightarrow> string \<Rightarrow> generation \<Rightarrow> generation list \<Rightarrow> generation list \<Rightarrow> bool" where
  "reach_loop es ref cur [] seen = False"
| "reach_loop es ref cur (c # stack) seen =
     (if c = cur then True
      else if c \<in> set seen then reach_loop es ref cur stack seen
      else reach_loop es ref cur (rev (successors es ref c) @ stack) (c # seen))"
  by pat_completeness auto

termination reach_loop
proof (relation "measures [\<lambda>(es, ref, cur, stack, seen). card (sources es ref - set seen),
                           \<lambda>(es, ref, cur, stack, seen). length stack]", goal_cases)
  case (3 es ref cur c stack seen)
  show ?case
  proof (cases "c \<in> sources es ref")
    case True
    have "card (sources es ref - set (c # seen)) < card (sources es ref - set seen)"
      by (rule psubset_card_mono) (use True 3 finite_sources in auto)
    then show ?thesis by simp
  next
    case False
    then have "sources es ref - set (c # seen) = sources es ref - set seen" by auto
    then show ?thesis using no_source [OF False] by simp
  qed
qed auto

definition reachable :: "edges \<Rightarrow> string \<Rightarrow> generation \<Rightarrow> generation \<Rightarrow> bool" where
  "reachable es ref start cur = reach_loop es ref cur [start] []"

section \<open>Reachability is the closure of the committed steps\<close>

definition step_rel :: "edges \<Rightarrow> string \<Rightarrow> (generation \<times> generation) set" where
  "step_rel es ref = {(a, b). (ref, a, b) \<in> set es}"

lemma successors_step: "b \<in> set (successors es ref a) \<longleftrightarrow> (a, b) \<in> step_rel es ref"
  by (force simp: successors_def step_rel_def)

lemma escape:
  assumes "(x, y) \<in> R\<^sup>*" and "x \<in> A" and "y \<notin> A" and "\<forall>a \<in> A. \<forall>b. (a, b) \<in> R \<longrightarrow> b \<in> A \<union> S"
  shows "\<exists>s \<in> S. (s, y) \<in> R\<^sup>*"
  using assms(1,2)
proof (induction rule: converse_rtrancl_induct)
  case base
  then show ?case using assms(3) by simp
next
  case (step x z)
  then show ?case using assms(4) by blast
qed

lemma reach_loop_correct:
  "cur \<notin> set seen \<Longrightarrow> \<forall>a \<in> set seen. \<forall>b. (a, b) \<in> step_rel es ref \<longrightarrow> b \<in> set seen \<union> set stack
   \<Longrightarrow> reach_loop es ref cur stack seen \<longleftrightarrow> (\<exists>s \<in> set stack. (s, cur) \<in> (step_rel es ref)\<^sup>*)"
proof (induction es ref cur stack seen rule: reach_loop.induct)
  case (2 es ref cur c stack seen)
  show ?case
  proof (cases "c = cur")
    case False
    show ?thesis
    proof (cases "c \<in> set seen")
      case True
      have closed: "\<forall>a \<in> set seen. \<forall>b. (a, b) \<in> step_rel es ref \<longrightarrow> b \<in> set seen \<union> set stack"
        using 2(4) True by auto
      then have "(c, cur) \<in> (step_rel es ref)\<^sup>* \<Longrightarrow> \<exists>s \<in> set stack. (s, cur) \<in> (step_rel es ref)\<^sup>*"
        using escape [OF _ True 2(3)] by blast
      then show ?thesis using 2(1) [OF False True 2(3) closed] False True by auto
    next
      case new: False
      have notin: "cur \<notin> set (c # seen)" using False 2(3) by simp
      have closed: "\<forall>a \<in> set (c # seen). \<forall>b. (a, b) \<in> step_rel es ref
          \<longrightarrow> b \<in> set (c # seen) \<union> set (rev (successors es ref c) @ stack)"
        using 2(4) successors_step [of _ es ref c] by auto
      have "(c, cur) \<in> (step_rel es ref)\<^sup>* \<longleftrightarrow> (\<exists>s \<in> set (successors es ref c). (s, cur) \<in> (step_rel es ref)\<^sup>*)"
        using False successors_step by (metis converse_rtranclE converse_rtrancl_into_rtrancl)
      then show ?thesis using 2(2) [OF False new notin closed] False new by auto
    qed
  qed auto
qed simp

lemma reachable_step_rel: "reachable es ref start cur \<longleftrightarrow> (start, cur) \<in> (step_rel es ref)\<^sup>*"
  unfolding reachable_def using reach_loop_correct [of cur "[]" es ref "[start]"] by simp

text \<open>The search over generations is exact: one generation of a file is reachable from another precisely when a
  chain of committed transactions leads from it to the other. In particular the search ends on every graph,
  cycles included.\<close>

theorem reachable_iff_chain:
  "reachable es ref start cur \<longleftrightarrow> (start, cur) \<in> {(a, b). (ref, a, b) \<in> set es}\<^sup>*"
  using reachable_step_rel by (simp add: step_rel_def)

section \<open>Inspection\<close>

record transaction_entry =
  x_authorization :: string
  x_operation :: string
  x_state :: string
  x_classification :: string
  x_plan_digest :: string

record inspection =
  i_decision :: string
  i_transactions :: "transaction_entry list"
  i_findings :: "string list"

definition runtime_path :: path where
  "runtime_path = [''.meta-flow-runtime'', ''exact-file'']"

definition manifest_text_path :: "string \<Rightarrow> string \<Rightarrow> string" where
  "manifest_text_path root name =
     root @ [slash] @ join_with [slash] (runtime_path @ [name, ''manifest.json''])"

fun caught :: "exc \<Rightarrow> bool" where
  "caught (OSError _) = True"
| "caught (ValueError _) = True"
| "caught _ = False"

text \<open>The body of the first \<open>try\<close>: nothing for a manifest of another operation.\<close>

definition load_manifest :: "env \<Rightarrow> string \<Rightarrow> world \<Rightarrow> string \<Rightarrow> (exact_file_plan \<times> string) option result" where
  "load_manifest E expected w name =
     (let p = runtime_path @ [name, ''manifest.json''] in
      if w_fs w p = Some Symlink \<or> w_fs w (butlast p) = Some Symlink
      then Inl (ValueError ''manifest path is unsafe'')
      else case file_at (w_fs w) p of
        None \<Rightarrow> Inl (OSError ''Is a directory'')
      | Some text \<Rightarrow> (case e_loads E text of
          None \<Rightarrow> Inl (ValueError ''Expecting value'')
        | Some v \<Rightarrow>
          if \<not> is_dict v then Inl (ValueError ''manifest payload is invalid'')
          else case validate_exact_manifest E (dict_items v) name of
            Inl e \<Rightarrow> Inl e
          | Inr (plan, m) \<Rightarrow>
            if expected \<noteq> [] \<and> p_operation plan \<noteq> expected then Inr None else Inr (Some (plan, m_state m))))"

type_synonym loaded = "(string \<times> exact_file_plan \<times> string) list"

fun load_all :: "env \<Rightarrow> string \<Rightarrow> string \<Rightarrow> world \<Rightarrow> string list \<Rightarrow> (loaded \<times> string list) result" where
  "load_all E root expected w [] = Inr ([], [])"
| "load_all E root expected w (n # ns) =
     (case load_manifest E expected w n of
        Inl e \<Rightarrow>
          if caught e
          then map_sum id (\<lambda>(ls, fs).
                 (ls, (''EXACT_FILE_MANIFEST_INVALID:'' @ manifest_text_path root n @ '':'' @ exc_message e) # fs))
               (load_all E root expected w ns)
          else Inl e
      | Inr None \<Rightarrow> load_all E root expected w ns
      | Inr (Some (plan, st)) \<Rightarrow>
          map_sum id (\<lambda>(ls, fs). ((n, plan, st) # ls, fs)) (load_all E root expected w ns))"

definition committed_edges :: "loaded \<Rightarrow> edges" where
  "committed_edges ls =
     concat (map (\<lambda>(n, plan, st). if st \<noteq> ''COMMITTED'' then []
       else map (\<lambda>t. (t_ref t, (t_before_exists t, t_before_digest t), (True, t_after_digest t))) (p_targets plan)) ls)"

definition expected_generation :: "string \<Rightarrow> exact_file_target \<Rightarrow> generation" where
  "expected_generation st t =
     (if st = ''RECOVERED'' then (t_before_exists t, t_before_digest t) else (True, t_after_digest t))"

definition current_generation :: "env \<Rightarrow> world \<Rightarrow> exact_file_target \<Rightarrow> generation" where
  "current_generation E w t =
     (file_at (w_fs w) (target_path t) \<noteq> None, e_sha E (content_of w (target_path t)))"

text \<open>One pass over the targets of a transaction: whether it is superseded, and the drift findings. An unsafe
  target path stops the pass; the findings so far stay.\<close>

fun inspect_targets :: "env \<Rightarrow> edges \<Rightarrow> world \<Rightarrow> string \<Rightarrow> string \<Rightarrow> exact_file_target list
    \<Rightarrow> bool \<times> string list \<times> exc option" where
  "inspect_targets E es w n st [] = (False, [], None)"
| "inspect_targets E es w n st (t # ts) =
     (case safe_path False (target_path t) w of
        Done _ _ \<Rightarrow>
          (let expected = expected_generation st t; now = current_generation E w t;
               (superseded, fs, stop) = inspect_targets E es w n st ts in
           if now = expected then (superseded, fs, stop)
           else if reachable es (t_ref t) expected now then (True, fs, stop)
           else (superseded, (''EXACT_FILE_GENERATION_DRIFT:'' @ n @ '':'' @ t_ref t) # fs, stop))
      | Raised e _ \<Rightarrow> (False, [], Some e)
      | Crashed _ \<Rightarrow> (False, [], None))"

definition inspect_one :: "env \<Rightarrow> string \<Rightarrow> edges \<Rightarrow> world \<Rightarrow> string \<times> exact_file_plan \<times> string
    \<Rightarrow> transaction_entry list \<times> string list" where
  "inspect_one E root es w entry =
     (case entry of (n, plan, st) \<Rightarrow>
       let unresolved = (if st \<notin> {''COMMITTED'', ''RECOVERED''}
             then [''EXACT_FILE_UNRESOLVED:'' @ n @ '':'' @ st] else []);
           (superseded, fs, stop) = inspect_targets E es w n st (p_targets plan) in
       (case stop of
          Some e \<Rightarrow> ([], unresolved @ fs @ [''EXACT_FILE_TARGET_INVALID:'' @ manifest_text_path root n @ '':'' @ exc_message e])
        | None \<Rightarrow>
          ([\<lparr>x_authorization = n, x_operation = p_operation plan, x_state = st,
             x_classification = (if superseded then ''SUPERSEDED'' else st), x_plan_digest = p_digest plan\<rparr>],
           unresolved @ fs)))"

definition inspect_exact_file_transactions :: "env \<Rightarrow> string \<Rightarrow> string list \<Rightarrow> string \<Rightarrow> world \<Rightarrow> inspection result" where
  "inspect_exact_file_transactions E root names expected w =
     (case safe_path False (runtime_path @ [''.inspect-sentinel'']) w of
        Done _ _ \<Rightarrow>
          if w_fs w runtime_path \<noteq> Some Dir
          then Inr \<lparr>i_decision = ''PASS'', i_transactions = [], i_findings = []\<rparr>
          else (case load_all E root expected w names of
            Inl e \<Rightarrow> Inl e
          | Inr (ls, invalid) \<Rightarrow>
            (let results = map (inspect_one E root (committed_edges ls) w) ls;
                 findings = invalid @ concat (map snd results) in
             Inr \<lparr>i_decision = (if findings \<noteq> [] then ''BLOCKED'' else ''PASS''),
                  i_transactions = concat (map fst results), i_findings = findings\<rparr>))
      | _ \<Rightarrow> Inr \<lparr>i_decision = ''BLOCKED'', i_transactions = [], i_findings = [''EXACT_FILE_RUNTIME_UNSAFE'']\<rparr>)"

lemma inspect_targets_clean:
  "inspect_targets E es w n st ts = (su, [], None) \<Longrightarrow> t \<in> set ts
   \<Longrightarrow> reachable es (t_ref t) (expected_generation st t) (current_generation E w t)"
proof (induction ts arbitrary: su)
  case (Cons u ts)
  obtain su' fs stop where rest: "inspect_targets E es w n st ts = (su', fs, stop)" by (cases "inspect_targets E es w n st ts")
  have here: "fs = [] \<and> stop = None
      \<and> (current_generation E w u = expected_generation st u
         \<or> reachable es (t_ref u) (expected_generation st u) (current_generation E w u))"
    using Cons.prems(1) rest by (auto simp: Let_def safe_path_check split: if_splits)
  then have "reachable es (t_ref u) (expected_generation st u) (current_generation E w u)"
    by (auto simp: reachable_def)
  then show ?case using Cons.IH [of su'] Cons.prems(2) rest here by auto
qed simp

lemma inspect_one_clean:
  assumes "snd (inspect_one E root es w (n, plan, st)) = []"
  shows "st \<in> {''COMMITTED'', ''RECOVERED''} \<and> (\<exists>su. inspect_targets E es w n st (p_targets plan) = (su, [], None))"
proof -
  obtain su fs stop where rest: "inspect_targets E es w n st (p_targets plan) = (su, fs, stop)"
    by (cases "inspect_targets E es w n st (p_targets plan)")
  show ?thesis
  proof (cases stop)
    case None
    then show ?thesis using assms rest by (simp add: inspect_one_def split: if_splits)
  next
    case (Some e)
    then show ?thesis using assms rest by (simp add: inspect_one_def)
  qed
qed

text \<open>C12: When inspection answers PASS, every transaction it lists is committed or recovered, and for each of its
  targets a chain of committed transactions leads from the generation the transaction left to the generation
  found on disk (an empty chain when it is still in place).\<close>

theorem inspect_pass_explains_disk:
  assumes "inspect_exact_file_transactions E root names expected w = Inr i" and "i_decision i = ''PASS''"
    and "w_fs w runtime_path = Some Dir" and "load_all E root expected w names = Inr (ls, invalid)"
    and "(n, plan, st) \<in> set ls" and "t \<in> set (p_targets plan)"
  shows "st \<in> {''COMMITTED'', ''RECOVERED''}
    \<and> (expected_generation st t, current_generation E w t)
        \<in> {(a, b). (t_ref t, a, b) \<in> set (committed_edges ls)}\<^sup>*"
proof -
  have find: "invalid = []" "\<forall>x \<in> set ls. snd (inspect_one E root (committed_edges ls) w x) = []"
    using assms(1-4) by (auto simp: inspect_exact_file_transactions_def Let_def split: run.splits if_splits)
  with assms(5) have "snd (inspect_one E root (committed_edges ls) w (n, plan, st)) = []" by blast
  from inspect_one_clean [OF this] obtain su where st: "st \<in> {''COMMITTED'', ''RECOVERED''}"
    and tg: "inspect_targets E (committed_edges ls) w n st (p_targets plan) = (su, [], None)" by blast
  have "reachable (committed_edges ls) (t_ref t) (expected_generation st t) (current_generation E w t)"
    by (rule inspect_targets_clean [OF tg assms(6)])
  then show ?thesis
    using st by (simp add: reachable_step_rel step_rel_def)
qed

definition done_manifest :: manifest where
  "done_manifest = mini_manifest ''f''\<lparr>m_attempted := [''f''], m_applied := [''f''], m_state := ''COMMITTED''\<rparr>"

definition done_world :: world where
  "done_world = mini_world ''f'' (Some ''b'') (Some (e_dumps sample_env (PDict (manifest_payload done_manifest)))) (\<lambda>_. 0) False []"

lemma done_manifest_wf: "manifest_wf sample_env (mini_plan ''f'') done_manifest" "manifest_sorted done_manifest"
  "m_authorization done_manifest = ''k''" "m_state done_manifest = ''COMMITTED''"
proof -
  have "manifest_for sample_env (mini_plan ''f'') ''k'' (mini_world ''f'' (Some ''a'') None (\<lambda>_. 0) False []) (mini_manifest ''f'')"
    using initial_manifest_for(1) [OF sample_env_ok mini_admitted [of "''f''"]] by (simp add: mini_manifest_def content_of_def)
  then show "manifest_wf sample_env (mini_plan ''f'') done_manifest" "manifest_sorted done_manifest"
    by (auto simp: done_manifest_def manifest_for_def manifest_wf_def manifest_sorted_def state_names)
qed (simp_all add: done_manifest_def)

lemma done_load: "load_manifest sample_env [] done_world ''k'' = Inr (Some (mini_plan ''f'', ''COMMITTED''))"
proof -
  have p: "runtime_path @ [''k'', ''manifest.json''] = m_path" "butlast m_path = [''.meta-flow-runtime'', ''exact-file'', ''k'']"
    by (simp_all add: runtime_path_def m_path_def)
  show ?thesis
    using manifest_text [OF sample_env_ok done_manifest_wf(2)]
      manifest_roundtrip [OF sample_env_ok done_manifest_wf(1)] done_manifest_wf(3,4) mini_fs_prefix(3) [of "''f''"]
    by (simp add: load_manifest_def p Let_def done_world_def)
qed

lemma done_inspect: "\<exists>i. inspect_exact_file_transactions sample_env ''/r'' [''k''] [] done_world = Inr i \<and> i_decision i = ''PASS''"
proof -
  have "writable (w_fs done_world) (runtime_path @ [''.inspect-sentinel''])"
    using mini_fs_prefix(1,2) [of "''f''"]
    by (simp add: writable_def plain_target_def runtime_path_def unsafe_part_def all_less_Suc done_world_def)
       (simp add: mini_world_def f_paths m_path_def lock_path_def)
  moreover have "w_fs done_world runtime_path = Some Dir"
    using mini_fs_prefix(2) [of "''f''"] by (simp add: runtime_path_def done_world_def)
  moreover have "inspect_targets sample_env es done_world ''k'' ''COMMITTED'' [mini_target ''f''] = (False, [], None)" for es
    by (simp add: done_world_def Let_def expected_generation_def current_generation_def content_of_def)
  ultimately show ?thesis
    by (simp add: inspect_exact_file_transactions_def safe_path_check done_load inspect_one_def Let_def)
qed

theorem inspect_pass_explains_disk_witness:
  "(expected_generation ''COMMITTED'' (mini_target ''f''), current_generation sample_env done_world (mini_target ''f''))
     \<in> {(a, b). (t_ref (mini_target ''f''), a, b) \<in> set (committed_edges [(''k'', mini_plan ''f'', ''COMMITTED'')])}\<^sup>*"
proof -
  have d: "w_fs done_world runtime_path = Some Dir"
    using mini_fs_prefix(2) [of "''f''"] by (simp add: runtime_path_def done_world_def)
  have l: "load_all sample_env ''/r'' [] done_world [''k''] = Inr ([(''k'', mini_plan ''f'', ''COMMITTED'')], [])"
    by (simp add: done_load)
  from done_inspect obtain i where i: "inspect_exact_file_transactions sample_env ''/r'' [''k''] [] done_world = Inr i"
    "i_decision i = ''PASS''" by blast
  from inspect_pass_explains_disk [OF i d l, of "''k''" "mini_plan ''f''" "''COMMITTED''" "mini_target ''f''"]
  show ?thesis by simp
qed

end
