(* ===== verification/Generation_Lineage.thy ===== *)
theory Generation_Lineage
  imports Exact_Store "HOL-Library.Product_Lexorder"
begin

text \<open>
  The lineage of generations of the shared projection files (\<open>semantics/generation_lineage.py\<close>): the
  manifests of the Work close transactions are validated, each ref gets a chain of committed manifests, and
  the one without a successor is the head.

  The manifests lie in \<open><root>/<id>/manifest.json\<close>; the directory listing (the names that have such an
  entry, in order) is an argument, as are the digest, base64 and JSON functions of the environment.
\<close>

section \<open>One manifest\<close>

record lineage_target =
  l_ref :: string
  l_before :: string
  l_after :: string

record lineage_manifest =
  g_id :: string
  g_state :: string
  g_created :: string
  g_updated :: string
  g_targets :: "lineage_target list"
  g_lineage :: "(string \<times> string) list"
  g_declared :: bool

definition manifest_fields_required :: "string list" where
  "manifest_fields_required = [''schema_version'', ''kind'', ''authorization_id'', ''work_id'', ''plan_digest'',
     ''state'', ''created_at'', ''updated_at'', ''attempted_refs'', ''applied_refs'', ''targets'']"

definition coordinator_field_names :: "string list" where
  "coordinator_field_names = [''coordinator_plan_digest'', ''operation_admission_digest'', ''mutation_plan_digest'',
     ''current_projection_plan_digest'', ''current_projection_transaction_id'', ''handoff_plan_digest'',
     ''handoff_transaction_id'', ''handoff_route_policy_digest'', ''handoff_desired_digest'']"

definition manifest_fields_optional :: "string list" where
  "manifest_fields_optional = [''failure'', ''recovery_failures'', ''lineage'', ''operation'', ''publication_binding'']
     @ coordinator_field_names"

definition publication_binding_fields :: "string list" where
  "publication_binding_fields = [''schema_version'', ''kind'', ''work_id'', ''scope_digest'', ''result_ref'',
     ''handoff_ref'', ''handoff_digest'', ''publication_receipt_ref'', ''publication_receipt_digest'',
     ''repository_facts_digest'', ''paused_oids'', ''published_oids'']"

definition lineage_target_fields :: "string list" where
  "lineage_target_fields = [''ref'', ''before_digest'', ''after_digest'', ''before_bytes_b64'', ''after_bytes_b64'']"

text \<open>\<open>_safe_relative_ref\<close>: \<open>PurePosixPath\<close> drops the parts named \<open>.\<close>, so only \<open>..\<close> is ever refused.\<close>

definition safe_relative_ref :: "pyval \<Rightarrow> string result" where
  "safe_relative_ref v =
     (let ref = str_or_empty v in
      if ref = [] \<or> is_absolute ref \<or> ''..'' \<in> set (path_parts ref) \<or> ''.'' \<in> set (path_parts ref)
      then Inl (ValueError ''generation lineage target ref is unsafe'') else Inr ref)"

definition authorization_id_re :: "string \<Rightarrow> bool" where
  "authorization_id_re s = ident_re ''._-'' s"

definition coordinator_valid :: "string list \<Rightarrow> bool" where
  "coordinator_valid cs =
     (list_all (\<lambda>s. s \<noteq> []) cs \<and> list_all2 hex_id [64, 64, 64, 64, 32, 64, 32, 64, 64] cs)"

fun dict_entries :: "pyval \<Rightarrow> pydict option" where
  "dict_entries (PDict d) = Some d"
| "dict_entries _ = None"

text \<open>Operation and its bindings: the status transition carries the coordinator's digests, the publication
  close a publication binding, and nothing else carries either.\<close>

definition check_operation :: "pydict \<Rightarrow> string \<Rightarrow> unit result" where
  "check_operation d work_id =
     (let operation = (if truthy (dget d ''operation'') then py_str (dget d ''operation'') else ''work.close'');
          binding = dget d ''publication_binding'';
          coordinator = map (\<lambda>k. str_or_empty (dget d k)) coordinator_field_names in
      if operation = ''work.status-transition'' \<and> \<not> coordinator_valid coordinator
      then Inl (ValueError ''generation lineage status coordinator binding is invalid'')
      else if operation \<noteq> ''work.status-transition'' \<and> list_ex (\<lambda>s. s \<noteq> []) coordinator
      then Inl (ValueError ''generation lineage non-status manifest has coordinator binding'')
      else if operation = ''work.publication-close''
      then (case dict_entries binding of
              None \<Rightarrow> Inl (ValueError ''generation lineage publication binding is invalid'')
            | Some b \<Rightarrow>
              if dkeys b \<noteq> set publication_binding_fields \<or> \<not> py_eq (dget b ''schema_version'') (PInt 1)
                 \<or> dget b ''kind'' \<noteq> PStr ''WorkPublicationBindingV1'' \<or> dget b ''work_id'' \<noteq> PStr work_id
              then Inl (ValueError ''generation lineage publication binding is invalid'') else Inr ())
      else if operation \<notin> {''work.close'', ''work.status-transition''} \<or> binding \<noteq> PNone
      then Inl (ValueError ''generation lineage work close operation is invalid'') else Inr ())"

definition read_target :: "env \<Rightarrow> pyval \<Rightarrow> lineage_target result" where
  "read_target E raw =
     (case dict_entries raw of
        None \<Rightarrow> Inl (ValueError ''generation lineage target structure is invalid'')
      | Some d \<Rightarrow>
        if dkeys d \<noteq> set lineage_target_fields
        then Inl (ValueError ''generation lineage target structure is invalid'')
        else case safe_relative_ref (dget d ''ref'') of
          Inl e \<Rightarrow> Inl e
        | Inr ref \<Rightarrow>
          (let before = str_or_empty (dget d ''before_digest''); after = str_or_empty (dget d ''after_digest'') in
           if \<not> digest_re before \<or> \<not> digest_re after
           then Inl (ValueError ''generation lineage target digest is invalid'')
           else case (e_unb64 E (str_or_empty (dget d ''before_bytes_b64'')),
                      e_unb64 E (str_or_empty (dget d ''after_bytes_b64''))) of
             (Some b, Some a) \<Rightarrow>
               if e_sha E b \<noteq> before \<or> e_sha E a \<noteq> after
               then Inl (ValueError ''generation lineage target bytes/digest mismatch'')
               else Inr \<lparr>l_ref = ref, l_before = before, l_after = after\<rparr>
           | _ \<Rightarrow> Inl (ValueError ''generation lineage target bytes are invalid'')))"

definition refs_accounted :: "pyval list \<Rightarrow> string list \<Rightarrow> bool" where
  "refs_accounted refs trefs =
     (list_all is_str refs \<and> distinct refs \<and> refs = map PStr (take (length refs) trefs))"

fun read_lineage :: "string \<Rightarrow> string list \<Rightarrow> pydict \<Rightarrow> (string \<times> string) list result" where
  "read_lineage self trefs [] = Inr []"
| "read_lineage self trefs ((k, v) # rest) =
     (case safe_relative_ref (PStr k) of
        Inl e \<Rightarrow> Inl e
      | Inr ref \<Rightarrow>
        (let predecessor = str_or_empty v in
         if ref \<notin> set trefs \<or> \<not> authorization_id_re predecessor \<or> predecessor = self
         then Inl (ValueError ''generation lineage predecessor binding is invalid'')
         else map_sum id (\<lambda>ls. (ref, predecessor) # ls) (read_lineage self trefs rest)))"

definition check_refs :: "pydict \<Rightarrow> string list \<Rightarrow> unit result" where
  "check_refs d refs =
     (let attempted = list_items (dget d ''attempted_refs''); applied = list_items (dget d ''applied_refs'') in
      if \<not> distinct refs then Inl (ValueError ''generation lineage target refs are duplicated'')
      else if \<not> refs_accounted attempted refs then Inl (ValueError ''generation lineage attempted_refs is invalid'')
      else if \<not> refs_accounted applied refs then Inl (ValueError ''generation lineage applied_refs is invalid'')
      else if applied \<noteq> take (length applied) attempted
      then Inl (ValueError ''generation lineage applied_refs exceed attempted_refs'') else Inr ())"

definition read_structure :: "env \<Rightarrow> pydict \<Rightarrow> string \<Rightarrow> string \<Rightarrow> lineage_manifest result" where
  "read_structure E d auth st =
     (let lineage = (if ''lineage'' \<in> dkeys d then dget d ''lineage'' else PDict []) in
      if \<not> is_list (dget d ''targets'') \<or> 7 < length (list_items (dget d ''targets'')) \<or> \<not> is_dict lineage
         \<or> \<not> is_list (dget d ''attempted_refs'') \<or> \<not> is_list (dget d ''applied_refs'')
      then Inl (ValueError ''generation lineage manifest structure is invalid'')
      else case map_result (read_target E) (list_items (dget d ''targets'')) of
        Inl e \<Rightarrow> Inl e
      | Inr ts \<Rightarrow>
        (case check_refs d (map l_ref ts) of
           Inl e \<Rightarrow> Inl e
         | Inr _ \<Rightarrow>
           (case read_lineage auth (map l_ref ts) (dict_items lineage) of
              Inl e \<Rightarrow> Inl e
            | Inr ls \<Rightarrow>
              Inr \<lparr>g_id = auth, g_state = st, g_created = str_or_empty (dget d ''created_at''),
                   g_updated = str_or_empty (dget d ''updated_at''), g_targets = ts, g_lineage = ls,
                   g_declared = (''lineage'' \<in> dkeys d)\<rparr>)))"

definition validated_manifest :: "env \<Rightarrow> path \<Rightarrow> fs \<Rightarrow> string \<Rightarrow> lineage_manifest result" where
  "validated_manifest E root fs name =
     (if fs (root @ [name]) = Some Symlink \<or> file_at fs (root @ [name, ''manifest.json'']) = None
      then Inl (ValueError ''generation lineage manifest path is unsafe'')
      else case Option.bind (file_at fs (root @ [name, ''manifest.json''])) (e_loads E) of
        None \<Rightarrow> Inl (ValueError ''generation lineage manifest is invalid'')
      | Some v \<Rightarrow>
        (case dict_entries v of
           None \<Rightarrow> Inl (ValueError ''generation lineage manifest must be an object'')
         | Some d \<Rightarrow>
           (let auth = str_or_empty (dget d ''authorization_id''); work_id = str_or_empty (dget d ''work_id'');
                st = str_or_empty (dget d ''state'') in
            if \<not> set manifest_fields_required \<subseteq> dkeys d
               \<or> \<not> dkeys d \<subseteq> set (manifest_fields_required @ manifest_fields_optional)
            then Inl (ValueError ''generation lineage manifest fields mismatch'')
            else if \<not> py_eq (dget d ''schema_version'') (PInt 1) \<or> dget d ''kind'' \<noteq> PStr ''work-close-transaction-v1''
               \<or> \<not> authorization_id_re auth \<or> auth \<noteq> name \<or> \<not> authorization_id_re work_id
               \<or> \<not> digest_re (str_or_empty (dget d ''plan_digest''))
            then Inl (ValueError ''generation lineage manifest identity is invalid'')
            else if st \<notin> {''COMMITTED'', ''RECOVERED''}
            then Inl (ValueError (''unresolved Work close transaction requires recovery: '' @ auth @ '':'' @ st))
            else case check_operation d work_id of
              Inl e \<Rightarrow> Inl e
            | Inr _ \<Rightarrow> read_structure E d auth st)))"

section \<open>The head of one ref\<close>

definition has_target :: "string \<Rightarrow> lineage_manifest \<Rightarrow> bool" where
  "has_target ref m = list_ex (\<lambda>t. l_ref t = ref) (g_targets m)"

definition candidate :: "string \<Rightarrow> lineage_manifest \<Rightarrow> bool" where
  "candidate ref m = (g_state m = ''COMMITTED'' \<and> has_target ref m)"

definition sort_index :: "lineage_manifest \<Rightarrow> string \<times> string \<times> string" where
  "sort_index m = (g_updated m, g_created m, g_id m)"

definition legacy_chain :: "lineage_manifest list \<Rightarrow> lineage_manifest list" where
  "legacy_chain cs = sort_key sort_index (filter (\<lambda>m. \<not> g_declared m) cs)"

definition predecessor_of :: "string \<Rightarrow> lineage_manifest \<Rightarrow> string option" where
  "predecessor_of ref m = map_of (g_lineage m) ref"

definition explicit_tails :: "string \<Rightarrow> lineage_manifest list \<Rightarrow> string list \<Rightarrow> string list" where
  "explicit_tails ref cs legacy_ids =
     remdups (filter (\<lambda>i. i \<noteq> [] \<and> i \<in> set legacy_ids) (List.map_filter (predecessor_of ref) cs))"

fun latest :: "lineage_manifest \<Rightarrow> lineage_manifest list \<Rightarrow> lineage_manifest" where
  "latest m [] = m"
| "latest m (x # xs) = latest (if sort_index m < sort_index x then x else m) xs"

text \<open>The tail of the legacy chain: the one a declared manifest continues, else the newest that produced the
  bytes on disk, else none in particular.\<close>

definition legacy_tails :: "string \<Rightarrow> lineage_manifest list \<Rightarrow> (string \<times> string) list \<Rightarrow> string list" where
  "legacy_tails ref cs now =
     (let legacy = legacy_chain cs; tails = explicit_tails ref cs (map g_id legacy) in
      case map_of now ref of
        Some d \<Rightarrow>
          if tails = [] \<and> d \<noteq> []
          then (case filter (\<lambda>m. list_ex (\<lambda>t. l_ref t = ref \<and> l_after t = d) (g_targets m)) legacy of
                  [] \<Rightarrow> [] | x # xs \<Rightarrow> [g_id (latest x xs)])
          else tails
      | None \<Rightarrow> tails)"

definition ordered_legacy :: "lineage_manifest list \<Rightarrow> string list \<Rightarrow> lineage_manifest list" where
  "ordered_legacy legacy tails =
     (case tails of [] \<Rightarrow> legacy
      | t # _ \<Rightarrow> filter (\<lambda>m. g_id m \<noteq> t) legacy @ filter (\<lambda>m. g_id m = t) legacy)"

definition chain_links :: "lineage_manifest list \<Rightarrow> (string \<rightharpoonup> string)" where
  "chain_links ms = map_of (zip (map g_id ms) (tl (map g_id ms)))"

text \<open>The loop over the declared predecessors.\<close>

fun link :: "string \<Rightarrow> lineage_manifest list \<Rightarrow> (string \<rightharpoonup> string) \<Rightarrow> (string \<rightharpoonup> string) result" where
  "link ref [] s = Inr s"
| "link ref (m # ms) s =
     (case predecessor_of ref m of
        None \<Rightarrow> link ref ms s
      | Some p \<Rightarrow>
        if s p \<noteq> None \<and> s p \<noteq> Some (g_id m)
        then Inl (ValueError (''generation lineage has multiple successors: '' @ ref @ '':'' @ p))
        else link ref ms (s(p \<mapsto> g_id m)))"

definition after_of :: "string \<Rightarrow> lineage_manifest \<Rightarrow> string" where
  "after_of ref m = (case find (\<lambda>t. l_ref t = ref) (g_targets m) of None \<Rightarrow> [] | Some t \<Rightarrow> l_after t)"

definition ref_head :: "lineage_manifest list \<Rightarrow> (string \<times> string) list \<Rightarrow> string \<Rightarrow> (string \<times> string) option result" where
  "ref_head ms now ref =
     (let cs = filter (candidate ref) ms; legacy = legacy_chain cs in
      if cs = [] then Inr None
      else if 1 < length (explicit_tails ref cs (map g_id legacy))
      then Inl (ValueError (''generation lineage legacy tail is ambiguous: '' @ ref))
      else case link ref cs (chain_links (ordered_legacy legacy (legacy_tails ref cs now))) of
        Inl e \<Rightarrow> Inl e
      | Inr succs \<Rightarrow>
        (case filter (\<lambda>m. succs (g_id m) = None) cs of
           [h] \<Rightarrow> Inr (Some (g_id h, after_of ref h))
         | _ \<Rightarrow> Inl (ValueError (''generation lineage head is ambiguous: '' @ ref))))"

section \<open>The query\<close>

definition find_id :: "lineage_manifest list \<Rightarrow> string \<Rightarrow> lineage_manifest option" where
  "find_id ms i = find (\<lambda>m. g_id m = i) (rev ms)"

fun check_predecessors :: "lineage_manifest list \<Rightarrow> (string \<times> string) list \<Rightarrow> unit result" where
  "check_predecessors ms [] = Inr ()"
| "check_predecessors ms ((ref, p) # rest) =
     (case find_id ms p of
        None \<Rightarrow> Inl (ValueError (''generation lineage predecessor is invalid: '' @ ref @ '':'' @ p))
      | Some m \<Rightarrow>
        if candidate ref m then check_predecessors ms rest
        else Inl (ValueError (''generation lineage predecessor is invalid: '' @ ref @ '':'' @ p)))"

fun collect_heads :: "lineage_manifest list \<Rightarrow> (string \<times> string) list \<Rightarrow> string list
    \<Rightarrow> (string \<times> string \<times> string) list result" where
  "collect_heads ms now [] = Inr []"
| "collect_heads ms now (ref # refs) =
     (case ref_head ms now ref of
        Inl e \<Rightarrow> Inl e
      | Inr h \<Rightarrow>
        map_sum id (\<lambda>hs. (case h of None \<Rightarrow> hs | Some x \<Rightarrow> (ref, x) # hs)) (collect_heads ms now refs))"

definition committed_generation_heads :: "env \<Rightarrow> path \<Rightarrow> fs \<Rightarrow> string list \<Rightarrow> string list \<Rightarrow> (string \<times> string) list
    \<Rightarrow> (string \<times> string \<times> string) list result" where
  "committed_generation_heads E root fs names refs now =
     (case fs root of
        None \<Rightarrow> Inr []
      | Some Dir \<Rightarrow>
        (case map_result (validated_manifest E root fs) names of
           Inl e \<Rightarrow> Inl e
         | Inr ms \<Rightarrow>
           (case check_predecessors ms (concat (map g_lineage ms)) of
              Inl e \<Rightarrow> Inl e
            | Inr _ \<Rightarrow> collect_heads ms now refs))
      | Some _ \<Rightarrow> Inl (ValueError ''generation lineage transaction root is unsafe''))"

definition committed_generation_head_digests :: "env \<Rightarrow> path \<Rightarrow> fs \<Rightarrow> string list \<Rightarrow> string list \<Rightarrow> (string \<times> string) list
    \<Rightarrow> (string \<times> string) list result" where
  "committed_generation_head_digests E root fs names refs now =
     map_sum id (map (\<lambda>(ref, i, d). (ref, d))) (committed_generation_heads E root fs names refs now)"


section \<open>Linking\<close>

lemma link_Inr:
  "link ref cs s = Inr s' \<Longrightarrow> s \<subseteq>\<^sub>m s' \<and> (\<forall>m \<in> set cs. \<forall>p. predecessor_of ref m = Some p \<longrightarrow> s' p = Some (g_id m))
     \<and> dom s' = dom s \<union> {p. \<exists>m \<in> set cs. predecessor_of ref m = Some p}"
proof (induction cs arbitrary: s)
  case (Cons m cs)
  show ?case
  proof (cases "predecessor_of ref m")
    case None
    then show ?thesis using Cons by auto
  next
    case (Some p)
    define s2 where "s2 = s(p \<mapsto> g_id m)"
    from Some Cons.prems have ok: "s p = None \<or> s p = Some (g_id m)" and l: "link ref cs s2 = Inr s'"
      unfolding s2_def by (auto split: if_splits)
    have s2: "s2 p = Some (g_id m)" "dom s2 = insert p (dom s)" "s \<subseteq>\<^sub>m s2"
      using ok by (auto simp: s2_def map_le_def)
    note ih = Cons.IH [OF l]
    have "s' p = Some (g_id m)" using ih s2 by (force simp: map_le_def)
    moreover have "s \<subseteq>\<^sub>m s'" using ih s2(3) map_le_trans by blast
    ultimately show ?thesis using ih Some s2(2) by auto
  qed
qed simp

lemma link_ok:
  "s \<subseteq>\<^sub>m g \<Longrightarrow> \<forall>m \<in> set cs. \<forall>p. predecessor_of ref m = Some p \<longrightarrow> g p = Some (g_id m) \<Longrightarrow> \<exists>s'. link ref cs s = Inr s'"
proof (induction cs arbitrary: s)
  case (Cons m cs)
  show ?case
  proof (cases "predecessor_of ref m")
    case None
    then show ?thesis using Cons by auto
  next
    case (Some p)
    define s2 where "s2 = s(p \<mapsto> g_id m)"
    have g: "g p = Some (g_id m)" using Cons.prems(2) Some by simp
    then have ok: "s p = None \<or> s p = Some (g_id m)" using Cons.prems(1) by (force simp: map_le_def)
    have "s2 \<subseteq>\<^sub>m g" using Cons.prems(1) g by (auto simp: s2_def map_le_def)
    from Cons.IH [OF this] have "\<exists>s'. link ref cs s2 = Inr s'" using Cons.prems(2) by simp
    then show ?thesis using Some ok by (auto simp: s2_def)
  qed
qed simp

lemma zip_tl_fst: "map fst (zip xs (tl xs)) = butlast xs"
proof (induction xs)
  case (Cons x xs)
  then show ?case by (cases xs) auto
qed simp

lemma chain_links_dom: "dom (chain_links ms) = set (butlast (map g_id ms))"
  unfolding chain_links_def dom_map_of_conv_image_fst set_map [symmetric] zip_tl_fst ..

lemma set_ordered_legacy: "set (ordered_legacy ms ts) = set ms"
  by (auto simp: ordered_legacy_def split: list.splits)

lemma butlast_distinct:
  assumes "distinct xs" and "xs \<noteq> []"
  shows "set (butlast xs) = set xs - {last xs}"
proof -
  obtain ys y where xs: "xs = ys @ [y]" using assms(2) by (cases xs rule: rev_cases) auto
  then show ?thesis using assms(1) by auto
qed

lemma distinct_ordered_legacy:
  assumes "distinct (map g_id ms)"
  shows "distinct (map g_id (ordered_legacy ms ts))"
proof (cases ts)
  case Nil
  then show ?thesis using assms by (simp add: ordered_legacy_def)
next
  case (Cons t ts')
  have f: "distinct (map g_id (filter P ms))" for P using assms by (rule distinct_map_filter)
  show ?thesis using f by (auto simp: ordered_legacy_def Cons)
qed


section \<open>What a head is\<close>

definition committed_chain :: "lineage_manifest list \<Rightarrow> (string \<times> string) list \<Rightarrow> string \<Rightarrow> (string \<rightharpoonup> string)" where
  "committed_chain ms now ref =
     (let cs = filter (candidate ref) ms; legacy = legacy_chain cs in
      chain_links (ordered_legacy legacy (legacy_tails ref cs now)))"

lemma ref_head_Inr:
  assumes "ref_head ms now ref = Inr (Some (i, d))"
  obtains h succs where "h \<in> set ms" and "candidate ref h" and "i = g_id h" and "d = after_of ref h"
    and "link ref (filter (candidate ref) ms) (committed_chain ms now ref) = Inr succs"
    and "filter (\<lambda>m. succs (g_id m) = None) (filter (candidate ref) ms) = [h]"
proof -
  let ?cs = "filter (candidate ref) ms"
  from assms obtain succs where l: "link ref ?cs (committed_chain ms now ref) = Inr succs"
    and c: "(case filter (\<lambda>m. succs (g_id m) = None) ?cs of [h] \<Rightarrow> Inr (Some (g_id h, after_of ref h))
        | _ \<Rightarrow> Inl (ValueError (''generation lineage head is ambiguous: '' @ ref))) = Inr (Some (i, d))"
    by (auto simp: ref_head_def committed_chain_def Let_def split: if_splits sum.splits)
  from c obtain h where h: "filter (\<lambda>m. succs (g_id m) = None) ?cs = [h]" and i: "i = g_id h" "d = after_of ref h"
    by (auto split: list.splits)
  have "h \<in> set (filter (\<lambda>m. succs (g_id m) = None) ?cs)" using h by simp
  then show ?thesis using that l h i by auto
qed

section \<open>Appending a generation\<close>

lemma legacy_chain_declared: "g_declared n \<Longrightarrow> legacy_chain (xs @ n # ys) = legacy_chain (xs @ ys)"
  by (simp add: legacy_chain_def)

lemma set_legacy_chain: "set (legacy_chain cs) = {m \<in> set cs. \<not> g_declared m}"
  by (auto simp: legacy_chain_def)

lemma distinct_legacy_chain: "distinct (map g_id cs) \<Longrightarrow> distinct (map g_id (legacy_chain cs))"
  by (simp add: legacy_chain_def distinct_map distinct_sort inj_on_def)

lemma set_explicit_tails:
  "set (explicit_tails ref cs ids) = {i. i \<noteq> [] \<and> i \<in> set ids \<and> (\<exists>m \<in> set cs. predecessor_of ref m = Some i)}"
  by (auto simp: explicit_tails_def List.map_filter_def) force

lemma distinct_explicit_tails: "distinct (explicit_tails ref cs ids)"
  by (simp add: explicit_tails_def)

lemma singleton_list:
  assumes "distinct xs" and "set xs = {x}"
  shows "xs = [x]"
proof -
  have "length xs = 1" using assms distinct_card by fastforce
  then obtain y where "xs = [y]" by (cases xs) auto
  then show ?thesis using assms(2) by simp
qed

lemma latest_in: "latest m xs \<in> insert m (set xs)"
  by (induction xs arbitrary: m) (auto split: if_splits)

text \<open>A tail names a member of the legacy chain.\<close>

lemma legacy_tails_in:
  assumes "t \<in> set (legacy_tails ref cs now)"
  shows "t \<in> g_id ` set (legacy_chain cs)"
proof (cases "t \<in> set (explicit_tails ref cs (map g_id (legacy_chain cs)))")
  case True
  then show ?thesis by (auto simp: set_explicit_tails)
next
  case False
  let ?P = "\<lambda>d m. list_ex (\<lambda>t. l_ref t = ref \<and> l_after t = d) (g_targets m)"
  from False assms obtain d x xs where f: "filter (?P d) (legacy_chain cs) = x # xs" and t: "t = g_id (latest x xs)"
    by (auto simp: legacy_tails_def Let_def split: option.splits if_splits list.splits dest: sym)
  have "latest x xs \<in> set (x # xs)" using latest_in [of x xs] by simp
  then have "latest x xs \<in> set (filter (?P d) (legacy_chain cs))" using f by simp
  then show ?thesis using t by auto
qed

lemma legacy_tails_explicit:
  "explicit_tails ref cs (map g_id (legacy_chain cs)) \<noteq> []
   \<Longrightarrow> legacy_tails ref cs now = explicit_tails ref cs (map g_id (legacy_chain cs))"
  by (simp add: legacy_tails_def Let_def split: option.split)

lemma ordered_legacy_last:
  assumes "distinct (map g_id ms)" and "m \<in> set ms"
  shows "ordered_legacy ms (g_id m # ts) = filter (\<lambda>x. g_id x \<noteq> g_id m) ms @ [m]"
proof -
  have "filter (\<lambda>x. g_id x = g_id m) ms = [m]"
    using assms by (induction ms) (auto simp: filter_empty_conv image_iff)
  then show ?thesis by (simp add: ordered_legacy_def)
qed

lemma ordered_legacy_end:
  assumes "distinct (map g_id (us @ [m]))"
  shows "ordered_legacy (us @ [m]) [g_id m] = us @ [m]"
proof -
  have "filter (\<lambda>x. g_id x \<noteq> g_id m) us = us" using assms by (auto intro!: filter_True) (metis imageI)
  then show ?thesis using ordered_legacy_last [OF assms, of m] by simp
qed

lemma explicit_tails_extend:
  assumes "\<forall>i. (\<exists>m \<in> set cs'. predecessor_of ref m = Some i) \<longleftrightarrow> i = k \<or> (\<exists>m \<in> set cs. predecessor_of ref m = Some i)"
    and "k \<noteq> []"
  shows "set (explicit_tails ref cs' ids) = (if k \<in> set ids then {k} else {}) \<union> set (explicit_tails ref cs ids)"
  unfolding set_explicit_tails using assms by auto

text \<open>Putting the last member last again changes nothing.\<close>

lemma ordered_legacy_repeat:
  assumes d: "distinct (map g_id ms)" and ts: "set ts \<subseteq> g_id ` set ms" and ne: "ordered_legacy ms ts \<noteq> []"
  shows "ordered_legacy ms [g_id (last (ordered_legacy ms ts))] = ordered_legacy ms ts"
proof (cases ts)
  case Nil
  then have eq: "ordered_legacy ms ts = ms" by (simp add: ordered_legacy_def)
  then obtain us u where "ms = us @ [u]" using ne by (cases ms rule: rev_cases) auto
  then show ?thesis using ordered_legacy_end [of us u] d eq by simp
next
  case (Cons t ts')
  then obtain m where m: "m \<in> set ms" "t = g_id m" using ts by auto
  show ?thesis unfolding Cons m(2) by (simp add: ordered_legacy_last [OF d m(1)])
qed

lemma last_ordered_legacy:
  assumes "distinct (map g_id ms)" and "t \<in> g_id ` set ms"
  shows "g_id (last (ordered_legacy ms (t # ts))) = t"
proof -
  obtain m where "m \<in> set ms" "t = g_id m" using assms(2) by auto
  then show ?thesis using ordered_legacy_last [OF assms(1)] by simp
qed

lemma set_legacy_tails: "set (legacy_tails ref cs now) \<subseteq> g_id ` set (legacy_chain cs)"
  using legacy_tails_in by blast

text \<open>The last member of the chain is the head or has a declared successor.\<close>

lemma chain_last:
  assumes l: "link ref cs (chain_links C) = Inr succs" and d: "distinct (map g_id C)" and "C \<noteq> []"
  shows "succs (g_id (last C)) = None \<or> (\<exists>m \<in> set cs. predecessor_of ref m = Some (g_id (last C)))"
proof (rule disjCI)
  assume none: "\<not> (\<exists>m \<in> set cs. predecessor_of ref m = Some (g_id (last C)))"
  have "g_id (last C) \<notin> dom (chain_links C)"
    using butlast_distinct [OF d] \<open>C \<noteq> []\<close> by (simp add: chain_links_dom last_map)
  then have "g_id (last C) \<notin> dom succs" using link_Inr [OF l] none by simp
  then show "succs (g_id (last C)) = None" by (simp add: domIff)
qed

text \<open>A member without successor is the last of the chain.\<close>

lemma chain_end:
  assumes l: "link ref cs (chain_links C) = Inr succs" and d: "distinct (map g_id C)"
    and h: "h \<in> set C" "succs (g_id h) = None"
  shows "g_id (last C) = g_id h"
proof -
  have "C \<noteq> []" using h(1) by auto
  have "g_id h \<notin> dom succs" using h(2) by (simp add: domIff)
  then have "g_id h \<notin> dom (chain_links C)" using link_Inr [OF l] by simp
  then have "g_id h = last (map g_id C)"
    using h(1) butlast_distinct [OF d] \<open>C \<noteq> []\<close> by (simp add: chain_links_dom)
  then show ?thesis using \<open>C \<noteq> []\<close> by (simp add: last_map)
qed

text \<open>The heart of the matter: the legacy chain that a successor of the head sees is the chain the head was
  computed from, whatever bytes are on disk by then.\<close>

lemma same_chain:
  assumes ids: "distinct (map g_id cs)" and ne: "\<forall>m \<in> set cs. g_id m \<noteq> []" and hc: "h \<in> set cs"
    and one: "length (explicit_tails ref cs (map g_id (legacy_chain cs))) \<le> 1"
    and l: "link ref cs (chain_links (ordered_legacy (legacy_chain cs) (legacy_tails ref cs now))) = Inr succs"
    and hd: "\<And>m. m \<in> set cs \<Longrightarrow> succs (g_id m) = None \<longleftrightarrow> m = h"
    and cs': "\<forall>i. (\<exists>m \<in> set cs'. predecessor_of ref m = Some i) \<longleftrightarrow> i = g_id h \<or> (\<exists>m \<in> set cs. predecessor_of ref m = Some i)"
    and leg: "legacy_chain cs' = legacy_chain cs"
  shows "ordered_legacy (legacy_chain cs') (legacy_tails ref cs' now') =
      ordered_legacy (legacy_chain cs) (legacy_tails ref cs now)
    \<and> length (explicit_tails ref cs' (map g_id (legacy_chain cs'))) \<le> 1"
proof -
  define L where "L = legacy_chain cs"
  define C where "C = ordered_legacy L (legacy_tails ref cs now)"
  define T where "T = explicit_tails ref cs (map g_id L)"
  define T' where "T' = explicit_tails ref cs' (map g_id L)"
  have dL: "distinct (map g_id L)" unfolding L_def by (rule distinct_legacy_chain [OF ids])
  then have dC: "distinct (map g_id C)" unfolding C_def by (rule distinct_ordered_legacy)
  have sC: "set C = set L" by (simp add: C_def set_ordered_legacy)
  have Lcs: "set L \<subseteq> set cs" by (auto simp: L_def set_legacy_chain)
  note l' = l [folded L_def, folded C_def]
  have T'_eq: "set T' = (if g_id h \<in> g_id ` set L then {g_id h} else {}) \<union> set T"
    using explicit_tails_extend [OF cs', of "map g_id L"] ne hc by (simp add: T_def T'_def)
  have T1: "T = [] \<or> (\<exists>t. T = [t])" using one by (cases T) (auto simp: T_def L_def)
  have last_T: "T = [t] \<Longrightarrow> g_id (last C) = t \<and> t \<in> g_id ` set L" for t
  proof -
    assume T: "T = [t]"
    then have "t \<in> set T" by simp
    then have "t \<in> g_id ` set L" unfolding T_def set_explicit_tails by simp
    moreover have "legacy_tails ref cs now = [t]" using legacy_tails_explicit [of ref cs now] T unfolding T_def L_def by simp
    ultimately show ?thesis using last_ordered_legacy [OF dL] by (simp add: C_def)
  qed
  have "\<exists>t. T' = [t] \<and> C \<noteq> [] \<and> g_id (last C) = t" if "L \<noteq> []"
  proof -
    have "C \<noteq> []" using that sC by auto
    then have lc: "last C \<in> set L" using sC last_in_set by blast
    have "set T' = {g_id (last C)}"
    proof (cases "succs (g_id (last C)) = None")
      case True
      then have lh: "last C = h" using hd [OF subsetD [OF Lcs lc]] by simp
      have "succs (g_id h) = None" using True lh by simp
      then have "predecessor_of ref m \<noteq> Some (g_id h)" if "m \<in> set cs" for m using link_Inr [OF l'] that by fastforce
      then have "g_id h \<notin> set T" unfolding T_def set_explicit_tails by auto
      moreover have "T = [t] \<Longrightarrow> g_id h \<in> set T" for t using last_T [of t] lh by simp
      ultimately have "T = []" using T1 by blast
      moreover have "g_id h \<in> g_id ` set L" using lc lh by blast
      ultimately show ?thesis using T'_eq lh by simp
    next
      case False
      then have "\<exists>m \<in> set cs. predecessor_of ref m = Some (g_id (last C))"
        using chain_last [OF l' dC \<open>C \<noteq> []\<close>] by (simp del: not_None_eq)
      then have "g_id (last C) \<in> set T"
        using lc subsetD [OF Lcs lc] ne unfolding T_def set_explicit_tails by simp
      then have sT: "set T = {g_id (last C)}" using T1 by (elim disjE exE) simp_all
      have "g_id h \<notin> g_id ` set L"
      proof
        assume "g_id h \<in> g_id ` set L"
        then obtain m where m: "m \<in> set L" "g_id m = g_id h" by auto
        then have "m = h" using ids hc Lcs by (metis distinct_map inj_onD subsetD)
        then have "g_id (last C) = g_id h" using chain_end [OF l' dC, of h] m(1) hd [OF hc] sC by simp
        then show False using False hd [OF hc] by simp
      qed
      then show ?thesis using T'_eq sT by simp
    qed
    then have "T' = [g_id (last C)]" by (rule singleton_list [rotated]) (simp add: T'_def distinct_explicit_tails)
    then show ?thesis using \<open>C \<noteq> []\<close> by blast
  qed
  moreover have "legacy_tails ref cs' now' = T'" if "T' \<noteq> []"
    using that legacy_tails_explicit [of ref cs'] unfolding T'_def L_def leg by blast
  moreover have "ordered_legacy L [g_id (last C)] = C" if "C \<noteq> []"
    using ordered_legacy_repeat [OF dL] set_legacy_tails [of ref cs now] that unfolding C_def L_def by blast
  moreover have "L = [] \<Longrightarrow> T' = []" by (simp add: T'_def explicit_tails_def)
  moreover have "L = [] \<Longrightarrow> ordered_legacy L ts = C" for ts by (simp add: C_def ordered_legacy_def split: list.split)
  ultimately show ?thesis unfolding leg L_def [symmetric] C_def [symmetric] T'_def [symmetric]
    by (cases "L = []") auto
qed

lemma ref_head_one_tail:
  "ref_head ms now ref = Inr (Some x)
   \<Longrightarrow> length (explicit_tails ref (filter (candidate ref) ms) (map g_id (legacy_chain (filter (candidate ref) ms)))) \<le> 1"
  by (auto simp: ref_head_def Let_def split: if_splits)

lemma ref_head_InrI:
  assumes "filter (candidate ref) ms \<noteq> []"
    and "length (explicit_tails ref (filter (candidate ref) ms) (map g_id (legacy_chain (filter (candidate ref) ms)))) \<le> 1"
    and "link ref (filter (candidate ref) ms) (committed_chain ms now ref) = Inr succs"
    and "filter (\<lambda>m. succs (g_id m) = None) (filter (candidate ref) ms) = [h]"
  shows "ref_head ms now ref = Inr (Some (g_id h, after_of ref h))"
  using assms by (simp add: ref_head_def committed_chain_def Let_def)

lemma filter_single:
  assumes "\<forall>m \<in> set (xs @ ys). \<not> P m" and "P n"
  shows "filter P (xs @ n # ys) = [n]"
  using assms by simp

text \<open>Linking the successor of \<open>h\<close> besides the manifests of \<open>cs\<close> adds one entry.\<close>

lemma link_successor:
  assumes l: "link ref cs s = Inr succs" and h: "succs (g_id h) = None"
    and set': "set cs' = insert n (set cs)" and n: "predecessor_of ref n = Some (g_id h)"
  shows "\<exists>s'. link ref cs' s = Inr s' \<and> dom s' = insert (g_id h) (dom succs)"
proof -
  note li = link_Inr [OF l]
  have "\<exists>s'. link ref cs' s = Inr s'"
  proof (rule link_ok)
    show "s \<subseteq>\<^sub>m succs(g_id h \<mapsto> g_id n)" using li h by (auto simp: map_le_def domIff)
    have "predecessor_of ref m \<noteq> Some (g_id h)" if "m \<in> set cs" for m using li h that by fastforce
    then show "\<forall>m \<in> set cs'. \<forall>p. predecessor_of ref m = Some p \<longrightarrow> (succs(g_id h \<mapsto> g_id n)) p = Some (g_id m)"
      unfolding set' using li n by auto
  qed
  then obtain s' where l': "link ref cs' s = Inr s'" by blast
  have "dom s' = insert (g_id h) (dom succs)" using link_Inr [OF l'] li n unfolding set' by auto
  with l' show ?thesis by blast
qed

text \<open>An id that no member of the legacy chain has and nobody continues is no key of the links.\<close>

lemma not_linked:
  assumes "link ref cs (chain_links C) = Inr succs" and "i \<notin> g_id ` set C"
    and "\<forall>m \<in> set cs. predecessor_of ref m \<noteq> Some i"
  shows "succs i = None"
proof (rule ccontr)
  assume "succs i \<noteq> None"
  then have "i \<in> dom succs" by (simp add: domIff)
  then have "i \<in> dom (chain_links C) \<or> (\<exists>m \<in> set cs. predecessor_of ref m = Some i)"
    using link_Inr [OF assms(1)] by simp
  then consider "i \<in> dom (chain_links C)" | m where "m \<in> set cs" "predecessor_of ref m = Some i" by blast
  then show False
  proof cases
    case 1
    then have "i \<in> g_id ` set C" unfolding chain_links_dom by (auto dest: in_set_butlastD)
    then show False using assms(2) by simp
  qed (use assms(3) in blast)
qed

lemma ref_head_parts:
  assumes "ref_head ms now ref = Inr (Some (i, d))" and cs: "cs = filter (candidate ref) ms"
  obtains h succs where "h \<in> set cs" and "i = g_id h"
    and "link ref cs (chain_links (ordered_legacy (legacy_chain cs) (legacy_tails ref cs now))) = Inr succs"
    and "\<And>m. m \<in> set cs \<Longrightarrow> succs (g_id m) = None \<longleftrightarrow> m = h"
proof (rule ref_head_Inr [OF assms(1)])
  fix h succs assume h: "h \<in> set ms" "candidate ref h" "i = g_id h"
    and l: "link ref (filter (candidate ref) ms) (committed_chain ms now ref) = Inr succs"
    and f: "filter (\<lambda>m. succs (g_id m) = None) (filter (candidate ref) ms) = [h]"
  have "m \<in> set (filter (\<lambda>m. succs (g_id m) = None) cs) \<longleftrightarrow> m \<in> set [h]" for m unfolding cs f ..
  then have iff: "(m \<in> set cs \<and> succs (g_id m) = None) = (m = h)" for m by simp
  have "m \<in> set cs \<Longrightarrow> succs (g_id m) = None \<longleftrightarrow> m = h" for m using iff [of m] by simp
  then show ?thesis using that [of h succs] h l by (simp add: cs committed_chain_def Let_def)
qed

text \<open>Following the head: a new committed manifest that declares the current head as its predecessor is the next
  head, wherever its file name sorts it and whatever bytes are on disk by then.\<close>

theorem successor_of_head_is_head:
  assumes ids: "distinct (map g_id (xs @ n # ys))" and ne: "\<forall>m \<in> set (xs @ ys). g_id m \<noteq> []"
    and head: "ref_head (xs @ ys) now ref = Inr (Some (i, d))"
    and n: "candidate ref n" "g_declared n" "predecessor_of ref n = Some i"
    and fresh: "\<forall>m \<in> set (xs @ ys). candidate ref m \<longrightarrow> predecessor_of ref m \<noteq> Some (g_id n)"
  shows "ref_head (xs @ n # ys) now' ref = Inr (Some (g_id n, after_of ref n))"
proof -
  let ?f = "filter (candidate ref)"
  define cs where "cs = ?f (xs @ ys)"
  define cs' where "cs' = ?f (xs @ n # ys)"
  have cs'_eq: "cs' = ?f xs @ n # ?f ys" and cs_eq: "cs = ?f xs @ ?f ys" using n(1) by (simp_all add: cs_def cs'_def)
  define C where "C = ordered_legacy (legacy_chain cs) (legacy_tails ref cs now)"
  obtain h succs where hc: "h \<in> set cs" and h: "i = g_id h" and l: "link ref cs (chain_links C) = Inr succs"
    and only_h: "\<And>m. m \<in> set cs \<Longrightarrow> succs (g_id m) = None \<longleftrightarrow> m = h"
    using ref_head_parts [OF head cs_def] unfolding C_def by blast
  have leg: "legacy_chain cs' = legacy_chain cs" unfolding cs'_eq cs_eq by (rule legacy_chain_declared [OF n(2)])
  have set': "set cs' = insert n (set cs)" unfolding cs'_eq cs_eq by auto
  have same: "ordered_legacy (legacy_chain cs') (legacy_tails ref cs' now') = C
      \<and> length (explicit_tails ref cs' (map g_id (legacy_chain cs'))) \<le> 1"
    unfolding C_def
  proof (rule same_chain [OF _ _ hc _ l [unfolded C_def] _ _ leg])
    show "distinct (map g_id cs)" using ids by (auto simp: cs_eq intro: distinct_map_filter)
    show "\<forall>m \<in> set cs. g_id m \<noteq> []" using ne by (auto simp: cs_def)
    show "length (explicit_tails ref cs (map g_id (legacy_chain cs))) \<le> 1"
      unfolding cs_def by (rule ref_head_one_tail [OF head])
    show "m \<in> set cs \<Longrightarrow> succs (g_id m) = None \<longleftrightarrow> m = h" for m by (rule only_h)
    show "\<forall>k. (\<exists>m \<in> set cs'. predecessor_of ref m = Some k) \<longleftrightarrow> k = g_id h \<or> (\<exists>m \<in> set cs. predecessor_of ref m = Some k)"
      unfolding set' using n(3) h by auto
  qed
  have other: "g_id m \<noteq> g_id n" if "m \<in> set cs" for m using ids that by (auto simp: cs_def image_iff)
  have "set C \<subseteq> set cs" by (auto simp: C_def set_ordered_legacy set_legacy_chain)
  then have "g_id n \<notin> g_id ` set C" using other by (metis image_iff subsetD)
  then have n_none: "succs (g_id n) = None" by (rule not_linked [OF l]) (use fresh in \<open>auto simp: cs_def\<close>)
  have "succs (g_id h) = None" using only_h [OF hc] by simp
  then obtain s' where l': "link ref cs' (chain_links C) = Inr s'" and dom': "dom s' = insert (g_id h) (dom succs)"
    using link_successor [OF l _ set', of h] n(3) h by auto
  have "filter (\<lambda>m. s' (g_id m) = None) cs' = [n]"
    unfolding cs'_eq
  proof (rule filter_single)
    have "g_id m \<in> dom s'" if "m \<in> set cs" for m using only_h [OF that] that unfolding dom' by auto
    then show "\<forall>m \<in> set (?f xs @ ?f ys). s' (g_id m) \<noteq> None" unfolding cs_eq by auto
    have "g_id n \<notin> dom s'" using n_none other [OF hc] unfolding dom' by (simp add: domIff)
    then show "s' (g_id n) = None" by auto
  qed
  moreover have "link ref cs' (committed_chain (xs @ n # ys) now' ref) = Inr s'"
    using l' same by (simp add: committed_chain_def cs'_def Let_def)
  moreover have "cs' \<noteq> []" using set' by auto
  ultimately show ?thesis using same unfolding cs'_def by (intro ref_head_InrI [where succs = s']) simp_all
qed

section \<open>The head, exactly\<close>

text \<open>The manifests a ref was changed by that declare no lineage, those that a manifest of the ref declares as its predecessor, those that
  left the bytes on disk, and the last of the manifests without lineage: the one that is continued, else the newest of those that left the
  bytes on disk, else the newest.\<close>

definition legacy_of :: "string \<Rightarrow> lineage_manifest list \<Rightarrow> lineage_manifest set" where
  "legacy_of ref ms = {m \<in> set ms. candidate ref m \<and> \<not> g_declared m}"

definition continued :: "string \<Rightarrow> lineage_manifest list \<Rightarrow> lineage_manifest \<Rightarrow> bool" where
  "continued ref ms m = (\<exists>n \<in> set ms. candidate ref n \<and> predecessor_of ref n = Some (g_id m))"

definition produced :: "string \<Rightarrow> (string \<times> string) list \<Rightarrow> lineage_manifest \<Rightarrow> bool" where
  "produced ref now m = (\<exists>t \<in> set (g_targets m). l_ref t = ref \<and> l_after t \<noteq> [] \<and> map_of now ref = Some (l_after t))"

definition newest :: "lineage_manifest set \<Rightarrow> lineage_manifest \<Rightarrow> bool" where
  "newest A m = (m \<in> A \<and> (\<forall>n \<in> A. sort_index n \<le> sort_index m))"

definition last_legacy :: "string \<Rightarrow> lineage_manifest list \<Rightarrow> (string \<times> string) list \<Rightarrow> lineage_manifest \<Rightarrow> bool" where
  "last_legacy ref ms now =
     (let L = legacy_of ref ms; C = {m \<in> L. continued ref ms m}; D = {m \<in> L. produced ref now m} in
      newest (if C \<noteq> {} then C else if D \<noteq> {} then D else L))"

text \<open>A manifest has a successor when one declares it, or when it has no lineage and is not the last one without.\<close>

definition has_successor :: "string \<Rightarrow> lineage_manifest list \<Rightarrow> (string \<times> string) list \<Rightarrow> lineage_manifest \<Rightarrow> bool" where
  "has_successor ref ms now m = (continued ref ms m \<or> \<not> g_declared m \<and> \<not> last_legacy ref ms now m)"

text \<open>No manifest is continued twice, and at most one without lineage is continued.\<close>

definition continues_once :: "string \<Rightarrow> lineage_manifest list \<Rightarrow> bool" where
  "continues_once ref ms =
     ((\<forall>m \<in> set ms. \<forall>n \<in> set ms. candidate ref m \<longrightarrow> candidate ref n \<longrightarrow> predecessor_of ref m \<noteq> None
         \<longrightarrow> predecessor_of ref m = predecessor_of ref n \<longrightarrow> m = n)
      \<and> (\<forall>m \<in> legacy_of ref ms. \<forall>n \<in> legacy_of ref ms. continued ref ms m \<longrightarrow> continued ref ms n \<longrightarrow> m = n))"

lemma latest_newest: "n \<in> insert m (set xs) \<Longrightarrow> sort_index n \<le> sort_index (latest m xs)"
proof (induction xs arbitrary: m n)
  case (Cons x xs)
  let ?k = "if sort_index m < sort_index x then x else m"
  have k: "sort_index ?k \<le> sort_index (latest ?k xs)" by (rule Cons.IH) simp
  have "sort_index m \<le> sort_index ?k" "sort_index x \<le> sort_index ?k" by auto
  then have "sort_index m \<le> sort_index (latest ?k xs)" "sort_index x \<le> sort_index (latest ?k xs)" using k order_trans by blast+
  moreover have "n \<in> set xs \<Longrightarrow> sort_index n \<le> sort_index (latest ?k xs)" by (rule Cons.IH) simp
  ultimately show ?case using Cons.prems by auto
qed simp

lemma newest_unique:
  assumes "distinct (map g_id ms)" and "A \<subseteq> set ms" and "newest A m" and "newest A n"
  shows "m = n"
proof -
  have "sort_index m = sort_index n" using assms(3,4) by (auto simp: newest_def intro: antisym)
  then have "g_id m = g_id n" by (simp add: sort_index_def)
  moreover have "m \<in> set ms" "n \<in> set ms" using assms(2-4) by (auto simp: newest_def)
  ultimately show ?thesis using assms(1) by (auto simp: distinct_map dest: inj_onD)
qed

lemma newest_last: "legacy_chain cs \<noteq> [] \<Longrightarrow> newest (set (legacy_chain cs)) (last (legacy_chain cs))"
proof -
  assume "legacy_chain cs \<noteq> []"
  then obtain us u where c: "legacy_chain cs = us @ [u]" by (cases "legacy_chain cs" rule: rev_cases) auto
  have "sorted (map sort_index (legacy_chain cs))" by (simp add: legacy_chain_def)
  then show ?thesis unfolding c by (auto simp: newest_def sorted_append)
qed

lemma legacy_of_chain: "legacy_of ref ms = set (legacy_chain (filter (candidate ref) ms))"
  by (auto simp: legacy_of_def set_legacy_chain)

lemma tails_are_continued:
  assumes "\<forall>m \<in> set ms. g_id m \<noteq> []" and "cs = filter (candidate ref) ms"
  shows "set (explicit_tails ref cs (map g_id (legacy_chain cs))) = g_id ` {m \<in> legacy_of ref ms. continued ref ms m}"
  using assms by (auto simp: set_explicit_tails legacy_of_chain continued_def set_legacy_chain image_iff)

lemma one_tail_iff:
  assumes ids: "distinct (map g_id ms)" and ne: "\<forall>m \<in> set ms. g_id m \<noteq> []" and cs: "cs = filter (candidate ref) ms"
  shows "length (explicit_tails ref cs (map g_id (legacy_chain cs))) \<le> 1
    \<longleftrightarrow> (\<forall>m \<in> legacy_of ref ms. \<forall>n \<in> legacy_of ref ms. continued ref ms m \<longrightarrow> continued ref ms n \<longrightarrow> m = n)"
proof -
  let ?C = "{m \<in> legacy_of ref ms. continued ref ms m}"
  have inj: "inj_on g_id ?C" using ids by (auto simp: distinct_map legacy_of_def inj_on_def)
  have fin: "finite ?C" by (simp add: legacy_of_def)
  have "length (explicit_tails ref cs (map g_id (legacy_chain cs))) = card ?C"
    using tails_are_continued [OF ne cs] distinct_card [OF distinct_explicit_tails] card_image [OF inj] by metis
  moreover have "card ?C \<le> 1 \<longleftrightarrow> (\<forall>m \<in> ?C. \<forall>n \<in> ?C. m = n)" using card_le_Suc0_iff_eq [OF fin] by simp
  ultimately show ?thesis by auto
qed

lemma last_legacy_unique: "distinct (map g_id ms) \<Longrightarrow> last_legacy ref ms now m \<Longrightarrow> last_legacy ref ms now n \<Longrightarrow> m = n"
  unfolding last_legacy_def Let_def by (erule newest_unique [rotated 2]) (auto simp: legacy_of_def split: if_splits)

lemma produced_iff: "produced ref now m \<longleftrightarrow> (\<exists>d. map_of now ref = Some d \<and> d \<noteq> [] \<and> list_ex (\<lambda>t. l_ref t = ref \<and> l_after t = d) (g_targets m))"
  by (auto simp: produced_def list_ex_iff)

text \<open>The chain that is linked ends with the last manifest without lineage.\<close>

lemma chain_ends_with_last:
  assumes ids: "distinct (map g_id ms)" and ne: "\<forall>m \<in> set ms. g_id m \<noteq> []" and cs: "cs = filter (candidate ref) ms"
    and one: "length (explicit_tails ref cs (map g_id (legacy_chain cs))) \<le> 1" and some: "legacy_chain cs \<noteq> []"
  shows "last_legacy ref ms now (last (ordered_legacy (legacy_chain cs) (legacy_tails ref cs now)))"
proof -
  let ?L = "legacy_chain cs" and ?T = "explicit_tails ref cs (map g_id (legacy_chain cs))"
  let ?C = "{m \<in> set ?L. continued ref ms m}" and ?D = "{m \<in> set ?L. produced ref now m}"
  have spec: "last_legacy ref ms now = newest (if ?C \<noteq> {} then ?C else if ?D \<noteq> {} then ?D else set ?L)"
    unfolding last_legacy_def legacy_of_chain cs Let_def ..
  have tails: "set ?T = g_id ` ?C" using tails_are_continued [OF ne cs] by (simp add: legacy_of_chain cs)
  have dL: "distinct (map g_id ?L)" by (rule distinct_legacy_chain) (simp add: cs ids distinct_map_filter)
  have ends: "last (ordered_legacy ?L (g_id m # ts)) = m" if "m \<in> set ?L" for m ts using ordered_legacy_last [OF dL that] by simp
  consider "?C \<noteq> {}" | "?C = {}" "?D \<noteq> {}" | "?C = {}" "?D = {}" by blast
  then show ?thesis
  proof cases
    case 1
    then have "?T \<noteq> []" using tails by auto
    then obtain t where t: "?T = [t]" using one by (cases ?T) auto
    then obtain c where c: "c \<in> ?C" "t = g_id c" using tails by auto
    have "n = c" if n: "n \<in> ?C" for n
    proof -
      have "g_id n \<in> set ?T" unfolding tails using n by (rule imageI)
      then have "g_id n = g_id c" using t c(2) by simp
      then show ?thesis using n c(1) dL by (simp add: distinct_map inj_on_def)
    qed
    then have "?C = {c}" using c(1) by blast
    moreover have "newest {c} c" by (simp add: newest_def)
    ultimately have "newest ?C c" by (simp only:)
    then have "last_legacy ref ms now c" unfolding spec if_P [OF 1] .
    moreover have "legacy_tails ref cs now = [g_id c]" using legacy_tails_explicit [OF \<open>?T \<noteq> []\<close>] t c(2) by simp
    then have "last (ordered_legacy ?L (legacy_tails ref cs now)) = c" using ends [of c] c(1) by simp
    ultimately show ?thesis by simp
  next
    case 2
    then obtain d where d: "map_of now ref = Some d" "d \<noteq> []" by (auto simp: produced_iff)
    let ?P = "\<lambda>m. list_ex (\<lambda>t. l_ref t = ref \<and> l_after t = d) (g_targets m)"
    have D: "?D = set (filter ?P ?L)" using d by (auto simp: produced_iff)
    then obtain x xs where f: "filter ?P ?L = x # xs" using 2(2) by (cases "filter ?P ?L") auto
    have "?T = []" using tails 2(1) by auto
    then have "legacy_tails ref cs now = [g_id (latest x xs)]" using d f by (simp add: legacy_tails_def Let_def)
    moreover have "latest x xs \<in> ?D" using D f latest_in [of x xs] by simp
    moreover have "newest ?D (latest x xs)" using \<open>latest x xs \<in> ?D\<close> D f latest_newest [of _ x xs] by (simp add: newest_def)
    ultimately show ?thesis using spec 2 ends by simp
  next
    case 3
    have "?T = []" using tails 3(1) by auto
    moreover have "filter (\<lambda>m. list_ex (\<lambda>t. l_ref t = ref \<and> l_after t = d) (g_targets m)) ?L = []" if "map_of now ref = Some d" "d \<noteq> []" for d
      using 3(2) that by (auto simp: produced_iff filter_empty_conv)
    ultimately have "legacy_tails ref cs now = []" by (simp add: legacy_tails_def Let_def split: option.split)
    then show ?thesis using spec 3 newest_last [OF some] by (simp add: ordered_legacy_def)
  qed
qed

text \<open>The keys of the links are the manifests with a successor.\<close>

lemma linked_iff_successor:
  assumes ids: "distinct (map g_id ms)" and ne: "\<forall>m \<in> set ms. g_id m \<noteq> []" and cs: "cs = filter (candidate ref) ms"
    and one: "length (explicit_tails ref cs (map g_id (legacy_chain cs))) \<le> 1"
    and l: "link ref cs (committed_chain ms now ref) = Inr succs" and m: "m \<in> set cs"
  shows "succs (g_id m) \<noteq> None \<longleftrightarrow> has_successor ref ms now m"
proof -
  let ?L = "legacy_chain cs"
  let ?C = "ordered_legacy ?L (legacy_tails ref cs now)"
  have chain: "committed_chain ms now ref = chain_links ?C" by (simp add: committed_chain_def cs Let_def)
  have "succs (g_id m) \<noteq> None \<longleftrightarrow> g_id m \<in> dom succs" by (simp add: domIff)
  also have "\<dots> \<longleftrightarrow> g_id m \<in> set (butlast (map g_id ?C)) \<or> continued ref ms m"
    using link_Inr [OF l] unfolding chain chain_links_dom by (auto simp: continued_def cs)
  also have "g_id m \<in> set (butlast (map g_id ?C)) \<longleftrightarrow> \<not> g_declared m \<and> \<not> last_legacy ref ms now m"
  proof (cases "?L = []")
    case True
    then have "?C = []" using set_ordered_legacy [of ?L] by simp
    moreover have "g_declared m" using True m set_legacy_chain [of cs] by auto
    ultimately show ?thesis by simp
  next
    case False
    have dL: "distinct (map g_id ?L)" by (rule distinct_legacy_chain) (simp add: cs ids distinct_map_filter)
    have "?C \<noteq> []" using set_ordered_legacy [of ?L] False by (metis set_empty)
    then have b: "set (butlast (map g_id ?C)) = g_id ` set ?L - {g_id (last ?C)}"
      using butlast_distinct [OF distinct_ordered_legacy [OF dL]] by (simp add: set_ordered_legacy last_map)
    have last: "last ?C \<in> set ?L" using \<open>?C \<noteq> []\<close> last_in_set set_ordered_legacy by metis
    have same: "g_id x = g_id y \<longleftrightarrow> x = y" if "x \<in> set cs" "y \<in> set cs" for x y
      using ids that by (auto simp: cs distinct_map dest: inj_onD)
    have sub: "set ?L \<subseteq> set cs" by (auto simp: set_legacy_chain)
    have "last_legacy ref ms now m \<longleftrightarrow> m = last ?C"
      using chain_ends_with_last [OF ids ne cs one False, of now] last_legacy_unique [OF ids] by blast
    moreover have "g_id m \<in> g_id ` set ?L \<longleftrightarrow> \<not> g_declared m" using same m sub by (auto simp: set_legacy_chain image_iff)
    moreover have "g_id m = g_id (last ?C) \<longleftrightarrow> m = last ?C" using same m last sub by blast
    ultimately show ?thesis unfolding b by auto
  qed
  finally show ?thesis by (auto simp: has_successor_def)
qed

text \<open>The linking succeeds exactly when no manifest is continued twice.\<close>

lemma linkable_iff:
  assumes ids: "distinct (map g_id ms)" and ne: "\<forall>m \<in> set ms. g_id m \<noteq> []" and cs: "cs = filter (candidate ref) ms"
    and one: "length (explicit_tails ref cs (map g_id (legacy_chain cs))) \<le> 1"
  shows "(\<exists>succs. link ref cs (committed_chain ms now ref) = Inr succs)
    \<longleftrightarrow> (\<forall>m \<in> set ms. \<forall>n \<in> set ms. candidate ref m \<longrightarrow> candidate ref n \<longrightarrow> predecessor_of ref m \<noteq> None
         \<longrightarrow> predecessor_of ref m = predecessor_of ref n \<longrightarrow> m = n)" (is "?linked \<longleftrightarrow> ?once")
proof
  assume ?linked
  then obtain succs where l: "link ref cs (committed_chain ms now ref) = Inr succs" ..
  have "m = n" if "m \<in> set ms" "n \<in> set ms" "candidate ref m" "candidate ref n" "predecessor_of ref m = Some p" "predecessor_of ref n = Some p" for m n p
  proof -
    have "m \<in> set cs" "n \<in> set cs" using that by (simp_all add: cs)
    then have "succs p = Some (g_id m)" "succs p = Some (g_id n)" using link_Inr [OF l] that(5,6) by blast+
    then have "g_id m = g_id n" by simp
    then show ?thesis using ids that(1,2) by (auto simp: distinct_map dest: inj_onD)
  qed
  then show ?once by (metis option.exhaust)
next
  assume once: ?once
  let ?L = "legacy_chain cs"
  let ?C = "ordered_legacy ?L (legacy_tails ref cs now)"
  have chain: "committed_chain ms now ref = chain_links ?C" by (simp add: committed_chain_def cs Let_def)
  have dC: "distinct (map g_id ?C)"
    by (rule distinct_ordered_legacy, rule distinct_legacy_chain) (simp add: cs ids distinct_map_filter)
  define g where "g p = (case find (\<lambda>m. predecessor_of ref m = Some p) cs of Some m \<Rightarrow> Some (g_id m) | None \<Rightarrow> chain_links ?C p)" for p
  have "g p = Some (g_id m)" if "m \<in> set cs" "predecessor_of ref m = Some p" for m p
  proof -
    have "find (\<lambda>m. predecessor_of ref m = Some p) cs \<noteq> None" using that by (auto simp: find_None_iff)
    then obtain n where n: "find (\<lambda>m. predecessor_of ref m = Some p) cs = Some n" by blast
    then have "n \<in> set cs" "predecessor_of ref n = Some p" by (auto simp: find_Some_iff)
    then have "m = n" using once that by (simp add: cs)
    then show ?thesis using n by (simp add: g_def)
  qed
  moreover have "chain_links ?C \<subseteq>\<^sub>m g"
    unfolding map_le_def
  proof
    fix p assume p: "p \<in> dom (chain_links ?C)"
    have "predecessor_of ref m \<noteq> Some p" if m: "m \<in> set cs" for m
    proof
      assume pred: "predecessor_of ref m = Some p"
      have in_C: "p \<in> g_id ` set ?L" using p by (auto simp: chain_links_dom set_ordered_legacy dest: in_set_butlastD)
      then have "p \<in> set (explicit_tails ref cs (map g_id ?L))"
        using m pred ne by (auto simp: set_explicit_tails set_legacy_chain cs)
      then have t: "explicit_tails ref cs (map g_id ?L) = [p]"
        using one by (cases "explicit_tails ref cs (map g_id ?L)") auto
      then have "legacy_tails ref cs now = [p]" using legacy_tails_explicit [of ref cs now] by simp
      then have "g_id (last ?C) = p" using last_ordered_legacy [of ?L p "[]"] in_C
        by (simp add: distinct_legacy_chain cs ids distinct_map_filter)
      moreover have "?C \<noteq> []" using p by (auto simp: chain_links_def)
      ultimately show False using p butlast_distinct [OF dC] by (simp add: chain_links_dom last_map)
    qed
    then have "find (\<lambda>m. predecessor_of ref m = Some p) cs = None" by (simp add: find_None_iff)
    then show "chain_links ?C p = g p" by (simp add: g_def)
  qed
  ultimately show ?linked unfolding chain using link_ok [of "chain_links ?C" g cs ref] by blast
qed

lemma find_hd: "find P xs = (if filter P xs = [] then None else Some (hd (filter P xs)))"
  by (induction xs) auto

text \<open>C11: The head of a shared file is the unique committed generation without a successor. For manifests with distinct ids that are not
  empty, the answer is the manifest \<open>h\<close> exactly when no manifest is continued twice, at most one manifest without lineage is continued, and \<open>h\<close>
  is the one committed manifest of the ref that has no successor: none that declares it, and, when it has no lineage itself, none after
  it, because it is the last of those (the one that is continued, else the newest that left the bytes on disk, else the newest). The
  digest is the one \<open>h\<close> left for the ref. No head is answered exactly when no committed manifest changed the ref, and everything else is
  an error.\<close>

theorem ref_head_is_last_generation:
  assumes "distinct (map g_id ms)" and "\<forall>m \<in> set ms. g_id m \<noteq> []"
  shows "(ref_head ms now ref = Inr (Some (i, d)) \<longleftrightarrow>
      continues_once ref ms \<and> (\<exists>h. {m \<in> set ms. candidate ref m \<and> \<not> has_successor ref ms now m} = {h}
        \<and> i = g_id h \<and> d = l_after (hd (filter (\<lambda>t. l_ref t = ref) (g_targets h)))))
    \<and> (ref_head ms now ref = Inr None \<longleftrightarrow> \<not> (\<exists>m \<in> set ms. g_state m = ''COMMITTED'' \<and> (\<exists>t \<in> set (g_targets m). l_ref t = ref)))"
proof -
  define cs where "cs = filter (candidate ref) ms"
  have one: "length (explicit_tails ref cs (map g_id (legacy_chain cs))) \<le> 1 \<and> (\<exists>succs. link ref cs (committed_chain ms now ref) = Inr succs)
      \<longleftrightarrow> continues_once ref ms"
    using one_tail_iff [OF assms cs_def] linkable_iff [OF assms cs_def, of now] unfolding continues_once_def by blast
  have after: "after_of ref h = l_after (hd (filter (\<lambda>t. l_ref t = ref) (g_targets h)))" if "candidate ref h" for h
    using that by (auto simp: after_of_def find_hd candidate_def has_target_def list_ex_iff filter_empty_conv)
  have heads: "{m \<in> set ms. candidate ref m \<and> \<not> has_successor ref ms now m} = set (filter (\<lambda>m. succs (g_id m) = None) cs)"
    if "length (explicit_tails ref cs (map g_id (legacy_chain cs))) \<le> 1" "link ref cs (committed_chain ms now ref) = Inr succs" for succs
  proof -
    have "succs (g_id m) = None \<longleftrightarrow> \<not> has_successor ref ms now m" if "m \<in> set cs" for m
      using linked_iff_successor [OF assms cs_def \<open>length _ \<le> 1\<close> \<open>link _ _ _ = _\<close> that] by blast
    then have "set (filter (\<lambda>m. succs (g_id m) = None) cs) = {m \<in> set cs. \<not> has_successor ref ms now m}" by auto
    then show ?thesis by (simp add: cs_def conj_assoc)
  qed
  have "distinct cs" using assms(1) by (simp add: cs_def distinct_map)
  then have single: "set (filter P cs) = {h} \<longleftrightarrow> filter P cs = [h]" for P h
    using singleton_list [of "filter P cs" h] distinct_filter by (metis empty_set list.simps(15))
  have main: "ref_head ms now ref = Inr (Some (i, d)) \<longleftrightarrow> continues_once ref ms
      \<and> (\<exists>h. {m \<in> set ms. candidate ref m \<and> \<not> has_successor ref ms now m} = {h} \<and> i = g_id h \<and> d = after_of ref h)" (is "?l \<longleftrightarrow> ?r")
  proof
    assume head: ?l
    obtain h succs where h: "i = g_id h" "d = after_of ref h" "link ref cs (committed_chain ms now ref) = Inr succs"
      "filter (\<lambda>m. succs (g_id m) = None) cs = [h]" using ref_head_Inr [OF head] unfolding cs_def by metis
    have tail: "length (explicit_tails ref cs (map g_id (legacy_chain cs))) \<le> 1" unfolding cs_def by (rule ref_head_one_tail [OF head])
    then show ?r using one h heads [OF tail h(3)] by auto
  next
    assume ?r
    then obtain h succs where h: "{m \<in> set ms. candidate ref m \<and> \<not> has_successor ref ms now m} = {h}" "i = g_id h" "d = after_of ref h"
      "length (explicit_tails ref cs (map g_id (legacy_chain cs))) \<le> 1" "link ref cs (committed_chain ms now ref) = Inr succs"
      using one by metis
    have "set (filter (\<lambda>m. succs (g_id m) = None) cs) = {h}" using heads [OF h(4,5)] h(1) by (rule subst)
    then have "filter (\<lambda>m. succs (g_id m) = None) cs = [h]" unfolding single .
    then show ?l using h ref_head_InrI [of ref ms now succs h] unfolding cs_def by fastforce
  qed
  have cand: "candidate ref h" if "{m \<in> set ms. candidate ref m \<and> \<not> has_successor ref ms now m} = {h}" for h using that by blast
  have "ref_head ms now ref = Inr None \<longleftrightarrow> cs = []"
    by (auto simp: ref_head_def cs_def Let_def split: sum.splits list.splits)
  then have "ref_head ms now ref = Inr None \<longleftrightarrow> \<not> (\<exists>m \<in> set ms. g_state m = ''COMMITTED'' \<and> (\<exists>t \<in> set (g_targets m). l_ref t = ref))"
    by (simp add: cs_def filter_empty_conv candidate_def has_target_def list_ex_iff)
  moreover have "(\<exists>h. {m \<in> set ms. candidate ref m \<and> \<not> has_successor ref ms now m} = {h} \<and> i = g_id h \<and> d = after_of ref h)
    \<longleftrightarrow> (\<exists>h. {m \<in> set ms. candidate ref m \<and> \<not> has_successor ref ms now m} = {h} \<and> i = g_id h
        \<and> d = l_after (hd (filter (\<lambda>t. l_ref t = ref) (g_targets h))))"
    by (intro ex_cong1 conj_cong refl) (simp only: after [OF cand])
  ultimately show ?thesis using main by blast
qed

section \<open>Two generations of one file\<close>

definition gen_manifest :: "string \<Rightarrow> string \<Rightarrow> string \<Rightarrow> (string \<times> string) list \<Rightarrow> lineage_manifest" where
  "gen_manifest i b a lin = \<lparr>g_id = i, g_state = ''COMMITTED'', g_created = ''2026'', g_updated = ''2026'',
     g_targets = [\<lparr>l_ref = ''a.md'', l_before = b, l_after = a\<rparr>], g_lineage = lin, g_declared = (lin \<noteq> [])\<rparr>"

abbreviation (input) gen_two :: lineage_manifest where
  "gen_two \<equiv> gen_manifest ''g2'' ''d1'' ''d2'' [(''a.md'', ''g1'')]"

lemma gen_two_head:
  "ref_head [gen_manifest ''g1'' ''d0'' ''d1'' []] [] ''a.md'' = Inr (Some (''g1'', ''d1''))"
  "ref_head [gen_two, gen_manifest ''g1'' ''d0'' ''d1'' []] [] ''a.md'' = Inr (Some (''g2'', ''d2''))"
  by code_simp+

lemma ref_head_is_last_generation_witness:
  "continues_once ''a.md'' [gen_two, gen_manifest ''g1'' ''d0'' ''d1'' []]
    \<and> (\<exists>h. {m \<in> set [gen_two, gen_manifest ''g1'' ''d0'' ''d1'' []]. candidate ''a.md'' m
        \<and> \<not> has_successor ''a.md'' [gen_two, gen_manifest ''g1'' ''d0'' ''d1'' []] [] m} = {h} \<and> g_id h = ''g2'')"
proof -
  have "distinct (map g_id [gen_two, gen_manifest ''g1'' ''d0'' ''d1'' []])" "\<forall>m \<in> set [gen_two, gen_manifest ''g1'' ''d0'' ''d1'' []]. g_id m \<noteq> []"
    by (simp_all add: gen_manifest_def)
  from ref_head_is_last_generation [OF this, of "[]" "''a.md''" "''g2''" "''d2''"] gen_two_head(2) show ?thesis by metis
qed

lemma successor_of_head_is_head_witness:
  "ref_head ([] @ gen_two # [gen_manifest ''g1'' ''d0'' ''d1'' []]) [(''a.md'', ''d9'')] ''a.md'' = Inr (Some (''g2'', after_of ''a.md'' gen_two))"
proof -
  have "predecessor_of ''a.md'' gen_two = Some ''g1''" "candidate ''a.md'' gen_two" by code_simp+
  moreover have "ref_head ([] @ [gen_manifest ''g1'' ''d0'' ''d1'' []]) [] ''a.md'' = Inr (Some (''g1'', ''d1''))"
    using gen_two_head(1) by simp
  ultimately have "ref_head ([] @ gen_manifest ''g2'' ''d1'' ''d2'' [(''a.md'', ''g1'')] # [gen_manifest ''g1'' ''d0'' ''d1'' []])
      [(''a.md'', ''d9'')] ''a.md'' = Inr (Some (g_id gen_two, after_of ''a.md'' gen_two))"
    by (intro successor_of_head_is_head) (auto simp: gen_manifest_def predecessor_of_def)
  then show ?thesis by (simp add: gen_manifest_def)
qed

end
