(* ===== verification/Release_Risk.thy ===== *)
theory Release_Risk
  imports Status_Graph
begin

text \<open>
  The risk grade of an operation (\<open>release/risk_policy.py\<close>) and the publication policy built on it
  (\<open>release/publication_policy.py\<close>): the closed vocabulary of reason codes, the frozen fingerprint of a risk
  input and its check before an apply, the admission of an operation, the aggregation of the outcomes of the
  publication targets into a phase, and the verification of what was published.

  SHA-256 and the reader of ISO dates are arguments. Fields that hold the same constant in every value
  (\<open>schema_version\<close>, \<open>kind\<close>, \<open>policy_version\<close>) appear in the renderings only.
\<close>

section \<open>Grades\<close>

datatype risk_grade = G0 | G1 | G2

fun grade_value :: "risk_grade \<Rightarrow> nat" where
  "grade_value G0 = 0"
| "grade_value G1 = 1"
| "grade_value G2 = 2"

instantiation risk_grade :: linorder
begin

definition less_eq_risk_grade :: "risk_grade \<Rightarrow> risk_grade \<Rightarrow> bool" where
  "less_eq_risk_grade a b = (grade_value a \<le> grade_value b)"

definition less_risk_grade :: "risk_grade \<Rightarrow> risk_grade \<Rightarrow> bool" where
  "less_risk_grade a b = (grade_value a < grade_value b)"

instance
proof
  fix x y z :: risk_grade
  show "x < y \<longleftrightarrow> x \<le> y \<and> \<not> y \<le> x" by (auto simp: less_eq_risk_grade_def less_risk_grade_def)
  show "x \<le> x" by (simp add: less_eq_risk_grade_def)
  show "x \<le> y \<Longrightarrow> y \<le> z \<Longrightarrow> x \<le> z" by (simp add: less_eq_risk_grade_def)
  show "x \<le> y \<Longrightarrow> y \<le> x \<Longrightarrow> x = y" by (cases x; cases y) (simp_all add: less_eq_risk_grade_def)
  show "x \<le> y \<or> y \<le> x" by (auto simp: less_eq_risk_grade_def)
qed

end

fun grade_name :: "risk_grade \<Rightarrow> string" where
  "grade_name G0 = ''G0''"
| "grade_name G1 = ''G1''"
| "grade_name G2 = ''G2''"

definition code_to_grade :: "(string \<times> risk_grade) list" where
  "code_to_grade = [(''ORDINARY'', G0), (''REGISTRY-PUBLIC'', G1), (''PUBLIC'', G1), (''SECURITY-BOUNDARY'', G2),
     (''CREDENTIAL'', G2), (''PRODUCTION-WRITE'', G2), (''LIVE'', G2)]"

definition risk_policy_version :: string where
  "risk_policy_version = ''1''"

definition risk_policy_text :: string where
  "risk_policy_text = risk_policy_version @ ''|'' @ join_with '',''
     (map (\<lambda>c. c @ ''='' @ (case map_of code_to_grade c of None \<Rightarrow> [] | Some g \<Rightarrow> grade_name g))
       (sort (map fst code_to_grade)))"

definition risk_policy_fingerprint :: "(string \<Rightarrow> string) \<Rightarrow> string" where
  "risk_policy_fingerprint sha = sha risk_policy_text"

record risk_evaluation =
  re_fingerprint :: string
  re_codes :: "string list"
  re_grade :: "risk_grade option"
  re_decision :: string
  re_blocker :: "string option"

text \<open>\<open>_normalize\<close>: stripped, without empty codes and duplicates, sorted.\<close>

definition normalize_codes :: "string list \<Rightarrow> string list" where
  "normalize_codes codes = sort (remdups (filter (\<lambda>c. c \<noteq> []) (map py_strip codes)))"

fun max_of :: "risk_grade \<Rightarrow> risk_grade list \<Rightarrow> risk_grade" where
  "max_of g [] = g"
| "max_of g (x # xs) = max_of (max g x) xs"

definition grades_of :: "string list \<Rightarrow> risk_grade list" where
  "grades_of codes = List.map_filter (map_of code_to_grade) codes"

definition evaluate_risk_grade :: "(string \<Rightarrow> string) \<Rightarrow> string list \<Rightarrow> risk_evaluation" where
  "evaluate_risk_grade sha reason_codes =
     (let fp = risk_policy_fingerprint sha; codes = normalize_codes reason_codes in
      if codes = []
      then \<lparr>re_fingerprint = fp, re_codes = codes, re_grade = None, re_decision = ''BLOCKED'',
            re_blocker = Some ''RISK_INPUT_EMPTY''\<rparr>
      else if list_ex (\<lambda>c. map_of code_to_grade c = None) codes
      then \<lparr>re_fingerprint = fp, re_codes = codes, re_grade = None, re_decision = ''BLOCKED'',
            re_blocker = Some ''RISK_CODE_UNKNOWN''\<rparr>
      else \<lparr>re_fingerprint = fp, re_codes = codes,
            re_grade = Some (max_of G0 (grades_of codes)), re_decision = ''PASS'', re_blocker = None\<rparr>)"

section \<open>The frozen input\<close>

record risk_input =
  ri_fingerprint :: string
  ri_codes :: "string list"
  ri_input :: string

definition risk_input_text :: "string \<Rightarrow> string list \<Rightarrow> string" where
  "risk_input_text fp codes = join_with ''|'' (fp # codes)"

definition build_risk_input_fingerprint :: "(string \<Rightarrow> string) \<Rightarrow> risk_evaluation \<Rightarrow> risk_input result" where
  "build_risk_input_fingerprint sha ev =
     (if re_decision ev \<noteq> ''PASS'' then Inl (ValueError ''RISK_EVALUATION_NOT_PASS'')
      else Inr \<lparr>ri_fingerprint = re_fingerprint ev, ri_codes = re_codes ev,
             ri_input = sha (risk_input_text (re_fingerprint ev) (re_codes ev))\<rparr>)"

record risk_revalidation =
  rv_decision :: string
  rv_blocker :: "string option"
  rv_detail :: "string list"

datatype frozen_risk = Frozen_Input risk_input | Frozen_Mapping pydict

fun frozen_input :: "frozen_risk \<Rightarrow> risk_input" where
  "frozen_input (Frozen_Input i) = i"
| "frozen_input (Frozen_Mapping d) =
     \<lparr>ri_fingerprint = str_or_empty (dget d ''policy_fingerprint''),
      ri_codes = (case dget d ''reason_codes'' of PList xs \<Rightarrow> map py_str xs | _ \<Rightarrow> []),
      ri_input = str_or_empty (dget d ''input_fingerprint'')\<rparr>"

definition revalidate_risk_input :: "(string \<Rightarrow> string) \<Rightarrow> frozen_risk \<Rightarrow> string list \<Rightarrow> risk_revalidation" where
  "revalidate_risk_input sha frozen current_codes =
     (let fz = frozen_input frozen; ev = evaluate_risk_grade sha current_codes in
      case build_risk_input_fingerprint sha ev of
        Inl _ \<Rightarrow> \<lparr>rv_decision = ''BLOCKED'', rv_blocker = re_blocker ev, rv_detail = re_codes ev\<rparr>
      | Inr cur \<Rightarrow>
        if ri_fingerprint cur \<noteq> ri_fingerprint fz
        then \<lparr>rv_decision = ''BLOCKED'', rv_blocker = Some ''RISK_INPUT_CONFLICT'', rv_detail = [''policy_fingerprint'']\<rparr>
        else if ri_input cur \<noteq> ri_input fz
        then \<lparr>rv_decision = ''BLOCKED'', rv_blocker = Some ''RISK_INPUT_CONFLICT'', rv_detail = [''reason_codes'']\<rparr>
        else \<lparr>rv_decision = ''PASS'', rv_blocker = None, rv_detail = []\<rparr>)"

section \<open>Admission of an operation\<close>

record operation_admission =
  oa_operation :: string
  oa_grade :: "string option"
  oa_codes :: "string list"
  oa_requires_cp8 :: bool
  oa_disclosure :: bool
  oa_fingerprint :: string
  oa_input :: string
  oa_eligibility :: string
  oa_blocker :: "string option"

definition opt_str :: "string option \<Rightarrow> pyval" where
  "opt_str o' = (case o' of None \<Rightarrow> PNone | Some s \<Rightarrow> PStr s)"

definition admission_as_dict :: "operation_admission \<Rightarrow> pydict" where
  "admission_as_dict a =
     [(''disclosure_required'', PBool (oa_disclosure a)), (''eligibility_blocker'', opt_str (oa_blocker a)),
      (''grade'', opt_str (oa_grade a)), (''input_fingerprint'', PStr (oa_input a)),
      (''kind'', PStr ''OperationRiskAdmissionV1''), (''operation_eligibility'', PStr (oa_eligibility a)),
      (''operation_id'', PStr (oa_operation a)), (''policy_fingerprint'', PStr (oa_fingerprint a)),
      (''reason_codes'', PList (map PStr (oa_codes a))),
      (''requires_operation_cp8_evidence'', PBool (oa_requires_cp8 a)), (''schema_version'', PInt 1)]"

definition evaluate_operation_publication_admission ::
  "(string \<Rightarrow> string) \<Rightarrow> string \<Rightarrow> risk_evaluation \<Rightarrow> bool \<Rightarrow> bool \<Rightarrow> operation_admission" where
  "evaluate_operation_publication_admission sha oid ev cp8_present authorized =
     (let requires = (re_grade ev = Some G2); disclosure = (re_grade ev = Some G1) in
      case build_risk_input_fingerprint sha ev of
        Inl _ \<Rightarrow> \<lparr>oa_operation = oid, oa_grade = None, oa_codes = re_codes ev, oa_requires_cp8 = False,
           oa_disclosure = False, oa_fingerprint = re_fingerprint ev, oa_input = [], oa_eligibility = ''BLOCKED'',
           oa_blocker = Some ''RISK_CLASSIFICATION_BLOCKED''\<rparr>
      | Inr frozen \<Rightarrow>
        (let blocker = (if requires \<and> \<not> cp8_present then Some ''OPERATION_CP8_EVIDENCE_REQUIRED''
             else if requires \<and> \<not> authorized then Some ''OPERATION_AUTHORIZATION_REQUIRED'' else None) in
         \<lparr>oa_operation = oid, oa_grade = map_option grade_name (re_grade ev), oa_codes = re_codes ev,
          oa_requires_cp8 = requires, oa_disclosure = disclosure, oa_fingerprint = ri_fingerprint frozen,
          oa_input = ri_input frozen, oa_eligibility = (if blocker = None then ''PASS'' else ''BLOCKED''),
          oa_blocker = blocker\<rparr>))"

section \<open>Publication phases\<close>

datatype phase = Awaiting | Partial | Blocked | Complete_Unverified | Published_Verified

fun phase_value :: "phase \<Rightarrow> string" where
  "phase_value Awaiting = ''awaiting-publication''"
| "phase_value Partial = ''publication-partial''"
| "phase_value Blocked = ''publication-blocked''"
| "phase_value Complete_Unverified = ''publication-complete-unverified''"
| "phase_value Published_Verified = ''published-verified''"

definition all_phases :: "phase list" where
  "all_phases = [Awaiting, Partial, Blocked, Complete_Unverified, Published_Verified]"

definition phase_of :: "string \<Rightarrow> phase option" where
  "phase_of s = find (\<lambda>p. phase_value p = s) all_phases"

fun phase_transitions :: "phase \<Rightarrow> phase list" where
  "phase_transitions Awaiting = [Partial, Blocked, Complete_Unverified]"
| "phase_transitions Partial = [Partial, Blocked, Complete_Unverified]"
| "phase_transitions Blocked = [Awaiting, Blocked, Partial]"
| "phase_transitions Complete_Unverified = [Published_Verified]"
| "phase_transitions Published_Verified = []"

definition phase_transition_allowed :: "string \<Rightarrow> string \<Rightarrow> bool" where
  "phase_transition_allowed current target =
     (case phase_of current of None \<Rightarrow> False | Some p \<Rightarrow> target \<in> phase_value ` set (phase_transitions p))"

record target_outcome =
  po_kind :: string
  po_identity :: string
  po_outcome :: string
  po_attempt :: string

record phase_decision =
  pd_decision :: string
  pd_phase :: "string option"
  pd_blocker :: "string option"

definition forbidden :: phase_decision where
  "forbidden = \<lparr>pd_decision = ''BLOCKED'', pd_phase = None, pd_blocker = Some ''PUBLICATION_TRANSITION_FORBIDDEN''\<rparr>"

definition decided :: "string \<Rightarrow> phase \<Rightarrow> phase_decision" where
  "decided d p = \<lparr>pd_decision = d, pd_phase = Some (phase_value p), pd_blocker = None\<rparr>"

definition outcome_target :: "target_outcome list \<Rightarrow> phase" where
  "outcome_target os =
     (let states = map po_outcome os in
      if ''FAILED'' \<in> set states then Blocked else if ''PARTIAL'' \<in> set states then Partial else Complete_Unverified)"

definition aggregate_publication_phase :: "string \<Rightarrow> target_outcome list \<Rightarrow> bool \<Rightarrow> phase_decision" where
  "aggregate_publication_phase cur outcomes verified =
     (case phase_of cur of
        None \<Rightarrow> forbidden
      | Some p \<Rightarrow>
        if p = Published_Verified then forbidden
        else if verified then (if p \<noteq> Complete_Unverified then forbidden else decided ''PASS'' Published_Verified)
        else if outcomes = [] then decided ''NO_CHANGE'' p
        else let target = outcome_target outcomes in
          if target \<notin> set (phase_transitions p) then forbidden
          else decided (if target = p then ''NO_CHANGE'' else ''PASS'') target)"

section \<open>Published verification\<close>

text \<open>An instant with or without a time zone; Python compares neither kind with the other.\<close>

datatype instant = Naive int | Aware int

fun instant_cmp :: "(int \<Rightarrow> int \<Rightarrow> bool) \<Rightarrow> instant \<Rightarrow> instant \<Rightarrow> bool result" where
  "instant_cmp r (Naive a) (Naive b) = Inr (r a b)"
| "instant_cmp r (Aware a) (Aware b) = Inr (r a b)"
| "instant_cmp r _ _ = Inl (TypeError ''can't compare offset-naive and offset-aware datetimes'')"

fun replace_z :: "string \<Rightarrow> string" where
  "replace_z [] = []"
| "replace_z (c # cs) = (if c = CHR ''Z'' then ''+00:00'' @ replace_z cs else c # replace_z cs)"

definition parse_instant :: "(string \<Rightarrow> instant option) \<Rightarrow> string \<Rightarrow> instant result" where
  "parse_instant isof s =
     (case isof (replace_z s) of None \<Rightarrow> Inl (ValueError ''Invalid isoformat string'') | Some t \<Rightarrow> Inr t)"

definition asset_fields :: "string list" where
  "asset_fields = [''wheel'', ''sdist'', ''build_receipt'', ''sidecar'']"

record verification_inputs =
  vi_accepted :: "(string \<times> string) list"
  vi_observed :: "(string \<times> string) list"
  vi_observed_at :: string
  vi_valid_until :: string
  vi_outcomes :: "target_outcome list"

record verification_decision =
  vd_decision :: string
  vd_mismatched :: "string list"
  vd_fresh :: bool

text \<open>The chained comparison \<open>observed <= current < valid_until\<close> stops at its first false part.\<close>

fun freshness :: "(string \<Rightarrow> instant option) \<Rightarrow> instant \<Rightarrow> instant \<Rightarrow> string option \<Rightarrow> bool result" where
  "freshness isof observed valid None = instant_cmp (<) observed valid"
| "freshness isof observed valid (Some now) =
     (case parse_instant isof now of
        Inl e \<Rightarrow> Inl e
      | Inr cur \<Rightarrow>
        (case instant_cmp (\<le>) observed cur of
           Inl e \<Rightarrow> Inl e
         | Inr b \<Rightarrow> if b then instant_cmp (<) cur valid else Inr False))"

definition evaluate_published_verification ::
  "(string \<Rightarrow> instant option) \<Rightarrow> verification_inputs \<Rightarrow> string option \<Rightarrow> verification_decision result" where
  "evaluate_published_verification isof i now =
     (let mismatched = sort (filter (\<lambda>f. map_of (vi_accepted i) f \<noteq> map_of (vi_observed i) f) asset_fields) in
      case parse_instant isof (vi_observed_at i) of
        Inl e \<Rightarrow> Inl e
      | Inr observed \<Rightarrow>
        (case parse_instant isof (vi_valid_until i) of
           Inl e \<Rightarrow> Inl e
         | Inr valid \<Rightarrow>
           (case freshness isof observed valid now of
              Inl e \<Rightarrow> Inl e
            | Inr fresh \<Rightarrow>
              (let succeeded = (vi_outcomes i \<noteq> [] \<and> list_all (\<lambda>t. po_outcome t = ''SUCCEEDED'') (vi_outcomes i)) in
               Inr \<lparr>vd_decision = (if mismatched = [] \<and> fresh \<and> succeeded then ''VERIFIED'' else ''NOT_VERIFIED''),
                  vd_mismatched = mismatched, vd_fresh = fresh\<rparr>))))"

record lineage_inputs =
  li_artifacts :: "string list"
  li_oids :: "string \<times> string"
  li_semver :: string
  li_kinds :: "string list"

definition lineage_stability_check :: "lineage_inputs \<Rightarrow> lineage_inputs \<Rightarrow> bool" where
  "lineage_stability_check a b =
     (li_artifacts a = li_artifacts b \<and> li_oids a = li_oids b \<and> li_semver a = li_semver b \<and> li_kinds a = li_kinds b)"

section \<open>The vocabulary and the grade\<close>

lemma normalize_codes_set: "set (normalize_codes cs) = {py_strip c | c. c \<in> set cs \<and> py_strip c \<noteq> []}"
  by (auto simp: normalize_codes_def)

lemma normalize_codes_canonical:
  "normalize_codes cs = normalize_codes ds \<longleftrightarrow> set (normalize_codes cs) = set (normalize_codes ds)"
proof
  assume "set (normalize_codes cs) = set (normalize_codes ds)"
  then show "normalize_codes cs = normalize_codes ds"
    by (intro sorted_distinct_set_unique) (simp_all add: normalize_codes_def)
qed simp

definition known_code :: "string \<Rightarrow> bool" where
  "known_code c = (map_of code_to_grade c \<noteq> None)"

lemma known_code_iff: "known_code c \<longleftrightarrow> c \<in> set (map fst code_to_grade)"
  by (simp add: known_code_def map_of_eq_None_iff)

lemma evaluate_pass:
  "re_decision (evaluate_risk_grade sha cs) = ''PASS'' \<longleftrightarrow>
     normalize_codes cs \<noteq> [] \<and> list_all known_code (normalize_codes cs)"
  by (auto simp: evaluate_risk_grade_def Let_def known_code_def list_ex_iff list_all_iff)

lemma evaluate_fields [simp]:
  "re_fingerprint (evaluate_risk_grade sha cs) = risk_policy_fingerprint sha"
  "re_codes (evaluate_risk_grade sha cs) = normalize_codes cs"
  by (simp_all add: evaluate_risk_grade_def Let_def)

lemma evaluate_blocks:
  "re_decision (evaluate_risk_grade sha cs) \<noteq> ''PASS'' \<Longrightarrow> re_decision (evaluate_risk_grade sha cs) = ''BLOCKED''"
  by (simp add: evaluate_risk_grade_def Let_def split: if_splits)

lemma known_codes_plain: "list_all (\<lambda>c. CHR ''|'' \<notin> set c) (map fst code_to_grade)"
  by code_simp

lemma known_code_plain: "known_code c \<Longrightarrow> CHR ''|'' \<notin> set c"
  using known_codes_plain by (auto simp: known_code_iff list_all_iff)

text \<open>The text under the input digest determines the codes.\<close>

lemma risk_input_text_inj:
  assumes "risk_input_text fp cs = risk_input_text fp ds" and "cs \<noteq> []" and "ds \<noteq> []"
    and "list_all known_code cs" and "list_all known_code ds"
  shows "cs = ds"
proof -
  have join: "risk_input_text fp xs = fp @ ''|'' @ join_with ''|'' xs" if "xs \<noteq> []" for xs
    using that by (cases xs) (simp_all add: risk_input_text_def)
  have "join_with ''|'' cs = join_with ''|'' ds" using assms(1) join [OF assms(2)] join [OF assms(3)] by simp
  moreover have "split_char CHR ''|'' (join_with ''|'' xs) = xs" if "xs \<noteq> []" "list_all known_code xs" for xs
    using that known_code_plain by (intro split_char_join) (auto simp: list_all_iff)
  ultimately show ?thesis using assms by metis
qed

lemma build_fingerprint_pass:
  "re_decision ev = ''PASS'' \<Longrightarrow> build_risk_input_fingerprint sha ev = Inr \<lparr>ri_fingerprint = re_fingerprint ev,
     ri_codes = re_codes ev, ri_input = sha (risk_input_text (re_fingerprint ev) (re_codes ev))\<rparr>"
  by (simp add: build_risk_input_fingerprint_def)

lemma admission_frozen:
  assumes "re_decision ev = ''PASS''"
  shows "frozen_input (Frozen_Mapping (admission_as_dict (evaluate_operation_publication_admission sha oid ev c a))) =
     \<lparr>ri_fingerprint = re_fingerprint ev, ri_codes = re_codes ev,
      ri_input = sha (risk_input_text (re_fingerprint ev) (re_codes ev))\<rparr>"
proof -
  have "map py_str (map PStr xs) = xs" for xs by (induction xs) (simp_all add: py_str_def)
  then show ?thesis using build_fingerprint_pass [OF assms, of sha]
    by (simp add: admission_as_dict_def evaluate_operation_publication_admission_def Let_def)
qed

text \<open>What was frozen is what is admitted: checked against the admission record frozen in a plan, the present reason
  codes pass exactly when, after stripping, they are the same set of codes; the order, the repetition and the
  surrounding white space of codes are irrelevant. (Up to a collision of the digest between the two inputs.)\<close>

theorem risk_revalidation_iff:
  assumes pass: "re_decision (evaluate_risk_grade sha frozen) = ''PASS''"
    and inj: "inj_on sha {risk_input_text (risk_policy_fingerprint sha) (normalize_codes frozen),
        risk_input_text (risk_policy_fingerprint sha) (normalize_codes now_codes)}"
  shows "rv_decision (revalidate_risk_input sha
      (Frozen_Mapping (admission_as_dict (evaluate_operation_publication_admission sha oid (evaluate_risk_grade sha frozen) c a)))
      now_codes) = ''PASS'' \<longleftrightarrow> set (normalize_codes now_codes) = set (normalize_codes frozen)"
proof (cases "re_decision (evaluate_risk_grade sha now_codes) = ''PASS''")
  case True
  note known = pass [unfolded evaluate_pass] True [unfolded evaluate_pass]
  have "sha (risk_input_text (risk_policy_fingerprint sha) (normalize_codes now_codes)) =
      sha (risk_input_text (risk_policy_fingerprint sha) (normalize_codes frozen)) \<longleftrightarrow>
      normalize_codes now_codes = normalize_codes frozen"
    using inj risk_input_text_inj [of _ "normalize_codes now_codes" "normalize_codes frozen"] known
    by (auto simp: inj_on_def)
  then show ?thesis
    unfolding revalidate_risk_input_def admission_frozen [OF pass] Let_def build_fingerprint_pass [OF True]
    by (simp add: normalize_codes_canonical)
next
  case False
  then have "build_risk_input_fingerprint sha (evaluate_risk_grade sha now_codes) = Inl (ValueError ''RISK_EVALUATION_NOT_PASS'')"
    by (simp add: build_risk_input_fingerprint_def)
  then have "rv_decision (revalidate_risk_input sha f now_codes) = ''BLOCKED''" for f
    by (simp add: revalidate_risk_input_def Let_def)
  moreover have "normalize_codes now_codes \<noteq> normalize_codes frozen" using False pass unfolding evaluate_pass by metis
  ultimately show ?thesis by (simp add: normalize_codes_canonical)
qed

lemma risk_revalidation_iff_witness:
  "rv_decision (revalidate_risk_input (\<lambda>x. x)
      (Frozen_Mapping (admission_as_dict (evaluate_operation_publication_admission (\<lambda>x. x) ''op''
         (evaluate_risk_grade (\<lambda>x. x) ['' LIVE'', ''PUBLIC'']) True True))) [''PUBLIC'', ''LIVE'', ''LIVE'']) = ''PASS''"
proof -
  have "re_decision (evaluate_risk_grade (\<lambda>x. x) ['' LIVE'', ''PUBLIC'']) = ''PASS''"
    and "normalize_codes ['' LIVE'', ''PUBLIC''] = normalize_codes [''PUBLIC'', ''LIVE'', ''LIVE'']" by code_simp+
  then show ?thesis using risk_revalidation_iff [of "\<lambda>x. x" "['' LIVE'', ''PUBLIC'']" "[''PUBLIC'', ''LIVE'', ''LIVE'']"]
    by simp
qed

section \<open>Runs of the publication phases\<close>

lemma phase_of_value [simp]: "phase_of (phase_value p) = Some p"
  by (cases p) (simp_all add: phase_of_def all_phases_def)

lemma phase_value_inject [simp]: "phase_value p = phase_value q \<longleftrightarrow> p = q"
  by (metis phase_of_value option.inject)

declare phase_value.simps [simp del]

lemma phase_of_Some: "phase_of s = Some p \<Longrightarrow> s = phase_value p"
  unfolding phase_of_def find_Some_iff by auto

lemma decided_simps [simp]:
  "pd_decision (decided d p) = d" "pd_phase (decided d p) = Some (phase_value p)"
  "pd_decision forbidden = ''BLOCKED''" "pd_phase forbidden = None"
  by (simp_all add: decided_def forbidden_def)

definition publication_step :: "string \<Rightarrow> string \<Rightarrow> bool" where
  "publication_step s t = (\<exists>os v. pd_phase (aggregate_publication_phase s os v) = Some t)"

lemma publication_step_iff:
  "publication_step s t \<longleftrightarrow> (\<exists>p q. s = phase_value p \<and> t = phase_value q \<and> p \<noteq> Published_Verified
     \<and> (q = p \<or> p = Complete_Unverified \<and> q = Published_Verified
        \<or> q \<in> {Blocked, Partial, Complete_Unverified} \<and> q \<in> set (phase_transitions p)))" (is "?l \<longleftrightarrow> ?r")
proof
  assume ?l
  then obtain os v where t: "pd_phase (aggregate_publication_phase s os v) = Some t" by (auto simp: publication_step_def)
  obtain p where "phase_of s = Some p"
    using t by (cases "phase_of s") (simp_all add: aggregate_publication_phase_def)
  moreover have "outcome_target os \<in> {Blocked, Partial, Complete_Unverified}" by (simp add: outcome_target_def Let_def)
  ultimately show ?r using t phase_of_Some [of s p]
    by (auto simp: aggregate_publication_phase_def Let_def split: if_splits)
next
  assume ?r
  then obtain p q where pq: "s = phase_value p" "t = phase_value q" "p \<noteq> Published_Verified"
    and or: "q = p \<or> p = Complete_Unverified \<and> q = Published_Verified
        \<or> q \<in> {Blocked, Partial, Complete_Unverified} \<and> q \<in> set (phase_transitions p)" by blast
  have "\<exists>os. os \<noteq> [] \<and> outcome_target os = q" if "q \<in> {Blocked, Partial, Complete_Unverified}"
  proof -
    let ?o = "\<lambda>x. [\<lparr>po_kind = [], po_identity = [], po_outcome = x, po_attempt = []\<rparr>]"
    have "outcome_target (?o ''FAILED'') = Blocked" "outcome_target (?o ''PARTIAL'') = Partial"
      "outcome_target (?o ''SUCCEEDED'') = Complete_Unverified" by (simp_all add: outcome_target_def)
    with that show ?thesis by auto
  qed
  with or consider "q = p" | "p = Complete_Unverified" "q = Published_Verified"
    | os where "os \<noteq> []" "outcome_target os = q" "q \<in> set (phase_transitions p)" by blast
  then show ?l
  proof cases
    case 1
    then show ?thesis unfolding publication_step_def using pq
      by (intro exI [of _ "[]"] exI [of _ False]) (simp add: aggregate_publication_phase_def)
  next
    case 2
    then show ?thesis unfolding publication_step_def using pq
      by (intro exI [of _ "[]"] exI [of _ True]) (simp add: aggregate_publication_phase_def)
  next
    case 3
    then show ?thesis unfolding publication_step_def using pq
      by (intro exI [of _ os] exI [of _ False]) (simp add: aggregate_publication_phase_def)
  qed
qed

lemma publication_stepI:
  "q \<in> {Blocked, Partial, Complete_Unverified} \<Longrightarrow> q \<in> set (phase_transitions p) \<Longrightarrow>
     publication_step (phase_value p) (phase_value q)"
  "publication_step (phase_value Complete_Unverified) (phase_value Published_Verified)"
  unfolding publication_step_iff by (metis phase_transitions.simps(5) empty_iff list.set(1), blast)

lemma publication_completes: "publication_step\<^sup>*\<^sup>* (phase_value p) (phase_value Published_Verified)"
proof -
  have c: "publication_step\<^sup>*\<^sup>* (phase_value Complete_Unverified) (phase_value Published_Verified)"
    using publication_stepI(2) by (rule r_into_rtranclp)
  have a: "publication_step\<^sup>*\<^sup>* (phase_value x) (phase_value Published_Verified)" if "x \<in> {Awaiting, Partial}" for x
    using that by (intro converse_rtranclp_into_rtranclp [OF publication_stepI(1) c]) auto
  have "publication_step\<^sup>*\<^sup>* (phase_value Blocked) (phase_value Published_Verified)"
    by (rule converse_rtranclp_into_rtranclp [OF publication_stepI(1) a]) auto
  then show ?thesis using a c by (cases p) auto
qed

interpretation publication: status_graph publication_step "\<lambda>s. phase_of s \<noteq> None" "\<lambda>s. s = phase_value Published_Verified"
proof unfold_locales
  fix s t assume st: "publication_step s t"
  then show "phase_of s \<noteq> None \<and> phase_of t \<noteq> None" unfolding publication_step_iff by auto
  assume "s = phase_value Published_Verified"
  with st show "t = s" unfolding publication_step_iff by simp
next
  fix s assume "phase_of s \<noteq> None"
  then obtain p where "s = phase_value p" using phase_of_Some by blast
  then show "\<exists>t. publication_step\<^sup>*\<^sup>* s t \<and> t = phase_value Published_Verified" using publication_completes by blast
qed

lemma reaches_verified_via_complete:
  "publication_step\<^sup>*\<^sup>* s t \<Longrightarrow> t = phase_value Published_Verified \<Longrightarrow> s \<noteq> t
   \<Longrightarrow> publication_step\<^sup>*\<^sup>* s (phase_value Complete_Unverified)"
proof (induction rule: rtranclp_induct)
  case (step y z)
  show ?case
  proof (cases "y = phase_value Published_Verified")
    case True
    then show ?thesis using step by simp
  next
    case False
    have "y = phase_value Complete_Unverified"
      using step.hyps(2) step.prems(1) False unfolding publication_step_iff by (auto simp: phase_transitions.simps elim: phase_transitions.elims)
    then show ?thesis using step.hyps(1) by simp
  qed
qed simp

text \<open>The only way to \<open>published-verified\<close>: however the outcomes of the targets come in, a publication that ends there
  was complete and unverified before, the last step was the explicit verification, and nothing leaves that phase;
  every phase can still be brought there.\<close>

theorem publication_verified_once:
  assumes "publication_step\<^sup>*\<^sup>* s t" and "phase_of s \<noteq> None"
  shows "(t = ''published-verified'' \<longrightarrow> s = t \<or> publication_step\<^sup>*\<^sup>* s ''publication-complete-unverified'')
     \<and> (s = ''published-verified'' \<longrightarrow> t = s)
     \<and> publication_step\<^sup>*\<^sup>* t ''published-verified''
     \<and> (\<forall>os v. pd_phase (aggregate_publication_phase t os v) = Some ''published-verified''
           \<longleftrightarrow> v \<and> t = ''publication-complete-unverified'')"
proof -
  obtain p where t: "t = phase_value p"
    using publication.run_legal [OF assms] phase_of_Some by blast
  have "outcome_target os \<noteq> Published_Verified" for os by (simp add: outcome_target_def Let_def)
  then have "pd_phase (aggregate_publication_phase t os v) = Some (phase_value Published_Verified)
           \<longleftrightarrow> v \<and> t = phase_value Complete_Unverified" for os v
    unfolding t by (cases p) (auto simp: aggregate_publication_phase_def Let_def)
  moreover have "s = phase_value Published_Verified \<Longrightarrow> t = s" using publication.run_from_terminal assms(1) by blast
  moreover have "publication_step\<^sup>*\<^sup>* t (phase_value Published_Verified)" unfolding t by (rule publication_completes)
  ultimately show ?thesis using reaches_verified_via_complete [OF assms(1)]
    unfolding phase_value.simps by blast
qed

lemma publication_verified_once_witness:
  "publication_step\<^sup>*\<^sup>* ''awaiting-publication'' ''publication-complete-unverified''"
proof -
  have "phase_value Awaiting \<noteq> phase_value Published_Verified" by simp
  then show ?thesis using publication_verified_once [OF publication_completes [of Awaiting]] unfolding phase_value.simps
    by (metis option.distinct(1) phase_of_value phase_value.simps(1))
qed

text \<open>What completes a publication: from the waiting phase, the aggregate is complete exactly when there is an outcome and
  none says \<open>FAILED\<close> or \<open>PARTIAL\<close>. An outcome outside the vocabulary, an absent one included, counts as a success.\<close>

theorem publication_complete_iff:
  "pd_phase (aggregate_publication_phase ''awaiting-publication'' os False) = Some ''publication-complete-unverified''
     \<longleftrightarrow> os \<noteq> [] \<and> ''FAILED'' \<notin> po_outcome ` set os \<and> ''PARTIAL'' \<notin> po_outcome ` set os"
proof -
  have "pd_phase (aggregate_publication_phase (phase_value Awaiting) os False) = Some (phase_value Complete_Unverified)
     \<longleftrightarrow> os \<noteq> [] \<and> ''FAILED'' \<notin> po_outcome ` set os \<and> ''PARTIAL'' \<notin> po_outcome ` set os"
    by (auto simp: aggregate_publication_phase_def outcome_target_def Let_def)
  then show ?thesis unfolding phase_value.simps .
qed

end
