(* ===== verification/Release_State.thy ===== *)
theory Release_State
  imports Document_Fields Sample_Codec Release_Risk
begin

text \<open>
  The documents of the release lineage (\<open>workflow/release_order.py\<close>): event records, the aggregate release
  state, release events, snapshots and transition authorizations, each with its reader, its rendering as a
  dictionary and its digest.

  The environment holds SHA-256, the canonical JSON printer (\<open>canonical_json\<close> of \<open>workflow/package_plan.py\<close>),
  the JSON reader and the reader of ISO dates. Renderings list their keys in order. A timestamp is an
  integer on the UTC axis.
\<close>

section \<open>The environment\<close>

record release_env =
  r_sha :: "string \<Rightarrow> string"
  r_json :: "pyval \<Rightarrow> string"
  r_loads :: "string \<Rightarrow> pyval option"
  r_iso :: "string \<Rightarrow> instant option"

definition newline :: char where
  "newline = CHR 0x0A"

definition release_env_ok :: "release_env \<Rightarrow> bool" where
  "release_env_ok R = ((\<forall>x. digest_re (r_sha R x)) \<and> (\<forall>v. newline \<notin> set (r_json R v) \<and> CHR 0x0D \<notin> set (r_json R v))
     \<and> (\<forall>v. key_sorted v \<longrightarrow> r_loads R (r_json R v) = Some v))"

definition canonical_digest :: "release_env \<Rightarrow> pyval \<Rightarrow> string" where
  "canonical_digest R v = r_sha R (r_json R v)"

definition release_id_re :: "string \<Rightarrow> bool" where
  "release_id_re s = (case s of [] \<Rightarrow> False
     | c # cs \<Rightarrow> ascii_alnum c \<and> length cs \<le> 159 \<and> list_all (\<lambda>x. ascii_alnum x \<or> x \<in> set ''._:-'') cs)"

definition numeral_re :: "string \<Rightarrow> bool" where
  "numeral_re s = (s = ''0'' \<or> s \<noteq> [] \<and> list_all ascii_digit s \<and> hd s \<noteq> CHR ''0'')"

definition version_re :: "string \<Rightarrow> bool" where
  "version_re s = (case split_char CHR ''.'' s of
     [a, b, c] \<Rightarrow> numeral_re a \<and> numeral_re b \<and> numeral_re c | _ \<Rightarrow> False)"

definition digest_field :: "string \<Rightarrow> pydict \<Rightarrow> string \<Rightarrow> string result" where
  "digest_field code d k = text_field code (hex_id 64) False (dget d k)"

definition parse_timestamp :: "release_env \<Rightarrow> string \<Rightarrow> pyval \<Rightarrow> int result" where
  "parse_timestamp R code v =
     (case v of
        PStr s \<Rightarrow> (case r_iso R (replace_z s) of Some (Aware t) \<Rightarrow> Inr t | _ \<Rightarrow> Inl (ValueError code))
      | _ \<Rightarrow> Inl (AttributeError ''object has no attribute replace''))"

section \<open>States and actions\<close>

definition release_states :: "string list" where
  "release_states = [''work-verified'', ''source-candidate-ready'', ''source-frozen'', ''version-decided'', ''fingerprinted'',
     ''provider-qualified'', ''artifacts-built'', ''canary-passed'', ''cp8-approved'', ''released'']"

definition action_transitions :: "(string \<times> string \<times> string) list" where
  "action_transitions =
     [(''candidate-ready'', ''work-verified'', ''source-candidate-ready''),
      (''freeze-source'', ''source-candidate-ready'', ''source-frozen''),
      (''decide-version'', ''source-frozen'', ''version-decided''),
      (''fingerprint'', ''version-decided'', ''fingerprinted''),
      (''qualify-provider-source'', ''fingerprinted'', ''provider-qualified''),
      (''build-artifacts'', ''provider-qualified'', ''artifacts-built''),
      (''pass-canary'', ''artifacts-built'', ''canary-passed''),
      (''approve-cp8'', ''canary-passed'', ''cp8-approved''),
      (''release'', ''cp8-approved'', ''released'')]"

definition action_count_keys :: "string list" where
  "action_count_keys = [''version-metadata-change'', ''source-freeze'', ''version-decision'', ''fingerprint'',
     ''provider-qualification'', ''artifact-build'', ''artifact-materialization'', ''canary'', ''cp8'', ''release'',
     ''intermediate-release'']"

definition action_counters :: "(string \<times> string list) list" where
  "action_counters =
     [(''candidate-ready'', [''version-metadata-change'']), (''freeze-source'', [''source-freeze'']),
      (''decide-version'', [''version-decision'']), (''fingerprint'', [''fingerprint'']),
      (''qualify-provider-source'', [''provider-qualification'']),
      (''build-artifacts'', [''artifact-build'', ''artifact-materialization'']), (''pass-canary'', [''canary'']),
      (''approve-cp8'', [''cp8'']), (''release'', [''release''])]"

definition known_action :: "string \<Rightarrow> bool" where
  "known_action a = (a \<in> set (map fst action_transitions))"

section \<open>Event records\<close>

record event_record =
  v_id :: string
  v_action :: string
  v_digest :: string
  v_key :: string

definition record_fields :: "string list" where
  "record_fields = [''event_id'', ''action'', ''event_digest'', ''transition_key'']"

definition record_from_mapping :: "pyval \<Rightarrow> event_record result" where
  "record_from_mapping v =
     let_ok (closed_dict record_fields ''RELEASE_EVENT_RECORD_FIELDS_MISMATCH'' v) (\<lambda>d.
     let_ok (text_field ''RELEASE_ACTION_INVALID'' any_text False (dget d ''action'')) (\<lambda>action.
     let_ok (guard (known_action action) ''RELEASE_ACTION_INVALID'') (\<lambda>_.
     let_ok (text_field ''RELEASE_EVENT_ID_INVALID'' release_id_re False (dget d ''event_id'')) (\<lambda>eid.
     let_ok (digest_field ''RELEASE_EVENT_DIGEST_INVALID'' d ''event_digest'') (\<lambda>dig.
     let_ok (digest_field ''RELEASE_TRANSITION_KEY_INVALID'' d ''transition_key'') (\<lambda>key.
     Inr \<lparr>v_id = eid, v_action = action, v_digest = dig, v_key = key\<rparr>))))))"

definition record_as_dict :: "event_record \<Rightarrow> pydict" where
  "record_as_dict r = [(''action'', PStr (v_action r)), (''event_digest'', PStr (v_digest r)),
     (''event_id'', PStr (v_id r)), (''transition_key'', PStr (v_key r))]"

section \<open>The aggregate release state\<close>

record release_state =
  s_package :: string
  s_cr :: string
  s_version :: string
  s_current :: string
  s_source :: string
  s_plan :: string
  s_cost :: string
  s_compat :: string
  s_predecessor :: string
  s_work :: "string list"
  s_counts :: "(string \<times> int) list"
  s_records :: "event_record list"
  s_bootstrap :: "string list"
  s_invalid :: "string list"
  s_digest :: string

definition state_fields :: "string list" where
  "state_fields = [''schema_version'', ''kind'', ''package_id'', ''cr_id'', ''version'', ''current_state'',
     ''source_fingerprint'', ''plan_digest'', ''cost_digest'', ''compatibility_digest'', ''predecessor_receipt_digest'',
     ''work_verification_digests'', ''action_counts'', ''event_records'', ''consumed_bootstrap_keys'',
     ''invalidations'', ''state_digest'']"

definition counts_dict :: "(string \<times> int) list \<Rightarrow> pydict" where
  "counts_dict cs = sort_key fst (map (\<lambda>(k, n). (k, PInt n)) cs)"

definition count_mapping :: "pyval \<Rightarrow> (string \<times> int) list result" where
  "count_mapping v =
     let_ok (closed_dict action_count_keys ''RELEASE_ACTION_COUNTS_INVALID'' v) (\<lambda>d.
     let_ok (map_result (\<lambda>k. count_field ''RELEASE_ACTION_COUNTS_INVALID'' (dget d k)) action_count_keys) (\<lambda>ns.
     Inr (zip action_count_keys ns)))"

definition state_payload :: "release_state \<Rightarrow> pydict" where
  "state_payload s =
     [(''action_counts'', PDict (counts_dict (s_counts s))), (''compatibility_digest'', PStr (s_compat s)),
      (''consumed_bootstrap_keys'', PList (map PStr (s_bootstrap s))), (''cost_digest'', PStr (s_cost s)),
      (''cr_id'', PStr (s_cr s)), (''current_state'', PStr (s_current s)),
      (''event_records'', PList (map (PDict \<circ> record_as_dict) (s_records s))),
      (''invalidations'', PList (map PStr (s_invalid s))), (''kind'', PStr ''AggregateReleaseStateV1''),
      (''package_id'', PStr (s_package s)), (''plan_digest'', PStr (s_plan s)),
      (''predecessor_receipt_digest'', PStr (s_predecessor s)), (''schema_version'', PInt 1),
      (''source_fingerprint'', PStr (s_source s)), (''version'', PStr (s_version s)),
      (''work_verification_digests'', PList (map PStr (s_work s)))]"

definition state_as_dict :: "release_state \<Rightarrow> pydict" where
  "state_as_dict s = (case state_payload s of
     payload \<Rightarrow> take 14 payload @ [(''state_digest'', PStr (s_digest s))] @ drop 14 payload)"

definition state_from_mapping :: "release_env \<Rightarrow> pyval \<Rightarrow> release_state result" where
  "state_from_mapping R v =
     let_ok (closed_dict state_fields ''RELEASE_STATE_FIELDS_MISMATCH'' v) (\<lambda>d.
     let_ok (guard (py_eq (dget d ''schema_version'') (PInt 1) \<and> dget d ''kind'' = PStr ''AggregateReleaseStateV1'')
        ''RELEASE_STATE_SCHEMA_INVALID'') (\<lambda>_.
     let_ok (text_field ''RELEASE_STATE_INVALID'' any_text False (dget d ''current_state'')) (\<lambda>current.
     let_ok (guard (current \<in> set release_states) ''RELEASE_STATE_INVALID'') (\<lambda>_.
     let_ok (list_field ''RELEASE_EVENT_RECORDS_INVALID'' (dget d ''event_records'')) (\<lambda>records.
     let_ok (text_field ''RELEASE_PACKAGE_ID_INVALID'' release_id_re False (dget d ''package_id'')) (\<lambda>package.
     let_ok (text_field ''RELEASE_CR_ID_INVALID'' release_id_re False (dget d ''cr_id'')) (\<lambda>cr.
     let_ok (text_field ''RELEASE_VERSION_INVALID'' version_re False (dget d ''version'')) (\<lambda>version.
     let_ok (digest_field ''RELEASE_BINDING_DIGEST_INVALID'' d ''source_fingerprint'') (\<lambda>source.
     let_ok (digest_field ''RELEASE_BINDING_DIGEST_INVALID'' d ''plan_digest'') (\<lambda>plan.
     let_ok (digest_field ''RELEASE_BINDING_DIGEST_INVALID'' d ''cost_digest'') (\<lambda>cost.
     let_ok (digest_field ''RELEASE_BINDING_DIGEST_INVALID'' d ''compatibility_digest'') (\<lambda>compatibility.
     let_ok (digest_field ''RELEASE_PREDECESSOR_DIGEST_INVALID'' d ''predecessor_receipt_digest'') (\<lambda>pred.
     let_ok (strings_field ''RELEASE_WORK_EVIDENCE_INVALID'' (dget d ''work_verification_digests'')) (\<lambda>work.
     let_ok (count_mapping (dget d ''action_counts'')) (\<lambda>counts.
     let_ok (map_result record_from_mapping records) (\<lambda>rs.
     let_ok (strings_field ''RELEASE_BOOTSTRAP_HISTORY_INVALID'' (dget d ''consumed_bootstrap_keys'')) (\<lambda>boot.
     let_ok (strings_field ''RELEASE_INVALIDATIONS_INVALID'' (dget d ''invalidations'')) (\<lambda>invalid.
     let_ok (digest_field ''RELEASE_STATE_DIGEST_INVALID'' d ''state_digest'') (\<lambda>digest.
     let s = \<lparr>s_package = package, s_cr = cr, s_version = version, s_current = current, s_source = source,
              s_plan = plan, s_cost = cost, s_compat = compatibility, s_predecessor = pred, s_work = work, s_counts = counts,
              s_records = rs, s_bootstrap = boot, s_invalid = invalid, s_digest = digest\<rparr> in
     let_ok (guard (digest = canonical_digest R (PDict (state_payload s))) ''RELEASE_STATE_DIGEST_MISMATCH'') (\<lambda>_.
     Inr s))))))))))))))))))))"

text \<open>\<open>build_initial_release_state\<close>: the payload of the first state, read back.\<close>

definition build_initial_release_state :: "release_env \<Rightarrow> string \<Rightarrow> string \<Rightarrow> string \<Rightarrow> string \<Rightarrow> string \<Rightarrow> string \<Rightarrow> string
    \<Rightarrow> string list \<Rightarrow> string \<Rightarrow> release_state result" where
  "build_initial_release_state R package cr version source plan cost compatibility work predecessor =
     (let s = \<lparr>s_package = package, s_cr = cr, s_version = version, s_current = ''work-verified'', s_source = source,
              s_plan = plan, s_cost = cost, s_compat = compatibility, s_predecessor = predecessor,
              s_work = sort (remdups work), s_counts = map (\<lambda>k. (k, 0)) action_count_keys,
              s_records = [], s_bootstrap = [], s_invalid = [], s_digest = []\<rparr> in
      state_from_mapping R (PDict (state_as_dict (s\<lparr>s_digest := canonical_digest R (PDict (state_payload s))\<rparr>))))"

section \<open>Events\<close>

record release_event =
  ev_id :: string
  ev_action :: string
  ev_target :: string
  ev_package :: string
  ev_cr :: string
  ev_version :: string
  ev_predecessor :: string
  ev_source :: string
  ev_plan :: string
  ev_cost :: string
  ev_compat :: string
  ev_evidence_ref :: string
  ev_evidence :: string
  ev_class :: string
  ev_reservation :: string
  ev_attempt :: string
  ev_bootstrap :: string
  ev_qualification :: string
  ev_wheels :: int
  ev_increment :: int
  ev_materializations :: int
  ev_intermediate :: int
  ev_harness_errors :: int
  ev_assets :: "string list"

definition event_fields :: "string list" where
  "event_fields = [''schema_version'', ''event_id'', ''action'', ''target_state'', ''package_id'', ''cr_id'', ''version'',
     ''predecessor_receipt_digest'', ''source_fingerprint'', ''plan_digest'', ''cost_digest'', ''compatibility_digest'',
     ''evidence_ref'', ''evidence_digest'', ''execution_class'', ''reservation_id'', ''attempt_id'',
     ''bootstrap_consumption_key'', ''source_qualification_receipt_digest'', ''wheel_build_count'',
     ''qualification_increment'', ''materialization_count'', ''intermediate_release_count'', ''harness_error_count'',
     ''asset_digests'']"

definition execution_classes :: "string list" where
  "execution_classes = [''governance-transition'', ''release-action'', ''dry-run'', ''fixture'']"

definition empty_or_digest :: "string \<Rightarrow> bool" where
  "empty_or_digest s = (s = [] \<or> hex_id 64 s)"

definition event_count :: "pydict \<Rightarrow> string \<Rightarrow> int result" where
  "event_count d k = count_field ''RELEASE_EVENT_COUNT_INVALID'' (dget d k)"

definition event_from_mapping :: "pyval \<Rightarrow> release_event result" where
  "event_from_mapping v =
     let_ok (closed_dict event_fields ''RELEASE_EVENT_FIELDS_MISMATCH'' v) (\<lambda>d.
     let_ok (guard (py_eq (dget d ''schema_version'') (PInt 1)) ''RELEASE_EVENT_SCHEMA_INVALID'') (\<lambda>_.
     let_ok (text_field ''RELEASE_ACTION_INVALID'' any_text False (dget d ''action'')) (\<lambda>action.
     let_ok (guard (known_action action) ''RELEASE_ACTION_INVALID'') (\<lambda>_.
     let_ok (text_field ''RELEASE_EXECUTION_CLASS_INVALID'' any_text False (dget d ''execution_class'')) (\<lambda>cls.
     let_ok (guard (cls \<in> set execution_classes) ''RELEASE_EXECUTION_CLASS_INVALID'') (\<lambda>_.
     let_ok (event_count d ''wheel_build_count'') (\<lambda>wheels.
     let_ok (event_count d ''qualification_increment'') (\<lambda>increment.
     let_ok (event_count d ''materialization_count'') (\<lambda>materializations.
     let_ok (event_count d ''intermediate_release_count'') (\<lambda>intermediate.
     let_ok (event_count d ''harness_error_count'') (\<lambda>harness.
     let_ok (text_field ''RELEASE_EVENT_ID_INVALID'' release_id_re False (dget d ''event_id'')) (\<lambda>eid.
     let_ok (text_field ''RELEASE_TARGET_STATE_INVALID'' any_text False (dget d ''target_state'')) (\<lambda>target.
     let_ok (text_field ''RELEASE_PACKAGE_ID_INVALID'' release_id_re False (dget d ''package_id'')) (\<lambda>package.
     let_ok (text_field ''RELEASE_CR_ID_INVALID'' release_id_re False (dget d ''cr_id'')) (\<lambda>cr.
     let_ok (text_field ''RELEASE_VERSION_INVALID'' version_re False (dget d ''version'')) (\<lambda>version.
     let_ok (digest_field ''RELEASE_PREDECESSOR_DIGEST_INVALID'' d ''predecessor_receipt_digest'') (\<lambda>pred.
     let_ok (digest_field ''RELEASE_BINDING_DIGEST_INVALID'' d ''source_fingerprint'') (\<lambda>source.
     let_ok (digest_field ''RELEASE_BINDING_DIGEST_INVALID'' d ''plan_digest'') (\<lambda>plan.
     let_ok (digest_field ''RELEASE_BINDING_DIGEST_INVALID'' d ''cost_digest'') (\<lambda>cost.
     let_ok (digest_field ''RELEASE_BINDING_DIGEST_INVALID'' d ''compatibility_digest'') (\<lambda>compatibility.
     let_ok (safe_ref_field ''RELEASE_EVIDENCE_REF_INVALID'' (dget d ''evidence_ref'')) (\<lambda>evidence_ref.
     let_ok (digest_field ''RELEASE_EVIDENCE_DIGEST_INVALID'' d ''evidence_digest'') (\<lambda>evidence.
     let_ok (text_field ''RELEASE_RESERVATION_ID_INVALID'' any_text True (dget d ''reservation_id'')) (\<lambda>reservation.
     let_ok (text_field ''RELEASE_ATTEMPT_ID_INVALID'' any_text True (dget d ''attempt_id'')) (\<lambda>attempt.
     let_ok (text_field ''RELEASE_BOOTSTRAP_KEY_INVALID'' empty_or_digest True (dget d ''bootstrap_consumption_key'')) (\<lambda>bootstrap.
     let_ok (text_field ''RELEASE_SOURCE_QUALIFICATION_DIGEST_INVALID'' empty_or_digest True
        (dget d ''source_qualification_receipt_digest'')) (\<lambda>qualification.
     let_ok (strings_field ''RELEASE_ASSET_DIGESTS_INVALID'' (dget d ''asset_digests'')) (\<lambda>assets.
     Inr \<lparr>ev_id = eid, ev_action = action, ev_target = target, ev_package = package, ev_cr = cr, ev_version = version,
        ev_predecessor = pred, ev_source = source, ev_plan = plan, ev_cost = cost, ev_compat = compatibility,
        ev_evidence_ref = evidence_ref, ev_evidence = evidence, ev_class = cls, ev_reservation = reservation,
        ev_attempt = attempt, ev_bootstrap = bootstrap, ev_qualification = qualification, ev_wheels = wheels,
        ev_increment = increment, ev_materializations = materializations, ev_intermediate = intermediate,
        ev_harness_errors = harness, ev_assets = assets\<rparr>))))))))))))))))))))))))))))"

definition event_as_dict :: "release_event \<Rightarrow> pydict" where
  "event_as_dict e =
     [(''action'', PStr (ev_action e)), (''asset_digests'', PList (map PStr (ev_assets e))),
      (''attempt_id'', PStr (ev_attempt e)), (''bootstrap_consumption_key'', PStr (ev_bootstrap e)),
      (''compatibility_digest'', PStr (ev_compat e)), (''cost_digest'', PStr (ev_cost e)), (''cr_id'', PStr (ev_cr e)),
      (''event_id'', PStr (ev_id e)), (''evidence_digest'', PStr (ev_evidence e)),
      (''evidence_ref'', PStr (ev_evidence_ref e)), (''execution_class'', PStr (ev_class e)),
      (''harness_error_count'', PInt (ev_harness_errors e)), (''intermediate_release_count'', PInt (ev_intermediate e)),
      (''materialization_count'', PInt (ev_materializations e)), (''package_id'', PStr (ev_package e)),
      (''plan_digest'', PStr (ev_plan e)), (''predecessor_receipt_digest'', PStr (ev_predecessor e)),
      (''qualification_increment'', PInt (ev_increment e)), (''reservation_id'', PStr (ev_reservation e)),
      (''schema_version'', PInt 1), (''source_fingerprint'', PStr (ev_source e)),
      (''source_qualification_receipt_digest'', PStr (ev_qualification e)), (''target_state'', PStr (ev_target e)),
      (''version'', PStr (ev_version e)), (''wheel_build_count'', PInt (ev_wheels e))]"

definition event_digest :: "release_env \<Rightarrow> release_event \<Rightarrow> string" where
  "event_digest R e = canonical_digest R (PDict (event_as_dict e))"

section \<open>Snapshots\<close>

record release_snapshot =
  n_state :: string
  n_source :: string
  n_plan :: string
  n_cost :: string
  n_compat :: string
  n_dirty :: string
  n_ledger :: string
  n_projection :: string
  n_status :: string

definition snapshot_fields :: "string list" where
  "snapshot_fields = [''schema_version'', ''state_digest'', ''source_fingerprint'', ''plan_digest'', ''cost_digest'',
     ''compatibility_digest'', ''dirty_inventory_digest'', ''ledger_preimage_digest'', ''projection_preimage_digest'',
     ''journal_status'']"

definition journal_statuses :: "string list" where
  "journal_statuses = [''clean'', ''partial'', ''recovered'']"

definition snapshot_from_mapping :: "pyval \<Rightarrow> release_snapshot result" where
  "snapshot_from_mapping v =
     let_ok (closed_dict snapshot_fields ''RELEASE_SNAPSHOT_FIELDS_MISMATCH'' v) (\<lambda>d.
     let_ok (guard (py_eq (dget d ''schema_version'') (PInt 1)) ''RELEASE_SNAPSHOT_SCHEMA_INVALID'') (\<lambda>_.
     let_ok (text_field ''RELEASE_JOURNAL_STATUS_INVALID'' any_text False (dget d ''journal_status'')) (\<lambda>status.
     let_ok (guard (status \<in> set journal_statuses) ''RELEASE_JOURNAL_STATUS_INVALID'') (\<lambda>_.
     let_ok (digest_field ''RELEASE_SNAPSHOT_DIGEST_INVALID'' d ''state_digest'') (\<lambda>st.
     let_ok (digest_field ''RELEASE_SNAPSHOT_DIGEST_INVALID'' d ''source_fingerprint'') (\<lambda>source.
     let_ok (digest_field ''RELEASE_SNAPSHOT_DIGEST_INVALID'' d ''plan_digest'') (\<lambda>plan.
     let_ok (digest_field ''RELEASE_SNAPSHOT_DIGEST_INVALID'' d ''cost_digest'') (\<lambda>cost.
     let_ok (digest_field ''RELEASE_SNAPSHOT_DIGEST_INVALID'' d ''compatibility_digest'') (\<lambda>compatibility.
     let_ok (digest_field ''RELEASE_SNAPSHOT_DIGEST_INVALID'' d ''dirty_inventory_digest'') (\<lambda>dirty.
     let_ok (digest_field ''RELEASE_SNAPSHOT_DIGEST_INVALID'' d ''ledger_preimage_digest'') (\<lambda>ledger.
     let_ok (digest_field ''RELEASE_SNAPSHOT_DIGEST_INVALID'' d ''projection_preimage_digest'') (\<lambda>projection.
     Inr \<lparr>n_state = st, n_source = source, n_plan = plan, n_cost = cost, n_compat = compatibility, n_dirty = dirty,
        n_ledger = ledger, n_projection = projection, n_status = status\<rparr>))))))))))))"

definition snapshot_as_dict :: "release_snapshot \<Rightarrow> pydict" where
  "snapshot_as_dict n =
     [(''compatibility_digest'', PStr (n_compat n)), (''cost_digest'', PStr (n_cost n)),
      (''dirty_inventory_digest'', PStr (n_dirty n)), (''journal_status'', PStr (n_status n)),
      (''ledger_preimage_digest'', PStr (n_ledger n)), (''plan_digest'', PStr (n_plan n)),
      (''projection_preimage_digest'', PStr (n_projection n)), (''schema_version'', PInt 1),
      (''source_fingerprint'', PStr (n_source n)), (''state_digest'', PStr (n_state n))]"

definition snapshot_digest :: "release_env \<Rightarrow> release_snapshot \<Rightarrow> string" where
  "snapshot_digest R n = canonical_digest R (PDict (snapshot_as_dict n))"

section \<open>Authorizations\<close>

record release_authorization =
  ra_id :: string
  ra_ref :: string
  ra_action :: string
  ra_event :: string
  ra_plan :: string
  ra_before :: string
  ra_source :: string
  ra_issued :: string
  ra_expires :: string
  ra_digest :: string

definition release_authorization_fields :: "string list" where
  "release_authorization_fields = [''schema_version'', ''authorization_id'', ''authorization_ref'', ''action'', ''event_id'',
     ''plan_digest'', ''before_state_digest'', ''source_fingerprint'', ''issued_at'', ''expires_at'', ''reusable'',
     ''authorization_digest'']"

text \<open>The fields are checked in the order of the source; the values kept are the raw ones, which the checks have
  shown to be texts.\<close>

definition release_authorization_from_mapping :: "release_env \<Rightarrow> pyval \<Rightarrow> release_authorization result" where
  "release_authorization_from_mapping R v =
     let_ok (closed_dict release_authorization_fields ''RELEASE_AUTHORIZATION_FIELDS_MISMATCH'' v) (\<lambda>d.
     let_ok (guard (py_eq (dget d ''schema_version'') (PInt 1) \<and> dget d ''reusable'' = PBool False)
        ''RELEASE_AUTHORIZATION_POLICY_INVALID'') (\<lambda>_.
     let_ok (text_field ''RELEASE_AUTHORIZATION_ACTION_INVALID'' any_text False (dget d ''action'')) (\<lambda>action.
     let_ok (guard (known_action action) ''RELEASE_AUTHORIZATION_ACTION_INVALID'') (\<lambda>_.
     let_ok (digest_field ''RELEASE_AUTHORIZATION_DIGEST_INVALID'' d ''plan_digest'') (\<lambda>plan.
     let_ok (digest_field ''RELEASE_AUTHORIZATION_DIGEST_INVALID'' d ''before_state_digest'') (\<lambda>before.
     let_ok (digest_field ''RELEASE_AUTHORIZATION_DIGEST_INVALID'' d ''source_fingerprint'') (\<lambda>source.
     let_ok (digest_field ''RELEASE_AUTHORIZATION_DIGEST_INVALID'' d ''authorization_digest'') (\<lambda>digest.
     let_ok (parse_timestamp R ''RELEASE_AUTHORIZATION_TIME_INVALID'' (dget d ''issued_at'')) (\<lambda>issued.
     let_ok (parse_timestamp R ''RELEASE_AUTHORIZATION_TIME_INVALID'' (dget d ''expires_at'')) (\<lambda>expires.
     let_ok (guard (issued < expires) ''RELEASE_AUTHORIZATION_TIME_INVALID'') (\<lambda>_.
     let_ok (guard (digest = canonical_digest R (PDict (filter (\<lambda>(k, _). k \<noteq> ''authorization_digest'') d)))
        ''RELEASE_AUTHORIZATION_DIGEST_MISMATCH'') (\<lambda>_.
     let_ok (text_field ''RELEASE_AUTHORIZATION_ID_INVALID'' release_id_re False (dget d ''authorization_id'')) (\<lambda>aid.
     let_ok (safe_ref_field ''RELEASE_AUTHORIZATION_REF_INVALID'' (dget d ''authorization_ref'')) (\<lambda>aref.
     let_ok (text_field ''RELEASE_EVENT_ID_INVALID'' release_id_re False (dget d ''event_id'')) (\<lambda>eid.
     Inr \<lparr>ra_id = aid, ra_ref = aref, ra_action = action, ra_event = eid, ra_plan = plan, ra_before = before,
        ra_source = source, ra_issued = the_str (dget d ''issued_at''), ra_expires = the_str (dget d ''expires_at''),
        ra_digest = digest\<rparr>)))))))))))))))"

definition release_authorization_payload :: "release_authorization \<Rightarrow> pydict" where
  "release_authorization_payload a =
     [(''action'', PStr (ra_action a)), (''authorization_id'', PStr (ra_id a)), (''authorization_ref'', PStr (ra_ref a)),
      (''before_state_digest'', PStr (ra_before a)), (''event_id'', PStr (ra_event a)),
      (''expires_at'', PStr (ra_expires a)), (''issued_at'', PStr (ra_issued a)), (''plan_digest'', PStr (ra_plan a)),
      (''reusable'', PBool False), (''schema_version'', PInt 1), (''source_fingerprint'', PStr (ra_source a))]"

definition release_authorization_as_dict :: "release_authorization \<Rightarrow> pydict" where
  "release_authorization_as_dict a =
     (case release_authorization_payload a of
        x # payload \<Rightarrow> x # (''authorization_digest'', PStr (ra_digest a)) # payload | [] \<Rightarrow> [])"

section \<open>Well-formed documents\<close>

definition record_wf :: "event_record \<Rightarrow> bool" where
  "record_wf r = (known_action (v_action r) \<and> release_id_re (v_id r) \<and> hex_id 64 (v_digest r) \<and> hex_id 64 (v_key r))"

definition counts_ok :: "(string \<times> int) list \<Rightarrow> bool" where
  "counts_ok cs = (map fst cs = action_count_keys \<and> list_all (\<lambda>(_, n). 0 \<le> n) cs)"

definition bindings_wf :: "string \<Rightarrow> string \<Rightarrow> string \<Rightarrow> string list \<Rightarrow> bool" where
  "bindings_wf package cr version digests =
     (release_id_re package \<and> release_id_re cr \<and> version_re version \<and> list_all (hex_id 64) digests)"

definition state_content_wf :: "release_state \<Rightarrow> bool" where
  "state_content_wf s =
     (s_current s \<in> set release_states
      \<and> bindings_wf (s_package s) (s_cr s) (s_version s) [s_source s, s_plan s, s_cost s, s_compat s, s_predecessor s]
      \<and> strings_ok (s_work s) \<and> counts_ok (s_counts s) \<and> list_all record_wf (s_records s)
      \<and> strings_ok (s_bootstrap s) \<and> strings_ok (s_invalid s))"

definition state_wf :: "release_env \<Rightarrow> release_state \<Rightarrow> bool" where
  "state_wf R s = (state_content_wf s \<and> hex_id 64 (s_digest s)
     \<and> s_digest s = canonical_digest R (PDict (state_payload s)))"

definition event_wf :: "release_event \<Rightarrow> bool" where
  "event_wf e =
     (known_action (ev_action e) \<and> release_id_re (ev_id e) \<and> ev_class e \<in> set execution_classes
      \<and> ev_target e \<noteq> [] \<and> py_strip (ev_target e) = ev_target e
      \<and> bindings_wf (ev_package e) (ev_cr e) (ev_version e)
          [ev_predecessor e, ev_source e, ev_plan e, ev_cost e, ev_compat e, ev_evidence e]
      \<and> ev_evidence_ref e \<noteq> [] \<and> py_strip (ev_evidence_ref e) = ev_evidence_ref e \<and> safe_ref_text (ev_evidence_ref e)
      \<and> py_strip (ev_reservation e) = ev_reservation e \<and> py_strip (ev_attempt e) = ev_attempt e
      \<and> empty_or_digest (ev_bootstrap e) \<and> empty_or_digest (ev_qualification e)
      \<and> list_all (\<lambda>n. 0 \<le> n) [ev_wheels e, ev_increment e, ev_materializations e, ev_intermediate e, ev_harness_errors e]
      \<and> strings_ok (ev_assets e))"

lemma release_id_text: "release_id_re s \<Longrightarrow> py_strip s = s \<and> s \<noteq> []"
proof
  assume r: "release_id_re s"
  then have "ascii_alnum c \<or> c \<in> set ''._:-''" if "c \<in> set s" for c
    using that by (auto simp: release_id_re_def list_all_iff split: list.splits)
  moreover have "\<not> is_ws c" if "c \<in> set ''._:-''" for c using that by (auto simp: is_ws_def)
  ultimately show "py_strip s = s" using alnum_no_ws by (intro py_strip_plain) blast
  show "s \<noteq> []" using r by (auto simp: release_id_re_def)
qed

lemma join_with_Cons_char: "join_with sep ((c # w) # ws) = c # join_with sep (w # ws)"
  by (cases ws) simp_all

lemma join_split_char: "join_with [sep] (split_char sep s) = s"
proof (induction s)
  case (Cons c s)
  then show ?case by (cases "split_char sep s") (auto simp: join_with_Cons_char split: list.splits)
qed simp

lemma numeral_text: "numeral_re s \<Longrightarrow> s \<noteq> [] \<and> list_all ascii_digit s"
  by (auto simp: numeral_re_def ascii_digit_def)

lemma digit_no_ws: "ascii_digit c \<Longrightarrow> \<not> is_ws c"
  by (auto simp: ascii_digit_def is_ws_def Let_def)

lemma version_text: "version_re s \<Longrightarrow> py_strip s = s \<and> s \<noteq> []"
proof
  assume "version_re s"
  then obtain a b c where sp: "split_char CHR ''.'' s = [a, b, c]" and n: "numeral_re a" "numeral_re b" "numeral_re c"
    by (auto simp: version_re_def split: list.splits)
  then have eq: "s = a @ ''.'' @ b @ ''.'' @ c" using join_split_char [of "CHR ''.''" s] by simp
  have "\<not> is_ws CHR ''.''" by code_simp
  then show "py_strip s = s" unfolding eq using n [THEN numeral_text]
    by (intro py_strip_plain) (auto simp: list_all_iff dest: digit_no_ws)
  show "s \<noteq> []" unfolding eq by simp
qed

lemma closed_vocabulary_text:
  "known_action s \<Longrightarrow> py_strip s = s \<and> s \<noteq> []" "s \<in> set release_states \<Longrightarrow> py_strip s = s \<and> s \<noteq> []"
  "s \<in> set execution_classes \<Longrightarrow> py_strip s = s \<and> s \<noteq> []" "s \<in> set journal_statuses \<Longrightarrow> py_strip s = s \<and> s \<noteq> []"
proof -
  have "list_all (\<lambda>s. py_strip s = s \<and> s \<noteq> []) (map fst action_transitions)" by code_simp
  then show "known_action s \<Longrightarrow> py_strip s = s \<and> s \<noteq> []" by (auto simp: known_action_def list_all_iff)
  have "list_all (\<lambda>s. py_strip s = s \<and> s \<noteq> []) release_states"
    "list_all (\<lambda>s. py_strip s = s \<and> s \<noteq> []) execution_classes"
    "list_all (\<lambda>s. py_strip s = s \<and> s \<noteq> []) journal_statuses" by code_simp+
  then show "s \<in> set release_states \<Longrightarrow> py_strip s = s \<and> s \<noteq> []" "s \<in> set execution_classes \<Longrightarrow> py_strip s = s \<and> s \<noteq> []"
    "s \<in> set journal_statuses \<Longrightarrow> py_strip s = s \<and> s \<noteq> []" by (auto simp: list_all_iff)
qed

lemma empty_or_digest_text: "empty_or_digest s \<Longrightarrow> py_strip s = s"
  by (auto simp: empty_or_digest_def py_strip_def strip_by_def rstrip_by_def dest: hex_id_stripped)

lemmas stripped_texts = release_id_text version_text closed_vocabulary_text hex_id_stripped hex_id_nonempty
  empty_or_digest_text

lemma digest_field_Inr [read_simps]: "digest_field code d k = Inr s \<longleftrightarrow> dget d k = PStr s \<and> hex_id 64 s"
  unfolding digest_field_def text_field_Inr using hex_id_stripped hex_id_nonempty [of 64 s] by auto

lemma safe_ref_field_Inr [read_simps]:
  "safe_ref_field code v = Inr s \<longleftrightarrow> v = PStr s \<and> py_strip s = s \<and> s \<noteq> [] \<and> safe_ref_text s"
  unfolding safe_ref_field_def text_field_Inr by metis

lemma id_field_Inr [read_simps]: "text_field code release_id_re False v = Inr s \<longleftrightarrow> v = PStr s \<and> release_id_re s"
  unfolding text_field_Inr using release_id_text [of s] by auto

lemma version_field_Inr [read_simps]: "text_field code version_re False v = Inr s \<longleftrightarrow> v = PStr s \<and> version_re s"
  unfolding text_field_Inr using version_text [of s] by auto

lemma optional_digest_Inr [read_simps]: "text_field code empty_or_digest True v = Inr s \<longleftrightarrow> v = PStr s \<and> empty_or_digest s"
  unfolding text_field_Inr using empty_or_digest_text [of s] by auto

section \<open>Event records\<close>

lemma record_dict: "dkeys (record_as_dict r) = set record_fields"
  "dget (record_as_dict r) ''action'' = PStr (v_action r)" "dget (record_as_dict r) ''event_digest'' = PStr (v_digest r)"
  "dget (record_as_dict r) ''event_id'' = PStr (v_id r)" "dget (record_as_dict r) ''transition_key'' = PStr (v_key r)"
  by (simp_all add: record_as_dict_def record_fields_def insert_commute)

lemma record_roundtrip: "record_wf r \<Longrightarrow> record_from_mapping (PDict (record_as_dict r)) = Inr r"
  unfolding record_from_mapping_def read_simps by (simp add: record_dict record_wf_def closed_vocabulary_text)

lemma record_type: "record_from_mapping v = Inr r \<Longrightarrow> record_wf r"
  unfolding record_from_mapping_def read_simps record_wf_def by (auto simp: read_simps)

section \<open>The state\<close>

lemma counts_roundtrip: "counts_ok cs \<Longrightarrow> count_mapping (PDict (counts_dict cs)) = Inr cs"
proof -
  assume ok: "counts_ok cs"
  let ?d = "map (\<lambda>(k, n). (k, PInt n)) cs"
  have keys: "map fst ?d = action_count_keys" and d: "distinct (map fst ?d)"
    using ok by (simp_all add: counts_ok_def comp_def split_def action_count_keys_def)
  have get: "dget (counts_dict cs) (fst c) = PInt (snd c)" if "c \<in> set cs" for c
  proof -
    have "(fst c, PInt (snd c)) \<in> set ?d" using that by (auto simp: split_def)
    then have "dget ?d (fst c) = PInt (snd c)" using d by (simp add: dget_def)
    then show ?thesis unfolding counts_dict_def dget_sort_key [OF d] .
  qed
  have "map_result (\<lambda>k. count_field ''RELEASE_ACTION_COUNTS_INVALID'' (dget (counts_dict cs) k)) (map fst cs) = Inr (map snd cs)"
    unfolding map_result_Inr list_all2_map1 list_all2_map2 list_all2_same using ok get
    by (auto simp: counts_ok_def list_all_iff)
  moreover have "dkeys (counts_dict cs) = set action_count_keys"
    unfolding counts_dict_def dkeys_sort_key unfolding dkeys_def keys ..
  moreover have "zip (map fst cs) (map snd cs) = cs" by (rule zip_map_fst_snd)
  ultimately show ?thesis using ok by (simp add: count_mapping_def counts_ok_def)
qed

lemma counts_type: "count_mapping v = Inr cs \<Longrightarrow> counts_ok cs"
proof -
  assume "count_mapping v = Inr cs"
  then obtain d ns where ns: "list_all2 (\<lambda>k n. count_field ''RELEASE_ACTION_COUNTS_INVALID'' (dget d k) = Inr n) action_count_keys ns"
    and cs: "cs = zip action_count_keys ns" by (auto simp: count_mapping_def read_simps map_result_Inr)
  have "length ns = length action_count_keys" and "\<forall>n \<in> set ns. 0 \<le> n"
    using ns by (auto simp: list_all2_conv_all_nth count_field_Inr in_set_conv_nth)
  then show ?thesis unfolding cs counts_ok_def list_all_iff by (auto dest: set_zip_rightD)
qed

lemma state_dict:
  "map fst (state_as_dict s) = map fst (take 14 (state_payload s)) @ ''state_digest'' # map fst (drop 14 (state_payload s))"
  "dget (state_as_dict s) ''schema_version'' = PInt 1" "dget (state_as_dict s) ''kind'' = PStr ''AggregateReleaseStateV1''"
  "dget (state_as_dict s) ''current_state'' = PStr (s_current s)"
  "dget (state_as_dict s) ''event_records'' = PList (map (PDict \<circ> record_as_dict) (s_records s))"
  "dget (state_as_dict s) ''package_id'' = PStr (s_package s)" "dget (state_as_dict s) ''cr_id'' = PStr (s_cr s)"
  "dget (state_as_dict s) ''version'' = PStr (s_version s)"
  "dget (state_as_dict s) ''source_fingerprint'' = PStr (s_source s)"
  "dget (state_as_dict s) ''plan_digest'' = PStr (s_plan s)" "dget (state_as_dict s) ''cost_digest'' = PStr (s_cost s)"
  "dget (state_as_dict s) ''compatibility_digest'' = PStr (s_compat s)"
  "dget (state_as_dict s) ''predecessor_receipt_digest'' = PStr (s_predecessor s)"
  "dget (state_as_dict s) ''work_verification_digests'' = PList (map PStr (s_work s))"
  "dget (state_as_dict s) ''action_counts'' = PDict (counts_dict (s_counts s))"
  "dget (state_as_dict s) ''consumed_bootstrap_keys'' = PList (map PStr (s_bootstrap s))"
  "dget (state_as_dict s) ''invalidations'' = PList (map PStr (s_invalid s))"
  "dget (state_as_dict s) ''state_digest'' = PStr (s_digest s)"
  by (simp_all add: state_as_dict_def state_payload_def)

lemma state_keys: "dkeys (state_as_dict s) = set state_fields"
proof -
  have "map fst (state_as_dict s) = [''action_counts'', ''compatibility_digest'', ''consumed_bootstrap_keys'', ''cost_digest'',
     ''cr_id'', ''current_state'', ''event_records'', ''invalidations'', ''kind'', ''package_id'', ''plan_digest'',
     ''predecessor_receipt_digest'', ''schema_version'', ''source_fingerprint'', ''state_digest'', ''version'',
     ''work_verification_digests'']" by (simp add: state_as_dict_def state_payload_def)
  moreover have "set [''action_counts'', ''compatibility_digest'', ''consumed_bootstrap_keys'', ''cost_digest'',
     ''cr_id'', ''current_state'', ''event_records'', ''invalidations'', ''kind'', ''package_id'', ''plan_digest'',
     ''predecessor_receipt_digest'', ''schema_version'', ''source_fingerprint'', ''state_digest'', ''version'',
     ''work_verification_digests''] = set state_fields" by code_simp
  ultimately show ?thesis by (simp only: dkeys_def)
qed

lemma state_eta:
  "\<lparr>s_package = s_package s, s_cr = s_cr s, s_version = s_version s, s_current = s_current s, s_source = s_source s,
    s_plan = s_plan s, s_cost = s_cost s, s_compat = s_compat s, s_predecessor = s_predecessor s, s_work = s_work s,
    s_counts = s_counts s, s_records = s_records s, s_bootstrap = s_bootstrap s, s_invalid = s_invalid s,
    s_digest = s_digest s\<rparr> = s"
  by simp

lemma state_roundtrip: "state_wf R s \<Longrightarrow> state_from_mapping R (PDict (state_as_dict s)) = Inr s"
proof -
  assume wf: "state_wf R s"
  then have content: "state_content_wf s" and dig: "hex_id 64 (s_digest s)" "canonical_digest R (PDict (state_payload s)) = s_digest s"
    unfolding state_wf_def by (blast, blast, metis)
  have "map_result record_from_mapping (map (PDict \<circ> record_as_dict) (s_records s)) = Inr (s_records s)"
    using content record_roundtrip by (intro map_result_inverse) (auto simp: state_content_wf_def list_all_iff)
  then show ?thesis using content dig
    unfolding state_from_mapping_def read_simps Let_def state_content_wf_def bindings_wf_def
    by (simp add: state_dict state_keys counts_roundtrip strings_field_PList closed_vocabulary_text state_eta)
qed

lemma records_type: "map_result record_from_mapping xs = Inr rs \<Longrightarrow> list_all record_wf rs"
  by (induction xs arbitrary: rs) (auto split: sum.splits dest: record_type)

lemma state_type: "state_from_mapping R v = Inr s \<Longrightarrow> state_wf R s"
  unfolding state_from_mapping_def read_simps Let_def
  apply (elim exE conjE)
  apply (drule sum.inject(2) [THEN iffD1])
  apply (drule counts_type)
  apply (drule records_type)
  apply (drule strings_field_ok, drule strings_field_ok, drule strings_field_ok)
  apply hypsubst
  apply (simp (no_asm) add: state_wf_def state_content_wf_def bindings_wf_def)
  done

section \<open>The first state\<close>

lemma state_payload_digest [simp]: "state_payload (s\<lparr>s_digest := d\<rparr>) = state_payload s"
  by (simp add: state_payload_def)

lemma state_read: "state_from_mapping R v = Inr s \<Longrightarrow> \<exists>d records. v = PDict d
    \<and> dget d ''current_state'' = PStr (s_current s) \<and> count_mapping (dget d ''action_counts'') = Inr (s_counts s)
    \<and> dget d ''event_records'' = PList records \<and> map_result record_from_mapping records = Inr (s_records s)
    \<and> strings_field ''RELEASE_BOOTSTRAP_HISTORY_INVALID'' (dget d ''consumed_bootstrap_keys'') = Inr (s_bootstrap s)
    \<and> strings_field ''RELEASE_INVALIDATIONS_INVALID'' (dget d ''invalidations'') = Inr (s_invalid s)"
  unfolding state_from_mapping_def read_simps Let_def
  apply (elim exE conjE)
  apply (drule sum.inject(2) [THEN iffD1])
  apply hypsubst
  apply (unfold release_state.select_convs)
  apply (intro exI conjI)
        apply (rule refl)
       apply assumption+
  done

lemma initial_state:
  assumes "build_initial_release_state R package cr version source plan cost compatibility work predecessor = Inr s"
  shows "state_wf R s \<and> s_current s = ''work-verified'' \<and> s_counts s = map (\<lambda>k. (k, 0)) action_count_keys
    \<and> s_records s = [] \<and> s_bootstrap s = [] \<and> s_invalid s = []"
proof -
  have nil: "strings_field code (PList []) = Inr []" for code by (simp add: strings_field.simps)
  define s0 where "s0 = \<lparr>s_package = package, s_cr = cr, s_version = version, s_current = ''work-verified'', s_source = source,
              s_plan = plan, s_cost = cost, s_compat = compatibility, s_predecessor = predecessor,
              s_work = sort (remdups work), s_counts = map (\<lambda>k. (k, 0)) action_count_keys,
              s_records = [], s_bootstrap = [], s_invalid = [], s_digest = []\<rparr>"
  define t where "t = s0\<lparr>s_digest := canonical_digest R (PDict (state_payload s0))\<rparr>"
  have eq: "build_initial_release_state R package cr version source plan cost compatibility work predecessor
      = state_from_mapping R (PDict (state_as_dict t))"
    by (simp add: build_initial_release_state_def t_def s0_def)
  have counts: "count_mapping (PDict (counts_dict (map (\<lambda>k. (k, 0)) action_count_keys))) = Inr (map (\<lambda>k. (k, 0)) action_count_keys)"
    by (rule counts_roundtrip) (simp add: counts_ok_def comp_def list_all_iff)
  obtain d records where "PDict (state_as_dict t) = PDict d"
    and read: "dget d ''current_state'' = PStr (s_current s)" "count_mapping (dget d ''action_counts'') = Inr (s_counts s)"
      "dget d ''event_records'' = PList records" "map_result record_from_mapping records = Inr (s_records s)"
      "strings_field ''RELEASE_BOOTSTRAP_HISTORY_INVALID'' (dget d ''consumed_bootstrap_keys'') = Inr (s_bootstrap s)"
      "strings_field ''RELEASE_INVALIDATIONS_INVALID'' (dget d ''invalidations'') = Inr (s_invalid s)"
    using state_read [OF assms [unfolded eq]] by blast
  then have d: "d = state_as_dict t" by simp
  have "s_current s = ''work-verified'' \<and> s_counts s = map (\<lambda>k. (k, 0)) action_count_keys
    \<and> s_records s = [] \<and> s_bootstrap s = [] \<and> s_invalid s = []"
    using read unfolding d state_dict by (simp add: t_def s0_def counts nil)
  then show ?thesis using state_type [OF assms [unfolded eq]] by simp
qed

lemma initial_state_exists:
  assumes "bindings_wf package cr version [source, plan, cost, compatibility, predecessor]"
    and "list_all (hex_id 64) work" and "release_env_ok R"
  shows "\<exists>s. build_initial_release_state R package cr version source plan cost compatibility work predecessor = Inr s
     \<and> s_work s = sort (remdups work)"
proof -
  define s where "s = \<lparr>s_package = package, s_cr = cr, s_version = version, s_current = ''work-verified'', s_source = source,
              s_plan = plan, s_cost = cost, s_compat = compatibility, s_predecessor = predecessor,
              s_work = sort (remdups work), s_counts = map (\<lambda>k. (k, 0)) action_count_keys,
              s_records = [], s_bootstrap = [], s_invalid = [], s_digest = []\<rparr>"
  define t where "t = s\<lparr>s_digest := canonical_digest R (PDict (state_payload s))\<rparr>"
  have work: "strings_ok (sort (remdups work))"
    using assms(2) hex_id_stripped hex_id_nonempty [of 64] by (auto simp: strings_ok_def list_all_iff)
  have "''work-verified'' \<in> set release_states" by code_simp
  then have "state_content_wf t" using assms(1) work
    by (simp add: t_def s_def state_content_wf_def bindings_wf_def counts_ok_def comp_def list_all_iff strings_ok_def)
  then have "state_wf R t" using assms(3) by (simp add: state_wf_def t_def release_env_ok_def canonical_digest_def)
  moreover have "build_initial_release_state R package cr version source plan cost compatibility work predecessor
      = state_from_mapping R (PDict (state_as_dict t))"
    by (simp add: build_initial_release_state_def t_def s_def)
  ultimately show ?thesis using state_roundtrip by (auto simp: t_def s_def)
qed

section \<open>Events, snapshots and authorizations\<close>

lemma event_keys: "dkeys (event_as_dict e) = set event_fields"
proof -
  have "map fst (event_as_dict e) = [''action'', ''asset_digests'', ''attempt_id'', ''bootstrap_consumption_key'',
     ''compatibility_digest'', ''cost_digest'', ''cr_id'', ''event_id'', ''evidence_digest'', ''evidence_ref'',
     ''execution_class'', ''harness_error_count'', ''intermediate_release_count'', ''materialization_count'',
     ''package_id'', ''plan_digest'', ''predecessor_receipt_digest'', ''qualification_increment'', ''reservation_id'',
     ''schema_version'', ''source_fingerprint'', ''source_qualification_receipt_digest'', ''target_state'', ''version'',
     ''wheel_build_count'']" by (simp add: event_as_dict_def)
  moreover have "set [''action'', ''asset_digests'', ''attempt_id'', ''bootstrap_consumption_key'',
     ''compatibility_digest'', ''cost_digest'', ''cr_id'', ''event_id'', ''evidence_digest'', ''evidence_ref'',
     ''execution_class'', ''harness_error_count'', ''intermediate_release_count'', ''materialization_count'',
     ''package_id'', ''plan_digest'', ''predecessor_receipt_digest'', ''qualification_increment'', ''reservation_id'',
     ''schema_version'', ''source_fingerprint'', ''source_qualification_receipt_digest'', ''target_state'', ''version'',
     ''wheel_build_count''] = set event_fields" by code_simp
  ultimately show ?thesis by (simp only: dkeys_def)
qed

lemma event_dict:
  "dget (event_as_dict e) ''schema_version'' = PInt 1" "dget (event_as_dict e) ''action'' = PStr (ev_action e)"
  "dget (event_as_dict e) ''asset_digests'' = PList (map PStr (ev_assets e))"
  "dget (event_as_dict e) ''attempt_id'' = PStr (ev_attempt e)"
  "dget (event_as_dict e) ''bootstrap_consumption_key'' = PStr (ev_bootstrap e)"
  "dget (event_as_dict e) ''compatibility_digest'' = PStr (ev_compat e)"
  "dget (event_as_dict e) ''cost_digest'' = PStr (ev_cost e)" "dget (event_as_dict e) ''cr_id'' = PStr (ev_cr e)"
  "dget (event_as_dict e) ''event_id'' = PStr (ev_id e)" "dget (event_as_dict e) ''evidence_digest'' = PStr (ev_evidence e)"
  "dget (event_as_dict e) ''evidence_ref'' = PStr (ev_evidence_ref e)"
  "dget (event_as_dict e) ''execution_class'' = PStr (ev_class e)"
  "dget (event_as_dict e) ''harness_error_count'' = PInt (ev_harness_errors e)"
  "dget (event_as_dict e) ''intermediate_release_count'' = PInt (ev_intermediate e)"
  "dget (event_as_dict e) ''materialization_count'' = PInt (ev_materializations e)"
  "dget (event_as_dict e) ''package_id'' = PStr (ev_package e)" "dget (event_as_dict e) ''plan_digest'' = PStr (ev_plan e)"
  "dget (event_as_dict e) ''predecessor_receipt_digest'' = PStr (ev_predecessor e)"
  "dget (event_as_dict e) ''qualification_increment'' = PInt (ev_increment e)"
  "dget (event_as_dict e) ''reservation_id'' = PStr (ev_reservation e)"
  "dget (event_as_dict e) ''source_fingerprint'' = PStr (ev_source e)"
  "dget (event_as_dict e) ''source_qualification_receipt_digest'' = PStr (ev_qualification e)"
  "dget (event_as_dict e) ''target_state'' = PStr (ev_target e)" "dget (event_as_dict e) ''version'' = PStr (ev_version e)"
  "dget (event_as_dict e) ''wheel_build_count'' = PInt (ev_wheels e)"
  by (simp_all add: event_as_dict_def)

lemma event_count_Inr [read_simps]: "event_count d k = Inr i \<longleftrightarrow> dget d k = PInt i \<and> 0 \<le> i"
  by (simp add: event_count_def count_field_Inr)

lemma event_roundtrip: "event_wf e \<Longrightarrow> event_from_mapping (PDict (event_as_dict e)) = Inr e"
  unfolding event_from_mapping_def read_simps event_wf_def bindings_wf_def
  by (simp add: event_dict event_keys strings_field_PList closed_vocabulary_text)

lemma event_type: "event_from_mapping v = Inr e \<Longrightarrow> event_wf e"
  unfolding event_from_mapping_def read_simps
  apply (elim exE conjE)
  apply (drule sum.inject(2) [THEN iffD1])
  apply (drule strings_field_ok)
  apply hypsubst
  apply (simp (no_asm) add: event_wf_def bindings_wf_def)
  done

lemma snapshot_roundtrip:
  "snapshot_from_mapping v = Inr n \<Longrightarrow> snapshot_from_mapping (PDict (snapshot_as_dict n)) = Inr n"
proof -
  assume r: "snapshot_from_mapping v = Inr n"
  have keys: "map fst (snapshot_as_dict n) = [''compatibility_digest'', ''cost_digest'', ''dirty_inventory_digest'',
      ''journal_status'', ''ledger_preimage_digest'', ''plan_digest'', ''projection_preimage_digest'', ''schema_version'',
      ''source_fingerprint'', ''state_digest'']" by (simp add: snapshot_as_dict_def)
  have "set [''compatibility_digest'', ''cost_digest'', ''dirty_inventory_digest'',
      ''journal_status'', ''ledger_preimage_digest'', ''plan_digest'', ''projection_preimage_digest'', ''schema_version'',
      ''source_fingerprint'', ''state_digest''] = set snapshot_fields" by code_simp
  then have k: "dkeys (snapshot_as_dict n) = set snapshot_fields" unfolding dkeys_def keys .
  show ?thesis using r unfolding snapshot_from_mapping_def read_simps
    by (auto simp: k closed_vocabulary_text) (simp_all add: snapshot_as_dict_def)
qed

lemma authorization_payload_dict:
  "filter (\<lambda>(k, _). k \<noteq> ''authorization_digest'') (release_authorization_as_dict a) = release_authorization_payload a"
  by (simp add: release_authorization_as_dict_def release_authorization_payload_def)

section \<open>What the readers guarantee\<close>

text \<open>C18: The readers of the release lineage decide well-formedness: a release state is what the reader returns for some
  document exactly when its identity, version, state, bindings, counters, event records and lists are in their
  grammars and its digest is the digest of its content; likewise for a release event.\<close>

theorem release_documents_type:
  "((\<exists>v. state_from_mapping R v = Inr s) \<longleftrightarrow> state_wf R s) \<and> ((\<exists>v. event_from_mapping v = Inr e) \<longleftrightarrow> event_wf e)"
  using state_type state_roundtrip event_type event_roundtrip by blast

text \<open>C19: Reading back what was read: rendering an accepted release state, event or snapshot and reading the rendering gives
  the same state, event or snapshot, even where the first document held duplicates or unordered lists.\<close>

theorem release_documents_roundtrip:
  assumes "state_from_mapping R v = Inr s" and "event_from_mapping u = Inr e" and "snapshot_from_mapping w = Inr n"
  shows "state_from_mapping R (PDict (state_as_dict s)) = Inr s \<and> event_from_mapping (PDict (event_as_dict e)) = Inr e
    \<and> snapshot_from_mapping (PDict (snapshot_as_dict n)) = Inr n"
  using state_roundtrip [OF state_type [OF assms(1)]] event_roundtrip [OF event_type [OF assms(2)]]
    snapshot_roundtrip [OF assms(3)] by simp

section \<open>An example\<close>

definition release_env0 :: release_env where
  "release_env0 = \<lparr>r_sha = sample_digest, r_json = hex_text \<circ> sample_dumps, r_loads = sample_loads \<circ> unhex,
     r_iso = (\<lambda>s. if s = ''2026-01-01T00:00:00+00:00'' then Some (Aware 2026)
        else if s = ''2030-01-01T00:00:00+00:00'' then Some (Aware 2030) else None)\<rparr>"

lemma release_env0_ok: "release_env_ok release_env0"
proof -
  have "\<not> lower_hex newline" "\<not> lower_hex CHR 0x0D" by code_simp+
  then show ?thesis
    by (auto simp: release_env_ok_def release_env0_def sample_digest_re sample_roundtrip dest: hex_text_chars)
qed

definition digest_of :: "char \<Rightarrow> string" where
  "digest_of c = replicate 64 c"

definition release_state0 :: "release_env \<Rightarrow> release_state result" where
  "release_state0 R = build_initial_release_state R ''pkg'' ''CR-072'' ''0.6.1'' (digest_of CHR ''a'') (digest_of CHR ''b'')
     (digest_of CHR ''c'') (digest_of CHR ''d'') [digest_of CHR ''f'', digest_of CHR ''e''] (digest_of CHR ''0'')"

text \<open>An event for an action, bound to a state; it declares what the action requires.\<close>

definition event_for :: "release_state \<Rightarrow> string \<Rightarrow> string \<Rightarrow> string \<Rightarrow> release_event" where
  "event_for s action target eid =
     \<lparr>ev_id = eid, ev_action = action, ev_target = target, ev_package = s_package s, ev_cr = s_cr s,
      ev_version = s_version s, ev_predecessor = s_predecessor s, ev_source = s_source s, ev_plan = s_plan s,
      ev_cost = s_cost s, ev_compat = s_compat s, ev_evidence_ref = ''process/release/evidence.json'',
      ev_evidence = digest_of CHR ''1'', ev_class = ''release-action'', ev_reservation = ''RES'', ev_attempt = ''ATT'',
      ev_bootstrap = (if action = ''decide-version'' then digest_of CHR ''2'' else []),
      ev_qualification = (if action = ''build-artifacts'' then digest_of CHR ''3'' else []),
      ev_wheels = (if action = ''build-artifacts'' then 1 else 0),
      ev_increment = (if action = ''qualify-provider-source'' then 1 else 0),
      ev_materializations = (if action = ''build-artifacts'' then 1 else 0), ev_intermediate = 0, ev_harness_errors = 0,
      ev_assets = (if action = ''build-artifacts''
         then [digest_of CHR ''3'', digest_of CHR ''4'', digest_of CHR ''5'', digest_of CHR ''6''] else [])\<rparr>"

definition snapshot_for :: "release_state \<Rightarrow> string \<Rightarrow> string \<Rightarrow> release_snapshot" where
  "snapshot_for s ledger projection =
     \<lparr>n_state = s_digest s, n_source = s_source s, n_plan = s_plan s, n_cost = s_cost s, n_compat = s_compat s,
      n_dirty = digest_of CHR ''7'', n_ledger = ledger, n_projection = projection, n_status = ''clean''\<rparr>"

lemma release_state0_ok: "\<exists>s. release_state0 release_env0 = Inr s \<and> length (s_work s) = 2"
proof -
  have "bindings_wf ''pkg'' ''CR-072'' ''0.6.1'' [digest_of CHR ''a'', digest_of CHR ''b'', digest_of CHR ''c'', digest_of CHR ''d'',
      digest_of CHR ''0'']" "list_all (hex_id 64) [digest_of CHR ''f'', digest_of CHR ''e'']"
    "length (sort (remdups [digest_of CHR ''f'', digest_of CHR ''e''])) = 2" by code_simp+
  then show ?thesis using initial_state_exists release_env0_ok unfolding release_state0_def by metis
qed


theorem release_documents_roundtrip_witness:
  "\<exists>s e n. state_from_mapping release_env0 (PDict (state_as_dict s)) = Inr s
     \<and> event_from_mapping (PDict (event_as_dict e)) = Inr e \<and> snapshot_from_mapping (PDict (snapshot_as_dict n)) = Inr n"
proof -
  define t where "t = \<lparr>s_package = ''pkg'', s_cr = ''CR-072'', s_version = ''0.6.1'', s_current = ''work-verified'',
     s_source = digest_of CHR ''a'', s_plan = digest_of CHR ''b'', s_cost = digest_of CHR ''c'', s_compat = digest_of CHR ''d'',
     s_predecessor = digest_of CHR ''0'', s_work = [], s_counts = [], s_records = [], s_bootstrap = [], s_invalid = [],
     s_digest = digest_of CHR ''1''\<rparr>"
  define e where "e = event_for t ''candidate-ready'' ''source-candidate-ready'' ''E0''"
  define n where "n = snapshot_for t (digest_of CHR ''8'') (digest_of CHR ''9'')"
  obtain s where s: "release_state0 release_env0 = Inr s" using release_state0_ok by blast
  then obtain v where v: "state_from_mapping release_env0 v = Inr s"
    unfolding release_state0_def build_initial_release_state_def Let_def by blast
  have "event_wf e" unfolding e_def t_def by code_simp
  moreover have "snapshot_from_mapping (PDict (snapshot_as_dict n)) = Inr n" unfolding n_def t_def by code_simp
  ultimately show ?thesis using release_documents_roundtrip [OF v event_roundtrip] by blast
qed

end
