(* ===== verification/Release_Order.thy ===== *)
theory Release_Order
  imports Release_State
begin

text \<open>
  The order of a release lineage (\<open>workflow/release_order.py\<close>): the check of one event against the aggregate
  state, the advanced state, and the plan that binds state, event, snapshot and risk admission. A state carries
  a counter for every key of \<open>ACTION_COUNT_KEYS\<close>, as its reader makes sure.
\<close>

section \<open>The check of an event\<close>

record diagnostic =
  d_code :: string
  d_message :: string

record check_result =
  c_decision :: string
  c_diagnostics :: "diagnostic list"
  c_event :: string

definition diag :: "bool \<Rightarrow> string \<Rightarrow> string \<Rightarrow> diagnostic list" where
  "diag b code msg = (if b then [\<lparr>d_code = code, d_message = msg\<rparr>] else [])"

definition diagnostic_as_dict :: "diagnostic \<Rightarrow> pydict" where
  "diagnostic_as_dict d = [(''code'', PStr (d_code d)), (''message'', PStr (d_message d)), (''severity'', PStr ''BLOCKER'')]"

definition check_as_dict :: "check_result \<Rightarrow> pydict" where
  "check_as_dict c =
     [(''decision'', PStr (c_decision c)), (''diagnostics'', PList (map (PDict \<circ> diagnostic_as_dict) (c_diagnostics c))),
      (''event_digest'', PStr (c_event c)), (''kind'', PStr ''ReleaseCheckResultV1''), (''mutation_count'', PInt 0),
      (''schema_version'', PInt 1)]"

definition count_of :: "release_state \<Rightarrow> string \<Rightarrow> int" where
  "count_of s k = (case map_of (s_counts s) k of None \<Rightarrow> 0 | Some n \<Rightarrow> n)"

definition counters_of :: "string \<Rightarrow> string list" where
  "counters_of a = (case map_of action_counters a of None \<Rightarrow> [] | Some cs \<Rightarrow> cs)"

definition state_index :: "string \<Rightarrow> nat" where
  "state_index x = length (takeWhile (\<lambda>y. y \<noteq> x) release_states)"

definition str_list :: "string list \<Rightarrow> string" where
  "str_list xs = py_repr (PList (map PStr xs))"

definition or_code :: "string option \<Rightarrow> string \<Rightarrow> string" where
  "or_code b d = (case b of Some c \<Rightarrow> if c = [] then d else c | None \<Rightarrow> d)"

text \<open>The risk input frozen in a plan against the present reason codes.\<close>

definition risk_diagnostics :: "release_env \<Rightarrow> frozen_risk option \<Rightarrow> string list option \<Rightarrow> diagnostic list" where
  "risk_diagnostics R frozen codes =
     (case (frozen, codes) of
        (Some f, Some cs) \<Rightarrow>
          (let rv = revalidate_risk_input (r_sha R) f cs in
           diag (rv_decision rv \<noteq> ''PASS'') (or_code (rv_blocker rv) ''RISK_INPUT_CONFLICT'')
             (''risk input revalidation failed: '' @ str_list (rv_detail rv)))
      | _ \<Rightarrow> [])"

definition order_diagnostics :: "release_state \<Rightarrow> release_event \<Rightarrow> string \<Rightarrow> string \<Rightarrow> diagnostic list" where
  "order_diagnostics s e expected_from expected_to =
     diag ((s_package s, s_cr s, s_version s) \<noteq> (ev_package e, ev_cr e, ev_version e))
       ''RELEASE_IDENTITY_MISMATCH'' ''package/CR/version differs''
     @ (if ev_action e = ''release'' \<and> s_current s \<noteq> ''cp8-approved''
        then diag True ''INTERMEDIATE_RELEASE_FORBIDDEN'' ''release is admitted only after aggregate CP8 approval''
        else diag (s_current s \<noteq> expected_from \<or> ev_target e \<noteq> expected_to) ''RELEASE_ORDER_VIOLATION''
          (ev_action e @ '' requires '' @ expected_from @ ''->'' @ expected_to))
     @ diag (ev_predecessor e \<noteq> s_predecessor s) ''RELEASE_PREDECESSOR_STALE'' ''predecessor receipt digest differs''
     @ diag (ev_source e \<noteq> s_source s \<or> ev_plan e \<noteq> s_plan s \<or> ev_cost e \<noteq> s_cost s \<or> ev_compat e \<noteq> s_compat s)
       ''RELEASE_BINDING_DRIFT'' ''source/Plan/cost/compat binding drift''
     @ diag (length (s_work s) \<noteq> 2) ''INTERMEDIATE_RELEASE_FORBIDDEN''
       ''one aggregate package requires exactly two verified Work receipts''
     @ diag (s_invalid s \<noteq> []) ''RELEASE_LINEAGE_INVALIDATED'' ''lineage has invalidations''
     @ diag (ev_class e \<in> {''dry-run'', ''fixture''}) ''SIMULATED_EVIDENCE_NON_AUTHORITATIVE''
       ''dry-run or fixture evidence cannot advance release truth''"

definition count_diagnostics :: "release_state \<Rightarrow> release_event \<Rightarrow> diagnostic list" where
  "count_diagnostics s e =
     concat (map (\<lambda>c. diag (1 \<le> count_of s c) (replace_char CHR ''-'' CHR ''_'' (py_upper c) @ ''_COUNT_EXCEEDED'')
         (c @ '' already has an attempt in canonical history'')) (counters_of (ev_action e)))
     @ diag (ev_intermediate e \<noteq> 0 \<or> count_of s ''intermediate-release'' \<noteq> 0) ''INTERMEDIATE_RELEASE_FORBIDDEN''
       ''intermediate release count must stay zero''
     @ diag (counters_of (ev_action e) \<noteq> [] \<and> (ev_reservation e = [] \<or> ev_attempt e = [])) ''RELEASE_RESERVATION_REQUIRED''
       ''counted action requires reservation and attempt IDs''"

definition bootstrap_diagnostics :: "release_state \<Rightarrow> release_event \<Rightarrow> diagnostic list" where
  "bootstrap_diagnostics s e =
     (if ev_action e = ''decide-version''
      then if ev_bootstrap e = []
        then diag True ''SEMVER_BOOTSTRAP_REQUIRED'' ''0.6.1 decision must consume one bootstrap key''
        else diag (ev_bootstrap e \<in> set (s_bootstrap s)) ''BOOTSTRAP_ALREADY_CONSUMED'' ''bootstrap key is already consumed''
      else diag (ev_bootstrap e \<noteq> []) ''SEMVER_BOOTSTRAP_ACTION_MISMATCH'' ''only decide-version may consume bootstrap'')"

definition build_diagnostics :: "release_event \<Rightarrow> string \<Rightarrow> diagnostic list" where
  "build_diagnostics e expected_to =
     (if ev_action e = ''qualify-provider-source''
      then diag (ev_wheels e \<noteq> 0 \<or> ev_increment e \<noteq> 1) ''SOURCE_QUALIFICATION_HIDDEN_BUILD''
        ''source qualification requires wheel_build_count=0 and qualification_increment=1''
      else if ev_action e = ''build-artifacts''
      then diag (ev_qualification e = [] \<or> ev_wheels e \<noteq> 1 \<or> ev_increment e \<noteq> 0 \<or> ev_materializations e \<noteq> 1
          \<or> length (ev_assets e) \<noteq> 4) ''ARTIFACT_MATERIALIZATION_CONTRACT_INVALID''
        ''build requires source qualification, one build, four assets, one materialization and no qualification increment''
      else diag (ev_qualification e \<noteq> [] \<or> ev_wheels e \<noteq> 0 \<or> ev_increment e \<noteq> 0 \<or> ev_materializations e \<noteq> 0)
        ''RELEASE_EVENT_COUNT_MISMATCH'' ''action declares unrelated build counters'')
     @ diag (ev_harness_errors e \<noteq> 0 \<and> state_index ''provider-qualified'' \<le> state_index expected_to)
       ''CHECK_HARNESS_ERROR_UNRESOLVED'' ''release action requires zero harness errors''"

definition check_release_transition :: "release_env \<Rightarrow> release_state \<Rightarrow> release_event \<Rightarrow> frozen_risk option
    \<Rightarrow> string list option \<Rightarrow> check_result result" where
  "check_release_transition R s e frozen codes =
     (let risk = risk_diagnostics R frozen codes; digest = event_digest R e;
          existing = filter (\<lambda>r. v_id r = ev_id e) (s_records s) in
      if existing \<noteq> []
      then let same = (length existing = 1 \<and> v_digest (hd existing) = digest) in
        Inr \<lparr>c_decision = (if same then ''NO_CHANGE'' else ''BLOCKED''),
             c_diagnostics = risk @ diag (\<not> same) ''RELEASE_EVENT_CONFLICT'' ''event identity already binds different evidence'',
             c_event = digest\<rparr>
      else case map_of action_transitions (ev_action e) of
        None \<Rightarrow> Inl (KeyError (ev_action e))
      | Some (expected_from, expected_to) \<Rightarrow>
        (let ordered = sort_key d_code (risk @ order_diagnostics s e expected_from expected_to @ count_diagnostics s e
               @ bootstrap_diagnostics s e @ build_diagnostics e expected_to) in
         Inr \<lparr>c_decision = (if ordered \<noteq> [] then ''BLOCKED'' else ''PASS''), c_diagnostics = ordered, c_event = digest\<rparr>))"

section \<open>The advanced state\<close>

definition transition_key :: "release_env \<Rightarrow> release_state \<Rightarrow> release_event \<Rightarrow> string" where
  "transition_key R s e = canonical_digest R (PDict [(''before_state_digest'', PStr (s_digest s)),
     (''event_digest'', PStr (event_digest R e)), (''target_state'', PStr (ev_target e))])"

definition advance_state :: "release_env \<Rightarrow> release_state \<Rightarrow> release_event \<Rightarrow> release_state" where
  "advance_state R s e =
     (let key = transition_key R s e;
          counts = map (\<lambda>k. (k, count_of s k + int (count_list (counters_of (ev_action e)) k))) action_count_keys;
          cand = s\<lparr>s_current := ev_target e, s_predecessor := key, s_counts := counts,
             s_records := s_records s @ [\<lparr>v_id = ev_id e, v_action = ev_action e, v_digest = event_digest R e, v_key = key\<rparr>],
             s_bootstrap := sort (remdups (s_bootstrap s @ (if ev_bootstrap e \<noteq> [] then [ev_bootstrap e] else []))),
             s_digest := []\<rparr> in
      cand\<lparr>s_digest := canonical_digest R (PDict (state_payload cand))\<rparr>)"

section \<open>The plan\<close>

record advance_plan =
  rp_decision :: string
  rp_before :: release_state
  rp_after :: "release_state option"
  rp_event :: release_event
  rp_snapshot :: release_snapshot
  rp_diagnostics :: "diagnostic list"
  rp_digest :: string
  rp_planned :: int
  rp_risk :: "pydict option"

text \<open>\<open>{item.code: item for item in diagnostics}.values()\<close>: one diagnostic for every code, the last one.\<close>

fun keep_last :: "diagnostic list \<Rightarrow> diagnostic list" where
  "keep_last [] = []"
| "keep_last (d # ds) = (if d_code d \<in> d_code ` set ds then keep_last ds else d # keep_last ds)"

text \<open>Classification of the reason codes, when they are given: a diagnostic or an admission record.\<close>

definition plan_risk :: "release_env \<Rightarrow> string \<Rightarrow> string list option \<Rightarrow> diagnostic list \<times> pydict option" where
  "plan_risk R event_id codes =
     (case codes of
        None \<Rightarrow> ([], None)
      | Some cs \<Rightarrow>
        (let ev = evaluate_risk_grade (r_sha R) cs in
         if re_decision ev \<noteq> ''PASS''
         then (diag True (or_code (re_blocker ev) ''RISK_CODE_UNKNOWN'')
                 (''risk classification blocked: codes='' @ str_list (re_codes ev)), None)
         else ([], Some (admission_as_dict
                 (evaluate_operation_publication_admission (r_sha R) event_id ev False False)))))"

definition snapshot_diagnostics :: "release_state \<Rightarrow> release_snapshot \<Rightarrow> diagnostic list" where
  "snapshot_diagnostics s n =
     diag (n_status n \<noteq> ''clean'') ''RELEASE_JOURNAL_NOT_CLEAN'' ''PARTIAL or RECOVERED journal blocks advance''
     @ diag (n_state n \<noteq> s_digest s) ''RELEASE_PREIMAGE_DRIFT'' ''state preimage digest drifted''
     @ diag (n_source n \<noteq> s_source s \<or> n_plan n \<noteq> s_plan s \<or> n_cost n \<noteq> s_cost s \<or> n_compat n \<noteq> s_compat s)
       ''SOURCE_FREEZE_DRIFT'' ''fresh source/Plan/cost/compat snapshot drifted''"

definition plan_payload :: "release_env \<Rightarrow> string \<Rightarrow> release_state \<Rightarrow> release_state option \<Rightarrow> release_event
    \<Rightarrow> release_snapshot \<Rightarrow> diagnostic list \<Rightarrow> int \<Rightarrow> pydict option \<Rightarrow> pydict" where
  "plan_payload R decision s after e n ds planned risk =
     [(''after_state_digest'', PStr (case after of None \<Rightarrow> [] | Some a \<Rightarrow> s_digest a)),
      (''before_state_digest'', PStr (s_digest s)), (''decision'', PStr decision),
      (''diagnostics'', PList (map (PDict \<circ> diagnostic_as_dict) ds)), (''event_digest'', PStr (event_digest R e)),
      (''planned_mutation_count'', PInt planned)]
     @ (case risk of None \<Rightarrow> [] | Some r \<Rightarrow> [(''risk_admission'', PDict r)])
     @ [(''snapshot_digest'', PStr (snapshot_digest R n))]"

definition plan_release_advance :: "release_env \<Rightarrow> release_state \<Rightarrow> release_event \<Rightarrow> release_snapshot
    \<Rightarrow> string list option \<Rightarrow> advance_plan result" where
  "plan_release_advance R s e n codes =
     let_ok (check_release_transition R s e None None) (\<lambda>check.
       let (risk, admission) = plan_risk R (ev_id e) codes;
           ordered = sort_key d_code (keep_last (c_diagnostics check @ risk @ snapshot_diagnostics s n));
           decision = (if ordered = [] then c_decision check else ''BLOCKED'');
           after = (if decision = ''PASS'' then Some (advance_state R s e) else None);
           planned = (if decision = ''PASS'' then 3 else 0);
           frozen = (if decision = ''PASS'' then admission else None) in
       Inr \<lparr>rp_decision = decision, rp_before = s, rp_after = after, rp_event = e, rp_snapshot = n,
          rp_diagnostics = ordered,
          rp_digest = canonical_digest R (PDict (plan_payload R decision s after e n ordered planned frozen)),
          rp_planned = planned, rp_risk = frozen\<rparr>)"

definition plan_as_dict_release :: "advance_plan \<Rightarrow> pydict" where
  "plan_as_dict_release p =
     [(''after_state'', (case rp_after p of None \<Rightarrow> PNone | Some a \<Rightarrow> PDict (state_as_dict a))),
      (''before_state'', PDict (state_as_dict (rp_before p))), (''decision'', PStr (rp_decision p)),
      (''diagnostics'', PList (map (PDict \<circ> diagnostic_as_dict) (rp_diagnostics p))),
      (''event'', PDict (event_as_dict (rp_event p))), (''kind'', PStr ''ReleaseAdvancePlanV1''),
      (''mutation_count'', PInt 0), (''plan_digest'', PStr (rp_digest p)), (''planned_mutation_count'', PInt (rp_planned p)),
      (''risk_admission'', (case rp_risk p of None \<Rightarrow> PNone | Some r \<Rightarrow> PDict r)), (''schema_version'', PInt 1),
      (''snapshot'', PDict (snapshot_as_dict (rp_snapshot p)))]"

section \<open>What a passing plan means\<close>

lemma diag_Nil [simp]: "diag b c m = [] \<longleftrightarrow> \<not> b"
  by (simp add: diag_def)

lemma keep_last_Nil [simp]: "keep_last ds = [] \<longleftrightarrow> ds = []"
  by (induction ds) auto

lemma sort_key_Nil [simp]: "sort_key f xs = [] \<longleftrightarrow> xs = []"
  by (metis length_0_conv length_sort)

definition admitted_event :: "release_state \<Rightarrow> release_event \<Rightarrow> bool" where
  "admitted_event s e =
     (ev_id e \<notin> v_id ` set (s_records s)
      \<and> map_of action_transitions (ev_action e) = Some (s_current s, ev_target e)
      \<and> order_diagnostics s e (s_current s) (ev_target e) = [] \<and> count_diagnostics s e = []
      \<and> bootstrap_diagnostics s e = [] \<and> build_diagnostics e (ev_target e) = [])"

lemma fresh_id: "filter (\<lambda>r. v_id r = eid) rs = [] \<longleftrightarrow> eid \<notin> v_id ` set rs"
  by (auto simp: filter_empty_conv image_iff dest: sym)

lemma check_pass_iff:
  "check_release_transition R s e frozen codes = Inr c \<Longrightarrow>
     c_decision c = ''PASS'' \<longleftrightarrow> risk_diagnostics R frozen codes = [] \<and> admitted_event s e"
proof (cases "filter (\<lambda>r. v_id r = ev_id e) (s_records s) = []")
  case fresh: True
  then have new: "ev_id e \<notin> v_id ` set (s_records s)" unfolding fresh_id .
  assume c: "check_release_transition R s e frozen codes = Inr c"
  then obtain f t where ft: "map_of action_transitions (ev_action e) = Some (f, t)"
    using fresh by (auto simp: check_release_transition_def Let_def split: option.splits)
  then have "c_decision c = ''PASS'' \<longleftrightarrow> risk_diagnostics R frozen codes = [] \<and> order_diagnostics s e f t = []
      \<and> count_diagnostics s e = [] \<and> bootstrap_diagnostics s e = [] \<and> build_diagnostics e t = []"
    using c fresh by (auto simp: check_release_transition_def Let_def split: if_splits)
  moreover have "order_diagnostics s e f t = [] \<Longrightarrow> s_current s = f \<and> ev_target e = t"
    using ft by (auto simp: order_diagnostics_def action_transitions_def split: if_splits)
  ultimately show ?thesis using ft new by (auto simp: admitted_event_def)
next
  case False
  then have "\<not> admitted_event s e" unfolding admitted_event_def fresh_id by blast
  moreover assume "check_release_transition R s e frozen codes = Inr c"
  ultimately show ?thesis using False by (auto simp: check_release_transition_def Let_def split: if_splits)
qed

lemma check_some:
  assumes "admitted_event s e"
  shows "\<exists>c. check_release_transition R s e None None = Inr c \<and> c_decision c = ''PASS'' \<and> c_diagnostics c = []"
proof -
  have "filter (\<lambda>r. v_id r = ev_id e) (s_records s) = []" using assms unfolding admitted_event_def fresh_id by blast
  then show ?thesis using assms by (auto simp: check_release_transition_def admitted_event_def risk_diagnostics_def)
qed

lemma check_blocked_diagnostics:
  "check_release_transition R s e None None = Inr c \<Longrightarrow> c_diagnostics c = [] \<Longrightarrow> c_decision c \<in> {''PASS'', ''NO_CHANGE''}"
  by (auto simp: check_release_transition_def Let_def split: if_splits option.splits)

definition plan_clear :: "release_env \<Rightarrow> release_state \<Rightarrow> release_event \<Rightarrow> release_snapshot \<Rightarrow> string list option \<Rightarrow> bool" where
  "plan_clear R s e n codes = (fst (plan_risk R (ev_id e) codes) = [] \<and> snapshot_diagnostics s n = [])"

lemma plan_pass_iff:
  assumes "plan_release_advance R s e n codes = Inr p"
  shows "rp_decision p = ''PASS'' \<longleftrightarrow> admitted_event s e \<and> plan_clear R s e n codes"
    and "rp_after p = (if rp_decision p = ''PASS'' then Some (advance_state R s e) else None)"
proof -
  from assms obtain c where c: "check_release_transition R s e None None = Inr c"
    by (auto simp: plan_release_advance_def let_ok_Inr)
  have risk: "risk_diagnostics R None None = []" by (simp add: risk_diagnostics_def)
  show "rp_after p = (if rp_decision p = ''PASS'' then Some (advance_state R s e) else None)"
    using assms c by (auto simp: plan_release_advance_def Let_def split: prod.splits)
  have diags: "admitted_event s e \<Longrightarrow> c_diagnostics c = []" using check_some [of s e R] c by auto
  have "rp_decision p = (if c_diagnostics c = [] \<and> plan_clear R s e n codes then c_decision c else ''BLOCKED'')"
    using assms c by (auto simp: plan_release_advance_def plan_clear_def Let_def split: prod.splits)
  then show "rp_decision p = ''PASS'' \<longleftrightarrow> admitted_event s e \<and> plan_clear R s e n codes"
    using check_pass_iff [OF c] risk diags by auto
qed

lemma plan_exists: "known_action (ev_action e) \<Longrightarrow> \<exists>p. plan_release_advance R s e n codes = Inr p"
proof -
  assume "known_action (ev_action e)"
  then obtain ft where "map_of action_transitions (ev_action e) = Some ft"
    by (auto simp: known_action_def dest: weak_map_of_SomeI split: prod.splits)
  then have "\<exists>c. check_release_transition R s e None None = Inr c"
    by (auto simp: check_release_transition_def Let_def split: prod.splits)
  then show ?thesis by (auto simp: plan_release_advance_def Let_def split: prod.splits)
qed

section \<open>Runs\<close>

inductive advance :: "release_env \<Rightarrow> release_state \<Rightarrow> release_state \<Rightarrow> bool" for R where
  "event_wf e \<Longrightarrow> plan_release_advance R s e n codes = Inr p \<Longrightarrow> rp_after p = Some t \<Longrightarrow> advance R s t"

inductive_cases advanceE: "advance R s t"

lemma advance_event: "advance R s t \<Longrightarrow> \<exists>e. event_wf e \<and> admitted_event s e \<and> t = advance_state R s e"
  by (erule advanceE) (metis option.distinct(1) option.inject plan_pass_iff)

definition initial :: "release_env \<Rightarrow> release_state \<Rightarrow> bool" where
  "initial R s = (\<exists>package cr version source plan cost compatibility work predecessor.
     build_initial_release_state R package cr version source plan cost compatibility work predecessor = Inr s)"

definition pipeline :: "string list" where
  "pipeline = map fst action_transitions"

text \<open>The abstract lineage: a position in the pipeline. It determines the state, the actions taken, and every counter.\<close>

definition at_position :: "release_state \<Rightarrow> nat \<Rightarrow> bool" where
  "at_position s n = (n \<le> 9 \<and> s_current s = release_states ! n \<and> map v_action (s_records s) = take n pipeline
     \<and> list_all (\<lambda>k. count_of s k = int (count_list (concat (map counters_of (take n pipeline))) k)) action_count_keys
     \<and> length (s_bootstrap s) = (if n < 3 then 0 else 1) \<and> distinct (map v_id (s_records s))
     \<and> (0 < n \<longrightarrow> length (s_work s) = 2 \<and> s_invalid s = [] \<and> s_predecessor s = v_key (last (s_records s))))"

lemma transition_positions:
  "list_all (\<lambda>(a, f, t). list_all (\<lambda>n. f = release_states ! n \<longrightarrow> n < 9 \<and> a = pipeline ! n \<and> t = release_states ! Suc n) [0..<10])
     action_transitions"
  by code_simp

lemma transition_at:
  assumes "map_of action_transitions a = Some (release_states ! n, t)" and "n \<le> 9"
  shows "n < 9 \<and> a = pipeline ! n \<and> t = release_states ! Suc n"
  using transition_positions map_of_SomeD [OF assms(1)] assms(2) by (force simp: list_all_iff)

lemma transition_of: "n < 9 \<Longrightarrow> map_of action_transitions (pipeline ! n) = Some (release_states ! n, release_states ! Suc n)"
proof -
  have "list_all (\<lambda>n. map_of action_transitions (pipeline ! n) = Some (release_states ! n, release_states ! Suc n)) [0..<9]"
    by code_simp
  then show "n < 9 \<Longrightarrow> ?thesis" by (simp add: list_all_iff)
qed

lemma pipeline_length: "length pipeline = 9"
  by (simp add: pipeline_def action_transitions_def)

lemma take_pipeline_Suc: "n < 9 \<Longrightarrow> take (Suc n) pipeline = take n pipeline @ [pipeline ! n]"
  by (simp add: take_Suc_conv_app_nth pipeline_length)

lemma initial_position: "initial R s \<Longrightarrow> state_wf R s \<and> at_position s 0"
proof -
  assume "initial R s"
  then have i: "state_wf R s \<and> s_current s = ''work-verified'' \<and> s_counts s = map (\<lambda>k. (k, 0)) action_count_keys
    \<and> s_records s = [] \<and> s_bootstrap s = [] \<and> s_invalid s = []" unfolding initial_def using initial_state by blast
  moreover have "release_states ! 0 = ''work-verified''" by (simp add: release_states_def)
  moreover have "count_of s k = 0" if "k \<in> set action_count_keys" for k
    using i that by (simp add: count_of_def map_of_zip_self)
  ultimately show ?thesis by (simp add: at_position_def list_all_iff)
qed


section \<open>One step\<close>

lemma advance_state_sel [simp]:
  "s_current (advance_state R s e) = ev_target e" "s_predecessor (advance_state R s e) = transition_key R s e"
  "s_records (advance_state R s e) = s_records s @
     [\<lparr>v_id = ev_id e, v_action = ev_action e, v_digest = event_digest R e, v_key = transition_key R s e\<rparr>]"
  "s_counts (advance_state R s e) = map (\<lambda>k. (k, count_of s k + int (count_list (counters_of (ev_action e)) k))) action_count_keys"
  "s_bootstrap (advance_state R s e) = sort (remdups (s_bootstrap s @ (if ev_bootstrap e \<noteq> [] then [ev_bootstrap e] else [])))"
  "s_package (advance_state R s e) = s_package s" "s_cr (advance_state R s e) = s_cr s"
  "s_version (advance_state R s e) = s_version s" "s_source (advance_state R s e) = s_source s"
  "s_plan (advance_state R s e) = s_plan s" "s_cost (advance_state R s e) = s_cost s"
  "s_compat (advance_state R s e) = s_compat s" "s_work (advance_state R s e) = s_work s"
  "s_invalid (advance_state R s e) = s_invalid s"
  by (simp_all add: advance_state_def Let_def)

lemma advance_state_digest:
  "s_digest (advance_state R s e) = canonical_digest R (PDict (state_payload (advance_state R s e)))"
  by (simp add: advance_state_def Let_def)

lemma count_of_advance:
  "k \<in> set action_count_keys \<Longrightarrow>
     count_of (advance_state R s e) k = count_of s k + int (count_list (counters_of (ev_action e)) k)"
  by (simp add: count_of_def map_of_map_restrict restrict_map_def)

lemma canonical_digest_re: "release_env_ok R \<Longrightarrow> hex_id 64 (canonical_digest R v)"
  by (simp add: release_env_ok_def canonical_digest_def)

lemma admitted_target: "admitted_event s e \<Longrightarrow> ev_target e \<in> set release_states"
proof -
  assume "admitted_event s e"
  then have "(ev_action e, s_current s, ev_target e) \<in> set action_transitions"
    by (auto simp: admitted_event_def dest: map_of_SomeD)
  moreover have "list_all (\<lambda>(_, _, t). t \<in> set release_states) action_transitions" by code_simp
  ultimately show ?thesis by (auto simp: list_all_iff)
qed

lemma admitted_bootstrap:
  "admitted_event s e \<Longrightarrow> (if ev_action e = ''decide-version'' then ev_bootstrap e \<noteq> [] \<and> ev_bootstrap e \<notin> set (s_bootstrap s)
     else ev_bootstrap e = [])"
  by (simp add: admitted_event_def bootstrap_diagnostics_def split: if_splits)

lemma admitted_order: "admitted_event s e \<Longrightarrow> length (s_work s) = 2 \<and> s_invalid s = []
    \<and> ev_predecessor e = s_predecessor s \<and> ev_class e \<notin> {''dry-run'', ''fixture''}"
  by (simp add: admitted_event_def order_diagnostics_def)

lemma advance_wf:
  assumes "release_env_ok R" and "state_wf R s" and "event_wf e" and "admitted_event s e"
  shows "state_wf R (advance_state R s e)"
proof -
  have d: "hex_id 64 (canonical_digest R v)" for v by (rule canonical_digest_re [OF assms(1)])
  have e: "known_action (ev_action e)" "release_id_re (ev_id e)" "empty_or_digest (ev_bootstrap e)"
    using assms(3) by (simp_all add: event_wf_def)
  have s: "state_content_wf s" using assms(2) by (simp add: state_wf_def)
  have "0 \<le> count_of s k" for k
    using s by (auto simp: count_of_def state_content_wf_def counts_ok_def list_all_iff split: option.splits dest: map_of_SomeD)
  then have "counts_ok (s_counts (advance_state R s e))" by (simp add: counts_ok_def comp_def list_all_iff)
  moreover have "strings_ok (s_bootstrap (advance_state R s e))"
    using s e(3) by (auto simp: strings_ok_def state_content_wf_def list_all_iff empty_or_digest_def hex_id_stripped)
  moreover have "list_all record_wf (s_records (advance_state R s e))"
    using s e d by (simp add: state_content_wf_def record_wf_def event_digest_def transition_key_def)
  ultimately have "state_content_wf (advance_state R s e)"
    using s admitted_target [OF assms(4)] d by (simp add: state_content_wf_def bindings_wf_def transition_key_def)
  then show ?thesis using d by (simp add: state_wf_def advance_state_digest)
qed

lemma decide_position: "n < 9 \<Longrightarrow> pipeline ! n = ''decide-version'' \<longleftrightarrow> n = 2"
proof -
  have "list_all (\<lambda>n. (pipeline ! n = ''decide-version'') = (n = 2)) [0..<9]" by code_simp
  then show "n < 9 \<Longrightarrow> ?thesis" by (simp add: list_all_iff)
qed

lemma advance_position:
  assumes "at_position s n" and "admitted_event s e"
  shows "n < 9 \<and> at_position (advance_state R s e) (Suc n)"
proof -
  have n: "n < 9" "ev_action e = pipeline ! n" "ev_target e = release_states ! Suc n"
    using assms transition_at [of "ev_action e" n "ev_target e"] by (auto simp: at_position_def admitted_event_def)
  have act: "take (Suc n) pipeline = take n pipeline @ [ev_action e]" using n by (simp add: take_pipeline_Suc)
  have boot: "length (s_bootstrap (advance_state R s e)) = (if Suc n < 3 then 0 else 1)"
    using assms(1) admitted_bootstrap [OF assms(2)] decide_position [OF n(1)] n(2)
    by (cases "n = 2"; cases "s_bootstrap s") (auto simp: at_position_def split: if_splits)
  have fresh: "ev_id e \<notin> v_id ` set (s_records s)" using assms(2) by (simp add: admitted_event_def)
  have counts: "list_all (\<lambda>k. count_of (advance_state R s e) k
      = int (count_list (concat (map counters_of (take (Suc n) pipeline))) k)) action_count_keys"
    using assms(1) unfolding act by (simp add: at_position_def list_all_iff count_of_advance)
  show ?thesis using assms(1) n boot fresh counts admitted_order [OF assms(2)] act
    by (simp add: at_position_def del: take_Suc_conv_app_nth)
qed

lemma advance_step:
  assumes "release_env_ok R" and "state_wf R s" and "at_position s n" and "advance R s t"
  shows "n < 9 \<and> at_position t (Suc n) \<and> state_wf R t"
  using advance_event [OF assms(4)] advance_position [OF assms(3)] advance_wf [OF assms(1,2)] by blast


section \<open>A next event exists\<close>

definition next_event :: "release_state \<Rightarrow> nat \<Rightarrow> string \<Rightarrow> release_event" where
  "next_event s n eid = event_for s (pipeline ! n) (release_states ! Suc n) eid"

lemma next_event_wf:
  assumes "state_wf R s" and "n < 9" and "release_id_re eid"
  shows "event_wf (next_event s n eid)"
proof -
  have b: "bindings_wf (s_package s) (s_cr s) (s_version s) [s_source s, s_plan s, s_cost s, s_compat s, s_predecessor s]"
    using assms(1) by (simp add: state_wf_def state_content_wf_def)
  have known: "known_action (pipeline ! n)"
    unfolding known_action_def pipeline_def [symmetric] using assms(2) by (simp add: pipeline_length)
  have "release_states ! Suc n \<in> set release_states" using assms(2) by (intro nth_mem) (simp add: release_states_def)
  then have target: "release_states ! Suc n \<noteq> [] \<and> py_strip (release_states ! Suc n) = release_states ! Suc n"
    using closed_vocabulary_text by blast
  have ref: "''process/release/evidence.json'' \<noteq> [] \<and> py_strip ''process/release/evidence.json'' = ''process/release/evidence.json''
      \<and> safe_ref_text ''process/release/evidence.json''" by code_simp
  have res: "py_strip ''RES'' = ''RES'' \<and> py_strip ''ATT'' = ''ATT''" by code_simp
  have digs: "list_all (hex_id 64) [digest_of CHR ''1'', digest_of CHR ''2'', digest_of CHR ''3'']" by code_simp
  have cls: "''release-action'' \<in> set execution_classes" by code_simp
  have assets: "strings_ok [digest_of CHR ''3'', digest_of CHR ''4'', digest_of CHR ''5'', digest_of CHR ''6'']" "strings_ok []"
    by code_simp+
  show ?thesis
    using b known target ref res digs cls assets assms(3)
    by (simp add: event_wf_def next_event_def event_for_def bindings_wf_def empty_or_digest_def)
qed

lemma counters_fresh:
  "n < 9 \<Longrightarrow> c \<in> set (counters_of (pipeline ! n)) \<Longrightarrow>
     c \<in> set action_count_keys \<and> count_list (concat (map counters_of (take n pipeline))) c = 0"
proof -
  have "list_all (\<lambda>n. list_all (\<lambda>c. c \<in> set action_count_keys \<and> count_list (concat (map counters_of (take n pipeline))) c = 0)
      (counters_of (pipeline ! n))) [0..<9]" by code_simp
  then show "n < 9 \<Longrightarrow> c \<in> set (counters_of (pipeline ! n)) \<Longrightarrow> ?thesis" by (simp add: list_all_iff)
qed

lemma no_intermediate: "n \<le> 9 \<Longrightarrow> count_list (concat (map counters_of (take n pipeline))) ''intermediate-release'' = 0"
proof -
  have "list_all (\<lambda>n. count_list (concat (map counters_of (take n pipeline))) ''intermediate-release'' = 0) [0..<10]" by code_simp
  then show "n \<le> 9 \<Longrightarrow> ?thesis" by (simp add: list_all_iff)
qed

lemma next_event_counts:
  assumes "at_position s n" and "n < 9"
  shows "count_diagnostics s (next_event s n eid) = []"
proof -
  have c: "count_of s k = int (count_list (concat (map counters_of (take n pipeline))) k)" if "k \<in> set action_count_keys" for k
    using assms(1) that by (simp add: at_position_def list_all_iff)
  have "''intermediate-release'' \<in> set action_count_keys" by code_simp
  then have "count_of s ''intermediate-release'' = 0" using c no_intermediate [of n] assms(2) by simp
  moreover have "count_of s k = 0" if "k \<in> set (counters_of (pipeline ! n))" for k
    using c counters_fresh [OF assms(2) that] by simp
  ultimately show ?thesis by (simp add: count_diagnostics_def next_event_def event_for_def)
qed

lemma next_event_order:
  assumes "n < 9" and "s_current s = release_states ! n" and "length (s_work s) = 2" and "s_invalid s = []"
  shows "order_diagnostics s (next_event s n eid) (release_states ! n) (release_states ! Suc n) = []"
proof -
  have "list_all (\<lambda>n. pipeline ! n = ''release'' \<longrightarrow> release_states ! n = ''cp8-approved'') [0..<9]" by code_simp
  then have "pipeline ! n = ''release'' \<longrightarrow> release_states ! n = ''cp8-approved''" using assms(1) by (simp add: list_all_iff)
  then show ?thesis using assms by (simp add: order_diagnostics_def next_event_def event_for_def)
qed

lemma next_event_build:
  "build_diagnostics (next_event s n eid) t = []"
proof -
  have "digest_of CHR ''3'' \<noteq> []" "''build-artifacts'' \<noteq> ''qualify-provider-source''" by code_simp+
  then show ?thesis by (simp add: build_diagnostics_def next_event_def event_for_def)
qed

lemma next_event_bootstrap:
  assumes "at_position s n" and "n < 9"
  shows "bootstrap_diagnostics s (next_event s n eid) = []"
proof -
  have "digest_of CHR ''2'' \<noteq> []" by code_simp
  moreover have "n = 2 \<Longrightarrow> s_bootstrap s = []" using assms(1) by (simp add: at_position_def)
  ultimately show ?thesis using decide_position [OF assms(2)]
    by (simp add: bootstrap_diagnostics_def next_event_def event_for_def)
qed

lemma next_event_admitted:
  assumes "at_position s n" and "n < 9" and "length (s_work s) = 2" and "s_invalid s = []"
    and "eid \<notin> v_id ` set (s_records s)"
  shows "admitted_event s (next_event s n eid)"
proof -
  have cur: "s_current s = release_states ! n" using assms(1) by (simp add: at_position_def)
  have "ev_id (next_event s n eid) = eid" "ev_action (next_event s n eid) = pipeline ! n"
    "ev_target (next_event s n eid) = release_states ! Suc n" by (simp_all add: next_event_def event_for_def)
  then show ?thesis unfolding admitted_event_def cur
    using assms(5) transition_of [OF assms(2)] next_event_order [OF assms(2) cur assms(3,4)] next_event_counts [OF assms(1,2)]
      next_event_bootstrap [OF assms(1,2)] next_event_build by simp
qed

lemma snapshot_for_clear: "plan_clear R s e (snapshot_for s l p) None"
  by (simp add: plan_clear_def plan_risk_def snapshot_diagnostics_def snapshot_for_def)

lemma admitted_advance:
  assumes "event_wf e" and "admitted_event s e"
  shows "advance R s (advance_state R s e)"
proof -
  have "known_action (ev_action e)" using assms(1) by (simp add: event_wf_def)
  then obtain p where p: "plan_release_advance R s e (snapshot_for s l l) None = Inr p" using plan_exists by blast
  have "rp_after p = Some (advance_state R s e)"
    using plan_pass_iff [OF p] assms(2) snapshot_for_clear by simp
  then show ?thesis using p assms(1) by (intro advance.intros) auto
qed

definition ten_ids :: "string list" where
  "ten_ids = [''E0'', ''E1'', ''E2'', ''E3'', ''E4'', ''E5'', ''E6'', ''E7'', ''E8'', ''E9'']"

lemma fresh_event_id:
  assumes "length rs < 10"
  shows "\<exists>eid. release_id_re eid \<and> eid \<notin> v_id ` set rs"
proof -
  have "card (v_id ` set rs) < 10" using assms card_length [of "map v_id rs"] by simp
  moreover have "card (set ten_ids) = 10" by code_simp
  ultimately have "\<not> set ten_ids \<subseteq> v_id ` set rs"
    by (metis List.finite_set card_mono finite_imageI linorder_not_less)
  moreover have "list_all release_id_re ten_ids" by code_simp
  ultimately show ?thesis by (auto simp: list_all_iff)
qed

lemma position_records: "at_position s n \<Longrightarrow> length (s_records s) = n"
proof -
  assume p: "at_position s n"
  then have "length (map v_action (s_records s)) = length (take n pipeline)" by (simp only: at_position_def)
  then show ?thesis using p by (simp add: at_position_def pipeline_length)
qed

lemma next_step_exists:
  assumes "state_wf R s" and "at_position s n" and "n < 9" and "length (s_work s) = 2" and "s_invalid s = []"
  shows "\<exists>t. advance R s t"
proof -
  obtain eid where "release_id_re eid" and "eid \<notin> v_id ` set (s_records s)"
    using fresh_event_id [of "s_records s"] position_records [OF assms(2)] assms(3) by auto
  then show ?thesis
    using admitted_advance [OF next_event_wf [OF assms(1,3)] next_event_admitted [OF assms(2,3,4,5)]] by blast
qed

section \<open>The lineage\<close>

text \<open>C4: The release order refines the abstract pipeline. A well-formed state at position \<open>n\<close> can only advance to a well-formed
  state at position \<open>n + 1\<close>; and it can advance, by some event, exactly when the pipeline is not finished, the package
  has two verified Work receipts, and the lineage has no invalidation.\<close>

theorem release_order_refines_pipeline:
  assumes "release_env_ok R" and "state_wf R s" and "at_position s n"
  shows "(\<forall>t. advance R s t \<longrightarrow> n < 9 \<and> at_position t (Suc n) \<and> state_wf R t)
     \<and> ((\<exists>t. advance R s t) \<longleftrightarrow> n < 9 \<and> length (s_work s) = 2 \<and> s_invalid s = [])"
  using advance_step [OF assms] advance_event admitted_order next_step_exists [OF assms(2,3)] by blast


theorem release_order_refines_pipeline_witness:
  "\<exists>s t. release_state0 release_env0 = Inr s \<and> advance release_env0 s t \<and> at_position t 1"
proof -
  obtain s where s: "release_state0 release_env0 = Inr s" "length (s_work s) = 2" using release_state0_ok by blast
  then have i: "initial release_env0 s" unfolding initial_def release_state0_def by blast
  then have "s_invalid s = []" unfolding initial_def using initial_state by blast
  then show ?thesis using release_order_refines_pipeline [OF release_env0_ok, of s 0] initial_position [OF i] s by auto
qed

lemma lineage_position:
  assumes "release_env_ok R" and "state_wf R s" and "at_position s n"
  shows "(advance R)\<^sup>*\<^sup>* s t \<Longrightarrow> \<exists>m. n \<le> m \<and> at_position t m \<and> state_wf R t"
proof (induction rule: rtranclp_induct)
  case base
  then show ?case using assms by blast
next
  case (step t u)
  then show ?case using advance_step [OF assms(1)] by (metis le_SucI)
qed

lemma full_counts:
  "k \<in> set action_count_keys \<Longrightarrow>
     int (count_list (concat (map counters_of (take 9 pipeline))) k) = (if k = ''intermediate-release'' then 0 else 1)"
proof -
  have "list_all (\<lambda>k. int (count_list (concat (map counters_of (take 9 pipeline))) k)
      = (if k = ''intermediate-release'' then 0 else 1)) action_count_keys" by code_simp
  then show "k \<in> set action_count_keys \<Longrightarrow> ?thesis" by (simp only: list_all_iff)
qed

lemma released_position: "n \<le> 9 \<Longrightarrow> release_states ! n = ''released'' \<Longrightarrow> n = 9"
proof -
  have "list_all (\<lambda>n. release_states ! n = ''released'' \<longrightarrow> n = 9) [0..<10]" by code_simp
  then show "n \<le> 9 \<Longrightarrow> release_states ! n = ''released'' \<Longrightarrow> n = 9" by (simp only: list_all_iff set_upt) auto
qed

lemma counts_list: "counts_ok (s_counts s) \<Longrightarrow> s_counts s = map (\<lambda>k. (k, count_of s k)) action_count_keys"
proof -
  assume ok: "counts_ok (s_counts s)"
  have "distinct action_count_keys" by code_simp
  then have "distinct (map fst (s_counts s))" using ok by (simp add: counts_ok_def)
  then have "(fst c, count_of s (fst c)) = c" if "c \<in> set (s_counts s)" for c
    using map_of_is_SomeI [of "s_counts s" "fst c" "snd c"] that by (cases c) (simp add: count_of_def)
  then have "map (\<lambda>k. (k, count_of s k)) (map fst (s_counts s)) = s_counts s" by (simp add: map_idI)
  then show ?thesis using ok by (metis counts_ok_def)
qed

lemma advance_keeps:
  "advance R s t \<Longrightarrow> s_work t = s_work s \<and> s_invalid t = s_invalid s"
  using advance_event [of R s t] by auto

lemma run_to_position:
  assumes "release_env_ok R" and "m \<le> 9"
  shows "state_wf R s \<Longrightarrow> at_position s n \<Longrightarrow> n \<le> m \<Longrightarrow> length (s_work s) = 2 \<Longrightarrow> s_invalid s = [] \<Longrightarrow>
     \<exists>t. (advance R ^^ (m - n)) s t \<and> at_position t m \<and> state_wf R t \<and> length (s_work t) = 2 \<and> s_invalid t = []"
proof (induction "m - n" arbitrary: s n)
  case 0
  then have "n = m" by simp
  then show ?case using 0 by auto
next
  case (Suc k)
  then have n: "n < 9" "k = m - Suc n" "Suc n \<le> m" using assms(2) by auto
  then obtain t where t: "advance R s t" using next_step_exists Suc.prems by blast
  moreover have "state_wf R t" "at_position t (Suc n)" using advance_step [OF assms(1)] Suc.prems t by blast+
  moreover have "length (s_work t) = 2" "s_invalid t = []" using advance_keeps [OF t] Suc.prems by simp_all
  ultimately obtain u where "(advance R ^^ k) t u" and "at_position u m \<and> state_wf R u \<and> length (s_work u) = 2 \<and> s_invalid u = []"
    using Suc.hyps(1) n(2,3) by blast
  then show ?case using t Suc.hyps(2) relpowp_Suc_I2 [of "advance R" s t k u] by auto
qed

lemma run_to_release:
  assumes "release_env_ok R" and "state_wf R s" and "at_position s n" and "length (s_work s) = 2" and "s_invalid s = []"
  shows "\<exists>t. (advance R ^^ (9 - n)) s t \<and> at_position t 9"
proof -
  have "n \<le> 9" using assms(3) by (simp add: at_position_def)
  then show ?thesis using run_to_position [OF assms(1) order_refl assms(2,3) _ assms(4,5)] by blast
qed

lemma position_nine: "at_position t 9 \<Longrightarrow> s_current t = ''released''"
  by (simp add: at_position_def release_states_def)

text \<open>C2: A release is the end of the whole pipeline. In a state reached from an initial state whose current state is
  \<open>released\<close>, the event records hold the nine actions in order and under distinct identities, every counter of the
  history is one and that of intermediate releases is zero, exactly one bootstrap key was consumed, the package carries
  two verified Work receipts, nothing is invalidated, and the state is well-formed.\<close>

theorem released_requires_full_pipeline:
  assumes "release_env_ok R" and "initial R s0" and "(advance R)\<^sup>*\<^sup>* s0 s" and "s_current s = ''released''"
  shows "map v_action (s_records s) = [''candidate-ready'', ''freeze-source'', ''decide-version'', ''fingerprint'',
       ''qualify-provider-source'', ''build-artifacts'', ''pass-canary'', ''approve-cp8'', ''release'']
    \<and> distinct (map v_id (s_records s))
    \<and> s_counts s = map (\<lambda>k. (k, if k = ''intermediate-release'' then 0 else 1)) action_count_keys
    \<and> length (s_bootstrap s) = 1 \<and> length (s_work s) = 2 \<and> s_invalid s = [] \<and> state_wf R s"
proof -
  obtain m where p: "at_position s m" and wf: "state_wf R s"
    using lineage_position [OF assms(1)] initial_position [OF assms(2)] assms(3) by blast
  have m: "m = 9" using p assms(4) released_position by (simp add: at_position_def)
  have c: "counts_ok (s_counts s)" using wf by (simp add: state_wf_def state_content_wf_def)
  have cnt: "count_of s k = (if k = ''intermediate-release'' then 0 else 1)" if "k \<in> set action_count_keys" for k
    using p that full_counts [OF that] unfolding m at_position_def list_all_iff by simp
  have "s_counts s = map (\<lambda>k. (k, count_of s k)) action_count_keys" by (rule counts_list [OF c])
  then have "s_counts s = map (\<lambda>k. (k, if k = ''intermediate-release'' then 0 else 1)) action_count_keys"
    using cnt by (simp cong: map_cong)
  moreover have "map v_action (s_records s) = pipeline"
    using p by (simp add: at_position_def m pipeline_length)
  then have "map v_action (s_records s) = [''candidate-ready'', ''freeze-source'', ''decide-version'', ''fingerprint'',
       ''qualify-provider-source'', ''build-artifacts'', ''pass-canary'', ''approve-cp8'', ''release'']"
    by (simp add: pipeline_def action_transitions_def)
  moreover have "distinct (map v_id (s_records s)) \<and> length (s_bootstrap s) = 1 \<and> length (s_work s) = 2 \<and> s_invalid s = []"
    using p by (simp add: at_position_def m)
  ultimately show ?thesis using wf by blast
qed


lemma transition_index:
  "map_of action_transitions a = Some (f, t) \<Longrightarrow> state_index t = Suc (state_index f) \<and> state_index t \<le> 9"
proof -
  have "list_all (\<lambda>(_, f, t). state_index t = Suc (state_index f) \<and> state_index t \<le> 9) action_transitions" by code_simp
  then show "map_of action_transitions a = Some (f, t) \<Longrightarrow> ?thesis" by (auto simp: list_all_iff dest!: map_of_SomeD)
qed

lemma advance_index:
  assumes "advance R s t"
  shows "state_index (s_current t) = Suc (state_index (s_current s)) \<and> state_index (s_current t) \<le> 9
    \<and> length (s_records t) = Suc (length (s_records s))"
proof -
  obtain e where "admitted_event s e" and t: "t = advance_state R s e" using advance_event [OF assms] by blast
  then have "map_of action_transitions (ev_action e) = Some (s_current s, ev_target e)" by (simp add: admitted_event_def)
  from transition_index [OF this] show ?thesis unfolding t by simp
qed

lemma initial_release_state0: "release_state0 R = Inr s \<Longrightarrow> initial R s"
  unfolding initial_def release_state0_def by blast

lemma release_run0: "\<exists>s0 s. initial release_env0 s0 \<and> (advance release_env0 ^^ 9) s0 s \<and> s_current s = ''released''"
proof -
  obtain s0 where s0: "release_state0 release_env0 = Inr s0" "length (s_work s0) = 2" using release_state0_ok by blast
  have i: "initial release_env0 s0" using initial_release_state0 [OF s0(1)] .
  then have "s_invalid s0 = []" unfolding initial_def using initial_state by blast
  then show ?thesis using run_to_release [OF release_env0_ok, of s0 0] initial_position [OF i] s0(2) i position_nine by fastforce
qed

theorem released_requires_full_pipeline_witness:
  "\<exists>s. s_current s = ''released'' \<and> length (s_records s) = 9 \<and> state_wf release_env0 s"
proof -
  obtain s0 s where i: "initial release_env0 s0" and r: "(advance release_env0 ^^ 9) s0 s" and c: "s_current s = ''released''"
    using release_run0 by blast
  have full: "map v_action (s_records s) = [''candidate-ready'', ''freeze-source'', ''decide-version'', ''fingerprint'',
       ''qualify-provider-source'', ''build-artifacts'', ''pass-canary'', ''approve-cp8'', ''release''] \<and> state_wf release_env0 s"
    using released_requires_full_pipeline [OF release_env0_ok i relpowp_imp_rtranclp [OF r] c] by blast
  have "length (s_records s) = 9" using arg_cong [OF full [THEN conjunct1], of length] by simp
  then show ?thesis using full c by blast
qed

text \<open>C28: The release order terminates, from every state, well-formed or not: each advance moves the current state one place
  along the pipeline and appends one event record, so at most nine events can ever be applied.\<close>

theorem release_order_terminates:
  assumes "(advance R ^^ n) s t"
  shows "n \<le> 9 \<and> state_index (s_current t) = state_index (s_current s) + n
    \<and> length (s_records t) = length (s_records s) + n"
proof -
  have "(n = 0 \<or> state_index (s_current t) \<le> 9) \<and> state_index (s_current t) = state_index (s_current s) + n
    \<and> length (s_records t) = length (s_records s) + n"
    using assms
  proof (induction n arbitrary: t)
    case (Suc n)
    then obtain u where "(advance R ^^ n) s u" and "advance R u t" by auto
    then show ?case using Suc.IH [of u] advance_index [of R u t] by auto
  qed simp
  then show ?thesis by auto
qed

theorem release_order_terminates_witness:
  "\<exists>s t. (advance release_env0 ^^ 9) s t \<and> length (s_records t) = length (s_records s) + 9"
proof -
  obtain s t where r: "(advance release_env0 ^^ 9) s t" using release_run0 by blast
  show ?thesis using release_order_terminates [OF r] r by blast
qed

section \<open>Resubmission\<close>

lemma later_records:
  "(advance R)\<^sup>*\<^sup>* t u \<Longrightarrow> eid \<in> v_id ` set (s_records t) \<Longrightarrow>
     filter (\<lambda>r. v_id r = eid) (s_records u) = filter (\<lambda>r. v_id r = eid) (s_records t)"
proof (induction rule: rtranclp_induct)
  case (step u w)
  then have kept: "filter (\<lambda>r. v_id r = eid) (s_records u) = filter (\<lambda>r. v_id r = eid) (s_records t)" by simp
  obtain e where new: "ev_id e \<notin> v_id ` set (s_records u)" and w: "w = advance_state R u e"
    using advance_event [OF step.hyps(2)] unfolding admitted_event_def by blast
  have "eid \<in> v_id ` set (s_records u)" using fresh_id [of eid "s_records u"] fresh_id [of eid "s_records t"] kept step.prems
    by argo
  then have "ev_id e \<noteq> eid" using new by metis
  then show ?case unfolding w using kept by simp
qed simp

text \<open>Events are idempotent. Once an event has been applied, an event with its identity is never applied again, however
  many others follow: with the same digest it is answered NO_CHANGE without a diagnostic, and with different content
  it is blocked as a conflict.\<close>

theorem release_event_idempotent:
  assumes "plan_release_advance R s e n codes = Inr p" and "rp_after p = Some t" and "(advance R)\<^sup>*\<^sup>* t u"
    and "ev_id e' = ev_id e"
  shows "check_release_transition R u e' None None =
     Inr (if event_digest R e' = event_digest R e
          then \<lparr>c_decision = ''NO_CHANGE'', c_diagnostics = [], c_event = event_digest R e'\<rparr>
          else \<lparr>c_decision = ''BLOCKED'', c_diagnostics = [\<lparr>d_code = ''RELEASE_EVENT_CONFLICT'',
                 d_message = ''event identity already binds different evidence''\<rparr>], c_event = event_digest R e'\<rparr>)"
proof -
  have t: "t = advance_state R s e" and adm: "admitted_event s e"
    using plan_pass_iff [OF assms(1)] assms(2) by (auto split: if_splits)
  then have "filter (\<lambda>r. v_id r = ev_id e) (s_records s) = []" unfolding fresh_id by (simp add: admitted_event_def)
  then have "filter (\<lambda>r. v_id r = ev_id e) (s_records t) =
      [\<lparr>v_id = ev_id e, v_action = ev_action e, v_digest = event_digest R e, v_key = transition_key R s e\<rparr>]"
    by (simp add: t)
  moreover have "ev_id e \<in> v_id ` set (s_records t)" by (simp add: t)
  ultimately have "filter (\<lambda>r. v_id r = ev_id e') (s_records u) =
      [\<lparr>v_id = ev_id e, v_action = ev_action e, v_digest = event_digest R e, v_key = transition_key R s e\<rparr>]"
    using later_records [OF assms(3)] assms(4) by simp
  then show ?thesis by (simp add: check_release_transition_def risk_diagnostics_def diag_def Let_def)
qed


lemma release_step0: "\<exists>s e p t. event_wf e \<and> plan_release_advance release_env0 s e (snapshot_for s l k) None = Inr p \<and> rp_after p = Some t"
proof -
  obtain s where s: "release_state0 release_env0 = Inr s" "length (s_work s) = 2" using release_state0_ok by blast
  have i: "initial release_env0 s" using initial_release_state0 [OF s(1)] .
  then have empty: "s_invalid s = []" "s_records s = []" unfolding initial_def using initial_state by blast+
  have "release_id_re ''E0''" by code_simp
  then have e: "event_wf (next_event s 0 ''E0'')" using next_event_wf [of release_env0 s 0 "''E0''"] initial_position [OF i] by simp
  moreover have adm: "admitted_event s (next_event s 0 ''E0'')"
    using next_event_admitted initial_position [OF i] empty s(2) by simp
  moreover obtain p where p: "plan_release_advance release_env0 s (next_event s 0 ''E0'') (snapshot_for s l k) None = Inr p"
    using plan_exists e unfolding event_wf_def by blast
  ultimately show ?thesis using plan_pass_iff [OF p] snapshot_for_clear by (metis (no_types, lifting))
qed

theorem release_event_idempotent_witness:
  "\<exists>e t. check_release_transition release_env0 t e None None =
     Inr \<lparr>c_decision = ''NO_CHANGE'', c_diagnostics = [], c_event = event_digest release_env0 e\<rparr>"
proof -
  obtain s e p t where p: "plan_release_advance release_env0 s e (snapshot_for s [] []) None = Inr p" "rp_after p = Some t"
    using release_step0 by blast
  show ?thesis using release_event_idempotent [OF p rtranclp.rtrancl_refl refl] by auto
qed

end
