(* ===== verification/Release_Writer.thy ===== *)
theory Release_Writer
  imports Release_Order Exact_Store
begin

text \<open>
  The effects of the release order (\<open>workflow/release_order.py\<close>, with the directory and replacement
  primitives of \<open>state/projection_transaction.py\<close>): the two writers, the guarded application of an advance
  plan, and the inspection and recovery of the journal.

  A writer operation ends with a value, with a \<open>ReleaseWriteError\<close>, with another exception, or with the death of
  the process. The file writer runs in the world of \<open>Exact_Store\<close>: every replacement of a file consumes one entry
  of the fault schedule, and the directories of a target are created on the way. Paths are component lists; a path
  below a link counts as absent, as it is refused before it is written.
\<close>

section \<open>Outcomes of a writer\<close>

record write_error =
  we_code :: string
  we_status :: string
  we_count :: int

datatype ('s, 'a) wrun = Wrote 'a 's | Refused write_error 's | Escaped exc 's | Stopped 's

fun wbind :: "('s, 'a) wrun \<Rightarrow> ('a \<Rightarrow> 's \<Rightarrow> ('s, 'b) wrun) \<Rightarrow> ('s, 'b) wrun" where
  "wbind (Wrote x s) f = f x s"
| "wbind (Refused e s) f = Refused e s"
| "wbind (Escaped x s) f = Escaped x s"
| "wbind (Stopped s) f = Stopped s"

fun wlift :: "'a run \<Rightarrow> (world, 'a) wrun" where
  "wlift (Done x w) = Wrote x w"
| "wlift (Raised e w) = Escaped e w"
| "wlift (Crashed w) = Stopped w"

definition refuse :: "string \<Rightarrow> string \<Rightarrow> int \<Rightarrow> 's \<Rightarrow> ('s, 'a) wrun" where
  "refuse code status n s = Refused \<lparr>we_code = code, we_status = status, we_count = n\<rparr> s"

definition with_key :: "pydict \<Rightarrow> string \<Rightarrow> 's \<Rightarrow> (pyval \<Rightarrow> ('s, 'a) wrun) \<Rightarrow> ('s, 'a) wrun" where
  "with_key d k s f = (case map_of d k of None \<Rightarrow> Escaped (KeyError k) s | Some v \<Rightarrow> f v)"

section \<open>Journal records\<close>

definition prepared_record :: "pyval \<Rightarrow> pydict \<Rightarrow> pydict" where
  "prepared_record eid receipt = [(''event_id'', eid), (''journal_state'', PStr ''PREPARED''), (''receipt'', PDict receipt)]"

definition committed_record :: "pyval \<Rightarrow> pyval \<Rightarrow> pydict" where
  "committed_record eid digest = [(''event_id'', eid), (''journal_state'', PStr ''COMMITTED''), (''receipt_digest'', digest)]"

definition recovered_record :: "string \<Rightarrow> pydict" where
  "recovered_record eid = [(''event_id'', PStr eid), (''journal_state'', PStr ''RECOVERED'')]"

definition json_line :: "release_env \<Rightarrow> pydict \<Rightarrow> string" where
  "json_line R d = r_json R (PDict d) @ [newline]"

definition about_event :: "string \<Rightarrow> pydict \<Rightarrow> bool" where
  "about_event eid d = (dget d ''event_id'' = PStr eid)"

fun settled :: "pydict list \<Rightarrow> bool result" where
  "settled [] = Inr False"
| "settled (d # ds) =
     (let v = dget d ''journal_state'' in
      if unhashable v then Inl (TypeError ''unhashable type'')
      else if v \<in> {PStr ''COMMITTED'', PStr ''RECOVERED''} then Inr True else settled ds)"

definition recoverable :: "pydict list \<Rightarrow> bool result" where
  "recoverable records =
     (case records of
        [] \<Rightarrow> Inr False
      | d # _ \<Rightarrow> if dget d ''journal_state'' \<noteq> PStr ''PREPARED'' then Inr False
          else (case settled records of Inl e \<Rightarrow> Inl e | Inr b \<Rightarrow> Inr (\<not> b)))"

section \<open>The writer in memory\<close>

record memory_writer =
  m_fail :: string
  m_journal :: "pydict list"
  m_projection :: "pydict option"

definition memory_ledger_digest :: "release_env \<Rightarrow> memory_writer \<Rightarrow> string" where
  "memory_ledger_digest R m = r_sha R (concat (map (json_line R) (m_journal m)))"

definition memory_projection_digest :: "release_env \<Rightarrow> memory_writer \<Rightarrow> string" where
  "memory_projection_digest R m = (case m_projection m of None \<Rightarrow> r_sha R [] | Some d \<Rightarrow> r_sha R (json_line R d))"

definition memory_commit :: "release_env \<Rightarrow> pydict \<Rightarrow> pydict \<Rightarrow> string \<Rightarrow> string \<Rightarrow> memory_writer
    \<Rightarrow> (memory_writer, int) wrun" where
  "memory_commit R receipt state led proj m =
     (if (memory_ledger_digest R m, memory_projection_digest R m) \<noteq> (led, proj)
      then refuse ''RELEASE_WRITER_PREIMAGE_DRIFT'' ''BLOCKED'' 0 m
      else if m_fail m = ''append'' then refuse ''RELEASE_LEDGER_APPEND_FAILED'' ''BLOCKED'' 0 m
      else with_key receipt ''event_id'' m (\<lambda>eid.
        let m1 = m\<lparr>m_journal := m_journal m @ [prepared_record eid receipt]\<rparr> in
        if m_fail m = ''projection'' then refuse ''RELEASE_PROJECTION_FAILED'' ''PARTIAL'' 1 m1
        else let m2 = m1\<lparr>m_projection := Some state\<rparr> in
        if m_fail m = ''commit'' then refuse ''RELEASE_COMMIT_MARKER_FAILED'' ''PARTIAL'' 2 m2
        else with_key receipt ''receipt_digest'' m2 (\<lambda>digest.
          Wrote 3 (m2\<lparr>m_journal := m_journal m2 @ [committed_record eid digest]\<rparr>))))"

definition memory_inspect :: "string \<Rightarrow> memory_writer \<Rightarrow> (memory_writer, pydict list) wrun" where
  "memory_inspect eid m = Wrote (filter (about_event eid) (m_journal m)) m"

definition memory_recover :: "string \<Rightarrow> pydict \<Rightarrow> memory_writer \<Rightarrow> (memory_writer, int) wrun" where
  "memory_recover eid state m =
     (case recoverable (filter (about_event eid) (m_journal m)) of
        Inl e \<Rightarrow> Escaped e m
      | Inr b \<Rightarrow> if \<not> b then refuse ''RELEASE_RECOVERY_NOT_APPLICABLE'' ''BLOCKED'' 0 m
          else Wrote 2 (m\<lparr>m_projection := Some state, m_journal := m_journal m @ [recovered_record eid]\<rparr>))"

section \<open>The writer on files\<close>

record file_writer =
  fw_ledger :: path
  fw_projection :: path
  fw_fail :: string

definition target_bytes :: "path \<Rightarrow> world \<Rightarrow> (world, string) wrun" where
  "target_bytes p w =
     (case w_fs w p of
        None \<Rightarrow> Wrote [] w
      | Some (File c) \<Rightarrow> Wrote c w
      | Some _ \<Rightarrow> refuse ''RELEASE_WRITER_TARGET_INVALID'' ''BLOCKED'' 0 w)"

text \<open>\<open>_ensure_plain_directory\<close> and \<open>_replace_bytes\<close>.\<close>

definition ensure_plain_directory :: "path \<Rightarrow> world \<Rightarrow> unit run" where
  "ensure_plain_directory d w =
     (case check_parents True [] d (w_fs w) of
        None \<Rightarrow> Raised (ValueError ''state projection directory path is unsafe'') w
      | Some fs \<Rightarrow> Done () (w\<lparr>w_fs := fs\<rparr>))"

definition replace_bytes :: "path \<Rightarrow> string \<Rightarrow> world \<Rightarrow> unit run" where
  "replace_bytes p c w =
     (if \<not> plain_target (w_fs w) p then Raised (ValueError ''state projection target is not a regular file'') w
      else and_then (ensure_plain_directory (butlast p) w) (\<lambda>_ w'. durable (put_file p c) w'))"

definition append_record :: "release_env \<Rightarrow> path \<Rightarrow> pydict \<Rightarrow> world \<Rightarrow> (world, unit) wrun" where
  "append_record R p d w =
     wbind (wlift (ensure_plain_directory (butlast p) w)) (\<lambda>_ w1.
     wbind (target_bytes p w1) (\<lambda>before w2. wlift (replace_bytes p (before @ json_line R d) w2)))"

definition write_projection :: "release_env \<Rightarrow> path \<Rightarrow> pydict \<Rightarrow> world \<Rightarrow> (world, unit) wrun" where
  "write_projection R p d w =
     wbind (wlift (ensure_plain_directory (butlast p) w)) (\<lambda>_ w1. wlift (replace_bytes p (json_line R d) w1))"

definition file_commit :: "release_env \<Rightarrow> file_writer \<Rightarrow> pydict \<Rightarrow> pydict \<Rightarrow> string \<Rightarrow> string \<Rightarrow> world
    \<Rightarrow> (world, int) wrun" where
  "file_commit R fw receipt state led proj w =
     wbind (target_bytes (fw_ledger fw) w) (\<lambda>l w. wbind (target_bytes (fw_projection fw) w) (\<lambda>p w.
      if (r_sha R l, r_sha R p) \<noteq> (led, proj) then refuse ''RELEASE_WRITER_PREIMAGE_DRIFT'' ''BLOCKED'' 0 w
      else if fw_fail fw = ''append'' then refuse ''RELEASE_LEDGER_APPEND_FAILED'' ''BLOCKED'' 0 w
      else with_key receipt ''event_id'' w (\<lambda>eid.
        wbind (append_record R (fw_ledger fw) (prepared_record eid receipt) w) (\<lambda>_ w.
        if fw_fail fw = ''projection'' then refuse ''RELEASE_PROJECTION_FAILED'' ''PARTIAL'' 1 w
        else wbind (write_projection R (fw_projection fw) state w) (\<lambda>_ w.
        if fw_fail fw = ''commit'' then refuse ''RELEASE_COMMIT_MARKER_FAILED'' ''PARTIAL'' 2 w
        else with_key receipt ''receipt_digest'' w (\<lambda>digest.
          wbind (append_record R (fw_ledger fw) (committed_record eid digest) w) (\<lambda>_ w. Wrote 3 w)))))))"

text \<open>\<open>bytes.splitlines\<close>.\<close>

fun byte_lines :: "string \<Rightarrow> string list" where
  "byte_lines [] = []"
| "byte_lines (c # cs) =
     (if c = newline then [] # byte_lines cs
      else if c = CHR 0x0D
      then (case cs of [] \<Rightarrow> [[]] | d # ds \<Rightarrow> if d = newline then [] # byte_lines ds else [] # byte_lines cs)
      else (case byte_lines cs of [] \<Rightarrow> [[c]] | l # ls \<Rightarrow> (c # l) # ls))"

fun read_records :: "release_env \<Rightarrow> string \<Rightarrow> string list \<Rightarrow> pydict list option" where
  "read_records R eid [] = Some []"
| "read_records R eid (l # ls) =
     (case r_loads R l of
        Some (PDict d) \<Rightarrow> map_option (\<lambda>ds. if about_event eid d then d # ds else ds) (read_records R eid ls)
      | _ \<Rightarrow> None)"

definition file_inspect :: "release_env \<Rightarrow> file_writer \<Rightarrow> string \<Rightarrow> world \<Rightarrow> (world, pydict list) wrun" where
  "file_inspect R fw eid w =
     wbind (target_bytes (fw_ledger fw) w) (\<lambda>raw w.
       case read_records R eid (byte_lines raw) of
         None \<Rightarrow> refuse ''RELEASE_LEDGER_INVALID'' ''BLOCKED'' 0 w
       | Some ds \<Rightarrow> Wrote ds w)"

definition file_recover :: "release_env \<Rightarrow> file_writer \<Rightarrow> string \<Rightarrow> pydict \<Rightarrow> world \<Rightarrow> (world, int) wrun" where
  "file_recover R fw eid state w =
     wbind (file_inspect R fw eid w) (\<lambda>records w.
       case recoverable records of
         Inl e \<Rightarrow> Escaped e w
       | Inr b \<Rightarrow> if \<not> b then refuse ''RELEASE_RECOVERY_NOT_APPLICABLE'' ''BLOCKED'' 0 w
           else wbind (write_projection R (fw_projection fw) state w) (\<lambda>_ w.
             wbind (append_record R (fw_ledger fw) (recovered_record eid) w) (\<lambda>_ w. Wrote 2 w)))"

section \<open>Receipts\<close>

record transition_receipt =
  tr_status :: string
  tr_decision :: string
  tr_event :: string
  tr_action :: string
  tr_plan :: string
  tr_authorization :: string
  tr_before :: string
  tr_after :: string
  tr_error :: string
  tr_count :: int
  tr_digest :: string

definition receipt_payload :: "transition_receipt \<Rightarrow> pydict" where
  "receipt_payload t =
     [(''action'', PStr (tr_action t)), (''after_state_digest'', PStr (tr_after t)),
      (''authorization_digest'', PStr (tr_authorization t)), (''before_state_digest'', PStr (tr_before t)),
      (''decision'', PStr (tr_decision t)), (''error_code'', PStr (tr_error t)), (''event_id'', PStr (tr_event t)),
      (''kind'', PStr ''AggregateReleaseTransitionReceiptV1''), (''mutation_count'', PInt (tr_count t)),
      (''plan_digest'', PStr (tr_plan t)), (''schema_version'', PInt 1), (''status'', PStr (tr_status t))]"

definition receipt_as_dict :: "transition_receipt \<Rightarrow> pydict" where
  "receipt_as_dict t = (case receipt_payload t of
     payload \<Rightarrow> take 10 payload @ [(''receipt_digest'', PStr (tr_digest t))] @ drop 10 payload)"

definition build_receipt :: "release_env \<Rightarrow> string \<Rightarrow> string \<Rightarrow> advance_plan \<Rightarrow> string \<Rightarrow> string \<Rightarrow> int
    \<Rightarrow> transition_receipt" where
  "build_receipt R status decision plan authorization error n =
     (let t = \<lparr>tr_status = status, tr_decision = decision, tr_event = ev_id (rp_event plan),
               tr_action = ev_action (rp_event plan), tr_plan = rp_digest plan, tr_authorization = authorization,
               tr_before = s_digest (rp_before plan),
               tr_after = (case rp_after plan of None \<Rightarrow> [] | Some a \<Rightarrow> s_digest a), tr_error = error, tr_count = n,
               tr_digest = []\<rparr> in
      t\<lparr>tr_digest := canonical_digest R (PDict (receipt_payload t))\<rparr>)"

section \<open>Applying a plan\<close>

definition scope_mismatch :: "advance_plan \<Rightarrow> release_authorization \<Rightarrow> bool" where
  "scope_mismatch plan auth =
     (ra_plan auth \<noteq> rp_digest plan \<or> ra_before auth \<noteq> s_digest (rp_before plan)
      \<or> ra_source auth \<noteq> s_source (rp_before plan) \<or> ra_action auth \<noteq> ev_action (rp_event plan)
      \<or> ra_event auth \<noteq> ev_id (rp_event plan))"

text \<open>\<open>issued <= now < expires\<close>: the second bound is read only when the first one holds.\<close>

definition in_window :: "release_env \<Rightarrow> release_authorization \<Rightarrow> int \<Rightarrow> bool result" where
  "in_window R auth now =
     let_ok (parse_timestamp R ''RELEASE_AUTHORIZATION_TIME_INVALID'' (PStr (ra_issued auth))) (\<lambda>issued.
     if \<not> issued \<le> now then Inr False
     else let_ok (parse_timestamp R ''RELEASE_AUTHORIZATION_TIME_INVALID'' (PStr (ra_expires auth))) (\<lambda>expires.
       Inr (now < expires)))"

definition authorization_error :: "release_env \<Rightarrow> advance_plan \<Rightarrow> release_authorization \<Rightarrow> release_snapshot \<Rightarrow> int
    \<Rightarrow> string result" where
  "authorization_error R plan auth fresh now =
     (if rp_decision plan \<noteq> ''PASS'' \<or> rp_after plan = None then Inr ''RELEASE_PLAN_NOT_READY''
      else if scope_mismatch plan auth then Inr ''RELEASE_AUTHORIZATION_SCOPE_MISMATCH''
      else let_ok (in_window R auth now) (\<lambda>ok.
        if \<not> ok then Inr ''RELEASE_AUTHORIZATION_EXPIRED''
        else if snapshot_digest R fresh \<noteq> snapshot_digest R (rp_snapshot plan) \<or> n_status fresh \<noteq> ''clean''
        then Inr ''RELEASE_FRESH_PREIMAGE_MISMATCH'' else Inr []))"

definition provisional_receipt :: "release_env \<Rightarrow> advance_plan \<Rightarrow> release_authorization \<Rightarrow> transition_receipt" where
  "provisional_receipt R plan auth = build_receipt R ''PASS'' ''PASS'' plan (ra_digest auth) [] 3"

type_synonym 's commit_op = "pydict \<Rightarrow> pydict \<Rightarrow> string \<Rightarrow> string \<Rightarrow> 's \<Rightarrow> ('s, int) wrun"

definition apply_release_advance :: "release_env \<Rightarrow> 's commit_op \<Rightarrow> advance_plan \<Rightarrow> release_authorization
    \<Rightarrow> release_snapshot \<Rightarrow> int \<Rightarrow> 's \<Rightarrow> ('s, transition_receipt) wrun" where
  "apply_release_advance R commit plan auth fresh now s =
     (case authorization_error R plan auth fresh now of
        Inl e \<Rightarrow> Escaped e s
      | Inr error \<Rightarrow>
        if error \<noteq> [] then Wrote (build_receipt R ''BLOCKED'' ''BLOCKED'' plan (ra_digest auth) error 0) s
        else (case commit (receipt_as_dict (provisional_receipt R plan auth)) (state_as_dict (the (rp_after plan))) (n_ledger fresh)
              (n_projection fresh) s of
             Wrote n s' \<Rightarrow> Wrote (provisional_receipt R plan auth\<lparr>tr_count := n\<rparr>) s'
           | Refused e s' \<Rightarrow>
               Wrote (build_receipt R (we_status e) ''BLOCKED'' plan (ra_digest auth) (we_code e) (we_count e)) s'
           | Escaped x s' \<Rightarrow> Escaped x s'
           | Stopped s' \<Rightarrow> Stopped s'))"

section \<open>Inspection and recovery\<close>

definition journal_status :: "pydict list \<Rightarrow> string" where
  "journal_status records =
     (let states = map (\<lambda>d. str_or_empty (dget d ''journal_state'')) records in
      if ''COMMITTED'' \<in> set states then ''PASS'' else if ''RECOVERED'' \<in> set states then ''RECOVERED''
      else if ''PREPARED'' \<in> set states then ''PARTIAL'' else ''ABSENT'')"

definition inspection_payload :: "string \<Rightarrow> pydict list \<Rightarrow> pydict" where
  "inspection_payload eid records =
     [(''event_id'', PStr eid), (''kind'', PStr ''ReleaseJournalInspectionV1''), (''mutation_count'', PInt 0),
      (''record_count'', PInt (int (length records))), (''schema_version'', PInt 1),
      (''status'', PStr (journal_status records))]"

definition inspect_release_journal :: "release_env \<Rightarrow> (string \<Rightarrow> 's \<Rightarrow> ('s, pydict list) wrun) \<Rightarrow> string \<Rightarrow> 's
    \<Rightarrow> ('s, pydict) wrun" where
  "inspect_release_journal R inspect eid s =
     wbind (inspect eid s) (\<lambda>records s.
       let payload = inspection_payload eid records in
       Wrote ((''inspection_digest'', PStr (canonical_digest R (PDict payload))) # payload) s)"

definition recovery_error :: "release_env \<Rightarrow> advance_plan \<Rightarrow> release_authorization \<Rightarrow> release_snapshot \<Rightarrow> int
    \<Rightarrow> string result" where
  "recovery_error R plan auth fresh now =
     (if rp_decision plan \<noteq> ''PASS'' \<or> rp_after plan = None then Inr ''RELEASE_PLAN_NOT_READY''
      else if n_status fresh \<noteq> ''partial'' then Inr ''RELEASE_RECOVERY_NOT_APPLICABLE''
      else if scope_mismatch plan auth then Inr ''RELEASE_AUTHORIZATION_SCOPE_MISMATCH''
      else let_ok (in_window R auth now) (\<lambda>ok.
        if \<not> ok then Inr ''RELEASE_AUTHORIZATION_EXPIRED''
        else let b = rp_before plan in
          if n_state fresh \<noteq> s_digest b \<or> n_source fresh \<noteq> s_source b \<or> n_plan fresh \<noteq> s_plan b
            \<or> n_cost fresh \<noteq> s_cost b \<or> n_compat fresh \<noteq> s_compat b
          then Inr ''RELEASE_FRESH_PREIMAGE_MISMATCH'' else Inr []))"

definition recover_release_transition :: "release_env \<Rightarrow> (string \<Rightarrow> pydict \<Rightarrow> 's \<Rightarrow> ('s, int) wrun) \<Rightarrow> advance_plan
    \<Rightarrow> release_authorization \<Rightarrow> release_snapshot \<Rightarrow> int \<Rightarrow> 's \<Rightarrow> ('s, transition_receipt) wrun" where
  "recover_release_transition R recover plan auth fresh now s =
     (case recovery_error R plan auth fresh now of
        Inl e \<Rightarrow> Escaped e s
      | Inr error \<Rightarrow>
        if error \<noteq> [] then Wrote (build_receipt R ''BLOCKED'' ''BLOCKED'' plan (ra_digest auth) error 0) s
        else (case recover (ev_id (rp_event plan)) (state_as_dict (the (rp_after plan))) s of
             Wrote n s' \<Rightarrow> Wrote (build_receipt R ''RECOVERED'' ''BLOCKED'' plan (ra_digest auth)
                 ''RELEASE_RECOVERED_REVIEW_REQUIRED'' n) s'
           | Refused e s' \<Rightarrow>
               Wrote (build_receipt R (we_status e) ''BLOCKED'' plan (ra_digest auth) (we_code e) (we_count e)) s'
           | Escaped x s' \<Rightarrow> Escaped x s'
           | Stopped s' \<Rightarrow> Stopped s'))"

text \<open>The diagnosis of a publication phase over loosely typed outcomes.\<close>

definition diagnose_publication_phase :: "string \<Rightarrow> pydict list \<Rightarrow> bool \<Rightarrow> pydict" where
  "diagnose_publication_phase current_phase outcomes verified =
     (let parsed = map (\<lambda>d. \<lparr>po_kind = str_or_empty (dget d ''target_kind''),
            po_identity = str_or_empty (dget d ''target_identity''), po_outcome = str_or_empty (dget d ''outcome''),
            po_attempt = str_or_empty (dget d ''attempt_digest'')\<rparr>) outcomes;
          r = aggregate_publication_phase current_phase parsed verified;
          opt = (\<lambda>x. case x of None \<Rightarrow> PNone | Some s \<Rightarrow> PStr s) in
      [(''blocker_code'', opt (pd_blocker r)), (''decision'', PStr (pd_decision r)),
       (''kind'', PStr ''PublicationPhaseDiagnosticV1''), (''mutation_count'', PInt 0), (''phase'', opt (pd_phase r)),
       (''schema_version'', PInt 1)])"


section \<open>The contract of a writer\<close>

text \<open>What a writer holds: the records of the journal and the projection.\<close>

type_synonym holding = "pydict list \<times> pydict option"

definition preimages :: "release_env \<Rightarrow> holding \<Rightarrow> string \<times> string" where
  "preimages R v = (r_sha R (concat (map (json_line R) (fst v))),
     r_sha R (case snd v of None \<Rightarrow> [] | Some d \<Rightarrow> json_line R d))"

text \<open>The durable steps of a commit, in order: PREPARED, projection, COMMITTED; and those of a recovery.\<close>

fun commit_stage :: "string \<Rightarrow> pydict \<Rightarrow> string \<Rightarrow> pydict \<Rightarrow> nat \<Rightarrow> holding \<Rightarrow> holding" where
  "commit_stage eid receipt digest state 0 (j, p) = (j, p)"
| "commit_stage eid receipt digest state (Suc 0) (j, p) = (j @ [prepared_record (PStr eid) receipt], p)"
| "commit_stage eid receipt digest state (Suc (Suc 0)) (j, p) = (j @ [prepared_record (PStr eid) receipt], Some state)"
| "commit_stage eid receipt digest state (Suc (Suc (Suc _))) (j, p) =
     (j @ [prepared_record (PStr eid) receipt, committed_record (PStr eid) (PStr digest)], Some state)"

fun recover_stage :: "string \<Rightarrow> pydict \<Rightarrow> nat \<Rightarrow> holding \<Rightarrow> holding" where
  "recover_stage eid state 0 (j, p) = (j, p)"
| "recover_stage eid state (Suc 0) (j, p) = (j, Some state)"
| "recover_stage eid state (Suc (Suc _)) (j, p) = (j @ [recovered_record eid], Some state)"

text \<open>An operation of \<open>n\<close> durable steps: it returns \<open>n\<close> after all of them, a write error reports the steps taken, and an
  interruption may come anywhere.\<close>

definition staged :: "nat \<Rightarrow> (nat \<Rightarrow> 's \<Rightarrow> bool) \<Rightarrow> ('s, int) wrun \<Rightarrow> bool" where
  "staged n at r =
     (case r of
        Wrote c s \<Rightarrow> c = int n \<and> at n s
      | Refused e s \<Rightarrow> (\<exists>k < n. we_count e = int k \<and> we_status e = (if k = 0 then ''BLOCKED'' else ''PARTIAL'') \<and> at k s)
      | Escaped x s \<Rightarrow> (\<exists>k \<le> n. at k s)
      | Stopped s \<Rightarrow> (\<exists>k \<le> n. at k s))"

definition receipt_ok :: "pydict \<Rightarrow> string \<Rightarrow> string \<Rightarrow> bool" where
  "receipt_ok receipt eid digest = (key_sorted (PDict receipt) \<and> map_of receipt ''event_id'' = Some (PStr eid)
     \<and> map_of receipt ''receipt_digest'' = Some (PStr digest))"

locale release_writer =
  fixes R :: release_env and view :: "'s \<Rightarrow> holding \<Rightarrow> bool" and calm :: "'s \<Rightarrow> bool"
    and commit :: "'s commit_op" and inspect :: "string \<Rightarrow> 's \<Rightarrow> ('s, pydict list) wrun"
    and recover :: "string \<Rightarrow> pydict \<Rightarrow> 's \<Rightarrow> ('s, int) wrun"
  assumes commit_steps: "view s v \<Longrightarrow> receipt_ok receipt eid digest \<Longrightarrow>
      staged 3 (\<lambda>k s'. view s' (commit_stage eid receipt digest state k v)) (commit receipt state led proj s)"
    and commit_drift: "view s v \<Longrightarrow> preimages R v \<noteq> (led, proj) \<Longrightarrow>
      commit receipt state led proj s = refuse ''RELEASE_WRITER_PREIMAGE_DRIFT'' ''BLOCKED'' 0 s"
    and commit_calm: "view s v \<Longrightarrow> calm s \<Longrightarrow> preimages R v = (led, proj) \<Longrightarrow> receipt_ok receipt eid digest \<Longrightarrow>
      \<exists>s'. commit receipt state led proj s = Wrote 3 s' \<and> calm s'"
    and inspect_view: "view s v \<Longrightarrow> inspect eid s = Wrote (filter (about_event eid) (fst v)) s"
    and recover_refused: "view s v \<Longrightarrow> recoverable (filter (about_event eid) (fst v)) = Inr False \<Longrightarrow>
      recover eid state s = refuse ''RELEASE_RECOVERY_NOT_APPLICABLE'' ''BLOCKED'' 0 s"
    and recover_steps: "view s v \<Longrightarrow> recoverable (filter (about_event eid) (fst v)) = Inr True \<Longrightarrow>
      staged 2 (\<lambda>k s'. view s' (recover_stage eid state k v)) (recover eid state s)"
    and recover_calm: "view s v \<Longrightarrow> calm s \<Longrightarrow> recoverable (filter (about_event eid) (fst v)) = Inr True \<Longrightarrow>
      \<exists>s'. recover eid state s = Wrote 2 s' \<and> calm s'"

section \<open>The writer in memory keeps the contract\<close>

definition memory_view :: "memory_writer \<Rightarrow> holding \<Rightarrow> bool" where
  "memory_view m v = (v = (m_journal m, m_projection m))"

definition memory_calm :: "memory_writer \<Rightarrow> bool" where
  "memory_calm m = (m_fail m = [])"

lemma memory_preimages: "preimages R (m_journal m, m_projection m) = (memory_ledger_digest R m, memory_projection_digest R m)"
  by (simp add: preimages_def memory_ledger_digest_def memory_projection_digest_def split: option.split)

lemma staged_refuse:
  "k < n \<Longrightarrow> at k s \<Longrightarrow> status = (if k = 0 then ''BLOCKED'' else ''PARTIAL'') \<Longrightarrow> staged n at (refuse code status (int k) s)"
  by (auto simp: staged_def refuse_def)

lemmas staged_refused = staged_refuse [of 0 3, simplified] staged_refuse [of 1 3, simplified] staged_refuse [of 2 3, simplified]

lemma memory_commit_steps:
  assumes "receipt_ok receipt eid digest"
  shows "staged 3 (\<lambda>k m'. memory_view m' (commit_stage eid receipt digest state k (m_journal m, m_projection m)))
     (memory_commit R receipt state led proj m)"
proof -
  let ?at = "\<lambda>k m'. memory_view m' (commit_stage eid receipt digest state k (m_journal m, m_projection m))"
  let ?m1 = "m\<lparr>m_journal := m_journal m @ [prepared_record (PStr eid) receipt]\<rparr>"
  let ?m2 = "?m1\<lparr>m_projection := Some state\<rparr>"
  have at: "?at 0 m" "?at 1 ?m1" "?at 2 ?m2" by (simp_all add: memory_view_def numeral_2_eq_2)
  have done3: "staged 3 ?at (Wrote 3 (?m2\<lparr>m_journal := m_journal ?m2 @ [committed_record (PStr eid) (PStr digest)]\<rparr>))"
    by (simp add: staged_def memory_view_def numeral_3_eq_3)
  show ?thesis using assms at done3
    by (simp add: memory_commit_def staged_refused with_key_def receipt_ok_def Let_def)
qed

lemma memory_recover_steps:
  "recoverable (filter (about_event eid) (m_journal m)) = Inr True \<Longrightarrow>
     staged 2 (\<lambda>k m'. memory_view m' (recover_stage eid state k (m_journal m, m_projection m))) (memory_recover eid state m)"
  by (simp add: memory_recover_def staged_def memory_view_def numeral_2_eq_2)

interpretation memory: release_writer R memory_view memory_calm "memory_commit R" memory_inspect memory_recover
  for R :: release_env
proof unfold_locales
  fix s v receipt eid digest state led proj
  assume "memory_view s v" "receipt_ok receipt eid digest"
  then show "staged 3 (\<lambda>k s'. memory_view s' (commit_stage eid receipt digest state k v)) (memory_commit R receipt state led proj s)"
    using memory_commit_steps [of receipt eid digest state s R led proj] by (simp add: memory_view_def)
next
  fix s v eid and state :: pydict
  assume "memory_view s v" "recoverable (filter (about_event eid) (fst v)) = Inr True"
  then show "staged 2 (\<lambda>k s'. memory_view s' (recover_stage eid state k v)) (memory_recover eid state s)"
    using memory_recover_steps [of eid s state] by (simp add: memory_view_def)
qed (auto simp: memory_view_def memory_preimages memory_commit_def memory_inspect_def memory_recover_def memory_calm_def
  with_key_def receipt_ok_def Let_def)


section \<open>The writer on files keeps the contract\<close>

definition file_view :: "release_env \<Rightarrow> file_writer \<Rightarrow> world \<Rightarrow> holding \<Rightarrow> bool" where
  "file_view R fw w v =
     (writable (w_fs w) (fw_ledger fw) \<and> writable (w_fs w) (fw_projection fw)
      \<and> independent_paths (fw_ledger fw) (fw_projection fw)
      \<and> (case file_at (w_fs w) (fw_ledger fw) of None \<Rightarrow> [] | Some c \<Rightarrow> c) = concat (map (json_line R) (fst v))
      \<and> file_at (w_fs w) (fw_projection fw) = map_option (json_line R) (snd v)
      \<and> list_all (\<lambda>d. key_sorted (PDict d)) (fst v))"

definition file_calm :: "file_writer \<Rightarrow> world \<Rightarrow> bool" where
  "file_calm fw w = (fw_fail fw = [] \<and> quiet w)"

text \<open>A replacement of the file at \<open>p\<close> by \<open>v\<close>: it takes place, or it is interrupted before or after.\<close>

definition replaces :: "path \<Rightarrow> string option \<Rightarrow> world \<Rightarrow> (world, unit) wrun \<Rightarrow> bool" where
  "replaces p v w r =
     (case r of
        Wrote _ w' \<Rightarrow> changed p v w w' \<and> (quiet w \<longrightarrow> quiet w')
      | Refused _ _ \<Rightarrow> False
      | Escaped _ w' \<Rightarrow> \<not> quiet w \<and> (\<exists>v' \<in> {file_at (w_fs w) p, v}. changed p v' w w')
      | Stopped w' \<Rightarrow> \<not> quiet w \<and> (\<exists>v' \<in> {file_at (w_fs w) p, v}. changed p v' w w'))"

lemma replaces_lift: "store_outcome p v w r \<Longrightarrow> replaces p v w (wlift r)"
  by (cases r) (auto simp: store_outcome_def replaces_def)

lemma ensure_writable:
  "writable (w_fs w) p \<Longrightarrow> ensure_plain_directory (butlast p) w = Done () (w\<lparr>w_fs := mkdirs p (w_fs w)\<rparr>)"
  by (auto simp: ensure_plain_directory_def mkdirs_check writable_def plain_target_def)

lemma replace_writable: "writable (w_fs w) p \<Longrightarrow> replace_bytes p c w = write_atomic p c w"
  by (auto simp: replace_bytes_def write_atomic_def ensure_plain_directory_def mkdirs_check writable_def plain_target_def)

lemma target_bytes_writable:
  "writable (w_fs w) p \<Longrightarrow> target_bytes p w = Wrote (case file_at (w_fs w) p of None \<Rightarrow> [] | Some c \<Rightarrow> c) w"
  by (auto simp: target_bytes_def file_at_def writable_def plain_target_def split: option.splits node.splits)

lemma replace_after_mkdirs:
  assumes "writable (w_fs w) p"
  shows "replaces p (Some c) w (wlift (replace_bytes p c (w\<lparr>w_fs := mkdirs p (w_fs w)\<rparr>)))"
proof -
  let ?w = "w\<lparr>w_fs := mkdirs p (w_fs w)\<rparr>"
  have wr: "writable (w_fs ?w) p" using writable_mkdirs [of p p "w_fs w"] assms by simp
  then have "store_outcome p (Some c) ?w (replace_bytes p c ?w)"
    using write_atomic_outcome [OF wr] replace_writable [OF wr] by simp
  then have "store_outcome p (Some c) w (replace_bytes p c ?w)"
    by (rule store_outcome_trans [rotated 2]) (simp_all add: changed_mkdirs)
  then show ?thesis by (rule replaces_lift)
qed

lemma append_replaces:
  assumes "writable (w_fs w) p"
  shows "replaces p (Some ((case file_at (w_fs w) p of None \<Rightarrow> [] | Some c \<Rightarrow> c) @ json_line R d)) w (append_record R p d w)"
proof -
  have "writable (mkdirs p (w_fs w)) p" using writable_mkdirs [of p p "w_fs w"] assms by simp
  then show ?thesis
    using replace_after_mkdirs [OF assms] assms
    by (simp add: append_record_def ensure_writable target_bytes_writable)
qed

lemma projection_replaces:
  assumes "writable (w_fs w) p"
  shows "replaces p (Some (json_line R d)) w (write_projection R p d w)"
  using replace_after_mkdirs [OF assms] assms by (simp add: write_projection_def ensure_writable)

lemma view_ledger:
  assumes "file_view R fw w (j, p)" and "changed (fw_ledger fw) c w w'"
  shows "c = Some (concat (map (json_line R) j) @ json_line R d) \<Longrightarrow> key_sorted (PDict d) \<Longrightarrow> file_view R fw w' (j @ [d], p)"
    and "c = file_at (w_fs w) (fw_ledger fw) \<Longrightarrow> file_view R fw w' (j, p)"
  using assms by (auto simp: file_view_def changed_def independent_paths_def)

lemma view_projection:
  assumes "file_view R fw w (j, p)" and "changed (fw_projection fw) c w w'"
  shows "c = Some (json_line R d) \<Longrightarrow> file_view R fw w' (j, Some d)"
    and "c = file_at (w_fs w) (fw_projection fw) \<Longrightarrow> file_view R fw w' (j, p)"
  using assms independent_sym [of "fw_ledger fw" "fw_projection fw"]
  by (auto simp: file_view_def changed_def independent_paths_def)

text \<open>One durable step of a file writer, between two holdings.\<close>

definition file_step :: "release_env \<Rightarrow> file_writer \<Rightarrow> holding \<Rightarrow> holding \<Rightarrow> world \<Rightarrow> (world, unit) wrun \<Rightarrow> bool" where
  "file_step R fw v v' w r =
     (case r of
        Wrote _ w' \<Rightarrow> file_view R fw w' v' \<and> (quiet w \<longrightarrow> quiet w')
      | Refused _ _ \<Rightarrow> False
      | Escaped _ w' \<Rightarrow> \<not> quiet w \<and> (file_view R fw w' v \<or> file_view R fw w' v')
      | Stopped w' \<Rightarrow> \<not> quiet w \<and> (file_view R fw w' v \<or> file_view R fw w' v'))"

lemma append_step:
  assumes v: "file_view R fw w (j, p)" and d: "key_sorted (PDict d)"
  shows "file_step R fw (j, p) (j @ [d], p) w (append_record R (fw_ledger fw) d w)"
proof -
  have "replaces (fw_ledger fw) (Some (concat (map (json_line R) j) @ json_line R d)) w (append_record R (fw_ledger fw) d w)"
    using append_replaces [of w "fw_ledger fw" R d] v by (simp add: file_view_def)
  then show ?thesis using view_ledger [OF v] d unfolding file_step_def replaces_def
    by (cases "append_record R (fw_ledger fw) d w") auto
qed

lemma projection_step:
  assumes v: "file_view R fw w (j, p)"
  shows "file_step R fw (j, p) (j, Some d) w (write_projection R (fw_projection fw) d w)"
proof -
  have "replaces (fw_projection fw) (Some (json_line R d)) w (write_projection R (fw_projection fw) d w)"
    using projection_replaces v by (simp add: file_view_def)
  then show ?thesis using view_projection [OF v] unfolding file_step_def replaces_def
    by (cases "write_projection R (fw_projection fw) d w") auto
qed

text \<open>Sequencing: after \<open>k\<close> of \<open>n\<close> durable steps, one more and the rest.\<close>

lemma staged_bind:
  assumes "file_step R fw (at k) (at (Suc k)) w r" and "k < n"
    and "\<And>x w'. file_view R fw w' (at (Suc k)) \<Longrightarrow> staged n (\<lambda>i u. file_view R fw u (at i)) (f x w')"
  shows "staged n (\<lambda>i u. file_view R fw u (at i)) (wbind r f)"
  using assms by (cases r) (auto simp: file_step_def staged_def intro: less_imp_le Suc_leI)

lemma calm_bind:
  assumes "file_step R fw v v' w r" and "quiet w"
    and "\<And>x w'. file_view R fw w' v' \<Longrightarrow> quiet w' \<Longrightarrow> \<exists>w''. f x w' = Wrote n w'' \<and> quiet w''"
  shows "\<exists>w''. wbind r f = Wrote n w'' \<and> quiet w''"
  using assms by (cases r) (auto simp: file_step_def)


lemma file_commit_start:
  assumes "file_view R fw w v" and "receipt_ok receipt eid digest"
  shows "file_commit R fw receipt state led proj w =
     (if preimages R v \<noteq> (led, proj) then refuse ''RELEASE_WRITER_PREIMAGE_DRIFT'' ''BLOCKED'' 0 w
      else if fw_fail fw = ''append'' then refuse ''RELEASE_LEDGER_APPEND_FAILED'' ''BLOCKED'' 0 w
      else wbind (append_record R (fw_ledger fw) (prepared_record (PStr eid) receipt) w) (\<lambda>_ w.
        if fw_fail fw = ''projection'' then refuse ''RELEASE_PROJECTION_FAILED'' ''PARTIAL'' 1 w
        else wbind (write_projection R (fw_projection fw) state w) (\<lambda>_ w.
        if fw_fail fw = ''commit'' then refuse ''RELEASE_COMMIT_MARKER_FAILED'' ''PARTIAL'' 2 w
        else wbind (append_record R (fw_ledger fw) (committed_record (PStr eid) (PStr digest)) w) (\<lambda>_ w. Wrote 3 w))))"
proof -
  have "target_bytes (fw_ledger fw) w = Wrote (concat (map (json_line R) (fst v))) w"
    using assms(1) by (simp add: file_view_def target_bytes_writable)
  moreover have "target_bytes (fw_projection fw) w = Wrote (case snd v of None \<Rightarrow> [] | Some d \<Rightarrow> json_line R d) w"
    using assms(1) by (simp add: file_view_def target_bytes_writable split: option.split)
  moreover have "with_key receipt ''event_id'' u f = f (PStr eid)" "with_key receipt ''receipt_digest'' u f = f (PStr digest)"
    for u and f :: "pyval \<Rightarrow> (world, int) wrun" using assms(2) by (simp_all add: with_key_def receipt_ok_def)
  ultimately show ?thesis by (simp only: file_commit_def preimages_def wbind.simps)
qed

lemma records_sorted:
  "receipt_ok receipt eid digest \<Longrightarrow> key_sorted (PDict (prepared_record (PStr eid) receipt))"
  "key_sorted (PDict (committed_record (PStr eid) (PStr digest)))" "key_sorted (PDict (recovered_record eid))"
proof -
  have "''event_id'' < ''journal_state''" "''event_id'' < ''receipt''" "''event_id'' < ''receipt_digest''"
    "''journal_state'' < ''receipt''" "''journal_state'' < ''receipt_digest''" by code_simp+
  then show "receipt_ok receipt eid digest \<Longrightarrow> key_sorted (PDict (prepared_record (PStr eid) receipt))"
    "key_sorted (PDict (committed_record (PStr eid) (PStr digest)))" "key_sorted (PDict (recovered_record eid))"
    by (simp_all add: prepared_record_def committed_record_def recovered_record_def receipt_ok_def)
qed

lemma file_commit_drift:
  assumes "release_env_ok R \<and> file_view R fw w v" and "preimages R v \<noteq> (led, proj)"
  shows "file_commit R fw receipt state led proj w = refuse ''RELEASE_WRITER_PREIMAGE_DRIFT'' ''BLOCKED'' 0 w"
proof -
  have "target_bytes (fw_ledger fw) w = Wrote (concat (map (json_line R) (fst v))) w"
    using assms(1) by (simp add: file_view_def target_bytes_writable)
  moreover have "target_bytes (fw_projection fw) w = Wrote (case snd v of None \<Rightarrow> [] | Some d \<Rightarrow> json_line R d) w"
    using assms(1) by (simp add: file_view_def target_bytes_writable split: option.split)
  ultimately show ?thesis using assms(2) by (simp add: file_commit_def preimages_def)
qed

lemma file_commit_steps:
  assumes v: "file_view R fw w v" and ok: "receipt_ok receipt eid digest"
  shows "staged 3 (\<lambda>k w'. file_view R fw w' (commit_stage eid receipt digest state k v)) (file_commit R fw receipt state led proj w)"
proof -
  obtain j p where jp: "v = (j, p)" by (cases v)
  let ?at = "\<lambda>k. commit_stage eid receipt digest state k v"
  let ?j1 = "j @ [prepared_record (PStr eid) receipt]"
  have st: "?at 0 = (j, p)" "?at (Suc 0) = (?j1, p)" "?at (Suc (Suc 0)) = (?j1, Some state)"
    "?at (Suc (Suc (Suc 0))) = (?j1 @ [committed_record (PStr eid) (PStr digest)], Some state)" by (simp_all add: jp)
  have s1: "file_step R fw (?at 0) (?at (Suc 0)) w (append_record R (fw_ledger fw) (prepared_record (PStr eid) receipt) w)"
    unfolding st by (rule append_step) (use v jp records_sorted ok in simp_all)
  have s2: "file_step R fw (?at (Suc 0)) (?at (Suc (Suc 0))) u (write_projection R (fw_projection fw) state u)"
    if "file_view R fw u (?at (Suc 0))" for u using that unfolding st by (rule projection_step)
  have s3: "file_step R fw (?at (Suc (Suc 0))) (?at (Suc (Suc (Suc 0)))) u
      (append_record R (fw_ledger fw) (committed_record (PStr eid) (PStr digest)) u)"
    if "file_view R fw u (?at (Suc (Suc 0)))" for u
    using that records_sorted(2) unfolding st by (rule append_step)
  have fin: "staged 3 (\<lambda>i u. file_view R fw u (?at i)) (Wrote 3 u)" if "file_view R fw u (?at (Suc (Suc (Suc 0))))" for u
    using that by (simp add: staged_def numeral_3_eq_3)
  have r3: "staged 3 (\<lambda>i u. file_view R fw u (?at i))
      (wbind (append_record R (fw_ledger fw) (committed_record (PStr eid) (PStr digest)) u) (\<lambda>_ w. Wrote 3 w))"
    if "file_view R fw u (?at (Suc (Suc 0)))" for u
    by (rule staged_bind [where at = ?at, OF s3 [OF that]]) (simp_all add: fin)
  have r2: "staged 3 (\<lambda>i u. file_view R fw u (?at i)) (wbind (write_projection R (fw_projection fw) state u) (\<lambda>_ w.
        if fw_fail fw = ''commit'' then refuse ''RELEASE_COMMIT_MARKER_FAILED'' ''PARTIAL'' 2 w
        else wbind (append_record R (fw_ledger fw) (committed_record (PStr eid) (PStr digest)) w) (\<lambda>_ w. Wrote 3 w)))"
    if "file_view R fw u (?at (Suc 0))" for u
    by (rule staged_bind [where at = ?at, OF s2 [OF that]])
      (use r3 staged_refuse [of 2 3 "\<lambda>i u. file_view R fw u (?at i)"] in \<open>auto simp: numeral_2_eq_2\<close>)
  have r1: "staged 3 (\<lambda>i u. file_view R fw u (?at i))
      (wbind (append_record R (fw_ledger fw) (prepared_record (PStr eid) receipt) w) (\<lambda>_ w.
        if fw_fail fw = ''projection'' then refuse ''RELEASE_PROJECTION_FAILED'' ''PARTIAL'' 1 w
        else wbind (write_projection R (fw_projection fw) state w) (\<lambda>_ w.
        if fw_fail fw = ''commit'' then refuse ''RELEASE_COMMIT_MARKER_FAILED'' ''PARTIAL'' 2 w
        else wbind (append_record R (fw_ledger fw) (committed_record (PStr eid) (PStr digest)) w) (\<lambda>_ w. Wrote 3 w))))"
    by (rule staged_bind [where at = ?at, OF s1]) (use r2 staged_refuse [of 1 3 "\<lambda>i u. file_view R fw u (?at i)"] in auto)
  have "file_view R fw w (?at 0)" using v by (simp add: jp)
  then show ?thesis
    unfolding file_commit_start [OF v ok]
    using r1 staged_refuse [of 0 3 "\<lambda>i u. file_view R fw u (?at i)"] by auto
qed

lemma file_commit_calm:
  assumes v: "file_view R fw w v" and c: "file_calm fw w" and pre: "preimages R v = (led, proj)"
    and ok: "receipt_ok receipt eid digest"
  shows "\<exists>w'. file_commit R fw receipt state led proj w = Wrote 3 w' \<and> file_calm fw w'"
proof -
  obtain j p where jp: "v = (j, p)" by (cases v)
  have f: "fw_fail fw = []" and q: "quiet w" using c by (simp_all add: file_calm_def)
  note s1 = append_step [OF v [unfolded jp] records_sorted(1) [OF ok]]
  show ?thesis unfolding file_commit_start [OF v ok] file_calm_def using pre f
    by (auto intro!: calm_bind [OF s1 q] calm_bind [OF projection_step] calm_bind [OF append_step [OF _ records_sorted(2)]])
qed


lemma file_bytes_lines:
  assumes "release_env_ok R"
  shows "byte_lines (concat (map (json_line R) j)) = map (\<lambda>d. r_json R (PDict d)) j"
proof -
  have line: "byte_lines (l @ newline # rest) = l # byte_lines rest" if "newline \<notin> set l" "CHR 0x0D \<notin> set l" for l rest
    using that by (induction l) auto
  show ?thesis using assms by (induction j) (simp_all add: json_line_def line release_env_ok_def)
qed

lemma file_read_records:
  assumes "release_env_ok R"
  shows "list_all (\<lambda>d. key_sorted (PDict d)) j \<Longrightarrow>
    read_records R eid (map (\<lambda>d. r_json R (PDict d)) j) = Some (filter (about_event eid) j)"
  using assms by (induction j) (simp_all add: release_env_ok_def)

lemma file_inspect_view:
  assumes "release_env_ok R" and "file_view R fw w v"
  shows "file_inspect R fw eid w = Wrote (filter (about_event eid) (fst v)) w"
  using assms by (simp add: file_inspect_def file_view_def target_bytes_writable file_bytes_lines file_read_records)

lemma file_recover_start:
  assumes "release_env_ok R" and "file_view R fw w v" and "recoverable (filter (about_event eid) (fst v)) = Inr b"
  shows "file_recover R fw eid state w =
    (if \<not> b then refuse ''RELEASE_RECOVERY_NOT_APPLICABLE'' ''BLOCKED'' 0 w
     else wbind (write_projection R (fw_projection fw) state w) (\<lambda>_ w.
       wbind (append_record R (fw_ledger fw) (recovered_record eid) w) (\<lambda>_ w. Wrote 2 w)))"
  by (simp add: file_recover_def file_inspect_view [OF assms(1,2)] assms(3))

lemma file_recover_steps:
  assumes env: "release_env_ok R" and v: "file_view R fw w v"
    and ok: "recoverable (filter (about_event eid) (fst v)) = Inr True"
  shows "staged 2 (\<lambda>k w'. file_view R fw w' (recover_stage eid state k v)) (file_recover R fw eid state w)"
proof -
  obtain j p where jp: "v = (j, p)" by (cases v)
  let ?at = "\<lambda>k. recover_stage eid state k v"
  have st: "?at 0 = (j, p)" "?at (Suc 0) = (j, Some state)" "?at (Suc (Suc 0)) = (j @ [recovered_record eid], Some state)"
    by (simp_all add: jp)
  have s1: "file_step R fw (?at 0) (?at (Suc 0)) w (write_projection R (fw_projection fw) state w)"
    unfolding st using v by (intro projection_step) (simp add: jp)
  have s2: "file_step R fw (?at (Suc 0)) (?at (Suc (Suc 0))) u (append_record R (fw_ledger fw) (recovered_record eid) u)"
    if "file_view R fw u (?at (Suc 0))" for u
    using that records_sorted(3) unfolding st by (rule append_step)
  have r2: "staged 2 (\<lambda>i u. file_view R fw u (?at i))
      (wbind (append_record R (fw_ledger fw) (recovered_record eid) u) (\<lambda>_ w. Wrote 2 w))"
    if "file_view R fw u (?at (Suc 0))" for u
    by (rule staged_bind [where at = ?at, OF s2 [OF that]]) (simp_all add: staged_def numeral_2_eq_2)
  show ?thesis unfolding file_recover_start [OF env v ok]
    using staged_bind [where at = ?at and n = 2, OF s1] r2 by simp
qed

lemma file_recover_calm:
  assumes env: "release_env_ok R" and v: "file_view R fw w v" and c: "file_calm fw w"
    and ok: "recoverable (filter (about_event eid) (fst v)) = Inr True"
  shows "\<exists>w'. file_recover R fw eid state w = Wrote 2 w' \<and> file_calm fw w'"
proof -
  obtain j p where jp: "v = (j, p)" by (cases v)
  have q: "quiet w" "fw_fail fw = []" using c by (simp_all add: file_calm_def)
  show ?thesis unfolding file_recover_start [OF env v ok] file_calm_def using q
    by (auto intro!: calm_bind [OF projection_step [OF v [unfolded jp]]] calm_bind [OF append_step [OF _ records_sorted(3)]])
qed

text \<open>The contract holds in every environment that keeps its own.\<close>

definition file_holds :: "release_env \<Rightarrow> file_writer \<Rightarrow> world \<Rightarrow> holding \<Rightarrow> bool" where
  "file_holds R fw w v = (release_env_ok R \<and> file_view R fw w v)"

interpretation files_writer: release_writer R "file_holds R fw" "file_calm fw" "file_commit R fw" "file_inspect R fw"
  "file_recover R fw" for R :: release_env and fw :: file_writer
proof unfold_locales
  fix w v receipt eid digest state led proj
  assume v: "file_holds R fw w v" and ok: "receipt_ok receipt eid digest"
  then show "staged 3 (\<lambda>k w'. file_holds R fw w' (commit_stage eid receipt digest state k v)) (file_commit R fw receipt state led proj w)"
    using file_commit_steps [of R fw w v receipt eid digest state led proj] by (simp add: file_holds_def)
  show "\<exists>w'. file_commit R fw receipt state led proj w = Wrote 3 w' \<and> file_calm fw w'"
    if "file_calm fw w" and "preimages R v = (led, proj)"
    using file_commit_calm that v ok unfolding file_holds_def by blast
next
  fix w v eid and state :: pydict
  assume v: "file_holds R fw w v"
  show "file_inspect R fw eid w = Wrote (filter (about_event eid) (fst v)) w"
    using file_inspect_view v by (simp add: file_holds_def)
  show "file_recover R fw eid state w = refuse ''RELEASE_RECOVERY_NOT_APPLICABLE'' ''BLOCKED'' 0 w"
    if "recoverable (filter (about_event eid) (fst v)) = Inr False"
    using file_recover_start [of R fw w v eid False] v that by (simp add: file_holds_def)
  show "staged 2 (\<lambda>k w'. file_holds R fw w' (recover_stage eid state k v)) (file_recover R fw eid state w)"
    if "recoverable (filter (about_event eid) (fst v)) = Inr True"
    using file_recover_steps [of R fw w v eid state] v that by (simp add: file_holds_def)
  show "\<exists>w'. file_recover R fw eid state w = Wrote 2 w' \<and> file_calm fw w'"
    if "file_calm fw w" and "recoverable (filter (about_event eid) (fst v)) = Inr True"
    using file_recover_calm v that unfolding file_holds_def by blast
qed (rule file_commit_drift, simp_all only: file_holds_def)


section \<open>Applying and recovering, for any writer that keeps the contract\<close>

definition plan_stage :: "release_env \<Rightarrow> advance_plan \<Rightarrow> release_authorization \<Rightarrow> nat \<Rightarrow> holding \<Rightarrow> holding" where
  "plan_stage R plan auth =
     commit_stage (ev_id (rp_event plan)) (receipt_as_dict (provisional_receipt R plan auth))
       (tr_digest (provisional_receipt R plan auth)) (state_as_dict (the (rp_after plan)))"

definition stage_status :: "nat \<Rightarrow> string" where
  "stage_status k = (if k = 0 then ''BLOCKED'' else if k = 3 then ''PASS'' else ''PARTIAL'')"

text \<open>What an authorized application leaves: a prefix of the durable steps, and a receipt that reports its length.\<close>

definition applied :: "(nat \<Rightarrow> 's \<Rightarrow> bool) \<Rightarrow> ('s, transition_receipt) wrun \<Rightarrow> bool" where
  "applied at r =
     (case r of
        Wrote t s \<Rightarrow> (\<exists>k \<le> 3. tr_count t = int k \<and> tr_status t = stage_status k \<and> at k s)
      | Refused e s \<Rightarrow> False
      | Escaped x s \<Rightarrow> (\<exists>k \<le> 3. at k s)
      | Stopped s \<Rightarrow> (\<exists>k \<le> 3. at k s))"

lemma build_receipt_sel [simp]:
  "tr_status (build_receipt R st de plan au er n) = st" "tr_count (build_receipt R st de plan au er n) = n"
  "tr_event (build_receipt R st de plan au er n) = ev_id (rp_event plan)"
  "tr_error (build_receipt R st de plan au er n) = er" "tr_decision (build_receipt R st de plan au er n) = de"
  by (simp_all add: build_receipt_def Let_def)

lemma provisional_status: "tr_status (provisional_receipt R plan auth) = ''PASS''"
  by (simp add: provisional_receipt_def)

lemma receipt_ok_dict: "receipt_ok (receipt_as_dict t) (tr_event t) (tr_digest t)"
proof -
  have "map fst (receipt_as_dict t) = [''action'', ''after_state_digest'', ''authorization_digest'', ''before_state_digest'',
      ''decision'', ''error_code'', ''event_id'', ''kind'', ''mutation_count'', ''plan_digest'', ''receipt_digest'',
      ''schema_version'', ''status'']" by (simp add: receipt_as_dict_def receipt_payload_def)
  moreover have "sorted_wrt (<) [''action'', ''after_state_digest'', ''authorization_digest'', ''before_state_digest'',
      ''decision'', ''error_code'', ''event_id'', ''kind'', ''mutation_count'', ''plan_digest'', ''receipt_digest'',
      ''schema_version'', ''status'']" by code_simp
  moreover have "list_all (\<lambda>(k, v). key_sorted v) (receipt_as_dict t)" "map_of (receipt_as_dict t) ''event_id'' = Some (PStr (tr_event t))"
    "map_of (receipt_as_dict t) ''receipt_digest'' = Some (PStr (tr_digest t))"
    by (simp_all add: receipt_as_dict_def receipt_payload_def)
  ultimately show ?thesis unfolding receipt_ok_def key_sorted.simps by (simp only: simp_thms)
qed

lemma applied_staged:
  assumes "staged 3 at r" and "tr_status t = ''PASS''"
  shows "applied at (case r of
             Wrote n s' \<Rightarrow> Wrote (t\<lparr>tr_count := n\<rparr>) s'
           | Refused e s' \<Rightarrow> Wrote (build_receipt R (we_status e) ''BLOCKED'' plan au (we_code e) (we_count e)) s'
           | Escaped x s' \<Rightarrow> Escaped x s'
           | Stopped s' \<Rightarrow> Stopped s')"
proof (cases r)
  case (Refused e s)
  then obtain k where "k < 3" "we_count e = int k" "we_status e = (if k = 0 then ''BLOCKED'' else ''PARTIAL'')" "at k s"
    using assms(1) by (auto simp: staged_def)
  then have "k \<le> 3 \<and> we_count e = int k \<and> we_status e = stage_status k \<and> at k s" by (simp add: stage_status_def)
  then show ?thesis by (auto simp: Refused applied_def)
qed (use assms in \<open>auto simp: applied_def staged_def stage_status_def\<close>)

context release_writer begin

lemma apply_steps:
  assumes v: "view s v" and auth: "authorization_error R plan auth fresh now = Inr []"
  shows "applied (\<lambda>k s'. view s' (plan_stage R plan auth k v)) (apply_release_advance R commit plan auth fresh now s)"
proof -
  let ?t = "provisional_receipt R plan auth"
  have ok: "receipt_ok (receipt_as_dict ?t) (ev_id (rp_event plan)) (tr_digest ?t)"
    using receipt_ok_dict [of ?t] by (simp add: provisional_receipt_def)
  show ?thesis
    using applied_staged [OF commit_steps [OF v ok, of "state_as_dict (the (rp_after plan))" "n_ledger fresh" "n_projection fresh"],
        of ?t R plan "ra_digest auth"] auth
    by (simp add: apply_release_advance_def plan_stage_def provisional_status)
qed

lemma apply_calm:
  assumes v: "view s v" and c: "calm s" and auth: "authorization_error R plan auth fresh now = Inr []"
    and pre: "preimages R v = (n_ledger fresh, n_projection fresh)"
  shows "\<exists>s'. apply_release_advance R commit plan auth fresh now s = Wrote (provisional_receipt R plan auth) s'
     \<and> view s' (plan_stage R plan auth 3 v) \<and> calm s'"
proof -
  let ?t = "provisional_receipt R plan auth"
  have ok: "receipt_ok (receipt_as_dict ?t) (ev_id (rp_event plan)) (tr_digest ?t)"
    using receipt_ok_dict [of ?t] by (simp add: provisional_receipt_def)
  have three: "?t\<lparr>tr_count := 3\<rparr> = ?t" by (simp add: provisional_receipt_def build_receipt_def Let_def)
  show ?thesis
    using commit_steps [OF v ok, of "state_as_dict (the (rp_after plan))" "n_ledger fresh" "n_projection fresh"]
      commit_calm [OF v c pre ok, of "state_as_dict (the (rp_after plan))"] auth three
    by (auto simp: apply_release_advance_def staged_def plan_stage_def)
qed

lemma recover_run:
  assumes v: "view s v" and c: "calm s" and auth: "recovery_error R plan auth fresh now = Inr []"
    and rec: "recoverable (filter (about_event (ev_id (rp_event plan))) (fst v)) = Inr True"
  shows "\<exists>t s'. recover_release_transition R recover plan auth fresh now s = Wrote t s' \<and> tr_status t = ''RECOVERED''
     \<and> tr_count t = 2 \<and> view s' (recover_stage (ev_id (rp_event plan)) (state_as_dict (the (rp_after plan))) 2 v) \<and> calm s'"
  using recover_calm [OF v c rec, of "state_as_dict (the (rp_after plan))"]
    recover_steps [OF v rec, of "state_as_dict (the (rp_after plan))"] auth
  by (auto simp: recover_release_transition_def staged_def)

lemma recover_once:
  assumes v: "view s v" and auth: "recovery_error R plan auth fresh now = Inr []"
    and rec: "recoverable (filter (about_event (ev_id (rp_event plan))) (fst v)) = Inr False"
  shows "\<exists>t. recover_release_transition R recover plan auth fresh now s = Wrote t s \<and> tr_status t = ''BLOCKED''
     \<and> tr_error t = ''RELEASE_RECOVERY_NOT_APPLICABLE'' \<and> tr_count t = 0"
  using recover_refused [OF v rec] auth by (simp add: recover_release_transition_def refuse_def)

lemma inspection:
  assumes "view s v"
  shows "inspect_release_journal R inspect eid s = Wrote
     ((''inspection_digest'', PStr (canonical_digest R (PDict (inspection_payload eid (filter (about_event eid) (fst v))))))
        # inspection_payload eid (filter (about_event eid) (fst v))) s"
  using inspect_view [OF assms] by (simp add: inspect_release_journal_def Let_def)

end

section \<open>The journal of one event\<close>

lemma about_records [simp]:
  "about_event eid (prepared_record (PStr e) r)  \<longleftrightarrow> e = eid" "about_event eid (committed_record (PStr e) d) \<longleftrightarrow> e = eid"
  "about_event eid (recovered_record e) \<longleftrightarrow> e = eid"
  by (simp_all add: about_event_def prepared_record_def committed_record_def recovered_record_def dget_def)

lemma states_of_records [simp]:
  "dget (prepared_record e r) ''journal_state'' = PStr ''PREPARED''" "dget (committed_record e d) ''journal_state'' = PStr ''COMMITTED''"
  "dget (recovered_record i) ''journal_state'' = PStr ''RECOVERED''"
  by (simp_all add: prepared_record_def committed_record_def recovered_record_def dget_def)

lemma stage_journal:
  assumes "filter (about_event (ev_id (rp_event plan))) (fst v) = []"
  shows "filter (about_event (ev_id (rp_event plan))) (fst (plan_stage R plan auth k v)) = take (if k = 2 then 1 else if k = 3 then 2 else k)
    [prepared_record (PStr (ev_id (rp_event plan))) (receipt_as_dict (provisional_receipt R plan auth)),
     committed_record (PStr (ev_id (rp_event plan))) (PStr (tr_digest (provisional_receipt R plan auth)))]"
  using assms
  by (cases v; cases "(ev_id (rp_event plan), receipt_as_dict (provisional_receipt R plan auth),
     tr_digest (provisional_receipt R plan auth), state_as_dict (the (rp_after plan)), k, v)" rule: commit_stage.cases)
    (simp_all add: plan_stage_def)


lemma event_journal:
  assumes "filter (about_event (ev_id (rp_event plan))) (fst v) = []" and "k \<le> 3"
  shows "recoverable (filter (about_event (ev_id (rp_event plan))) (fst (plan_stage R plan auth k v))) = Inr (k = 1 \<or> k = 2)"
    and "journal_status (filter (about_event (ev_id (rp_event plan))) (fst (plan_stage R plan auth k v)))
      = (if k = 0 then ''ABSENT'' else if k = 3 then ''PASS'' else ''PARTIAL'')"
proof -
  have "k \<in> {0, 1, 2, 3}" using assms(2) by auto
  then show "recoverable (filter (about_event (ev_id (rp_event plan))) (fst (plan_stage R plan auth k v))) = Inr (k = 1 \<or> k = 2)"
    unfolding stage_journal [OF assms(1)] by (auto simp: recoverable_def)
  show "journal_status (filter (about_event (ev_id (rp_event plan))) (fst (plan_stage R plan auth k v)))
      = (if k = 0 then ''ABSENT'' else if k = 3 then ''PASS'' else ''PARTIAL'')"
    using \<open>k \<in> {0, 1, 2, 3}\<close> unfolding stage_journal [OF assms(1)] by (auto simp: journal_status_def)
qed

lemma recovered_journal:
  assumes "filter (about_event (ev_id (rp_event plan))) (fst v) = []" and "k = 1 \<or> k = 2"
  shows "filter (about_event (ev_id (rp_event plan))) (fst (recover_stage (ev_id (rp_event plan)) state 2 (plan_stage R plan auth k v)))
    = [prepared_record (PStr (ev_id (rp_event plan))) (receipt_as_dict (provisional_receipt R plan auth)),
       recovered_record (ev_id (rp_event plan))]"
proof -
  have "fst (recover_stage eid state 2 h) = fst h @ [recovered_record eid]" for eid h by (cases h) (simp add: numeral_2_eq_2)
  then show ?thesis using stage_journal [OF assms(1), of R auth k] assms(2) by auto
qed

section \<open>What applying and recovering guarantee\<close>

text \<open>C1: Write-ahead order under interruption. Whatever the fault schedule and the planned failure point, an authorized
  application on files leaves the journal and the projection at one of four points: unchanged; the PREPARED record
  appended; the projection replaced as well; the COMMITTED record appended as well. A receipt, when one is
  returned, reports the number of steps taken, and says PASS only when all three were.\<close>

theorem release_apply_write_ahead:
  assumes "release_env_ok R" and "file_view R fw w v" and "authorization_error R plan auth fresh now = Inr []"
  shows "applied (\<lambda>k w'. file_view R fw w' (plan_stage R plan auth k v))
     (apply_release_advance R (file_commit R fw) plan auth fresh now w)"
  using files_writer.apply_steps [of R fw w v plan auth fresh now] assms by (simp add: file_holds_def)

lemma let_ok_Inl: "let_ok r f = Inl e \<longleftrightarrow> r = Inl e \<or> (\<exists>x. r = Inr x \<and> f x = Inl e)"
  by (cases r) auto

text \<open>What an authority for a plan is: the plan passed, the authorization names its digest, its predecessor state, its source, its action and its
  event, the time is within its window, and the snapshot is clean and the planned one.\<close>

definition release_authority :: "release_env \<Rightarrow> advance_plan \<Rightarrow> release_authorization \<Rightarrow> release_snapshot \<Rightarrow> int \<Rightarrow> bool" where
  "release_authority R plan auth fresh now =
     (rp_decision plan = ''PASS'' \<and> rp_after plan \<noteq> None \<and> ra_plan auth = rp_digest plan
      \<and> ra_before auth = s_digest (rp_before plan) \<and> ra_source auth = s_source (rp_before plan)
      \<and> ra_action auth = ev_action (rp_event plan) \<and> ra_event auth = ev_id (rp_event plan)
      \<and> (\<exists>issued expires. parse_timestamp R ''RELEASE_AUTHORIZATION_TIME_INVALID'' (PStr (ra_issued auth)) = Inr issued
          \<and> parse_timestamp R ''RELEASE_AUTHORIZATION_TIME_INVALID'' (PStr (ra_expires auth)) = Inr expires \<and> issued \<le> now \<and> now < expires)
      \<and> snapshot_digest R fresh = snapshot_digest R (rp_snapshot plan) \<and> n_status fresh = ''clean'')"

text \<open>C21: No change without authority. However an application ends, with a receipt, with an exception that escapes from the writer or stopped in
  the middle: if it changed the store, or returned anything but a BLOCKED receipt, or was stopped, there was an authority for the plan. Without
  one the store is as it was, and the answer is a BLOCKED receipt that counts no write or the exception of an unreadable time.\<close>

theorem release_apply_authorized:
  "case apply_release_advance R commit plan auth fresh now s of
      Wrote t s' \<Rightarrow> release_authority R plan auth fresh now \<or> s' = s \<and> tr_status t = ''BLOCKED'' \<and> tr_count t = 0
    | Escaped e s' \<Rightarrow> release_authority R plan auth fresh now
        \<or> s' = s \<and> (\<exists>at\<in>{ra_issued auth, ra_expires auth}. parse_timestamp R ''RELEASE_AUTHORIZATION_TIME_INVALID'' (PStr at) = Inl e)
    | Stopped s' \<Rightarrow> release_authority R plan auth fresh now
    | Refused e s' \<Rightarrow> False"
proof (cases "authorization_error R plan auth fresh now = Inr []")
  case True
  then have "release_authority R plan auth fresh now"
    by (auto simp: release_authority_def authorization_error_def scope_mismatch_def in_window_def let_ok_Inr split: if_splits)
  then show ?thesis by (auto simp: apply_release_advance_def True split: wrun.splits)
next
  case False
  have late: "in_window R auth now = Inl e \<Longrightarrow>
      \<exists>at\<in>{ra_issued auth, ra_expires auth}. parse_timestamp R ''RELEASE_AUTHORIZATION_TIME_INVALID'' (PStr at) = Inl e" for e
    by (auto simp: in_window_def let_ok_Inl split: if_splits)
  show ?thesis
  proof (cases "authorization_error R plan auth fresh now")
    case (Inl e)
    then have "in_window R auth now = Inl e" by (auto simp: authorization_error_def let_ok_Inl split: if_splits)
    then show ?thesis using late by (simp add: apply_release_advance_def Inl)
  next
    case (Inr error)
    then show ?thesis using False by (simp add: apply_release_advance_def build_receipt_def)
  qed
qed

text \<open>C8: Recovery after an interruption. When an authorized application on files was cut short after the PREPARED record,
  whether or not the projection was replaced, the journal is diagnosed PARTIAL, an authorized recovery without
  further faults returns a RECOVERED receipt, leaves the projection at the planned state and closes the journal, which
  is then diagnosed RECOVERED; and a second recovery is refused and changes nothing.\<close>

theorem release_recovery_completes:
  assumes "release_env_ok R" and "file_view R fw w (plan_stage R plan auth k v)" and "k = 1 \<or> k = 2"
    and "filter (about_event (ev_id (rp_event plan))) (fst v) = []"
    and "file_calm fw w" and "recovery_error R plan auth' fresh now = Inr []"
  shows "journal_status (filter (about_event (ev_id (rp_event plan))) (fst (plan_stage R plan auth k v))) = ''PARTIAL''
    \<and> (\<exists>t w' v'. recover_release_transition R (file_recover R fw) plan auth' fresh now w = Wrote t w'
        \<and> tr_status t = ''RECOVERED'' \<and> file_view R fw w' v' \<and> snd v' = Some (state_as_dict (the (rp_after plan)))
        \<and> journal_status (filter (about_event (ev_id (rp_event plan))) (fst v')) = ''RECOVERED''
        \<and> (\<exists>t'. recover_release_transition R (file_recover R fw) plan auth' fresh now w' = Wrote t' w'
            \<and> tr_status t' = ''BLOCKED'' \<and> tr_error t' = ''RELEASE_RECOVERY_NOT_APPLICABLE''))"
proof -
  let ?eid = "ev_id (rp_event plan)" and ?st = "state_as_dict (the (rp_after plan))"
  let ?v = "plan_stage R plan auth k v"
  let ?v' = "recover_stage ?eid ?st 2 ?v"
  have holds: "file_holds R fw w ?v" using assms(1,2) by (simp add: file_holds_def)
  have k: "k \<le> 3" "k \<noteq> 0" "k \<noteq> 3" using assms(3) by auto
  have rec: "recoverable (filter (about_event ?eid) (fst ?v)) = Inr True"
    using event_journal(1) [OF assms(4) k(1)] assms(3) by simp
  obtain t w' where r: "recover_release_transition R (file_recover R fw) plan auth' fresh now w = Wrote t w'"
    and t: "tr_status t = ''RECOVERED''" and h': "file_holds R fw w' ?v'"
    using files_writer.recover_run [OF holds assms(5,6) rec] by blast
  note j' = recovered_journal [OF assms(4,3), of ?st R auth]
  have "recoverable (filter (about_event ?eid) (fst ?v')) = Inr False" unfolding j' by (simp add: recoverable_def)
  then obtain t' where "recover_release_transition R (file_recover R fw) plan auth' fresh now w' = Wrote t' w'"
    "tr_status t' = ''BLOCKED''" "tr_error t' = ''RELEASE_RECOVERY_NOT_APPLICABLE''"
    using files_writer.recover_once [OF h' assms(6)] by blast
  moreover have "snd ?v' = Some ?st" by (cases ?v) (simp add: numeral_2_eq_2)
  moreover have "journal_status (filter (about_event ?eid) (fst ?v')) = ''RECOVERED''"
    unfolding j' by (simp add: journal_status_def)
  moreover have "journal_status (filter (about_event ?eid) (fst ?v)) = ''PARTIAL''"
    using event_journal(2) [OF assms(4) k(1)] k by simp
  ultimately show ?thesis using r t h' unfolding file_holds_def by blast
qed


section \<open>The file writer refines the writer in memory\<close>

text \<open>Two outcomes agree when they are of the same kind, carry the same value or error, and leave the same holdings.\<close>

definition agrees :: "release_env \<Rightarrow> file_writer \<Rightarrow> (world, 'a) wrun \<Rightarrow> (memory_writer, 'a) wrun \<Rightarrow> bool" where
  "agrees R fw r q =
     (let same = (\<lambda>w m. file_view R fw w (m_journal m, m_projection m) \<and> quiet w) in
      case (r, q) of
        (Wrote x w, Wrote y m) \<Rightarrow> x = y \<and> same w m
      | (Refused e w, Refused f m) \<Rightarrow> e = f \<and> same w m
      | (Escaped e w, Escaped f m) \<Rightarrow> e = f \<and> same w m
      | _ \<Rightarrow> False)"

lemma agrees_bind:
  assumes "file_step R fw v v' w r" and "quiet w"
    and "\<And>x w'. file_view R fw w' v' \<Longrightarrow> quiet w' \<Longrightarrow> agrees R fw (f x w') q"
  shows "agrees R fw (wbind r f) q"
  using assms by (cases r) (auto simp: file_step_def)

lemma agrees_refuse:
  "file_view R fw w (m_journal m, m_projection m) \<Longrightarrow> quiet w \<Longrightarrow> agrees R fw (refuse c st n w) (refuse c st n m)"
  by (simp add: agrees_def refuse_def)

lemma memory_commit_start:
  assumes "receipt_ok receipt eid digest"
  shows "memory_commit R receipt state led proj m =
     (if preimages R (m_journal m, m_projection m) \<noteq> (led, proj) then refuse ''RELEASE_WRITER_PREIMAGE_DRIFT'' ''BLOCKED'' 0 m
      else if m_fail m = ''append'' then refuse ''RELEASE_LEDGER_APPEND_FAILED'' ''BLOCKED'' 0 m
      else let m1 = m\<lparr>m_journal := m_journal m @ [prepared_record (PStr eid) receipt]\<rparr> in
        if m_fail m = ''projection'' then refuse ''RELEASE_PROJECTION_FAILED'' ''PARTIAL'' 1 m1
        else let m2 = m1\<lparr>m_projection := Some state\<rparr> in
        if m_fail m = ''commit'' then refuse ''RELEASE_COMMIT_MARKER_FAILED'' ''PARTIAL'' 2 m2
        else Wrote 3 (m2\<lparr>m_journal := m_journal m2 @ [committed_record (PStr eid) (PStr digest)]\<rparr>))"
proof -
  have "with_key receipt ''event_id'' u f = f (PStr eid)" "with_key receipt ''receipt_digest'' u f = f (PStr digest)"
    for u and f :: "pyval \<Rightarrow> (memory_writer, int) wrun" using assms by (simp_all add: with_key_def receipt_ok_def)
  then show ?thesis by (simp only: memory_commit_def memory_preimages Let_def)
qed

lemma commit_agrees:
  assumes v: "file_view R fw w (m_journal m, m_projection m)" and q: "quiet w" and f: "m_fail m = fw_fail fw"
    and ok: "receipt_ok receipt eid digest"
  shows "agrees R fw (file_commit R fw receipt state led proj w) (memory_commit R receipt state led proj m)"
proof -
  note s1 = append_step [OF v records_sorted(1) [OF ok]]
  show ?thesis
    unfolding file_commit_start [OF v ok] memory_commit_start [OF ok] f Let_def
    by (auto intro!: agrees_refuse v q agrees_bind [OF s1 q] agrees_bind [OF projection_step]
        agrees_bind [OF append_step [OF _ records_sorted(2)]])
      (simp_all add: agrees_def)
qed

lemma recover_agrees:
  assumes env: "release_env_ok R" and v: "file_view R fw w (m_journal m, m_projection m)" and q: "quiet w"
  shows "agrees R fw (file_recover R fw eid state w) (memory_recover eid state m)"
proof (cases "recoverable (filter (about_event eid) (m_journal m))")
  case (Inl e)
  then show ?thesis using v q by (simp add: file_recover_def file_inspect_view [OF env v] memory_recover_def agrees_def)
next
  case (Inr b)
  then show ?thesis
    unfolding file_recover_start [OF env v, unfolded fst_conv, OF Inr] memory_recover_def
    by (auto intro!: agrees_refuse v q agrees_bind [OF projection_step [OF v] q] agrees_bind [OF append_step [OF _ records_sorted(3)]])
      (simp_all add: agrees_def)
qed

text \<open>C9: The file writer refines the writer in memory. Without faults, from equal holdings and with the same planned failure
  point, each operation of the file writer ends like the operation of the in-memory writer, with the same value or the
  same error, and leaves equal holdings: what is observed with the in-memory writer holds for the files.\<close>

theorem file_writer_refines_memory:
  assumes "release_env_ok R" and "file_view R fw w (m_journal m, m_projection m)" and "quiet w" and "m_fail m = fw_fail fw"
    and "receipt_ok receipt eid digest"
  shows "agrees R fw (file_commit R fw receipt state led proj w) (memory_commit R receipt state led proj m)
    \<and> agrees R fw (file_inspect R fw event w) (memory_inspect event m)
    \<and> agrees R fw (file_recover R fw event state w) (memory_recover event state m)"
proof -
  have "agrees R fw (file_inspect R fw event w) (memory_inspect event m)"
    using file_inspect_view [OF assms(1,2)] assms(2,3) by (simp add: memory_inspect_def agrees_def)
  then show ?thesis using commit_agrees [OF assms(2-5)] recover_agrees [OF assms(1-3)] by blast
qed


section \<open>Examples\<close>

definition files0 :: file_writer where
  "files0 = \<lparr>fw_ledger = [''release'', ''ledger.jsonl''], fw_projection = [''release'', ''state.json''], fw_fail = []\<rparr>"

definition empty_world :: "fault list \<Rightarrow> world" where
  "empty_world faults = \<lparr>w_fs = (\<lambda>_. None), w_gen = (\<lambda>_. 0), w_locked = False, w_faults = faults\<rparr>"

lemma empty_view: "file_view R files0 (empty_world faults) ([], None)"
proof -
  have "\<not> list_ex unsafe_part [''release'', ''ledger.jsonl'']" "\<not> list_ex unsafe_part [''release'', ''state.json'']"
    "\<not> prefix [''release'', ''ledger.jsonl''] [''release'', ''state.json'']"
    "\<not> prefix [''release'', ''state.json''] [''release'', ''ledger.jsonl'']" by code_simp+
  then show ?thesis
    by (simp add: file_view_def files0_def empty_world_def writable_def plain_target_def independent_paths_def file_at_def)
qed

lemma plan_parts:
  "plan_release_advance R s e n codes = Inr p \<Longrightarrow> rp_before p = s \<and> rp_event p = e \<and> rp_snapshot p = n"
  by (cases "plan_risk R (ev_id e) codes") (auto simp: plan_release_advance_def let_ok_Inr Let_def)

text \<open>A passing plan with its authorization, for chosen preimages.\<close>

lemma release_authorized0:
  "\<exists>plan auth fresh. authorization_error release_env0 plan auth (rp_snapshot plan) 2027 = Inr []
     \<and> recovery_error release_env0 plan auth fresh 2027 = Inr []
     \<and> n_ledger (rp_snapshot plan) = l \<and> n_projection (rp_snapshot plan) = k"
proof -
  obtain s e p t where p: "plan_release_advance release_env0 s e (snapshot_for s l k) None = Inr p" and t: "rp_after p = Some t"
    using release_step0 [of l k] by blast
  have pass: "rp_decision p = ''PASS''" using plan_pass_iff(2) [OF p] t by (auto split: if_splits)
  define auth where "auth = \<lparr>ra_id = ''AUTH'', ra_ref = ''process/auth.json'', ra_action = ev_action e, ra_event = ev_id e,
     ra_plan = rp_digest p, ra_before = s_digest s, ra_source = s_source s, ra_issued = ''2026-01-01T00:00:00+00:00'',
     ra_expires = ''2030-01-01T00:00:00+00:00'', ra_digest = digest_of CHR ''9''\<rparr>"
  have "parse_timestamp release_env0 ''RELEASE_AUTHORIZATION_TIME_INVALID'' (PStr ''2026-01-01T00:00:00+00:00'') = Inr 2026"
    "parse_timestamp release_env0 ''RELEASE_AUTHORIZATION_TIME_INVALID'' (PStr ''2030-01-01T00:00:00+00:00'') = Inr 2030"
    by code_simp+
  then have "in_window release_env0 auth 2027 = Inr True" by (simp add: in_window_def auth_def)
  then have "authorization_error release_env0 p auth (rp_snapshot p) 2027 = Inr []"
    "recovery_error release_env0 p auth (snapshot_for s l k\<lparr>n_status := ''partial''\<rparr>) 2027 = Inr []"
    using plan_parts [OF p] pass t
    by (simp_all add: authorization_error_def recovery_error_def scope_mismatch_def auth_def snapshot_for_def Let_def)
  then show ?thesis using plan_parts [OF p] by (force simp: snapshot_for_def)
qed

theorem release_apply_write_ahead_witness:
  "\<exists>plan auth. applied (\<lambda>k w'. file_view release_env0 files0 w' (plan_stage release_env0 plan auth k ([], None)))
     (apply_release_advance release_env0 (file_commit release_env0 files0) plan auth (rp_snapshot plan) 2027
        (empty_world [No_Fault, Crash_After]))"
  using release_authorized0 release_apply_write_ahead [OF release_env0_ok empty_view] by blast

lemma release_applied0:
  "\<exists>plan auth fresh w w'. authorization_error release_env0 plan auth (rp_snapshot plan) 2027 = Inr []
     \<and> recovery_error release_env0 plan auth fresh 2027 = Inr []
     \<and> apply_release_advance release_env0 (file_commit release_env0 files0) plan auth (rp_snapshot plan) 2027 w
        = Wrote (provisional_receipt release_env0 plan auth) w'"
proof -
  obtain plan auth fresh where a: "authorization_error release_env0 plan auth (rp_snapshot plan) 2027 = Inr []"
    and r: "recovery_error release_env0 plan auth fresh 2027 = Inr []"
    and n: "preimages release_env0 ([], None) = (n_ledger (rp_snapshot plan), n_projection (rp_snapshot plan))"
    using release_authorized0 [of "fst (preimages release_env0 ([], None))" "snd (preimages release_env0 ([], None))"]
    by (metis prod.collapse)
  have "file_holds release_env0 files0 (empty_world []) ([], None)" using empty_view release_env0_ok by (simp add: file_holds_def)
  moreover have "file_calm files0 (empty_world [])" by (simp add: file_calm_def files0_def quiet_def empty_world_def)
  ultimately show ?thesis using files_writer.apply_calm [OF _ _ a n] a r by blast
qed

text \<open>A projection file left by an interrupted application: the ledger holds the PREPARED record only.\<close>

definition interrupted_world :: "release_env \<Rightarrow> advance_plan \<Rightarrow> release_authorization \<Rightarrow> world" where
  "interrupted_world R plan auth = (empty_world [])\<lparr>w_fs := (\<lambda>_. None)([''release''] \<mapsto> Dir,
     [''release'', ''ledger.jsonl''] \<mapsto> File (json_line R (prepared_record (PStr (ev_id (rp_event plan)))
       (receipt_as_dict (provisional_receipt R plan auth)))))\<rparr>"

theorem release_recovery_completes_witness:
  "\<exists>plan auth fresh t w'. recover_release_transition release_env0 (file_recover release_env0 files0) plan auth fresh 2027
      (interrupted_world release_env0 plan auth) = Wrote t w' \<and> tr_status t = ''RECOVERED''"
proof -
  obtain plan auth fresh where r: "recovery_error release_env0 plan auth fresh 2027 = Inr []" using release_authorized0 by blast
  let ?w = "interrupted_world release_env0 plan auth"
  let ?d = "prepared_record (PStr (ev_id (rp_event plan))) (receipt_as_dict (provisional_receipt release_env0 plan auth))"
  have stage: "plan_stage release_env0 plan auth 1 ([], None) = ([?d], None)" by (simp add: plan_stage_def)
  have parts: "\<not> list_ex unsafe_part [''release'', ''ledger.jsonl'']" "\<not> list_ex unsafe_part [''release'', ''state.json'']"
    "\<not> prefix [''release'', ''ledger.jsonl''] [''release'', ''state.json'']"
    "\<not> prefix [''release'', ''state.json''] [''release'', ''ledger.jsonl'']" by code_simp+
  have neq: "[''release'', ''state.json''] \<noteq> [''release'', ''ledger.jsonl'']" by code_simp
  have take1: "take n [''release'', x] = [''release'']" if "0 < n" "n < 2" for n x using that by (cases n) auto
  have sorted: "key_sorted (PDict ?d)"
    using records_sorted(1) receipt_ok_dict [of "provisional_receipt release_env0 plan auth"] by (simp add: provisional_receipt_def)
  have "file_view release_env0 files0 ?w (plan_stage release_env0 plan auth 1 ([], None))"
    unfolding stage file_view_def using parts neq take1 sorted
    by (simp add: interrupted_world_def files0_def empty_world_def writable_def plain_target_def independent_paths_def file_at_def
        json_line_def)
  moreover have "file_calm files0 ?w" by (simp add: file_calm_def files0_def quiet_def empty_world_def interrupted_world_def)
  ultimately obtain t w' where "recover_release_transition release_env0 (file_recover release_env0 files0) plan auth fresh 2027 ?w
      = Wrote t w'" "tr_status t = ''RECOVERED''"
    using release_recovery_completes [OF release_env0_ok, of files0 ?w plan auth 1 "([], None)" auth fresh 2027] r by auto
  then show ?thesis by (intro exI conjI)
qed

theorem file_writer_refines_memory_witness:
  "agrees release_env0 files0
     (file_commit release_env0 files0 [(''event_id'', PStr ''E''), (''receipt_digest'', PStr ''D'')] [] ''x'' ''y'' (empty_world []))
     (memory_commit release_env0 [(''event_id'', PStr ''E''), (''receipt_digest'', PStr ''D'')] [] ''x'' ''y''
        \<lparr>m_fail = [], m_journal = [], m_projection = None\<rparr>)"
proof -
  have "''event_id'' < ''receipt_digest''" "map_of [(''event_id'', PStr ''E''), (''receipt_digest'', PStr ''D'')] ''event_id'' = Some (PStr ''E'')"
    "map_of [(''event_id'', PStr ''E''), (''receipt_digest'', PStr ''D'')] ''receipt_digest'' = Some (PStr ''D'')" by code_simp+
  then have "receipt_ok [(''event_id'', PStr ''E''), (''receipt_digest'', PStr ''D'')] ''E'' ''D''" by (simp add: receipt_ok_def)
  then show ?thesis
    using file_writer_refines_memory [OF release_env0_ok, of files0 "empty_world []" "\<lparr>m_fail = [], m_journal = [], m_projection = None\<rparr>"]
      empty_view by (simp add: quiet_def empty_world_def files0_def)
qed

end
