(* ===== verification/Semver_Decision.thy ===== *)
theory Semver_Decision
  imports Release_Order
begin

text \<open>
  The version decision of a release package (\<open>policies/semver_decision.py\<close>): the classified input, the one-shot
  bootstrap contract for version 0.6.1, and the decision. Its diagnostics have the shape of the release order's.
  The readers \<open>_closed\<close>, \<open>_text\<close> and \<open>_strings\<close> are those of the release documents.
\<close>

section \<open>Versions\<close>

definition print_number :: "nat \<Rightarrow> string result" where
  "print_number n = (if length (nat_digits n) \<le> digit_limit then Inr (nat_digits n)
     else Inl (ValueError ''Exceeds the limit (4300 digits) for integer string conversion''))"

definition print_version :: "nat \<Rightarrow> nat \<Rightarrow> nat \<Rightarrow> string result" where
  "print_version a b c =
     let_ok (print_number a) (\<lambda>x. let_ok (print_number b) (\<lambda>y. let_ok (print_number c) (\<lambda>z.
       Inr (join_with ''.'' [x, y, z]))))"

definition next_version :: "string \<Rightarrow> string \<Rightarrow> string result" where
  "next_version version recommendation =
     (if \<not> version_re version then Inl (ValueError ''SEMVER_BASE_VERSION_INVALID'')
      else let_ok (map_result parse_number (split_char CHR ''.'' version)) (\<lambda>ns.
        case ns of
          [major, minor, patch] \<Rightarrow>
            if recommendation = ''next-minor'' then print_version major (minor + 1) 0
            else if recommendation = ''next-patch'' then print_version major minor (patch + 1)
            else Inr []
        | _ \<Rightarrow> Inl (ValueError ''SEMVER_BASE_VERSION_INVALID'')))"

section \<open>The input\<close>

definition semver_id_re :: "string \<Rightarrow> bool" where
  "semver_id_re s = (case s of [] \<Rightarrow> False
     | c # cs \<Rightarrow> ascii_alnum c \<and> length cs \<le> 127 \<and> list_all (\<lambda>x. ascii_alnum x \<or> x \<in> set ''._-'') cs)"

record semver_input =
  sv_package :: string
  sv_cr :: string
  sv_base :: string
  sv_requested :: string
  sv_operations :: "string list"
  sv_schemas :: "string list"
  sv_capabilities :: "string list"
  sv_fixes :: "string list"
  sv_breaking :: "string list"
  sv_unknown :: "string list"
  sv_source :: string
  sv_plan :: string
  sv_policy :: string
  sv_compat :: string
  sv_claimed :: string

definition semver_input_fields :: "string list" where
  "semver_input_fields = [''schema_version'', ''package_id'', ''cr_id'', ''base_version'', ''requested_version'',
     ''added_public_operations'', ''added_public_schemas'', ''added_compatible_capabilities'', ''bug_fix_ids'',
     ''breaking_evidence'', ''unknown_compatibility_evidence'', ''source_digest'', ''plan_digest'', ''policy_digest'',
     ''compatibility_digest'', ''claimed_category'']"

definition inventory :: "pydict \<Rightarrow> string \<Rightarrow> string list result" where
  "inventory d k = strings_field ''SEMVER_CHANGE_INVENTORY_INVALID'' (dget d k)"

definition semver_input_from_mapping :: "pyval \<Rightarrow> semver_input result" where
  "semver_input_from_mapping v =
     let_ok (closed_dict semver_input_fields ''SEMVER_INPUT_FIELDS_MISMATCH'' v) (\<lambda>d.
     let_ok (guard (py_eq (dget d ''schema_version'') (PInt 1)) ''SEMVER_INPUT_SCHEMA_INVALID'') (\<lambda>_.
     let_ok (text_field ''SEMVER_CLAIMED_CATEGORY_INVALID'' any_text True (dget d ''claimed_category'')) (\<lambda>claimed.
     let_ok (guard (claimed \<in> {[], ''patch'', ''minor'', ''major''}) ''SEMVER_CLAIMED_CATEGORY_INVALID'') (\<lambda>_.
     let_ok (text_field ''SEMVER_PACKAGE_ID_INVALID'' semver_id_re False (dget d ''package_id'')) (\<lambda>package.
     let_ok (text_field ''SEMVER_CR_ID_INVALID'' semver_id_re False (dget d ''cr_id'')) (\<lambda>cr.
     let_ok (text_field ''SEMVER_BASE_VERSION_INVALID'' version_re False (dget d ''base_version'')) (\<lambda>base.
     let_ok (text_field ''SEMVER_REQUESTED_VERSION_INVALID'' version_re False (dget d ''requested_version'')) (\<lambda>requested.
     let_ok (inventory d ''added_public_operations'') (\<lambda>operations.
     let_ok (inventory d ''added_public_schemas'') (\<lambda>schemas.
     let_ok (inventory d ''added_compatible_capabilities'') (\<lambda>capabilities.
     let_ok (inventory d ''bug_fix_ids'') (\<lambda>fixes.
     let_ok (inventory d ''breaking_evidence'') (\<lambda>breaking.
     let_ok (inventory d ''unknown_compatibility_evidence'') (\<lambda>unknown.
     let_ok (digest_field ''SEMVER_BINDING_DIGEST_INVALID'' d ''source_digest'') (\<lambda>source.
     let_ok (digest_field ''SEMVER_BINDING_DIGEST_INVALID'' d ''plan_digest'') (\<lambda>plan.
     let_ok (digest_field ''SEMVER_BINDING_DIGEST_INVALID'' d ''policy_digest'') (\<lambda>policy.
     let_ok (digest_field ''SEMVER_BINDING_DIGEST_INVALID'' d ''compatibility_digest'') (\<lambda>compatibility.
     Inr \<lparr>sv_package = package, sv_cr = cr, sv_base = base, sv_requested = requested, sv_operations = operations,
        sv_schemas = schemas, sv_capabilities = capabilities, sv_fixes = fixes, sv_breaking = breaking,
        sv_unknown = unknown, sv_source = source, sv_plan = plan, sv_policy = policy, sv_compat = compatibility,
        sv_claimed = claimed\<rparr>))))))))))))))))))"

definition text_items :: "string list \<Rightarrow> pyval" where
  "text_items xs = PList (map PStr xs)"

text \<open>The classified facts: neither the requested version nor the claim of the caller is one of them.\<close>

definition classification_payload :: "semver_input \<Rightarrow> pydict" where
  "classification_payload v =
     [(''added_compatible_capabilities'', text_items (sv_capabilities v)),
      (''added_public_operations'', text_items (sv_operations v)), (''added_public_schemas'', text_items (sv_schemas v)),
      (''base_version'', PStr (sv_base v)), (''breaking_evidence'', text_items (sv_breaking v)),
      (''bug_fix_ids'', text_items (sv_fixes v)), (''compatibility_digest'', PStr (sv_compat v)), (''cr_id'', PStr (sv_cr v)),
      (''package_id'', PStr (sv_package v)), (''plan_digest'', PStr (sv_plan v)), (''policy_digest'', PStr (sv_policy v)),
      (''schema_version'', PInt 1), (''source_digest'', PStr (sv_source v)),
      (''unknown_compatibility_evidence'', text_items (sv_unknown v))]"

definition classification_digest :: "release_env \<Rightarrow> semver_input \<Rightarrow> string" where
  "classification_digest R v = canonical_digest R (PDict (classification_payload v))"

section \<open>The bootstrap contract\<close>

text \<open>The schema version is kept as it was read: any value equal to 1.\<close>

record semver_bootstrap =
  sb_schema :: pyval
  sb_version :: string
  sb_recommendation :: string
  sb_selected :: string
  sb_selection_source :: string
  sb_reason :: string
  sb_reusable :: bool
  sb_enforce :: string
  sb_source :: string
  sb_classification :: string
  sb_policy :: string
  sb_plan :: string
  sb_digest :: string

definition bootstrap_fields :: "string list" where
  "bootstrap_fields = [''schema_version'', ''bootstrap_version'', ''normal_machine_recommendation'', ''selected_version'',
     ''selection_source'', ''reason'', ''reusable'', ''enforce_after'', ''source_digest'', ''classification_digest'',
     ''policy_digest'', ''plan_digest'', ''decision_digest'']"

definition bootstrap_constants :: "(string \<times> string) list" where
  "bootstrap_constants = [(''bootstrap_version'', ''0.6.1''), (''normal_machine_recommendation'', ''next-minor''),
     (''selected_version'', ''0.6.1''), (''selection_source'', ''explicit-user-decision''),
     (''reason'', ''single-release-convergence-and-first-semver-gate-cutover''), (''enforce_after'', ''0.6.1'')]"

definition bootstrap_from_mapping :: "release_env \<Rightarrow> pyval \<Rightarrow> semver_bootstrap result" where
  "bootstrap_from_mapping R v =
     let_ok (closed_dict bootstrap_fields ''SEMVER_BOOTSTRAP_FIELDS_MISMATCH'' v) (\<lambda>d.
     let_ok (guard (py_eq (dget d ''schema_version'') (PInt 1)
         \<and> list_all (\<lambda>(k, c). dget d k = PStr c) bootstrap_constants \<and> dget d ''reusable'' = PBool False)
       ''SEMVER_BOOTSTRAP_CONSTANT_MISMATCH'') (\<lambda>_.
     let_ok (digest_field ''SEMVER_BOOTSTRAP_DIGEST_INVALID'' d ''source_digest'') (\<lambda>source.
     let_ok (digest_field ''SEMVER_BOOTSTRAP_DIGEST_INVALID'' d ''classification_digest'') (\<lambda>cls.
     let_ok (digest_field ''SEMVER_BOOTSTRAP_DIGEST_INVALID'' d ''policy_digest'') (\<lambda>policy.
     let_ok (digest_field ''SEMVER_BOOTSTRAP_DIGEST_INVALID'' d ''plan_digest'') (\<lambda>plan.
     let_ok (digest_field ''SEMVER_BOOTSTRAP_DIGEST_INVALID'' d ''decision_digest'') (\<lambda>digest.
     let_ok (guard (digest = canonical_digest R (PDict (filter (\<lambda>(k, _). k \<noteq> ''decision_digest'') d)))
       ''SEMVER_BOOTSTRAP_DECISION_DIGEST_MISMATCH'') (\<lambda>_.
     Inr \<lparr>sb_schema = dget d ''schema_version'', sb_version = ''0.6.1'', sb_recommendation = ''next-minor'',
        sb_selected = ''0.6.1'', sb_selection_source = ''explicit-user-decision'',
        sb_reason = ''single-release-convergence-and-first-semver-gate-cutover'', sb_reusable = False,
        sb_enforce = ''0.6.1'', sb_source = source, sb_classification = cls, sb_policy = policy, sb_plan = plan,
        sb_digest = digest\<rparr>))))))))"

definition bootstrap_as_dict :: "semver_bootstrap \<Rightarrow> pydict" where
  "bootstrap_as_dict b =
     [(''bootstrap_version'', PStr (sb_version b)), (''classification_digest'', PStr (sb_classification b)),
      (''decision_digest'', PStr (sb_digest b)), (''enforce_after'', PStr (sb_enforce b)),
      (''normal_machine_recommendation'', PStr (sb_recommendation b)), (''plan_digest'', PStr (sb_plan b)),
      (''policy_digest'', PStr (sb_policy b)), (''reason'', PStr (sb_reason b)), (''reusable'', PBool (sb_reusable b)),
      (''schema_version'', sb_schema b), (''selected_version'', PStr (sb_selected b)),
      (''selection_source'', PStr (sb_selection_source b)), (''source_digest'', PStr (sb_source b))]"

definition bootstrap_payload :: "release_env \<Rightarrow> semver_input \<Rightarrow> pydict" where
  "bootstrap_payload R v =
     [(''bootstrap_version'', PStr ''0.6.1''), (''classification_digest'', PStr (classification_digest R v)),
      (''enforce_after'', PStr ''0.6.1''), (''normal_machine_recommendation'', PStr ''next-minor''),
      (''plan_digest'', PStr (sv_plan v)), (''policy_digest'', PStr (sv_policy v)),
      (''reason'', PStr ''single-release-convergence-and-first-semver-gate-cutover''), (''reusable'', PBool False),
      (''schema_version'', PInt 1), (''selected_version'', PStr ''0.6.1''),
      (''selection_source'', PStr ''explicit-user-decision''), (''source_digest'', PStr (sv_source v))]"

definition build_cr072_bootstrap :: "release_env \<Rightarrow> semver_input \<Rightarrow> semver_bootstrap result" where
  "build_cr072_bootstrap R v =
     (let payload = bootstrap_payload R v in
      bootstrap_from_mapping R (PDict (payload @ [(''decision_digest'', PStr (canonical_digest R (PDict payload)))])))"

section \<open>The decision\<close>

record semver_decision =
  sd_package :: string
  sd_cr :: string
  sd_base :: string
  sd_requested :: string
  sd_recommendation :: string
  sd_normal :: string
  sd_selected :: string
  sd_classification :: string
  sd_bootstrap_used :: bool
  sd_bootstrap_digest :: string
  sd_consumption :: string
  sd_diagnostics :: "diagnostic list"
  sd_decision :: string
  sd_digest :: string

definition recommendation_of :: "semver_input \<Rightarrow> string" where
  "recommendation_of v = (if sv_operations v \<noteq> [] \<or> sv_schemas v \<noteq> [] \<or> sv_capabilities v \<noteq> []
     then ''next-minor'' else ''next-patch'')"

definition compatibility_diagnostics :: "semver_input \<Rightarrow> diagnostic list" where
  "compatibility_diagnostics v =
     diag (sv_breaking v \<noteq> []) ''BREAKING_CHANGE_DETECTED'' ''breaking compatibility evidence blocks every 0.6.1 bootstrap''
     @ diag (sv_unknown v \<noteq> []) ''COMPATIBILITY_UNKNOWN'' ''unknown compatibility must be resolved before version selection''"

definition bindings_match :: "release_env \<Rightarrow> semver_input \<Rightarrow> semver_bootstrap \<Rightarrow> bool" where
  "bindings_match R v b = (sb_source b = sv_source v \<and> sb_classification b = classification_digest R v
     \<and> sb_policy b = sv_policy v \<and> sb_plan b = sv_plan v)"

definition consumption_key :: "release_env \<Rightarrow> semver_input \<Rightarrow> semver_bootstrap \<Rightarrow> string" where
  "consumption_key R v b = canonical_digest R (PDict [(''decision_digest'', PStr (sb_digest b)),
     (''package_id'', PStr (sv_package v)), (''version'', PStr (sb_selected b))])"

text \<open>The check of the bootstrap: the diagnostics and the consumption key, when it got that far.\<close>

definition check_bootstrap :: "release_env \<Rightarrow> semver_input \<Rightarrow> semver_bootstrap \<Rightarrow> string list \<Rightarrow> diagnostic list \<times> string" where
  "check_bootstrap R v b consumed =
     (if sb_version b \<noteq> sv_requested v
      then (diag True ''BOOTSTRAP_VERSION_MISMATCH'' ''bootstrap version differs from the requested version'', [])
      else if recommendation_of v \<noteq> ''next-minor''
      then (diag True ''BOOTSTRAP_RECOMMENDATION_MISMATCH'' ''bootstrap only applies to a truthful next-minor classification'', [])
      else if \<not> bindings_match R v b
      then (diag True ''BOOTSTRAP_BINDING_DIGEST_MISMATCH'' ''source, classification, policy or Plan digest drifted'', [])
      else (diag (consumption_key R v b \<in> set consumed) ''BOOTSTRAP_ALREADY_CONSUMED''
              ''the one-shot bootstrap decision is already present in release history'', consumption_key R v b))"

definition claim_ignored :: "semver_input \<Rightarrow> bool" where
  "claim_ignored v = (sv_claimed v \<noteq> [] \<and> sv_claimed v \<noteq> (if recommendation_of v = ''next-minor'' then ''minor'' else ''patch''))"

definition semver_payload :: "semver_input \<Rightarrow> semver_decision \<Rightarrow> pydict" where
  "semver_payload v d =
     [(''base_version'', PStr (sd_base d)), (''bootstrap_consumption_key'', PStr (sd_consumption d)),
      (''bootstrap_decision_digest'', PStr (sd_bootstrap_digest d)), (''bootstrap_used'', PBool (sd_bootstrap_used d)),
      (''caller_claim_ignored'', PBool (claim_ignored v)), (''classification_digest'', PStr (sd_classification d)),
      (''cr_id'', PStr (sd_cr d)), (''decision'', PStr (sd_decision d)),
      (''diagnostics'', PList (map (PDict \<circ> diagnostic_as_dict) (sd_diagnostics d))),
      (''normal_machine_recommendation'', PStr (sd_recommendation d)), (''normal_recommended_version'', PStr (sd_normal d)),
      (''package_id'', PStr (sd_package d)), (''requested_version'', PStr (sd_requested d)),
      (''selected_version'', PStr (sd_selected d))]"

definition decide_semver :: "release_env \<Rightarrow> semver_input \<Rightarrow> semver_bootstrap option \<Rightarrow> string list \<Rightarrow> semver_decision result" where
  "decide_semver R v bootstrap consumed =
     let_ok (next_version (sv_base v) (recommendation_of v)) (\<lambda>normal.
     let before = compatibility_diagnostics v;
         (bd, key, more, selected) =
           (if before \<noteq> [] then ([], [], [], normal)
            else case bootstrap of
              Some b \<Rightarrow> (let (ds, k) = check_bootstrap R v b consumed in
                 (sb_digest b, k, ds, if ds = [] then sb_selected b else normal))
            | None \<Rightarrow> ([], [], diag (sv_requested v \<noteq> normal) ''REQUESTED_VERSION_SEMVER_MISMATCH''
                  ''requested version differs from the truthful machine recommendation'', normal));
         ordered = sort_key d_code (before @ more);
         pass = (ordered = []);
         d = \<lparr>sd_package = sv_package v, sd_cr = sv_cr v, sd_base = sv_base v, sd_requested = sv_requested v,
              sd_recommendation = recommendation_of v, sd_normal = normal, sd_selected = (if pass then selected else []),
              sd_classification = classification_digest R v, sd_bootstrap_used = (pass \<and> bootstrap \<noteq> None),
              sd_bootstrap_digest = bd, sd_consumption = (if pass then key else []), sd_diagnostics = ordered,
              sd_decision = (if pass then ''PASS'' else ''BLOCKED''), sd_digest = []\<rparr> in
     Inr (d\<lparr>sd_digest := canonical_digest R (PDict (semver_payload v d))\<rparr>))"

definition semver_as_dict :: "semver_decision \<Rightarrow> pydict" where
  "semver_as_dict d =
     [(''base_version'', PStr (sd_base d)), (''bootstrap_consumption_key'', PStr (sd_consumption d)),
      (''bootstrap_decision_digest'', PStr (sd_bootstrap_digest d)), (''bootstrap_used'', PBool (sd_bootstrap_used d)),
      (''classification_digest'', PStr (sd_classification d)), (''cr_id'', PStr (sd_cr d)),
      (''decision'', PStr (sd_decision d)), (''diagnostics'', PList (map (PDict \<circ> diagnostic_as_dict) (sd_diagnostics d))),
      (''kind'', PStr ''SemVerDecisionV1''), (''mutation_count'', PInt 0),
      (''normal_machine_recommendation'', PStr (sd_recommendation d)), (''normal_recommended_version'', PStr (sd_normal d)),
      (''package_id'', PStr (sd_package d)), (''requested_version'', PStr (sd_requested d)), (''schema_version'', PInt 1),
      (''selected_version'', PStr (sd_selected d)), (''semantic_digest'', PStr (sd_digest d))]"


section \<open>Numbers and versions\<close>

lemma digit_char: "(k :: nat) < 10 \<Longrightarrow> ascii_digit (char_of (48 + k)) \<and> of_char (char_of (48 + k) :: char) = 48 + k"
proof -
  have "list_all (\<lambda>k. ascii_digit (char_of (48 + k)) \<and> of_char (char_of (48 + k) :: char) = 48 + k) [0..<10]" by code_simp
  then show "k < 10 \<Longrightarrow> ?thesis" by (simp add: list_all_iff)
qed

lemma digits_value_snoc: "digits_value (s @ [c]) = 10 * digits_value s + (of_char c - 48)"
  by (simp add: digits_value_def)

lemma nat_digits_value: "digits_value (nat_digits n) = n \<and> list_all ascii_digit (nat_digits n) \<and> nat_digits n \<noteq> []"
proof (induction n rule: nat_digits.induct)
  case (1 n)
  show ?case
  proof (cases "n < 10")
    case True
    then show ?thesis using digit_char [of n] by (simp add: nat_digits.simps [of n] digits_value_def)
  next
    case False
    then show ?thesis using 1 digit_char [of "n mod 10"]
      by (simp add: nat_digits.simps [of n] digits_value_snoc)
  qed
qed

lemma nat_digits_hd: "0 < n \<Longrightarrow> hd (nat_digits n) \<noteq> CHR ''0''"
proof (induction n rule: nat_digits.induct)
  case (1 n)
  show ?case
  proof (cases "n < 10")
    case True
    have "list_all (\<lambda>k. char_of (48 + k) \<noteq> CHR ''0'') [1..<10]" by code_simp
    then have "char_of (48 + n) \<noteq> CHR ''0''" using True 1(2) by (simp only: list_all_iff set_upt) simp
    then show ?thesis using True by (simp add: nat_digits.simps [of n])
  next
    case False
    then have "0 < n div 10" by simp
    then show ?thesis using False 1 nat_digits_value [of "n div 10"] by (simp add: nat_digits.simps [of n])
  qed
qed

lemma numeral_nat_digits: "numeral_re (nat_digits n)"
proof (cases "n = 0")
  case True
  have "nat_digits 0 = ''0''" by code_simp
  then show ?thesis by (simp add: True numeral_re_def)
next
  case False
  then show ?thesis using nat_digits_value [of n] nat_digits_hd [of n] by (simp add: numeral_re_def)
qed

lemma digits_no_dot: "list_all ascii_digit s \<Longrightarrow> CHR ''.'' \<notin> set s"
proof -
  have "\<not> ascii_digit CHR ''.''" by code_simp
  then show "list_all ascii_digit s \<Longrightarrow> CHR ''.'' \<notin> set s" by (auto simp: list_all_iff)
qed

text \<open>The value of a version, compared component by component.\<close>

definition version_value :: "string \<Rightarrow> nat \<times> nat \<times> nat" where
  "version_value s = (case split_char CHR ''.'' s of
     [a, b, c] \<Rightarrow> (digits_value a, digits_value b, digits_value c) | _ \<Rightarrow> (0, 0, 0))"

definition version_less :: "nat \<times> nat \<times> nat \<Rightarrow> nat \<times> nat \<times> nat \<Rightarrow> bool" where
  "version_less v w = (case (v, w) of ((a, b, c), (x, y, z)) \<Rightarrow> a < x \<or> a = x \<and> (b < y \<or> b = y \<and> c < z))"

lemma print_version_value:
  assumes "print_version a b c = Inr s"
  shows "version_re s \<and> version_value s = (a, b, c)"
proof -
  have s: "s = join_with ''.'' [nat_digits a, nat_digits b, nat_digits c]"
    using assms by (auto simp: print_version_def print_number_def let_ok_Inr split: if_splits)
  have "split_char CHR ''.'' s = [nat_digits a, nat_digits b, nat_digits c]"
    unfolding s using digits_no_dot nat_digits_value by (intro split_char_join) auto
  then show ?thesis using numeral_nat_digits nat_digits_value by (simp add: version_re_def version_value_def)
qed

lemma next_version_value:
  assumes "next_version v r = Inr w" and "r \<in> {''next-minor'', ''next-patch''}"
  shows "version_re v \<and> version_re w \<and> version_value w =
    (case version_value v of (a, b, c) \<Rightarrow> if r = ''next-minor'' then (a, b + 1, 0) else (a, b, c + 1))"
proof -
  have v: "version_re v" using assms(1) by (auto simp: next_version_def split: if_splits)
  then obtain x y z where sp: "split_char CHR ''.'' v = [x, y, z]" by (auto simp: version_re_def split: list.splits)
  have neq: "''next-patch'' \<noteq> ''next-minor''" by code_simp
  have "(if r = ''next-minor'' then print_version (digits_value x) (digits_value y + 1) 0
      else print_version (digits_value x) (digits_value y) (digits_value z + 1)) = Inr w"
    using assms v sp neq by (auto simp: next_version_def let_ok_Inr parse_number_def map_result_Inr list_all2_Cons1 split: if_splits)
  then show ?thesis using v sp print_version_value by (auto simp: version_value_def split: if_splits)
qed


text \<open>The decimal text of a number is unique, so a version is determined by its value.\<close>

lemma nat_digits_inverse:
  "list_all ascii_digit s \<Longrightarrow> s \<noteq> [] \<Longrightarrow> hd s = CHR ''0'' \<longrightarrow> s = ''0'' \<Longrightarrow> nat_digits (digits_value s) = s"
proof (induction s rule: rev_induct)
  case (snoc c t)
  define k where "k = (of_char c :: nat) - 48"
  have c: "48 \<le> (of_char c :: nat)" "(of_char c :: nat) \<le> 57" using snoc.prems(1) by (simp_all add: ascii_digit_def Let_def)
  then have k: "k < 10" "char_of (48 + k) = c" by (simp_all add: k_def)
  have v: "digits_value (t @ [c]) = 10 * digits_value t + k" by (simp add: digits_value_snoc k_def)
  show ?case
  proof (cases t)
    case Nil
    then show ?thesis using v k by (simp add: nat_digits.simps [of k] digits_value_def)
  next
    case (Cons x xs)
    have hd: "hd t \<noteq> CHR ''0''" using snoc.prems(3) Cons by auto
    have t: "nat_digits (digits_value t) = t" using snoc.IH snoc.prems(1) hd Cons by simp
    have "nat_digits 0 = ''0''" by code_simp
    then have "digits_value t \<noteq> 0" using t hd by (metis list.sel(1))
    then have "0 < digits_value t" by simp
    then show ?thesis using v k t by (simp add: nat_digits.simps [of "10 * digits_value t + k"])
  qed
qed simp

lemma version_value_inj:
  assumes "version_re v" and "version_re w" and "version_value v = version_value w"
  shows "v = w"
proof -
  obtain a b c where v: "split_char CHR ''.'' v = [a, b, c]" and n: "numeral_re a" "numeral_re b" "numeral_re c"
    using assms(1) by (auto simp: version_re_def split: list.splits)
  obtain x y z where w: "split_char CHR ''.'' w = [x, y, z]" and m: "numeral_re x" "numeral_re y" "numeral_re z"
    using assms(2) by (auto simp: version_re_def split: list.splits)
  have inverse: "nat_digits (digits_value s) = s" if "numeral_re s" for s
    using that numeral_text [OF that] by (intro nat_digits_inverse) (auto simp: numeral_re_def)
  have "digits_value a = digits_value x" "digits_value b = digits_value y" "digits_value c = digits_value z"
    using assms(3) v w by (simp_all add: version_value_def)
  then have "a = x" "b = y" "c = z" using inverse n m by metis+
  then show ?thesis using v w join_split_char [of "CHR ''.''"] by metis
qed

section \<open>What the decision means\<close>

text \<open>The version that follows a base: the next minor with patch zero when something public was added, else the next patch.\<close>

definition next_release :: "semver_input \<Rightarrow> nat \<times> nat \<times> nat" where
  "next_release v = (case version_value (sv_base v) of (a, b, c) \<Rightarrow>
     if sv_operations v \<noteq> [] \<or> sv_schemas v \<noteq> [] \<or> sv_capabilities v \<noteq> [] then (a, b + 1, 0) else (a, b, c + 1))"

definition semver_admitted :: "release_env \<Rightarrow> semver_input \<Rightarrow> semver_bootstrap option \<Rightarrow> string list \<Rightarrow> bool" where
  "semver_admitted R v bootstrap consumed =
     (sv_breaking v = [] \<and> sv_unknown v = []
      \<and> (case bootstrap of
           None \<Rightarrow> version_re (sv_requested v) \<and> version_value (sv_requested v) = next_release v
         | Some b \<Rightarrow> sb_version b = sv_requested v \<and> (sv_operations v \<noteq> [] \<or> sv_schemas v \<noteq> [] \<or> sv_capabilities v \<noteq> [])
             \<and> sb_source b = sv_source v \<and> sb_classification b = canonical_digest R (PDict (classification_payload v))
             \<and> sb_policy b = sv_policy v \<and> sb_plan b = sv_plan v
             \<and> canonical_digest R (PDict [(''decision_digest'', PStr (sb_digest b)), (''package_id'', PStr (sv_package v)),
                  (''version'', PStr (sb_selected b))]) \<notin> set consumed))"

lemma next_version_iff:
  assumes "next_version (sv_base v) (recommendation_of v) = Inr normal"
  shows "w = normal \<longleftrightarrow> version_re w \<and> version_value w = next_release v"
proof -
  have neq: "''next-patch'' \<noteq> ''next-minor''" by code_simp
  have "recommendation_of v \<in> {''next-minor'', ''next-patch''}" by (simp add: recommendation_of_def)
  from next_version_value [OF assms this] have "version_re normal" "version_value normal = next_release v"
    using neq by (auto simp: next_release_def recommendation_of_def split: prod.splits if_splits)
  then show ?thesis using version_value_inj [of w normal] by auto
qed

lemma recommendation_cases: "recommendation_of v \<in> {''next-minor'', ''next-patch''}"
  by (simp add: recommendation_of_def)

lemma check_bootstrap_Nil:
  "fst (check_bootstrap R v b consumed) = [] \<longleftrightarrow> sb_version b = sv_requested v \<and> recommendation_of v = ''next-minor''
     \<and> bindings_match R v b \<and> consumption_key R v b \<notin> set consumed"
  "fst (check_bootstrap R v b consumed) = [] \<Longrightarrow> snd (check_bootstrap R v b consumed) = consumption_key R v b"
  by (auto simp: check_bootstrap_def)

lemma compatibility_Nil: "compatibility_diagnostics v = [] \<longleftrightarrow> sv_breaking v = [] \<and> sv_unknown v = []"
  by (auto simp: compatibility_diagnostics_def)

lemma decide_semver_None:
  assumes "decide_semver R v None consumed = Inr d"
  shows "\<exists>normal. next_version (sv_base v) (recommendation_of v) = Inr normal
     \<and> sd_decision d = (if compatibility_diagnostics v = [] \<and> sv_requested v = normal then ''PASS'' else ''BLOCKED'')
     \<and> sd_selected d = (if compatibility_diagnostics v = [] \<and> sv_requested v = normal then normal else [])
     \<and> sd_consumption d = [] \<and> \<not> sd_bootstrap_used d"
proof (cases "next_version (sv_base v) (recommendation_of v)")
  case (Inr normal)
  obtain cd where cd: "compatibility_diagnostics v = cd" by blast
  obtain rd where rd: "diag (sv_requested v \<noteq> normal) ''REQUESTED_VERSION_SEMVER_MISMATCH''
      ''requested version differs from the truthful machine recommendation'' = rd" and r: "rd = [] \<longleftrightarrow> sv_requested v = normal"
    by simp
  show ?thesis using assms r by (cases "cd = []"; cases "rd = []") (auto simp: decide_semver_def Inr Let_def cd rd)
qed (use assms in \<open>simp add: decide_semver_def\<close>)

lemma decide_semver_Some:
  assumes "decide_semver R v (Some b) consumed = Inr d"
  shows "let pass = (compatibility_diagnostics v = [] \<and> fst (check_bootstrap R v b consumed) = []) in
     sd_decision d = (if pass then ''PASS'' else ''BLOCKED'') \<and> sd_selected d = (if pass then sb_selected b else [])
     \<and> sd_consumption d = (if pass then consumption_key R v b else []) \<and> sd_bootstrap_used d = pass
     \<and> (\<not> pass \<longrightarrow> sd_diagnostics d = sort_key d_code (if compatibility_diagnostics v \<noteq> []
          then compatibility_diagnostics v else fst (check_bootstrap R v b consumed)))"
proof -
  obtain ds k where c: "check_bootstrap R v b consumed = (ds, k)" by (cases "check_bootstrap R v b consumed")
  obtain cd where cd: "compatibility_diagnostics v = cd" by blast
  obtain normal where "next_version (sv_base v) (recommendation_of v) = Inr normal"
    using assms by (auto simp: decide_semver_def let_ok_Inr simp del: Inr_inject)
  then show ?thesis using assms check_bootstrap_Nil(2) [of R v b consumed]
    by (cases "cd = []"; cases "ds = []") (auto simp: decide_semver_def Let_def c cd)
qed

lemma bootstrap_admitted_iff:
  "fst (check_bootstrap R v b consumed) = [] \<and> compatibility_diagnostics v = [] \<longleftrightarrow> semver_admitted R v (Some b) consumed"
proof -
  have neq: "''next-patch'' \<noteq> ''next-minor''" by code_simp
  have "recommendation_of v = ''next-minor'' \<longleftrightarrow> sv_operations v \<noteq> [] \<or> sv_schemas v \<noteq> [] \<or> sv_capabilities v \<noteq> []"
    using neq by (simp add: recommendation_of_def)
  then show ?thesis unfolding check_bootstrap_Nil(1) compatibility_Nil
    by (auto simp: semver_admitted_def bindings_match_def consumption_key_def classification_digest_def)
qed

text \<open>C33: The version decision passes exactly when there is no breaking and no unknown compatibility evidence and either the
  requested version is a version whose numbers are the ones that follow the base (the next minor with patch zero after a public addition,
  the next patch otherwise), or a bootstrap for the requested version covers a public addition, is bound to the same source,
  classification, policy and plan digests, and its consumption is not in the history. A PASS selects that version and records the
  consumption; a BLOCKED decision selects none and consumes nothing.\<close>

theorem semver_decision_iff:
  assumes "decide_semver R v bootstrap consumed = Inr d"
  shows "(sd_decision d = ''PASS'' \<longleftrightarrow> semver_admitted R v bootstrap consumed)
    \<and> (sd_decision d = ''PASS'' \<longrightarrow> sd_selected d = (case bootstrap of None \<Rightarrow> sv_requested v | Some b \<Rightarrow> sb_selected b)
        \<and> (sd_bootstrap_used d \<longleftrightarrow> bootstrap \<noteq> None)
        \<and> sd_consumption d = (case bootstrap of None \<Rightarrow> [] | Some b \<Rightarrow> canonical_digest R (PDict
             [(''decision_digest'', PStr (sb_digest b)), (''package_id'', PStr (sv_package v)), (''version'', PStr (sb_selected b))])))
    \<and> (sd_decision d \<noteq> ''PASS'' \<longrightarrow> sd_decision d = ''BLOCKED'' \<and> sd_selected d = [] \<and> sd_consumption d = []
        \<and> \<not> sd_bootstrap_used d)"
proof (cases bootstrap)
  case None
  have neq: "''BLOCKED'' \<noteq> ''PASS''" by code_simp
  obtain normal where n: "next_version (sv_base v) (recommendation_of v) = Inr normal"
    and d: "sd_decision d = (if compatibility_diagnostics v = [] \<and> sv_requested v = normal then ''PASS'' else ''BLOCKED'')"
      "sd_selected d = (if compatibility_diagnostics v = [] \<and> sv_requested v = normal then normal else [])"
      "sd_consumption d = []" "\<not> sd_bootstrap_used d"
    using decide_semver_None [of R v consumed d] assms unfolding None by blast
  have "compatibility_diagnostics v = [] \<and> sv_requested v = normal \<longleftrightarrow> semver_admitted R v None consumed"
    using next_version_iff [OF n, of "sv_requested v"] by (auto simp: semver_admitted_def compatibility_Nil)
  then show ?thesis using d neq by (auto simp: None)
next
  case (Some b)
  have neq: "''BLOCKED'' \<noteq> ''PASS''" by code_simp
  show ?thesis using decide_semver_Some [of R v b consumed d] assms neq bootstrap_admitted_iff [of R v b consumed]
    by (auto simp: Some consumption_key_def Let_def split: if_splits)
qed

text \<open>Without a bootstrap the selected version is exactly one release after the base: the next minor version with patch zero
  when something public was added, the next patch otherwise; in either case it is greater than the base.\<close>

theorem semver_selects_next_release:
  assumes "decide_semver R v None consumed = Inr d" and "sd_decision d = ''PASS''"
  shows "version_re (sd_selected d) \<and> version_less (version_value (sv_base v)) (version_value (sd_selected d))
    \<and> version_value (sd_selected d) = (case version_value (sv_base v) of (a, b, c) \<Rightarrow>
        if sv_operations v \<noteq> [] \<or> sv_schemas v \<noteq> [] \<or> sv_capabilities v \<noteq> [] then (a, b + 1, 0) else (a, b, c + 1))"
proof -
  have neq: "''BLOCKED'' \<noteq> ''PASS''" "''next-patch'' \<noteq> ''next-minor''" by code_simp+
  have n: "next_version (sv_base v) (recommendation_of v) = Inr (sd_selected d)"
    using decide_semver_None [OF assms(1)] assms(2) neq by (auto split: if_splits)
  obtain a b c where abc: "version_value (sv_base v) = (a, b, c)" by (cases "version_value (sv_base v)")
  show ?thesis using next_version_value [OF n recommendation_cases] neq
    by (auto simp: abc version_less_def recommendation_of_def split: if_splits)
qed

section \<open>The bootstrap is consumed once\<close>

lemma bootstrap_kept: "(advance R)\<^sup>*\<^sup>* t u \<Longrightarrow> k \<in> set (s_bootstrap t) \<Longrightarrow> k \<in> set (s_bootstrap u)"
proof (induction rule: rtranclp_induct)
  case (step u w)
  then show ?case using advance_event [OF step.hyps(2)] by auto
qed simp

text \<open>The bootstrap is used once, across the version decision and the release order. When a decision that used a bootstrap is
  applied to the release state by an event that consumes its key, the same decision is blocked in every later state of
  the lineage, on the history that state records.\<close>

theorem semver_bootstrap_single_use:
  assumes "decide_semver R v (Some b) consumed = Inr d" and "sd_decision d = ''PASS''"
    and "plan_release_advance R s e n codes = Inr p" and "rp_after p = Some t"
    and "ev_bootstrap e = sd_consumption d" and "release_env_ok R" and "(advance R)\<^sup>*\<^sup>* t u"
    and "decide_semver R v (Some b) (s_bootstrap u) = Inr d'"
  shows "sd_decision d' = ''BLOCKED'' \<and> map d_code (sd_diagnostics d') = [''BOOTSTRAP_ALREADY_CONSUMED'']"
proof -
  have neq: "''BLOCKED'' \<noteq> ''PASS''" by code_simp
  have first: "compatibility_diagnostics v = []" "fst (check_bootstrap R v b consumed) = []"
    "sd_consumption d = consumption_key R v b"
    using decide_semver_Some [OF assms(1)] assms(2) neq by (auto simp: Let_def split: if_splits)
  have "t = advance_state R s e" using plan_pass_iff [OF assms(3)] assms(4) by (auto split: if_splits)
  moreover have "consumption_key R v b \<noteq> []"
    unfolding consumption_key_def using hex_id_nonempty [OF canonical_digest_re [OF assms(6)]] by simp
  ultimately have "consumption_key R v b \<in> set (s_bootstrap t)" using assms(5) first(3) by simp
  then have used: "consumption_key R v b \<in> set (s_bootstrap u)" by (rule bootstrap_kept [OF assms(7)])
  have "map d_code (fst (check_bootstrap R v b (s_bootstrap u))) = [''BOOTSTRAP_ALREADY_CONSUMED'']"
    using first(2) used by (simp add: check_bootstrap_Nil(1)) (simp add: check_bootstrap_def diag_def)
  then have "\<exists>x. fst (check_bootstrap R v b (s_bootstrap u)) = [x] \<and> d_code x = ''BOOTSTRAP_ALREADY_CONSUMED''"
    by (simp add: map_eq_Cons_conv)
  then show ?thesis using decide_semver_Some [OF assms(8)] first(1) by (auto simp: Let_def)
qed


section \<open>The bootstrap can be built and applied\<close>

lemma bootstrap_payload_dict:
  "dkeys (bootstrap_payload R v @ [(''decision_digest'', PStr x)]) = set bootstrap_fields"
  "filter (\<lambda>(k, _). k \<noteq> ''decision_digest'') (bootstrap_payload R v) = bootstrap_payload R v"
  "list_all (\<lambda>(k, c). dget (bootstrap_payload R v @ [(''decision_digest'', PStr x)]) k = PStr c) bootstrap_constants"
proof -
  let ?d = "bootstrap_payload R v @ [(''decision_digest'', PStr x)]"
  have keys: "map fst ?d = [''bootstrap_version'', ''classification_digest'', ''enforce_after'', ''normal_machine_recommendation'',
      ''plan_digest'', ''policy_digest'', ''reason'', ''reusable'', ''schema_version'', ''selected_version'',
      ''selection_source'', ''source_digest'', ''decision_digest'']" by (simp add: bootstrap_payload_def)
  have "set [''bootstrap_version'', ''classification_digest'', ''enforce_after'', ''normal_machine_recommendation'',
      ''plan_digest'', ''policy_digest'', ''reason'', ''reusable'', ''schema_version'', ''selected_version'',
      ''selection_source'', ''source_digest'', ''decision_digest''] = set bootstrap_fields" by code_simp
  then show "dkeys ?d = set bootstrap_fields" by (simp only: dkeys_def keys)
  show "filter (\<lambda>(k, _). k \<noteq> ''decision_digest'') (bootstrap_payload R v) = bootstrap_payload R v" by (simp add: bootstrap_payload_def)
  show "list_all (\<lambda>(k, c). dget ?d k = PStr c) bootstrap_constants" by (simp add: bootstrap_payload_def bootstrap_constants_def)
qed

lemma bootstrap_built:
  assumes "release_env_ok R" and "list_all (hex_id 64) [sv_source v, sv_plan v, sv_policy v]"
  shows "\<exists>b. build_cr072_bootstrap R v = Inr b \<and> sb_version b = ''0.6.1'' \<and> sb_selected b = ''0.6.1'' \<and> bindings_match R v b"
proof -
  let ?x = "canonical_digest R (PDict (bootstrap_payload R v))"
  let ?d = "bootstrap_payload R v @ [(''decision_digest'', PStr ?x)]"
  have fields: "dget ?d ''schema_version'' = PInt 1" "dget ?d ''reusable'' = PBool False" "dget ?d ''source_digest'' = PStr (sv_source v)"
    "dget ?d ''classification_digest'' = PStr (classification_digest R v)" "dget ?d ''policy_digest'' = PStr (sv_policy v)"
    "dget ?d ''plan_digest'' = PStr (sv_plan v)" "dget ?d ''decision_digest'' = PStr ?x"
    by (simp_all add: bootstrap_payload_def)
  have digests: "hex_id 64 ?x" "hex_id 64 (classification_digest R v)"
    using canonical_digest_re [OF assms(1)] by (simp_all add: classification_digest_def)
  have field: "digest_field code ?d k = Inr y" if "dget ?d k = PStr y" "hex_id 64 y" for code k y
    using that by (simp add: read_simps)
  have "bootstrap_from_mapping R (PDict ?d) = Inr \<lparr>sb_schema = PInt 1, sb_version = ''0.6.1'', sb_recommendation = ''next-minor'',
        sb_selected = ''0.6.1'', sb_selection_source = ''explicit-user-decision'',
        sb_reason = ''single-release-convergence-and-first-semver-gate-cutover'', sb_reusable = False,
        sb_enforce = ''0.6.1'', sb_source = sv_source v, sb_classification = classification_digest R v, sb_policy = sv_policy v,
        sb_plan = sv_plan v, sb_digest = ?x\<rparr>"
    using assms(2) digests by (simp add: bootstrap_from_mapping_def bootstrap_payload_dict fields field)
  then show ?thesis by (simp add: build_cr072_bootstrap_def Let_def bindings_match_def)
qed

text \<open>The bootstrap built for an input with a public addition, without breaking or unknown evidence, that requests 0.6.1 is
  accepted and selects 0.6.1 on a history without it, whatever the base version is; a base beyond 0.6.1 is not
  compared with the selected version.\<close>

theorem semver_bootstrap_applies:
  assumes "release_env_ok R" and "list_all (hex_id 64) [sv_source v, sv_plan v, sv_policy v]"
    and "next_version (sv_base v) (recommendation_of v) = Inr normal" and "recommendation_of v = ''next-minor''"
    and "sv_breaking v = []" and "sv_unknown v = []" and "sv_requested v = ''0.6.1''"
  shows "\<exists>b d. build_cr072_bootstrap R v = Inr b \<and> decide_semver R v (Some b) [] = Inr d \<and> sd_decision d = ''PASS''
    \<and> sd_selected d = ''0.6.1'' \<and> sd_consumption d = consumption_key R v b"
proof -
  obtain b where b: "build_cr072_bootstrap R v = Inr b" "sb_version b = ''0.6.1''" "sb_selected b = ''0.6.1''" "bindings_match R v b"
    using bootstrap_built [OF assms(1,2)] by blast
  obtain ds k where c: "check_bootstrap R v b [] = (ds, k)" by (cases "check_bootstrap R v b []")
  have "\<exists>d. decide_semver R v (Some b) [] = Inr d" by (simp add: decide_semver_def assms(3) Let_def c)
  then obtain d where d: "decide_semver R v (Some b) [] = Inr d" ..
  have "compatibility_diagnostics v = []" "fst (check_bootstrap R v b []) = []"
    using b assms(4-7) by (simp_all add: compatibility_Nil check_bootstrap_Nil(1))
  then have "sd_decision d = ''PASS'' \<and> sd_selected d = ''0.6.1'' \<and> sd_consumption d = consumption_key R v b"
    using decide_semver_Some [OF d] b(3) by (simp add: Let_def)
  then show ?thesis using b(1) d by blast
qed

section \<open>Examples\<close>

definition semver_input0 :: "string \<Rightarrow> string \<Rightarrow> semver_input" where
  "semver_input0 base requested = \<lparr>sv_package = ''pkg'', sv_cr = ''CR-072'', sv_base = base, sv_requested = requested,
     sv_operations = [''release.advance''], sv_schemas = [], sv_capabilities = [], sv_fixes = [''BUG-1''], sv_breaking = [],
     sv_unknown = [], sv_source = digest_of CHR ''a'', sv_plan = digest_of CHR ''b'', sv_policy = digest_of CHR ''c'',
     sv_compat = digest_of CHR ''d'', sv_claimed = ''patch''\<rparr>"

lemma recommendation0: "recommendation_of (semver_input0 base requested) = ''next-minor''"
  by (simp add: recommendation_of_def semver_input0_def)

lemma semver_decided0: "\<exists>d. decide_semver release_env0 (semver_input0 ''1.9.3'' ''1.10.0'') None [] = Inr d"
proof -
  have "next_version ''1.9.3'' ''next-minor'' = Inr ''1.10.0''" by code_simp
  then show ?thesis using recommendation0 [of "''1.9.3''" "''1.10.0''"]
    by (simp add: decide_semver_def Let_def semver_input0_def)
qed

theorem semver_decision_iff_witness:
  "\<exists>d. decide_semver release_env0 (semver_input0 ''1.9.3'' ''1.10.0'') None [] = Inr d \<and> sd_decision d = ''PASS''
     \<and> sd_selected d = ''1.10.0''"
proof -
  obtain d where d: "decide_semver release_env0 (semver_input0 ''1.9.3'' ''1.10.0'') None [] = Inr d" using semver_decided0 by blast
  have "next_version ''1.9.3'' ''next-minor'' = Inr ''1.10.0''" by code_simp
  then have "semver_admitted release_env0 (semver_input0 ''1.9.3'' ''1.10.0'') None []"
    using next_version_iff [of "semver_input0 ''1.9.3'' ''1.10.0''" "''1.10.0''" "''1.10.0''"] recommendation0 [of "''1.9.3''" "''1.10.0''"]
    by (simp add: semver_admitted_def semver_input0_def)
  then show ?thesis using semver_decision_iff [OF d] d by (simp add: semver_input0_def)
qed

theorem semver_selects_next_release_witness:
  "\<exists>d. decide_semver release_env0 (semver_input0 ''1.9.3'' ''1.10.0'') None [] = Inr d
     \<and> version_less (version_value ''1.9.3'') (version_value (sd_selected d))"
proof -
  obtain d where d: "decide_semver release_env0 (semver_input0 ''1.9.3'' ''1.10.0'') None [] = Inr d" using semver_decided0 by blast
  have "next_version ''1.9.3'' ''next-minor'' = Inr ''1.10.0''" by code_simp
  then have "sd_decision d = ''PASS''"
    using decide_semver_None [OF d] recommendation0 [of "''1.9.3''" "''1.10.0''"]
    by (simp add: semver_input0_def compatibility_Nil)
  moreover have "sv_base (semver_input0 ''1.9.3'' ''1.10.0'') = ''1.9.3''" by (simp add: semver_input0_def)
  ultimately show ?thesis using semver_selects_next_release [OF d] d by metis
qed

lemma semver_input0_ok:
  "list_all (hex_id 64) [sv_source (semver_input0 base r), sv_plan (semver_input0 base r), sv_policy (semver_input0 base r)]"
proof -
  have "list_all (hex_id 64) [digest_of CHR ''a'', digest_of CHR ''b'', digest_of CHR ''c'']" by code_simp
  then show ?thesis by (simp add: semver_input0_def)
qed

text \<open>From 1.4.0 the bootstrap goes back to 0.6.1.\<close>

theorem semver_bootstrap_applies_witness:
  "\<exists>b d. build_cr072_bootstrap release_env0 (semver_input0 ''1.4.0'' ''0.6.1'') = Inr b
     \<and> decide_semver release_env0 (semver_input0 ''1.4.0'' ''0.6.1'') (Some b) [] = Inr d \<and> sd_decision d = ''PASS''
     \<and> version_less (version_value (sd_selected d)) (version_value ''1.4.0'')"
proof -
  have nv: "next_version (sv_base (semver_input0 ''1.4.0'' ''0.6.1'')) (recommendation_of (semver_input0 ''1.4.0'' ''0.6.1''))
      = Inr ''1.5.0''" by code_simp
  have less: "version_less (version_value ''0.6.1'') (version_value ''1.4.0'')" by code_simp
  have parts: "sv_breaking (semver_input0 ''1.4.0'' ''0.6.1'') = []" "sv_unknown (semver_input0 ''1.4.0'' ''0.6.1'') = []"
    "sv_requested (semver_input0 ''1.4.0'' ''0.6.1'') = ''0.6.1''" by (simp_all add: semver_input0_def)
  show ?thesis using semver_bootstrap_applies [OF release_env0_ok semver_input0_ok nv recommendation0 parts] less by metis
qed


text \<open>An event that decides the version in a state at position 2 and consumes a chosen key.\<close>

lemma bootstrap_irrelevant:
  "order_diagnostics s (x\<lparr>ev_bootstrap := k\<rparr>) f t = order_diagnostics s x f t"
  "count_diagnostics s (x\<lparr>ev_bootstrap := k\<rparr>) = count_diagnostics s x"
  "build_diagnostics (x\<lparr>ev_bootstrap := k\<rparr>) t = build_diagnostics x t"
  by (simp_all add: order_diagnostics_def count_diagnostics_def build_diagnostics_def)

lemma decide_version_event:
  assumes "release_env_ok R" and "state_wf R s" and "at_position s 2" and "length (s_work s) = 2" and "s_invalid s = []"
    and "hex_id 64 k"
  shows "\<exists>e p t. ev_bootstrap e = k \<and> plan_release_advance R s e (snapshot_for s [] []) None = Inr p \<and> rp_after p = Some t"
proof -
  obtain eid where eid: "release_id_re eid" "eid \<notin> v_id ` set (s_records s)"
    using fresh_event_id [of "s_records s"] position_records [OF assms(3)] by auto
  define e where "e = (next_event s 2 eid)\<lparr>ev_bootstrap := k\<rparr>"
  have adm: "admitted_event s (next_event s 2 eid)" using next_event_admitted [OF assms(3) _ assms(4,5) eid(2)] by simp
  have act: "ev_action (next_event s 2 eid) = ''decide-version''"
    using decide_position [of 2] by (simp add: next_event_def event_for_def)
  have "k \<noteq> []" using hex_id_nonempty [OF assms(6)] by simp
  moreover have "s_bootstrap s = []" using assms(3) by (simp add: at_position_def)
  ultimately have "bootstrap_diagnostics s e = []" using act by (simp add: bootstrap_diagnostics_def e_def)
  then have "admitted_event s e" using adm unfolding admitted_event_def e_def bootstrap_irrelevant by simp
  moreover have "known_action (ev_action e)"
    using next_event_wf [OF assms(2) _ eid(1), of 2] by (simp add: event_wf_def e_def)
  then obtain p where p: "plan_release_advance R s e (snapshot_for s [] []) None = Inr p" using plan_exists by blast
  ultimately have "rp_after p = Some (advance_state R s e)" using plan_pass_iff [OF p] snapshot_for_clear by simp
  moreover have "ev_bootstrap e = k" by (simp add: e_def)
  ultimately show ?thesis using p by blast
qed

theorem semver_bootstrap_single_use_witness:
  "\<exists>b (u :: release_state) d. decide_semver release_env0 (semver_input0 ''1.4.0'' ''0.6.1'') (Some b) (s_bootstrap u) = Inr d
     \<and> sd_decision d = ''BLOCKED''"
proof -
  let ?v = "semver_input0 ''1.4.0'' ''0.6.1''"
  have nv: "next_version (sv_base ?v) (recommendation_of ?v) = Inr ''1.5.0''" by code_simp
  have parts: "sv_breaking ?v = []" "sv_unknown ?v = []" "sv_requested ?v = ''0.6.1''" by (simp_all add: semver_input0_def)
  obtain b d where d: "decide_semver release_env0 ?v (Some b) [] = Inr d" "sd_decision d = ''PASS''"
      "sd_consumption d = consumption_key release_env0 ?v b"
    using semver_bootstrap_applies [OF release_env0_ok semver_input0_ok nv recommendation0 parts] by blast
  obtain s0 where s0: "release_state0 release_env0 = Inr s0" "length (s_work s0) = 2" using release_state0_ok by blast
  have i: "initial release_env0 s0" using initial_release_state0 [OF s0(1)] .
  then have "s_invalid s0 = []" unfolding initial_def using initial_state by blast
  then obtain s where s: "state_wf release_env0 s" "at_position s 2" "length (s_work s) = 2" "s_invalid s = []"
    using run_to_position [OF release_env0_ok, of 2 s0 0] initial_position [OF i] s0(2) by auto
  have "hex_id 64 (sd_consumption d)" unfolding d(3) consumption_key_def by (rule canonical_digest_re [OF release_env0_ok])
  then obtain e p t where e: "ev_bootstrap e = sd_consumption d"
      "plan_release_advance release_env0 s e (snapshot_for s [] []) None = Inr p" "rp_after p = Some t"
    using decide_version_event [OF release_env0_ok s] by blast
  obtain ds k where c: "check_bootstrap release_env0 ?v b (s_bootstrap t) = (ds, k)"
    by (cases "check_bootstrap release_env0 ?v b (s_bootstrap t)")
  have "\<exists>d'. decide_semver release_env0 ?v (Some b) (s_bootstrap t) = Inr d'" by (simp add: decide_semver_def nv Let_def c)
  then show ?thesis
    using semver_bootstrap_single_use [OF d(1,2) e(2,3,1) release_env0_ok rtranclp.rtrancl_refl] by blast
qed

end
