(* ===== verification/Governance_Profile.thy ===== *)
theory Governance_Profile
  imports Release_State
begin

text \<open>
  The governance levels G0 to G3 (\<open>work/governance_profile.py\<close>): the effective level of a stored profile, the
  selection record by which a user asks for G3, the binding that carries a level between routes, and the plan of a
  late upgrade. The environment is that of the release documents; a route revision is an integer that is no boolean.
\<close>

section \<open>Levels\<close>

definition governance_risk_profiles :: "string list" where
  "governance_risk_profiles = [''G0'', ''G1'', ''G2'', ''G3'']"

definition high_assurance_profiles :: "string list" where
  "high_assurance_profiles = [''G2'', ''G3'']"

definition full_design_profiles :: "string list" where
  "full_design_profiles = [''G3'']"

definition profile_rank :: "string \<Rightarrow> nat" where
  "profile_rank p = length (takeWhile (\<lambda>q. q \<noteq> p) governance_risk_profiles)"

definition effective_governance_profile :: "string \<Rightarrow> pyval \<Rightarrow> string result" where
  "effective_governance_profile risk_profile schema_version =
     (if schema_version \<noteq> PInt 1 \<and> schema_version \<noteq> PInt 2
      then Inl (ValueError ''risk_profile_schema_version must be 1 or 2'')
      else if risk_profile \<notin> set governance_risk_profiles
      then Inl (ValueError ''governance risk profile must be G0, G1, G2, or G3'')
      else if schema_version = PInt 1
      then if risk_profile = ''G3'' then Inl (ValueError ''V1 governance profile does not support G3'')
        else Inr (if risk_profile = ''G2'' then ''G3'' else risk_profile)
      else Inr risk_profile)"

definition is_high_assurance :: "string \<Rightarrow> pyval \<Rightarrow> bool result" where
  "is_high_assurance p sv = let_ok (effective_governance_profile p sv) (\<lambda>e. Inr (e \<in> set high_assurance_profiles))"

definition requires_full_design :: "string \<Rightarrow> pyval \<Rightarrow> bool result" where
  "requires_full_design p sv = let_ok (effective_governance_profile p sv) (\<lambda>e. Inr (e \<in> set full_design_profiles))"

section \<open>The selection of G3\<close>

definition cr_id_re :: "string \<Rightarrow> bool" where
  "cr_id_re s = (prefix ''CR-'' s \<and> drop 3 s \<noteq> [] \<and> list_all ascii_digit (drop 3 s))"

definition source_oid_re :: "string \<Rightarrow> bool" where
  "source_oid_re s = (hex_id 40 s \<or> hex_id 64 s)"

definition selection_reasons :: "string list" where
  "selection_reasons = [''explicit-g3'', ''full-lld-requested'', ''legacy-g2-flow'']"

definition parse_time :: "release_env \<Rightarrow> string \<Rightarrow> string \<Rightarrow> int result" where
  "parse_time R fld s =
     (case r_iso R (replace_z s) of
        None \<Rightarrow> Inl (ValueError (fld @ '' must be one RFC3339 timestamp''))
      | Some (Aware t) \<Rightarrow> Inr t
      | Some _ \<Rightarrow> Inl (ValueError (fld @ '' must include a timezone'')))"

text \<open>\<open>len\<close> of a text counts code points: the bytes of its UTF-8 form that do not continue one.\<close>

definition text_length :: "string \<Rightarrow> nat" where
  "text_length s = length (filter (\<lambda>c. (of_char c :: nat) div 64 \<noteq> 2) s)"

record g3_selection =
  gs_schema :: pyval
  gs_kind :: string
  gs_cr :: string
  gs_requested :: string
  gs_source :: string
  gs_reason :: string
  gs_authorization :: string
  gs_decided :: string

text \<open>\<open>G3SelectionRecordV1.__post_init__\<close>: the record, or the error its construction raises.\<close>

definition mk_selection :: "release_env \<Rightarrow> g3_selection \<Rightarrow> g3_selection result" where
  "mk_selection R g =
     let_ok (guard (py_eq (gs_schema g) (PInt 1) \<and> gs_kind g = ''G3SelectionRecordV1'') ''G3_SELECTION_SCHEMA_INVALID'') (\<lambda>_.
     let_ok (guard (cr_id_re (gs_cr g)) ''G3_SELECTION_CR_ID_INVALID'') (\<lambda>_.
     let_ok (guard (gs_requested g = ''G3'') ''G3_SELECTION_PROFILE_INVALID'') (\<lambda>_.
     let_ok (guard (gs_source g = ''user-explicit'') ''G3_SELECTION_SOURCE_INVALID'') (\<lambda>_.
     let_ok (guard (gs_reason g \<in> set selection_reasons) ''G3_SELECTION_REASON_INVALID'') (\<lambda>_.
     let_ok (guard (8 \<le> text_length (gs_authorization g)) ''G3_SELECTION_AUTHORIZATION_REF_INVALID'') (\<lambda>_.
     let_ok (parse_time R ''decided_at'' (gs_decided g)) (\<lambda>_. Inr g)))))))"

definition selection_fields :: "string list" where
  "selection_fields = [''schema_version'', ''kind'', ''cr_id'', ''requested_profile'', ''selection_source'',
     ''selection_reason'', ''authorization_ref'', ''decided_at'']"

definition selection_from_mapping :: "release_env \<Rightarrow> pydict \<Rightarrow> g3_selection result" where
  "selection_from_mapping R d =
     (if dkeys d \<noteq> set selection_fields then Inl (ValueError ''G3_SELECTION_FIELDS_INVALID'')
      else mk_selection R \<lparr>gs_schema = dget d ''schema_version'', gs_kind = py_str (dget d ''kind''),
        gs_cr = py_str (dget d ''cr_id''), gs_requested = py_str (dget d ''requested_profile''),
        gs_source = py_str (dget d ''selection_source''), gs_reason = py_str (dget d ''selection_reason''),
        gs_authorization = py_str (dget d ''authorization_ref''), gs_decided = py_str (dget d ''decided_at'')\<rparr>)"

definition selection_as_dict :: "g3_selection \<Rightarrow> pydict" where
  "selection_as_dict g =
     [(''authorization_ref'', PStr (gs_authorization g)), (''cr_id'', PStr (gs_cr g)), (''decided_at'', PStr (gs_decided g)),
      (''kind'', PStr (gs_kind g)), (''requested_profile'', PStr (gs_requested g)), (''schema_version'', gs_schema g),
      (''selection_reason'', PStr (gs_reason g)), (''selection_source'', PStr (gs_source g))]"

definition selection_digest :: "release_env \<Rightarrow> g3_selection \<Rightarrow> string" where
  "selection_digest R g = canonical_digest R (PDict (selection_as_dict g))"

text \<open>What a caller presents with a selection: the change, the source, the authorization and the channel.\<close>

record selection_context =
  sx_cr :: string
  sx_source_oid :: string
  sx_authorization :: string
  sx_channel :: string

definition binding_errors :: "g3_selection \<Rightarrow> selection_context \<Rightarrow> int \<Rightarrow> string list" where
  "binding_errors g x revision =
     (if gs_cr g \<noteq> sx_cr x then [''G3_SELECTION_CR_ID_MISMATCH''] else [])
     @ (if \<not> source_oid_re (sx_source_oid x) then [''G3_SELECTION_SOURCE_OID_INVALID''] else [])
     @ (if revision < 1 then [''G3_SELECTION_ROUTE_REVISION_INVALID''] else [])
     @ (if \<not> digest_re (sx_authorization x) then [''G3_SELECTION_AUTHORIZATION_DIGEST_REQUIRED''] else [])
     @ (if sx_channel x \<noteq> ''host-injection'' then [''G3_SELECTION_PROVENANCE_INVALID''] else [])"

section \<open>The binding\<close>

record profile_binding =
  gb_schema :: int
  gb_profile :: string
  gb_effective :: string
  gb_source :: string
  gb_record :: string
  gb_authorization :: string
  gb_oid :: string
  gb_revision :: int

text \<open>\<open>GovernanceProfileBindingV2.__post_init__\<close>.\<close>

definition mk_binding :: "profile_binding \<Rightarrow> profile_binding result" where
  "mk_binding b =
     let_ok (guard (gb_schema b = 2) ''GOVERNANCE_PROFILE_BINDING_SCHEMA_INVALID'') (\<lambda>_.
     let_ok (effective_governance_profile (gb_profile b) (PInt (gb_schema b))) (\<lambda>expected.
     let_ok (guard (gb_effective b = expected) ''GOVERNANCE_PROFILE_BINDING_EFFECTIVE_PROFILE_MISMATCH'') (\<lambda>_.
     let_ok (guard (1 \<le> gb_revision b) ''GOVERNANCE_PROFILE_BINDING_ROUTE_REVISION_INVALID'') (\<lambda>_.
     if gb_profile b = ''G3''
     then let_ok (guard (gb_source b = ''user-explicit'') ''GOVERNANCE_PROFILE_BINDING_G3_SOURCE_INVALID'') (\<lambda>_.
       let_ok (guard (digest_re (gb_record b)) ''GOVERNANCE_PROFILE_BINDING_G3_DIGEST_INVALID'') (\<lambda>_.
       let_ok (guard (digest_re (gb_authorization b)) ''GOVERNANCE_PROFILE_BINDING_G3_AUTHORIZATION_DIGEST_INVALID'') (\<lambda>_.
       let_ok (guard (source_oid_re (gb_oid b)) ''GOVERNANCE_PROFILE_BINDING_G3_SOURCE_OID_INVALID'') (\<lambda>_. Inr b))))
     else let_ok (guard (gb_source b = ''system-default'' \<and> gb_record b = [] \<and> gb_authorization b = [] \<and> gb_oid b = [])
         ''GOVERNANCE_PROFILE_BINDING_DEFAULT_SOURCE_INVALID'') (\<lambda>_. Inr b)))))"

definition binding_as_dict :: "profile_binding \<Rightarrow> pydict" where
  "binding_as_dict b =
     [(''effective_profile'', PStr (gb_effective b)), (''risk_profile'', PStr (gb_profile b)),
      (''route_revision'', PInt (gb_revision b)), (''schema_version'', PInt (gb_schema b)),
      (''selection_authorization_digest'', PStr (gb_authorization b)), (''selection_record_digest'', PStr (gb_record b)),
      (''selection_source'', PStr (gb_source b)), (''selection_source_oid'', PStr (gb_oid b))]"

definition binding_digest :: "release_env \<Rightarrow> profile_binding \<Rightarrow> string" where
  "binding_digest R b = canonical_digest R (PDict (binding_as_dict b))"

definition build_profile_binding :: "release_env \<Rightarrow> string \<Rightarrow> int \<Rightarrow> g3_selection option \<Rightarrow> string \<Rightarrow> string \<Rightarrow> int
    \<Rightarrow> profile_binding result" where
  "build_profile_binding R risk_profile schema_version selection auth oid revision =
     let_ok
       (if risk_profile = ''G3''
        then (case selection of
            None \<Rightarrow> Inl (ValueError ''G3_SELECTION_REQUIRED'')
          | Some g \<Rightarrow>
            let_ok (guard (digest_re auth) ''G3_SELECTION_AUTHORIZATION_DIGEST_REQUIRED'') (\<lambda>_.
            let_ok (guard (source_oid_re oid) ''G3_SELECTION_SOURCE_OID_INVALID'') (\<lambda>_.
            Inr (''user-explicit'', selection_digest R g, auth, oid))))
        else let_ok (guard (selection = None) ''G3_SELECTION_WITH_NON_G3_PROFILE'') (\<lambda>_.
          Inr (''system-default'', [], [], [])))
       (\<lambda>(source, record, auth, oid).
     let_ok (effective_governance_profile risk_profile (PInt schema_version)) (\<lambda>effective.
     mk_binding \<lparr>gb_schema = schema_version, gb_profile = risk_profile, gb_effective = effective, gb_source = source,
       gb_record = record, gb_authorization = auth, gb_oid = oid, gb_revision = revision\<rparr>))"

section \<open>Late upgrades\<close>

record profile_transition =
  gt_decision :: string
  gt_from :: string
  gt_to :: string
  gt_revision :: int
  gt_resume :: string
  gt_invalidated :: "string list"
  gt_reasons :: "string list"

definition checkpoints :: "string list" where
  "checkpoints = [''CP0'', ''CP1'', ''CP2'', ''CP3'', ''CP4'', ''CP5'', ''CP6'', ''CP7'', ''CP8'']"

definition checkpoint_index :: "string \<Rightarrow> nat" where
  "checkpoint_index c = length (takeWhile (\<lambda>x. x \<noteq> c) checkpoints)"

definition stay :: "string \<Rightarrow> profile_binding \<Rightarrow> string \<Rightarrow> string list \<Rightarrow> profile_transition" where
  "stay decision b checkpoint reasons =
     \<lparr>gt_decision = decision, gt_from = gb_effective b, gt_to = gb_effective b, gt_revision = gb_revision b,
      gt_resume = checkpoint, gt_invalidated = [], gt_reasons = reasons\<rparr>"

definition plan_profile_transition :: "profile_binding \<Rightarrow> string \<Rightarrow> g3_selection option \<Rightarrow> selection_context \<Rightarrow> string
    \<Rightarrow> profile_transition result" where
  "plan_profile_transition b requested selection x checkpoint =
     (if requested \<notin> set governance_risk_profiles
      then Inl (ValueError ''requested_profile must be G0, G1, G2, or G3'')
      else if gb_effective b \<notin> set governance_risk_profiles then Inl (KeyError (gb_effective b))
      else if profile_rank requested < profile_rank (gb_effective b)
      then Inr (stay ''BLOCKED'' b checkpoint [''DOWNGRADE_REJECTED''])
      else if requested = gb_effective b then Inr (stay ''NO_CHANGE'' b checkpoint [])
      else case (if requested \<noteq> ''G3'' then None else selection) of
        None \<Rightarrow> Inr (stay ''BLOCKED'' b checkpoint [''G3_SELECTION_REQUIRED''])
      | Some g \<Rightarrow>
        (let errors = binding_errors g x (gb_revision b + 1); normal = py_upper checkpoint in
         if errors \<noteq> [] then Inr (stay ''BLOCKED'' b checkpoint errors)
         else if normal \<notin> set checkpoints then Inl (ValueError ''current_checkpoint must be CP0..CP8'')
         else let invalidated = (if 3 \<le> checkpoint_index normal then [''CP3'', ''CP4'', ''CP5''] else []) in
           Inr \<lparr>gt_decision = ''READY'', gt_from = gb_effective b, gt_to = ''G3'', gt_revision = gb_revision b + 1,
             gt_resume = (if invalidated \<noteq> [] then ''CP3'' else normal), gt_invalidated = invalidated,
             gt_reasons = [''USER_REQUESTED_FULL_LLD_G3'']\<rparr>))"

definition transition_as_dict :: "profile_transition \<Rightarrow> pydict" where
  "transition_as_dict t =
     [(''decision'', PStr (gt_decision t)), (''from_profile'', PStr (gt_from t)),
      (''invalidated_checkpoints'', PList (map PStr (gt_invalidated t))), (''kind'', PStr ''GovernanceProfileTransitionV1''),
      (''mutation_count'', PInt 0), (''reason_codes'', PList (map PStr (gt_reasons t))),
      (''resume_checkpoint'', PStr (gt_resume t)), (''route_revision'', PInt (gt_revision t)), (''schema_version'', PInt 1),
      (''to_profile'', PStr (gt_to t))]"

section \<open>What the records guarantee\<close>

lemma mk_selection_Inr [read_simps]:
  "mk_selection R g = Inr g' \<longleftrightarrow> g' = g \<and> py_eq (gs_schema g) (PInt 1) \<and> gs_kind g = ''G3SelectionRecordV1'' \<and> cr_id_re (gs_cr g)
     \<and> gs_requested g = ''G3'' \<and> gs_source g = ''user-explicit'' \<and> gs_reason g \<in> set selection_reasons
     \<and> 8 \<le> text_length (gs_authorization g) \<and> (\<exists>t. r_iso R (replace_z (gs_decided g)) = Some (Aware t))"
  by (auto simp: mk_selection_def read_simps parse_time_def split: option.splits instant.splits)

definition binding_wf :: "profile_binding \<Rightarrow> bool" where
  "binding_wf b = (gb_schema b = 2 \<and> gb_profile b \<in> set governance_risk_profiles \<and> gb_effective b = gb_profile b
     \<and> 1 \<le> gb_revision b
     \<and> (if gb_profile b = ''G3''
        then gb_source b = ''user-explicit'' \<and> digest_re (gb_record b) \<and> digest_re (gb_authorization b) \<and> source_oid_re (gb_oid b)
        else gb_source b = ''system-default'' \<and> gb_record b = [] \<and> gb_authorization b = [] \<and> gb_oid b = []))"

lemma mk_binding_Inr [read_simps]: "mk_binding b = Inr b' \<longleftrightarrow> b' = b \<and> binding_wf b"
  by (auto simp: mk_binding_def binding_wf_def read_simps effective_governance_profile_def)

lemma build_binding_Inr:
  "build_profile_binding R p 2 sel auth oid revision = Inr b \<longleftrightarrow>
     binding_wf b \<and> gb_profile b = p \<and> gb_revision b = revision
     \<and> (case sel of None \<Rightarrow> p \<noteq> ''G3''
        | Some g \<Rightarrow> p = ''G3'' \<and> gb_record b = selection_digest R g \<and> gb_authorization b = auth \<and> gb_oid b = oid)"
proof -
  have eff: "effective_governance_profile p (PInt 2) = Inr e \<longleftrightarrow> p \<in> set governance_risk_profiles \<and> e = p" for p e
    by (auto simp: effective_governance_profile_def)
  show ?thesis
    by (cases b; cases "p = ''G3''"; cases sel) (auto simp: build_profile_binding_def read_simps binding_wf_def eff)
qed

section \<open>Upgrades\<close>

lemma profile_ranks:
  "p \<in> set governance_risk_profiles \<Longrightarrow> profile_rank p \<le> 3 \<and> (profile_rank p = 3 \<longleftrightarrow> p = ''G3'')"
proof -
  have "list_all (\<lambda>p. profile_rank p \<le> 3 \<and> (profile_rank p = 3) = (p = ''G3'')) governance_risk_profiles" by code_simp
  then show "p \<in> set governance_risk_profiles \<Longrightarrow> ?thesis" by (simp only: list_all_iff)
qed

definition bound_selection :: "g3_selection \<Rightarrow> selection_context \<Rightarrow> int \<Rightarrow> bool" where
  "bound_selection g x revision = (gs_cr g = sx_cr x \<and> source_oid_re (sx_source_oid x) \<and> 1 \<le> revision
     \<and> digest_re (sx_authorization x) \<and> sx_channel x = ''host-injection'')"

lemma binding_errors_Nil [simp]: "binding_errors g x revision = [] \<longleftrightarrow> bound_selection g x revision"
  by (auto simp: binding_errors_def bound_selection_def)

lemma selection_digest_re: "release_env_ok R \<Longrightarrow> digest_re (selection_digest R g)"
  by (simp add: selection_digest_def canonical_digest_def release_env_ok_def)

lemma plan_ready:
  assumes "binding_wf b"
  shows "(\<exists>t. plan_profile_transition b requested sel x checkpoint = Inr t \<and> gt_decision t = ''READY'' \<and> P t) \<longleftrightarrow>
    requested = ''G3'' \<and> gb_profile b \<noteq> ''G3'' \<and> py_upper checkpoint \<in> set checkpoints
    \<and> (\<exists>g. sel = Some g \<and> bound_selection g x (gb_revision b + 1))
    \<and> P \<lparr>gt_decision = ''READY'', gt_from = gb_profile b, gt_to = ''G3'', gt_revision = gb_revision b + 1,
         gt_resume = (if 3 \<le> checkpoint_index (py_upper checkpoint) then ''CP3'' else py_upper checkpoint),
         gt_invalidated = (if 3 \<le> checkpoint_index (py_upper checkpoint) then [''CP3'', ''CP4'', ''CP5''] else []),
         gt_reasons = [''USER_REQUESTED_FULL_LLD_G3'']\<rparr>"
proof -
  have b: "gb_effective b = gb_profile b" "gb_profile b \<in> set governance_risk_profiles" using assms by (simp_all add: binding_wf_def)
  have g3: "''G3'' \<in> set governance_risk_profiles" by code_simp
  have lt: "gb_profile b \<noteq> ''G3'' \<Longrightarrow> \<not> profile_rank ''G3'' < profile_rank (gb_profile b)"
    using profile_ranks [OF b(2)] profile_ranks [OF g3] by simp
  have neq: "''BLOCKED'' \<noteq> ''READY''" "''NO_CHANGE'' \<noteq> ''READY''" by code_simp+
  show ?thesis
    using b g3 lt neq by (cases sel) (auto simp: plan_profile_transition_def stay_def Let_def split: if_splits)
qed


lemma build_bound:
  assumes "release_env_ok R" and "bound_selection g x revision"
  shows "\<exists>b'. build_profile_binding R ''G3'' 2 (Some g) (sx_authorization x) (sx_source_oid x) revision = Inr b'
     \<and> binding_wf b' \<and> gb_record b' = selection_digest R g \<and> gb_revision b' = revision"
proof -
  let ?b = "\<lparr>gb_schema = 2, gb_profile = ''G3'', gb_effective = ''G3'', gb_source = ''user-explicit'',
    gb_record = selection_digest R g, gb_authorization = sx_authorization x, gb_oid = sx_source_oid x, gb_revision = revision\<rparr>"
  have "''G3'' \<in> set governance_risk_profiles" by code_simp
  then have wf: "binding_wf ?b" using assms selection_digest_re by (simp add: binding_wf_def bound_selection_def)
  then have "build_profile_binding R ''G3'' 2 (Some g) (sx_authorization x) (sx_source_oid x) revision = Inr ?b"
    unfolding build_binding_Inr by simp
  then show ?thesis using wf by auto
qed

text \<open>One late upgrade: a READY plan for a valid selection, and the binding of the next route revision.\<close>

inductive upgrade :: "release_env \<Rightarrow> profile_binding \<Rightarrow> profile_binding \<Rightarrow> bool" for R where
  "mk_selection R g = Inr g \<Longrightarrow> plan_profile_transition b requested (Some g) x checkpoint = Inr t \<Longrightarrow> gt_decision t = ''READY''
   \<Longrightarrow> build_profile_binding R (gt_to t) 2 (Some g) (sx_authorization x) (sx_source_oid x) (gt_revision t) = Inr b'
   \<Longrightarrow> upgrade R b b'"

inductive_cases upgradeE: "upgrade R b b'"

lemma upgrade_step:
  assumes "upgrade R b b'" and "binding_wf b"
  shows "binding_wf b' \<and> gb_profile b \<noteq> ''G3'' \<and> gb_profile b' = ''G3'' \<and> gb_revision b' = gb_revision b + 1
    \<and> (\<exists>g. mk_selection R g = Inr g \<and> gb_record b' = selection_digest R g)"
proof -
  obtain g requested x checkpoint t where g: "mk_selection R g = Inr g"
    and t: "plan_profile_transition b requested (Some g) x checkpoint = Inr t" "gt_decision t = ''READY''"
    and b': "build_profile_binding R (gt_to t) 2 (Some g) (sx_authorization x) (sx_source_oid x) (gt_revision t) = Inr b'"
    using upgradeE [OF assms(1)] by metis
  have "\<exists>u. plan_profile_transition b requested (Some g) x checkpoint = Inr u \<and> gt_decision u = ''READY''
      \<and> (gt_to u = gt_to t \<and> gt_revision u = gt_revision t)" using t by simp
  then have "gb_profile b \<noteq> ''G3''" "gt_to t = ''G3''" "gt_revision t = gb_revision b + 1"
    unfolding plan_ready [OF assms(2)] by auto
  then show ?thesis using b' g by (auto simp: build_binding_Inr)
qed

text \<open>A READY transition can be carried out. For a well-formed binding a plan is READY exactly when G3 is requested by a
  selection bound to the change, the source, the authorization and the host channel, the binding is not yet G3 and the
  checkpoint is known; then the binding of the next revision can be built from the same selection, it is well-formed and
  names that selection, and work resumes no later than CP3.\<close>

theorem ready_transition_builds_binding:
  assumes "release_env_ok R" and "binding_wf b" and "mk_selection R g = Inr g"
  shows "((\<exists>t. plan_profile_transition b requested (Some g) x checkpoint = Inr t \<and> gt_decision t = ''READY'') \<longleftrightarrow>
      requested = ''G3'' \<and> gb_profile b \<noteq> ''G3'' \<and> py_upper checkpoint \<in> set checkpoints
      \<and> bound_selection g x (gb_revision b + 1))
    \<and> (\<forall>t. plan_profile_transition b requested (Some g) x checkpoint = Inr t \<and> gt_decision t = ''READY'' \<longrightarrow>
      checkpoint_index (gt_resume t) \<le> 3
      \<and> (\<exists>b'. build_profile_binding R (gt_to t) 2 (Some g) (sx_authorization x) (sx_source_oid x) (gt_revision t) = Inr b'
           \<and> binding_wf b' \<and> gb_record b' = selection_digest R g \<and> gb_revision b' = gb_revision b + 1))"
proof (intro conjI allI impI)
  show "(\<exists>t. plan_profile_transition b requested (Some g) x checkpoint = Inr t \<and> gt_decision t = ''READY'') \<longleftrightarrow>
      requested = ''G3'' \<and> gb_profile b \<noteq> ''G3'' \<and> py_upper checkpoint \<in> set checkpoints
      \<and> bound_selection g x (gb_revision b + 1)"
    using plan_ready [OF assms(2), of requested "Some g" x checkpoint "\<lambda>_. True"] by simp
next
  fix t
  assume t: "plan_profile_transition b requested (Some g) x checkpoint = Inr t \<and> gt_decision t = ''READY''"
  have "\<exists>u. plan_profile_transition b requested (Some g) x checkpoint = Inr u \<and> gt_decision u = ''READY'' \<and> u = t" using t by simp
  then have facts: "bound_selection g x (gb_revision b + 1)" "gt_to t = ''G3''" "gt_revision t = gb_revision b + 1"
    "gt_resume t = (if 3 \<le> checkpoint_index (py_upper checkpoint) then ''CP3'' else py_upper checkpoint)"
    unfolding plan_ready [OF assms(2)] by auto
  have "checkpoint_index ''CP3'' = 3" by code_simp
  then show "checkpoint_index (gt_resume t) \<le> 3" using facts(4) by simp
  show "\<exists>b'. build_profile_binding R (gt_to t) 2 (Some g) (sx_authorization x) (sx_source_oid x) (gt_revision t) = Inr b'
       \<and> binding_wf b' \<and> gb_record b' = selection_digest R g \<and> gb_revision b' = gb_revision b + 1"
    unfolding facts by (rule build_bound [OF assms(1) facts(1)])
qed

text \<open>A governance level is raised at most once and never lowered. Any sequence of late upgrades from a well-formed binding
  has at most one step; it ends in a well-formed binding of at least the same level, and after a step that binding is G3,
  one revision later, and names a valid selection of the user.\<close>

theorem upgrades_are_final:
  assumes "binding_wf b" and "(upgrade R ^^ n) b b'"
  shows "n \<le> 1 \<and> binding_wf b' \<and> profile_rank (gb_profile b) \<le> profile_rank (gb_profile b')
    \<and> gb_revision b' = gb_revision b + int n
    \<and> (n = 1 \<longrightarrow> gb_profile b' = ''G3'' \<and> (\<exists>g. mk_selection R g = Inr g \<and> gb_record b' = selection_digest R g))"
proof (cases n)
  case 0
  then show ?thesis using assms by simp
next
  case (Suc m)
  then obtain c where c: "upgrade R b c" and r: "(upgrade R ^^ m) c b'" using relpowp_Suc_D2 [of m "upgrade R" b b'] assms(2) by blast
  note s = upgrade_step [OF c assms(1)]
  have "m = 0"
  proof (cases m)
    case (Suc k)
    then obtain e where "upgrade R c e" using relpowp_Suc_D2 [of k "upgrade R" c b'] r by blast
    then show ?thesis using upgrade_step s by blast
  qed
  moreover have "''G3'' \<in> set governance_risk_profiles" by code_simp
  then have "profile_rank (gb_profile b) \<le> profile_rank ''G3''"
    using profile_ranks [of "''G3''"] profile_ranks [of "gb_profile b"] assms(1) by (simp add: binding_wf_def)
  ultimately show ?thesis using Suc s r by auto
qed

section \<open>An example\<close>

definition selection0 :: g3_selection where
  "selection0 = \<lparr>gs_schema = PInt 1, gs_kind = ''G3SelectionRecordV1'', gs_cr = ''CR-076'', gs_requested = ''G3'',
     gs_source = ''user-explicit'', gs_reason = ''full-lld-requested'', gs_authorization = ''process/auth.json'',
     gs_decided = ''2026-01-01T00:00:00+00:00''\<rparr>"

definition context0 :: selection_context where
  "context0 = \<lparr>sx_cr = ''CR-076'', sx_source_oid = replicate 40 (CHR ''a''), sx_authorization = digest_of CHR ''b'',
     sx_channel = ''host-injection''\<rparr>"

definition binding0 :: profile_binding where
  "binding0 = \<lparr>gb_schema = 2, gb_profile = ''G1'', gb_effective = ''G1'', gb_source = ''system-default'', gb_record = [],
     gb_authorization = [], gb_oid = [], gb_revision = 1\<rparr>"

lemma profile_example: "binding_wf binding0" "bound_selection selection0 context0 2" "py_upper ''cp5'' \<in> set checkpoints"
  "mk_selection release_env0 selection0 = Inr selection0"
proof -
  have "r_iso release_env0 (replace_z ''2026-01-01T00:00:00+00:00'') = Some (Aware 2026)" by code_simp
  moreover have "py_eq (PInt 1) (PInt 1) \<and> cr_id_re ''CR-076'' \<and> ''full-lld-requested'' \<in> set selection_reasons
      \<and> 8 \<le> text_length ''process/auth.json''" by code_simp
  ultimately show "mk_selection release_env0 selection0 = Inr selection0" unfolding mk_selection_Inr by (simp add: selection0_def)
qed code_simp+

theorem ready_transition_builds_binding_witness:
  "\<exists>t b'. plan_profile_transition binding0 ''G3'' (Some selection0) context0 ''cp5'' = Inr t \<and> gt_decision t = ''READY''
     \<and> build_profile_binding release_env0 (gt_to t) 2 (Some selection0) (sx_authorization context0) (sx_source_oid context0)
         (gt_revision t) = Inr b' \<and> gb_revision b' = 2"
proof -
  have one: "gb_profile binding0 \<noteq> ''G3''" "gb_revision binding0 = 1" by (simp_all add: binding0_def)
  note p = ready_transition_builds_binding [OF release_env0_ok profile_example(1) profile_example(4), of "''G3''" context0 "''cp5''"]
  then have "\<exists>t. plan_profile_transition binding0 ''G3'' (Some selection0) context0 ''cp5'' = Inr t \<and> gt_decision t = ''READY''"
    using profile_example(2,3) one by simp
  then show ?thesis using p one(2) by force
qed

theorem upgrades_are_final_witness:
  "\<exists>b'. (upgrade release_env0 ^^ 1) binding0 b' \<and> gb_profile b' = ''G3'' \<and> profile_rank ''G1'' \<le> profile_rank (gb_profile b')"
proof -
  obtain t b' where t: "plan_profile_transition binding0 ''G3'' (Some selection0) context0 ''cp5'' = Inr t" "gt_decision t = ''READY''"
    "build_profile_binding release_env0 (gt_to t) 2 (Some selection0) (sx_authorization context0) (sx_source_oid context0)
       (gt_revision t) = Inr b'"
    using plan_ready [OF profile_example(1), of "''G3''" "Some selection0" context0 "''cp5''"
        "\<lambda>t. \<exists>b'. build_profile_binding release_env0 (gt_to t) 2 (Some selection0) (sx_authorization context0)
           (sx_source_oid context0) (gt_revision t) = Inr b'"] profile_example(2,3) build_bound [OF release_env0_ok profile_example(2)]
    by (force simp: binding0_def)
  have u: "(upgrade release_env0 ^^ 1) binding0 b'"
    unfolding relpowp_1 by (rule upgrade.intros [OF profile_example(4) t])
  have "gb_profile binding0 = ''G1''" by (simp add: binding0_def)
  then show ?thesis using upgrades_are_final [OF profile_example(1) u] u by auto
qed

end
