(* ===== verification/Work_Risk.thy ===== *)
theory Work_Risk
  imports Governance_Profile Work_Budget
begin

text \<open>
  The classification of a change (\<open>work/risk.py\<close>): the risk facts, the base level they call for, the guarded
  upgrade to a requested level or to G3, and the gates and the budget of the result.
\<close>

section \<open>Facts\<close>

definition low_change_kinds :: "string list" where
  "low_change_kinds = [''documentation'', ''config'', ''mechanical'']"

definition high_risk_codes :: "string list" where
  "high_risk_codes = [''PUBLIC_CONTRACT'', ''ARCHITECTURE_BOUNDARY'', ''SECURITY'', ''PERMISSIONS'',
     ''IRREVERSIBLE_MIGRATION'', ''PRODUCTION_WRITE'', ''FORMAL_RELEASE'', ''STRONG_AUDIT'', ''RISK_ACCEPTANCE'',
     ''CROSS_PHASE_RESTRUCTURE'', ''NEW_REMOTE'', ''PROTECTED_REF'', ''TAG'', ''EXTERNAL_PUBLICATION'']"

record risk_facts =
  rf_kind :: string
  rf_paths :: int
  rf_reversible :: bool
  rf_multi_module :: bool
  rf_internal_interface :: bool
  rf_multi_step :: bool
  rf_push :: bool
  rf_preauthorized :: bool
  rf_public_contract :: bool
  rf_architecture_boundary :: bool
  rf_security :: bool
  rf_permissions :: bool
  rf_irreversible_migration :: bool
  rf_production_write :: bool
  rf_formal_release :: bool
  rf_strong_audit :: bool
  rf_risk_acceptance :: bool
  rf_cross_phase :: bool
  rf_new_remote :: bool
  rf_protected_ref :: bool
  rf_tag :: bool
  rf_external_publication :: bool
  rf_requested_lld :: bool
  rf_unknown :: "string list"

text \<open>The values of the high-risk fields, in the order of \<open>HIGH_RISK_FIELDS\<close>.\<close>

definition high_risk_flags :: "risk_facts \<Rightarrow> bool list" where
  "high_risk_flags f = [rf_public_contract f, rf_architecture_boundary f, rf_security f, rf_permissions f,
     rf_irreversible_migration f, rf_production_write f, rf_formal_release f, rf_strong_audit f, rf_risk_acceptance f,
     rf_cross_phase f, rf_new_remote f, rf_protected_ref f, rf_tag f, rf_external_publication f]"

definition high_risk_fields :: "risk_facts \<Rightarrow> (bool \<times> string) list" where
  "high_risk_fields f = zip (high_risk_flags f) high_risk_codes"

text \<open>\<open>RiskFacts.__post_init__\<close>.\<close>

definition mk_facts :: "risk_facts \<Rightarrow> risk_facts result" where
  "mk_facts f =
     let_ok (guard (rf_kind f \<noteq> []) ''change_kind is required'') (\<lambda>_.
     let_ok (guard (0 \<le> rf_paths f) ''touched_path_count must be non-negative'') (\<lambda>_.
     let_ok (guard (distinct (rf_unknown f)) ''unknown_high_risk_facts contains duplicates'') (\<lambda>_. Inr f)))"

section \<open>Classification\<close>

record classification =
  k_container :: string
  k_profile :: string
  k_reasons :: "string list"
  k_budget :: "budget_limit option"
  k_gates :: "string list"
  k_blocked :: bool
  k_schema :: int
  k_source :: string
  k_record :: string
  k_authorization :: string
  k_oid :: string
  k_revision :: int

text \<open>What the caller asks for: a level, a selection already read or still a mapping, and its context.\<close>

datatype selection_argument = No_Selection | Selected g3_selection | Untyped_Selection pydict

record risk_request =
  rq_cr :: bool
  rq_profile :: "string option"
  rq_g2_budget :: "budget_limit option"
  rq_selection :: selection_argument
  rq_context :: selection_context
  rq_revision :: int

text \<open>\<open>tuple(dict.fromkeys(reasons))\<close>: every reason once, at its first place.\<close>

fun unique_reasons :: "string list \<Rightarrow> string list" where
  "unique_reasons [] = []"
| "unique_reasons (r # rs) = r # filter (\<lambda>x. x \<noteq> r) (unique_reasons rs)"

definition read_selection :: "release_env \<Rightarrow> selection_argument \<Rightarrow> g3_selection option result" where
  "read_selection R a =
     (case a of
        No_Selection \<Rightarrow> Inr None
      | Selected g \<Rightarrow> Inr (Some g)
      | Untyped_Selection d \<Rightarrow> let_ok (selection_from_mapping R d) (\<lambda>g. Inr (Some g)))"

definition high_reasons :: "risk_facts \<Rightarrow> bool \<Rightarrow> string list" where
  "high_reasons f requested_cr = map snd (filter fst (high_risk_fields f)) @ (if requested_cr then [''USER_REQUESTED_CR''] else [])"

definition unknown_reasons :: "risk_facts \<Rightarrow> string list" where
  "unknown_reasons f = map (\<lambda>i. ''UNKNOWN_'' @ replace_char CHR ''-'' CHR ''_'' (py_upper i)) (rf_unknown f)"

text \<open>Level, container and reasons from the facts alone.\<close>

definition fact_level :: "risk_facts \<Rightarrow> bool \<Rightarrow> string \<times> string \<times> string list" where
  "fact_level f requested_cr =
     (if high_reasons f requested_cr \<noteq> [] \<or> unknown_reasons f \<noteq> []
      then (''G2'', ''cr'', high_reasons f requested_cr @ unknown_reasons f)
      else if rf_kind f \<in> set low_change_kinds \<and> rf_paths f \<le> 1 \<and> rf_reversible f \<and> \<not> rf_multi_module f
        \<and> \<not> rf_internal_interface f \<and> \<not> rf_multi_step f
      then (''G0'', ''work'', [''REVERSIBLE_LOCAL_CHANGE''])
      else (''G1'', ''work'', [''STANDARD_MULTI_FILE_OR_MULTI_STEP_CHANGE'']
        @ (if \<not> rf_reversible f then [''NON_REVERSIBLE_LOCAL_CHANGE''] else [])
        @ (if rf_multi_module f then [''MULTI_MODULE''] else [])
        @ (if rf_internal_interface f then [''INTERNAL_INTERFACE''] else [])
        @ (if rf_multi_step f then [''MULTI_STEP''] else [])))"

text \<open>The push of a repository.\<close>

definition base_level :: "risk_facts \<Rightarrow> bool \<Rightarrow> string \<times> string \<times> string list" where
  "base_level f requested_cr =
     (case fact_level f requested_cr of (base, container, reasons) \<Rightarrow>
        if rf_push f
        then if rf_preauthorized f \<and> base \<noteq> ''G2'' then (base, container, reasons @ [''PREAUTHORIZED_REPOSITORY_PUSH''])
          else if \<not> rf_preauthorized f then (''G2'', ''cr'', reasons @ [''UNAUTHORIZED_REPOSITORY_PUSH_TARGET''])
          else (base, container, reasons)
        else (base, container, reasons))"

definition selection_errors :: "g3_selection option \<Rightarrow> risk_request \<Rightarrow> string list" where
  "selection_errors selection q =
     (case selection of
        None \<Rightarrow> [''G3_SELECTION_REQUIRED'']
      | Some g \<Rightarrow>
        if sx_cr (rq_context q) = [] \<or> sx_source_oid (rq_context q) = [] then [''G3_SELECTION_BINDING_CONTEXT_REQUIRED'']
        else binding_errors g (rq_context q) (rq_revision q))"

definition g3_requested :: "risk_facts \<Rightarrow> risk_request \<Rightarrow> g3_selection option \<Rightarrow> bool" where
  "g3_requested f q selection = (rq_profile q = Some ''G3'' \<or> rf_requested_lld f \<or> selection \<noteq> None)"

text \<open>The final level and the reasons it adds.\<close>

definition final_level :: "string \<Rightarrow> risk_facts \<Rightarrow> risk_request \<Rightarrow> g3_selection option \<Rightarrow> string \<times> string list" where
  "final_level base f q selection =
     (if g3_requested f q selection
      then if selection_errors selection q = [] then (''G3'', [''USER_REQUESTED_FULL_LLD_G3''])
        else (''G2'', selection_errors selection q)
      else case rq_profile q of
        None \<Rightarrow> (base, [])
      | Some p \<Rightarrow>
        if profile_rank base < profile_rank p then (p, [''USER_UPGRADED_TO_'' @ p])
        else if profile_rank p < profile_rank base then (base, [''DOWNGRADE_REJECTED'']) else (base, []))"

text \<open>The decision, once the selection is read: gates, budget and bindings of the final level.\<close>

definition decide_classification :: "release_env \<Rightarrow> risk_facts \<Rightarrow> risk_request \<Rightarrow> g3_selection option \<Rightarrow> classification" where
  "decide_classification R f q selection =
     (let (base, container, reasons) = base_level f (rq_cr q);
          (final, added) = final_level base f q selection;
          low = (final = ''G0'' \<or> final = ''G1'');
          budget = (if final = ''G0'' then Some G0_BUDGET else if final = ''G1'' then Some G1_BUDGET else rq_g2_budget q);
          invalid = g3_requested f q selection \<and> selection_errors selection q \<noteq> [];
          unknown = unknown_reasons f \<noteq> [];
          tail_reasons = (if low then [] else (if unknown then [''HIGH_RISK_FACTS_REQUIRE_RESOLUTION''] else [])
            @ (if budget = None then [''G2_BUDGET_REQUIRED''] else [])) in
      \<lparr>k_container = (if g3_requested f q selection then ''cr'' else container), k_profile = final,
       k_reasons = unique_reasons (reasons @ added @ tail_reasons),
       k_budget = budget, k_gates = (if low then [] else [''GATE-SCOPE'', ''GATE-DESIGN'']),
       k_blocked = (\<not> low \<and> (unknown \<or> budget = None \<or> invalid)),
       k_schema = (if final = ''G2'' \<or> final = ''G3'' then 2 else 1),
       k_source = (if final = ''G3'' then ''user-explicit'' else ''system-default''),
       k_record = (case selection of Some g \<Rightarrow> if final = ''G3'' then selection_digest R g else [] | None \<Rightarrow> []),
       k_authorization = (if final = ''G3'' then sx_authorization (rq_context q) else []),
       k_oid = (if final = ''G3'' then sx_source_oid (rq_context q) else []), k_revision = rq_revision q\<rparr>)"

definition classify_work :: "release_env \<Rightarrow> risk_facts \<Rightarrow> risk_request \<Rightarrow> classification result" where
  "classify_work R f q =
     let_ok (guard (case rq_profile q of None \<Rightarrow> True | Some p \<Rightarrow> p \<in> set governance_risk_profiles)
       ''requested_profile must be G0, G1, G2, or G3'') (\<lambda>_.
     let_ok (read_selection R (rq_selection q)) (\<lambda>selection. Inr (decide_classification R f q selection)))"

definition limit_as_dict :: "budget_limit \<Rightarrow> pydict" where
  "limit_as_dict l = sort_key fst (map (\<lambda>(k, n). (k, PInt n)) (limit_dims l))"

definition classification_as_dict :: "classification \<Rightarrow> pydict" where
  "classification_as_dict c =
     sort_key fst
       ([(''blocked'', PBool (k_blocked c)), (''budget'', (case k_budget c of None \<Rightarrow> PNone | Some l \<Rightarrow> PDict (limit_as_dict l))),
         (''cannot_silently_downgrade'', PBool True), (''container_kind'', PStr (k_container c)),
         (''reason_codes'', PList (map PStr (k_reasons c))), (''required_gates'', PList (map PStr (k_gates c))),
         (''risk_profile'', PStr (k_profile c))]
        @ (if 2 \<le> k_schema c
           then [(''risk_profile_schema_version'', PInt (k_schema c)), (''selection_source'', PStr (k_source c)),
             (''selection_record_digest'', PStr (k_record c)), (''selection_authorization_digest'', PStr (k_authorization c)),
             (''selection_source_oid'', PStr (k_oid c)), (''route_revision'', PInt (k_revision c))]
           else []))"

section \<open>What a classification means\<close>

lemma levels_distinct:
  "''G0'' \<noteq> ''G1''" "''G0'' \<noteq> ''G2''" "''G0'' \<noteq> ''G3''" "''G1'' \<noteq> ''G2''" "''G1'' \<noteq> ''G3''" "''G2'' \<noteq> ''G3''"
  "profile_rank ''G0'' = 0" "profile_rank ''G1'' = 1" "profile_rank ''G2'' = 2" "profile_rank ''G3'' = 3"
  by code_simp+

lemma level_cases: "p \<in> set governance_risk_profiles \<longleftrightarrow> p = ''G0'' \<or> p = ''G1'' \<or> p = ''G2'' \<or> p = ''G3''"
  by (simp add: governance_risk_profiles_def)

lemma base_level_cases:
  "fst (base_level f r) = ''G0'' \<or> fst (base_level f r) = ''G1'' \<or> fst (base_level f r) = ''G2''"
  by (simp add: base_level_def fact_level_def split: if_splits)

definition high_risk :: "risk_facts \<Rightarrow> bool \<Rightarrow> bool" where
  "high_risk f requested_cr = (True \<in> set (high_risk_flags f) \<or> rf_unknown f \<noteq> [] \<or> requested_cr
     \<or> (rf_push f \<and> \<not> rf_preauthorized f))"

lemma high_reasons_Nil: "high_reasons f r = [] \<longleftrightarrow> True \<notin> set (high_risk_flags f) \<and> \<not> r"
proof -
  have len: "length (high_risk_flags f) = length high_risk_codes" by (simp add: high_risk_flags_def high_risk_codes_def)
  have "(\<exists>x \<in> set (high_risk_fields f). fst x) \<longleftrightarrow> True \<in> set (map fst (high_risk_fields f))" by (auto simp: image_iff)
  also have "\<dots> \<longleftrightarrow> True \<in> set (high_risk_flags f)" unfolding high_risk_fields_def using len by (simp add: map_fst_zip)
  finally show ?thesis by (auto simp: high_reasons_def filter_empty_conv)
qed

lemma base_level_high: "fst (base_level f r) = ''G2'' \<longleftrightarrow> high_risk f r"
  using levels_distinct
  by (auto simp: base_level_def fact_level_def high_risk_def high_reasons_Nil unknown_reasons_def)

text \<open>The parts of a classification that the properties speak of.\<close>

lemma classify_Inr:
  "classify_work R f q = Inr c \<longleftrightarrow>
     (case rq_profile q of None \<Rightarrow> True | Some p \<Rightarrow> p \<in> set governance_risk_profiles)
     \<and> (\<exists>selection. read_selection R (rq_selection q) = Inr selection \<and> c = decide_classification R f q selection)"
  by (auto simp: classify_work_def read_simps)

lemma classifyE:
  assumes "classify_work R f q = Inr c"
  obtains selection where "read_selection R (rq_selection q) = Inr selection"
    and "case rq_profile q of None \<Rightarrow> True | Some p \<Rightarrow> p \<in> set governance_risk_profiles"
    and "c = decide_classification R f q selection"
  using assms unfolding classify_Inr by blast

lemma decide_profile:
  "k_profile (decide_classification R f q sel) = fst (final_level (fst (base_level f (rq_cr q))) f q sel)"
  by (simp add: decide_classification_def Let_def case_prod_unfold)

lemma decide_fields:
  assumes "c = decide_classification R f q sel"
  shows "k_gates c = (if k_profile c = ''G0'' \<or> k_profile c = ''G1'' then [] else [''GATE-SCOPE'', ''GATE-DESIGN''])"
    and "k_budget c = (if k_profile c = ''G0'' then Some G0_BUDGET else if k_profile c = ''G1'' then Some G1_BUDGET else rq_g2_budget q)"
    and "k_blocked c = (k_profile c \<noteq> ''G0'' \<and> k_profile c \<noteq> ''G1''
      \<and> (rf_unknown f \<noteq> [] \<or> k_budget c = None \<or> g3_requested f q sel \<and> selection_errors sel q \<noteq> []))"
    and "k_schema c = (if k_profile c = ''G2'' \<or> k_profile c = ''G3'' then 2 else 1)"
    and "k_source c = (if k_profile c = ''G3'' then ''user-explicit'' else ''system-default'')"
    and "k_record c = (case sel of Some g \<Rightarrow> if k_profile c = ''G3'' then selection_digest R g else [] | None \<Rightarrow> [])"
    and "k_authorization c = (if k_profile c = ''G3'' then sx_authorization (rq_context q) else [])"
    and "k_oid c = (if k_profile c = ''G3'' then sx_source_oid (rq_context q) else [])" and "k_revision c = rq_revision q"
  unfolding assms decide_profile
  by (simp_all only: decide_classification_def Let_def case_prod_unfold classification.simps unknown_reasons_def map_is_Nil_conv
      de_Morgan_disj conj_assoc HOL.simp_thms)

lemma final_level_cases:
  "fst (final_level base f q selection) =
     (if g3_requested f q selection then if selection_errors selection q = [] then ''G3'' else ''G2''
      else case rq_profile q of None \<Rightarrow> base | Some p \<Rightarrow> if profile_rank base < profile_rank p then p else base)"
  by (simp add: final_level_def split: option.split)

lemma g3_iff_bound:
  "g3_requested f q selection \<and> selection_errors selection q = [] \<longleftrightarrow>
     (\<exists>g. selection = Some g \<and> sx_cr (rq_context q) \<noteq> [] \<and> bound_selection g (rq_context q) (rq_revision q))"
proof -
  have "\<not> source_oid_re []" by code_simp
  then show ?thesis by (cases selection) (auto simp: selection_errors_def g3_requested_def bound_selection_def)
qed

lemma classified_G3:
  assumes "fst (final_level (fst (base_level f r)) f q selection) = ''G3''"
    and "case rq_profile q of None \<Rightarrow> True | Some p \<Rightarrow> p \<in> set governance_risk_profiles"
  shows "g3_requested f q selection \<and> selection_errors selection q = []"
proof (cases "g3_requested f q selection")
  case True
  then show ?thesis using assms levels_distinct by (auto simp: final_level_cases split: if_splits)
next
  case False
  then have "rq_profile q \<noteq> Some ''G3''" by (simp add: g3_requested_def)
  then show ?thesis using assms False base_level_cases [of f r] levels_distinct
    by (auto simp: final_level_cases split: option.splits if_splits)
qed

text \<open>C15: A classification never downgrades. The level is at least the one the facts call for and at least a requested G0, G1 or
  G2; and a high-risk fact, an unknown fact, a requested change request or a push to an unauthorized target gives G2 or G3 with
  the scope and design gates.\<close>

theorem classification_never_downgrades:
  assumes "classify_work R f q = Inr c"
  shows "profile_rank (fst (base_level f (rq_cr q))) \<le> profile_rank (k_profile c)
    \<and> (\<forall>p. rq_profile q = Some p \<and> p \<noteq> ''G3'' \<longrightarrow> profile_rank p \<le> profile_rank (k_profile c))
    \<and> (high_risk f (rq_cr q) \<longrightarrow> (k_profile c = ''G2'' \<or> k_profile c = ''G3'') \<and> k_gates c = [''GATE-SCOPE'', ''GATE-DESIGN''])"
proof -
  obtain selection where ok: "case rq_profile q of None \<Rightarrow> True | Some p \<Rightarrow> p \<in> set governance_risk_profiles"
    and c: "c = decide_classification R f q selection"
    by (rule classifyE [OF assms])
  have k: "k_profile c = fst (final_level (fst (base_level f (rq_cr q))) f q selection)" unfolding c by (rule decide_profile)
  note gates = decide_fields(1) [OF c]
  let ?base = "fst (base_level f (rq_cr q))"
  have rank: "profile_rank ?base \<le> profile_rank (k_profile c)"
    unfolding k final_level_cases using base_level_cases [of f "rq_cr q"] levels_distinct by (auto split: option.split)
  have req: "profile_rank p \<le> profile_rank (k_profile c)" if "rq_profile q = Some p" "p \<noteq> ''G3''" for p
    unfolding k final_level_cases using that ok levels_distinct by (auto simp: level_cases)
  have "k_profile c = ''G2'' \<or> k_profile c = ''G3''" if "high_risk f (rq_cr q)"
  proof -
    have "?base = ''G2''" using that base_level_high by blast
    then show ?thesis unfolding k final_level_cases using ok levels_distinct
      by (auto simp: level_cases split: option.split)
  qed
  then have "high_risk f (rq_cr q) \<longrightarrow> (k_profile c = ''G2'' \<or> k_profile c = ''G3'') \<and> k_gates c = [''GATE-SCOPE'', ''GATE-DESIGN'']"
    using gates levels_distinct(2-5) by metis
  then show ?thesis using rank req by blast
qed

text \<open>C16: G3 only by the user's selection. A classification is G3 exactly when a selection was given, named the change, and is bound to
  the source, the revision, the authorization and the host channel.\<close>

theorem classification_g3_iff:
  assumes "classify_work R f q = Inr c"
  shows "k_profile c = ''G3'' \<longleftrightarrow> (\<exists>g. read_selection R (rq_selection q) = Inr (Some g) \<and> sx_cr (rq_context q) \<noteq> []
     \<and> bound_selection g (rq_context q) (rq_revision q))"
proof -
  obtain selection where s: "read_selection R (rq_selection q) = Inr selection"
    and ok: "case rq_profile q of None \<Rightarrow> True | Some p \<Rightarrow> p \<in> set governance_risk_profiles"
    and c: "c = decide_classification R f q selection"
    by (rule classifyE [OF assms])
  have k: "k_profile c = fst (final_level (fst (base_level f (rq_cr q))) f q selection)" unfolding c by (rule decide_profile)
  have "k_profile c = ''G3'' \<longleftrightarrow> g3_requested f q selection \<and> selection_errors selection q = []"
  proof
    assume "k_profile c = ''G3''"
    then show "g3_requested f q selection \<and> selection_errors selection q = []" unfolding k by (rule classified_G3 [OF _ ok])
  next
    assume "g3_requested f q selection \<and> selection_errors selection q = []"
    then show "k_profile c = ''G3''" unfolding k final_level_cases by (simp only: if_True simp_thms)
  qed
  then show ?thesis unfolding g3_iff_bound using s by auto
qed

text \<open>A blocked classification is one of G2 or G3 with an unresolved fact, without a budget, or asked to be G3 without a valid
  selection; an unblocked one always carries a budget.\<close>

theorem classification_blocked_iff:
  assumes "classify_work R f q = Inr c" and "read_selection R (rq_selection q) = Inr selection"
  shows "(k_blocked c \<longleftrightarrow> (k_profile c = ''G2'' \<or> k_profile c = ''G3'')
      \<and> (rf_unknown f \<noteq> [] \<or> rq_g2_budget q = None \<or> g3_requested f q selection \<and> k_profile c = ''G2''))
    \<and> (\<not> k_blocked c \<longrightarrow> k_budget c \<noteq> None)"
proof -
  have ok: "case rq_profile q of None \<Rightarrow> True | Some p \<Rightarrow> p \<in> set governance_risk_profiles"
    and c: "c = decide_classification R f q selection"
    using assms unfolding classify_Inr by auto
  have k: "k_profile c = fst (final_level (fst (base_level f (rq_cr q))) f q selection)" unfolding c by (rule decide_profile)
  have four: "k_profile c = ''G0'' \<or> k_profile c = ''G1'' \<or> k_profile c = ''G2'' \<or> k_profile c = ''G3''"
    unfolding k final_level_cases using base_level_cases [of f "rq_cr q"] ok by (auto simp: level_cases split: option.split)
  have inv: "g3_requested f q selection \<Longrightarrow> selection_errors selection q \<noteq> [] \<longleftrightarrow> k_profile c = ''G2''"
    unfolding k using levels_distinct by (simp add: final_level_cases)
  show ?thesis using four inv levels_distinct unfolding decide_fields(2,3) [OF c] by auto
qed

text \<open>A classification can always be carried into a route. For any classification of a positive revision the V2 governance
  binding is built from its fields, it is well-formed, and it holds the same level, source, digests, source object and revision.\<close>

theorem classification_builds_binding:
  assumes "release_env_ok R" and "classify_work R f q = Inr c" and "read_selection R (rq_selection q) = Inr selection"
    and "1 \<le> rq_revision q"
  shows "\<exists>b. build_profile_binding R (k_profile c) 2 (if k_profile c = ''G3'' then selection else None)
        (k_authorization c) (k_oid c) (k_revision c) = Inr b
      \<and> binding_wf b \<and> gb_effective b = k_profile c \<and> gb_source b = k_source c \<and> gb_record b = k_record c
      \<and> gb_authorization b = k_authorization c \<and> gb_oid b = k_oid c \<and> gb_revision b = k_revision c"
proof -
  have ok: "case rq_profile q of None \<Rightarrow> True | Some p \<Rightarrow> p \<in> set governance_risk_profiles"
    and c: "c = decide_classification R f q selection"
    using assms(2,3) unfolding classify_Inr by auto
  have k: "k_profile c = fst (final_level (fst (base_level f (rq_cr q))) f q selection)" unfolding c by (rule decide_profile)
  note fields = decide_fields(5-9) [OF c]
  have level: "k_profile c \<in> set governance_risk_profiles"
    unfolding k final_level_cases using base_level_cases [of f "rq_cr q"] ok by (auto simp: level_cases split: option.split)
  show ?thesis
  proof (cases "k_profile c = ''G3''")
    case True
    then have "g3_requested f q selection \<and> selection_errors selection q = []" unfolding k using classified_G3 [OF _ ok] by blast
    then obtain g where g: "selection = Some g" "bound_selection g (rq_context q) (rq_revision q)" unfolding g3_iff_bound by blast
    obtain b where b: "build_profile_binding R ''G3'' 2 (Some g) (sx_authorization (rq_context q)) (sx_source_oid (rq_context q))
        (rq_revision q) = Inr b"
      using build_bound [OF assms(1) g(2)] by blast
    then show ?thesis using fields True g(1) by (auto simp: build_binding_Inr binding_wf_def)
  next
    case False
    let ?b = "\<lparr>gb_schema = 2, gb_profile = k_profile c, gb_effective = k_profile c, gb_source = ''system-default'',
      gb_record = [], gb_authorization = [], gb_oid = [], gb_revision = rq_revision q\<rparr>"
    have "binding_wf ?b" using False level assms(4) by (simp add: binding_wf_def)
    then have "build_profile_binding R (k_profile c) 2 None (k_authorization c) (k_oid c) (k_revision c) = Inr ?b"
      unfolding build_binding_Inr using False fields by simp
    then show ?thesis using \<open>binding_wf ?b\<close> False fields by (auto split: option.split)
  qed
qed

section \<open>Examples\<close>

definition facts0 :: risk_facts where
  "facts0 = \<lparr>rf_kind = ''code'', rf_paths = 3, rf_reversible = True, rf_multi_module = False, rf_internal_interface = False,
     rf_multi_step = False, rf_push = True, rf_preauthorized = True, rf_public_contract = False, rf_architecture_boundary = False,
     rf_security = True, rf_permissions = False, rf_irreversible_migration = False, rf_production_write = False,
     rf_formal_release = False, rf_strong_audit = False, rf_risk_acceptance = False, rf_cross_phase = False,
     rf_new_remote = False, rf_protected_ref = False, rf_tag = False, rf_external_publication = False,
     rf_requested_lld = False, rf_unknown = []\<rparr>"

definition request0 :: risk_request where
  "request0 = \<lparr>rq_cr = False, rq_profile = Some ''G1'', rq_g2_budget = Some G1_BUDGET, rq_selection = No_Selection,
     rq_context = context0, rq_revision = 1\<rparr>"

definition request3 :: risk_request where
  "request3 = request0\<lparr>rq_selection := Selected selection0, rq_profile := Some ''G3''\<rparr>"

lemma classify_examples:
  "classify_work R facts0 request0 = Inr (decide_classification R facts0 request0 None)"
  "classify_work R facts0 request3 = Inr (decide_classification R facts0 request3 (Some selection0))"
  "read_selection R (rq_selection request0) = Inr None" "read_selection R (rq_selection request3) = Inr (Some selection0)"
  "high_risk facts0 (rq_cr request0)" "rq_profile request0 = Some ''G1''" "rq_revision request3 = 1"
  by (auto simp: classify_work_def request0_def request3_def guard_def read_selection_def governance_risk_profiles_def
      high_risk_def high_risk_flags_def facts0_def)

theorem classification_never_downgrades_witness:
  "\<exists>(c :: classification). classify_work release_env0 facts0 request0 = Inr c \<and> rq_profile request0 = Some ''G1''
     \<and> (k_profile c = ''G2'' \<or> k_profile c = ''G3'') \<and> k_gates c = [''GATE-SCOPE'', ''GATE-DESIGN'']"
  using classification_never_downgrades [OF classify_examples(1) [of release_env0]] classify_examples(1,5,6) by blast

theorem classification_g3_iff_witness:
  "\<exists>(c :: classification). classify_work release_env0 facts0 request3 = Inr c \<and> k_profile c = ''G3''"
proof -
  have "sx_cr (rq_context request3) \<noteq> [] \<and> bound_selection selection0 (rq_context request3) (rq_revision request3)" by code_simp
  then show ?thesis
    using classification_g3_iff [OF classify_examples(2) [of release_env0]] classify_examples(2,4) by blast
qed

theorem classification_blocked_iff_witness:
  "\<exists>(c :: classification). classify_work release_env0 facts0 request0 = Inr c \<and> \<not> k_blocked c \<and> k_budget c \<noteq> None"
proof -
  have "rf_unknown facts0 = [] \<and> rq_g2_budget request0 \<noteq> None \<and> \<not> g3_requested facts0 request0 None" by code_simp
  note f = this
  note b = classification_blocked_iff [OF classify_examples(1) [of release_env0] classify_examples(3) [of release_env0]]
  from f have "\<not> k_blocked (decide_classification release_env0 facts0 request0 None)" by (simp only: b simp_thms)
  then show ?thesis using b classify_examples(1) [of release_env0] by (intro exI conjI) (assumption | blast)+
qed

theorem classification_builds_binding_witness:
  "\<exists>(b :: profile_binding). binding_wf b \<and> gb_record b = k_record (decide_classification release_env0 facts0 request3 (Some selection0))"
proof -
  have "1 \<le> rq_revision request3" using classify_examples(7) by simp
  from classification_builds_binding [OF release_env0_ok classify_examples(2,4) this] show ?thesis by blast
qed

end
