(* ===== verification/Route_Profile.thy ===== *)
theory Route_Profile
  imports Work_Risk Work_Scope
begin

text \<open>
  The route of a Work item (\<open>work/route_profile.py\<close>): the closed route profile and its reader, the route decision
  for a governance level, and the check of a mutation against the scope of the Work and of the current slice.
  \<open>is_safe_read_ref\<close> is that of \<open>project/read_contract.py\<close>; a drive is a letter before a colon, as
  \<open>PureWindowsPath\<close> of Python 3.11 reads it. The schema version is kept as it was read.
\<close>

section \<open>References that may be read\<close>

definition windows_drive :: "string \<Rightarrow> bool" where
  "windows_drive s = (case s of c # d # _ \<Rightarrow> (ascii_lower c \<or> ascii_upper c) \<and> d = CHR '':'' | _ \<Rightarrow> False)"

definition normalize_read_ref :: "string \<Rightarrow> string result" where
  "normalize_read_ref s =
     (if s = [] \<or> CHR 0x00 \<in> set s \<or> CHR 0x5C \<in> set s
      then Inl (ValueError ''logical ref must be one non-empty relative POSIX path'')
      else if windows_drive s \<or> prefix [slash] s \<or> is_absolute s \<or> path_parts s \<noteq> split_char slash s
        \<or> list_ex unsafe_part (split_char slash s)
      then Inl (ValueError ''logical ref must be canonical and remain inside the process repository'')
      else Inr (as_posix s))"

definition is_safe_read_ref :: "string \<Rightarrow> bool" where
  "is_safe_read_ref s = is_ok (normalize_read_ref s)"

section \<open>The profile\<close>

definition routine_stages :: "string list" where
  "routine_stages = [''clarification'', ''design'', ''implementation'', ''verification'']"

definition legacy_stages :: "string list" where
  "legacy_stages = [''CP0'', ''CP1'', ''CP2'', ''CP3'', ''CP4'', ''CP5'', ''CP6'', ''CP7'', ''CP8'']"

definition worktree_policies :: "string list" where
  "worktree_policies = [''root-branch-only'', ''paired-worktree'']"

definition route_profile_keys :: "string list" where
  "route_profile_keys = [''schema_version'', ''mode'', ''dispatch_mode'', ''legacy_cp_compatibility'', ''validation_profile'',
     ''failure_scope'', ''worktree_policy'']"

record route_profile =
  rp_schema :: pyval
  rp_mode :: string
  rp_dispatch :: string
  rp_legacy :: bool
  rp_validation :: string
  rp_failure :: string
  rp_worktree :: string

text \<open>Membership of a value of any type in a set of texts; a list or a dictionary cannot be looked up.\<close>

definition member_of :: "pyval \<Rightarrow> string list \<Rightarrow> bool result" where
  "member_of v names = (if unhashable v then Inl (TypeError ''unhashable type'') else Inr (v \<in> PStr ` set names))"

definition in_vocabulary :: "pyval \<Rightarrow> string list \<Rightarrow> string \<Rightarrow> unit result" where
  "in_vocabulary v names message = let_ok (member_of v names) (\<lambda>b. guard b message)"

text \<open>\<open>RouteProfile.__post_init__\<close> on the values of a document.\<close>

definition mk_route_profile :: "pyval \<Rightarrow> pyval \<Rightarrow> pyval \<Rightarrow> pyval \<Rightarrow> pyval \<Rightarrow> pyval \<Rightarrow> pyval \<Rightarrow> route_profile result" where
  "mk_route_profile schema mode dispatch legacy validation failure worktree =
     let_ok (guard (py_eq schema (PInt 1)) ''route_profile.schema_version must be 1'') (\<lambda>_.
     let_ok (in_vocabulary mode [''routine-four-stage'', ''legacy-cp0-cp8''] ''route_profile.mode is unsupported'') (\<lambda>_.
     let_ok (in_vocabulary dispatch [''direct'', ''functional-agent''] ''route_profile.dispatch_mode is unsupported'') (\<lambda>_.
     let_ok (guard (is_bool legacy) ''route_profile.legacy_cp_compatibility must be boolean'') (\<lambda>_.
     let_ok (guard (py_eq validation (PStr ''layered-v1'')) ''route_profile.validation_profile must be layered-v1'') (\<lambda>_.
     let_ok (guard (py_eq failure (PStr ''current-slice-only'')) ''route_profile.failure_scope must be current-slice-only'') (\<lambda>_.
     let_ok (in_vocabulary worktree worktree_policies ''route_profile.worktree_policy is unsupported'') (\<lambda>_.
     let_ok (guard (truthy legacy \<or> dispatch \<noteq> PStr ''direct'' \<or> worktree = PStr ''root-branch-only'')
       ''route_profile direct dispatch requires root-branch-only worktree policy'') (\<lambda>_.
     let_ok (guard (truthy legacy = (mode = PStr ''legacy-cp0-cp8''))
       ''legacy-cp0-cp8 mode and legacy_cp_compatibility must be enabled together'') (\<lambda>_.
     Inr \<lparr>rp_schema = schema, rp_mode = the_str mode, rp_dispatch = the_str dispatch, rp_legacy = truthy legacy,
       rp_validation = the_str validation, rp_failure = the_str failure, rp_worktree = the_str worktree\<rparr>)))))))))"

definition SAFE_ROUTE_PROFILE :: route_profile where
  "SAFE_ROUTE_PROFILE = \<lparr>rp_schema = PInt 1, rp_mode = ''routine-four-stage'', rp_dispatch = ''direct'', rp_legacy = False,
     rp_validation = ''layered-v1'', rp_failure = ''current-slice-only'', rp_worktree = ''root-branch-only''\<rparr>"

definition route_profile_as_dict :: "route_profile \<Rightarrow> pydict" where
  "route_profile_as_dict p =
     [(''schema_version'', rp_schema p), (''mode'', PStr (rp_mode p)), (''dispatch_mode'', PStr (rp_dispatch p)),
      (''legacy_cp_compatibility'', PBool (rp_legacy p)), (''validation_profile'', PStr (rp_validation p)),
      (''failure_scope'', PStr (rp_failure p)), (''worktree_policy'', PStr (rp_worktree p))]"

definition missing_keys :: "string list \<Rightarrow> pydict \<Rightarrow> string list" where
  "missing_keys keys d = filter (\<lambda>k. k \<notin> dkeys d) keys"

definition extra_keys :: "string list \<Rightarrow> pydict \<Rightarrow> string list" where
  "extra_keys keys d = filter (\<lambda>k. k \<notin> set keys) (map fst d)"

definition route_profile_from_payload :: "pyval \<Rightarrow> route_profile result" where
  "route_profile_from_payload v =
     (case v of
        PNone \<Rightarrow> Inr SAFE_ROUTE_PROFILE
      | PDict d \<Rightarrow>
        (let unknown = extra_keys route_profile_keys d;
             missing = missing_keys (filter (\<lambda>k. k \<noteq> ''worktree_policy'') route_profile_keys) d in
         if unknown \<noteq> [] then Inl (ValueError (''route_profile contains unknown fields: '' @ join_with '','' (sort unknown)))
         else if missing \<noteq> [] then Inl (ValueError (''route_profile missing fields: '' @ join_with '','' (sort missing)))
         else mk_route_profile (dget d ''schema_version'') (dget d ''mode'') (dget d ''dispatch_mode'')
           (dget d ''legacy_cp_compatibility'') (dget d ''validation_profile'') (dget d ''failure_scope'')
           (if ''worktree_policy'' \<in> dkeys d then dget d ''worktree_policy'' else PStr ''root-branch-only''))
      | _ \<Rightarrow> Inl (ValueError ''route_profile must be an object''))"

section \<open>The route decision\<close>

record route_decision =
  rd_decision :: string
  rd_mode :: string
  rd_dispatch :: string
  rd_stages :: "string list"
  rd_dispatches :: nat
  rd_legacy_allowed :: bool
  rd_errors :: "string list"

definition route_errors :: "route_profile \<Rightarrow> string \<Rightarrow> string \<Rightarrow> string \<Rightarrow> bool \<Rightarrow> string list" where
  "route_errors p risk_profile work_kind gate_ref require_human =
     (if risk_profile \<in> {''G0'', ''G1''} \<and> rp_dispatch p \<noteq> ''direct''
      then [''G0/G1 functional-agent dispatch requires an explicit G2 upgrade''] else [])
     @ (if rp_legacy p
        then (if risk_profile \<notin> {''G2'', ''G3''} then [''legacy CP compatibility requires G2 or G3''] else [])
          @ (if work_kind \<noteq> ''cr'' then [''legacy CP compatibility requires a formal CR Work''] else [])
          @ (if require_human \<and> (gate_ref = [] \<or> \<not> is_safe_read_ref gate_ref)
             then [''legacy CP compatibility requires one safe human design gate ref''] else [])
        else [])"

definition evaluate_route_profile :: "route_profile \<Rightarrow> string \<Rightarrow> string \<Rightarrow> string \<Rightarrow> bool \<Rightarrow> route_decision" where
  "evaluate_route_profile p risk_profile work_kind gate_ref require_human =
     (let errors = route_errors p risk_profile work_kind gate_ref require_human in
      \<lparr>rd_decision = (if errors \<noteq> [] then ''BLOCKED'' else ''READY''), rd_mode = rp_mode p, rd_dispatch = rp_dispatch p,
       rd_stages = (if rp_legacy p then legacy_stages else routine_stages),
       rd_dispatches = (if rp_dispatch p = ''direct'' then 0 else 1),
       rd_legacy_allowed = (rp_legacy p \<and> errors = []), rd_errors = errors\<rparr>)"

definition route_blocked :: "route_decision \<Rightarrow> bool" where
  "route_blocked d = (rd_decision d = ''BLOCKED'')"

definition route_decision_as_dict :: "route_decision \<Rightarrow> pydict" where
  "route_decision_as_dict d =
     [(''decision'', PStr (rd_decision d)), (''mode'', PStr (rd_mode d)), (''dispatch_mode'', PStr (rd_dispatch d)),
      (''stages'', PList (map PStr (rd_stages d))), (''functional_agent_dispatches'', PInt (int (rd_dispatches d))),
      (''legacy_cp_artifacts_allowed'', PBool (rd_legacy_allowed d)), (''errors'', PList (map PStr (rd_errors d)))]"

section \<open>Slices\<close>

record slice_decision =
  sl_decision :: string
  sl_requested :: string
  sl_rule :: string
  sl_reason :: string

definition slice_allowed :: "slice_decision \<Rightarrow> bool" where
  "slice_allowed d = (sl_decision d = ''ALLOW'')"

definition slice_deny :: "string \<Rightarrow> string \<Rightarrow> slice_decision" where
  "slice_deny requested reason = \<lparr>sl_decision = ''DENY'', sl_requested = requested, sl_rule = [], sl_reason = reason\<rparr>"

definition write_scope :: "string list \<Rightarrow> work_scope" where
  "write_scope writes = \<lparr>version = 1, allowed_reads = [], allowed_writes = writes, required_checks = []\<rparr>"

definition slice_checks :: "string list \<Rightarrow> string list \<Rightarrow> string \<Rightarrow> (scope_decision \<times> scope_decision) result" where
  "slice_checks work_writes slice_writes requested =
     let_ok (validate_work_scope (write_scope work_writes)) (\<lambda>_.
     let_ok (validate_work_scope (write_scope slice_writes)) (\<lambda>_.
     let_ok (check_scope (write_scope work_writes) ''write'' requested) (\<lambda>w.
     let_ok (check_scope (write_scope slice_writes) ''write'' requested) (\<lambda>s. Inr (w, s)))))"

fun exc_text :: "exc \<Rightarrow> string" where
  "exc_text (ValueError m) = m" | "exc_text (TypeError m) = m" | "exc_text (IndexError m) = m" | "exc_text (OSError m) = m"
| "exc_text (RuntimeError m) = m" | "exc_text (AssertionError m) = m" | "exc_text (AttributeError m) = m"
| "exc_text (KeyError m) = m"

text \<open>The checks of a scope and of a request raise \<open>ValueError\<close> only, which the code turns into a denial.\<close>

definition check_slice_mutation :: "route_profile \<Rightarrow> string list \<Rightarrow> string list \<Rightarrow> string \<Rightarrow> slice_decision" where
  "check_slice_mutation p work_writes slice_writes requested =
     (if rp_failure p \<noteq> ''current-slice-only'' then slice_deny requested ''route profile is not slice-scoped''
      else case slice_checks work_writes slice_writes requested of
        Inl e \<Rightarrow> slice_deny requested (exc_text e)
      | Inr (w, s) \<Rightarrow>
        if \<not> scope_allowed w then slice_deny requested ''path is outside Work write scope''
        else if \<not> scope_allowed s then slice_deny requested ''path is outside current slice''
        else \<lparr>sl_decision = ''ALLOW'', sl_requested = as_posix requested, sl_rule = sd_matched_rule s,
               sl_reason = ''path is allowed by Work and current slice''\<rparr>)"

section \<open>What the reader accepts\<close>

definition route_profile_wf :: "route_profile \<Rightarrow> bool" where
  "route_profile_wf p = (py_eq (rp_schema p) (PInt 1) \<and> rp_mode p \<in> {''routine-four-stage'', ''legacy-cp0-cp8''}
     \<and> rp_dispatch p \<in> {''direct'', ''functional-agent''} \<and> rp_validation p = ''layered-v1''
     \<and> rp_failure p = ''current-slice-only'' \<and> rp_worktree p \<in> set worktree_policies
     \<and> (rp_legacy p \<longleftrightarrow> rp_mode p = ''legacy-cp0-cp8'')
     \<and> (\<not> rp_legacy p \<and> rp_dispatch p = ''direct'' \<longrightarrow> rp_worktree p = ''root-branch-only''))"

lemma in_vocabulary_Inr [read_simps]: "in_vocabulary v names m = Inr u \<longleftrightarrow> (\<exists>s \<in> set names. v = PStr s)"
  by (cases v) (auto simp: in_vocabulary_def member_of_def read_simps)

lemma is_bool_iff: "is_bool v \<longleftrightarrow> (\<exists>b. v = PBool b)"
  by (cases v) auto

lemma mk_route_profile_Inr [read_simps]:
  "mk_route_profile sv m d l v f w = Inr p \<longleftrightarrow> route_profile_wf p \<and> rp_schema p = sv \<and> m = PStr (rp_mode p)
     \<and> d = PStr (rp_dispatch p) \<and> l = PBool (rp_legacy p) \<and> v = PStr (rp_validation p) \<and> f = PStr (rp_failure p)
     \<and> w = PStr (rp_worktree p)"
  (is "?l \<longleftrightarrow> ?r")
proof
  assume ?l
  then show ?r
    unfolding mk_route_profile_def read_simps is_bool_iff py_eq_PStr by (fastforce simp: route_profile_wf_def)
next
  assume r: ?r
  then show ?l
    unfolding mk_route_profile_def read_simps is_bool_iff py_eq_PStr by (cases p) (auto simp: route_profile_wf_def)
qed

lemma safe_route_profile_wf: "route_profile_wf SAFE_ROUTE_PROFILE"
  by (simp add: route_profile_wf_def SAFE_ROUTE_PROFILE_def worktree_policies_def)

lemma route_profile_type: "route_profile_from_payload v = Inr p \<Longrightarrow> route_profile_wf p"
  using safe_route_profile_wf by (cases v) (auto simp: route_profile_from_payload_def read_simps Let_def split: if_splits)

lemma route_profile_dict:
  "map fst (route_profile_as_dict p) = route_profile_keys" "dkeys (route_profile_as_dict p) = set route_profile_keys"
  "dget (route_profile_as_dict p) ''schema_version'' = rp_schema p"
  "dget (route_profile_as_dict p) ''mode'' = PStr (rp_mode p)"
  "dget (route_profile_as_dict p) ''dispatch_mode'' = PStr (rp_dispatch p)"
  "dget (route_profile_as_dict p) ''legacy_cp_compatibility'' = PBool (rp_legacy p)"
  "dget (route_profile_as_dict p) ''validation_profile'' = PStr (rp_validation p)"
  "dget (route_profile_as_dict p) ''failure_scope'' = PStr (rp_failure p)"
  "dget (route_profile_as_dict p) ''worktree_policy'' = PStr (rp_worktree p)"
  by (simp_all add: route_profile_as_dict_def route_profile_keys_def)

lemma route_profile_roundtrip: "route_profile_wf p \<Longrightarrow> route_profile_from_payload (PDict (route_profile_as_dict p)) = Inr p"
proof -
  assume wf: "route_profile_wf p"
  have "extra_keys route_profile_keys (route_profile_as_dict p) = []"
    "missing_keys (filter (\<lambda>k. k \<noteq> ''worktree_policy'') route_profile_keys) (route_profile_as_dict p) = []"
    by (auto simp: extra_keys_def missing_keys_def route_profile_dict filter_empty_conv)
  moreover have "''worktree_policy'' \<in> dkeys (route_profile_as_dict p)"
    unfolding route_profile_dict by (simp add: route_profile_keys_def)
  ultimately show ?thesis
    using wf by (simp add: route_profile_from_payload_def route_profile_dict mk_route_profile_Inr)
qed

section \<open>Routes and classifications\<close>

lemma route_ready: "route_blocked (evaluate_route_profile p r k g h) \<longleftrightarrow> route_errors p r k g h \<noteq> []"
  by (simp add: route_blocked_def evaluate_route_profile_def Let_def)

text \<open>A route that allows the legacy checkpoints, or that dispatches to an agent, was classified high. When the route of
  a classification is not blocked and it is not the direct routine, the classification is G2 or G3, and it carries the scope and
  design gates; the legacy route also requires a change request, and with human approval a safe reference to the gate.\<close>

theorem elevated_route_has_gates:
  assumes "classify_work R f q = Inr c"
    and "\<not> route_blocked (evaluate_route_profile p (k_profile c) (k_container c) gate require_human)"
    and "rp_legacy p \<or> rp_dispatch p \<noteq> ''direct''"
  shows "(k_profile c = ''G2'' \<or> k_profile c = ''G3'') \<and> k_gates c = [''GATE-SCOPE'', ''GATE-DESIGN'']
    \<and> (rp_legacy p \<longrightarrow> k_container c = ''cr'' \<and> (require_human \<longrightarrow> is_safe_read_ref gate))"
proof -
  obtain selection where ok: "case rq_profile q of None \<Rightarrow> True | Some p \<Rightarrow> p \<in> set governance_risk_profiles"
    and c: "c = decide_classification R f q selection"
    by (rule classifyE [OF assms(1)])
  have k: "k_profile c = fst (final_level (fst (base_level f (rq_cr q))) f q selection)" unfolding c by (rule decide_profile)
  have four: "k_profile c = ''G0'' \<or> k_profile c = ''G1'' \<or> k_profile c = ''G2'' \<or> k_profile c = ''G3''"
    unfolding k final_level_cases using base_level_cases [of f "rq_cr q"] ok by (auto simp: level_cases split: option.split)
  have none: "route_errors p (k_profile c) (k_container c) gate require_human = []" using assms(2) by (simp add: route_ready)
  then have high: "k_profile c \<noteq> ''G0'' \<and> k_profile c \<noteq> ''G1''"
    using assms(3) levels_distinct(2-5) by (auto simp: route_errors_def split: if_splits)
  have "rp_legacy p \<longrightarrow> k_container c = ''cr'' \<and> (require_human \<longrightarrow> is_safe_read_ref gate)"
    using none by (simp add: route_errors_def split: if_splits)
  then show ?thesis using four high decide_fields(1) [OF c] by simp
qed

section \<open>Slices stay inside the Work\<close>

lemma slice_checks_Inr: "slice_checks ws ss req = Inr (w, s) \<longleftrightarrow>
    validate_work_scope (write_scope ws) = Inr () \<and> validate_work_scope (write_scope ss) = Inr ()
    \<and> check_scope (write_scope ws) ''write'' req = Inr w \<and> check_scope (write_scope ss) ''write'' req = Inr s"
  by (auto simp: slice_checks_def read_simps)

lemma slice_decided: "slice_allowed (check_slice_mutation p ws ss req) \<longleftrightarrow>
    rp_failure p = ''current-slice-only''
    \<and> (\<exists>w s. slice_checks ws ss req = Inr (w, s) \<and> scope_allowed w \<and> scope_allowed s)"
  by (auto simp: check_slice_mutation_def slice_allowed_def slice_deny_def split: sum.split)

lemma write_scope_covers:
  assumes "list_all canonical_rule rules"
  shows "(\<exists>d. check_scope (write_scope rules) ''write'' req = Inr d \<and> scope_allowed d) \<longleftrightarrow>
    req \<noteq> [] \<and> safe_relative req \<and> (\<exists>rule \<in> set rules. rule_covers rule (rel_parts req))"
proof -
  have rules: "path_rules (write_scope rules) ''write'' = rules" by (simp add: path_rules_def write_scope_def)
  have w: "''write'' \<in> {''read'', ''write''}" by simp
  have eq: "check_scope (write_scope rules) ''write'' req = (case normalize_requested_path req of Inl e \<Rightarrow> Inl e
      | Inr n \<Rightarrow> Inr (scan_rules (\<lambda>rule. matches rule n) ''write'' n rules))"
    unfolding check_scope_path [OF w] rules ..
  show ?thesis
    using scan_rules_covers [OF _ assms, of req "''write''"] unfolding eq normalize_requested_path_cases
    by (cases "req = [] \<or> \<not> safe_relative req") auto
qed

text \<open>A slice never widens its Work. With well-formed rules a mutation is allowed exactly when the request is a safe relative
  path covered, component by component, by a write rule of the Work and by a write rule of the slice.\<close>

theorem slice_mutation_iff:
  assumes "route_profile_wf p" and "list_all canonical_rule ws" and "list_all canonical_rule ss"
    and "validate_work_scope (write_scope ws) = Inr ()" and "validate_work_scope (write_scope ss) = Inr ()"
  shows "slice_allowed (check_slice_mutation p ws ss req) \<longleftrightarrow>
    req \<noteq> [] \<and> safe_relative req \<and> (\<exists>rule \<in> set ws. rule_covers rule (rel_parts req))
    \<and> (\<exists>rule \<in> set ss. rule_covers rule (rel_parts req))"
proof -
  have "rp_failure p = ''current-slice-only''" using assms(1) by (simp add: route_profile_wf_def)
  then show ?thesis
    using write_scope_covers [OF assms(2), of req] write_scope_covers [OF assms(3), of req] assms(4,5)
    unfolding slice_decided slice_checks_Inr by blast
qed

section \<open>Examples\<close>

definition agent_profile :: route_profile where
  "agent_profile = SAFE_ROUTE_PROFILE\<lparr>rp_dispatch := ''functional-agent''\<rparr>"

theorem elevated_route_has_gates_witness:
  "\<exists>(c :: classification). classify_work release_env0 facts0 request3 = Inr c \<and> k_gates c = [''GATE-SCOPE'', ''GATE-DESIGN'']"
proof -
  let ?c = "decide_classification release_env0 facts0 request3 (Some selection0)"
  have g3: "k_profile ?c = ''G3''"
    unfolding decide_profile final_level_cases
    using g3_iff_bound [of facts0 request3 "Some selection0"] by (simp add: request3_def request0_def) code_simp
  have "route_errors agent_profile ''G3'' kind [] True = []" for kind
    using levels_distinct(3,5) [symmetric] by (simp add: route_errors_def agent_profile_def SAFE_ROUTE_PROFILE_def)
  then have "\<not> route_blocked (evaluate_route_profile agent_profile (k_profile ?c) (k_container ?c) [] True)"
    unfolding route_ready g3 by simp
  moreover have "rp_legacy agent_profile \<or> rp_dispatch agent_profile \<noteq> ''direct''" by code_simp
  ultimately show ?thesis
    using elevated_route_has_gates [OF classify_examples(2)] classify_examples(2) by blast
qed

definition work_writes0 :: "string list" where "work_writes0 = [''docs/**'', ''src/main.py'']"

definition slice_writes0 :: "string list" where "slice_writes0 = [''docs/api/**'']"

theorem slice_mutation_iff_witness:
  "slice_allowed (check_slice_mutation SAFE_ROUTE_PROFILE work_writes0 slice_writes0 ''docs/api/a.md'')
   \<and> \<not> slice_allowed (check_slice_mutation SAFE_ROUTE_PROFILE work_writes0 slice_writes0 ''docs/b.md'')"
proof -
  have "list_all canonical_rule work_writes0" "list_all canonical_rule slice_writes0"
    "validate_work_scope (write_scope work_writes0) = Inr ()" "validate_work_scope (write_scope slice_writes0) = Inr ()"
    by code_simp+
  note iff = slice_mutation_iff [OF safe_route_profile_wf this]
  show ?thesis unfolding iff by code_simp
qed

end
