(* ===== verification/Work_Envelope.thy ===== *)
theory Work_Envelope
  imports Route_Profile
begin

text \<open>
  The Work envelope (\<open>work/model.py\<close>) and the execution unit it may carry (\<open>execution_control/contract.py\<close>):
  the record, its document, the validation of a document, its reader, and the construction of a Work from a
  classification. A document is a dictionary of Python values. The validation returns the list of its findings, or
  the exception that leaves it: the code reports most ill-typed values as findings, and lets some exceptions through.
  The environment is that of the release documents with the second JSON printer, which escapes non-ASCII text.
\<close>

section \<open>The environment\<close>

record work_env =
  we_release :: release_env
  we_ascii :: "pyval \<Rightarrow> string"

section \<open>Execution units\<close>

definition container_roles :: "string list" where
  "container_roles = [''primary'', ''auxiliary'', ''repair'']"

definition exec_unit_fields :: "string list" where
  "exec_unit_fields = [''unit_id'', ''root_concept'', ''slice_id'', ''container_role'', ''revision'', ''supersedes_unit_id'',
     ''contract_ref'', ''contract_digest'']"

record exec_unit =
  eu_unit :: string
  eu_root :: string
  eu_slice :: string
  eu_role :: string
  eu_revision :: int
  eu_supersedes :: pyval
  eu_ref :: string
  eu_digest :: string

definition names_or_dash :: "string list \<Rightarrow> string" where
  "names_or_dash names = (if names = [] then ''-'' else join_with '','' (sort names))"

definition closed_mapping :: "string \<Rightarrow> string list \<Rightarrow> pyval \<Rightarrow> pydict result" where
  "closed_mapping subject names v =
     (case v of
        PDict d \<Rightarrow>
          if dkeys d = set names then Inr d
          else Inl (ValueError (subject @ '' fields mismatch: missing='' @ names_or_dash (missing_keys names d)
            @ ''; extra='' @ names_or_dash (extra_keys names d)))
      | _ \<Rightarrow> Inl (ValueError (subject @ '' must be a mapping'')))"

definition checked_str :: "(string \<Rightarrow> bool) \<Rightarrow> string \<Rightarrow> pyval \<Rightarrow> string result" where
  "checked_str pat message v = (case v of PStr s \<Rightarrow> if pat s then Inr s else Inl (ValueError message) | _ \<Rightarrow> Inl (ValueError message))"

definition safe_id :: "string \<Rightarrow> pyval \<Rightarrow> string result" where
  "safe_id fld v = checked_str work_id_re (fld @ '' must be one safe identifier'') v"

definition positive_int :: "string \<Rightarrow> pyval \<Rightarrow> int result" where
  "positive_int fld v =
     (case v of PInt n \<Rightarrow> if 1 \<le> n then Inr n else Inl (ValueError (fld @ '' must be a positive integer''))
      | _ \<Rightarrow> Inl (ValueError (fld @ '' must be a positive integer'')))"

definition sha256_field :: "string \<Rightarrow> pyval \<Rightarrow> string result" where
  "sha256_field fld v = checked_str (hex_id 64) (fld @ '' must be one lowercase SHA-256 digest'') v"

definition relative_ref_text :: "string \<Rightarrow> bool" where
  "relative_ref_text s = (s \<noteq> [] \<and> list_all (\<lambda>c. c \<notin> {CHR 0x0D, CHR 0x0A, CHR 0x5C}) s
     \<and> \<not> is_absolute s \<and> \<not> list_ex unsafe_part (path_parts s))"

definition relative_ref :: "string \<Rightarrow> pyval \<Rightarrow> string result" where
  "relative_ref fld v = checked_str relative_ref_text (fld @ '' must be one safe relative ref'') v"

text \<open>\<open>ExecutionUnitV1.__post_init__\<close>: the predecessor of a first revision may be any false value.\<close>

definition mk_exec_unit :: "pydict \<Rightarrow> exec_unit result" where
  "mk_exec_unit d =
     let_ok (safe_id ''unit_id'' (dget d ''unit_id'')) (\<lambda>unit.
     let_ok (safe_id ''root_concept'' (dget d ''root_concept'')) (\<lambda>root.
     let_ok (safe_id ''slice_id'' (dget d ''slice_id'')) (\<lambda>slice.
     let_ok (in_vocabulary (dget d ''container_role'') container_roles ''container_role is unsupported'') (\<lambda>_.
     let_ok (positive_int ''revision'' (dget d ''revision'')) (\<lambda>revision.
     let_ok (relative_ref ''contract_ref'' (dget d ''contract_ref'')) (\<lambda>ref.
     let_ok (sha256_field ''contract_digest'' (dget d ''contract_digest'')) (\<lambda>digest.
     let_ok (guard (\<not> (revision = 1 \<and> truthy (dget d ''supersedes_unit_id''))) ''revision 1 must not declare supersedes_unit_id'') (\<lambda>_.
     let_ok (if 1 < revision then let_ok (safe_id ''supersedes_unit_id'' (dget d ''supersedes_unit_id'')) (\<lambda>_. Inr ()) else Inr ()) (\<lambda>_.
     Inr \<lparr>eu_unit = unit, eu_root = root, eu_slice = slice, eu_role = the_str (dget d ''container_role''), eu_revision = revision,
       eu_supersedes = dget d ''supersedes_unit_id'', eu_ref = ref, eu_digest = digest\<rparr>)))))))))"

definition exec_unit_from_mapping :: "pyval \<Rightarrow> string \<Rightarrow> exec_unit result" where
  "exec_unit_from_mapping v work_id =
     let_ok (closed_mapping ''ExecutionUnitV1'' exec_unit_fields v) (\<lambda>d.
     let_ok (mk_exec_unit d) (\<lambda>u.
     let_ok (safe_id ''work_id'' (PStr work_id)) (\<lambda>w.
     let_ok (guard (eu_unit u = w) ''unit_id must equal work_id'') (\<lambda>_. Inr u))))"

definition exec_unit_as_dict :: "exec_unit \<Rightarrow> pydict" where
  "exec_unit_as_dict u =
     [(''unit_id'', PStr (eu_unit u)), (''root_concept'', PStr (eu_root u)), (''slice_id'', PStr (eu_slice u)),
      (''container_role'', PStr (eu_role u)), (''revision'', PInt (eu_revision u)), (''supersedes_unit_id'', eu_supersedes u),
      (''contract_ref'', PStr (eu_ref u)), (''contract_digest'', PStr (eu_digest u))]"

section \<open>Scopes and budgets in a document\<close>

definition scope_as_dict :: "work_scope \<Rightarrow> pydict" where
  "scope_as_dict s =
     [(''version'', PInt (version s)), (''allowed_reads'', PList (map PStr (allowed_reads s))),
      (''allowed_writes'', PList (map PStr (allowed_writes s))), (''required_checks'', PList (map PStr (required_checks s)))]"

definition scope_digest :: "work_env \<Rightarrow> work_scope \<Rightarrow> string" where
  "scope_digest E s = r_sha (we_release E) (we_ascii E (PDict (sort_key fst (scope_as_dict s))))"

text \<open>\<open>tuple(v)\<close>: a text yields its characters, a dictionary its keys.\<close>

fun to_tuple :: "pyval \<Rightarrow> pyval list result" where
  "to_tuple (PList xs) = Inr xs"
| "to_tuple (PStr s) = Inr (map (\<lambda>c. PStr [c]) s)"
| "to_tuple (PDict d) = Inr (map (\<lambda>(k, _). PStr k) d)"
| "to_tuple _ = Inl (TypeError ''object is not iterable'')"

definition tuple_or_empty :: "pyval \<Rightarrow> pyval list result" where
  "tuple_or_empty v = (if truthy v then to_tuple v else Inr [])"

definition check_pattern :: "pyval \<Rightarrow> unit result" where
  "check_pattern v = (case v of PStr s \<Rightarrow> validate_path_pattern s | _ \<Rightarrow> Inl (AttributeError ''object has no attribute endswith''))"

text \<open>\<open>all(_CHECK_ID_RE.fullmatch(item) ...)\<close>: the first item that fails ends the test.\<close>

fun check_ids :: "pyval list \<Rightarrow> unit result" where
  "check_ids [] = Inr ()"
| "check_ids (PStr s # xs) = (if check_id_re s then check_ids xs else Inl (ValueError ''required_checks contains unsafe check id''))"
| "check_ids (_ # xs) = Inl (TypeError ''expected string or bytes-like object'')"

definition mk_scope :: "pyval \<Rightarrow> pyval list \<Rightarrow> pyval list \<Rightarrow> pyval list \<Rightarrow> work_scope result" where
  "mk_scope v reads writes checks =
     (case v of
        PInt n \<Rightarrow>
          let_ok (guard (1 \<le> n) ''scope version must be >= 1'') (\<lambda>_.
          let_ok (check_all check_pattern (reads @ writes)) (\<lambda>_.
          let_ok (guard (distinct reads) ''allowed_reads contains duplicates'') (\<lambda>_.
          let_ok (guard (distinct writes) ''allowed_writes contains duplicates'') (\<lambda>_.
          let_ok (if list_ex unhashable checks then Inl (TypeError ''unhashable type'') else Inr ()) (\<lambda>_.
          let_ok (guard (distinct (map py_norm checks)) ''required_checks contains duplicates'') (\<lambda>_.
          let_ok (check_ids checks) (\<lambda>_.
          Inr \<lparr>version = n, allowed_reads = map the_str reads, allowed_writes = map the_str writes,
            required_checks = map the_str checks\<rparr>)))))))
      | _ \<Rightarrow> Inl (ValueError ''scope version must be >= 1''))"

text \<open>The scope as the validation builds it from a document.\<close>

definition read_scope :: "pydict \<Rightarrow> work_scope result" where
  "read_scope d =
     let_ok (tuple_or_empty (dget d ''allowed_reads'')) (\<lambda>reads.
     let_ok (tuple_or_empty (dget d ''allowed_writes'')) (\<lambda>writes.
     let_ok (tuple_or_empty (dget d ''required_checks'')) (\<lambda>checks. mk_scope (dget d ''version'') reads writes checks)))"

text \<open>The scope as the reader builds it: a missing key raises, and so does a value that cannot be iterated.\<close>

definition dindex :: "pydict \<Rightarrow> string \<Rightarrow> pyval result" where
  "dindex d k = (if k \<in> dkeys d then Inr (dget d k) else Inl (KeyError k))"

definition str_tuple :: "pydict \<Rightarrow> string \<Rightarrow> pyval list result" where
  "str_tuple d k = let_ok (dindex d k) (\<lambda>v. let_ok (to_tuple v) (\<lambda>xs. Inr (map (\<lambda>x. PStr (py_str x)) xs)))"

definition load_scope :: "pydict \<Rightarrow> work_scope result" where
  "load_scope d =
     let_ok (str_tuple d ''allowed_reads'') (\<lambda>reads.
     let_ok (str_tuple d ''allowed_writes'') (\<lambda>writes.
     let_ok (str_tuple d ''required_checks'') (\<lambda>checks. mk_scope (dget d ''version'') reads writes checks)))"

fun the_int :: "pyval \<Rightarrow> int" where
  "the_int (PInt n) = n"
| "the_int (PBool b) = (if b then 1 else 0)"
| "the_int _ = 0"

fun is_int :: "pyval \<Rightarrow> bool" where
  "is_int (PInt _) = True"
| "is_int _ = False"

definition budget_fields :: "string list" where
  "budget_fields = [''reads'', ''writes'', ''check_groups'', ''tokens'']"

text \<open>\<open>BudgetLimit(**payload)\<close> for a dictionary with the four keys.\<close>

definition read_budget :: "pydict \<Rightarrow> budget_limit result" where
  "read_budget d =
     (if list_all (\<lambda>k. is_int (dget d k)) budget_fields
      then let l = \<lparr>bl_reads = the_int (dget d ''reads''), bl_writes = the_int (dget d ''writes''),
             bl_check_groups = the_int (dget d ''check_groups''), bl_tokens = the_int (dget d ''tokens'')\<rparr> in
        let_ok (validate_limit l) (\<lambda>_. Inr l)
      else Inl (ValueError ''budget limits must be non-negative''))"

section \<open>The Work\<close>

record work =
  w_schema :: int
  w_id :: string
  w_project :: string
  w_kind :: string
  w_objective :: string
  w_status :: string
  w_request :: string
  w_confirmed :: bool
  w_phase :: string
  w_profile :: string
  w_reasons :: "string list"
  w_gates :: "string list"
  w_route :: route_profile
  w_scope :: work_scope
  w_budget :: budget_limit
  w_usage :: string
  w_release_oid :: string
  w_process_oid :: string
  w_unit :: "exec_unit option"
  w_result :: string
  w_updated :: string
  w_profile_schema :: int
  w_source :: string
  w_record :: string
  w_authorization :: string
  w_source_oid :: string
  w_revision :: int

definition work_ref :: "work \<Rightarrow> string" where
  "work_ref w = ''works/'' @ w_id w @ ''/WORK.yaml''"

definition effective_risk_profile :: "work \<Rightarrow> string result" where
  "effective_risk_profile w = effective_governance_profile (w_profile w) (PInt (w_profile_schema w))"

definition work_binding :: "work \<Rightarrow> profile_binding result" where
  "work_binding w =
     let_ok (guard (w_profile_schema w = 2) ''legacy Work has no GovernanceProfileBindingV2'') (\<lambda>_.
     let_ok (effective_risk_profile w) (\<lambda>effective.
     mk_binding \<lparr>gb_schema = w_profile_schema w, gb_profile = w_profile w, gb_effective = effective, gb_source = w_source w,
       gb_record = w_record w, gb_authorization = w_authorization w, gb_oid = w_source_oid w, gb_revision = w_revision w\<rparr>))"

definition governance_profile_digest :: "work_env \<Rightarrow> work \<Rightarrow> string result" where
  "governance_profile_digest E w =
     (if w_profile_schema w = 2 then let_ok (work_binding w) (\<lambda>b. Inr (binding_digest (we_release E) b))
      else let_ok (effective_risk_profile w) (\<lambda>effective.
        Inr (canonical_digest (we_release E) (PDict [(''effective_profile'', PStr effective), (''risk_profile'', PStr (w_profile w)),
          (''route_revision'', PInt (w_revision w)), (''schema_version'', PInt 1)]))))"

definition work_as_dict :: "work_env \<Rightarrow> work \<Rightarrow> pydict" where
  "work_as_dict E w =
     [(''schema_version'', PInt (w_schema w)), (''work_id'', PStr (w_id w)), (''project_id'', PStr (w_project w)),
      (''kind'', PStr (w_kind w)), (''objective'', PStr (w_objective w)), (''status'', PStr (w_status w)),
      (''request_ref'', PStr (w_request w)), (''request_confirmed'', PBool (w_confirmed w)),
      (''risk_profile'', PStr (w_profile w)), (''risk_reason_codes'', PList (map PStr (w_reasons w))),
      (''required_gates'', PList (map PStr (w_gates w))), (''route_profile'', PDict (route_profile_as_dict (w_route w))),
      (''scope'', PDict (scope_as_dict (w_scope w))), (''scope_digest'', PStr (scope_digest E (w_scope w))),
      (''budget'', PDict (map (\<lambda>(k, n). (k, PInt n)) (limit_dims (w_budget w)))), (''usage_ref'', PStr (w_usage w)),
      (''base_oids'', PDict [(''release'', PStr (w_release_oid w)), (''process'', PStr (w_process_oid w))])]
     @ (if w_phase w \<noteq> [] then [(''phase_ref'', PStr (w_phase w))] else [])
     @ (case w_unit w of None \<Rightarrow> [] | Some u \<Rightarrow> [(''execution_unit'', PDict (exec_unit_as_dict u))])
     @ (if w_result w \<noteq> [] then [(''result_ref'', PStr (w_result w))] else [])
     @ (if w_updated w \<noteq> [] then [(''updated_at'', PStr (w_updated w))] else [])
     @ (if 2 \<le> w_profile_schema w
        then [(''risk_profile_schema_version'', PInt (w_profile_schema w)), (''governance_selection_source'', PStr (w_source w)),
          (''governance_selection_record_digest'', PStr (w_record w)),
          (''governance_selection_authorization_digest'', PStr (w_authorization w)),
          (''governance_selection_source_oid'', PStr (w_source_oid w)), (''governance_route_revision'', PInt (w_revision w))]
        else [])"

section \<open>Validation\<close>

record work_finding =
  wf_code :: string
  wf_message :: string
  wf_key :: "string option"

type_synonym findings = "work_finding list result"

definition finding :: "string \<Rightarrow> string \<Rightarrow> string \<Rightarrow> work_finding" where
  "finding code message key = \<lparr>wf_code = code, wf_message = message, wf_key = Some key\<rparr>"

definition find_if :: "bool \<Rightarrow> work_finding \<Rightarrow> findings" where
  "find_if b f = Inr (if b then [f] else [])"

text \<open>The sections of the validation in order: the first exception leaves it, the findings add up.\<close>

fun collect :: "findings list \<Rightarrow> findings" where
  "collect [] = Inr []"
| "collect (r # rs) = let_ok r (\<lambda>fs. let_ok (collect rs) (\<lambda>gs. Inr (fs @ gs)))"

definition work_max_bytes :: int where
  "work_max_bytes = 16384"

definition work_kinds :: "string list" where
  "work_kinds = [''work'', ''cr'', ''migration'', ''retro'', ''evolution'']"

definition work_statuses :: "string list" where
  "work_statuses = [''planned'', ''active'', ''paused'', ''blocked'', ''ready_for_review'', ''ready_for_verification'',
     ''completed'', ''cancelled'', ''archived'']"

definition governance_keys :: "string list" where
  "governance_keys = [''governance_selection_source'', ''governance_selection_record_digest'',
     ''governance_selection_authorization_digest'', ''governance_selection_source_oid'', ''governance_route_revision'']"

definition work_required_keys :: "string list" where
  "work_required_keys = [''schema_version'', ''work_id'', ''project_id'', ''kind'', ''objective'', ''status'', ''request_ref'',
     ''request_confirmed'', ''risk_profile'', ''risk_reason_codes'', ''required_gates'', ''scope'', ''scope_digest'', ''budget'',
     ''usage_ref'', ''base_oids'']"

definition work_allowed_keys :: "string list" where
  "work_allowed_keys = work_required_keys @ [''phase_ref'', ''result_ref'', ''route_profile'', ''execution_unit'', ''updated_at'',
     ''depends_on'', ''supersedes'', ''risk_profile_schema_version''] @ governance_keys"

definition short_id_re :: "string \<Rightarrow> bool" where
  "short_id_re s = (ident_re ''._-'' s \<and> length s \<le> 64)"

definition reason_re :: "string \<Rightarrow> bool" where
  "reason_re s = (case s of [] \<Rightarrow> False
     | c # cs \<Rightarrow> (ascii_upper c \<or> ascii_digit c) \<and> length cs \<le> 127
         \<and> list_all (\<lambda>x. ascii_upper x \<or> ascii_digit x \<or> x \<in> set ''_-'') cs)"

definition str_such :: "(string \<Rightarrow> bool) \<Rightarrow> pyval \<Rightarrow> bool" where
  "str_such p v = (case v of PStr s \<Rightarrow> p s | _ \<Rightarrow> False)"

definition is_safe_ref :: "string \<Rightarrow> bool" where
  "is_safe_ref s = (s \<noteq> [] \<and> \<not> is_absolute s \<and> \<not> list_ex unsafe_part (path_parts s))"

text \<open>With a prefix the first component is compared; a path without components has none.\<close>

definition is_safe_ref_under :: "string \<Rightarrow> string \<Rightarrow> bool result" where
  "is_safe_ref_under pre s =
     (if \<not> is_safe_ref s then Inr False
      else case path_parts s of [] \<Rightarrow> Inl (IndexError ''tuple index out of range'') | w # _ \<Rightarrow> Inr (w = pre))"

definition absent_or_empty :: "pyval \<Rightarrow> bool" where
  "absent_or_empty v = (v = PNone \<or> v = PStr [])"

definition dget_or :: "pydict \<Rightarrow> string \<Rightarrow> pyval \<Rightarrow> pyval" where
  "dget_or d k v = (if k \<in> dkeys d then dget d k else v)"

definition work_prefix :: "pydict \<Rightarrow> string" where
  "work_prefix d = ''works/'' @ py_str (dget_or d ''work_id'' (PStr [])) @ ''/''"

definition key_findings :: "pydict \<Rightarrow> findings" where
  "key_findings d =
     Inr (map (\<lambda>k. finding ''unknown_key'' (''WORK.yaml contains unknown field: '' @ k) k) (sort (extra_keys work_allowed_keys d))
       @ map (\<lambda>k. finding ''missing_required'' (''WORK.yaml missing required field: '' @ k) k)
           (sort (missing_keys work_required_keys d)))"

definition id_finding :: "pydict \<Rightarrow> string \<Rightarrow> findings" where
  "id_finding d k = find_if (\<not> str_such short_id_re (dget d k)) (finding ''id'' (k @ '' must use 1-64 safe ID characters'') k)"

definition vocabulary_finding :: "pyval \<Rightarrow> string list \<Rightarrow> work_finding \<Rightarrow> findings" where
  "vocabulary_finding v names f = let_ok (member_of v names) (\<lambda>b. find_if (\<not> b) f)"

definition identity_findings :: "pydict \<Rightarrow> findings list" where
  "identity_findings d =
     [find_if (\<not> py_eq (dget d ''schema_version'') (PInt 1)) (finding ''schema_version'' ''schema_version must be 1'' ''schema_version''),
      id_finding d ''work_id'', id_finding d ''project_id'',
      vocabulary_finding (dget d ''kind'') work_kinds (finding ''kind'' ''kind is not a supported Work kind'' ''kind''),
      find_if (\<not> str_such (\<lambda>s. py_strip s \<noteq> []) (dget d ''objective''))
        (finding ''objective'' ''objective must be a non-empty string'' ''objective''),
      vocabulary_finding (dget d ''status'') work_statuses (finding ''status'' ''status is not a supported Work status'' ''status''),
      find_if (dget d ''request_confirmed'' \<noteq> PBool True)
        (finding ''request_confirmation'' ''request_confirmed must be true before Work creation'' ''request_confirmed'')]"

definition under_work :: "pydict \<Rightarrow> string \<Rightarrow> bool" where
  "under_work d s = (is_safe_ref s \<and> prefix (work_prefix d) s)"

definition ref_finding :: "pydict \<Rightarrow> string \<Rightarrow> work_finding" where
  "ref_finding d k = finding ''ref_path'' (k @ '' must be under '' @ work_prefix d) k"

definition ref_findings :: "pydict \<Rightarrow> findings list" where
  "ref_findings d =
     [find_if (\<not> str_such (under_work d) (dget d ''request_ref'')) (ref_finding d ''request_ref''),
      find_if (\<not> str_such (under_work d) (dget d ''usage_ref'')) (ref_finding d ''usage_ref''),
      (if absent_or_empty (dget_or d ''phase_ref'' (PStr [])) then Inr []
       else case dget d ''phase_ref'' of
         PStr s \<Rightarrow> let_ok (is_safe_ref_under ''phases'' s) (\<lambda>b.
           find_if (\<not> b) (finding ''ref_path'' ''phase_ref must be under phases/'' ''phase_ref''))
       | _ \<Rightarrow> Inr [finding ''ref_path'' ''phase_ref must be under phases/'' ''phase_ref'']),
      find_if (\<not> absent_or_empty (dget_or d ''result_ref'' (PStr [])) \<and> \<not> str_such (under_work d) (dget d ''result_ref''))
        (ref_finding d ''result_ref'')]"

text \<open>The stored governance binding: \<open>str(payload.get(key) or "")\<close> for the texts, the revision as it is.\<close>

definition binding_of_payload :: "pydict \<Rightarrow> string \<Rightarrow> profile_binding result" where
  "binding_of_payload d risk_profile =
     let_ok (effective_governance_profile risk_profile (PInt 2)) (\<lambda>effective.
     case dget d ''governance_route_revision'' of
       PInt n \<Rightarrow> mk_binding \<lparr>gb_schema = 2, gb_profile = risk_profile, gb_effective = effective,
         gb_source = str_or_empty (dget d ''governance_selection_source''),
         gb_record = str_or_empty (dget d ''governance_selection_record_digest''),
         gb_authorization = str_or_empty (dget d ''governance_selection_authorization_digest''),
         gb_oid = str_or_empty (dget d ''governance_selection_source_oid''), gb_revision = n\<rparr>
     | _ \<Rightarrow> Inl (ValueError ''GOVERNANCE_PROFILE_BINDING_ROUTE_REVISION_INVALID''))"

definition profile_schema :: "pydict \<Rightarrow> pyval" where
  "profile_schema d = dget_or d ''risk_profile_schema_version'' (PInt 1)"

definition error_finding :: "string \<Rightarrow> string \<Rightarrow> 'a result \<Rightarrow> findings" where
  "error_finding code key r = (case r of Inl e \<Rightarrow> Inr [finding code (exc_text e) key] | Inr _ \<Rightarrow> Inr [])"

definition unkeyed :: "string \<Rightarrow> string \<Rightarrow> work_finding" where
  "unkeyed code message = \<lparr>wf_code = code, wf_message = message, wf_key = None\<rparr>"

definition risk_findings :: "pydict \<Rightarrow> findings list" where
  "risk_findings d =
     (let v = dget d ''risk_profile''; sv = profile_schema d in
      [vocabulary_finding v governance_risk_profiles
         (finding ''risk_profile'' ''risk_profile must be G0, G1, G2, or G3'' ''risk_profile''),
       (if sv \<noteq> PInt 1 \<and> sv \<noteq> PInt 2
        then Inr [finding ''risk_profile_schema_version'' ''risk_profile_schema_version must be 1 or 2'' ''risk_profile_schema_version'']
        else if v \<in> PStr ` set governance_risk_profiles
        then collect
          [error_finding ''risk_profile'' ''risk_profile'' (effective_governance_profile (the_str v) sv),
           (if sv = PInt 2
            then (case binding_of_payload d (the_str v) of
                Inl e \<Rightarrow> Inr [unkeyed ''governance_profile_binding'' (exc_text e)] | Inr _ \<Rightarrow> Inr [])
            else find_if (list_ex (\<lambda>k. k \<in> dkeys d) governance_keys)
              (unkeyed ''governance_profile_binding'' ''V1 Work cannot carry GovernanceProfileBindingV2 fields''))]
        else Inr [])])"

definition codes_findings :: "string \<Rightarrow> (string \<Rightarrow> bool) \<Rightarrow> bool \<Rightarrow> string \<Rightarrow> pyval \<Rightarrow> findings" where
  "codes_findings key pat empty_ok message v =
     (case v of
        PList xs \<Rightarrow>
          if (xs = [] \<and> \<not> empty_ok) \<or> \<not> list_all (str_such pat) xs then Inr [finding key message key]
          else find_if (\<not> distinct xs) (finding ''duplicate'' (key @ '' contains duplicates'') key)
      | _ \<Rightarrow> Inr [finding key message key])"

definition code_findings :: "pydict \<Rightarrow> findings list" where
  "code_findings d =
     [codes_findings ''risk_reason_codes'' reason_re False ''risk_reason_codes must be non-empty safe codes''
        (dget d ''risk_reason_codes''),
      codes_findings ''required_gates'' check_id_re True ''required_gates must be safe codes'' (dget d ''required_gates'')]"

text \<open>The level the route is checked with. The version is tested with \<open>in\<close>, for which \<open>True\<close> is 1; what
  \<open>effective_governance_profile\<close> raises here is not caught.\<close>

definition route_level :: "pydict \<Rightarrow> string result" where
  "route_level d =
     (let v = dget d ''risk_profile''; sv = profile_schema d in
      if v \<in> PStr ` set governance_risk_profiles
      then if unhashable sv then Inl (TypeError ''unhashable type'')
        else if py_eq sv (PInt 1) \<or> py_eq sv (PInt 2) then effective_governance_profile (the_str v) sv
        else Inr (str_or_empty v)
      else Inr (str_or_empty v))"

definition route_findings :: "pydict \<Rightarrow> findings" where
  "route_findings d =
     (case route_profile_from_payload (dget d ''route_profile'') of
        Inl e \<Rightarrow> Inr [finding ''route_profile'' (exc_text e) ''route_profile'']
      | Inr p \<Rightarrow> let_ok (route_level d) (\<lambda>level.
          Inr (map (\<lambda>m. finding ''route_profile'' m ''route_profile'')
            (rd_errors (evaluate_route_profile p level (str_or_empty (dget d ''kind'')) [] False)))))"

text \<open>Only a \<open>ValueError\<close> of the execution unit is a finding.\<close>

definition unit_findings :: "pydict \<Rightarrow> findings list" where
  "unit_findings d =
     (let v = dget d ''execution_unit'' in
      if v = PNone then []
      else [find_if (dget d ''kind'' \<notin> {PStr ''work'', PStr ''cr''})
          (finding ''execution_unit'' ''execution_unit v1 is supported only by Work/CR execution envelopes'' ''execution_unit''),
        (if \<not> is_dict v then Inr [finding ''execution_unit'' ''execution_unit must be a closed mapping'' ''execution_unit'']
         else case exec_unit_from_mapping v (str_or_empty (dget d ''work_id'')) of
           Inl (ValueError m) \<Rightarrow> Inr [finding ''execution_unit'' m ''execution_unit'']
         | Inl e \<Rightarrow> Inl e
         | Inr _ \<Rightarrow> Inr [])])"

text \<open>A \<open>TypeError\<close> or \<open>ValueError\<close> of the scope is a finding, any other exception leaves the validation.\<close>

definition scope_findings :: "work_env \<Rightarrow> pydict \<Rightarrow> findings" where
  "scope_findings E d =
     (case dget d ''scope'' of
        PDict s \<Rightarrow>
          (case read_scope s of
             Inl (ValueError m) \<Rightarrow> Inr [finding ''scope'' m ''scope'']
           | Inl (TypeError m) \<Rightarrow> Inr [finding ''scope'' m ''scope'']
           | Inl e \<Rightarrow> Inl e
           | Inr sc \<Rightarrow> find_if (dget d ''scope_digest'' \<noteq> PStr (scope_digest E sc))
               (finding ''scope_digest'' ''scope_digest does not match scope'' ''scope_digest''))
      | _ \<Rightarrow> Inr [finding ''scope'' ''scope must be an object'' ''scope''])"

definition budget_findings :: "pydict \<Rightarrow> findings" where
  "budget_findings d =
     (case dget d ''budget'' of
        PDict b \<Rightarrow>
          if dkeys b \<noteq> set budget_fields
          then Inr [finding ''budget'' ''budget must contain reads/writes/check_groups/tokens'' ''budget'']
          else error_finding ''budget'' ''budget'' (read_budget b)
      | _ \<Rightarrow> Inr [finding ''budget'' ''budget must contain reads/writes/check_groups/tokens'' ''budget''])"

definition any_hex :: "char \<Rightarrow> bool" where
  "any_hex c = lower_hex (lower_char c)"

definition safe_oid :: "pyval \<Rightarrow> bool" where
  "safe_oid v = str_such (\<lambda>s. s = [] \<or> (length s = 40 \<or> length s = 64) \<and> list_all any_hex s) v"

definition oid_findings :: "pydict \<Rightarrow> findings list" where
  "oid_findings d =
     (case dget d ''base_oids'' of
        PDict b \<Rightarrow>
          if dkeys b \<noteq> {''release'', ''process''}
          then [Inr [finding ''base_oids'' ''base_oids must contain release and process'' ''base_oids'']]
          else map (\<lambda>role. find_if (\<not> safe_oid (dget b role))
            (finding ''base_oid'' (''base_oids.'' @ role @ '' must be empty or one full hex OID'') ''base_oids''))
            [''release'', ''process'']
      | _ \<Rightarrow> [Inr [finding ''base_oids'' ''base_oids must contain release and process'' ''base_oids'']])"

definition validate_work_payload :: "work_env \<Rightarrow> pydict \<Rightarrow> int option \<Rightarrow> findings" where
  "validate_work_payload E d byte_size =
     collect
       ([find_if (case byte_size of None \<Rightarrow> False | Some n \<Rightarrow> work_max_bytes < n)
           (unkeyed ''work_over_budget'' (''WORK.yaml exceeds 16384 bytes: '' @ (case byte_size of None \<Rightarrow> [] | Some n \<Rightarrow> int_str n))),
         key_findings d]
        @ identity_findings d @ ref_findings d @ risk_findings d @ code_findings d @ [route_findings d] @ unit_findings d
        @ [scope_findings E d, budget_findings d] @ oid_findings d
        @ [find_if (dget d ''status'' = PStr ''completed'' \<and> \<not> truthy (dget_or d ''result_ref'' (PStr [])))
             (finding ''result_required'' ''completed Work requires result_ref'' ''result_ref'')])"

section \<open>Reading and building\<close>

definition accept_findings :: "findings \<Rightarrow> unit result" where
  "accept_findings r = let_ok r (\<lambda>fs. guard (fs = []) (join_with ''; '' (map wf_message fs)))"

fun list_of :: "pyval \<Rightarrow> pyval list" where
  "list_of (PList xs) = xs"
| "list_of _ = []"

fun dict_of :: "pyval \<Rightarrow> pydict" where
  "dict_of (PDict d) = d"
| "dict_of _ = []"

definition work_from_payload :: "work_env \<Rightarrow> pydict \<Rightarrow> work result" where
  "work_from_payload E d =
     let_ok (accept_findings (validate_work_payload E d None)) (\<lambda>_.
     let_ok (route_profile_from_payload (dget d ''route_profile'')) (\<lambda>route.
     let_ok (load_scope (dict_of (dget d ''scope''))) (\<lambda>scope.
     let_ok (read_budget (dict_of (dget d ''budget''))) (\<lambda>budget.
     let_ok (case dget d ''execution_unit'' of
         PDict u \<Rightarrow> let_ok (exec_unit_from_mapping (PDict u) (py_str (dget d ''work_id''))) (\<lambda>u. Inr (Some u))
       | _ \<Rightarrow> Inr None) (\<lambda>execution_unit.
     Inr \<lparr>w_schema = the_int (dget d ''schema_version''), w_id = py_str (dget d ''work_id''),
       w_project = py_str (dget d ''project_id''), w_kind = py_str (dget d ''kind''),
       w_objective = py_str (dget d ''objective''), w_status = py_str (dget d ''status''),
       w_request = py_str (dget d ''request_ref''), w_confirmed = True, w_phase = str_or_empty (dget d ''phase_ref''),
       w_profile = py_str (dget d ''risk_profile''), w_reasons = map py_str (list_of (dget d ''risk_reason_codes'')),
       w_gates = map py_str (list_of (dget d ''required_gates'')), w_route = route, w_scope = scope, w_budget = budget,
       w_usage = py_str (dget d ''usage_ref''), w_release_oid = py_str (dget (dict_of (dget d ''base_oids'')) ''release''),
       w_process_oid = py_str (dget (dict_of (dget d ''base_oids'')) ''process''), w_unit = execution_unit,
       w_result = str_or_empty (dget d ''result_ref''), w_updated = str_or_empty (dget d ''updated_at''),
       w_profile_schema = the_int (profile_schema d),
       w_source = (if truthy (dget d ''governance_selection_source'') then py_str (dget d ''governance_selection_source'')
         else ''system-default''),
       w_record = str_or_empty (dget d ''governance_selection_record_digest''),
       w_authorization = str_or_empty (dget d ''governance_selection_authorization_digest''),
       w_source_oid = str_or_empty (dget d ''governance_selection_source_oid''),
       w_revision = the_int (dget_or d ''governance_route_revision'' (PInt 1))\<rparr>)))))"

definition build_work :: "work_env \<Rightarrow> string \<Rightarrow> string \<Rightarrow> string \<Rightarrow> string \<Rightarrow> work_scope \<Rightarrow> classification \<Rightarrow> string \<Rightarrow> string
    \<Rightarrow> string \<Rightarrow> string option \<Rightarrow> route_profile \<Rightarrow> exec_unit option \<Rightarrow> work result" where
  "build_work E work_id project objective request scope c release_oid process_oid phase kind route execution_unit =
     (case k_budget c of
        None \<Rightarrow> Inl (ValueError ''blocked classification cannot create a Work'')
      | Some budget \<Rightarrow>
        if k_blocked c then Inl (ValueError ''blocked classification cannot create a Work'')
        else let w = \<lparr>w_schema = 1, w_id = work_id, w_project = project,
            w_kind = (case kind of None \<Rightarrow> k_container c | Some k \<Rightarrow> if k = [] then k_container c else k),
            w_objective = objective, w_status = ''planned'', w_request = request, w_confirmed = True, w_phase = phase,
            w_profile = k_profile c, w_reasons = k_reasons c, w_gates = k_gates c, w_route = route, w_scope = scope,
            w_budget = budget, w_usage = ''works/'' @ work_id @ ''/USAGE.json'', w_release_oid = release_oid,
            w_process_oid = process_oid, w_unit = execution_unit, w_result = [], w_updated = [], w_profile_schema = k_schema c,
            w_source = k_source c, w_record = k_record c, w_authorization = k_authorization c, w_source_oid = k_oid c,
            w_revision = k_revision c\<rparr> in
          let_ok (accept_findings (validate_work_payload E (work_as_dict E w) None)) (\<lambda>_. Inr w))"

end
