(* ===== verification/Work_Documents.thy ===== *)
theory Work_Documents
  imports Work_Envelope
begin

text \<open>
  What the validation of a Work document accepts, section by section, and the well-formed Works: every Work that is
  read is well-formed, and every well-formed Work is written to a document that is valid and reads back as the same Work.
\<close>

section \<open>Sections\<close>

lemma find_if_Nil [simp]: "find_if b f = Inr [] \<longleftrightarrow> \<not> b"
  by (simp add: find_if_def)

lemma collect_Nil: "collect rs = Inr [] \<longleftrightarrow> (\<forall>r \<in> set rs. r = Inr [])"
  by (induction rs) (auto simp: read_simps)

declare collect.simps [simp del]

lemma vocabulary_Nil [simp]: "vocabulary_finding v names f = Inr [] \<longleftrightarrow> v \<in> PStr ` set names"
  by (cases v) (auto simp: vocabulary_finding_def member_of_def read_simps)

lemma str_such_iff: "str_such p v \<longleftrightarrow> (\<exists>s. v = PStr s \<and> p s)"
  by (cases v) (auto simp: str_such_def)

lemma list_all_str_such: "list_all (str_such p) xs \<longleftrightarrow> (\<exists>ss. xs = map PStr ss \<and> list_all p ss)"
proof
  show "list_all (str_such p) xs \<Longrightarrow> \<exists>ss. xs = map PStr ss \<and> list_all p ss"
  proof (induction xs)
    case (Cons x xs)
    then obtain s ss where "x = PStr s" "p s" "xs = map PStr ss" "list_all p ss" by (auto simp: str_such_iff)
    then show ?case by (intro exI [of _ "s # ss"]) simp
  qed simp
qed (auto simp: str_such_def list_all_iff)

lemma error_finding_Nil [simp]: "error_finding code key r = Inr [] \<longleftrightarrow> is_ok r"
  by (cases r) (simp_all add: error_finding_def)

lemma codes_Nil [simp]: "codes_findings key pat empty_ok m v = Inr [] \<longleftrightarrow>
    (\<exists>ss. v = PList (map PStr ss) \<and> (ss \<noteq> [] \<or> empty_ok) \<and> list_all pat ss \<and> distinct ss)"
proof (cases v)
  case (PList xs)
  have d: "distinct (map PStr ss) = distinct ss" for ss by (simp add: distinct_map inj_on_def)
  show ?thesis unfolding PList by (auto simp: codes_findings_def list_all_str_such d)
qed (auto simp: codes_findings_def)

lemma absent_or_empty_str [simp]: "absent_or_empty (PStr s) \<longleftrightarrow> s = []" "absent_or_empty PNone"
  by (simp_all add: absent_or_empty_def)

section \<open>Scopes, budgets and units\<close>

lemma check_patterns: "check_all check_pattern xs = Inr () \<longleftrightarrow> (\<exists>ss. xs = map PStr ss \<and> first_error (map validate_path_pattern ss) = Inr ())"
proof (induction xs)
  case (Cons x xs)
  show ?case
  proof (cases x)
    case (PStr s)
    show ?thesis
    proof (cases "validate_path_pattern s")
      case (Inr u)
      have "(\<exists>ss. PStr s # xs = map PStr ss \<and> first_error (map validate_path_pattern ss) = Inr ()) \<longleftrightarrow>
          (\<exists>ss. xs = map PStr ss \<and> first_error (map validate_path_pattern ss) = Inr ())"
        using Inr by (auto simp: Cons_eq_map_conv)
      then show ?thesis using Inr PStr Cons by (simp add: check_pattern_def)
    qed (auto simp: PStr check_pattern_def Cons_eq_map_conv)
  qed (auto simp: check_pattern_def Cons_eq_map_conv)
qed simp

lemma check_ids_Inr: "check_ids xs = Inr () \<longleftrightarrow> (\<exists>ss. xs = map PStr ss \<and> list_all check_id_re ss)"
proof (induction xs rule: check_ids.induct)
  case (2 s xs)
  have "(\<exists>ss. PStr s # xs = map PStr ss \<and> list_all check_id_re ss) \<longleftrightarrow>
      check_id_re s \<and> (\<exists>ss. xs = map PStr ss \<and> list_all check_id_re ss)" by (auto simp: Cons_eq_map_conv)
  then show ?case using 2 by simp
qed (auto simp: Cons_eq_map_conv)

lemma check_units:
  "check_all check_pattern xs = Inr u \<longleftrightarrow> (\<exists>ss. xs = map PStr ss \<and> first_error (map validate_path_pattern ss) = Inr ())"
  "check_ids xs = Inr u \<longleftrightarrow> (\<exists>ss. xs = map PStr ss \<and> list_all check_id_re ss)"
  by (simp_all add: check_patterns check_ids_Inr)

definition scope_ok :: "work_scope \<Rightarrow> bool" where
  "scope_ok s = (validate_work_scope s = Inr ())"

lemma scope_ok_iff: "scope_ok s \<longleftrightarrow> 1 \<le> version s
    \<and> first_error (map validate_path_pattern (allowed_reads s @ allowed_writes s)) = Inr ()
    \<and> distinct (allowed_reads s) \<and> distinct (allowed_writes s) \<and> distinct (required_checks s)
    \<and> list_all check_id_re (required_checks s)"
  by (auto simp: scope_ok_def validate_work_scope_def split: sum.split if_splits)

lemma inj_PStr [simp]: "map PStr xs = map PStr ys \<longleftrightarrow> xs = ys"
  by (simp add: inj_on_def inj_map_eq_map)

lemma the_strs [simp]: "the_str \<circ> PStr = id" "py_norm \<circ> PStr = PStr" "(\<lambda>x. PStr (py_str x)) \<circ> PStr = PStr"
  "py_str \<circ> PStr = id" "f \<circ> the_str \<circ> PStr = f" "f \<circ> (the_str \<circ> PStr) = f"
  by (auto simp: py_str_def)

lemma distinct_PStr [simp]: "distinct (map PStr ss) = distinct ss"
  by (simp add: distinct_map inj_on_def)

lemma mk_scope_Inr: "mk_scope v reads writes checks = Inr s \<longleftrightarrow> scope_ok s \<and> v = PInt (version s)
    \<and> reads = map PStr (allowed_reads s) \<and> writes = map PStr (allowed_writes s) \<and> checks = map PStr (required_checks s)"
  (is "?l \<longleftrightarrow> ?r")
proof
  assume l: ?l
  then obtain n where v: "v = PInt n" by (cases v) (auto simp: mk_scope_def)
  from l obtain ps cs where ps: "reads @ writes = map PStr ps" "first_error (map validate_path_pattern ps) = Inr ()"
    and cs: "checks = map PStr cs" "list_all check_id_re cs"
    unfolding v mk_scope_def pyval.case read_simps check_units by blast
  then obtain rs ws where rw: "reads = map PStr rs" "writes = map PStr ws" "ps = rs @ ws"
    by (metis map_eq_append_conv append_eq_map_conv)
  from l show ?r
    unfolding v mk_scope_def pyval.case read_simps scope_ok_iff using ps cs rw by auto
next
  assume r: ?r
  have "\<not> list_ex unhashable (map PStr xs)" for xs by (induction xs) auto
  then show ?l
    using r unfolding scope_ok_iff mk_scope_def
    by (cases s) (auto simp: read_simps check_units simp flip: map_append)
qed

lemma read_scope_ok: "read_scope d = Inr s \<Longrightarrow> scope_ok s"
  by (auto simp: read_scope_def read_simps mk_scope_Inr)

lemma load_scope_ok: "load_scope d = Inr s \<Longrightarrow> scope_ok s"
  by (auto simp: load_scope_def read_simps mk_scope_Inr)

lemma scope_roundtrip:
  assumes "scope_ok s"
  shows "read_scope (scope_as_dict s) = Inr s" and "load_scope (scope_as_dict s) = Inr s"
proof -
  have t: "tuple_or_empty (PList xs) = Inr xs" for xs by (simp add: tuple_or_empty_def)
  show "read_scope (scope_as_dict s) = Inr s"
    by (simp add: read_scope_def scope_as_dict_def t mk_scope_Inr assms)
  have i: "str_tuple (scope_as_dict s) ''allowed_reads'' = Inr (map PStr (allowed_reads s))"
    "str_tuple (scope_as_dict s) ''allowed_writes'' = Inr (map PStr (allowed_writes s))"
    "str_tuple (scope_as_dict s) ''required_checks'' = Inr (map PStr (required_checks s))"
    by (simp_all add: str_tuple_def dindex_def scope_as_dict_def py_str_def)
  have v: "dget (scope_as_dict s) ''version'' = PInt (version s)" by (simp add: scope_as_dict_def)
  show "load_scope (scope_as_dict s) = Inr s" by (simp add: load_scope_def i v mk_scope_Inr assms)
qed

lemma read_budget_ok: "read_budget d = Inr l \<Longrightarrow> validate_limit l = Inr ()"
  by (auto simp: read_budget_def read_simps Let_def split: if_splits)

definition budget_dict :: "budget_limit \<Rightarrow> pydict" where
  "budget_dict l = map (\<lambda>(k, n). (k, PInt n)) (limit_dims l)"

lemma budget_roundtrip: "read_budget (budget_dict l) = let_ok (validate_limit l) (\<lambda>_. Inr l)" "dkeys (budget_dict l) = set budget_fields"
  by (cases l, simp_all add: read_budget_def budget_dict_def limit_dims_def budget_fields_def Let_def)

definition exec_unit_ok :: "exec_unit \<Rightarrow> bool" where
  "exec_unit_ok u = (work_id_re (eu_unit u) \<and> work_id_re (eu_root u) \<and> work_id_re (eu_slice u) \<and> eu_role u \<in> set container_roles
     \<and> 1 \<le> eu_revision u \<and> relative_ref_text (eu_ref u) \<and> hex_id 64 (eu_digest u)
     \<and> (if eu_revision u = 1 then \<not> truthy (eu_supersedes u) else str_such work_id_re (eu_supersedes u)))"

lemma checked_str_Inr [read_simps]: "checked_str p m v = Inr s \<longleftrightarrow> v = PStr s \<and> p s"
  by (cases v) (auto simp: checked_str_def)

lemma positive_int_Inr [read_simps]: "positive_int f v = Inr n \<longleftrightarrow> v = PInt n \<and> 1 \<le> n"
  by (cases v) (auto simp: positive_int_def)

lemma closed_mapping_Inr [read_simps]: "closed_mapping subj names v = Inr d \<longleftrightarrow> v = PDict d \<and> dkeys d = set names"
  by (cases v) (auto simp: closed_mapping_def)

lemmas field_readers = safe_id_def relative_ref_def sha256_field_def

lemma exec_unit_type: "exec_unit_from_mapping v w = Inr u \<Longrightarrow> exec_unit_ok u \<and> eu_unit u = w"
  unfolding exec_unit_from_mapping_def mk_exec_unit_def field_readers read_simps exec_unit_ok_def
  by (auto simp: read_simps str_such_iff split: if_splits)

lemma exec_unit_roundtrip: "exec_unit_ok u \<Longrightarrow> exec_unit_from_mapping (PDict (exec_unit_as_dict u)) (eu_unit u) = Inr u"
proof -
  assume ok: "exec_unit_ok u"
  let ?d = "exec_unit_as_dict u"
  have g: "dget ?d ''unit_id'' = PStr (eu_unit u)" "dget ?d ''root_concept'' = PStr (eu_root u)"
    "dget ?d ''slice_id'' = PStr (eu_slice u)" "dget ?d ''container_role'' = PStr (eu_role u)"
    "dget ?d ''revision'' = PInt (eu_revision u)" "dget ?d ''supersedes_unit_id'' = eu_supersedes u"
    "dget ?d ''contract_ref'' = PStr (eu_ref u)" "dget ?d ''contract_digest'' = PStr (eu_digest u)"
    "dkeys ?d = set exec_unit_fields"
    by (simp_all add: exec_unit_as_dict_def exec_unit_fields_def)
  have "mk_exec_unit ?d = Inr u"
    using ok unfolding mk_exec_unit_def field_readers read_simps g exec_unit_ok_def
    by (cases u) (auto simp: read_simps str_such_iff split: if_splits)
  then show ?thesis
    using ok by (simp add: exec_unit_from_mapping_def field_readers read_simps g exec_unit_ok_def)
qed

section \<open>Accepted documents\<close>

lemma identity_accepts: "(\<forall>r \<in> set (identity_findings d). r = Inr []) \<longleftrightarrow>
    py_eq (dget d ''schema_version'') (PInt 1) \<and> str_such short_id_re (dget d ''work_id'')
    \<and> str_such short_id_re (dget d ''project_id'') \<and> dget d ''kind'' \<in> PStr ` set work_kinds
    \<and> str_such (\<lambda>s. py_strip s \<noteq> []) (dget d ''objective'') \<and> dget d ''status'' \<in> PStr ` set work_statuses
    \<and> dget d ''request_confirmed'' = PBool True"
  by (simp add: identity_findings_def id_finding_def)

definition phase_accepted :: "pyval \<Rightarrow> bool" where
  "phase_accepted v = (absent_or_empty v \<or> (\<exists>s. v = PStr s \<and> is_safe_ref_under ''phases'' s = Inr True))"

lemma dget_or_absent: "absent_or_empty (dget_or d k (PStr [])) \<longleftrightarrow> absent_or_empty (dget d k)"
proof (cases "k \<in> dkeys d")
  case False
  then have "map_of d k = None" by (simp add: dkeys_def map_of_eq_None_iff)
  then show ?thesis using False by (simp add: dget_or_def dget_def)
qed (simp add: dget_or_def)

lemma phase_finding_Nil:
  "(if absent_or_empty (dget_or d ''phase_ref'' (PStr [])) then Inr []
    else case dget d ''phase_ref'' of
       PStr s \<Rightarrow> let_ok (is_safe_ref_under ''phases'' s) (\<lambda>b. find_if (\<not> b) f) | _ \<Rightarrow> Inr [g]) = Inr []
   \<longleftrightarrow> phase_accepted (dget d ''phase_ref'')"
  unfolding dget_or_absent phase_accepted_def by (cases "dget d ''phase_ref''") (auto simp: read_simps)

lemma ref_accepts: "(\<forall>r \<in> set (ref_findings d). r = Inr []) \<longleftrightarrow>
    str_such (under_work d) (dget d ''request_ref'') \<and> str_such (under_work d) (dget d ''usage_ref'')
    \<and> phase_accepted (dget d ''phase_ref'')
    \<and> (absent_or_empty (dget d ''result_ref'') \<or> str_such (under_work d) (dget d ''result_ref''))"
  unfolding ref_findings_def list.set ball_simps phase_finding_Nil find_if_Nil unfolding dget_or_absent by blast

definition risk_accepted :: "pydict \<Rightarrow> bool" where
  "risk_accepted d = (\<exists>p \<in> set governance_risk_profiles. dget d ''risk_profile'' = PStr p
     \<and> (profile_schema d = PInt 1 \<and> p \<noteq> ''G3'' \<and> (\<forall>k \<in> set governance_keys. k \<notin> dkeys d)
        \<or> profile_schema d = PInt 2 \<and> (\<exists>b. binding_of_payload d p = Inr b)))"

lemma effective_ok: "p \<in> set governance_risk_profiles \<Longrightarrow> is_ok (effective_governance_profile p (PInt 1)) \<longleftrightarrow> p \<noteq> ''G3''"
  "p \<in> set governance_risk_profiles \<Longrightarrow> effective_governance_profile p (PInt 2) = Inr p"
  by (simp_all add: effective_governance_profile_def)

lemma binding_finding_Nil: "(case r of Inl e \<Rightarrow> Inr [f e] | Inr _ \<Rightarrow> Inr []) = (Inr [] :: findings) \<longleftrightarrow> (\<exists>b. r = Inr b)"
  by (cases r) auto

lemma risk_accepts: "(\<forall>r \<in> set (risk_findings d). r = Inr []) \<longleftrightarrow> risk_accepted d"
proof -
  have n: "list_ex (\<lambda>k. k \<in> dkeys d) governance_keys \<longleftrightarrow> \<not> (\<forall>k \<in> set governance_keys. k \<notin> dkeys d)"
    by (auto simp: list_ex_iff)
  have ne: "PInt 1 \<noteq> PInt 2" by simp
  show ?thesis
    unfolding risk_findings_def Let_def list.set ball_simps vocabulary_Nil risk_accepted_def
    using effective_ok ne by (auto simp: collect_Nil n binding_finding_Nil)
qed

lemma code_accepts: "(\<forall>r \<in> set (code_findings d). r = Inr []) \<longleftrightarrow>
    (\<exists>ss. dget d ''risk_reason_codes'' = PList (map PStr ss) \<and> ss \<noteq> [] \<and> list_all reason_re ss \<and> distinct ss)
    \<and> (\<exists>ss. dget d ''required_gates'' = PList (map PStr ss) \<and> list_all check_id_re ss \<and> distinct ss)"
  by (simp add: code_findings_def)

lemma route_accepts: "route_findings d = Inr [] \<longleftrightarrow> (\<exists>p level. route_profile_from_payload (dget d ''route_profile'') = Inr p
    \<and> route_level d = Inr level \<and> route_errors p level (str_or_empty (dget d ''kind'')) [] False = [])"
proof (cases "route_profile_from_payload (dget d ''route_profile'')")
  case (Inr p)
  then show ?thesis by (auto simp: route_findings_def read_simps evaluate_route_profile_def Let_def)
qed (simp add: route_findings_def)

lemma unit_accepts: "(\<forall>r \<in> set (unit_findings d). r = Inr []) \<longleftrightarrow> dget d ''execution_unit'' = PNone
    \<or> dget d ''kind'' \<in> {PStr ''work'', PStr ''cr''}
      \<and> (\<exists>u e. dget d ''execution_unit'' = PDict u \<and> exec_unit_from_mapping (PDict u) (str_or_empty (dget d ''work_id'')) = Inr e)"
proof (cases "dget d ''execution_unit''")
  case (PDict u)
  have "(case r of Inl (ValueError m) \<Rightarrow> Inr [f m] | Inl e \<Rightarrow> Inl e | Inr _ \<Rightarrow> Inr []) = (Inr [] :: findings) \<longleftrightarrow> (\<exists>e. r = Inr e)"
    for r :: "exec_unit result" and f by (auto split: sum.split exc.split)
  then show ?thesis unfolding unit_findings_def Let_def PDict by simp
qed (auto simp: unit_findings_def)

lemma scope_accepts: "scope_findings E d = Inr [] \<longleftrightarrow>
    (\<exists>s sc. dget d ''scope'' = PDict s \<and> read_scope s = Inr sc \<and> dget d ''scope_digest'' = PStr (scope_digest E sc))"
proof (cases "dget d ''scope''")
  case (PDict s)
  show ?thesis
  proof (cases "read_scope s")
    case (Inl e)
    then show ?thesis unfolding scope_findings_def PDict by (cases e) auto
  qed (simp add: scope_findings_def PDict)
qed (auto simp: scope_findings_def)

lemma budget_accepts: "budget_findings d = Inr [] \<longleftrightarrow>
    (\<exists>b l. dget d ''budget'' = PDict b \<and> dkeys b = set budget_fields \<and> read_budget b = Inr l)"
  by (cases "dget d ''budget''") (auto simp: budget_findings_def is_ok_iff)

lemma oid_accepts: "(\<forall>r \<in> set (oid_findings d). r = Inr []) \<longleftrightarrow>
    (\<exists>b. dget d ''base_oids'' = PDict b \<and> dkeys b = {''release'', ''process''} \<and> safe_oid (dget b ''release'') \<and> safe_oid (dget b ''process''))"
  by (cases "dget d ''base_oids''") (auto simp: oid_findings_def)

lemma validate_accepts: "validate_work_payload E d None = Inr [] \<longleftrightarrow>
    key_findings d = Inr [] \<and> (\<forall>r \<in> set (identity_findings d). r = Inr []) \<and> (\<forall>r \<in> set (ref_findings d). r = Inr [])
    \<and> risk_accepted d \<and> (\<forall>r \<in> set (code_findings d). r = Inr []) \<and> route_findings d = Inr []
    \<and> (\<forall>r \<in> set (unit_findings d). r = Inr []) \<and> scope_findings E d = Inr [] \<and> budget_findings d = Inr []
    \<and> (\<forall>r \<in> set (oid_findings d). r = Inr [])
    \<and> (dget d ''status'' = PStr ''completed'' \<longrightarrow> truthy (dget_or d ''result_ref'' (PStr [])))"
  unfolding validate_work_payload_def collect_Nil risk_accepts [symmetric] by (simp add: ball_Un conj_assoc) blast

section \<open>Well-formed Works\<close>

definition binding_record :: "work \<Rightarrow> profile_binding" where
  "binding_record w = \<lparr>gb_schema = 2, gb_profile = w_profile w, gb_effective = w_profile w, gb_source = w_source w,
     gb_record = w_record w, gb_authorization = w_authorization w, gb_oid = w_source_oid w, gb_revision = w_revision w\<rparr>"

definition stored_profile_ok :: "work \<Rightarrow> bool" where
  "stored_profile_ok w = (w_profile w \<in> set governance_risk_profiles
     \<and> (w_profile_schema w = 1 \<and> w_profile w \<noteq> ''G3'' \<and> w_source w = ''system-default'' \<and> w_record w = []
          \<and> w_authorization w = [] \<and> w_source_oid w = [] \<and> w_revision w = 1
        \<or> w_profile_schema w = 2 \<and> binding_wf (binding_record w)))"

definition work_level :: "work \<Rightarrow> string" where
  "work_level w = (if w_profile_schema w = 1 \<and> w_profile w = ''G2'' then ''G3'' else w_profile w)"

definition owned_ref :: "work \<Rightarrow> string \<Rightarrow> bool" where
  "owned_ref w s = (is_safe_ref s \<and> prefix (''works/'' @ w_id w @ ''/'') s)"

definition identity_ok :: "work \<Rightarrow> bool" where
  "identity_ok w = (w_schema w = 1 \<and> short_id_re (w_id w) \<and> short_id_re (w_project w) \<and> w_kind w \<in> set work_kinds
     \<and> py_strip (w_objective w) \<noteq> [] \<and> w_status w \<in> set work_statuses \<and> w_confirmed w
     \<and> owned_ref w (w_request w) \<and> owned_ref w (w_usage w) \<and> (w_phase w = [] \<or> is_safe_ref_under ''phases'' (w_phase w) = Inr True)
     \<and> (w_result w = [] \<or> owned_ref w (w_result w)) \<and> (w_status w = ''completed'' \<longrightarrow> w_result w \<noteq> []))"

definition contents_ok :: "work \<Rightarrow> bool" where
  "contents_ok w = (w_reasons w \<noteq> [] \<and> list_all reason_re (w_reasons w) \<and> distinct (w_reasons w)
     \<and> list_all check_id_re (w_gates w) \<and> distinct (w_gates w)
     \<and> route_profile_wf (w_route w) \<and> route_errors (w_route w) (work_level w) (w_kind w) [] False = []
     \<and> (case w_unit w of None \<Rightarrow> True | Some u \<Rightarrow> w_kind w \<in> {''work'', ''cr''} \<and> exec_unit_ok u \<and> eu_unit u = w_id w)
     \<and> scope_ok (w_scope w) \<and> validate_limit (w_budget w) = Inr ()
     \<and> safe_oid (PStr (w_release_oid w)) \<and> safe_oid (PStr (w_process_oid w)))"

definition work_ok :: "work \<Rightarrow> bool" where
  "work_ok w = (identity_ok w \<and> stored_profile_ok w \<and> contents_ok w)"

section \<open>The document of a Work\<close>

lemma dkeys_append: "dkeys (a @ b) = dkeys a \<union> dkeys b"
  by (simp add: dkeys_def)

lemma work_dict:
  "dget (work_as_dict E w) ''schema_version'' = PInt (w_schema w)" "dget (work_as_dict E w) ''work_id'' = PStr (w_id w)"
  "dget (work_as_dict E w) ''project_id'' = PStr (w_project w)" "dget (work_as_dict E w) ''kind'' = PStr (w_kind w)"
  "dget (work_as_dict E w) ''objective'' = PStr (w_objective w)" "dget (work_as_dict E w) ''status'' = PStr (w_status w)"
  "dget (work_as_dict E w) ''request_ref'' = PStr (w_request w)"
  "dget (work_as_dict E w) ''request_confirmed'' = PBool (w_confirmed w)"
  "dget (work_as_dict E w) ''risk_profile'' = PStr (w_profile w)"
  "dget (work_as_dict E w) ''risk_reason_codes'' = PList (map PStr (w_reasons w))"
  "dget (work_as_dict E w) ''required_gates'' = PList (map PStr (w_gates w))"
  "dget (work_as_dict E w) ''route_profile'' = PDict (route_profile_as_dict (w_route w))"
  "dget (work_as_dict E w) ''scope'' = PDict (scope_as_dict (w_scope w))"
  "dget (work_as_dict E w) ''scope_digest'' = PStr (scope_digest E (w_scope w))"
  "dget (work_as_dict E w) ''budget'' = PDict (budget_dict (w_budget w))" "dget (work_as_dict E w) ''usage_ref'' = PStr (w_usage w)"
  "dget (work_as_dict E w) ''base_oids'' = PDict [(''release'', PStr (w_release_oid w)), (''process'', PStr (w_process_oid w))]"
  by (simp_all add: work_as_dict_def budget_dict_def)

lemma work_dict_optional:
  "dget (work_as_dict E w) ''phase_ref'' = (if w_phase w = [] then PNone else PStr (w_phase w))"
  "dget (work_as_dict E w) ''execution_unit'' = (case w_unit w of None \<Rightarrow> PNone | Some u \<Rightarrow> PDict (exec_unit_as_dict u))"
  "dget (work_as_dict E w) ''result_ref'' = (if w_result w = [] then PNone else PStr (w_result w))"
  "dget (work_as_dict E w) ''updated_at'' = (if w_updated w = [] then PNone else PStr (w_updated w))"
  "dget (work_as_dict E w) ''depends_on'' = PNone" "dget (work_as_dict E w) ''supersedes'' = PNone"
  by (simp_all add: work_as_dict_def dget_append dkeys_append split: option.split)

lemma work_dict_profile:
  "profile_schema (work_as_dict E w) = (if 2 \<le> w_profile_schema w then PInt (w_profile_schema w) else PInt 1)"
  "dget (work_as_dict E w) ''governance_selection_source'' = (if 2 \<le> w_profile_schema w then PStr (w_source w) else PNone)"
  "dget (work_as_dict E w) ''governance_selection_record_digest'' = (if 2 \<le> w_profile_schema w then PStr (w_record w) else PNone)"
  "dget (work_as_dict E w) ''governance_selection_authorization_digest'' =
     (if 2 \<le> w_profile_schema w then PStr (w_authorization w) else PNone)"
  "dget (work_as_dict E w) ''governance_selection_source_oid'' = (if 2 \<le> w_profile_schema w then PStr (w_source_oid w) else PNone)"
  "dget (work_as_dict E w) ''governance_route_revision'' = (if 2 \<le> w_profile_schema w then PInt (w_revision w) else PNone)"
  "dget_or (work_as_dict E w) ''governance_route_revision'' (PInt 1) = (if 2 \<le> w_profile_schema w then PInt (w_revision w) else PInt 1)"
  "dget_or (work_as_dict E w) ''result_ref'' (PStr []) = PStr (w_result w)"
  by (simp_all add: profile_schema_def dget_or_def work_as_dict_def dget_append dkeys_append split: option.split)

definition work_base_keys :: "string list" where
  "work_base_keys = [''schema_version'', ''work_id'', ''project_id'', ''kind'', ''objective'', ''status'', ''request_ref'',
     ''request_confirmed'', ''risk_profile'', ''risk_reason_codes'', ''required_gates'', ''route_profile'', ''scope'',
     ''scope_digest'', ''budget'', ''usage_ref'', ''base_oids'']"

lemma work_dkeys: "dkeys (work_as_dict E w) = set work_base_keys
    \<union> ((if w_phase w \<noteq> [] then {''phase_ref''} else {}) \<union> (if w_unit w = None then {} else {''execution_unit''})
    \<union> (if w_result w \<noteq> [] then {''result_ref''} else {}) \<union> (if w_updated w \<noteq> [] then {''updated_at''} else {})
    \<union> (if 2 \<le> w_profile_schema w then insert ''risk_profile_schema_version'' (set governance_keys) else {}))"
proof -
  have u: "dkeys (case w_unit w of None \<Rightarrow> [] | Some u \<Rightarrow> [(''execution_unit'', PDict (exec_unit_as_dict u))]) =
      (if w_unit w = None then {} else {''execution_unit''})"
    by (simp split: option.split)
  have i: "dkeys (if b then [x] else []) = (if b then {fst x} else {})" for b and x :: "string \<times> pyval" by (cases x) simp
  have g: "dkeys (if b then xs else []) = (if b then dkeys xs else {})" for b xs by simp
  show ?thesis
    unfolding work_as_dict_def dkeys_append u i unfolding g dkeys_Cons dkeys_Nil work_base_keys_def governance_keys_def list.set fst_conv
    by (simp only: Un_assoc)
qed

lemma work_key_lists:
  "set work_base_keys \<subseteq> set work_allowed_keys" "set work_required_keys \<subseteq> set work_base_keys"
  "set governance_keys \<subseteq> set work_allowed_keys" "set governance_keys \<inter> set work_base_keys = {}"
  "{''phase_ref'', ''execution_unit'', ''result_ref'', ''updated_at'', ''risk_profile_schema_version''} \<subseteq> set work_allowed_keys"
  "{''phase_ref'', ''execution_unit'', ''result_ref'', ''updated_at''} \<inter> set governance_keys = {}"
  by code_simp+

lemma work_dict_keys:
  "dkeys (work_as_dict E w) \<subseteq> set work_allowed_keys" "set work_required_keys \<subseteq> dkeys (work_as_dict E w)"
  "w_profile_schema w < 2 \<Longrightarrow> k \<in> set governance_keys \<Longrightarrow> k \<notin> dkeys (work_as_dict E w)"
proof -
  show "dkeys (work_as_dict E w) \<subseteq> set work_allowed_keys"
    unfolding work_dkeys using work_key_lists(1,3,5) by (intro Un_least) simp_all
  show "set work_required_keys \<subseteq> dkeys (work_as_dict E w)" unfolding work_dkeys using work_key_lists(2) by blast
  have "k \<notin> set work_base_keys" "k \<notin> {''phase_ref'', ''execution_unit'', ''result_ref'', ''updated_at''}" if "k \<in> set governance_keys"
    using that work_key_lists(4,6) by blast+
  then show "w_profile_schema w < 2 \<Longrightarrow> k \<in> set governance_keys \<Longrightarrow> k \<notin> dkeys (work_as_dict E w)"
    unfolding work_dkeys by simp
qed

lemma work_key_findings: "key_findings (work_as_dict E w) = Inr []"
proof -
  have "extra_keys work_allowed_keys (work_as_dict E w) = []"
    unfolding extra_keys_def filter_empty_conv using work_dict_keys(1) [of E w] unfolding dkeys_def by blast
  moreover have "missing_keys work_required_keys (work_as_dict E w) = []"
    unfolding missing_keys_def filter_empty_conv using work_dict_keys(2) [of E w] by blast
  ultimately show ?thesis by (simp add: key_findings_def)
qed

section \<open>Reading and writing\<close>

lemma under_work_dict: "under_work (work_as_dict E w) s = owned_ref w s"
proof -
  have "work_prefix (work_as_dict E w) = ''works/'' @ w_id w @ ''/''"
    by (simp add: work_prefix_def dget_or_def work_dkeys work_base_keys_def work_dict py_str_def)
  then show ?thesis by (simp add: under_work_def owned_ref_def)
qed

lemma phase_dict: "phase_accepted (dget (work_as_dict E w) ''phase_ref'') \<longleftrightarrow>
    w_phase w = [] \<or> is_safe_ref_under ''phases'' (w_phase w) = Inr True"
  by (simp add: phase_accepted_def work_dict_optional)

lemma result_dict: "absent_or_empty (dget (work_as_dict E w) ''result_ref'') \<or> str_such (under_work (work_as_dict E w)) (dget (work_as_dict E w) ''result_ref'')
    \<longleftrightarrow> w_result w = [] \<or> owned_ref w (w_result w)"
  by (simp add: work_dict_optional str_such_def under_work_dict)

lemma identity_dict:
  "(\<forall>r \<in> set (identity_findings (work_as_dict E w)). r = Inr []) \<and> (\<forall>r \<in> set (ref_findings (work_as_dict E w)). r = Inr [])
     \<and> (w_status w = ''completed'' \<longrightarrow> w_result w \<noteq> []) \<longleftrightarrow> identity_ok w"
proof -
  have one: "py_eq (PInt n) (PInt 1) \<longleftrightarrow> n = 1" for n by (simp add: py_eq_def)
  have m: "PStr s \<in> PStr ` set ns \<longleftrightarrow> s \<in> set ns" for s ns by auto
  show ?thesis
    unfolding identity_accepts ref_accepts identity_ok_def phase_dict result_dict work_dict one m
    unfolding str_such_def pyval.case under_work_dict pyval.inject by blast
qed

lemma binding_payload_dict:
  assumes "w_profile_schema w = 2"
  shows "binding_of_payload (work_as_dict E w) (w_profile w) =
    let_ok (effective_governance_profile (w_profile w) (PInt 2)) (\<lambda>e. mk_binding ((binding_record w)\<lparr>gb_effective := e\<rparr>))"
  using assms by (simp add: binding_of_payload_def work_dict_profile binding_record_def)

lemma binding_exists:
  assumes "w_profile_schema w = 2" and "w_profile w \<in> set governance_risk_profiles"
  shows "(\<exists>b. binding_of_payload (work_as_dict E w) (w_profile w) = Inr b) \<longleftrightarrow> binding_wf (binding_record w)"
  unfolding binding_payload_dict [OF assms(1)] effective_ok(2) [OF assms(2)]
  by (simp add: read_simps binding_record_def)

lemma risk_dict: "stored_profile_ok w \<Longrightarrow> risk_accepted (work_as_dict E w)"
  unfolding stored_profile_ok_def risk_accepted_def
  using binding_exists [of w E] work_dict_keys(3) [of w _ E] by (auto simp: work_dict work_dict_profile)

lemma risk_dict_rev:
  assumes "risk_accepted (work_as_dict E w)"
    and "w_profile_schema w = 1 \<and> w_source w = ''system-default'' \<and> w_record w = [] \<and> w_authorization w = []
      \<and> w_source_oid w = [] \<and> w_revision w = 1 \<or> w_profile_schema w = 2"
  shows "stored_profile_ok w"
  using assms binding_exists [of w E] unfolding stored_profile_ok_def risk_accepted_def
  by (auto simp: work_dict work_dict_profile)

lemma level_dict: "stored_profile_ok w \<Longrightarrow> route_level (work_as_dict E w) = Inr (work_level w)"
proof -
  assume ok: "stored_profile_ok w"
  have m: "PStr (w_profile w) \<in> PStr ` set governance_risk_profiles" using ok by (auto simp: stored_profile_ok_def)
  have g: "w_profile w \<in> set governance_risk_profiles" using ok by (simp add: stored_profile_ok_def)
  have e: "py_eq (PInt 1) (PInt 1)" "py_eq (PInt 2) (PInt 2)" by simp_all
  show ?thesis
  proof (cases "w_profile_schema w = 1")
    case True
    then have "w_profile w \<noteq> ''G3''" using ok by (simp add: stored_profile_ok_def)
    then show ?thesis using True g m by (simp add: route_level_def work_dict work_dict_profile work_level_def effective_governance_profile_def)
  next
    case False
    then have "w_profile_schema w = 2" using ok by (auto simp: stored_profile_ok_def)
    then show ?thesis using g m by (simp add: route_level_def work_dict work_dict_profile work_level_def effective_ok)
  qed
qed

lemma route_profile_exact: "route_profile_from_payload (PDict (route_profile_as_dict p)) = Inr q \<longleftrightarrow> q = p \<and> route_profile_wf p"
proof
  assume q: "route_profile_from_payload (PDict (route_profile_as_dict p)) = Inr q"
  then have "route_profile_wf q \<and> rp_schema q = rp_schema p \<and> rp_mode q = rp_mode p \<and> rp_dispatch q = rp_dispatch p
      \<and> rp_legacy q = rp_legacy p \<and> rp_validation q = rp_validation p \<and> rp_failure q = rp_failure p \<and> rp_worktree q = rp_worktree p"
    by (simp add: route_profile_from_payload_def route_profile_dict mk_route_profile_Inr Let_def route_profile_keys_def
        split: if_splits)
  then show "q = p \<and> route_profile_wf p" by (cases p; cases q) simp
qed (simp add: route_profile_roundtrip)

lemma exec_unit_exact: "exec_unit_from_mapping (PDict (exec_unit_as_dict u)) wid = Inr e \<longleftrightarrow>
    e = u \<and> exec_unit_ok u \<and> eu_unit u = wid"
proof
  assume e: "exec_unit_from_mapping (PDict (exec_unit_as_dict u)) wid = Inr e"
  have "e = u"
    using e unfolding exec_unit_from_mapping_def mk_exec_unit_def field_readers read_simps exec_unit_as_dict_def
    by (cases u) (auto simp: read_simps)
  then show "e = u \<and> exec_unit_ok u \<and> eu_unit u = wid" using exec_unit_type [OF e] by blast
qed (use exec_unit_roundtrip in blast)

lemma scope_exact: "read_scope (scope_as_dict s) = Inr sc \<longleftrightarrow> sc = s \<and> scope_ok s"
proof
  assume r: "read_scope (scope_as_dict s) = Inr sc"
  have t: "tuple_or_empty (PList xs) = Inr xs" for xs by (simp add: tuple_or_empty_def)
  from r have "mk_scope (PInt (version s)) (map PStr (allowed_reads s)) (map PStr (allowed_writes s)) (map PStr (required_checks s)) = Inr sc"
    by (simp add: read_scope_def scope_as_dict_def t)
  then show "sc = s \<and> scope_ok s" unfolding mk_scope_Inr by (cases s; cases sc) simp
qed (simp add: scope_roundtrip)

lemma contents_dict:
  assumes "stored_profile_ok w"
  shows "(\<forall>r \<in> set (code_findings (work_as_dict E w)). r = Inr []) \<and> route_findings (work_as_dict E w) = Inr []
     \<and> (\<forall>r \<in> set (unit_findings (work_as_dict E w)). r = Inr []) \<and> scope_findings E (work_as_dict E w) = Inr []
     \<and> budget_findings (work_as_dict E w) = Inr [] \<and> (\<forall>r \<in> set (oid_findings (work_as_dict E w)). r = Inr [])
    \<longleftrightarrow> contents_ok w"
proof -
  let ?d = "work_as_dict E w"
  have code: "(\<forall>r \<in> set (code_findings ?d). r = Inr []) \<longleftrightarrow> w_reasons w \<noteq> [] \<and> list_all reason_re (w_reasons w)
      \<and> distinct (w_reasons w) \<and> list_all check_id_re (w_gates w) \<and> distinct (w_gates w)"
    unfolding code_accepts work_dict by auto
  have route: "route_findings ?d = Inr [] \<longleftrightarrow>
      route_profile_wf (w_route w) \<and> route_errors (w_route w) (work_level w) (w_kind w) [] False = []"
    unfolding route_accepts work_dict route_profile_exact level_dict [OF assms] by auto
  have unit: "(\<forall>r \<in> set (unit_findings ?d). r = Inr []) \<longleftrightarrow>
      (case w_unit w of None \<Rightarrow> True | Some u \<Rightarrow> w_kind w \<in> {''work'', ''cr''} \<and> exec_unit_ok u \<and> eu_unit u = w_id w)"
    unfolding unit_accepts work_dict work_dict_optional by (cases "w_unit w") (auto simp: exec_unit_exact)
  have scope: "scope_findings E ?d = Inr [] \<longleftrightarrow> scope_ok (w_scope w)"
    unfolding scope_accepts work_dict by (auto simp: scope_exact)
  have budget: "budget_findings ?d = Inr [] \<longleftrightarrow> validate_limit (w_budget w) = Inr ()"
    unfolding budget_accepts work_dict by (auto simp: budget_roundtrip read_simps)
  have oids: "(\<forall>r \<in> set (oid_findings ?d). r = Inr []) \<longleftrightarrow> safe_oid (PStr (w_release_oid w)) \<and> safe_oid (PStr (w_process_oid w))"
    unfolding oid_accepts work_dict by (auto simp: insert_commute)
  show ?thesis unfolding code route unit scope budget oids contents_ok_def by blast
qed

lemma validate_dict: "stored_profile_ok w \<Longrightarrow> validate_work_payload E (work_as_dict E w) None = Inr [] \<longleftrightarrow> work_ok w"
proof -
  assume p: "stored_profile_ok w"
  have c: "(PStr (w_status w) = PStr ''completed'' \<longrightarrow> truthy (PStr (w_result w))) = (w_status w = ''completed'' \<longrightarrow> w_result w \<noteq> [])"
    by simp
  show ?thesis
    unfolding validate_accepts work_ok_def work_dict(6) work_dict_profile c
    using identity_dict [of E w] contents_dict [OF p, of E] risk_dict [OF p, of E] work_key_findings [of E w] p by blast
qed

lemma work_roundtrip: "work_ok w \<Longrightarrow> work_from_payload E (work_as_dict E w) = Inr w"
proof -
  assume ok: "work_ok w"
  then have p: "stored_profile_ok w" and v: "validate_work_payload E (work_as_dict E w) None = Inr []"
    and i: "identity_ok w" and c: "contents_ok w" using validate_dict [of w E] by (auto simp: work_ok_def)
  have route: "route_profile_from_payload (PDict (route_profile_as_dict (w_route w))) = Inr (w_route w)"
    and scope: "load_scope (scope_as_dict (w_scope w)) = Inr (w_scope w)"
    and budget: "read_budget (budget_dict (w_budget w)) = Inr (w_budget w)"
    using c by (simp_all add: contents_ok_def route_profile_roundtrip scope_roundtrip budget_roundtrip)
  have unit: "(case dget (work_as_dict E w) ''execution_unit'' of
         PDict u \<Rightarrow> let_ok (exec_unit_from_mapping (PDict u) (w_id w)) (\<lambda>u. Inr (Some u)) | _ \<Rightarrow> Inr None) = Inr (w_unit w)"
    using c by (auto simp: work_dict_optional contents_ok_def exec_unit_exact read_simps split: option.splits)
  have accept: "accept_findings (validate_work_payload E (work_as_dict E w) None) = Inr ()"
    by (simp add: accept_findings_def v)
  have s: "py_str (PStr s) = s" for s by (simp add: py_str_def)
  have one: "w_schema w = 1" "w_confirmed w" using i by (simp_all add: identity_ok_def)
  have profile: "w_profile_schema w = 1 \<and> w_source w = ''system-default'' \<and> w_record w = [] \<and> w_authorization w = []
      \<and> w_source_oid w = [] \<and> w_revision w = 1 \<or> w_profile_schema w = 2 \<and> w_source w \<noteq> []"
    using p by (auto simp: stored_profile_ok_def binding_wf_def binding_record_def split: if_splits)
  have list: "map py_str (list_of (PList (map PStr ss))) = ss" for ss by simp
  have oid: "dget [(''release'', PStr a), (''process'', PStr b)] ''release'' = PStr a"
    "dget [(''release'', PStr a), (''process'', PStr b)] ''process'' = PStr b" for a b by simp_all
  show ?thesis
    unfolding work_from_payload_def accept work_dict route dict_of.simps scope budget s unit let_ok.simps list oid
    unfolding work_dict_profile work_dict_optional
    using one profile by (cases w) (auto simp: s)
qed

section \<open>What is read is well-formed\<close>

lemma dget_key: "dget d k \<noteq> PNone \<Longrightarrow> k \<in> dkeys d" "k \<notin> dkeys d \<Longrightarrow> dget d k = PNone"
proof -
  show "k \<notin> dkeys d \<Longrightarrow> dget d k = PNone" by (simp add: dkeys_def dget_def map_of_eq_None_iff [symmetric])
  then show "dget d k \<noteq> PNone \<Longrightarrow> k \<in> dkeys d" by blast
qed

lemma accept_findings_Inr [read_simps]: "accept_findings r = Inr u \<longleftrightarrow> r = Inr []"
  by (auto simp: accept_findings_def read_simps)

lemma read_identity:
  assumes "validate_work_payload E d None = Inr []"
    and "w_schema w = the_int (dget d ''schema_version'')" "w_id w = py_str (dget d ''work_id'')" "w_confirmed w"
    and "w_project w = py_str (dget d ''project_id'')" "w_kind w = py_str (dget d ''kind'')"
    and "w_objective w = py_str (dget d ''objective'')" "w_status w = py_str (dget d ''status'')"
    and "w_request w = py_str (dget d ''request_ref'')" "w_usage w = py_str (dget d ''usage_ref'')"
    and "w_phase w = str_or_empty (dget d ''phase_ref'')" "w_result w = str_or_empty (dget d ''result_ref'')"
  shows "identity_ok w"
proof -
  note v = assms(1) [unfolded validate_accepts identity_accepts ref_accepts]
  obtain i where i: "dget d ''work_id'' = PStr i" using v by (auto simp: str_such_iff)
  then have pre: "work_prefix d = ''works/'' @ w_id w @ ''/''"
    using dget_key(1) [of d "''work_id''"] by (simp add: work_prefix_def dget_or_def assms(3))
  have own: "under_work d s = owned_ref w s" for s by (simp add: under_work_def owned_ref_def pre)
  have schema: "the_int x = 1" if "py_eq x (PInt 1)" for x using that by (cases x) (auto simp: py_eq_def split: if_splits)
  have result: "w_result w = [] \<or> owned_ref w (w_result w)"
    using v by (auto simp: assms(12) own str_such_iff absent_or_empty_def)
  have phase: "w_phase w = [] \<or> is_safe_ref_under ''phases'' (w_phase w) = Inr True"
    using v by (auto simp: assms(11) phase_accepted_def absent_or_empty_def)
  have complete: "w_result w \<noteq> []" if "w_status w = ''completed''"
  proof -
    have "dget d ''status'' = PStr ''completed''" using v that by (auto simp: assms(8) py_str_def)
    then have t: "truthy (dget_or d ''result_ref'' (PStr []))" using v by blast
    then have "truthy (dget d ''result_ref'')" by (cases "''result_ref'' \<in> dkeys d") (auto simp: dget_or_def)
    then obtain r where "dget d ''result_ref'' = PStr r" "r \<noteq> []" using v by (auto simp: absent_or_empty_def str_such_iff)
    then show ?thesis by (simp add: assms(12))
  qed
  have "w_schema w = 1" using v schema by (simp add: assms(2))
  moreover have "short_id_re (w_id w)" "short_id_re (w_project w)" "py_strip (w_objective w) \<noteq> []"
    using v by (auto simp: str_such_iff assms(3,5,7) py_str_def)
  moreover have "w_kind w \<in> set work_kinds" "w_status w \<in> set work_statuses"
    using v by (auto simp: assms(6,8) py_str_def)
  moreover have "owned_ref w (w_request w)" "owned_ref w (w_usage w)"
    using v by (auto simp: str_such_iff own [symmetric] assms(9,10) py_str_def)
  ultimately show ?thesis using result phase complete assms(4) by (simp add: identity_ok_def)
qed

lemma read_profile:
  assumes "risk_accepted d" and "w_profile w = py_str (dget d ''risk_profile'')"
    and "w_profile_schema w = the_int (profile_schema d)"
    and "w_source w = (if truthy (dget d ''governance_selection_source'') then py_str (dget d ''governance_selection_source'')
      else ''system-default'')"
    and "w_record w = str_or_empty (dget d ''governance_selection_record_digest'')"
    and "w_authorization w = str_or_empty (dget d ''governance_selection_authorization_digest'')"
    and "w_source_oid w = str_or_empty (dget d ''governance_selection_source_oid'')"
    and "w_revision w = the_int (dget_or d ''governance_route_revision'' (PInt 1))"
  shows "stored_profile_ok w" and "route_level d = Inr (work_level w)"
proof -
  from assms(1) obtain p where p: "p \<in> set governance_risk_profiles" "dget d ''risk_profile'' = PStr p"
    and c: "profile_schema d = PInt 1 \<and> p \<noteq> ''G3'' \<and> (\<forall>k \<in> set governance_keys. k \<notin> dkeys d)
      \<or> profile_schema d = PInt 2 \<and> (\<exists>b. binding_of_payload d p = Inr b)"
    unfolding risk_accepted_def by blast
  have wp: "w_profile w = p" by (simp add: assms(2) p py_str_def)
  have "stored_profile_ok w \<and> route_level d = Inr (work_level w)"
  proof (cases "profile_schema d = PInt 1")
    case True
    then have c: "p \<noteq> ''G3''" and none: "\<And>k. k \<in> set governance_keys \<Longrightarrow> k \<notin> dkeys d" using c by auto
    have k: "''governance_selection_source'' \<notin> dkeys d" "''governance_selection_record_digest'' \<notin> dkeys d"
      "''governance_selection_authorization_digest'' \<notin> dkeys d" "''governance_selection_source_oid'' \<notin> dkeys d"
      "''governance_route_revision'' \<notin> dkeys d"
      by (rule none, simp add: governance_keys_def)+
    have "stored_profile_ok w"
      using c p(1) True k [THEN dget_key(2)] k(5)
      by (simp add: stored_profile_ok_def wp assms(3-8) dget_or_def)
    moreover have "route_level d = Inr (work_level w)"
      using p c True assms(3) by (auto simp: route_level_def work_level_def wp effective_governance_profile_def Let_def)
    ultimately show ?thesis ..
  next
    case False
    then have two: "profile_schema d = PInt 2" and "\<exists>b. binding_of_payload d p = Inr b" using c by auto
    then obtain n where n: "dget d ''governance_route_revision'' = PInt n"
      and wf: "binding_wf \<lparr>gb_schema = 2, gb_profile = p, gb_effective = p,
         gb_source = str_or_empty (dget d ''governance_selection_source''),
         gb_record = w_record w, gb_authorization = w_authorization w, gb_oid = w_source_oid w, gb_revision = n\<rparr>"
      using effective_ok(2) [OF p(1)] by (auto simp: binding_of_payload_def read_simps assms(5-7) split: pyval.splits)
    have "w_revision w = n" using n dget_key(1) [of d "''governance_route_revision''"] by (simp add: assms(8) dget_or_def)
    moreover have "w_source w = str_or_empty (dget d ''governance_selection_source'')"
      using wf by (auto simp: assms(4) str_or_empty_def binding_wf_def split: if_splits)
    ultimately have "binding_wf (binding_record w)" using wf by (simp add: binding_record_def wp)
    then have "stored_profile_ok w" using p(1) two by (simp add: stored_profile_ok_def wp assms(3))
    moreover have "route_level d = Inr (work_level w)"
      using p two assms(3) effective_ok(2) [OF p(1)] by (auto simp: route_level_def work_level_def wp Let_def)
    ultimately show ?thesis ..
  qed
  then show "stored_profile_ok w" and "route_level d = Inr (work_level w)" by blast+
qed

end
