(* ===== verification/Work_Lifecycle.thy ===== *)
theory Work_Lifecycle
  imports Work_Documents Status_Graph Work_Dependency
begin

text \<open>
  The life of a Work: its status graph (\<open>work/lifecycle.py\<close>), and the operations of \<open>work/model.py\<close> that
  change or load an envelope: \<open>with_status\<close>, the canonical form of a result reference, the read-only adaptation of
  a legacy document, and the loading of a document with its size. Saving is the rendering \<open>work_as_dict\<close>.
\<close>

section \<open>Operations\<close>

definition allowed_transitions :: "(string \<times> string list) list" where
  "allowed_transitions =
     [(''planned'', [''active'', ''cancelled'']),
      (''active'', [''paused'', ''blocked'', ''ready_for_review'', ''ready_for_verification'', ''completed'', ''cancelled'']),
      (''paused'', [''active'', ''blocked'', ''cancelled'']), (''blocked'', [''active'', ''cancelled'']),
      (''ready_for_review'', [''active'', ''ready_for_verification'', ''cancelled'']),
      (''ready_for_verification'', [''active'', ''completed'', ''cancelled'']), (''completed'', [''archived'']),
      (''cancelled'', [''archived'']), (''archived'', [])]"

definition allowed_from :: "string \<Rightarrow> string list" where
  "allowed_from s = (case map_of allowed_transitions s of None \<Rightarrow> [] | Some ts \<Rightarrow> ts)"

definition with_status :: "work_env \<Rightarrow> work \<Rightarrow> string \<Rightarrow> string \<Rightarrow> work result" where
  "with_status E w status result_ref =
     (let updated = w\<lparr>w_status := status, w_result := (if result_ref = [] then w_result w else result_ref)\<rparr> in
      let_ok (accept_findings (validate_work_payload E (work_as_dict E updated) None)) (\<lambda>_. Inr updated))"

definition transition_work :: "work_env \<Rightarrow> work \<Rightarrow> string \<Rightarrow> string \<Rightarrow> work result" where
  "transition_work E w new_status result_ref =
     let_ok (guard (new_status \<in> set (allowed_from (w_status w)))
       (''invalid Work transition: '' @ w_status w @ '' -> '' @ new_status)) (\<lambda>_.
     let_ok (guard (new_status \<noteq> ''completed'' \<or> result_ref \<noteq> [] \<or> w_result w \<noteq> []) ''completed Work requires result_ref'') (\<lambda>_.
     with_status E w new_status result_ref))"

text \<open>The deprecation warning of a process-relative reference is not modelled.\<close>

definition canonical_result_ref :: "string \<Rightarrow> string result" where
  "canonical_result_ref r =
     (if r = [] then Inl (ValueError ''completed Work requires result_ref'')
      else if prefix ''process/'' r
      then (let inner = drop 8 r in
        if is_safe_ref inner then Inr inner else Inl (ValueError (''Work result_ref escapes process root: '' @ r)))
      else if is_safe_ref r then Inr r
      else Inl (ValueError (''Work result_ref is not a safe logical ref: '' @ r)))"

definition dset :: "pydict \<Rightarrow> string \<Rightarrow> pyval \<Rightarrow> pydict" where
  "dset d k v = (if k \<in> dkeys d then map (\<lambda>(k', u). (k', if k' = k then v else u)) d else d @ [(k, v)])"

definition dpop :: "pydict \<Rightarrow> string \<Rightarrow> pydict" where
  "dpop d k = filter (\<lambda>(k', _). k' \<noteq> k) d"

definition normalize_legacy_work_payload :: "pydict \<Rightarrow> (pydict \<times> string list) result" where
  "normalize_legacy_work_payload d =
     (if ''completed_at'' \<notin> dkeys d then Inr (d, [])
      else let completed_at = dget d ''completed_at''; updated_at = dget d ''updated_at'' in
        let_ok (guard (py_eq (dget d ''schema_version'') (PInt 1))
          ''legacy completed_at is only supported for Work schema_version 1'') (\<lambda>_.
        let_ok (in_vocabulary (dget d ''status'') [''completed'', ''cancelled'', ''archived'']
          ''legacy completed_at is only valid on a terminal Work'') (\<lambda>_.
        let_ok (guard (str_such (\<lambda>s. py_strip s \<noteq> []) completed_at) ''legacy completed_at must be a non-empty string'') (\<lambda>_.
        let_ok (if \<not> absent_or_empty updated_at \<and> \<not> py_eq updated_at completed_at
            then Inr (d, [''LEGACY_COMPLETED_AT_PRESERVED_BY_EXISTING_UPDATED_AT''])
            else if \<not> truthy updated_at
            then Inr (dset d ''updated_at'' completed_at, [''LEGACY_COMPLETED_AT_MAPPED_TO_UPDATED_AT''])
            else Inr (d, [])) (\<lambda>(n, reasons).
        Inr (dpop n ''completed_at'', reasons @ [''LEGACY_COMPLETED_AT_READ_COMPATIBILITY'']))))))"

definition load_work :: "work_env \<Rightarrow> string \<Rightarrow> pydict \<Rightarrow> int \<Rightarrow> work result" where
  "load_work E work_id payload byte_size =
     let_ok (guard (short_id_re work_id) ''work_id must use 1-64 safe ID characters'') (\<lambda>_.
     let_ok (normalize_legacy_work_payload payload) (\<lambda>(d, _).
     let_ok (accept_findings (validate_work_payload E d (Some byte_size))) (\<lambda>_. work_from_payload E d)))"

section \<open>What is read is well-formed\<close>

lemma read_contents:
  assumes v: "validate_work_payload E d None = Inr []"
    and level: "route_level d = Inr (work_level w)"
    and route: "route_profile_from_payload (dget d ''route_profile'') = Inr (w_route w)"
    and scope: "load_scope s = Inr (w_scope w)" and budget: "read_budget b = Inr (w_budget w)"
    and unit: "(case dget d ''execution_unit'' of
         PDict u \<Rightarrow> let_ok (exec_unit_from_mapping (PDict u) (w_id w)) (\<lambda>u. Inr (Some u)) | _ \<Rightarrow> Inr None) = Inr (w_unit w)"
    and "w_kind w = py_str (dget d ''kind'')" and "w_reasons w = map py_str (list_of (dget d ''risk_reason_codes''))"
    and "w_gates w = map py_str (list_of (dget d ''required_gates''))"
    and "w_release_oid w = py_str (dget (dict_of (dget d ''base_oids'')) ''release'')"
    and "w_process_oid w = py_str (dget (dict_of (dget d ''base_oids'')) ''process'')"
  shows "contents_ok w"
proof -
  note a = v [unfolded validate_accepts]
  have oids: "\<forall>r \<in> set (oid_findings d). r = Inr []" using a by (elim conjE)
  have routes: "route_findings d = Inr []" using a by (elim conjE)
  obtain k where k: "dget d ''kind'' = PStr k" using a by (auto simp: identity_accepts)
  then have wk: "w_kind w = k" by (simp add: assms(7) py_str_def)
  have r: "route_profile_wf (w_route w)" using route by (rule route_profile_type)
  obtain p l where "route_profile_from_payload (dget d ''route_profile'') = Inr p" "route_level d = Inr l"
    "route_errors p l (str_or_empty (dget d ''kind'')) [] False = []"
    using routes unfolding route_accepts by blast
  then have errors: "route_errors (w_route w) (work_level w) (w_kind w) [] False = []" using route level k wk by simp
  have codes: "w_reasons w \<noteq> [] \<and> list_all reason_re (w_reasons w) \<and> distinct (w_reasons w)
      \<and> list_all check_id_re (w_gates w) \<and> distinct (w_gates w)"
    using a unfolding code_accepts assms(8,9) by auto
  have u: "case w_unit w of None \<Rightarrow> True | Some u \<Rightarrow> w_kind w \<in> {''work'', ''cr''} \<and> exec_unit_ok u \<and> eu_unit u = w_id w"
  proof (cases "dget d ''execution_unit''")
    case (PDict x)
    then obtain e where e: "exec_unit_from_mapping (PDict x) (w_id w) = Inr e" "w_unit w = Some e"
      using unit by (auto simp: read_simps)
    have "dget d ''kind'' \<in> {PStr ''work'', PStr ''cr''}" using a PDict unfolding unit_accepts by auto
    then show ?thesis using e exec_unit_type [OF e(1)] k wk by auto
  qed (use unit in auto)
  obtain y where y: "dget d ''base_oids'' = PDict y" "safe_oid (dget y ''release'')" "safe_oid (dget y ''process'')"
    using oids unfolding oid_accepts by blast
  have oid: "safe_oid v \<Longrightarrow> safe_oid (PStr (py_str v))" for v by (cases v) (auto simp: safe_oid_def str_such_def py_str_def)
  show ?thesis
    using r errors codes u load_scope_ok [OF scope] read_budget_ok [OF budget] y oid
    by (simp add: contents_ok_def assms(10,11))
qed

lemma work_read: "work_from_payload E d = Inr w \<Longrightarrow> validate_work_payload E d None = Inr [] \<and> work_ok w"
proof -
  assume r: "work_from_payload E d = Inr w"
  then have v: "validate_work_payload E d None = Inr []" unfolding work_from_payload_def read_simps by blast
  have f: "w_schema w = the_int (dget d ''schema_version'')" "w_id w = py_str (dget d ''work_id'')" "w_confirmed w"
    "w_project w = py_str (dget d ''project_id'')" "w_kind w = py_str (dget d ''kind'')"
    "w_objective w = py_str (dget d ''objective'')" "w_status w = py_str (dget d ''status'')"
    "w_request w = py_str (dget d ''request_ref'')" "w_usage w = py_str (dget d ''usage_ref'')"
    "w_phase w = str_or_empty (dget d ''phase_ref'')" "w_result w = str_or_empty (dget d ''result_ref'')"
    using r unfolding work_from_payload_def read_simps by auto
  have p: "w_profile w = py_str (dget d ''risk_profile'')" "w_profile_schema w = the_int (profile_schema d)"
    "w_source w = (if truthy (dget d ''governance_selection_source'') then py_str (dget d ''governance_selection_source'')
      else ''system-default'')"
    "w_record w = str_or_empty (dget d ''governance_selection_record_digest'')"
    "w_authorization w = str_or_empty (dget d ''governance_selection_authorization_digest'')"
    "w_source_oid w = str_or_empty (dget d ''governance_selection_source_oid'')"
    "w_revision w = the_int (dget_or d ''governance_route_revision'' (PInt 1))"
    using r unfolding work_from_payload_def read_simps by auto
  have c: "route_profile_from_payload (dget d ''route_profile'') = Inr (w_route w)"
    "load_scope (dict_of (dget d ''scope'')) = Inr (w_scope w)" "read_budget (dict_of (dget d ''budget'')) = Inr (w_budget w)"
    "(case dget d ''execution_unit'' of
         PDict u \<Rightarrow> let_ok (exec_unit_from_mapping (PDict u) (py_str (dget d ''work_id''))) (\<lambda>u. Inr (Some u))
       | _ \<Rightarrow> Inr None) = Inr (w_unit w)"
    "w_reasons w = map py_str (list_of (dget d ''risk_reason_codes''))"
    "w_gates w = map py_str (list_of (dget d ''required_gates''))"
    "w_release_oid w = py_str (dget (dict_of (dget d ''base_oids'')) ''release'')"
    "w_process_oid w = py_str (dget (dict_of (dget d ''base_oids'')) ''process'')"
    using r unfolding work_from_payload_def read_simps by auto
  have "risk_accepted d" using v unfolding validate_accepts by blast
  note profile = read_profile [OF this p]
  have "identity_ok w" by (rule read_identity [OF v f])
  moreover have "contents_ok w" by (rule read_contents [OF v profile(2) c(1-3) c(4) [folded f(2)] f(5) c(5-8)])
  ultimately show ?thesis using v profile(1) by (simp add: work_ok_def)
qed

section \<open>Loading and saving\<close>

text \<open>C6: Saving loses nothing of a Work that was read. A Work that is read from any document is well-formed; the document it is
  saved as validates without findings and reads back as the same Work, so reading after saving is stable.\<close>

theorem work_document_roundtrip:
  assumes "work_from_payload E d = Inr w"
  shows "work_ok w \<and> validate_work_payload E (work_as_dict E w) None = Inr [] \<and> work_from_payload E (work_as_dict E w) = Inr w"
proof -
  have ok: "work_ok w" using work_read [OF assms] by blast
  then have "stored_profile_ok w" by (simp add: work_ok_def)
  then show ?thesis using ok validate_dict [of w E] work_roundtrip [OF ok, of E] by blast
qed

lemma validate_size: "validate_work_payload E d (Some n) = Inr [] \<longleftrightarrow> validate_work_payload E d None = Inr [] \<and> n \<le> work_max_bytes"
  unfolding validate_work_payload_def collect_Nil by auto

lemma load_work_plain:
  assumes "''completed_at'' \<notin> dkeys d"
  shows "load_work E i d n = Inr w \<longleftrightarrow> short_id_re i \<and> n \<le> work_max_bytes \<and> work_from_payload E d = Inr w"
  using work_read [of E d w] assms
  by (auto simp: load_work_def normalize_legacy_work_payload_def read_simps validate_size)

section \<open>Transitions\<close>

lemma allowed_known: "t \<in> set (allowed_from s) \<Longrightarrow> s \<in> set work_statuses \<and> t \<in> set work_statuses"
proof -
  have "list_all (\<lambda>(s, ts). s \<in> set work_statuses \<and> list_all (\<lambda>t. t \<in> set work_statuses) ts) allowed_transitions" by code_simp
  moreover assume t: "t \<in> set (allowed_from s)"
  then obtain ts where "map_of allowed_transitions s = Some ts" and ts: "t \<in> set ts"
    by (cases "map_of allowed_transitions s") (simp_all add: allowed_from_def)
  then have "(s, ts) \<in> set allowed_transitions" by (simp add: map_of_SomeD)
  ultimately show ?thesis using ts unfolding list_all_iff by fastforce
qed

lemma with_status_Inr: "work_ok w \<Longrightarrow> with_status E w t r = Inr w' \<longleftrightarrow>
    w' = w\<lparr>w_status := t, w_result := (if r = [] then w_result w else r)\<rparr> \<and> work_ok w'"
proof -
  assume ok: "work_ok w"
  let ?u = "w\<lparr>w_status := t, w_result := (if r = [] then w_result w else r)\<rparr>"
  have "stored_profile_ok ?u = stored_profile_ok w" by (simp add: stored_profile_ok_def binding_record_def)
  then have "stored_profile_ok ?u" using ok by (simp add: work_ok_def)
  from validate_dict [OF this, of E] show ?thesis unfolding with_status_def Let_def read_simps by blast
qed

lemma work_ok_update: "work_ok w \<Longrightarrow> work_ok (w\<lparr>w_status := t, w_result := r\<rparr>) \<longleftrightarrow>
    t \<in> set work_statuses \<and> (r = [] \<or> owned_ref w r) \<and> (t = ''completed'' \<longrightarrow> r \<noteq> [])"
proof -
  assume ok: "work_ok w"
  let ?u = "w\<lparr>w_status := t, w_result := r\<rparr>"
  have "work_level ?u = work_level w" by (simp add: work_level_def)
  then have "contents_ok ?u = contents_ok w" by (cases "w_unit w") (simp_all add: contents_ok_def)
  moreover have "stored_profile_ok ?u = stored_profile_ok w" by (simp add: stored_profile_ok_def binding_record_def)
  moreover have "owned_ref ?u x = owned_ref w x" for x by (simp add: owned_ref_def)
  then have "identity_ok ?u \<longleftrightarrow> t \<in> set work_statuses \<and> (r = [] \<or> owned_ref w r) \<and> (t = ''completed'' \<longrightarrow> r \<noteq> [])"
    using ok unfolding work_ok_def identity_ok_def by simp
  ultimately show ?thesis using ok by (simp add: work_ok_def)
qed

text \<open>When a transition succeeds. A well-formed Work moves to a status exactly when the graph has the edge, a completion
  has a result, given now or before, and a given result lies under the Work's own directory; only the status and the result change.\<close>

theorem transition_work_iff:
  assumes "work_ok w"
  shows "transition_work E w t r = Inr w' \<longleftrightarrow>
    t \<in> set (allowed_from (w_status w)) \<and> (t = ''completed'' \<longrightarrow> r \<noteq> [] \<or> w_result w \<noteq> []) \<and> (r = [] \<or> owned_ref w r)
    \<and> w' = w\<lparr>w_status := t, w_result := (if r = [] then w_result w else r)\<rparr>"
proof -
  have old: "w_result w = [] \<or> owned_ref w (w_result w)" using assms by (simp add: work_ok_def identity_ok_def)
  define r' where "r' = (if r = [] then w_result w else r)"
  have r': "r' = [] \<longleftrightarrow> r = [] \<and> w_result w = []" "r' = [] \<or> owned_ref w r' \<longleftrightarrow> r = [] \<or> owned_ref w r"
    using old by (auto simp: r'_def)
  have "transition_work E w t r = Inr w' \<longleftrightarrow> t \<in> set (allowed_from (w_status w))
      \<and> (t \<noteq> ''completed'' \<or> r \<noteq> [] \<or> w_result w \<noteq> []) \<and> w' = w\<lparr>w_status := t, w_result := r'\<rparr> \<and> work_ok w'"
    unfolding transition_work_def read_simps with_status_Inr [OF assms] r'_def by blast
  then show ?thesis
    using allowed_known [of t "w_status w"] work_ok_update [OF assms, where t = t and r = r'] r' unfolding r'_def [symmetric] by blast
qed

definition status_step :: "string \<Rightarrow> string \<Rightarrow> bool" where
  "status_step s t = (t \<in> set (allowed_from s))"

definition status_rank :: "string \<Rightarrow> nat" where
  "status_rank s = (if s = ''planned'' then 0 else if s = ''archived'' then 3 else if s \<in> {''completed'', ''cancelled''} then 2 else 1)"

lemma allowed_list: "P s t" if "list_all (\<lambda>(s, ts). list_all (P s) ts) allowed_transitions" "status_step s t"
proof -
  from that(2) obtain ts where "map_of allowed_transitions s = Some ts" and ts: "t \<in> set ts"
    by (cases "map_of allowed_transitions s") (simp_all add: status_step_def allowed_from_def)
  then have "(s, ts) \<in> set allowed_transitions" by (simp add: map_of_SomeD)
  then show ?thesis using that(1) ts unfolding list_all_iff by fastforce
qed

interpretation work_graph: ranked_status_graph status_step "\<lambda>s. s \<in> set work_statuses" "\<lambda>s. s = ''archived''" status_rank
proof
  show "status_step s t \<Longrightarrow> s \<in> set work_statuses \<and> t \<in> set work_statuses" for s t
    unfolding status_step_def by (rule allowed_known)
  have "allowed_from ''archived'' = []" by code_simp
  then show "status_step s t \<Longrightarrow> s = ''archived'' \<Longrightarrow> t = s" for s t by (simp add: status_step_def)
  have "list_all (\<lambda>(s, ts). list_all (\<lambda>t. status_rank s \<le> status_rank t) ts) allowed_transitions" by code_simp
  then show "status_step s t \<Longrightarrow> status_rank s \<le> status_rank t" for s t by (rule allowed_list)
  have c: "status_step ''cancelled'' ''archived''" by code_simp
  have d: "status_step ''completed'' ''archived''" by code_simp
  have "list_all (\<lambda>s. s \<in> {''completed'', ''cancelled'', ''archived''} \<or> status_step s ''cancelled'') work_statuses" by code_simp
  then show "s \<in> set work_statuses \<Longrightarrow> \<exists>t. status_step\<^sup>*\<^sup>* s t \<and> t = ''archived''" for s
  proof -
    assume "s \<in> set work_statuses"
    moreover assume "list_all (\<lambda>s. s \<in> {''completed'', ''cancelled'', ''archived''} \<or> status_step s ''cancelled'') work_statuses"
    ultimately have "s \<in> {''completed'', ''cancelled'', ''archived''} \<or> status_step s ''cancelled''" unfolding list_all_iff by blast
    then have "status_step\<^sup>*\<^sup>* s ''archived''"
    proof (elim disjE insertE emptyE)
      assume "status_step s ''cancelled''"
      then show ?thesis using c by (rule converse_rtranclp_into_rtranclp [OF _ r_into_rtranclp])
    qed (use c d in \<open>simp_all only: r_into_rtranclp rtranclp.rtrancl_refl\<close>)
    then show ?thesis by blast
  qed
qed

text \<open>One transition of a Work, and what a sequence of them keeps.\<close>

inductive work_step :: "work_env \<Rightarrow> work \<Rightarrow> work \<Rightarrow> bool" for E where
  "transition_work E w t r = Inr w' \<Longrightarrow> work_step E w w'"

inductive_cases work_stepE: "work_step E w w'"

lemma work_step_keeps:
  assumes "work_step E w w'" and "work_ok w"
  shows "work_ok w' \<and> status_step (w_status w) (w_status w') \<and> (w_result w \<noteq> [] \<longrightarrow> w_result w' \<noteq> [])
    \<and> w' = w\<lparr>w_status := w_status w', w_result := w_result w'\<rparr>"
proof -
  obtain t r where t: "transition_work E w t r = Inr w'" using work_stepE [OF assms(1)] by metis
  then have "with_status E w t r = Inr w'" unfolding transition_work_def read_simps by blast
  then have "work_ok w'" unfolding with_status_Inr [OF assms(2)] by blast
  then show ?thesis using t unfolding transition_work_iff [OF assms(2)] by (auto simp: status_step_def)
qed

lemma same_envelope: "y = w\<lparr>w_status := a, w_result := b\<rparr> \<Longrightarrow> z = y\<lparr>w_status := c, w_result := d\<rparr>
    \<Longrightarrow> z = w\<lparr>w_status := c, w_result := d\<rparr>"
  by simp

text \<open>What a life keeps. However many transitions a well-formed Work has gone through, it is well-formed, its status is
  reachable in the status graph and its pipeline position never fell, so a completed or cancelled Work is never active again; a
  result is never lost, a completed Work has one, nothing but the status and the result changed, and the saved document
  reads back as that Work.\<close>

theorem work_life_invariant:
  assumes "work_ok w" and "(work_step E)\<^sup>*\<^sup>* w w'"
  shows "work_ok w' \<and> status_step\<^sup>*\<^sup>* (w_status w) (w_status w') \<and> status_rank (w_status w) \<le> status_rank (w_status w')
    \<and> (w_result w \<noteq> [] \<longrightarrow> w_result w' \<noteq> []) \<and> (w_status w' = ''completed'' \<longrightarrow> w_result w' \<noteq> [])
    \<and> w' = w\<lparr>w_status := w_status w', w_result := w_result w'\<rparr> \<and> work_from_payload E (work_as_dict E w') = Inr w'"
proof -
  from assms(2) have life: "work_ok w' \<and> status_step\<^sup>*\<^sup>* (w_status w) (w_status w') \<and> (w_result w \<noteq> [] \<longrightarrow> w_result w' \<noteq> [])
      \<and> w' = w\<lparr>w_status := w_status w', w_result := w_result w'\<rparr>"
  proof (induction rule: rtranclp_induct)
    case base
    then show ?case using assms(1) by simp
  next
    case (step y z)
    note k = work_step_keeps [OF step(2)]
    have "z = w\<lparr>w_status := w_status z, w_result := w_result z\<rparr>"
      by (rule same_envelope [where y = y]) (use step(3) k in blast)+
    then show ?case using step(3) k by (meson rtranclp.rtrancl_into_rtrancl)
  qed
  then have "w_status w' = ''completed'' \<longrightarrow> w_result w' \<noteq> []" by (simp add: work_ok_def identity_ok_def)
  then show ?thesis using life work_graph.run_rank [of "w_status w" "w_status w'"] work_roundtrip [of w' E] by blast
qed

section \<open>Building\<close>

lemma classified_defaults:
  assumes "c = decide_classification R f q selection"
  shows "k_schema c = 2 \<or> k_schema c = 1 \<and> k_source c = ''system-default'' \<and> k_record c = [] \<and> k_authorization c = [] \<and> k_oid c = []"
proof (cases "k_profile c = ''G2'' \<or> k_profile c = ''G3''")
  case False
  then show ?thesis using decide_fields(4-8) [OF assms] by (cases selection) simp_all
qed (simp add: decide_fields(4) [OF assms])

lemma build_work_Inr:
  assumes "build_work E i project objective request scope c release_oid process_oid phase kind route u = Inr w"
  shows "\<not> k_blocked c \<and> k_budget c = Some (w_budget w) \<and> validate_work_payload E (work_as_dict E w) None = Inr []
    \<and> w_status w = ''planned'' \<and> w_profile w = k_profile c \<and> w_gates w = k_gates c \<and> w_scope w = scope
    \<and> w_profile_schema w = k_schema c \<and> w_source w = k_source c \<and> w_record w = k_record c \<and> w_authorization w = k_authorization c
    \<and> w_source_oid w = k_oid c \<and> w_revision w = k_revision c"
proof -
  obtain b where b: "k_budget c = Some b" "\<not> k_blocked c" using assms by (auto simp: build_work_def split: option.splits if_splits)
  then show ?thesis using assms by (auto simp: build_work_def Let_def read_simps)
qed

text \<open>The Work a document of the first profile schema stands for: it holds no route revision, which is read as 1.\<close>

definition stored_revision :: "work \<Rightarrow> work" where
  "stored_revision w = (if w_profile_schema w = 1 then w\<lparr>w_revision := 1\<rparr> else w)"

lemma stored_revision_dict: "work_as_dict E (stored_revision w) = work_as_dict E w"
  by (simp add: stored_revision_def work_as_dict_def)

text \<open>C13: From a classification to a Work on disk. For every request a Work that is built from its classification is planned, the
  classification was not blocked, and the Work has its level, gates and budget; its document is the one of a well-formed Work and reads back
  as that Work: the Work itself when it has a V2 profile, and the Work with route revision 1 when it has a V1 profile (G0 and G1), whose
  document does not hold a revision. A V2 Work carries the governance binding with the classification's digests and revision.\<close>

theorem build_work_keeps_classification:
  assumes "classify_work R f q = Inr c"
    and "build_work E i project objective request scope c release_oid process_oid phase kind route u = Inr w"
  shows "\<not> k_blocked c \<and> w_status w = ''planned'' \<and> w_profile w = k_profile c \<and> w_gates w = k_gates c
    \<and> k_budget c = Some (w_budget w) \<and> w_revision w = rq_revision q
    \<and> work_ok (if k_schema c = 1 then w\<lparr>w_revision := 1\<rparr> else w)
    \<and> work_from_payload E (work_as_dict E w) = Inr (if k_schema c = 1 then w\<lparr>w_revision := 1\<rparr> else w)
    \<and> (k_schema c = 2 \<longrightarrow> (\<exists>b. work_binding w = Inr b \<and> binding_wf b \<and> gb_profile b = k_profile c \<and> gb_record b = k_record c
         \<and> gb_authorization b = k_authorization c \<and> gb_oid b = k_oid c \<and> gb_revision b = rq_revision q))"
proof -
  obtain selection where c: "c = decide_classification R f q selection" by (rule classifyE [OF assms(1)])
  note b = build_work_Inr [OF assms(2)]
  let ?n = "stored_revision w"
  have n: "?n = (if k_schema c = 1 then w\<lparr>w_revision := 1\<rparr> else w)" using b by (simp add: stored_revision_def)
  have valid: "validate_work_payload E (work_as_dict E ?n) None = Inr []" using b by (simp add: stored_revision_dict)
  then have "risk_accepted (work_as_dict E ?n)" unfolding validate_accepts by blast
  then have p: "stored_profile_ok ?n"
    by (rule risk_dict_rev) (use b classified_defaults [OF c] in \<open>auto simp: n\<close>)
  then have ok: "work_ok ?n" using valid validate_dict by blast
  have binding: "\<exists>b. work_binding w = Inr b \<and> binding_wf b \<and> gb_profile b = k_profile c \<and> gb_record b = k_record c
      \<and> gb_authorization b = k_authorization c \<and> gb_oid b = k_oid c \<and> gb_revision b = rq_revision q" if two: "k_schema c = 2"
  proof (intro exI conjI)
    have schema: "w_profile_schema w = 2" and same: "?n = w" using b two by (simp_all add: stored_revision_def)
    then have wf: "binding_wf (binding_record w)" and g: "w_profile w \<in> set governance_risk_profiles"
      using p by (simp_all add: stored_profile_ok_def)
    then show "work_binding w = Inr (binding_record w)"
      by (simp add: work_binding_def effective_risk_profile_def schema effective_ok read_simps) (simp add: binding_record_def)
    show "binding_wf (binding_record w)" by (rule wf)
  qed (use b decide_fields(9) [OF c] in \<open>simp_all add: binding_record_def\<close>)
  have "work_from_payload E (work_as_dict E w) = Inr ?n" using work_roundtrip [OF ok, of E] by (simp add: stored_revision_dict)
  moreover have "w_revision w = rq_revision q" using b decide_fields(9) [OF c] by simp
  ultimately show ?thesis using b ok binding unfolding n by blast
qed

lemma collect_Inl: "r \<in> set rs \<Longrightarrow> r = Inl e \<Longrightarrow> \<exists>e'. collect rs = Inl e'"
proof (induction rs)
  case (Cons x xs)
  show ?case
  proof (cases x)
    case (Inr fs)
    then have "\<exists>e'. collect xs = Inl e'" using Cons by auto
    then show ?thesis using Inr by (auto simp: collect.simps)
  qed (simp add: collect.simps)
qed simp

text \<open>A V1 document that names G3 is not reported. The validation notes the level as a finding, but then checks the route with it
  outside its own \<open>try\<close>; for every document with a readable route profile the validation raises instead of returning findings.\<close>

theorem validation_raises_on_v1_g3:
  assumes "dget d ''risk_profile'' = PStr ''G3''" and "profile_schema d = PInt 1"
    and "route_profile_from_payload (dget d ''route_profile'') = Inr p"
  shows "\<exists>e. validate_work_payload E d byte_size = Inl e"
proof -
  have g: "PStr ''G3'' \<in> PStr ` set governance_risk_profiles" by code_simp
  have "effective_governance_profile ''G3'' (PInt 1) = Inl (ValueError ''V1 governance profile does not support G3'')" by code_simp
  then have "route_level d = Inl (ValueError ''V1 governance profile does not support G3'')"
    using g by (simp add: route_level_def assms)
  then have "route_findings d = Inl (ValueError ''V1 governance profile does not support G3'')"
    by (simp add: route_findings_def assms)
  then show ?thesis unfolding validate_work_payload_def by (rule collect_Inl [rotated]) simp
qed

text \<open>A document in which the scope alone is replaced: the sections that do not read it stay as they are.\<close>

lemma sections_cong:
  assumes same: "\<forall>k. k \<noteq> ''scope'' \<longrightarrow> dget d' k = dget d k" and keys: "map fst d' = map fst d"
  shows "key_findings d' = key_findings d" "identity_findings d' = identity_findings d" "ref_findings d' = ref_findings d"
    "risk_accepted d' = risk_accepted d" "code_findings d' = code_findings d" "route_findings d' = route_findings d"
    "unit_findings d' = unit_findings d" "budget_findings d' = budget_findings d" "oid_findings d' = oid_findings d"
    "dget_or d' ''result_ref'' v = dget_or d ''result_ref'' v"
proof -
  have get: "\<And>k. k \<noteq> ''scope'' \<Longrightarrow> dget d' k = dget d k" using same by blast
  have dk: "dkeys d' = dkeys d" unfolding dkeys_def keys ..
  have o: "dget_or d' k v = dget_or d k v" if "k \<noteq> ''scope''" for k v using get [OF that] by (simp add: dget_or_def dk)
  have u: "under_work d' = under_work d" "work_prefix d' = work_prefix d" by (simp_all add: fun_eq_iff under_work_def work_prefix_def o)
  have p: "profile_schema d' = profile_schema d" by (simp add: profile_schema_def o)
  have b: "binding_of_payload d' x = binding_of_payload d x" for x by (simp add: binding_of_payload_def get cong: pyval.case_cong)
  show "key_findings d' = key_findings d" by (simp add: key_findings_def extra_keys_def missing_keys_def keys dk)
  show "identity_findings d' = identity_findings d" by (simp add: identity_findings_def id_finding_def get)
  show "ref_findings d' = ref_findings d" by (simp add: ref_findings_def ref_finding_def get o u)
  show "risk_accepted d' = risk_accepted d" by (simp add: risk_accepted_def get p dk b)
  show "code_findings d' = code_findings d" by (simp add: code_findings_def get)
  show "route_findings d' = route_findings d" 
  proof -
    have "route_level d' = route_level d" by (simp add: route_level_def get p)
    then show ?thesis by (simp add: route_findings_def get cong: sum.case_cong)
  qed
  show "unit_findings d' = unit_findings d" by (simp add: unit_findings_def get Let_def)
  show "budget_findings d' = budget_findings d" by (simp add: budget_findings_def get)
  show "oid_findings d' = oid_findings d" by (simp add: oid_findings_def get)
  show "dget_or d' ''result_ref'' v = dget_or d ''result_ref'' v" by (simp add: o)
qed

lemma dset_present: "k \<in> dkeys d \<Longrightarrow> map fst (dset d k v) = map fst d" "k \<in> dkeys d \<Longrightarrow> dget (dset d k v) k = v"
  "k' \<noteq> k \<Longrightarrow> dget (dset d k v) k' = dget d k'"
proof -
  let ?m = "map (\<lambda>(k', u). (k', if k' = k then v else u))"
  show "k \<in> dkeys d \<Longrightarrow> map fst (dset d k v) = map fst d" by (auto simp: dset_def)
  have "k \<in> dkeys d \<Longrightarrow> dget (?m d) k = v" for d by (induction d) auto
  then show "k \<in> dkeys d \<Longrightarrow> dget (dset d k v) k = v" by (simp add: dset_def)
  assume n: "k' \<noteq> k"
  have "dget (?m d) k' = dget d k'" for d using n by (induction d) auto
  then show "dget (dset d k v) k' = dget d k'" using n dget_key(2) [of k' d] by (simp add: dset_def dget_append)
qed

text \<open>Validation accepts documents that cannot be read. For every well-formed Work without required checks, dropping the key
  \<open>required_checks\<close> from its scope leaves the document valid, digest included, while the reader raises \<open>KeyError\<close>.\<close>

theorem valid_scope_unreadable:
  assumes "work_ok w" and "required_checks (w_scope w) = []"
  shows "let d = dset (work_as_dict E w) ''scope'' (PDict (dpop (scope_as_dict (w_scope w)) ''required_checks'')) in
    validate_work_payload E d None = Inr [] \<and> work_from_payload E d = Inl (KeyError ''required_checks'')"
proof -
  let ?w = "work_as_dict E w" and ?s = "dpop (scope_as_dict (w_scope w)) ''required_checks''"
  let ?d = "dset ?w ''scope'' (PDict ?s)"
  have s: "?s = [(''version'', PInt (version (w_scope w))), (''allowed_reads'', PList (map PStr (allowed_reads (w_scope w)))),
      (''allowed_writes'', PList (map PStr (allowed_writes (w_scope w))))]"
    by (simp add: dpop_def scope_as_dict_def)
  have key: "''scope'' \<in> dkeys ?w" using dget_key(1) [of ?w "''scope''"] by (simp add: work_dict)
  have get: "\<forall>k. k \<noteq> ''scope'' \<longrightarrow> dget ?d k = dget ?w k" by (intro allI impI dset_present(3))
  note cong = sections_cong [of ?d ?w, OF get dset_present(1) [OF key]]
  have ok: "scope_ok (w_scope w)" using assms(1) by (simp add: work_ok_def contents_ok_def)
  have t: "tuple_or_empty (PList xs) = Inr xs" "tuple_or_empty PNone = Inr []" for xs by (simp_all add: tuple_or_empty_def)
  have g: "dget ?s ''allowed_reads'' = PList (map PStr (allowed_reads (w_scope w)))"
    "dget ?s ''allowed_writes'' = PList (map PStr (allowed_writes (w_scope w)))"
    "dget ?s ''version'' = PInt (version (w_scope w))" "dget ?s ''required_checks'' = PNone" "''required_checks'' \<notin> dkeys ?s"
    "''allowed_reads'' \<in> dkeys ?s" "''allowed_writes'' \<in> dkeys ?s"
    unfolding s by simp_all
  have "read_scope ?s = Inr (w_scope w)" by (simp add: read_scope_def g t mk_scope_Inr ok assms(2))
  then have sc: "scope_findings E ?d = Inr []"
    unfolding scope_accepts by (simp add: dset_present(2) [OF key] dset_present(3) work_dict)
  have w: "validate_work_payload E ?w None = Inr []" using assms(1) validate_dict by (auto simp: work_ok_def)
  have status: "dget ?d ''status'' = dget ?w ''status''" by (rule dset_present(3)) simp
  then have v: "validate_work_payload E ?d None = Inr []"
    using sc w unfolding validate_accepts cong status by blast
  have "load_scope ?s = Inl (KeyError ''required_checks'')"
    by (simp add: load_scope_def str_tuple_def dindex_def g)
  moreover have "route_profile_from_payload (dget ?d ''route_profile'') = Inr (w_route w)"
    using assms(1) by (simp add: dset_present(3) work_dict work_ok_def contents_ok_def route_profile_roundtrip)
  ultimately have "work_from_payload E ?d = Inl (KeyError ''required_checks'')"
    by (simp add: work_from_payload_def accept_findings_def v dset_present(2) [OF key])
  then show ?thesis using v by (simp add: Let_def)
qed

section \<open>Examples\<close>

definition work_env0 :: work_env where
  "work_env0 = \<lparr>we_release = release_env0, we_ascii = hex_text \<circ> sample_dumps\<rparr>"

definition scope0 :: work_scope where
  "scope0 = \<lparr>version = 1, allowed_reads = [''docs/**''], allowed_writes = [''docs/**''], required_checks = []\<rparr>"

definition work0 :: work where
  "work0 = \<lparr>w_schema = 1, w_id = ''W-1'', w_project = ''P'', w_kind = ''work'', w_objective = ''write the guide'',
     w_status = ''planned'', w_request = ''works/W-1/REQUEST.md'', w_confirmed = True, w_phase = ''phases/one.yaml'',
     w_profile = ''G1'', w_reasons = [''MULTI_STEP''], w_gates = [], w_route = SAFE_ROUTE_PROFILE, w_scope = scope0,
     w_budget = G1_BUDGET, w_usage = ''works/W-1/USAGE.json'', w_release_oid = [], w_process_oid = [], w_unit = None,
     w_result = [], w_updated = [], w_profile_schema = 1, w_source = ''system-default'', w_record = [], w_authorization = [],
     w_source_oid = [], w_revision = 1\<rparr>"

definition document0 :: pydict where
  "document0 = work_as_dict work_env0 work0 @ [(''depends_on'', PList [PStr ''W-0''])]"

lemma work_examples: "work_ok work0" "work_from_payload work_env0 document0 = Inr work0"
  "transition_work work_env0 work0 ''active'' [] = Inr (work0\<lparr>w_status := ''active''\<rparr>)"
  "transition_work work_env0 (work0\<lparr>w_status := ''active''\<rparr>) ''completed'' ''works/W-1/RESULT.yaml'' =
     Inr (work0\<lparr>w_status := ''completed'', w_result := ''works/W-1/RESULT.yaml''\<rparr>)"
  by code_simp+

theorem work_document_roundtrip_witness:
  "work_from_payload work_env0 document0 = Inr work0 \<and> work_from_payload work_env0 (work_as_dict work_env0 work0) = Inr work0"
  using work_document_roundtrip [OF work_examples(2)] work_examples(2) by blast

theorem transition_work_iff_witness:
  "transition_work work_env0 work0 ''active'' [] = Inr (work0\<lparr>w_status := ''active'', w_result := []\<rparr>)
   \<and> (\<forall>w'. transition_work work_env0 work0 ''completed'' ''works/W-1/RESULT.yaml'' \<noteq> Inr w')"
proof -
  have "''active'' \<in> set (allowed_from (w_status work0))" "''completed'' \<notin> set (allowed_from (w_status work0))"
    "w_result work0 = []" "''active'' \<noteq> ''completed''" by code_simp+
  then show ?thesis using transition_work_iff [OF work_examples(1)] by auto
qed

theorem work_life_invariant_witness:
  "\<exists>w'. (work_step work_env0)\<^sup>*\<^sup>* work0 w' \<and> w_status w' = ''completed'' \<and> w_result w' \<noteq> []
     \<and> work_from_payload work_env0 (work_as_dict work_env0 w') = Inr w'"
proof -
  let ?w = "work0\<lparr>w_status := ''completed'', w_result := ''works/W-1/RESULT.yaml''\<rparr>"
  have run: "(work_step work_env0)\<^sup>*\<^sup>* work0 ?w"
    using work_step.intros [OF work_examples(3)] work_step.intros [OF work_examples(4)]
    by (meson rtranclp.rtrancl_into_rtrancl rtranclp.rtrancl_refl)
  have "w_status ?w = ''completed''" by simp
  then show ?thesis using work_life_invariant [OF work_examples(1) run] run by blast
qed

theorem build_work_keeps_classification_witness:
  "\<exists>c w. classify_work release_env0 facts0 request0 = Inr c
     \<and> build_work work_env0 ''W-1'' ''P'' ''write the guide'' ''works/W-1/REQUEST.md'' scope0 c [] [] [] None SAFE_ROUTE_PROFILE None = Inr w
     \<and> w_profile w = ''G2'' \<and> (\<exists>b. work_binding w = Inr b \<and> binding_wf b)"
proof -
  let ?c = "decide_classification release_env0 facts0 request0 None"
  have g: "k_profile ?c = ''G2'' \<and> k_schema ?c = 2 \<and> is_ok (build_work work_env0 ''W-1'' ''P'' ''write the guide''
      ''works/W-1/REQUEST.md'' scope0 ?c [] [] [] None SAFE_ROUTE_PROFILE None)" by code_simp
  then obtain w where w: "build_work work_env0 ''W-1'' ''P'' ''write the guide'' ''works/W-1/REQUEST.md'' scope0 ?c [] [] []
      None SAFE_ROUTE_PROFILE None = Inr w" unfolding is_ok_iff by blast
  from build_work_keeps_classification [OF classify_examples(1) w] show ?thesis
    using g w classify_examples(1) by metis
qed

theorem validation_raises_on_v1_g3_witness:
  "\<exists>e. validate_work_payload work_env0 (dset document0 ''risk_profile'' (PStr ''G3'')) (Some 900) = Inl e"
proof -
  let ?d = "dset document0 ''risk_profile'' (PStr ''G3'')"
  have "dget ?d ''risk_profile'' = PStr ''G3''" "profile_schema ?d = PInt 1"
    "route_profile_from_payload (dget ?d ''route_profile'') = Inr SAFE_ROUTE_PROFILE" by code_simp+
  then show ?thesis by (rule validation_raises_on_v1_g3)
qed

theorem valid_scope_unreadable_witness:
  "\<exists>d. validate_work_payload work_env0 d None = Inr [] \<and> work_from_payload work_env0 d = Inl (KeyError ''required_checks'')"
proof -
  have "required_checks (w_scope work0) = []" by code_simp
  from valid_scope_unreadable [OF work_examples(1) this, of work_env0] show ?thesis unfolding Let_def by blast
qed

end
