(* ===== verification/Scope_Amend.thy ===== *)
theory Scope_Amend
  imports Work_Lifecycle "HOL-Library.AList" "HOL-Library.Product_Lexorder"
begin

text \<open>
  The amendment of the scope of a change request's Work: the pure contracts of \<open>work/model.py\<close> (the delta, the
  receipt of the terminal predecessor, the plan, the successor revision), the admission of a predecessor and the
  derived index of \<open>workflow/cr_index.py\<close>, and the planning of \<open>work/scope_amend.py\<close> over what it observes of the
  repositories: the exact preimages of the files, the execution context and the verdict of the production validation
  are arguments. The writing of the planned postimages is not modelled.
\<close>

section \<open>Canonical lists\<close>

text \<open>\<open>tuple(sorted(set(values))) == values\<close>, on texts and on the values of a document. Sorting values of different
  types raises a \<open>TypeError\<close>, and so does the set of a list with unhashable ones.\<close>

definition canonical_texts :: "string list \<Rightarrow> bool" where
  "canonical_texts xs = (sort (remdups xs) = xs)"

fun is_number :: "pyval \<Rightarrow> bool" where
  "is_number (PInt _) = True"
| "is_number (PBool _) = True"
| "is_number _ = False"

definition sorted_set_values :: "pyval list \<Rightarrow> bool result" where
  "sorted_set_values xs =
     (if list_ex unhashable xs then Inl (TypeError ''unhashable type'')
      else if list_all is_str xs then Inr (canonical_texts (map the_str xs))
      else if list_all is_number xs then Inr (sorted_wrt (<) (map the_int xs))
      else if length (remdups (map py_norm xs)) \<le> 1 then Inr (length xs \<le> 1)
      else Inl (TypeError ''not supported between instances''))"

lemma canonical_texts_iff: "canonical_texts xs \<longleftrightarrow> sorted xs \<and> distinct xs"
proof
  assume c: "canonical_texts xs"
  have "sorted (sort (remdups xs)) \<and> distinct (sort (remdups xs))" by simp
  then show "sorted xs \<and> distinct xs" unfolding c [unfolded canonical_texts_def] .
next
  assume "sorted xs \<and> distinct xs"
  then show "canonical_texts xs" by (simp add: canonical_texts_def distinct_remdups_id sorted_sort_id)
qed

lemma canonical_sort [simp]: "canonical_texts (sort (remdups xs))"
  by (simp add: canonical_texts_iff)

section \<open>Scope deltas and predecessors\<close>

definition scope_value_re :: "string \<Rightarrow> bool" where
  "scope_value_re s = (case s of [] \<Rightarrow> False
     | c # cs \<Rightarrow> ascii_alnum c \<and> list_all (\<lambda>x. ascii_alnum x \<or> x \<in> set ''._/-'') cs)"

definition owned_leaf_re :: "string \<Rightarrow> bool" where
  "owned_leaf_re s = (case s of [] \<Rightarrow> False
     | c # cs \<Rightarrow> (ascii_alnum c \<or> c = CHR ''.'') \<and> list_all (\<lambda>x. ascii_alnum x \<or> x \<in> set ''._/-'') cs)"

definition is_safe_owned_leaf :: "string \<Rightarrow> bool" where
  "is_safe_owned_leaf s = (owned_leaf_re s \<and> list_all (\<lambda>p. p \<notin> {[], ''.'', ''..''}) (split_char CHR ''/'' s))"

record scope_delta =
  sd_schema :: int
  sd_stories :: "string list"
  sd_leaves :: "string list"
  sd_edges :: "string list"
  sd_acceptance :: "string list"
  sd_why :: string

definition check_scope_delta :: "scope_delta \<Rightarrow> unit result" where
  "check_scope_delta d =
     guard (sd_schema d = 1 \<and> sd_stories d @ sd_leaves d @ sd_edges d @ sd_acceptance d \<noteq> []
       \<and> list_all (\<lambda>values. canonical_texts values \<and> list_all scope_value_re values)
           [sd_stories d, sd_edges d, sd_acceptance d]
       \<and> canonical_texts (sd_leaves d) \<and> list_all is_safe_owned_leaf (sd_leaves d)) ''INVALID_SCOPE_DELTA''"

definition terminal_statuses :: "string list" where
  "terminal_statuses = [''verified'', ''completed'', ''closed'']"

record predecessor_receipt =
  pr_cr :: string
  pr_revision :: string
  pr_status :: string
  pr_inventory :: "string list"
  pr_inventory_digest :: string
  pr_bytes_digest :: string

definition check_predecessor :: "predecessor_receipt \<Rightarrow> unit result" where
  "check_predecessor p =
     guard (short_id_re (pr_cr p) \<and> short_id_re (pr_revision p) \<and> pr_status p \<in> set terminal_statuses
       \<and> canonical_texts (pr_inventory p) \<and> pr_inventory p \<noteq> [] \<and> digest_re (pr_inventory_digest p)
       \<and> digest_re (pr_bytes_digest p)) ''STALE_PREDECESSOR_BINDING''"

section \<open>Revisions and their index\<close>

text \<open>A revision of version 2, or of version 3 when it also replaces the objective.\<close>

record work_revision =
  rv_schema :: int
  rv_cr :: string
  rv_work :: string
  rv_revision :: string
  rv_predecessor :: string
  rv_bytes_digest :: string
  rv_scope_digest :: string
  rv_previous :: "string list"
  rv_scope :: "string list"
  rv_invalidated :: "string list"
  rv_plan_digest :: string
  rv_graph_digest :: string
  rv_objectives :: "(string \<times> string) option"

definition revision_shape :: "work_revision \<Rightarrow> bool" where
  "revision_shape r =
     (list_all short_id_re [rv_cr r, rv_work r, rv_revision r, rv_predecessor r]
      \<and> list_all digest_re [rv_bytes_digest r, rv_scope_digest r, rv_plan_digest r, rv_graph_digest r]
      \<and> canonical_texts (rv_scope r) \<and> set (rv_previous r) \<subset> set (rv_scope r) \<and> canonical_texts (rv_invalidated r))"

definition check_revision_v2 :: "work_revision \<Rightarrow> unit result" where
  "check_revision_v2 r = guard (rv_schema r = 2 \<and> revision_shape r) ''INVALID_SCOPE_AMEND_REVISION''"

definition objectives_ok :: "string \<Rightarrow> string \<Rightarrow> bool" where
  "objectives_ok previous objective = (py_strip previous \<noteq> [] \<and> py_strip objective \<noteq> [] \<and> previous \<noteq> objective)"

definition check_revision_v3 :: "work_revision \<Rightarrow> unit result" where
  "check_revision_v3 r =
     guard (rv_schema r = 3 \<and> revision_shape r
       \<and> (case rv_objectives r of None \<Rightarrow> False | Some (p, q) \<Rightarrow> objectives_ok p q)) ''INVALID_SCOPE_AMEND_REVISION''"

definition revision_as_dict :: "work_revision \<Rightarrow> pydict" where
  "revision_as_dict r =
     [(''schema_version'', PInt (rv_schema r)), (''cr_id'', PStr (rv_cr r)), (''work_id'', PStr (rv_work r)),
      (''revision_id'', PStr (rv_revision r)), (''predecessor_revision_id'', PStr (rv_predecessor r)),
      (''predecessor_revision_bytes_digest'', PStr (rv_bytes_digest r)), (''scope_digest'', PStr (rv_scope_digest r)),
      (''previous_scope'', PList (map PStr (rv_previous r))), (''scope'', PList (map PStr (rv_scope r))),
      (''invalidated_refs'', PList (map PStr (rv_invalidated r))), (''plan_digest'', PStr (rv_plan_digest r)),
      (''validation_graph_digest'', PStr (rv_graph_digest r))]
     @ (case rv_objectives r of None \<Rightarrow> [] | Some (p, q) \<Rightarrow> [(''previous_objective'', PStr p), (''objective'', PStr q)])"

definition revision_fields_v2 :: "string list" where
  "revision_fields_v2 = [''schema_version'', ''cr_id'', ''work_id'', ''revision_id'', ''predecessor_revision_id'',
     ''predecessor_revision_bytes_digest'', ''scope_digest'', ''previous_scope'', ''scope'', ''invalidated_refs'',
     ''plan_digest'', ''validation_graph_digest'']"

definition revision_fields_v3 :: "string list" where
  "revision_fields_v3 = revision_fields_v2 @ [''previous_objective'', ''objective'']"

definition rebuild_scope_amend_index :: "work_env \<Rightarrow> pydict \<Rightarrow> pydict result" where
  "rebuild_scope_amend_index E d =
     (let v = dget d ''schema_version'' in
      let_ok (guard (py_eq v (PInt 2) \<and> dkeys d = set revision_fields_v2 \<or> py_eq v (PInt 3) \<and> dkeys d = set revision_fields_v3)
        ''INVALID_SCOPE_AMEND_REVISION'') (\<lambda>_.
      Inr (map (\<lambda>k. (k, dget d k)) [''cr_id'', ''work_id'', ''revision_id'', ''scope_digest'', ''plan_digest'',
          ''validation_graph_digest'', ''predecessor_revision_id'']
        @ (if py_eq v (PInt 3)
           then [(''objective'', dget d ''objective''),
             (''objective_transition_digest'', PStr (canonical_digest (we_release E)
               (PDict [(''objective'', dget d ''objective''), (''previous_objective'', dget d ''previous_objective'')])))]
           else []))))"

section \<open>Plan and application\<close>

record amend_plan =
  ap_revision :: string
  ap_predecessor :: "predecessor_receipt option"
  ap_scope_digest :: string
  ap_snapshot :: string
  ap_digest :: string
  ap_cr :: string
  ap_work :: string
  ap_current :: "string list"
  ap_result :: "string list"
  ap_authorization :: string
  ap_envelope :: string
  ap_graph :: string
  ap_bindings :: "(string \<times> string) list"
  ap_invalidated :: "string list"
  ap_previous_objective :: string
  ap_objective :: string

text \<open>The keyword arguments of \<open>plan_scope_amend\<close>.\<close>

record amend_args =
  aa_revision :: string
  aa_current :: "string list"
  aa_delta :: scope_delta
  aa_leaves :: "string list"
  aa_predecessor :: "predecessor_receipt option"
  aa_snapshot :: string
  aa_cr :: string
  aa_work :: string
  aa_authorization :: string
  aa_envelope :: string
  aa_graph :: string
  aa_bindings :: "(string \<times> string) list"
  aa_invalidated :: "string list"
  aa_previous_objective :: string
  aa_objective :: string

definition delta_additions :: "scope_delta \<Rightarrow> string list" where
  "delta_additions d = sort (remdups (sd_stories d @ sd_leaves d @ sd_edges d @ sd_acceptance d))"

definition validate_scope_delta :: "string list \<Rightarrow> scope_delta \<Rightarrow> string list \<Rightarrow> string list result" where
  "validate_scope_delta current_scope d authorized =
     (let additions = delta_additions d; amended = sort (remdups (current_scope @ additions)) in
      let_ok (guard (additions \<noteq> [] \<and> \<not> list_ex (\<lambda>l. l \<in> set current_scope) (sd_leaves d)
        \<and> set (sd_leaves d) \<subseteq> set authorized) ''SCOPE_NARROWING'') (\<lambda>_.
      let_ok (guard (length current_scope < length amended) ''SCOPE_NARROWING'') (\<lambda>_. Inr amended)))"

definition pair_value :: "string \<times> string \<Rightarrow> pyval" where
  "pair_value p = PList [PStr (fst p), PStr (snd p)]"

definition amend_identity :: "amend_args \<Rightarrow> string \<Rightarrow> pydict" where
  "amend_identity a sdig =
     [(''revision_id'', PStr (aa_revision a)), (''scope_digest'', PStr sdig),
      (''predecessor'', PStr (case aa_predecessor a of None \<Rightarrow> [] | Some p \<Rightarrow> pr_inventory_digest p)),
      (''snapshot'', PStr (aa_snapshot a)), (''cr_id'', PStr (aa_cr a)), (''work_id'', PStr (aa_work a)),
      (''authorization_digest'', PStr (aa_authorization a)), (''envelope_digest'', PStr (aa_envelope a)),
      (''validation_graph_digest'', PStr (aa_graph a)), (''snapshot_bindings'', PList (map pair_value (sort (aa_bindings a)))),
      (''invalidated_refs'', PList (map PStr (sort (remdups (aa_invalidated a)))))]
     @ (if aa_previous_objective a \<noteq> [] \<or> aa_objective a \<noteq> []
        then [(''previous_objective'', PStr (aa_previous_objective a)), (''result_objective'', PStr (aa_objective a))] else [])"

definition ascii_digest :: "work_env \<Rightarrow> pyval \<Rightarrow> string" where
  "ascii_digest E v = r_sha (we_release E) (we_ascii E v)"

definition plan_scope_amend :: "work_env \<Rightarrow> amend_args \<Rightarrow> amend_plan result" where
  "plan_scope_amend E a =
     let_ok (guard (short_id_re (aa_revision a) \<and> digest_re (aa_snapshot a)) ''INVALID_SCOPE_DELTA'') (\<lambda>_.
     let_ok (guard (case aa_predecessor a of None \<Rightarrow> False
         | Some p \<Rightarrow> pr_status p \<in> set terminal_statuses \<and> pr_inventory p \<noteq> []) ''MISSING_PREDECESSOR_INVENTORY'') (\<lambda>_.
     let_ok (validate_scope_delta (aa_current a) (aa_delta a) (aa_leaves a)) (\<lambda>scope.
     let_ok (guard ((aa_previous_objective a = [] \<and> aa_objective a = [])
         \<or> objectives_ok (aa_previous_objective a) (aa_objective a)) ''INVALID_OBJECTIVE_AMENDMENT'') (\<lambda>_.
     let sdig = ascii_digest E (PList (map PStr scope)) in
     Inr \<lparr>ap_revision = aa_revision a, ap_predecessor = aa_predecessor a, ap_scope_digest = sdig,
       ap_snapshot = aa_snapshot a, ap_digest = ascii_digest E (PDict (sort_key fst (amend_identity a sdig))),
       ap_cr = aa_cr a, ap_work = aa_work a, ap_current = sort (aa_current a), ap_result = scope,
       ap_authorization = aa_authorization a, ap_envelope = aa_envelope a, ap_graph = aa_graph a,
       ap_bindings = sort (aa_bindings a), ap_invalidated = sort (remdups (aa_invalidated a)),
       ap_previous_objective = aa_previous_objective a, ap_objective = aa_objective a\<rparr>))))"

text \<open>\<open>REPLAN_REQUIRED\<close>, or \<open>READY\<close> with the revision when the plan is bound to a Work.\<close>

datatype amend_outcome = Replan_Required string | Amend_Ready string "work_revision option"

definition plan_revision :: "amend_plan \<Rightarrow> predecessor_receipt \<Rightarrow> work_revision" where
  "plan_revision p r =
     (let amended = ap_previous_objective p \<noteq> [] \<or> ap_objective p \<noteq> [] in
      \<lparr>rv_schema = (if amended then 3 else 2), rv_cr = ap_cr p, rv_work = ap_work p, rv_revision = ap_revision p,
       rv_predecessor = pr_revision r, rv_bytes_digest = pr_bytes_digest r, rv_scope_digest = ap_scope_digest p,
       rv_previous = ap_current p, rv_scope = ap_result p, rv_invalidated = ap_invalidated p, rv_plan_digest = ap_digest p,
       rv_graph_digest = ap_graph p, rv_objectives = (if amended then Some (ap_previous_objective p, ap_objective p) else None)\<rparr>)"

definition apply_scope_amend :: "amend_plan \<Rightarrow> string \<Rightarrow> (string \<times> string) list option \<Rightarrow> amend_outcome result" where
  "apply_scope_amend p fresh_snapshot fresh_bindings =
     (if fresh_snapshot \<noteq> ap_snapshot p
        \<or> (case fresh_bindings of None \<Rightarrow> False | Some bs \<Rightarrow> sort bs \<noteq> ap_bindings p)
      then Inr (Replan_Required (ap_digest p))
      else if ap_cr p = [] \<or> ap_work p = [] \<or> ap_current p = [] \<or> ap_result p = [] \<or> ap_authorization p = []
        \<or> ap_envelope p = [] \<or> ap_graph p = []
      then Inr (Amend_Ready (ap_digest p) None)
      else case ap_predecessor p of
        None \<Rightarrow> Inl (AssertionError [])
      | Some r \<Rightarrow>
          let revision = plan_revision p r in
          let_ok (if rv_schema revision = 3 then check_revision_v3 revision else check_revision_v2 revision) (\<lambda>_.
          Inr (Amend_Ready (ap_digest p) (Some revision))))"

section \<open>Authorizations\<close>

text \<open>An authorization of version 1, or of version 2 when it also replaces the objective. The moment it becomes effective
  is any true value of the document.\<close>

record amend_authorization =
  au_schema :: pyval
  au_id :: string
  au_cr :: string
  au_work :: string
  au_predecessor :: string
  au_successor :: string
  au_bytes_digest :: string
  au_leaves :: "string list"
  au_effective :: pyval
  au_objectives :: "(string \<times> string) option"

definition auth_fields_v1 :: "string list" where
  "auth_fields_v1 = [''schema_version'', ''operation'', ''authorization_id'', ''cr_id'', ''work_id'', ''predecessor_revision_id'',
     ''successor_revision_id'', ''predecessor_revision_bytes_digest'', ''authorized_leaves'', ''effective_at'']"

definition auth_fields_v2 :: "string list" where
  "auth_fields_v2 = auth_fields_v1 @ [''predecessor_objective'', ''replacement_objective'']"

definition amend_auth_error :: string where
  "amend_auth_error = ''scope amendment authorization is invalid''"

text \<open>\<open>pattern.fullmatch(value)\<close> raises a \<open>TypeError\<close> when the value is no text.\<close>

definition full_match :: "(string \<Rightarrow> bool) \<Rightarrow> string \<Rightarrow> pyval \<Rightarrow> string result" where
  "full_match pat message v =
     (case v of PStr s \<Rightarrow> if pat s then Inr s else Inl (ValueError message)
      | _ \<Rightarrow> Inl (TypeError ''expected string or bytes-like object''))"

definition check_leaf :: "string \<Rightarrow> pyval \<Rightarrow> unit result" where
  "check_leaf message v =
     (case v of
        PStr s \<Rightarrow> guard (s \<noteq> [] \<and> \<not> is_absolute s \<and> CHR 0x5C \<notin> set s \<and> ''..'' \<notin> set (path_parts s)) message
      | _ \<Rightarrow> if truthy v then Inl (AttributeError ''object has no attribute startswith'') else Inl (ValueError message))"

definition check_leaves :: "string \<Rightarrow> pyval list \<Rightarrow> string list result" where
  "check_leaves message xs =
     let_ok (sorted_set_values xs) (\<lambda>b.
     let_ok (guard b message) (\<lambda>_.
     let_ok (check_all (check_leaf message) xs) (\<lambda>_. Inr (map the_str xs))))"

text \<open>\<open>not value.strip()\<close>: a value without \<open>strip\<close> raises.\<close>

definition some_text :: "string \<Rightarrow> pyval \<Rightarrow> string result" where
  "some_text message v =
     (case v of PStr s \<Rightarrow> if py_strip s \<noteq> [] then Inr s else Inl (ValueError message)
      | _ \<Rightarrow> Inl (AttributeError ''object has no attribute strip''))"

definition auth_common :: "int \<Rightarrow> pydict \<Rightarrow> amend_authorization result" where
  "auth_common ver d =
     let_ok (guard (py_eq (dget d ''schema_version'') (PInt ver) \<and> py_eq (dget d ''operation'') (PStr ''work.scope-amend''))
       amend_auth_error) (\<lambda>_.
     let_ok (full_match work_id_re amend_auth_error (dget d ''authorization_id'')) (\<lambda>aid.
     let_ok (full_match work_id_re amend_auth_error (dget d ''cr_id'')) (\<lambda>cr.
     let_ok (full_match work_id_re amend_auth_error (dget d ''work_id'')) (\<lambda>work.
     let_ok (full_match work_id_re amend_auth_error (dget d ''predecessor_revision_id'')) (\<lambda>predecessor.
     let_ok (full_match work_id_re amend_auth_error (dget d ''successor_revision_id'')) (\<lambda>successor.
     let_ok (full_match (hex_id 64) amend_auth_error (dget d ''predecessor_revision_bytes_digest'')) (\<lambda>bytes_digest.
     let_ok (check_leaves amend_auth_error (list_of (dget d ''authorized_leaves''))) (\<lambda>leaves.
     let_ok (guard (truthy (dget d ''effective_at'')) amend_auth_error) (\<lambda>_.
     Inr \<lparr>au_schema = dget d ''schema_version'', au_id = aid, au_cr = cr, au_work = work, au_predecessor = predecessor,
       au_successor = successor, au_bytes_digest = bytes_digest, au_leaves = leaves, au_effective = dget d ''effective_at'',
       au_objectives = None\<rparr>)))))))))"

definition auth_v1_from_mapping :: "pydict \<Rightarrow> amend_authorization result" where
  "auth_v1_from_mapping d =
     let_ok (guard (dkeys d = set auth_fields_v1 \<and> is_list (dget d ''authorized_leaves''))
       ''scope amendment authorization fields mismatch'') (\<lambda>_. auth_common 1 d)"

definition auth_v2_from_mapping :: "pydict \<Rightarrow> amend_authorization result" where
  "auth_v2_from_mapping d =
     let_ok (guard (dkeys d = set auth_fields_v2 \<and> is_list (dget d ''authorized_leaves''))
       ''scope amendment authorization fields mismatch'') (\<lambda>_.
     let_ok (auth_common 2 d) (\<lambda>a.
     let_ok (some_text amend_auth_error (dget d ''predecessor_objective'')) (\<lambda>p.
     let_ok (some_text amend_auth_error (dget d ''replacement_objective'')) (\<lambda>q.
     let_ok (guard (p \<noteq> q) amend_auth_error) (\<lambda>_. Inr (a\<lparr>au_objectives := Some (p, q)\<rparr>))))))"

text \<open>The file is read by the caller: it is unsafe, unreadable, or holds a value.\<close>

definition load_scope_amend_authorization :: "pyval \<Rightarrow> amend_authorization result" where
  "load_scope_amend_authorization v =
     (case v of
        PDict d \<Rightarrow>
          if py_eq (dget d ''schema_version'') (PInt 1) then auth_v1_from_mapping d
          else if py_eq (dget d ''schema_version'') (PInt 2) then auth_v2_from_mapping d
          else Inl (ValueError ''scope amendment authorization version is invalid'')
      | _ \<Rightarrow> Inl (ValueError ''scope amendment authorization must be an object''))"

definition auth_as_dict :: "amend_authorization \<Rightarrow> pydict" where
  "auth_as_dict a =
     [(''schema_version'', au_schema a), (''operation'', PStr ''work.scope-amend''), (''authorization_id'', PStr (au_id a)),
      (''cr_id'', PStr (au_cr a)), (''work_id'', PStr (au_work a)), (''predecessor_revision_id'', PStr (au_predecessor a)),
      (''successor_revision_id'', PStr (au_successor a)), (''predecessor_revision_bytes_digest'', PStr (au_bytes_digest a)),
      (''authorized_leaves'', PList (map PStr (au_leaves a))), (''effective_at'', au_effective a)]
     @ (case au_objectives a of None \<Rightarrow> []
        | Some (p, q) \<Rightarrow> [(''predecessor_objective'', PStr p), (''replacement_objective'', PStr q)])"

text \<open>\<open>canonical_digest(self.as_dict())\<close>. The printer sorts the keys of every dictionary itself.\<close>

definition auth_digest :: "work_env \<Rightarrow> amend_authorization \<Rightarrow> string" where
  "auth_digest E a = canonical_digest (we_release E) (PDict (sort_key fst (auth_as_dict a)))"

section \<open>Admission of the predecessor\<close>

fun nonempty_str :: "pyval \<Rightarrow> bool" where
  "nonempty_str (PStr s) = (s \<noteq> [])"
| "nonempty_str _ = False"

definition receipt_of :: "string \<Rightarrow> string \<Rightarrow> pydict \<Rightarrow> bool" where
  "receipt_of cr predecessor d =
     (py_eq (dget d ''cr_id'') (PStr cr) \<and> py_eq (dget d ''predecessor_revision_id'') (PStr predecessor))"

definition load_terminal_predecessor_inventory ::
    "work_env \<Rightarrow> pydict list \<Rightarrow> string \<Rightarrow> string \<Rightarrow> string \<Rightarrow> string \<Rightarrow> pydict result" where
  "load_terminal_predecessor_inventory E receipts cr predecessor expected_digest expected_bytes =
     (case filter (receipt_of cr predecessor) receipts of
        [] \<Rightarrow> Inl (ValueError ''MISSING_PREDECESSOR_INVENTORY'')
      | [d] \<Rightarrow>
          let_ok (in_vocabulary (dget d ''terminal_status'') terminal_statuses ''NON_TERMINAL_PREDECESSOR'') (\<lambda>_.
          let inventory = dget d ''inventory'' in
          let_ok (guard (is_list inventory \<and> list_of inventory \<noteq> []) ''STALE_PREDECESSOR_BINDING'') (\<lambda>_.
          let_ok (sorted_set_values (list_of inventory)) (\<lambda>b.
          let_ok (guard (b \<and> list_all nonempty_str (list_of inventory)
            \<and> py_eq (dget d ''inventory_digest'') (PStr expected_digest)
            \<and> canonical_digest (we_release E) inventory = expected_digest
            \<and> (expected_bytes = [] \<or> py_eq (dget d ''revision_bytes_digest'') (PStr expected_bytes)))
            ''STALE_PREDECESSOR_BINDING'') (\<lambda>_. Inr d))))
      | _ \<Rightarrow> Inl (ValueError ''AMBIGUOUS_PREDECESSOR''))"

definition admit_scope_amend_predecessor :: "work_env \<Rightarrow> amend_authorization \<Rightarrow> pydict list \<Rightarrow> predecessor_receipt result" where
  "admit_scope_amend_predecessor E a receipts =
     (let expected = (case find (receipt_of (au_cr a) (au_predecessor a)) receipts of
          None \<Rightarrow> [] | Some d \<Rightarrow> py_str (dget d ''inventory_digest'')) in
      let_ok (load_terminal_predecessor_inventory E receipts (au_cr a) (au_predecessor a) expected (au_bytes_digest a)) (\<lambda>d.
      let p = \<lparr>pr_cr = the_str (dget d ''cr_id''), pr_revision = the_str (dget d ''predecessor_revision_id''),
        pr_status = the_str (dget d ''terminal_status''), pr_inventory = map the_str (list_of (dget d ''inventory'')),
        pr_inventory_digest = the_str (dget d ''inventory_digest''), pr_bytes_digest = the_str (dget d ''revision_bytes_digest'')\<rparr> in
      let_ok (check_predecessor p) (\<lambda>_. Inr p)))"

section \<open>The amendment of a Work\<close>

definition assert_additive_only :: "work_scope \<Rightarrow> work_scope \<Rightarrow> unit result" where
  "assert_additive_only s t =
     let_ok (guard (set (allowed_reads s) \<subseteq> set (allowed_reads t)) ''SCOPE_AMEND_NON_ADDITIVE:allowed_reads'') (\<lambda>_.
     let_ok (guard (set (allowed_writes s) \<subseteq> set (allowed_writes t)) ''SCOPE_AMEND_NON_ADDITIVE:allowed_writes'') (\<lambda>_.
     guard (set (required_checks s) \<subseteq> set (required_checks t)) ''SCOPE_AMEND_NON_ADDITIVE:required_checks''))"

definition result_work_scope :: "work_scope \<Rightarrow> scope_delta \<Rightarrow> work_scope result" where
  "result_work_scope s d =
     (let t = \<lparr>version = version s + 1,
        allowed_reads = sort (remdups (allowed_reads s @ sd_stories d @ sd_edges d @ sd_acceptance d)),
        allowed_writes = sort (remdups (allowed_writes s @ sd_leaves d)), required_checks = required_checks s\<rparr> in
      let_ok (validate_work_scope t) (\<lambda>_. let_ok (assert_additive_only s t) (\<lambda>_. Inr t)))"

text \<open>What the planner observes: the project of the route, the files of the process repository, the projections that
  would be refreshed, the execution context and the verdict of the production validation.\<close>

record amend_facts =
  af_project :: string
  af_exists :: "string \<Rightarrow> bool"
  af_preimage :: "string \<Rightarrow> string"
  af_projections :: "(string \<times> string) list"
  af_release_oid :: string
  af_process_oid :: string
  af_dirty :: string
  af_passed :: bool
  af_envelope :: string
  af_graph :: string
  af_source :: string

definition within_budget :: "work_scope \<Rightarrow> budget_limit \<Rightarrow> bool" where
  "within_budget s l = (int (length (allowed_reads s)) \<le> bl_reads l \<and> int (length (allowed_writes s)) \<le> bl_writes l
     \<and> int (length (required_checks s)) \<le> bl_check_groups l)"

definition scope_union :: "work_scope \<Rightarrow> string list" where
  "scope_union s = sort (remdups (allowed_reads s @ allowed_writes s @ required_checks s))"

definition amend_refs :: "work \<Rightarrow> string \<Rightarrow> string list" where
  "amend_refs w successor = sort [work_ref w, ''works/'' @ w_id w @ ''/revisions/'' @ successor @ ''.json'',
     ''works/'' @ w_id w @ ''/scope-amendments/'' @ successor @ ''.receipt.json'']"

definition amend_invalidated :: "work \<Rightarrow> string list" where
  "amend_invalidated w = sort (remdups ((if w_result w = [] then [] else [w_result w])
     @ [''works/'' @ w_id w @ ''/HANDOFF.yaml'', ''works/'' @ w_id w @ ''/validation-receipts'']))"

text \<open>The bindings of the snapshot: a dictionary built entry by entry, then sorted.\<close>

definition amend_bindings :: "work_env \<Rightarrow> amend_facts \<Rightarrow> amend_authorization \<Rightarrow> predecessor_receipt \<Rightarrow> work \<Rightarrow> (string \<times> string) list" where
  "amend_bindings E F a p w =
     sort (fold (\<lambda>(k, v). AList.update k v)
       ([(''release_oid'', af_release_oid F), (''process_oid'', af_process_oid F), (''dirty_inventory_digest'', af_dirty F),
         (''predecessor_inventory_digest'', pr_inventory_digest p),
         (''predecessor_revision_bytes_digest'', pr_bytes_digest p), (''authorization_digest'', auth_digest E a),
         (''validation_graph_digest'', af_graph F)]
        @ map (\<lambda>ref. (''preimage:'' @ ref, af_preimage F ref)) (amend_refs w (au_successor a))
        @ map (\<lambda>(ref, digest). (''projection_preimage:'' @ ref, digest)) (af_projections F)
        @ (case au_objectives a of None \<Rightarrow> []
           | Some (q, r) \<Rightarrow> [(''predecessor_objective_digest'', canonical_digest (we_release E) (PDict [(''objective'', PStr q)])),
               (''replacement_objective_digest'', canonical_digest (we_release E) (PDict [(''objective'', PStr r)]))])) [])"

record amend_transaction =
  at_work :: work
  at_successor :: work
  at_plan :: amend_plan
  at_revision :: work_revision
  at_index :: pydict

text \<open>A moment of effect that is no text is read back as its text.\<close>

definition amended_work :: "work \<Rightarrow> amend_authorization \<Rightarrow> work_scope \<Rightarrow> work" where
  "amended_work w a s = w\<lparr>w_objective := (case au_objectives a of None \<Rightarrow> w_objective w | Some (_, q) \<Rightarrow> q),
     w_scope := s, w_updated := py_str (au_effective a)\<rparr>"

definition amend_arguments :: "work_env \<Rightarrow> amend_facts \<Rightarrow> amend_authorization \<Rightarrow> scope_delta \<Rightarrow> predecessor_receipt \<Rightarrow> work \<Rightarrow> amend_args" where
  "amend_arguments E F a d p w =
     \<lparr>aa_revision = au_successor a, aa_current = scope_union (w_scope w), aa_delta = d, aa_leaves = au_leaves a,
      aa_predecessor = Some p, aa_snapshot = af_source F, aa_cr = au_cr a, aa_work = au_work a,
      aa_authorization = auth_digest E a, aa_envelope = af_envelope F, aa_graph = af_graph F,
      aa_bindings = amend_bindings E F a p w, aa_invalidated = amend_invalidated w,
      aa_previous_objective = (case au_objectives a of None \<Rightarrow> [] | Some (q, _) \<Rightarrow> q),
      aa_objective = (case au_objectives a of None \<Rightarrow> [] | Some (_, q) \<Rightarrow> q)\<rparr>"

definition plan_scope_amend_from_root ::
    "work_env \<Rightarrow> amend_facts \<Rightarrow> amend_authorization \<Rightarrow> scope_delta \<Rightarrow> pydict list \<Rightarrow> work \<Rightarrow> amend_transaction result" where
  "plan_scope_amend_from_root E F a d receipts w =
     let_ok (guard (w_project w = af_project F \<and> w_kind w = ''cr'') ''scope amendment Work/CR identity mismatch'') (\<lambda>_.
     let_ok (guard (au_successor a \<noteq> au_predecessor a) ''scope amendment successor must differ from predecessor'') (\<lambda>_.
     let_ok (guard (case au_objectives a of None \<Rightarrow> True | Some (q, _) \<Rightarrow> q = w_objective w)
       ''scope amendment predecessor objective drifted'') (\<lambda>_.
     let_ok (admit_scope_amend_predecessor E a receipts) (\<lambda>p.
     let_ok (result_work_scope (w_scope w) d) (\<lambda>s.
     let_ok (guard (within_budget s (w_budget w)) ''scope amendment exceeds Work budget'') (\<lambda>_.
     let_ok (guard (\<forall>ref \<in> set (amend_refs w (au_successor a)). ref = work_ref w \<or> \<not> af_exists F ref)
       ''scope amendment successor targets must be create-only'') (\<lambda>_.
     let_ok (guard (af_passed F) ''scope amendment validation graph is blocked'') (\<lambda>_.
     let_ok (plan_scope_amend E (amend_arguments E F a d p w)) (\<lambda>plan.
     let_ok (apply_scope_amend plan (af_source F) (Some (amend_bindings E F a p w))) (\<lambda>out.
     case out of
       Amend_Ready _ (Some revision) \<Rightarrow>
         let_ok (rebuild_scope_amend_index E (revision_as_dict revision)) (\<lambda>index.
         Inr \<lparr>at_work = w, at_successor = amended_work w a s, at_plan = plan, at_revision = revision, at_index = index\<rparr>)
     | _ \<Rightarrow> Inl (ValueError ''scope amendment successor revision was not admitted'')))))))))))"

section \<open>The plan extends the scope\<close>

lemma sorted_set_unique: "canonical_texts xs \<Longrightarrow> canonical_texts ys \<Longrightarrow> set xs = set ys \<Longrightarrow> xs = ys"
  by (simp add: canonical_texts_iff sorted_distinct_set_unique)

lemma set_additions [simp]: "set (delta_additions d) = set (sd_stories d @ sd_leaves d @ sd_edges d @ sd_acceptance d)"
  by (simp add: delta_additions_def)

lemma validate_delta_Inr: "validate_scope_delta xs d ls = Inr ys \<longleftrightarrow>
    delta_additions d \<noteq> [] \<and> (\<forall>l \<in> set (sd_leaves d). l \<notin> set xs \<and> l \<in> set ls)
    \<and> length xs < length ys \<and> ys = sort (remdups (xs @ delta_additions d))"
  by (auto simp: validate_scope_delta_def Let_def read_simps list_ex_iff)

lemma card_union_less: "finite B \<Longrightarrow> card (set xs) < card (set xs \<union> B) \<longleftrightarrow> \<not> B \<subseteq> set xs"
proof -
  assume "finite B"
  then have "card (set xs) < card (set xs \<union> B) \<longleftrightarrow> set xs \<subset> set xs \<union> B"
    by (metis List.finite_set Un_upper1 finite_UnI less_irrefl psubsetI psubset_card_mono)
  then show ?thesis by auto
qed

lemma amended_length: "distinct xs \<Longrightarrow> length xs < length (sort (remdups (xs @ ys))) \<longleftrightarrow> \<not> set ys \<subseteq> set xs"
  using card_union_less [of "set ys" xs] by (simp add: length_remdups_card_conv distinct_card)

lemma plan_amend_Inr: "plan_scope_amend E a = Inr p \<longleftrightarrow>
    short_id_re (aa_revision a) \<and> digest_re (aa_snapshot a)
    \<and> (\<exists>r. aa_predecessor a = Some r \<and> pr_status r \<in> set terminal_statuses \<and> pr_inventory r \<noteq> [])
    \<and> (aa_previous_objective a = [] \<and> aa_objective a = [] \<or> objectives_ok (aa_previous_objective a) (aa_objective a))
    \<and> validate_scope_delta (aa_current a) (aa_delta a) (aa_leaves a) = Inr (ap_result p)
    \<and> ap_scope_digest p = ascii_digest E (PList (map PStr (ap_result p)))
    \<and> ap_digest p = ascii_digest E (PDict (sort_key fst (amend_identity a (ap_scope_digest p))))
    \<and> ap_revision p = aa_revision a \<and> ap_predecessor p = aa_predecessor a \<and> ap_snapshot p = aa_snapshot a
    \<and> ap_cr p = aa_cr a \<and> ap_work p = aa_work a \<and> ap_current p = sort (aa_current a)
    \<and> ap_authorization p = aa_authorization a \<and> ap_envelope p = aa_envelope a \<and> ap_graph p = aa_graph a
    \<and> ap_bindings p = sort (aa_bindings a) \<and> ap_invalidated p = sort (remdups (aa_invalidated a))
    \<and> ap_previous_objective p = aa_previous_objective a \<and> ap_objective p = aa_objective a"
  by (cases p) (auto simp: plan_scope_amend_def Let_def read_simps split: option.splits)

lemma delta_grows:
  assumes "distinct xs"
  shows "validate_scope_delta xs d ls = Inr ys \<longleftrightarrow> (\<forall>l \<in> set (sd_leaves d). l \<notin> set xs \<and> l \<in> set ls)
    \<and> \<not> set (delta_additions d) \<subseteq> set xs \<and> ys = sort (remdups (xs @ delta_additions d))"
  using amended_length [OF assms, of "delta_additions d"]
  unfolding validate_delta_Inr by (cases "delta_additions d = []") auto

definition amendable :: "amend_args \<Rightarrow> bool" where
  "amendable a = (short_id_re (aa_revision a) \<and> digest_re (aa_snapshot a)
     \<and> (case aa_predecessor a of None \<Rightarrow> False | Some r \<Rightarrow> pr_status r \<in> set terminal_statuses \<and> pr_inventory r \<noteq> [])
     \<and> (aa_previous_objective a = [] \<and> aa_objective a = [] \<or> objectives_ok (aa_previous_objective a) (aa_objective a))
     \<and> (\<forall>l \<in> set (sd_leaves (aa_delta a)). l \<notin> set (aa_current a) \<and> l \<in> set (aa_leaves a))
     \<and> \<not> set (delta_additions (aa_delta a)) \<subseteq> set (aa_current a))"

lemma amendable_iff: "amendable a \<longleftrightarrow> (short_id_re (aa_revision a) \<and> digest_re (aa_snapshot a)
     \<and> (\<exists>r. aa_predecessor a = Some r \<and> pr_status r \<in> set terminal_statuses \<and> pr_inventory r \<noteq> [])
     \<and> (aa_previous_objective a = [] \<and> aa_objective a = [] \<or> objectives_ok (aa_previous_objective a) (aa_objective a))
     \<and> (\<forall>l \<in> set (sd_leaves (aa_delta a)). l \<notin> set (aa_current a) \<and> l \<in> set (aa_leaves a))
     \<and> \<not> set (delta_additions (aa_delta a)) \<subseteq> set (aa_current a))"
  by (cases "aa_predecessor a") (auto simp: amendable_def)

lemma amendable_plan_exists:
  assumes "distinct (aa_current a)"
  shows "(\<exists>p. plan_scope_amend E a = Inr p) \<longleftrightarrow> amendable a"
proof
  assume a: "amendable a"
  then obtain r where r: "aa_predecessor a = Some r" "pr_status r \<in> set terminal_statuses" "pr_inventory r \<noteq> []"
    unfolding amendable_iff by blast
  have "validate_scope_delta (aa_current a) (aa_delta a) (aa_leaves a) = Inr (sort (remdups (aa_current a @ delta_additions (aa_delta a))))"
    using a unfolding delta_grows [OF assms] amendable_iff by blast
  then have "plan_scope_amend E a \<noteq> Inl e" for e
    using a r by (auto simp: plan_scope_amend_def guard_def Let_def amendable_iff)
  then show "\<exists>p. plan_scope_amend E a = Inr p" by (cases "plan_scope_amend E a") auto
qed (unfold plan_amend_Inr delta_grows [OF assms] amendable_iff, blast)

text \<open>When the scope of a change request can be amended. For a scope without repetitions a plan exists exactly when the
  revision and the snapshot are well-shaped, the predecessor is terminal with an inventory, the objectives are both absent or
  differ and are not blank, every added leaf is new and authorised, and something is added; then the planned scope is
  canonical, consists of the current scope and the additions, and is strictly larger.\<close>

theorem scope_amend_extends:
  assumes "distinct (aa_current a)"
  shows "((\<exists>p. plan_scope_amend E a = Inr p) \<longleftrightarrow> amendable a)
    \<and> (\<forall>p. plan_scope_amend E a = Inr p \<longrightarrow> canonical_texts (ap_result p)
      \<and> set (ap_result p) = set (aa_current a) \<union> set (delta_additions (aa_delta a))
      \<and> set (aa_current a) \<subset> set (ap_result p))"
  unfolding amendable_plan_exists [OF assms] unfolding plan_amend_Inr delta_grows [OF assms] by auto

section \<open>The plan is applied to the snapshot it was made for\<close>

lemma revision_keys: "dkeys (revision_as_dict r) = set (case rv_objectives r of None \<Rightarrow> revision_fields_v2 | Some _ \<Rightarrow> revision_fields_v3)"
  by (cases "rv_objectives r") (simp_all add: revision_as_dict_def revision_fields_v2_def revision_fields_v3_def dkeys_append split: prod.split)

lemma revision_dict:
  "dget (revision_as_dict r) ''schema_version'' = PInt (rv_schema r)" "dget (revision_as_dict r) ''cr_id'' = PStr (rv_cr r)"
  "dget (revision_as_dict r) ''work_id'' = PStr (rv_work r)" "dget (revision_as_dict r) ''revision_id'' = PStr (rv_revision r)"
  "dget (revision_as_dict r) ''predecessor_revision_id'' = PStr (rv_predecessor r)"
  "dget (revision_as_dict r) ''scope_digest'' = PStr (rv_scope_digest r)"
  "dget (revision_as_dict r) ''plan_digest'' = PStr (rv_plan_digest r)"
  "dget (revision_as_dict r) ''validation_graph_digest'' = PStr (rv_graph_digest r)"
  by (simp_all add: revision_as_dict_def)

lemma index_of_revision:
  assumes "rv_schema r = (case rv_objectives r of None \<Rightarrow> 2 | Some _ \<Rightarrow> 3)"
  shows "\<exists>i. rebuild_scope_amend_index E (revision_as_dict r) = Inr i \<and> dget i ''revision_id'' = PStr (rv_revision r)
    \<and> dget i ''predecessor_revision_id'' = PStr (rv_predecessor r) \<and> dget i ''scope_digest'' = PStr (rv_scope_digest r)
    \<and> dget i ''plan_digest'' = PStr (rv_plan_digest r)"
  using assms
  by (cases "rv_objectives r")
     (simp_all add: rebuild_scope_amend_index_def revision_keys revision_dict py_eq_def Let_def dget_append)

lemma planned_shape:
  assumes "plan_scope_amend E a = Inr p"
  shows "canonical_texts (ap_result p)" and "set (ap_current p) \<subset> set (ap_result p)"
    and "set (ap_result p) = set (aa_current a) \<union> set (delta_additions (aa_delta a))" and "ap_current p = sort (aa_current a)"
proof -
  note v = assms [unfolded plan_amend_Inr validate_delta_Inr]
  then have r: "ap_result p = sort (remdups (aa_current a @ delta_additions (aa_delta a)))"
    and l: "length (aa_current a) < length (ap_result p)" and c: "ap_current p = sort (aa_current a)" by blast+
  show "canonical_texts (ap_result p)" unfolding r by simp
  show set: "set (ap_result p) = set (aa_current a) \<union> set (delta_additions (aa_delta a))" unfolding r by simp
  have "card (set (aa_current a)) < card (set (ap_result p))"
    using card_length [of "aa_current a"] l unfolding r by (simp add: length_remdups_card_conv)
  then show "set (ap_current p) \<subset> set (ap_result p)" unfolding c set by auto
  show "ap_current p = sort (aa_current a)" by (rule c)
qed

lemma planned_fields:
  assumes "plan_scope_amend E a = Inr p"
  shows "ap_cr p = aa_cr a" "ap_work p = aa_work a" "ap_graph p = aa_graph a" "ap_authorization p = aa_authorization a"
    "ap_envelope p = aa_envelope a" "ap_predecessor p = aa_predecessor a" "ap_revision p = aa_revision a"
    "ap_snapshot p = aa_snapshot a" "ap_bindings p = sort (aa_bindings a)"
  using assms unfolding plan_amend_Inr by blast+

lemma id_not_Nil: "short_id_re s \<Longrightarrow> s \<noteq> []"
  by (cases s) (simp_all add: short_id_re_def ident_re_def)

lemma digest_not_Nil: "digest_re s \<Longrightarrow> s \<noteq> []"
  by (auto simp: hex_id_def)

lemma ascii_digest_re: "release_env_ok (we_release E) \<Longrightarrow> digest_re (ascii_digest E v)"
  by (simp add: release_env_ok_def ascii_digest_def)

lemma planned_revision:
  assumes "release_env_ok (we_release E)" and plan: "plan_scope_amend E a = Inr p"
    and "check_predecessor r = Inr ()" and "short_id_re (aa_cr a)" and "short_id_re (aa_work a)" and "digest_re (aa_graph a)"
  shows "(if rv_schema (plan_revision p r) = 3 then check_revision_v3 (plan_revision p r)
      else check_revision_v2 (plan_revision p r)) = Inr ()"
proof -
  note v = plan [unfolded plan_amend_Inr]
  have d: "digest_re (ap_scope_digest p)" "digest_re (ap_digest p)" using v ascii_digest_re [OF assms(1)] by metis+
  have i: "canonical_texts (ap_invalidated p)" using v by simp
  have shape: "revision_shape (plan_revision p r)"
    using v d i planned_shape [OF plan] assms(3-6)
    by (simp add: revision_shape_def plan_revision_def Let_def check_predecessor_def read_simps)
  have obj: "ap_previous_objective p \<noteq> [] \<or> ap_objective p \<noteq> [] \<Longrightarrow> objectives_ok (ap_previous_objective p) (ap_objective p)"
    using v by auto
  show ?thesis
  proof (cases "ap_previous_objective p \<noteq> [] \<or> ap_objective p \<noteq> []")
    case True
    then have "rv_schema (plan_revision p r) = 3" "rv_objectives (plan_revision p r) = Some (ap_previous_objective p, ap_objective p)"
      by (simp_all add: plan_revision_def)
    then show ?thesis using shape obj [OF True] by (simp add: check_revision_v3_def)
  next
    case False
    then have "rv_schema (plan_revision p r) = 2" by (simp add: plan_revision_def)
    then show ?thesis using shape by (simp add: check_revision_v2_def)
  qed
qed

definition fresh_for :: "amend_plan \<Rightarrow> string \<Rightarrow> (string \<times> string) list option \<Rightarrow> bool" where
  "fresh_for p snapshot bindings = (snapshot = ap_snapshot p
     \<and> (case bindings of None \<Rightarrow> True | Some bs \<Rightarrow> sort bs = ap_bindings p))"

lemma apply_amend_Inr:
  "apply_scope_amend p s bs = Inr (Amend_Ready i (Some v)) \<longleftrightarrow>
     fresh_for p s bs \<and> ap_cr p \<noteq> [] \<and> ap_work p \<noteq> [] \<and> ap_current p \<noteq> [] \<and> ap_result p \<noteq> [] \<and> ap_authorization p \<noteq> []
     \<and> ap_envelope p \<noteq> [] \<and> ap_graph p \<noteq> [] \<and> i = ap_digest p
     \<and> (\<exists>r. ap_predecessor p = Some r \<and> v = plan_revision p r
          \<and> (if rv_schema v = 3 then check_revision_v3 v else check_revision_v2 v) = Inr ())"
  by (auto simp: apply_scope_amend_def fresh_for_def Let_def read_simps split: option.splits)

lemma planned_ready:
  assumes "release_env_ok (we_release E)" and plan: "plan_scope_amend E a = Inr p" and r: "aa_predecessor a = Some r"
    and "check_predecessor r = Inr ()" and ids: "short_id_re (aa_cr a)" "short_id_re (aa_work a)" and graph: "digest_re (aa_graph a)"
    and bound: "aa_current a \<noteq> []" "aa_authorization a \<noteq> []" "aa_envelope a \<noteq> []" and "fresh_for p snapshot bindings"
  shows "apply_scope_amend p snapshot bindings = Inr (Amend_Ready (ap_digest p) (Some (plan_revision p r)))"
proof -
  have "ap_cr p \<noteq> []" "ap_work p \<noteq> []" "ap_graph p \<noteq> []" "ap_authorization p \<noteq> []" "ap_envelope p \<noteq> []"
    using planned_fields [OF plan] id_not_Nil [OF ids(1)] id_not_Nil [OF ids(2)] digest_not_Nil [OF graph] bound by simp_all
  moreover have "ap_current p \<noteq> []" using planned_shape(4) [OF plan] bound(1) by (metis set_sort set_empty)
  moreover have "ap_result p \<noteq> []" using planned_shape(2) [OF plan] by auto
  ultimately show ?thesis
    unfolding apply_amend_Inr using planned_revision [OF assms(1) plan assms(4) ids graph] planned_fields(6) [OF plan] r assms(11) by simp
qed

text \<open>A plan is applied to its own snapshot only, and then it always gives a revision. Let the plan be made for an admitted
  predecessor, for identifiers of a change request and a Work, and for a validated snapshot. If the snapshot or the bindings have
  changed, the answer is to plan again; otherwise a revision is built whose checks hold, that records the scope before and after,
  and whose derived index is accepted and names the revision, its predecessor and the digests.\<close>

theorem scope_amend_applies:
  assumes "release_env_ok (we_release E)" and plan: "plan_scope_amend E a = Inr p" and r: "aa_predecessor a = Some r"
    and "check_predecessor r = Inr ()" and ids: "short_id_re (aa_cr a)" "short_id_re (aa_work a)" and "digest_re (aa_graph a)"
    and bound: "aa_current a \<noteq> []" "aa_authorization a \<noteq> []" "aa_envelope a \<noteq> []"
  shows "(if fresh_for p snapshot bindings
      then apply_scope_amend p snapshot bindings = Inr (Amend_Ready (ap_digest p) (Some (plan_revision p r)))
      else apply_scope_amend p snapshot bindings = Inr (Replan_Required (ap_digest p)))
    \<and> set (rv_previous (plan_revision p r)) = set (aa_current a) \<and> rv_scope (plan_revision p r) = ap_result p
    \<and> set (rv_previous (plan_revision p r)) \<subset> set (rv_scope (plan_revision p r))
    \<and> (\<exists>i. rebuild_scope_amend_index E (revision_as_dict (plan_revision p r)) = Inr i
        \<and> dget i ''revision_id'' = PStr (aa_revision a) \<and> dget i ''predecessor_revision_id'' = PStr (pr_revision r)
        \<and> dget i ''scope_digest'' = PStr (ap_scope_digest p) \<and> dget i ''plan_digest'' = PStr (ap_digest p))"
proof -
  note ready = planned_ready [OF assms]
  have replan: "\<not> fresh_for p snapshot bindings \<Longrightarrow> apply_scope_amend p snapshot bindings = Inr (Replan_Required (ap_digest p))"
    by (auto simp: fresh_for_def apply_scope_amend_def split: option.splits)
  have s: "rv_previous (plan_revision p r) = ap_current p" "rv_scope (plan_revision p r) = ap_result p"
    by (simp_all add: plan_revision_def Let_def)
  have "rv_schema (plan_revision p r) = (case rv_objectives (plan_revision p r) of None \<Rightarrow> 2 | Some _ \<Rightarrow> 3)"
    by (simp add: plan_revision_def Let_def)
  note index = index_of_revision [OF this, of E]
  have f: "rv_revision (plan_revision p r) = aa_revision a" "rv_predecessor (plan_revision p r) = pr_revision r"
    "rv_scope_digest (plan_revision p r) = ap_scope_digest p" "rv_plan_digest (plan_revision p r) = ap_digest p"
    using planned_fields(7) [OF plan] by (simp_all add: plan_revision_def Let_def)
  show ?thesis using ready replan index planned_shape(2,4) [OF plan] unfolding s f by simp
qed

section \<open>The Work is amended\<close>

lemma result_scope_Inr: "result_work_scope s d = Inr t \<longleftrightarrow> scope_ok t \<and>
    t = \<lparr>version = version s + 1, allowed_reads = sort (remdups (allowed_reads s @ sd_stories d @ sd_edges d @ sd_acceptance d)),
      allowed_writes = sort (remdups (allowed_writes s @ sd_leaves d)), required_checks = required_checks s\<rparr>"
  by (auto simp: result_work_scope_def assert_additive_only_def scope_ok_def Let_def read_simps)

lemma scope_union_canonical: "canonical_texts (scope_union s)"
  by (simp add: scope_union_def)

lemma amended_fields [simp]:
  "w_kind (amended_work w a s) = w_kind w" "w_id (amended_work w a s) = w_id w" "w_scope (amended_work w a s) = s"
  "w_unit (amended_work w a s) = w_unit w" "w_budget (amended_work w a s) = w_budget w"
  by (simp_all add: amended_work_def)

lemma amended_work_ok:
  assumes "work_ok w" and "scope_ok s" and "case au_objectives a of None \<Rightarrow> True | Some (_, q) \<Rightarrow> py_strip q \<noteq> []"
  shows "work_ok (amended_work w a s)"
proof -
  let ?v = "amended_work w a s"
  have [simp]: "work_level ?v = work_level w" "owned_ref ?v = owned_ref w" "binding_record ?v = binding_record w"
    by (auto simp: work_level_def owned_ref_def binding_record_def amended_work_def)
  have "stored_profile_ok ?v = stored_profile_ok w" by (simp add: stored_profile_ok_def) (simp add: amended_work_def)
  moreover have "contents_ok ?v"
    using assms(1,2) by (cases "w_unit w") (simp_all add: contents_ok_def work_ok_def, simp_all add: amended_work_def)
  moreover have "identity_ok ?v"
    using assms(1,3) by (simp add: identity_ok_def work_ok_def) (simp add: amended_work_def split: option.splits prod.splits)
  ultimately show ?thesis using assms(1) by (simp add: work_ok_def)
qed

lemma plan_root_Inr:
  assumes "plan_scope_amend_from_root E F a d receipts w = Inr t"
  shows "w_kind w = ''cr''" and "at_work t = w" and "\<exists>p. admit_scope_amend_predecessor E a receipts = Inr p
        \<and> plan_scope_amend E (amend_arguments E F a d p w) = Inr (at_plan t) \<and> at_revision t = plan_revision (at_plan t) p
        \<and> (\<exists>i. apply_scope_amend (at_plan t) (af_source F) (Some (amend_bindings E F a p w)) = Inr (Amend_Ready i (Some (at_revision t))))
        \<and> rebuild_scope_amend_index E (revision_as_dict (at_revision t)) = Inr (at_index t)"
    and "\<exists>s. result_work_scope (w_scope w) d = Inr s \<and> within_budget s (w_budget w) \<and> at_successor t = amended_work w a s"
    and "case au_objectives a of None \<Rightarrow> True | Some (q, _) \<Rightarrow> q = w_objective w" and "au_successor a \<noteq> au_predecessor a"
proof -
  note u = assms [unfolded plan_scope_amend_from_root_def read_simps]
  then obtain p s plan out where p: "admit_scope_amend_predecessor E a receipts = Inr p"
    and s: "result_work_scope (w_scope w) d = Inr s" "within_budget s (w_budget w)"
    and plan: "plan_scope_amend E (amend_arguments E F a d p w) = Inr plan"
    and out: "apply_scope_amend plan (af_source F) (Some (amend_bindings E F a p w)) = Inr out"
    and t: "(case out of Amend_Ready _ (Some revision) \<Rightarrow>
         let_ok (rebuild_scope_amend_index E (revision_as_dict revision)) (\<lambda>index.
         Inr \<lparr>at_work = w, at_successor = amended_work w a s, at_plan = plan, at_revision = revision, at_index = index\<rparr>)
       | _ \<Rightarrow> Inl (ValueError ''scope amendment successor revision was not admitted'')) = Inr t" by blast
  obtain i r where i: "out = Amend_Ready i (Some r)" using t by (auto split: amend_outcome.splits option.splits)
  have "aa_predecessor (amend_arguments E F a d p w) = Some p" by (simp add: amend_arguments_def)
  then have r: "r = plan_revision plan p"
    using out unfolding i apply_amend_Inr planned_fields(6) [OF plan] by auto
  have t': "rebuild_scope_amend_index E (revision_as_dict r) = Inr (at_index t)" "at_work t = w" "at_plan t = plan"
    "at_successor t = amended_work w a s" "at_revision t = r"
    using t unfolding i by (auto simp: read_simps)
  show "w_kind w = ''cr''" "case au_objectives a of None \<Rightarrow> True | Some (q, _) \<Rightarrow> q = w_objective w"
    "au_successor a \<noteq> au_predecessor a" using u by blast+
  show "at_work t = w" by (rule t'(2))
  show "\<exists>p. admit_scope_amend_predecessor E a receipts = Inr p \<and> plan_scope_amend E (amend_arguments E F a d p w) = Inr (at_plan t)
      \<and> at_revision t = plan_revision (at_plan t) p
      \<and> (\<exists>i. apply_scope_amend (at_plan t) (af_source F) (Some (amend_bindings E F a p w)) = Inr (Amend_Ready i (Some (at_revision t))))
      \<and> rebuild_scope_amend_index E (revision_as_dict (at_revision t)) = Inr (at_index t)"
    using p plan t' r out i by auto
  show "\<exists>s. result_work_scope (w_scope w) d = Inr s \<and> within_budget s (w_budget w) \<and> at_successor t = amended_work w a s"
    using s t' by blast
qed

lemma amended_union:
  assumes "result_work_scope s d = Inr t"
  shows "set (scope_union t) = set (scope_union s) \<union> set (delta_additions d)"
  using assms unfolding result_scope_Inr by (auto simp: scope_union_def)

text \<open>The plan of the Work describes the amendment of its scope.\<close>

lemma amended_plan:
  assumes "plan_scope_amend_from_root E F a d receipts w = Inr t"
  shows "ap_current (at_plan t) = scope_union (w_scope w)" and "ap_result (at_plan t) = scope_union (w_scope (at_successor t))"
    and "set (scope_union (w_scope w)) \<subset> set (scope_union (w_scope (at_successor t)))"
    and "rv_previous (at_revision t) = scope_union (w_scope w)" and "rv_scope (at_revision t) = scope_union (w_scope (at_successor t))"
    and "\<forall>l \<in> set (sd_leaves d). l \<notin> set (scope_union (w_scope w)) \<and> l \<in> set (au_leaves a)"
proof -
  obtain p where plan: "plan_scope_amend E (amend_arguments E F a d p w) = Inr (at_plan t)"
    and r: "at_revision t = plan_revision (at_plan t) p" using plan_root_Inr(3) [OF assms] by blast
  obtain s where s: "result_work_scope (w_scope w) d = Inr s" "at_successor t = amended_work w a s"
    using plan_root_Inr(4) [OF assms] by blast
  have f: "aa_current (amend_arguments E F a d p w) = scope_union (w_scope w)" "aa_delta (amend_arguments E F a d p w) = d"
    "aa_leaves (amend_arguments E F a d p w) = au_leaves a" by (simp_all add: amend_arguments_def)
  note shape = planned_shape [OF plan, unfolded f]
  show c: "ap_current (at_plan t) = scope_union (w_scope w)"
    using shape(4) scope_union_canonical [of "w_scope w"] by (simp add: canonical_texts_iff sorted_sort_id)
  have sc: "w_scope (at_successor t) = s" unfolding s(2) by (simp add: amended_work_def)
  show e: "ap_result (at_plan t) = scope_union (w_scope (at_successor t))"
    by (rule sorted_set_unique [OF shape(1) scope_union_canonical]) (simp only: sc shape(3) amended_union [OF s(1)])
  show "set (scope_union (w_scope w)) \<subset> set (scope_union (w_scope (at_successor t)))" using shape(2) unfolding c e .
  show "rv_previous (at_revision t) = scope_union (w_scope w)" "rv_scope (at_revision t) = scope_union (w_scope (at_successor t))"
    unfolding r plan_revision_def Let_def by (simp_all add: c e)
  have "validate_scope_delta (scope_union (w_scope w)) d (au_leaves a) = Inr (ap_result (at_plan t))"
    using plan [unfolded plan_amend_Inr f] by blast
  then show "\<forall>l \<in> set (sd_leaves d). l \<notin> set (scope_union (w_scope w)) \<and> l \<in> set (au_leaves a)"
    unfolding validate_delta_Inr by blast
qed

lemma amended_ok:
  assumes "work_ok w" and t: "plan_scope_amend_from_root E F a d receipts w = Inr t"
  shows "work_ok (at_successor t)"
proof -
  obtain p where plan: "plan_scope_amend E (amend_arguments E F a d p w) = Inr (at_plan t)" using plan_root_Inr(3) [OF t] by blast
  obtain s where s: "result_work_scope (w_scope w) d = Inr s" "within_budget s (w_budget w)" "at_successor t = amended_work w a s"
    using plan_root_Inr(4) [OF t] by blast
  have "case au_objectives a of None \<Rightarrow> True | Some (_, q) \<Rightarrow> py_strip q \<noteq> []"
  proof (cases "au_objectives a")
    case (Some o')
    have "py_strip (w_objective w) \<noteq> []" using assms(1) by (simp add: work_ok_def identity_ok_def)
    moreover have "py_strip [] = []" by code_simp
    ultimately have "w_objective w \<noteq> []" by metis
    then show ?thesis using Some plan [unfolded plan_amend_Inr] plan_root_Inr(5) [OF t]
      by (auto simp: amend_arguments_def objectives_ok_def)
  qed simp
  then show ?thesis using amended_work_ok assms(1) s(1) unfolding s(3) result_scope_Inr by blast
qed

text \<open>C38: An amendment keeps the Work well-formed and refines the plan. Let the amendment of a well-formed Work be planned.
  Then it is a change request, the successor is well-formed and reads back from its document, its scope has the next version and
  fits the budget, and the scopes that the plan and the revision record before and after are those of the Work and of its
  successor, the latter strictly larger; the checks and everything else but objective, scope and time of update are unchanged.\<close>

theorem amendment_refines_plan:
  assumes "work_ok w" and t: "plan_scope_amend_from_root E F a d receipts w = Inr t"
  shows "w_kind w = ''cr'' \<and> work_ok (at_successor t)
    \<and> work_from_payload E (work_as_dict E (at_successor t)) = Inr (at_successor t)
    \<and> version (w_scope (at_successor t)) = version (w_scope w) + 1 \<and> within_budget (w_scope (at_successor t)) (w_budget w)
    \<and> ap_current (at_plan t) = scope_union (w_scope w) \<and> ap_result (at_plan t) = scope_union (w_scope (at_successor t))
    \<and> rv_previous (at_revision t) = scope_union (w_scope w) \<and> rv_scope (at_revision t) = scope_union (w_scope (at_successor t))
    \<and> set (scope_union (w_scope w)) \<subset> set (scope_union (w_scope (at_successor t)))
    \<and> required_checks (w_scope (at_successor t)) = required_checks (w_scope w)
    \<and> at_successor t = w\<lparr>w_objective := w_objective (at_successor t), w_scope := w_scope (at_successor t),
        w_updated := w_updated (at_successor t)\<rparr>"
proof -
  obtain s where s: "result_work_scope (w_scope w) d = Inr s" "within_budget s (w_budget w)" "at_successor t = amended_work w a s"
    using plan_root_Inr(4) [OF t] by blast
  note ok = amended_ok [OF assms]
  have v: "version s = version (w_scope w) + 1" "required_checks s = required_checks (w_scope w)"
    using s(1) unfolding result_scope_Inr by simp_all
  have sc: "w_scope (at_successor t) = s" "at_successor t = w\<lparr>w_objective := w_objective (at_successor t),
      w_scope := w_scope (at_successor t), w_updated := w_updated (at_successor t)\<rparr>"
    unfolding s(3) by (simp_all add: amended_work_def)
  show ?thesis
    using plan_root_Inr(1) [OF t] ok work_roundtrip [OF ok] amended_plan [OF t] sc v s(2) by (simp add: sc(1))
qed

text \<open>An admitted predecessor satisfies its own checks and is bound to the authorization.\<close>

lemma admitted:
  assumes "admit_scope_amend_predecessor E a receipts = Inr p"
  shows "check_predecessor p = Inr ()" and "pr_cr p = au_cr a" and "pr_revision p = au_predecessor a"
    and "pr_status p \<in> set terminal_statuses" and "pr_inventory p \<noteq> []"
proof -
  obtain e d where d: "load_terminal_predecessor_inventory E receipts (au_cr a) (au_predecessor a) e (au_bytes_digest a) = Inr d"
    and p: "pr_cr p = the_str (dget d ''cr_id'')" "pr_revision p = the_str (dget d ''predecessor_revision_id'')"
      "check_predecessor p = Inr ()"
    using assms unfolding admit_scope_amend_predecessor_def Let_def read_simps by auto
  have "filter (receipt_of (au_cr a) (au_predecessor a)) receipts = [d]"
    using d unfolding load_terminal_predecessor_inventory_def by (auto simp: read_simps Let_def split: list.splits)
  then have "d \<in> set (filter (receipt_of (au_cr a) (au_predecessor a)) receipts)" by simp
  then have "dget d ''cr_id'' = PStr (au_cr a)" "dget d ''predecessor_revision_id'' = PStr (au_predecessor a)"
    by (simp_all add: receipt_of_def)
  then show "check_predecessor p = Inr ()" "pr_cr p = au_cr a" "pr_revision p = au_predecessor a" using p by simp_all
  then show "pr_status p \<in> set terminal_statuses" "pr_inventory p \<noteq> []" by (simp_all add: check_predecessor_def read_simps)
qed

definition objectives_fit :: "amend_authorization \<Rightarrow> work \<Rightarrow> bool" where
  "objectives_fit a w = (case au_objectives a of None \<Rightarrow> True | Some (q, r) \<Rightarrow> q = w_objective w \<and> objectives_ok q r)"

lemma amend_args_sel:
  "aa_current (amend_arguments E F a d p w) = scope_union (w_scope w)" "aa_delta (amend_arguments E F a d p w) = d"
  "aa_leaves (amend_arguments E F a d p w) = au_leaves a" "aa_predecessor (amend_arguments E F a d p w) = Some p"
  "aa_revision (amend_arguments E F a d p w) = au_successor a" "aa_snapshot (amend_arguments E F a d p w) = af_source F"
  "aa_cr (amend_arguments E F a d p w) = au_cr a" "aa_work (amend_arguments E F a d p w) = au_work a"
  "aa_graph (amend_arguments E F a d p w) = af_graph F" "aa_envelope (amend_arguments E F a d p w) = af_envelope F"
  "aa_authorization (amend_arguments E F a d p w) = auth_digest E a"
  "aa_bindings (amend_arguments E F a d p w) = amend_bindings E F a p w"
  "aa_previous_objective (amend_arguments E F a d p w) = (case au_objectives a of None \<Rightarrow> [] | Some (q, _) \<Rightarrow> q)"
  "aa_objective (amend_arguments E F a d p w) = (case au_objectives a of None \<Rightarrow> [] | Some (_, q) \<Rightarrow> q)"
  by (simp_all add: amend_arguments_def)

lemma amendment_exists:
  assumes env: "release_env_ok (we_release E)" and facts: "digest_re (af_graph F)" "af_envelope F \<noteq> []" "af_passed F"
    and w: "w_project w = af_project F" "w_kind w = ''cr''" "scope_union (w_scope w) \<noteq> []"
    and a: "au_successor a \<noteq> au_predecessor a" "case au_objectives a of None \<Rightarrow> True | Some (q, _) \<Rightarrow> q = w_objective w"
      "short_id_re (au_work a)"
    and p: "admit_scope_amend_predecessor E a receipts = Inr p"
    and s: "result_work_scope (w_scope w) d = Inr s" "within_budget s (w_budget w)"
    and new: "\<forall>ref \<in> set (amend_refs w (au_successor a)). ref = work_ref w \<or> \<not> af_exists F ref"
    and q: "plan_scope_amend E (amend_arguments E F a d p w) = Inr q"
  shows "\<exists>t. plan_scope_amend_from_root E F a d receipts w = Inr t"
proof -
  have cr: "short_id_re (au_cr a)" using admitted(1,2) [OF p] by (simp add: check_predecessor_def read_simps)
  have auth: "auth_digest E a \<noteq> []" using env digest_not_Nil by (simp add: auth_digest_def canonical_digest_def release_env_ok_def)
  have fresh: "fresh_for q (af_source F) (Some (amend_bindings E F a p w))"
    using planned_fields(8,9) [OF q] by (simp add: fresh_for_def amend_args_sel)
  have out: "apply_scope_amend q (af_source F) (Some (amend_bindings E F a p w)) = Inr (Amend_Ready (ap_digest q) (Some (plan_revision q p)))"
    by (rule planned_ready [OF env q amend_args_sel(4) admitted(1) [OF p] _ _ _ _ _ _ fresh])
       (simp_all only: amend_args_sel cr auth facts w a not_False_eq_True)
  have "rv_schema (plan_revision q p) = (case rv_objectives (plan_revision q p) of None \<Rightarrow> 2 | Some _ \<Rightarrow> 3)"
    by (simp add: plan_revision_def Let_def)
  from index_of_revision [OF this, of E] obtain i where
    "rebuild_scope_amend_index E (revision_as_dict (plan_revision q p)) = Inr i" by blast
  then show ?thesis unfolding plan_scope_amend_from_root_def using out p s q facts w a new by (simp add: guard_def)
qed

lemma objectives_fit_iff:
  assumes "work_ok w"
  shows "(case au_objectives a of None \<Rightarrow> True | Some (q, _) \<Rightarrow> q = w_objective w)
      \<and> (aa_previous_objective (amend_arguments E F a d p w) = [] \<and> aa_objective (amend_arguments E F a d p w) = []
         \<or> objectives_ok (aa_previous_objective (amend_arguments E F a d p w)) (aa_objective (amend_arguments E F a d p w)))
      \<longleftrightarrow> objectives_fit a w"
proof -
  have "py_strip (w_objective w) \<noteq> []" using assms by (simp add: work_ok_def identity_ok_def)
  moreover have "py_strip [] = []" by code_simp
  ultimately have "w_objective w \<noteq> []" by metis
  then show ?thesis by (auto simp: objectives_fit_def amend_arguments_def split: option.splits)
qed

lemma root_plan_exists:
  "(\<exists>q. plan_scope_amend E (amend_arguments E F a d p w) = Inr q) \<longleftrightarrow> amendable (amend_arguments E F a d p w)"
  using scope_union_canonical [of "w_scope w"]
  by (intro amendable_plan_exists) (simp only: amend_args_sel canonical_texts_iff)

lemma planned_identity:
  assumes t: "plan_scope_amend_from_root E F a d receipts w = Inr t"
  shows "scope_union (w_scope w) \<noteq> []" and "short_id_re (au_work a)"
proof -
  obtain p i where plan: "plan_scope_amend E (amend_arguments E F a d p w) = Inr (at_plan t)"
    and r: "at_revision t = plan_revision (at_plan t) p"
    and out: "apply_scope_amend (at_plan t) (af_source F) (Some (amend_bindings E F a p w)) = Inr (Amend_Ready i (Some (at_revision t)))"
    using plan_root_Inr(3) [OF t] by blast
  define v where "v = plan_revision (at_plan t) p"
  have v: "ap_current (at_plan t) \<noteq> []" "(if rv_schema v = 3 then check_revision_v3 v else check_revision_v2 v) = Inr ()"
    using out unfolding apply_amend_Inr r v_def by auto
  show "scope_union (w_scope w) \<noteq> []" using v(1) planned_shape(4) [OF plan, unfolded amend_args_sel] by auto
  have "revision_shape v" using v(2) by (auto simp: check_revision_v3_def check_revision_v2_def read_simps split: if_splits)
  then show "short_id_re (au_work a)"
    unfolding v_def revision_shape_def plan_revision_def Let_def using planned_fields(2) [OF plan, unfolded amend_args_sel] by simp
qed

text \<open>When an amendment of a Work is planned. In the terms of the Work, the authorization and what was observed: it is a
  change request of this project with a non-empty scope, the predecessor is admitted and differs from the successor, the
  objective to replace is the current one, the enlarged scope is a scope and within the budget, the targets are new, the
  validation passed, the identifiers are short enough, the added leaves are new and authorised, and something is added.\<close>

theorem amendment_planned_iff:
  assumes env: "release_env_ok (we_release E)" and "work_ok w"
    and facts: "digest_re (af_graph F)" "digest_re (af_source F)" "af_envelope F \<noteq> []"
  shows "(\<exists>t. plan_scope_amend_from_root E F a d receipts w = Inr t) \<longleftrightarrow>
      w_project w = af_project F \<and> w_kind w = ''cr'' \<and> scope_union (w_scope w) \<noteq> []
      \<and> au_successor a \<noteq> au_predecessor a \<and> objectives_fit a w \<and> (\<exists>p. admit_scope_amend_predecessor E a receipts = Inr p)
      \<and> (\<exists>s. result_work_scope (w_scope w) d = Inr s \<and> within_budget s (w_budget w))
      \<and> (\<forall>ref \<in> set (amend_refs w (au_successor a)). ref = work_ref w \<or> \<not> af_exists F ref) \<and> af_passed F
      \<and> short_id_re (au_successor a) \<and> short_id_re (au_work a)
      \<and> (\<forall>l \<in> set (sd_leaves d). l \<notin> set (scope_union (w_scope w)) \<and> l \<in> set (au_leaves a))
      \<and> \<not> set (delta_additions d) \<subseteq> set (scope_union (w_scope w))"
    (is "?planned \<longleftrightarrow> ?conditions")
proof
  assume ?planned
  then obtain t where t: "plan_scope_amend_from_root E F a d receipts w = Inr t" ..
  obtain p where p: "admit_scope_amend_predecessor E a receipts = Inr p"
    and plan: "plan_scope_amend E (amend_arguments E F a d p w) = Inr (at_plan t)"
    using plan_root_Inr(3) [OF t] by blast
  note u = t [unfolded plan_scope_amend_from_root_def read_simps]
  have am: "amendable (amend_arguments E F a d p w)" using plan root_plan_exists by blast
  then have "objectives_fit a w"
    using objectives_fit_iff [OF assms(2), of a E F d p] plan_root_Inr(5) [OF t] unfolding amendable_iff by blast
  moreover have "\<exists>s. result_work_scope (w_scope w) d = Inr s \<and> within_budget s (w_budget w)"
    using plan_root_Inr(4) [OF t] by blast
  ultimately show ?conditions
    using p am [unfolded amendable_iff amend_args_sel] u planned_identity [OF t] by blast
next
  assume c: ?conditions
  then obtain p s where p: "admit_scope_amend_predecessor E a receipts = Inr p"
    and s: "result_work_scope (w_scope w) d = Inr s" "within_budget s (w_budget w)" by blast
  note fit = objectives_fit_iff [OF assms(2), of a E F d p]
  have "short_id_re (au_successor a)" "\<forall>l \<in> set (sd_leaves d). l \<notin> set (scope_union (w_scope w)) \<and> l \<in> set (au_leaves a)"
    "\<not> set (delta_additions d) \<subseteq> set (scope_union (w_scope w))" "objectives_fit a w" using c by - (elim conjE, assumption)+
  then have "amendable (amend_arguments E F a d p w)"
    using fit admitted(4,5) [OF p] facts(2) unfolding amendable_def amend_args_sel(1-10) option.case by blast
  then obtain q where q: "plan_scope_amend E (amend_arguments E F a d p w) = Inr q" using root_plan_exists by blast
  have "case au_objectives a of None \<Rightarrow> True | Some (q, _) \<Rightarrow> q = w_objective w" using c fit by blast
  moreover have "af_passed F" "w_project w = af_project F" "w_kind w = ''cr''" "scope_union (w_scope w) \<noteq> []"
    "au_successor a \<noteq> au_predecessor a" "short_id_re (au_work a)"
    "\<forall>ref \<in> set (amend_refs w (au_successor a)). ref = work_ref w \<or> \<not> af_exists F ref" using c by - (elim conjE, assumption)+
  ultimately show ?planned using amendment_exists [OF env facts(1,3) _ _ _ _ _ _ _ p s _ q] by simp
qed

section \<open>Permissions\<close>

definition permits :: "work_scope \<Rightarrow> string \<Rightarrow> string \<Rightarrow> bool" where
  "permits s op req = (case check_scope s op req of Inl _ \<Rightarrow> False | Inr d \<Rightarrow> scope_allowed d)"

lemma permits_iff: "permits s op req \<longleftrightarrow>
    (if op \<in> {''read'', ''write''} then \<exists>n. normalize_requested_path req = Inr n \<and> (\<exists>rule \<in> set (path_rules s op). matches rule n)
     else op = ''check'' \<and> check_id_re req \<and> req \<in> set (required_checks s))"
proof (cases "op \<in> {''read'', ''write''}")
  case True
  then show ?thesis unfolding permits_def check_scope_path [OF True] by (auto simp: scan_rules_allowed split: sum.splits)
next
  case False
  then show ?thesis by (auto simp: permits_def check_scope_def scan_rules_allowed)
qed

lemma plain_rule: "is_safe_owned_leaf l \<or> scope_value_re l \<Longrightarrow> matches l n \<longleftrightarrow> n = l"
proof -
  assume l: "is_safe_owned_leaf l \<or> scope_value_re l"
  have star: "\<not> ascii_alnum CHR ''*''" "CHR ''*'' \<notin> set ''._/-''" by code_simp+
  have "CHR ''*'' \<notin> set l"
    using l star by (cases l) (auto simp: is_safe_owned_leaf_def owned_leaf_re_def scope_value_re_def list_all_iff)
  moreover have "suffix dir_pattern l \<Longrightarrow> CHR ''*'' \<in> set l" using set_mono_suffix [of dir_pattern l] by (auto simp: dir_pattern_def)
  ultimately show ?thesis by (auto simp: matches_def)
qed

lemma delta_rules: "check_scope_delta d = Inr () \<Longrightarrow> (\<forall>l \<in> set (sd_leaves d). is_safe_owned_leaf l)
    \<and> (\<forall>v \<in> set (sd_stories d @ sd_edges d @ sd_acceptance d). scope_value_re v)"
  by (auto simp: check_scope_delta_def read_simps list_all_iff)

lemma result_scope_permits:
  assumes "result_work_scope s d = Inr t" and "check_scope_delta d = Inr ()"
  shows "permits t op req \<longleftrightarrow> permits s op req
    \<or> op = ''write'' \<and> (\<exists>l \<in> set (sd_leaves d). normalize_requested_path req = Inr l)
    \<or> op = ''read'' \<and> (\<exists>v \<in> set (sd_stories d @ sd_edges d @ sd_acceptance d). normalize_requested_path req = Inr v)"
proof -
  have t: "allowed_writes t = sort (remdups (allowed_writes s @ sd_leaves d))"
    "allowed_reads t = sort (remdups (allowed_reads s @ sd_stories d @ sd_edges d @ sd_acceptance d))"
    "required_checks t = required_checks s"
    using assms(1) unfolding result_scope_Inr by simp_all
  note plain = delta_rules [OF assms(2)]
  have l: "matches rule n \<longleftrightarrow> n = rule" if "rule \<in> set (sd_leaves d)" for rule n using plain that by (simp add: plain_rule)
  have r: "matches rule n \<longleftrightarrow> n = rule" if "rule \<in> set (sd_stories d @ sd_edges d @ sd_acceptance d)" for rule n
    using plain that plain_rule [of rule n] by blast
  have m: "(\<exists>rule \<in> set (sd_leaves d). matches rule n) \<longleftrightarrow> n \<in> set (sd_leaves d)"
    "(\<exists>rule \<in> set (sd_stories d @ sd_edges d @ sd_acceptance d). matches rule n) \<longleftrightarrow> n \<in> set (sd_stories d @ sd_edges d @ sd_acceptance d)" for n
    using l r by auto
  consider "op = ''write''" | "op = ''read''" | "op \<notin> {''read'', ''write''}" by blast
  then show ?thesis
  proof cases
    case 1
    then have "(\<exists>rule \<in> set (path_rules t op). matches rule n) \<longleftrightarrow> (\<exists>rule \<in> set (path_rules s op). matches rule n) \<or> n \<in> set (sd_leaves d)" for n
      by (simp add: path_rules_def t bex_Un m)
    then show ?thesis unfolding permits_iff using 1 by auto
  next
    case 2
    then have "(\<exists>rule \<in> set (path_rules t op). matches rule n) \<longleftrightarrow> (\<exists>rule \<in> set (path_rules s op). matches rule n)
        \<or> n \<in> set (sd_stories d @ sd_edges d @ sd_acceptance d)" for n
      unfolding m(2) [symmetric] by (auto simp: path_rules_def t)
    then show ?thesis unfolding permits_iff using 2 by auto
  next
    case 3
    then show ?thesis unfolding permits_iff by (auto simp: t)
  qed
qed

text \<open>C34: An amendment grants what was authorised and revokes nothing. Whatever the Work permitted before, its successor permits;
  a write that is newly permitted is to one of the added leaves, itself listed in the authorization and new to the scope; a newly
  permitted read is of one added reference; checks are as before.\<close>

theorem amendment_permissions:
  assumes "check_scope_delta d = Inr ()" and t: "plan_scope_amend_from_root E F a d receipts w = Inr t"
  shows "(permits (w_scope w) op req \<longrightarrow> permits (w_scope (at_successor t)) op req)
    \<and> (permits (w_scope (at_successor t)) op req \<and> \<not> permits (w_scope w) op req \<longrightarrow>
        op = ''write'' \<and> (\<exists>l \<in> set (au_leaves a). normalize_requested_path req = Inr l
            \<and> l \<in> set (sd_leaves d) \<and> l \<notin> set (scope_union (w_scope w)))
        \<or> op = ''read'' \<and> (\<exists>v \<in> set (delta_additions d). normalize_requested_path req = Inr v))"
proof -
  obtain s where s: "result_work_scope (w_scope w) d = Inr s" "at_successor t = amended_work w a s"
    using plan_root_Inr(4) [OF t] by blast
  have sc: "w_scope (at_successor t) = s" unfolding s(2) by simp
  show ?thesis
    unfolding sc result_scope_permits [OF s(1) assms(1)] set_additions using amended_plan(6) [OF t] by (auto simp only: set_append Un_iff)
qed

section \<open>The life of a Work that is amended\<close>

inductive amend_step :: "work_env \<Rightarrow> work \<Rightarrow> work \<Rightarrow> bool" for E where
  amend: "check_scope_delta d = Inr () \<Longrightarrow> plan_scope_amend_from_root E F a d receipts w = Inr t \<Longrightarrow> amend_step E w (at_successor t)"

definition scope_size :: "work \<Rightarrow> nat" where
  "scope_size w = card (set (scope_union (w_scope w)))"

lemma scope_size_bound: "within_budget s l \<Longrightarrow> int (card (set (scope_union s))) \<le> bl_reads l + bl_writes l + bl_check_groups l"
proof -
  assume b: "within_budget s l"
  have "card (set (scope_union s)) \<le> length (allowed_reads s @ allowed_writes s @ required_checks s)"
    unfolding scope_union_def by (simp only: set_sort set_remdups card_length)
  then show ?thesis using b by (simp add: within_budget_def)
qed

lemma amend_step_facts:
  assumes "amend_step E w v" and "work_ok w"
  shows "work_ok v \<and> w_status v = w_status w \<and> w_budget v = w_budget w \<and> version (w_scope v) = version (w_scope w) + 1
    \<and> scope_size w < scope_size v \<and> within_budget (w_scope v) (w_budget v)
    \<and> (permits (w_scope w) op req \<longrightarrow> permits (w_scope v) op req)"
  using assms(1)
proof cases
  case (amend d F a receipts t)
  have less: "set (scope_union (w_scope w)) \<subset> set (scope_union (w_scope v))" unfolding amend(1) by (rule amended_plan(3) [OF amend(3)])
  obtain s where s: "result_work_scope (w_scope w) d = Inr s" "within_budget s (w_budget w)" "v = amended_work w a s"
    using plan_root_Inr(4) [OF amend(3)] amend(1) by blast
  have keep: "permits (w_scope w) op req \<longrightarrow> permits (w_scope v) op req"
    using result_scope_permits [OF s(1) amend(2)] unfolding s(3) by simp
  have "w_status v = w_status w" "w_budget v = w_budget w" "w_scope v = s" unfolding s(3) by (simp_all add: amended_work_def)
  moreover have "work_ok v" using amended_ok [OF assms(2) amend(3)] amend(1) by simp
  moreover have "version s = version (w_scope w) + 1" using s(1) unfolding result_scope_Inr by simp
  ultimately show ?thesis using keep s(2) psubset_card_mono [OF _ less] by (simp add: scope_size_def)
qed

text \<open>C35: What holds along any life of a Work with transitions and amendments in any order. The Work stays well-formed and
  reloadable and its pipeline position never falls; whatever was permitted stays permitted; the version of the scope counts the
  amendments, each of which adds at least one entry within the budget, so their number is bounded by the budget.\<close>

theorem amended_life_invariant:
  assumes "work_ok w" and "(sup (work_step E) (amend_step E))\<^sup>*\<^sup>* w v"
  shows "work_ok v \<and> work_from_payload E (work_as_dict E v) = Inr v \<and> status_rank (w_status w) \<le> status_rank (w_status v)
    \<and> (permits (w_scope w) op req \<longrightarrow> permits (w_scope v) op req)
    \<and> version (w_scope w) \<le> version (w_scope v)
    \<and> int (scope_size w) + (version (w_scope v) - version (w_scope w)) \<le> int (scope_size v)
    \<and> (version (w_scope v) \<noteq> version (w_scope w) \<longrightarrow> version (w_scope v) - version (w_scope w)
         \<le> bl_reads (w_budget w) + bl_writes (w_budget w) + bl_check_groups (w_budget w) - int (scope_size w))"
proof -
  have life: "work_ok v \<and> status_rank (w_status w) \<le> status_rank (w_status v) \<and> w_budget v = w_budget w
      \<and> (permits (w_scope w) op req \<longrightarrow> permits (w_scope v) op req) \<and> version (w_scope w) \<le> version (w_scope v)
      \<and> int (scope_size w) + (version (w_scope v) - version (w_scope w)) \<le> int (scope_size v)
      \<and> (version (w_scope v) \<noteq> version (w_scope w) \<longrightarrow> within_budget (w_scope v) (w_budget w))"
    using assms(2)
  proof (induction rule: rtranclp_induct)
    case base
    then show ?case using assms(1) by simp
  next
    case (step y z)
    show ?case
    proof (cases "amend_step E y z")
      case True
      then show ?thesis using amend_step_facts [OF True] step(3) by fastforce
    next
      case False
      then have "work_step E y z" using step(2) by simp
      from work_step_keeps [OF this] step(3)
      have k: "work_ok z" "status_step (w_status y) (w_status z)" "z = y\<lparr>w_status := w_status z, w_result := w_result z\<rparr>" by blast+
      have "w_scope z = w_scope y" "w_budget z = w_budget y" by (subst k(3), simp)+
      then show ?thesis using step(3) k work_graph.step_rank [OF k(2)] by (simp add: scope_size_def)
    qed
  qed
  then show ?thesis using work_roundtrip [of v E] scope_size_bound [of "w_scope v" "w_budget w"] by (auto simp: scope_size_def)
qed

section \<open>Examples\<close>

definition cr_work0 :: work where
  "cr_work0 = work0\<lparr>w_kind := ''cr''\<rparr>"

definition amend_delta0 :: scope_delta where
  "amend_delta0 = \<lparr>sd_schema = 1, sd_stories = [''S-2''], sd_leaves = [''src/a.py''], sd_edges = [], sd_acceptance = [],
     sd_why = ''grow''\<rparr>"

definition amend_receipts0 :: "pydict list" where
  "amend_receipts0 =
     [[(''cr_id'', PStr ''CR-1''), (''predecessor_revision_id'', PStr ''r1''), (''terminal_status'', PStr ''verified''),
       (''inventory'', PList [PStr ''docs'']), (''inventory_digest'', PStr (canonical_digest release_env0 (PList [PStr ''docs'']))),
       (''revision_bytes_digest'', PStr (r_sha release_env0 ''r1''))]]"

definition amend_auth_document0 :: pydict where
  "amend_auth_document0 =
     [(''schema_version'', PInt 1), (''operation'', PStr ''work.scope-amend''), (''authorization_id'', PStr ''A-1''),
      (''cr_id'', PStr ''CR-1''), (''work_id'', PStr ''W-1''), (''predecessor_revision_id'', PStr ''r1''),
      (''successor_revision_id'', PStr ''r2''), (''predecessor_revision_bytes_digest'', PStr (r_sha release_env0 ''r1'')),
      (''authorized_leaves'', PList [PStr ''src/a.py'']), (''effective_at'', PStr ''2025-01-01T00:00:00Z'')]"

definition amend_auth0 :: amend_authorization where
  "amend_auth0 = \<lparr>au_schema = PInt 1, au_id = ''A-1'', au_cr = ''CR-1'', au_work = ''W-1'', au_predecessor = ''r1'',
     au_successor = ''r2'', au_bytes_digest = r_sha release_env0 ''r1'', au_leaves = [''src/a.py''],
     au_effective = PStr ''2025-01-01T00:00:00Z'', au_objectives = None\<rparr>"

definition amend_facts0 :: amend_facts where
  "amend_facts0 = \<lparr>af_project = ''P'', af_exists = (\<lambda>_. False), af_preimage = r_sha release_env0, af_projections = [],
     af_release_oid = replicate 40 CHR ''a'', af_process_oid = replicate 40 CHR ''b'', af_dirty = r_sha release_env0 [],
     af_passed = True, af_envelope = r_sha release_env0 ''e'', af_graph = r_sha release_env0 ''g'', af_source = r_sha release_env0 ''s''\<rparr>"

lemma amend_examples: "work_ok cr_work0" "check_scope_delta amend_delta0 = Inr ()"
  "load_scope_amend_authorization (PDict amend_auth_document0) = Inr amend_auth0"
  by code_simp+

definition amend_predecessor0 :: predecessor_receipt where
  "amend_predecessor0 = \<lparr>pr_cr = ''CR-1'', pr_revision = ''r1'', pr_status = ''verified'', pr_inventory = [''docs''],
     pr_inventory_digest = canonical_digest release_env0 (PList [PStr ''docs'']), pr_bytes_digest = r_sha release_env0 ''r1''\<rparr>"

definition amend_args0 :: amend_args where
  "amend_args0 = amend_arguments work_env0 amend_facts0 amend_auth0 amend_delta0 amend_predecessor0 cr_work0"

lemma amend_planned0: "\<exists>p. plan_scope_amend work_env0 amend_args0 = Inr p" "distinct (aa_current amend_args0)"
proof -
  show distinct: "distinct (aa_current amend_args0)"
    unfolding amend_args0_def amend_args_sel using scope_union_canonical canonical_texts_iff by blast
  have "amendable amend_args0" unfolding amendable_def amend_args0_def amend_args_sel by code_simp
  then show "\<exists>p. plan_scope_amend work_env0 amend_args0 = Inr p" unfolding amendable_plan_exists [OF distinct] .
qed

lemma amend_example:
  "\<exists>t. plan_scope_amend_from_root work_env0 amend_facts0 amend_auth0 amend_delta0 amend_receipts0 cr_work0 = Inr t"
proof -
  have p: "admit_scope_amend_predecessor work_env0 amend_auth0 amend_receipts0 = Inr amend_predecessor0" by code_simp
  obtain q where q: "plan_scope_amend work_env0 amend_args0 = Inr q" using amend_planned0(1) ..
  have "is_ok (result_work_scope (w_scope cr_work0) amend_delta0)" by code_simp
  then obtain s where s: "result_work_scope (w_scope cr_work0) amend_delta0 = Inr s"
    by (cases "result_work_scope (w_scope cr_work0) amend_delta0") simp_all
  have "case result_work_scope (w_scope cr_work0) amend_delta0 of Inr s \<Rightarrow> within_budget s (w_budget cr_work0) | Inl _ \<Rightarrow> False"
    by code_simp
  then have b: "within_budget s (w_budget cr_work0)" using s by simp
  have f: "digest_re (af_graph amend_facts0)" "af_envelope amend_facts0 \<noteq> []" "af_passed amend_facts0"
    "w_project cr_work0 = af_project amend_facts0" "w_kind cr_work0 = ''cr''" "scope_union (w_scope cr_work0) \<noteq> []"
    "au_successor amend_auth0 \<noteq> au_predecessor amend_auth0" "au_objectives amend_auth0 = None" "short_id_re (au_work amend_auth0)"
    "\<not> af_exists amend_facts0 ref" for ref
    by (code_simp; fail)+
  have env: "release_env_ok (we_release work_env0)" using release_env0_ok by (simp add: work_env0_def)
  show ?thesis
    by (rule amendment_exists [OF env f(1-7) _ f(9) p s b _ q [unfolded amend_args0_def]]) (simp_all add: f(8,10))
qed

theorem scope_amend_extends_witness:
  "\<exists>p. plan_scope_amend work_env0 amend_args0 = Inr p \<and> set (aa_current amend_args0) \<subset> set (ap_result p)"
proof -
  show ?thesis using amend_planned0(1) scope_amend_extends [OF amend_planned0(2)] by blast
qed

theorem scope_amend_applies_witness:
  "\<exists>p. plan_scope_amend work_env0 amend_args0 = Inr p
    \<and> apply_scope_amend p (ap_snapshot p) None = Inr (Amend_Ready (ap_digest p) (Some (plan_revision p amend_predecessor0)))
    \<and> apply_scope_amend p ''other'' None = Inr (Replan_Required (ap_digest p))"
proof -
  obtain q where q: "plan_scope_amend work_env0 amend_args0 = Inr q" using amend_planned0(1) ..
  have env: "release_env_ok (we_release work_env0)" using release_env0_ok by (simp add: work_env0_def)
  have p: "aa_predecessor amend_args0 = Some amend_predecessor0" unfolding amend_args0_def amend_args_sel ..
  have c: "check_predecessor amend_predecessor0 = Inr ()" "short_id_re (aa_cr amend_args0)" "short_id_re (aa_work amend_args0)"
    "digest_re (aa_graph amend_args0)" "aa_current amend_args0 \<noteq> []" "aa_authorization amend_args0 \<noteq> []"
    "aa_envelope amend_args0 \<noteq> []" "aa_snapshot amend_args0 \<noteq> ''other''"
    unfolding amend_args0_def amend_args_sel by (code_simp; fail)+
  note a = scope_amend_applies [OF env q p c(1-7), THEN conjunct1]
  have "fresh_for q (ap_snapshot q) None" "\<not> fresh_for q ''other'' None"
    using planned_fields(8) [OF q] c(8) by (simp_all add: fresh_for_def)
  then have "apply_scope_amend q (ap_snapshot q) None = Inr (Amend_Ready (ap_digest q) (Some (plan_revision q amend_predecessor0)))"
    "apply_scope_amend q ''other'' None = Inr (Replan_Required (ap_digest q))"
    using a [of "ap_snapshot q" None] a [of "''other''" None] by (simp_all only: if_True if_False)
  then show ?thesis using q by blast
qed

theorem amendment_planned_iff_witness:
  "(\<exists>t. plan_scope_amend_from_root work_env0 amend_facts0 amend_auth0 amend_delta0 amend_receipts0 cr_work0 = Inr t)
   \<and> \<not> (\<exists>t. plan_scope_amend_from_root work_env0 amend_facts0 amend_auth0 amend_delta0 amend_receipts0 work0 = Inr t)"
proof -
  have env: "release_env_ok (we_release work_env0)" using release_env0_ok by (simp add: work_env0_def)
  have f: "digest_re (af_graph amend_facts0)" "digest_re (af_source amend_facts0)" "af_envelope amend_facts0 \<noteq> []"
    "w_kind work0 \<noteq> ''cr''" by (code_simp; fail)+
  show ?thesis
    using amend_example amendment_planned_iff [OF env work_examples(1) f(1-3)] f(4) by blast
qed

theorem amendment_refines_plan_witness:
  "\<exists>t. plan_scope_amend_from_root work_env0 amend_facts0 amend_auth0 amend_delta0 amend_receipts0 cr_work0 = Inr t
    \<and> version (w_scope (at_successor t)) = 2
    \<and> work_from_payload work_env0 (work_as_dict work_env0 (at_successor t)) = Inr (at_successor t)"
proof -
  obtain t where t: "plan_scope_amend_from_root work_env0 amend_facts0 amend_auth0 amend_delta0 amend_receipts0 cr_work0 = Inr t"
    using amend_example by blast
  have "version (w_scope cr_work0) + 1 = 2" by code_simp
  then show ?thesis using t amendment_refines_plan [OF amend_examples(1) t] by auto
qed

theorem amendment_permissions_witness:
  "\<exists>t. plan_scope_amend_from_root work_env0 amend_facts0 amend_auth0 amend_delta0 amend_receipts0 cr_work0 = Inr t
    \<and> permits (w_scope (at_successor t)) ''write'' ''docs/x'' \<and> \<not> permits (w_scope (at_successor t)) ''write'' ''src/b.py''"
proof -
  obtain t where t: "plan_scope_amend_from_root work_env0 amend_facts0 amend_auth0 amend_delta0 amend_receipts0 cr_work0 = Inr t"
    using amend_example by blast
  note a = amendment_permissions [OF amend_examples(2) t]
  have "permits (w_scope cr_work0) ''write'' ''docs/x''" "\<not> permits (w_scope cr_work0) ''write'' ''src/b.py''"
    "list_all (\<lambda>l. normalize_requested_path ''src/b.py'' \<noteq> Inr l) (au_leaves amend_auth0)" "''write'' \<noteq> ''read''" by code_simp+
  then show ?thesis
    using t a [of "''write''" "''docs/x''"] a [of "''write''" "''src/b.py''"] unfolding list_all_iff by blast
qed

theorem amended_life_invariant_witness:
  "\<exists>v. (sup (work_step work_env0) (amend_step work_env0))\<^sup>*\<^sup>* cr_work0 v \<and> version (w_scope v) = 2
     \<and> permits (w_scope v) ''write'' ''docs/x''"
proof -
  obtain t where t: "plan_scope_amend_from_root work_env0 amend_facts0 amend_auth0 amend_delta0 amend_receipts0 cr_work0 = Inr t"
    using amend_example by blast
  have step: "amend_step work_env0 cr_work0 (at_successor t)" by (rule amend_step.amend [OF amend_examples(2) t])
  then have run: "(sup (work_step work_env0) (amend_step work_env0))\<^sup>*\<^sup>* cr_work0 (at_successor t)" by blast
  have "permits (w_scope cr_work0) ''write'' ''docs/x''" "version (w_scope cr_work0) = 1" by code_simp+
  then show ?thesis
    using run amended_life_invariant [OF amend_examples(1) run] amend_step_facts [OF step amend_examples(1)] by auto
qed

end
