(* ===== verification/Current_Amend.thy ===== *)
theory Current_Amend
  imports Scope_Amend
begin

text \<open>
  The amendment of the scope of an ordinary Work (lane G1) and of the current change request (lane G2), planned and
  applied by \<open>plan_g1_scope_amend\<close> and \<open>apply_g1_scope_amend\<close> of \<open>work/scope_amend.py\<close> with the contracts
  \<open>G1ScopeDeltaV1\<close> and \<open>WorkScopeRevisionV2\<close> of \<open>work/model.py\<close>, and the invalidation of validation receipts by the
  added paths. What is observed of the repositories is an argument; the application is modelled up to the documents it
  hands to the file transaction.
\<close>

section \<open>The delta\<close>

record g1_delta =
  gd_schema :: int
  gd_reads :: "string list"
  gd_writes :: "string list"
  gd_checks :: "string list"
  gd_reason :: string

definition wildcard :: "string \<Rightarrow> bool" where
  "wildcard s = (CHR ''*'' \<in> set s \<or> CHR ''?'' \<in> set s \<or> CHR ''['' \<in> set s)"

definition plain_segments :: "string \<Rightarrow> bool" where
  "plain_segments s = list_all (\<lambda>p. p \<notin> {[], ''.'', ''..''}) (split_char CHR ''/'' s)"

definition delta_pattern :: "string \<Rightarrow> bool" where
  "delta_pattern v = (let pre = pattern_base v in
     pre \<noteq> [] \<and> \<not> is_absolute pre \<and> CHR 0x5C \<notin> set pre \<and> plain_segments pre \<and> \<not> wildcard pre)"

definition check_g1_delta :: "g1_delta \<Rightarrow> unit result" where
  "check_g1_delta d =
     let_ok (guard (gd_schema d = 1 \<and> (gd_reads d \<noteq> [] \<or> gd_writes d \<noteq> [] \<or> gd_checks d \<noteq> [])
       \<and> canonical_texts (gd_reads d) \<and> list_all delta_pattern (gd_reads d)
       \<and> canonical_texts (gd_writes d) \<and> list_all delta_pattern (gd_writes d)
       \<and> canonical_texts (gd_checks d) \<and> list_all check_id_re (gd_checks d)) ''G1_SCOPE_DELTA_INVALID'') (\<lambda>_.
     guard (py_strip (gd_reason d) \<noteq> []) ''G1_SCOPE_DELTA_REASON_REQUIRED'')"

definition g1_delta_fields :: "string list" where
  "g1_delta_fields = [''schema_version'', ''add_reads'', ''add_writes'', ''add_checks'', ''reason'']"

definition g1_delta_from_mapping :: "pydict \<Rightarrow> g1_delta result" where
  "g1_delta_from_mapping p =
     let_ok (guard (dkeys p = set g1_delta_fields \<and> list_all (\<lambda>k. is_list (dget p k)) [''add_reads'', ''add_writes'', ''add_checks''])
       ''G1_SCOPE_DELTA_FIELDS_INVALID'') (\<lambda>_.
     let_ok (py_int (dget p ''schema_version'')) (\<lambda>n.
     let d = \<lparr>gd_schema = n, gd_reads = map py_str (list_of (dget p ''add_reads'')),
       gd_writes = map py_str (list_of (dget p ''add_writes'')), gd_checks = map py_str (list_of (dget p ''add_checks'')),
       gd_reason = py_str (dget p ''reason'')\<rparr> in
     let_ok (check_g1_delta d) (\<lambda>_. Inr d)))"

definition g1_delta_as_dict :: "g1_delta \<Rightarrow> pydict" where
  "g1_delta_as_dict d =
     [(''schema_version'', PInt (gd_schema d)), (''add_reads'', PList (map PStr (gd_reads d))),
      (''add_writes'', PList (map PStr (gd_writes d))), (''add_checks'', PList (map PStr (gd_checks d))),
      (''reason'', PStr (gd_reason d))]"

definition g1_delta_digest :: "work_env \<Rightarrow> g1_delta \<Rightarrow> string" where
  "g1_delta_digest E d = ascii_digest E (PDict (sort_key fst (g1_delta_as_dict d)))"

section \<open>Authorizations\<close>

text \<open>The part that only the authorization of a current change request has.\<close>

record g2_binding =
  g2_cr :: string
  g2_scope_digest :: string
  g2_writes :: "string list"
  g2_invalidation :: "string list"
  g2_checkpoint :: string
  g2_checkpoint_digest :: string
  g2_event :: string
  g2_event_digest :: string
  g2_decision :: string

record current_authorization =
  ca_schema :: pyval
  ca_id :: string
  ca_work :: string
  ca_successor :: string
  ca_release_oid :: string
  ca_process_oid :: string
  ca_release_dirty :: string
  ca_process_dirty :: string
  ca_preimage :: string
  ca_delta :: string
  ca_issued :: pyval
  ca_g2 :: "g2_binding option"

definition g1_auth_error :: string where
  "g1_auth_error = ''G1_SCOPE_AMEND_AUTHORIZATION_INVALID''"

definition g2_auth_error :: string where
  "g2_auth_error = ''G2_CURRENT_CR_SCOPE_AMEND_AUTHORIZATION_INVALID''"

definition g1_auth_fields :: "string list" where
  "g1_auth_fields = [''schema_version'', ''operation'', ''authorization_id'', ''work_id'', ''successor_revision_id'',
     ''release_oid'', ''process_oid'', ''release_dirty_digest'', ''process_dirty_digest'', ''work_preimage_digest'',
     ''delta_digest'', ''issued_at'']"

definition g2_auth_fields :: "string list" where
  "g2_auth_fields = g1_auth_fields @ [''cr_id'', ''predecessor_scope_digest'', ''authorized_add_writes'', ''invalidation_refs'',
     ''checkpoint_ref'', ''checkpoint_digest'', ''approval_event_id'', ''approval_event_digest'', ''approval_decision_id'']"

definition field_match :: "(string \<Rightarrow> bool) \<Rightarrow> string \<Rightarrow> pydict \<Rightarrow> string \<Rightarrow> string result" where
  "field_match pat message d k = full_match pat message (dget d k)"

definition g1_auth_from_mapping :: "pydict \<Rightarrow> current_authorization result" where
  "g1_auth_from_mapping d =
     let_ok (guard (dkeys d = set g1_auth_fields) ''G1_SCOPE_AMEND_AUTHORIZATION_FIELDS_INVALID'') (\<lambda>_.
     let_ok (guard (py_eq (dget d ''schema_version'') (PInt 1) \<and> py_eq (dget d ''operation'') (PStr ''work.scope-amend.g1''))
       g1_auth_error) (\<lambda>_.
     let_ok (field_match work_id_re g1_auth_error d ''authorization_id'') (\<lambda>aid.
     let_ok (field_match work_id_re g1_auth_error d ''work_id'') (\<lambda>work.
     let_ok (field_match work_id_re g1_auth_error d ''successor_revision_id'') (\<lambda>successor.
     let_ok (field_match (hex_id 40) g1_auth_error d ''release_oid'') (\<lambda>release.
     let_ok (field_match (hex_id 40) g1_auth_error d ''process_oid'') (\<lambda>process.
     let_ok (field_match (hex_id 64) g1_auth_error d ''release_dirty_digest'') (\<lambda>release_dirty.
     let_ok (field_match (hex_id 64) g1_auth_error d ''process_dirty_digest'') (\<lambda>process_dirty.
     let_ok (field_match (hex_id 64) g1_auth_error d ''work_preimage_digest'') (\<lambda>preimage.
     let_ok (field_match (hex_id 64) g1_auth_error d ''delta_digest'') (\<lambda>delta.
     let_ok (guard (truthy (dget d ''issued_at'')) g1_auth_error) (\<lambda>_.
     Inr \<lparr>ca_schema = dget d ''schema_version'', ca_id = aid, ca_work = work, ca_successor = successor, ca_release_oid = release,
       ca_process_oid = process, ca_release_dirty = release_dirty, ca_process_dirty = process_dirty, ca_preimage = preimage,
       ca_delta = delta, ca_issued = dget d ''issued_at'', ca_g2 = None\<rparr>))))))))))))"

text \<open>A test of texts on a value: a false value fails it, any other value that is no text has no \<open>startswith\<close>.\<close>

definition check_text :: "(string \<Rightarrow> bool) \<Rightarrow> string \<Rightarrow> pyval \<Rightarrow> unit result" where
  "check_text p message v =
     (case v of PStr s \<Rightarrow> guard (s \<noteq> [] \<and> p s) message
      | _ \<Rightarrow> if truthy v then Inl (AttributeError ''object has no attribute startswith'') else Inl (ValueError message))"

definition exact_ref :: "string \<Rightarrow> bool" where
  "exact_ref s = (\<not> is_absolute s \<and> CHR 0x5C \<notin> set s \<and> plain_segments s)"

definition nonempty_set :: "string \<Rightarrow> pydict \<Rightarrow> string \<Rightarrow> pyval list result" where
  "nonempty_set message d k =
     let_ok (guard (list_of (dget d k) \<noteq> []) message) (\<lambda>_.
     let_ok (sorted_set_values (list_of (dget d k))) (\<lambda>b. let_ok (guard b message) (\<lambda>_. Inr (list_of (dget d k)))))"

definition checkpoint_ref_ok :: "string \<Rightarrow> bool" where
  "checkpoint_ref_ok s = (prefix ''process/checkpoints/'' s \<and> CHR 0x5C \<notin> set s \<and> ''..'' \<notin> set (path_parts s))"

definition g2_auth_from_mapping :: "pydict \<Rightarrow> current_authorization result" where
  "g2_auth_from_mapping d =
     let_ok (guard (dkeys d = set g2_auth_fields \<and> is_list (dget d ''authorized_add_writes'') \<and> is_list (dget d ''invalidation_refs''))
       ''G2_CURRENT_CR_SCOPE_AMEND_AUTHORIZATION_FIELDS_INVALID'') (\<lambda>_.
     let_ok (guard (py_eq (dget d ''schema_version'') (PInt 2)
       \<and> py_eq (dget d ''operation'') (PStr ''work.scope-amend.current-cr.g2'')) g2_auth_error) (\<lambda>_.
     let_ok (field_match work_id_re g2_auth_error d ''authorization_id'') (\<lambda>aid.
     let_ok (field_match work_id_re g2_auth_error d ''cr_id'') (\<lambda>cr.
     let_ok (field_match work_id_re g2_auth_error d ''work_id'') (\<lambda>work.
     let_ok (field_match work_id_re g2_auth_error d ''successor_revision_id'') (\<lambda>successor.
     let_ok (field_match work_id_re g2_auth_error d ''approval_event_id'') (\<lambda>event.
     let_ok (field_match work_id_re g2_auth_error d ''approval_decision_id'') (\<lambda>decision.
     let_ok (field_match (hex_id 40) g2_auth_error d ''release_oid'') (\<lambda>release.
     let_ok (field_match (hex_id 40) g2_auth_error d ''process_oid'') (\<lambda>process.
     let_ok (field_match (hex_id 64) g2_auth_error d ''release_dirty_digest'') (\<lambda>release_dirty.
     let_ok (field_match (hex_id 64) g2_auth_error d ''process_dirty_digest'') (\<lambda>process_dirty.
     let_ok (field_match (hex_id 64) g2_auth_error d ''work_preimage_digest'') (\<lambda>preimage.
     let_ok (field_match (hex_id 64) g2_auth_error d ''predecessor_scope_digest'') (\<lambda>sdig.
     let_ok (field_match (hex_id 64) g2_auth_error d ''delta_digest'') (\<lambda>delta.
     let_ok (field_match (hex_id 64) g2_auth_error d ''checkpoint_digest'') (\<lambda>checkpoint_digest.
     let_ok (field_match (hex_id 64) g2_auth_error d ''approval_event_digest'') (\<lambda>event_digest.
     let_ok (nonempty_set g2_auth_error d ''authorized_add_writes'') (\<lambda>writes.
     let_ok (nonempty_set g2_auth_error d ''invalidation_refs'') (\<lambda>refs.
     let_ok (check_all (check_text (\<lambda>s. exact_ref s \<and> \<not> wildcard s) g2_auth_error) writes) (\<lambda>_.
     let_ok (check_all (check_text exact_ref g2_auth_error) refs) (\<lambda>_.
     let_ok (case dget d ''checkpoint_ref'' of PStr s \<Rightarrow> guard (checkpoint_ref_ok s) g2_auth_error
       | _ \<Rightarrow> Inl (AttributeError ''object has no attribute startswith'')) (\<lambda>_.
     let_ok (guard (truthy (dget d ''issued_at'')) g2_auth_error) (\<lambda>_.
     Inr \<lparr>ca_schema = dget d ''schema_version'', ca_id = aid, ca_work = work, ca_successor = successor, ca_release_oid = release,
       ca_process_oid = process, ca_release_dirty = release_dirty, ca_process_dirty = process_dirty, ca_preimage = preimage,
       ca_delta = delta, ca_issued = dget d ''issued_at'',
       ca_g2 = Some \<lparr>g2_cr = cr, g2_scope_digest = sdig, g2_writes = map the_str writes, g2_invalidation = map the_str refs,
         g2_checkpoint = the_str (dget d ''checkpoint_ref''), g2_checkpoint_digest = checkpoint_digest, g2_event = event,
         g2_event_digest = event_digest, g2_decision = decision\<rparr>\<rparr>)))))))))))))))))))))))"

definition load_current_authorization :: "pyval \<Rightarrow> current_authorization result" where
  "load_current_authorization v =
     (case v of
        PDict d \<Rightarrow>
          if py_eq (dget d ''schema_version'') (PInt 1) then g1_auth_from_mapping d
          else if py_eq (dget d ''schema_version'') (PInt 2) \<and> py_eq (dget d ''operation'') (PStr ''work.scope-amend.current-cr.g2'')
          then g2_auth_from_mapping d
          else Inl (ValueError ''CURRENT_SCOPE_AMEND_AUTHORIZATION_VERSION_INVALID'')
      | _ \<Rightarrow> Inl (ValueError ''CURRENT_SCOPE_AMEND_AUTHORIZATION_NOT_OBJECT''))"

definition current_auth_as_dict :: "current_authorization \<Rightarrow> pydict" where
  "current_auth_as_dict a =
     [(''schema_version'', ca_schema a),
      (''operation'', PStr (case ca_g2 a of None \<Rightarrow> ''work.scope-amend.g1'' | Some _ \<Rightarrow> ''work.scope-amend.current-cr.g2'')),
      (''authorization_id'', PStr (ca_id a)), (''work_id'', PStr (ca_work a)), (''successor_revision_id'', PStr (ca_successor a)),
      (''release_oid'', PStr (ca_release_oid a)), (''process_oid'', PStr (ca_process_oid a)),
      (''release_dirty_digest'', PStr (ca_release_dirty a)), (''process_dirty_digest'', PStr (ca_process_dirty a)),
      (''work_preimage_digest'', PStr (ca_preimage a)), (''delta_digest'', PStr (ca_delta a)), (''issued_at'', ca_issued a)]
     @ (case ca_g2 a of None \<Rightarrow> []
        | Some g \<Rightarrow> [(''cr_id'', PStr (g2_cr g)), (''predecessor_scope_digest'', PStr (g2_scope_digest g)),
            (''authorized_add_writes'', PList (map PStr (g2_writes g))), (''invalidation_refs'', PList (map PStr (g2_invalidation g))),
            (''checkpoint_ref'', PStr (g2_checkpoint g)), (''checkpoint_digest'', PStr (g2_checkpoint_digest g)),
            (''approval_event_id'', PStr (g2_event g)), (''approval_event_digest'', PStr (g2_event_digest g)),
            (''approval_decision_id'', PStr (g2_decision g))])"

definition current_auth_digest :: "work_env \<Rightarrow> current_authorization \<Rightarrow> string" where
  "current_auth_digest E a = canonical_digest (we_release E) (PDict (sort_key fst (current_auth_as_dict a)))"

section \<open>Receipts touched by the delta\<close>

text \<open>A file of the receipt directory: a link or no regular file, with the value that is read through it, if any; a file whose
  content is no JSON; or a value.\<close>

datatype receipt_file = Irregular "pyval option" | Unparsable | Parsed pyval

record receipt_entry =
  re_name :: string
  re_decision :: string
  re_reason :: string
  re_paths :: "string list"

fun first_truthy :: "pyval list \<Rightarrow> pyval" where
  "first_truthy [] = PList []"
| "first_truthy (v # vs) = (if truthy v then v else first_truthy vs)"

definition touched_paths :: "pydict \<Rightarrow> string list result" where
  "touched_paths d =
     let_ok (to_tuple (first_truthy [dget d ''paths'', dget d ''targets'', dget d ''target_refs''])) (\<lambda>xs.
     Inr (map the_str (filter is_str xs)))"

definition path_touches :: "string \<Rightarrow> string \<Rightarrow> bool" where
  "path_touches added touched = (touched = added \<or> prefix (rstrip_by (\<lambda>c. c = CHR ''*'') added) touched
     \<or> prefix (touched @ ''/'') added)"

definition delta_paths :: "g1_delta \<Rightarrow> string list" where
  "delta_paths d = sort (remdups (gd_reads d @ gd_writes d @ gd_checks d))"

definition receipt_entry_of :: "g1_delta \<Rightarrow> string \<times> receipt_file \<Rightarrow> receipt_entry result" where
  "receipt_entry_of d = (\<lambda>(name, file).
     case file of
       Parsed (PDict p) \<Rightarrow>
         let_ok (touched_paths p) (\<lambda>touched.
         let paths = filter (\<lambda>a. list_ex (path_touches a) touched) (delta_paths d) in
         Inr (if paths \<noteq> []
           then \<lparr>re_name = name, re_decision = ''invalidated'', re_reason = ''INVALIDATED_BY_SCOPE_VERSION'', re_paths = paths\<rparr>
           else \<lparr>re_name = name, re_decision = ''retained'', re_reason = ''NO_SCOPE_INTERSECTION'', re_paths = []\<rparr>))
     | Parsed _ \<Rightarrow> Inl (AttributeError ''object has no attribute get'')
     | _ \<Rightarrow> Inr \<lparr>re_name = name, re_decision = ''invalidated'', re_reason = ''INVALIDATED_BY_SCOPE_VERSION_RECEIPT_UNREADABLE'',
         re_paths = []\<rparr>)"

definition plan_receipt_invalidation :: "g1_delta \<Rightarrow> (string \<times> receipt_file) list \<Rightarrow> receipt_entry list result" where
  "plan_receipt_invalidation d files = map_result (receipt_entry_of d) (sort_key fst files)"

text \<open>The marks written after the commit: an invalidated receipt through which an object is read gets the version and the reason;
  the test for a regular file is not repeated.\<close>

definition marked_payload :: "int \<Rightarrow> receipt_entry \<Rightarrow> pydict \<Rightarrow> pyval" where
  "marked_payload n e p = PDict (dset (dset p ''invalidated_by_scope_version'' (PInt n)) ''invalidation_reason'' (PStr (re_reason e)))"

definition mark_receipt :: "int \<Rightarrow> receipt_entry \<Rightarrow> receipt_file \<Rightarrow> receipt_file" where
  "mark_receipt n e file =
     (if re_decision e \<noteq> ''invalidated'' then file
      else case file of
        Parsed (PDict p) \<Rightarrow> Parsed (marked_payload n e p)
      | Irregular (Some (PDict p)) \<Rightarrow> Irregular (Some (marked_payload n e p))
      | _ \<Rightarrow> file)"

section \<open>The plan\<close>

definition result_g1_scope :: "work_scope \<Rightarrow> g1_delta \<Rightarrow> work_scope result" where
  "result_g1_scope s d =
     (let t = \<lparr>version = version s + 1, allowed_reads = sort (remdups (allowed_reads s @ gd_reads d)),
        allowed_writes = sort (remdups (allowed_writes s @ gd_writes d)),
        required_checks = sort (remdups (required_checks s @ gd_checks d))\<rparr> in
      let_ok (validate_work_scope t) (\<lambda>_. let_ok (assert_additive_only s t) (\<lambda>_. Inr t)))"

text \<open>What is observed: the heads and dirty digests of the two repositories, the bytes of the Work and of the checkpoint
  (none for a missing file or a link), the findings of the approval binding, the preimages of the targets, the anchors of the
  shared projection (none when they cannot be established) and the receipts.\<close>

record current_facts =
  cf_release_oid :: string
  cf_process_oid :: string
  cf_release_dirty :: string
  cf_process_dirty :: string
  cf_work_bytes :: string
  cf_checkpoint :: "string option"
  cf_approved :: bool
  cf_preimage :: "string \<Rightarrow> string"
  cf_lineage :: "string list list option"
  cf_receipts :: "(string \<times> receipt_file) list"

definition code_if :: "bool \<Rightarrow> string \<Rightarrow> string list" where
  "code_if b code = (if b then [code] else [])"

definition approval_blockers :: "work_env \<Rightarrow> current_facts \<Rightarrow> g2_binding \<Rightarrow> string list" where
  "approval_blockers E F g = sort (remdups
     ((case cf_checkpoint F of
         None \<Rightarrow> [''G2_CURRENT_CR_SCOPE_AMEND_CHECKPOINT_MISSING'']
       | Some b \<Rightarrow> code_if (r_sha (we_release E) b \<noteq> g2_checkpoint_digest g) ''G2_CURRENT_CR_SCOPE_AMEND_CHECKPOINT_DIGEST_MISMATCH'')
      @ code_if (\<not> cf_approved F) ''G2_CURRENT_CR_SCOPE_AMEND_APPROVAL_BINDING_INVALID''))"

definition g2_blockers :: "work_env \<Rightarrow> current_facts \<Rightarrow> work \<Rightarrow> g1_delta \<Rightarrow> g2_binding \<Rightarrow> string \<Rightarrow> string list" where
  "g2_blockers E F w d g level =
     code_if (w_kind w \<noteq> ''cr'') ''G2_CURRENT_CR_SCOPE_AMEND_WORK_KIND_INVALID''
     @ code_if (level \<notin> {''G2'', ''G3''}) ''G2_CURRENT_CR_SCOPE_AMEND_RISK_INVALID''
     @ code_if (w_status w \<notin> {''planned'', ''blocked''}) ''G2_CURRENT_CR_SCOPE_AMEND_STATUS_INVALID''
     @ code_if (gd_reads d \<noteq> [] \<or> gd_checks d \<noteq> []) ''G2_CURRENT_CR_SCOPE_AMEND_DELTA_PROFILE_INVALID''
     @ (if list_ex wildcard (gd_writes d) then [''G2_CURRENT_CR_SCOPE_AMEND_WILDCARD_UNSUPPORTED'']
        else code_if (gd_writes d \<noteq> g2_writes g) ''G2_CURRENT_CR_SCOPE_AMEND_AUTHORIZED_WRITES_MISMATCH'')
     @ code_if (g2_scope_digest g \<noteq> scope_digest E (w_scope w)) ''G2_CURRENT_CR_SCOPE_AMEND_PREDECESSOR_SCOPE_MISMATCH''
     @ approval_blockers E F g"

definition g1_blockers :: "work \<Rightarrow> string list" where
  "g1_blockers w =
     code_if (w_kind w \<noteq> ''work'') ''G1_SCOPE_AMEND_WORK_KIND_INVALID''
     @ code_if (w_profile w \<notin> {''G0'', ''G1''}) ''G1_SCOPE_AMEND_RISK_INVALID''
     @ code_if (w_status w \<notin> {''paused'', ''blocked''}) ''G1_SCOPE_AMEND_STATUS_INVALID''"

definition lane_prefix :: "current_authorization \<Rightarrow> string" where
  "lane_prefix a = (case ca_g2 a of None \<Rightarrow> ''G1_SCOPE_AMEND'' | Some _ \<Rightarrow> ''G2_CURRENT_CR_SCOPE_AMEND'')"

definition binding_blockers :: "work_env \<Rightarrow> current_facts \<Rightarrow> string \<Rightarrow> g1_delta \<Rightarrow> current_authorization \<Rightarrow> string \<Rightarrow> string \<Rightarrow> string list" where
  "binding_blockers E F work_id d a release process =
     code_if (ca_work a \<noteq> work_id) (lane_prefix a @ ''_AUTH_WORK_MISMATCH'')
     @ code_if (ca_release_oid a \<noteq> release \<or> ca_process_oid a \<noteq> process \<or> cf_release_oid F \<noteq> release \<or> cf_process_oid F \<noteq> process)
         (lane_prefix a @ ''_OID_MISMATCH'')
     @ code_if (ca_release_dirty a \<noteq> cf_release_dirty F \<or> ca_process_dirty a \<noteq> cf_process_dirty F)
         (lane_prefix a @ ''_DIRTY_SET_MISMATCH'')
     @ code_if (ca_preimage a \<noteq> r_sha (we_release E) (cf_work_bytes F)) (lane_prefix a @ ''_WORK_PREIMAGE_MISMATCH'')
     @ code_if (ca_delta a \<noteq> g1_delta_digest E d) (lane_prefix a @ ''_DELTA_MISMATCH'')"

definition native_invalidated :: "work \<Rightarrow> string \<Rightarrow> string list" where
  "native_invalidated w work_id = sort (remdups ((if w_result w = [] then [] else [w_result w])
     @ [''works/'' @ work_id @ ''/evidence/validation/**'', ''works/'' @ work_id @ ''/AUTHORIZATION.json'',
        ''works/'' @ work_id @ ''/HANDOFF.yaml'']))"

definition work_yaml :: "string \<Rightarrow> string" where
  "work_yaml i = ''works/'' @ i @ ''/WORK.yaml''"

definition g1_target_refs :: "string \<Rightarrow> string \<Rightarrow> string \<Rightarrow> string list" where
  "g1_target_refs work_id authorization_id successor =
     (let root = ''works/'' @ work_id in
      [work_yaml work_id, root @ ''/revisions/'' @ successor @ ''.json'',
       root @ ''/evidence/scope-amend/'' @ authorization_id @ ''.invalidation.json'',
       root @ ''/evidence/scope-amend/'' @ authorization_id @ ''.receipt.json''])"

definition missing_digest :: "work_env \<Rightarrow> string" where
  "missing_digest E = canonical_digest (we_release E) (PDict [(''kind'', PStr ''missing'')])"

record current_plan =
  cp_decision :: string
  cp_work :: work
  cp_delta :: g1_delta
  cp_authorization :: current_authorization
  cp_scope :: work_scope
  cp_invalidated :: "string list"
  cp_preimages :: "(string \<times> string) list"
  cp_digest :: string
  cp_blockers :: "string list"
  cp_receipts :: "receipt_entry list"
  cp_lineage :: "string list list"

definition current_identity :: "work_env \<Rightarrow> current_facts \<Rightarrow> string \<Rightarrow> current_plan \<Rightarrow> string \<Rightarrow> string \<Rightarrow> pydict" where
  "current_identity E F work_id p release process =
     [(''blockers'', PList (map PStr (cp_blockers p))), (''authorization_digest'', PStr (current_auth_digest E (cp_authorization p))),
      (''decision'', PStr (cp_decision p)), (''delta_digest'', PStr (g1_delta_digest E (cp_delta p))),
      (''invalidated_refs'', PList (map PStr (cp_invalidated p))),
      (''lineage_preflight'', PList (map (\<lambda>x. PList (map PStr x)) (cp_lineage p))),
      (''predecessor_scope_digest'', PStr (scope_digest E (w_scope (cp_work p)))),
      (''process_dirty_digest'', PStr (cf_process_dirty F)), (''process_oid'', PStr process),
      (''profile'', PStr (case ca_g2 (cp_authorization p) of None \<Rightarrow> ''g1-work'' | Some _ \<Rightarrow> ''g2-current-cr'')),
      (''release_dirty_digest'', PStr (cf_release_dirty F)), (''release_oid'', PStr release),
      (''successor_scope_digest'', PStr (scope_digest E (cp_scope p))),
      (''target_preimages'', PList (map pair_value (cp_preimages p))), (''work_id'', PStr work_id),
      (''work_preimage_digest'', PStr (r_sha (we_release E) (cf_work_bytes F)))]"

definition plan_g1_scope_amend ::
    "work_env \<Rightarrow> current_facts \<Rightarrow> string \<Rightarrow> work \<Rightarrow> g1_delta \<Rightarrow> current_authorization \<Rightarrow> string \<Rightarrow> string \<Rightarrow> current_plan result" where
  "plan_g1_scope_amend E F work_id w d a release process =
     let_ok (case ca_g2 a of None \<Rightarrow> Inr (g1_blockers w)
       | Some g \<Rightarrow> let_ok (effective_risk_profile w) (\<lambda>level. Inr (g2_blockers E F w d g level))) (\<lambda>lane.
     let_ok (result_g1_scope (w_scope w) d) (\<lambda>s.
     let first = lane @ binding_blockers E F work_id d a release process;
         native = native_invalidated w work_id;
         invalidated = (case ca_g2 a of None \<Rightarrow> native | Some g \<Rightarrow> g2_invalidation g);
         preimages = map (\<lambda>ref. (ref, cf_preimage F ref)) (g1_target_refs work_id (ca_id a) (ca_successor a));
         later = code_if (\<not> set native \<subseteq> set invalidated) ''G2_CURRENT_CR_SCOPE_AMEND_INVALIDATION_INCOMPLETE''
           @ code_if (list_ex (\<lambda>(ref, pre). ref \<noteq> work_yaml work_id \<and> pre \<noteq> missing_digest E) preimages)
               (lane_prefix a @ ''_AUTHORIZATION_CONSUMED'')
           @ code_if (cf_lineage F = None) (lane_prefix a @ ''_LINEAGE_PREFLIGHT_BLOCKED'');
         decision = (if first @ later \<noteq> [] then ''BLOCKED''
           else if scope_digest E s = scope_digest E (w_scope w) then ''NO_CHANGE'' else ''READY'') in
     let_ok (plan_receipt_invalidation d (cf_receipts F)) (\<lambda>receipts.
     let p = \<lparr>cp_decision = decision, cp_work = w, cp_delta = d, cp_authorization = a, cp_scope = s, cp_invalidated = invalidated,
       cp_preimages = preimages, cp_digest = [], cp_blockers = sort (remdups (first @ later)), cp_receipts = receipts,
       cp_lineage = (case cf_lineage F of None \<Rightarrow> [] | Some x \<Rightarrow> x)\<rparr> in
     Inr (p\<lparr>cp_digest := canonical_digest (we_release E) (PDict (sort_key fst (current_identity E F work_id p release process)))\<rparr>))))"

section \<open>The application\<close>

record scope_revision =
  sr_revision :: string
  sr_work :: string
  sr_preimage :: string
  sr_before :: string
  sr_after :: string
  sr_delta :: string
  sr_authorization :: string
  sr_plan :: string
  sr_invalidated :: "string list"

definition check_scope_revision :: "scope_revision \<Rightarrow> unit result" where
  "check_scope_revision r =
     guard (short_id_re (sr_revision r) \<and> short_id_re (sr_work r)
       \<and> list_all digest_re [sr_preimage r, sr_before r, sr_after r, sr_delta r, sr_authorization r, sr_plan r]
       \<and> canonical_texts (sr_invalidated r)) ''G1_SCOPE_REVISION_INVALID''"

definition scope_revision_as_dict :: "scope_revision \<Rightarrow> pydict" where
  "scope_revision_as_dict r =
     [(''schema_version'', PInt 2), (''kind'', PStr ''WorkScopeRevisionV2''), (''revision_id'', PStr (sr_revision r)),
      (''work_id'', PStr (sr_work r)), (''predecessor_work_digest'', PStr (sr_preimage r)),
      (''predecessor_scope_digest'', PStr (sr_before r)), (''successor_scope_digest'', PStr (sr_after r)),
      (''delta_digest'', PStr (sr_delta r)), (''authorization_digest'', PStr (sr_authorization r)),
      (''plan_digest'', PStr (sr_plan r)), (''invalidated_refs'', PList (map PStr (sr_invalidated r)))]"

text \<open>What is handed to the file transaction: the revision, the updated Work and the two evidence documents.\<close>

record current_documents =
  cd_revision :: scope_revision
  cd_work :: work
  cd_invalidation :: pydict
  cd_receipt :: pydict

datatype current_outcome = Amend_Refused string string | Amend_Writes current_documents

definition current_work :: "current_plan \<Rightarrow> work" where
  "current_work p =
     (let w = cp_work p\<lparr>w_scope := cp_scope p\<rparr> in
      case ca_g2 (cp_authorization p) of None \<Rightarrow> w | Some _ \<Rightarrow> w\<lparr>w_updated := py_str (ca_issued (cp_authorization p))\<rparr>)"

definition current_invalidation :: "current_plan \<Rightarrow> pydict" where
  "current_invalidation p =
     [(''schema_version'', PInt 1), (''kind'', PStr ''ScopeAmendInvalidationV1''), (''work_id'', PStr (w_id (cp_work p))),
      (''revision_id'', PStr (ca_successor (cp_authorization p))), (''stale_refs'', PList (map PStr (cp_invalidated p))),
      (''reason'', PStr (case ca_g2 (cp_authorization p) of None \<Rightarrow> ''G1_SCOPE_SUCCESSOR'' | Some _ \<Rightarrow> ''G2_CURRENT_CR_SCOPE_SUCCESSOR''))]"

definition current_receipt :: "work_env \<Rightarrow> current_plan \<Rightarrow> string \<Rightarrow> string \<Rightarrow> pydict" where
  "current_receipt E p release process =
     (let a = cp_authorization p in
      [(''schema_version'', PInt 2),
       (''kind'', PStr (case ca_g2 a of None \<Rightarrow> ''ScopeAmendReceiptV2'' | Some _ \<Rightarrow> ''G2CurrentCRScopeAmendReceiptV2'')),
       (''profile'', PStr (case ca_g2 a of None \<Rightarrow> ''g1-work'' | Some _ \<Rightarrow> ''g2-current-cr'')),
       (''authorization_id'', PStr (ca_id a)), (''authorization_digest'', PStr (current_auth_digest E a)),
       (''work_id'', PStr (w_id (cp_work p))), (''revision_id'', PStr (ca_successor a)), (''plan_digest'', PStr (cp_digest p)),
       (''release_oid'', PStr release), (''process_oid'', PStr process), (''predecessor_work_digest'', PStr (ca_preimage a)),
       (''successor_scope_digest'', PStr (scope_digest E (cp_scope p))),
       (''invalidation_digest'', PStr (canonical_digest (we_release E) (PList (map PStr (cp_invalidated p)))))]
      @ (case ca_g2 a of None \<Rightarrow> []
         | Some g \<Rightarrow> [(''cr_id'', PStr (g2_cr g)), (''predecessor_scope_digest'', PStr (g2_scope_digest g)),
             (''checkpoint_ref'', PStr (g2_checkpoint g)), (''checkpoint_digest'', PStr (g2_checkpoint_digest g)),
             (''approval_event_id'', PStr (g2_event g)), (''approval_event_digest'', PStr (g2_event_digest g)),
             (''approval_decision_id'', PStr (g2_decision g)), (''invalidated_refs'', PList (map PStr (cp_invalidated p)))]))"

text \<open>The plan is made afresh from what is observed at the time of the application, with the current authorization.\<close>

definition apply_g1_scope_amend ::
    "work_env \<Rightarrow> current_facts \<Rightarrow> work \<Rightarrow> current_plan \<Rightarrow> string \<Rightarrow> current_authorization \<Rightarrow> string \<Rightarrow> string \<Rightarrow> current_outcome result" where
  "apply_g1_scope_amend E F w p expected a release process =
     (if cp_decision p \<noteq> ''READY'' then Inr (Amend_Refused (cp_decision p) [])
      else if expected \<noteq> cp_digest p then Inr (Amend_Refused ''BLOCKED'' ''PLAN_DIGEST_MISMATCH'')
      else if current_auth_digest E a \<noteq> current_auth_digest E (cp_authorization p)
      then Inr (Amend_Refused ''BLOCKED'' ''AUTHORIZATION_DRIFT'')
      else let_ok (plan_g1_scope_amend E F (w_id (cp_work p)) w (cp_delta p) a release process) (\<lambda>fresh.
        if cp_digest fresh \<noteq> cp_digest p \<or> cp_preimages fresh \<noteq> cp_preimages p
        then Inr (Amend_Refused ''BLOCKED'' ''REPLAN_REQUIRED'')
        else let r = \<lparr>sr_revision = ca_successor a, sr_work = w_id (cp_work p), sr_preimage = ca_preimage a,
            sr_before = scope_digest E (w_scope (cp_work p)), sr_after = scope_digest E (cp_scope p),
            sr_delta = g1_delta_digest E (cp_delta p), sr_authorization = current_auth_digest E a, sr_plan = cp_digest p,
            sr_invalidated = cp_invalidated p\<rparr> in
          let_ok (check_scope_revision r) (\<lambda>_.
          let q = p\<lparr>cp_authorization := a\<rparr> in
          Inr (Amend_Writes \<lparr>cd_revision = r, cd_work = current_work q, cd_invalidation = current_invalidation q,
            cd_receipt = current_receipt E q release process\<rparr>))))"

section \<open>When a plan is ready\<close>

lemma code_if_Nil [simp]: "code_if b c = [] \<longleftrightarrow> \<not> b"
  by (simp add: code_if_def)

lemma sort_remdups_Nil: "sort (remdups xs) = [] \<longleftrightarrow> xs = []"
  by (metis remdups.simps(1) remdups_eq_nil_iff set_empty set_sort sort_key_simps(1))

definition lane_ok :: "work_env \<Rightarrow> current_facts \<Rightarrow> work \<Rightarrow> g1_delta \<Rightarrow> current_authorization \<Rightarrow> bool" where
  "lane_ok E F w d a =
     (case ca_g2 a of
        None \<Rightarrow> w_kind w = ''work'' \<and> w_profile w \<in> {''G0'', ''G1''} \<and> w_status w \<in> {''paused'', ''blocked''}
      | Some g \<Rightarrow> w_kind w = ''cr'' \<and> (\<exists>level \<in> {''G2'', ''G3''}. effective_risk_profile w = Inr level)
          \<and> w_status w \<in> {''planned'', ''blocked''} \<and> gd_reads d = [] \<and> gd_checks d = []
          \<and> \<not> list_ex wildcard (gd_writes d) \<and> gd_writes d = g2_writes g
          \<and> g2_scope_digest g = scope_digest E (w_scope w)
          \<and> (\<exists>b. cf_checkpoint F = Some b \<and> r_sha (we_release E) b = g2_checkpoint_digest g) \<and> cf_approved F)"

definition snapshot_bound :: "work_env \<Rightarrow> current_facts \<Rightarrow> string \<Rightarrow> g1_delta \<Rightarrow> current_authorization \<Rightarrow> string \<Rightarrow> string \<Rightarrow> bool" where
  "snapshot_bound E F work_id d a release process =
     (ca_work a = work_id \<and> ca_release_oid a = release \<and> ca_process_oid a = process \<and> cf_release_oid F = release
      \<and> cf_process_oid F = process \<and> ca_release_dirty a = cf_release_dirty F \<and> ca_process_dirty a = cf_process_dirty F
      \<and> ca_preimage a = r_sha (we_release E) (cf_work_bytes F) \<and> ca_delta a = g1_delta_digest E d)"

lemma lane_blockers_Nil:
  assumes "(case ca_g2 a of None \<Rightarrow> Inr (g1_blockers w)
       | Some g \<Rightarrow> let_ok (effective_risk_profile w) (\<lambda>level. Inr (g2_blockers E F w d g level))) = Inr lane"
  shows "lane = [] \<longleftrightarrow> lane_ok E F w d a"
proof (cases "ca_g2 a")
  case None
  then show ?thesis using assms by (auto simp: g1_blockers_def lane_ok_def)
next
  case (Some g)
  then obtain level where l: "effective_risk_profile w = Inr level" "lane = g2_blockers E F w d g level"
    using assms by (auto simp: read_simps)
  have a: "approval_blockers E F g = [] \<longleftrightarrow>
      (\<exists>b. cf_checkpoint F = Some b \<and> r_sha (we_release E) b = g2_checkpoint_digest g) \<and> cf_approved F"
    by (auto simp: approval_blockers_def sort_remdups_Nil split: option.split)
  show ?thesis
    unfolding l(2) g2_blockers_def append_is_Nil_conv code_if_Nil a
    by (simp add: lane_ok_def Some l(1))
qed

lemma binding_blockers_Nil: "binding_blockers E F i d a release process = [] \<longleftrightarrow> snapshot_bound E F i d a release process"
  by (auto simp: binding_blockers_def snapshot_bound_def)

definition evidence_refs :: "string \<Rightarrow> current_authorization \<Rightarrow> string list" where
  "evidence_refs work_id a = tl (g1_target_refs work_id (ca_id a) (ca_successor a))"

lemma consumed_iff:
  "list_ex (\<lambda>(ref, pre). ref \<noteq> work_yaml i \<and> pre \<noteq> m)
     (map (\<lambda>ref. (ref, f ref)) (g1_target_refs i (ca_id a) (ca_successor a))) \<longleftrightarrow> (\<exists>ref \<in> set (evidence_refs i a). f ref \<noteq> m)"
proof -
  have "''revisions/'' @ x \<noteq> ''WORK.yaml''" "''evidence/scope-amend/'' @ x \<noteq> ''WORK.yaml''" for x :: string by simp_all
  then show ?thesis by (auto simp: g1_target_refs_def evidence_refs_def work_yaml_def Let_def)
qed

text \<open>The parts of a plan.\<close>

lemma plan_current_Inr:
  assumes "plan_g1_scope_amend E F i w d a release process = Inr p"
  shows "cp_work p = w" "cp_delta p = d" "cp_authorization p = a" "result_g1_scope (w_scope w) d = Inr (cp_scope p)"
    "cp_preimages p = map (\<lambda>ref. (ref, cf_preimage F ref)) (g1_target_refs i (ca_id a) (ca_successor a))"
    "plan_receipt_invalidation d (cf_receipts F) = Inr (cp_receipts p)"
    "cp_invalidated p = (case ca_g2 a of None \<Rightarrow> native_invalidated w i | Some g \<Rightarrow> g2_invalidation g)"
    "cp_blockers p = [] \<longleftrightarrow> lane_ok E F w d a \<and> snapshot_bound E F i d a release process
       \<and> set (native_invalidated w i) \<subseteq> set (cp_invalidated p)
       \<and> (\<forall>ref \<in> set (evidence_refs i a). cf_preimage F ref = missing_digest E) \<and> cf_lineage F \<noteq> None"
    "cp_decision p = (if cp_blockers p \<noteq> [] then ''BLOCKED''
       else if scope_digest E (cp_scope p) = scope_digest E (w_scope w) then ''NO_CHANGE'' else ''READY'')"
proof -
  obtain lane s receipts where
    l: "(case ca_g2 a of None \<Rightarrow> Inr (g1_blockers w)
       | Some g \<Rightarrow> let_ok (effective_risk_profile w) (\<lambda>level. Inr (g2_blockers E F w d g level))) = Inr lane"
    and s: "result_g1_scope (w_scope w) d = Inr s" "plan_receipt_invalidation d (cf_receipts F) = Inr receipts"
    using assms unfolding plan_g1_scope_amend_def Let_def read_simps by blast
  note u = assms [unfolded plan_g1_scope_amend_def l s Let_def let_ok.simps, THEN Inr_inject, symmetric]
  show "cp_work p = w" "cp_delta p = d" "cp_authorization p = a" "result_g1_scope (w_scope w) d = Inr (cp_scope p)"
    "cp_preimages p = map (\<lambda>ref. (ref, cf_preimage F ref)) (g1_target_refs i (ca_id a) (ca_successor a))"
    "plan_receipt_invalidation d (cf_receipts F) = Inr (cp_receipts p)"
    "cp_invalidated p = (case ca_g2 a of None \<Rightarrow> native_invalidated w i | Some g \<Rightarrow> g2_invalidation g)"
    unfolding u using s by simp_all
  have b: "cp_blockers p = [] \<longleftrightarrow> lane = [] \<and> binding_blockers E F i d a release process = []
      \<and> set (native_invalidated w i) \<subseteq> set (cp_invalidated p)
      \<and> (\<forall>ref \<in> set (evidence_refs i a). cf_preimage F ref = missing_digest E) \<and> cf_lineage F \<noteq> None"
    unfolding u by (simp add: sort_remdups_Nil consumed_iff)
  then show "cp_blockers p = [] \<longleftrightarrow> lane_ok E F w d a \<and> snapshot_bound E F i d a release process
       \<and> set (native_invalidated w i) \<subseteq> set (cp_invalidated p)
       \<and> (\<forall>ref \<in> set (evidence_refs i a). cf_preimage F ref = missing_digest E) \<and> cf_lineage F \<noteq> None"
    unfolding lane_blockers_Nil [OF l] binding_blockers_Nil .
  show "cp_decision p = (if cp_blockers p \<noteq> [] then ''BLOCKED''
       else if scope_digest E (cp_scope p) = scope_digest E (w_scope w) then ''NO_CHANGE'' else ''READY'')"
    unfolding u by (simp add: sort_remdups_Nil)
qed

lemma result_g1_Inr: "result_g1_scope s d = Inr t \<longleftrightarrow> scope_ok t \<and>
    t = \<lparr>version = version s + 1, allowed_reads = sort (remdups (allowed_reads s @ gd_reads d)),
      allowed_writes = sort (remdups (allowed_writes s @ gd_writes d)), required_checks = sort (remdups (required_checks s @ gd_checks d))\<rparr>"
  by (auto simp: result_g1_scope_def assert_additive_only_def scope_ok_def Let_def read_simps)

lemma g1_scope_facts:
  assumes "result_g1_scope s d = Inr t"
  shows "scope_ok t" and "version t = version s + 1"
    and "set (allowed_writes t) = set (allowed_writes s) \<union> set (gd_writes d)"
    and "set (allowed_reads t) = set (allowed_reads s) \<union> set (gd_reads d)"
    and "set (required_checks t) = set (required_checks s) \<union> set (gd_checks d)"
proof -
  note r = assms [unfolded result_g1_Inr]
  show "scope_ok t" using r by (rule conjunct1)
  show "version t = version s + 1" "set (allowed_writes t) = set (allowed_writes s) \<union> set (gd_writes d)"
    "set (allowed_reads t) = set (allowed_reads s) \<union> set (gd_reads d)"
    "set (required_checks t) = set (required_checks s) \<union> set (gd_checks d)"
    unfolding conjunct2 [OF r] by simp_all
qed

text \<open>When the amendment of a current Work is ready. A plan blocks exactly when one of the guards fails: the lane (an ordinary
  G0 or G1 Work that is paused or blocked; or a G2 or G3 change request, planned or blocked, whose delta is exactly the authorised
  list of writes, bound to its scope and an approved checkpoint), the binding to both repositories, to the bytes of the Work and to
  the delta, the completeness of the invalidation, unused evidence files and anchors. It never answers that nothing changes unless
  two different scopes have one digest, since the version always grows.\<close>

theorem current_amend_ready_iff:
  assumes "plan_g1_scope_amend E F i w d a release process = Inr p"
  shows "(cp_decision p = ''READY'' \<longleftrightarrow> lane_ok E F w d a \<and> snapshot_bound E F i d a release process
      \<and> set (native_invalidated w i) \<subseteq> set (cp_invalidated p)
      \<and> (\<forall>ref \<in> set (evidence_refs i a). cf_preimage F ref = missing_digest E) \<and> cf_lineage F \<noteq> None
      \<and> scope_digest E (cp_scope p) \<noteq> scope_digest E (w_scope w))
    \<and> (cp_decision p = ''BLOCKED'' \<longleftrightarrow> cp_blockers p \<noteq> [])
    \<and> (cp_decision p = ''NO_CHANGE'' \<longrightarrow> cp_scope p \<noteq> w_scope w \<and> scope_digest E (cp_scope p) = scope_digest E (w_scope w))"
proof -
  note q = plan_current_Inr [OF assms]
  have "version (cp_scope p) = version (w_scope w) + 1" by (rule g1_scope_facts(2) [OF q(4)])
  then have "cp_scope p \<noteq> w_scope w" by auto
  moreover have "cp_decision p = ''READY'' \<longleftrightarrow> cp_blockers p = [] \<and> scope_digest E (cp_scope p) \<noteq> scope_digest E (w_scope w)"
    "cp_decision p = ''BLOCKED'' \<longleftrightarrow> cp_blockers p \<noteq> []"
    "cp_decision p = ''NO_CHANGE'' \<longrightarrow> scope_digest E (cp_scope p) = scope_digest E (w_scope w)"
    unfolding q(9) by simp_all
  ultimately show ?thesis unfolding q(8) by blast
qed

section \<open>What is applied\<close>

lemma apply_current_Inr: "apply_g1_scope_amend E F w p expected a release process = Inr (Amend_Writes docs) \<Longrightarrow>
    cp_decision p = ''READY'' \<and> expected = cp_digest p \<and> current_auth_digest E a = current_auth_digest E (cp_authorization p)
    \<and> (\<exists>fresh. plan_g1_scope_amend E F (w_id (cp_work p)) w (cp_delta p) a release process = Inr fresh
         \<and> cp_digest fresh = cp_digest p \<and> cp_preimages fresh = cp_preimages p)
    \<and> check_scope_revision (cd_revision docs) = Inr () \<and> cd_work docs = current_work (p\<lparr>cp_authorization := a\<rparr>)"
  by (auto simp: apply_g1_scope_amend_def Let_def read_simps split: if_splits)

lemma current_work_sel:
  "w_scope (current_work p) = cp_scope p" "w_kind (current_work p) = w_kind (cp_work p)" "w_id (current_work p) = w_id (cp_work p)"
  "w_unit (current_work p) = w_unit (cp_work p)" "work_level (current_work p) = work_level (cp_work p)"
  "owned_ref (current_work p) = owned_ref (cp_work p)" "binding_record (current_work p) = binding_record (cp_work p)"
  by (auto simp: current_work_def Let_def work_level_def owned_ref_def binding_record_def split: option.split)

lemma current_work_ok:
  assumes "work_ok (cp_work p)" and "scope_ok (cp_scope p)"
  shows "work_ok (current_work p)"
proof -
  have "stored_profile_ok (current_work p) = stored_profile_ok (cp_work p)"
    by (simp add: stored_profile_ok_def current_work_sel) (simp add: current_work_def Let_def split: option.split)
  moreover have "contents_ok (current_work p)"
    using assms by (cases "w_unit (cp_work p)")
      (simp_all add: contents_ok_def work_ok_def current_work_sel, simp_all add: current_work_def Let_def split: option.split)
  moreover have "identity_ok (current_work p)"
    using assms by (simp add: identity_ok_def work_ok_def current_work_sel) (simp add: current_work_def Let_def split: option.split)
  ultimately show ?thesis using assms by (simp add: work_ok_def)
qed

lemma g1_result_permits:
  assumes "result_g1_scope s d = Inr t"
  shows "permits t op req \<longleftrightarrow> permits s op req
    \<or> op = ''write'' \<and> (\<exists>n. normalize_requested_path req = Inr n \<and> (\<exists>rule \<in> set (gd_writes d). matches rule n))
    \<or> op = ''read'' \<and> (\<exists>n. normalize_requested_path req = Inr n \<and> (\<exists>rule \<in> set (gd_reads d). matches rule n))
    \<or> op = ''check'' \<and> check_id_re req \<and> req \<in> set (gd_checks d)"
proof -
  note t = g1_scope_facts(3-5) [OF assms]
  consider "op = ''write''" | "op = ''read''" | "op \<notin> {''read'', ''write''}" by blast
  then show ?thesis
  proof cases
    case 1
    then show ?thesis unfolding permits_iff by (simp add: path_rules_def t bex_Un) blast
  next
    case 2
    then show ?thesis unfolding permits_iff by (simp add: path_rules_def t bex_Un) blast
  next
    case 3
    then show ?thesis unfolding permits_iff by (auto simp: t)
  qed
qed

text \<open>C36: What an application hands to the transaction. The plan was ready and is confirmed by a fresh one with the same digest;
  the updated Work is well-formed, reads back from its document and has the next version of the scope; an operation on a path or check is
  permitted afterwards exactly when it was permitted before or the delta adds a rule for this operation that covers it: a write by an
  added write, a read by an added read, a check by an added check id; in the lane of a change request the added writes are the
  authorised ones and nothing else is added.\<close>

theorem current_amend_applied:
  assumes plan: "plan_g1_scope_amend E F0 (w_id w) w d a release process = Inr p" and "work_ok w"
    and written: "apply_g1_scope_amend E F v p expected a release process = Inr (Amend_Writes docs)"
  shows "cp_decision p = ''READY'' \<and> expected = cp_digest p
    \<and> (\<exists>fresh. plan_g1_scope_amend E F (w_id w) v d a release process = Inr fresh \<and> cp_digest fresh = cp_digest p)
    \<and> work_ok (cd_work docs) \<and> work_from_payload E (work_as_dict E (cd_work docs)) = Inr (cd_work docs)
    \<and> version (w_scope (cd_work docs)) = version (w_scope w) + 1
    \<and> (permits (w_scope (cd_work docs)) op req \<longleftrightarrow> permits (w_scope w) op req
        \<or> op = ''write'' \<and> (\<exists>n. normalize_requested_path req = Inr n \<and> (\<exists>rule \<in> set (gd_writes d). matches rule n))
        \<or> op = ''read'' \<and> (\<exists>n. normalize_requested_path req = Inr n \<and> (\<exists>rule \<in> set (gd_reads d). matches rule n))
        \<or> op = ''check'' \<and> check_id_re req \<and> req \<in> set (gd_checks d))
    \<and> (\<forall>g. ca_g2 a = Some g \<longrightarrow> gd_writes d = g2_writes g \<and> gd_reads d = [] \<and> gd_checks d = [])"
proof -
  note q = plan_current_Inr [OF plan]
  note u = apply_current_Inr [OF written, unfolded q(1-3)]
  have "p\<lparr>cp_authorization := a\<rparr> = p" using q(3) by (cases p) simp
  then have docs: "cd_work docs = current_work p" using u by simp
  note sc = g1_scope_facts(1,2) [OF q(4)]
  have ok: "work_ok (current_work p)" using current_work_ok q(1) assms(2) sc(1) by simp
  have ready: "cp_decision p = ''READY''" "cp_blockers p = []" using u q(9) by (auto split: if_splits)
  then have lane: "lane_ok E F0 w d a" using q(8) by blast
  have g2: "\<forall>g. ca_g2 a = Some g \<longrightarrow> gd_writes d = g2_writes g \<and> gd_reads d = [] \<and> gd_checks d = []"
    using lane by (auto simp: lane_ok_def)
  show ?thesis
    using u ok sc(2) g1_result_permits [OF q(4), of op req] g2 work_roundtrip [OF ok] unfolding docs current_work_sel(1) by blast
qed

lemma native_canonical: "canonical_texts (native_invalidated w i)"
  by (simp add: native_invalidated_def)

text \<open>A ready plan is applied as long as nothing has changed.\<close>

lemma ready_plan_applies:
  assumes plan: "plan_g1_scope_amend E F (w_id w) w d a release process = Inr p" and ready: "cp_decision p = ''READY''"
    and sha: "\<forall>x. digest_re (r_sha (we_release E) x)"
    and "short_id_re (ca_successor a)" "short_id_re (w_id w)" "digest_re (ca_preimage a)" "canonical_texts (cp_invalidated p)"
  shows "\<exists>docs. apply_g1_scope_amend E F w p (cp_digest p) a release process = Inr (Amend_Writes docs)"
proof -
  note q = plan_current_Inr [OF plan]
  have d: "digest_re (scope_digest E s)" "digest_re (current_auth_digest E a)" "digest_re (g1_delta_digest E d)" for s
    using sha by (simp_all add: scope_digest_def current_auth_digest_def canonical_digest_def g1_delta_digest_def ascii_digest_def)
  have "digest_re (cp_digest p)"
    using plan sha by (auto simp: plan_g1_scope_amend_def Let_def read_simps canonical_digest_def)
  then have "check_scope_revision \<lparr>sr_revision = ca_successor a, sr_work = w_id w, sr_preimage = ca_preimage a,
      sr_before = scope_digest E (w_scope w), sr_after = scope_digest E (cp_scope p), sr_delta = g1_delta_digest E d,
      sr_authorization = current_auth_digest E a, sr_plan = cp_digest p, sr_invalidated = cp_invalidated p\<rparr> = Inr ()"
    using d assms(4-7) by (simp add: check_scope_revision_def)
  then show ?thesis using ready plan by (simp add: apply_g1_scope_amend_def q(1-3) Let_def)
qed

lemma plan_current_exists:
  assumes "ca_g2 a = None" and "is_ok (result_g1_scope (w_scope w) d)" and "is_ok (plan_receipt_invalidation d (cf_receipts F))"
  shows "\<exists>p. plan_g1_scope_amend E F i w d a release process = Inr p"
  using assms by (auto simp: plan_g1_scope_amend_def Let_def is_ok_iff)

text \<open>An authorization is used once, and only on the files it was planned for. A ready plan found none of the three evidence
  files; if at the time of the application one of them exists, or the Work is no longer the file of the plan, the application is
  refused, and a new plan for the authorization blocks as soon as one of the evidence files exists.\<close>

theorem current_authorization_single_use:
  assumes plan: "plan_g1_scope_amend E F0 (w_id w) w d a release process = Inr p" and ready: "cp_decision p = ''READY''"
    and used: "(\<exists>ref \<in> set (evidence_refs (w_id w) a). cf_preimage F ref \<noteq> missing_digest E)
      \<or> cf_preimage F (work_yaml (w_id w)) \<noteq> cf_preimage F0 (work_yaml (w_id w))"
  shows "apply_g1_scope_amend E F v p expected a release process \<noteq> Inr (Amend_Writes docs)
    \<and> (\<forall>p'. plan_g1_scope_amend E F (w_id w) v d' a release' process' = Inr p' \<longrightarrow>
        (\<exists>ref \<in> set (evidence_refs (w_id w) a). cf_preimage F ref \<noteq> missing_digest E) \<longrightarrow> cp_decision p' = ''BLOCKED'')"
proof -
  note q = plan_current_Inr [OF plan]
  have "cp_blockers p = []" using ready unfolding q(9) by (auto split: if_splits)
  then have missing: "\<forall>ref \<in> set (evidence_refs (w_id w) a). cf_preimage F0 ref = missing_digest E" using q(8) by blast
  have refs: "g1_target_refs (w_id w) (ca_id a) (ca_successor a) = work_yaml (w_id w) # evidence_refs (w_id w) a"
    by (simp add: evidence_refs_def g1_target_refs_def Let_def)
  have "apply_g1_scope_amend E F v p expected a release process \<noteq> Inr (Amend_Writes docs)"
  proof
    assume "apply_g1_scope_amend E F v p expected a release process = Inr (Amend_Writes docs)"
    note u = apply_current_Inr [OF this, unfolded q(1-3)]
    then obtain fresh where fresh: "plan_g1_scope_amend E F (w_id w) v d a release process = Inr fresh"
      "cp_preimages fresh = cp_preimages p" by blast
    note r = plan_current_Inr(5) [OF fresh(1)]
    show False using fresh(2) used missing unfolding r q(5) refs by auto
  qed
  moreover have "cp_decision p' = ''BLOCKED''"
    if "plan_g1_scope_amend E F (w_id w) v d' a release' process' = Inr p'"
      "\<exists>ref \<in> set (evidence_refs (w_id w) a). cf_preimage F ref \<noteq> missing_digest E" for p'
    using plan_current_Inr(8,9) [OF that(1)] that(2) by auto
  ultimately show ?thesis by blast
qed

section \<open>Retained receipts\<close>

lemma split_char_snoc: "split_char c (s @ [c]) = split_char c s @ [[]]"
  by (induction s) (auto split: list.splits)

lemma plain_segments_last: "plain_segments s \<Longrightarrow> s \<noteq> [] \<Longrightarrow> last s \<noteq> slash"
proof
  assume p: "plain_segments s" and "s \<noteq> []" and "last s = slash"
  then have "s = butlast s @ [CHR ''/'']" by (metis append_butlast_last_id slash_def)
  then have "split_char CHR ''/'' s = split_char CHR ''/'' (butlast s) @ [[]]" by (metis split_char_snoc)
  then show False using p by (simp add: plain_segments_def)
qed

lemma matches_touches:
  assumes "delta_pattern rule" and "matches rule x"
  shows "path_touches rule x"
proof (cases "suffix dir_pattern rule")
  case True
  then obtain b where b: "rule = b @ dir_pattern" by (auto simp: suffix_def)
  have base: "take (length rule - 3) rule = b" unfolding b by (simp add: dir_pattern_def)
  then have "pattern_base rule = b" using True by (simp add: pattern_base_dir)
  then have plain: "b \<noteq> []" "last b \<noteq> slash"
    using assms(1) plain_segments_last [of b] by (auto simp: delta_pattern_def Let_def)
  have "x = b \<or> prefix (b @ [slash]) x"
    using assms(2) True unfolding matches_def Let_def base by (simp add: rstrip_last [OF plain])
  moreover have "rstrip_by (\<lambda>c. c = CHR ''*'') rule = b @ [slash]"
    unfolding b dir_pattern_def rstrip_by_def by (simp add: slash_def)
  moreover have "prefix (b @ ''/'') rule" unfolding b dir_pattern_def by (simp add: slash_def)
  ultimately show ?thesis unfolding path_touches_def by (auto simp: slash_def)
next
  case False
  then show ?thesis using assms(2) by (simp add: matches_def path_touches_def)
qed

lemma map_result_source: "map_result f xs = Inr ys \<Longrightarrow> y \<in> set ys \<Longrightarrow> \<exists>x \<in> set xs. f x = Inr y"
  by (induction xs arbitrary: ys) (auto split: sum.splits)

lemma retained_untouched:
  assumes "plan_receipt_invalidation d files = Inr entries" and "e \<in> set entries" and "re_decision e = ''retained''"
  obtains p touched where "(re_name e, Parsed (PDict p)) \<in> set files" and "touched_paths p = Inr touched"
    and "\<forall>x \<in> set touched. \<forall>r \<in> set (gd_reads d @ gd_writes d @ gd_checks d). \<not> path_touches r x"
proof -
  have "map_result (receipt_entry_of d) (sort_key fst files) = Inr entries" using assms(1) unfolding plan_receipt_invalidation_def .
  then obtain f where f: "f \<in> set files" "receipt_entry_of d f = Inr e"
    using assms(2) map_result_source [of "receipt_entry_of d" "sort_key fst files" entries e] by auto
  obtain name g where nf: "f = (name, g)" by (cases f)
  obtain p where p: "g = Parsed (PDict p)"
    using f(2) assms(3) unfolding nf receipt_entry_of_def by (cases g) (auto split: pyval.splits)
  obtain touched where t: "touched_paths p = Inr touched" and e: "Inr e = (let paths = filter (\<lambda>a. list_ex (path_touches a) touched) (delta_paths d) in
         (Inr (if paths \<noteq> []
           then \<lparr>re_name = name, re_decision = ''invalidated'', re_reason = ''INVALIDATED_BY_SCOPE_VERSION'', re_paths = paths\<rparr>
           else \<lparr>re_name = name, re_decision = ''retained'', re_reason = ''NO_SCOPE_INTERSECTION'', re_paths = []\<rparr>) :: receipt_entry result))"
    using f(2) unfolding nf p receipt_entry_of_def prod.case receipt_file.case pyval.case read_simps by metis
  then have "filter (\<lambda>a. list_ex (path_touches a) touched) (delta_paths d) = []" "re_name e = name"
    using assms(3) by (auto simp: Let_def split: if_splits)
  then have "\<forall>x \<in> set touched. \<forall>r \<in> set (gd_reads d @ gd_writes d @ gd_checks d). \<not> path_touches r x" "re_name e = name"
    unfolding filter_empty_conv delta_paths_def list_ex_iff set_sort set_remdups by blast+
  then show ?thesis using that [OF _ t] f(1) unfolding nf p by blast
qed

text \<open>C37: A retained receipt keeps its meaning. The receipt holds an object, and for every path it records in normal form the
  amended scope decides each operation as the scope before: no rule of the delta covers the path and no added check is it.\<close>

theorem retained_receipt_keeps_decisions:
  assumes "plan_receipt_invalidation d files = Inr entries" and "e \<in> set entries" and "re_decision e = ''retained''"
    and "check_g1_delta d = Inr ()" and "result_g1_scope s d = Inr t"
  shows "\<exists>p touched. (re_name e, Parsed (PDict p)) \<in> set files \<and> touched_paths p = Inr touched
    \<and> (\<forall>x \<in> set touched. as_posix x = x \<longrightarrow> permits t op x = permits s op x)"
proof -
  obtain p touched where p: "(re_name e, Parsed (PDict p)) \<in> set files" "touched_paths p = Inr touched"
    and untouched: "\<forall>x \<in> set touched. \<forall>r \<in> set (gd_reads d @ gd_writes d @ gd_checks d). \<not> path_touches r x"
    by (rule retained_untouched [OF assms(1-3)])
  have patterns: "\<forall>r \<in> set (gd_reads d @ gd_writes d). delta_pattern r"
    using assms(4) by (auto simp: check_g1_delta_def read_simps list_all_iff)
  have "permits t op x = permits s op x" if x: "x \<in> set touched" "as_posix x = x" for x
  proof -
    have n: "n = x" if "normalize_requested_path x = Inr n" for n
      using that x(2) by (simp add: normalize_requested_path_cases split: if_splits)
    have "\<not> matches r x" if "r \<in> set (gd_reads d @ gd_writes d)" for r
      using that patterns untouched x(1) matches_touches [of r x] by auto
    moreover have "x \<notin> set (gd_checks d)" using untouched x(1) by (auto simp: path_touches_def)
    ultimately show ?thesis unfolding g1_result_permits [OF assms(5)] using n by auto
  qed
  then show ?thesis using p by blast
qed

section \<open>Examples\<close>

text \<open>An environment whose digest tells texts apart by the parity of their length.\<close>

definition length_digest :: "string \<Rightarrow> string" where
  "length_digest s = replicate 63 CHR ''0'' @ (if foldr (\<lambda>_ b. \<not> b) s False then ''1'' else ''0'')"

definition work_env1 :: work_env where
  "work_env1 = \<lparr>we_release = release_env0\<lparr>r_sha := length_digest, r_json := sample_dumps\<rparr>, we_ascii = sample_dumps\<rparr>"

definition paused_work0 :: work where
  "paused_work0 = work0\<lparr>w_status := ''paused''\<rparr>"

definition g1_delta_document0 :: pydict where
  "g1_delta_document0 = [(''schema_version'', PStr '' 1 ''), (''add_reads'', PList []), (''add_writes'', PList [PStr ''src/**'']),
     (''add_checks'', PList []), (''reason'', PStr ''more'')]"

definition g1_delta0 :: g1_delta where
  "g1_delta0 = \<lparr>gd_schema = 1, gd_reads = [], gd_writes = [''src/**''], gd_checks = [], gd_reason = ''more''\<rparr>"

definition oid0 :: string where
  "oid0 = replicate 40 CHR ''a''"

definition current_auth_document0 :: pydict where
  "current_auth_document0 = [(''schema_version'', PInt 1), (''operation'', PStr ''work.scope-amend.g1''),
     (''authorization_id'', PStr ''A-1''), (''work_id'', PStr ''W-1''), (''successor_revision_id'', PStr ''r2''),
     (''release_oid'', PStr oid0), (''process_oid'', PStr oid0), (''release_dirty_digest'', PStr (length_digest [])),
     (''process_dirty_digest'', PStr (length_digest [])), (''work_preimage_digest'', PStr (length_digest ''work'')),
     (''delta_digest'', PStr (g1_delta_digest work_env1 g1_delta0)), (''issued_at'', PStr ''2026-01-01'')]"

definition current_auth0 :: current_authorization where
  "current_auth0 = \<lparr>ca_schema = PInt 1, ca_id = ''A-1'', ca_work = ''W-1'', ca_successor = ''r2'', ca_release_oid = oid0,
     ca_process_oid = oid0, ca_release_dirty = length_digest [], ca_process_dirty = length_digest [],
     ca_preimage = length_digest ''work'', ca_delta = g1_delta_digest work_env1 g1_delta0, ca_issued = PStr ''2026-01-01'', ca_g2 = None\<rparr>"

definition receipt_files0 :: "(string \<times> receipt_file) list" where
  "receipt_files0 = [(''b.json'', Parsed (PDict [(''paths'', PList [PStr ''docs/a.md''])])),
     (''a.json'', Parsed (PDict [(''paths'', PList [PStr ''src/a.py''])])), (''c.json'', Irregular None)]"

definition current_facts0 :: current_facts where
  "current_facts0 = \<lparr>cf_release_oid = oid0, cf_process_oid = oid0, cf_release_dirty = length_digest [],
     cf_process_dirty = length_digest [], cf_work_bytes = ''work'', cf_checkpoint = None, cf_approved = False,
     cf_preimage = (\<lambda>_. missing_digest work_env1), cf_lineage = Some [], cf_receipts = receipt_files0\<rparr>"

definition current_used0 :: current_facts where
  "current_used0 = current_facts0\<lparr>cf_preimage := (\<lambda>ref. if ref = ''works/W-1/revisions/r2.json'' then length_digest ''x''
     else missing_digest work_env1)\<rparr>"

lemma current_examples: "work_ok paused_work0" "check_g1_delta g1_delta0 = Inr ()"
  "g1_delta_from_mapping g1_delta_document0 = Inr g1_delta0"
  "load_current_authorization (PDict current_auth_document0) = Inr current_auth0"
  by code_simp+

lemma length_digest_re: "digest_re (length_digest s)"
proof -
  have "lower_hex CHR ''0''" "lower_hex CHR ''1''" by code_simp+
  then show ?thesis by (simp add: hex_id_def length_digest_def list_all_iff)
qed

lemma current_ready0:
  obtains p docs where "plan_g1_scope_amend work_env1 current_facts0 (w_id paused_work0) paused_work0 g1_delta0 current_auth0 oid0 oid0 = Inr p"
    and "cp_decision p = ''READY''"
    and "apply_g1_scope_amend work_env1 current_facts0 paused_work0 p (cp_digest p) current_auth0 oid0 oid0 = Inr (Amend_Writes docs)"
proof -
  have g: "ca_g2 current_auth0 = None" "is_ok (result_g1_scope (w_scope paused_work0) g1_delta0)"
    "is_ok (plan_receipt_invalidation g1_delta0 (cf_receipts current_facts0))" by code_simp+
  obtain p where p: "plan_g1_scope_amend work_env1 current_facts0 (w_id paused_work0) paused_work0 g1_delta0 current_auth0 oid0 oid0 = Inr p"
    using plan_current_exists [OF g] by blast
  note q = plan_current_Inr [OF p]
  have "lane_ok work_env1 current_facts0 paused_work0 g1_delta0 current_auth0"
    unfolding lane_ok_def g(1) option.case by code_simp
  moreover have "snapshot_bound work_env1 current_facts0 (w_id paused_work0) g1_delta0 current_auth0 oid0 oid0" by code_simp
  moreover have "cf_lineage current_facts0 \<noteq> None" "\<forall>ref. cf_preimage current_facts0 ref = missing_digest work_env1"
    by (simp_all add: current_facts0_def)
  moreover have inv: "cp_invalidated p = native_invalidated paused_work0 (w_id paused_work0)" using q(7) g(1) by simp
  ultimately have b: "cp_blockers p = []" unfolding q(8) by simp
  have "case result_g1_scope (w_scope paused_work0) g1_delta0 of Inl _ \<Rightarrow> False
    | Inr s \<Rightarrow> scope_digest work_env1 s \<noteq> scope_digest work_env1 (w_scope paused_work0)" by code_simp
  then have ready: "cp_decision p = ''READY''" unfolding q(9) using b q(4) by simp
  have "r_sha (we_release work_env1) = length_digest" by (simp add: work_env1_def)
  then have sha: "\<forall>x. digest_re (r_sha (we_release work_env1) x)" using length_digest_re by simp
  have ids: "short_id_re (ca_successor current_auth0)" "short_id_re (w_id paused_work0)" "digest_re (ca_preimage current_auth0)"
    by code_simp+
  show ?thesis
    using ready_plan_applies [OF p ready sha ids] native_canonical that [OF p ready] unfolding inv by blast
qed

theorem current_amend_ready_iff_witness:
  "\<exists>p. plan_g1_scope_amend work_env1 current_facts0 (w_id paused_work0) paused_work0 g1_delta0 current_auth0 oid0 oid0 = Inr p
    \<and> cp_decision p = ''READY'' \<and> snapshot_bound work_env1 current_facts0 (w_id paused_work0) g1_delta0 current_auth0 oid0 oid0"
  by (rule current_ready0) (use current_amend_ready_iff in blast)

theorem current_amend_applied_witness:
  "\<exists>p docs. plan_g1_scope_amend work_env1 current_facts0 (w_id paused_work0) paused_work0 g1_delta0 current_auth0 oid0 oid0 = Inr p
    \<and> apply_g1_scope_amend work_env1 current_facts0 paused_work0 p (cp_digest p) current_auth0 oid0 oid0 = Inr (Amend_Writes docs)
    \<and> version (w_scope (cd_work docs)) = 2 \<and> permits (w_scope (cd_work docs)) ''write'' ''docs/x''
    \<and> \<not> permits (w_scope (cd_work docs)) ''write'' ''tests/x''"
proof -
  obtain p docs where p: "plan_g1_scope_amend work_env1 current_facts0 (w_id paused_work0) paused_work0 g1_delta0 current_auth0 oid0 oid0 = Inr p"
    and a: "apply_g1_scope_amend work_env1 current_facts0 paused_work0 p (cp_digest p) current_auth0 oid0 oid0 = Inr (Amend_Writes docs)"
    by (rule current_ready0)
  note t = current_amend_applied [OF p current_examples(1) a]
  have v: "version (w_scope paused_work0) = 1" "permits (w_scope paused_work0) ''write'' ''docs/x''"
    "\<not> permits (w_scope paused_work0) ''write'' ''tests/x''" "ca_g2 current_auth0 = None" by code_simp+
  have n: "normalize_requested_path ''tests/x'' = Inr ''tests/x''" "list_all (\<lambda>rule. \<not> matches rule ''tests/x'') (gd_writes g1_delta0)"
    and neq: "''write'' \<noteq> ''read''" "''write'' \<noteq> ''check''" by code_simp+
  have "version (w_scope (cd_work docs)) = 2" "permits (w_scope (cd_work docs)) ''write'' ''docs/x''"
    using t [of "''write''" "''docs/x''"] v by simp_all
  moreover have "\<not> permits (w_scope (cd_work docs)) ''write'' ''tests/x''"
    using t [of "''write''" "''tests/x''"] v(3) n neq unfolding list_all_iff by simp
  ultimately show ?thesis using p a by blast
qed

theorem current_authorization_single_use_witness:
  "\<exists>p. plan_g1_scope_amend work_env1 current_facts0 (w_id paused_work0) paused_work0 g1_delta0 current_auth0 oid0 oid0 = Inr p
    \<and> (\<forall>docs. apply_g1_scope_amend work_env1 current_used0 paused_work0 p (cp_digest p) current_auth0 oid0 oid0 \<noteq> Inr (Amend_Writes docs))"
proof -
  obtain p where p: "plan_g1_scope_amend work_env1 current_facts0 (w_id paused_work0) paused_work0 g1_delta0 current_auth0 oid0 oid0 = Inr p"
    "cp_decision p = ''READY''" by (rule current_ready0)
  have "list_ex (\<lambda>ref. cf_preimage current_used0 ref \<noteq> missing_digest work_env1) (evidence_refs (w_id paused_work0) current_auth0)"
    by code_simp
  then show ?thesis using p(1) current_authorization_single_use [OF p] unfolding list_ex_iff by blast
qed

theorem retained_receipt_keeps_decisions_witness:
  "\<exists>entries. plan_receipt_invalidation g1_delta0 receipt_files0 = Inr entries
    \<and> map re_decision entries = [''invalidated'', ''retained'', ''invalidated'']
    \<and> (\<exists>p touched. (''b.json'', Parsed (PDict p)) \<in> set receipt_files0 \<and> touched_paths p = Inr touched
        \<and> (\<forall>x \<in> set touched. as_posix x = x \<longrightarrow>
            permits \<lparr>version = 2, allowed_reads = [], allowed_writes = [''src/**''], required_checks = []\<rparr> ''write'' x
            = permits \<lparr>version = 1, allowed_reads = [], allowed_writes = [], required_checks = []\<rparr> ''write'' x))"
proof -
  let ?b = "\<lparr>re_name = ''b.json'', re_decision = ''retained'', re_reason = ''NO_SCOPE_INTERSECTION'', re_paths = []\<rparr>"
  have "case plan_receipt_invalidation g1_delta0 receipt_files0 of Inl _ \<Rightarrow> False
    | Inr es \<Rightarrow> map re_decision es = [''invalidated'', ''retained'', ''invalidated''] \<and> ?b \<in> set es" by code_simp
  then obtain es where es: "plan_receipt_invalidation g1_delta0 receipt_files0 = Inr es"
    "map re_decision es = [''invalidated'', ''retained'', ''invalidated'']" "?b \<in> set es"
    by (auto split: sum.splits)
  have r: "result_g1_scope \<lparr>version = 1, allowed_reads = [], allowed_writes = [], required_checks = []\<rparr> g1_delta0
    = Inr \<lparr>version = 2, allowed_reads = [], allowed_writes = [''src/**''], required_checks = []\<rparr>" by code_simp
  show ?thesis
    using es retained_receipt_keeps_decisions [OF es(1,3) _ current_examples(2) r, where op = "''write''"] by auto
qed

end
