(* ===== verification/Failure_Routing.thy ===== *)
theory Failure_Routing
  imports Work_Lifecycle
begin

text \<open>
  What happens after a failure: the classification of the facts, the routing of a failed slice and the decision on an
  automatic recovery (\<open>policies/failure_routing.py\<close>), and the plan of a rework (\<open>semantics/attempt.py\<close>). Facts, policies and
  budgets are dictionaries of Python values, as the callers pass them; the ill-typed ones raise. The loading of the policy
  documents is not part of this theory.
\<close>

section \<open>Classification\<close>

definition failure_classes :: "string list" where
  "failure_classes = [''CHECK_HARNESS_ERROR'', ''DETERMINISTIC_SCHEMA_REPAIR'', ''REAL_CONTENT_FAILURE'', ''PARTIAL_MUTATION'']"

definition non_recoverable_failures :: "string list" where
  "non_recoverable_failures = [''REAL_CONTENT_FAILURE'', ''PARTIAL_MUTATION'', ''UNKNOWN'']"

record failure_classification =
  fc_class :: string
  fc_reasons :: "string list"
  fc_candidate :: bool

definition fact :: "pydict \<Rightarrow> string \<Rightarrow> bool" where
  "fact d k = truthy (dget d k)"

definition classify_failure :: "pydict \<Rightarrow> failure_classification" where
  "classify_failure facts =
     (if fact facts ''partial_mutation'' \<or> fact facts ''mutation_receipts''
      then \<lparr>fc_class = ''PARTIAL_MUTATION'', fc_reasons = [''PARTIAL_MUTATION_OBSERVED''], fc_candidate = False\<rparr>
      else if fact facts ''real_content_failure'' \<or> fact facts ''contract_failure'' \<or> fact facts ''semantic_failure''
      then \<lparr>fc_class = ''REAL_CONTENT_FAILURE'', fc_reasons = [''CONTENT_OR_CONTRACT_FAILURE''], fc_candidate = False\<rparr>
      else if fact facts ''deterministic_schema_repair'' \<and> fact facts ''repair_path_in_scope'' \<and> fact facts ''before_digest_matches''
      then \<lparr>fc_class = ''DETERMINISTIC_SCHEMA_REPAIR'', fc_reasons = [''DETERMINISTIC_REPAIR_PROVEN''], fc_candidate = True\<rparr>
      else if fact facts ''check_harness_error'' \<and> fact facts ''semantic_digest_unchanged''
      then \<lparr>fc_class = ''CHECK_HARNESS_ERROR'', fc_reasons = [''HARNESS_ERROR_WITH_UNCHANGED_SEMANTICS''], fc_candidate = True\<rparr>
      else \<lparr>fc_class = ''UNKNOWN'', fc_reasons = [''FAILURE_CLASSIFICATION_INSUFFICIENT''], fc_candidate = False\<rparr>)"

definition failure_class_as_dict :: "failure_classification \<Rightarrow> pydict" where
  "failure_class_as_dict c =
     [(''failure_class'', PStr (fc_class c)), (''reason_codes'', PList (map PStr (fc_reasons c))),
      (''automatic_recovery_candidate'', PBool (fc_candidate c))]"

section \<open>The route of a failed slice\<close>

definition validation_layer_order :: "string list" where
  "validation_layer_order = [''targeted'', ''compatibility'', ''full'']"

record slice_route =
  sf_decision :: string
  sf_class :: string
  sf_layer :: string
  sf_slice :: string
  sf_action :: string
  sf_invalidated :: "string list"
  sf_reopened :: "string list"
  sf_stop :: bool

text \<open>\<open>values[values.index(x):]\<close>, and the first occurrences of a list in order.\<close>

definition from_layer :: "string \<Rightarrow> string list \<Rightarrow> string list" where
  "from_layer x xs = dropWhile (\<lambda>y. y \<noteq> x) xs"

definition first_occurrences :: "string list \<Rightarrow> string list" where
  "first_occurrences xs = rev (remdups (rev xs))"

definition route_slice_failure :: "string \<Rightarrow> string \<Rightarrow> string \<Rightarrow> string list \<Rightarrow> slice_route result" where
  "route_slice_failure cls failed slice invalidated_slices =
     let_ok (guard (cls \<in> set (failure_classes @ [''UNKNOWN''])) ''unsupported failure class'') (\<lambda>_.
     let_ok (guard (failed \<in> set validation_layer_order) ''unsupported validation layer'') (\<lambda>_.
     let_ok (guard (slice \<noteq> []) ''current_slice_id is required'') (\<lambda>_.
     let route = (\<lambda>decision action layers reopened. \<lparr>sf_decision = decision, sf_class = cls, sf_layer = failed, sf_slice = slice,
           sf_action = action, sf_invalidated = layers, sf_reopened = reopened, sf_stop = True\<rparr>);
         later = from_layer failed validation_layer_order in
     Inr (if cls = ''CHECK_HARNESS_ERROR''
       then route ''RETRY_LAYER'' ''repair_harness_then_rerun_failed_layer'' [failed] []
       else if cls = ''PARTIAL_MUTATION''
       then route ''RECOVERY_REQUIRED'' ''inspect_then_explicit_resume_or_rollback'' later []
       else if cls = ''UNKNOWN''
       then route ''BLOCKED'' ''classify_failure_before_retry'' later []
       else route ''REWORK_CURRENT_SLICE''
         (if cls = ''DETERMINISTIC_SCHEMA_REPAIR'' then ''repair_schema_in_current_slice'' else ''repair_content_in_current_slice'')
         later (first_occurrences (slice # first_occurrences invalidated_slices))))))"

definition slice_route_as_dict :: "slice_route \<Rightarrow> pydict" where
  "slice_route_as_dict r =
     [(''decision'', PStr (sf_decision r)), (''failure_class'', PStr (sf_class r)), (''failed_layer'', PStr (sf_layer r)),
      (''current_slice_id'', PStr (sf_slice r)), (''next_action'', PStr (sf_action r)),
      (''invalidated_layers'', PList (map PStr (sf_invalidated r))), (''reopened_slices'', PList (map PStr (sf_reopened r))),
      (''stop_downstream'', PBool (sf_stop r))]"

section \<open>Automatic recovery\<close>

definition profile_recovery_max :: "(string \<times> int) list" where
  "profile_recovery_max = [(''G0'', 1), (''G1'', 2), (''G2'', 2), (''G3'', 2)]"

definition drift_facts :: "string list" where
  "drift_facts = [''facts_digest'', ''scope_digest'', ''oid_digest'', ''authz_digest'', ''profile_digest'']"

record recovery_decision =
  ard_decision :: string
  ard_profile :: string
  ard_route_max :: int
  ard_effective_max :: int
  ard_completed :: int
  ard_remaining :: int
  ard_action :: string
  ard_reasons :: "string list"
  ard_targeted :: bool

definition policy_value :: "pydict \<Rightarrow> string \<Rightarrow> pyval \<Rightarrow> pyval" where
  "policy_value policy k v =
     (case dget policy ''recovery'' of
        PDict d \<Rightarrow> if k \<in> dkeys d then dget d k else dget_or policy k v
      | _ \<Rightarrow> dget_or policy k v)"

definition cost_of :: "pydict \<Rightarrow> string \<Rightarrow> int result" where
  "cost_of cost k = py_int (dget_or cost k (PInt 0))"

text \<open>\<open>remaining is None or int(remaining) < needed\<close>.\<close>

definition too_little :: "pyval \<Rightarrow> int \<Rightarrow> bool result" where
  "too_little v needed = (if v = PNone then Inr True else let_ok (py_int v) (\<lambda>n. Inr (n < needed)))"

fun budget_reasons :: "pydict \<Rightarrow> pydict \<Rightarrow> string list \<Rightarrow> string list result" where
  "budget_reasons remaining cost [] = Inr []"
| "budget_reasons remaining cost (k # ks) =
     let_ok (cost_of cost k) (\<lambda>c.
     let_ok (too_little (dget remaining k) c) (\<lambda>b.
     let_ok (budget_reasons remaining cost ks) (\<lambda>rs. Inr (if b then (py_upper k @ ''_BUDGET_INSUFFICIENT'') # rs else rs))))"

definition budget_allows_recovery :: "string \<Rightarrow> pydict \<Rightarrow> pydict \<Rightarrow> int \<Rightarrow> string list result" where
  "budget_allows_recovery profile remaining cost pending =
     let_ok (budget_reasons remaining cost [''reads'', ''writes'', ''tokens'']) (\<lambda>rs.
     let_ok (cost_of cost ''check_groups'') (\<lambda>c.
     let_ok (too_little (dget remaining ''check_groups'') (if profile = ''G0'' then c + pending else c)) (\<lambda>b.
     Inr (rs @ (if b then [''CHECK_GROUP_BUDGET_INSUFFICIENT''] else [])))))"

text \<open>Every refusal lists a reason, with the next action; an admitted recovery has the number of attempts of the policy.\<close>

definition recovery_reasons ::
    "string \<Rightarrow> string \<Rightarrow> int \<Rightarrow> pydict \<Rightarrow> pydict \<Rightarrow> pydict \<Rightarrow> pydict \<Rightarrow> int \<Rightarrow> (string list \<times> string \<times> int) result" where
  "recovery_reasons cls profile route_max baseline now remaining cost pending =
     (if map_of profile_recovery_max profile \<noteq> Some route_max then Inr ([''PROFILE_ROUTE_CONFLICT''], ''require_user_decision'', 0)
      else if cls \<notin> set failure_classes then Inr ([''FAILURE_CLASSIFICATION_UNKNOWN''], ''require_user_decision'', 0)
      else if cls \<in> set non_recoverable_failures
      then Inr ([cls @ ''_AUTOMATIC_RECOVERY_FORBIDDEN''],
        if cls = ''PARTIAL_MUTATION'' then ''preserve_partial_and_stop'' else ''rework_content'', 0)
      else let drifted = filter (\<lambda>k. \<not> py_eq (dget baseline k) (dget now k)) drift_facts in
        if drifted \<noteq> [] then Inr (map (\<lambda>k. py_upper k @ ''_DRIFT'') drifted, ''replan_or_reclassify'', 0)
        else let_ok (budget_allows_recovery profile remaining cost pending) (\<lambda>rs.
          Inr (if rs \<noteq> [] then (rs, ''stop_budget_blocked'', 0) else ([], ''rerun_original_check_group'', route_max))))"

definition route_max_of :: "pydict \<Rightarrow> int" where
  "route_max_of policy = (case py_int (policy_value policy ''max_auto_recovery_attempts'' (PInt (-1))) of Inl _ \<Rightarrow> -1 | Inr n \<Rightarrow> n)"

definition profile_of_policy :: "pydict \<Rightarrow> string" where
  "profile_of_policy policy = py_upper (py_str (policy_value policy ''risk_profile'' (PStr [])))"

definition evaluate_recovery ::
    "string \<Rightarrow> pydict \<Rightarrow> int \<Rightarrow> pydict \<Rightarrow> pydict \<Rightarrow> pydict \<Rightarrow> pydict \<Rightarrow> int \<Rightarrow> recovery_decision result" where
  "evaluate_recovery cls policy attempts baseline now remaining cost pending =
     let_ok (guard (0 \<le> attempts \<and> 0 \<le> pending) ''attempt and pending check counts must be non-negative'') (\<lambda>_.
     let profile = profile_of_policy policy; route_max = route_max_of policy in
     let_ok (recovery_reasons cls profile route_max baseline now remaining cost pending) (\<lambda>(reasons, action, effective).
     let left = max (effective - attempts) 0; permitted = (0 < effective \<and> 0 < left);
         exhausted = (\<not> permitted \<and> reasons = [] \<and> effective \<le> attempts) in
     Inr \<lparr>ard_decision = (if permitted then ''RECOVERY_ALLOWED'' else ''RECOVERY_BLOCKED''), ard_profile = profile,
       ard_route_max = route_max, ard_effective_max = effective, ard_completed = attempts, ard_remaining = left,
       ard_action = (if exhausted then ''stop_recovery_loop'' else action),
       ard_reasons = (if exhausted then [''AUTO_RECOVERY_LIMIT_REACHED''] else reasons),
       ard_targeted = (profile \<in> {''G0'', ''G1''})\<rparr>))"

section \<open>Rework\<close>

definition validation_layers :: "string list" where
  "validation_layers = [''static'', ''targeted'', ''compatibility'', ''full'']"

record failure_attempt =
  fa_previous_work :: string
  fa_next_work :: string
  fa_previous_thread :: string
  fa_next_thread :: string
  fa_previous_attempt :: string
  fa_next_attempt :: string
  fa_previous_dispatch :: string
  fa_next_dispatch :: string
  fa_source_changed :: bool
  fa_command_changed :: bool
  fa_worktree :: string

record rework_plan =
  rw_decision :: string
  rw_reuse_work :: bool
  rw_reuse_thread :: bool
  rw_new_attempt :: bool
  rw_new_dispatch :: bool
  rw_create_worktree :: bool
  rw_restart :: string
  rw_layers :: "string list"
  rw_reasons :: "string list"

definition rework_reasons :: "failure_attempt \<Rightarrow> string \<Rightarrow> string list" where
  "rework_reasons a failed =
     (if fa_previous_work a = [] \<or> fa_previous_work a \<noteq> fa_next_work a then [''REWORK_MUST_REUSE_WORK''] else [])
     @ (if fa_previous_thread a = [] \<or> fa_previous_thread a \<noteq> fa_next_thread a then [''REWORK_MUST_REUSE_VERIFIED_THREAD''] else [])
     @ (if fa_previous_attempt a = [] \<or> fa_previous_attempt a = fa_next_attempt a then [''REWORK_REQUIRES_NEW_ATTEMPT_ID''] else [])
     @ (if fa_previous_dispatch a = [] \<or> fa_previous_dispatch a = fa_next_dispatch a then [''REWORK_REQUIRES_NEW_DISPATCH_ID''] else [])
     @ (if failed \<notin> set validation_layers then [''REWORK_FAILED_LAYER_INVALID''] else [])
     @ (if fa_worktree a \<noteq> ''root-branch-only'' then [''REWORK_MUST_NOT_CREATE_WORKTREE''] else [])"

definition restart_layer :: "failure_attempt \<Rightarrow> string \<Rightarrow> string" where
  "restart_layer a failed =
     (if fa_source_changed a \<or> fa_command_changed a then ''static'' else if failed \<in> set validation_layers then failed else [])"

definition plan_rework :: "failure_attempt \<Rightarrow> string \<Rightarrow> rework_plan" where
  "plan_rework a failed =
     (let reasons = rework_reasons a failed; start = restart_layer a failed in
      \<lparr>rw_decision = (if reasons \<noteq> [] then ''BLOCKED'' else ''READY''),
       rw_reuse_work = (fa_previous_work a = fa_next_work a \<and> fa_previous_work a \<noteq> []),
       rw_reuse_thread = (fa_previous_thread a = fa_next_thread a \<and> fa_previous_thread a \<noteq> []),
       rw_new_attempt = (fa_previous_attempt a \<noteq> fa_next_attempt a \<and> fa_next_attempt a \<noteq> []),
       rw_new_dispatch = (fa_previous_dispatch a \<noteq> fa_next_dispatch a \<and> fa_next_dispatch a \<noteq> []),
       rw_create_worktree = False, rw_restart = start,
       rw_layers = (if start \<in> set validation_layers then from_layer start validation_layers else []), rw_reasons = reasons\<rparr>)"

section \<open>When a recovery is admitted\<close>

definition recoverable_failures :: "string list" where
  "recoverable_failures = [''CHECK_HARNESS_ERROR'', ''DETERMINISTIC_SCHEMA_REPAIR'']"

lemma recoverable_iff: "cls \<in> set failure_classes \<and> cls \<notin> set non_recoverable_failures \<longleftrightarrow> cls \<in> set recoverable_failures"
  by (auto simp: failure_classes_def non_recoverable_failures_def recoverable_failures_def)

definition fits :: "pydict \<Rightarrow> pydict \<Rightarrow> string \<Rightarrow> int \<Rightarrow> bool" where
  "fits remaining cost k reserve = (dget remaining k \<noteq> PNone
     \<and> (\<exists>n c. py_int (dget remaining k) = Inr n \<and> cost_of cost k = Inr c \<and> c + reserve \<le> n))"

definition budget_fits :: "string \<Rightarrow> pydict \<Rightarrow> pydict \<Rightarrow> int \<Rightarrow> bool" where
  "budget_fits profile remaining cost pending =
     ((\<forall>k \<in> {''reads'', ''writes'', ''tokens''}. fits remaining cost k 0)
      \<and> fits remaining cost ''check_groups'' (if profile = ''G0'' then pending else 0))"

lemma too_little_Inr: "too_little v c = Inr b \<longleftrightarrow>
    (if v = PNone then b else \<exists>n. py_int v = Inr n \<and> b = (n < c))"
  by (auto simp: too_little_def read_simps)

lemma budget_reasons_Nil: "budget_reasons remaining cost ks = Inr [] \<longleftrightarrow> (\<forall>k \<in> set ks. fits remaining cost k 0)"
  by (induction ks) (force simp: read_simps too_little_Inr fits_def)+

lemma budget_allows_Nil: "budget_allows_recovery profile remaining cost pending = Inr [] \<longleftrightarrow> budget_fits profile remaining cost pending"
proof -
  have "budget_allows_recovery profile remaining cost pending = Inr [] \<longleftrightarrow>
      budget_reasons remaining cost [''reads'', ''writes'', ''tokens''] = Inr []
      \<and> fits remaining cost ''check_groups'' (if profile = ''G0'' then pending else 0)"
    unfolding budget_allows_recovery_def read_simps too_little_Inr fits_def
    by (fastforce split: if_splits)
  then show ?thesis unfolding budget_reasons_Nil by (simp add: budget_fits_def)
qed

lemma recovery_reasons_Inr:
  assumes "recovery_reasons cls profile m baseline now remaining cost pending = Inr (reasons, action, effective)"
  shows "reasons = [] \<longleftrightarrow> map_of profile_recovery_max profile = Some m \<and> cls \<in> set recoverable_failures
      \<and> (\<forall>k \<in> set drift_facts. py_eq (dget baseline k) (dget now k)) \<and> budget_fits profile remaining cost pending"
    and "effective = (if reasons = [] then m else 0)"
proof -
  have drift: "filter (\<lambda>k. \<not> py_eq (dget baseline k) (dget now k)) drift_facts = []
      \<longleftrightarrow> (\<forall>k \<in> set drift_facts. py_eq (dget baseline k) (dget now k))" by (simp add: filter_empty_conv)
  show "reasons = [] \<longleftrightarrow> map_of profile_recovery_max profile = Some m \<and> cls \<in> set recoverable_failures
      \<and> (\<forall>k \<in> set drift_facts. py_eq (dget baseline k) (dget now k)) \<and> budget_fits profile remaining cost pending"
    using assms unfolding recovery_reasons_def Let_def recoverable_iff [symmetric] drift [symmetric] budget_allows_Nil [symmetric]
    by (auto simp: read_simps split: if_splits)
  show "effective = (if reasons = [] then m else 0)"
    using assms unfolding recovery_reasons_def Let_def by (auto simp: read_simps split: if_splits)
qed

lemma profile_max_pos: "map_of profile_recovery_max p = Some m \<Longrightarrow> 1 \<le> m \<and> m \<le> (if p = ''G0'' then 1 else 2)"
  by (auto simp: profile_recovery_max_def split: if_splits)

lemma recovery_allowed:
  assumes "evaluate_recovery cls policy attempts baseline now remaining cost pending = Inr d"
  shows "(ard_decision d = ''RECOVERY_ALLOWED'' \<longleftrightarrow>
        map_of profile_recovery_max (profile_of_policy policy) = Some (route_max_of policy) \<and> cls \<in> set recoverable_failures
        \<and> (\<forall>k \<in> set drift_facts. py_eq (dget baseline k) (dget now k))
        \<and> budget_fits (profile_of_policy policy) remaining cost pending \<and> attempts < route_max_of policy)
    \<and> (ard_decision d = ''RECOVERY_BLOCKED'' \<longleftrightarrow> ard_reasons d \<noteq> [])
    \<and> (ard_decision d = ''RECOVERY_ALLOWED'' \<longrightarrow> ard_completed d + ard_remaining d = route_max_of policy \<and> 0 < ard_remaining d)"
proof -
  obtain reasons action effective where
    r: "recovery_reasons cls (profile_of_policy policy) (route_max_of policy) baseline now remaining cost pending = Inr (reasons, action, effective)"
    and pos: "0 \<le> attempts"
    using assms by (auto simp: evaluate_recovery_def read_simps Let_def)
  have d: "ard_decision d = (if attempts < effective then ''RECOVERY_ALLOWED'' else ''RECOVERY_BLOCKED'')"
    "ard_reasons d = (if \<not> attempts < effective \<and> reasons = [] then [''AUTO_RECOVERY_LIMIT_REACHED''] else reasons)"
    "ard_completed d = attempts" "ard_remaining d = max (effective - attempts) 0"
    using assms pos by (auto simp: evaluate_recovery_def r Let_def guard_def split: if_splits)
  show ?thesis
  proof (cases "reasons = []")
    case True
    then have "effective = route_max_of policy" using recovery_reasons_Inr(2) [OF r] by simp
    then show ?thesis using True recovery_reasons_Inr(1) [OF r] by (auto simp: d)
  next
    case False
    then have "effective = 0" using recovery_reasons_Inr(2) [OF r] by simp
    then show ?thesis using False pos recovery_reasons_Inr(1) [OF r] by (auto simp: d)
  qed
qed

text \<open>When an automatic recovery is admitted. It is admitted exactly when the policy names the limit of its profile, the
  failure is a harness error or a proven schema repair, no bound fact has drifted, the remaining budget covers the cost (in
  profile G0 with the pending check groups) and the attempts of the policy are not used up; a blocked decision says why, an
  admitted one leaves at least this attempt.\<close>

theorem recovery_allowed_iff:
  assumes "evaluate_recovery cls policy attempts baseline now remaining cost pending = Inr d"
  shows "(ard_decision d = ''RECOVERY_ALLOWED'' \<longleftrightarrow>
        map_of profile_recovery_max (profile_of_policy policy) = Some (route_max_of policy) \<and> cls \<in> set recoverable_failures
        \<and> (\<forall>k \<in> set drift_facts. py_eq (dget baseline k) (dget now k))
        \<and> budget_fits (profile_of_policy policy) remaining cost pending \<and> attempts < route_max_of policy)
    \<and> (ard_decision d = ''RECOVERY_BLOCKED'' \<longleftrightarrow> ard_reasons d \<noteq> [])
    \<and> (ard_decision d = ''RECOVERY_ALLOWED'' \<longrightarrow> ard_completed d + ard_remaining d = route_max_of policy \<and> 0 < ard_remaining d)"
  using assms by (rule recovery_allowed)

section \<open>Repeated recoveries\<close>

text \<open>A recovery state: the attempts made and what is left of the budget. An admitted attempt is counted and paid for.\<close>

record recovery_state =
  rs_attempts :: int
  rs_left :: "string \<Rightarrow> int"

definition budget_dimensions :: "string list" where
  "budget_dimensions = [''reads'', ''writes'', ''tokens'', ''check_groups'']"

definition left_dict :: "(string \<Rightarrow> int) \<Rightarrow> pydict" where
  "left_dict f = map (\<lambda>k. (k, PInt (f k))) budget_dimensions"

inductive recovery_step :: "pydict \<Rightarrow> (string \<Rightarrow> int) \<Rightarrow> int \<Rightarrow> recovery_state \<Rightarrow> recovery_state \<Rightarrow> bool" for policy cost pending where
  recovered: "evaluate_recovery cls policy (rs_attempts s) baseline now (left_dict (rs_left s)) (left_dict cost) pending = Inr d \<Longrightarrow>
    ard_decision d = ''RECOVERY_ALLOWED'' \<Longrightarrow>
    recovery_step policy cost pending s \<lparr>rs_attempts = rs_attempts s + 1, rs_left = (\<lambda>k. rs_left s k - cost k)\<rparr>"

lemma left_dict_sel: "k \<in> set budget_dimensions \<Longrightarrow> dget (left_dict f) k = PInt (f k) \<and> k \<in> dkeys (left_dict f)"
  by (auto simp: left_dict_def dget_map_pair dkeys_def)

lemma fits_left_dict: "k \<in> set budget_dimensions \<Longrightarrow> fits (left_dict f) (left_dict cost) k r \<longleftrightarrow> cost k + r \<le> f k"
  using left_dict_sel [of k] by (simp add: fits_def cost_of_def dget_or_def)

lemma recovery_step_facts:
  assumes "recovery_step policy cost pending s t"
  shows "rs_attempts t = rs_attempts s + 1" and "rs_left t = (\<lambda>k. rs_left s k - cost k)"
    and "rs_attempts t \<le> (if profile_of_policy policy = ''G0'' then 1 else 2)"
    and "\<forall>k \<in> set budget_dimensions. 0 \<le> rs_left t k"
    and "profile_of_policy policy = ''G0'' \<longrightarrow> pending \<le> rs_left t ''check_groups''"
proof -
  obtain cls baseline now d where t: "t = \<lparr>rs_attempts = rs_attempts s + 1, rs_left = (\<lambda>k. rs_left s k - cost k)\<rparr>"
    and ev: "evaluate_recovery cls policy (rs_attempts s) baseline now (left_dict (rs_left s)) (left_dict cost) pending = Inr d"
    and admitted: "ard_decision d = ''RECOVERY_ALLOWED''"
    using assms by cases blast
  show "rs_attempts t = rs_attempts s + 1" "rs_left t = (\<lambda>k. rs_left s k - cost k)" by (simp_all add: t)
  have c: "map_of profile_recovery_max (profile_of_policy policy) = Some (route_max_of policy)" "rs_attempts s < route_max_of policy"
    and fit: "budget_fits (profile_of_policy policy) (left_dict (rs_left s)) (left_dict cost) pending"
    using recovery_allowed [OF ev] admitted by blast+
  show "rs_attempts t \<le> (if profile_of_policy policy = ''G0'' then 1 else 2)" using profile_max_pos [OF c(1)] c(2) by (simp add: t)
  have pending: "0 \<le> pending" using ev by (auto simp: evaluate_recovery_def read_simps)
  have "\<forall>k \<in> {''reads'', ''writes'', ''tokens''}. cost k \<le> rs_left s k"
    and checks: "cost ''check_groups'' + (if profile_of_policy policy = ''G0'' then pending else 0) \<le> rs_left s ''check_groups''"
    using fit by (simp_all add: budget_fits_def fits_left_dict budget_dimensions_def)
  then show "\<forall>k \<in> set budget_dimensions. 0 \<le> rs_left t k" using pending by (auto simp: t budget_dimensions_def split: if_splits)
  show "profile_of_policy policy = ''G0'' \<longrightarrow> pending \<le> rs_left t ''check_groups''" using checks by (auto simp: t)
qed

text \<open>C26: Automatic recovery stops by itself and stays within the budget. Along any chain of admitted recoveries the attempts
  grow by one each and never exceed two, one in profile G0; every step is paid for and leaves no dimension of the budget
  negative, and in profile G0 the check groups that are still pending remain affordable.\<close>

theorem recovery_chain_bounded:
  assumes "(recovery_step policy cost pending ^^ n) s t"
  shows "rs_attempts t = rs_attempts s + int n \<and> rs_left t = (\<lambda>k. rs_left s k - int n * cost k)
    \<and> (0 < n \<longrightarrow> rs_attempts t \<le> (if profile_of_policy policy = ''G0'' then 1 else 2)
        \<and> (\<forall>k \<in> set budget_dimensions. 0 \<le> rs_left t k)
        \<and> (profile_of_policy policy = ''G0'' \<longrightarrow> pending \<le> rs_left t ''check_groups''))"
proof (cases n)
  case 0
  then show ?thesis using assms by simp
next
  case (Suc m)
  have sums: "(recovery_step policy cost pending ^^ j) s u \<Longrightarrow>
      rs_attempts u = rs_attempts s + int j \<and> rs_left u = (\<lambda>k. rs_left s k - int j * cost k)" for j u
  proof (induction j arbitrary: u)
    case (Suc j)
    then obtain v where "(recovery_step policy cost pending ^^ j) s v" and step: "recovery_step policy cost pending v u" by auto
    then show ?case using Suc.IH [of v] recovery_step_facts(1,2) [OF step] by (auto simp: algebra_simps)
  qed simp
  obtain v where "recovery_step policy cost pending v t" using assms Suc by auto
  then show ?thesis using sums [OF assms] recovery_step_facts(3-5) [of policy cost pending v t] by simp
qed

section \<open>Routes and reworks agree\<close>

lemma layers_from: "failed \<in> set validation_layer_order \<Longrightarrow> from_layer failed validation_layers = from_layer failed validation_layer_order
    \<and> failed \<in> set validation_layers \<and> failed \<in> set (from_layer failed validation_layer_order)"
  by (auto simp: validation_layer_order_def validation_layers_def from_layer_def)

text \<open>The layers that a failure invalidates are run again. Let a failure be routed and a rework be planned for the same
  layer. The rework runs every layer the route invalidates; without a change of source or command it runs exactly these, or,
  after a harness error, the failed layer and the ones after it; after a change it runs all four layers. The failed layer is
  always invalidated, and only a rework reopens slices: the current one and the named ones.\<close>

theorem failure_route_matches_rework:
  assumes "route_slice_failure cls failed slice others = Inr r"
  shows "set (sf_invalidated r) \<subseteq> set (rw_layers (plan_rework a failed))
    \<and> (rw_restart (plan_rework a failed) = failed \<longrightarrow> rw_layers (plan_rework a failed)
         = (if cls = ''CHECK_HARNESS_ERROR'' then from_layer failed validation_layer_order else sf_invalidated r))
    \<and> (fa_source_changed a \<or> fa_command_changed a \<longrightarrow> rw_layers (plan_rework a failed) = validation_layers)
    \<and> failed \<in> set (sf_invalidated r)
    \<and> set (sf_reopened r) = (if sf_decision r = ''REWORK_CURRENT_SLICE'' then insert slice (set others) else {})"
proof -
  have f: "failed \<in> set validation_layer_order" using assms by (simp add: route_slice_failure_def read_simps)
  note layers = layers_from [OF f]
  have all: "from_layer ''static'' validation_layers = validation_layers" "''static'' \<in> set validation_layers"
    by (simp_all add: from_layer_def validation_layers_def)
  have inv: "sf_invalidated r = (if cls = ''CHECK_HARNESS_ERROR'' then [failed] else from_layer failed validation_layer_order)"
    "set (sf_reopened r) = (if sf_decision r = ''REWORK_CURRENT_SLICE'' then insert slice (set others) else {})"
    using assms by (auto simp: route_slice_failure_def read_simps Let_def first_occurrences_def split: if_splits)
  have sub: "set (from_layer failed validation_layer_order) \<subseteq> set validation_layers"
    using layers by (metis from_layer_def set_dropWhileD subsetI)
  have "''static'' \<notin> set validation_layer_order" by (simp add: validation_layer_order_def)
  then have "failed \<noteq> ''static''" using f by blast
  then show ?thesis using layers all sub by (auto simp: plan_rework_def restart_layer_def Let_def inv)
qed

text \<open>When a rework is ready. It is ready exactly when it keeps the Work and the thread, changes the attempt and the
  dispatch, names a layer and creates no worktree; it then restarts at a layer. It never asks for the next identifiers to be
  present: a ready rework without a next attempt announces no new attempt.\<close>

theorem rework_ready_iff:
  "(rw_decision (plan_rework a failed) = ''READY'' \<longleftrightarrow>
      fa_previous_work a \<noteq> [] \<and> fa_next_work a = fa_previous_work a \<and> fa_previous_thread a \<noteq> [] \<and> fa_next_thread a = fa_previous_thread a
      \<and> fa_previous_attempt a \<noteq> [] \<and> fa_next_attempt a \<noteq> fa_previous_attempt a
      \<and> fa_previous_dispatch a \<noteq> [] \<and> fa_next_dispatch a \<noteq> fa_previous_dispatch a
      \<and> failed \<in> set validation_layers \<and> fa_worktree a = ''root-branch-only'')
    \<and> (rw_decision (plan_rework a failed) = ''READY'' \<longrightarrow> rw_layers (plan_rework a failed) \<noteq> [] \<and> rw_reasons (plan_rework a failed) = []
         \<and> (rw_new_attempt (plan_rework a failed) \<longleftrightarrow> fa_next_attempt a \<noteq> []))"
proof -
  have "rw_decision (plan_rework a failed) = ''READY'' \<longleftrightarrow> rework_reasons a failed = []" by (simp add: plan_rework_def Let_def)
  moreover have "rework_reasons a failed = [] \<longleftrightarrow>
      fa_previous_work a \<noteq> [] \<and> fa_next_work a = fa_previous_work a \<and> fa_previous_thread a \<noteq> [] \<and> fa_next_thread a = fa_previous_thread a
      \<and> fa_previous_attempt a \<noteq> [] \<and> fa_next_attempt a \<noteq> fa_previous_attempt a
      \<and> fa_previous_dispatch a \<noteq> [] \<and> fa_next_dispatch a \<noteq> fa_previous_dispatch a
      \<and> failed \<in> set validation_layers \<and> fa_worktree a = ''root-branch-only''"
    unfolding rework_reasons_def append_is_Nil_conv by (auto split: if_splits)
  moreover have "failed \<in> set validation_layers \<Longrightarrow> rw_layers (plan_rework a failed) \<noteq> []"
    by (auto simp: plan_rework_def restart_layer_def Let_def validation_layers_def from_layer_def)
  moreover have "rw_reasons (plan_rework a failed) = rework_reasons a failed" by (simp add: plan_rework_def Let_def)
  ultimately show ?thesis by (auto simp: plan_rework_def Let_def)
qed

section \<open>Examples\<close>

definition recovery_policy0 :: pydict where
  "recovery_policy0 = [(''risk_profile'', PStr ''g0''), (''recovery'', PDict [(''max_auto_recovery_attempts'', PStr '' 1 '')])]"

definition recovery_start0 :: recovery_state where
  "recovery_start0 = \<lparr>rs_attempts = 0, rs_left = (\<lambda>k. 3)\<rparr>"

definition recovery_cost0 :: "string \<Rightarrow> int" where
  "recovery_cost0 k = 1"

lemma recovery0: "\<exists>d. evaluate_recovery ''CHECK_HARNESS_ERROR'' recovery_policy0 0 [] [] (left_dict (rs_left recovery_start0))
    (left_dict recovery_cost0) 2 = Inr d \<and> ard_decision d = ''RECOVERY_ALLOWED''"
proof -
  have "case evaluate_recovery ''CHECK_HARNESS_ERROR'' recovery_policy0 0 [] [] (left_dict (rs_left recovery_start0))
    (left_dict recovery_cost0) 2 of Inl _ \<Rightarrow> False | Inr d \<Rightarrow> ard_decision d = ''RECOVERY_ALLOWED''" by code_simp
  then show ?thesis by (auto split: sum.splits)
qed

theorem recovery_allowed_iff_witness:
  "\<exists>(d :: recovery_decision). ard_decision d = ''RECOVERY_ALLOWED'' \<and> ard_remaining d = 1 \<and> profile_of_policy recovery_policy0 = ''G0''
    \<and> route_max_of recovery_policy0 = 1"
proof -
  obtain d where d: "evaluate_recovery ''CHECK_HARNESS_ERROR'' recovery_policy0 0 [] [] (left_dict (rs_left recovery_start0))
    (left_dict recovery_cost0) 2 = Inr d" "ard_decision d = ''RECOVERY_ALLOWED''" using recovery0 by blast
  have p: "profile_of_policy recovery_policy0 = ''G0''" "route_max_of recovery_policy0 = 1" by code_simp+
  have "ard_completed d = 0" using d(1) by (auto simp: evaluate_recovery_def read_simps Let_def)
  then have "ard_remaining d = 1" using recovery_allowed_iff [OF d(1)] d(2) p by auto
  then show ?thesis using d(2) p by blast
qed

theorem recovery_chain_bounded_witness:
  "\<exists>t. recovery_step recovery_policy0 recovery_cost0 2 recovery_start0 t \<and> rs_attempts t = 1 \<and> 2 \<le> rs_left t ''check_groups''"
proof -
  obtain d where d: "evaluate_recovery ''CHECK_HARNESS_ERROR'' recovery_policy0 (rs_attempts recovery_start0) [] []
    (left_dict (rs_left recovery_start0)) (left_dict recovery_cost0) 2 = Inr d" "ard_decision d = ''RECOVERY_ALLOWED''"
    using recovery0 by (auto simp: recovery_start0_def)
  obtain t where t: "recovery_step recovery_policy0 recovery_cost0 2 recovery_start0 t" using recovered [OF d] by blast
  then have "(recovery_step recovery_policy0 recovery_cost0 2 ^^ 1) recovery_start0 t" by (simp add: relcompp_apply eq_OO)
  note b = recovery_chain_bounded [OF this]
  have "profile_of_policy recovery_policy0 = ''G0''" by code_simp
  then show ?thesis using b t by (auto simp: recovery_start0_def)
qed

definition attempt0 :: failure_attempt where
  "attempt0 = \<lparr>fa_previous_work = ''W1'', fa_next_work = ''W1'', fa_previous_thread = ''T1'', fa_next_thread = ''T1'',
     fa_previous_attempt = ''A1'', fa_next_attempt = ''A2'', fa_previous_dispatch = ''D1'', fa_next_dispatch = ''D2'',
     fa_source_changed = False, fa_command_changed = False, fa_worktree = ''root-branch-only''\<rparr>"

theorem failure_route_matches_rework_witness:
  "\<exists>r. route_slice_failure ''REAL_CONTENT_FAILURE'' ''compatibility'' ''S1'' [''S2''] = Inr r
    \<and> sf_invalidated r = rw_layers (plan_rework attempt0 ''compatibility'') \<and> set (sf_reopened r) = {''S1'', ''S2''}"
proof -
  obtain r where r: "route_slice_failure ''REAL_CONTENT_FAILURE'' ''compatibility'' ''S1'' [''S2''] = Inr r"
    "sf_decision r = ''REWORK_CURRENT_SLICE''"
    by (auto simp: route_slice_failure_def failure_classes_def validation_layer_order_def Let_def)
  have "rw_restart (plan_rework attempt0 ''compatibility'') = ''compatibility''" by code_simp
  then show ?thesis using failure_route_matches_rework [OF r(1), of attempt0] r by auto
qed

end
