(* ===== verification/Finding_Ledger.thy ===== *)
theory Finding_Ledger
  imports Failure_Routing
begin

text \<open>
  The registration of a failure (\<open>execution_control/failure.py\<close>, the contracts of \<open>execution_control/contract.py\<close>, the
  observation events of \<open>state/event_ledger.py\<close> and the composition in \<open>work/lifecycle.py\<close>): the frozen contract and
  evidence, the identity of a finding, the plan of an observation with the route it gives, the append-only ledger with its
  projection, and the append. The ledger is the content of its file, none when it is missing; what an append leaves behind
  when the operating system fails is an argument.
\<close>

section \<open>Frozen contracts and evidence\<close>

definition dict_digest :: "work_env \<Rightarrow> pydict \<Rightarrow> string" where
  "dict_digest E d = canonical_digest (we_release E) (PDict (sort_key fst d))"

definition safe_code :: "string \<Rightarrow> pyval \<Rightarrow> string result" where
  "safe_code fld v = checked_str reason_re (fld @ '' must be one safe code'') v"

definition str_values :: "string \<Rightarrow> pyval \<Rightarrow> string list result" where
  "str_values fld v =
     (case v of PList xs \<Rightarrow> if list_all is_str xs then Inr (map the_str xs) else Inl (ValueError (fld @ '' must be a list of strings''))
      | _ \<Rightarrow> Inl (ValueError (fld @ '' must be a list of strings'')))"

text \<open>\<open>tuple(sorted(set(...)))\<close> of safe identifiers, refused when it is empty or shorter than the list.\<close>

definition unique_ids :: "string \<Rightarrow> string list \<Rightarrow> string list result" where
  "unique_ids fld xs =
     let_ok (check_all (\<lambda>x. let_ok (safe_id fld (PStr x)) (\<lambda>_. Inr ())) xs) (\<lambda>_.
     let_ok (guard (xs \<noteq> [] \<and> distinct xs) (fld @ '' must be non-empty and unique'')) (\<lambda>_. Inr (sort (remdups xs))))"

record result_item =
  it_id :: string
  it_group :: string
  it_status :: string
  it_reasons :: "string list"

definition result_item_fields :: "string list" where
  "result_item_fields = [''item_id'', ''check_group_id'', ''status'', ''reason_codes'']"

definition result_item_from_mapping :: "pyval \<Rightarrow> result_item result" where
  "result_item_from_mapping v =
     let_ok (closed_mapping ''FrozenFailureResultItemV1'' result_item_fields v) (\<lambda>d.
     let_ok (str_values ''reason_codes'' (dget d ''reason_codes'')) (\<lambda>reasons.
     let_ok (safe_id ''item_id'' (dget d ''item_id'')) (\<lambda>i.
     let_ok (safe_id ''check_group_id'' (dget d ''check_group_id'')) (\<lambda>group.
     let_ok (safe_code ''status'' (dget d ''status'')) (\<lambda>status.
     let_ok (guard (status \<in> {''PASS'', ''FAIL'', ''BLOCKED''}) ''frozen result item status is not routable'') (\<lambda>_.
     let_ok (guard (length reasons = 1) ''frozen result item requires exactly one canonical reason code'') (\<lambda>_.
     let_ok (safe_code ''reason_codes'' (PStr (hd reasons))) (\<lambda>_.
     Inr \<lparr>it_id = i, it_group = group, it_status = status, it_reasons = reasons\<rparr>))))))))"

definition result_item_as_dict :: "result_item \<Rightarrow> pydict" where
  "result_item_as_dict r =
     [(''item_id'', PStr (it_id r)), (''check_group_id'', PStr (it_group r)), (''status'', PStr (it_status r)),
      (''reason_codes'', PList (map PStr (it_reasons r)))]"

text \<open>The schema version is kept as it was read: any value that equals 1.\<close>

record failure_contract =
  fk_schema :: pyval
  fk_root :: string
  fk_slice :: string
  fk_revision :: int
  fk_checks :: "string list"
  fk_digest :: string

definition contract_fields :: "string list" where
  "contract_fields = [''schema_version'', ''kind'', ''root_concept'', ''slice_id'', ''contract_revision'', ''required_check_ids'',
     ''payload_digest'']"

definition contract_payload :: "pyval \<Rightarrow> string \<Rightarrow> string \<Rightarrow> int \<Rightarrow> string list \<Rightarrow> pydict" where
  "contract_payload schema root slice n checks =
     [(''schema_version'', schema), (''kind'', PStr ''execution_failure_contract''), (''root_concept'', PStr root),
      (''slice_id'', PStr slice), (''contract_revision'', PInt n), (''required_check_ids'', PList (map PStr checks))]"

definition contract_as_dict :: "failure_contract \<Rightarrow> pydict" where
  "contract_as_dict k = contract_payload (fk_schema k) (fk_root k) (fk_slice k) (fk_revision k) (fk_checks k)
     @ [(''payload_digest'', PStr (fk_digest k))]"

definition contract_from_mapping :: "work_env \<Rightarrow> pyval \<Rightarrow> failure_contract result" where
  "contract_from_mapping E v =
     let_ok (closed_mapping ''FrozenFailureContractV1'' contract_fields v) (\<lambda>d.
     let_ok (str_values ''required_check_ids'' (dget d ''required_check_ids'')) (\<lambda>names.
     let_ok (guard (py_eq (dget d ''schema_version'') (PInt 1) \<and> py_eq (dget d ''kind'') (PStr ''execution_failure_contract''))
       ''unsupported execution failure contract revision'') (\<lambda>_.
     let_ok (safe_id ''root_concept'' (dget d ''root_concept'')) (\<lambda>root.
     let_ok (safe_id ''slice_id'' (dget d ''slice_id'')) (\<lambda>slice.
     let_ok (positive_int ''contract_revision'' (dget d ''contract_revision'')) (\<lambda>n.
     let_ok (unique_ids ''required_check_ids'' names) (\<lambda>checks.
     let_ok (sha256_field ''payload_digest'' (dget d ''payload_digest'')) (\<lambda>digest.
     let_ok (guard (digest = dict_digest E (contract_payload (dget d ''schema_version'') root slice n checks))
       ''execution failure contract payload digest mismatch'') (\<lambda>_.
     Inr \<lparr>fk_schema = dget d ''schema_version'', fk_root = root, fk_slice = slice, fk_revision = n, fk_checks = checks,
       fk_digest = digest\<rparr>)))))))))"

definition build_contract :: "work_env \<Rightarrow> string \<Rightarrow> string \<Rightarrow> int \<Rightarrow> string list \<Rightarrow> failure_contract result" where
  "build_contract E root slice n checks =
     (let seed = contract_payload (PInt 1) root slice n checks in
      contract_from_mapping E (PDict (seed @ [(''payload_digest'', PStr (dict_digest E seed))])))"

record failure_evidence =
  fe_schema :: pyval
  fe_unit :: string
  fe_profile :: string
  fe_checks :: "string list"
  fe_revision :: int
  fe_scope :: string
  fe_result :: string
  fe_items :: "result_item list"
  fe_observed :: string
  fe_digest :: string

definition evidence_fields :: "string list" where
  "evidence_fields = [''schema_version'', ''kind'', ''unit_id'', ''check_profile_digest'', ''required_check_ids'', ''contract_revision'',
     ''target_scope_digest'', ''check_result_digest'', ''result_items'', ''observed_at'', ''payload_digest'']"

definition evidence_payload :: "failure_evidence \<Rightarrow> pydict" where
  "evidence_payload e =
     [(''schema_version'', fe_schema e), (''kind'', PStr ''frozen_failure_evidence''), (''unit_id'', PStr (fe_unit e)),
      (''check_profile_digest'', PStr (fe_profile e)), (''required_check_ids'', PList (map PStr (fe_checks e))),
      (''contract_revision'', PInt (fe_revision e)), (''target_scope_digest'', PStr (fe_scope e)),
      (''check_result_digest'', PStr (fe_result e)),
      (''result_items'', PList (map (\<lambda>i. PDict (sort_key fst (result_item_as_dict i))) (fe_items e))),
      (''observed_at'', PStr (fe_observed e))]"

definition evidence_as_dict :: "failure_evidence \<Rightarrow> pydict" where
  "evidence_as_dict e = evidence_payload e @ [(''payload_digest'', PStr (fe_digest e))]"

definition item_digest :: "work_env \<Rightarrow> result_item \<Rightarrow> string" where
  "item_digest E i = dict_digest E (result_item_as_dict i)"

definition blank_text :: "pyval \<Rightarrow> bool" where
  "blank_text v = (case v of PStr s \<Rightarrow> py_strip s = [] | _ \<Rightarrow> True)"

definition check_evidence :: "work_env \<Rightarrow> failure_evidence \<Rightarrow> unit result" where
  "check_evidence E e =
     (case fe_items e of
        [i] \<Rightarrow>
          let_ok (guard (it_group i \<in> set (fe_checks e)) ''result check group is absent from the frozen required profile'') (\<lambda>_.
          let_ok (guard (fe_result e = item_digest E i) ''check_result_digest does not match the canonical result item'') (\<lambda>_.
          guard (fe_digest e = dict_digest E (evidence_payload e)) ''frozen failure evidence payload digest mismatch''))
      | _ \<Rightarrow> Inl (ValueError ''frozen failure evidence requires exactly one result item''))"

definition evidence_from_mapping :: "work_env \<Rightarrow> pyval \<Rightarrow> failure_evidence result" where
  "evidence_from_mapping E v =
     let_ok (closed_mapping ''FrozenFailureEvidenceV1'' evidence_fields v) (\<lambda>d.
     let_ok (str_values ''required_check_ids'' (dget d ''required_check_ids'')) (\<lambda>names.
     let_ok (guard (is_list (dget d ''result_items'') \<and> list_all is_dict (list_of (dget d ''result_items'')))
       ''result_items must be a list of mappings'') (\<lambda>_.
     let_ok (map_result result_item_from_mapping (list_of (dget d ''result_items''))) (\<lambda>items.
     let_ok (guard (py_eq (dget d ''schema_version'') (PInt 1) \<and> py_eq (dget d ''kind'') (PStr ''frozen_failure_evidence''))
       ''unsupported frozen failure evidence revision'') (\<lambda>_.
     let_ok (safe_id ''unit_id'' (dget d ''unit_id'')) (\<lambda>unit.
     let_ok (sha256_field ''check_profile_digest'' (dget d ''check_profile_digest'')) (\<lambda>profile.
     let_ok (sha256_field ''target_scope_digest'' (dget d ''target_scope_digest'')) (\<lambda>scope.
     let_ok (sha256_field ''check_result_digest'' (dget d ''check_result_digest'')) (\<lambda>outcome.
     let_ok (sha256_field ''payload_digest'' (dget d ''payload_digest'')) (\<lambda>digest.
     let_ok (positive_int ''contract_revision'' (dget d ''contract_revision'')) (\<lambda>n.
     let_ok (guard (\<not> blank_text (dget d ''observed_at'')) ''observed_at is required'') (\<lambda>_.
     let_ok (unique_ids ''required_check_ids'' names) (\<lambda>checks.
     let e = \<lparr>fe_schema = dget d ''schema_version'', fe_unit = unit, fe_profile = profile, fe_checks = checks, fe_revision = n,
       fe_scope = scope, fe_result = outcome, fe_items = items, fe_observed = the_str (dget d ''observed_at''), fe_digest = digest\<rparr> in
     let_ok (check_evidence E e) (\<lambda>_. Inr e))))))))))))))"

definition build_evidence ::
    "work_env \<Rightarrow> string \<Rightarrow> string \<Rightarrow> string list \<Rightarrow> int \<Rightarrow> string \<Rightarrow> result_item \<Rightarrow> string \<Rightarrow> failure_evidence result" where
  "build_evidence E unit profile checks n scope item observed =
     (let e = \<lparr>fe_schema = PInt 1, fe_unit = unit, fe_profile = profile, fe_checks = checks, fe_revision = n, fe_scope = scope,
        fe_result = item_digest E item, fe_items = [item], fe_observed = observed, fe_digest = []\<rparr> in
      evidence_from_mapping E (PDict (evidence_as_dict (e\<lparr>fe_digest := dict_digest E (evidence_payload e)\<rparr>))))"

section \<open>Identities and routes\<close>

record finding_identity =
  fi_root :: string
  fi_slice :: string
  fi_group :: string
  fi_code :: string
  fi_revision :: int
  fi_scope :: string

definition identity_fields :: "string list" where
  "identity_fields = [''root_concept'', ''slice_id'', ''check_group_id'', ''canonical_finding_code'', ''contract_revision'',
     ''target_scope_digest'']"

definition identity_as_dict :: "finding_identity \<Rightarrow> pydict" where
  "identity_as_dict i =
     [(''root_concept'', PStr (fi_root i)), (''slice_id'', PStr (fi_slice i)), (''check_group_id'', PStr (fi_group i)),
      (''canonical_finding_code'', PStr (fi_code i)), (''contract_revision'', PInt (fi_revision i)),
      (''target_scope_digest'', PStr (fi_scope i))]"

definition mk_identity :: "pydict \<Rightarrow> finding_identity result" where
  "mk_identity d =
     let_ok (safe_id ''root_concept'' (dget d ''root_concept'')) (\<lambda>root.
     let_ok (safe_id ''slice_id'' (dget d ''slice_id'')) (\<lambda>slice.
     let_ok (safe_id ''check_group_id'' (dget d ''check_group_id'')) (\<lambda>group.
     let_ok (safe_code ''canonical_finding_code'' (dget d ''canonical_finding_code'')) (\<lambda>code.
     let_ok (positive_int ''contract_revision'' (dget d ''contract_revision'')) (\<lambda>n.
     let_ok (sha256_field ''target_scope_digest'' (dget d ''target_scope_digest'')) (\<lambda>scope.
     Inr \<lparr>fi_root = root, fi_slice = slice, fi_group = group, fi_code = code, fi_revision = n, fi_scope = scope\<rparr>))))))"

definition identity_from_mapping :: "pyval \<Rightarrow> finding_identity result" where
  "identity_from_mapping v = let_ok (closed_mapping ''FindingIdentityV1'' identity_fields v) mk_identity"

definition execution_actions :: "string list" where
  "execution_actions = [''RETRY_CURRENT_LAYER'', ''REWORK_CURRENT_SLICE'', ''REQUIRE_DESIGN_CLARIFICATION'', ''WAIT_IN_CONTAINER'',
     ''CLASSIFY_BEFORE_CONTINUE'', ''RECOVER_PARTIAL_AND_STOP'', ''COMPLETE_CURRENT_LAYER_ONLY'']"

record failure_route =
  xr_classification :: string
  xr_slice :: string
  xr_attempt :: string
  xr_action :: string
  xr_occurrence :: int

definition route_fields :: "string list" where
  "route_fields = [''classification_digest'', ''slice_route_digest'', ''attempt_plan_digest'', ''execution_action'', ''occurrence'']"

definition route_as_dict :: "failure_route \<Rightarrow> pydict" where
  "route_as_dict r =
     [(''classification_digest'', PStr (xr_classification r)), (''slice_route_digest'', PStr (xr_slice r)),
      (''attempt_plan_digest'', PStr (xr_attempt r)), (''execution_action'', PStr (xr_action r)), (''occurrence'', PInt (xr_occurrence r))]"

definition mk_route :: "pydict \<Rightarrow> failure_route result" where
  "mk_route d =
     let_ok (sha256_field ''classification_digest'' (dget d ''classification_digest'')) (\<lambda>classification.
     let_ok (sha256_field ''slice_route_digest'' (dget d ''slice_route_digest'')) (\<lambda>slice.
     let_ok (sha256_field ''attempt_plan_digest'' (dget d ''attempt_plan_digest'')) (\<lambda>attempt.
     let_ok (in_vocabulary (dget d ''execution_action'') execution_actions ''execution_action is unsupported'') (\<lambda>_.
     let_ok (positive_int ''occurrence'' (dget d ''occurrence'')) (\<lambda>n.
     let_ok (guard (n < 3 \<or> dget d ''execution_action'' = PStr ''REQUIRE_DESIGN_CLARIFICATION'')
       ''third occurrence must require design clarification'') (\<lambda>_.
     Inr \<lparr>xr_classification = classification, xr_slice = slice, xr_attempt = attempt, xr_action = the_str (dget d ''execution_action''),
       xr_occurrence = n\<rparr>))))))"

definition route_from_mapping :: "pyval \<Rightarrow> failure_route result" where
  "route_from_mapping v = let_ok (closed_mapping ''FailureRouteV1'' route_fields v) mk_route"

section \<open>Observation events\<close>

record finding_event =
  fo_id :: string
  fo_unit :: string
  fo_attempt :: string
  fo_ref :: string
  fo_result :: string
  fo_key :: string
  fo_identity :: string
  fo_revision :: int
  fo_classification :: string
  fo_slice :: string
  fo_plan :: string
  fo_observed :: string
  fo_payload :: string

definition observation_fields :: "string list" where
  "observation_fields = [''event_id'', ''event_type'', ''unit_id'', ''attempt_id'', ''evidence_ref'', ''check_result_digest'',
     ''observation_key_digest'', ''identity_digest'', ''contract_revision'', ''classification_digest'', ''slice_route_digest'',
     ''attempt_plan_digest'', ''observed_at'', ''payload_digest'']"

definition finding_payload :: "finding_event \<Rightarrow> pydict" where
  "finding_payload v =
     [(''event_id'', PStr (fo_id v)), (''event_type'', PStr ''finding_observation''), (''unit_id'', PStr (fo_unit v)),
      (''attempt_id'', PStr (fo_attempt v)), (''evidence_ref'', PStr (fo_ref v)), (''check_result_digest'', PStr (fo_result v)),
      (''observation_key_digest'', PStr (fo_key v)), (''identity_digest'', PStr (fo_identity v)),
      (''contract_revision'', PInt (fo_revision v)), (''classification_digest'', PStr (fo_classification v)),
      (''slice_route_digest'', PStr (fo_slice v)), (''attempt_plan_digest'', PStr (fo_plan v)), (''observed_at'', PStr (fo_observed v))]"

definition finding_as_dict :: "finding_event \<Rightarrow> pydict" where
  "finding_as_dict v = finding_payload v @ [(''payload_digest'', PStr (fo_payload v))]"

definition observation_key :: "work_env \<Rightarrow> string \<Rightarrow> string \<Rightarrow> string \<Rightarrow> string \<Rightarrow> string" where
  "observation_key E unit attempt outcome identity = dict_digest E
     [(''unit_id'', PStr unit), (''attempt_id'', PStr attempt), (''check_result_digest'', PStr outcome), (''identity_digest'', PStr identity)]"

definition event_id_of :: "string \<Rightarrow> string" where
  "event_id_of key = ''EC-OBS-'' @ take 32 key"

definition nonblank :: "string \<Rightarrow> pyval \<Rightarrow> string result" where
  "nonblank fld v = let_ok (guard (\<not> blank_text v) (fld @ '' is required'')) (\<lambda>_. Inr (the_str v))"

definition process_ref :: "pyval \<Rightarrow> string result" where
  "process_ref v =
     (case v of
        PStr s \<Rightarrow>
          let_ok (guard (prefix ''process/'' s) ''evidence_ref must be one process logical ref'') (\<lambda>_.
          let_ok (guard (''..'' \<notin> set (path_parts s) \<and> CHR 0x5C \<notin> set s) ''evidence_ref must not escape the process route'') (\<lambda>_. Inr s))
      | _ \<Rightarrow> Inl (ValueError ''evidence_ref must be one process logical ref''))"

definition mk_finding_event :: "work_env \<Rightarrow> pydict \<Rightarrow> finding_event result" where
  "mk_finding_event E d =
     let_ok (guard (dget d ''event_type'' = PStr ''finding_observation'') ''unsupported execution-control event type'') (\<lambda>_.
     let_ok (nonblank ''event_id'' (dget d ''event_id'')) (\<lambda>i.
     let_ok (nonblank ''unit_id'' (dget d ''unit_id'')) (\<lambda>unit.
     let_ok (nonblank ''attempt_id'' (dget d ''attempt_id'')) (\<lambda>attempt.
     let_ok (nonblank ''observed_at'' (dget d ''observed_at'')) (\<lambda>observed.
     let_ok (process_ref (dget d ''evidence_ref'')) (\<lambda>ref.
     let_ok (positive_int ''contract_revision'' (dget d ''contract_revision'')) (\<lambda>n.
     let_ok (sha256_field ''check_result_digest'' (dget d ''check_result_digest'')) (\<lambda>outcome.
     let_ok (sha256_field ''observation_key_digest'' (dget d ''observation_key_digest'')) (\<lambda>key.
     let_ok (sha256_field ''identity_digest'' (dget d ''identity_digest'')) (\<lambda>identity.
     let_ok (sha256_field ''classification_digest'' (dget d ''classification_digest'')) (\<lambda>classification.
     let_ok (sha256_field ''slice_route_digest'' (dget d ''slice_route_digest'')) (\<lambda>slice.
     let_ok (sha256_field ''attempt_plan_digest'' (dget d ''attempt_plan_digest'')) (\<lambda>rework.
     let_ok (sha256_field ''payload_digest'' (dget d ''payload_digest'')) (\<lambda>payload.
     let v = \<lparr>fo_id = i, fo_unit = unit, fo_attempt = attempt, fo_ref = ref, fo_result = outcome, fo_key = key, fo_identity = identity,
       fo_revision = n, fo_classification = classification, fo_slice = slice, fo_plan = rework, fo_observed = observed,
       fo_payload = payload\<rparr> in
     let_ok (guard (key = observation_key E unit attempt outcome identity) ''finding observation key is not canonically derived'') (\<lambda>_.
     let_ok (guard (i = event_id_of key) ''finding observation event_id is not canonically derived'') (\<lambda>_.
     let_ok (guard (payload = dict_digest E (finding_payload v)) ''finding observation payload digest mismatch'') (\<lambda>_. Inr v)))))))))))))))))"

definition observation_from_mapping :: "work_env \<Rightarrow> pydict \<Rightarrow> finding_event result" where
  "observation_from_mapping E d =
     let_ok (guard (dkeys d = set observation_fields) ''finding observation fields mismatch'') (\<lambda>_. mk_finding_event E d)"

definition build_event :: "work_env \<Rightarrow> finding_event \<Rightarrow> finding_event result" where
  "build_event E v = mk_finding_event E (finding_payload v @ [(''payload_digest'', PStr (dict_digest E (finding_payload v)))])"

section \<open>The projection of the ledger\<close>

text \<open>The accepted events in order; the indices by identity and by key are filters of this list.\<close>

record ledger_projection =
  lp_decision :: string
  lp_codes :: "string list"
  lp_events :: "finding_event list"

fun scan_events :: "work_env \<Rightarrow> pydict list \<Rightarrow> string list \<Rightarrow> finding_event list \<Rightarrow> string list \<times> finding_event list" where
  "scan_events E [] codes seen = (codes, seen)"
| "scan_events E (d # ds) codes seen =
     (case observation_from_mapping E (dpop d ''_line_no'') of
        Inl _ \<Rightarrow> scan_events E ds (codes @ [''EXECUTION_CONTROL_EVENT_INVALID'']) seen
      | Inr v \<Rightarrow> scan_events E ds
          (codes @ (if fo_id v \<in> fo_id ` set seen then [''EXECUTION_CONTROL_EVENT_ID_DUPLICATE''] else [])
                 @ (if fo_key v \<in> fo_key ` set seen then [''EXECUTION_CONTROL_OBSERVATION_KEY_DUPLICATE''] else [])) (seen @ [v]))"

definition project_ledger :: "work_env \<Rightarrow> pydict list \<Rightarrow> ledger_projection" where
  "project_ledger E ds =
     (case scan_events E ds [] [] of (codes, seen) \<Rightarrow>
       \<lparr>lp_decision = (if codes = [] then ''PASS'' else ''BLOCKED''), lp_codes = sort (remdups codes), lp_events = seen\<rparr>)"

record occurrence =
  oc_decision :: string
  oc_identity :: string
  oc_count :: int
  oc_ids :: "string list"
  oc_head :: string
  oc_codes :: "string list"

definition project_occurrence :: "work_env \<Rightarrow> ledger_projection \<Rightarrow> string \<Rightarrow> occurrence result" where
  "project_occurrence E P identity =
     let_ok (guard (digest_re identity) ''identity_digest must be one lowercase SHA-256 digest'') (\<lambda>_.
     let vs = filter (\<lambda>v. fo_identity v = identity) (lp_events P) in
     Inr \<lparr>oc_decision = lp_decision P, oc_identity = identity, oc_count = int (length vs), oc_ids = map fo_id vs,
       oc_head = canonical_digest (we_release E) (PList (map (\<lambda>v. PStr (fo_payload v)) vs)), oc_codes = lp_codes P\<rparr>)"

definition by_observation_key :: "ledger_projection \<Rightarrow> string \<Rightarrow> finding_event option" where
  "by_observation_key P key = find (\<lambda>v. fo_key v = key) (lp_events P)"

section \<open>The ledger file\<close>

text \<open>The number of bytes of a line boundary at the front of a text in UTF-8: the boundaries of \<open>str.splitlines\<close>.\<close>

fun break_size :: "string \<Rightarrow> nat" where
  "break_size [] = 0"
| "break_size (c # cs) =
     (if c \<in> {CHR 0x0A, CHR 0x0B, CHR 0x0C, CHR 0x1C, CHR 0x1D, CHR 0x1E} then 1
      else if c = CHR 0x0D then (if prefix [CHR 0x0A] cs then 2 else 1)
      else if c = CHR 0xC2 then (if prefix [CHR 0x85] cs then 2 else 0)
      else if c = CHR 0xE2 then (if prefix [CHR 0x80, CHR 0xA8] cs \<or> prefix [CHR 0x80, CHR 0xA9] cs then 3 else 0)
      else 0)"

function text_lines :: "string \<Rightarrow> string list" where
  "text_lines [] = []"
| "text_lines (c # cs) =
     (if break_size (c # cs) = 0 then (case text_lines cs of [] \<Rightarrow> [[c]] | l # ls \<Rightarrow> (c # l) # ls)
      else [] # text_lines (drop (break_size (c # cs)) (c # cs)))"
  by pat_completeness auto
termination by (relation "measure length") auto

text \<open>The lines with their numbers: objects are events, anything else that is not blank is an error. The text of the JSON
  reader's complaint and the path of a missing file are left out of the messages.\<close>

fun load_lines :: "work_env \<Rightarrow> nat \<Rightarrow> string list \<Rightarrow> pydict list \<times> string list" where
  "load_lines E n [] = ([], [])"
| "load_lines E n (l # ls) =
     (case load_lines E (Suc n) ls of (ds, errs) \<Rightarrow>
       if py_strip l = [] then (ds, errs)
       else case r_loads (we_release E) l of
         None \<Rightarrow> (ds, (''line '' @ nat_digits n @ '': invalid JSON'') # errs)
       | Some (PDict d) \<Rightarrow> (dset d ''_line_no'' (PInt (int n)) # ds, errs)
       | Some _ \<Rightarrow> (ds, (''line '' @ nat_digits n @ '': event must be an object'') # errs))"

definition load_events :: "work_env \<Rightarrow> string option \<Rightarrow> pydict list \<times> string list" where
  "load_events E file = (case file of None \<Rightarrow> ([], [''event ledger missing'']) | Some text \<Rightarrow> load_lines E 1 (text_lines text))"

definition ledger_bytes :: "string option \<Rightarrow> string" where
  "ledger_bytes file = (case file of None \<Rightarrow> [] | Some text \<Rightarrow> text)"

definition ledger_preimage :: "work_env \<Rightarrow> string option \<Rightarrow> string" where
  "ledger_preimage E file = r_sha (we_release E) (ledger_bytes file)"

text \<open>Both users of the ledger read no events when the file is missing.\<close>

definition read_ledger :: "work_env \<Rightarrow> string option \<Rightarrow> pydict list \<times> string list" where
  "read_ledger E file = (if file = None then ([], []) else load_events E file)"

record append_result =
  ar_decision :: string
  ar_conflicts :: "string list"
  ar_occurrence :: int
  ar_head :: string
  ar_mutations :: int
  ar_idempotent :: bool

text \<open>How the write ends: completely, before the file is opened, or after some of its bytes.\<close>

datatype write_end = Complete | Not_Opened | Torn nat

definition event_line :: "work_env \<Rightarrow> finding_event \<Rightarrow> string" where
  "event_line E v = r_json (we_release E) (PDict (sort_key fst (finding_as_dict v))) @ [newline]"

definition refused_append :: "string list \<Rightarrow> int \<Rightarrow> string \<Rightarrow> append_result" where
  "refused_append codes n head = \<lparr>ar_decision = ''BLOCKED'', ar_conflicts = codes, ar_occurrence = n, ar_head = head, ar_mutations = 0,
     ar_idempotent = False\<rparr>"

definition write_event ::
    "work_env \<Rightarrow> finding_event \<Rightarrow> string \<Rightarrow> pydict list \<Rightarrow> occurrence \<Rightarrow> string option \<Rightarrow> write_end \<Rightarrow> (append_result \<times> string option) result" where
  "write_event E v expected ds before file ending =
     (let partial = (\<lambda>file'. Inr (\<lparr>ar_decision = ''PARTIAL_MUTATION'', ar_conflicts = [''EXECUTION_CONTROL_EVENT_APPEND_PARTIAL''],
        ar_occurrence = oc_count before, ar_head = oc_head before,
        ar_mutations = (if ledger_preimage E file' \<noteq> expected then 1 else 0), ar_idempotent = False\<rparr>, file')) in
      case ending of
        Not_Opened \<Rightarrow> partial file
      | Torn k \<Rightarrow> partial (Some (ledger_bytes file @ take k (event_line E v)))
      | Complete \<Rightarrow>
          let_ok (project_occurrence E (project_ledger E (ds @ [finding_as_dict v])) (fo_identity v)) (\<lambda>after.
          Inr (\<lparr>ar_decision = ''PASS'', ar_conflicts = [], ar_occurrence = oc_count after, ar_head = oc_head after, ar_mutations = 1,
            ar_idempotent = False\<rparr>, Some (ledger_bytes file @ event_line E v))))"

definition append_event :: "work_env \<Rightarrow> finding_event \<Rightarrow> string \<Rightarrow> string option \<Rightarrow> write_end \<Rightarrow> (append_result \<times> string option) result" where
  "append_event E v expected file ending =
     let_ok (guard (digest_re expected) ''expected_preimage_digest must be one lowercase SHA-256 digest'') (\<lambda>_.
     if ledger_preimage E file \<noteq> expected then Inr (refused_append [''EXECUTION_CONTROL_LEDGER_PREIMAGE_DRIFT''] 0 [], file)
     else case read_ledger E file of (ds, errs) \<Rightarrow>
       if errs \<noteq> [] then Inr (refused_append [''EXECUTION_CONTROL_LEDGER_INVALID''] 0 [], file)
       else let P = project_ledger E ds in
         let_ok (project_occurrence E P (fo_identity v)) (\<lambda>before.
         if oc_decision before \<noteq> ''PASS'' then Inr (refused_append (oc_codes before) (oc_count before) (oc_head before), file)
         else case by_observation_key P (fo_key v) of
           Some u \<Rightarrow>
             if fo_payload u \<noteq> fo_payload v
             then Inr (refused_append [''EXECUTION_CONTROL_OBSERVATION_REPLAY_MISMATCH''] (oc_count before) (oc_head before), file)
             else Inr (\<lparr>ar_decision = ''PASS'', ar_conflicts = [], ar_occurrence = oc_count before, ar_head = oc_head before,
               ar_mutations = 0, ar_idempotent = True\<rparr>, file)
         | None \<Rightarrow> write_event E v expected ds before file ending))"

section \<open>The plan of an observation\<close>

definition rework_payload :: "rework_plan \<Rightarrow> pydict" where
  "rework_payload p =
     [(''decision'', PStr (rw_decision p)), (''reuse_work'', PBool (rw_reuse_work p)), (''reuse_thread'', PBool (rw_reuse_thread p)),
      (''new_attempt'', PBool (rw_new_attempt p)), (''new_dispatch'', PBool (rw_new_dispatch p)),
      (''create_worktree'', PBool (rw_create_worktree p)), (''restart_layer'', PStr (rw_restart p)),
      (''layers'', PList (map PStr (rw_layers p))), (''reason_codes'', PList (map PStr (rw_reasons p)))]"

record observation_plan =
  ob_decision :: string
  ob_conflicts :: "string list"
  ob_ref :: string
  ob_identity :: "finding_identity option"
  ob_identity_digest :: string
  ob_route :: "failure_route option"
  ob_event :: "finding_event option"
  ob_append :: bool
  ob_preimage :: string

definition or_none :: "('a \<Rightarrow> pydict) \<Rightarrow> 'a option \<Rightarrow> pyval" where
  "or_none f x = (case x of None \<Rightarrow> PNone | Some y \<Rightarrow> PDict (sort_key fst (f y)))"

definition observation_as_dict :: "observation_plan \<Rightarrow> pydict" where
  "observation_as_dict p =
     [(''decision'', PStr (ob_decision p)), (''conflicts'', PList (map PStr (ob_conflicts p))), (''evidence_ref'', PStr (ob_ref p)),
      (''identity'', or_none identity_as_dict (ob_identity p)), (''identity_digest'', PStr (ob_identity_digest p)),
      (''route'', or_none route_as_dict (ob_route p)), (''event'', or_none finding_as_dict (ob_event p)),
      (''append_required'', PBool (ob_append p)), (''expected_ledger_preimage_digest'', PStr (ob_preimage p)),
      (''planned_domain_mutation_count'', PInt 0)]"

definition blocked_observation :: "string list \<Rightarrow> string \<Rightarrow> string \<Rightarrow> observation_plan" where
  "blocked_observation conflicts ref preimage =
     \<lparr>ob_decision = ''BLOCKED'', ob_conflicts = (if conflicts = [] then [''FINDING_OBSERVATION_INVALID''] else sort (remdups conflicts)),
      ob_ref = ref, ob_identity = None, ob_identity_digest = [], ob_route = None, ob_event = None, ob_append = False, ob_preimage = preimage\<rparr>"

definition action_for_route :: "string \<Rightarrow> string \<Rightarrow> int \<Rightarrow> string" where
  "action_for_route status slice_decision n =
     (if 3 \<le> n then ''REQUIRE_DESIGN_CLARIFICATION''
      else if status = ''PASS'' then ''COMPLETE_CURRENT_LAYER_ONLY''
      else if status = ''BLOCKED'' then ''WAIT_IN_CONTAINER''
      else if slice_decision = ''RETRY_LAYER'' then ''RETRY_CURRENT_LAYER''
      else if slice_decision = ''REWORK_CURRENT_SLICE'' then ''REWORK_CURRENT_SLICE''
      else if slice_decision = ''RECOVERY_REQUIRED'' then ''RECOVER_PARTIAL_AND_STOP''
      else ''CLASSIFY_BEFORE_CONTINUE'')"

definition frozen_bindings :: "exec_unit \<Rightarrow> failure_contract \<Rightarrow> failure_evidence \<Rightarrow> bool" where
  "frozen_bindings u k e =
     (fk_root k = eu_root u \<and> fk_slice k = eu_slice u \<and> fk_revision k = eu_revision u \<and> fe_unit e = eu_unit u
      \<and> fe_revision e = eu_revision u \<and> fe_profile e = eu_digest u \<and> fe_checks e = fk_checks k)"

text \<open>The classification and the route of the slice, as they enter the digests: an item that passes must not come with facts of
  a failure, and the reason of a failing item must be the one of the classification.\<close>

definition classify_item :: "result_item \<Rightarrow> pydict \<Rightarrow> string \<Rightarrow> string \<Rightarrow> string + (pydict \<times> pydict \<times> string)" where
  "classify_item i facts failed slice =
     (let c = classify_failure facts in
      if it_status i = ''PASS''
      then if fc_class c \<noteq> ''UNKNOWN'' then Inl ''FROZEN_PASS_FACTS_CONFLICT''
        else Inr ([(''decision'', PStr ''PASS''), (''reason_codes'', PList (map PStr (it_reasons i)))],
          [(''decision'', PStr ''PASS''), (''failed_layer'', PStr failed), (''invalidated_layers'', PList [])], ''PASS'')
      else if hd (it_reasons i) \<notin> set (fc_reasons c) then Inl ''FROZEN_REASON_CLASSIFICATION_MISMATCH''
      else case route_slice_failure (fc_class c) failed slice [] of
        Inl _ \<Rightarrow> Inl ''FAILURE_ROUTE_INPUT_INVALID''
      | Inr r \<Rightarrow> Inr (failure_class_as_dict c, slice_route_as_dict r, sf_decision r))"

definition next_occurrence :: "bool \<Rightarrow> bool \<Rightarrow> int \<Rightarrow> int" where
  "next_occurrence append_required replay n = (if replay then n else if append_required then n + 1 else max n 1)"

definition observed_event ::
    "exec_unit \<Rightarrow> failure_evidence \<Rightarrow> failure_attempt \<Rightarrow> string \<Rightarrow> string \<Rightarrow> string \<Rightarrow> failure_route \<Rightarrow> finding_event" where
  "observed_event u e a ref key identity r =
     \<lparr>fo_id = event_id_of key, fo_unit = eu_unit u, fo_attempt = fa_next_attempt a, fo_ref = ref, fo_result = fe_result e, fo_key = key,
      fo_identity = identity, fo_revision = fe_revision e, fo_classification = xr_classification r, fo_slice = xr_slice r,
      fo_plan = xr_attempt r, fo_observed = fe_observed e, fo_payload = []\<rparr>"

definition finding_of :: "exec_unit \<Rightarrow> failure_evidence \<Rightarrow> result_item \<Rightarrow> finding_identity" where
  "finding_of u e i = \<lparr>fi_root = eu_root u, fi_slice = eu_slice u, fi_group = it_group i, fi_code = hd (it_reasons i),
     fi_revision = fe_revision e, fi_scope = fe_scope e\<rparr>"

text \<open>The plan for a finding whose earlier occurrences are known.\<close>

definition observe_item ::
    "work_env \<Rightarrow> exec_unit \<Rightarrow> failure_evidence \<Rightarrow> result_item \<Rightarrow> finding_identity \<Rightarrow> string \<Rightarrow> pydict \<Rightarrow> string \<Rightarrow> failure_attempt
     \<Rightarrow> ledger_projection \<Rightarrow> int \<Rightarrow> string \<Rightarrow> observation_plan result" where
  "observe_item E u e i identity ref facts failed a P earlier preimage =
     (let rework = plan_rework a failed; required = (it_status i \<noteq> ''PASS''); idig = dict_digest E (identity_as_dict identity);
          key = (if required then observation_key E (eu_unit u) (fa_next_attempt a) (fe_result e) idig else []);
          replay = (required \<and> by_observation_key P key \<noteq> None); n = next_occurrence required replay earlier in
      case classify_item i facts failed (eu_slice u) of
        Inl code \<Rightarrow> Inr (blocked_observation [code] ref preimage)
      | Inr (classification, slice, decision) \<Rightarrow>
          let action = action_for_route (it_status i) decision n in
          if action \<in> {''RETRY_CURRENT_LAYER'', ''REWORK_CURRENT_SLICE''} \<and> rw_decision rework \<noteq> ''READY''
          then Inr (blocked_observation (rw_reasons rework) ref preimage)
          else
            let_ok (mk_route (route_as_dict \<lparr>xr_classification = dict_digest E classification, xr_slice = dict_digest E slice,
                xr_attempt = dict_digest E (rework_payload rework), xr_action = action, xr_occurrence = n\<rparr>)) (\<lambda>route.
            let_ok (if required then let_ok (build_event E (observed_event u e a ref key idig route)) (\<lambda>v. Inr (Some v)) else Inr None) (\<lambda>event.
            Inr \<lparr>ob_decision = ''READY'', ob_conflicts = [], ob_ref = ref, ob_identity = Some identity, ob_identity_digest = idig,
              ob_route = Some route, ob_event = event, ob_append = required, ob_preimage = preimage\<rparr>)))"

definition plan_finding_observation ::
    "work_env \<Rightarrow> exec_unit \<Rightarrow> failure_contract \<Rightarrow> failure_evidence \<Rightarrow> string \<Rightarrow> pydict \<Rightarrow> string \<Rightarrow> failure_attempt
     \<Rightarrow> ledger_projection \<Rightarrow> string \<Rightarrow> observation_plan result" where
  "plan_finding_observation E u k e evidence_ref facts failed a P preimage =
     let_ok (relative_ref ''evidence_ref'' (PStr evidence_ref)) (\<lambda>raw.
     let_ok (sha256_field ''ledger_preimage_digest'' (PStr preimage)) (\<lambda>_.
     let ref = as_posix raw in
     if failed \<notin> set validation_layer_order then Inr (blocked_observation [''FAILURE_ROUTE_INPUT_INVALID''] ref preimage)
     else if \<not> frozen_bindings u k e
     then Inr (blocked_observation [''FROZEN_CONTRACT_OR_EVIDENCE_BINDING_MISMATCH''] ref preimage)
     else case fe_items e of
       [] \<Rightarrow> Inl (IndexError ''tuple index out of range'')
     | i # _ \<Rightarrow>
       let_ok (mk_identity (identity_as_dict (finding_of u e i))) (\<lambda>identity.
       let_ok (project_occurrence E P (dict_digest E (identity_as_dict identity))) (\<lambda>oc.
       if oc_decision oc \<noteq> ''PASS'' then Inr (blocked_observation (oc_codes oc) ref preimage)
       else observe_item E u e i identity ref facts failed a P (oc_count oc) preimage))))"

record admission_plan =
  ad_decision :: string
  ad_facts :: string
  ad_scope :: string
  ad_candidate :: string
  ad_conflicts :: "string list"
  ad_coordination :: bool

definition check_admission :: "admission_plan \<Rightarrow> unit result" where
  "check_admission p =
     let_ok (guard (ad_decision p \<in> {''READY'', ''BLOCKED''}) ''admission decision is unsupported'') (\<lambda>_.
     let_ok (sha256_field ''facts_digest'' (PStr (ad_facts p))) (\<lambda>_.
     let_ok (sha256_field ''scope_digest'' (PStr (ad_scope p))) (\<lambda>_.
     let_ok (sha256_field ''candidate_digest'' (PStr (ad_candidate p))) (\<lambda>_.
     let_ok (check_all (\<lambda>c. let_ok (safe_code ''conflicts'' (PStr c)) (\<lambda>_. Inr ())) (ad_conflicts p)) (\<lambda>_.
     let_ok (guard (distinct (ad_conflicts p)) ''conflicts must not contain duplicates'') (\<lambda>_.
     let_ok (guard (\<not> (ad_decision p = ''READY'' \<and> ad_conflicts p \<noteq> [])) ''READY admission must not contain conflicts'') (\<lambda>_.
     guard (\<not> (ad_decision p = ''BLOCKED'' \<and> ad_conflicts p = [])) ''BLOCKED admission requires conflicts'')))))))"

definition coordination_plan :: "work_env \<Rightarrow> observation_plan \<Rightarrow> admission_plan result" where
  "coordination_plan E p =
     (case ob_identity p of
        None \<Rightarrow> Inl (ValueError ''blocked finding plan cannot acquire the project lock'')
      | Some i \<Rightarrow>
          let_ok (guard (ob_decision p \<noteq> ''BLOCKED'') ''blocked finding plan cannot acquire the project lock'') (\<lambda>_.
          let q = \<lparr>ad_decision = ''READY'', ad_facts = dict_digest E [(''identity_digest'', PStr (ob_identity_digest p)),
                (''ledger_preimage_digest'', PStr (ob_preimage p))], ad_scope = fi_scope i, ad_candidate = dict_digest E (observation_as_dict p),
              ad_conflicts = [], ad_coordination = True\<rparr> in
          let_ok (check_admission q) (\<lambda>_. Inr q)))"

section \<open>Registration of a failure of a Work\<close>

text \<open>What the registration reads: the Work, the bytes of the contract and the parsed evidence, each none when the file cannot be
  read or parsed, and the ledger file.\<close>

record failure_files =
  ff_work :: "work result"
  ff_contract :: "string option"
  ff_evidence :: "pyval option"
  ff_ledger :: "string option"

definition invalid_input :: string where
  "invalid_input = ''FROZEN_FAILURE_EVIDENCE_OR_ROUTE_INVALID''"

fun load_contract :: "work_env \<Rightarrow> string option \<Rightarrow> failure_contract result" where
  "load_contract E None = Inl (ValueError ''execution failure contract is unreadable'')"
| "load_contract E (Some raw) =
     (case r_loads (we_release E) raw of
        None \<Rightarrow> Inl (ValueError ''execution failure contract is unreadable'')
      | Some (PDict d) \<Rightarrow> contract_from_mapping E (PDict d)
      | Some _ \<Rightarrow> Inl (ValueError ''execution failure contract must be one JSON object''))"

fun load_evidence :: "work_env \<Rightarrow> pyval option \<Rightarrow> failure_evidence result" where
  "load_evidence E None = Inl (ValueError ''frozen failure evidence is unreadable'')"
| "load_evidence E (Some (PDict d)) = evidence_from_mapping E (PDict d)"
| "load_evidence E (Some _) = Inl (ValueError ''frozen failure evidence must be one JSON object'')"

fun exception_caught :: "exc \<Rightarrow> bool" where
  "exception_caught (ValueError _) = True"
| "exception_caught (TypeError _) = True"
| "exception_caught (OSError _) = True"
| "exception_caught _ = False"

definition plan_execution_failure ::
    "work_env \<Rightarrow> failure_files \<Rightarrow> string \<Rightarrow> pydict \<Rightarrow> string \<Rightarrow> failure_attempt \<Rightarrow> observation_plan result" where
  "plan_execution_failure E F evidence_ref facts failed a =
     (let preimage = ledger_preimage E (ff_ledger F); refuse = (\<lambda>code. Inr (blocked_observation [code] evidence_ref preimage));
          planned = let_ok (ff_work F) (\<lambda>w.
            case w_unit w of
              None \<Rightarrow> refuse ''EXECUTION_UNIT_REQUIRED''
            | Some u \<Rightarrow>
                let_ok (load_contract E (ff_contract F)) (\<lambda>k.
                if r_sha (we_release E) (ledger_bytes (ff_contract F)) \<noteq> eu_digest u then refuse ''EXECUTION_CONTRACT_DIGEST_MISMATCH''
                else let_ok (load_evidence E (ff_evidence F)) (\<lambda>e.
                if fe_scope e \<noteq> scope_digest E (w_scope w) then refuse ''FROZEN_TARGET_SCOPE_DIGEST_MISMATCH''
                else case read_ledger E (ff_ledger F) of (ds, errs) \<Rightarrow>
                  if errs \<noteq> [] then refuse ''EXECUTION_CONTROL_LEDGER_INVALID''
                  else plan_finding_observation E u k e evidence_ref facts failed a (project_ledger E ds) preimage))) in
      case planned of Inl x \<Rightarrow> if exception_caught x then refuse invalid_input else Inl x | Inr p \<Rightarrow> Inr p)"

section \<open>Lines\<close>

text \<open>A text without line boundary, also when a newline follows.\<close>

fun break_free :: "string \<Rightarrow> bool" where
  "break_free [] = True"
| "break_free (c # cs) = (break_size (c # cs) = 0 \<and> break_free cs)"

lemma break_size_newline: "break_size (newline # s) = 1"
  by (simp add: newline_def)

lemma break_size_le: "break_size s \<le> length s"
  by (induction s rule: break_size.induct) (auto simp: prefix_def)

lemma prefix_before_newline: "newline \<notin> set q \<Longrightarrow> prefix q (s @ newline # t) \<longleftrightarrow> prefix q s"
  by (induction q arbitrary: s) (auto simp: prefix_Cons Cons_prefix_Cons split: list.splits, (case_tac s; auto)+)

lemma break_size_before_newline: "s \<noteq> [] \<Longrightarrow> break_size s = 0 \<Longrightarrow> break_size (s @ newline # t) = 0"
proof (induction s rule: break_size.induct)
  case (2 c cs)
  have "newline \<notin> set [CHR 0x85]" "newline \<notin> set [CHR 0x80, CHR 0xA8]" "newline \<notin> set [CHR 0x80, CHR 0xA9]" by (simp_all add: newline_def)
  note p = this [THEN prefix_before_newline, of cs t]
  show ?case using 2 by (simp add: p split: if_splits)
qed simp

lemma text_lines_line:
  assumes "break_free l"
  shows "text_lines (l @ newline # s) = l # text_lines s"
  using assms
proof (induction l)
  case (Cons c l)
  then have "break_size ((c # l) @ newline # s) = 0" by (intro break_size_before_newline) auto
  then show ?case using Cons by (simp del: break_size.simps)
qed (simp add: break_size_newline del: break_size.simps)

text \<open>After a newline the lines start afresh.\<close>

lemma break_size_append: "s \<noteq> [] \<Longrightarrow> last s = newline \<Longrightarrow> break_size (s @ t) = break_size s"
proof (induction s rule: break_size.induct)
  case (2 c cs)
  show ?case
  proof (cases "cs = []")
    case True
    then have "c = newline" using 2 by simp
    then show ?thesis using True break_size_newline by (metis append_Cons append_Nil)
  next
    case False
    then obtain d where d: "cs = d @ [newline]" using 2 by (metis append_butlast_last_id last.simps)
    have "prefix q (d @ newline # t) \<longleftrightarrow> prefix q (d @ [newline])" if "q \<in> {[CHR 0x85], [CHR 0x80, CHR 0xA8], [CHR 0x80, CHR 0xA9]}" for q
      using that prefix_before_newline [of q d t] prefix_before_newline [of q d "[]"] by (auto simp: newline_def)
    moreover have "prefix [CHR 0x0A] (d @ newline # t) \<longleftrightarrow> prefix [CHR 0x0A] (d @ [newline])" by (cases d) (auto simp: newline_def)
    ultimately show ?thesis by (simp add: d)
  qed
qed simp

declare break_size.simps(2) [simp del]

lemma text_lines_Nil: "text_lines s = [] \<longleftrightarrow> s = []"
  by (cases s) (auto split: list.splits)

lemma text_lines_append: "s = [] \<or> last s = newline \<Longrightarrow> text_lines (s @ t) = text_lines s @ text_lines t"
proof (induction s rule: text_lines.induct)
  case (2 c cs)
  let ?n = "break_size (c # cs)"
  have n: "break_size ((c # cs) @ t) = ?n" by (rule break_size_append) (use 2(3) in auto)
  show ?case
  proof (cases "?n = 0")
    case True
    then have cs: "cs \<noteq> []" using 2(3) break_size_newline by (metis last.simps list.distinct(1) zero_neq_one)
    then have "last cs = newline" using 2(3) by simp
    then have IH: "text_lines (cs @ t) = text_lines cs @ text_lines t" using 2(1) [OF True] by simp
    obtain l ls where "text_lines cs = l # ls" using cs text_lines_Nil by (meson list.exhaust)
    then show ?thesis using True n IH by simp
  next
    case False
    have le: "?n \<le> length (c # cs)" by (rule break_size_le)
    have "drop ?n (c # cs) = [] \<or> last (drop ?n (c # cs)) = newline"
      using 2(3) by (metis drop_eq_Nil last_drop list.distinct(1) not_le)
    then have "text_lines (drop ?n (c # cs) @ t) = text_lines (drop ?n (c # cs)) @ text_lines t" by (rule 2(2) [OF False])
    moreover have "drop ?n ((c # cs) @ t) = drop ?n (c # cs) @ t" unfolding drop_append using le by simp
    ultimately show ?thesis using False n text_lines.simps(2) [of c cs] text_lines.simps(2) [of c "cs @ t"] by simp
  qed
qed simp

lemma load_lines_append: "load_lines E n (xs @ ys) =
    (case load_lines E n xs of (ds, errs) \<Rightarrow> case load_lines E (n + length xs) ys of (ds', errs') \<Rightarrow> (ds @ ds', errs @ errs'))"
  by (induction xs arbitrary: n) (auto split: prod.splits option.splits pyval.splits)

section \<open>Events read back\<close>

lemma checked_Inr [read_simps]: "checked_str p m v = Inr s \<longleftrightarrow> v = PStr s \<and> p s"
  by (cases v) (auto simp: checked_str_def)

lemma str_values_strs [simp]: "str_values f (PList (map PStr xs)) = Inr xs"
  by (induction xs) (auto simp: str_values_def list_all_iff)

lemma positive_Inr [read_simps]: "positive_int f v = Inr n \<longleftrightarrow> v = PInt n \<and> 1 \<le> n"
  by (cases v) (auto simp: positive_int_def)

lemma nonblank_Inr [read_simps]: "nonblank f v = Inr s \<longleftrightarrow> v = PStr s \<and> py_strip s \<noteq> []"
  by (cases v) (auto simp: nonblank_def blank_text_def guard_def)

lemma process_ref_Inr [read_simps]: "process_ref v = Inr s \<longleftrightarrow> v = PStr s \<and> prefix ''process/'' s \<and> ''..'' \<notin> set (path_parts s)
    \<and> CHR 0x5C \<notin> set s"
  by (cases v) (auto simp: process_ref_def read_simps)

definition observation_wf :: "work_env \<Rightarrow> finding_event \<Rightarrow> bool" where
  "observation_wf E v =
     (py_strip (fo_unit v) \<noteq> [] \<and> py_strip (fo_attempt v) \<noteq> [] \<and> py_strip (fo_observed v) \<noteq> [] \<and> py_strip (fo_id v) \<noteq> []
      \<and> prefix ''process/'' (fo_ref v) \<and> ''..'' \<notin> set (path_parts (fo_ref v)) \<and> CHR 0x5C \<notin> set (fo_ref v) \<and> 1 \<le> fo_revision v
      \<and> list_all digest_re [fo_result v, fo_key v, fo_identity v, fo_classification v, fo_slice v, fo_plan v, fo_payload v]
      \<and> fo_key v = observation_key E (fo_unit v) (fo_attempt v) (fo_result v) (fo_identity v) \<and> fo_id v = event_id_of (fo_key v)
      \<and> fo_payload v = dict_digest E (finding_payload v))"

lemma mk_event_Inr: "mk_finding_event E d = Inr v \<longleftrightarrow> observation_wf E v \<and> (\<forall>k \<in> set observation_fields. dget d k = dget (finding_as_dict v) k)"
  by (cases v) (auto simp: mk_finding_event_def observation_wf_def observation_fields_def finding_as_dict_def finding_payload_def read_simps
      safe_id_def sha256_field_def Let_def)

lemma observation_keys: "dkeys (finding_as_dict v) = set observation_fields" and event_distinct: "distinct (map fst (finding_as_dict v))"
  by (auto simp: finding_as_dict_def finding_payload_def observation_fields_def)

lemma dkeys_dset: "dkeys (dset d k v) = insert k (dkeys d)"
  by (force simp: dset_def dkeys_def)

lemma dpop_dset: "dpop (dset d k v) k = dpop d k"
proof -
  have "filter (\<lambda>(k', _). k' \<noteq> k) (map (\<lambda>(k', u). (k', if k' = k then v else u)) d) = filter (\<lambda>(k', _). k' \<noteq> k) d"
    by (induction d) auto
  then show ?thesis by (simp add: dset_def dpop_def)
qed

lemma dpop_absent: "k \<notin> dkeys d \<Longrightarrow> dpop d k = d"
  by (force simp: dpop_def dkeys_def filter_id_conv)

text \<open>An event is read back from its line.\<close>

lemma event_reads:
  assumes "observation_wf E v"
  shows "observation_from_mapping E (dpop (finding_as_dict v) ''_line_no'') = Inr v"
    and "observation_from_mapping E (dpop (dset (sort_key fst (finding_as_dict v)) ''_line_no'' n) ''_line_no'') = Inr v"
proof -
  have "''_line_no'' \<notin> set observation_fields" by (simp add: observation_fields_def)
  then have pops: "dpop (finding_as_dict v) ''_line_no'' = finding_as_dict v"
    "dpop (dset (sort_key fst (finding_as_dict v)) ''_line_no'' n) ''_line_no'' = sort_key fst (finding_as_dict v)"
    by (simp_all add: dpop_dset dpop_absent observation_keys dkeys_sort_key)
  have "mk_finding_event E (finding_as_dict v) = Inr v" "mk_finding_event E (sort_key fst (finding_as_dict v)) = Inr v"
    using assms by (simp_all add: mk_event_Inr dget_sort_key event_distinct)
  then show "observation_from_mapping E (dpop (finding_as_dict v) ''_line_no'') = Inr v"
    "observation_from_mapping E (dpop (dset (sort_key fst (finding_as_dict v)) ''_line_no'' n) ''_line_no'') = Inr v"
    unfolding pops by (simp_all add: observation_from_mapping_def observation_keys dkeys_sort_key)
qed

lemma event_line_loads:
  assumes "release_env_ok (we_release E)"
  shows "r_loads (we_release E) (r_json (we_release E) (PDict (sort_key fst (finding_as_dict v)))) = Some (PDict (sort_key fst (finding_as_dict v)))"
proof -
  have "list_all (\<lambda>(k, v). key_sorted v) (finding_as_dict v)" by (simp add: finding_as_dict_def finding_payload_def)
  then show ?thesis using assms key_sorted_sort_key [OF event_distinct] by (simp add: release_env_ok_def)
qed

section \<open>What a ledger holds\<close>

text \<open>The file holds these events: every line that is not blank is one of them, in order, and the last line is complete.\<close>

definition reads_as :: "work_env \<Rightarrow> pydict list \<Rightarrow> finding_event list \<Rightarrow> bool" where
  "reads_as E ds vs = list_all2 (\<lambda>d v. observation_from_mapping E (dpop d ''_line_no'') = Inr v) ds vs"

definition ledger_holds :: "work_env \<Rightarrow> string option \<Rightarrow> finding_event list \<Rightarrow> bool" where
  "ledger_holds E file vs =
     ((\<exists>ds. read_ledger E file = (ds, []) \<and> reads_as E ds vs) \<and> (ledger_bytes file = [] \<or> last (ledger_bytes file) = newline))"

lemma scan_reads:
  assumes "reads_as E ds vs"
  shows "\<exists>codes. scan_events E ds codes0 seen = (codes0 @ codes, seen @ vs)
    \<and> (codes = [] \<longleftrightarrow> distinct (map fo_id vs) \<and> distinct (map fo_key vs)
        \<and> fo_id ` set vs \<inter> fo_id ` set seen = {} \<and> fo_key ` set vs \<inter> fo_key ` set seen = {})"
  using assms unfolding reads_as_def
proof (induction arbitrary: codes0 seen rule: list_all2_induct)
  case (Cons d ds v vs)
  let ?new = "(if fo_id v \<in> fo_id ` set seen then [''EXECUTION_CONTROL_EVENT_ID_DUPLICATE''] else [])
    @ (if fo_key v \<in> fo_key ` set seen then [''EXECUTION_CONTROL_OBSERVATION_KEY_DUPLICATE''] else [])"
  obtain codes where c: "scan_events E ds (codes0 @ ?new) (seen @ [v]) = ((codes0 @ ?new) @ codes, (seen @ [v]) @ vs)"
    "codes = [] \<longleftrightarrow> distinct (map fo_id vs) \<and> distinct (map fo_key vs)
        \<and> fo_id ` set vs \<inter> fo_id ` set (seen @ [v]) = {} \<and> fo_key ` set vs \<inter> fo_key ` set (seen @ [v]) = {}"
    using Cons.IH [of "codes0 @ ?new" "seen @ [v]"] by blast
  have "scan_events E (d # ds) codes0 seen = (codes0 @ ?new @ codes, seen @ v # vs)" using Cons.hyps(1) c(1) by simp
  moreover have "?new @ codes = [] \<longleftrightarrow> distinct (map fo_id (v # vs)) \<and> distinct (map fo_key (v # vs))
        \<and> fo_id ` set (v # vs) \<inter> fo_id ` set seen = {} \<and> fo_key ` set (v # vs) \<inter> fo_key ` set seen = {}"
    unfolding append_is_Nil_conv c(2) by auto
  ultimately show ?case by blast
qed simp

text \<open>The projection passes exactly when no event identifier repeats.\<close>

lemma reads_wf: "reads_as E ds vs \<Longrightarrow> v \<in> set vs \<Longrightarrow> observation_wf E v"
  by (auto simp: reads_as_def list_all2_conv_all_nth in_set_conv_nth observation_from_mapping_def read_simps mk_event_Inr)

lemma project_reads:
  assumes "reads_as E ds vs"
  shows "lp_events (project_ledger E ds) = vs" and "lp_decision (project_ledger E ds) = ''PASS'' \<longleftrightarrow> distinct (map fo_id vs)"
    and "lp_decision (project_ledger E ds) \<noteq> ''PASS'' \<Longrightarrow> lp_decision (project_ledger E ds) = ''BLOCKED''"
proof -
  obtain codes where c: "scan_events E ds [] [] = (codes, vs)" "codes = [] \<longleftrightarrow> distinct (map fo_id vs) \<and> distinct (map fo_key vs)"
    using scan_reads [OF assms, of "[]" "[]"] by auto
  have "fo_id v = event_id_of (fo_key v)" if "v \<in> set vs" for v using reads_wf [OF assms that] by (simp add: observation_wf_def)
  then have "map fo_id vs = map event_id_of (map fo_key vs)" by simp
  then have "distinct (map fo_id vs) \<Longrightarrow> distinct (map fo_key vs)" by (metis distinct_map)
  then show "lp_events (project_ledger E ds) = vs" "lp_decision (project_ledger E ds) = ''PASS'' \<longleftrightarrow> distinct (map fo_id vs)"
    "lp_decision (project_ledger E ds) \<noteq> ''PASS'' \<Longrightarrow> lp_decision (project_ledger E ds) = ''BLOCKED''"
    using c by (auto simp: project_ledger_def split: if_splits)
qed

section \<open>Appending\<close>

definition occurrences_of :: "string \<Rightarrow> finding_event list \<Rightarrow> int" where
  "occurrences_of identity vs = int (length (filter (\<lambda>v. fo_identity v = identity) vs))"

lemma occurrences_snoc: "occurrences_of i (vs @ [v]) = occurrences_of i vs + (if fo_identity v = i then 1 else 0)"
  by (simp add: occurrences_of_def)

lemma occurrence_reads:
  assumes "reads_as E ds vs" and "digest_re i"
  shows "\<exists>oc. project_occurrence E (project_ledger E ds) i = Inr oc \<and> oc_count oc = occurrences_of i vs
    \<and> (oc_decision oc = ''PASS'' \<longleftrightarrow> distinct (map fo_id vs)) \<and> oc_decision oc = lp_decision (project_ledger E ds)"
  using project_reads [OF assms(1)] assms(2) by (simp add: project_occurrence_def occurrences_of_def Let_def)

lemma find_key: "distinct (map fo_key vs) \<Longrightarrow> find (\<lambda>v. fo_key v = key) vs = Some u \<longleftrightarrow> u \<in> set vs \<and> fo_key u = key"
  by (induction vs) auto

lemma find_key_None: "find (\<lambda>v. fo_key v = key) vs = None \<longleftrightarrow> key \<notin> fo_key ` set vs"
  by (auto simp: find_None_iff)

lemma reads_snoc:
  assumes "reads_as E ds vs" and "observation_wf E v"
  shows "reads_as E (ds @ [finding_as_dict v]) (vs @ [v])"
  using assms event_reads(1) [OF assms(2)] by (simp add: reads_as_def list_all2_appendI)

text \<open>The line of an event extends what the file holds.\<close>

lemma holds_snoc:
  assumes env: "release_env_ok (we_release E)" and "ledger_holds E file vs" and v: "observation_wf E v"
    and free: "break_free (r_json (we_release E) (PDict (sort_key fst (finding_as_dict v))))"
    and plain: "py_strip (r_json (we_release E) (PDict (sort_key fst (finding_as_dict v)))) \<noteq> []"
  shows "ledger_holds E (Some (ledger_bytes file @ event_line E v)) (vs @ [v])"
proof -
  let ?l = "r_json (we_release E) (PDict (sort_key fst (finding_as_dict v)))"
  obtain ds where ds: "read_ledger E file = (ds, [])" "reads_as E ds vs" and ended: "ledger_bytes file = [] \<or> last (ledger_bytes file) = newline"
    using assms(2) by (auto simp: ledger_holds_def)
  have old: "load_lines E 1 (text_lines (ledger_bytes file)) = (ds, [])"
    using ds(1) by (auto simp: read_ledger_def load_events_def ledger_bytes_def split: option.splits if_splits)
  have "text_lines (?l @ newline # []) = [?l]" using text_lines_line [OF free, of "[]"] by simp
  then have "text_lines (ledger_bytes file @ event_line E v) = text_lines (ledger_bytes file) @ [?l]"
    using text_lines_append [OF ended] by (simp add: event_line_def)
  then have "read_ledger E (Some (ledger_bytes file @ event_line E v))
      = (ds @ [dset (sort_key fst (finding_as_dict v)) ''_line_no'' (PInt (1 + int (length (text_lines (ledger_bytes file)))))], [])"
    using old plain event_line_loads [OF env, of v] by (simp add: read_ledger_def load_events_def load_lines_append)
  moreover have "reads_as E (ds @ [dset (sort_key fst (finding_as_dict v)) ''_line_no'' n]) (vs @ [v])" for n
    using ds(2) event_reads(2) [OF v] by (simp add: reads_as_def list_all2_appendI)
  moreover have "last (ledger_bytes file @ event_line E v) = newline" by (simp add: event_line_def)
  ultimately show ?thesis by (simp add: ledger_holds_def ledger_bytes_def)
qed

text \<open>A printed line that can be found again: no line boundary in it, and not blank.\<close>

definition line_ok :: "work_env \<Rightarrow> finding_event \<Rightarrow> bool" where
  "line_ok E v = (let l = r_json (we_release E) (PDict (sort_key fst (finding_as_dict v))) in break_free l \<and> py_strip l \<noteq> [])"

definition append_refused :: "work_env \<Rightarrow> finding_event \<Rightarrow> string \<Rightarrow> string option \<Rightarrow> finding_event list \<Rightarrow> bool" where
  "append_refused E v expected file vs =
     (ledger_preimage E file \<noteq> expected \<or> \<not> distinct (map fo_id vs) \<or> (\<exists>u \<in> set vs. fo_key u = fo_key v \<and> fo_payload u \<noteq> fo_payload v))"

lemma append_outcome:
  assumes env: "release_env_ok (we_release E)" and holds: "ledger_holds E file vs" and v: "observation_wf E v" and line: "line_ok E v"
    and run: "append_event E v expected file Complete = Inr (r, file')"
  shows "if append_refused E v expected file vs then ar_decision r = ''BLOCKED'' \<and> file' = file \<and> ar_mutations r = 0
    else ar_decision r = ''PASS'' \<and> (ar_idempotent r \<longleftrightarrow> fo_key v \<in> fo_key ` set vs) \<and> ar_mutations r = (if ar_idempotent r then 0 else 1)
      \<and> (ar_idempotent r \<longrightarrow> file' = file) \<and> ledger_holds E file' (if ar_idempotent r then vs else vs @ [v])
      \<and> ar_occurrence r = occurrences_of (fo_identity v) (if ar_idempotent r then vs else vs @ [v])"
proof (cases "ledger_preimage E file = expected")
  case False
  then show ?thesis using run by (auto simp: append_event_def append_refused_def refused_append_def read_simps)
next
  case True
  obtain ds where ds: "read_ledger E file = (ds, [])" "reads_as E ds vs" using holds by (auto simp: ledger_holds_def)
  have i: "digest_re (fo_identity v)" using v by (simp add: observation_wf_def)
  obtain oc where oc: "project_occurrence E (project_ledger E ds) (fo_identity v) = Inr oc" "oc_count oc = occurrences_of (fo_identity v) vs"
    "oc_decision oc = ''PASS'' \<longleftrightarrow> distinct (map fo_id vs)"
    using occurrence_reads [OF ds(2) i] by blast
  have run': "(if oc_decision oc \<noteq> ''PASS'' then Inr (refused_append (oc_codes oc) (oc_count oc) (oc_head oc), file)
         else case by_observation_key (project_ledger E ds) (fo_key v) of
           Some u \<Rightarrow>
             if fo_payload u \<noteq> fo_payload v
             then Inr (refused_append [''EXECUTION_CONTROL_OBSERVATION_REPLAY_MISMATCH''] (oc_count oc) (oc_head oc), file)
             else Inr (\<lparr>ar_decision = ''PASS'', ar_conflicts = [], ar_occurrence = oc_count oc, ar_head = oc_head oc,
               ar_mutations = 0, ar_idempotent = True\<rparr>, file)
         | None \<Rightarrow> write_event E v expected ds oc file Complete) = Inr (r, file')"
    using run by (auto simp: append_event_def True ds(1) oc(1) Let_def read_simps)
  show ?thesis
  proof (cases "distinct (map fo_id vs)")
    case False
    then have "append_refused E v expected file vs" by (simp add: append_refused_def)
    then show ?thesis using run' oc(3) False by (auto simp: refused_append_def)
  next
    case distinct: True
    have "fo_id u = event_id_of (fo_key u)" if "u \<in> set vs" for u using reads_wf [OF ds(2) that] by (simp add: observation_wf_def)
    then have "map fo_id vs = map event_id_of (map fo_key vs)" by simp
    then have keys: "distinct (map fo_key vs)" using distinct by (metis distinct_map)
    have key: "by_observation_key (project_ledger E ds) (fo_key v) = find (\<lambda>u. fo_key u = fo_key v) vs"
      using project_reads(1) [OF ds(2)] by (simp add: by_observation_key_def)
    show ?thesis
    proof (cases "find (\<lambda>u. fo_key u = fo_key v) vs")
      case None
      then have new: "fo_key v \<notin> fo_key ` set vs" by (simp add: find_key_None)
      then have "fo_key u \<noteq> fo_key v" if "u \<in> set vs" for u using that by (metis image_eqI)
      then have ok: "\<not> append_refused E v expected file vs" using True distinct by (auto simp: append_refused_def)
      obtain oc' where "project_occurrence E (project_ledger E (ds @ [finding_as_dict v])) (fo_identity v) = Inr oc'"
        "oc_count oc' = occurrences_of (fo_identity v) (vs @ [v])"
        using occurrence_reads [OF reads_snoc [OF ds(2) v] i] by blast
      then have "r = \<lparr>ar_decision = ''PASS'', ar_conflicts = [], ar_occurrence = occurrences_of (fo_identity v) (vs @ [v]), ar_head = oc_head oc',
          ar_mutations = 1, ar_idempotent = False\<rparr>" and "file' = Some (ledger_bytes file @ event_line E v)"
        using run' distinct oc(3) None key by (auto simp: write_event_def Let_def)
      then show ?thesis using ok new holds_snoc [OF env holds v] line by (simp add: line_ok_def Let_def)
    next
      case (Some u)
      then have u: "u \<in> set vs" "fo_key u = fo_key v" using find_key [OF keys] by blast+
      then have "fo_key v \<in> fo_key ` set vs" by (metis image_eqI)
      moreover have "w = u" if "w \<in> set vs" "fo_key w = fo_key v" for w using find_key [OF keys, of "fo_key v" w] that Some by simp
      then have "(\<exists>w \<in> set vs. fo_key w = fo_key v \<and> fo_payload w \<noteq> fo_payload v) \<longleftrightarrow> fo_payload u \<noteq> fo_payload v"
        using u by blast
      then have "append_refused E v expected file vs \<longleftrightarrow> fo_payload u \<noteq> fo_payload v"
        unfolding append_refused_def using True distinct by simp
      ultimately show ?thesis using run' distinct oc(2,3) Some key holds by (auto simp: refused_append_def split: if_splits)
    qed
  qed
qed

section \<open>An example environment\<close>

text \<open>An environment with a constant digest.\<close>

definition failure_env0 :: work_env where
  "failure_env0 = \<lparr>we_release = release_env0\<lparr>r_sha := \<lambda>_. digest_of CHR ''a''\<rparr>, we_ascii = sample_dumps\<rparr>"

lemma digest0 [simp]: "digest_re (digest_of CHR ''a'')" "r_sha (we_release failure_env0) t = digest_of CHR ''a''"
  "dict_digest failure_env0 d = digest_of CHR ''a''" "ledger_preimage failure_env0 lf = digest_of CHR ''a''"
  "scope_digest failure_env0 sc = digest_of CHR ''a''"
proof -
  show "digest_re (digest_of CHR ''a'')" by code_simp
qed (simp_all add: failure_env0_def dict_digest_def canonical_digest_def ledger_preimage_def scope_digest_def)

lemma failure_env0_ok: "release_env_ok (we_release failure_env0)"
  using release_env0_ok by (auto simp: release_env_ok_def failure_env0_def intro: digest0(1) [unfolded failure_env0_def])

end
