(* ===== verification/Failure_Registration.thy ===== *)
theory Failure_Registration
  imports Finding_Ledger
begin

text \<open>
  What the plans and the registrations of \<open>Finding_Ledger\<close> mean: the route of a plan in terms of the events of the ledger,
  the ledger after every history of registrations, the repetition of a registration, a line that lost its newline, and the
  building of a contract.
\<close>

section \<open>The application of a plan\<close>

text \<open>What became of the lock of the project: the acquisition and, when it gave a handle, the release. The results of
  the lock are arguments here; \<open>Admission_Lock\<close> has the lock and the registration that takes it.\<close>

record lock_use =
  lu_decision :: string
  lu_conflicts :: "string list"
  lu_handle :: bool
  lu_mutations :: int
  lu_durable :: int
  lu_release :: string
  lu_release_conflicts :: "string list"
  lu_release_partial :: bool
  lu_release_mutations :: int
  lu_release_durable :: int

record registration =
  rg_decision :: string
  rg_conflicts :: "string list"
  rg_route :: "failure_route option"
  rg_occurrence :: int
  rg_mutations :: int
  rg_coordination :: int
  rg_locks :: int
  rg_idempotent :: bool

definition result_after_release :: "lock_use \<Rightarrow> observation_plan \<Rightarrow> string \<Rightarrow> string list \<Rightarrow> int \<Rightarrow> int \<Rightarrow> bool \<Rightarrow> registration" where
  "result_after_release L p decision conflicts n m idempotent =
     \<lparr>rg_decision = (if decision = ''PARTIAL_MUTATION'' \<or> lu_release_partial L then ''PARTIAL_MUTATION''
        else if decision \<noteq> ''PASS'' \<or> lu_release L \<noteq> ''PASS'' then ''BLOCKED'' else ''PASS''),
      rg_conflicts = sort (remdups (conflicts @ lu_release_conflicts L)), rg_route = ob_route p, rg_occurrence = n, rg_mutations = m,
      rg_coordination = lu_mutations L + lu_release_mutations L, rg_locks = lu_release_durable L, rg_idempotent = idempotent\<rparr>"

definition refused_before_lock :: "observation_plan \<Rightarrow> string \<Rightarrow> string list \<Rightarrow> int \<Rightarrow> int \<Rightarrow> registration" where
  "refused_before_lock p decision conflicts m locks = \<lparr>rg_decision = decision, rg_conflicts = conflicts, rg_route = ob_route p,
     rg_occurrence = 0, rg_mutations = 0, rg_coordination = m, rg_locks = locks, rg_idempotent = False\<rparr>"

text \<open>The application under the lock: the plan is made afresh and must be the planned one.\<close>

definition apply_execution_failure ::
    "work_env \<Rightarrow> failure_files \<Rightarrow> observation_plan \<Rightarrow> string \<Rightarrow> pydict \<Rightarrow> string \<Rightarrow> failure_attempt \<Rightarrow> lock_use \<Rightarrow> write_end
     \<Rightarrow> (registration \<times> string option) result" where
  "apply_execution_failure E F p evidence_ref facts failed a L ending =
     (let file = ff_ledger F in
      if ob_decision p = ''BLOCKED'' \<or> ob_route p = None then Inr (refused_before_lock p ''BLOCKED'' (ob_conflicts p) 0 0, file)
      else let_ok (coordination_plan E p) (\<lambda>_.
        if lu_decision L \<noteq> ''PASS'' \<or> \<not> lu_handle L
        then Inr (refused_before_lock p (lu_decision L) (lu_conflicts L) (lu_mutations L) (lu_durable L), file)
        else let_ok (plan_execution_failure E F evidence_ref facts failed a) (\<lambda>fresh.
        if ob_decision fresh = ''BLOCKED'' \<or> dict_digest E (observation_as_dict fresh) \<noteq> dict_digest E (observation_as_dict p)
        then Inr (result_after_release L p ''BLOCKED'' [''EXECUTION_CONTROL_FRESH_PLAN_DRIFT''] 0 0 False, file)
        else if \<not> ob_append fresh
        then Inr (result_after_release L p ''PASS'' [] (case ob_route fresh of None \<Rightarrow> 0 | Some r \<Rightarrow> xr_occurrence r) 0 True, file)
        else case ob_event fresh of
          None \<Rightarrow> Inr (result_after_release L p ''BLOCKED'' [''EXECUTION_CONTROL_EVENT_MISSING''] 0 0 False, file)
        | Some v \<Rightarrow> let_ok (append_event E v (ob_preimage fresh) file ending) (\<lambda>(r, file').
            Inr (result_after_release L p (ar_decision r) (ar_conflicts r) (ar_occurrence r) (ar_mutations r) (ar_idempotent r), file')))))"

definition lock_passes :: "lock_use \<Rightarrow> bool" where
  "lock_passes L = (lu_decision L = ''PASS'' \<and> lu_handle L \<and> lu_release L = ''PASS'' \<and> \<not> lu_release_partial L)"

section \<open>What a plan says\<close>

lemma build_event_Inr: "build_event E x = Inr v \<Longrightarrow> observation_wf E v \<and> fo_key v = fo_key x \<and> fo_identity v = fo_identity x \<and> finding_payload v = finding_payload x"
  unfolding build_event_def mk_event_Inr by (auto simp: observation_fields_def finding_as_dict_def finding_payload_def)

lemma mk_route_Inr: "mk_route (route_as_dict x) = Inr r \<Longrightarrow> r = x"
  by (cases x) (auto simp: mk_route_def route_as_dict_def read_simps sha256_field_def)

lemma mk_identity_Inr: "mk_identity (identity_as_dict x) = Inr i \<Longrightarrow> i = x"
  by (cases x) (auto simp: mk_identity_def identity_as_dict_def read_simps safe_id_def safe_code_def sha256_field_def)

definition key_of :: "work_env \<Rightarrow> exec_unit \<Rightarrow> failure_evidence \<Rightarrow> failure_attempt \<Rightarrow> string \<Rightarrow> string" where
  "key_of E u e a idig = observation_key E (eu_unit u) (fa_next_attempt a) (fe_result e) idig"

text \<open>An observation that is not blocked: its route and its event.\<close>

lemma blocked_decision [simp]: "ob_decision (blocked_observation c r p) = ''BLOCKED''"
  by (simp add: blocked_observation_def)

lemma observe_ready:
  assumes plan: "observe_item E u e i identity ref facts failed a P n preimage = Inr p" and ready: "ob_decision p \<noteq> ''BLOCKED''"
  shows "ob_identity p = Some identity" "ob_identity_digest p = dict_digest E (identity_as_dict identity)" "ob_preimage p = preimage"
    "ob_append p \<longleftrightarrow> it_status i \<noteq> ''PASS''"
    "\<exists>r c s d. ob_route p = Some r \<and> classify_item i facts failed (eu_slice u) = Inr (c, s, d)
      \<and> xr_occurrence r = next_occurrence (ob_append p) (ob_append p \<and> by_observation_key P (key_of E u e a (ob_identity_digest p)) \<noteq> None) n
      \<and> xr_action r = action_for_route (it_status i) d (xr_occurrence r)
      \<and> (xr_action r \<in> {''RETRY_CURRENT_LAYER'', ''REWORK_CURRENT_SLICE''} \<longrightarrow> rw_decision (plan_rework a failed) = ''READY'')"
    "if ob_append p then \<exists>v. ob_event p = Some v \<and> observation_wf E v \<and> fo_key v = key_of E u e a (ob_identity_digest p)
        \<and> fo_identity v = ob_identity_digest p
      else ob_event p = None"
proof -
  obtain c s d where cls: "classify_item i facts failed (eu_slice u) = Inr (c, s, d)"
    using plan ready by (cases "classify_item i facts failed (eu_slice u)") (auto simp: observe_item_def Let_def)
  define key where "key = key_of E u e a (dict_digest E (identity_as_dict identity))"
  define required where "required = (it_status i \<noteq> ''PASS'')"
  define x where "x = (let n' = next_occurrence required (required \<and> by_observation_key P key \<noteq> None) n in
    \<lparr>xr_classification = dict_digest E c, xr_slice = dict_digest E s, xr_attempt = dict_digest E (rework_payload (plan_rework a failed)),
     xr_action = action_for_route (it_status i) d n', xr_occurrence = n'\<rparr>)"
  have body: "(if xr_action x \<in> {''RETRY_CURRENT_LAYER'', ''REWORK_CURRENT_SLICE''} \<and> rw_decision (plan_rework a failed) \<noteq> ''READY''
      then Inr (blocked_observation (rw_reasons (plan_rework a failed)) ref preimage)
      else let_ok (mk_route (route_as_dict x)) (\<lambda>route.
        let_ok (if required then let_ok (build_event E (observed_event u e a ref key (dict_digest E (identity_as_dict identity)) route))
          (\<lambda>v. Inr (Some v)) else Inr None) (\<lambda>event.
        Inr \<lparr>ob_decision = ''READY'', ob_conflicts = [], ob_ref = ref, ob_identity = Some identity,
          ob_identity_digest = dict_digest E (identity_as_dict identity),
          ob_route = Some route, ob_event = event, ob_append = required, ob_preimage = preimage\<rparr>))) = Inr p"
  proof (cases required)
    case True
    then show ?thesis using plan by (simp add: observe_item_def cls Let_def x_def key_def key_of_def required_def cong: if_cong)
  next
    case False
    then show ?thesis using plan by (simp add: observe_item_def cls Let_def x_def required_def cong: if_cong)
  qed
  have act: "\<not> (xr_action x \<in> {''RETRY_CURRENT_LAYER'', ''REWORK_CURRENT_SLICE''} \<and> rw_decision (plan_rework a failed) \<noteq> ''READY'')"
  proof
    assume "xr_action x \<in> {''RETRY_CURRENT_LAYER'', ''REWORK_CURRENT_SLICE''} \<and> rw_decision (plan_rework a failed) \<noteq> ''READY''"
    then have "p = blocked_observation (rw_reasons (plan_rework a failed)) ref preimage" using body by simp
    then show False using ready by simp
  qed
  then obtain r v where route: "mk_route (route_as_dict x) = Inr r"
    and ev: "(if required then let_ok (build_event E (observed_event u e a ref key (dict_digest E (identity_as_dict identity)) r))
          (\<lambda>v. Inr (Some v)) else Inr None) = Inr v"
    and p: "p = \<lparr>ob_decision = ''READY'', ob_conflicts = [], ob_ref = ref, ob_identity = Some identity,
          ob_identity_digest = dict_digest E (identity_as_dict identity),
          ob_route = Some r, ob_event = v, ob_append = required, ob_preimage = preimage\<rparr>"
    using body unfolding read_simps if_not_P [OF act] by blast
  have r: "r = x" by (rule mk_route_Inr [OF route])
  show "ob_identity p = Some identity" "ob_identity_digest p = dict_digest E (identity_as_dict identity)" "ob_preimage p = preimage"
    "ob_append p \<longleftrightarrow> it_status i \<noteq> ''PASS''" by (simp_all add: p required_def)
  show "\<exists>r c s d. ob_route p = Some r \<and> classify_item i facts failed (eu_slice u) = Inr (c, s, d)
      \<and> xr_occurrence r = next_occurrence (ob_append p) (ob_append p \<and> by_observation_key P (key_of E u e a (ob_identity_digest p)) \<noteq> None) n
      \<and> xr_action r = action_for_route (it_status i) d (xr_occurrence r)
      \<and> (xr_action r \<in> {''RETRY_CURRENT_LAYER'', ''REWORK_CURRENT_SLICE''} \<longrightarrow> rw_decision (plan_rework a failed) = ''READY'')"
    using cls act by (simp add: p r key_def [symmetric]) (auto simp: x_def Let_def)
  show "if ob_append p then \<exists>v. ob_event p = Some v \<and> observation_wf E v \<and> fo_key v = key_of E u e a (ob_identity_digest p)
        \<and> fo_identity v = ob_identity_digest p
      else ob_event p = None"
  proof (cases required)
    case True
    then obtain w where w: "build_event E (observed_event u e a ref key (dict_digest E (identity_as_dict identity)) r) = Inr w" "v = Some w"
      using ev by (auto simp: read_simps)
    then show ?thesis using True build_event_Inr [OF w(1)] by (simp add: p key_def observed_event_def)
  next
    case False
    then show ?thesis using ev by (simp add: p)
  qed
qed

lemma occurrence_total:
  "digest_re i \<Longrightarrow> \<exists>oc. project_occurrence E P i = Inr oc \<and> oc_count oc = occurrences_of i (lp_events P) \<and> oc_decision oc = lp_decision P"
  by (simp add: project_occurrence_def occurrences_of_def Let_def)

text \<open>A plan that is not blocked is an observation over the events of the ledger; it depends on the ledger through these events
  and the preimage only.\<close>

definition observe_over :: "work_env \<Rightarrow> exec_unit \<Rightarrow> failure_evidence \<Rightarrow> result_item \<Rightarrow> finding_identity \<Rightarrow> string \<Rightarrow> pydict \<Rightarrow> string
    \<Rightarrow> failure_attempt \<Rightarrow> ledger_projection \<Rightarrow> string \<Rightarrow> observation_plan result" where
  "observe_over E u e i identity ref facts failed a P preimage =
     observe_item E u e i identity ref facts failed a P (occurrences_of (dict_digest E (identity_as_dict identity)) (lp_events P)) preimage"

lemma plan_finding_body:
  assumes plan: "plan_finding_observation E u k e evidence_ref facts failed a P preimage = Inr p" and ready: "ob_decision p \<noteq> ''BLOCKED''"
  obtains i identity ref where "observe_over E u e i identity ref facts failed a P preimage = Inr p" "lp_decision P = ''PASS''"
    "digest_re (dict_digest E (identity_as_dict identity))" "digest_re (fi_scope identity)" "digest_re preimage"
    "\<And>Q pre. lp_decision Q = ''PASS'' \<Longrightarrow> digest_re pre \<Longrightarrow>
      plan_finding_observation E u k e evidence_ref facts failed a Q pre = observe_over E u e i identity ref facts failed a Q pre"
proof -
  obtain raw where raw: "relative_ref ''evidence_ref'' (PStr evidence_ref) = Inr raw" and pre: "digest_re preimage"
    using plan by (auto simp: plan_finding_observation_def read_simps sha256_field_def)
  have shape: "failed \<in> set validation_layer_order" "frozen_bindings u k e"
    using plan ready by (auto simp: plan_finding_observation_def raw pre sha256_field_def checked_str_def Let_def split: if_splits)
  obtain i "is" where items: "fe_items e = i # is"
    using plan by (cases "fe_items e") (auto simp: plan_finding_observation_def raw pre sha256_field_def checked_str_def Let_def shape)
  obtain identity where fi: "mk_identity (identity_as_dict (finding_of u e i)) = Inr identity"
    using plan by (auto simp: plan_finding_observation_def raw pre sha256_field_def checked_str_def Let_def shape items let_ok_Inr)
  let ?i = "dict_digest E (identity_as_dict identity)"
  have body: "plan_finding_observation E u k e evidence_ref facts failed a Q pre' =
      let_ok (project_occurrence E Q ?i) (\<lambda>oc. if oc_decision oc \<noteq> ''PASS'' then Inr (blocked_observation (oc_codes oc) (as_posix raw) pre')
       else observe_item E u e i identity (as_posix raw) facts failed a Q (oc_count oc) pre')" if "digest_re pre'" for Q pre'
    using that by (simp add: plan_finding_observation_def raw sha256_field_def checked_str_def Let_def shape items fi)
  have dig: "digest_re ?i" using plan unfolding body [OF pre] project_occurrence_def by (auto simp: read_simps)
  have passing: "plan_finding_observation E u k e evidence_ref facts failed a Q pre' = observe_over E u e i identity (as_posix raw) facts failed a Q pre'"
    if "lp_decision Q = ''PASS''" "digest_re pre'" for Q pre'
    using occurrence_total [OF dig, of E Q] that(1) unfolding body [OF that(2)] by (auto simp: observe_over_def)
  have pass: "lp_decision P = ''PASS''" using occurrence_total [OF dig, of E P] plan ready unfolding body [OF pre] by (auto split: if_splits)
  show thesis
  proof (rule that)
    show "observe_over E u e i identity (as_posix raw) facts failed a P preimage = Inr p" using plan passing [OF pass pre] by simp
    show "digest_re (fi_scope identity)" using fi by (auto simp: mk_identity_def read_simps sha256_field_def)
  qed (fact pass dig pre passing)+
qed

definition blocked_when_caught :: "observation_plan result \<Rightarrow> string \<Rightarrow> string \<Rightarrow> observation_plan result" where
  "blocked_when_caught planned ref preimage =
     (case planned of Inl x \<Rightarrow> if exception_caught x then Inr (blocked_observation [invalid_input] ref preimage) else Inl x | Inr p \<Rightarrow> Inr p)"

lemma plan_failure_body:
  assumes plan: "plan_execution_failure E F evidence_ref facts failed a = Inr p" and ready: "ob_decision p \<noteq> ''BLOCKED''"
  obtains u k e ds where "read_ledger E (ff_ledger F) = (ds, [])"
    "plan_finding_observation E u k e evidence_ref facts failed a (project_ledger E ds) (ledger_preimage E (ff_ledger F)) = Inr p"
    "\<And>lf ds'. read_ledger E lf = (ds', []) \<Longrightarrow> plan_execution_failure E (F\<lparr>ff_ledger := lf\<rparr>) evidence_ref facts failed a =
      blocked_when_caught (plan_finding_observation E u k e evidence_ref facts failed a (project_ledger E ds') (ledger_preimage E lf))
        evidence_ref (ledger_preimage E lf)"
proof -
  obtain w where w: "ff_work F = Inr w"
    using assms by (cases "ff_work F") (auto simp: plan_execution_failure_def Let_def split: if_splits)
  obtain u where u: "w_unit w = Some u"
    using assms by (cases "w_unit w") (auto simp: plan_execution_failure_def Let_def w split: if_splits)
  obtain k where k: "load_contract E (ff_contract F) = Inr k"
    using assms by (cases "load_contract E (ff_contract F)") (auto simp: plan_execution_failure_def Let_def w u split: if_splits)
  have dig: "r_sha (we_release E) (ledger_bytes (ff_contract F)) = eu_digest u"
    using assms by (auto simp: plan_execution_failure_def Let_def w u k split: if_splits)
  obtain e where e: "load_evidence E (ff_evidence F) = Inr e"
    using assms by (cases "load_evidence E (ff_evidence F)") (auto simp: plan_execution_failure_def Let_def w u k dig split: if_splits)
  have scope: "fe_scope e = scope_digest E (w_scope w)"
    using assms by (auto simp: plan_execution_failure_def Let_def w u k dig e split: if_splits)
  obtain ds errs where ds: "read_ledger E (ff_ledger F) = (ds, errs)" by fastforce
  have "errs = []" using assms by (auto simp: plan_execution_failure_def Let_def w u k dig e scope ds split: if_splits)
  then have ds: "read_ledger E (ff_ledger F) = (ds, [])" using ds by simp
  have body: "plan_execution_failure E (F\<lparr>ff_ledger := lf\<rparr>) evidence_ref facts failed a =
      blocked_when_caught (plan_finding_observation E u k e evidence_ref facts failed a (project_ledger E ds') (ledger_preimage E lf))
        evidence_ref (ledger_preimage E lf)" if "read_ledger E lf = (ds', [])" for lf ds'
    by (simp add: plan_execution_failure_def blocked_when_caught_def Let_def w u k dig e scope that)
  have "plan_finding_observation E u k e evidence_ref facts failed a (project_ledger E ds) (ledger_preimage E (ff_ledger F)) = Inr p"
    using assms body [OF ds] by (auto simp: blocked_when_caught_def split: sum.splits if_splits)
  then show thesis using ds body that by blast
qed

section \<open>Routes over the ledger\<close>

definition retry_actions :: "string set" where
  "retry_actions = {''RETRY_CURRENT_LAYER'', ''REWORK_CURRENT_SLICE''}"

definition ready_plan :: "work_env \<Rightarrow> pydict \<Rightarrow> string \<Rightarrow> failure_attempt \<Rightarrow> finding_event list \<Rightarrow> observation_plan \<Rightarrow> failure_route \<Rightarrow> bool" where
  "ready_plan E facts failed a vs p r = (let n = occurrences_of (ob_identity_digest p) vs in
     ob_route p = Some r
     \<and> (case ob_event p of
          None \<Rightarrow> \<not> ob_append p \<and> xr_occurrence r = max n 1
        | Some v \<Rightarrow> ob_append p \<and> observation_wf E v \<and> fo_identity v = ob_identity_digest p
            \<and> xr_occurrence r = (if fo_key v \<in> fo_key ` set vs then n else n + 1))
     \<and> (3 \<le> xr_occurrence r \<longleftrightarrow> xr_action r = ''REQUIRE_DESIGN_CLARIFICATION'')
     \<and> (xr_action r \<in> retry_actions \<longrightarrow> ob_append p \<and> rw_decision (plan_rework a failed) = ''READY''
         \<and> fc_class (classify_failure facts) \<notin> {''PARTIAL_MUTATION'', ''UNKNOWN''}))"

lemma action_cases:
  "3 \<le> n \<longleftrightarrow> action_for_route status d n = ''REQUIRE_DESIGN_CLARIFICATION''"
  "action_for_route status d n \<in> retry_actions \<Longrightarrow> status \<noteq> ''PASS'' \<and> d \<in> {''RETRY_LAYER'', ''REWORK_CURRENT_SLICE''}"
  by (auto simp: action_for_route_def retry_actions_def split: if_splits)

lemma classified_retry:
  assumes "classify_item i facts failed slice = Inr (c, s, d)" and "it_status i \<noteq> ''PASS''" and "d \<in> {''RETRY_LAYER'', ''REWORK_CURRENT_SLICE''}"
  shows "fc_class (classify_failure facts) \<notin> {''PARTIAL_MUTATION'', ''UNKNOWN''}"
  using assms by (auto simp: classify_item_def Let_def route_slice_failure_def read_simps split: sum.splits if_splits)

lemma observe_ready_plan:
  assumes "observe_item E u e i identity ref facts failed a P (occurrences_of (dict_digest E (identity_as_dict identity)) (lp_events P)) preimage = Inr p"
    and "ob_decision p \<noteq> ''BLOCKED''"
  shows "\<exists>r. ready_plan E facts failed a (lp_events P) p r"
proof -
  note o = observe_ready [OF assms]
  obtain r c s d where r: "ob_route p = Some r" "classify_item i facts failed (eu_slice u) = Inr (c, s, d)"
    "xr_occurrence r = next_occurrence (ob_append p) (ob_append p \<and> by_observation_key P (key_of E u e a (ob_identity_digest p)) \<noteq> None)
       (occurrences_of (dict_digest E (identity_as_dict identity)) (lp_events P))"
    "xr_action r = action_for_route (it_status i) d (xr_occurrence r)"
    "xr_action r \<in> retry_actions \<longrightarrow> rw_decision (plan_rework a failed) = ''READY''"
    using o(5) unfolding retry_actions_def by blast
  have n: "occurrences_of (dict_digest E (identity_as_dict identity)) (lp_events P) = occurrences_of (ob_identity_digest p) (lp_events P)" using o(2) by simp
  have key: "by_observation_key P k \<noteq> None \<longleftrightarrow> k \<in> fo_key ` set (lp_events P)" for k
    using find_key_None [of k "lp_events P"] by (auto simp: by_observation_key_def)
  have act: "3 \<le> xr_occurrence r \<longleftrightarrow> xr_action r = ''REQUIRE_DESIGN_CLARIFICATION''"
    unfolding r(4) by (rule action_cases(1))
  have retry: "xr_action r \<in> retry_actions \<longrightarrow> ob_append p \<and> rw_decision (plan_rework a failed) = ''READY''
      \<and> fc_class (classify_failure facts) \<notin> {''PARTIAL_MUTATION'', ''UNKNOWN''}"
  proof
    assume retried: "xr_action r \<in> retry_actions"
    have d: "it_status i \<noteq> ''PASS''" "d \<in> {''RETRY_LAYER'', ''REWORK_CURRENT_SLICE''}"
      using action_cases(2) [OF retried [unfolded r(4)]] by (rule conjunct1, rule conjunct2)
    show "ob_append p \<and> rw_decision (plan_rework a failed) = ''READY'' \<and> fc_class (classify_failure facts) \<notin> {''PARTIAL_MUTATION'', ''UNKNOWN''}"
      using classified_retry [OF r(2) d] d(1) o(4) r(5) retried by blast
  qed
  show ?thesis
  proof (cases "ob_append p")
    case True
    then obtain v where v: "ob_event p = Some v" "observation_wf E v" "fo_key v = key_of E u e a (ob_identity_digest p)" "fo_identity v = ob_identity_digest p"
      using o(6) by auto
    have "xr_occurrence r = (if fo_key v \<in> fo_key ` set (lp_events P) then occurrences_of (ob_identity_digest p) (lp_events P)
        else occurrences_of (ob_identity_digest p) (lp_events P) + 1)"
      unfolding r(3) n key v(3) next_occurrence_def using True by simp
    then show ?thesis using r(1) v True retry act unfolding ready_plan_def Let_def by (intro exI [of _ r]) simp
  next
    case False
    then have none: "ob_event p = None" using o(6) by simp
    have "xr_occurrence r = max (occurrences_of (ob_identity_digest p) (lp_events P)) 1"
      unfolding r(3) n next_occurrence_def using False by simp
    then show ?thesis using r(1) none False retry act unfolding ready_plan_def Let_def by (intro exI [of _ r]) simp
  qed
qed

lemma plan_over_ledger:
  assumes "ledger_holds E (ff_ledger F) vs" and "plan_execution_failure E F evidence_ref facts failed a = Inr p" and "ob_decision p \<noteq> ''BLOCKED''"
  shows "\<exists>r. ready_plan E facts failed a vs p r" and "distinct (map fo_id vs)" and "ob_preimage p = ledger_preimage E (ff_ledger F)"
proof -
  obtain u k e ds where ds: "read_ledger E (ff_ledger F) = (ds, [])"
    and plan: "plan_finding_observation E u k e evidence_ref facts failed a (project_ledger E ds) (ledger_preimage E (ff_ledger F)) = Inr p"
    using plan_failure_body [OF assms(2,3)] by metis
  obtain i identity ref where o: "observe_over E u e i identity ref facts failed a (project_ledger E ds) (ledger_preimage E (ff_ledger F)) = Inr p"
    and pass: "lp_decision (project_ledger E ds) = ''PASS''"
    using plan_finding_body [OF plan assms(3)] by metis
  have "reads_as E ds vs" using assms(1) ds by (simp add: ledger_holds_def)
  note vs = project_reads [OF this]
  show "\<exists>r. ready_plan E facts failed a vs p r" using observe_ready_plan [OF o [unfolded observe_over_def] assms(3)] by (simp add: vs)
  show "distinct (map fo_id vs)" using pass vs(2) by simp
  show "ob_preimage p = ledger_preimage E (ff_ledger F)" by (rule observe_ready(3) [OF o [unfolded observe_over_def] assms(3)])
qed

section \<open>Registrations\<close>

text \<open>What an application that ends completely does to the ledger.\<close>

lemma registration_outcome:
  assumes env: "release_env_ok (we_release E)" and holds: "ledger_holds E (ff_ledger F) vs"
    and run: "apply_execution_failure E F p evidence_ref facts failed a L Complete = Inr (g, lf')"
    and plan: "plan_execution_failure E F evidence_ref facts failed a = Inr fresh"
    and lines: "\<And>v. ob_event fresh = Some v \<Longrightarrow> line_ok E v"
  shows "lf' = ff_ledger F \<and> rg_mutations g = 0
    \<or> (\<exists>v. ob_event fresh = Some v \<and> ob_decision fresh \<noteq> ''BLOCKED'' \<and> fo_key v \<notin> fo_key ` set vs \<and> ledger_holds E lf' (vs @ [v]) \<and> rg_mutations g = 1
        \<and> \<not> rg_idempotent g \<and> rg_occurrence g = occurrences_of (fo_identity v) (vs @ [v]))"
proof (cases "ob_decision p = ''BLOCKED'' \<or> ob_route p = None \<or> ob_decision fresh = ''BLOCKED''
    \<or> dict_digest E (observation_as_dict fresh) \<noteq> dict_digest E (observation_as_dict p) \<or> \<not> ob_append fresh
    \<or> lu_decision L \<noteq> ''PASS'' \<or> \<not> lu_handle L")
  case True
  then show ?thesis using run by (auto simp: apply_execution_failure_def plan Let_def refused_before_lock_def result_after_release_def read_simps split: if_splits)
next
  case False
  then obtain r where r: "ready_plan E facts failed a vs fresh r" using plan_over_ledger(1) [OF holds plan] by blast
  then obtain v where v: "ob_event fresh = Some v" "observation_wf E v" using False by (auto simp: ready_plan_def Let_def split: option.splits)
  obtain x where x: "append_event E v (ob_preimage fresh) (ff_ledger F) Complete = Inr (x, lf')"
    and g: "rg_mutations g = ar_mutations x" "rg_idempotent g = ar_idempotent x" "rg_occurrence g = ar_occurrence x"
    using run False by (auto simp: apply_execution_failure_def plan v(1) Let_def refused_before_lock_def result_after_release_def read_simps split: if_splits)
  show ?thesis using append_outcome [OF env holds v(2) lines [OF v(1)] x] False v(1) by (auto simp: g split: if_splits)
qed

lemma no_registration:
  assumes "apply_execution_failure E F p evidence_ref facts failed a L Complete = Inr (g, lf')"
    and "plan_execution_failure E F evidence_ref facts failed a = Inl x"
  shows "lf' = ff_ledger F \<and> rg_mutations g = 0"
  using assms by (auto simp: apply_execution_failure_def Let_def refused_before_lock_def read_simps split: if_splits)

lemma registration_route:
  assumes "apply_execution_failure E F p evidence_ref facts failed a L Complete = Inr (g, lf')" and "rg_mutations g \<noteq> 0"
    and "plan_execution_failure E F evidence_ref facts failed a = Inr fresh"
  shows "rg_route g = ob_route p \<and> dict_digest E (observation_as_dict fresh) = dict_digest E (observation_as_dict p)"
  using assms by (auto simp: apply_execution_failure_def Let_def refused_before_lock_def result_after_release_def read_simps split: if_splits option.splits)

definition action_of :: "observation_plan \<Rightarrow> string" where
  "action_of p = (case ob_route p of None \<Rightarrow> [] | Some r \<Rightarrow> xr_action r)"

lemma route_dict_inj:
  assumes "set (route_as_dict x) = set (route_as_dict y)"
  shows "x = y"
proof -
  have "(k, v) \<in> set (route_as_dict x) \<longleftrightarrow> (k, v) \<in> set (route_as_dict y)" for k v using assms by simp
  from this [of "''classification_digest''" "PStr (xr_classification x)"] this [of "''slice_route_digest''" "PStr (xr_slice x)"]
    this [of "''attempt_plan_digest''" "PStr (xr_attempt x)"] this [of "''execution_action''" "PStr (xr_action x)"]
    this [of "''occurrence''" "PInt (xr_occurrence x)"]
  show ?thesis by (cases x; cases y) (simp add: route_as_dict_def)
qed

text \<open>Plans with the same rendering have the same route and the same finding.\<close>

lemma observation_dict_eq:
  assumes "observation_as_dict p = observation_as_dict q"
  shows "ob_route p = ob_route q \<and> ob_identity_digest p = ob_identity_digest q"
proof -
  have "or_none route_as_dict (ob_route p) = or_none route_as_dict (ob_route q)" "ob_identity_digest p = ob_identity_digest q"
    using assms by (simp_all add: observation_as_dict_def)
  moreover have "sort_key fst (route_as_dict x) = sort_key fst (route_as_dict y) \<Longrightarrow> x = y" for x y
    using route_dict_inj [of x y] set_sort [of fst "route_as_dict x"] set_sort [of fst "route_as_dict y"] by simp
  ultimately show ?thesis by (auto simp: or_none_def split: option.splits)
qed

text \<open>A history of complete registrations from an empty ledger: for every registration that wrote, its finding and the action of the route
  it returned to the caller. The event of the plan made afresh fits on a line, and the digests of that plan and of the planned one agree
  only when the plans do.\<close>

definition returned_action :: "registration \<Rightarrow> string" where
  "returned_action g = (case rg_route g of None \<Rightarrow> [] | Some r \<Rightarrow> xr_action r)"

inductive registered :: "work_env \<Rightarrow> string option \<Rightarrow> (string \<times> string) list \<Rightarrow> bool" for E where
  no_ledger: "registered E None []"
| registration: "registered E (ff_ledger F) history \<Longrightarrow> apply_execution_failure E F p evidence_ref facts failed a L Complete = Inr (g, lf') \<Longrightarrow>
    (\<And>fresh v. plan_execution_failure E F evidence_ref facts failed a = Inr fresh \<Longrightarrow> ob_event fresh = Some v \<Longrightarrow> line_ok E v) \<Longrightarrow>
    (\<And>fresh. plan_execution_failure E F evidence_ref facts failed a = Inr fresh \<Longrightarrow>
       dict_digest E (observation_as_dict fresh) = dict_digest E (observation_as_dict p) \<Longrightarrow> observation_as_dict fresh = observation_as_dict p) \<Longrightarrow>
    registered E lf' (history @ (if rg_mutations g = 0 then [] else [(ob_identity_digest p, returned_action g)]))"

definition retries_of :: "string \<Rightarrow> (string \<times> string) list \<Rightarrow> nat" where
  "retries_of i history = length (filter (\<lambda>(j, action). j = i \<and> action \<in> retry_actions) history)"

lemma holds_empty: "ledger_holds E None []"
  by (simp add: ledger_holds_def read_ledger_def reads_as_def ledger_bytes_def)

lemma retries_le: "map fo_identity vs = map fst history \<Longrightarrow> int (retries_of i history) \<le> occurrences_of i vs"
proof (induction history arbitrary: vs rule: rev_induct)
  case (snoc h history)
  then obtain us u where vs: "vs = us @ [u]" "map fo_identity us = map fst history" "fo_identity u = fst h"
    by (cases vs rule: rev_cases) auto
  then show ?case using snoc.IH [OF vs(2)] by (cases h) (auto simp: retries_of_def occurrences_snoc vs(1))
qed (simp add: retries_of_def occurrences_of_def)

text \<open>Every registration of a finding that was registered twice before requires a clarification of the design.\<close>

definition clarified :: "(string \<times> string) list \<Rightarrow> bool" where
  "clarified history = (\<forall>earlier i action later. history = earlier @ (i, action) # later \<longrightarrow>
     2 \<le> length (filter (\<lambda>(j, _). j = i) earlier) \<longrightarrow> action = ''REQUIRE_DESIGN_CLARIFICATION'')"

lemma clarified_snoc:
  assumes "clarified history" and "2 \<le> length (filter (\<lambda>(j, _). j = i) history) \<longrightarrow> action = ''REQUIRE_DESIGN_CLARIFICATION''"
  shows "clarified (history @ [(i, action)])"
  unfolding clarified_def
proof (intro allI impI)
  fix earlier j act later
  assume eq: "history @ [(i, action)] = earlier @ (j, act) # later" and two: "2 \<le> length (filter (\<lambda>(k, _). k = j) earlier)"
  show "act = ''REQUIRE_DESIGN_CLARIFICATION''"
  proof (cases later rule: rev_cases)
    case Nil
    then show ?thesis using eq two assms(2) by simp
  next
    case (snoc l x)
    then have "history = earlier @ (j, act) # l" using eq by simp
    then show ?thesis using assms(1) two unfolding clarified_def by blast
  qed
qed

text \<open>One more event: its finding is counted, and a route that retries is one of the first two.\<close>

lemma next_registration:
  assumes keys: "ledger_holds E lf vs" "distinct (map fo_key vs)" and ids: "map fo_identity vs = map fst history"
    and few: "\<forall>i. retries_of i history \<le> 2" "clarified history"
    and r: "ready_plan E facts failed a vs fresh r" and v: "ob_event fresh = Some v" "fo_key v \<notin> fo_key ` set vs"
  shows "distinct (map fo_key (vs @ [v])) \<and> map fo_identity (vs @ [v]) = map fst (history @ [(ob_identity_digest fresh, action_of fresh)])
    \<and> (\<forall>i. retries_of i (history @ [(ob_identity_digest fresh, action_of fresh)]) \<le> 2)
    \<and> clarified (history @ [(ob_identity_digest fresh, action_of fresh)])"
proof -
  let ?i = "ob_identity_digest fresh"
  have f: "fo_identity v = ?i" "xr_occurrence r = occurrences_of ?i vs + 1" "action_of fresh = xr_action r"
    "3 \<le> xr_occurrence r \<longleftrightarrow> xr_action r = ''REQUIRE_DESIGN_CLARIFICATION''"
    using r v by (auto simp: ready_plan_def Let_def action_of_def)
  have same: "occurrences_of i vs = int (length (filter (\<lambda>(j, _). j = i) history))" for i
  proof -
    have "length (filter (\<lambda>v. fo_identity v = i) vs) = length (filter (\<lambda>j. j = i) (map fo_identity vs))" by (simp add: filter_map o_def)
    then show ?thesis unfolding ids by (simp add: occurrences_of_def filter_map o_def case_prod_beta')
  qed
  have bound: "retries_of i (history @ [(?i, action_of fresh)]) \<le> 2" for i
  proof (cases "i = ?i \<and> action_of fresh \<in> retry_actions")
    case True
    then have "xr_occurrence r \<le> 2" using f(3,4) by (auto simp: retry_actions_def)
    then have "int (retries_of ?i history) \<le> 1" using retries_le [OF ids, of ?i] f(2) by simp
    then show ?thesis using True by (auto simp: retries_of_def)
  next
    case False
    then show ?thesis using few(1) by (auto simp: retries_of_def)
  qed
  have third: "2 \<le> length (filter (\<lambda>(j, _). j = ?i) history) \<longrightarrow> action_of fresh = ''REQUIRE_DESIGN_CLARIFICATION''"
    using same [of ?i] f by simp
  show ?thesis using keys(2) ids v(2) f(1) bound clarified_snoc [OF few(2) third] by simp
qed

text \<open>C24: The third occurrence of a finding is never retried. Take any history of complete registrations from an empty ledger, whatever
  the lock does and however stale the plans are that are applied. The ledger holds exactly the registered events, with distinct observation
  keys, and their findings are those of the history. For every finding at most two registrations that wrote returned a route that retries or
  reworks, and a registration whose finding was registered twice before returned one that requires a clarification of the design. The
  events fit on a line (\<open>line_ok\<close>), and digest collisions between a plan and the one made afresh are excluded.\<close>

theorem registration_history:
  assumes env: "release_env_ok (we_release E)" and "registered E lf history"
  shows "\<exists>vs. ledger_holds E lf vs \<and> distinct (map fo_key vs) \<and> map fo_identity vs = map fst history
    \<and> (\<forall>i. retries_of i history \<le> 2)
    \<and> clarified history"
  using assms(2)
proof induction
  case no_ledger
  then show ?case using holds_empty by (intro exI [of _ "[]"]) (simp add: retries_of_def clarified_def)
next
  case (registration F history p evidence_ref facts failed a L g lf')
  from registration.IH obtain vs where vs: "ledger_holds E (ff_ledger F) vs" "distinct (map fo_key vs)" "map fo_identity vs = map fst history"
    "\<forall>i. retries_of i history \<le> 2" "clarified history" by blast
  show ?case
  proof (cases "rg_mutations g = 0")
    case True
    have "lf' = ff_ledger F"
    proof (cases "plan_execution_failure E F evidence_ref facts failed a")
      case (Inl x)
      then show ?thesis using no_registration [OF registration.hyps(2)] by blast
    next
      case (Inr fresh)
      then show ?thesis using registration_outcome [OF env vs(1) registration.hyps(2) Inr registration.hyps(3) [OF Inr]] True by auto
    qed
    then show ?thesis using vs True by auto
  next
    case False
    then obtain fresh where plan: "plan_execution_failure E F evidence_ref facts failed a = Inr fresh"
      using no_registration [OF registration.hyps(2)] by (cases "plan_execution_failure E F evidence_ref facts failed a") auto
    obtain v where new: "ob_event fresh = Some v" "ob_decision fresh \<noteq> ''BLOCKED''" "fo_key v \<notin> fo_key ` set vs" "ledger_holds E lf' (vs @ [v])"
      using registration_outcome [OF env vs(1) registration.hyps(2) plan registration.hyps(3) [OF plan]] False by auto
    note route = registration_route [OF registration.hyps(2) False plan]
    have same: "ob_route fresh = ob_route p" "ob_identity_digest fresh = ob_identity_digest p"
      using observation_dict_eq [OF registration.hyps(4) [OF plan]] route by blast+
    have act: "returned_action g = action_of fresh" using route same(1) by (simp add: returned_action_def action_of_def)
    obtain r where r: "ready_plan E facts failed a vs fresh r" using plan_over_ledger(1) [OF vs(1) plan new(2)] by blast
    from next_registration [OF vs r new(1,3)] new(4) False show ?thesis unfolding act same(2) [symmetric] by auto
  qed
qed

section \<open>Building a contract\<close>

lemma unique_ids_Inr [read_simps]: "unique_ids f xs = Inr ys \<longleftrightarrow> list_all work_id_re xs \<and> xs \<noteq> [] \<and> distinct xs \<and> ys = sort xs"
  by (auto simp: unique_ids_def read_simps check_all_Inr safe_id_def list_all_iff distinct_remdups_id)

text \<open>C27: When a contract can be built. It builds exactly when the concept, the slice and the check ids are safe identifiers, the
  revision is positive, the check ids are not empty and do not repeat, and the digest taken of the ids as given is the digest of
  the sorted ids; the contract then holds the sorted ids. So ids that are not given in order are refused, up to a collision of
  the digest.\<close>

theorem build_contract_iff:
  "build_contract E root slice n checks = Inr k \<longleftrightarrow>
     (let digest = dict_digest E (contract_payload (PInt 1) root slice n checks) in
      work_id_re root \<and> work_id_re slice \<and> list_all work_id_re checks \<and> 1 \<le> n \<and> checks \<noteq> [] \<and> distinct checks \<and> digest_re digest
      \<and> digest = dict_digest E (contract_payload (PInt 1) root slice n (sort checks))
      \<and> k = \<lparr>fk_schema = PInt 1, fk_root = root, fk_slice = slice, fk_revision = n, fk_checks = sort checks, fk_digest = digest\<rparr>)"
  by (auto simp: build_contract_def contract_from_mapping_def Let_def read_simps contract_payload_def closed_mapping_def contract_fields_def
      safe_id_def sha256_field_def)

section \<open>Repeating a registration\<close>

lemma mk_route_iff: "mk_route (route_as_dict x) = Inr r \<longleftrightarrow> r = x \<and> digest_re (xr_classification x) \<and> digest_re (xr_slice x) \<and> digest_re (xr_attempt x)
    \<and> xr_action x \<in> set execution_actions \<and> 1 \<le> xr_occurrence x \<and> (xr_occurrence x < 3 \<or> xr_action x = ''REQUIRE_DESIGN_CLARIFICATION'')"
  by (cases x) (auto simp: mk_route_def route_as_dict_def read_simps sha256_field_def in_vocabulary_def member_of_def)

lemma action_known: "action_for_route status d n \<in> set execution_actions"
  by (simp add: action_for_route_def execution_actions_def)

definition route_of :: "work_env \<Rightarrow> pydict \<Rightarrow> pydict \<Rightarrow> failure_attempt \<Rightarrow> string \<Rightarrow> string \<Rightarrow> int \<Rightarrow> failure_route" where
  "route_of E c s a failed action n = \<lparr>xr_classification = dict_digest E c, xr_slice = dict_digest E s,
     xr_attempt = dict_digest E (rework_payload (plan_rework a failed)), xr_action = action, xr_occurrence = n\<rparr>"

lemma let_ok_let_ok: "let_ok (let_ok r f) g = let_ok r (\<lambda>x. let_ok (f x) g)"
  by (cases r) simp_all

lemma observe_failing:
  fixes n
  defines "m \<equiv> \<lambda>P i. next_occurrence True (by_observation_key P i \<noteq> None) n"
  assumes "classify_item i facts failed (eu_slice u) = Inr (c, s, d)" and "it_status i \<noteq> ''PASS''"
    and key: "key = key_of E u e a (dict_digest E (identity_as_dict identity))"
    and x: "x = route_of E c s a failed (action_for_route (it_status i) d (m P key)) (m P key)"
  shows "observe_item E u e i identity ref facts failed a P n preimage =
    (if xr_action x \<in> retry_actions \<and> rw_decision (plan_rework a failed) \<noteq> ''READY''
     then Inr (blocked_observation (rw_reasons (plan_rework a failed)) ref preimage)
     else let_ok (mk_route (route_as_dict x)) (\<lambda>route.
       let_ok (build_event E (observed_event u e a ref key (dict_digest E (identity_as_dict identity)) route)) (\<lambda>v.
       Inr \<lparr>ob_decision = ''READY'', ob_conflicts = [], ob_ref = ref, ob_identity = Some identity,
         ob_identity_digest = dict_digest E (identity_as_dict identity), ob_route = Some route, ob_event = Some v, ob_append = True,
         ob_preimage = preimage\<rparr>)))"
  using assms(2,3) unfolding x key m_def
  by (simp add: observe_item_def Let_def key_of_def route_of_def retry_actions_def let_ok_let_ok cong: if_cong)

lemma count_append: "occurrences_of i (vs @ ws) = occurrences_of i vs + occurrences_of i ws"
  by (simp add: occurrences_of_def)

lemma count_in: "v \<in> set vs \<Longrightarrow> 1 \<le> occurrences_of (fo_identity v) vs"
  by (induction vs) (auto simp: occurrences_of_def)

lemma blocked_event [simp]: "ob_event (blocked_observation c r p) = None" and blocked_identity [simp]: "ob_identity (blocked_observation c r p) = None"
  by (simp_all add: blocked_observation_def)

text \<open>Planning the same observation over a longer ledger that holds its event gives the event again, never a refusal.\<close>

lemma observe_again:
  assumes first: "observe_over E u e i identity ref facts failed a P pre = Inr p" and event: "ob_event p = Some v"
    and longer: "lp_events Q = lp_events P @ ws" and held: "v \<in> set (lp_events Q)"
  obtains q where "observe_over E u e i identity ref facts failed a Q pre' = Inr q" "ob_event q = Some v" "ob_decision q = ''READY''"
    "ob_identity q = Some identity" "ob_append q" "ob_preimage q = pre'" "ob_route q \<noteq> None"
proof -
  let ?idig = "dict_digest E (identity_as_dict identity)"
  define key where "key = key_of E u e a ?idig"
  define n where "n = (\<lambda>P. next_occurrence True (by_observation_key P key \<noteq> None) (occurrences_of ?idig (lp_events P)))"
  have ready: "ob_decision p \<noteq> ''BLOCKED''"
  proof
    assume "ob_decision p = ''BLOCKED''"
    then show False using first event by (auto simp: observe_over_def observe_item_def Let_def read_simps split: sum.splits prod.splits if_splits)
  qed
  note o = observe_ready [OF first [unfolded observe_over_def] ready]
  obtain c s d where cls: "classify_item i facts failed (eu_slice u) = Inr (c, s, d)" using o(5) by blast
  have status: "it_status i \<noteq> ''PASS''" using o(4,6) event by (auto split: if_splits)
  have v: "fo_key v = key" "fo_identity v = ?idig" using o(2,4,6) event status by (auto simp: key_def)
  define x where "x = (\<lambda>P. route_of E c s a failed (action_for_route (it_status i) d (n P)) (n P))"
  note body = observe_failing [OF cls status key_def x_def [unfolded n_def, THEN fun_cong], folded observe_over_def]
  obtain r where route: "mk_route (route_as_dict (x P)) = Inr r" and build: "build_event E (observed_event u e a ref key ?idig r) = Inr v"
    and act: "\<not> (xr_action (x P) \<in> retry_actions \<and> rw_decision (plan_rework a failed) \<noteq> ''READY'')"
    using first event ready unfolding body by (auto simp: read_simps split: if_splits)
  have has: "by_observation_key Q key \<noteq> None" using find_key_None [of key "lp_events Q"] held v(1) by (auto simp: by_observation_key_def)
  have nQ: "n Q = occurrences_of ?idig (lp_events P) + occurrences_of ?idig ws" using has by (simp add: n_def next_occurrence_def longer count_append)
  have more: "n P \<le> n Q"
  proof (cases "by_observation_key P key = None")
    case True
    then have "v \<in> set ws" using find_key_None [of key "lp_events P"] held v(1) longer by (auto simp: by_observation_key_def)
    then show ?thesis using count_in [of v ws] v(2) True unfolding nQ by (simp add: n_def next_occurrence_def)
  next
    case False
    then show ?thesis unfolding nQ by (simp add: n_def next_occurrence_def occurrences_of_def)
  qed
  have act': "\<not> (xr_action (x Q) \<in> retry_actions \<and> rw_decision (plan_rework a failed) \<noteq> ''READY'')"
  proof
    assume b: "xr_action (x Q) \<in> retry_actions \<and> rw_decision (plan_rework a failed) \<noteq> ''READY''"
    then have "n Q < 3" by (auto simp: x_def route_of_def action_for_route_def retry_actions_def split: if_splits)
    then have "xr_action (x P) = xr_action (x Q)" using more by (simp add: x_def route_of_def action_for_route_def)
    then show False using b act by simp
  qed
  have digs: "digest_re (dict_digest E c)" "digest_re (dict_digest E s)" "digest_re (dict_digest E (rework_payload (plan_rework a failed)))" and r: "r = x P"
    using route by (simp_all add: mk_route_iff x_def route_of_def)
  have "1 \<le> n Q" using count_in [OF held] v(2) by (simp add: nQ longer count_append)
  moreover have "n Q < 3 \<or> action_for_route (it_status i) d (n Q) = ''REQUIRE_DESIGN_CLARIFICATION''" by (simp add: action_for_route_def)
  ultimately have route': "mk_route (route_as_dict (x Q)) = Inr (x Q)" using digs by (simp add: mk_route_iff x_def route_of_def action_known)
  have "observed_event u e a ref key ?idig (x Q) = observed_event u e a ref key ?idig r" by (simp add: observed_event_def r x_def route_of_def)
  then have "observe_over E u e i identity ref facts failed a Q pre' = Inr \<lparr>ob_decision = ''READY'', ob_conflicts = [], ob_ref = ref,
      ob_identity = Some identity, ob_identity_digest = ?idig, ob_route = Some (x Q), ob_event = Some v, ob_append = True, ob_preimage = pre'\<rparr>"
    unfolding body if_not_P [OF act'] route' using build by simp
  then show thesis using that by simp
qed

lemma append_replay:
  assumes env: "release_env_ok (we_release E)" and holds: "ledger_holds E file vs" and v: "v \<in> set vs" and ids: "distinct (map fo_id vs)"
  obtains r where "append_event E v (ledger_preimage E file) file ending = Inr (r, file)" "ar_decision r = ''PASS''" "ar_conflicts r = []"
    "ar_mutations r = 0" "ar_idempotent r" "ar_occurrence r = occurrences_of (fo_identity v) vs"
proof -
  obtain ds where ds: "read_ledger E file = (ds, [])" "reads_as E ds vs" using holds by (auto simp: ledger_holds_def)
  have i: "digest_re (fo_identity v)" using reads_wf [OF ds(2) v] by (simp add: observation_wf_def)
  obtain oc where oc: "project_occurrence E (project_ledger E ds) (fo_identity v) = Inr oc" "oc_count oc = occurrences_of (fo_identity v) vs"
    "oc_decision oc = ''PASS''"
    using occurrence_reads [OF ds(2) i] ids by blast
  have "fo_id u = event_id_of (fo_key u)" if "u \<in> set vs" for u using reads_wf [OF ds(2) that] by (simp add: observation_wf_def)
  then have "map fo_id vs = map event_id_of (map fo_key vs)" by simp
  then have keys: "distinct (map fo_key vs)" using ids by (metis distinct_map)
  have key: "by_observation_key (project_ledger E ds) (fo_key v) = Some v"
    using project_reads(1) [OF ds(2)] find_key [OF keys] v by (simp add: by_observation_key_def)
  have "digest_re (ledger_preimage E file)" using env by (simp add: ledger_preimage_def release_env_ok_def)
  then show thesis using that ds(1) oc key by (simp add: append_event_def Let_def guard_def)
qed

lemma coordination_plan_ready:
  assumes "release_env_ok (we_release E)" and "ob_decision q \<noteq> ''BLOCKED''" and "ob_identity q = Some i" and "digest_re (fi_scope i)"
  shows "\<exists>x. coordination_plan E q = Inr x"
  using assms by (simp add: coordination_plan_def check_admission_def guard_def Let_def sha256_field_def checked_str_def dict_digest_def
      canonical_digest_def release_env_ok_def)

lemma plan_coordinates:
  assumes "release_env_ok (we_release E)" and "plan_execution_failure E F evidence_ref facts failed a = Inr p" and "ob_decision p \<noteq> ''BLOCKED''"
  shows "\<exists>x. coordination_plan E p = Inr x"
proof -
  obtain u k e ds where
    plan: "plan_finding_observation E u k e evidence_ref facts failed a (project_ledger E ds) (ledger_preimage E (ff_ledger F)) = Inr p"
    using plan_failure_body [OF assms(2,3)] by metis
  obtain i identity ref where o: "observe_over E u e i identity ref facts failed a (project_ledger E ds) (ledger_preimage E (ff_ledger F)) = Inr p"
    and scope: "digest_re (fi_scope identity)"
    using plan_finding_body [OF plan assms(3)] by metis
  show ?thesis by (rule coordination_plan_ready [OF assms(1,3) observe_ready(1) [OF o [unfolded observe_over_def] assms(3)] scope])
qed

text \<open>C25: A registration can be repeated. Take a plan that gives an event over a ledger, and any later content of the ledger that
  extends it and holds the event. Planning the same failure again gives the same event, and applying that plan under a lock that is taken and released, however its
  write would end, passes without a mutation and leaves the ledger as it is; it reports the occurrences of the finding the ledger now
  holds.\<close>

theorem registration_repeats:
  assumes env: "release_env_ok (we_release E)" and earlier: "ledger_holds E (ff_ledger F) vs"
    and plan: "plan_execution_failure E F evidence_ref facts failed a = Inr p" and ready: "ob_decision p \<noteq> ''BLOCKED''"
    and event: "ob_event p = Some v" and later: "ledger_holds E lf (vs @ ws)" and held: "v \<in> set (vs @ ws)" and ids: "distinct (map fo_id (vs @ ws))"
    and lock: "lock_passes L"
  shows "\<exists>q g. plan_execution_failure E (F\<lparr>ff_ledger := lf\<rparr>) evidence_ref facts failed a = Inr q \<and> ob_event q = Some v
    \<and> apply_execution_failure E (F\<lparr>ff_ledger := lf\<rparr>) q evidence_ref facts failed a L ending = Inr (g, lf)
    \<and> rg_decision g = ''PASS'' \<and> rg_idempotent g \<and> rg_mutations g = 0 \<and> rg_occurrence g = occurrences_of (fo_identity v) (vs @ ws)"
proof -
  obtain u k e ds where ds: "read_ledger E (ff_ledger F) = (ds, [])"
    and first: "plan_finding_observation E u k e evidence_ref facts failed a (project_ledger E ds) (ledger_preimage E (ff_ledger F)) = Inr p"
    and again: "\<And>lf ds'. read_ledger E lf = (ds', []) \<Longrightarrow> plan_execution_failure E (F\<lparr>ff_ledger := lf\<rparr>) evidence_ref facts failed a =
      blocked_when_caught (plan_finding_observation E u k e evidence_ref facts failed a (project_ledger E ds') (ledger_preimage E lf))
        evidence_ref (ledger_preimage E lf)"
    using plan_failure_body [OF plan ready] by metis
  obtain i identity ref where over: "observe_over E u e i identity ref facts failed a (project_ledger E ds) (ledger_preimage E (ff_ledger F)) = Inr p"
    and scope: "digest_re (fi_scope identity)"
    and same: "\<And>Q pre. lp_decision Q = ''PASS'' \<Longrightarrow> digest_re pre \<Longrightarrow>
      plan_finding_observation E u k e evidence_ref facts failed a Q pre = observe_over E u e i identity ref facts failed a Q pre"
    using plan_finding_body [OF first ready] by metis
  obtain ds' where ds': "read_ledger E lf = (ds', [])" "reads_as E ds' (vs @ ws)" using later by (auto simp: ledger_holds_def)
  have vs: "lp_events (project_ledger E ds) = vs" using earlier ds project_reads(1) by (simp add: ledger_holds_def)
  note Q = project_reads [OF ds'(2)]
  have pre: "digest_re (ledger_preimage E lf)" using env by (simp add: ledger_preimage_def release_env_ok_def)
  obtain q where q: "observe_over E u e i identity ref facts failed a (project_ledger E ds') (ledger_preimage E lf) = Inr q" "ob_event q = Some v"
    "ob_decision q = ''READY''" "ob_identity q = Some identity" "ob_append q" "ob_preimage q = ledger_preimage E lf" "ob_route q \<noteq> None"
    using observe_again [OF over event, of "project_ledger E ds'" ws] Q(1) vs held by metis
  have plan': "plan_execution_failure E (F\<lparr>ff_ledger := lf\<rparr>) evidence_ref facts failed a = Inr q"
    using again [OF ds'(1)] same [OF _ pre, of "project_ledger E ds'"] Q(2) ids q(1) by (simp add: blocked_when_caught_def)
  obtain r where "append_event E v (ledger_preimage E lf) lf ending = Inr (r, lf)" "ar_decision r = ''PASS''" "ar_conflicts r = []"
    "ar_mutations r = 0" "ar_idempotent r" "ar_occurrence r = occurrences_of (fo_identity v) (vs @ ws)"
    by (rule append_replay [OF env later held ids])
  then show ?thesis using coordination_plan_ready [OF env _ q(4) scope] q plan' lock
    by (auto simp: apply_execution_failure_def lock_passes_def result_after_release_def)
qed

section \<open>An example\<close>

definition lock0 :: lock_use where
  "lock0 = \<lparr>lu_decision = ''PASS'', lu_conflicts = [], lu_handle = True, lu_mutations = 1, lu_durable = 1, lu_release = ''PASS'',
     lu_release_conflicts = [], lu_release_partial = False, lu_release_mutations = 1, lu_release_durable = 0\<rparr>"

definition failing_unit0 :: exec_unit where
  "failing_unit0 = \<lparr>eu_unit = ''U-1'', eu_root = ''parser'', eu_slice = ''S-1'', eu_role = ''SOURCE'', eu_revision = 1, eu_supersedes = PNone,
     eu_ref = ''process/contract.json'', eu_digest = digest_of CHR ''a''\<rparr>"

definition failure_contract0 :: failure_contract where
  "failure_contract0 = \<lparr>fk_schema = PInt 1, fk_root = ''parser'', fk_slice = ''S-1'', fk_revision = 1, fk_checks = [''unit''],
     fk_digest = digest_of CHR ''a''\<rparr>"

definition result_item0 :: result_item where
  "result_item0 = \<lparr>it_id = ''I-1'', it_group = ''unit'', it_status = ''FAIL'', it_reasons = [''HARNESS_ERROR_WITH_UNCHANGED_SEMANTICS'']\<rparr>"

definition failure_evidence0 :: failure_evidence where
  "failure_evidence0 = \<lparr>fe_schema = PInt 1, fe_unit = ''U-1'', fe_profile = digest_of CHR ''a'', fe_checks = [''unit''], fe_revision = 1,
     fe_scope = digest_of CHR ''a'', fe_result = digest_of CHR ''a'', fe_items = [result_item0], fe_observed = ''2026-01-01'',
     fe_digest = digest_of CHR ''a''\<rparr>"

definition harness_facts0 :: pydict where
  "harness_facts0 = [(''check_harness_error'', PBool True), (''semantic_digest_unchanged'', PBool True)]"

definition failure_files0 :: failure_files where
  "failure_files0 = \<lparr>ff_work = Inr (work0\<lparr>w_unit := Some failing_unit0\<rparr>),
     ff_contract = Some (r_json (we_release failure_env0) (PDict (contract_as_dict failure_contract0))),
     ff_evidence = Some (PDict (evidence_as_dict failure_evidence0)), ff_ledger = None\<rparr>"

lemma item0: "map_result result_item_from_mapping [PDict (sort_key fst (result_item_as_dict result_item0))] = Inr [result_item0]"
  "classify_item result_item0 harness_facts0 ''targeted'' ''S-1'' = Inr (failure_class_as_dict (classify_failure harness_facts0),
     [(''decision'', PStr ''RETRY_LAYER''), (''failure_class'', PStr ''CHECK_HARNESS_ERROR''), (''failed_layer'', PStr ''targeted''),
      (''current_slice_id'', PStr ''S-1''), (''next_action'', PStr ''repair_harness_then_rerun_failed_layer''),
      (''invalidated_layers'', PList [PStr ''targeted'']), (''reopened_slices'', PList []), (''stop_downstream'', PBool True)], ''RETRY_LAYER'')"
  "mk_identity (identity_as_dict (finding_of failing_unit0 failure_evidence0 result_item0)) = Inr (finding_of failing_unit0 failure_evidence0 result_item0)"
  "rw_decision (plan_rework attempt0 ''targeted'') = ''READY''"
  "unique_ids ''required_check_ids'' [''unit''] = Inr [''unit'']" "safe_id ''unit_id'' (PStr ''U-1'') = Inr ''U-1''"
  "relative_ref ''evidence_ref'' (PStr ''process/evidence.json'') = Inr ''process/evidence.json''"
  by code_simp+

lemma contract0: "load_contract failure_env0 (ff_contract failure_files0) = Inr failure_contract0"
proof -
  have "r_loads (we_release failure_env0) (r_json (we_release failure_env0) v) = Some v" for v
    by (simp add: failure_env0_def release_env0_def sample_roundtrip)
  moreover have "contract_from_mapping failure_env0 (PDict (contract_as_dict failure_contract0)) = Inr failure_contract0"
    by code_simp
  ultimately show ?thesis by (simp add: failure_files0_def)
qed

lemma evidence0: "load_evidence failure_env0 (ff_evidence failure_files0) = Inr failure_evidence0"
  by code_simp

definition retried :: "observation_plan result \<Rightarrow> bool" where
  "retried r = (case r of
     Inr p \<Rightarrow> ob_decision p = ''READY'' \<and> ob_event p \<noteq> None \<and> ob_append p \<and> action_of p = ''RETRY_CURRENT_LAYER'' | Inl _ \<Rightarrow> False)"

lemma plan0: "retried (plan_execution_failure failure_env0 failure_files0 ''process/evidence.json'' harness_facts0 ''targeted'' attempt0)"
proof -
  let ?x = "plan_finding_observation failure_env0 failing_unit0 failure_contract0 failure_evidence0 ''process/evidence.json'' harness_facts0
    ''targeted'' attempt0 (project_ledger failure_env0 []) (digest_of CHR ''a'')"
  have x: "retried ?x" by code_simp
  have "fe_scope failure_evidence0 = digest_of CHR ''a''" "eu_digest failing_unit0 = digest_of CHR ''a''"
    by (simp_all add: failure_evidence0_def failing_unit0_def)
  then have "plan_execution_failure failure_env0 failure_files0 ''process/evidence.json'' harness_facts0 ''targeted'' attempt0
      = blocked_when_caught ?x ''process/evidence.json'' (digest_of CHR ''a'')"
    using contract0 evidence0 by (simp add: plan_execution_failure_def blocked_when_caught_def failure_files0_def read_ledger_def Let_def)
  then show ?thesis using x by (cases ?x) (auto simp: retried_def blocked_when_caught_def)
qed

lemma break_free_hex: "list_all lower_hex s \<Longrightarrow> break_free s"
proof (induction s)
  case (Cons c s)
  have "\<not> lower_hex d" if "d \<in> {CHR 0x0A, CHR 0x0B, CHR 0x0C, CHR 0x1C, CHR 0x1D, CHR 0x1E, CHR 0x0D, CHR 0xC2, CHR 0xE2}" for d
    using that by (auto simp: lower_hex_def)
  then have "c \<notin> {CHR 0x0A, CHR 0x0B, CHR 0x0C, CHR 0x1C, CHR 0x1D, CHR 0x1E, CHR 0x0D, CHR 0xC2, CHR 0xE2}" using Cons.prems by auto
  then have "break_size (c # s) = 0" by (simp add: break_size.simps(2))
  then show ?case using Cons by simp
qed simp

lemma line0: "line_ok failure_env0 v"
proof -
  let ?l = "r_json (we_release failure_env0) (PDict (sort_key fst (finding_as_dict v)))"
  have l: "?l = hex_text (sample_dumps (PDict (sort_key fst (finding_as_dict v))))" by (simp add: failure_env0_def release_env0_def)
  have hex: "list_all lower_hex ?l" unfolding l list_all_iff using hex_text_chars by blast
  have "?l \<noteq> []"
  proof
    assume "?l = []"
    then have "unhex [] = sample_dumps (PDict (sort_key fst (finding_as_dict v)))" unfolding l using unhex_hex by metis
    then show False by (simp add: sample_dumps_def)
  qed
  moreover have "py_strip ?l = ?l" by (rule py_strip_plain) (use hex in \<open>auto simp: list_all_iff hex_no_ws\<close>)
  ultimately have "py_strip ?l \<noteq> []" by simp
  then show ?thesis using break_free_hex [OF hex] by (simp add: line_ok_def Let_def)
qed

lemma registration0: "\<exists>p v g lf. plan_execution_failure failure_env0 failure_files0 ''process/evidence.json'' harness_facts0 ''targeted'' attempt0 = Inr p
  \<and> ob_decision p \<noteq> ''BLOCKED'' \<and> ob_event p = Some v \<and> action_of p = ''RETRY_CURRENT_LAYER''
  \<and> apply_execution_failure failure_env0 failure_files0 p ''process/evidence.json'' harness_facts0 ''targeted'' attempt0 lock0 Complete = Inr (g, lf)
  \<and> rg_mutations g = 1 \<and> ledger_holds failure_env0 lf [v]"
proof -
  let ?plan = "plan_execution_failure failure_env0 failure_files0 ''process/evidence.json'' harness_facts0 ''targeted'' attempt0"
  obtain p v where p: "?plan = Inr p" "ob_decision p = ''READY''" "ob_event p = Some v" "action_of p = ''RETRY_CURRENT_LAYER''" "ob_append p"
    using plan0 by (cases ?plan) (auto simp: retried_def)
  have ready: "ob_decision p \<noteq> ''BLOCKED''" using p(2) by simp
  have none: "ledger_holds failure_env0 (ff_ledger failure_files0) []" using holds_empty by (simp add: failure_files0_def)
  obtain r where r: "ready_plan failure_env0 harness_facts0 ''targeted'' attempt0 [] p r" using plan_over_ledger(1) [OF none p(1) ready] by blast
  have pre: "ob_preimage p = ledger_preimage failure_env0 (ff_ledger failure_files0)" by (rule plan_over_ledger(3) [OF none p(1) ready])
  have v: "observation_wf failure_env0 v" and route: "ob_route p \<noteq> None" using r p(3) by (auto simp: ready_plan_def Let_def)
  then have i: "digest_re (fo_identity v)" by (simp add: observation_wf_def)
  obtain x lf where run: "append_event failure_env0 v (ob_preimage p) None Complete = Inr (x, lf)"
  proof -
    have wf: "reads_as failure_env0 [] []" by (simp add: reads_as_def)
    obtain oc where "project_occurrence failure_env0 (project_ledger failure_env0 []) (fo_identity v) = Inr oc" "oc_decision oc = ''PASS''"
      using occurrence_reads [OF wf i] by auto
    moreover obtain oc' where "project_occurrence failure_env0 (project_ledger failure_env0 [finding_as_dict v]) (fo_identity v) = Inr oc'"
      using occurrence_reads [OF reads_snoc [OF wf v] i] by auto
    moreover have "by_observation_key (project_ledger failure_env0 []) (fo_key v) = None" by (simp add: by_observation_key_def project_reads(1) [OF wf])
    ultimately show thesis using that by (simp add: append_event_def pre read_ledger_def guard_def write_event_def Let_def)
  qed
  have out: "rg_mutations g = 1 \<and> ledger_holds failure_env0 lf [v]" if "rg_mutations g = ar_mutations x" for g
    using append_outcome [OF failure_env0_ok holds_empty v line0 run] that by (auto simp: append_refused_def pre split: if_splits)
  obtain y where y: "coordination_plan failure_env0 p = Inr y" using plan_coordinates [OF failure_env0_ok p(1) ready] by blast
  have "\<exists>g. apply_execution_failure failure_env0 failure_files0 p ''process/evidence.json'' harness_facts0 ''targeted'' attempt0 lock0 Complete = Inr (g, lf)
      \<and> rg_mutations g = ar_mutations x"
    using p run y route ready by (auto simp: apply_execution_failure_def Let_def failure_files0_def lock0_def result_after_release_def)
  then show ?thesis using p ready out by blast
qed

theorem registration_history_witness:
  "\<exists>lf i vs. registered failure_env0 lf [(i, ''RETRY_CURRENT_LAYER'')] \<and> ledger_holds failure_env0 lf vs \<and> map fo_identity vs = [i]
    \<and> clarified [(i, ''RETRY_CURRENT_LAYER'')]"
proof -
  obtain p v g lf where p: "plan_execution_failure failure_env0 failure_files0 ''process/evidence.json'' harness_facts0 ''targeted'' attempt0 = Inr p"
    "action_of p = ''RETRY_CURRENT_LAYER''" "rg_mutations g = 1"
    "apply_execution_failure failure_env0 failure_files0 p ''process/evidence.json'' harness_facts0 ''targeted'' attempt0 lock0 Complete = Inr (g, lf)"
    using registration0 by blast
  have "registered failure_env0 (ff_ledger failure_files0) []" using registered.no_ledger by (simp add: failure_files0_def)
  then have "registered failure_env0 lf ([] @ (if rg_mutations g = 0 then [] else [(ob_identity_digest p, returned_action g)]))"
    by (rule registered.registration [OF _ p(4)]) (simp_all add: line0 p(1))
  moreover have "returned_action g = ''RETRY_CURRENT_LAYER''"
    using registration_route [OF p(4) _ p(1)] p(2,3) by (simp add: returned_action_def action_of_def)
  ultimately have "registered failure_env0 lf [(ob_identity_digest p, ''RETRY_CURRENT_LAYER'')]" using p(3) by simp
  then show ?thesis using registration_history [OF failure_env0_ok] by fastforce
qed

theorem registration_repeats_witness:
  "\<exists>lf v q g. ledger_holds failure_env0 lf [v]
    \<and> apply_execution_failure failure_env0 (failure_files0\<lparr>ff_ledger := lf\<rparr>) q ''process/evidence.json'' harness_facts0 ''targeted'' attempt0 lock0 (Torn 3)
        = Inr (g, lf)
    \<and> rg_decision g = ''PASS'' \<and> rg_mutations g = 0 \<and> rg_occurrence g = 1"
proof -
  obtain p v g lf where p: "plan_execution_failure failure_env0 failure_files0 ''process/evidence.json'' harness_facts0 ''targeted'' attempt0 = Inr p"
    "ob_decision p \<noteq> ''BLOCKED''" "ob_event p = Some v" and lf: "ledger_holds failure_env0 lf [v]"
    using registration0 by blast
  have none: "ledger_holds failure_env0 (ff_ledger failure_files0) []" using holds_empty by (simp add: failure_files0_def)
  have lf': "ledger_holds failure_env0 lf ([] @ [v])" using lf by simp
  have "occurrences_of (fo_identity v) ([] @ [v]) = 1" by (simp add: occurrences_of_def)
  then show ?thesis using registration_repeats [OF failure_env0_ok none p lf', of lock0 "Torn 3"] lf by (auto simp: lock_passes_def lock0_def)
qed

end
