(* ===== verification/Admission.thy ===== *)
theory Admission
  imports Finding_Ledger "HOL-Library.Product_Lexorder"
begin

text \<open>
  The admission of an execution unit (\<open>execution_control/admission.py\<close>, its contracts in
  \<open>execution_control/contract.py\<close> and the repair authorizations of \<open>execution_control/repair_admission.py\<close>): the
  inventory of the active units, the budget evaluator, the plan of an admission, the repair binding it asks for and the
  audit receipt. The files the repair authorization reads are arguments.
\<close>

section \<open>Budgets and facts\<close>

definition count_value :: "string \<Rightarrow> pyval \<Rightarrow> int result" where
  "count_value fld v =
     (case v of PInt n \<Rightarrow> if n < 0 then Inl (ValueError (fld @ '' must be a non-negative integer'')) else Inr n
      | _ \<Rightarrow> Inl (ValueError (fld @ '' must be a non-negative integer'')))"

record container_budget =
  cb_primary :: int
  cb_auxiliary :: int
  cb_repair :: int
  cb_writers :: int

definition container_budget_fields :: "string list" where
  "container_budget_fields = [''primary_max'', ''auxiliary_max'', ''repair_max'', ''concurrent_write_max'']"

definition container_budget_from_mapping :: "pyval \<Rightarrow> container_budget result" where
  "container_budget_from_mapping v =
     let_ok (closed_mapping ''ContainerBudgetV1'' container_budget_fields v) (\<lambda>d.
     let_ok (count_value ''primary_max'' (dget d ''primary_max'')) (\<lambda>p.
     let_ok (count_value ''auxiliary_max'' (dget d ''auxiliary_max'')) (\<lambda>a.
     let_ok (count_value ''repair_max'' (dget d ''repair_max'')) (\<lambda>r.
     let_ok (count_value ''concurrent_write_max'' (dget d ''concurrent_write_max'')) (\<lambda>w.
     Inr \<lparr>cb_primary = p, cb_auxiliary = a, cb_repair = r, cb_writers = w\<rparr>)))))"

definition policy_v1 :: container_budget where
  "policy_v1 = \<lparr>cb_primary = 1, cb_auxiliary = 0, cb_repair = 0, cb_writers = 1\<rparr>"

definition container_budget_as_dict :: "container_budget \<Rightarrow> pydict" where
  "container_budget_as_dict b =
     [(''primary_max'', PInt (cb_primary b)), (''auxiliary_max'', PInt (cb_auxiliary b)), (''repair_max'', PInt (cb_repair b)),
      (''concurrent_write_max'', PInt (cb_writers b))]"

record admission_facts =
  af_release_oid :: string
  af_process_oid :: string
  af_dirty :: string
  af_scope :: string
  af_authorization :: string
  af_profile :: string
  af_inventory :: string
  af_target :: string
  af_owner :: string

definition admission_facts_fields :: "string list" where
  "admission_facts_fields = [''release_oid'', ''process_oid'', ''dirty_path_digest'', ''scope_digest'', ''authorization_digest'',
     ''profile_digest'', ''inventory_digest'', ''target_preimage_digest'', ''project_active_owner_digest'']"

definition oid_field :: "string \<Rightarrow> pyval \<Rightarrow> string result" where
  "oid_field fld v = checked_str source_oid_re (fld @ '' must be one lowercase Git OID'') v"

definition admission_facts_from_mapping :: "pyval \<Rightarrow> admission_facts result" where
  "admission_facts_from_mapping v =
     let_ok (closed_mapping ''AdmissionFactsV1'' admission_facts_fields v) (\<lambda>d.
     let_ok (oid_field ''release_oid'' (dget d ''release_oid'')) (\<lambda>release.
     let_ok (oid_field ''process_oid'' (dget d ''process_oid'')) (\<lambda>process.
     let_ok (sha256_field ''dirty_path_digest'' (dget d ''dirty_path_digest'')) (\<lambda>dirty.
     let_ok (sha256_field ''scope_digest'' (dget d ''scope_digest'')) (\<lambda>scope.
     let_ok (sha256_field ''authorization_digest'' (dget d ''authorization_digest'')) (\<lambda>authorization.
     let_ok (sha256_field ''profile_digest'' (dget d ''profile_digest'')) (\<lambda>profile.
     let_ok (sha256_field ''inventory_digest'' (dget d ''inventory_digest'')) (\<lambda>inventory.
     let_ok (sha256_field ''target_preimage_digest'' (dget d ''target_preimage_digest'')) (\<lambda>target.
     let_ok (sha256_field ''project_active_owner_digest'' (dget d ''project_active_owner_digest'')) (\<lambda>owner.
     Inr \<lparr>af_release_oid = release, af_process_oid = process, af_dirty = dirty, af_scope = scope, af_authorization = authorization,
       af_profile = profile, af_inventory = inventory, af_target = target, af_owner = owner\<rparr>))))))))))"

definition admission_facts_as_dict :: "admission_facts \<Rightarrow> pydict" where
  "admission_facts_as_dict f =
     [(''authorization_digest'', PStr (af_authorization f)), (''dirty_path_digest'', PStr (af_dirty f)),
      (''inventory_digest'', PStr (af_inventory f)), (''process_oid'', PStr (af_process_oid f)), (''profile_digest'', PStr (af_profile f)),
      (''project_active_owner_digest'', PStr (af_owner f)), (''release_oid'', PStr (af_release_oid f)), (''scope_digest'', PStr (af_scope f)),
      (''target_preimage_digest'', PStr (af_target f))]"

section \<open>The inventory and its budget\<close>

text \<open>Units in the order of concept, slice, role, revision and identifier; an identifier must not repeat.\<close>

definition inventory_key :: "exec_unit \<Rightarrow> string \<times> string \<times> string \<times> int \<times> string" where
  "inventory_key u = (eu_root u, eu_slice u, eu_role u, eu_revision u, eu_unit u)"

definition normalize_inventory :: "exec_unit list \<Rightarrow> exec_unit list result" where
  "normalize_inventory us =
     let_ok (guard (distinct (map eu_unit us)) ''execution inventory must not repeat unit_id'') (\<lambda>_. Inr (sort_key inventory_key us))"

definition unit_value :: "exec_unit \<Rightarrow> pyval" where
  "unit_value u = PDict (sort_key fst (exec_unit_as_dict u))"

definition inventory_digest :: "work_env \<Rightarrow> exec_unit list \<Rightarrow> string result" where
  "inventory_digest E us =
     let_ok (normalize_inventory us) (\<lambda>inventory. Inr (canonical_digest (we_release E) (PList (map unit_value inventory))))"

record budget_evaluation =
  be_decision :: string
  be_conflicts :: "string list"
  be_roles :: "(string \<times> int) list"
  be_writers :: int
  be_children :: int

definition slice_of :: "exec_unit \<Rightarrow> string \<times> string" where
  "slice_of u = (eu_root u, eu_slice u)"

definition role_in :: "exec_unit list \<Rightarrow> string \<times> string \<Rightarrow> string \<Rightarrow> int" where
  "role_in us s role = int (length (filter (\<lambda>u. slice_of u = s \<and> eu_role u = role) us))"

definition role_total :: "exec_unit list \<Rightarrow> string \<Rightarrow> int" where
  "role_total us role = int (length (filter (\<lambda>u. eu_role u = role) us))"

definition slice_conflicts :: "exec_unit list \<Rightarrow> container_budget \<Rightarrow> (string \<times> string) list \<Rightarrow> string \<times> string \<Rightarrow> string list" where
  "slice_conflicts us policy authorized s =
     (if 1 < role_in us s ''primary'' then [''DUPLICATE_ACTIVE_SLICE_OWNER''] else [])
     @ (if cb_primary policy < role_in us s ''primary'' \<or> cb_auxiliary policy < role_in us s ''auxiliary''
          \<or> cb_repair policy + (if s \<in> set authorized then 1 else 0) < role_in us s ''repair''
        then [''CONTAINER_BUDGET_EXCEEDED''] else [])"

definition evaluate_execution_budget ::
    "exec_unit list \<Rightarrow> container_budget \<Rightarrow> int \<Rightarrow> int \<Rightarrow> (string \<times> string) list \<Rightarrow> budget_evaluation result" where
  "evaluate_execution_budget us policy writers children authorized =
     let_ok (normalize_inventory us) (\<lambda>inventory.
     let_ok (guard (0 \<le> writers) ''concurrent_writer_count must be a non-negative integer'') (\<lambda>_.
     let_ok (guard (0 \<le> children) ''child_work_count must be a non-negative integer'') (\<lambda>_.
     let_ok (guard (list_all (\<lambda>(r, s). r \<noteq> [] \<and> s \<noteq> []) authorized \<and> distinct authorized)
       ''authorized_repair_slices must be unique root/slice pairs'') (\<lambda>_.
     let conflicts = concat (map (slice_conflicts inventory policy authorized) (map slice_of inventory))
           @ (if 0 < children then [''CONTAINER_BUDGET_EXCEEDED''] else [])
           @ (if cb_writers policy < writers then [''CONCURRENT_WRITE_BUDGET_EXCEEDED''] else []);
         ordered = sort (remdups conflicts) in
     Inr \<lparr>be_decision = (if ordered \<noteq> [] then ''BLOCKED'' else ''READY''), be_conflicts = ordered,
       be_roles = map (\<lambda>role. (role, role_total inventory role)) container_roles, be_writers = writers, be_children = children\<rparr>))))"

section \<open>Repair bindings\<close>

definition repair_id_re :: "string \<Rightarrow> bool" where
  "repair_id_re s = ident_re ''._:-'' s"

definition repair_categories :: "string list" where
  "repair_categories = [''usage-hard-stop'', ''transaction-recovery'', ''provider-capability-gap'']"

definition repair_id :: "string \<Rightarrow> pyval \<Rightarrow> string result" where
  "repair_id fld v = checked_str repair_id_re (''repair authorization '' @ fld @ '' is invalid'') v"

definition repair_code :: "string \<Rightarrow> pyval \<Rightarrow> string result" where
  "repair_code fld v = checked_str reason_re (''repair authorization '' @ fld @ '' is invalid'') v"

definition repair_sha :: "string \<Rightarrow> pyval \<Rightarrow> string result" where
  "repair_sha fld v = checked_str digest_re (''repair authorization '' @ fld @ '' must be lowercase SHA-256'') v"

definition repair_oid :: "string \<Rightarrow> pyval \<Rightarrow> string result" where
  "repair_oid fld v = checked_str oid_re (''repair authorization '' @ fld @ '' must be one exact Git OID'') v"

definition repair_expiry :: "work_env \<Rightarrow> pyval \<Rightarrow> string result" where
  "repair_expiry E v =
     (case v of
        PStr s \<Rightarrow>
          (case r_iso (we_release E) (replace_z s) of
             None \<Rightarrow> Inl (ValueError ''repair authorization expires_at is invalid'')
           | Some (Naive _) \<Rightarrow> Inl (ValueError ''repair authorization expires_at must include timezone'')
           | Some (Aware _) \<Rightarrow> Inr s)
      | _ \<Rightarrow> Inl (ValueError ''repair authorization expires_at must be a string''))"

record repair_binding =
  rb_authorization :: string
  rb_authorization_digest :: string
  rb_project :: string
  rb_candidate :: string
  rb_candidate_unit :: string
  rb_candidate_scope :: string
  rb_predecessor :: string
  rb_predecessor_unit :: string
  rb_predecessor_scope :: string
  rb_category :: string
  rb_code :: string
  rb_blocker :: string
  rb_fingerprint :: string
  rb_root :: string
  rb_slice :: string
  rb_release_oid :: string
  rb_process_oid :: string
  rb_expires :: string

definition repair_binding_fields :: "string list" where
  "repair_binding_fields = [''kind'', ''authorization_id'', ''authorization_digest'', ''project_id'', ''candidate_work_id'',
     ''candidate_unit_digest'', ''candidate_scope_digest'', ''predecessor_work_id'', ''predecessor_unit_digest'',
     ''predecessor_scope_digest'', ''predecessor_status'', ''predecessor_blocker_category'', ''predecessor_blocker_code'',
     ''predecessor_blocker_digest'', ''predecessor_blocker_fingerprint'', ''root_concept'', ''slice_id'', ''release_oid'',
     ''process_oid'', ''expires_at'']"

definition repair_binding_as_dict :: "repair_binding \<Rightarrow> pydict" where
  "repair_binding_as_dict b =
     [(''authorization_digest'', PStr (rb_authorization_digest b)), (''authorization_id'', PStr (rb_authorization b)),
      (''candidate_scope_digest'', PStr (rb_candidate_scope b)), (''candidate_unit_digest'', PStr (rb_candidate_unit b)),
      (''candidate_work_id'', PStr (rb_candidate b)), (''expires_at'', PStr (rb_expires b)), (''kind'', PStr ''RepairAdmissionBindingV1''),
      (''predecessor_blocker_category'', PStr (rb_category b)), (''predecessor_blocker_code'', PStr (rb_code b)),
      (''predecessor_blocker_digest'', PStr (rb_blocker b)), (''predecessor_blocker_fingerprint'', PStr (rb_fingerprint b)),
      (''predecessor_scope_digest'', PStr (rb_predecessor_scope b)), (''predecessor_status'', PStr ''blocked''),
      (''predecessor_unit_digest'', PStr (rb_predecessor_unit b)), (''predecessor_work_id'', PStr (rb_predecessor b)),
      (''process_oid'', PStr (rb_process_oid b)), (''project_id'', PStr (rb_project b)), (''release_oid'', PStr (rb_release_oid b)),
      (''root_concept'', PStr (rb_root b)), (''slice_id'', PStr (rb_slice b))]"

text \<open>\<open>RepairAdmissionBindingV1.__post_init__\<close>, with the fields in the order it checks them.\<close>

definition mk_repair_binding :: "work_env \<Rightarrow> pydict \<Rightarrow> repair_binding result" where
  "mk_repair_binding E d =
     let_ok (guard (dget d ''kind'' = PStr ''RepairAdmissionBindingV1'') ''repair binding kind is unsupported'') (\<lambda>_.
     let_ok (repair_id ''authorization_id'' (dget d ''authorization_id'')) (\<lambda>authorization.
     let_ok (repair_id ''project_id'' (dget d ''project_id'')) (\<lambda>project.
     let_ok (repair_id ''candidate_work_id'' (dget d ''candidate_work_id'')) (\<lambda>candidate.
     let_ok (repair_id ''predecessor_work_id'' (dget d ''predecessor_work_id'')) (\<lambda>predecessor.
     let_ok (repair_id ''root_concept'' (dget d ''root_concept'')) (\<lambda>root.
     let_ok (repair_id ''slice_id'' (dget d ''slice_id'')) (\<lambda>slice.
     let_ok (repair_sha ''authorization_digest'' (dget d ''authorization_digest'')) (\<lambda>digest.
     let_ok (repair_sha ''candidate_unit_digest'' (dget d ''candidate_unit_digest'')) (\<lambda>unit.
     let_ok (repair_sha ''candidate_scope_digest'' (dget d ''candidate_scope_digest'')) (\<lambda>scope.
     let_ok (repair_sha ''predecessor_unit_digest'' (dget d ''predecessor_unit_digest'')) (\<lambda>punit.
     let_ok (repair_sha ''predecessor_scope_digest'' (dget d ''predecessor_scope_digest'')) (\<lambda>pscope.
     let_ok (repair_sha ''predecessor_blocker_digest'' (dget d ''predecessor_blocker_digest'')) (\<lambda>blocker.
     let_ok (repair_sha ''predecessor_blocker_fingerprint'' (dget d ''predecessor_blocker_fingerprint'')) (\<lambda>fingerprint.
     let_ok (guard (dget d ''predecessor_status'' = PStr ''blocked'') ''repair binding predecessor status must be blocked'') (\<lambda>_.
     let_ok (in_vocabulary (dget d ''predecessor_blocker_category'') repair_categories ''repair binding blocker category is unsupported'') (\<lambda>_.
     let_ok (repair_code ''predecessor_blocker_code'' (dget d ''predecessor_blocker_code'')) (\<lambda>code.
     let_ok (repair_oid ''release_oid'' (dget d ''release_oid'')) (\<lambda>release.
     let_ok (repair_oid ''process_oid'' (dget d ''process_oid'')) (\<lambda>process.
     let_ok (repair_expiry E (dget d ''expires_at'')) (\<lambda>expires.
     Inr \<lparr>rb_authorization = authorization, rb_authorization_digest = digest, rb_project = project, rb_candidate = candidate,
       rb_candidate_unit = unit, rb_candidate_scope = scope, rb_predecessor = predecessor, rb_predecessor_unit = punit,
       rb_predecessor_scope = pscope, rb_category = the_str (dget d ''predecessor_blocker_category''), rb_code = code, rb_blocker = blocker,
       rb_fingerprint = fingerprint, rb_root = root, rb_slice = slice, rb_release_oid = release, rb_process_oid = process,
       rb_expires = expires\<rparr>))))))))))))))))))))"

definition repair_binding_from_mapping :: "work_env \<Rightarrow> pyval \<Rightarrow> repair_binding result" where
  "repair_binding_from_mapping E v = let_ok (closed_dict repair_binding_fields ''repair binding fields mismatch'' v) (mk_repair_binding E)"

section \<open>The plan of an admission\<close>

definition evaluator_identity :: string where
  "evaluator_identity = ''meta_flow.execution_control.admission.evaluate_execution_budget:v2''"

definition evaluator_digest :: "work_env \<Rightarrow> string" where
  "evaluator_digest E = dict_digest E [(''identity'', PStr evaluator_identity), (''policy_revision'', PInt 1)]"

definition unit_digest :: "work_env \<Rightarrow> exec_unit \<Rightarrow> string" where
  "unit_digest E u = dict_digest E (exec_unit_as_dict u)"

text \<open>The units a candidate of a later revision can supersede.\<close>

definition superseded_by :: "exec_unit \<Rightarrow> exec_unit \<Rightarrow> bool" where
  "superseded_by candidate u = (PStr (eu_unit u) = eu_supersedes candidate \<and> eu_root u = eu_root candidate
     \<and> eu_slice u = eu_slice candidate \<and> eu_revision u < eu_revision candidate)"

definition supersession_conflicts :: "exec_unit \<Rightarrow> exec_unit list \<Rightarrow> string list" where
  "supersession_conflicts candidate predecessors =
     (if eu_revision candidate = 1 \<or> length (filter (superseded_by candidate) predecessors) = 1 then []
      else [''SUPERSESSION_PREDECESSOR_NOT_TERMINAL''])"

definition candidate_context_digest ::
    "work_env \<Rightarrow> exec_unit \<Rightarrow> exec_unit list \<Rightarrow> container_budget \<Rightarrow> repair_binding option \<Rightarrow> repair_binding list \<Rightarrow> string" where
  "candidate_context_digest E candidate predecessors policy binding existing = dict_digest E
     [(''candidate'', unit_value candidate), (''terminal_predecessors'', PList (map unit_value (sort_key inventory_key predecessors))),
      (''policy_revision'', PInt 1), (''policy'', PDict (sort_key fst (container_budget_as_dict policy))),
      (''evaluator_identity'', PStr evaluator_identity), (''evaluator_digest'', PStr (evaluator_digest E)),
      (''repair_binding'', or_none repair_binding_as_dict binding),
      (''existing_repair_bindings'', PList (map (\<lambda>b. PDict (sort_key fst (repair_binding_as_dict b))) existing))]"

text \<open>The dictionary of the bindings by candidate keeps the last of them.\<close>

definition binding_of :: "repair_binding list \<Rightarrow> string \<Rightarrow> repair_binding option" where
  "binding_of existing i = find (\<lambda>b. rb_candidate b = i) (rev existing)"

definition inventory_conflicts :: "work_env \<Rightarrow> repair_binding list \<Rightarrow> exec_unit \<Rightarrow> string list" where
  "inventory_conflicts E existing u =
     (case binding_of existing (eu_unit u) of
        None \<Rightarrow> if eu_role u = ''repair'' then [''REPAIR_INVENTORY_AUTHORIZATION_REQUIRED''] else []
      | Some b \<Rightarrow>
          if eu_role u \<noteq> ''repair'' then [''REPAIR_INVENTORY_AUTHORIZATION_ROLE_MISMATCH'']
          else if rb_candidate_unit b \<noteq> unit_digest E u \<or> rb_root b \<noteq> eu_root u \<or> rb_slice b \<noteq> eu_slice u
          then [''REPAIR_INVENTORY_AUTHORIZATION_DRIFT''] else [])"

definition candidate_conflicts :: "work_env \<Rightarrow> exec_unit \<Rightarrow> exec_unit list \<Rightarrow> repair_binding \<Rightarrow> string list" where
  "candidate_conflicts E candidate inventory b =
     (if rb_candidate b \<noteq> eu_unit candidate \<or> rb_candidate_unit b \<noteq> unit_digest E candidate
      then [''REPAIR_AUTHORIZATION_CANDIDATE_MISMATCH''] else [])
     @ (if rb_root b \<noteq> eu_root candidate \<or> rb_slice b \<noteq> eu_slice candidate then [''REPAIR_AUTHORIZATION_SLICE_MISMATCH''] else [])
     @ (case filter (\<lambda>u. eu_unit u = rb_predecessor b) inventory of
          [u] \<Rightarrow> if unit_digest E u \<noteq> rb_predecessor_unit b then [''REPAIR_PREDECESSOR_EXECUTION_UNIT_DRIFT''] else []
        | _ \<Rightarrow> [''REPAIR_PREDECESSOR_NOT_ACTIVE_OWNER''])"

definition repair_binding_conflicts ::
    "work_env \<Rightarrow> exec_unit \<Rightarrow> exec_unit list \<Rightarrow> repair_binding option \<Rightarrow> repair_binding list \<Rightarrow> string list" where
  "repair_binding_conflicts E candidate inventory binding existing =
     (let known = (if distinct (map rb_candidate existing) then [] else [''REPAIR_INVENTORY_AUTHORIZATION_DUPLICATE''])
            @ concat (map (inventory_conflicts E existing) inventory)
            @ (if set (map rb_candidate existing) \<subseteq> set (map eu_unit inventory) then [] else [''REPAIR_INVENTORY_AUTHORIZATION_ORPHANED'']) in
      if eu_role candidate \<noteq> ''repair''
      then sort (remdups (known @ (if binding \<noteq> None then [''REPAIR_AUTHORIZATION_ROLE_MISMATCH''] else [])))
      else case binding of
        None \<Rightarrow> [''REPAIR_AUTHORIZATION_REQUIRED'']
      | Some b \<Rightarrow> sort (remdups (known @ candidate_conflicts E candidate inventory b)))"

definition authorized_slices :: "exec_unit \<Rightarrow> repair_binding option \<Rightarrow> repair_binding list \<Rightarrow> string list \<Rightarrow> (string \<times> string) list" where
  "authorized_slices candidate binding existing conflicts =
     sort (remdups (map (\<lambda>b. (rb_root b, rb_slice b)) existing
       @ (if eu_role candidate = ''repair'' \<and> binding \<noteq> None \<and> conflicts = [] then [slice_of candidate] else [])))"

definition plan_admission ::
    "work_env \<Rightarrow> exec_unit \<Rightarrow> exec_unit list \<Rightarrow> container_budget \<Rightarrow> admission_facts \<Rightarrow> exec_unit list \<Rightarrow> int \<Rightarrow> repair_binding option
     \<Rightarrow> repair_binding list \<Rightarrow> admission_plan result" where
  "plan_admission E candidate active policy facts terminal writers binding bindings =
     let_ok (normalize_inventory active) (\<lambda>inventory.
     let_ok (normalize_inventory terminal) (\<lambda>predecessors.
     let existing = sort_key rb_candidate bindings;
         repair = repair_binding_conflicts E candidate inventory binding existing in
     let_ok (inventory_digest E inventory) (\<lambda>digest.
     let_ok (evaluate_execution_budget (inventory @ [candidate]) policy (writers + 1) 0 (authorized_slices candidate binding existing repair)) (\<lambda>ev.
     let conflicts = sort (remdups (supersession_conflicts candidate predecessors @ repair
           @ (if digest \<noteq> af_inventory facts then [''ADMISSION_PREIMAGE_DRIFT''] else []) @ be_conflicts ev));
         p = \<lparr>ad_decision = (if conflicts \<noteq> [] then ''BLOCKED'' else ''READY''), ad_facts = dict_digest E (admission_facts_as_dict facts),
           ad_scope = af_scope facts, ad_candidate = candidate_context_digest E candidate predecessors policy binding existing,
           ad_conflicts = conflicts, ad_coordination = (conflicts = [])\<rparr> in
     let_ok (check_admission p) (\<lambda>_. Inr p)))))"

section \<open>Repair authorizations\<close>

record repair_authorization =
  ra_schema :: pyval
  ra_id :: string
  ra_project :: string
  ra_candidate :: string
  ra_predecessor :: string
  ra_root :: string
  ra_slice :: string
  ra_predecessor_scope :: string
  ra_category :: string
  ra_code :: string
  ra_ref :: string
  ra_blocker :: string
  ra_fingerprint :: string
  ra_candidate_scope :: string
  ra_release_oid :: string
  ra_process_oid :: string
  ra_expires :: string

definition repair_authorization_fields :: "string list" where
  "repair_authorization_fields = [''schema_version'', ''kind'', ''authorization_id'', ''authorization_source'', ''project_id'',
     ''candidate_work_id'', ''predecessor_work_id'', ''root_concept'', ''slice_id'', ''predecessor_scope_digest'', ''predecessor_status'',
     ''predecessor_blocker_category'', ''predecessor_blocker_code'', ''predecessor_blocker_ref'', ''predecessor_blocker_digest'',
     ''predecessor_blocker_fingerprint'', ''candidate_scope_digest'', ''release_oid'', ''process_oid'', ''expires_at'', ''single_use'']"

definition repair_authorization_as_dict :: "repair_authorization \<Rightarrow> pydict" where
  "repair_authorization_as_dict a =
     [(''authorization_id'', PStr (ra_id a)), (''authorization_source'', PStr ''typed-user-confirmation''),
      (''candidate_scope_digest'', PStr (ra_candidate_scope a)), (''candidate_work_id'', PStr (ra_candidate a)),
      (''expires_at'', PStr (ra_expires a)), (''kind'', PStr ''RepairAdmissionAuthorizationV1''),
      (''predecessor_blocker_category'', PStr (ra_category a)), (''predecessor_blocker_code'', PStr (ra_code a)),
      (''predecessor_blocker_digest'', PStr (ra_blocker a)), (''predecessor_blocker_fingerprint'', PStr (ra_fingerprint a)),
      (''predecessor_blocker_ref'', PStr (ra_ref a)), (''predecessor_scope_digest'', PStr (ra_predecessor_scope a)),
      (''predecessor_status'', PStr ''blocked''), (''predecessor_work_id'', PStr (ra_predecessor a)),
      (''process_oid'', PStr (ra_process_oid a)), (''project_id'', PStr (ra_project a)), (''release_oid'', PStr (ra_release_oid a)),
      (''root_concept'', PStr (ra_root a)), (''schema_version'', ra_schema a), (''single_use'', PBool True), (''slice_id'', PStr (ra_slice a))]"

definition repair_ref :: "string \<Rightarrow> pyval \<Rightarrow> string result" where
  "repair_ref fld v = checked_str relative_ref_text (''repair authorization '' @ fld @ '' must be one safe ref'') v"

definition mk_repair_authorization :: "work_env \<Rightarrow> pydict \<Rightarrow> repair_authorization result" where
  "mk_repair_authorization E d =
     let_ok (guard (py_eq (dget d ''schema_version'') (PInt 1) \<and> dget d ''kind'' = PStr ''RepairAdmissionAuthorizationV1'')
       ''repair authorization schema/kind is unsupported'') (\<lambda>_.
     let_ok (repair_id ''authorization_id'' (dget d ''authorization_id'')) (\<lambda>i.
     let_ok (guard (dget d ''authorization_source'' = PStr ''typed-user-confirmation'')
       ''repair authorization source must be typed-user-confirmation'') (\<lambda>_.
     let_ok (repair_id ''project_id'' (dget d ''project_id'')) (\<lambda>project.
     let_ok (repair_id ''candidate_work_id'' (dget d ''candidate_work_id'')) (\<lambda>candidate.
     let_ok (repair_id ''predecessor_work_id'' (dget d ''predecessor_work_id'')) (\<lambda>predecessor.
     let_ok (repair_id ''root_concept'' (dget d ''root_concept'')) (\<lambda>root.
     let_ok (repair_id ''slice_id'' (dget d ''slice_id'')) (\<lambda>slice.
     let_ok (repair_sha ''predecessor_scope_digest'' (dget d ''predecessor_scope_digest'')) (\<lambda>pscope.
     let_ok (repair_sha ''predecessor_blocker_digest'' (dget d ''predecessor_blocker_digest'')) (\<lambda>blocker.
     let_ok (repair_sha ''predecessor_blocker_fingerprint'' (dget d ''predecessor_blocker_fingerprint'')) (\<lambda>fingerprint.
     let_ok (repair_sha ''candidate_scope_digest'' (dget d ''candidate_scope_digest'')) (\<lambda>cscope.
     let_ok (guard (dget d ''predecessor_status'' = PStr ''blocked'') ''repair authorization predecessor_status must be blocked'') (\<lambda>_.
     let_ok (in_vocabulary (dget d ''predecessor_blocker_category'') repair_categories ''repair authorization blocker category is unsupported'') (\<lambda>_.
     let_ok (repair_code ''predecessor_blocker_code'' (dget d ''predecessor_blocker_code'')) (\<lambda>code.
     let_ok (repair_ref ''predecessor_blocker_ref'' (dget d ''predecessor_blocker_ref'')) (\<lambda>ref.
     let_ok (guard (as_posix ref = ''works/'' @ predecessor @ ''/BLOCKER.json'') ''repair authorization blocker ref must be predecessor BLOCKER.json'') (\<lambda>_.
     let_ok (repair_oid ''release_oid'' (dget d ''release_oid'')) (\<lambda>release.
     let_ok (repair_oid ''process_oid'' (dget d ''process_oid'')) (\<lambda>process.
     let_ok (repair_expiry E (dget d ''expires_at'')) (\<lambda>expires.
     let_ok (guard (dget d ''single_use'' = PBool True) ''repair authorization must be single-use'') (\<lambda>_.
     Inr \<lparr>ra_schema = dget d ''schema_version'', ra_id = i, ra_project = project, ra_candidate = candidate, ra_predecessor = predecessor,
       ra_root = root, ra_slice = slice, ra_predecessor_scope = pscope, ra_category = the_str (dget d ''predecessor_blocker_category''),
       ra_code = code, ra_ref = ref, ra_blocker = blocker, ra_fingerprint = fingerprint, ra_candidate_scope = cscope,
       ra_release_oid = release, ra_process_oid = process, ra_expires = expires\<rparr>)))))))))))))))))))))"

definition repair_authorization_from_mapping :: "work_env \<Rightarrow> pyval \<Rightarrow> repair_authorization result" where
  "repair_authorization_from_mapping E v =
     let_ok (closed_dict repair_authorization_fields ''repair authorization fields mismatch'' v) (mk_repair_authorization E)"

text \<open>The file of an authorization: none when it cannot be read as JSON, is not regular or too large.\<close>

fun load_repair_authorization :: "work_env \<Rightarrow> pyval option \<Rightarrow> repair_authorization result" where
  "load_repair_authorization E None = Inl (ValueError ''repair authorization path must be one bounded regular file'')"
| "load_repair_authorization E (Some (PDict d)) = repair_authorization_from_mapping E (PDict d)"
| "load_repair_authorization E (Some _) = Inl (ValueError ''repair authorization must be one JSON object'')"

definition blocker_fingerprint :: "work_env \<Rightarrow> repair_authorization \<Rightarrow> string" where
  "blocker_fingerprint E a = dict_digest E
     [(''predecessor_work_id'', PStr (ra_predecessor a)), (''predecessor_status'', PStr ''blocked''),
      (''predecessor_scope_digest'', PStr (ra_predecessor_scope a)), (''predecessor_blocker_category'', PStr (ra_category a)),
      (''predecessor_blocker_code'', PStr (ra_code a)), (''predecessor_blocker_digest'', PStr (ra_blocker a))]"

definition blocker_category_matches :: "string \<Rightarrow> string \<Rightarrow> pydict \<Rightarrow> bool" where
  "blocker_category_matches category code payload =
     (let upper = py_upper code in
      if category = ''usage-hard-stop'' then sublist ''USAGE'' upper \<and> (sublist ''HARD'' upper \<or> sublist ''BUDGET'' upper)
      else if category = ''transaction-recovery''
      then list_ex (\<lambda>token. sublist token upper) [''PARTIAL'', ''RECOVER'', ''TRANSACTION'']
      else let c = dget payload ''classification'' in
        sublist ''gap'' (py_lower (if truthy c then py_str c else []))
        \<or> list_ex (\<lambda>token. sublist token upper) [''GAP'', ''PUBLICATION'', ''SCOPE''])"

text \<open>What the planning reads besides the authorization: the predecessor Work, the bytes of its blocker evidence (none when it is
  not a regular readable file) and whether the claim of the authorization exists (none when its place cannot be found).\<close>

record repair_reads =
  rr_work :: "string \<Rightarrow> work result"
  rr_blocker :: "string \<Rightarrow> string option"
  rr_claim :: "string \<Rightarrow> bool option"

record repair_evaluation =
  rpe_decision :: string
  rpe_conflicts :: "string list"
  rpe_binding :: "repair_binding option"

definition unless_holds :: "bool \<Rightarrow> string \<Rightarrow> string list" where
  "unless_holds ok code = (if ok then [] else [code])"

definition instant_of :: "work_env \<Rightarrow> string \<Rightarrow> int" where
  "instant_of E s = (case r_iso (we_release E) (replace_z s) of Some (Aware t) \<Rightarrow> t | _ \<Rightarrow> 0)"

definition authorization_conflicts :: "work_env \<Rightarrow> repair_authorization \<Rightarrow> work \<Rightarrow> exec_unit \<Rightarrow> string \<Rightarrow> string \<Rightarrow> int \<Rightarrow> string list" where
  "authorization_conflicts E a candidate u release process now =
     unless_holds (now < instant_of E (ra_expires a)) ''REPAIR_AUTHORIZATION_EXPIRED''
     @ unless_holds (ra_project a = w_project candidate) ''REPAIR_AUTHORIZATION_PROJECT_MISMATCH''
     @ unless_holds (ra_candidate a = w_id candidate) ''REPAIR_AUTHORIZATION_CANDIDATE_MISMATCH''
     @ unless_holds (ra_root a = eu_root u) ''REPAIR_AUTHORIZATION_ROOT_MISMATCH''
     @ unless_holds (ra_slice a = eu_slice u) ''REPAIR_AUTHORIZATION_SLICE_MISMATCH''
     @ unless_holds (ra_candidate_scope a = scope_digest E (w_scope candidate)) ''REPAIR_AUTHORIZATION_CANDIDATE_SCOPE_DRIFT''
     @ unless_holds (ra_release_oid a = release \<and> ra_process_oid a = process) ''REPAIR_AUTHORIZATION_OID_DRIFT''"

definition predecessor_conflicts :: "work_env \<Rightarrow> repair_authorization \<Rightarrow> work \<Rightarrow> exec_unit \<Rightarrow> work \<Rightarrow> string list" where
  "predecessor_conflicts E a candidate u w =
     unless_holds (w_project w = w_project candidate) ''REPAIR_PREDECESSOR_PROJECT_MISMATCH''
     @ unless_holds (w_status w = ''blocked'') ''REPAIR_PREDECESSOR_STATUS_DRIFT''
     @ unless_holds (scope_digest E (w_scope w) = ra_predecessor_scope a) ''REPAIR_PREDECESSOR_SCOPE_DRIFT''
     @ (case w_unit w of
          None \<Rightarrow> [''REPAIR_PREDECESSOR_EXECUTION_UNIT_MISSING'']
        | Some v \<Rightarrow> unless_holds (eu_root v = eu_root u \<and> eu_slice v = eu_slice u \<and> eu_unit v = w_id w) ''REPAIR_PREDECESSOR_SLICE_MISMATCH'')"

definition blocker_conflicts :: "work_env \<Rightarrow> repair_authorization \<Rightarrow> string option \<Rightarrow> string list" where
  "blocker_conflicts E a file =
     (case file of
        None \<Rightarrow> [''REPAIR_PREDECESSOR_BLOCKER_INVALID'']
      | Some raw \<Rightarrow>
          unless_holds (r_sha (we_release E) raw = ra_blocker a) ''REPAIR_PREDECESSOR_BLOCKER_DRIFT''
          @ (case r_loads (we_release E) raw of
               Some (PDict d) \<Rightarrow>
                 unless_holds (py_eq (dget d ''schema_version'') (PInt 1) \<and> dget d ''kind'' = PStr ''WorkBlockerEvidenceV1''
                   \<and> dget d ''work_id'' = PStr (ra_predecessor a) \<and> dget d ''decision'' = PStr ''BLOCKED''
                   \<and> dget d ''blocker_id'' = PStr (ra_code a)) ''REPAIR_PREDECESSOR_BLOCKER_MISMATCH''
                 @ unless_holds (blocker_category_matches (ra_category a) (ra_code a) d) ''REPAIR_PREDECESSOR_BLOCKER_NOT_ELIGIBLE''
             | _ \<Rightarrow> [''REPAIR_PREDECESSOR_BLOCKER_INVALID'']))"

definition claim_conflicts :: "bool option \<Rightarrow> string list" where
  "claim_conflicts claim =
     (case claim of None \<Rightarrow> [''REPAIR_AUTHORIZATION_CLAIM_UNAVAILABLE''] | Some taken \<Rightarrow> unless_holds (\<not> taken) ''REPAIR_AUTHORIZATION_ALREADY_CONSUMED'')"

definition repair_blocked :: "string list \<Rightarrow> repair_evaluation" where
  "repair_blocked codes = \<lparr>rpe_decision = ''BLOCKED'', rpe_conflicts = sort (remdups codes), rpe_binding = None\<rparr>"

definition planned_binding :: "work_env \<Rightarrow> repair_authorization \<Rightarrow> work \<Rightarrow> exec_unit \<Rightarrow> work \<Rightarrow> exec_unit \<Rightarrow> string \<Rightarrow> string \<Rightarrow> repair_binding" where
  "planned_binding E a candidate u w v release process =
     \<lparr>rb_authorization = ra_id a, rb_authorization_digest = dict_digest E (repair_authorization_as_dict a), rb_project = w_project candidate,
      rb_candidate = w_id candidate, rb_candidate_unit = unit_digest E u, rb_candidate_scope = scope_digest E (w_scope candidate),
      rb_predecessor = w_id w, rb_predecessor_unit = unit_digest E v, rb_predecessor_scope = scope_digest E (w_scope w),
      rb_category = ra_category a, rb_code = ra_code a, rb_blocker = ra_blocker a, rb_fingerprint = ra_fingerprint a,
      rb_root = eu_root u, rb_slice = eu_slice u, rb_release_oid = release, rb_process_oid = process, rb_expires = ra_expires a\<rparr>"

fun work_error_caught :: "exc \<Rightarrow> bool" where
  "work_error_caught (ValueError _) = True"
| "work_error_caught (OSError _) = True"
| "work_error_caught _ = False"

definition evaluate_repair ::
    "work_env \<Rightarrow> repair_reads \<Rightarrow> repair_authorization \<Rightarrow> work \<Rightarrow> exec_unit \<Rightarrow> string \<Rightarrow> string \<Rightarrow> int \<Rightarrow> repair_evaluation result" where
  "evaluate_repair E R a candidate u release process now =
     (let before = authorization_conflicts E a candidate u release process now;
          after = blocker_conflicts E a (rr_blocker R (ra_ref a))
            @ unless_holds (ra_fingerprint a = blocker_fingerprint E a) ''REPAIR_PREDECESSOR_BLOCKER_FINGERPRINT_DRIFT''
            @ claim_conflicts (rr_claim R (ra_id a)) in
      case rr_work R (ra_predecessor a) of
        Inl x \<Rightarrow> if work_error_caught x then Inr (repair_blocked (before @ ''REPAIR_PREDECESSOR_UNAVAILABLE'' # after)) else Inl x
      | Inr w \<Rightarrow>
          let codes = before @ predecessor_conflicts E a candidate u w @ after in
          (case w_unit w of
             None \<Rightarrow> Inr (repair_blocked codes)
           | Some v \<Rightarrow>
               if codes \<noteq> [] then Inr (repair_blocked codes)
               else let_ok (mk_repair_binding E (repair_binding_as_dict (planned_binding E a candidate u w v release process))) (\<lambda>b.
                 Inr \<lparr>rpe_decision = ''READY'', rpe_conflicts = [], rpe_binding = Some b\<rparr>)))"

definition plan_repair_admission_binding ::
    "work_env \<Rightarrow> repair_reads \<Rightarrow> work \<Rightarrow> string \<Rightarrow> string \<Rightarrow> pyval option option \<Rightarrow> int \<Rightarrow> repair_evaluation result" where
  "plan_repair_admission_binding E R candidate release process authorization now =
     (case w_unit candidate of
        Some u \<Rightarrow>
          if eu_role u = ''repair'' then
            (case authorization of
               None \<Rightarrow> Inr (repair_blocked [''REPAIR_AUTHORIZATION_REQUIRED''])
             | Some file \<Rightarrow>
                 (case load_repair_authorization E file of
                    Inl x \<Rightarrow> if work_error_caught x then Inr (repair_blocked [''REPAIR_AUTHORIZATION_INVALID'']) else Inl x
                  | Inr a \<Rightarrow> evaluate_repair E R a candidate u release process now))
          else if authorization = None then Inr \<lparr>rpe_decision = ''NOT_APPLICABLE'', rpe_conflicts = [], rpe_binding = None\<rparr>
          else Inr (repair_blocked [''REPAIR_AUTHORIZATION_ROLE_MISMATCH''])
      | None \<Rightarrow>
          if authorization = None then Inr \<lparr>rpe_decision = ''NOT_APPLICABLE'', rpe_conflicts = [], rpe_binding = None\<rparr>
          else Inr (repair_blocked [''REPAIR_AUTHORIZATION_ROLE_MISMATCH'']))"

text \<open>The bindings of the repair units of an inventory, read from the place each unit owns.\<close>

definition repair_binding_ref :: "string \<Rightarrow> string result" where
  "repair_binding_ref i = let_ok (repair_id ''candidate_work_id'' (PStr i)) (\<lambda>j. Inr (''works/'' @ j @ ''/REPAIR-ADMISSION.json''))"

definition existing_binding :: "work_env \<Rightarrow> (string \<Rightarrow> pyval option) \<Rightarrow> exec_unit \<Rightarrow> repair_binding result" where
  "existing_binding E files u =
     let_ok (repair_binding_ref (eu_unit u)) (\<lambda>ref.
     (case files ref of
        None \<Rightarrow> Inl (ValueError ''repair binding claim is unavailable'')
      | Some v \<Rightarrow>
          let_ok (guard (is_dict v) ''repair binding payload is missing'') (\<lambda>_.
          let_ok (repair_binding_from_mapping E v) (\<lambda>b.
          let_ok (guard (rb_candidate b = eu_unit u \<and> rb_candidate_unit b = unit_digest E u) ''repair binding claim drifted'') (\<lambda>_. Inr b)))))"

fun read_bindings :: "work_env \<Rightarrow> (string \<Rightarrow> pyval option) \<Rightarrow> exec_unit list \<Rightarrow> (string list \<times> repair_binding list) result" where
  "read_bindings E files [] = Inr ([], [])"
| "read_bindings E files (u # us) =
     (if eu_role u \<noteq> ''repair'' then read_bindings E files us
      else case existing_binding E files u of
        Inl x \<Rightarrow> if work_error_caught x
          then let_ok (read_bindings E files us) (\<lambda>(codes, bs). Inr (''REPAIR_INVENTORY_AUTHORIZATION_INVALID'' # codes, bs)) else Inl x
      | Inr b \<Rightarrow> let_ok (read_bindings E files us) (\<lambda>(codes, bs). Inr (codes, b # bs)))"

definition load_existing_repair_bindings ::
    "work_env \<Rightarrow> (string \<Rightarrow> pyval option) \<Rightarrow> exec_unit list \<Rightarrow> (string list \<times> repair_binding list) result" where
  "load_existing_repair_bindings E files us =
     let_ok (read_bindings E files us) (\<lambda>(codes, bs).
     Inr (sort (remdups (codes @ unless_holds (distinct (map rb_candidate bs)) ''REPAIR_INVENTORY_AUTHORIZATION_DUPLICATE'')),
       sort_key rb_candidate bs))"

section \<open>The audit of the budget\<close>

record budget_receipt =
  br_decision :: string
  br_conflicts :: "string list"
  br_roles :: "(string \<times> int) list"
  br_writers :: int
  br_children :: int
  br_policy :: string
  br_scope :: string
  br_inventory :: string
  br_evaluator :: string
  br_source :: string
  br_profile :: string
  br_command :: string
  br_result :: string

definition roles_value :: "(string \<times> int) list \<Rightarrow> pyval" where
  "roles_value roles = PDict (sort_key fst (map (\<lambda>(role, n). (role, PInt n)) roles))"

definition budget_result_digest :: "work_env \<Rightarrow> string \<Rightarrow> string list \<Rightarrow> (string \<times> int) list \<Rightarrow> int \<Rightarrow> int \<Rightarrow> string" where
  "budget_result_digest E decision conflicts roles writers children = dict_digest E
     [(''decision'', PStr decision), (''conflicts'', PList (map PStr conflicts)), (''role_counts'', roles_value roles),
      (''concurrent_writer_count'', PInt writers), (''child_work_count'', PInt children), (''domain_mutation_count'', PInt 0),
      (''coordination_mutation_count'', PInt 0)]"

definition check_budget_receipt :: "work_env \<Rightarrow> budget_receipt \<Rightarrow> unit result" where
  "check_budget_receipt E r =
     let_ok (guard (sort (remdups (filter reason_re (br_conflicts r))) = br_conflicts r) ''self-budget conflicts must be unique sorted safe codes'') (\<lambda>_.
     let_ok (guard (distinct (map fst (br_roles r)) \<and> set (map fst (br_roles r)) = set container_roles)
       ''self-budget role_counts must contain exact canonical roles'') (\<lambda>_.
     let_ok (guard (list_all (\<lambda>(_, n). 0 \<le> n) (br_roles r) \<and> 0 \<le> br_writers r \<and> 0 \<le> br_children r)
       ''count must be a non-negative integer'') (\<lambda>_.
     let_ok (guard (br_decision r = (if br_conflicts r \<noteq> [] then ''BLOCKED'' else ''SELF_BUDGET_PASS''))
       ''self-budget decision conflicts with reason codes'') (\<lambda>_.
     let_ok (check_all (\<lambda>(fld, s). let_ok (sha256_field fld (PStr s)) (\<lambda>_. Inr ()))
       [(''policy_digest'', br_policy r), (''scope_digest'', br_scope r), (''inventory_digest'', br_inventory r),
        (''evaluator_digest'', br_evaluator r), (''source_fingerprint'', br_source r), (''profile_fingerprint'', br_profile r),
        (''command_identity'', br_command r), (''result_digest'', br_result r)]) (\<lambda>_.
     let_ok (guard (br_policy r = dict_digest E (container_budget_as_dict policy_v1)) ''self-budget policy digest is not canonical policy-v1'') (\<lambda>_.
     let_ok (guard (br_evaluator r = evaluator_digest E) ''self-budget evaluator digest drifted'') (\<lambda>_.
     guard (br_result r = budget_result_digest E (br_decision r) (br_conflicts r) (br_roles r) (br_writers r) (br_children r))
       ''self-budget result digest mismatch'')))))))"

definition budget_receipt_payload :: "work_env \<Rightarrow> budget_receipt \<Rightarrow> pydict" where
  "budget_receipt_payload E r =
     [(''schema_version'', PInt 1), (''decision'', PStr (br_decision r)), (''conflicts'', PList (map PStr (br_conflicts r))),
      (''role_counts'', roles_value (br_roles r)), (''concurrent_writer_count'', PInt (br_writers r)),
      (''child_work_count'', PInt (br_children r)), (''policy_revision'', PInt 1), (''policy_digest'', PStr (br_policy r)),
      (''scope_digest'', PStr (br_scope r)), (''inventory_digest'', PStr (br_inventory r)), (''evaluator_identity'', PStr evaluator_identity),
      (''evaluator_digest'', PStr (br_evaluator r)), (''source_fingerprint'', PStr (br_source r)), (''profile_fingerprint'', PStr (br_profile r)),
      (''command_identity'', PStr (br_command r)), (''result_digest'', PStr (br_result r)), (''domain_mutation_count'', PInt 0),
      (''coordination_mutation_count'', PInt 0)]"

definition budget_receipt_as_dict :: "work_env \<Rightarrow> budget_receipt \<Rightarrow> pydict" where
  "budget_receipt_as_dict E r = budget_receipt_payload E r @ [(''receipt_digest'', PStr (dict_digest E (budget_receipt_payload E r)))]"

definition budget_receipt_fields :: "string list" where
  "budget_receipt_fields = [''schema_version'', ''decision'', ''conflicts'', ''role_counts'', ''concurrent_writer_count'',
     ''child_work_count'', ''policy_revision'', ''policy_digest'', ''scope_digest'', ''inventory_digest'', ''evaluator_identity'',
     ''evaluator_digest'', ''source_fingerprint'', ''profile_fingerprint'', ''command_identity'', ''result_digest'',
     ''domain_mutation_count'', ''coordination_mutation_count'', ''receipt_digest'']"

definition budget_receipt_from_mapping :: "work_env \<Rightarrow> pyval \<Rightarrow> budget_receipt result" where
  "budget_receipt_from_mapping E v =
     let_ok (closed_dict budget_receipt_fields ''self-budget receipt fields mismatch'' v) (\<lambda>d.
     let_ok (guard (py_eq (dget d ''schema_version'') (PInt 1) \<and> py_eq (dget d ''policy_revision'') (PInt 1))
       ''self-budget receipt revision mismatch'') (\<lambda>_.
     let_ok (guard (dget d ''evaluator_identity'' = PStr evaluator_identity) ''self-budget evaluator identity drifted'') (\<lambda>_.
     let_ok (guard (py_eq (dget d ''domain_mutation_count'') (PInt 0) \<and> py_eq (dget d ''coordination_mutation_count'') (PInt 0))
       ''self-budget receipt must be zero mutation'') (\<lambda>_.
     let_ok (str_values ''conflicts'' (dget d ''conflicts'')) (\<lambda>conflicts.
     (case dget d ''role_counts'' of
        PDict roles \<Rightarrow>
          let_ok (guard (dkeys roles = set container_roles) ''self-budget role_counts must contain exact canonical roles'') (\<lambda>_.
          let_ok (guard (sort (remdups (filter reason_re conflicts)) = conflicts) ''self-budget conflicts must be unique sorted safe codes'') (\<lambda>_.
          let_ok (count_value ''primary'' (dget roles ''primary'')) (\<lambda>primary.
          let_ok (count_value ''auxiliary'' (dget roles ''auxiliary'')) (\<lambda>auxiliary.
          let_ok (count_value ''repair'' (dget roles ''repair'')) (\<lambda>repair.
          let_ok (count_value ''concurrent_writer_count'' (dget d ''concurrent_writer_count'')) (\<lambda>writers.
          let_ok (count_value ''child_work_count'' (dget d ''child_work_count'')) (\<lambda>children.
          let r = \<lparr>br_decision = py_str (dget d ''decision''), br_conflicts = conflicts,
            br_roles = [(''primary'', primary), (''auxiliary'', auxiliary), (''repair'', repair)], br_writers = writers, br_children = children,
            br_policy = py_str (dget d ''policy_digest''), br_scope = py_str (dget d ''scope_digest''),
            br_inventory = py_str (dget d ''inventory_digest''), br_evaluator = py_str (dget d ''evaluator_digest''),
            br_source = py_str (dget d ''source_fingerprint''), br_profile = py_str (dget d ''profile_fingerprint''),
            br_command = py_str (dget d ''command_identity''), br_result = py_str (dget d ''result_digest'')\<rparr> in
          let_ok (check_budget_receipt E r) (\<lambda>_.
          let_ok (guard (dget d ''receipt_digest'' = PStr (dict_digest E (budget_receipt_payload E r))) ''self-budget receipt digest mismatch'') (\<lambda>_.
          Inr r)))))))))
      | _ \<Rightarrow> Inl (ValueError ''self-budget role_counts must be a mapping'')))))))"

definition audit_execution_budget ::
    "work_env \<Rightarrow> exec_unit list \<Rightarrow> admission_facts \<Rightarrow> int \<Rightarrow> int \<Rightarrow> string \<Rightarrow> string \<Rightarrow> string \<Rightarrow> budget_receipt result" where
  "audit_execution_budget E us facts writers children source profile command =
     let_ok (sha256_field ''source_fingerprint'' (PStr source)) (\<lambda>_.
     let_ok (sha256_field ''profile_fingerprint'' (PStr profile)) (\<lambda>_.
     let_ok (sha256_field ''command_identity'' (PStr command)) (\<lambda>_.
     let_ok (normalize_inventory us) (\<lambda>normalized.
     let_ok (inventory_digest E normalized) (\<lambda>digest.
     let_ok (evaluate_execution_budget normalized policy_v1 writers children []) (\<lambda>ev.
     let conflicts = sort (remdups (be_conflicts ev @ (if af_inventory facts \<noteq> digest then [''ADMISSION_PREIMAGE_DRIFT''] else [])));
         decision = (if conflicts \<noteq> [] then ''BLOCKED'' else ''SELF_BUDGET_PASS'');
         r = \<lparr>br_decision = decision, br_conflicts = conflicts, br_roles = be_roles ev, br_writers = writers, br_children = children,
           br_policy = dict_digest E (container_budget_as_dict policy_v1), br_scope = af_scope facts, br_inventory = digest,
           br_evaluator = evaluator_digest E, br_source = source, br_profile = profile, br_command = command,
           br_result = budget_result_digest E decision conflicts (be_roles ev) writers children\<rparr> in
     let_ok (check_budget_receipt E r) (\<lambda>_. Inr r)))))))"

section \<open>What the evaluator decides\<close>

lemma count_value_Inr [read_simps]: "count_value f v = Inr n \<longleftrightarrow> v = PInt n \<and> 0 \<le> n"
  by (cases v) (auto simp: count_value_def)

lemma normalize_Inr [read_simps]: "normalize_inventory us = Inr vs \<longleftrightarrow> distinct (map eu_unit us) \<and> vs = sort_key inventory_key us"
  by (auto simp: normalize_inventory_def read_simps)

lemma sort_inventory: "mset us = mset vs \<Longrightarrow> distinct (map eu_unit us) \<Longrightarrow> sort_key inventory_key us = sort_key inventory_key vs"
proof (rule sort_key_inj_key_eq)
  assume "distinct (map eu_unit us)"
  then have "inj_on eu_unit (set us)" by (simp add: distinct_map)
  then show "inj_on inventory_key (set us)" by (auto simp: inj_on_def inventory_key_def)
qed simp_all

lemma distinct_units_mset: "mset us = mset vs \<Longrightarrow> distinct (map eu_unit us) \<longleftrightarrow> distinct (map eu_unit vs)"
  by (rule mset_eq_imp_distinct_iff) simp

lemma normalize_mset:
  assumes "mset us = mset vs"
  shows "normalize_inventory us = normalize_inventory vs"
  using assms sort_inventory [of us vs] distinct_units_mset [of us vs] by (cases "distinct (map eu_unit us)") (simp_all add: normalize_inventory_def guard_def)

text \<open>The order of an inventory does not matter: the evaluation of a budget, the digest of an inventory and the audit give the
  same answer, or fail alike, for every two lists with the same units.\<close>

theorem admission_order_independent:
  assumes "mset us = mset vs"
  shows "evaluate_execution_budget us policy writers children authorized = evaluate_execution_budget vs policy writers children authorized
    \<and> inventory_digest E us = inventory_digest E vs
    \<and> audit_execution_budget E us facts writers children source profile command = audit_execution_budget E vs facts writers children source profile command"
  unfolding evaluate_execution_budget_def inventory_digest_def audit_execution_budget_def normalize_mset [OF assms] by blast

lemma role_in_mset: "mset us = mset vs \<Longrightarrow> role_in us s role = role_in vs s role"
  unfolding role_in_def by (simp flip: size_mset)

lemma role_total_mset: "mset us = mset vs \<Longrightarrow> role_total us role = role_total vs role"
  unfolding role_total_def by (simp flip: size_mset)

definition slice_fits :: "exec_unit list \<Rightarrow> container_budget \<Rightarrow> (string \<times> string) set \<Rightarrow> string \<times> string \<Rightarrow> bool" where
  "slice_fits us policy authorized s =
     (role_in us s ''primary'' \<le> min 1 (cb_primary policy) \<and> role_in us s ''auxiliary'' \<le> cb_auxiliary policy
      \<and> role_in us s ''repair'' \<le> cb_repair policy + (if s \<in> authorized then 1 else 0))"

definition slices_fit :: "exec_unit list \<Rightarrow> container_budget \<Rightarrow> (string \<times> string) set \<Rightarrow> bool" where
  "slices_fit us policy authorized = (\<forall>s \<in> slice_of ` set us. slice_fits us policy authorized s)"

lemma slice_conflicts_Nil: "slice_conflicts us policy authorized s = [] \<longleftrightarrow> slice_fits us policy (set authorized) s"
  by (auto simp: slice_conflicts_def slice_fits_def)

lemma slices_fit_mset: "mset us = mset vs \<Longrightarrow> slices_fit us policy A \<longleftrightarrow> slices_fit vs policy A"
  using role_in_mset [of us vs] by (auto simp: slices_fit_def slice_fits_def dest: mset_eq_setD)

lemma sort_Nil [simp]: "sort xs = [] \<longleftrightarrow> xs = []"
  by (metis length_0_conv length_sort)

lemma evaluate_Inr:
  assumes "evaluate_execution_budget us policy writers children authorized = Inr ev"
  shows "distinct (map eu_unit us)" "be_conflicts ev = sort (remdups (concat (map (slice_conflicts (sort_key inventory_key us) policy authorized)
        (map slice_of (sort_key inventory_key us)))
      @ (if 0 < children then [''CONTAINER_BUDGET_EXCEEDED''] else []) @ (if cb_writers policy < writers then [''CONCURRENT_WRITE_BUDGET_EXCEEDED''] else [])))"
    "be_decision ev = (if be_conflicts ev \<noteq> [] then ''BLOCKED'' else ''READY'')"
    "be_roles ev = map (\<lambda>role. (role, role_total (sort_key inventory_key us) role)) container_roles" "0 \<le> writers" "0 \<le> children"
  using assms unfolding evaluate_execution_budget_def read_simps Let_def by auto

lemma role_in_sorted [simp]: "role_in (sort_key f us) s role = role_in us s role" and role_total_sorted [simp]: "role_total (sort_key f us) role = role_total us role"
  by (rule role_in_mset, simp) (rule role_total_mset, simp)

lemma slice_conflicts_sorted [simp]: "slice_conflicts (sort_key f us) policy authorized = slice_conflicts us policy authorized"
  by (rule ext) (simp add: slice_conflicts_def)

lemma evaluate_conflicts:
  assumes "evaluate_execution_budget us policy writers children authorized = Inr ev"
  shows "be_conflicts ev = [] \<longleftrightarrow> slices_fit us policy (set authorized) \<and> children = 0 \<and> writers \<le> cb_writers policy"
    and "set (be_conflicts ev) \<subseteq> {''DUPLICATE_ACTIVE_SLICE_OWNER'', ''CONTAINER_BUDGET_EXCEEDED'', ''CONCURRENT_WRITE_BUDGET_EXCEEDED''}"
    and "be_roles ev = map (\<lambda>role. (role, role_total us role)) container_roles"
proof -
  note e = evaluate_Inr [OF assms]
  have "children = 0 \<longleftrightarrow> \<not> 0 < children" using e(6) by auto
  then show "be_conflicts ev = [] \<longleftrightarrow> slices_fit us policy (set authorized) \<and> children = 0 \<and> writers \<le> cb_writers policy"
    unfolding e(2) by (auto simp: slices_fit_def slice_conflicts_Nil)
  show "set (be_conflicts ev) \<subseteq> {''DUPLICATE_ACTIVE_SLICE_OWNER'', ''CONTAINER_BUDGET_EXCEEDED'', ''CONCURRENT_WRITE_BUDGET_EXCEEDED''}"
    unfolding e(2) by (auto simp: slice_conflicts_def split: if_splits)
  show "be_roles ev = map (\<lambda>role. (role, role_total us role)) container_roles" unfolding e(4) by simp
qed

section \<open>What is admitted\<close>

lemma find_field: "distinct (map f xs) \<Longrightarrow> find (\<lambda>x. f x = k) xs = Some x \<longleftrightarrow> x \<in> set xs \<and> f x = k"
  by (induction xs) auto

lemma binding_of_Some: "distinct (map rb_candidate bs) \<Longrightarrow> binding_of bs i = Some b \<longleftrightarrow> b \<in> set bs \<and> rb_candidate b = i"
  using find_field [of rb_candidate "rev bs"] by (simp add: binding_of_def rev_map [symmetric])

lemma binding_of_None: "binding_of bs i = None \<longleftrightarrow> i \<notin> rb_candidate ` set bs"
  by (auto simp: binding_of_def find_None_iff)

definition binding_for :: "work_env \<Rightarrow> exec_unit \<Rightarrow> repair_binding \<Rightarrow> bool" where
  "binding_for E u b = (rb_candidate b = eu_unit u \<and> rb_candidate_unit b = unit_digest E u \<and> rb_root b = eu_root u \<and> rb_slice b = eu_slice u)"

lemma inventory_conflicts_Nil:
  assumes "distinct (map rb_candidate bs)"
  shows "inventory_conflicts E bs u = [] \<longleftrightarrow> (if eu_role u = ''repair'' then \<exists>b \<in> set bs. binding_for E u b else eu_unit u \<notin> rb_candidate ` set bs)"
proof (cases "binding_of bs (eu_unit u)")
  case None
  then have none: "eu_unit u \<notin> rb_candidate ` set bs" using binding_of_None [of bs "eu_unit u"] by simp
  then have "\<not> (\<exists>b \<in> set bs. binding_for E u b)" unfolding binding_for_def by (metis image_eqI)
  then show ?thesis using none None by (simp add: inventory_conflicts_def)
next
  case (Some b)
  then have b: "b \<in> set bs" "rb_candidate b = eu_unit u" using binding_of_Some [OF assms] by blast+
  have "c = b" if "c \<in> set bs" "rb_candidate c = eu_unit u" for c using that binding_of_Some [OF assms, of "eu_unit u" c] Some by simp
  then have "(\<exists>c \<in> set bs. binding_for E u c) \<longleftrightarrow> binding_for E u b" using b unfolding binding_for_def by blast
  moreover have "eu_unit u \<in> rb_candidate ` set bs" using b by (metis image_eqI)
  ultimately show ?thesis using b Some by (auto simp: inventory_conflicts_def binding_for_def)
qed

text \<open>The bindings of an inventory: each repair unit has one of its own, the other units have none, and none is left over.\<close>

definition active_bindings_match :: "work_env \<Rightarrow> exec_unit list \<Rightarrow> repair_binding list \<Rightarrow> bool" where
  "active_bindings_match E us bs =
     (distinct (map rb_candidate bs) \<and> rb_candidate ` set bs \<subseteq> eu_unit ` set us
      \<and> (\<forall>u \<in> set us. if eu_role u = ''repair'' then \<exists>b \<in> set bs. binding_for E u b else eu_unit u \<notin> rb_candidate ` set bs))"

definition repair_admitted :: "work_env \<Rightarrow> exec_unit \<Rightarrow> exec_unit list \<Rightarrow> repair_binding option \<Rightarrow> bool" where
  "repair_admitted E candidate us binding =
     (if eu_role candidate = ''repair''
      then \<exists>b v. binding = Some b \<and> binding_for E candidate b \<and> v \<in> set us \<and> eu_unit v = rb_predecessor b \<and> unit_digest E v = rb_predecessor_unit b
      else binding = None)"

lemma filter_unit: "distinct (map eu_unit us) \<Longrightarrow> filter (\<lambda>u. eu_unit u = i) us = (case find (\<lambda>u. eu_unit u = i) us of None \<Rightarrow> [] | Some u \<Rightarrow> [u])"
proof (induction us)
  case (Cons u us)
  have "filter (\<lambda>w. eu_unit w = eu_unit u) us = []" using Cons.prems by (auto simp: filter_empty_conv) (metis image_eqI)
  then show ?case using Cons by (auto split: option.splits)
qed simp

lemma candidate_conflicts_Nil:
  assumes "distinct (map eu_unit us)"
  shows "candidate_conflicts E candidate us b = [] \<longleftrightarrow> binding_for E candidate b
    \<and> (\<exists>v \<in> set us. eu_unit v = rb_predecessor b \<and> unit_digest E v = rb_predecessor_unit b)"
proof (cases "find (\<lambda>u. eu_unit u = rb_predecessor b) us")
  case None
  then have "\<not> (\<exists>v \<in> set us. eu_unit v = rb_predecessor b \<and> unit_digest E v = rb_predecessor_unit b)" by (auto simp: find_None_iff)
  then show ?thesis using filter_unit [OF assms] None by (simp add: candidate_conflicts_def)
next
  case (Some v)
  then have v: "v \<in> set us" "eu_unit v = rb_predecessor b" using find_field [OF assms] by blast+
  have "w = v" if "w \<in> set us" "eu_unit w = rb_predecessor b" for w using that find_field [OF assms, of "rb_predecessor b" w] Some by simp
  then have "(\<exists>w \<in> set us. eu_unit w = rb_predecessor b \<and> unit_digest E w = rb_predecessor_unit b) \<longleftrightarrow> unit_digest E v = rb_predecessor_unit b"
    using v by blast
  then show ?thesis using filter_unit [OF assms] Some by (auto simp: candidate_conflicts_def binding_for_def)
qed

lemma repair_conflicts_Nil:
  assumes "distinct (map eu_unit us)"
  shows "repair_binding_conflicts E candidate us binding bs = [] \<longleftrightarrow> repair_admitted E candidate us binding \<and> active_bindings_match E us bs"
proof -
  let ?known = "(if distinct (map rb_candidate bs) then [] else [''REPAIR_INVENTORY_AUTHORIZATION_DUPLICATE''])
            @ concat (map (inventory_conflicts E bs) us)
            @ (if set (map rb_candidate bs) \<subseteq> set (map eu_unit us) then [] else [''REPAIR_INVENTORY_AUTHORIZATION_ORPHANED''])"
  have known: "?known = [] \<longleftrightarrow> active_bindings_match E us bs"
    using inventory_conflicts_Nil [of bs E] by (auto simp: active_bindings_match_def)
  define known where "known = ?known"
  have unfolded: "repair_binding_conflicts E candidate us binding bs =
     (if eu_role candidate \<noteq> ''repair'' then sort (remdups (known @ (if binding \<noteq> None then [''REPAIR_AUTHORIZATION_ROLE_MISMATCH''] else [])))
      else case binding of None \<Rightarrow> [''REPAIR_AUTHORIZATION_REQUIRED'']
      | Some b \<Rightarrow> sort (remdups (known @ candidate_conflicts E candidate us b)))"
    unfolding repair_binding_conflicts_def known_def Let_def by (rule refl)
  note known = known [folded known_def]
  show ?thesis
  proof (cases "eu_role candidate = ''repair''")
    case True
    then show ?thesis unfolding unfolded using known candidate_conflicts_Nil [OF assms, of E candidate]
      by (cases binding) (auto simp: repair_admitted_def)
  next
    case False
    then show ?thesis unfolding unfolded using known by (cases binding) (auto simp: repair_admitted_def)
  qed
qed

lemma inventory_sorted [simp]: "active_bindings_match E (sort_key f us) bs = active_bindings_match E us bs" "repair_admitted E c (sort_key f us) b = repair_admitted E c us b"
  by (simp_all add: active_bindings_match_def repair_admitted_def)

lemma active_bindings_match_set: "mset bs = mset bs' \<Longrightarrow> active_bindings_match E us bs \<longleftrightarrow> active_bindings_match E us bs'"
  using mset_eq_imp_distinct_iff [of "map rb_candidate bs" "map rb_candidate bs'"] mset_eq_setD [of bs bs'] by (simp add: active_bindings_match_def)

text \<open>A unit of a first revision, or one that supersedes exactly one terminal unit of its slice of a lower revision.\<close>

definition supersedes_terminal :: "exec_unit \<Rightarrow> exec_unit list \<Rightarrow> bool" where
  "supersedes_terminal candidate terminal =
     (eu_revision candidate = 1 \<or> (\<exists>!u. u \<in> set terminal \<and> eu_supersedes candidate = PStr (eu_unit u) \<and> eu_root u = eu_root candidate
        \<and> eu_slice u = eu_slice candidate \<and> eu_revision u < eu_revision candidate))"

lemma one_of_distinct: "distinct xs \<Longrightarrow> length (filter P xs) = 1 \<longleftrightarrow> (\<exists>!x. x \<in> set xs \<and> P x)"
proof -
  assume "distinct xs"
  then have "length (filter P xs) = card {x \<in> set xs. P x}" by (simp add: distinct_length_filter Int_def conj_commute)
  then have "length (filter P xs) = 1 \<longleftrightarrow> (\<exists>x. \<forall>y. (y \<in> set xs \<and> P y) = (y = x))"
    using card_1_singleton_iff [of "{x \<in> set xs. P x}"] by (simp add: set_eq_iff)
  then show ?thesis unfolding Ex1_def by blast
qed

lemma supersession_Nil:
  assumes "distinct (map eu_unit terminal)"
  shows "supersession_conflicts candidate (sort_key f terminal) = [] \<longleftrightarrow> supersedes_terminal candidate terminal"
proof -
  have "superseded_by candidate u \<longleftrightarrow> eu_supersedes candidate = PStr (eu_unit u) \<and> eu_root u = eu_root candidate
      \<and> eu_slice u = eu_slice candidate \<and> eu_revision u < eu_revision candidate" for u by (auto simp: superseded_by_def)
  then show ?thesis using one_of_distinct [of "sort_key f terminal" "superseded_by candidate"] assms
    by (auto simp: supersession_conflicts_def supersedes_terminal_def distinct_map)
qed

text \<open>The slices in which one more repair is allowed: those of the bindings and of the candidate.\<close>

definition repair_slices :: "exec_unit \<Rightarrow> repair_binding list \<Rightarrow> (string \<times> string) set" where
  "repair_slices candidate bs = (\<lambda>b. (rb_root b, rb_slice b)) ` set bs \<union> (if eu_role candidate = ''repair'' then {slice_of candidate} else {})"

definition admissible :: "work_env \<Rightarrow> exec_unit \<Rightarrow> exec_unit list \<Rightarrow> container_budget \<Rightarrow> admission_facts \<Rightarrow> exec_unit list \<Rightarrow> int
    \<Rightarrow> repair_binding option \<Rightarrow> repair_binding list \<Rightarrow> bool" where
  "admissible E candidate us policy facts terminal writers binding bs =
     (supersedes_terminal candidate terminal \<and> active_bindings_match E us bs \<and> repair_admitted E candidate us binding
      \<and> inventory_digest E us = Inr (af_inventory facts) \<and> slices_fit (us @ [candidate]) policy (repair_slices candidate bs)
      \<and> writers + 1 \<le> cb_writers policy)"

lemma authorized_slices_set:
  assumes "repair_admitted E candidate us binding"
  shows "set (authorized_slices candidate binding bs []) = repair_slices candidate bs"
  using assms by (auto simp: authorized_slices_def repair_slices_def repair_admitted_def split: if_splits)

lemma plan_admission_Inr:
  assumes "plan_admission E candidate us policy facts terminal writers binding bs = Inr p"
  obtains digest ev where "distinct (map eu_unit (us @ [candidate]))" "distinct (map eu_unit terminal)" "inventory_digest E us = Inr digest"
    "evaluate_execution_budget (sort_key inventory_key us @ [candidate]) policy (writers + 1) 0
       (authorized_slices candidate binding (sort_key rb_candidate bs)
         (repair_binding_conflicts E candidate (sort_key inventory_key us) binding (sort_key rb_candidate bs))) = Inr ev"
    "ad_conflicts p = sort (remdups (supersession_conflicts candidate (sort_key inventory_key terminal)
        @ repair_binding_conflicts E candidate (sort_key inventory_key us) binding (sort_key rb_candidate bs)
        @ (if digest \<noteq> af_inventory facts then [''ADMISSION_PREIMAGE_DRIFT''] else []) @ be_conflicts ev))"
    "ad_decision p = (if ad_conflicts p \<noteq> [] then ''BLOCKED'' else ''READY'')"
proof -
  let ?repair = "repair_binding_conflicts E candidate (sort_key inventory_key us) binding (sort_key rb_candidate bs)"
  obtain digest ev where d: "distinct (map eu_unit us)" "distinct (map eu_unit terminal)" "inventory_digest E (sort_key inventory_key us) = Inr digest"
    and ev: "evaluate_execution_budget (sort_key inventory_key us @ [candidate]) policy (writers + 1) 0
       (authorized_slices candidate binding (sort_key rb_candidate bs) ?repair) = Inr ev"
    and p: "ad_conflicts p = sort (remdups (supersession_conflicts candidate (sort_key inventory_key terminal) @ ?repair
        @ (if digest \<noteq> af_inventory facts then [''ADMISSION_PREIMAGE_DRIFT''] else []) @ be_conflicts ev))"
      "ad_decision p = (if ad_conflicts p \<noteq> [] then ''BLOCKED'' else ''READY'')"
    using assms unfolding plan_admission_def read_simps Let_def by auto
  have "inventory_digest E us = Inr digest" using d(3) normalize_mset [of "sort_key inventory_key us" us] by (simp add: inventory_digest_def)
  moreover have "distinct (map eu_unit (us @ [candidate]))"
    using evaluate_Inr(1) [OF ev] mset_eq_imp_distinct_iff [of "map eu_unit (sort_key inventory_key us @ [candidate])" "map eu_unit (us @ [candidate])"] by simp
  ultimately show thesis using that d(2) ev p by blast
qed

lemma plan_admission_ready:
  assumes "plan_admission E candidate us policy facts terminal writers binding bs = Inr p"
  shows "(ad_decision p = ''READY'' \<longleftrightarrow> admissible E candidate us policy facts terminal writers binding bs)
    \<and> (ad_decision p = ''BLOCKED'' \<longleftrightarrow> ad_conflicts p \<noteq> []) \<and> eu_unit candidate \<notin> eu_unit ` set us"
proof -
  from plan_admission_Inr [OF assms] obtain digest ev where d: "distinct (map eu_unit (us @ [candidate]))" "distinct (map eu_unit terminal)"
    "inventory_digest E us = Inr digest" and ev: "evaluate_execution_budget (sort_key inventory_key us @ [candidate]) policy (writers + 1) 0
       (authorized_slices candidate binding (sort_key rb_candidate bs)
         (repair_binding_conflicts E candidate (sort_key inventory_key us) binding (sort_key rb_candidate bs))) = Inr ev"
    and c: "ad_conflicts p = sort (remdups (supersession_conflicts candidate (sort_key inventory_key terminal)
        @ repair_binding_conflicts E candidate (sort_key inventory_key us) binding (sort_key rb_candidate bs)
        @ (if digest \<noteq> af_inventory facts then [''ADMISSION_PREIMAGE_DRIFT''] else []) @ be_conflicts ev))"
    and p: "ad_decision p = (if ad_conflicts p \<noteq> [] then ''BLOCKED'' else ''READY'')" .
  have us: "distinct (map eu_unit (sort_key inventory_key us))" using d(1) mset_eq_imp_distinct_iff [of "map eu_unit (sort_key inventory_key us)" "map eu_unit us"] by simp
  have bs: "active_bindings_match E us (sort_key rb_candidate bs) = active_bindings_match E us bs" by (rule active_bindings_match_set) simp
  have repair: "repair_binding_conflicts E candidate (sort_key inventory_key us) binding (sort_key rb_candidate bs) = []
      \<longleftrightarrow> repair_admitted E candidate us binding \<and> active_bindings_match E us bs"
    using repair_conflicts_Nil [OF us, of E candidate binding] bs by simp
  have fits: "slices_fit (sort_key inventory_key us @ [candidate]) policy A = slices_fit (us @ [candidate]) policy A" for A
    by (rule slices_fit_mset) simp
  have slices: "repair_slices candidate (sort_key rb_candidate bs) = repair_slices candidate bs" by (simp add: repair_slices_def)
  have "ad_conflicts p = [] \<longleftrightarrow> admissible E candidate us policy facts terminal writers binding bs"
  proof (cases "repair_admitted E candidate us binding \<and> active_bindings_match E us bs")
    case True
    then have none: "repair_binding_conflicts E candidate (sort_key inventory_key us) binding (sort_key rb_candidate bs) = []" using repair by simp
    show ?thesis using True d(3) evaluate_conflicts(1) [OF ev] supersession_Nil [OF d(2)] authorized_slices_set [of E candidate us binding "sort_key rb_candidate bs"]
      unfolding c none by (simp add: admissible_def fits slices) auto
  next
    case False
    then show ?thesis using repair unfolding c by (auto simp: admissible_def)
  qed
  then show ?thesis using p d(1) by auto
qed

text \<open>Every conflict is a safe code, so a plan is always well-formed.\<close>

definition admission_codes :: "string list" where
  "admission_codes = [''SUPERSESSION_PREDECESSOR_NOT_TERMINAL'', ''REPAIR_INVENTORY_AUTHORIZATION_DUPLICATE'',
     ''REPAIR_INVENTORY_AUTHORIZATION_REQUIRED'', ''REPAIR_INVENTORY_AUTHORIZATION_ROLE_MISMATCH'', ''REPAIR_INVENTORY_AUTHORIZATION_DRIFT'',
     ''REPAIR_INVENTORY_AUTHORIZATION_ORPHANED'', ''REPAIR_AUTHORIZATION_ROLE_MISMATCH'', ''REPAIR_AUTHORIZATION_REQUIRED'',
     ''REPAIR_AUTHORIZATION_CANDIDATE_MISMATCH'', ''REPAIR_AUTHORIZATION_SLICE_MISMATCH'', ''REPAIR_PREDECESSOR_EXECUTION_UNIT_DRIFT'',
     ''REPAIR_PREDECESSOR_NOT_ACTIVE_OWNER'', ''ADMISSION_PREIMAGE_DRIFT'', ''DUPLICATE_ACTIVE_SLICE_OWNER'', ''CONTAINER_BUDGET_EXCEEDED'',
     ''CONCURRENT_WRITE_BUDGET_EXCEEDED'']"

lemma admission_codes_safe: "list_all reason_re admission_codes"
  by code_simp

lemma candidate_conflicts_codes: "set (candidate_conflicts E candidate us b) \<subseteq> set admission_codes"
  by (auto simp: candidate_conflicts_def admission_codes_def split: list.splits if_splits)

lemma inventory_conflicts_codes: "set (inventory_conflicts E bs u) \<subseteq> set admission_codes"
  by (auto simp: inventory_conflicts_def admission_codes_def split: option.splits if_splits)

lemma repair_conflicts_codes: "set (repair_binding_conflicts E candidate us binding bs) \<subseteq> set admission_codes"
proof -
  have k: "x \<in> set admission_codes" if "x \<in> {''REPAIR_INVENTORY_AUTHORIZATION_DUPLICATE'', ''REPAIR_INVENTORY_AUTHORIZATION_ORPHANED'',
      ''REPAIR_AUTHORIZATION_ROLE_MISMATCH'', ''REPAIR_AUTHORIZATION_REQUIRED''}" for x using that by (auto simp: admission_codes_def)
  show ?thesis unfolding repair_binding_conflicts_def Let_def
    using inventory_conflicts_codes [of E bs] candidate_conflicts_codes [of E candidate us] k
    by (cases binding) (auto dest!: subsetD split: if_splits)
qed

lemma supersession_codes: "set (supersession_conflicts candidate ps) \<subseteq> set admission_codes"
  by (simp add: supersession_conflicts_def admission_codes_def)

lemma check_admission_ready:
  assumes "digest_re (ad_facts p)" and "digest_re (ad_scope p)" and "digest_re (ad_candidate p)" and "set (ad_conflicts p) \<subseteq> set admission_codes"
    and "distinct (ad_conflicts p)" and "ad_decision p = (if ad_conflicts p \<noteq> [] then ''BLOCKED'' else ''READY'')"
  shows "check_admission p = Inr ()"
proof -
  have "check_all (\<lambda>c. let_ok (safe_code ''conflicts'' (PStr c)) (\<lambda>_. Inr ())) (ad_conflicts p) = Inr ()"
    using assms(4) admission_codes_safe by (auto simp: check_all_Inr safe_code_def checked_str_def list_all_iff)
  then show ?thesis using assms(1-3,5,6) by (auto simp: check_admission_def sha256_field_def checked_str_def)
qed

lemma plan_admission_total:
  assumes env: "release_env_ok (we_release E)" and scope: "digest_re (af_scope facts)"
    and names: "eu_root candidate \<noteq> []" "eu_slice candidate \<noteq> []" "\<forall>b \<in> set bs. rb_root b \<noteq> [] \<and> rb_slice b \<noteq> []"
    and ids: "distinct (map eu_unit (us @ [candidate]))" "distinct (map eu_unit terminal)" "-1 \<le> writers"
  shows "\<exists>p. plan_admission E candidate us policy facts terminal writers binding bs = Inr p"
proof -
  let ?us = "sort_key inventory_key us" and ?bs = "sort_key rb_candidate bs"
  let ?repair = "repair_binding_conflicts E candidate ?us binding ?bs"
  have us: "normalize_inventory us = Inr ?us" and ts: "normalize_inventory terminal = Inr (sort_key inventory_key terminal)"
    using ids by (simp_all add: normalize_inventory_def)
  have "distinct (map eu_unit ?us)" using ids(1) mset_eq_imp_distinct_iff [of "map eu_unit ?us" "map eu_unit us"] by simp
  then obtain digest where digest: "inventory_digest E ?us = Inr digest" by (simp add: inventory_digest_def normalize_inventory_def)
  have cand: "distinct (map eu_unit (?us @ [candidate]))"
    using ids(1) mset_eq_imp_distinct_iff [of "map eu_unit (?us @ [candidate])" "map eu_unit (us @ [candidate])"] by simp
  have "list_all (\<lambda>(r, s). r \<noteq> [] \<and> s \<noteq> []) (authorized_slices candidate binding ?bs ?repair) \<and> distinct (authorized_slices candidate binding ?bs ?repair)"
    using names by (auto simp: authorized_slices_def list_all_iff slice_of_def)
  then obtain ev where ev: "evaluate_execution_budget (?us @ [candidate]) policy (writers + 1) 0 (authorized_slices candidate binding ?bs ?repair) = Inr ev"
    using cand ids(3) by (simp add: evaluate_execution_budget_def normalize_inventory_def Let_def)
  have sha: "digest_re (dict_digest E d)" for d using env by (simp add: dict_digest_def canonical_digest_def release_env_ok_def)
  define conflicts where "conflicts = sort (remdups (supersession_conflicts candidate (sort_key inventory_key terminal) @ ?repair
        @ (if digest \<noteq> af_inventory facts then [''ADMISSION_PREIMAGE_DRIFT''] else []) @ be_conflicts ev))"
  have "''ADMISSION_PREIMAGE_DRIFT'' \<in> set admission_codes" by (simp add: admission_codes_def)
  moreover have "set (be_conflicts ev) \<subseteq> set admission_codes"
    by (rule order_trans [OF evaluate_conflicts(2) [OF ev]]) (simp add: admission_codes_def)
  ultimately have codes: "set conflicts \<subseteq> set admission_codes" "distinct conflicts"
    using supersession_codes repair_conflicts_codes [of E candidate ?us binding ?bs] by (auto simp: conflicts_def)
  let ?p = "\<lparr>ad_decision = (if conflicts \<noteq> [] then ''BLOCKED'' else ''READY''), ad_facts = dict_digest E (admission_facts_as_dict facts),
           ad_scope = af_scope facts, ad_candidate = candidate_context_digest E candidate (sort_key inventory_key terminal) policy binding ?bs,
           ad_conflicts = conflicts, ad_coordination = (conflicts = [])\<rparr>"
  have "check_admission ?p = Inr ()"
    by (rule check_admission_ready) (use scope sha codes in \<open>simp_all add: candidate_context_digest_def\<close>)
  then have "plan_admission E candidate us policy facts terminal writers binding bs = Inr ?p"
    using us ts digest ev by (simp add: plan_admission_def Let_def conflicts_def)
  then show ?thesis by blast
qed

text \<open>C17: When a unit is admitted. On well-formed facts and names an exception is raised exactly when the active units with the
  candidate, or the terminal units, repeat an identifier, or the writer count is below minus one. Otherwise there is a plan, and it is
  READY exactly when the unit is of a first revision or supersedes one terminal unit of its slice, the bindings of the active repairs match
  them, a repair brings a binding of its own whose predecessor is active and unchanged and another unit brings none, the inventory is the one
  of the facts, every slice with the new unit fits the budget, with one more repair where a binding allows it, and the writers stay
  within the limit; any defect of these is a conflict of a BLOCKED plan.\<close>

theorem admission_ready_iff:
  assumes "release_env_ok (we_release E)" and "digest_re (af_scope facts)"
    and "eu_root candidate \<noteq> []" and "eu_slice candidate \<noteq> []" and "\<forall>b \<in> set bs. rb_root b \<noteq> [] \<and> rb_slice b \<noteq> []"
  shows "case plan_admission E candidate us policy facts terminal writers binding bs of
      Inl e \<Rightarrow> \<not> (distinct (map eu_unit (us @ [candidate])) \<and> distinct (map eu_unit terminal) \<and> -1 \<le> writers)
    | Inr p \<Rightarrow> distinct (map eu_unit (us @ [candidate])) \<and> distinct (map eu_unit terminal) \<and> -1 \<le> writers
        \<and> ad_decision p = (if admissible E candidate us policy facts terminal writers binding bs then ''READY'' else ''BLOCKED'')
        \<and> (ad_conflicts p = [] \<longleftrightarrow> admissible E candidate us policy facts terminal writers binding bs)"
proof (cases "plan_admission E candidate us policy facts terminal writers binding bs")
  case (Inl e)
  then show ?thesis using plan_admission_total [OF assms, of us terminal writers policy binding] by auto
next
  case (Inr p)
  note r = plan_admission_ready [OF Inr]
  have "distinct (map eu_unit (us @ [candidate])) \<and> distinct (map eu_unit terminal) \<and> -1 \<le> writers
      \<and> ad_decision p = (if ad_conflicts p \<noteq> [] then ''BLOCKED'' else ''READY'')"
    by (rule plan_admission_Inr [OF Inr]) (auto dest: evaluate_Inr(5))
  then show ?thesis using r Inr by (auto split: if_splits)
qed

section \<open>Histories of admissions\<close>

definition policy_ok :: "container_budget \<Rightarrow> bool" where
  "policy_ok b = (0 \<le> cb_primary b \<and> 0 \<le> cb_auxiliary b \<and> 0 \<le> cb_repair b \<and> 0 \<le> cb_writers b)"

lemma container_budget_ok: "container_budget_from_mapping v = Inr b \<Longrightarrow> policy_ok b" "policy_ok policy_v1"
  by (auto simp: container_budget_from_mapping_def read_simps policy_ok_def policy_v1_def)

text \<open>The active units with their repair bindings: units are admitted by a READY plan made against the inventory and its bindings,
  and retired.\<close>

inductive admission_history :: "work_env \<Rightarrow> container_budget \<Rightarrow> exec_unit list \<Rightarrow> repair_binding list \<Rightarrow> bool" for E policy where
  nothing_active: "admission_history E policy [] []"
| admit: "admission_history E policy us bs \<Longrightarrow> plan_admission E candidate us policy facts terminal writers binding bs = Inr p \<Longrightarrow> ad_decision p = ''READY'' \<Longrightarrow>
    admission_history E policy (us @ [candidate]) (bs @ (case binding of None \<Rightarrow> [] | Some b \<Rightarrow> [b]))"
| retire: "admission_history E policy us bs \<Longrightarrow> admission_history E policy (filter (\<lambda>u. eu_unit u \<noteq> i) us) (filter (\<lambda>b. rb_candidate b \<noteq> i) bs)"

definition slices_bounded :: "container_budget \<Rightarrow> exec_unit list \<Rightarrow> bool" where
  "slices_bounded policy us = (\<forall>s. role_in us s ''primary'' \<le> min 1 (cb_primary policy) \<and> role_in us s ''auxiliary'' \<le> cb_auxiliary policy
     \<and> role_in us s ''repair'' \<le> cb_repair policy + 1)"

lemma role_in_zero: "s \<notin> slice_of ` set us \<Longrightarrow> role_in us s role = 0"
  by (auto simp: role_in_def filter_empty_conv image_iff)

lemma slices_fit_bounded: "policy_ok policy \<Longrightarrow> slices_fit us policy A \<Longrightarrow> slices_bounded policy us"
  unfolding slices_bounded_def
proof (intro allI)
  fix s assume p: "policy_ok policy" "slices_fit us policy A"
  show "role_in us s ''primary'' \<le> min 1 (cb_primary policy) \<and> role_in us s ''auxiliary'' \<le> cb_auxiliary policy
     \<and> role_in us s ''repair'' \<le> cb_repair policy + 1"
  proof (cases "s \<in> slice_of ` set us")
    case True
    then show ?thesis using p(2) by (auto simp: slices_fit_def slice_fits_def split: if_splits)
  next
    case False
    then show ?thesis using p(1) by (simp add: role_in_zero policy_ok_def)
  qed
qed

lemma role_in_filter: "role_in (filter P us) s role \<le> role_in us s role"
  by (induction us) (auto simp: role_in_def)

lemma active_bindings_match_admit:
  assumes match: "active_bindings_match E us bs" and repair: "repair_admitted E c us b" and new: "eu_unit c \<notin> eu_unit ` set us"
  shows "active_bindings_match E (us @ [c]) (bs @ (case b of None \<Rightarrow> [] | Some x \<Rightarrow> [x]))"
proof -
  have fresh: "eu_unit c \<notin> rb_candidate ` set bs" using match new by (auto simp: active_bindings_match_def)
  show ?thesis
  proof (cases "eu_role c = ''repair''")
    case True
    then obtain x where x: "b = Some x" "binding_for E c x" using repair by (auto simp: repair_admitted_def)
    then have c: "rb_candidate x = eu_unit c" by (simp add: binding_for_def)
    have "eu_unit u \<noteq> eu_unit c" if "u \<in> set us" for u using new that by (metis image_eqI)
    then show ?thesis using match fresh x c True by (auto simp: active_bindings_match_def)
  next
    case False
    then show ?thesis using match fresh repair by (auto simp: active_bindings_match_def repair_admitted_def)
  qed
qed

lemma active_bindings_match_retire:
  assumes "active_bindings_match E us bs"
  shows "active_bindings_match E (filter (\<lambda>u. eu_unit u \<noteq> i) us) (filter (\<lambda>b. rb_candidate b \<noteq> i) bs)"
proof -
  have "distinct (map rb_candidate (filter (\<lambda>b. rb_candidate b \<noteq> i) bs))"
    using assms by (simp add: active_bindings_match_def distinct_map_filter)
  moreover have "rb_candidate ` {b \<in> set bs. rb_candidate b \<noteq> i} \<subseteq> eu_unit ` {u \<in> set us. eu_unit u \<noteq> i}"
    using assms by (auto simp: active_bindings_match_def image_iff subset_iff)
  moreover have r: "\<exists>b. b \<in> set bs \<and> rb_candidate b \<noteq> i \<and> binding_for E u b" if u: "u \<in> set us" "eu_unit u \<noteq> i" "eu_role u = ''repair''" for u
  proof -
    have "if eu_role u = ''repair'' then \<exists>b \<in> set bs. binding_for E u b else eu_unit u \<notin> rb_candidate ` set bs"
      using assms u(1) unfolding active_bindings_match_def by blast
    then obtain b where "b \<in> set bs" "binding_for E u b" using u(3) by auto
    then show ?thesis using u(2) by (intro exI [of _ b]) (auto simp: binding_for_def)
  qed
  moreover have "eu_unit u \<notin> rb_candidate ` {b \<in> set bs. rb_candidate b \<noteq> i}" if u: "u \<in> set us" "eu_role u \<noteq> ''repair''" for u
  proof -
    have "if eu_role u = ''repair'' then \<exists>b \<in> set bs. binding_for E u b else eu_unit u \<notin> rb_candidate ` set bs"
      using assms u(1) unfolding active_bindings_match_def by blast
    then show ?thesis using u(2) by auto
  qed
  ultimately show ?thesis unfolding active_bindings_match_def by (auto dest: r)
qed

text \<open>C30: What can be active at the same time. Along any history of admissions and retirements the identifiers of the active units are
  distinct, every slice has at most one primary unit, at most the auxiliary units of the policy, and at most one repair more than
  the policy allows; every active repair has a binding that names it with its digest and slice, and no other unit has one.\<close>

theorem admitted_within_budget:
  assumes "policy_ok policy" and "admission_history E policy us bs"
  shows "distinct (map eu_unit us) \<and> slices_bounded policy us \<and> active_bindings_match E us bs"
  using assms(2)
proof induction
  case nothing_active
  then show ?case using assms(1) by (simp add: slices_bounded_def role_in_def active_bindings_match_def policy_ok_def)
next
  case (admit us bs candidate facts terminal writers binding p)
  note r = plan_admission_ready [OF admit.hyps(2)]
  have a: "admissible E candidate us policy facts terminal writers binding bs" and new: "eu_unit candidate \<notin> eu_unit ` set us"
    using r admit.hyps(3) by blast+
  have "slices_bounded policy (us @ [candidate])" using a slices_fit_bounded [OF assms(1)] unfolding admissible_def by blast
  moreover have "active_bindings_match E (us @ [candidate]) (bs @ (case binding of None \<Rightarrow> [] | Some b \<Rightarrow> [b]))"
    using a new active_bindings_match_admit unfolding admissible_def by blast
  ultimately show ?case using admit.IH new by simp
next
  case (retire us bs i)
  then have "slices_bounded policy (filter (\<lambda>u. eu_unit u \<noteq> i) us)"
    unfolding slices_bounded_def by (meson order_trans role_in_filter)
  then show ?case using retire.IH active_bindings_match_retire by (simp add: distinct_map_filter)
qed

section \<open>What a repair needs\<close>

lemma repair_expiry_Inr [read_simps]: "repair_expiry E v = Inr s \<longleftrightarrow> v = PStr s \<and> (\<exists>t. r_iso (we_release E) (replace_z s) = Some (Aware t))"
  by (auto simp: repair_expiry_def split: pyval.splits option.splits instant.splits)

lemma mk_repair_binding_Inr: "mk_repair_binding E (repair_binding_as_dict b) = Inr c \<Longrightarrow> c = b"
  by (cases b) (auto simp: mk_repair_binding_def repair_binding_as_dict_def read_simps repair_id_def repair_sha_def repair_code_def repair_oid_def)

definition blocker_names :: "work_env \<Rightarrow> repair_authorization \<Rightarrow> string option \<Rightarrow> bool" where
  "blocker_names E a file = (\<exists>raw d. file = Some raw \<and> r_sha (we_release E) raw = ra_blocker a \<and> r_loads (we_release E) raw = Some (PDict d)
     \<and> dget d ''kind'' = PStr ''WorkBlockerEvidenceV1'' \<and> dget d ''work_id'' = PStr (ra_predecessor a)
     \<and> dget d ''decision'' = PStr ''BLOCKED'' \<and> dget d ''blocker_id'' = PStr (ra_code a)
     \<and> blocker_category_matches (ra_category a) (ra_code a) d)"

lemma unless_holds_Nil [simp]: "unless_holds b code = [] \<longleftrightarrow> b"
  by (simp add: unless_holds_def)

lemma blocker_conflicts_Nil: "blocker_conflicts E a file = [] \<Longrightarrow> blocker_names E a file"
  by (auto simp: blocker_conflicts_def blocker_names_def split: option.splits pyval.splits)

text \<open>The Work and unit a repair is authorised against.\<close>

definition repairs :: "work_env \<Rightarrow> repair_reads \<Rightarrow> repair_authorization \<Rightarrow> work \<Rightarrow> exec_unit \<Rightarrow> work \<Rightarrow> exec_unit \<Rightarrow> bool" where
  "repairs E R a candidate u w v =
     (rr_work R (ra_predecessor a) = Inr w \<and> w_unit w = Some v \<and> w_status w = ''blocked'' \<and> w_project w = w_project candidate
      \<and> scope_digest E (w_scope w) = ra_predecessor_scope a \<and> slice_of v = slice_of u \<and> eu_unit v = w_id w
      \<and> ra_candidate a = w_id candidate \<and> ra_candidate_scope a = scope_digest E (w_scope candidate)
      \<and> (ra_root a, ra_slice a) = slice_of u)"

lemma evaluate_repair_ready:
  assumes "evaluate_repair E R a candidate u release process now = Inr ev" and "rpe_decision ev = ''READY''"
  obtains w v where "repairs E R a candidate u w v" "rpe_binding ev = Some (planned_binding E a candidate u w v release process)"
    "now < instant_of E (ra_expires a)" "ra_release_oid a = release" "ra_process_oid a = process" "blocker_names E a (rr_blocker R (ra_ref a))"
    "rr_claim R (ra_id a) = Some False" "ra_fingerprint a = blocker_fingerprint E a" "ra_project a = w_project candidate"
proof -
  have ready: "rpe_decision (repair_blocked codes) \<noteq> ''READY''" for codes by (simp add: repair_blocked_def)
  obtain w where w: "rr_work R (ra_predecessor a) = Inr w"
    using assms ready by (cases "rr_work R (ra_predecessor a)") (auto simp: evaluate_repair_def Let_def split: if_splits)
  obtain v where v: "w_unit w = Some v" using assms ready by (cases "w_unit w") (auto simp: evaluate_repair_def Let_def w)
  let ?after = "blocker_conflicts E a (rr_blocker R (ra_ref a))
            @ unless_holds (ra_fingerprint a = blocker_fingerprint E a) ''REPAIR_PREDECESSOR_BLOCKER_FINGERPRINT_DRIFT''
            @ claim_conflicts (rr_claim R (ra_id a))"
  have none: "authorization_conflicts E a candidate u release process now = []" "predecessor_conflicts E a candidate u w = []" "?after = []"
    using assms ready by (auto simp: evaluate_repair_def Let_def w v split: if_splits)
  obtain b where b: "mk_repair_binding E (repair_binding_as_dict (planned_binding E a candidate u w v release process)) = Inr b"
    "rpe_binding ev = Some b"
    using assms none by (auto simp: evaluate_repair_def Let_def w v read_simps)
  have "rr_claim R (ra_id a) = Some False" using none(3) by (auto simp: claim_conflicts_def split: option.splits)
  moreover have "repairs E R a candidate u w v"
    using none(1,2) w v by (auto simp: repairs_def authorization_conflicts_def predecessor_conflicts_def slice_of_def)
  ultimately show thesis using that b(2) mk_repair_binding_Inr [OF b(1)] none blocker_conflicts_Nil by (auto simp: authorization_conflicts_def)
qed

lemma loaded_expiry:
  assumes "load_repair_authorization E f = Inr a"
  shows "\<exists>t. r_iso (we_release E) (replace_z (ra_expires a)) = Some (Aware t) \<and> instant_of E (ra_expires a) = t"
proof -
  obtain d where "repair_authorization_from_mapping E (PDict d) = Inr a"
    using assms by (cases "(E, f)" rule: load_repair_authorization.cases) simp_all
  then obtain d where "mk_repair_authorization E d = Inr a" unfolding repair_authorization_from_mapping_def let_ok_Inr by blast
  then show ?thesis by (auto simp: mk_repair_authorization_def read_simps instant_of_def)
qed

text \<open>C39: What a repair needs. A planned repair is READY only for a repair unit with a readable authorization whose instant of expiry is
  still to come and that is not claimed, names the project, the candidate, its scope and its slice and both commits, whose predecessor is a
  blocked Work of the same project and slice with the named scope and with blocker evidence that has the named digest and says what the
  authorization says, and whose fingerprint is the digest of the predecessor, its status and scope and the category, code and digest
  of the blocker. The binding it gives carries this authorization, blocker and fingerprint, and is then accepted by the admission of the unit
  while the predecessor is active and unchanged.\<close>

theorem repair_needs_authorization:
  assumes "plan_repair_admission_binding E R candidate release process authorization now = Inr ev" and "rpe_decision ev = ''READY''"
  shows "\<exists>a u w v b t. (\<exists>f. authorization = Some f \<and> load_repair_authorization E f = Inr a) \<and> w_unit candidate = Some u \<and> eu_role u = ''repair''
    \<and> repairs E R a candidate u w v \<and> ra_project a = w_project candidate
    \<and> r_iso (we_release E) (replace_z (ra_expires a)) = Some (Aware t) \<and> now < t \<and> ra_release_oid a = release \<and> ra_process_oid a = process
    \<and> blocker_names E a (rr_blocker R (ra_ref a)) \<and> rr_claim R (ra_id a) = Some False
    \<and> ra_fingerprint a = dict_digest E
        [(''predecessor_work_id'', PStr (ra_predecessor a)), (''predecessor_status'', PStr ''blocked''),
         (''predecessor_scope_digest'', PStr (ra_predecessor_scope a)), (''predecessor_blocker_category'', PStr (ra_category a)),
         (''predecessor_blocker_code'', PStr (ra_code a)), (''predecessor_blocker_digest'', PStr (ra_blocker a))]
    \<and> rpe_binding ev = Some b \<and> rb_authorization b = ra_id a \<and> rb_blocker b = ra_blocker a \<and> rb_fingerprint b = ra_fingerprint a
    \<and> (\<forall>us. v \<in> set us \<longrightarrow> eu_unit u = w_id candidate \<longrightarrow> repair_admitted E u us (Some b))"
proof -
  have blocked: "rpe_decision (repair_blocked codes) \<noteq> ''READY''" for codes by (simp add: repair_blocked_def)
  obtain u where u: "w_unit candidate = Some u" "eu_role u = ''repair''"
    using assms blocked by (cases "w_unit candidate") (auto simp: plan_repair_admission_binding_def split: if_splits)
  obtain f where f: "authorization = Some f" using assms blocked u by (cases authorization) (auto simp: plan_repair_admission_binding_def)
  obtain a where a: "load_repair_authorization E f = Inr a"
    using assms blocked u f by (cases "load_repair_authorization E f") (auto simp: plan_repair_admission_binding_def split: if_splits)
  have ev: "evaluate_repair E R a candidate u release process now = Inr ev" using assms(1) u f a by (simp add: plan_repair_admission_binding_def)
  obtain w v where w: "repairs E R a candidate u w v" "rpe_binding ev = Some (planned_binding E a candidate u w v release process)"
    "now < instant_of E (ra_expires a)" "ra_release_oid a = release" "ra_process_oid a = process" "blocker_names E a (rr_blocker R (ra_ref a))"
    "rr_claim R (ra_id a) = Some False" "ra_fingerprint a = blocker_fingerprint E a" "ra_project a = w_project candidate"
    by (rule evaluate_repair_ready [OF ev assms(2)])
  obtain t where t: "r_iso (we_release E) (replace_z (ra_expires a)) = Some (Aware t)" "instant_of E (ra_expires a) = t"
    using loaded_expiry [OF a] by blast
  let ?b = "planned_binding E a candidate u w v release process"
  have admitted: "repair_admitted E u us (Some ?b)" if "v \<in> set us" "eu_unit u = w_id candidate" for us
    using w(1) that u(2) by (auto simp: repair_admitted_def binding_for_def planned_binding_def repairs_def)
  have b: "rb_authorization ?b = ra_id a" "rb_blocker ?b = ra_blocker a" "rb_fingerprint ?b = ra_fingerprint a" by (simp_all add: planned_binding_def)
  have now: "now < t" using w(3) t(2) by simp
  show ?thesis using u f a w(1,2,4-7,9) w(8) [unfolded blocker_fingerprint_def] t(1) now admitted b by blast
qed

section \<open>The receipt of an audit\<close>

lemma audit_Inr:
  assumes "audit_execution_budget E us facts writers children source profile command = Inr r"
  obtains ev digest where "inventory_digest E us = Inr digest"
    "evaluate_execution_budget (sort_key inventory_key us) policy_v1 writers children [] = Inr ev"
    "br_roles r = be_roles ev" "br_writers r = writers" "br_children r = children" "br_inventory r = digest"
    "br_conflicts r = sort (remdups (be_conflicts ev @ (if af_inventory facts \<noteq> digest then [''ADMISSION_PREIMAGE_DRIFT''] else [])))"
    "br_decision r = (if br_conflicts r \<noteq> [] then ''BLOCKED'' else ''SELF_BUDGET_PASS'')" "check_budget_receipt E r = Inr ()"
proof -
  obtain ev digest where *: "distinct (map eu_unit us)" "inventory_digest E (sort_key inventory_key us) = Inr digest"
    "evaluate_execution_budget (sort_key inventory_key us) policy_v1 writers children [] = Inr ev"
    "br_roles r = be_roles ev" "br_writers r = writers" "br_children r = children" "br_inventory r = digest"
    "br_conflicts r = sort (remdups (be_conflicts ev @ (if af_inventory facts \<noteq> digest then [''ADMISSION_PREIMAGE_DRIFT''] else [])))"
    "br_decision r = (if br_conflicts r \<noteq> [] then ''BLOCKED'' else ''SELF_BUDGET_PASS'')" "check_budget_receipt E r = Inr ()"
    using assms unfolding audit_execution_budget_def read_simps Let_def by auto
  have "inventory_digest E us = Inr digest" using *(2) normalize_mset [of "sort_key inventory_key us" us] by (simp add: inventory_digest_def)
  then show thesis using that *(3-) by blast
qed

lemma roles_value_Inr: "roles_value [(''primary'', p), (''auxiliary'', a), (''repair'', r)] = PDict [(''auxiliary'', PInt a), (''primary'', PInt p), (''repair'', PInt r)]"
  unfolding roles_value_def by code_simp

lemma digest_checks: "check_all (\<lambda>(fld, s). let_ok (sha256_field fld (PStr s)) (\<lambda>_. Inr ())) xs = Inr u \<longleftrightarrow> list_all digest_re (map snd xs)"
  by (auto simp: check_all_Inr read_simps sha256_field_def list_all_iff)

lemma check_budget_receipt_Inr: "check_budget_receipt E r = Inr u \<longleftrightarrow>
    sort (remdups (filter reason_re (br_conflicts r))) = br_conflicts r \<and> distinct (map fst (br_roles r)) \<and> set (map fst (br_roles r)) = set container_roles
    \<and> list_all (\<lambda>(_, n). 0 \<le> n) (br_roles r) \<and> 0 \<le> br_writers r \<and> 0 \<le> br_children r
    \<and> br_decision r = (if br_conflicts r \<noteq> [] then ''BLOCKED'' else ''SELF_BUDGET_PASS'')
    \<and> list_all digest_re [br_policy r, br_scope r, br_inventory r, br_evaluator r, br_source r, br_profile r, br_command r, br_result r]
    \<and> br_policy r = dict_digest E (container_budget_as_dict policy_v1) \<and> br_evaluator r = evaluator_digest E
    \<and> br_result r = budget_result_digest E (br_decision r) (br_conflicts r) (br_roles r) (br_writers r) (br_children r)"
  unfolding check_budget_receipt_def read_simps digest_checks by simp

lemma budget_receipt_keys: "dkeys (budget_receipt_as_dict E r) = set budget_receipt_fields"
  by (auto simp: budget_receipt_as_dict_def budget_receipt_payload_def budget_receipt_fields_def)

lemma budget_receipt_gets:
  "dget (budget_receipt_as_dict E r) ''schema_version'' = PInt 1" "dget (budget_receipt_as_dict E r) ''policy_revision'' = PInt 1"
  "dget (budget_receipt_as_dict E r) ''evaluator_identity'' = PStr evaluator_identity"
  "dget (budget_receipt_as_dict E r) ''domain_mutation_count'' = PInt 0" "dget (budget_receipt_as_dict E r) ''coordination_mutation_count'' = PInt 0"
  "dget (budget_receipt_as_dict E r) ''conflicts'' = PList (map PStr (br_conflicts r))" "dget (budget_receipt_as_dict E r) ''role_counts'' = roles_value (br_roles r)"
  "dget (budget_receipt_as_dict E r) ''concurrent_writer_count'' = PInt (br_writers r)" "dget (budget_receipt_as_dict E r) ''child_work_count'' = PInt (br_children r)"
  "dget (budget_receipt_as_dict E r) ''decision'' = PStr (br_decision r)" "dget (budget_receipt_as_dict E r) ''policy_digest'' = PStr (br_policy r)"
  "dget (budget_receipt_as_dict E r) ''scope_digest'' = PStr (br_scope r)" "dget (budget_receipt_as_dict E r) ''inventory_digest'' = PStr (br_inventory r)"
  "dget (budget_receipt_as_dict E r) ''evaluator_digest'' = PStr (br_evaluator r)" "dget (budget_receipt_as_dict E r) ''source_fingerprint'' = PStr (br_source r)"
  "dget (budget_receipt_as_dict E r) ''profile_fingerprint'' = PStr (br_profile r)" "dget (budget_receipt_as_dict E r) ''command_identity'' = PStr (br_command r)"
  "dget (budget_receipt_as_dict E r) ''result_digest'' = PStr (br_result r)"
  "dget (budget_receipt_as_dict E r) ''receipt_digest'' = PStr (dict_digest E (budget_receipt_payload E r))"
  by (simp_all add: budget_receipt_as_dict_def budget_receipt_payload_def)

lemma budget_receipt_roundtrip:
  assumes check: "check_budget_receipt E r = Inr ()" and roles: "br_roles r = [(''primary'', p), (''auxiliary'', a), (''repair'', n)]"
  shows "budget_receipt_from_mapping E (PDict (budget_receipt_as_dict E r)) = Inr r"
proof -
  note c = check [unfolded check_budget_receipt_Inr]
  have counts: "0 \<le> p" "0 \<le> a" "0 \<le> n" using c roles by auto
  have r: "\<lparr>br_decision = br_decision r, br_conflicts = br_conflicts r, br_roles = [(''primary'', p), (''auxiliary'', a), (''repair'', n)],
    br_writers = br_writers r, br_children = br_children r, br_policy = br_policy r, br_scope = br_scope r, br_inventory = br_inventory r,
    br_evaluator = br_evaluator r, br_source = br_source r, br_profile = br_profile r, br_command = br_command r, br_result = br_result r\<rparr> = r"
    using roles by (cases r) simp
  have "{''auxiliary'', ''primary'', ''repair''} = set container_roles" by (auto simp: container_roles_def)
  moreover have "sort (remdups (filter reason_re (br_conflicts r))) = br_conflicts r" "0 \<le> br_writers r" "0 \<le> br_children r" using c by blast+
  ultimately show ?thesis using counts unfolding budget_receipt_from_mapping_def
    by (simp add: closed_dict_Inr [THEN iffD2] budget_receipt_keys budget_receipt_gets roles roles_value_Inr guard_def count_value_def Let_def
      py_str_def r check)
qed

text \<open>C40: What an audit says, and that its receipt can be read. The audit passes exactly when every slice fits the first policy without
  any repair or auxiliary unit, there is no child Work, at most one writer, and the inventory is the one of the facts; rendering its
  receipt and reading the rendering gives the same receipt. So an inventory with an admitted repair is never passed.\<close>

theorem audit_receipt_roundtrip:
  assumes "audit_execution_budget E us facts writers children source profile command = Inr r"
  shows "(br_decision r = ''SELF_BUDGET_PASS'' \<longleftrightarrow> slices_fit us policy_v1 {} \<and> children = 0 \<and> writers \<le> 1 \<and> inventory_digest E us = Inr (af_inventory facts))
    \<and> br_roles r = map (\<lambda>role. (role, role_total us role)) container_roles
    \<and> budget_receipt_from_mapping E (PDict (budget_receipt_as_dict E r)) = Inr r"
proof -
  obtain ev digest where a: "inventory_digest E us = Inr digest"
    "evaluate_execution_budget (sort_key inventory_key us) policy_v1 writers children [] = Inr ev"
    "br_roles r = be_roles ev" "br_conflicts r = sort (remdups (be_conflicts ev @ (if af_inventory facts \<noteq> digest then [''ADMISSION_PREIMAGE_DRIFT''] else [])))"
    "br_decision r = (if br_conflicts r \<noteq> [] then ''BLOCKED'' else ''SELF_BUDGET_PASS'')" "check_budget_receipt E r = Inr ()"
    using audit_Inr [OF assms] by metis
  have roles: "br_roles r = map (\<lambda>role. (role, role_total us role)) container_roles" using evaluate_conflicts(3) [OF a(2)] a(3) by simp
  have fit: "slices_fit (sort_key inventory_key us) policy_v1 {} = slices_fit us policy_v1 {}" by (rule slices_fit_mset) simp
  have "cb_writers policy_v1 = 1" by (simp add: policy_v1_def)
  then have "br_conflicts r = [] \<longleftrightarrow> slices_fit us policy_v1 {} \<and> children = 0 \<and> writers \<le> 1 \<and> digest = af_inventory facts"
    using evaluate_conflicts(1) [OF a(2)] unfolding a(4) by (auto simp: fit)
  then have "br_decision r = ''SELF_BUDGET_PASS'' \<longleftrightarrow> slices_fit us policy_v1 {} \<and> children = 0 \<and> writers \<le> 1 \<and> inventory_digest E us = Inr (af_inventory facts)"
    using a(1,5) by auto
  moreover have "budget_receipt_from_mapping E (PDict (budget_receipt_as_dict E r)) = Inr r"
    using budget_receipt_roundtrip [OF a(6)] roles by (simp add: container_roles_def)
  ultimately show ?thesis using roles by blast
qed

section \<open>Examples\<close>

definition owner_unit0 :: exec_unit where
  "owner_unit0 = \<lparr>eu_unit = ''W-1'', eu_root = ''parser'', eu_slice = ''S-1'', eu_role = ''primary'', eu_revision = 1, eu_supersedes = PNone,
     eu_ref = ''process/contract.json'', eu_digest = digest_of CHR ''a''\<rparr>"

definition repair_unit0 :: exec_unit where
  "repair_unit0 = owner_unit0\<lparr>eu_unit := ''W-2'', eu_role := ''repair''\<rparr>"

definition admission_facts0 :: admission_facts where
  "admission_facts0 = \<lparr>af_release_oid = replicate 40 CHR ''a'', af_process_oid = replicate 40 CHR ''a'', af_dirty = digest_of CHR ''a'',
     af_scope = digest_of CHR ''a'', af_authorization = digest_of CHR ''a'', af_profile = digest_of CHR ''a'',
     af_inventory = digest_of CHR ''a'', af_target = digest_of CHR ''a'', af_owner = digest_of CHR ''a''\<rparr>"

definition repair_authorization0 :: repair_authorization where
  "repair_authorization0 = \<lparr>ra_schema = PInt 1, ra_id = ''A-1'', ra_project = ''P'', ra_candidate = ''W-2'', ra_predecessor = ''W-1'',
     ra_root = ''parser'', ra_slice = ''S-1'', ra_predecessor_scope = digest_of CHR ''a'', ra_category = ''usage-hard-stop'',
     ra_code = ''USAGE-HARD-STOP'', ra_ref = ''works/W-1/BLOCKER.json'', ra_blocker = digest_of CHR ''a'', ra_fingerprint = digest_of CHR ''a'',
     ra_candidate_scope = digest_of CHR ''a'', ra_release_oid = replicate 40 CHR ''a'', ra_process_oid = replicate 40 CHR ''a'',
     ra_expires = ''2030-01-01T00:00:00Z''\<rparr>"

definition blocked_owner0 :: work where
  "blocked_owner0 = work0\<lparr>w_status := ''blocked'', w_unit := Some owner_unit0\<rparr>"

definition repair_work0 :: work where
  "repair_work0 = work0\<lparr>w_id := ''W-2'', w_unit := Some repair_unit0\<rparr>"

definition blocker0 :: pydict where
  "blocker0 = [(''schema_version'', PInt 1), (''kind'', PStr ''WorkBlockerEvidenceV1''), (''work_id'', PStr ''W-1''),
     (''decision'', PStr ''BLOCKED''), (''blocker_id'', PStr ''USAGE-HARD-STOP'')]"

definition repair_reads0 :: repair_reads where
  "repair_reads0 = \<lparr>rr_work = (\<lambda>_. Inr blocked_owner0), rr_blocker = (\<lambda>_. Some (r_json (we_release failure_env0) (PDict blocker0))),
     rr_claim = (\<lambda>_. Some False)\<rparr>"

definition repair_binding0 :: repair_binding where
  "repair_binding0 = planned_binding failure_env0 repair_authorization0 repair_work0 repair_unit0 blocked_owner0 owner_unit0
     (replicate 40 CHR ''a'') (replicate 40 CHR ''a'')"

definition is_ready :: "admission_plan result \<Rightarrow> bool" where
  "is_ready r = (case r of Inr p \<Rightarrow> ad_decision p = ''READY'' | Inl _ \<Rightarrow> False)"

lemma admission0: "is_ready (plan_admission failure_env0 owner_unit0 [] policy_v1 admission_facts0 [] 0 None [])"
  by code_simp

lemma admission1: "is_ready (plan_admission failure_env0 repair_unit0 [owner_unit0] policy_v1 admission_facts0 [] 0 (Some repair_binding0) [])"
  by code_simp

lemma ready_plan0: "is_ready r \<Longrightarrow> \<exists>p. r = Inr p \<and> ad_decision p = ''READY''"
  by (cases r) (auto simp: is_ready_def)

theorem admission_order_independent_witness:
  "evaluate_execution_budget [owner_unit0, repair_unit0] policy_v1 1 0 [] = evaluate_execution_budget [repair_unit0, owner_unit0] policy_v1 1 0 []"
  using admission_order_independent [of "[owner_unit0, repair_unit0]" "[repair_unit0, owner_unit0]"] by simp

theorem admission_ready_iff_witness:
  "\<exists>p. plan_admission failure_env0 repair_unit0 [owner_unit0] policy_v1 admission_facts0 [] 0 (Some repair_binding0) [] = Inr p \<and> ad_conflicts p = []
    \<and> admissible failure_env0 repair_unit0 [owner_unit0] policy_v1 admission_facts0 [] 0 (Some repair_binding0) []"
proof -
  obtain p where p: "plan_admission failure_env0 repair_unit0 [owner_unit0] policy_v1 admission_facts0 [] 0 (Some repair_binding0) [] = Inr p"
    "ad_decision p = ''READY''" using ready_plan0 [OF admission1] by blast
  have "digest_re (af_scope admission_facts0)" "eu_root repair_unit0 \<noteq> []" "eu_slice repair_unit0 \<noteq> []"
    using digest0(1) by (simp_all add: admission_facts0_def repair_unit0_def owner_unit0_def)
  from admission_ready_iff [OF failure_env0_ok this, where bs = "[]" and us = "[owner_unit0]" and terminal = "[]" and writers = 0 and policy = policy_v1
      and binding = "Some repair_binding0"] p
  show ?thesis by (auto split: if_splits)
qed

theorem admitted_within_budget_witness:
  "\<exists>us bs. admission_history failure_env0 policy_v1 us bs \<and> length us = 2 \<and> length bs = 1 \<and> slices_bounded policy_v1 us \<and> active_bindings_match failure_env0 us bs"
proof -
  obtain p where p: "plan_admission failure_env0 owner_unit0 [] policy_v1 admission_facts0 [] 0 None [] = Inr p" "ad_decision p = ''READY''"
    using ready_plan0 [OF admission0] by blast
  obtain q where q: "plan_admission failure_env0 repair_unit0 [owner_unit0] policy_v1 admission_facts0 [] 0 (Some repair_binding0) [] = Inr q"
    "ad_decision q = ''READY''" using ready_plan0 [OF admission1] by blast
  have "admission_history failure_env0 policy_v1 [owner_unit0] []" using admit [OF nothing_active p] by simp
  then have "admission_history failure_env0 policy_v1 [owner_unit0, repair_unit0] [repair_binding0]" using admit [OF _ q] by fastforce
  then show ?thesis using admitted_within_budget [OF container_budget_ok(2)] by fastforce
qed

lemma repair0: "case plan_repair_admission_binding failure_env0 repair_reads0 repair_work0 (replicate 40 CHR ''a'') (replicate 40 CHR ''a'')
    (Some (Some (PDict (repair_authorization_as_dict repair_authorization0)))) 2026 of Inr ev \<Rightarrow> rpe_decision ev = ''READY'' | Inl _ \<Rightarrow> False"
  by code_simp

theorem repair_needs_authorization_witness:
  "\<exists>b. rb_candidate b = ''W-2'' \<and> repair_admitted failure_env0 repair_unit0 [owner_unit0] (Some b)"
proof -
  obtain ev where ev: "plan_repair_admission_binding failure_env0 repair_reads0 repair_work0 (replicate 40 CHR ''a'') (replicate 40 CHR ''a'')
    (Some (Some (PDict (repair_authorization_as_dict repair_authorization0)))) 2026 = Inr ev" "rpe_decision ev = ''READY''"
    using repair0 by (auto split: sum.splits)
  obtain a u w v b t where r: "w_unit repair_work0 = Some u" "repairs failure_env0 repair_reads0 a repair_work0 u w v"
    "\<forall>us. v \<in> set us \<longrightarrow> eu_unit u = w_id repair_work0 \<longrightarrow> repair_admitted failure_env0 u us (Some b)"
    using repair_needs_authorization [OF ev] by blast
  have "w_unit repair_work0 = Some repair_unit0" by (simp add: repair_work0_def)
  then have u: "u = repair_unit0" using r(1) by simp
  then have i: "eu_unit u = w_id repair_work0" by (simp add: repair_work0_def repair_unit0_def)
  have "v = owner_unit0" using r(2) by (auto simp: repairs_def repair_reads0_def blocked_owner0_def)
  then have b: "repair_admitted failure_env0 repair_unit0 [owner_unit0] (Some b)" using r(3) i unfolding u by simp
  then have "rb_candidate b = ''W-2''" by (auto simp: repair_admitted_def binding_for_def repair_unit0_def owner_unit0_def)
  then show ?thesis using b by blast
qed

theorem audit_receipt_roundtrip_witness:
  "\<exists>r. br_decision r = ''SELF_BUDGET_PASS'' \<and> budget_receipt_from_mapping failure_env0 (PDict (budget_receipt_as_dict failure_env0 r)) = Inr r"
proof -
  let ?a = "audit_execution_budget failure_env0 [owner_unit0] admission_facts0 1 0 (digest_of CHR ''a'') (digest_of CHR ''a'') (digest_of CHR ''a'')"
  have "case ?a of Inr r \<Rightarrow> br_decision r = ''SELF_BUDGET_PASS'' | Inl _ \<Rightarrow> False" by code_simp
  then obtain r where "?a = Inr r" "br_decision r = ''SELF_BUDGET_PASS''" by (auto split: sum.splits)
  then show ?thesis using audit_receipt_roundtrip by blast
qed

end
