(* ===== verification/Admission_Lock.thy ===== *)
theory Admission_Lock
  imports Admission Failure_Registration
begin

text \<open>
  The lock of a project, a file that is created exclusively (\<open>execution_control/admission.py\<close>): its metadata, the
  acquisition, inspection and release with their failures, the check of an admission under the lock and the plan of a
  recovery. The processes that compete for the lock are a step relation whose steps are the single file operations, because
  a release inspects the file and then unlinks it by name.
\<close>

section \<open>Metadata\<close>

definition admission_plan_as_dict :: "admission_plan \<Rightarrow> pydict" where
  "admission_plan_as_dict p =
     [(''decision'', PStr (ad_decision p)), (''facts_digest'', PStr (ad_facts p)), (''scope_digest'', PStr (ad_scope p)),
      (''candidate_digest'', PStr (ad_candidate p)), (''conflicts'', PList (map PStr (ad_conflicts p))),
      (''planned_domain_mutation_count'', PInt 0), (''coordination_required'', PBool (ad_coordination p))]"

definition plan_digest :: "work_env \<Rightarrow> admission_plan \<Rightarrow> string" where
  "plan_digest E p = dict_digest E (admission_plan_as_dict p)"

definition single_line :: "string \<Rightarrow> pyval \<Rightarrow> string result" where
  "single_line fld v =
     checked_str (\<lambda>s. s \<noteq> [] \<and> CHR 0x0D \<notin> set s \<and> newline \<notin> set s) (fld @ '' must be one non-empty single-line string'') v"

text \<open>The lease state is always \<open>held\<close>. The revisions are compared with 1, so other numbers equal to 1 can be read from a file.\<close>

record lock_metadata =
  lm_schema :: pyval
  lm_owner :: string
  lm_identity :: string
  lm_acquired :: string
  lm_policy :: pyval
  lm_plan :: string
  lm_facts :: string
  lm_candidate :: string

definition lock_fields :: "string list" where
  "lock_fields = [''schema_version'', ''owner_token_digest'', ''owner_process_identity'', ''acquired_at'', ''policy_revision'',
     ''plan_digest'', ''facts_digest'', ''candidate_digest'', ''lease_state'']"

definition mk_lock_metadata :: "pydict \<Rightarrow> lock_metadata result" where
  "mk_lock_metadata d =
     let_ok (guard (py_eq (dget d ''schema_version'') (PInt 1)) ''admission lock schema_version must be 1'') (\<lambda>_.
     let_ok (sha256_field ''owner_token_digest'' (dget d ''owner_token_digest'')) (\<lambda>owner.
     let_ok (single_line ''owner_process_identity'' (dget d ''owner_process_identity'')) (\<lambda>identity.
     let_ok (single_line ''acquired_at'' (dget d ''acquired_at'')) (\<lambda>acquired.
     let_ok (guard (py_eq (dget d ''policy_revision'') (PInt 1)) ''admission lock policy_revision mismatch'') (\<lambda>_.
     let_ok (sha256_field ''plan_digest'' (dget d ''plan_digest'')) (\<lambda>plan.
     let_ok (sha256_field ''facts_digest'' (dget d ''facts_digest'')) (\<lambda>facts.
     let_ok (sha256_field ''candidate_digest'' (dget d ''candidate_digest'')) (\<lambda>candidate.
     let_ok (guard (dget d ''lease_state'' = PStr ''held'') ''admission lock lease_state must be held'') (\<lambda>_.
     Inr \<lparr>lm_schema = dget d ''schema_version'', lm_owner = owner, lm_identity = identity, lm_acquired = acquired,
       lm_policy = dget d ''policy_revision'', lm_plan = plan, lm_facts = facts, lm_candidate = candidate\<rparr>)))))))))"

definition lock_metadata_from_mapping :: "pyval \<Rightarrow> lock_metadata result" where
  "lock_metadata_from_mapping v = let_ok (closed_dict lock_fields ''admission lock metadata fields mismatch'' v) mk_lock_metadata"

definition lock_metadata_as_dict :: "lock_metadata \<Rightarrow> pydict" where
  "lock_metadata_as_dict m =
     [(''schema_version'', lm_schema m), (''owner_token_digest'', PStr (lm_owner m)), (''owner_process_identity'', PStr (lm_identity m)),
      (''acquired_at'', PStr (lm_acquired m)), (''policy_revision'', lm_policy m), (''plan_digest'', PStr (lm_plan m)),
      (''facts_digest'', PStr (lm_facts m)), (''candidate_digest'', PStr (lm_candidate m)), (''lease_state'', PStr ''held'')]"

text \<open>The equality of two metadata compares the revisions as Python numbers.\<close>

definition same_metadata :: "lock_metadata \<Rightarrow> lock_metadata \<Rightarrow> bool" where
  "same_metadata m n = (py_eq (lm_schema m) (lm_schema n) \<and> lm_owner m = lm_owner n \<and> lm_identity m = lm_identity n
     \<and> lm_acquired m = lm_acquired n \<and> py_eq (lm_policy m) (lm_policy n) \<and> lm_plan m = lm_plan n \<and> lm_facts m = lm_facts n
     \<and> lm_candidate m = lm_candidate n)"

definition lock_bytes :: "work_env \<Rightarrow> lock_metadata \<Rightarrow> string" where
  "lock_bytes E m = r_json (we_release E) (PDict (sort_key fst (lock_metadata_as_dict m))) @ [newline]"

section \<open>Acquisition\<close>

record lock_handle =
  lh_path :: string
  lh_metadata :: lock_metadata
  lh_preimage :: string
  lh_token :: string

record lock_result =
  lr_decision :: string
  lr_conflicts :: "string list"
  lr_mutations :: int
  lr_durable :: int
  lr_handle :: "lock_handle option"

text \<open>How the operating system treats an acquisition: the directory cannot be made or the file not opened, a part of the
  directory path is a file, or the file is opened; then the data is written and synced, or the file is removed again, or it
  stays with some content. An exclusive creation fails when the file exists.\<close>

datatype lock_create = Create_Ok | Create_Error | Parent_Is_File

datatype lock_write = Write_Ok | Write_Removed | Write_Left string

definition cas_failed :: "string list" where
  "cas_failed = [''ADMISSION_LOCK_OR_CAS_FAILED'']"

definition lock_result_of :: "string \<Rightarrow> string list \<Rightarrow> int \<Rightarrow> int \<Rightarrow> lock_handle option \<Rightarrow> lock_result" where
  "lock_result_of decision conflicts m n h =
     \<lparr>lr_decision = decision, lr_conflicts = conflicts, lr_mutations = m, lr_durable = n, lr_handle = h\<rparr>"

definition lock_partial :: "lock_result \<Rightarrow> bool" where
  "lock_partial r = (lr_decision r = ''PARTIAL_MUTATION'')"

definition lock_exists :: "string option \<Rightarrow> int" where
  "lock_exists file = (if file = None then 0 else 1)"

text \<open>The handle an acquisition would return.\<close>

definition lock_handle_for :: "work_env \<Rightarrow> string \<Rightarrow> admission_plan \<Rightarrow> string \<Rightarrow> string \<Rightarrow> string \<Rightarrow> lock_handle result" where
  "lock_handle_for E path p token identity now =
     let_ok (single_line ''owner_token'' (PStr token)) (\<lambda>token.
     let_ok (single_line ''owner_process_identity'' (PStr identity)) (\<lambda>identity.
     let_ok (mk_lock_metadata (lock_metadata_as_dict \<lparr>lm_schema = PInt 1, lm_owner = r_sha (we_release E) token, lm_identity = identity,
       lm_acquired = now, lm_policy = PInt 1, lm_plan = plan_digest E p, lm_facts = ad_facts p, lm_candidate = ad_candidate p\<rparr>)) (\<lambda>m.
     Inr \<lparr>lh_path = path, lh_metadata = m, lh_preimage = r_sha (we_release E) (lock_bytes E m), lh_token = token\<rparr>)))"

definition acquire_admission_lock :: "work_env \<Rightarrow> string \<Rightarrow> admission_plan \<Rightarrow> string \<Rightarrow> string \<Rightarrow> string \<Rightarrow> lock_create \<Rightarrow> lock_write
     \<Rightarrow> string option \<Rightarrow> (lock_result \<times> string option) result" where
  "acquire_admission_lock E path p token identity now created written file =
     (if ad_decision p = ''BLOCKED'' then Inr (lock_result_of ''BLOCKED'' (ad_conflicts p) 0 0 None, file)
      else let_ok (lock_handle_for E path p token identity now) (\<lambda>h.
        case created of
          Create_Error \<Rightarrow> Inr (lock_result_of ''BLOCKED'' cas_failed 0 (lock_exists file) None, file)
        | Parent_Is_File \<Rightarrow> Inr (lock_result_of ''BLOCKED'' cas_failed 0 1 None, file)
        | Create_Ok \<Rightarrow>
            (if file \<noteq> None then Inr (lock_result_of ''BLOCKED'' cas_failed 0 1 None, file)
             else case written of
               Write_Ok \<Rightarrow> Inr (lock_result_of ''PASS'' [] 1 1 (Some h), Some (lock_bytes E (lh_metadata h)))
             | Write_Removed \<Rightarrow> Inr (lock_result_of ''BLOCKED'' cas_failed 2 0 None, None)
             | Write_Left left \<Rightarrow> Inr (lock_result_of ''PARTIAL_MUTATION'' [''ADMISSION_LOCK_CLEANUP_FAILED''] 1 1 None, Some left))))"

section \<open>Inspection and release\<close>

record lock_inspection =
  li_state :: string
  li_path :: string
  li_digest :: string
  li_metadata :: "lock_metadata option"

text \<open>A read fails, or the file changes while it is read.\<close>

datatype lock_read = Read_Ok | Read_Failed | Read_Unstable

datatype lock_unlink = Unlink_Ok | Unlink_Failed | Unlink_Unsynced

definition inspected :: "string \<Rightarrow> string \<Rightarrow> string \<Rightarrow> lock_metadata option \<Rightarrow> lock_inspection" where
  "inspected state path digest m = \<lparr>li_state = state, li_path = path, li_digest = digest, li_metadata = m\<rparr>"

fun inspect_admission_lock :: "work_env \<Rightarrow> string \<Rightarrow> lock_read \<Rightarrow> string option \<Rightarrow> lock_inspection" where
  "inspect_admission_lock E path Read_Failed file = inspected ''MALFORMED'' path [] None"
| "inspect_admission_lock E path Read_Unstable file = (case file of None \<Rightarrow> inspected ''ABSENT'' path [] None | Some _ \<Rightarrow> inspected ''MALFORMED'' path [] None)"
| "inspect_admission_lock E path Read_Ok file =
     (case file of
        None \<Rightarrow> inspected ''ABSENT'' path [] None
      | Some data \<Rightarrow>
          let digest = r_sha (we_release E) data in
          case r_loads (we_release E) data of
            None \<Rightarrow> inspected ''MALFORMED'' path digest None
          | Some v \<Rightarrow> (case lock_metadata_from_mapping v of
              Inl _ \<Rightarrow> inspected ''MALFORMED'' path digest None
            | Inr m \<Rightarrow> inspected ''HELD'' path digest (Some m)))"

definition inspection_matches :: "work_env \<Rightarrow> lock_inspection \<Rightarrow> lock_handle \<Rightarrow> bool" where
  "inspection_matches E i h =
     (li_state i = ''HELD'' \<and> li_path i = lh_path h \<and> li_digest i = lh_preimage h
      \<and> (case li_metadata i of None \<Rightarrow> False
         | Some m \<Rightarrow> same_metadata m (lh_metadata h) \<and> lm_owner m = r_sha (we_release E) (lh_token h)))"

definition release_admission_lock :: "work_env \<Rightarrow> string \<Rightarrow> lock_handle \<Rightarrow> lock_read \<Rightarrow> lock_unlink \<Rightarrow> string option \<Rightarrow> lock_result \<times> string option" where
  "release_admission_lock E path h rd unlinked file =
     (let i = inspect_admission_lock E path rd file in
      if \<not> inspection_matches E i h then (lock_result_of ''BLOCKED'' cas_failed 0 (if li_state i = ''ABSENT'' then 0 else 1) None, file)
      else case unlinked of
        Unlink_Ok \<Rightarrow> (lock_result_of ''PASS'' [] 1 0 None, None)
      | Unlink_Failed \<Rightarrow> (lock_result_of ''PARTIAL_MUTATION'' [''ADMISSION_LOCK_CLEANUP_FAILED''] 0 1 None, file)
      | Unlink_Unsynced \<Rightarrow> (lock_result_of ''PARTIAL_MUTATION'' [''ADMISSION_LOCK_CLEANUP_FAILED''] 1 0 None, None))"

section \<open>Admission under the lock, recovery\<close>

record reservation =
  rsv_decision :: string
  rsv_conflicts :: "string list"
  rsv_planned :: string
  rsv_fresh :: string

definition validate_admission_preimage :: "work_env \<Rightarrow> string \<Rightarrow> admission_plan \<Rightarrow> lock_handle \<Rightarrow> lock_read \<Rightarrow> string option
     \<Rightarrow> exec_unit \<Rightarrow> exec_unit list \<Rightarrow> container_budget \<Rightarrow> admission_facts \<Rightarrow> exec_unit list \<Rightarrow> int \<Rightarrow> repair_binding option
     \<Rightarrow> repair_binding list \<Rightarrow> reservation result" where
  "validate_admission_preimage E path planned h rd file candidate us policy facts terminal writers binding bs =
     (let digest = plan_digest E planned in
      if \<not> inspection_matches E (inspect_admission_lock E path rd file) h \<or> lm_plan (lh_metadata h) \<noteq> digest
      then Inr \<lparr>rsv_decision = ''BLOCKED'', rsv_conflicts = cas_failed, rsv_planned = digest, rsv_fresh = []\<rparr>
      else let_ok (plan_admission E candidate us policy facts terminal writers binding bs) (\<lambda>fresh.
        if plan_digest E fresh \<noteq> digest \<or> ad_decision fresh = ''BLOCKED''
        then Inr \<lparr>rsv_decision = ''BLOCKED'', rsv_conflicts = sort (remdups (''ADMISSION_PREIMAGE_DRIFT'' # ad_conflicts fresh)),
               rsv_planned = digest, rsv_fresh = plan_digest E fresh\<rparr>
        else Inr \<lparr>rsv_decision = ''READY'', rsv_conflicts = [], rsv_planned = digest, rsv_fresh = plan_digest E fresh\<rparr>))"

record lock_recovery =
  ly_decision :: string
  ly_conflicts :: "string list"
  ly_preimage :: string
  ly_authorization :: string

definition plan_lock_recovery :: "lock_inspection \<Rightarrow> string \<Rightarrow> string \<Rightarrow> string \<Rightarrow> string \<Rightarrow> lock_recovery result" where
  "plan_lock_recovery i liveness expected authorization expected_authorization =
     (let conflicts = sort (remdups (
          (if li_state i \<noteq> ''HELD'' \<or> li_metadata i = None then cas_failed else [])
          @ (if liveness \<noteq> ''dead'' then [''ADMISSION_LOCK_OWNER_NOT_PROVEN_DEAD''] else [])
          @ (if li_digest i \<noteq> expected then [''ADMISSION_PREIMAGE_DRIFT''] else [])
          @ (if authorization \<noteq> expected_authorization then [''ADMISSION_RECOVERY_AUTHORIZATION_MISMATCH''] else []))) in
      let_ok (sha256_field ''expected_preimage_digest'' (PStr expected)) (\<lambda>_.
      let_ok (sha256_field ''authorization_digest'' (PStr authorization)) (\<lambda>_.
      let_ok (sha256_field ''expected_authorization_digest'' (PStr expected_authorization)) (\<lambda>_.
      Inr \<lparr>ly_decision = (if conflicts \<noteq> [] then ''BLOCKED'' else ''READY''), ly_conflicts = conflicts,
        ly_preimage = li_digest i, ly_authorization = authorization\<rparr>))))"

section \<open>What the lock promises\<close>

text \<open>A reader skips the newline at the end of a document.\<close>

definition reads_last_newline :: "work_env \<Rightarrow> bool" where
  "reads_last_newline E = (\<forall>v. key_sorted v \<longrightarrow> r_loads (we_release E) (r_json (we_release E) v @ [newline]) = Some v)"

definition metadata_wf :: "lock_metadata \<Rightarrow> bool" where
  "metadata_wf m = (mk_lock_metadata (lock_metadata_as_dict m) = Inr m)"

lemma sha256_field_Inr: "sha256_field f (PStr s) = Inr t \<longleftrightarrow> t = s \<and> hex_id 64 s"
  by (auto simp: sha256_field_def checked_str_def)

lemma single_line_Inr: "single_line f (PStr s) = Inr t \<longleftrightarrow> t = s \<and> s \<noteq> [] \<and> CHR 0x0D \<notin> set s \<and> newline \<notin> set s"
  by (auto simp: single_line_def checked_str_def)

lemma mk_metadata_Inr: "mk_lock_metadata (lock_metadata_as_dict m) = Inr n \<Longrightarrow> n = m"
  by (cases m) (auto simp: mk_lock_metadata_def lock_metadata_as_dict_def read_simps sha256_field_Inr single_line_Inr)

lemma py_eq_1: "py_eq v (PInt 1) \<Longrightarrow> key_sorted v"
  by (cases v) (auto simp: py_eq_def split: pyval.splits)

lemma lock_dict_sorted: "metadata_wf m \<Longrightarrow> key_sorted (PDict (sort_key fst (lock_metadata_as_dict m)))"
  by (rule key_sorted_sort_key)
    (auto simp: metadata_wf_def mk_lock_metadata_def lock_metadata_as_dict_def read_simps dest!: py_eq_1)

lemma lock_dict_keys: "distinct (map fst (lock_metadata_as_dict m))" "dkeys (lock_metadata_as_dict m) = set lock_fields"
  by (simp_all add: lock_metadata_as_dict_def lock_fields_def dkeys_def)

lemma metadata_roundtrip: "metadata_wf m \<Longrightarrow> lock_metadata_from_mapping (PDict (sort_key fst (lock_metadata_as_dict m))) = Inr m"
  by (simp add: lock_metadata_from_mapping_def mk_lock_metadata_def dkeys_sort_key dget_sort_key lock_dict_keys metadata_wf_def)

text \<open>What every handle satisfies.\<close>

definition handle_ok :: "work_env \<Rightarrow> string \<Rightarrow> lock_handle \<Rightarrow> bool" where
  "handle_ok E path h = (metadata_wf (lh_metadata h) \<and> lh_path h = path \<and> lh_preimage h = r_sha (we_release E) (lock_bytes E (lh_metadata h))
     \<and> lm_owner (lh_metadata h) = r_sha (we_release E) (lh_token h))"

lemma lock_handle_for_ok:
  assumes "lock_handle_for E path p token identity now = Inr h"
  shows "handle_ok E path h" and "lm_plan (lh_metadata h) = plan_digest E p" and "lh_token h = token"
proof -
  let ?m = "\<lparr>lm_schema = PInt 1, lm_owner = r_sha (we_release E) token, lm_identity = identity, lm_acquired = now, lm_policy = PInt 1,
    lm_plan = plan_digest E p, lm_facts = ad_facts p, lm_candidate = ad_candidate p\<rparr>"
  obtain m where m: "mk_lock_metadata (lock_metadata_as_dict ?m) = Inr m"
    and h: "h = \<lparr>lh_path = path, lh_metadata = m, lh_preimage = r_sha (we_release E) (lock_bytes E m), lh_token = token\<rparr>"
    using assms by (auto simp: lock_handle_for_def read_simps single_line_Inr)
  have "m = ?m" using mk_metadata_Inr [OF m] .
  then show "handle_ok E path h" "lm_plan (lh_metadata h) = plan_digest E p" "lh_token h = token"
    using m h by (simp_all add: handle_ok_def metadata_wf_def)
qed

lemma held_by_handle:
  assumes "reads_last_newline E" and "handle_ok E path h"
  shows "inspection_matches E (inspect_admission_lock E path Read_Ok (Some (lock_bytes E (lh_metadata h)))) h"
proof -
  have m: "metadata_wf (lh_metadata h)" using assms(2) by (simp add: handle_ok_def)
  have "r_loads (we_release E) (lock_bytes E (lh_metadata h)) = Some (PDict (sort_key fst (lock_metadata_as_dict (lh_metadata h))))"
    using assms(1) lock_dict_sorted [OF m] unfolding lock_bytes_def reads_last_newline_def by blast
  then show ?thesis using assms(2) metadata_roundtrip [OF m]
    by (simp add: inspection_matches_def inspected_def handle_ok_def same_metadata_def Let_def)
qed

lemma matches_bytes:
  assumes "inspection_matches E (inspect_admission_lock E path rd file) h"
  obtains data v m where "rd = Read_Ok" and "file = Some data" and "r_sha (we_release E) data = lh_preimage h"
    and "r_loads (we_release E) data = Some v" and "lock_metadata_from_mapping v = Inr m" and "same_metadata m (lh_metadata h)"
  using assms that
  by (cases rd) (auto simp: inspection_matches_def inspected_def Let_def split: option.splits sum.splits)

text \<open>What an acquisition gives. It passes exactly for a plan that is not blocked, when no lock file exists and the operating system
  does what it is asked; an existing lock file is never changed, whatever happens. Only a passing acquisition gives a handle: it is bound
  to the plan, the inspection of the file matches it, and a release with it passes and removes the file.\<close>

theorem lock_acquired_iff:
  assumes "reads_last_newline E" and "acquire_admission_lock E path p token identity now created written file = Inr (r, file')"
  shows "(lr_decision r = ''PASS'' \<longleftrightarrow> ad_decision p \<noteq> ''BLOCKED'' \<and> file = None \<and> created = Create_Ok \<and> written = Write_Ok)
    \<and> (lr_decision r = ''PASS'' \<longleftrightarrow> lr_handle r \<noteq> None) \<and> (file \<noteq> None \<longrightarrow> file' = file)
    \<and> (\<forall>h. lr_handle r = Some h \<longrightarrow> lm_plan (lh_metadata h) = plan_digest E p \<and> inspection_matches E (inspect_admission_lock E path Read_Ok file') h
         \<and> release_admission_lock E path h Read_Ok Unlink_Ok file' = (lock_result_of ''PASS'' [] 1 0 None, None))"
proof (cases "ad_decision p = ''BLOCKED''")
  case True
  then show ?thesis using assms(2) by (auto simp: acquire_admission_lock_def lock_result_of_def)
next
  case False
  then obtain h where h: "lock_handle_for E path p token identity now = Inr h" using assms(2) by (auto simp: acquire_admission_lock_def read_simps)
  note held = held_by_handle [OF assms(1) lock_handle_for_ok(1) [OF h]]
  show ?thesis using assms(2) False h lock_handle_for_ok(2) [OF h] held
    by (auto simp: acquire_admission_lock_def lock_result_of_def release_admission_lock_def simp del: inspect_admission_lock.simps split: lock_create.splits lock_write.splits if_splits)
qed

text \<open>A lock is removed by its owner only. A release changes the file only when it was read completely, has the digest of the
  handle and holds well-formed metadata equal to those of the handle, and then removes it; so a malformed lock, a torn one or the lock of
  another owner stays. What the result counts is what happened: one mutation exactly when the file was removed.\<close>

theorem unowned_lock_stays:
  assumes "release_admission_lock E path h rd unlinked file = (r, file')"
  shows "(file' \<noteq> file \<longrightarrow> file' = None \<and> (\<exists>data v m. file = Some data \<and> r_sha (we_release E) data = lh_preimage h
        \<and> r_loads (we_release E) data = Some v \<and> lock_metadata_from_mapping v = Inr m \<and> same_metadata m (lh_metadata h)))
    \<and> lr_mutations r = (if file' \<noteq> file then 1 else 0) \<and> (lr_decision r = ''PASS'' \<longrightarrow> file' = None)
    \<and> (lr_decision r \<noteq> ''BLOCKED'' \<longrightarrow> lr_durable r = lock_exists file')"
proof (cases "inspection_matches E (inspect_admission_lock E path rd file) h")
  case True
  obtain data v m where "file = Some data" "r_sha (we_release E) data = lh_preimage h" "r_loads (we_release E) data = Some v"
    "lock_metadata_from_mapping v = Inr m" "same_metadata m (lh_metadata h)" using matches_bytes [OF True] by metis
  then show ?thesis using assms True
    by (cases unlinked) (auto simp: release_admission_lock_def lock_result_of_def lock_exists_def)
next
  case False
  then show ?thesis using assms by (auto simp: release_admission_lock_def lock_result_of_def Let_def)
qed

lemma plan_admission_decision:
  assumes "plan_admission E candidate us policy facts terminal writers binding bs = Inr p"
  shows "ad_decision p \<in> {''READY'', ''BLOCKED''}"
proof -
  have "ad_decision p = (if ad_conflicts p \<noteq> [] then ''BLOCKED'' else ''READY'')" by (rule plan_admission_Inr [OF assms])
  then show ?thesis by simp
qed

text \<open>What a reservation promises. Under the lock an admission is READY exactly when the lock file still matches the handle, the handle is
  bound to the plan, and the plan made afresh has the same digest and is not blocked; then the unit is admissible in the state that was read afresh.\<close>

theorem reservation_is_admissible:
  assumes "validate_admission_preimage E path planned h rd file candidate us policy facts terminal writers binding bs = Inr v"
  shows "(rsv_decision v = ''READY'' \<longleftrightarrow> inspection_matches E (inspect_admission_lock E path rd file) h \<and> lm_plan (lh_metadata h) = plan_digest E planned
        \<and> (\<exists>fresh. plan_admission E candidate us policy facts terminal writers binding bs = Inr fresh
            \<and> plan_digest E fresh = plan_digest E planned \<and> ad_decision fresh \<noteq> ''BLOCKED''))
    \<and> (rsv_decision v = ''READY'' \<longrightarrow> admissible E candidate us policy facts terminal writers binding bs \<and> eu_unit candidate \<notin> eu_unit ` set us)"
proof -
  have ready: "(rsv_decision v = ''READY'' \<longleftrightarrow> inspection_matches E (inspect_admission_lock E path rd file) h \<and> lm_plan (lh_metadata h) = plan_digest E planned
        \<and> (\<exists>fresh. plan_admission E candidate us policy facts terminal writers binding bs = Inr fresh
            \<and> plan_digest E fresh = plan_digest E planned \<and> ad_decision fresh \<noteq> ''BLOCKED''))"
    using assms by (auto simp: validate_admission_preimage_def Let_def read_simps split: if_splits)
  have "admissible E candidate us policy facts terminal writers binding bs \<and> eu_unit candidate \<notin> eu_unit ` set us"
    if fresh: "plan_admission E candidate us policy facts terminal writers binding bs = Inr fresh" "ad_decision fresh \<noteq> ''BLOCKED''" for fresh
  proof -
    from plan_admission_ready [OF fresh(1)] plan_admission_decision [OF fresh(1)] fresh(2) show ?thesis by auto
  qed
  with ready show ?thesis by blast
qed

section \<open>Processes that compete for the lock\<close>

text \<open>A process is idle, has created the file and writes it, holds the lock with a handle, or has inspected the lock in a release and
  is about to unlink it. The file carries the number of its creation, since a process writes to the file it created, but unlinks the
  file that has the name.\<close>

datatype lock_pc = Lock_Idle | Lock_Creating nat lock_handle | Lock_Holding lock_handle | Lock_Checked lock_handle

record lock_system =
  ls_file :: "(nat \<times> string) option"
  ls_created :: nat
  ls_pc :: "nat \<Rightarrow> lock_pc"

definition lock_data :: "lock_system \<Rightarrow> string option" where
  "lock_data s = map_option snd (ls_file s)"

definition write_file :: "nat \<Rightarrow> string \<Rightarrow> (nat \<times> string) option \<Rightarrow> (nat \<times> string) option" where
  "write_file n data f = (case f of Some (m, old) \<Rightarrow> if m = n then Some (n, data) else f | None \<Rightarrow> None)"

definition goes :: "nat \<Rightarrow> lock_pc \<Rightarrow> lock_system \<Rightarrow> lock_system" where
  "goes i c s = s\<lparr>ls_pc := (ls_pc s)(i := c)\<rparr>"

inductive lock_step :: "work_env \<Rightarrow> string \<Rightarrow> lock_system \<Rightarrow> lock_system \<Rightarrow> bool" for E path where
  lock_create: "ls_file s = None \<Longrightarrow> ls_pc s i = Lock_Idle \<Longrightarrow> ad_decision p \<noteq> ''BLOCKED'' \<Longrightarrow> lock_handle_for E path p token identity now = Inr h \<Longrightarrow>
    lock_step E path s (goes i (Lock_Creating (ls_created s) h) (s\<lparr>ls_file := Some (ls_created s, []), ls_created := Suc (ls_created s)\<rparr>))"
| lock_write: "ls_pc s i = Lock_Creating n h \<Longrightarrow>
    lock_step E path s (goes i (Lock_Holding h) (s\<lparr>ls_file := write_file n (lock_bytes E (lh_metadata h)) (ls_file s)\<rparr>))"
| lock_write_removed: "ls_pc s i = Lock_Creating n h \<Longrightarrow> lock_step E path s (goes i Lock_Idle (s\<lparr>ls_file := None\<rparr>))"
| lock_write_left: "ls_pc s i = Lock_Creating n h \<Longrightarrow> lock_step E path s (goes i Lock_Idle (s\<lparr>ls_file := write_file n data (ls_file s)\<rparr>))"
| lock_check: "ls_pc s i = Lock_Holding h \<Longrightarrow> inspection_matches E (inspect_admission_lock E path Read_Ok (lock_data s)) h \<Longrightarrow>
    lock_step E path s (goes i (Lock_Checked h) s)"
| lock_unlink: "ls_pc s i = Lock_Checked h \<Longrightarrow> lock_step E path s (goes i Lock_Idle (s\<lparr>ls_file := None\<rparr>))"
| lock_unlink_failed: "ls_pc s i = Lock_Checked h \<Longrightarrow> lock_step E path s (goes i (Lock_Holding h) s)"

lemma goes_simps [simp]: "ls_file (goes i c s) = ls_file s" "ls_created (goes i c s) = ls_created s" "ls_pc (goes i c s) = (ls_pc s)(i := c)"
  by (simp_all add: goes_def)





section \<open>The contract of an exclusive lock\<close>








section \<open>The operations as runs\<close>

lemma goes_data [simp]: "lock_data (goes i c s) = lock_data s"
  by (simp add: lock_data_def)

lemma acquire_runs:
  assumes "acquire_admission_lock E path p token identity now created written (lock_data s) = Inr (r, file')" and idle: "ls_pc s i = Lock_Idle"
  shows "\<exists>t. (lock_step E path)\<^sup>*\<^sup>* s t \<and> lock_data t = file'
    \<and> ls_pc t = (ls_pc s)(i := case lr_handle r of None \<Rightarrow> Lock_Idle | Some h \<Rightarrow> Lock_Holding h)"
proof (cases "lock_data s = None \<and> ad_decision p \<noteq> ''BLOCKED'' \<and> created = Create_Ok")
  case False
  then have "file' = lock_data s \<and> lr_handle r = None" using assms(1)
    by (auto simp: acquire_admission_lock_def read_simps lock_result_of_def split: if_splits lock_create.splits)
  then show ?thesis using idle by (metis fun_upd_triv option.simps(4) rtranclp.rtrancl_refl)
next
  case True
  then obtain h where h: "lock_handle_for E path p token identity now = Inr h" using assms(1) by (auto simp: acquire_admission_lock_def read_simps)
  let ?n = "ls_created s"
  let ?t = "goes i (Lock_Creating ?n h) (s\<lparr>ls_file := Some (?n, []), ls_created := Suc ?n\<rparr>)"
  have create: "lock_step E path s ?t" using True idle h by (intro lock_create) (auto simp: lock_data_def)
  have pc: "ls_pc ?t i = Lock_Creating ?n h" by simp
  show ?thesis
  proof (cases written)
    case Write_Ok
    have "lock_step E path ?t (goes i (Lock_Holding h) (?t\<lparr>ls_file := write_file ?n (lock_bytes E (lh_metadata h)) (ls_file ?t)\<rparr>))" (is "lock_step E path ?t ?u")
      using pc by (rule lock_write)
    then have "(lock_step E path)\<^sup>*\<^sup>* s ?u" using create by auto
    moreover have "lr_handle r = Some h" "file' = Some (lock_bytes E (lh_metadata h))"
      using assms(1) True h Write_Ok by (auto simp: acquire_admission_lock_def lock_result_of_def)
    moreover have "lock_data ?u = Some (lock_bytes E (lh_metadata h))" by (simp add: lock_data_def write_file_def)
    ultimately show ?thesis by (intro exI [of _ ?u]) simp
  next
    case Write_Removed
    have "lock_step E path ?t (goes i Lock_Idle (?t\<lparr>ls_file := None\<rparr>))" (is "lock_step E path ?t ?u") using pc by (rule lock_write_removed)
    then have "(lock_step E path)\<^sup>*\<^sup>* s ?u" using create by auto
    moreover have "lr_handle r = None" "file' = None" using assms(1) True h Write_Removed by (auto simp: acquire_admission_lock_def lock_result_of_def)
    moreover have "lock_data ?u = None" by (simp add: lock_data_def)
    ultimately show ?thesis by (intro exI [of _ ?u]) simp
  next
    case (Write_Left left)
    have "lock_step E path ?t (goes i Lock_Idle (?t\<lparr>ls_file := write_file ?n left (ls_file ?t)\<rparr>))" (is "lock_step E path ?t ?u") using pc by (rule lock_write_left)
    then have "(lock_step E path)\<^sup>*\<^sup>* s ?u" using create by auto
    moreover have "lr_handle r = None" "file' = Some left" using assms(1) True h Write_Left by (auto simp: acquire_admission_lock_def lock_result_of_def)
    moreover have "lock_data ?u = Some left" by (simp add: lock_data_def write_file_def)
    ultimately show ?thesis by (intro exI [of _ ?u]) simp
  qed
qed

lemma release_runs:
  assumes "release_admission_lock E path h rd unlinked (lock_data s) = (r, file')" and hold: "ls_pc s i = Lock_Holding h"
  shows "\<exists>t. (lock_step E path)\<^sup>*\<^sup>* s t \<and> lock_data t = file' \<and> ls_pc t = (ls_pc s)(i := if lr_mutations r = 1 then Lock_Idle else Lock_Holding h)"
proof (cases "inspection_matches E (inspect_admission_lock E path rd (lock_data s)) h")
  case False
  then have "file' = lock_data s" "lr_mutations r = 0" using assms(1) by (auto simp: release_admission_lock_def lock_result_of_def Let_def)
  moreover have "(ls_pc s)(i := Lock_Holding h) = ls_pc s" using hold by (simp add: fun_upd_idem)
  ultimately show ?thesis by (intro exI [of _ s]) simp
next
  case True
  then have "rd = Read_Ok" by (rule matches_bytes)
  then have check: "lock_step E path s (goes i (Lock_Checked h) s)" using hold True by (intro lock_check) simp_all
  show ?thesis
  proof (cases "unlinked = Unlink_Failed")
    case failed: True
    have "lock_step E path (goes i (Lock_Checked h) s) (goes i (Lock_Holding h) (goes i (Lock_Checked h) s))" (is "lock_step E path _ ?u")
      by (rule lock_unlink_failed) simp
    then have "(lock_step E path)\<^sup>*\<^sup>* s ?u" using check by auto
    moreover have "file' = lock_data s" "lr_mutations r = 0" using assms(1) True failed by (auto simp: release_admission_lock_def lock_result_of_def)
    ultimately show ?thesis by (intro exI [of _ ?u]) simp
  next
    case False
    have "lock_step E path (goes i (Lock_Checked h) s) (goes i Lock_Idle ((goes i (Lock_Checked h) s)\<lparr>ls_file := None\<rparr>))" (is "lock_step E path _ ?u")
      by (rule lock_unlink [of _ _ h]) simp
    then have "(lock_step E path)\<^sup>*\<^sup>* s ?u" using check by auto
    moreover have "file' = None \<and> lr_mutations r = 1"
      using assms(1) True False by (cases unlinked) (auto simp: release_admission_lock_def lock_result_of_def)
    moreover have "lock_data ?u = None" by (simp add: lock_data_def)
    ultimately show ?thesis by (intro exI [of _ ?u]) simp
  qed
qed

text \<open>The operations are runs of the file steps. An acquisition by an idle process, with every failure the operating system can
  give it, is a run of the competing processes that ends with the same lock file, where the process holds the lock exactly when the
  operation returned a handle; a release with that handle continues the run, and frees the process exactly when it counts a mutation.\<close>

theorem lock_operations_are_runs:
  assumes "acquire_admission_lock E path p token identity now created written (lock_data s) = Inr (r, held)" and "ls_pc s i = Lock_Idle"
  shows "\<exists>t. (lock_step E path)\<^sup>*\<^sup>* s t \<and> lock_data t = held
    \<and> ls_pc t = (ls_pc s)(i := case lr_handle r of None \<Rightarrow> Lock_Idle | Some h \<Rightarrow> Lock_Holding h)
    \<and> (\<forall>h rd unlinked r' free. lr_handle r = Some h \<longrightarrow> release_admission_lock E path h rd unlinked held = (r', free) \<longrightarrow>
        (\<exists>u. (lock_step E path)\<^sup>*\<^sup>* t u \<and> lock_data u = free \<and> ls_pc u = (ls_pc s)(i := if lr_mutations r' = 1 then Lock_Idle else Lock_Holding h)))"
proof -
  obtain t where t: "(lock_step E path)\<^sup>*\<^sup>* s t" "lock_data t = held"
    "ls_pc t = (ls_pc s)(i := case lr_handle r of None \<Rightarrow> Lock_Idle | Some h \<Rightarrow> Lock_Holding h)" using acquire_runs [OF assms] by blast
  have "\<exists>u. (lock_step E path)\<^sup>*\<^sup>* t u \<and> lock_data u = free \<and> ls_pc u = (ls_pc s)(i := if lr_mutations r' = 1 then Lock_Idle else Lock_Holding h)"
    if h: "lr_handle r = Some h" and run: "release_admission_lock E path h rd unlinked held = (r', free)" for h rd unlinked r' free
  proof -
    have "ls_pc t i = Lock_Holding h" using t(3) h by simp
    from release_runs [OF run [folded t(2)] this] obtain u where "(lock_step E path)\<^sup>*\<^sup>* t u" "lock_data u = free"
      "ls_pc u = (ls_pc t)(i := if lr_mutations r' = 1 then Lock_Idle else Lock_Holding h)" by blast
    then show ?thesis unfolding t(3) by auto
  qed
  then show ?thesis using t by blast
qed

section \<open>A registration under the lock\<close>

text \<open>\<open>apply_execution_failure\<close> with its lock: the acquisition, the application, and the release before it returns. An exception
  after the acquisition leaves the operation without a release.\<close>

definition lock_use_of :: "lock_result \<Rightarrow> lock_result \<Rightarrow> lock_use" where
  "lock_use_of acquired released = \<lparr>lu_decision = lr_decision acquired, lu_conflicts = lr_conflicts acquired, lu_handle = (lr_handle acquired \<noteq> None),
     lu_mutations = lr_mutations acquired, lu_durable = lr_durable acquired, lu_release = lr_decision released,
     lu_release_conflicts = lr_conflicts released, lu_release_partial = lock_partial released, lu_release_mutations = lr_mutations released,
     lu_release_durable = lr_durable released\<rparr>"

definition no_lock :: lock_use where
  "no_lock = lock_use_of (lock_result_of ''BLOCKED'' [] 0 0 None) (lock_result_of ''BLOCKED'' [] 0 0 None)"

definition register_under_lock :: "work_env \<Rightarrow> failure_files \<Rightarrow> observation_plan \<Rightarrow> string \<Rightarrow> pydict \<Rightarrow> string \<Rightarrow> failure_attempt
     \<Rightarrow> string \<Rightarrow> string \<Rightarrow> string \<Rightarrow> string \<Rightarrow> lock_create \<Rightarrow> lock_write \<Rightarrow> lock_read \<Rightarrow> lock_unlink \<Rightarrow> write_end \<Rightarrow> string option
     \<Rightarrow> (registration \<times> string option) result \<times> string option" where
  "register_under_lock E F p evidence_ref facts failed a path token identity now created written rd unlinked ending lock =
     (let run = (\<lambda>L. apply_execution_failure E F p evidence_ref facts failed a L ending) in
      if ob_decision p = ''BLOCKED'' \<or> ob_route p = None then (run no_lock, lock)
      else case coordination_plan E p of
        Inl x \<Rightarrow> (Inl x, lock)
      | Inr q \<Rightarrow> (case acquire_admission_lock E path q token identity now created written lock of
          Inl x \<Rightarrow> (Inl x, lock)
        | Inr (acquired, held) \<Rightarrow> (case lr_handle acquired of
            None \<Rightarrow> (run (lock_use_of acquired acquired), held)
          | Some h \<Rightarrow> (case release_admission_lock E path h rd unlinked held of
              (released, free) \<Rightarrow> (case run (lock_use_of acquired released) of
                Inl x \<Rightarrow> (Inl x, held)
              | Inr y \<Rightarrow> (Inr y, free))))))"

lemma coordination_plan_is_ready: "coordination_plan E p = Inr q \<Longrightarrow> ad_decision q = ''READY''"
  by (auto simp: coordination_plan_def read_simps Let_def split: option.splits)

lemma registration_with_free_lock:
  assumes reader: "reads_last_newline E" and "ob_decision p \<noteq> ''BLOCKED''" and "ob_route p \<noteq> None"
    and q: "coordination_plan E p = Inr q" and h: "lock_handle_for E path q token identity now = Inr h"
  shows "\<exists>L. lock_passes L
    \<and> register_under_lock E F p evidence_ref facts failed a path token identity now Create_Ok Write_Ok Read_Ok Unlink_Ok ending None
      = (case apply_execution_failure E F p evidence_ref facts failed a L ending of
           Inl x \<Rightarrow> (Inl x, Some (lock_bytes E (lh_metadata h))) | Inr y \<Rightarrow> (Inr y, None))"
proof -
  let ?held = "Some (lock_bytes E (lh_metadata h))"
  let ?L = "lock_use_of (lock_result_of ''PASS'' [] 1 1 (Some h)) (lock_result_of ''PASS'' [] 1 0 None)"
  have "acquire_admission_lock E path q token identity now Create_Ok Write_Ok None = Inr (lock_result_of ''PASS'' [] 1 1 (Some h), ?held)"
    using h coordination_plan_is_ready [OF q] by (simp add: acquire_admission_lock_def)
  moreover have "release_admission_lock E path h Read_Ok Unlink_Ok ?held = (lock_result_of ''PASS'' [] 1 0 None, None)"
    using held_by_handle [OF reader lock_handle_for_ok(1) [OF h]] by (simp add: release_admission_lock_def del: inspect_admission_lock.simps)
  moreover have "lr_handle (lock_result_of ''PASS'' [] 1 1 (Some h)) = Some h" by (simp add: lock_result_of_def)
  ultimately have "register_under_lock E F p evidence_ref facts failed a path token identity now Create_Ok Write_Ok Read_Ok Unlink_Ok ending None
    = (case apply_execution_failure E F p evidence_ref facts failed a ?L ending of Inl x \<Rightarrow> (Inl x, ?held) | Inr y \<Rightarrow> (Inr y, None))"
    using assms(2,3) q by (auto simp: register_under_lock_def)
  moreover have "lock_passes ?L" by (simp add: lock_passes_def lock_use_of_def lock_result_of_def lock_partial_def)
  ultimately show ?thesis by blast
qed

text \<open>A registration returns the lock. When the lock is taken a registration changes neither the lock nor the ledger, and is blocked.
  When it is free and the operating system does what it is asked, a registration that returns has applied its plan under a lock that
  passed and leaves the lock free. An exception of the plan made afresh or of the append leaves the lock behind, so that every later
  registration is blocked.\<close>

theorem registration_returns_lock:
  assumes "reads_last_newline E"
    and "register_under_lock E F p evidence_ref facts failed a path token identity now Create_Ok Write_Ok Read_Ok Unlink_Ok ending lock = (res, lock')"
  shows "(lock \<noteq> None \<longrightarrow> lock' = lock \<and> (\<forall>r lf. res = Inr (r, lf) \<longrightarrow> rg_decision r = ''BLOCKED'' \<and> lf = ff_ledger F))
    \<and> (lock = None \<and> is_ok res \<longrightarrow> lock' = None
        \<and> (ob_decision p \<noteq> ''BLOCKED'' \<and> ob_route p \<noteq> None \<longrightarrow> (\<exists>L. lock_passes L \<and> res = apply_execution_failure E F p evidence_ref facts failed a L ending)))
    \<and> (lock = None \<and> \<not> is_ok res \<longrightarrow> (lock' \<noteq> None \<longleftrightarrow> ob_decision p \<noteq> ''BLOCKED'' \<and> ob_route p \<noteq> None
        \<and> (\<exists>q h. coordination_plan E p = Inr q \<and> lock_handle_for E path q token identity now = Inr h)))"
proof (cases "ob_decision p = ''BLOCKED'' \<or> ob_route p = None")
  case True
  then show ?thesis using assms(2) by (auto simp: register_under_lock_def apply_execution_failure_def refused_before_lock_def Let_def)
next
  case open_plan: False
  show ?thesis
  proof (cases "\<exists>q h. coordination_plan E p = Inr q \<and> lock_handle_for E path q token identity now = Inr h")
    case False
    then have "\<exists>x. (coordination_plan E p = Inl x \<or> (\<exists>q. coordination_plan E p = Inr q \<and>
        acquire_admission_lock E path q token identity now Create_Ok Write_Ok lock = Inl x))"
      by (cases "coordination_plan E p", simp, cases "lock_handle_for E path (projr (coordination_plan E p)) token identity now")
        (auto simp: acquire_admission_lock_def dest: coordination_plan_is_ready)
    then have "\<not> is_ok res \<and> lock' = lock" using assms(2) open_plan by (auto simp: register_under_lock_def)
    then show ?thesis using False by auto
  next
    case True
    then obtain q h where q: "coordination_plan E p = Inr q" and h: "lock_handle_for E path q token identity now = Inr h" by blast
    show ?thesis
    proof (cases lock)
      case (Some l)
      then have "acquire_admission_lock E path q token identity now Create_Ok Write_Ok lock = Inr (lock_result_of ''BLOCKED'' cas_failed 0 1 None, lock)"
        using h coordination_plan_is_ready [OF q] by (simp add: acquire_admission_lock_def)
      then show ?thesis using assms(2) open_plan q Some
        by (auto simp: register_under_lock_def lock_result_of_def lock_use_of_def apply_execution_failure_def refused_before_lock_def Let_def)
    next
        case None
      from registration_with_free_lock [OF assms(1) _ _ q h] open_plan obtain L where L: "lock_passes L"
        "(res, lock') = (case apply_execution_failure E F p evidence_ref facts failed a L ending of
            Inl x \<Rightarrow> (Inl x, Some (lock_bytes E (lh_metadata h))) | Inr y \<Rightarrow> (Inr y, None))" using assms(2) None by metis
      then show ?thesis using None True open_plan by (auto split: sum.splits)
    qed
  qed
qed

section \<open>Examples\<close>

lemma unhex_newline: "unhex (hex_text s @ [newline]) = s"
proof (induction s)
  case (Cons c s)
  then show ?case by (cases c) (simp add: hex_text_def nibbles_table del: nibble.simps)
qed (simp add: hex_text_def)

lemma lock_reader0: "reads_last_newline failure_env0"
  by (simp add: reads_last_newline_def failure_env0_def release_env0_def unhex_newline sample_roundtrip)

definition lock_plan0 :: admission_plan where
  "lock_plan0 = \<lparr>ad_decision = ''READY'', ad_facts = digest_of CHR ''a'', ad_scope = digest_of CHR ''a'', ad_candidate = digest_of CHR ''a'',
     ad_conflicts = [], ad_coordination = True\<rparr>"

lemma lock_handle_exists:
  assumes "digest_re (ad_facts p)" and "digest_re (ad_candidate p)"
  shows "\<exists>h. lock_handle_for failure_env0 ''admission.lock'' p ''token'' ''pid'' ''2026'' = Inr h"
  using assms by (simp add: lock_handle_for_def mk_lock_metadata_def lock_metadata_as_dict_def sha256_field_def single_line_def checked_str_def
      plan_digest_def newline_def)

lemma acquired0:
  assumes "ad_decision p = ''READY''" and "digest_re (ad_facts p)" and "digest_re (ad_candidate p)"
  shows "\<exists>r h held. acquire_admission_lock failure_env0 ''admission.lock'' p ''token'' ''pid'' ''2026'' Create_Ok Write_Ok None = Inr (r, held)
    \<and> lr_decision r = ''PASS'' \<and> lr_handle r = Some h"
  using lock_handle_exists [OF assms(2,3)] assms(1) by (auto simp: acquire_admission_lock_def lock_result_of_def)

theorem lock_acquired_iff_witness:
  "\<exists>r h held. acquire_admission_lock failure_env0 ''admission.lock'' lock_plan0 ''token'' ''pid'' ''2026'' Create_Ok Write_Ok None = Inr (r, held)
    \<and> release_admission_lock failure_env0 ''admission.lock'' h Read_Ok Unlink_Ok held = (lock_result_of ''PASS'' [] 1 0 None, None)"
proof -
  obtain r h held where a: "acquire_admission_lock failure_env0 ''admission.lock'' lock_plan0 ''token'' ''pid'' ''2026'' Create_Ok Write_Ok None = Inr (r, held)"
    "lr_handle r = Some h" using acquired0 [of lock_plan0] digest0(1) by (auto simp: lock_plan0_def)
  then show ?thesis using lock_acquired_iff [OF lock_reader0 a(1)] by blast
qed

theorem unowned_lock_stays_witness:
  "\<exists>h r. release_admission_lock failure_env0 ''admission.lock'' h Read_Ok Unlink_Ok (Some ''torn'') = (r, Some ''torn'') \<and> lr_mutations r = 0"
proof -
  obtain h where h: "lock_handle_for failure_env0 ''admission.lock'' lock_plan0 ''token'' ''pid'' ''2026'' = Inr h"
    using lock_handle_exists [of lock_plan0] digest0(1) by (auto simp: lock_plan0_def)
  obtain r file' where run: "release_admission_lock failure_env0 ''admission.lock'' h Read_Ok Unlink_Ok (Some ''torn'') = (r, file')" by (cases "release_admission_lock failure_env0 ''admission.lock'' h Read_Ok Unlink_Ok (Some ''torn'')")
  have "r_loads (we_release failure_env0) ''torn'' = None" by code_simp
  then have "file' = Some ''torn'' \<and> lr_mutations r = 0" using unowned_lock_stays [OF run] by auto
  then show ?thesis using run by blast
qed

theorem reservation_is_admissible_witness:
  "\<exists>p h file v. validate_admission_preimage failure_env0 ''admission.lock'' p h Read_Ok file owner_unit0 [] policy_v1 admission_facts0 [] 0 None [] = Inr v
    \<and> rsv_decision v = ''READY'' \<and> admissible failure_env0 owner_unit0 [] policy_v1 admission_facts0 [] 0 None []"
proof -
  let ?plan = "plan_admission failure_env0 owner_unit0 [] policy_v1 admission_facts0 [] 0 None []"
  obtain p where p: "?plan = Inr p" "ad_decision p = ''READY''" using ready_plan0 [OF admission0] by blast
  have "digest_re (ad_facts p)" "digest_re (ad_candidate p)"
    using p(1) digest0(1) by (auto simp: plan_admission_def read_simps Let_def candidate_context_digest_def)
  then obtain h where h: "lock_handle_for failure_env0 ''admission.lock'' p ''token'' ''pid'' ''2026'' = Inr h" using lock_handle_exists by blast
  let ?v = "\<lparr>rsv_decision = ''READY'', rsv_conflicts = [], rsv_planned = plan_digest failure_env0 p, rsv_fresh = plan_digest failure_env0 p\<rparr>"
  have "validate_admission_preimage failure_env0 ''admission.lock'' p h Read_Ok (Some (lock_bytes failure_env0 (lh_metadata h))) owner_unit0 []
      policy_v1 admission_facts0 [] 0 None [] = Inr ?v" (is "?validate = _")
    using held_by_handle [OF lock_reader0 lock_handle_for_ok(1) [OF h]] lock_handle_for_ok(2) [OF h] p
    by (simp add: validate_admission_preimage_def Let_def del: inspect_admission_lock.simps)
  then have validate: "?validate = Inr ?v" .
  from reservation_is_admissible [OF validate] have "admissible failure_env0 owner_unit0 [] policy_v1 admission_facts0 [] 0 None []" by simp
  moreover have "rsv_decision ?v = ''READY''" by simp
  ultimately show ?thesis using validate by blast
qed

definition lock_system0 :: lock_system where
  "lock_system0 = \<lparr>ls_file = None, ls_created = 0, ls_pc = (\<lambda>_. Lock_Idle)\<rparr>"

theorem lock_operations_are_runs_witness:
  "\<exists>t h. (lock_step failure_env0 ''admission.lock'')\<^sup>*\<^sup>* lock_system0 t \<and> ls_pc t 1 = Lock_Holding h"
proof -
  obtain r h held where a: "acquire_admission_lock failure_env0 ''admission.lock'' lock_plan0 ''token'' ''pid'' ''2026'' Create_Ok Write_Ok (lock_data lock_system0) = Inr (r, held)"
    "lr_handle r = Some h" using acquired0 [of lock_plan0] digest0(1) by (auto simp: lock_plan0_def lock_data_def lock_system0_def)
  have "ls_pc lock_system0 1 = Lock_Idle" by (simp add: lock_system0_def)
  from lock_operations_are_runs [OF a(1) this] show ?thesis using a(2) by auto
qed


lemma apply_is_ok:
  assumes "lock_passes L" and "lock_passes M"
  shows "is_ok (apply_execution_failure E F p ref facts failed a L ending) = is_ok (apply_execution_failure E F p ref facts failed a M ending)"
proof -
  have let_ok: "is_ok (let_ok r f) = (case r of Inl _ \<Rightarrow> False | Inr x \<Rightarrow> is_ok (f x))" for r :: "'r result" and f :: "'r \<Rightarrow> 's result" by (cases r) auto
  show ?thesis using assms by (auto simp: apply_execution_failure_def lock_passes_def let_ok Let_def split: sum.splits option.splits)
qed

theorem registration_returns_lock_witness:
  "\<exists>p r lf. ob_decision p \<noteq> ''BLOCKED'' \<and> register_under_lock failure_env0 failure_files0 p ''process/evidence.json'' harness_facts0 ''targeted'' attempt0
     ''admission.lock'' ''token'' ''pid'' ''2026'' Create_Ok Write_Ok Read_Ok Unlink_Ok Complete None = (Inr (r, lf), None)"
proof -
  obtain p g lf where p: "plan_execution_failure failure_env0 failure_files0 ''process/evidence.json'' harness_facts0 ''targeted'' attempt0 = Inr p"
    "ob_decision p \<noteq> ''BLOCKED''" and g: "rg_mutations g = 1"
    and run: "apply_execution_failure failure_env0 failure_files0 p ''process/evidence.json'' harness_facts0 ''targeted'' attempt0 lock0 Complete = Inr (g, lf)"
    using registration0 by blast
  let ?run = "register_under_lock failure_env0 failure_files0 p ''process/evidence.json'' harness_facts0 ''targeted'' attempt0
     ''admission.lock'' ''token'' ''pid'' ''2026'' Create_Ok Write_Ok Read_Ok Unlink_Ok Complete None"
  have route: "ob_route p \<noteq> None"
  proof
    assume "ob_route p = None"
    then show False using run g by (simp add: apply_execution_failure_def refused_before_lock_def) auto
  qed
  obtain q where q: "coordination_plan failure_env0 p = Inr q" using plan_coordinates [OF failure_env0_ok p] by blast
  have "digest_re (ad_facts q)" "digest_re (ad_candidate q)"
    using q digest0(1) by (auto simp: coordination_plan_def read_simps Let_def split: option.splits)
  then obtain h where h: "lock_handle_for failure_env0 ''admission.lock'' q ''token'' ''pid'' ''2026'' = Inr h" using lock_handle_exists by blast
  obtain res lock' where r: "?run = (res, lock')" by (cases ?run)
  have "lock_passes lock0" by (simp add: lock_passes_def lock0_def)
  note same = apply_is_ok [OF this, where E = failure_env0 and F = failure_files0 and p = p and ref = "''process/evidence.json''" and facts = harness_facts0
      and failed = "''targeted''" and a = attempt0 and ending = Complete]
  obtain L where L: "lock_passes L"
    "?run = (case apply_execution_failure failure_env0 failure_files0 p ''process/evidence.json'' harness_facts0 ''targeted'' attempt0 L Complete of
       Inl x \<Rightarrow> (Inl x, Some (lock_bytes failure_env0 (lh_metadata h))) | Inr y \<Rightarrow> (Inr y, None))"
    using registration_with_free_lock [OF lock_reader0 p(2) route q h] by blast
  have "is_ok (apply_execution_failure failure_env0 failure_files0 p ''process/evidence.json'' harness_facts0 ''targeted'' attempt0 L Complete)"
    using same [OF L(1)] run by simp
  then have "is_ok res" using L(2) r by (auto split: sum.splits)
  then show ?thesis using registration_returns_lock [OF lock_reader0 r] r p(2) by (cases res) auto
qed

end
