(* ===== verification/Spec2Isabelle.thy ===== *)
theory Spec2Isabelle
  imports Cr_Status Work_Scope Gate_Frontier Work_Budget Work_Dependency
    Exact_Properties Exact_Inspect Generation_Lineage Release_Risk Release_Writer Semver_Decision Current_Amend
    Failure_Registration Admission_Lock
begin

text \<open>
  Meta Flow is a workflow engine for agent driven development. A process repository holds documents (the
  change requests, the Work items with their scopes, budgets and dependencies, the release lineage, runtime
  state and journals), and the engine decides which step is legal next, who may write what, and writes the
  documents by transactions that survive an interruption. This development models the pure decision logic of
  that engine and two of its transactions, as HOL functions translated from the sources under
  \<open>meta_flow/\<close>, and proves what they promise.

  \<^bold>\<open>Conventions.\<close>
  \<^item> A Python string is a list of characters that holds its UTF-8 bytes; a value read from JSON or YAML is a
    \<open>pyval\<close> (\<open>Prelude\<close>); a Python int is an \<open>int\<close>. A raised exception is a value of \<open>exc\<close> on the left of a
    sum, so every \<open>raise\<close> of the source is a branch. The few unbounded costs of Python that are visible as
    exceptions are kept: the conversion limit of 4300 digits (\<open>parse_number\<close>, \<open>py_int\<close> in \<open>Document_Fields\<close>), and the exception a
    pathlib path without parts raises when its first part is asked for.
  \<^item> Code outside the repository is an argument: SHA-256, JSON and YAML printers and readers, base64, the clock
    and the reader of instants are fields of an environment record or arguments of the definitions. Laws about
    them (a printer that its reader inverts, the shape of a digest) are named hypotheses, e.g. \<open>exact_env_ok\<close> and
    \<open>release_env_ok\<close>, and \<open>Sample_Codec\<close> has a printer, a reader and a digest that satisfy them. Injectivity
    of a digest is nowhere assumed: statements that need it are up to a collision.
  \<^item> Loops over documents are recursion on lists. Recursions that are not structural (the depth first search of
    \<open>Work_Dependency\<close>, the reachability search of \<open>Exact_Inspect\<close>) carry a termination proof, so no
    definition needs fuel. Fault schedules are finite lists; a run with an exhausted schedule meets no fault.

  \<^bold>\<open>Shared theories.\<close> \<open>Prelude\<close> (values, strings, grammars, exceptions), \<open>Paths\<close> (pathlib on POSIX
  paths), \<open>Document_Fields\<close> (reading a closed dictionary field by field), \<open>Sample_Codec\<close>, and
  \<open>Status_Graph\<close>, the interface of a status machine: locale \<open>status_graph\<close> (steps stay legal, terminal states
  are left by no step, each legal state has a run to a terminal one) and its extension \<open>ranked_status_graph\<close>
  (steps never lower a rank). It is interpreted on the native CR graph (\<open>native_graph\<close>), on the publication phases
  (\<open>publication\<close>) and on the Work status graph (\<open>work_graph\<close>).

  \<^bold>\<open>Change requests.\<close> \<open>Cr_Status\<close> models \<open>semantics/cr_status.py\<close>: normalisation of statuses, the legal
  triples, the transition edges and the validator. Runs of accepted transitions never move the gate back and never
  leave a terminal triple; the guard of the historical migration is shown to be incomplete.
  \<open>Gate_Frontier\<close> models \<open>state/gate_frontier.py\<close>, the scan for the first unsettled stage of a route.

  \<^bold>\<open>Work items.\<close>
  \<^item> \<open>Work_Scope\<close> (\<open>work/scope.py\<close>): path patterns, the deny-default decision and the namespace of the system
    writers; the decision is equal to a component-wise reading of the rules.
  \<^item> \<open>Work_Budget\<close> (\<open>work/budget.py\<close>): limits, usage and the decision, total on valid records. The test
    against 80 percent is an exact comparison of fractions.
  \<^item> \<open>Work_Dependency\<close> (\<open>work/dependency.py\<close>): the dependency graph, the three-coloured cycle search with its
    termination, the closure and the sole successor; the search agrees with the relation being cyclic, the closure
    is a topological order.
  \<^item> \<open>Governance_Profile\<close> (\<open>work/governance_profile.py\<close>), \<open>Work_Risk\<close> (\<open>work/risk.py\<close>) and
    \<open>Route_Profile\<close> (\<open>work/route_profile.py\<close>): the levels G0 to G3, the classification of a change and the
    route it gives. A classification never goes below what the facts call for and is G3 exactly for a bound selection.
  \<^item> \<open>Work_Envelope\<close> (\<open>work/model.py\<close> with the execution unit of \<open>execution_control/contract.py\<close>) and
    \<open>Work_Documents\<close>: the Work record, its document, its validation and reader, with the exceptions they let
    through; a Work that is read is well-formed, is written to a valid document and reads back as itself.
  \<^item> \<open>Work_Lifecycle\<close> (\<open>work/lifecycle.py\<close>, \<open>work/model.py\<close>): transitions of a Work and its construction
    from a classification, with the invariant of any sequence of transitions.
  \<^item> \<open>Scope_Amend\<close> (\<open>work/scope_amend.py\<close>, \<open>work/model.py\<close>, \<open>workflow/cr_index.py\<close>): the amendment
    of the scope of a change request, from the authorization and the receipt of the terminal predecessor to the
    revision and its derived index. An amendment is planned under exactly the named conditions, its successor refines
    the abstract union of scopes, it grants what was authorised and revokes nothing, and along any mix of transitions
    and amendments the number of amendments is bounded by the budget of the Work.
  \<^item> \<open>Current_Amend\<close> (\<open>work/scope_amend.py\<close>, \<open>work/model.py\<close>): the amendment of an ordinary Work and of
    the current change request, whose plan lists its blockers and is made afresh when it is applied, and the
    invalidation of the receipts that the added paths touch. The application is modelled up to the documents it hands
    to the file transaction.

  \<^bold>\<open>Failures.\<close>
  \<^item> \<open>Failure_Routing\<close> (\<open>policies/failure_routing.py\<close>, \<open>semantics/attempt.py\<close>): the classification of a failure,
    the route of a slice, the admission of an automatic recovery and the rework plan of an attempt. A chain of admitted
    recoveries is bounded by the profile and keeps every budget; the layers of a route are those of the rework.
  \<^item> \<open>Finding_Ledger\<close> (\<open>execution_control/failure.py\<close>, \<open>execution_control/contract.py\<close>, \<open>state/event_ledger.py\<close>,
    \<open>work/lifecycle.py\<close>): frozen contracts and evidence, finding identities, routes, the observation event, the ledger
    file with its lines, its projection and the append with a write that may end early, and the plan of an observation.
    The ledger is read as exactly the events that were appended completely (\<open>ledger_holds\<close>).
  \<^item> \<open>Failure_Registration\<close> (\<open>work/lifecycle.py\<close>): the application of a plan, with the results of the project lock as
    arguments. Over any history of registrations a finding is retried at most twice, then its design must be
    clarified; a registration can be repeated without effect; a contract is built only from sorted check ids.

  \<^bold>\<open>Admission.\<close> \<open>Admission\<close> (\<open>execution_control/admission.py\<close>, \<open>execution_control/repair_admission.py\<close>): the budget
  of the active execution units, the plan that admits one more, the audit of an inventory with its receipt, and the
  binding under which a repair is admitted beside the blocked owner of its slice. The order in which units are found does
  not matter (\<open>normalize_mset\<close>), a plan is READY exactly under the named conditions, and along any history of admissions
  (\<open>admission_history\<close>) the budgets hold. \<open>Admission_Lock\<close> (\<open>execution_control/admission.py\<close>, \<open>work/lifecycle.py\<close>) has the lock
  file of a project with its metadata, acquisition, inspection, release and recovery plan, the check of an admission under the
  lock, and the registration of a failure that takes it. The competing processes are a step relation (\<open>lock_step\<close>)
  over single file operations; the locale \<open>exclusive_lock\<close> states what a client of a lock relies on and is interpreted on
  it (\<open>project_lock\<close>): at most one process holds the lock, and the operations are runs of these steps.

  \<^bold>\<open>The exact-file transaction\<close> (\<open>execution_control/exact_file_transaction.py\<close>, \<open>primitives.py\<close>).
  \<open>Exact_Plan\<close> has targets, plans, authorizations and manifests; \<open>Exact_Store\<close> the world: a file tree, the
  advisory lock and a schedule of faults, in which every durable write may fail before or after its effect or the
  process may stop there. The locale \<open>framed_store\<close> there states the frame of a write and is interpreted on
  the tree (\<open>files\<close>). \<open>Exact_Apply\<close> has apply, rollback and recovery; \<open>Exact_Atomicity\<close> the invariant of
  targets and manifest that every operation keeps under every schedule; \<open>Exact_Sample\<close> example runs;
  \<open>Exact_Properties\<close> the promises (commit installs all, refusal touches nothing, a kill is repaired by recovery,
  an authorization is used once) and three runs that break one; \<open>Exact_Inspect\<close> the inspection of the manifests
  on disk; \<open>Generation_Lineage\<close> (\<open>semantics/generation_lineage.py\<close>) the generations of the shared files.

  \<^bold>\<open>Releases.\<close> \<open>Release_Risk\<close> (\<open>release/risk_policy.py\<close>, \<open>release/publication_policy.py\<close>),
  \<open>Release_State\<close>, \<open>Release_Order\<close> and \<open>Release_Writer\<close> (\<open>workflow/release_order.py\<close>): the grade of an
  operation, the documents of the lineage, the pipeline of nine actions, and the writers with their planned failure
  points. The locale \<open>release_writer\<close> states what an application may rely on; it is interpreted on the in-memory
  writer (\<open>memory\<close>) and on the file writer over the faulty store (\<open>files_writer\<close>). The state only advances
  along the pipeline, the journal is written ahead of the projection, and a recovery completes an interrupted
  application. \<open>Semver_Decision\<close> (\<open>policies/semver_decision.py\<close>) decides the version of a package against
  the release state.

  \<^bold>\<open>How the parts meet.\<close> A classification (\<open>Work_Risk\<close>) gives the budget (\<open>Work_Budget\<close>), the governance
  binding (\<open>Governance_Profile\<close>) and the route (\<open>Route_Profile\<close>) of the Work that \<open>build_work\<close> makes; its
  scope is the \<open>work_scope\<close> of \<open>Work_Scope\<close>, and the amendments of it are judged by the decisions of \<open>check_scope\<close>
  and bounded by the budget; its saved document is what \<open>Work_Dependency\<close> scans,
  although that document (\<open>work_as_dict\<close>) has no field for the dependencies a scanned one may declare. The release writer uses the file
  primitives of \<open>Exact_Store\<close>; the version decision reads the history of \<open>Release_State\<close>; the lineage of
  generations is read from the manifests of a transaction. The registration of a failure reads the execution unit and the
  scope digest of the Work, and its retries obey the rework plan of \<open>Failure_Routing\<close>. Admission counts the execution units the
  Works carry, and the observation of a failure checks that the unit is admitted.

  \<^bold>\<open>Not modelled.\<close> The transactional writers of Work and CR documents, the runtime state and CURRENT pointer,
  the event ledgers other than the finding ledger, story evidence, preflight and validation runs, installation, workspaces, project documents,
  evaluations, checks and command lines: they are dominated by file, git and subprocess effects or by document
  schemas, and are not needed by the parts above. Unicode beyond ASCII is carried as bytes; stripping and lower case
  of characters outside ASCII are out of the model, and so is a file system other than POSIX.
\<close>

end
